(* ===== verification/Prelude.thy ===== *)
theory Prelude
  imports
    Main
    "HOL-Library.Char_ord"
    "HOL-Library.List_Lexorder"
    "HOL-Library.Product_Lexorder"
    "HOL-Library.Option_ord"
begin

text \<open>
  The vocabulary the component theories share.

  The daemon keeps all of its state in one SQLite database that a single actor writes
  (\<open>daemon/src/store.rs\<close>). A table is modelled as the list of its rows in rowid order, and the SQL
  statements of the source become the operators below: \<open>update_where\<close> is \<open>UPDATE .. WHERE\<close>,
  \<open>delete_where\<close> is \<open>DELETE .. WHERE\<close>, \<open>count_where\<close> is the number of affected (or selected) rows,
  \<open>find\<close> and \<open>filter\<close> are \<open>SELECT\<close>. A nullable column has an option type; \<open>coalesce\<close>, \<open>sql_gt\<close> and
  the other comparison operators follow SQL's rule that a comparison with NULL is not true.

  Integers: a signed 64-bit column or variable (amounts in sats, unix seconds) is an \<open>int\<close>, an
  unsigned 64- or 128-bit quantity is a \<open>nat\<close>. Saturating, checked and converting operations of
  the source are written out (\<open>as_i64\<close>, \<open>checked_mul_u64\<close>, \<open>saturating_add_u128\<close>); sums of
  timestamps and configured durations are taken in \<open>int\<close>.
\<close>

named_theorems sql_simps "unfolding and rewriting of the table operators"
named_theorems frame_simps "columns and tables an operation does not touch"

subsection \<open>SQL operators on tables\<close>

definition update_where :: "('r \<Rightarrow> bool) \<Rightarrow> ('r \<Rightarrow> 'r) \<Rightarrow> 'r list \<Rightarrow> 'r list" where
  "update_where P f rs = map (\<lambda>r. if P r then f r else r) rs"

definition delete_where :: "('r \<Rightarrow> bool) \<Rightarrow> 'r list \<Rightarrow> 'r list" where
  "delete_where P rs = filter (\<lambda>r. \<not> P r) rs"

definition count_where :: "('r \<Rightarrow> bool) \<Rightarrow> 'r list \<Rightarrow> nat" where
  "count_where P rs = length (filter P rs)"

definition sum_where :: "('r \<Rightarrow> bool) \<Rightarrow> ('r \<Rightarrow> int) \<Rightarrow> 'r list \<Rightarrow> int" where
  "sum_where P f rs = sum_list (map f (filter P rs))"

fun coalesce :: "'a option \<Rightarrow> 'a option \<Rightarrow> 'a option" where
  "coalesce (Some x) _ = Some x"
| "coalesce None y = y"

definition unwrap_or :: "'a option \<Rightarrow> 'a \<Rightarrow> 'a" where
  "unwrap_or v d = (case v of None \<Rightarrow> d | Some x \<Rightarrow> x)"

definition sql_gt :: "int option \<Rightarrow> int \<Rightarrow> bool" where
  "sql_gt v n = (case v of None \<Rightarrow> False | Some x \<Rightarrow> n < x)"

definition sql_lt :: "int option \<Rightarrow> int \<Rightarrow> bool" where
  "sql_lt v n = (case v of None \<Rightarrow> False | Some x \<Rightarrow> x < n)"

definition sql_le :: "int option \<Rightarrow> int \<Rightarrow> bool" where
  "sql_le v n = (case v of None \<Rightarrow> False | Some x \<Rightarrow> x \<le> n)"

definition sql_ge :: "int option \<Rightarrow> int \<Rightarrow> bool" where
  "sql_ge v n = (case v of None \<Rightarrow> False | Some x \<Rightarrow> n \<le> x)"

lemma unwrap_or_simps [simp]: "unwrap_or None d = d" "unwrap_or (Some x) d = x"
  by (simp_all add: unwrap_or_def)

lemma coalesce_None [simp]: "coalesce x None = x"
  by (cases x) simp_all

lemma sql_cmp_simps [simp]:
  "\<not> sql_gt None n" "sql_gt (Some x) n \<longleftrightarrow> n < x"
  "\<not> sql_lt None n" "sql_lt (Some x) n \<longleftrightarrow> x < n"
  "\<not> sql_le None n" "sql_le (Some x) n \<longleftrightarrow> x \<le> n"
  "\<not> sql_ge None n" "sql_ge (Some x) n \<longleftrightarrow> n \<le> x"
  by (simp_all add: sql_gt_def sql_lt_def sql_le_def sql_ge_def)

subsection \<open>Laws of the table operators\<close>

lemma update_where_Nil [simp]: "update_where P f [] = []"
  by (simp add: update_where_def)

lemma update_where_Cons [simp]:
  "update_where P f (r # rs) = (if P r then f r else r) # update_where P f rs"
  by (simp add: update_where_def)

lemma length_update_where [simp]: "length (update_where P f rs) = length rs"
  by (simp add: update_where_def)

lemma set_update_where:
  "set (update_where P f rs) = (\<lambda>r. if P r then f r else r) ` set rs"
  by (simp add: update_where_def)

lemma map_update_where:
  "(\<And>r. P r \<Longrightarrow> k (f r) = k r) \<Longrightarrow> map k (update_where P f rs) = map k rs"
  by (simp add: update_where_def)

lemma update_where_none:
  "count_where P rs = 0 \<Longrightarrow> update_where P f rs = rs"
  by (induction rs) (auto simp: count_where_def)

lemma update_where_append [simp]:
  "update_where P f (xs @ ys) = update_where P f xs @ update_where P f ys"
  by (simp add: update_where_def)

lemma update_where_hit: "r \<in> set rs \<Longrightarrow> P r \<Longrightarrow> f r \<in> set (update_where P f rs)"
  by (auto simp: update_where_def image_iff)

lemma update_where_miss: "r \<in> set rs \<Longrightarrow> \<not> P r \<Longrightarrow> r \<in> set (update_where P f rs)"
  by (auto simp: update_where_def image_iff)

lemma in_update_whereE:
  assumes "r \<in> set (update_where P f rs)"
  obtains (hit) r0 where "r0 \<in> set rs" "P r0" "r = f r0"
  | (miss) "r \<in> set rs" "\<not> P r"
  using assms by (auto simp: set_update_where split: if_splits)

lemma delete_where_subset: "set (delete_where P rs) \<subseteq> set rs"
  by (auto simp: delete_where_def)

lemma in_delete_where [simp]: "r \<in> set (delete_where P rs) \<longleftrightarrow> r \<in> set rs \<and> \<not> P r"
  by (auto simp: delete_where_def)

lemma delete_where_Nil [simp]: "delete_where P [] = []"
  by (simp add: delete_where_def)

lemma distinct_map_delete_where:
  "distinct (map k rs) \<Longrightarrow> distinct (map k (delete_where P rs))"
  by (simp add: delete_where_def distinct_map_filter)

lemma count_where_Nil [simp]: "count_where P [] = 0"
  by (simp add: count_where_def)

lemma count_where_Cons [simp]:
  "count_where P (r # rs) = (if P r then Suc (count_where P rs) else count_where P rs)"
  by (simp add: count_where_def)

lemma count_where_append [simp]:
  "count_where P (xs @ ys) = count_where P xs + count_where P ys"
  by (simp add: count_where_def)

lemma count_where_0_iff: "count_where P rs = 0 \<longleftrightarrow> (\<forall>r\<in>set rs. \<not> P r)"
  by (induction rs) auto

lemma count_where_pos_iff: "0 < count_where P rs \<longleftrightarrow> (\<exists>r\<in>set rs. P r)"
  by (induction rs) auto

lemma count_where_unique:
  assumes "distinct (map k rs)" "\<And>r. P r \<Longrightarrow> k r = x"
  shows "count_where P rs \<le> 1"
  using assms
proof (induction rs)
  case (Cons r rs)
  show ?case
  proof (cases "P r")
    case True
    have "\<not> P q" if "q \<in> set rs" for q
    proof
      assume "P q"
      with True Cons.prems(2) have "k q = k r" by metis
      with that Cons.prems(1) show False by (auto simp: image_iff)
    qed
    then have "count_where P rs = 0" by (simp add: count_where_0_iff)
    with True show ?thesis by simp
  next
    case False
    with Cons show ?thesis by simp
  qed
qed simp

lemma find_key_unique:
  assumes "distinct (map k rs)" "r \<in> set rs"
  shows "List.find (\<lambda>q. k q = k r) rs = Some r"
  using assms by (induction rs) (auto simp: image_iff)

lemma find_Some_mem: "List.find P rs = Some r \<Longrightarrow> r \<in> set rs \<and> P r"
  by (auto simp: find_Some_iff)

lemma find_None_all: "List.find P rs = None \<longleftrightarrow> (\<forall>r\<in>set rs. \<not> P r)"
  by (auto simp: find_None_iff)

lemma find_update_where_same:
  assumes "\<And>r. k (f r) = k r"
  shows "List.find (\<lambda>r. k r = x) (update_where P f rs)
       = map_option (\<lambda>r. if P r then f r else r) (List.find (\<lambda>r. k r = x) rs)"
  using assms by (induction rs) auto

lemma find_append:
  "List.find P (xs @ ys) = (case List.find P xs of None \<Rightarrow> List.find P ys | Some r \<Rightarrow> Some r)"
  by (induction xs) auto

subsection \<open>Machine integers\<close>

abbreviation u64_limit :: nat where "u64_limit \<equiv> 2 ^ 64"
abbreviation u32_limit :: nat where "u32_limit \<equiv> 2 ^ 32"
abbreviation u128_limit :: nat where "u128_limit \<equiv> 2 ^ 128"

text \<open>Rust's \<open>as i64\<close> on a \<open>u64\<close>: the same bits read as two's complement.\<close>

definition as_i64 :: "nat \<Rightarrow> int" where
  "as_i64 n = (if n < 2 ^ 63 then int n else int n - 2 ^ 64)"

text \<open>Rust's \<open>as u64\<close> on an \<open>i64\<close>.\<close>

definition as_u64 :: "int \<Rightarrow> nat" where
  "as_u64 i = (if 0 \<le> i then nat i else nat (i + 2 ^ 64))"

definition checked_mul_u64 :: "nat \<Rightarrow> nat \<Rightarrow> nat option" where
  "checked_mul_u64 a b = (if a * b < u64_limit then Some (a * b) else None)"

definition saturating_add_u128 :: "nat \<Rightarrow> nat \<Rightarrow> nat" where
  "saturating_add_u128 a b = min (a + b) (u128_limit - 1)"

text \<open>\<open>nat\<close> subtraction stops at zero, which is Rust's \<open>saturating_sub\<close> on unsigned integers.\<close>

definition saturating_sub :: "nat \<Rightarrow> nat \<Rightarrow> nat" where
  "saturating_sub a b = a - b"

lemma as_i64_small [simp]: "n < 2 ^ 63 \<Longrightarrow> as_i64 n = int n"
  by (simp add: as_i64_def)

lemma as_u64_nonneg [simp]: "0 \<le> i \<Longrightarrow> as_u64 i = nat i"
  by (simp add: as_u64_def)

lemma as_u64_as_i64: "n < u64_limit \<Longrightarrow> as_u64 (as_i64 n) = n"
  by (auto simp: as_u64_def as_i64_def)

subsection \<open>Strings\<close>

fun strip_prefix :: "string \<Rightarrow> string \<Rightarrow> string option" where
  "strip_prefix [] s = Some s"
| "strip_prefix (p # ps) [] = None"
| "strip_prefix (p # ps) (c # cs) = (if p = c then strip_prefix ps cs else None)"

definition starts_with :: "string \<Rightarrow> string \<Rightarrow> bool" where
  "starts_with p s = (strip_prefix p s \<noteq> None)"

lemma strip_prefix_append [simp]: "strip_prefix p (p @ s) = Some s"
  by (induction p) simp_all

lemma strip_prefix_Some: "strip_prefix p s = Some t \<longleftrightarrow> s = p @ t"
  by (induction p s rule: strip_prefix.induct) auto

lemma starts_with_append [simp]: "starts_with p (p @ s)"
  by (simp add: starts_with_def)

lemma starts_with_iff: "starts_with p s \<longleftrightarrow> (\<exists>t. s = p @ t)"
  by (auto simp: starts_with_def strip_prefix_Some)

text \<open>ASCII white space, and \<open>str::trim\<close> on it.\<close>

definition is_space :: "char \<Rightarrow> bool" where
  "is_space c = (c = CHR '' '' \<or> c = CHR 0x09 \<or> c = CHR 0x0A \<or> c = CHR 0x0B \<or> c = CHR 0x0C \<or> c = CHR 0x0D)"

definition str_trim :: "string \<Rightarrow> string" where
  "str_trim s = rev (dropWhile is_space (rev (dropWhile is_space s)))"

text \<open>Decimal rendering, as \<open>format!\<close> prints an integer.\<close>

definition digit_char :: "nat \<Rightarrow> char" where
  "digit_char d = char_of (48 + d)"

fun nat_str :: "nat \<Rightarrow> string" where
  "nat_str n = (if n < 10 then [digit_char n] else nat_str (n div 10) @ [digit_char (n mod 10)])"

declare nat_str.simps [simp del]

definition int_str :: "int \<Rightarrow> string" where
  "int_str i = (if i < 0 then CHR ''-'' # nat_str (nat (- i)) else nat_str (nat i))"

definition is_digit :: "char \<Rightarrow> bool" where
  "is_digit c = (let n = of_char c :: nat in 48 \<le> n \<and> n \<le> 57)"

definition char_digit :: "char \<Rightarrow> nat" where
  "char_digit c = of_char c - 48"

definition digits_val :: "string \<Rightarrow> nat" where
  "digits_val s = fold (\<lambda>c acc. acc * 10 + char_digit c) s 0"

lemma char_digit_digit_char: "d < 10 \<Longrightarrow> char_digit (digit_char d) = d"
  by (simp add: char_digit_def digit_char_def)

lemma digits_val_append: "digits_val (s @ [c]) = digits_val s * 10 + char_digit c"
  by (simp add: digits_val_def)

lemma digits_val_nat_str: "digits_val (nat_str n) = n"
proof (induction n rule: nat_str.induct)
  case (1 n)
  show ?case
  proof (cases "n < 10")
    case True
    then show ?thesis
      by (simp add: nat_str.simps [of n] digits_val_def char_digit_digit_char)
  next
    case False
    with "1.IH" show ?thesis
      by (simp add: nat_str.simps [of n] digits_val_append char_digit_digit_char)
  qed
qed

lemma nat_str_inj [simp]: "nat_str m = nat_str n \<longleftrightarrow> m = n"
  by (metis digits_val_nat_str)

lemma digit_char_not_minus: "d < 10 \<Longrightarrow> digit_char d \<noteq> CHR ''-''"
proof
  assume "d < 10" and "digit_char d = CHR ''-''"
  then have "(of_char (digit_char d) :: nat) = 45" by simp
  with \<open>d < 10\<close> show False by (simp add: digit_char_def)
qed

lemma hd_nat_str: "hd (nat_str n) \<noteq> CHR ''-'' \<and> nat_str n \<noteq> []"
proof (induction n rule: nat_str.induct)
  case (1 n)
  show ?case
  proof (cases "n < 10")
    case True
    then show ?thesis by (simp add: nat_str.simps [of n] digit_char_not_minus)
  next
    case False
    with "1.IH" show ?thesis by (simp add: nat_str.simps [of n] hd_append)
  qed
qed

lemma nat_str_not_minus: "CHR ''-'' # s \<noteq> nat_str n" "nat_str n \<noteq> CHR ''-'' # s"
  using hd_nat_str [of n] by (metis list.sel(1))+

lemma int_str_inj [simp]: "int_str i = int_str j \<longleftrightarrow> i = j"
  by (auto simp: int_str_def nat_str_not_minus eq_nat_nat_iff split: if_splits)

text \<open>An em dash in a message, as its UTF-8 bytes.\<close>

definition em_dash :: string where
  "em_dash = [CHR 0xE2, CHR 0x80, CHR 0x94]"

text \<open>
  SQLite's \<open>LIKE\<close>: \<open>%\<close> matches any run of characters, \<open>_\<close> any one, and letters compare without
  ASCII case.
\<close>

definition ascii_lower :: "char \<Rightarrow> char" where
  "ascii_lower c =
     (let n = of_char c :: nat in if 65 \<le> n \<and> n \<le> 90 then char_of (n + 32) else c)"

fun sql_like :: "string \<Rightarrow> string \<Rightarrow> bool" where
  "sql_like [] s = (s = [])"
| "sql_like (p # ps) [] = (p = CHR ''%'' \<and> sql_like ps [])"
| "sql_like (p # ps) (c # cs) =
     (if p = CHR ''%'' then sql_like ps (c # cs) \<or> sql_like (p # ps) cs
      else (p = CHR ''_'' \<or> ascii_lower p = ascii_lower c) \<and> sql_like ps cs)"

lemma sql_like_percent [simp]: "sql_like [CHR ''%''] s"
  by (induction s) simp_all

lemma sql_like_prefix:
  assumes "CHR ''%'' \<notin> set p"
  shows "sql_like (p @ [CHR ''%'']) (p @ s)"
  using assms by (induction p) auto

text \<open>\<open>str::parse::<u64>\<close> and \<open>str::parse::<i64>\<close>: decimal digits after an optional sign.\<close>

definition parse_u64 :: "string \<Rightarrow> nat option" where
  "parse_u64 s =
     (let t = (case s of c # cs \<Rightarrow> if c = CHR ''+'' then cs else s | [] \<Rightarrow> [])
      in if t \<noteq> [] \<and> list_all is_digit t \<and> digits_val t < 2 ^ 64 then Some (digits_val t) else None)"

definition parse_i64 :: "string \<Rightarrow> int option" where
  "parse_i64 s =
     (let neg = (case s of c # _ \<Rightarrow> c = CHR ''-'' | [] \<Rightarrow> False);
          t = (case s of c # cs \<Rightarrow> if c = CHR ''+'' \<or> c = CHR ''-'' then cs else s | [] \<Rightarrow> []);
          v = (if neg then - int (digits_val t) else int (digits_val t))
      in if t \<noteq> [] \<and> list_all is_digit t \<and> - (2 ^ 63) \<le> v \<and> v < 2 ^ 63 then Some v else None)"

subsection \<open>JSON values\<close>

text \<open>
  A \<open>*_json\<close> column holds the text of a JSON value; the model stores the value itself, so the
  round trip through \<open>serde_json\<close> and SQLite's JSON functions is not modelled.
  \<open>json_get k\<close> is SQLite's \<open>json_extract(.., '$.k')\<close> on a top-level member.
\<close>

datatype json =
    JNull
  | JBool bool
  | JInt int
  | JStr string
  | JArr "json list"
  | JObj "(string \<times> json) list"

fun json_get :: "string \<Rightarrow> json \<Rightarrow> json option" where
  "json_get k (JObj kvs) = map_of kvs k"
| "json_get k _ = None"

fun json_int :: "string \<Rightarrow> json \<Rightarrow> int option" where
  "json_int k j = (case json_get k j of Some (JInt i) \<Rightarrow> Some i | _ \<Rightarrow> None)"

fun json_text :: "string \<Rightarrow> json \<Rightarrow> string option" where
  "json_text k j = (case json_get k j of Some (JStr s) \<Rightarrow> Some s | _ \<Rightarrow> None)"

fun json_of_int :: "int option \<Rightarrow> json" where
  "json_of_int None = JNull"
| "json_of_int (Some i) = JInt i"

fun json_of_text :: "string option \<Rightarrow> json" where
  "json_of_text None = JNull"
| "json_of_text (Some s) = JStr s"

definition json_has :: "string \<Rightarrow> json \<Rightarrow> bool" where
  "json_has k j = (json_get k j \<noteq> None)"

end
