(* ===== verification/Schema.thy ===== *)
theory Schema
  imports Prelude
begin

text \<open>
  The durable state: one record per row of the tables of \<open>daemon/src/store.rs\<close> (\<open>SCHEMA\<close> and the
  migrations that add columns), the database as a record of tables, the INSERT statements with
  their uniqueness constraints, and the well-formedness the constraints maintain.

  A column every writer fills is not an option; a column that may be NULL is. Text columns that hold
  a state (\<open>'PENDING'\<close>, \<open>'HELD'\<close>, ..) stay strings, as in the code, which compares and falls through
  on them. A \<open>*_json\<close> column is a \<open>json\<close> value, or a record where its shape is fixed.
\<close>

subsection \<open>Rows\<close>

record resources =
  r_cpu :: nat
  r_mem_mb :: nat
  r_disk_gb :: nat

record subscription =
  sub_id :: string
  sub_recipe :: "string option"
  sub_listing :: "string option"
  sub_instance :: "string option"
  sub_buyer :: "string option"
  sub_state :: string
  sub_params :: json
  sub_dest :: "string option"
  sub_period_s :: "int option"
  sub_renew_lead_s :: "int option"
  sub_retention_s :: "int option"
  sub_paid_through :: "int option"
  sub_soft_date :: "int option"
  sub_next_deadline :: "int option"
  sub_floor :: "int option" \<comment> \<open>\<open>suspend_not_before\<close>, migration 3\<close>
  sub_created :: int
  sub_updated :: int

record invoice =
  inv_id :: string
  inv_sub :: "string option"
  inv_ext :: string
  inv_backend :: "string option"
  inv_hash :: "string option"
  inv_kind :: "string option"
  inv_bolt11 :: "string option"
  inv_amount :: "int option"
  inv_received :: "int option" \<comment> \<open>\<open>received_msat\<close>, NULL on legacy rows\<close>
  inv_status :: string
  inv_expires :: "int option"
  inv_applied :: "int option"
  inv_issued :: "int option"
  inv_settled :: "int option"

record event =
  ev_id :: int
  ev_sub :: "string option"
  ev_kind :: string
  ev_detail :: json
  ev_at :: int

record reservation =
  rsv_id :: string
  rsv_order :: string
  rsv_res :: resources
  rsv_ports :: nat
  rsv_state :: string
  rsv_expires :: int
  rsv_created :: int

record refund_attempt =
  rf_id :: string
  rf_sub :: "string option"
  rf_dest :: "string option"
  rf_amount :: "int option"
  rf_key :: string
  rf_payment :: "string option"
  rf_status :: string
  rf_attempts :: "int option"
  rf_bolt11 :: "string option"
  rf_expiry :: "int option"
  rf_gen :: int
  rf_created :: int
  rf_updated :: int
  rf_fence :: "int option" \<comment> \<open>\<open>migration_unverified_at\<close>, migration 12\<close>

record outbox_row =
  ob_id :: string
  ob_recipient :: "string option"
  ob_sub :: "string option"
  ob_type :: string
  ob_payload :: json
  ob_state :: string
  ob_attempts :: int
  ob_created :: int
  ob_sent :: "int option"

record op_invocation =
  oi_sender :: string
  oi_request :: string
  oi_sub :: "string option"
  oi_op :: "string option"
  oi_state :: string
  oi_result :: "json option"
  oi_error :: "json option"
  oi_created :: int
  oi_finished :: "int option"

record inbound_request =
  ir_sender :: string
  ir_request :: string
  ir_kind :: string
  ir_msg_type :: "string option"
  ir_response :: "json option"
  ir_created :: int

record instance_row =
  ins_id :: string
  ins_sub :: "string option"
  ins_box :: "string option"
  ins_kind :: "string option"
  ins_handles :: "json option"
  ins_state :: "string option"
  ins_created :: int
  ins_updated :: int

record listing_row =
  li_id :: string
  li_recipe :: "string option"
  li_d :: "string option"
  li_event :: "string option"
  li_amount :: "int option"
  li_period :: "int option"
  li_lead :: "int option"
  li_retention :: "int option"
  li_state :: "string option"
  li_updated :: "int option"

record native_session =
  ncs_id :: string
  ncs_sub :: "string option"
  ncs_state :: string

record teardown_failure =
  td_id :: string
  td_sub :: string
  td_hook :: string
  td_handles :: "json option"
  td_attempts :: int
  td_error :: "string option"
  td_first :: int
  td_last :: int
  td_resolved :: "int option"

record sweep_attempt =
  sw_id :: string
  sw_bolt11 :: "string option"
  sw_amount :: "int option"
  sw_max_outlay :: int
  sw_status :: string
  sw_attempts :: int
  sw_payment :: "string option"
  sw_error :: "string option"
  sw_created :: int
  sw_sent :: "int option"
  sw_fence :: "int option"

record db =
  subs :: "subscription list"
  invoices :: "invoice list"
  events :: "event list"
  event_seq :: int \<comment> \<open>SQLite's AUTOINCREMENT counter of \<open>event_log\<close>\<close>
  reservations :: "reservation list"
  refunds :: "refund_attempt list"
  outbox :: "outbox_row list"
  op_invocations :: "op_invocation list"
  inbound_requests :: "inbound_request list"
  instances :: "instance_row list"
  sessions :: "native_session list"
  teardowns :: "teardown_failure list"
  sweeps :: "sweep_attempt list"
  listings :: "listing_row list"
  heartbeat :: "int option" \<comment> \<open>the single row of \<open>daemon_state\<close>\<close>

definition empty_db :: db where
  "empty_db = \<lparr>subs = [], invoices = [], events = [], event_seq = 0, reservations = [],
     refunds = [], outbox = [], op_invocations = [], inbound_requests = [], instances = [],
     sessions = [], teardowns = [], sweeps = [], listings = [], heartbeat = None\<rparr>"

text \<open>
  What a transaction may fail with: a violated uniqueness constraint, a typed business failure
  (\<open>reservation::NoHeldReservation\<close>), a column value outside the Rust type it is read into, an
  \<open>anyhow!\<close>/\<open>bail!\<close> text, a SQLite failure with its primary code, one of these under an \<open>anyhow\<close>
  context, or the refusal of a degraded store.
\<close>

datatype sqlite_code =
    DiskFull
  | DatabaseCorrupt
  | NotADatabase
  | SystemIoFailure
  | ReadOnly
  | DatabaseBusy
  | DatabaseLocked
  | OtherCode string

datatype store_error =
    ConstraintViolation string
  | NoHeldReservation string nat
  | Bail string
  | OutOfRange
  | Sqlite sqlite_code
  | Context string store_error
  | Degraded

type_synonym 'a tx = "db \<Rightarrow> store_error + 'a \<times> db"

subsection \<open>Statements several components share\<close>

definition insert_event :: "string option \<Rightarrow> string \<Rightarrow> json \<Rightarrow> int \<Rightarrow> db \<Rightarrow> db" where
  "insert_event sub kind detail now d =
     d\<lparr>events := events d @ [\<lparr>ev_id = event_seq d + 1, ev_sub = sub, ev_kind = kind,
                              ev_detail = detail, ev_at = now\<rparr>],
       event_seq := event_seq d + 1\<rparr>"

definition find_sub :: "string \<Rightarrow> db \<Rightarrow> subscription option" where
  "find_sub s d = List.find (\<lambda>r. sub_id r = s) (subs d)"

definition find_instance :: "string \<Rightarrow> db \<Rightarrow> instance_row option" where
  "find_instance i d = List.find (\<lambda>r. ins_id r = i) (instances d)"

definition find_invoice_ext :: "string \<Rightarrow> db \<Rightarrow> invoice option" where
  "find_invoice_ext e d = List.find (\<lambda>r. inv_ext r = e) (invoices d)"

text \<open>\<open>INSERT INTO outbox .. ON CONFLICT(id) DO NOTHING\<close>, the statement of every enqueue.\<close>

definition enqueue_row ::
  "string \<Rightarrow> string option \<Rightarrow> string option \<Rightarrow> string \<Rightarrow> json \<Rightarrow> int \<Rightarrow> db \<Rightarrow> db" where
  "enqueue_row i recipient sub ty payload now d =
     (if \<exists>r\<in>set (outbox d). ob_id r = i then d
      else d\<lparr>outbox := outbox d @ [\<lparr>ob_id = i, ob_recipient = recipient, ob_sub = sub,
               ob_type = ty, ob_payload = payload, ob_state = ''PENDING'', ob_attempts = 0,
               ob_created = now, ob_sent = None\<rparr>]\<rparr>)"

subsection \<open>Well-formedness\<close>

text \<open>
  The primary keys and UNIQUE columns, the event log's strictly increasing ids, and the shape of
  the refund ledger: every \<open>refund_attempt\<close> is \<open>ref-<ext>\<close> keyed \<open>refund:<ext>\<close>.
\<close>

definition refund_keyed :: "refund_attempt \<Rightarrow> bool" where
  "refund_keyed r \<longleftrightarrow> (\<exists>e. rf_id r = ''ref-'' @ e \<and> rf_key r = ''refund:'' @ e)"

definition db_ok :: "db \<Rightarrow> bool" where
  "db_ok d \<longleftrightarrow>
     distinct (map sub_id (subs d)) \<and>
     distinct (map inv_id (invoices d)) \<and>
     distinct (map inv_ext (invoices d)) \<and>
     distinct (map rsv_order (reservations d)) \<and>
     distinct (map rf_key (refunds d)) \<and>
     (\<forall>r\<in>set (refunds d). refund_keyed r) \<and>
     distinct (map ob_id (outbox d)) \<and>
     distinct (map td_id (teardowns d)) \<and>
     distinct (map sw_id (sweeps d)) \<and>
     sorted_wrt (<) (map ev_id (events d)) \<and>
     (\<forall>e\<in>set (events d). ev_id e \<le> event_seq d)"

lemma db_ok_empty [simp]: "db_ok empty_db"
  by (simp add: db_ok_def empty_db_def)

lemma db_okD:
  assumes "db_ok d"
  shows "distinct (map sub_id (subs d))" "distinct (map inv_id (invoices d))"
    "distinct (map inv_ext (invoices d))" "distinct (map rsv_order (reservations d))"
    "distinct (map rf_key (refunds d))" "\<And>r. r \<in> set (refunds d) \<Longrightarrow> refund_keyed r"
    "distinct (map ob_id (outbox d))" "distinct (map td_id (teardowns d))"
    "distinct (map sw_id (sweeps d))" "sorted_wrt (<) (map ev_id (events d))"
    "\<And>e. e \<in> set (events d) \<Longrightarrow> ev_id e \<le> event_seq d"
  using assms by (auto simp: db_ok_def)

lemma db_ok_insert_event [simp]: "db_ok (insert_event s k j t d) \<longleftrightarrow> db_ok d"
  by (auto simp: db_ok_def insert_event_def sorted_wrt_append)

lemma insert_event_frame [frame_simps]:
  "subs (insert_event s k j t d) = subs d"
  "invoices (insert_event s k j t d) = invoices d"
  "reservations (insert_event s k j t d) = reservations d"
  "refunds (insert_event s k j t d) = refunds d"
  "outbox (insert_event s k j t d) = outbox d"
  "instances (insert_event s k j t d) = instances d"
  "teardowns (insert_event s k j t d) = teardowns d"
  "sweeps (insert_event s k j t d) = sweeps d"
  by (simp_all add: insert_event_def)

lemma db_ok_enqueue_row [simp]: "db_ok d \<Longrightarrow> db_ok (enqueue_row i rc s ty p now d)"
  by (auto simp: db_ok_def enqueue_row_def image_iff)

lemma enqueue_row_frame [frame_simps]:
  "subs (enqueue_row i rc s ty p now d) = subs d"
  "invoices (enqueue_row i rc s ty p now d) = invoices d"
  "reservations (enqueue_row i rc s ty p now d) = reservations d"
  "refunds (enqueue_row i rc s ty p now d) = refunds d"
  "events (enqueue_row i rc s ty p now d) = events d"
  "event_seq (enqueue_row i rc s ty p now d) = event_seq d"
  "instances (enqueue_row i rc s ty p now d) = instances d"
  "teardowns (enqueue_row i rc s ty p now d) = teardowns d"
  "sweeps (enqueue_row i rc s ty p now d) = sweeps d"
  by (simp_all add: enqueue_row_def)

lemma enqueue_row_idem [simp]:
  "enqueue_row i rc s ty p now (enqueue_row i rc' s' ty' p' now' d) = enqueue_row i rc' s' ty' p' now' d"
  by (auto simp: enqueue_row_def)

lemma find_sub_Some: "find_sub s d = Some r \<Longrightarrow> r \<in> set (subs d) \<and> sub_id r = s"
  by (auto simp: find_sub_def dest: find_Some_mem)

lemma find_sub_unique:
  "db_ok d \<Longrightarrow> r \<in> set (subs d) \<Longrightarrow> find_sub (sub_id r) d = Some r"
  by (simp add: find_sub_def db_ok_def find_key_unique)

lemma find_invoice_ext_Some:
  "find_invoice_ext e d = Some r \<Longrightarrow> r \<in> set (invoices d) \<and> inv_ext r = e"
  by (auto simp: find_invoice_ext_def dest: find_Some_mem)

lemma find_invoice_ext_unique:
  "db_ok d \<Longrightarrow> r \<in> set (invoices d) \<Longrightarrow> find_invoice_ext (inv_ext r) d = Some r"
  by (simp add: find_invoice_ext_def db_ok_def find_key_unique)

text \<open>Updates that keep a table's keys keep the database well formed.\<close>

lemma db_ok_subs_update:
  "db_ok d \<Longrightarrow> (\<And>r. sub_id (f r) = sub_id r) \<Longrightarrow> db_ok (d\<lparr>subs := update_where P f (subs d)\<rparr>)"
  by (simp add: db_ok_def map_update_where)

lemma db_ok_invoices_update:
  "db_ok d \<Longrightarrow> (\<And>r. inv_id (f r) = inv_id r) \<Longrightarrow> (\<And>r. inv_ext (f r) = inv_ext r)
   \<Longrightarrow> db_ok (d\<lparr>invoices := update_where P f (invoices d)\<rparr>)"
  by (simp add: db_ok_def map_update_where)

lemma db_ok_reservations_update:
  "db_ok d \<Longrightarrow> (\<And>r. rsv_order (f r) = rsv_order r)
   \<Longrightarrow> db_ok (d\<lparr>reservations := update_where P f (reservations d)\<rparr>)"
  by (simp add: db_ok_def map_update_where)

lemma db_ok_refunds_update:
  "db_ok d \<Longrightarrow> (\<And>r. rf_id (f r) = rf_id r) \<Longrightarrow> (\<And>r. rf_key (f r) = rf_key r)
   \<Longrightarrow> db_ok (d\<lparr>refunds := update_where P f (refunds d)\<rparr>)"
  by (auto simp: db_ok_def map_update_where set_update_where refund_keyed_def)

lemma db_ok_sweeps_update:
  "db_ok d \<Longrightarrow> (\<And>r. sw_id (f r) = sw_id r)
   \<Longrightarrow> db_ok (d\<lparr>sweeps := update_where P f (sweeps d)\<rparr>)"
  by (simp add: db_ok_def map_update_where)

lemma db_ok_teardowns_update:
  "db_ok d \<Longrightarrow> (\<And>r. td_id (f r) = td_id r)
   \<Longrightarrow> db_ok (d\<lparr>teardowns := update_where P f (teardowns d)\<rparr>)"
  by (simp add: db_ok_def map_update_where)

lemma db_ok_append_invoice:
  assumes "db_ok d" "\<forall>q\<in>set (invoices d). inv_id q \<noteq> inv_id n" "\<forall>q\<in>set (invoices d). inv_ext q \<noteq> inv_ext n"
  shows "db_ok (d\<lparr>invoices := invoices d @ [n]\<rparr>)"
proof -
  from assms(2,3) have "inv_id n \<notin> inv_id ` set (invoices d)" "inv_ext n \<notin> inv_ext ` set (invoices d)"
    by (auto simp: image_iff)
  with assms(1) show ?thesis by (simp add: db_ok_def)
qed

lemmas db_ok_updates =
  db_ok_subs_update db_ok_invoices_update db_ok_reservations_update
  db_ok_refunds_update db_ok_sweeps_update db_ok_teardowns_update

subsection \<open>Sample rows for the witnesses\<close>

definition sample_sub :: "string \<Rightarrow> string \<Rightarrow> subscription" where
  "sample_sub i st = \<lparr>sub_id = i, sub_recipe = Some ''vps'', sub_listing = None,
     sub_instance = Some ''box-1'', sub_buyer = Some ''b0'', sub_state = st, sub_params = JObj [],
     sub_dest = Some ''a@b.c'', sub_period_s = Some 100, sub_renew_lead_s = Some 10,
     sub_retention_s = Some 50, sub_paid_through = Some 1000, sub_soft_date = Some 990,
     sub_next_deadline = Some 990, sub_floor = None, sub_created = 0, sub_updated = 0\<rparr>"

definition sample_invoice :: "string \<Rightarrow> string \<Rightarrow> string \<Rightarrow> string \<Rightarrow> invoice" where
  "sample_invoice sub ext kind st = \<lparr>inv_id = ''inv-'' @ ext, inv_sub = Some sub, inv_ext = ext,
     inv_backend = None, inv_hash = None, inv_kind = Some kind, inv_bolt11 = None,
     inv_amount = Some 7, inv_received = None, inv_status = st, inv_expires = Some 900,
     inv_applied = None, inv_issued = Some 0, inv_settled = None\<rparr>"

definition sample_db :: "subscription list \<Rightarrow> invoice list \<Rightarrow> db" where
  "sample_db ss is = empty_db\<lparr>subs := ss, invoices := is\<rparr>"

lemmas sample_defs = sample_sub_def sample_invoice_def sample_db_def empty_db_def

end
