(* ===== verification/Reservation.thy ===== *)
theory Reservation
  imports Schema
begin

text \<open>
  Order-time capacity reservation, \<open>daemon/src/reservation.rs\<close>: \<open>reserve\<close>, \<open>consume_txn\<close> and
  \<open>release_txn\<close> with the live-usage and per-sender queries they decide on.

  A budget, a request and the summed usage are \<open>u32\<close> values. Their sums are written with the
  wrap-around of a release build (\<open>add_u32\<close>); the capacity theorem says under which bound on the
  request that sum is exact.
\<close>

record budget =
  b_cpu :: nat
  b_mem_mb :: nat
  b_disk_gb :: nat
  b_ports :: nat

record capacity_request =
  rq_res :: resources
  rq_ports :: nat

datatype reserve_outcome = Reserved | CapacityFull

definition add_u32 :: "nat \<Rightarrow> nat \<Rightarrow> nat" where
  "add_u32 a b = (a + b) mod u32_limit"

subsection \<open>Queries\<close>

text \<open>The paid or provisioning order of a hold: its capacity is committed whatever the TTL says.\<close>

definition order_paid :: "string \<Rightarrow> db \<Rightarrow> bool" where
  "order_paid oid d \<longleftrightarrow>
     (\<exists>i\<in>set (invoices d). inv_sub i = Some oid \<and> inv_kind i = Some ''order'' \<and> inv_status i = ''PAID'')"

definition order_provisioning :: "string \<Rightarrow> db \<Rightarrow> bool" where
  "order_provisioning oid d \<longleftrightarrow>
     (\<exists>s\<in>set (subs d). sub_id s = oid \<and> sub_state s = ''PROVISIONING'')"

definition live_held :: "int \<Rightarrow> db \<Rightarrow> reservation \<Rightarrow> bool" where
  "live_held now d r \<longleftrightarrow>
     rsv_state r = ''HELD'' \<and>
     (now < rsv_expires r \<or> order_paid (rsv_order r) d \<or> order_provisioning (rsv_order r) d)"

definition live_reservation :: "int \<Rightarrow> db \<Rightarrow> reservation \<Rightarrow> bool" where
  "live_reservation now d r \<longleftrightarrow> rsv_state r = ''CONSUMED'' \<or> live_held now d r"

text \<open>The four sums of \<open>live_usage\<close>; reading one that does not fit a \<open>u32\<close> is an error.\<close>

definition usage_sum :: "(reservation \<Rightarrow> bool) \<Rightarrow> (reservation \<Rightarrow> nat) \<Rightarrow> reservation list \<Rightarrow> nat" where
  "usage_sum P f rs = sum_list (map f (filter P rs))"

definition live_usage :: "int \<Rightarrow> string \<Rightarrow> db \<Rightarrow> store_error + nat \<times> nat \<times> nat \<times> nat" where
  "live_usage now excl d =
     (let P = (\<lambda>r. live_reservation now d r \<and> rsv_order r \<noteq> excl);
          c = usage_sum P (\<lambda>r. r_cpu (rsv_res r)) (reservations d);
          m = usage_sum P (\<lambda>r. r_mem_mb (rsv_res r)) (reservations d);
          k = usage_sum P (\<lambda>r. r_disk_gb (rsv_res r)) (reservations d);
          p = usage_sum P rsv_ports (reservations d)
      in if c < u32_limit \<and> m < u32_limit \<and> k < u32_limit \<and> p < u32_limit
         then Inr (c, m, k, p) else Inl OutOfRange)"

text \<open>
  \<open>sender_like_pattern\<close>: everything through the second colon, then \<open>%\<close>; \<open>None\<close> when the id has
  fewer than two colons.
\<close>

fun through_colons :: "nat \<Rightarrow> string \<Rightarrow> string option" where
  "through_colons n [] = None"
| "through_colons n (c # cs) =
     (if c = CHR '':'' then (case n of 0 \<Rightarrow> None | Suc 0 \<Rightarrow> Some [c]
                             | Suc (Suc k) \<Rightarrow> map_option (Cons c) (through_colons (Suc k) cs))
      else map_option (Cons c) (through_colons n cs))"

definition sender_like_pattern :: "string \<Rightarrow> string option" where
  "sender_like_pattern oid = map_option (\<lambda>p. p @ ''%'') (through_colons 2 oid)"

definition live_hold_count :: "int \<Rightarrow> string \<Rightarrow> string \<Rightarrow> db \<Rightarrow> nat" where
  "live_hold_count now like excl d =
     count_where (\<lambda>r. live_held now d r \<and> sql_like like (rsv_order r) \<and> rsv_order r \<noteq> excl)
       (reservations d)"

subsection \<open>Operations\<close>

definition resources_json :: "resources \<Rightarrow> json" where
  "resources_json r =
     JObj [(''cpu'', JInt (int (r_cpu r))), (''mem_mb'', JInt (int (r_mem_mb r))),
           (''disk_gb'', JInt (int (r_disk_gb r)))]"

definition reservation_journal :: "string \<Rightarrow> string \<Rightarrow> json \<Rightarrow> int \<Rightarrow> db \<Rightarrow> db" where
  "reservation_journal oid kind detail now d = insert_event (Some oid) kind detail now d"

definition reservation_state :: "string \<Rightarrow> db \<Rightarrow> string option" where
  "reservation_state oid d = map_option rsv_state (List.find (\<lambda>r. rsv_order r = oid) (reservations d))"

text \<open>\<open>INSERT .. ON CONFLICT(order_id) DO UPDATE\<close>: a new hold, or the retry's TTL and resources.\<close>

definition upsert_hold ::
  "string \<Rightarrow> string \<Rightarrow> capacity_request \<Rightarrow> int \<Rightarrow> int \<Rightarrow> unit tx" where
  "upsert_hold rid oid req expires_at now d =
     (if \<exists>r\<in>set (reservations d). rsv_order r = oid
      then Inr ((), d\<lparr>reservations := update_where (\<lambda>r. rsv_order r = oid)
             (\<lambda>r. r\<lparr>rsv_res := rq_res req, rsv_ports := rq_ports req, rsv_expires := expires_at\<rparr>)
             (reservations d)\<rparr>)
      else if \<exists>r\<in>set (reservations d). rsv_id r = rid
      then Inl (ConstraintViolation ''reservation.id'')
      else Inr ((), d\<lparr>reservations := reservations d @
             [\<lparr>rsv_id = rid, rsv_order = oid, rsv_res = rq_res req, rsv_ports = rq_ports req,
               rsv_state = ''HELD'', rsv_expires = expires_at, rsv_created = now\<rparr>]\<rparr>))"

definition over_budget :: "nat \<times> nat \<times> nat \<times> nat \<Rightarrow> capacity_request \<Rightarrow> budget \<Rightarrow> bool" where
  "over_budget u req b =
     (case u of (uc, um, ud, up) \<Rightarrow>
        b_cpu b < add_u32 uc (r_cpu (rq_res req)) \<or>
        b_mem_mb b < add_u32 um (r_mem_mb (rq_res req)) \<or>
        b_disk_gb b < add_u32 ud (r_disk_gb (rq_res req)) \<or>
        b_ports b < add_u32 up (rq_ports req))"

definition reserve ::
  "string \<Rightarrow> string \<Rightarrow> capacity_request \<Rightarrow> budget \<Rightarrow> int \<Rightarrow> int \<Rightarrow> nat \<Rightarrow> reserve_outcome tx" where
  "reserve rid oid req b expires_at now max_holds d =
     (if reservation_state oid d = Some ''CONSUMED'' then Inr (Reserved, d)
      else if reservation_state oid d = Some ''RELEASED''
      then Inl (Bail ''reserve: reservation is already RELEASED'')
      else if (case sender_like_pattern oid of None \<Rightarrow> False
               | Some like \<Rightarrow> max_holds \<le> live_hold_count now like oid d)
      then Inr (CapacityFull, d)
      else (case live_usage now oid d of
              Inl e \<Rightarrow> Inl e
            | Inr u \<Rightarrow>
                if over_budget u req b then Inr (CapacityFull, d)
                else (case upsert_hold rid oid req expires_at now d of
                        Inl e \<Rightarrow> Inl e
                      | Inr (_, d') \<Rightarrow>
                          Inr (Reserved, reservation_journal oid ''reserve''
                                 (resources_json (rq_res req)) now d'))))"

definition consume_txn :: "string \<Rightarrow> int \<Rightarrow> unit tx" where
  "consume_txn oid now d =
     (let P = (\<lambda>r. rsv_order r = oid \<and> rsv_state r = ''HELD'');
          n = count_where P (reservations d)
      in if n \<noteq> 1 then Inl (NoHeldReservation oid n)
         else Inr ((), reservation_journal oid ''reserve_consume'' (JObj []) now
                (d\<lparr>reservations := update_where P (\<lambda>r. r\<lparr>rsv_state := ''CONSUMED''\<rparr>) (reservations d)\<rparr>)))"

definition release_txn :: "string \<Rightarrow> int \<Rightarrow> db \<Rightarrow> bool \<times> db" where
  "release_txn oid now d =
     (let P = (\<lambda>r. rsv_order r = oid \<and> (rsv_state r = ''HELD'' \<or> rsv_state r = ''CONSUMED''));
          d' = d\<lparr>reservations := update_where P (\<lambda>r. r\<lparr>rsv_state := ''RELEASED''\<rparr>) (reservations d)\<rparr>
      in if 0 < count_where P (reservations d)
         then (True, reservation_journal oid ''reserve_release'' (JObj []) now d')
         else (False, d'))"

subsection \<open>Sums over the live holds\<close>

lemma usage_sum_Nil [simp]: "usage_sum P f [] = 0"
  by (simp add: usage_sum_def)

lemma usage_sum_Cons [simp]:
  "usage_sum P f (r # rs) = (if P r then f r + usage_sum P f rs else usage_sum P f rs)"
  by (simp add: usage_sum_def)

lemma usage_sum_append [simp]:
  "usage_sum P f (xs @ ys) = usage_sum P f xs + usage_sum P f ys"
  by (simp add: usage_sum_def)

lemma usage_sum_split:
  "usage_sum P f rs = usage_sum (\<lambda>r. P r \<and> Q r) f rs + usage_sum (\<lambda>r. P r \<and> \<not> Q r) f rs"
  by (induction rs) auto

lemma usage_sum_mono:
  "(\<And>r. r \<in> set rs \<Longrightarrow> P r \<Longrightarrow> Q r) \<Longrightarrow> usage_sum P f rs \<le> usage_sum Q f rs"
  by (induction rs) (auto intro: add_mono trans_le_add2)

lemma usage_sum_cong:
  "(\<And>r. r \<in> set rs \<Longrightarrow> P r = Q r) \<Longrightarrow> usage_sum P f rs = usage_sum Q f rs"
  by (intro antisym usage_sum_mono) auto

lemma usage_sum_update_other:
  assumes "\<And>r. Q r \<Longrightarrow> \<not> P (g r)" "\<And>r. Q r \<Longrightarrow> \<not> P r"
  shows "usage_sum P f (update_where Q g rs) = usage_sum P f rs"
  using assms by (induction rs) auto

lemma usage_sum_none: "(\<And>r. r \<in> set rs \<Longrightarrow> \<not> P r) \<Longrightarrow> usage_sum P f rs = 0"
  by (induction rs) auto

lemma usage_sum_unique:
  assumes "distinct (map k rs)" "\<And>r. P r \<Longrightarrow> k r = x \<and> f r \<le> v"
  shows "usage_sum P f rs \<le> v"
  using assms
proof (induction rs)
  case (Cons r rs)
  show ?case
  proof (cases "P r")
    case True
    have "usage_sum P f rs = 0"
    proof (rule usage_sum_none)
      fix q assume "q \<in> set rs"
      with True Cons.prems show "\<not> P q" by (metis distinct.simps(2) image_eqI list.simps(9) set_map)
    qed
    with True Cons.prems(2) show ?thesis by simp
  next
    case False
    with Cons show ?thesis by simp
  qed
qed simp

text \<open>Writing one order's hold adds at most that hold to what the other orders use.\<close>

lemma usage_sum_upsert:
  assumes ok: "distinct (map rsv_order rs)"
    and key: "\<And>r. rsv_order (g r) = rsv_order r"
    and val: "\<And>r. rsv_order r = oid \<Longrightarrow> f (g r) = v"
    and unaff: "\<And>r. rsv_order r \<noteq> oid \<Longrightarrow> P' r = P r"
  shows "usage_sum P' f (update_where (\<lambda>r. rsv_order r = oid) g rs)
       \<le> usage_sum (\<lambda>r. P r \<and> rsv_order r \<noteq> oid) f rs + v"
proof -
  let ?rs = "update_where (\<lambda>r. rsv_order r = oid) g rs"
  have "usage_sum (\<lambda>r. P' r \<and> rsv_order r \<noteq> oid) f ?rs
      = usage_sum (\<lambda>r. P' r \<and> rsv_order r \<noteq> oid) f rs"
    using key by (intro usage_sum_update_other) auto
  also have "\<dots> = usage_sum (\<lambda>r. P r \<and> rsv_order r \<noteq> oid) f rs"
    using unaff by (intro usage_sum_cong) auto
  finally have others: "usage_sum (\<lambda>r. P' r \<and> rsv_order r \<noteq> oid) f ?rs = \<dots>" .
  have own: "usage_sum (\<lambda>r. P' r \<and> rsv_order r = oid \<and> r \<in> set ?rs) f ?rs \<le> v"
  proof (rule usage_sum_unique [where k = rsv_order and x = oid])
    show "distinct (map rsv_order ?rs)" using ok key by (simp add: map_update_where)
  next
    fix r assume r: "P' r \<and> rsv_order r = oid \<and> r \<in> set ?rs"
    then obtain r0 where "rsv_order r0 = oid" "r = g r0"
      using key by (auto elim!: in_update_whereE)
    with r val show "rsv_order r = oid \<and> f r \<le> v" by simp
  qed
  have "usage_sum P' f ?rs = usage_sum (\<lambda>r. P' r \<and> rsv_order r = oid) f ?rs
      + usage_sum (\<lambda>r. P' r \<and> rsv_order r \<noteq> oid) f ?rs"
    by (rule usage_sum_split)
  also have "usage_sum (\<lambda>r. P' r \<and> rsv_order r = oid) f ?rs
      = usage_sum (\<lambda>r. P' r \<and> rsv_order r = oid \<and> r \<in> set ?rs) f ?rs"
    by (intro usage_sum_cong) auto
  finally show ?thesis using own others by simp
qed

definition within_budget :: "int \<Rightarrow> budget \<Rightarrow> db \<Rightarrow> bool" where
  "within_budget now b d \<longleftrightarrow>
     usage_sum (live_reservation now d) (\<lambda>r. r_cpu (rsv_res r)) (reservations d) \<le> b_cpu b \<and>
     usage_sum (live_reservation now d) (\<lambda>r. r_mem_mb (rsv_res r)) (reservations d) \<le> b_mem_mb b \<and>
     usage_sum (live_reservation now d) (\<lambda>r. r_disk_gb (rsv_res r)) (reservations d) \<le> b_disk_gb b \<and>
     usage_sum (live_reservation now d) rsv_ports (reservations d) \<le> b_ports b"

definition request_fits_u32 :: "capacity_request \<Rightarrow> budget \<Rightarrow> bool" where
  "request_fits_u32 req b \<longleftrightarrow>
     b_cpu b + r_cpu (rq_res req) < u32_limit \<and> b_mem_mb b + r_mem_mb (rq_res req) < u32_limit \<and>
     b_disk_gb b + r_disk_gb (rq_res req) < u32_limit \<and> b_ports b + rq_ports req < u32_limit"

lemma live_reservation_cong:
  "invoices d' = invoices d \<Longrightarrow> subs d' = subs d \<Longrightarrow> live_reservation now d' = live_reservation now d"
  by (intro ext) (simp add: live_reservation_def live_held_def order_paid_def order_provisioning_def)

lemma upsert_hold_shape:
  assumes "upsert_hold rid oid req expires_at now d = Inr ((), d')"
  shows "invoices d' = invoices d" "subs d' = subs d"
    "reservations d' =
       (if \<exists>r\<in>set (reservations d). rsv_order r = oid
        then update_where (\<lambda>r. rsv_order r = oid)
               (\<lambda>r. r\<lparr>rsv_res := rq_res req, rsv_ports := rq_ports req, rsv_expires := expires_at\<rparr>)
               (reservations d)
        else reservations d @ [\<lparr>rsv_id = rid, rsv_order = oid, rsv_res = rq_res req,
               rsv_ports = rq_ports req, rsv_state = ''HELD'', rsv_expires = expires_at,
               rsv_created = now\<rparr>])"
  using assms by (auto simp: upsert_hold_def split: if_splits)

lemma upsert_hold_usage:
  assumes up: "upsert_hold rid oid req expires_at now d = Inr ((), d')"
    and ok: "db_ok d"
    and val: "\<And>r. f (r\<lparr>rsv_res := rq_res req, rsv_ports := rq_ports req, rsv_expires := expires_at\<rparr>) = v"
    and new: "f \<lparr>rsv_id = rid, rsv_order = oid, rsv_res = rq_res req, rsv_ports = rq_ports req,
                 rsv_state = ''HELD'', rsv_expires = expires_at, rsv_created = now\<rparr> = v"
  shows "usage_sum (live_reservation now d) f (reservations d')
       \<le> usage_sum (\<lambda>r. live_reservation now d r \<and> rsv_order r \<noteq> oid) f (reservations d) + v"
proof (cases "\<exists>r\<in>set (reservations d). rsv_order r = oid")
  case True
  with upsert_hold_shape [OF up] show ?thesis
    using ok val by (simp add: db_okD usage_sum_upsert)
next
  case False
  then have "usage_sum (\<lambda>r. live_reservation now d r \<and> rsv_order r \<noteq> oid) f (reservations d)
      = usage_sum (live_reservation now d) f (reservations d)"
    by (intro usage_sum_cong) auto
  with False upsert_hold_shape [OF up] new show ?thesis by simp
qed

text \<open>The cases in which \<open>reserve\<close> admits an order.\<close>

lemma reserve_ReservedE:
  assumes "reserve rid oid req b expires_at now mx d = Inr (Reserved, d')"
  obtains (consumed) "reservation_state oid d = Some ''CONSUMED''" "d' = d"
  | (held) u d0 where "live_usage now oid d = Inr u" "\<not> over_budget u req b"
      "upsert_hold rid oid req expires_at now d = Inr ((), d0)"
      "d' = reservation_journal oid ''reserve'' (resources_json (rq_res req)) now d0"
      "\<And>like. sender_like_pattern oid = Some like \<Longrightarrow> live_hold_count now like oid d < mx"
      "reservation_state oid d \<noteq> Some ''CONSUMED''" "reservation_state oid d \<noteq> Some ''RELEASED''"
  using assms
  by (auto simp: reserve_def not_le split: if_splits sum.splits option.splits)

lemma add_u32_exact: "a \<le> b \<Longrightarrow> b + c < u32_limit \<Longrightarrow> add_u32 a c = a + c"
  by (simp add: add_u32_def)

lemma reserve_full_unchanged:
  "reserve rid oid req b expires_at now mx d = Inr (CapacityFull, d') \<Longrightarrow> d' = d"
  by (auto simp: reserve_def split: if_splits sum.splits option.splits)

lemma upsert_hold_fits:
  assumes "upsert_hold rid oid req expires_at now d = Inr ((), d')" "db_ok d"
    "\<And>r. f (r\<lparr>rsv_res := rq_res req, rsv_ports := rq_ports req, rsv_expires := expires_at\<rparr>) = v"
    "f \<lparr>rsv_id = rid, rsv_order = oid, rsv_res = rq_res req, rsv_ports = rq_ports req,
        rsv_state = ''HELD'', rsv_expires = expires_at, rsv_created = now\<rparr> = v"
    "usage_sum (live_reservation now d) f (reservations d) \<le> cap" "cap + v < u32_limit"
    "\<not> cap < add_u32 (usage_sum (\<lambda>r. live_reservation now d r \<and> rsv_order r \<noteq> oid) f (reservations d)) v"
  shows "usage_sum (live_reservation now d) f (reservations d') \<le> cap"
proof -
  have "usage_sum (\<lambda>r. live_reservation now d r \<and> rsv_order r \<noteq> oid) f (reservations d)
      \<le> usage_sum (live_reservation now d) f (reservations d)"
    by (intro usage_sum_mono) auto
  with assms(5-7) add_u32_exact
  have "usage_sum (\<lambda>r. live_reservation now d r \<and> rsv_order r \<noteq> oid) f (reservations d) + v \<le> cap"
    by (metis not_le order_trans)
  with upsert_hold_usage [OF assms(1-4)] show ?thesis by simp
qed

text \<open>
  C34. Capacity is never overcommitted: when the live reservations fit the operator's budget and the
  request is small enough that the \<open>u32\<close> sums of the check do not wrap, they still fit it after
  \<open>reserve\<close> has answered, whatever it answered.
\<close>

theorem reserve_never_overcommits:
  assumes ok: "db_ok d" and within: "within_budget now b d" and fits: "request_fits_u32 req b"
    and res: "reserve rid oid req b expires_at now mx d = Inr (outcome, d')"
  shows "within_budget now b d'"
proof (cases outcome)
  case CapacityFull
  with res within show ?thesis by (auto dest: reserve_full_unchanged)
next
  case Reserved
  with res have "reserve rid oid req b expires_at now mx d = Inr (Reserved, d')" by simp
  then show ?thesis
  proof (cases rule: reserve_ReservedE)
    case consumed
    with within show ?thesis by simp
  next
    case (held u d0)
    have live: "live_reservation now d' = live_reservation now d"
      by (rule live_reservation_cong)
         (simp_all add: held(4) reservation_journal_def frame_simps upsert_hold_shape(1,2) [OF held(3)])
    have rows: "reservations d' = reservations d0"
      by (simp add: held(4) reservation_journal_def frame_simps)
    from held(1,2) within fits show ?thesis
      unfolding within_budget_def request_fits_u32_def live_usage_def over_budget_def Let_def live rows
      by (intro conjI upsert_hold_fits [OF held(3) ok]) (auto split: if_splits)
  qed
qed

definition sample_request :: "nat \<Rightarrow> capacity_request" where
  "sample_request n = \<lparr>rq_res = \<lparr>r_cpu = n, r_mem_mb = 0, r_disk_gb = 0\<rparr>, rq_ports = 0\<rparr>"

definition sample_budget :: "nat \<Rightarrow> budget" where
  "sample_budget n = \<lparr>b_cpu = n, b_mem_mb = 0, b_disk_gb = 0, b_ports = 0\<rparr>"

definition sample_order :: string where
  "sample_order = ''ord:ab:1''"

text \<open>A host with one CPU free takes one order for one CPU.\<close>

definition sample_reserved :: db where
  "sample_reserved = insert_event (Some sample_order) ''reserve'' (resources_json \<lparr>r_cpu = 1, r_mem_mb = 0, r_disk_gb = 0\<rparr>) 10
     (empty_db\<lparr>reservations := [\<lparr>rsv_id = ''r1'', rsv_order = sample_order,
        rsv_res = \<lparr>r_cpu = 1, r_mem_mb = 0, r_disk_gb = 0\<rparr>, rsv_ports = 0, rsv_state = ''HELD'',
        rsv_expires = 100, rsv_created = 10\<rparr>]\<rparr>)"

lemmas sample_rsv_defs = sample_request_def sample_budget_def sample_order_def sample_reserved_def

lemma sample_reserve_run:
  "reserve ''r1'' sample_order (sample_request 1) (sample_budget 1) 100 10 1 empty_db
     = Inr (Reserved, sample_reserved)"
  by (simp add: reserve_def sample_rsv_defs reservation_state_def empty_db_def
      sender_like_pattern_def numeral_2_eq_2 live_hold_count_def live_usage_def over_budget_def add_u32_def
      upsert_hold_def reservation_journal_def insert_event_def)

lemma sample_pattern: "sender_like_pattern sample_order = Some ''ord:ab:%''"
  by (simp add: sender_like_pattern_def sample_order_def numeral_2_eq_2)

theorem reserve_never_overcommits_witness:
  "within_budget 10 (sample_budget 1) sample_reserved"
  by (rule reserve_never_overcommits [OF _ _ _ sample_reserve_run])
     (simp_all add: within_budget_def request_fits_u32_def sample_rsv_defs empty_db_def db_ok_def)

text \<open>The bound on the request is needed: a request near \<open>2^32\<close> wraps past the check.\<close>

lemma reserve_overcommits_on_wrap:
  "over_budget (2, 0, 0, 0) (sample_request (u32_limit - 1)) (sample_budget 2) = False"
  by (simp add: over_budget_def add_u32_def sample_request_def sample_budget_def)

text \<open>
  The per-sender cap bounds outstanding holds: whenever \<open>reserve\<close> admits a new or retried
  hold, the sender has at most \<open>max_live_holds_per_buyer\<close> live holds afterwards.
\<close>

theorem reserve_respects_sender_cap:
  assumes ok: "db_ok d" and like: "sender_like_pattern oid = Some like"
    and res: "reserve rid oid req b expires_at now mx d = Inr (Reserved, d')"
    and new: "reservation_state oid d \<noteq> Some ''CONSUMED''"
  shows "count_where (\<lambda>r. live_held now d' r \<and> sql_like like (rsv_order r)) (reservations d') \<le> mx"
  using res
proof (cases rule: reserve_ReservedE)
  case consumed
  with new show ?thesis by simp
next
  case (held u d0)
  note shape = upsert_hold_shape [OF held(3)]
  have live: "live_held now d' = live_held now d"
    by (intro ext) (simp add: live_held_def order_paid_def order_provisioning_def held(4)
        reservation_journal_def frame_simps shape(1,2))
  have rows: "reservations d' = reservations d0"
    by (simp add: held(4) reservation_journal_def frame_simps)
  let ?L = "\<lambda>r. live_held now d r \<and> sql_like like (rsv_order r)"
  have "count_where P rs = usage_sum P (\<lambda>_. 1) rs" for P :: "reservation \<Rightarrow> bool" and rs
    by (induction rs) auto
  note cnt = this
  have "usage_sum ?L (\<lambda>_. 1) (reservations d0)
      \<le> usage_sum (\<lambda>r. ?L r \<and> rsv_order r \<noteq> oid) (\<lambda>_. 1) (reservations d) + 1"
  proof (cases "\<exists>r\<in>set (reservations d). rsv_order r = oid")
    case True
    then have upd: "reservations d0 = update_where (\<lambda>r. rsv_order r = oid)
        (\<lambda>r. r\<lparr>rsv_res := rq_res req, rsv_ports := rq_ports req, rsv_expires := expires_at\<rparr>)
        (reservations d)"
      by (simp add: shape(3))
    show ?thesis unfolding upd
      by (rule usage_sum_upsert) (use ok in \<open>auto simp: db_okD\<close>)
  next
    case False
    then have "usage_sum (\<lambda>r. ?L r \<and> rsv_order r \<noteq> oid) (\<lambda>_. 1) (reservations d)
        = usage_sum ?L (\<lambda>_. 1) (reservations d)"
      by (intro usage_sum_cong) auto
    with False shape(3) show ?thesis by simp
  qed
  moreover have "usage_sum (\<lambda>r. ?L r \<and> rsv_order r \<noteq> oid) (\<lambda>_. 1) (reservations d) < mx"
    using held(5) [OF like] unfolding live_hold_count_def cnt by (simp add: conj_assoc)
  ultimately show ?thesis unfolding live rows cnt by simp
qed

theorem reserve_respects_sender_cap_witness:
  "count_where (\<lambda>r. live_held 10 sample_reserved r \<and> sql_like ''ord:ab:%'' (rsv_order r))
     (reservations sample_reserved) \<le> 1"
  by (rule reserve_respects_sender_cap [OF db_ok_empty sample_pattern sample_reserve_run])
     (simp add: reservation_state_def empty_db_def)

subsection \<open>The reservation's life: HELD, CONSUMED, RELEASED\<close>

inductive rsv_step :: "db \<Rightarrow> db \<Rightarrow> bool" where
  reserve: "reserve rid oid req b expires_at now mx d = Inr (x, d') \<Longrightarrow> rsv_step d d'"
| consume: "consume_txn oid now d = Inr ((), d') \<Longrightarrow> rsv_step d d'"
| release: "release_txn oid now d = (x, d') \<Longrightarrow> rsv_step d d'"

definition rsv_rank :: "string \<Rightarrow> nat" where
  "rsv_rank s = (if s = ''HELD'' then 0 else if s = ''CONSUMED'' then 1 else 2)"

definition rsv_advanced :: "db \<Rightarrow> db \<Rightarrow> bool" where
  "rsv_advanced d d' \<longleftrightarrow>
     (\<forall>oid s. reservation_state oid d = Some s \<longrightarrow>
        (\<exists>s'. reservation_state oid d' = Some s' \<and> (s' = s \<or> rsv_rank s < rsv_rank s')))"

lemma rsv_advanced_refl [simp]: "rsv_advanced d d"
  by (simp add: rsv_advanced_def)

lemma rsv_advanced_trans: "rsv_advanced d d' \<Longrightarrow> rsv_advanced d' d'' \<Longrightarrow> rsv_advanced d d''"
  unfolding rsv_advanced_def by (fastforce dest: less_trans)

lemma rsv_advanced_update:
  assumes "reservations d' = update_where P f (reservations d)"
    and "\<And>r. rsv_order (f r) = rsv_order r"
    and "\<And>r. P r \<Longrightarrow> rsv_state (f r) = rsv_state r \<or> rsv_rank (rsv_state r) < rsv_rank (rsv_state (f r))"
  shows "rsv_advanced d d'"
  unfolding rsv_advanced_def
proof (intro allI impI)
  fix oid s assume "reservation_state oid d = Some s"
  then obtain r where r: "List.find (\<lambda>r. rsv_order r = oid) (reservations d) = Some r" "rsv_state r = s"
    by (auto simp: reservation_state_def)
  then have "reservation_state oid d' = Some (rsv_state (if P r then f r else r))"
    using assms(1,2) by (simp add: reservation_state_def find_update_where_same)
  with assms(3) [of r] r(2)
  show "\<exists>s'. reservation_state oid d' = Some s' \<and> (s' = s \<or> rsv_rank s < rsv_rank s')"
    by auto
qed

lemma upsert_hold_ok:
  assumes "upsert_hold rid oid req expires_at now d = Inr ((), d')" and "db_ok d"
  shows "db_ok d'"
  using assms by (auto simp: upsert_hold_def db_ok_reservations_update split: if_splits)
                 (auto simp: db_ok_def)

lemma upsert_hold_advanced:
  assumes "upsert_hold rid oid req expires_at now d = Inr ((), d')"
  shows "rsv_advanced d d'"
proof (cases "\<exists>r\<in>set (reservations d). rsv_order r = oid")
  case True
  with upsert_hold_shape(3) [OF assms]
  have rows: "reservations d' = update_where (\<lambda>r. rsv_order r = oid)
      (\<lambda>r. r\<lparr>rsv_res := rq_res req, rsv_ports := rq_ports req, rsv_expires := expires_at\<rparr>)
      (reservations d)"
    by simp
  show ?thesis by (rule rsv_advanced_update [OF rows]) auto
next
  case False
  with upsert_hold_shape(3) [OF assms] show ?thesis
    by (auto simp: rsv_advanced_def reservation_state_def find_append)
qed

lemma rsv_step_ok: "rsv_step d d' \<Longrightarrow> db_ok d \<Longrightarrow> db_ok d'"
proof (induction rule: rsv_step.induct)
  case (reserve rid oid req b expires_at now mx d x d')
  show ?case
  proof (cases x)
    case Reserved
    with reserve have "reserve rid oid req b expires_at now mx d = Inr (Reserved, d')" by simp
    then show ?thesis
      by (cases rule: reserve_ReservedE)
         (use reserve.prems in \<open>auto simp: reservation_journal_def dest: upsert_hold_ok\<close>)
  next
    case CapacityFull
    with reserve show ?thesis by (auto dest: reserve_full_unchanged)
  qed
qed (auto simp: consume_txn_def release_txn_def Let_def reservation_journal_def
      db_ok_reservations_update split: if_splits)

lemma insert_event_advanced [simp]:
  "rsv_advanced d (insert_event s k j t d') \<longleftrightarrow> rsv_advanced d d'"
  by (simp add: rsv_advanced_def reservation_state_def frame_simps)

lemma rsv_step_advanced: "rsv_step d d' \<Longrightarrow> rsv_advanced d d'"
proof (induction rule: rsv_step.induct)
  case (reserve rid oid req b expires_at now mx d x d')
  show ?case
  proof (cases x)
    case Reserved
    with reserve have "reserve rid oid req b expires_at now mx d = Inr (Reserved, d')" by simp
    then show ?thesis
      by (cases rule: reserve_ReservedE)
         (auto simp: reservation_journal_def dest: upsert_hold_advanced)
  next
    case CapacityFull
    with reserve show ?thesis by (auto dest: reserve_full_unchanged)
  qed
next
  case (consume oid now d d')
  then have rows: "reservations d' = update_where (\<lambda>r. rsv_order r = oid \<and> rsv_state r = ''HELD'')
      (\<lambda>r. r\<lparr>rsv_state := ''CONSUMED''\<rparr>) (reservations d)"
    by (auto simp: consume_txn_def Let_def reservation_journal_def frame_simps split: if_splits)
  show ?case by (rule rsv_advanced_update [OF rows]) (auto simp: rsv_rank_def)
next
  case (release oid now d x d')
  then have rows: "reservations d' = update_where
      (\<lambda>r. rsv_order r = oid \<and> (rsv_state r = ''HELD'' \<or> rsv_state r = ''CONSUMED''))
      (\<lambda>r. r\<lparr>rsv_state := ''RELEASED''\<rparr>) (reservations d)"
    by (auto simp: release_txn_def Let_def reservation_journal_def frame_simps split: if_splits)
  show ?case by (rule rsv_advanced_update [OF rows]) (auto simp: rsv_rank_def)
qed

text \<open>
  Through any sequence of \<open>reserve\<close>, \<open>consume_txn\<close> and \<open>release_txn\<close> an order keeps its one
  reservation, and its state only moves forward from HELD through CONSUMED to RELEASED: capacity of
  an active instance is never downgraded to a hold, and a released one is never re-held.
\<close>

theorem reservation_only_advances:
  assumes "rsv_step\<^sup>*\<^sup>* d d'" and "db_ok d" and "reservation_state oid d = Some s"
  shows "db_ok d' \<and> (\<exists>s'. reservation_state oid d' = Some s' \<and> (s' = s \<or> rsv_rank s < rsv_rank s'))"
proof -
  from assms(1,2) have "db_ok d' \<and> rsv_advanced d d'"
    by (induction rule: rtranclp_induct)
       (auto intro: rsv_step_ok rsv_advanced_trans rsv_step_advanced)
  with assms(3) show ?thesis by (auto simp: rsv_advanced_def)
qed

lemma sample_released:
  "rsv_step\<^sup>*\<^sup>* sample_reserved (snd (release_txn sample_order 20 sample_reserved))"
  by (rule r_into_rtranclp) (rule rsv_step.release, rule prod.collapse [symmetric])

theorem reservation_only_advances_witness:
  "\<exists>s'. reservation_state sample_order (snd (release_txn sample_order 20 sample_reserved)) = Some s'
        \<and> (s' = ''HELD'' \<or> rsv_rank ''HELD'' < rsv_rank s')"
  using reservation_only_advances [OF sample_released, of sample_order "''HELD''"]
  by (simp add: sample_reserved_def reservation_state_def frame_simps) (simp add: db_ok_def empty_db_def)

text \<open>
  Consuming is exact: it succeeds if and only if the order has a HELD reservation, which becomes
  CONSUMED; otherwise it fails with the typed \<open>NoHeldReservation\<close> and changes nothing.
\<close>

theorem consume_txn_exact:
  assumes "db_ok d"
  shows "(reservation_state oid d = Some ''HELD'' \<and>
            (\<exists>d'. consume_txn oid now d = Inr ((), d') \<and> reservation_state oid d' = Some ''CONSUMED''))
       \<or> (reservation_state oid d \<noteq> Some ''HELD'' \<and>
            consume_txn oid now d = Inl (NoHeldReservation oid 0))"
proof -
  let ?P = "\<lambda>r. rsv_order r = oid \<and> rsv_state r = ''HELD''"
  have le: "count_where ?P (reservations d) \<le> 1"
    using assms by (intro count_where_unique [where k = rsv_order and x = oid]) (auto simp: db_ok_def)
  have pos: "0 < count_where ?P (reservations d) \<longleftrightarrow> reservation_state oid d = Some ''HELD''"
  proof
    assume "0 < count_where ?P (reservations d)"
    then obtain r where "r \<in> set (reservations d)" "?P r" by (auto simp: count_where_pos_iff)
    with assms show "reservation_state oid d = Some ''HELD''"
      using find_key_unique [of rsv_order "reservations d" r]
      by (auto simp: reservation_state_def db_ok_def)
  next
    assume "reservation_state oid d = Some ''HELD''"
    then show "0 < count_where ?P (reservations d)"
      by (auto simp: reservation_state_def count_where_pos_iff dest: find_Some_mem)
  qed
  show ?thesis
  proof (cases "reservation_state oid d = Some ''HELD''")
    case True
    then obtain r where r: "List.find (\<lambda>r. rsv_order r = oid) (reservations d) = Some r"
      "rsv_state r = ''HELD''" "rsv_order r = oid"
      by (auto simp: reservation_state_def dest: find_Some_mem)
    from True pos le have "count_where ?P (reservations d) = 1" by linarith
    with r True show ?thesis
      by (simp add: consume_txn_def reservation_state_def reservation_journal_def frame_simps
          find_update_where_same)
  next
    case False
    with pos have "count_where ?P (reservations d) = 0" by simp
    with False show ?thesis by (simp add: consume_txn_def)
  qed
qed

theorem consume_txn_exact_witness:
  "\<exists>d'. consume_txn sample_order 20 sample_reserved = Inr ((), d')
        \<and> reservation_state sample_order d' = Some ''CONSUMED''"
proof -
  have "db_ok sample_reserved" by (simp add: sample_reserved_def) (simp add: db_ok_def empty_db_def)
  from consume_txn_exact [OF this, of sample_order 20] show ?thesis
    by (simp add: sample_reserved_def reservation_state_def frame_simps)
qed

end
