(* ===== verification/Capture.thy ===== *)
theory Capture
  imports Schema
begin

text \<open>
  Settlement capture, \<open>daemon/src/capture.rs\<close>: one settlement is applied in one transaction, guarded
  by the invoice's status and routed by the invoice's class and the subscription's state. A
  settlement that can buy no service writes the durable refund intent instead.

  \<open>capture_txn\<close>, \<open>apply_paid\<close>, \<open>refund_intent\<close>, \<open>insert_refund_attempt_txn\<close>, \<open>sub_refund_dest\<close>,
  \<open>journal\<close> and \<open>journal_renew_resume\<close> are the functions of those names.
\<close>

record settlement =
  st_invoice :: string
  st_ext :: string
  st_amount :: nat
  st_received :: nat
  st_settled :: int

datatype capture_outcome = NoOp | Captured | Renewed | Resumed | RefundDue

subsection \<open>The refund writer\<close>

definition insert_refund_attempt_txn ::
  "string option \<Rightarrow> string option \<Rightarrow> string \<Rightarrow> int option \<Rightarrow> int \<Rightarrow> bool tx" where
  "insert_refund_attempt_txn sub dest ext amount now d =
     (if \<exists>r\<in>set (refunds d). rf_key r = ''refund:'' @ ext then Inr (False, d)
      else if \<exists>r\<in>set (refunds d). rf_id r = ''ref-'' @ ext
      then Inl (ConstraintViolation ''refund_attempt.id'')
      else Inr (True, d\<lparr>refunds := refunds d @
        [\<lparr>rf_id = ''ref-'' @ ext, rf_sub = sub, rf_dest = dest, rf_amount = amount,
          rf_key = ''refund:'' @ ext, rf_payment = None, rf_status = ''PENDING'',
          rf_attempts = Some 0, rf_bolt11 = None, rf_expiry = None, rf_gen = 0,
          rf_created = now, rf_updated = now, rf_fence = None\<rparr>]\<rparr>))"

definition refund_intent :: "string option \<Rightarrow> string option \<Rightarrow> settlement \<Rightarrow> int \<Rightarrow> bool tx" where
  "refund_intent sub dest s now d =
     insert_refund_attempt_txn sub dest (st_ext s) (Some (as_i64 (st_received s div 1000))) now d"

subsection \<open>Journals\<close>

definition settlement_json :: "settlement \<Rightarrow> json" where
  "settlement_json s = JObj
     [(''external_id'', JStr (st_ext s)), (''amount_sat'', JInt (int (st_amount s))),
      (''received_msat'', JInt (int (st_received s))), (''settled_at'', JInt (st_settled s))]"

definition capture_journal :: "string option \<Rightarrow> string \<Rightarrow> settlement \<Rightarrow> int \<Rightarrow> db \<Rightarrow> db" where
  "capture_journal sub kind s now d = insert_event sub kind (settlement_json s) now d"

definition renew_resume_json :: "settlement \<Rightarrow> int option \<Rightarrow> int option \<Rightarrow> json" where
  "renew_resume_json s prev_paid prev_floor = JObj
     [(''external_id'', JStr (st_ext s)), (''amount_sat'', JInt (int (st_received s div 1000))),
      (''invoice_amount_sat'', JInt (int (st_amount s))),
      (''received_msat'', JInt (int (st_received s))), (''settled_at'', JInt (st_settled s)),
      (''previous_paid_through'', json_of_int prev_paid),
      (''previous_suspend_not_before'', json_of_int prev_floor)]"

definition journal_renew_resume ::
  "string \<Rightarrow> settlement \<Rightarrow> int \<Rightarrow> int option \<Rightarrow> int option \<Rightarrow> db \<Rightarrow> db" where
  "journal_renew_resume sub s now prev_paid prev_floor d =
     insert_event (Some sub) ''renew_resume'' (renew_resume_json s prev_paid prev_floor) now d"

definition sub_refund_dest :: "string option \<Rightarrow> db \<Rightarrow> string option" where
  "sub_refund_dest sub d =
     (case sub of None \<Rightarrow> None
      | Some s \<Rightarrow> (case find_sub s d of None \<Rightarrow> None | Some r \<Rightarrow> sub_dest r))"


subsection \<open>Routing a settlement\<close>

text \<open>Write the refund intent, journal it, report a refund: the tail of four branches of the code.\<close>

definition refund_and_journal ::
  "string option \<Rightarrow> string option \<Rightarrow> string \<Rightarrow> settlement \<Rightarrow> int \<Rightarrow> capture_outcome tx" where
  "refund_and_journal sub dest kind s now d =
     (case refund_intent sub dest s now d of
        Inl e \<Rightarrow> Inl e
      | Inr (_, d1) \<Rightarrow> Inr (RefundDue, capture_journal sub kind s now d1))"

text \<open>The settlement is at or after the order invoice's expiry (no expiry: never).\<close>

definition order_expired :: "int option \<Rightarrow> settlement \<Rightarrow> bool" where
  "order_expired expires_at s =
     (case expires_at of None \<Rightarrow> False | Some e \<Rightarrow> e \<le> st_settled s)"

text \<open>
  The settlement is at or after the end of retention, measured from the later of \<open>paid_through\<close> and
  the downtime-credit floor.
\<close>

definition past_retention :: "subscription \<Rightarrow> settlement \<Rightarrow> bool" where
  "past_retention r s =
     (case sub_paid_through r of
        None \<Rightarrow> False
      | Some pt \<Rightarrow> max pt (unwrap_or (sub_floor r) pt) + unwrap_or (sub_retention_s r) 0 \<le> st_settled s)"

definition renewed_through :: "subscription \<Rightarrow> settlement \<Rightarrow> int" where
  "renewed_through r s =
     max (unwrap_or (sub_paid_through r) (st_settled s)) (st_settled s) + unwrap_or (sub_period_s r) 0"

text \<open>The four UPDATE statements.\<close>

definition invoice_paid :: "invoice \<Rightarrow> settlement \<Rightarrow> db \<Rightarrow> db" where
  "invoice_paid iv s d =
     d\<lparr>invoices := update_where (\<lambda>q. inv_id q = inv_id iv \<and> inv_status q = ''OPEN'')
         (\<lambda>q. q\<lparr>inv_status := ''PAID'', inv_settled := Some (st_settled s),
                inv_applied := Some (st_settled s), inv_received := Some (as_i64 (st_received s))\<rparr>)
         (invoices d)\<rparr>"

definition invoice_stamped :: "invoice \<Rightarrow> settlement \<Rightarrow> db \<Rightarrow> db" where
  "invoice_stamped iv s d =
     d\<lparr>invoices := update_where (\<lambda>q. inv_id q = inv_id iv \<and> inv_settled q = None)
         (\<lambda>q. q\<lparr>inv_settled := Some (st_settled s),
                inv_received := coalesce (inv_received q) (Some (as_i64 (st_received s)))\<rparr>)
         (invoices d)\<rparr>"

definition order_granted :: "string \<Rightarrow> int \<Rightarrow> db \<Rightarrow> db" where
  "order_granted sid now d =
     d\<lparr>subs := update_where (\<lambda>q. sub_id q = sid)
         (\<lambda>q. q\<lparr>sub_state := ''PROVISIONING'', sub_next_deadline := None, sub_updated := now\<rparr>) (subs d)\<rparr>"

definition renewed_row :: "subscription \<Rightarrow> settlement \<Rightarrow> int \<Rightarrow> subscription \<Rightarrow> subscription" where
  "renewed_row r s now q =
     q\<lparr>sub_state := (if sub_state r \<noteq> ''ACTIVE'' then ''RESUMING'' else ''ACTIVE''),
       sub_paid_through := Some (renewed_through r s),
       sub_soft_date := Some (renewed_through r s - unwrap_or (sub_renew_lead_s r) 0),
       sub_next_deadline := Some (renewed_through r s - unwrap_or (sub_renew_lead_s r) 0),
       sub_floor := None, sub_updated := now\<rparr>"

definition renewal_granted :: "subscription \<Rightarrow> settlement \<Rightarrow> int \<Rightarrow> db \<Rightarrow> db" where
  "renewal_granted r s now d =
     d\<lparr>subs := update_where (\<lambda>q. sub_id q = sub_id r) (renewed_row r s now) (subs d)\<rparr>"

definition apply_paid ::
  "string option \<Rightarrow> string option \<Rightarrow> int option \<Rightarrow> settlement \<Rightarrow> int \<Rightarrow> capture_outcome tx" where
  "apply_paid kind sub order_expires_at s now d =
     (case sub of
        None \<Rightarrow> refund_and_journal None None ''settle_orphan_refund'' s now d
      | Some sid \<Rightarrow>
          (case find_sub sid d of
             None \<Rightarrow> refund_and_journal (Some sid) None ''settle_orphan_refund'' s now d
           | Some r \<Rightarrow>
               if kind = Some ''order'' \<and> sub_state r = ''PENDING'' then
                 (if order_expired order_expires_at s
                  then refund_and_journal (Some sid) (sub_dest r) ''settle_expired_refund'' s now d
                  else Inr (Captured, capture_journal (Some sid) ''capture_order'' s now (order_granted sid now d)))
               else if kind = Some ''renewal'' \<and>
                       sub_state r \<in> {''ACTIVE'', ''SUSPENDED'', ''RESUMING''} then
                 (if past_retention r s
                  then refund_and_journal (Some sid) (sub_dest r) ''settle_terminal_refund'' s now d
                  else if sub_state r = ''ACTIVE''
                  then Inr (Renewed, capture_journal (Some sid) ''renew_extend'' s now (renewal_granted r s now d))
                  else Inr (Resumed, journal_renew_resume sid s now (sub_paid_through r) (sub_floor r)
                                       (renewal_granted r s now d)))
               else refund_and_journal (Some sid) (sub_dest r) ''settle_terminal_refund'' s now d))"

definition capture_txn :: "settlement \<Rightarrow> int \<Rightarrow> capture_outcome tx" where
  "capture_txn s now d =
     (case find_invoice_ext (st_ext s) d of
        None \<Rightarrow>
          (case refund_intent None None s now d of
             Inl e \<Rightarrow> Inl e
           | Inr (new, d1) \<Rightarrow>
               Inr (RefundDue, if new then capture_journal None ''settle_unmatched_refund'' s now d1 else d1))
      | Some iv \<Rightarrow>
          if inv_status iv = ''PAID'' then Inr (NoOp, d)
          else if inv_status iv = ''OPEN'' then
            (if count_where (\<lambda>q. inv_id q = inv_id iv \<and> inv_status q = ''OPEN'') (invoices d) = 0
             then Inr (NoOp, invoice_paid iv s d)
             else apply_paid (inv_kind iv) (inv_sub iv) (inv_expires iv) s now (invoice_paid iv s d))
          else
            (case refund_intent (inv_sub iv) (sub_refund_dest (inv_sub iv) (invoice_stamped iv s d)) s now
                    (invoice_stamped iv s d) of
               Inl e \<Rightarrow> Inl e
             | Inr (refunded, d2) \<Rightarrow>
                 Inr (RefundDue,
                   if 0 < count_where (\<lambda>q. inv_id q = inv_id iv \<and> inv_settled q = None) (invoices d) \<or> refunded
                   then capture_journal (inv_sub iv) ''settle_terminal_refund'' s now d2
                   else d2)))"

text \<open>\<open>capture\<close>: the transaction commits on \<open>Inr\<close> and rolls back on \<open>Inl\<close>.\<close>

definition capture :: "settlement \<Rightarrow> int \<Rightarrow> db \<Rightarrow> db" where
  "capture s now d = (case capture_txn s now d of Inl _ \<Rightarrow> d | Inr (_, d') \<Rightarrow> d')"

subsection \<open>The refund ledger under capture\<close>

lemma refund_keyed_iff:
  "refund_keyed r \<Longrightarrow> rf_id r = ''ref-'' @ e \<longleftrightarrow> rf_key r = ''refund:'' @ e"
  by (auto simp: refund_keyed_def)

lemma insert_refund_cases:
  assumes "db_ok d"
  obtains (old) "insert_refund_attempt_txn sub dest ext amount now d = Inr (False, d)"
      "\<exists>r\<in>set (refunds d). rf_key r = ''refund:'' @ ext"
  | (new) r where "insert_refund_attempt_txn sub dest ext amount now d
                   = Inr (True, d\<lparr>refunds := refunds d @ [r]\<rparr>)"
      "r = \<lparr>rf_id = ''ref-'' @ ext, rf_sub = sub, rf_dest = dest, rf_amount = amount,
          rf_key = ''refund:'' @ ext, rf_payment = None, rf_status = ''PENDING'',
          rf_attempts = Some 0, rf_bolt11 = None, rf_expiry = None, rf_gen = 0,
          rf_created = now, rf_updated = now, rf_fence = None\<rparr>"
      "\<forall>q\<in>set (refunds d). rf_key q \<noteq> ''refund:'' @ ext"
proof (cases "\<exists>r\<in>set (refunds d). rf_key r = ''refund:'' @ ext")
  case True
  then show ?thesis by (intro old) (simp_all add: insert_refund_attempt_txn_def)
next
  case False
  moreover from False assms have "\<not> (\<exists>r\<in>set (refunds d). rf_id r = ''ref-'' @ ext)"
    using db_okD(6) refund_keyed_iff by blast
  ultimately show ?thesis by (intro new) (auto simp: insert_refund_attempt_txn_def)
qed

lemma db_ok_append_refund:
  assumes "db_ok d" "\<forall>q\<in>set (refunds d). rf_key q \<noteq> rf_key r" "refund_keyed r"
  shows "db_ok (d\<lparr>refunds := refunds d @ [r]\<rparr>)"
  using assms by (auto simp: db_ok_def)

lemma insert_refund_ok:
  assumes "db_ok d"
  shows "\<exists>new d'. insert_refund_attempt_txn sub dest ext amount now d = Inr (new, d') \<and> db_ok d'"
  using assms
proof (cases rule: insert_refund_cases [where sub = sub and dest = dest and ext = ext
      and amount = amount and now = now])
  case (new r)
  have "db_ok (d\<lparr>refunds := refunds d @ [r]\<rparr>)"
    using assms new(2,3) by (intro db_ok_append_refund) (auto simp: refund_keyed_def)
  with new(1) show ?thesis by blast
qed (use assms in auto)

text \<open>
  What a refund branch leaves behind: subscriptions and invoices untouched, exactly the intent for
  this external id in the ledger.
\<close>

definition refund_written :: "string \<Rightarrow> db \<Rightarrow> db \<Rightarrow> bool" where
  "refund_written ext d d' \<longleftrightarrow>
     db_ok d' \<and> subs d' = subs d \<and> invoices d' = invoices d \<and> reservations d' = reservations d \<and>
     outbox d' = outbox d \<and>
     (\<exists>r\<in>set (refunds d'). rf_key r = ''refund:'' @ ext) \<and>
     (\<forall>r. rf_key r \<noteq> ''refund:'' @ ext \<longrightarrow> (r \<in> set (refunds d') \<longleftrightarrow> r \<in> set (refunds d)))"

lemma refund_written_event [simp]:
  "refund_written ext d (insert_event sub k j t d') \<longleftrightarrow> refund_written ext d d'"
  by (simp add: refund_written_def frame_simps)

lemma refund_intent_written:
  assumes "db_ok d"
  obtains new d' where "refund_intent sub dest s now d = Inr (new, d')" "refund_written (st_ext s) d d'"
    "new \<longleftrightarrow> \<not> (\<exists>r\<in>set (refunds d). rf_key r = ''refund:'' @ st_ext s)" "\<not> new \<Longrightarrow> d' = d"
proof -
  from assms show thesis
  proof (cases rule: insert_refund_cases [where sub = sub and dest = dest and ext = "st_ext s"
        and amount = "Some (as_i64 (st_received s div 1000))" and now = now])
    case old
    with assms show ?thesis
      by (intro that [of False d]) (auto simp: refund_intent_def refund_written_def)
  next
    case (new r)
    moreover have "db_ok (d\<lparr>refunds := refunds d @ [r]\<rparr>)"
      using assms new(2,3) by (intro db_ok_append_refund) (auto simp: refund_keyed_def)
    ultimately show ?thesis
      by (intro that [of True]) (auto simp: refund_intent_def refund_written_def)
  qed
qed

lemma refund_and_journal_written:
  assumes "db_ok d"
  shows "\<exists>d'. refund_and_journal sub dest kind s now d = Inr (RefundDue, d') \<and>
              refund_written (st_ext s) d d'"
  using assms
  by (rule refund_intent_written [of d sub dest s now])
     (auto simp: refund_and_journal_def capture_journal_def)

lemma apply_paid_cases:
  assumes "db_ok d"
  obtains (refund) d' where "apply_paid kind sub exp s now d = Inr (RefundDue, d')"
      "refund_written (st_ext s) d d'"
  | (order) r where "sub = Some (sub_id r)" "find_sub (sub_id r) d = Some r" "kind = Some ''order''"
      "sub_state r = ''PENDING''" "\<not> order_expired exp s"
      "apply_paid kind sub exp s now d =
         Inr (Captured, capture_journal sub ''capture_order'' s now (order_granted (sub_id r) now d))"
  | (renewal) r c d' where "sub = Some (sub_id r)" "find_sub (sub_id r) d = Some r"
      "kind = Some ''renewal''" "sub_state r \<in> {''ACTIVE'', ''SUSPENDED'', ''RESUMING''}"
      "\<not> past_retention r s" "apply_paid kind sub exp s now d = Inr (c, d')"
      "c = (if sub_state r = ''ACTIVE'' then Renewed else Resumed)"
      "d' = (if sub_state r = ''ACTIVE''
             then capture_journal sub ''renew_extend'' s now (renewal_granted r s now d)
             else journal_renew_resume (sub_id r) s now (sub_paid_through r) (sub_floor r)
                    (renewal_granted r s now d))"
proof (cases sub)
  case None
  with refund_and_journal_written [OF assms, of None None "''settle_orphan_refund''" s now]
  show ?thesis by (auto simp: apply_paid_def intro: refund)
next
  case (Some sid)
  show ?thesis
  proof (cases "find_sub sid d")
    case None
    with Some refund_and_journal_written [OF assms, of "Some sid" None "''settle_orphan_refund''" s now]
    show ?thesis by (auto simp: apply_paid_def intro: refund)
  next
    case (Some r)
    then have sid: "sid = sub_id r" by (auto dest: find_sub_Some)
    note unf = apply_paid_def \<open>sub = Some sid\<close> \<open>find_sub sid d = Some r\<close>
    consider (o) "kind = Some ''order''" "sub_state r = ''PENDING''" "\<not> order_expired exp s"
      | (n) "kind = Some ''renewal''" "sub_state r \<in> {''ACTIVE'', ''SUSPENDED'', ''RESUMING''}"
            "\<not> past_retention r s"
      | (x) "\<not> (kind = Some ''order'' \<and> sub_state r = ''PENDING'' \<and> \<not> order_expired exp s)"
            "\<not> (kind = Some ''renewal'' \<and> sub_state r \<in> {''ACTIVE'', ''SUSPENDED'', ''RESUMING''} \<and>
                \<not> past_retention r s)"
      by blast
    then show ?thesis
    proof cases
      case o
      with Some sid \<open>sub = Some sid\<close> show ?thesis
        by (intro order [of r]) (simp_all add: unf order_granted_def)
    next
      case n
      then show ?thesis
        using Some sid \<open>sub = Some sid\<close>
        by (intro renewal [of r]) (auto simp: unf renewal_granted_def Let_def)
    next
      case x
      then have "\<exists>k. apply_paid kind sub exp s now d
          = refund_and_journal (Some sid) (sub_dest r) k s now d"
        by (simp add: unf) blast
      then obtain k where "apply_paid kind sub exp s now d
          = refund_and_journal (Some sid) (sub_dest r) k s now d" ..
      with refund_and_journal_written [OF assms, of "Some sid" "sub_dest r" k s now]
      show ?thesis by (auto intro: refund)
    qed
  qed
qed

lemma invoice_paid_frame [simp]:
  "db_ok d \<Longrightarrow> db_ok (invoice_paid iv s d)"
  "subs (invoice_paid iv s d) = subs d" "refunds (invoice_paid iv s d) = refunds d"
  "find_sub sid (invoice_paid iv s d) = find_sub sid d"
  by (simp_all add: invoice_paid_def db_ok_invoices_update find_sub_def)

lemma invoice_stamped_frame [simp]:
  "db_ok d \<Longrightarrow> db_ok (invoice_stamped iv s d)"
  "subs (invoice_stamped iv s d) = subs d" "refunds (invoice_stamped iv s d) = refunds d"
  "find_sub sid (invoice_stamped iv s d) = find_sub sid d"
  by (simp_all add: invoice_stamped_def db_ok_invoices_update find_sub_def)

lemma find_invoice_paid:
  assumes "find_invoice_ext e d = Some iv" "inv_status iv = ''OPEN''"
  shows "find_invoice_ext e (invoice_paid iv s d) = Some (iv\<lparr>inv_status := ''PAID'',
     inv_settled := Some (st_settled s), inv_applied := Some (st_settled s),
     inv_received := Some (as_i64 (st_received s))\<rparr>)"
  using assms by (simp add: invoice_paid_def find_invoice_ext_def find_update_where_same)

lemma find_invoice_stamped:
  assumes "find_invoice_ext e d = Some iv"
  shows "find_invoice_ext e (invoice_stamped iv s d) = Some (if inv_settled iv = None
     then iv\<lparr>inv_settled := Some (st_settled s),
            inv_received := coalesce (inv_received iv) (Some (as_i64 (st_received s)))\<rparr>
     else iv)"
  using assms by (simp add: invoice_stamped_def find_invoice_ext_def find_update_where_same)

lemma capture_txn_cases:
  assumes "db_ok d"
  obtains (unmatched) d' where "find_invoice_ext (st_ext s) d = None"
      "capture_txn s now d = Inr (RefundDue, d')" "refund_written (st_ext s) d d'"
  | (replay) iv where "find_invoice_ext (st_ext s) d = Some iv" "inv_status iv = ''PAID''"
      "capture_txn s now d = Inr (NoOp, d)"
  | (paid) iv where "find_invoice_ext (st_ext s) d = Some iv" "inv_status iv = ''OPEN''"
      "capture_txn s now d = apply_paid (inv_kind iv) (inv_sub iv) (inv_expires iv) s now (invoice_paid iv s d)"
  | (terminal) iv d' where "find_invoice_ext (st_ext s) d = Some iv"
      "inv_status iv \<noteq> ''PAID''" "inv_status iv \<noteq> ''OPEN''"
      "capture_txn s now d = Inr (RefundDue, d')" "refund_written (st_ext s) (invoice_stamped iv s d) d'"
proof (cases "find_invoice_ext (st_ext s) d")
  case None
  obtain new d1 where "refund_intent None None s now d = Inr (new, d1)" "refund_written (st_ext s) d d1"
    using refund_intent_written [OF assms] by metis
  with None show ?thesis
    by (intro unmatched [of "if new then capture_journal None ''settle_unmatched_refund'' s now d1 else d1"])
       (auto simp: capture_txn_def capture_journal_def)
next
  case (Some iv)
  then have iv: "iv \<in> set (invoices d)" "inv_ext iv = st_ext s" by (auto dest: find_invoice_ext_Some)
  consider "inv_status iv = ''PAID''" | "inv_status iv = ''OPEN''"
    | "inv_status iv \<noteq> ''PAID''" "inv_status iv \<noteq> ''OPEN''" by blast
  then show ?thesis
  proof cases
    case 1
    with Some show ?thesis by (intro replay) (simp_all add: capture_txn_def)
  next
    case 2
    with iv(1) have "count_where (\<lambda>q. inv_id q = inv_id iv \<and> inv_status q = ''OPEN'') (invoices d) \<noteq> 0"
      by (auto simp: count_where_0_iff)
    with Some 2 show ?thesis
      by (intro paid) (simp_all add: capture_txn_def)
  next
    case 3
    let ?d1 = "invoice_stamped iv s d"
    obtain new d1 where "refund_intent (inv_sub iv) (sub_refund_dest (inv_sub iv) ?d1) s now ?d1
        = Inr (new, d1)" "refund_written (st_ext s) ?d1 d1"
      using refund_intent_written [of ?d1] assms by (metis invoice_stamped_frame(1))
    with Some 3 show ?thesis
      by (intro terminal [OF Some 3 _ _, of "snd (projr (capture_txn s now d))"])
         (auto simp: capture_txn_def capture_journal_def)
  qed
qed

lemma order_granted_frame [simp]:
  "db_ok d \<Longrightarrow> db_ok (order_granted sid now d)"
  "invoices (order_granted sid now d) = invoices d" "refunds (order_granted sid now d) = refunds d"
  by (simp_all add: order_granted_def db_ok_subs_update)

lemma renewed_row_sel [simp]:
  "sub_id (renewed_row r s now q) = sub_id q"
  "sub_state (renewed_row r s now q) = (if sub_state r = ''ACTIVE'' then ''ACTIVE'' else ''RESUMING'')"
  "sub_paid_through (renewed_row r s now q) = Some (renewed_through r s)"
  "sub_soft_date (renewed_row r s now q) = Some (renewed_through r s - unwrap_or (sub_renew_lead_s r) 0)"
  "sub_next_deadline (renewed_row r s now q) = sub_soft_date (renewed_row r s now q)"
  "sub_floor (renewed_row r s now q) = None"
  by (simp_all add: renewed_row_def)

lemma renewal_granted_frame [simp]:
  "db_ok d \<Longrightarrow> db_ok (renewal_granted r s now d)"
  "invoices (renewal_granted r s now d) = invoices d" "refunds (renewal_granted r s now d) = refunds d"
  by (simp_all add: renewal_granted_def db_ok_subs_update)

lemma find_sub_order_granted:
  "find_sub sid (order_granted x now d) = map_option (\<lambda>q. if sub_id q = x
     then q\<lparr>sub_state := ''PROVISIONING'', sub_next_deadline := None, sub_updated := now\<rparr> else q)
     (find_sub sid d)"
  by (simp add: order_granted_def find_sub_def find_update_where_same)

lemma find_sub_renewal_granted:
  "find_sub sid (renewal_granted r s now d) =
     map_option (\<lambda>q. if sub_id q = sub_id r then renewed_row r s now q else q) (find_sub sid d)"
  by (simp add: renewal_granted_def find_sub_def find_update_where_same)

lemma find_sub_cong: "subs d' = subs d \<Longrightarrow> find_sub sid d' = find_sub sid d"
  by (simp add: find_sub_def)

lemmas capture_journals = capture_journal_def journal_renew_resume_def frame_simps

lemma find_invoice_cong: "invoices d' = invoices d \<Longrightarrow> find_invoice_ext e d' = find_invoice_ext e d"
  by (simp add: find_invoice_ext_def)

lemma apply_paid_frame:
  assumes "db_ok d" "apply_paid kind sub exp s now d = Inr (c, d')"
  shows "db_ok d' \<and> invoices d' = invoices d"
  using assms(1)
  by (cases rule: apply_paid_cases [where kind = kind and sub = sub and exp = exp and s = s and now = now])
     (use assms in \<open>auto simp: refund_written_def capture_journals split: if_splits\<close>)

text \<open>
  Capture is total: on a well-formed database every settlement is applied without an error,
  whatever invoice and subscription it meets, and the database stays well formed (in particular at
  most one refund per external id).
\<close>

theorem capture_total:
  assumes "db_ok d"
  shows "\<exists>c d'. capture_txn s now d = Inr (c, d') \<and> db_ok d'"
  using assms
proof (cases rule: capture_txn_cases [where s = s and now = now])
  case (paid iv)
  have ok: "db_ok (invoice_paid iv s d)" using assms by simp
  from ok have "\<exists>c d'. capture_txn s now d = Inr (c, d')"
    by (cases rule: apply_paid_cases [where kind = "inv_kind iv" and sub = "inv_sub iv"
          and exp = "inv_expires iv" and s = s and now = now]) (auto simp: paid(3))
  with ok paid(3) show ?thesis by (metis apply_paid_frame)
qed (use assms in \<open>auto simp: refund_written_def\<close>)

text \<open>
  Capture is idempotent: applying the same settlement again, at any later time, changes nothing
  at all. Redelivery can therefore neither extend \<open>paid_through\<close> twice nor add a second refund.
\<close>

theorem capture_idempotent:
  assumes ok: "db_ok d" and run: "capture_txn s now d = Inr (c, d')"
  shows "\<exists>c'. c' \<in> {NoOp, RefundDue} \<and> capture_txn s now' d' = Inr (c', d')"
  using ok
proof (cases rule: capture_txn_cases [where s = s and now = now])
  case (unmatched d1)
  then have d1: "d1 = d'" using run by simp
  from unmatched(1,3) have ok': "db_ok d'" "find_invoice_ext (st_ext s) d' = None"
    and ref: "\<exists>r\<in>set (refunds d'). rf_key r = ''refund:'' @ st_ext s"
    unfolding d1 by (auto simp: refund_written_def find_invoice_ext_def)
  obtain new d2 where "refund_intent None None s now' d' = Inr (new, d2)"
    "new \<longleftrightarrow> \<not> (\<exists>r\<in>set (refunds d'). rf_key r = ''refund:'' @ st_ext s)" "\<not> new \<Longrightarrow> d2 = d'"
    using refund_intent_written [OF ok'(1)] by metis
  with ok'(2) ref show ?thesis by (auto simp: capture_txn_def)
next
  case (replay iv)
  with run show ?thesis by (auto simp: capture_txn_def)
next
  case (paid iv)
  with run have "apply_paid (inv_kind iv) (inv_sub iv) (inv_expires iv) s now (invoice_paid iv s d) = Inr (c, d')"
    by simp
  from apply_paid_frame [OF invoice_paid_frame(1) [OF ok] this]
  have "invoices d' = invoices (invoice_paid iv s d)" ..
  with find_invoice_paid [OF paid(1,2), of s] show ?thesis
    by (simp add: capture_txn_def find_invoice_cong [of d' "invoice_paid iv s d"])
next
  case (terminal iv d1)
  have d1: "d1 = d'" using terminal(4) run by simp
  from terminal(5) have ok': "db_ok d'" and inv: "invoices d' = invoices (invoice_stamped iv s d)"
    and ref: "\<exists>r\<in>set (refunds d'). rf_key r = ''refund:'' @ st_ext s"
    unfolding d1 refund_written_def by auto
  obtain iv' where found: "find_invoice_ext (st_ext s) d' = Some iv'"
    and st: "inv_status iv' = inv_status iv" "inv_id iv' = inv_id iv"
    using find_invoice_stamped [OF terminal(1), of s] inv
    by (simp add: find_invoice_cong [of d' "invoice_stamped iv s d"])
  have "\<not> (inv_id q = inv_id iv' \<and> inv_settled q = None)" if "q \<in> set (invoices d')" for q
    using that unfolding inv st(2) by (auto simp: invoice_stamped_def set_update_where split: if_splits)
  then have cnt: "count_where (\<lambda>q. inv_id q = inv_id iv' \<and> inv_settled q = None) (invoices d') = 0"
    by (simp only: count_where_0_iff) blast
  have same: "invoice_stamped iv' s d' = d'"
    unfolding invoice_stamped_def update_where_none [OF cnt] by simp
  obtain new d2 where "refund_intent (inv_sub iv') (sub_refund_dest (inv_sub iv') d') s now' d' = Inr (new, d2)"
    "new \<longleftrightarrow> \<not> (\<exists>r\<in>set (refunds d'). rf_key r = ''refund:'' @ st_ext s)" "\<not> new \<Longrightarrow> d2 = d'"
    using refund_intent_written [OF ok'] by metis
  with ref have "refund_intent (inv_sub iv') (sub_refund_dest (inv_sub iv') d') s now' d' = Inr (False, d')"
    by simp
  with found cnt same st(1) terminal(2,3) have "capture_txn s now' d' = Inr (RefundDue, d')"
    by (simp add: capture_txn_def)
  then show ?thesis by blast
qed

lemma refund_written_unique:
  assumes "refund_written ext d d'"
  shows "\<exists>!r. r \<in> set (refunds d') \<and> rf_key r = ''refund:'' @ ext"
proof -
  from assms obtain r where r: "r \<in> set (refunds d')" "rf_key r = ''refund:'' @ ext"
    by (auto simp: refund_written_def)
  moreover have "q = r" if "q \<in> set (refunds d')" "rf_key q = ''refund:'' @ ext" for q
    using assms that r find_key_unique [of rf_key "refunds d'" q] find_key_unique [of rf_key "refunds d'" r]
    by (simp add: refund_written_def db_ok_def)
  ultimately show ?thesis by blast
qed

text \<open>
  What a settlement is for, in terms of the rows before it: the open invoice it names and the subscription billed by it,
  and the two services a payment can buy.
\<close>

definition billed :: "settlement \<Rightarrow> db \<Rightarrow> invoice \<Rightarrow> subscription \<Rightarrow> bool" where
  "billed s d iv r \<longleftrightarrow> find_invoice_ext (st_ext s) d = Some iv \<and> inv_status iv = ''OPEN'' \<and>
     inv_sub iv = Some (sub_id r) \<and> find_sub (sub_id r) d = Some r"

definition buys_order :: "settlement \<Rightarrow> invoice \<Rightarrow> subscription \<Rightarrow> bool" where
  "buys_order s iv r \<longleftrightarrow> inv_kind iv = Some ''order'' \<and> sub_state r = ''PENDING'' \<and>
     (\<forall>x. inv_expires iv = Some x \<longrightarrow> st_settled s < x)"

definition buys_renewal :: "settlement \<Rightarrow> invoice \<Rightarrow> subscription \<Rightarrow> bool" where
  "buys_renewal s iv r \<longleftrightarrow> inv_kind iv = Some ''renewal'' \<and> sub_state r \<in> {''ACTIVE'', ''SUSPENDED'', ''RESUMING''} \<and>
     (\<forall>pt. sub_paid_through r = Some pt \<longrightarrow>
        st_settled s < max pt (unwrap_or (sub_floor r) pt) + unwrap_or (sub_retention_s r) 0)"

definition paid_until :: "settlement \<Rightarrow> subscription \<Rightarrow> int" where
  "paid_until s r = max (unwrap_or (sub_paid_through r) (st_settled s)) (st_settled s) + unwrap_or (sub_period_s r) 0"

definition only_sub :: "db \<Rightarrow> db \<Rightarrow> subscription \<Rightarrow> bool" where
  "only_sub d d' r' \<longleftrightarrow> refunds d' = refunds d \<and> find_sub (sub_id r') d' = Some r' \<and>
     (\<forall>x. x \<noteq> sub_id r' \<longrightarrow> find_sub x d' = find_sub x d)"

text \<open>The service is granted: the row is moved as the invoice's class asks, and nothing is owed back.\<close>

definition order_bought :: "int \<Rightarrow> db \<Rightarrow> db \<Rightarrow> subscription \<Rightarrow> bool" where
  "order_bought now d d' r \<longleftrightarrow>
     only_sub d d' (r\<lparr>sub_state := ''PROVISIONING'', sub_next_deadline := None, sub_updated := now\<rparr>)"

definition renewal_bought :: "settlement \<Rightarrow> int \<Rightarrow> db \<Rightarrow> db \<Rightarrow> subscription \<Rightarrow> bool" where
  "renewal_bought s now d d' r \<longleftrightarrow>
     only_sub d d' (r\<lparr>sub_state := (if sub_state r = ''ACTIVE'' then ''ACTIVE'' else ''RESUMING''),
       sub_paid_through := Some (paid_until s r),
       sub_soft_date := Some (paid_until s r - unwrap_or (sub_renew_lead_s r) 0),
       sub_next_deadline := Some (paid_until s r - unwrap_or (sub_renew_lead_s r) 0),
       sub_floor := None, sub_updated := now\<rparr>)"

text \<open>The money is owed back: one row for this payment, of its actual credit when the row is new.\<close>

definition owed_back :: "settlement \<Rightarrow> db \<Rightarrow> db \<Rightarrow> bool" where
  "owed_back s d d' \<longleftrightarrow> subs d' = subs d \<and>
     (\<exists>!r. r \<in> set (refunds d') \<and> rf_key r = ''refund:'' @ st_ext s) \<and>
     (\<forall>r. rf_key r \<noteq> ''refund:'' @ st_ext s \<longrightarrow> (r \<in> set (refunds d') \<longleftrightarrow> r \<in> set (refunds d))) \<and>
     ((\<forall>r\<in>set (refunds d). rf_key r \<noteq> ''refund:'' @ st_ext s) \<longrightarrow>
        (\<exists>r\<in>set (refunds d'). rf_key r = ''refund:'' @ st_ext s \<and> rf_status r = ''PENDING'' \<and>
           rf_amount r = Some (as_i64 (st_received s div 1000))))"

lemma order_expired_iff: "\<not> order_expired x s \<longleftrightarrow> (\<forall>e. x = Some e \<longrightarrow> st_settled s < e)"
  by (auto simp: order_expired_def split: option.split)

lemma past_retention_iff:
  "\<not> past_retention r s \<longleftrightarrow> (\<forall>pt. sub_paid_through r = Some pt \<longrightarrow>
     st_settled s < max pt (unwrap_or (sub_floor r) pt) + unwrap_or (sub_retention_s r) 0)"
  by (auto simp: past_retention_def split: option.split)

lemma paid_until_eq: "paid_until s r = renewed_through r s"
  by (simp add: paid_until_def renewed_through_def)

lemma intent_amount:
  assumes "db_ok e" "refund_intent sub dest s now e = Inr (new, d')" "\<forall>r\<in>set (refunds e). rf_key r \<noteq> ''refund:'' @ st_ext s"
  shows "\<exists>r\<in>set (refunds d'). rf_key r = ''refund:'' @ st_ext s \<and> rf_status r = ''PENDING'' \<and>
           rf_amount r = Some (as_i64 (st_received s div 1000))"
  using assms(1)
  by (cases rule: insert_refund_cases [where sub = sub and dest = dest and ext = "st_ext s"
      and amount = "Some (as_i64 (st_received s div 1000))" and now = now])
     (use assms in \<open>auto simp: refund_intent_def\<close>)

lemma intent_owed:
  assumes "db_ok e" "refund_intent sub dest s now e = Inr (new, d1)" "refunds d' = refunds d1" "subs d' = subs e"
    "refunds e = refunds d" "subs e = subs d"
  shows "owed_back s d d'"
proof -
  obtain n d2 where r: "refund_intent sub dest s now e = Inr (n, d2)" "refund_written (st_ext s) e d2"
    using refund_intent_written [OF assms(1)] by metis
  with assms(2) have w: "refund_written (st_ext s) e d1" by simp
  show ?thesis
    using refund_written_unique [OF w] w intent_amount [OF assms(1,2)] assms(3-6)
    by (simp add: owed_back_def refund_written_def)
qed

lemma refund_and_journal_owed:
  assumes "db_ok e" "refunds e = refunds d" "subs e = subs d" "refund_and_journal sub dest k s now e = Inr (c, d')"
  shows "c = RefundDue" "owed_back s d d'"
proof -
  obtain new d1 where r: "refund_intent sub dest s now e = Inr (new, d1)" "d' = capture_journal sub k s now d1" "c = RefundDue"
    using assms(4) by (auto simp: refund_and_journal_def split: sum.splits)
  then show "c = RefundDue" by simp
  obtain n d2 where "refund_intent sub dest s now e = Inr (n, d2)" "refund_written (st_ext s) e d2"
    using refund_intent_written [OF assms(1)] by metis
  with r(1) have "subs d1 = subs e" by (simp add: refund_written_def)
  then show "owed_back s d d'"
    by (intro intent_owed [OF assms(1) r(1) _ _ assms(2,3)]) (simp_all add: r(2) capture_journals)
qed

lemma map_find_sub_other:
  "x \<noteq> i \<Longrightarrow> map_option (\<lambda>q. if sub_id q = i then f q else q) (find_sub x d) = find_sub x d"
  by (cases "find_sub x d") (auto dest: find_sub_Some)

text \<open>The routing of a paid invoice, by what it buys.\<close>

lemma apply_paid_order:
  assumes b: "billed s d iv r" and buys: "buys_order s iv r"
  shows "\<exists>d'. apply_paid (inv_kind iv) (inv_sub iv) (inv_expires iv) s now (invoice_paid iv s d) = Inr (Captured, d') \<and>
    order_bought now d d' r"
proof -
  let ?d1 = "order_granted (sub_id r) now (invoice_paid iv s d)"
  let ?d' = "capture_journal (Some (sub_id r)) ''capture_order'' s now ?d1"
  have f: "find_sub (sub_id r) d = Some r" using b by (simp add: billed_def)
  have "apply_paid (inv_kind iv) (inv_sub iv) (inv_expires iv) s now (invoice_paid iv s d) = Inr (Captured, ?d')"
    using b buys by (simp add: billed_def buys_order_def order_expired_iff [symmetric] apply_paid_def)
  moreover have "find_sub x ?d' = find_sub x ?d1" for x by (rule find_sub_cong) (simp add: capture_journals)
  then have "order_bought now d ?d' r"
    using f by (auto simp: order_bought_def only_sub_def find_sub_order_granted map_find_sub_other capture_journals)
  ultimately show ?thesis by blast
qed

lemma apply_paid_renewal:
  assumes b: "billed s d iv r" and buys: "buys_renewal s iv r"
  shows "\<exists>d'. apply_paid (inv_kind iv) (inv_sub iv) (inv_expires iv) s now (invoice_paid iv s d)
      = Inr (if sub_state r = ''ACTIVE'' then Renewed else Resumed, d') \<and> renewal_bought s now d d' r"
proof -
  let ?d1 = "renewal_granted r s now (invoice_paid iv s d)"
  let ?d' = "if sub_state r = ''ACTIVE'' then capture_journal (Some (sub_id r)) ''renew_extend'' s now ?d1
    else journal_renew_resume (sub_id r) s now (sub_paid_through r) (sub_floor r) ?d1"
  have f: "find_sub (sub_id r) d = Some r" using b by (simp add: billed_def)
  have "apply_paid (inv_kind iv) (inv_sub iv) (inv_expires iv) s now (invoice_paid iv s d)
      = Inr (if sub_state r = ''ACTIVE'' then Renewed else Resumed, ?d')"
    using b buys by (auto simp: billed_def buys_renewal_def past_retention_iff [symmetric] apply_paid_def)
  moreover have "find_sub x ?d' = find_sub x ?d1" for x by (rule find_sub_cong) (simp add: capture_journals)
  then have "renewal_bought s now d ?d' r"
    using f by (auto simp: renewal_bought_def only_sub_def find_sub_renewal_granted renewed_row_def paid_until_eq map_find_sub_other
        capture_journals)
  ultimately show ?thesis by blast
qed

lemma apply_paid_owed:
  assumes ok: "db_ok d" and none: "\<And>r. billed s d iv r \<Longrightarrow> \<not> buys_order s iv r \<and> \<not> buys_renewal s iv r"
    and iv: "find_invoice_ext (st_ext s) d = Some iv" "inv_status iv = ''OPEN''"
    and run: "apply_paid (inv_kind iv) (inv_sub iv) (inv_expires iv) s now (invoice_paid iv s d) = Inr (c, d')"
  shows "c = RefundDue" "owed_back s d d'"
proof -
  have "\<exists>sub dest k. apply_paid (inv_kind iv) (inv_sub iv) (inv_expires iv) s now (invoice_paid iv s d)
      = refund_and_journal sub dest k s now (invoice_paid iv s d)"
  proof (cases "\<exists>r. billed s d iv r")
    case True
    then obtain r where b: "billed s d iv r" by blast
    with none have "\<not> buys_order s iv r" "\<not> buys_renewal s iv r" by blast+
    with b show ?thesis
      by (auto simp: billed_def buys_order_def buys_renewal_def order_expired_iff [symmetric] past_retention_iff [symmetric]
          apply_paid_def)
  next
    case False
    then have "inv_sub iv = Some x \<Longrightarrow> find_sub x d = None" for x
      using iv find_sub_Some [of x d] by (cases "find_sub x d") (auto simp: billed_def)
    then show ?thesis by (auto simp: apply_paid_def split: option.split)
  qed
  then obtain sub dest k where "refund_and_journal sub dest k s now (invoice_paid iv s d) = Inr (c, d')"
    unfolding run by metis
  from refund_and_journal_owed [OF _ _ _ this] ok show "c = RefundDue" "owed_back s d d'" by simp_all
qed

definition already_applied :: "settlement \<Rightarrow> db \<Rightarrow> bool" where
  "already_applied s d \<longleftrightarrow> (\<exists>iv. find_invoice_ext (st_ext s) d = Some iv \<and> inv_status iv = ''PAID'')"

lemma capture_owed:
  assumes ok: "db_ok d" and new: "\<not> already_applied s d"
    and none: "\<And>iv r. billed s d iv r \<Longrightarrow> \<not> buys_order s iv r \<and> \<not> buys_renewal s iv r"
    and run: "capture_txn s now d = Inr (c, d')"
  shows "c = RefundDue \<and> owed_back s d d'"
proof (cases "find_invoice_ext (st_ext s) d")
  case None
  with run obtain n d1 where r: "refund_intent None None s now d = Inr (n, d1)" "c = RefundDue"
    "d' = (if n then capture_journal None ''settle_unmatched_refund'' s now d1 else d1)"
    by (auto simp: capture_txn_def split: sum.splits)
  obtain m d2 where "refund_intent None None s now d = Inr (m, d2)" "refund_written (st_ext s) d d2"
    using refund_intent_written [OF ok] by metis
  with r(1) have "subs d1 = subs d" by (simp add: refund_written_def)
  then have "owed_back s d d'" by (intro intent_owed [OF ok r(1)]) (simp_all add: r(3) capture_journals)
  with r(2) show ?thesis by blast
next
  case (Some iv)
  show ?thesis
  proof (cases "inv_status iv = ''OPEN''")
    case True
    have "apply_paid (inv_kind iv) (inv_sub iv) (inv_expires iv) s now (invoice_paid iv s d) = Inr (c, d')"
      using ok by (cases rule: capture_txn_cases [where s = s and now = now]) (use Some True run in auto)
    from apply_paid_owed [OF ok none Some True this] show ?thesis by blast
  next
    case False
    let ?e = "invoice_stamped iv s d"
    have "inv_status iv \<noteq> ''PAID''" using new Some by (auto simp: already_applied_def)
    with run Some False obtain n d1 where
      r: "refund_intent (inv_sub iv) (sub_refund_dest (inv_sub iv) ?e) s now ?e = Inr (n, d1)" "c = RefundDue"
      "d' = d1 \<or> d' = capture_journal (inv_sub iv) ''settle_terminal_refund'' s now d1"
      by (auto simp: capture_txn_def split: sum.splits if_splits)
    obtain m d2 where "refund_intent (inv_sub iv) (sub_refund_dest (inv_sub iv) ?e) s now ?e = Inr (m, d2)"
      "refund_written (st_ext s) ?e d2" using refund_intent_written [of ?e] ok by (metis invoice_stamped_frame(1))
    with r(1) have "subs d1 = subs ?e" by (simp add: refund_written_def)
    then have "owed_back s d d'"
      by (intro intent_owed [OF _ r(1)]) (use r(3) ok in \<open>auto simp: capture_journals\<close>)
    with r(2) show ?thesis by blast
  qed
qed

lemma capture_marks_paid:
  assumes ok: "db_ok d" and run: "capture_txn s now d = Inr (c, d')"
    and iv: "find_invoice_ext (st_ext s) d = Some iv" "inv_status iv = ''OPEN''"
  shows "find_invoice_ext (st_ext s) d' = Some (iv\<lparr>inv_status := ''PAID'', inv_settled := Some (st_settled s),
     inv_applied := Some (st_settled s), inv_received := Some (as_i64 (st_received s))\<rparr>)"
proof -
  have "apply_paid (inv_kind iv) (inv_sub iv) (inv_expires iv) s now (invoice_paid iv s d) = Inr (c, d')"
    using ok by (cases rule: capture_txn_cases [where s = s and now = now]) (use iv run in auto)
  from apply_paid_frame [OF invoice_paid_frame(1) [OF ok] this] find_invoice_paid [OF iv, of s]
  show ?thesis by (simp add: find_invoice_cong [of d' "invoice_paid iv s d"])
qed

lemma capture_billed:
  assumes "db_ok d" "billed s d iv r" "capture_txn s now d = Inr (c, d')"
  shows "apply_paid (inv_kind iv) (inv_sub iv) (inv_expires iv) s now (invoice_paid iv s d) = Inr (c, d')"
  using assms(1) by (cases rule: capture_txn_cases [where s = s and now = now]) (use assms(2,3) in \<open>auto simp: billed_def\<close>)

lemma capture_granted:
  assumes "db_ok d" "billed s d iv r" "capture_txn s now d = Inr (c, d')"
  shows "buys_order s iv r \<Longrightarrow> c = Captured \<and> order_bought now d d' r"
    and "buys_renewal s iv r \<Longrightarrow> c = (if sub_state r = ''ACTIVE'' then Renewed else Resumed) \<and> renewal_bought s now d d' r"
  using apply_paid_order [OF assms(2), of now] apply_paid_renewal [OF assms(2), of now] capture_billed [OF assms] by auto

text \<open>
  C7. Every settlement buys exactly the service it was billed for or becomes exactly one refund of what was received, and
  which of the two is decided by the rows alone. On a well-formed database capture never fails. An order paid before it
  expires moves its PENDING subscription to PROVISIONING; a renewal paid before the credited end of retention extends a live
  one by its period, from the later of what was paid and the settlement; both leave every other subscription and all refunds
  alone and mark the invoice paid. A settlement whose invoice is already PAID changes nothing, and any other one, matched or
  not, leaves every subscription alone and one refund row for the payment, PENDING and of the whole sats received if new.
\<close>

theorem capture_grants_or_refunds:
  assumes ok: "db_ok d"
  shows "\<exists>c d'. capture_txn s now d = Inr (c, d') \<and> db_ok d' \<and>
    (\<forall>iv r. billed s d iv r \<and> buys_order s iv r \<longrightarrow> c = Captured \<and> order_bought now d d' r) \<and>
    (\<forall>iv r. billed s d iv r \<and> buys_renewal s iv r \<longrightarrow>
       c = (if sub_state r = ''ACTIVE'' then Renewed else Resumed) \<and> renewal_bought s now d d' r) \<and>
    (\<forall>iv. find_invoice_ext (st_ext s) d = Some iv \<and> inv_status iv = ''OPEN'' \<longrightarrow>
       find_invoice_ext (st_ext s) d' = Some (iv\<lparr>inv_status := ''PAID'', inv_settled := Some (st_settled s),
         inv_applied := Some (st_settled s), inv_received := Some (as_i64 (st_received s))\<rparr>)) \<and>
    (if already_applied s d then c = NoOp \<and> d' = d
     else (\<exists>iv r. billed s d iv r \<and> (buys_order s iv r \<or> buys_renewal s iv r)) \<or> c = RefundDue \<and> owed_back s d d')"
proof -
  obtain c d' where run: "capture_txn s now d = Inr (c, d')" and ok': "db_ok d'" using capture_total [OF ok] by blast
  have "c = Captured \<and> order_bought now d d' r" if "billed s d iv r \<and> buys_order s iv r" for iv r
    using capture_granted(1) [OF ok _ run] that by blast
  moreover have "c = (if sub_state r = ''ACTIVE'' then Renewed else Resumed) \<and> renewal_bought s now d d' r"
    if "billed s d iv r \<and> buys_renewal s iv r" for iv r
    using capture_granted(2) [OF ok _ run] that by blast
  moreover have "c = NoOp \<and> d' = d" if "already_applied s d"
    using that run by (auto simp: already_applied_def capture_txn_def)
  moreover have "c = RefundDue \<and> owed_back s d d'"
    if "\<not> already_applied s d" "\<not> (\<exists>iv r. billed s d iv r \<and> (buys_order s iv r \<or> buys_renewal s iv r))"
    using capture_owed [OF ok that(1) _ run] that(2) by blast
  ultimately show ?thesis using run ok' capture_marks_paid [OF ok run] by (intro exI [of _ c] exI [of _ d']) auto
qed

text \<open>
  A renewal extends the paid period exactly: the new \<open>paid_through\<close> is the later of the old one
  and the settlement time, plus the period, so an early renewal stacks on what is already paid and
  a late one never lands in the past; the timers follow it, the consumed downtime credit is
  cleared, and a lapsed subscription goes to RESUMING, never straight to ACTIVE.
\<close>

theorem capture_renewal_extends:
  assumes ok: "db_ok d" and run: "capture_txn s now d = Inr (c, d')" and c: "c \<in> {Renewed, Resumed}"
  shows "\<exists>iv r r'. find_invoice_ext (st_ext s) d = Some iv \<and> inv_kind iv = Some ''renewal'' \<and>
           inv_sub iv = Some (sub_id r) \<and> find_sub (sub_id r) d = Some r \<and> find_sub (sub_id r) d' = Some r' \<and>
           sub_paid_through r' = Some (max (unwrap_or (sub_paid_through r) (st_settled s)) (st_settled s)
                                       + unwrap_or (sub_period_s r) 0) \<and>
           sub_soft_date r' = map_option (\<lambda>p. p - unwrap_or (sub_renew_lead_s r) 0) (sub_paid_through r') \<and>
           sub_next_deadline r' = sub_soft_date r' \<and> sub_floor r' = None \<and>
           (c = Renewed \<and> sub_state r = ''ACTIVE'' \<and> sub_state r' = ''ACTIVE'' \<or>
            c = Resumed \<and> sub_state r \<in> {''SUSPENDED'', ''RESUMING''} \<and> sub_state r' = ''RESUMING'')"
proof -
  from ok run c obtain iv where iv: "find_invoice_ext (st_ext s) d = Some iv"
    and ap: "apply_paid (inv_kind iv) (inv_sub iv) (inv_expires iv) s now (invoice_paid iv s d) = Inr (c, d')"
    by (cases rule: capture_txn_cases [where s = s and now = now]) auto
  from ok have "db_ok (invoice_paid iv s d)" by simp
  then show ?thesis
  proof (cases rule: apply_paid_cases [where kind = "inv_kind iv" and sub = "inv_sub iv"
        and exp = "inv_expires iv" and s = s and now = now])
    case (renewal r c1 d1)
    from ap renewal(6) have eq: "c1 = c" "d1 = d'" by simp_all
    have d': "subs d' = subs (renewal_granted r s now (invoice_paid iv s d))"
      using renewal(8) unfolding eq by (auto simp: capture_journals)
    have found: "find_sub (sub_id r) d = Some r" using renewal(2) by simp
    then have found': "find_sub (sub_id r) d' = Some (renewed_row r s now r)"
      unfolding find_sub_cong [OF d'] find_sub_renewal_granted by simp
    show ?thesis
      by (rule exI [of _ iv], rule exI [of _ r], rule exI [of _ "renewed_row r s now r"])
         (use found found' iv renewal(1,3,4,7) eq(1) in \<open>auto simp: renewed_through_def\<close>)
  qed (use ap c in auto)
qed

text \<open>
  Capture never resurrects a subscription: whatever settles, each subscription keeps its state
  except that a PENDING one may become PROVISIONING and a SUSPENDED one RESUMING, and a
  \<open>paid_through\<close> changes only on a live subscription.
\<close>

theorem capture_state_moves:
  assumes ok: "db_ok d" and run: "capture_txn s now d = Inr (c, d')" and r: "find_sub sid d = Some r"
  shows "\<exists>r'. find_sub sid d' = Some r' \<and>
           (sub_state r' = sub_state r \<or> sub_state r = ''PENDING'' \<and> sub_state r' = ''PROVISIONING'' \<or>
            sub_state r = ''SUSPENDED'' \<and> sub_state r' = ''RESUMING'') \<and>
           (sub_paid_through r' = sub_paid_through r \<or>
            sub_state r \<in> {''ACTIVE'', ''SUSPENDED'', ''RESUMING''} \<and>
            sub_paid_through r' = Some (renewed_through r s))"
proof -
  have same: ?thesis if "subs d' = subs d"
    using r that by (simp add: find_sub_def)
  show ?thesis
    using ok
  proof (cases rule: capture_txn_cases [where s = s and now = now])
    case (unmatched d1)
    with run show ?thesis by (intro same) (auto simp: refund_written_def)
  next
    case (replay iv)
    with run show ?thesis by (intro same) auto
  next
    case (terminal iv d1)
    with run show ?thesis by (intro same) (auto simp: refund_written_def)
  next
    case (paid iv)
    from paid(3) run have ap: "apply_paid (inv_kind iv) (inv_sub iv) (inv_expires iv) s now (invoice_paid iv s d) = Inr (c, d')"
      by simp
    from ok have "db_ok (invoice_paid iv s d)" by simp
    then show ?thesis
    proof (cases rule: apply_paid_cases [where kind = "inv_kind iv" and sub = "inv_sub iv"
          and exp = "inv_expires iv" and s = s and now = now])
      case (refund d1)
      with ap show ?thesis by (intro same) (auto simp: refund_written_def)
    next
      case (order q)
      with ap have d': "subs d' = subs (order_granted (sub_id q) now (invoice_paid iv s d))"
        by (auto simp: capture_journals)
      from order(2) r have "sid = sub_id q \<Longrightarrow> q = r"
        by (metis invoice_paid_frame(4) option.inject)
      with r order(4) find_sub_Some [OF r] show ?thesis
        unfolding find_sub_cong [OF d'] find_sub_order_granted by auto
    next
      case (renewal q c1 d1)
      from ap renewal(6) have eq: "c1 = c" "d1 = d'" by simp_all
      have d': "subs d' = subs (renewal_granted q s now (invoice_paid iv s d))"
        using renewal(8) unfolding eq by (auto simp: capture_journals)
      from renewal(2) r have "sid = sub_id q \<Longrightarrow> q = r"
        by (metis invoice_paid_frame(4) option.inject)
      moreover have "find_sub sid d' = Some (if sid = sub_id q then renewed_row q s now r else r)"
        unfolding find_sub_cong [OF d'] find_sub_renewal_granted
        using r find_sub_Some [OF r] by simp
      ultimately show ?thesis using renewal(4) by (cases "sid = sub_id q") auto
    qed
  qed
qed

text \<open>
  The refund a settlement is owed is its actual wallet credit: when the payment has no refund
  yet, a refund outcome writes a PENDING row for exactly \<open>received_msat div 1000\<close> sats, never for the
  gross invoice amount.
\<close>

theorem capture_refund_amount:
  assumes ok: "db_ok d" and run: "capture_txn s now d = Inr (RefundDue, d')"
    and fresh: "\<forall>r\<in>set (refunds d). rf_key r \<noteq> ''refund:'' @ st_ext s"
    and bound: "st_received s < 2 ^ 63"
  shows "\<exists>r\<in>set (refunds d'). rf_key r = ''refund:'' @ st_ext s \<and> rf_status r = ''PENDING'' \<and>
           rf_amount r = Some (int (st_received s div 1000)) \<and> rf_attempts r = Some 0 \<and> rf_fence r = None"
proof -
  have small: "as_i64 (st_received s div 1000) = int (st_received s div 1000)"
    using bound by (intro as_i64_small) (meson div_le_dividend le_less_trans)
  have intent: "\<exists>r\<in>set (refunds d1). rf_key r = ''refund:'' @ st_ext s \<and> rf_status r = ''PENDING'' \<and>
      rf_amount r = Some (int (st_received s div 1000)) \<and> rf_attempts r = Some 0 \<and> rf_fence r = None"
    if "db_ok e" "refunds e = refunds d" "refund_intent sub dest s now e = Inr (new, d1)" for e sub dest new d1
    using that(1)
    by (cases rule: insert_refund_cases [where sub = sub and dest = dest and ext = "st_ext s"
        and amount = "Some (as_i64 (st_received s div 1000))" and now = now])
       (use that fresh in \<open>auto simp: refund_intent_def small\<close>)
  have journal: "refund_and_journal sub dest k s now e = Inr (RefundDue, d') \<Longrightarrow>
      \<exists>new d1. refund_intent sub dest s now e = Inr (new, d1) \<and> refunds d' = refunds d1"
    for e sub dest k
    by (auto simp: refund_and_journal_def capture_journals split: sum.splits)
  show ?thesis
  proof (cases "find_invoice_ext (st_ext s) d")
    case None
    with run have "\<exists>new d1. refund_intent None None s now d = Inr (new, d1) \<and> refunds d' = refunds d1"
      by (auto simp: capture_txn_def capture_journals split: sum.splits if_splits)
    with intent [OF ok refl] show ?thesis by metis
  next
    case (Some iv)
    consider (paid) "capture_txn s now d = apply_paid (inv_kind iv) (inv_sub iv) (inv_expires iv) s now (invoice_paid iv s d)"
      | (stamped) sub dest new d1 where "refund_intent sub dest s now (invoice_stamped iv s d) = Inr (new, d1)"
          "refunds d' = refunds d1"
      using run Some by (auto simp: capture_txn_def capture_journals split: sum.splits if_splits)
    then show ?thesis
    proof cases
      case paid
      with run obtain sub dest k where "refund_and_journal sub dest k s now (invoice_paid iv s d) = Inr (RefundDue, d')"
        by (auto simp: apply_paid_def split: option.splits if_splits)
      with journal intent [of "invoice_paid iv s d"] ok show ?thesis by (metis invoice_paid_frame(1,3))
    next
      case stamped
      with intent [of "invoice_stamped iv s d"] ok show ?thesis by simp
    qed
  qed
qed

subsection \<open>Witnesses\<close>

definition sample_settlement :: "string \<Rightarrow> int \<Rightarrow> settlement" where
  "sample_settlement ext t =
     \<lparr>st_invoice = ''inv'', st_ext = ext, st_amount = 7, st_received = 6500, st_settled = t\<rparr>"

abbreviation lapsed_db :: db where
  "lapsed_db \<equiv> sample_db [sample_sub ''s1'' ''SUSPENDED''] [sample_invoice ''s1'' ''x1'' ''renewal'' ''OPEN'']"

lemmas capture_eval = capture_txn_def find_invoice_ext_def apply_paid_def find_sub_def refund_intent_def
  insert_refund_attempt_txn_def past_retention_def order_expired_def invoice_paid_def invoice_stamped_def
  sample_settlement_def

lemma lapsed_ok: "db_ok lapsed_db"
  by (simp add: db_ok_def sample_defs)

lemma lapsed_capture: "\<exists>d'. capture_txn (sample_settlement ''x1'' 1020) 5 lapsed_db = Inr (Resumed, d')"
  by (simp add: capture_eval sample_defs)

lemma lapsed_too_late: "\<exists>d'. capture_txn (sample_settlement ''x1'' 1050) 5 lapsed_db = Inr (RefundDue, d')"
  by (simp add: capture_eval sample_defs refund_and_journal_def)

theorem capture_total_witness:
  "\<exists>c d'. capture_txn (sample_settlement ''x1'' 1020) 5 lapsed_db = Inr (c, d') \<and> db_ok d'"
  by (rule capture_total [OF lapsed_ok])

theorem capture_idempotent_witness:
  "\<exists>d'. capture_txn (sample_settlement ''x1'' 1020) 5 lapsed_db = Inr (Resumed, d') \<and>
        (\<exists>c. capture_txn (sample_settlement ''x1'' 1020) 9 d' = Inr (c, d'))"
  using lapsed_capture capture_idempotent [OF lapsed_ok] by blast

theorem capture_grants_or_refunds_witness:
  "\<exists>d' r'. capture_txn (sample_settlement ''x1'' 1020) 5 lapsed_db = Inr (Resumed, d') \<and> find_sub ''s1'' d' = Some r' \<and>
     sub_state r' = ''RESUMING'' \<and> sub_paid_through r' = Some 1120 \<and> refunds d' = []"
proof -
  let ?iv = "sample_invoice ''s1'' ''x1'' ''renewal'' ''OPEN''" and ?r = "sample_sub ''s1'' ''SUSPENDED''"
  let ?s = "sample_settlement ''x1'' 1020"
  have "billed ?s lapsed_db ?iv ?r \<and> buys_renewal ?s ?iv ?r"
    by (simp add: billed_def buys_renewal_def find_invoice_ext_def find_sub_def sample_settlement_def sample_defs)
  with capture_grants_or_refunds [OF lapsed_ok, of ?s 5] obtain d' where
    "capture_txn ?s 5 lapsed_db = Inr (if sub_state ?r = ''ACTIVE'' then Renewed else Resumed, d')"
    "renewal_bought ?s 5 lapsed_db d' ?r" by blast
  then show ?thesis
    by (intro exI [of _ d']) (simp add: renewal_bought_def only_sub_def paid_until_def sample_settlement_def sample_defs)
qed

theorem capture_renewal_extends_witness:
  "\<exists>d' r'. capture_txn (sample_settlement ''x1'' 1020) 5 lapsed_db = Inr (Resumed, d') \<and>
           find_sub ''s1'' d' = Some r' \<and> sub_paid_through r' = Some 1120"
proof -
  obtain d' where run: "capture_txn (sample_settlement ''x1'' 1020) 5 lapsed_db = Inr (Resumed, d')"
    using lapsed_capture by blast
  obtain iv r r' where iv: "find_invoice_ext ''x1'' lapsed_db = Some iv" "inv_sub iv = Some (sub_id r)"
    and r: "find_sub (sub_id r) lapsed_db = Some r" and r': "find_sub (sub_id r) d' = Some r'"
    and paid: "sub_paid_through r' = Some (max (unwrap_or (sub_paid_through r) 1020) 1020 + unwrap_or (sub_period_s r) 0)"
    using capture_renewal_extends [OF lapsed_ok run] by (auto simp: sample_settlement_def)
  from iv have id: "sub_id r = ''s1''" by (auto simp: find_invoice_ext_def sample_defs)
  have "find_sub ''s1'' lapsed_db = Some (sample_sub ''s1'' ''SUSPENDED'')"
    by (simp add: find_sub_def sample_defs)
  with r id have "r = sample_sub ''s1'' ''SUSPENDED''" by simp
  with r' paid id have "find_sub ''s1'' d' = Some r' \<and> sub_paid_through r' = Some 1120"
    by (simp add: sample_sub_def)
  with run show ?thesis by blast
qed

theorem capture_state_moves_witness:
  "\<exists>d' r'. capture_txn (sample_settlement ''x1'' 1020) 5 lapsed_db = Inr (Resumed, d') \<and>
           find_sub ''s1'' d' = Some r' \<and> sub_state r' \<in> {''SUSPENDED'', ''RESUMING''}"
proof -
  have r: "find_sub ''s1'' lapsed_db = Some (sample_sub ''s1'' ''SUSPENDED'')"
    by (simp add: find_sub_def sample_defs)
  obtain d' where run: "capture_txn (sample_settlement ''x1'' 1020) 5 lapsed_db = Inr (Resumed, d')"
    using lapsed_capture by blast
  from capture_state_moves [OF lapsed_ok run r] run show ?thesis by (auto simp: sample_sub_def)
qed

theorem capture_refund_amount_witness:
  "\<exists>d'. capture_txn (sample_settlement ''x1'' 1050) 5 lapsed_db = Inr (RefundDue, d') \<and>
        (\<exists>r\<in>set (refunds d'). rf_key r = ''refund:x1'' \<and> rf_amount r = Some 6)"
proof -
  obtain d' where run: "capture_txn (sample_settlement ''x1'' 1050) 5 lapsed_db = Inr (RefundDue, d')"
    using lapsed_too_late by blast
  have "\<exists>r\<in>set (refunds d'). rf_key r = ''refund:'' @ st_ext (sample_settlement ''x1'' 1050) \<and>
      rf_status r = ''PENDING'' \<and> rf_amount r = Some (int (st_received (sample_settlement ''x1'' 1050) div 1000)) \<and>
      rf_attempts r = Some 0 \<and> rf_fence r = None"
    by (rule capture_refund_amount [OF lapsed_ok run]) (simp_all add: sample_defs sample_settlement_def)
  with run show ?thesis by (auto simp: sample_settlement_def)
qed

end
