(* ===== verification/Ledger.thy ===== *)
theory Ledger
  imports Capture
begin

text \<open>
  The money core, \<open>daemon/src/ledger.rs\<close>: wallet-credited receipts of both provenance classes,
  committed refund caps, sweep caps, and \<open>expected_msat\<close>, the local lower bound on the wallet.

  A payment backend is code outside the ledger; what the ledger asks of it is one status per pay
  key, so \<open>observe\<close> takes that as an argument. The sums of \<open>u128\<close> values cannot overflow on 64-bit
  columns and are taken in \<open>nat\<close>; a value that does not fit the Rust type it is read into is the
  error \<open>OutOfRange\<close>.
\<close>

datatype pay_status = PayUnknown | PayPending | PaySucceeded | PayFailed

subsection \<open>Pay keys\<close>

definition gen_key :: "string \<Rightarrow> int \<Rightarrow> string" where
  "gen_key ext gen = (if gen = 0 then ''refund:'' @ ext else ''refund:'' @ ext @ '':g'' @ int_str gen)"

definition external_id_from :: "string \<Rightarrow> string \<Rightarrow> string" where
  "external_id_from key rid =
     (case strip_prefix ''refund:'' key of
        Some ext \<Rightarrow> ext
      | None \<Rightarrow> unwrap_or (strip_prefix ''ref-'' rid) rid)"

lemma external_id_from_keyed [simp]: "external_id_from (''refund:'' @ ext) rid = ext"
  by (simp only: external_id_from_def strip_prefix_append option.case)

lemma gen_key_gen_inj [simp]: "gen_key ext g = gen_key ext g' \<longleftrightarrow> g = g'"
  by (auto simp: gen_key_def)

subsection \<open>Receipts\<close>

definition settle_refund_kinds :: "string list" where
  "settle_refund_kinds =
     [''settle_unmatched_refund'', ''settle_terminal_refund'', ''settle_orphan_refund'',
      ''settle_expired_refund'']"

definition positive_sat :: "int option \<Rightarrow> nat option" where
  "positive_sat a = (case a of None \<Rightarrow> None | Some v \<Rightarrow> if 0 < v then Some (nat v) else None)"

definition positive_msat :: "int option \<Rightarrow> nat option" where
  "positive_msat a = positive_sat a"

definition receipt_settled :: "invoice \<Rightarrow> bool" where
  "receipt_settled i \<longleftrightarrow> inv_status i = ''PAID'' \<or> inv_settled i \<noteq> None"

definition invoice_msat :: "invoice \<Rightarrow> int option" where
  "invoice_msat i =
     coalesce (inv_received i)
       (case inv_amount i of None \<Rightarrow> None | Some a \<Rightarrow> if 0 < a then Some (a * 1000) else None)"

text \<open>Class A: settled invoice rows, in the order the map is filled.\<close>

definition class_a :: "db \<Rightarrow> (string \<times> nat) list" where
  "class_a d = List.map_filter
     (\<lambda>i. if receipt_settled i then map_option (Pair (inv_ext i)) (positive_msat (invoice_msat i)) else None)
     (invoices d)"

text \<open>Class B: the settle-refund journals, grouped by external id, the maximum of each group.\<close>

definition settle_refund_event :: "event \<Rightarrow> bool" where
  "settle_refund_event e \<longleftrightarrow> ev_kind e \<in> set settle_refund_kinds"

definition event_ext :: "event \<Rightarrow> string option" where
  "event_ext e = json_text ''external_id'' (ev_detail e)"

definition event_msat :: "event \<Rightarrow> int option" where
  "event_msat e =
     coalesce (json_int ''received_msat'' (ev_detail e))
       (map_option (\<lambda>a. a * 1000) (json_int ''amount_sat'' (ev_detail e)))"

fun sql_max :: "int option list \<Rightarrow> int option" where
  "sql_max [] = None"
| "sql_max (None # xs) = sql_max xs"
| "sql_max (Some x # xs) = (case sql_max xs of None \<Rightarrow> Some x | Some y \<Rightarrow> Some (max x y))"

definition journal_msat :: "string \<Rightarrow> db \<Rightarrow> int option" where
  "journal_msat ext d =
     sql_max (map event_msat (filter (\<lambda>e. settle_refund_event e \<and> event_ext e = Some ext) (events d)))"

definition class_b_exts :: "db \<Rightarrow> string list" where
  "class_b_exts d = remdups (List.map_filter event_ext (filter settle_refund_event (events d)))"

definition class_b :: "db \<Rightarrow> (string \<times> nat) list" where
  "class_b d = List.map_filter
     (\<lambda>x. map_option (Pair x) (positive_msat (journal_msat x d))) (class_b_exts d)"

text \<open>An external id counted in class A keeps its invoice credit (\<open>or_insert\<close>).\<close>

definition received_by_ext :: "db \<Rightarrow> (string \<times> nat) list" where
  "received_by_ext d = class_a d @ filter (\<lambda>p. fst p \<notin> fst ` set (class_a d)) (class_b d)"

definition fits_i64 :: "int option \<Rightarrow> bool" where
  "fits_i64 v = (case v of None \<Rightarrow> True | Some i \<Rightarrow> - (2 ^ 63) \<le> i \<and> i < 2 ^ 63)"

definition event_decodes :: "event \<Rightarrow> bool" where
  "event_decodes e \<longleftrightarrow>
     fits_i64 (event_msat e) \<and>
     (case json_get ''external_id'' (ev_detail e) of None \<Rightarrow> True | Some JNull \<Rightarrow> True
      | Some (JStr _) \<Rightarrow> True | _ \<Rightarrow> False)"

definition receipts_decode :: "db \<Rightarrow> bool" where
  "receipts_decode d \<longleftrightarrow>
     (\<forall>i\<in>set (invoices d). receipt_settled i \<longrightarrow> fits_i64 (invoice_msat i)) \<and>
     (\<forall>e\<in>set (events d). settle_refund_event e \<longrightarrow> event_decodes e)"

definition receipts :: "db \<Rightarrow> nat" where
  "receipts d = sum_list (map snd (received_by_ext d))"

definition sum_receipts_msat :: "db \<Rightarrow> store_error + nat" where
  "sum_receipts_msat d = (if receipts_decode d then Inr (receipts d) else Inl OutOfRange)"

subsection \<open>Commitments\<close>

definition committed :: "string \<Rightarrow> bool \<Rightarrow> pay_status \<Rightarrow> bool" where
  "committed status fenced pay \<longleftrightarrow>
     status = ''SENT'' \<or> fenced \<or> pay = PayPending \<or> pay = PaySucceeded"

record refund_commitment =
  rc_key :: string
  rc_pay_key :: string
  rc_amount_msat :: nat
  rc_status :: string
  rc_fenced :: bool
  rc_pay :: pay_status

definition rc_committed :: "refund_commitment \<Rightarrow> bool" where
  "rc_committed r = committed (rc_status r) (rc_fenced r) (rc_pay r)"

definition load_refund_commitments :: "db \<Rightarrow> refund_commitment list" where
  "load_refund_commitments d = map (\<lambda>r.
     \<lparr>rc_key = rf_key r, rc_pay_key = gen_key (external_id_from (rf_key r) (rf_id r)) (rf_gen r),
      rc_amount_msat = (case positive_sat (rf_amount r) of None \<Rightarrow> 0 | Some s \<Rightarrow> s * 1000),
      rc_status = rf_status r, rc_fenced = (rf_fence r \<noteq> None), rc_pay = PayUnknown\<rparr>) (refunds d)"

definition sweep_counts :: "sweep_attempt \<Rightarrow> bool" where
  "sweep_counts w \<longleftrightarrow> sw_status w = ''SENT'' \<or> sw_status w = ''PENDING'' \<or> sw_fence w \<noteq> None"

definition sum_sweep_caps_msat :: "db \<Rightarrow> store_error + nat" where
  "sum_sweep_caps_msat d =
     (let s = sum_where sweep_counts sw_max_outlay (sweeps d)
      in if fits_i64 (Some s) then Inr (nat s) else Inl OutOfRange)"

record ledger_reads =
  lr_receipts :: nat
  lr_refunds :: "refund_commitment list"
  lr_sweeps :: nat

definition read_ledger_terms :: "db \<Rightarrow> store_error + ledger_reads" where
  "read_ledger_terms d =
     (case sum_receipts_msat d of
        Inl e \<Rightarrow> Inl e
      | Inr n \<Rightarrow> (case sum_sweep_caps_msat d of
          Inl e \<Rightarrow> Inl e
        | Inr w \<Rightarrow> Inr \<lparr>lr_receipts = n, lr_refunds = load_refund_commitments d, lr_sweeps = w\<rparr>))"

text \<open>Each row not committed by its own columns is probed once; the first failed probe is the result.\<close>

fun observe :: "(string \<Rightarrow> store_error + pay_status) \<Rightarrow> refund_commitment list
                \<Rightarrow> store_error + refund_commitment list" where
  "observe ask [] = Inr []"
| "observe ask (r # rs) =
     (if rc_committed r then map_sum id (Cons r) (observe ask rs)
      else (case ask (rc_pay_key r) of
              Inl e \<Rightarrow> Inl e
            | Inr p \<Rightarrow> map_sum id (Cons (r\<lparr>rc_pay := p\<rparr>)) (observe ask rs)))"

definition expected_of :: "ledger_reads \<Rightarrow> nat" where
  "expected_of l =
     saturating_sub
       (saturating_sub (lr_receipts l)
          (fold (\<lambda>r acc. saturating_add_u128 acc (rc_amount_msat r)) (filter rc_committed (lr_refunds l)) 0))
       (lr_sweeps l)"

definition snapshot_refund :: "ledger_reads \<Rightarrow> string \<Rightarrow> refund_commitment option" where
  "snapshot_refund l key = List.find (\<lambda>r. rc_key r = key) (lr_refunds l)"

definition expected_msat :: "(string \<Rightarrow> store_error + pay_status) \<Rightarrow> db \<Rightarrow> store_error + nat" where
  "expected_msat ask d =
     (case read_ledger_terms d of
        Inl e \<Rightarrow> Inl e
      | Inr l \<Rightarrow> (case observe ask (lr_refunds l) of
          Inl e \<Rightarrow> Inl e
        | Inr rs \<Rightarrow> Inr (expected_of (l\<lparr>lr_refunds := rs\<rparr>))))"

subsection \<open>The receipt of one external id\<close>

definition class_a_of :: "db \<Rightarrow> string \<Rightarrow> nat option" where
  "class_a_of d x =
     (case find_invoice_ext x d of None \<Rightarrow> None
      | Some i \<Rightarrow> if receipt_settled i then positive_msat (invoice_msat i) else None)"

definition receipt_of :: "db \<Rightarrow> string \<Rightarrow> nat option" where
  "receipt_of d x = (case class_a_of d x of Some n \<Rightarrow> Some n | None \<Rightarrow> positive_msat (journal_msat x d))"

lemma receipt_of_cong:
  "class_a_of d' x = class_a_of d x \<Longrightarrow> journal_msat x d' = journal_msat x d \<Longrightarrow> receipt_of d' x = receipt_of d x"
  unfolding receipt_of_def by (simp split: option.split)

lemma map_filter_Cons [simp]:
  "List.map_filter f (x # xs) = (case f x of None \<Rightarrow> List.map_filter f xs | Some y \<Rightarrow> y # List.map_filter f xs)"
  by (cases "f x") (simp_all add: List.map_filter_def)

lemma map_filter_Nil [simp]: "List.map_filter f [] = []"
  by (simp add: List.map_filter_def)

lemma map_of_class_a:
  assumes "distinct (map k xs)"
  shows "map_of (List.map_filter (\<lambda>i. if P i then map_option (Pair (k i)) (g i) else None) xs) x
       = (case List.find (\<lambda>i. k i = x) xs of None \<Rightarrow> None | Some i \<Rightarrow> if P i then g i else None)"
  using assms
proof (induction xs)
  case (Cons i xs)
  have "k i \<notin> fst ` set (List.map_filter (\<lambda>i. if P i then map_option (Pair (k i)) (g i) else None) xs)"
    using Cons.prems by (auto simp: List.map_filter_def image_iff split: if_splits)
  then have "map_of (List.map_filter (\<lambda>i. if P i then map_option (Pair (k i)) (g i) else None) xs) (k i) = None"
    by (simp add: map_of_eq_None_iff)
  with Cons show ?case by (auto split: option.splits)
qed simp

lemma map_of_tagged:
  "map_of (List.map_filter (\<lambda>x. map_option (Pair x) (g x)) xs) y = (if y \<in> set xs then g y else None)"
  by (induction xs) (auto split: option.splits)

lemma keys_map_filter:
  assumes "\<And>x p. f x = Some p \<Longrightarrow> fst p = k x" "distinct (map k xs)"
  shows "distinct (map fst (List.map_filter f xs)) \<and> fst ` set (List.map_filter f xs) \<subseteq> k ` set xs"
  using assms(2)
proof (induction xs)
  case (Cons x xs)
  then show ?case using assms(1) [of x] by (cases "f x") auto
qed simp

lemma sql_max_None: "sql_max xs = None \<longleftrightarrow> set xs \<subseteq> {None}"
  by (induction xs rule: sql_max.induct) (auto split: option.splits)

lemma journal_msat_None: "x \<notin> set (class_b_exts d) \<Longrightarrow> journal_msat x d = None"
  by (auto simp: journal_msat_def class_b_exts_def List.map_filter_def sql_max_None image_iff)

lemma map_of_class_a_db:
  "db_ok d \<Longrightarrow> map_of (class_a d) x = class_a_of d x"
  by (auto simp: class_a_def class_a_of_def find_invoice_ext_def map_of_class_a db_okD
      intro: option.case_cong)

lemma map_of_fst_filter:
  "map_of (filter (\<lambda>p. Q (fst p)) xs) x = (if Q x then map_of xs x else None)"
  by (induction xs) auto

lemma map_of_received: "db_ok d \<Longrightarrow> map_of (received_by_ext d) x = receipt_of d x"
proof -
  assume ok: "db_ok d"
  have b: "map_of (class_b d) x = positive_msat (journal_msat x d)"
    using journal_msat_None [of x d]
    by (auto simp: class_b_def map_of_tagged positive_msat_def positive_sat_def)
  have "map_of (filter (\<lambda>p. fst p \<notin> fst ` set (class_a d)) (class_b d)) x
      = (if x \<notin> fst ` set (class_a d) then map_of (class_b d) x else None)"
    by (rule map_of_fst_filter)
  moreover have "x \<in> fst ` set (class_a d) \<longleftrightarrow> class_a_of d x \<noteq> None"
    unfolding map_of_class_a_db [OF ok, symmetric] map_of_eq_None_iff by simp
  ultimately show ?thesis
    unfolding received_by_ext_def map_of_append map_add_def map_of_class_a_db [OF ok] receipt_of_def b
    by (cases "class_a_of d x") auto
qed

lemma distinct_received: "db_ok d \<Longrightarrow> distinct (map fst (received_by_ext d))"
proof -
  assume "db_ok d"
  then have a: "distinct (map fst (class_a d))"
    unfolding class_a_def by (intro keys_map_filter [THEN conjunct1, where k1 = inv_ext])
      (auto simp: db_okD split: if_splits)
  have b: "distinct (map fst (class_b d))"
    unfolding class_b_def by (intro keys_map_filter [THEN conjunct1, where k1 = id])
      (auto simp: class_b_exts_def)
  have "fst ` set (class_a d) \<inter> fst ` set (filter (\<lambda>p. fst p \<notin> fst ` set (class_a d)) (class_b d)) = {}"
    by force
  with a b show ?thesis
    by (simp add: received_by_ext_def distinct_map_filter del: set_filter)
qed

lemma sum_list_map_of:
  fixes xs :: "('a \<times> nat) list"
  assumes "distinct (map fst xs)"
  shows "sum_list (map snd xs) = (\<Sum>x\<in>dom (map_of xs). the (map_of xs x))"
  using assms
proof (induction xs)
  case (Cons p xs)
  then have notin: "fst p \<notin> dom (map_of xs)" by (simp add: dom_map_of_conv_image_fst)
  have "(\<Sum>x\<in>dom (map_of (p # xs)). the (map_of (p # xs) x))
      = snd p + (\<Sum>x\<in>dom (map_of xs). the (map_of (p # xs) x))"
    using notin by (cases p) (simp add: finite_dom_map_of)
  also have "(\<Sum>x\<in>dom (map_of xs). the (map_of (p # xs) x)) = (\<Sum>x\<in>dom (map_of xs). the (map_of xs x))"
    using notin by (intro sum.cong) auto
  finally show ?case using Cons by simp
qed simp

lemma receipts_sum:
  assumes "db_ok d" shows "receipts d = (\<Sum>x\<in>dom (receipt_of d). the (receipt_of d x))"
    and "finite (dom (receipt_of d))"
proof -
  have eq: "map_of (received_by_ext d) = receipt_of d"
    using map_of_received [OF assms] by (intro ext)
  show "receipts d = (\<Sum>x\<in>dom (receipt_of d). the (receipt_of d x))"
    unfolding receipts_def sum_list_map_of [OF distinct_received [OF assms]] eq ..
  show "finite (dom (receipt_of d))" unfolding eq [symmetric] by (rule finite_dom_map_of)
qed

lemma receipts_cong:
  "db_ok d \<Longrightarrow> db_ok d' \<Longrightarrow> (\<And>x. receipt_of d' x = receipt_of d x) \<Longrightarrow> receipts d' = receipts d"
proof -
  assume "db_ok d" "db_ok d'" and "\<And>x. receipt_of d' x = receipt_of d x"
  moreover from this(3) have "receipt_of d' = receipt_of d" by (intro ext)
  ultimately show ?thesis by (simp add: receipts_sum)
qed

lemma receipts_new:
  assumes "db_ok d" "db_ok d'" and new: "\<And>x. receipt_of d' x = (if x = e then Some v else receipt_of d x)"
    and none: "receipt_of d e = None"
  shows "receipts d' = receipts d + v"
proof -
  have eq: "receipt_of d' = (receipt_of d)(e \<mapsto> v)" using new by (intro ext) auto
  have "(\<Sum>x\<in>dom (receipt_of d). the (((receipt_of d)(e \<mapsto> v)) x)) = (\<Sum>x\<in>dom (receipt_of d). the (receipt_of d x))"
    using none by (intro sum.cong) auto
  with none receipts_sum [OF assms(1)] show ?thesis
    by (simp add: receipts_sum [OF assms(2)] eq insert_absorb domIff)
qed

subsection \<open>Capture and the receipts\<close>

lemma sql_max_append: "sql_max (xs @ ys) =
   (case sql_max xs of None \<Rightarrow> sql_max ys
    | Some x \<Rightarrow> (case sql_max ys of None \<Rightarrow> Some x | Some y \<Rightarrow> Some (max x y)))"
  by (induction xs rule: sql_max.induct) (auto split: option.splits)

lemma journal_msat_append:
  "events d' = events d @ evs \<Longrightarrow> (\<And>e. e \<in> set evs \<Longrightarrow> event_ext e \<noteq> Some x) \<Longrightarrow>
   journal_msat x d' = journal_msat x d"
  by (simp add: journal_msat_def sql_max_append filter_False cong: filter_cong split: option.splits)

lemma class_a_of_cong: "invoices d' = invoices d \<Longrightarrow> class_a_of d' x = class_a_of d x"
  by (simp add: class_a_of_def find_invoice_ext_def)

lemma settlement_json_get:
  "json_text ''external_id'' (settlement_json s) = Some (st_ext s)"
  "json_int ''received_msat'' (settlement_json s) = Some (int (st_received s))"
  by (simp_all add: settlement_json_def)

lemma renew_resume_json_ext:
  "json_text ''external_id'' (renew_resume_json s a b) = Some (st_ext s)"
  by (simp add: renew_resume_json_def)

lemma insert_event_events [simp]:
  "\<exists>e. events (insert_event sub k j t d) = events d @ [e] \<and> event_ext e = json_text ''external_id'' j"
  by (simp add: insert_event_def event_ext_def)

text \<open>Capture appends at most one event, and it names the settled payment.\<close>

definition appends_ext :: "string \<Rightarrow> db \<Rightarrow> db \<Rightarrow> bool" where
  "appends_ext x d d' \<longleftrightarrow> (\<exists>evs. events d' = events d @ evs \<and> (\<forall>e\<in>set evs. event_ext e = Some x))"

lemma appends_ext_same: "events d' = events d \<Longrightarrow> appends_ext x d d'"
  by (simp add: appends_ext_def)

lemma appends_ext_event:
  "events d1 = events d \<Longrightarrow> json_text ''external_id'' j = Some x \<Longrightarrow> appends_ext x d (insert_event sub k j t d1)"
  by (simp add: appends_ext_def insert_event_def event_ext_def)

lemma refund_intent_events: "refund_intent sub dest s now d = Inr (new, d') \<Longrightarrow> events d' = events d"
  by (auto simp: refund_intent_def insert_refund_attempt_txn_def split: if_splits)

lemma capture_journal_appends:
  "events d1 = events d \<Longrightarrow> appends_ext (st_ext s) d (capture_journal sub k s now d1)"
  "events d1 = events d \<Longrightarrow> appends_ext (st_ext s) d (journal_renew_resume sid s now a b d1)"
  unfolding capture_journal_def journal_renew_resume_def
  by (intro appends_ext_event settlement_json_get renew_resume_json_ext; assumption)+

lemma refund_and_journal_appends:
  "refund_and_journal sub dest k s now d = Inr (c, d') \<Longrightarrow> appends_ext (st_ext s) d d'"
  by (auto simp: refund_and_journal_def split: sum.splits
      intro: capture_journal_appends(1) dest: refund_intent_events)

lemma granted_events:
  "events (order_granted sid now d) = events d" "events (renewal_granted r s now d) = events d"
  "events (invoice_paid iv s d) = events d" "events (invoice_stamped iv s d) = events d"
  by (simp_all add: order_granted_def renewal_granted_def invoice_paid_def invoice_stamped_def)

lemma apply_paid_appends:
  "apply_paid kind sub exp s now d = Inr (c, d') \<Longrightarrow> appends_ext (st_ext s) d d'"
  unfolding apply_paid_def
  by (auto split: option.splits if_splits simp: granted_events
      intro: capture_journal_appends dest: refund_and_journal_appends)

lemma capture_appends:
  assumes "capture_txn s now d = Inr (c, d')"
  shows "appends_ext (st_ext s) d d'"
proof -
  have cong: "events d1 = events d \<Longrightarrow> appends_ext x d1 d' = appends_ext x d d'" for x d1
    by (simp add: appends_ext_def)
  show ?thesis
    using assms unfolding capture_txn_def
    by (auto split: option.splits if_splits sum.splits simp: granted_events
        intro: capture_journal_appends(1) appends_ext_same
        dest!: refund_intent_events apply_paid_appends
        simp: cong [OF granted_events(3)])
qed

lemma capture_other_receipts:
  assumes ok: "db_ok d" and run: "capture_txn s now d = Inr (c, d')" and x: "x \<noteq> st_ext s"
  shows "receipt_of d' x = receipt_of d x"
proof -
  obtain evs where "events d' = events d @ evs" "\<And>e. e \<in> set evs \<Longrightarrow> event_ext e = Some (st_ext s)"
    using capture_appends [OF run] by (auto simp: appends_ext_def)
  with x have j: "journal_msat x d' = journal_msat x d"
    by (intro journal_msat_append [of _ _ evs]) auto
  have upd: "find_invoice_ext x (invoice_paid iv s d) = find_invoice_ext x d"
    "find_invoice_ext x (invoice_stamped iv s d) = find_invoice_ext x d"
    if iv: "find_invoice_ext (st_ext s) d = Some iv" for iv
  proof -
    have "inv_id q \<noteq> inv_id iv" if "find_invoice_ext x d = Some q" for q
    proof
      assume "inv_id q = inv_id iv"
      with find_invoice_ext_Some [OF iv] find_invoice_ext_Some [OF that] ok
      have "q = iv" by (metis db_okD(2) find_key_unique option.inject)
      with find_invoice_ext_Some [OF iv] find_invoice_ext_Some [OF that] x show False by simp
    qed
    then show "find_invoice_ext x (invoice_paid iv s d) = find_invoice_ext x d"
      "find_invoice_ext x (invoice_stamped iv s d) = find_invoice_ext x d"
      by (auto simp: find_invoice_ext_def invoice_paid_def invoice_stamped_def find_update_where_same
          split: option.splits intro!: option.map_ident_strong)
  qed
  have "find_invoice_ext x d' = find_invoice_ext x d"
    using ok
  proof (cases rule: capture_txn_cases [where s = s and now = now])
    case (unmatched d1)
    with run show ?thesis by (auto simp: refund_written_def find_invoice_ext_def)
  next
    case (paid iv)
    with run apply_paid_frame [OF invoice_paid_frame(1) [OF ok]] upd(1) show ?thesis
      by (metis find_invoice_cong)
  next
    case (terminal iv d1)
    with run upd(2) show ?thesis by (auto simp: refund_written_def find_invoice_ext_def)
  qed (use run in auto)
  then show ?thesis unfolding receipt_of_def class_a_of_def j by simp
qed

lemma positive_msat_as_i64:
  "0 < n \<Longrightarrow> n < 2 ^ 63 \<Longrightarrow> positive_msat (Some (as_i64 n)) = Some n"
  by (simp add: positive_msat_def positive_sat_def)

text \<open>
  Money in is booked exactly once: applying a settlement the ledger has not seen raises the sum
  of receipts by exactly its wallet credit, in millisatoshis, whichever branch of capture it takes
  (order, renewal, late, orphaned or unmatched).
\<close>

theorem capture_books_receipt:
  assumes ok: "db_ok d" and run: "capture_txn s now d = Inr (c, d')"
    and amount: "0 < st_received s" "st_received s < 2 ^ 63"
    and unseen: "receipt_of d (st_ext s) = None" "\<forall>r\<in>set (refunds d). rf_key r \<noteq> ''refund:'' @ st_ext s"
      "\<forall>i. find_invoice_ext (st_ext s) d = Some i \<longrightarrow> \<not> receipt_settled i \<and> inv_received i = None"
  shows "receipts d' = receipts d + st_received s"
proof -
  have credit: "receipt_of d' (st_ext s) = Some (st_received s)"
    using ok
  proof (cases rule: capture_txn_cases [where s = s and now = now])
    case (unmatched d1)
    obtain new d2 where ri: "refund_intent None None s now d = Inr (new, d2)" and new
      using refund_intent_written [OF ok] unseen(2) by metis
    with unmatched(1) run have d': "d' = capture_journal None ''settle_unmatched_refund'' s now d2"
      by (simp add: capture_txn_def)
    have inv: "invoices d' = invoices d"
      using unmatched(2,3) run by (simp add: refund_written_def)
    from unmatched(1) have a: "class_a_of d (st_ext s) = None" by (simp add: class_a_of_def)
    have "journal_msat (st_ext s) d' = (case journal_msat (st_ext s) d of None \<Rightarrow> Some (int (st_received s))
        | Some y \<Rightarrow> Some (max y (int (st_received s))))"
      using refund_intent_events [OF ri]
      by (simp add: journal_msat_def d' capture_journal_def insert_event_def event_ext_def event_msat_def
          settle_refund_event_def settle_refund_kinds_def settlement_json_get sql_max_append
          del: json_text.simps json_int.simps split: option.split)
    with a unseen(1) amount show ?thesis
      by (auto simp: receipt_of_def class_a_of_cong [OF inv] positive_msat_def positive_sat_def
          split: option.splits if_splits)
  next
    case (replay iv)
    with unseen(3) show ?thesis by (simp add: receipt_settled_def)
  next
    case (paid iv)
    with run apply_paid_frame [OF invoice_paid_frame(1) [OF ok]]
    have "find_invoice_ext (st_ext s) d' = find_invoice_ext (st_ext s) (invoice_paid iv s d)"
      by (metis find_invoice_cong)
    with find_invoice_paid [OF paid(1,2), of s] amount show ?thesis
      by (simp add: receipt_of_def class_a_of_def receipt_settled_def invoice_msat_def positive_msat_as_i64
          del: as_i64_small)
  next
    case (terminal iv d1)
    with run have "find_invoice_ext (st_ext s) d' = find_invoice_ext (st_ext s) (invoice_stamped iv s d)"
      by (auto simp: refund_written_def find_invoice_ext_def)
    with find_invoice_stamped [OF terminal(1), of s] unseen(3) terminal(1) amount show ?thesis
      by (simp add: receipt_of_def class_a_of_def receipt_settled_def invoice_msat_def positive_msat_as_i64
          del: as_i64_small)
  qed
  have "db_ok d'"
    using ok
  proof (cases rule: capture_txn_cases [where s = s and now = now])
    case (paid iv)
    with run apply_paid_frame [OF invoice_paid_frame(1) [OF ok]] show ?thesis by metis
  qed (use run ok in \<open>auto simp: refund_written_def\<close>)
  with ok show ?thesis
    by (rule receipts_new) (use credit capture_other_receipts [OF ok run] unseen(1) in auto)
qed

theorem capture_books_receipt_witness:
  "\<exists>d'. capture_txn (sample_settlement ''x1'' 1020) 5 lapsed_db = Inr (Resumed, d') \<and>
        receipts d' = receipts lapsed_db + 6500"
proof -
  obtain d' where run: "capture_txn (sample_settlement ''x1'' 1020) 5 lapsed_db = Inr (Resumed, d')"
    using lapsed_capture by blast
  have "receipts d' = receipts lapsed_db + st_received (sample_settlement ''x1'' 1020)"
    by (rule capture_books_receipt [OF lapsed_ok run])
       (simp_all add: sample_defs sample_settlement_def receipt_of_def class_a_of_def
          find_invoice_ext_def receipt_settled_def journal_msat_def positive_msat_def positive_sat_def)
  with run show ?thesis by (auto simp: sample_settlement_def)
qed

subsection \<open>The lower bound on the wallet\<close>

definition refund_pay_key :: "refund_attempt \<Rightarrow> string" where
  "refund_pay_key r = gen_key (external_id_from (rf_key r) (rf_id r)) (rf_gen r)"

definition refund_cap_msat :: "refund_attempt \<Rightarrow> nat" where
  "refund_cap_msat r = (case positive_sat (rf_amount r) of None \<Rightarrow> 0 | Some s \<Rightarrow> s * 1000)"

definition refund_committed :: "(string \<Rightarrow> store_error + pay_status) \<Rightarrow> refund_attempt \<Rightarrow> bool" where
  "refund_committed ask r \<longleftrightarrow>
     committed (rf_status r) (rf_fence r \<noteq> None) PayUnknown \<or>
     (\<exists>p. ask (refund_pay_key r) = Inr p \<and> committed (rf_status r) (rf_fence r \<noteq> None) p)"

definition committed_refunds_msat :: "(string \<Rightarrow> store_error + pay_status) \<Rightarrow> db \<Rightarrow> nat" where
  "committed_refunds_msat ask d = sum_list (map refund_cap_msat (filter (refund_committed ask) (refunds d)))"

lemma fold_saturating:
  "fold (\<lambda>r acc. saturating_add_u128 acc (f r)) rs a
     = (if a < u128_limit then min (a + sum_list (map f rs)) (u128_limit - 1)
        else if rs = [] then a else u128_limit - 1)"
proof (induction rs arbitrary: a)
  case (Cons r rs)
  have "saturating_add_u128 a (f r) < u128_limit" by (simp add: saturating_add_u128_def)
  with Cons.IH [of "saturating_add_u128 a (f r)"] show ?case
    by (simp add: saturating_add_u128_def min_def)
qed simp

lemma observe_committed:
  "observe ask (map f rs) = Inr out \<Longrightarrow>
   sum_list (map rc_amount_msat (filter rc_committed out))
     = sum_list (map (rc_amount_msat \<circ> f) (filter (\<lambda>r. rc_committed (f r) \<or>
         (\<exists>p. ask (rc_pay_key (f r)) = Inr p \<and> rc_committed (f r\<lparr>rc_pay := p\<rparr>))) rs))"
proof (induction rs arbitrary: out)
  case (Cons r rs)
  show ?case
  proof (cases "rc_committed (f r)")
    case True
    with Cons.prems obtain out' where "observe ask (map f rs) = Inr out'" "out = f r # out'"
      by (cases "observe ask (map f rs)") auto
    with Cons.IH [of out'] True show ?thesis by simp
  next
    case False
    with Cons.prems obtain p out' where "ask (rc_pay_key (f r)) = Inr p"
      "observe ask (map f rs) = Inr out'" "out = (f r)\<lparr>rc_pay := p\<rparr> # out'"
      by (cases "ask (rc_pay_key (f r))"; cases "observe ask (map f rs)") auto
    with Cons.IH [of out'] False show ?thesis by simp
  qed
qed simp

lemma nat_sum_list:
  fixes g :: "'x \<Rightarrow> int"
  assumes "\<And>x. x \<in> set xs \<Longrightarrow> 0 \<le> g x"
  shows "nat (sum_list (map g xs)) = sum_list (map (nat \<circ> g) xs)"
  using assms
proof (induction xs)
  case (Cons x xs)
  then have "0 \<le> sum_list (map g xs)" by (intro sum_list_nonneg) auto
  with Cons show ?case by (simp add: nat_add_distrib)
qed simp

lemma expected_msat_value:
  assumes "expected_msat ask d = Inr e" "receipts d < u128_limit"
  shows "e = receipts d - committed_refunds_msat ask d - nat (sum_where sweep_counts sw_max_outlay (sweeps d))"
proof -
  from assms(1) obtain l rs where l: "read_ledger_terms d = Inr l" and o: "observe ask (lr_refunds l) = Inr rs"
    and e: "e = expected_of (l\<lparr>lr_refunds := rs\<rparr>)"
    by (auto simp: expected_msat_def split: sum.splits)
  from l have fields: "lr_receipts l = receipts d" "lr_refunds l = load_refund_commitments d"
    "lr_sweeps l = nat (sum_where sweep_counts sw_max_outlay (sweeps d))"
    by (auto simp: read_ledger_terms_def sum_receipts_msat_def sum_sweep_caps_msat_def Let_def
        split: if_splits sum.splits)
  have "sum_list (map rc_amount_msat (filter rc_committed rs)) = committed_refunds_msat ask d"
    using observe_committed [OF o [unfolded fields(2) load_refund_commitments_def]]
    by (simp add: committed_refunds_msat_def refund_cap_msat_def [abs_def] refund_committed_def [abs_def]
        refund_pay_key_def rc_committed_def comp_def)
  with assms(2) show ?thesis
    by (simp add: e fields expected_of_def saturating_sub_def fold_saturating min_def)
qed

text \<open>
  C33. \<open>expected_msat\<close> is a lower bound on the wallet: whatever the refunds and sweeps really cost,
  as long as each outlay is within its recorded cap and money leaves only for an attempt the ledger
  calls committed (INV-1), the receipts minus everything that has left still cover the figure.
\<close>

theorem expected_is_lower_bound:
  assumes e: "expected_msat ask d = Inr e" and small: "receipts d < u128_limit"
    and refunds: "\<And>r. r \<in> set (refunds d) \<Longrightarrow> out r \<le> (if refund_committed ask r then refund_cap_msat r else 0)"
    and sweeps: "\<And>w. w \<in> set (sweeps d) \<Longrightarrow> 0 \<le> sw_max_outlay w \<and>
                      wout w \<le> (if sweep_counts w then nat (sw_max_outlay w) else 0)"
  shows "e = 0 \<or> e + sum_list (map out (refunds d)) + sum_list (map wout (sweeps d)) \<le> receipts d"
proof -
  have le: "sum_list (map f xs) \<le> sum_list (map g (filter P xs))"
    if "\<And>x. x \<in> set xs \<Longrightarrow> f x \<le> (if P x then g x else 0)" for f g :: "'x \<Rightarrow> nat" and P xs
    using that by (induction xs) (force intro: add_mono)+
  have "sum_list (map out (refunds d)) \<le> committed_refunds_msat ask d"
    unfolding committed_refunds_msat_def by (rule le) (rule refunds)
  moreover have "sum_list (map wout (sweeps d)) \<le> nat (sum_where sweep_counts sw_max_outlay (sweeps d))"
  proof -
    have "sum_list (map wout (sweeps d)) \<le> sum_list (map (nat \<circ> sw_max_outlay) (filter sweep_counts (sweeps d)))"
      using sweeps by (intro le) fastforce
    also have "\<dots> = nat (sum_where sweep_counts sw_max_outlay (sweeps d))"
      using sweeps unfolding sum_where_def by (intro nat_sum_list [symmetric]) auto
    finally show ?thesis .
  qed
  ultimately show ?thesis using expected_msat_value [OF e small] by linarith
qed

text \<open>A host that refunded one payment of 6 sats and swept 1 sat of the 13 it received.\<close>

definition sample_paid :: "string \<Rightarrow> int \<Rightarrow> invoice" where
  "sample_paid ext m = (sample_invoice ''s1'' ext ''order'' ''PAID'')\<lparr>inv_received := Some m\<rparr>"

definition sample_refund :: "string \<Rightarrow> string \<Rightarrow> int \<Rightarrow> refund_attempt" where
  "sample_refund ext st amt = \<lparr>rf_id = ''ref-'' @ ext, rf_sub = Some ''s1'', rf_dest = Some ''a@b.c'',
     rf_amount = Some amt, rf_key = ''refund:'' @ ext, rf_payment = None, rf_status = st,
     rf_attempts = Some 0, rf_bolt11 = None, rf_expiry = None, rf_gen = 0, rf_created = 0,
     rf_updated = 0, rf_fence = None\<rparr>"

definition sample_sweep :: "string \<Rightarrow> string \<Rightarrow> int \<Rightarrow> sweep_attempt" where
  "sample_sweep i st cap = \<lparr>sw_id = i, sw_bolt11 = Some ''lnbc'', sw_amount = Some 1,
     sw_max_outlay = cap, sw_status = st, sw_attempts = 0, sw_payment = None, sw_error = None,
     sw_created = 0, sw_sent = None, sw_fence = None\<rparr>"

definition books_db :: db where
  "books_db = empty_db\<lparr>invoices := [sample_paid ''x1'' 6500, sample_paid ''x2'' 6500],
     refunds := [sample_refund ''x1'' ''SENT'' 6], sweeps := [sample_sweep ''w'' ''SENT'' 1000]\<rparr>"

lemma books_receipts: "receipts books_db = 13000"
  by (simp add: receipts_def received_by_ext_def class_a_def class_b_def class_b_exts_def books_db_def
      sample_paid_def sample_defs receipt_settled_def invoice_msat_def positive_msat_def positive_sat_def)

lemmas books_eval = books_db_def sample_paid_def sample_sweep_def sample_refund_def sample_defs
  receipt_settled_def invoice_msat_def rc_committed_def committed_def sweep_counts_def positive_sat_def
  fits_i64_def saturating_add_u128_def

lemma books_terms: "receipts_decode books_db" "sum_sweep_caps_msat books_db = Inr 1000"
  "load_refund_commitments books_db = [\<lparr>rc_key = ''refund:x1'', rc_pay_key = ''refund:x1'',
     rc_amount_msat = 6000, rc_status = ''SENT'', rc_fenced = False, rc_pay = PayUnknown\<rparr>]"
  by (simp_all add: receipts_decode_def sum_sweep_caps_msat_def sum_where_def load_refund_commitments_def
      gen_key_def external_id_from_def books_eval)

lemma books_expected: "expected_msat (\<lambda>_. Inr PayUnknown) books_db = Inr 6000"
  by (simp add: expected_msat_def read_ledger_terms_def sum_receipts_msat_def books_terms books_receipts
      rc_committed_def committed_def expected_of_def saturating_sub_def saturating_add_u128_def)

theorem expected_is_lower_bound_witness:
  "6000 + sum_list (map (\<lambda>_. 5900) (refunds books_db)) + sum_list (map (\<lambda>_. 990) (sweeps books_db))
     \<le> receipts books_db"
  using expected_is_lower_bound [OF books_expected, of "\<lambda>_. 5900" "\<lambda>_. 990"]
  by (simp add: books_receipts)
     (simp add: books_db_def refund_committed_def committed_def refund_cap_msat_def positive_sat_def
       sample_refund_def sample_sweep_def sweep_counts_def)

end
