(* ===== verification/Store.thy ===== *)
theory Store
  imports Reservation Ledger
begin

text \<open>
  The sole-writer store, \<open>daemon/src/store.rs\<close>: a transaction commits or rolls back and a fatal
  database error latches the store read-only (\<open>transaction_then\<close>, \<open>is_fatal_db_error\<close>), the renewal
  invoice upsert, and the two maintenance deletions (\<open>prune_idempotency_caches\<close>,
  \<open>reap_terminal_rows\<close>).

  What SQLite itself answers when a transaction begins or commits, and its wall clock
  \<open>unixepoch()\<close>, are arguments.
\<close>

subsection \<open>Transactions and the degraded latch\<close>

record store =
  st_db :: db
  st_degraded :: bool

datatype txn_step = Committed | RolledBack | HookRan | LeaseDropped

fun is_fatal_code :: "sqlite_code \<Rightarrow> bool" where
  "is_fatal_code DiskFull = True"
| "is_fatal_code DatabaseCorrupt = True"
| "is_fatal_code NotADatabase = True"
| "is_fatal_code SystemIoFailure = True"
| "is_fatal_code ReadOnly = True"
| "is_fatal_code _ = False"

text \<open>\<open>trip_if_fatal_anyhow\<close> walks the whole chain of contexts.\<close>

fun is_fatal :: "store_error \<Rightarrow> bool" where
  "is_fatal (Sqlite c) = is_fatal_code c"
| "is_fatal (Context _ e) = is_fatal e"
| "is_fatal _ = False"

definition trip_if_fatal :: "store_error \<Rightarrow> store \<Rightarrow> store" where
  "trip_if_fatal e st = (if is_fatal e then st\<lparr>st_degraded := True\<rparr> else st)"

text \<open>
  \<open>transaction_then f hook begin_err commit_err\<close>: the result, the store, and what the actor did, in
  order. \<open>begin_err\<close> and \<open>commit_err\<close> are SQLite's answers to BEGIN and COMMIT.
\<close>

definition transaction_then ::
  "'a tx \<Rightarrow> bool \<Rightarrow> sqlite_code option \<Rightarrow> sqlite_code option \<Rightarrow> store
     \<Rightarrow> (store_error + 'a) \<times> store \<times> txn_step list" where
  "transaction_then f hook begin_err commit_err st =
     (if st_degraded st then (Inl Degraded, st, [LeaseDropped])
      else (case begin_err of
              Some c \<Rightarrow> (Inl (Sqlite c), trip_if_fatal (Sqlite c) st, [LeaseDropped])
            | None \<Rightarrow>
                (case f (st_db st) of
                   Inl e \<Rightarrow> (Inl e, trip_if_fatal e st, [RolledBack, LeaseDropped])
                 | Inr (x, d') \<Rightarrow>
                     (case commit_err of
                        Some c \<Rightarrow> (Inl (Sqlite c), trip_if_fatal (Sqlite c) st, [RolledBack, LeaseDropped])
                      | None \<Rightarrow> (Inr x, st\<lparr>st_db := d'\<rparr>,
                                 Committed # (if hook then [HookRan] else []) @ [LeaseDropped])))))"

definition transaction :: "'a tx \<Rightarrow> sqlite_code option \<Rightarrow> sqlite_code option \<Rightarrow> store
     \<Rightarrow> (store_error + 'a) \<times> store" where
  "transaction f begin_err commit_err st =
     (case transaction_then f False begin_err commit_err st of (r, st', _) \<Rightarrow> (r, st'))"

text \<open>\<open>read\<close> runs in a transaction that is always rolled back.\<close>

definition read_store :: "(db \<Rightarrow> (store_error + 'a) \<times> db) \<Rightarrow> store \<Rightarrow> (store_error + 'a) \<times> store" where
  "read_store f st = (fst (f (st_db st)), st)"

subsection \<open>The renewal invoice\<close>

record renewal_row =
  rn_id :: string
  rn_sub :: string
  rn_ext :: string
  rn_backend :: string
  rn_hash :: string
  rn_bolt11 :: string
  rn_amount :: int
  rn_expires :: int
  rn_now :: int

definition renewal_refreshable :: "invoice \<Rightarrow> bool" where
  "renewal_refreshable i \<longleftrightarrow> inv_status i \<noteq> ''PAID'' \<and> inv_settled i = None"

definition renewal_refreshed :: "renewal_row \<Rightarrow> invoice \<Rightarrow> invoice" where
  "renewal_refreshed w i = i\<lparr>inv_id := rn_id w, inv_backend := Some (rn_backend w),
     inv_hash := Some (rn_hash w), inv_bolt11 := Some (rn_bolt11 w), inv_amount := Some (rn_amount w),
     inv_expires := Some (rn_expires w),
     inv_status := (if inv_status i = ''EXPIRED'' then ''OPEN'' else inv_status i)\<rparr>"

definition upsert_renewal_invoice :: "renewal_row \<Rightarrow> unit tx" where
  "upsert_renewal_invoice w d =
     (case find_invoice_ext (rn_ext w) d of
        Some i \<Rightarrow>
          if \<not> renewal_refreshable i then Inr ((), d)
          else if \<exists>q\<in>set (invoices d). inv_ext q \<noteq> rn_ext w \<and> inv_id q = rn_id w
          then Inl (ConstraintViolation ''invoice.id'')
          else Inr ((), d\<lparr>invoices := update_where (\<lambda>q. inv_ext q = rn_ext w) (renewal_refreshed w) (invoices d)\<rparr>)
      | None \<Rightarrow>
          if \<exists>q\<in>set (invoices d). inv_id q = rn_id w then Inl (ConstraintViolation ''invoice.id'')
          else Inr ((), d\<lparr>invoices := invoices d @
            [\<lparr>inv_id = rn_id w, inv_sub = Some (rn_sub w), inv_ext = rn_ext w,
              inv_backend = Some (rn_backend w), inv_hash = Some (rn_hash w), inv_kind = Some ''renewal'',
              inv_bolt11 = Some (rn_bolt11 w), inv_amount = Some (rn_amount w), inv_received = None,
              inv_status = ''OPEN'', inv_expires = Some (rn_expires w), inv_applied = None,
              inv_issued = Some (rn_now w), inv_settled = None\<rparr>]\<rparr>))"

subsection \<open>Retention\<close>

definition idempotency_cache_retention :: int where
  "idempotency_cache_retention = 120 * 24 * 60 * 60"

definition terminal_row_retention :: int where
  "terminal_row_retention = 30 * 24 * 60 * 60"

definition prune_idempotency_caches :: "int \<Rightarrow> int \<Rightarrow> db \<Rightarrow> (nat \<times> nat) \<times> db" where
  "prune_idempotency_caches clock now d =
     (let cutoff = min clock now - idempotency_cache_retention;
          P = (\<lambda>r. (oi_state r = ''DONE'' \<or> oi_state r = ''ERROR'') \<and> sql_lt (oi_finished r) cutoff);
          Q = (\<lambda>r. ir_created r < cutoff)
      in ((count_where P (op_invocations d), count_where Q (inbound_requests d)),
          d\<lparr>op_invocations := delete_where P (op_invocations d),
            inbound_requests := delete_where Q (inbound_requests d)\<rparr>))"

subsection \<open>The terminal-row reaper\<close>

definition terminal_state :: "string \<Rightarrow> bool" where
  "terminal_state s \<longleftrightarrow> s = ''EXPIRED'' \<or> s = ''TERMINATED'' \<or> s = ''REFUNDED''"

text \<open>The external id of a refund row, as the SQL of the reaper and of readiness derives it.\<close>

definition refund_ext :: "refund_attempt \<Rightarrow> string" where
  "refund_ext r =
     (if sql_like ''refund:%'' (rf_key r) then drop 7 (rf_key r)
      else if sql_like ''ref-%'' (rf_id r) then drop 4 (rf_id r) else rf_id r)"

text \<open>A subscription that still holds its rows: not terminal, or terminal within the window.\<close>

definition sub_in_use :: "int \<Rightarrow> string \<Rightarrow> db \<Rightarrow> bool" where
  "sub_in_use cutoff sid d \<longleftrightarrow>
     (\<exists>s\<in>set (subs d). sub_id s = sid \<and> (\<not> terminal_state (sub_state s) \<or> cutoff \<le> sub_updated s))"

definition instance_reapable :: "int \<Rightarrow> db \<Rightarrow> instance_row \<Rightarrow> bool" where
  "instance_reapable cutoff d i \<longleftrightarrow>
     ins_updated i < cutoff \<and> (case ins_sub i of None \<Rightarrow> True | Some s \<Rightarrow> \<not> sub_in_use cutoff s d)"

definition reservation_reapable :: "int \<Rightarrow> db \<Rightarrow> reservation \<Rightarrow> bool" where
  "reservation_reapable cutoff d r \<longleftrightarrow>
     rsv_state r = ''RELEASED'' \<and> rsv_created r < cutoff \<and> \<not> sub_in_use cutoff (rsv_order r) d"

definition invoice_reapable :: "int \<Rightarrow> db \<Rightarrow> invoice \<Rightarrow> bool" where
  "invoice_reapable cutoff d i \<longleftrightarrow>
     inv_status i = ''EXPIRED'' \<and> inv_settled i = None \<and>
     sql_lt (coalesce (inv_expires i) (inv_issued i)) cutoff \<and>
     \<not> (\<exists>r\<in>set (refunds d). rf_status r \<noteq> ''SENT'' \<and> refund_ext r = inv_ext i)"

definition cleanup_unresolved :: "db \<Rightarrow> event \<Rightarrow> bool" where
  "cleanup_unresolved d e \<longleftrightarrow>
     ev_kind e = ''provision_cleanup_pending'' \<and>
     (\<exists>s\<in>set (subs d). ev_sub e = Some (sub_id s)) \<and>
     \<not> (\<exists>q\<in>set (events d). ev_sub e \<noteq> None \<and> ev_sub q = ev_sub e \<and> ev_kind q = ''provision_cleanup_done'' \<and>
           ev_detail q = JObj [(''pending_event_id'', JInt (ev_id e))])"

definition resume_unresolved :: "db \<Rightarrow> event \<Rightarrow> bool" where
  "resume_unresolved d e \<longleftrightarrow>
     ev_kind e = ''renew_resume'' \<and>
     (\<exists>s\<in>set (subs d). ev_sub e = Some (sub_id s) \<and> sub_state s = ''RESUMING'') \<and>
     \<not> (\<exists>q\<in>set (events d). ev_sub e \<noteq> None \<and> ev_sub q = ev_sub e \<and>
           (ev_kind q = ''resume_active'' \<or> ev_kind q = ''resume_failed'') \<and> ev_id e < ev_id q)"

definition event_reapable :: "int \<Rightarrow> db \<Rightarrow> event \<Rightarrow> bool" where
  "event_reapable cutoff d e \<longleftrightarrow>
     ev_at e < cutoff \<and> \<not> settle_refund_event e \<and> \<not> cleanup_unresolved d e \<and> \<not> resume_unresolved d e"

definition sub_reapable :: "int \<Rightarrow> db \<Rightarrow> subscription \<Rightarrow> bool" where
  "sub_reapable cutoff d s \<longleftrightarrow>
     terminal_state (sub_state s) \<and> sub_updated s < cutoff \<and>
     \<not> (\<exists>i\<in>set (invoices d). inv_sub i = Some (sub_id s)) \<and>
     \<not> (\<exists>e\<in>set (events d). ev_sub e = Some (sub_id s)) \<and>
     \<not> (\<exists>n\<in>set (instances d). ins_sub n = Some (sub_id s)) \<and>
     \<not> (\<exists>r\<in>set (reservations d). rsv_order r = sub_id s) \<and>
     \<not> (\<exists>r\<in>set (refunds d). rf_sub r = Some (sub_id s) \<and> rf_status r \<noteq> ''SENT'') \<and>
     \<not> (\<exists>t\<in>set (teardowns d). td_sub t = sub_id s \<and> td_resolved t = None) \<and>
     \<not> (\<exists>b\<in>set (outbox d). ob_sub b = Some (sub_id s) \<and> ob_state b = ''PENDING'') \<and>
     \<not> (\<exists>n\<in>set (sessions d). ncs_sub n = Some (sub_id s) \<and> ncs_state n = ''ACTIVE'')"

record reap_counts =
  rp_reservation :: nat
  rp_invoice :: nat
  rp_event_log :: nat
  rp_instance :: nat
  rp_subscription :: nat

definition reap_terminal_rows :: "int \<Rightarrow> int \<Rightarrow> db \<Rightarrow> reap_counts \<times> db" where
  "reap_terminal_rows clock now d =
     (let cutoff = min clock now - terminal_row_retention;
          d1 = d\<lparr>instances := delete_where (instance_reapable cutoff d) (instances d)\<rparr>;
          d2 = d1\<lparr>reservations := delete_where (reservation_reapable cutoff d1) (reservations d1)\<rparr>;
          d3 = d2\<lparr>invoices := delete_where (invoice_reapable cutoff d2) (invoices d2)\<rparr>;
          d4 = d3\<lparr>events := delete_where (event_reapable cutoff d3) (events d3)\<rparr>;
          d5 = d4\<lparr>subs := delete_where (sub_reapable cutoff d4) (subs d4)\<rparr>
      in (\<lparr>rp_reservation = count_where (reservation_reapable cutoff d1) (reservations d1),
           rp_invoice = count_where (invoice_reapable cutoff d2) (invoices d2),
           rp_event_log = count_where (event_reapable cutoff d3) (events d3),
           rp_instance = count_where (instance_reapable cutoff d) (instances d),
           rp_subscription = count_where (sub_reapable cutoff d4) (subs d4)\<rparr>, d5))"

subsection \<open>Atomicity and the latch\<close>

text \<open>
  A transaction is all or nothing and its obligations are ordered: an error leaves the database
  exactly as it was, a success installs exactly what the closure computed; the lease is dropped last,
  and the after-commit hook runs only after a commit and before the lease is dropped.
\<close>

theorem transaction_atomic:
  "case transaction_then f hook be ce st of (r, st', steps) \<Rightarrow>
     (case r of Inl e \<Rightarrow> st_db st' = st_db st \<and> Committed \<notin> set steps \<and> HookRan \<notin> set steps \<and>
                         (st_degraded st' \<longleftrightarrow> st_degraded st \<or> is_fatal e)
      | Inr x \<Rightarrow> f (st_db st) = Inr (x, st_db st') \<and> \<not> st_degraded st \<and> \<not> st_degraded st' \<and>
                 hd steps = Committed \<and> (HookRan \<in> set steps \<longleftrightarrow> hook)) \<and>
     last steps = LeaseDropped \<and> count_list steps LeaseDropped = 1"
  by (auto simp: transaction_then_def trip_if_fatal_def split: option.splits sum.splits)

theorem transaction_atomic_witness:
  "st_db (snd (transaction (consume_txn ''o'' 5) None None \<lparr>st_db = empty_db, st_degraded = False\<rparr>)) = empty_db"
proof -
  let ?st = "\<lparr>st_db = empty_db, st_degraded = False\<rparr>"
  have "consume_txn ''o'' 5 empty_db = Inl (NoHeldReservation ''o'' 0)"
    by (simp add: consume_txn_def empty_db_def)
  then have "fst (transaction_then (consume_txn ''o'' 5) False None None ?st) = Inl (NoHeldReservation ''o'' 0)"
    by (simp add: transaction_then_def)
  with transaction_atomic [where f = "consume_txn ''o'' 5" and hook = False and be = None and ce = None and st = ?st] show ?thesis
    by (auto simp: transaction_def split: prod.splits)
qed

text \<open>Any sequence of transactions the daemon may run, with any answers of SQLite.\<close>

inductive store_steps :: "store \<Rightarrow> store \<Rightarrow> bool" where
  start: "store_steps st st"
| txn: "store_steps st st' \<Longrightarrow> transaction_then (f :: unit tx) hook be ce st' = (r, st'', steps)
        \<Longrightarrow> store_steps st st''"

inductive_cases store_stepsE: "store_steps st st'"

text \<open>
  The degraded latch holds for the life of the process: once a fatal database error set it, no
  sequence of transactions changes the database or clears the latch, and every later transaction is
  refused with \<open>Degraded\<close> before anything runs.
\<close>

theorem degraded_latches:
  assumes "store_steps st st'" and "st_degraded st"
  shows "st_db st' = st_db st \<and> st_degraded st' \<and>
         (\<forall>f hook be ce. transaction_then (f :: 'a tx) hook be ce st' = (Inl Degraded, st', [LeaseDropped]))"
  using assms by induction (auto simp: transaction_then_def)

text \<open>A commit that hits a full disk latches the store.\<close>

definition full_disk :: store where
  "full_disk = snd (transaction (\<lambda>d. Inr ((), insert_event None ''x'' JNull 0 d)) None (Some DiskFull)
                      \<lparr>st_db = empty_db, st_degraded = False\<rparr>)"

theorem degraded_latches_witness:
  "transaction_then (consume_txn ''o'' 5) True None None full_disk = (Inl Degraded, full_disk, [LeaseDropped])"
proof -
  have "st_degraded full_disk"
    by (simp add: full_disk_def transaction_def transaction_then_def trip_if_fatal_def)
  from degraded_latches [OF store_steps.start this] show ?thesis by blast
qed

subsection \<open>The renewal invoice\<close>

lemma find_invoice_id_unique:
  assumes "db_ok d" "find_invoice_ext x d = Some i" "q \<in> set (invoices d)" "inv_id q = inv_id i"
  shows "q = i"
  using assms find_invoice_ext_Some [OF assms(2)] by (metis db_okD(2) find_key_unique option.inject)

lemma renewal_refreshed_ext [simp]: "inv_ext (renewal_refreshed w i) = inv_ext i"
  by (simp add: renewal_refreshed_def)

lemma distinct_map_update_key:
  assumes "distinct (map k rs)" "\<And>q. q \<in> set rs \<Longrightarrow> P q \<Longrightarrow> q = i" "\<And>q. q \<in> set rs \<Longrightarrow> \<not> P q \<Longrightarrow> k q \<noteq> k (f i)"
  shows "distinct (map k (update_where P f rs))"
  using assms
proof (induction rs)
  case (Cons r rs)
  have tail: "k q \<noteq> k r" if "q \<in> set rs" for q using Cons.prems(1) that by (auto simp: image_iff)
  have "k ((if P r then f r else r)) \<notin> k ` set (update_where P f rs)"
  proof (cases "P r")
    case True
    with Cons.prems(2) have "r = i" by simp
    have none: "\<not> P q" if "q \<in> set rs" for q
      using Cons.prems(2) [of q] that tail \<open>r = i\<close> by auto
    then have "update_where P f rs = rs" by (simp add: update_where_none count_where_0_iff)
    moreover have "k (f i) \<noteq> k q" if "q \<in> set rs" for q
      using Cons.prems(3) [of q] none that by simp
    ultimately show ?thesis using \<open>r = i\<close> True by (auto simp: image_iff)
  next
    case False
    have "k r \<noteq> k q'" if "q' \<in> set (update_where P f rs)" for q'
      using that
    proof (cases rule: in_update_whereE)
      case (hit q)
      with Cons.prems(2) [of q] Cons.prems(3) [of r] False show ?thesis by auto
    next
      case miss
      with tail [of q'] show ?thesis by simp
    qed
    with False show ?thesis by (auto simp: image_iff)
  qed
  moreover have "distinct (map k (update_where P f rs))"
    using Cons.prems by (intro Cons.IH) auto
  ultimately show ?case by simp
qed simp

lemma upsert_renewal_ok:
  assumes ok: "db_ok d" and run: "upsert_renewal_invoice w d = Inr ((), d')"
  shows "db_ok d'"
proof (cases "find_invoice_ext (rn_ext w) d")
  case None
  then have "\<forall>q\<in>set (invoices d). inv_ext q \<noteq> rn_ext w"
    by (simp add: find_invoice_ext_def find_None_all)
  with None ok run show ?thesis
    by (auto simp: upsert_renewal_invoice_def split: if_splits intro!: db_ok_append_invoice)
next
  case (Some i)
  show ?thesis
  proof (cases "renewal_refreshable i")
    case False
    with Some ok run show ?thesis by (simp add: upsert_renewal_invoice_def)
  next
    case True
    let ?P = "\<lambda>q. inv_ext q = rn_ext w"
    from True Some run have d': "d' = d\<lparr>invoices := update_where ?P (renewal_refreshed w) (invoices d)\<rparr>"
      and free: "\<And>q. q \<in> set (invoices d) \<Longrightarrow> inv_ext q \<noteq> rn_ext w \<Longrightarrow> inv_id q \<noteq> rn_id w"
      by (auto simp: upsert_renewal_invoice_def split: if_splits)
    have "distinct (map inv_id (update_where ?P (renewal_refreshed w) (invoices d)))"
    proof (rule distinct_map_update_key [where i = i])
      show "distinct (map inv_id (invoices d))" by (rule db_okD(2) [OF ok])
      show "\<And>q. q \<in> set (invoices d) \<Longrightarrow> ?P q \<Longrightarrow> q = i"
        using Some ok by (metis find_invoice_ext_unique option.inject)
      show "\<And>q. q \<in> set (invoices d) \<Longrightarrow> \<not> ?P q \<Longrightarrow> inv_id q \<noteq> inv_id (renewal_refreshed w i)"
        using free by (simp add: renewal_refreshed_def)
    qed
    with ok show ?thesis by (simp add: d' db_ok_def map_update_where)
  qed
qed

text \<open>
  Re-issuing a renewal invoice never disturbs booked money: it keeps the database well formed and
  every receipt, and any invoice that is PAID or carries a settlement is left exactly as it was;
  otherwise the row of this external id afterwards is payable with the new bolt11 and amount.
\<close>

theorem upsert_renewal_keeps_booked:
  assumes ok: "db_ok d" and run: "upsert_renewal_invoice w d = Inr ((), d')"
  shows "db_ok d' \<and> receipts d' = receipts d \<and>
         (\<forall>i. find_invoice_ext (rn_ext w) d = Some i \<and> receipt_settled i \<longrightarrow> d' = d) \<and>
         (\<exists>i'. find_invoice_ext (rn_ext w) d' = Some i' \<and>
            (receipt_settled i' \<or> inv_status i' \<noteq> ''EXPIRED'' \<and> inv_bolt11 i' = Some (rn_bolt11 w) \<and>
               inv_amount i' = Some (rn_amount w) \<and> inv_id i' = rn_id w))"
proof -
  note ok' = upsert_renewal_ok [OF ok run]
  have refreshable: "renewal_refreshable i \<longleftrightarrow> \<not> receipt_settled i" for i
    by (auto simp: renewal_refreshable_def receipt_settled_def)
  have events: "events d' = events d"
    using run by (auto simp: upsert_renewal_invoice_def split: option.splits if_splits)
  have found: "find_invoice_ext x d' = (case find_invoice_ext x d of
      None \<Rightarrow> (if x = rn_ext w then find_invoice_ext x d' else None)
    | Some i \<Rightarrow> Some (if x = rn_ext w \<and> renewal_refreshable i then renewal_refreshed w i else i))" for x
  proof (cases "find_invoice_ext (rn_ext w) d")
    case None
    with run have d': "\<exists>n. d' = d\<lparr>invoices := invoices d @ [n]\<rparr> \<and> inv_ext n = rn_ext w"
      by (auto simp: upsert_renewal_invoice_def split: if_splits)
    with None show ?thesis
      by (cases "find_invoice_ext x d") (auto simp: find_invoice_ext_def find_append)
  next
    case (Some i)
    show ?thesis
    proof (cases "renewal_refreshable i")
      case True
      with Some run have "d' = d\<lparr>invoices := update_where (\<lambda>q. inv_ext q = rn_ext w) (renewal_refreshed w) (invoices d)\<rparr>"
        by (auto simp: upsert_renewal_invoice_def split: if_splits)
      then have "find_invoice_ext x d' = map_option (\<lambda>q. if inv_ext q = rn_ext w then renewal_refreshed w q else q)
          (find_invoice_ext x d)"
        by (simp add: find_invoice_ext_def find_update_where_same)
      moreover have "inv_ext q = x" if "find_invoice_ext x d = Some q" for q
        using that by (simp add: find_invoice_ext_Some)
      ultimately show ?thesis
        using True Some by (cases "find_invoice_ext x d"; cases "x = rn_ext w") simp_all
    next
      case False
      with Some run have "d' = d" by (simp add: upsert_renewal_invoice_def)
      with False Some show ?thesis
        by (cases "find_invoice_ext x d"; cases "x = rn_ext w") simp_all
    qed
  qed
  have fresh: "\<exists>i'. find_invoice_ext (rn_ext w) d' = Some i' \<and> \<not> receipt_settled i' \<and> inv_status i' = ''OPEN''
      \<and> inv_bolt11 i' = Some (rn_bolt11 w) \<and> inv_amount i' = Some (rn_amount w) \<and> inv_id i' = rn_id w"
    if "find_invoice_ext (rn_ext w) d = None"
    using run that
    by (auto simp: upsert_renewal_invoice_def find_invoice_ext_def find_append receipt_settled_def
        split: if_splits)
  have "class_a_of d' x = class_a_of d x" for x
  proof (cases "find_invoice_ext x d")
    case None
    show ?thesis
    proof (cases "x = rn_ext w")
      case True
      with None fresh show ?thesis by (auto simp: class_a_of_def)
    next
      case False
      with None found [of x] have "find_invoice_ext x d' = None" by simp
      with None show ?thesis by (simp add: class_a_of_def)
    qed
  next
    case (Some i)
    have "\<not> receipt_settled (renewal_refreshed w i)" if "renewal_refreshable i"
      using that by (simp add: renewal_refreshable_def receipt_settled_def renewal_refreshed_def)
    moreover from Some found [of x] have "find_invoice_ext x d'
        = Some (if x = rn_ext w \<and> renewal_refreshable i then renewal_refreshed w i else i)" by simp
    ultimately show ?thesis
      using Some by (cases "receipt_settled i") (auto simp: class_a_of_def refreshable)
  qed
  then have "receipt_of d' x = receipt_of d x" for x
    using events by (intro receipt_of_cong) (simp_all add: journal_msat_def)
  then have receipts: "receipts d' = receipts d" by (rule receipts_cong [OF ok ok'])
  have settled: "d' = d" if "find_invoice_ext (rn_ext w) d = Some i" "receipt_settled i" for i
    using run that by (simp add: upsert_renewal_invoice_def refreshable)
  have "\<exists>i'. find_invoice_ext (rn_ext w) d' = Some i' \<and>
            (receipt_settled i' \<or> inv_status i' \<noteq> ''EXPIRED'' \<and> inv_bolt11 i' = Some (rn_bolt11 w) \<and>
               inv_amount i' = Some (rn_amount w) \<and> inv_id i' = rn_id w)"
  proof (cases "find_invoice_ext (rn_ext w) d")
    case None
    with fresh show ?thesis by auto
  next
    case (Some i)
    with found [of "rn_ext w"] show ?thesis
      by (auto simp: refreshable renewal_refreshed_def)
  qed
  with ok' receipts settled show ?thesis by blast
qed

definition sample_renewal :: renewal_row where
  "sample_renewal = \<lparr>rn_id = ''inv-new'', rn_sub = ''s1'', rn_ext = ''x1'', rn_backend = ''b2'',
     rn_hash = ''h2'', rn_bolt11 = ''lnbc2'', rn_amount = 9, rn_expires = 2000, rn_now = 1000\<rparr>"

theorem upsert_renewal_keeps_booked_witness:
  "\<exists>d'. upsert_renewal_invoice sample_renewal lapsed_db = Inr ((), d') \<and>
        (\<exists>i'. find_invoice_ext ''x1'' d' = Some i' \<and>
           (receipt_settled i' \<or> inv_bolt11 i' = Some ''lnbc2''))"
proof -
  obtain d' where run: "upsert_renewal_invoice sample_renewal lapsed_db = Inr ((), d')"
    by (simp add: upsert_renewal_invoice_def find_invoice_ext_def renewal_refreshable_def
        sample_renewal_def sample_defs)
  from upsert_renewal_keeps_booked [OF lapsed_ok this] show ?thesis
    using run by (auto simp: sample_renewal_def)
qed

subsection \<open>The reaper\<close>

lemma find_delete_where:
  assumes "distinct (map k rs)"
  shows "List.find (\<lambda>r. k r = x) (delete_where P rs)
       = (case List.find (\<lambda>r. k r = x) rs of None \<Rightarrow> None | Some r \<Rightarrow> if P r then None else Some r)"
  using assms
proof (induction rs)
  case (Cons r rs)
  have "List.find (\<lambda>q. k q = k r) rs = None" "List.find (\<lambda>q. k q = k r) (delete_where P rs) = None"
    using Cons.prems by (auto simp: find_None_iff image_iff)
  with Cons show ?case by (cases "k r = x") (auto simp: delete_where_def)
qed simp

lemma sorted_wrt_delete_where:
  "sorted_wrt R (map k rs) \<Longrightarrow> sorted_wrt R (map k (delete_where P rs))"
  by (induction rs) (auto simp: delete_where_def)

text \<open>The five statements, one table each.\<close>

lemma reap_tables:
  assumes "reap_terminal_rows clock now d = (n, d')"
  defines "c \<equiv> min clock now - terminal_row_retention"
  obtains d1 d2 d3 d4 where
    "instances d' = delete_where (instance_reapable c d) (instances d)"
    "reservations d' = delete_where (reservation_reapable c d1) (reservations d)"
    "invoices d' = delete_where (invoice_reapable c d2) (invoices d)"
    "events d' = delete_where (event_reapable c d3) (events d)"
    "subs d' = delete_where (sub_reapable c d4) (subs d)"
    "subs d1 = subs d" "subs d2 = subs d" "subs d3 = subs d" "events d3 = events d"
    "refunds d2 = refunds d"
    "invoices d4 = invoices d'" "events d4 = events d'" "instances d4 = instances d'"
    "reservations d4 = reservations d'" "refunds d4 = refunds d" "teardowns d4 = teardowns d"
    "outbox d4 = outbox d" "sessions d4 = sessions d"
    "refunds d' = refunds d" "sweeps d' = sweeps d" "teardowns d' = teardowns d"
    "outbox d' = outbox d" "event_seq d' = event_seq d" "sessions d' = sessions d"
proof -
  define d1 where "d1 = d\<lparr>instances := delete_where (instance_reapable c d) (instances d)\<rparr>"
  define d2 where "d2 = d1\<lparr>reservations := delete_where (reservation_reapable c d1) (reservations d1)\<rparr>"
  define d3 where "d3 = d2\<lparr>invoices := delete_where (invoice_reapable c d2) (invoices d2)\<rparr>"
  define d4 where "d4 = d3\<lparr>events := delete_where (event_reapable c d3) (events d3)\<rparr>"
  have d': "d' = d4\<lparr>subs := delete_where (sub_reapable c d4) (subs d4)\<rparr>"
    using assms(1) unfolding reap_terminal_rows_def Let_def d4_def d3_def d2_def d1_def c_def by blast
  show thesis
    by (rule that [of d1 d2 d3 d4]) (simp_all add: d' d4_def d3_def d2_def d1_def)
qed

lemma reap_ok:
  assumes "reap_terminal_rows clock now d = (n, d')" and "db_ok d"
  shows "db_ok d'"
  using assms(1)
proof (rule reap_tables)
  fix d1 d2 d3 d4
  let ?c = "min clock now - terminal_row_retention"
  assume "reservations d' = delete_where (reservation_reapable ?c d1) (reservations d)"
    "invoices d' = delete_where (invoice_reapable ?c d2) (invoices d)"
    "events d' = delete_where (event_reapable ?c d3) (events d)"
    "subs d' = delete_where (sub_reapable ?c d4) (subs d)"
    "refunds d' = refunds d" "sweeps d' = sweeps d" "teardowns d' = teardowns d"
    "outbox d' = outbox d" "event_seq d' = event_seq d"
  with assms(2) show ?thesis
    by (simp add: db_ok_def distinct_map_delete_where sorted_wrt_delete_where)
qed

lemma reap_receipt_of:
  assumes run: "reap_terminal_rows clock now d = (n, d')" and ok: "db_ok d"
  shows "receipt_of d' x = receipt_of d x" and "receipts_decode d' = receipts_decode d"
proof -
  from run obtain c d2 d3 where inv: "invoices d' = delete_where (invoice_reapable c d2) (invoices d)"
    and ev: "events d' = delete_where (event_reapable c d3) (events d)"
    by (rule reap_tables) blast
  have keep: "\<not> receipt_settled i" if "invoice_reapable c d2 i" for i
    using that by (auto simp: invoice_reapable_def receipt_settled_def)
  have find: "find_invoice_ext x d' = (case find_invoice_ext x d of None \<Rightarrow> None
      | Some i \<Rightarrow> if invoice_reapable c d2 i then None else Some i)"
    unfolding find_invoice_ext_def inv by (rule find_delete_where) (rule db_okD(3) [OF ok])
  have evs: "filter (\<lambda>e. settle_refund_event e \<and> Q e) (events d')
      = filter (\<lambda>e. settle_refund_event e \<and> Q e) (events d)" for Q
    unfolding ev delete_where_def filter_filter
    by (rule filter_cong) (auto simp: event_reapable_def)
  have "class_a_of d' x = class_a_of d x"
    by (simp add: class_a_of_def find keep split: option.split)
  moreover have "journal_msat x d' = journal_msat x d"
    by (simp add: journal_msat_def evs)
  ultimately show "receipt_of d' x = receipt_of d x" by (rule receipt_of_cong)
  have "(\<forall>i\<in>set (invoices d'). receipt_settled i \<longrightarrow> fits_i64 (invoice_msat i))
      \<longleftrightarrow> (\<forall>i\<in>set (invoices d). receipt_settled i \<longrightarrow> fits_i64 (invoice_msat i))"
    unfolding inv using keep by auto
  moreover have "(\<forall>e\<in>set (events d'). settle_refund_event e \<longrightarrow> event_decodes e)
      \<longleftrightarrow> (\<forall>e\<in>set (events d). settle_refund_event e \<longrightarrow> event_decodes e)"
    unfolding ev by (auto simp: event_reapable_def)
  ultimately show "receipts_decode d' = receipts_decode d" by (simp add: receipts_decode_def)
qed

text \<open>
  The reaper never touches the money: whatever it deletes, the database stays well formed and the
  books read the same, receipt by receipt, refund and sweep rows included, so \<open>expected_msat\<close>
  answers exactly as before for every backend.
\<close>

theorem reap_keeps_books:
  assumes run: "reap_terminal_rows clock now d = (n, d')" and ok: "db_ok d"
  shows "db_ok d' \<and> receipts d' = receipts d \<and> refunds d' = refunds d \<and> sweeps d' = sweeps d \<and>
         expected_msat ask d' = expected_msat ask d"
proof -
  note ok' = reap_ok [OF run ok]
  have tables: "refunds d' = refunds d" "sweeps d' = sweeps d"
    using run by (rule reap_tables, simp)+
  have receipts: "receipts d' = receipts d"
    by (rule receipts_cong [OF ok ok']) (rule reap_receipt_of(1) [OF run ok])
  from tables have rows: "load_refund_commitments d' = load_refund_commitments d"
    "sum_sweep_caps_msat d' = sum_sweep_caps_msat d"
    by (simp_all add: load_refund_commitments_def sum_sweep_caps_msat_def)
  have "expected_msat ask d' = expected_msat ask d"
    unfolding expected_msat_def read_ledger_terms_def sum_receipts_msat_def rows receipts
      reap_receipt_of(2) [OF run ok] ..
  with ok' receipts tables show ?thesis by simp
qed

text \<open>
  The reaper never strands an obligation: a subscription it removes was terminal and leaves
  behind no invoice, event, instance or reservation, no unsent refund, no owed teardown, no pending
  message and no active session; every subscription in any other state is kept, and so are its
  instance rows.
\<close>

theorem reap_strands_nothing:
  assumes run: "reap_terminal_rows clock now d = (n, d')" and s: "s \<in> set (subs d)"
  shows "(s \<in> set (subs d') \<or>
           terminal_state (sub_state s) \<and>
           (\<forall>i\<in>set (invoices d'). inv_sub i \<noteq> Some (sub_id s)) \<and>
           (\<forall>e\<in>set (events d'). ev_sub e \<noteq> Some (sub_id s)) \<and>
           (\<forall>i\<in>set (instances d'). ins_sub i \<noteq> Some (sub_id s)) \<and>
           (\<forall>r\<in>set (reservations d'). rsv_order r \<noteq> sub_id s) \<and>
           (\<forall>r\<in>set (refunds d'). rf_sub r = Some (sub_id s) \<longrightarrow> rf_status r = ''SENT'') \<and>
           (\<forall>t\<in>set (teardowns d'). td_sub t = sub_id s \<longrightarrow> td_resolved t \<noteq> None) \<and>
           (\<forall>b\<in>set (outbox d'). ob_sub b = Some (sub_id s) \<longrightarrow> ob_state b \<noteq> ''PENDING'') \<and>
           (\<forall>q\<in>set (sessions d'). ncs_sub q = Some (sub_id s) \<longrightarrow> ncs_state q \<noteq> ''ACTIVE'')) \<and>
         (\<not> terminal_state (sub_state s) \<longrightarrow>
           (\<forall>i\<in>set (instances d). ins_sub i = Some (sub_id s) \<longrightarrow> i \<in> set (instances d')) \<and>
           (\<forall>r\<in>set (reservations d). rsv_order r = sub_id s \<longrightarrow> r \<in> set (reservations d')))"
  using run
proof (rule reap_tables)
  fix d1 d2 d3 d4
  let ?c = "min clock now - terminal_row_retention"
  assume tables: "instances d' = delete_where (instance_reapable ?c d) (instances d)"
    "reservations d' = delete_where (reservation_reapable ?c d1) (reservations d)"
    "subs d' = delete_where (sub_reapable ?c d4) (subs d)" "subs d1 = subs d"
    "invoices d4 = invoices d'" "events d4 = events d'" "instances d4 = instances d'"
    "reservations d4 = reservations d'" "refunds d4 = refunds d" "teardowns d4 = teardowns d"
    "outbox d4 = outbox d" "sessions d4 = sessions d" "refunds d' = refunds d"
    "teardowns d' = teardowns d" "outbox d' = outbox d" "sessions d' = sessions d"
  have gone: "sub_reapable ?c d4 s" if "s \<notin> set (subs d')"
    using that s tables(3) by simp
  show ?thesis
  proof (intro conjI impI, goal_cases)
    case 1
    show ?case
    proof (cases "s \<in> set (subs d')")
      case False
      from gone [OF this] show ?thesis
        unfolding sub_reapable_def tables(5-16) by auto
    qed simp
  next
    case 2
    then have "sub_in_use ?c (sub_id s) d" using s by (auto simp: sub_in_use_def)
    then show ?case by (auto simp: tables(1) instance_reapable_def)
  next
    case 3
    then have "sub_in_use ?c (sub_id s) d1" using s tables(4) by (auto simp: sub_in_use_def)
    then show ?case by (auto simp: tables(2) reservation_reapable_def)
  qed
qed

text \<open>A terminated subscription and an expired invoice, both long past the window.\<close>

definition stale_db :: db where
  "stale_db = sample_db [sample_sub ''s1'' ''TERMINATED''] [sample_invoice ''s1'' ''x1'' ''renewal'' ''EXPIRED'']"

lemma stale_ok: "db_ok stale_db"
  by (simp add: db_ok_def stale_db_def sample_defs)

lemma stale_reaped: "subs (snd (reap_terminal_rows 9000000 9000000 stale_db)) = []
    \<and> invoices (snd (reap_terminal_rows 9000000 9000000 stale_db)) = []"
  by (simp add: reap_terminal_rows_def Let_def stale_db_def sample_defs delete_where_def
      invoice_reapable_def sub_reapable_def terminal_state_def terminal_row_retention_def)

theorem reap_keeps_books_witness:
  "receipts (snd (reap_terminal_rows 9000000 9000000 stale_db)) = receipts stale_db"
  using reap_keeps_books [OF prod.collapse [symmetric] stale_ok] by blast

theorem reap_strands_nothing_witness:
  "terminal_state (sub_state (sample_sub ''s1'' ''TERMINATED'')) \<and>
   filter (\<lambda>i. inv_sub i = Some ''s1'') (invoices (snd (reap_terminal_rows 9000000 9000000 stale_db))) = []"
proof -
  have "sample_sub ''s1'' ''TERMINATED'' \<in> set (subs stale_db)"
    by (simp add: stale_db_def sample_db_def)
  from reap_strands_nothing [OF prod.collapse [symmetric, of "reap_terminal_rows 9000000 9000000 stale_db"] this]
  show ?thesis using stale_reaped by (auto simp: sample_sub_def filter_empty_conv)
qed

end
