(* ===== verification/Alerts.thy ===== *)
theory Alerts
  imports Schema
begin

text \<open>
  Operator alerts, \<open>daemon/src/alerts.rs\<close>: the alert kinds, the capped payload, the cooldown map of
  the dispatcher, the stable row of a terminal condition, and the operator's read-back view.

  The SHA-256 hex digest that bounds a long subject inside a row id is an argument. Strings are byte
  strings; the ellipsis is its UTF-8 encoding and the caps count bytes (characters, for ASCII).
\<close>

definition alert_cooldown_s :: int where "alert_cooldown_s = 6 * 3600"
definition alert_view_window_s :: int where "alert_view_window_s = 2 * alert_cooldown_s"
definition max_alert_detail_chars :: nat where "max_alert_detail_chars = 1024"
definition max_alert_subject_chars :: nat where "max_alert_subject_chars = 256"

datatype alert_kind =
    RefundParked
  | RefundStuck
  | TeardownFailed
  | RelayBlackout
  | HoldingsLow
  | PaidServiceDestroyed
  | SweepFailed
  | SweepStuck
  | SettlementUnbookable

fun wire_str :: "alert_kind \<Rightarrow> string" where
  "wire_str RefundParked = ''refund_parked''"
| "wire_str RefundStuck = ''refund_stuck''"
| "wire_str TeardownFailed = ''teardown_failed''"
| "wire_str RelayBlackout = ''relay_blackout''"
| "wire_str HoldingsLow = ''holdings_low''"
| "wire_str PaidServiceDestroyed = ''paid_service_destroyed''"
| "wire_str SweepFailed = ''sweep_failed''"
| "wire_str SweepStuck = ''sweep_stuck''"
| "wire_str SettlementUnbookable = ''settlement_unbookable''"

definition ellipsis :: string where
  "ellipsis = [CHR 0xE2, CHR 0x80, CHR 0xA6]"

definition cap_chars :: "string \<Rightarrow> nat \<Rightarrow> string" where
  "cap_chars s n = (if length s \<le> n then s else take n s @ ellipsis)"

definition id_subject :: "(string \<Rightarrow> string) \<Rightarrow> string \<Rightarrow> string" where
  "id_subject digest s = (if length s \<le> max_alert_subject_chars then s else ''h:'' @ digest s)"

definition alert_payload :: "alert_kind \<Rightarrow> string \<Rightarrow> string \<Rightarrow> json" where
  "alert_payload k subject detail =
     JObj [(''type'', JStr ''operator.alert''), (''kind'', JStr (wire_str k)),
           (''subject'', JStr (cap_chars subject max_alert_subject_chars)),
           (''detail'', JStr (cap_chars detail max_alert_detail_chars))]"

record alert =
  al_kind :: alert_kind
  al_subject :: string
  al_detail :: string

text \<open>The dispatcher: its configuration and the in-memory time of the last alert per condition.\<close>

record dispatcher =
  dp_enabled :: bool
  dp_recipient :: string
  dp_last :: "alert_kind \<times> string \<Rightarrow> int option"

definition is_enabled :: "dispatcher \<Rightarrow> bool" where
  "is_enabled p \<longleftrightarrow> dp_enabled p \<and> dp_recipient p \<noteq> []"

definition alert_row_id :: "(string \<Rightarrow> string) \<Rightarrow> alert_kind \<Rightarrow> string \<Rightarrow> string" where
  "alert_row_id digest k subject = ''outbox:alert:'' @ wire_str k @ '':'' @ id_subject digest subject"

definition cooling :: "int \<Rightarrow> alert \<Rightarrow> dispatcher \<Rightarrow> bool" where
  "cooling now a p =
     (case dp_last p (al_kind a, al_subject a) of None \<Rightarrow> False | Some prev \<Rightarrow> now - prev < alert_cooldown_s)"

text \<open>\<open>dispatch\<close>; a store failure leaves the cooldown map alone, so the alert is retried.\<close>

definition dispatch ::
  "(string \<Rightarrow> string) \<Rightarrow> store_error option \<Rightarrow> int \<Rightarrow> alert \<Rightarrow> dispatcher \<times> db
     \<Rightarrow> (store_error + bool) \<times> dispatcher \<times> db" where
  "dispatch digest fault now a s =
     (case s of (p, d) \<Rightarrow>
        if \<not> is_enabled p then (Inr False, p, d)
        else if cooling now a p then (Inr False, p, d)
        else (case fault of
                Some e \<Rightarrow> (Inl e, p, d)
              | None \<Rightarrow> (Inr True, p\<lparr>dp_last := (dp_last p)((al_kind a, al_subject a) \<mapsto> now)\<rparr>,
                  enqueue_row (alert_row_id digest (al_kind a) (al_subject a) @ '':'' @ int_str now)
                    (Some (dp_recipient p)) None ''operator.alert''
                    (alert_payload (al_kind a) (al_subject a) (al_detail a)) now d)))"

record alert_row =
  ar_id :: string
  ar_recipient :: string
  ar_payload :: json

definition terminal_alert_row ::
  "(string \<Rightarrow> string) \<Rightarrow> alert_kind \<Rightarrow> string \<Rightarrow> string \<Rightarrow> dispatcher \<Rightarrow> alert_row option" where
  "terminal_alert_row digest k subject detail p =
     (if \<not> is_enabled p then None
      else Some \<lparr>ar_id = alert_row_id digest k subject, ar_recipient = dp_recipient p,
                 ar_payload = alert_payload k subject detail\<rparr>)"

definition enqueue_alert_row :: "alert_row \<Rightarrow> int \<Rightarrow> db \<Rightarrow> db" where
  "enqueue_alert_row a now d =
     enqueue_row (ar_id a) (Some (ar_recipient a)) None ''operator.alert'' (ar_payload a) now d"

subsection \<open>The operator's view\<close>

record alert_view =
  av_subject :: string
  av_detail :: string
  av_at :: int

text \<open>The rows newest first; equal times are ordered by id, descending.\<close>

definition alert_rows_of :: "alert_kind \<Rightarrow> int \<Rightarrow> db \<Rightarrow> outbox_row list" where
  "alert_rows_of k since d =
     rev (sort_key (\<lambda>r. (ob_created r, ob_id r))
       (filter (\<lambda>r. since \<le> ob_created r \<and> starts_with (''outbox:alert:'' @ wire_str k @ '':'') (ob_id r))
          (outbox d)))"

definition decode_alert :: "alert_kind \<Rightarrow> outbox_row \<Rightarrow> store_error + alert_view" where
  "decode_alert k r =
     (if ob_type r \<noteq> ''operator.alert'' then Inl (Bail ''not operator.alert'')
      else if json_text ''type'' (ob_payload r) \<noteq> Some ''operator.alert''
      then Inl (Bail ''not an operator.alert payload'')
      else (case (json_text ''kind'' (ob_payload r), json_text ''subject'' (ob_payload r),
                  json_text ''detail'' (ob_payload r)) of
              (Some kd, Some sj, Some dt) \<Rightarrow>
                if kd \<noteq> wire_str k then Inl (Bail ''kind mismatch'')
                else Inr \<lparr>av_subject = sj, av_detail = dt, av_at = ob_created r\<rparr>
            | _ \<Rightarrow> Inl OutOfRange))"

fun collect_alerts :: "alert_kind \<Rightarrow> string list \<Rightarrow> outbox_row list \<Rightarrow> store_error + alert_view list" where
  "collect_alerts k seen [] = Inr []"
| "collect_alerts k seen (r # rs) =
     (case decode_alert k r of
        Inl e \<Rightarrow> Inl e
      | Inr v \<Rightarrow> if av_subject v \<in> set seen then collect_alerts k seen rs
                 else map_sum id (Cons v) (collect_alerts k (av_subject v # seen) rs))"

definition recent_alerts :: "alert_kind \<Rightarrow> int \<Rightarrow> db \<Rightarrow> store_error + nat \<times> alert_view list" where
  "recent_alerts k since d = map_sum id (\<lambda>vs. (length vs, vs)) (collect_alerts k [] (alert_rows_of k since d))"

subsection \<open>Instances and laws\<close>

lemma wire_str_inj [simp]: "wire_str k = wire_str k' \<longleftrightarrow> k = k'"
  by (cases k; cases k') simp_all

text \<open>Alert kinds are ordered by their wire string, so they can key ordered containers.\<close>

instantiation alert_kind :: linorder
begin

definition less_eq_alert_kind :: "alert_kind \<Rightarrow> alert_kind \<Rightarrow> bool" where
  "k \<le> k' \<longleftrightarrow> wire_str k \<le> wire_str k'"

definition less_alert_kind :: "alert_kind \<Rightarrow> alert_kind \<Rightarrow> bool" where
  "k < k' \<longleftrightarrow> wire_str k < wire_str k'"

instance
  by standard (auto simp: less_eq_alert_kind_def less_alert_kind_def less_le_not_le)

end

lemma length_cap_chars: "length (cap_chars s n) \<le> n + 3"
  by (simp add: cap_chars_def ellipsis_def)

text \<open>A sequence of dispatches, with the clock and the store's answer of each.\<close>

fun dispatches :: "(string \<Rightarrow> string) \<Rightarrow> (int \<times> store_error option \<times> alert) list \<Rightarrow> dispatcher \<times> db
    \<Rightarrow> (int \<times> alert) list" where
  "dispatches digest [] s = []"
| "dispatches digest ((now, fault, a) # rest) s =
     (case dispatch digest fault now a s of
        (r, s') \<Rightarrow> (if r = Inr True then [(now, a)] else []) @ dispatches digest rest s')"

definition same_condition :: "alert \<Rightarrow> alert \<Rightarrow> bool" where
  "same_condition a b \<longleftrightarrow> al_kind a = al_kind b \<and> al_subject a = al_subject b"

lemma dispatches_after:
  assumes "(t, b) \<in> set (dispatches digest ins (p, d))" "sorted (map fst ins)"
    "dp_last p (al_kind b, al_subject b) = Some prev" "\<forall>i\<in>set ins. prev \<le> fst i"
  shows "prev + alert_cooldown_s \<le> t"
  using assms
proof (induction ins arbitrary: p d prev)
  case (Cons i ins)
  obtain now fault a where i: "i = (now, fault, a)" by (cases i)
  obtain r p' d' where step: "dispatch digest fault now a (p, d) = (r, p', d')" by (metis surj_pair)
  have cases: "p' = p \<or> (r = Inr True \<and> \<not> cooling now a p \<and>
      p' = p\<lparr>dp_last := (dp_last p)((al_kind a, al_subject a) \<mapsto> now)\<rparr>)"
    and sent: "r = Inr True \<Longrightarrow> \<not> cooling now a p"
    using step by (auto simp: dispatch_def split: if_splits option.splits)
  from Cons.prems(1) step consider (here) "r = Inr True" "t = now" "b = a"
    | (later) "(t, b) \<in> set (dispatches digest ins (p', d'))"
    by (auto simp: i split: if_splits)
  then show ?case
  proof cases
    case here
    with sent Cons.prems(3) show ?thesis by (simp add: cooling_def)
  next
    case later
    show ?thesis
    proof (cases "dp_last p' (al_kind b, al_subject b) = Some prev")
      case True
      with later Cons.prems Cons.IH show ?thesis by simp
    next
      case False
      with cases Cons.prems(3) have "dp_last p' (al_kind b, al_subject b) = Some now"
        and cool: "\<not> cooling now a p" "(al_kind a, al_subject a) = (al_kind b, al_subject b)"
        by (auto split: if_splits)
      then have "now + alert_cooldown_s \<le> t"
        using later Cons.prems by (intro Cons.IH [of p' d' now]) (auto simp: i)
      with cool Cons.prems(3) show ?thesis by (simp add: cooling_def alert_cooldown_s_def)
    qed
  qed
qed simp

text \<open>
  The cooldown bounds alert noise: however often a persisting condition is dispatched, with a
  clock that does not run backwards and whatever the store answers, two alerts that were enqueued for
  the same kind and subject lie at least six hours apart.
\<close>

theorem alerts_respect_cooldown:
  assumes "sorted (map fst ins)" and "dispatches digest ins (p, d) = xs @ (t, a) # ys"
    and "(t', b) \<in> set ys" and "same_condition a b"
  shows "t + alert_cooldown_s \<le> t'"
  using assms
proof (induction ins arbitrary: p d xs)
  case (Cons i ins)
  obtain now fault c where i: "i = (now, fault, c)" by (cases i)
  obtain r p' d' where step: "dispatch digest fault now c (p, d) = (r, p', d')" by (metis surj_pair)
  note out = Cons.prems(2) [unfolded i, simplified, unfolded step, simplified]
  show ?case
  proof (cases "r = Inr True \<and> xs = []")
    case True
    with out have here: "t = now" "a = c" "ys = dispatches digest ins (p', d')" by simp_all
    have "dp_last p' (al_kind b, al_subject b) = Some now"
      using True step Cons.prems(4) here(2)
      by (auto simp: dispatch_def same_condition_def split: if_splits option.splits)
    with here Cons.prems(1,3) show ?thesis
      by (intro dispatches_after [of t' b digest ins p' d']) (auto simp: i)
  next
    case False
    then obtain xs' where "dispatches digest ins (p', d') = xs' @ (t, a) # ys"
      using out by (cases "r = Inr True"; cases xs) auto
    with Cons show ?thesis by auto
  qed
qed simp

definition sample_dispatcher :: dispatcher where
  "sample_dispatcher = \<lparr>dp_enabled = True, dp_recipient = ''op'', dp_last = (\<lambda>_. None)\<rparr>"

definition sample_alert :: alert where
  "sample_alert = \<lparr>al_kind = HoldingsLow, al_subject = ''wallet'', al_detail = ''low''\<rparr>"

lemma sample_dispatches:
  "dispatches id [(0, None, sample_alert), (100, None, sample_alert), (21600, None, sample_alert)]
     (sample_dispatcher, empty_db) = [] @ (0, sample_alert) # [(21600, sample_alert)]"
  by (simp add: dispatch_def is_enabled_def cooling_def sample_dispatcher_def sample_alert_def
      alert_cooldown_s_def)

theorem alerts_respect_cooldown_witness: "(0::int) + alert_cooldown_s \<le> 21600"
  by (rule alerts_respect_cooldown [OF _ sample_dispatches]) (simp_all add: same_condition_def)

lemma collect_alerts_sound:
  "collect_alerts k seen rs = Inr vs \<Longrightarrow>
     distinct (map av_subject vs) \<and> set (map av_subject vs) \<inter> set seen = {} \<and>
     (\<forall>v\<in>set vs. \<exists>r\<in>set rs. decode_alert k r = Inr v) \<and>
     (\<forall>r\<in>set rs. \<exists>v. decode_alert k r = Inr v \<and> (av_subject v \<in> set seen \<or> av_subject v \<in> av_subject ` set vs))"
proof (induction k seen rs arbitrary: vs rule: collect_alerts.induct)
  case (2 k seen r rs)
  from "2.prems" obtain v where v: "decode_alert k r = Inr v" by (auto split: sum.splits)
  show ?case
  proof (cases "av_subject v \<in> set seen")
    case True
    with v 2 show ?thesis by auto
  next
    case False
    with v "2.prems" obtain ws where ws: "collect_alerts k (av_subject v # seen) rs = Inr ws" "vs = v # ws"
      by (cases "collect_alerts k (av_subject v # seen) rs") auto
    from "2.IH"(2) [OF v False ws(1)] v False show ?thesis unfolding ws(2) by auto
  qed
qed simp

text \<open>
  The operator view is complete and fails closed: when it answers, it shows each subject once,
  every entry decodes from a stored row of that kind in the window, and every such row's subject is
  shown, so a corrupt row can only make the view an error, never make a condition vanish.
\<close>

theorem recent_alerts_complete:
  assumes "recent_alerts k since d = Inr (n, vs)"
  shows "n = length vs \<and> distinct (map av_subject vs) \<and>
         (\<forall>v\<in>set vs. \<exists>r\<in>set (outbox d). since \<le> ob_created r \<and> decode_alert k r = Inr v) \<and>
         (\<forall>r\<in>set (outbox d). since \<le> ob_created r \<and> starts_with (''outbox:alert:'' @ wire_str k @ '':'') (ob_id r)
            \<longrightarrow> (\<exists>v. decode_alert k r = Inr v \<and> av_subject v \<in> av_subject ` set vs))"
proof -
  from assms have vs: "collect_alerts k [] (alert_rows_of k since d) = Inr vs" "n = length vs"
    by (cases "collect_alerts k [] (alert_rows_of k since d)"; simp add: recent_alerts_def)+
  have rows: "set (alert_rows_of k since d) = {r \<in> set (outbox d). since \<le> ob_created r \<and>
      starts_with (''outbox:alert:'' @ wire_str k @ '':'') (ob_id r)}"
    by (auto simp: alert_rows_of_def)
  from collect_alerts_sound [OF vs(1)] show ?thesis
    unfolding rows using vs(2) by (auto; blast)
qed

theorem recent_alerts_complete_witness:
  "\<exists>n vs. recent_alerts HoldingsLow 0 (snd (snd (dispatch id None 5 sample_alert (sample_dispatcher, empty_db))))
            = Inr (n, vs) \<and> n = length vs"
proof -
  obtain n vs where "recent_alerts HoldingsLow 0
      (snd (snd (dispatch id None 5 sample_alert (sample_dispatcher, empty_db)))) = Inr (n, vs)"
    by (simp add: recent_alerts_def alert_rows_of_def dispatch_def is_enabled_def cooling_def
        sample_dispatcher_def sample_alert_def enqueue_row_def empty_db_def alert_row_id_def
        decode_alert_def alert_payload_def starts_with_def strip_prefix_Some id_subject_def)
  with recent_alerts_complete [OF this] show ?thesis by blast
qed

end
