(* ===== verification/Resolver.thy ===== *)
theory Resolver
  imports Prelude "HOL-Library.Word"
begin

text \<open>
  The refund-destination resolver, \<open>daemon/src/refund_resolver.rs\<close>: the form of a destination, the
  order-time format gate, the SSRF guard on every address the resolver would contact, the bounded
  redirect loop, the LNURL-pay exchange and the checks on the invoice it returns.

  Third-party code is the argument \<open>N\<close>: the bech32, URL, BOLT11 and JSON parsers, SHA-256, DNS, and
  the HTTP exchange itself. Addresses are machine words.
\<close>

unbundle bit_operations_syntax

subsection \<open>Addresses\<close>

datatype ipv4 = IPv4 "8 word" "8 word" "8 word" "8 word"

datatype ipv6 = IPv6 "16 word" "16 word" "16 word" "16 word" "16 word" "16 word" "16 word" "16 word"

datatype ip_addr = V4 ipv4 | V6 ipv6

text \<open>The classifications of \<open>std::net::Ipv4Addr\<close> the guard uses.\<close>

fun v4_is_private :: "ipv4 \<Rightarrow> bool" where
  "v4_is_private (IPv4 a b c d) \<longleftrightarrow> a = 10 \<or> (a = 172 \<and> 16 \<le> b \<and> b \<le> 31) \<or> (a = 192 \<and> b = 168)"

fun v4_is_loopback :: "ipv4 \<Rightarrow> bool" where
  "v4_is_loopback (IPv4 a b c d) \<longleftrightarrow> a = 127"

fun v4_is_link_local :: "ipv4 \<Rightarrow> bool" where
  "v4_is_link_local (IPv4 a b c d) \<longleftrightarrow> a = 169 \<and> b = 254"

fun v4_is_unspecified :: "ipv4 \<Rightarrow> bool" where
  "v4_is_unspecified (IPv4 a b c d) \<longleftrightarrow> a = 0 \<and> b = 0 \<and> c = 0 \<and> d = 0"

fun v4_is_broadcast :: "ipv4 \<Rightarrow> bool" where
  "v4_is_broadcast (IPv4 a b c d) \<longleftrightarrow> a = 255 \<and> b = 255 \<and> c = 255 \<and> d = 255"

fun v4_is_documentation :: "ipv4 \<Rightarrow> bool" where
  "v4_is_documentation (IPv4 a b c d) \<longleftrightarrow>
     (a = 192 \<and> b = 0 \<and> c = 2) \<or> (a = 198 \<and> b = 51 \<and> c = 100) \<or> (a = 203 \<and> b = 0 \<and> c = 113)"

fun v4_is_multicast :: "ipv4 \<Rightarrow> bool" where
  "v4_is_multicast (IPv4 a b c d) \<longleftrightarrow> 224 \<le> a \<and> a \<le> 239"

fun ipv4_blocked :: "ipv4 \<Rightarrow> bool" where
  "ipv4_blocked (IPv4 a b c d) \<longleftrightarrow>
     v4_is_private (IPv4 a b c d) \<or> v4_is_loopback (IPv4 a b c d) \<or> v4_is_link_local (IPv4 a b c d) \<or>
     v4_is_unspecified (IPv4 a b c d) \<or> v4_is_broadcast (IPv4 a b c d) \<or>
     v4_is_documentation (IPv4 a b c d) \<or> v4_is_multicast (IPv4 a b c d) \<or>
     a = 0 \<or> (a = 100 \<and> b AND 0xC0 = 64) \<or> (a = 192 \<and> b = 0 \<and> c = 0) \<or>
     (a = 198 \<and> b AND 0xFE = 18) \<or> 240 \<le> a"

definition v4_of_segs :: "16 word \<Rightarrow> 16 word \<Rightarrow> ipv4" where
  "v4_of_segs hi lo = IPv4 (ucast (drop_bit 8 hi)) (ucast hi) (ucast (drop_bit 8 lo)) (ucast lo)"

fun v6_is_loopback :: "ipv6 \<Rightarrow> bool" where
  "v6_is_loopback (IPv6 a b c d e f g h) \<longleftrightarrow>
     a = 0 \<and> b = 0 \<and> c = 0 \<and> d = 0 \<and> e = 0 \<and> f = 0 \<and> g = 0 \<and> h = 1"

fun v6_is_unspecified :: "ipv6 \<Rightarrow> bool" where
  "v6_is_unspecified (IPv6 a b c d e f g h) \<longleftrightarrow>
     a = 0 \<and> b = 0 \<and> c = 0 \<and> d = 0 \<and> e = 0 \<and> f = 0 \<and> g = 0 \<and> h = 0"

fun v6_is_multicast :: "ipv6 \<Rightarrow> bool" where
  "v6_is_multicast (IPv6 a b c d e f g h) \<longleftrightarrow> a AND 0xFF00 = 0xFF00"

fun embedded_ipv4 :: "ipv6 \<Rightarrow> ipv4 option" where
  "embedded_ipv4 (IPv6 a b c d e f g h) =
     (if a = 0 \<and> b = 0 \<and> c = 0 \<and> d = 0 \<and> e = 0 \<and> f = 0xFFFF then Some (v4_of_segs g h)
      else if a = 0 \<and> b = 0 \<and> c = 0 \<and> d = 0 \<and> e = 0 \<and> f = 0 \<and> (g \<noteq> 0 \<or> h \<noteq> 0) then Some (v4_of_segs g h)
      else if a = 0x64 \<and> b = 0xFF9B \<and> c = 0 \<and> d = 0 \<and> e = 0 \<and> f = 0 then Some (v4_of_segs g h)
      else if a = 0x2002 then Some (v4_of_segs b c)
      else if a = 0x2001 \<and> b = 0 then Some (v4_of_segs (g XOR 0xFFFF) (h XOR 0xFFFF))
      else None)"

fun ipv6_blocked :: "ipv6 \<Rightarrow> bool" where
  "ipv6_blocked (IPv6 a b c d e f g h) =
     (if v6_is_loopback (IPv6 a b c d e f g h) \<or> v6_is_unspecified (IPv6 a b c d e f g h) \<or>
         v6_is_multicast (IPv6 a b c d e f g h) then True
      else if a AND 0xFE00 = 0xFC00 \<or> a AND 0xFFC0 = 0xFE80 \<or> a AND 0xFFC0 = 0xFEC0 then True
      else (case embedded_ipv4 (IPv6 a b c d e f g h) of
              Some v \<Rightarrow> ipv4_blocked v
            | None \<Rightarrow> False))"

subsection \<open>Destinations\<close>

datatype resolve_error = Structural string | Transient string

datatype dest_form = Bolt11 | LnAddress string string | Lnurl string

datatype host = HDomain string | HIp ip_addr

record url =
  u_scheme :: string
  u_host :: "host option"
  u_text :: string

record bolt11 =
  b11_msat :: "nat option"
  b11_hash :: "string option" \<comment> \<open>\<open>None\<close>: a direct description\<close>
  b11_expiry :: int \<comment> \<open>unix seconds, \<open>i64::MAX\<close> when it has none\<close>

record http_response =
  h_status :: nat
  h_location :: "string option"
  h_length :: "nat option"
  h_chunks :: "string list option" \<comment> \<open>\<open>None\<close>: the body could not be read\<close>

record lnurl_pay =
  lp_tag :: "string option"
  lp_callback :: string
  lp_min :: nat
  lp_max :: nat
  lp_metadata :: string

text \<open>
  Third-party code: parsers, the digest, DNS and the HTTP exchange. A lookup and a request are told how many requests the
  resolution made before, so neither need answer the same twice; a request is told the addresses it is pinned to.
\<close>

record net =
  n_bech32 :: "string \<Rightarrow> (string \<times> string) option"
  n_utf8 :: "string \<Rightarrow> bool"
  n_url :: "string \<Rightarrow> url option"
  n_join :: "url \<Rightarrow> string \<Rightarrow> string option"
  n_append :: "url \<Rightarrow> string \<Rightarrow> string" \<comment> \<open>the URL with one more \<open>amount\<close> query pair\<close>
  n_bolt11 :: "string \<Rightarrow> bolt11 option"
  n_digest :: "string \<Rightarrow> string"
  n_dns :: "nat \<Rightarrow> string \<Rightarrow> ip_addr list option"
  n_get :: "nat \<Rightarrow> url \<Rightarrow> ip_addr list option \<Rightarrow> http_response option"
  n_protocol_error :: "string \<Rightarrow> bool" \<comment> \<open>the body is an LNURL envelope with status ERROR\<close>
  n_pay_response :: "string \<Rightarrow> lnurl_pay option"
  n_callback_response :: "string \<Rightarrow> string option"

definition lower :: "string \<Rightarrow> string" where
  "lower s = map ascii_lower s"

definition is_alnum :: "char \<Rightarrow> bool" where
  "is_alnum c = (let n = of_char c :: nat in
     (48 \<le> n \<and> n \<le> 57) \<or> (65 \<le> n \<and> n \<le> 90) \<or> (97 \<le> n \<and> n \<le> 122))"

definition user_char :: "char \<Rightarrow> bool" where
  "user_char c \<longleftrightarrow> is_alnum c \<or> c = CHR ''.'' \<or> c = CHR ''_'' \<or> c = CHR ''-'' \<or> c = CHR ''+''"

definition domain_char :: "char \<Rightarrow> bool" where
  "domain_char c \<longleftrightarrow> is_alnum c \<or> c = CHR ''.'' \<or> c = CHR ''-'' \<or> c = CHR '':''"

text \<open>\<open>splitn(2, '@')\<close>: the part before the first \<open>@\<close> and everything after it.\<close>

definition split_at_sign :: "string \<Rightarrow> string \<times> string" where
  "split_at_sign d = (takeWhile (\<lambda>c. c \<noteq> CHR ''@'') d, drop 1 (dropWhile (\<lambda>c. c \<noteq> CHR ''@'') d))"

definition parse_ln_address :: "string \<Rightarrow> resolve_error + dest_form" where
  "parse_ln_address d =
     (case split_at_sign d of (user, dm) \<Rightarrow>
        if user = [] \<or> dm = [] \<or> CHR ''@'' \<in> set dm then Inl (Structural ''malformed Lightning address'')
        else if \<not> list_all user_char user \<or> \<not> list_all domain_char dm
        then Inl (Structural ''malformed Lightning address'')
        else Inr (LnAddress user dm))"

definition decode_lnurl :: "net \<Rightarrow> string \<Rightarrow> resolve_error + string" where
  "decode_lnurl N d =
     (case n_bech32 N d of
        None \<Rightarrow> Inl (Structural ''invalid LNURL bech32'')
      | Some (hrp, bytes) \<Rightarrow>
          if lower hrp \<noteq> ''lnurl'' then Inl (Structural ''LNURL has an unexpected hrp'')
          else if \<not> n_utf8 N bytes then Inl (Structural ''LNURL is not valid UTF-8'')
          else Inr bytes)"

definition detect_form :: "net \<Rightarrow> string \<Rightarrow> resolve_error + dest_form" where
  "detect_form N dest =
     (let d = str_trim dest in
      if d = [] then Inl (Structural ''empty refund destination'')
      else if CHR ''@'' \<in> set d then parse_ln_address d
      else if starts_with ''lnurl'' (lower d) then map_sum id Lnurl (decode_lnurl N d)
      else if starts_with ''lno1'' (lower d) then Inl (Structural (''BOLT12 offers are unsupported '' @ em_dash @ '' use a Lightning address or LNURL''))
      else if n_bolt11 N d \<noteq> None then Inr Bolt11
      else Inl (Structural ''unsupported or malformed refund destination''))"

definition validate_https_url :: "net \<Rightarrow> string \<Rightarrow> resolve_error + unit" where
  "validate_https_url N raw =
     (case n_url N raw of
        None \<Rightarrow> Inl (Structural ''refund destination yields an invalid URL'')
      | Some u \<Rightarrow>
          if u_scheme u \<noteq> ''https'' then Inl (Structural ''refund destination must use HTTPS'')
          else if u_host u = None then Inl (Structural ''refund destination URL has no host'')
          else Inr ())"

definition ln_address_url :: "bool \<Rightarrow> string \<Rightarrow> string \<Rightarrow> string" where
  "ln_address_url allow user dm =
     (if allow then ''http'' else ''https'') @ ''://'' @ dm @ ''/.well-known/lnurlp/'' @ user"

definition validate_dest_format :: "net \<Rightarrow> string \<Rightarrow> resolve_error + unit" where
  "validate_dest_format N dest =
     (case detect_form N dest of
        Inl e \<Rightarrow> Inl e
      | Inr Bolt11 \<Rightarrow> Inr ()
      | Inr (LnAddress user dm) \<Rightarrow> validate_https_url N (''https://'' @ dm @ ''/.well-known/lnurlp/'' @ user)
      | Inr (Lnurl u) \<Rightarrow> validate_https_url N u)"

subsection \<open>The guarded fetch\<close>

definition max_body_bytes :: nat where "max_body_bytes = 64 * 1024"
definition max_redirects :: nat where "max_redirects = 4"
definition min_bolt11_ttl_s :: int where "min_bolt11_ttl_s = 600"

definition ends_with :: "string \<Rightarrow> string \<Rightarrow> bool" where
  "ends_with suffix s = starts_with (rev suffix) (rev s)"

definition validate_url :: "net \<Rightarrow> bool \<Rightarrow> string \<Rightarrow> resolve_error + url" where
  "validate_url N allow raw =
     (case n_url N raw of
        None \<Rightarrow> Inl (Structural ''invalid LNURL URL'')
      | Some u \<Rightarrow>
          if \<not> (u_scheme u = ''https'' \<or> allow \<and> u_scheme u = ''http'')
          then Inl (Structural ''LNURL endpoint must be HTTPS'')
          else (case u_host u of
                  None \<Rightarrow> Inl (Structural ''LNURL URL has no host'')
                | Some (HDomain name) \<Rightarrow>
                    if \<not> allow \<and> (lower name = ''localhost'' \<or> ends_with ''.localhost'' (lower name))
                    then Inl (Structural ''LNURL host is localhost (SSRF guard)'') else Inr u
                | Some (HIp _) \<Rightarrow> Inr u))"

fun ip_blocked :: "ip_addr \<Rightarrow> bool" where
  "ip_blocked (V4 v) = ipv4_blocked v"
| "ip_blocked (V6 v) = ipv6_blocked v"

definition check_ip :: "ip_addr \<Rightarrow> resolve_error + unit" where
  "check_ip ip =
     (if ip_blocked ip then Inl (Structural ''LNURL target resolves to a private/loopback address'') else Inr ())"

text \<open>
  The addresses the request is pinned to: the answer of one DNS lookup for a domain. \<open>None\<close> where there is nothing to
  pin: an address literal, checked here, and the test bypass, where nothing is checked.
\<close>

definition validated_addrs :: "net \<Rightarrow> bool \<Rightarrow> nat \<Rightarrow> url \<Rightarrow> resolve_error + ip_addr list option" where
  "validated_addrs N allow k u =
     (if allow then Inr None
      else (case u_host u of
              None \<Rightarrow> Inl (Structural ''LNURL URL has no host'')
            | Some (HIp ip) \<Rightarrow> map_sum id (\<lambda>_. None) (check_ip ip)
            | Some (HDomain name) \<Rightarrow>
                (case n_dns N k name of
                   None \<Rightarrow> Inl (Transient ''DNS lookup failed or timed out'')
                 | Some [] \<Rightarrow> Inl (Transient ''DNS lookup returned no addresses'')
                 | Some ips \<Rightarrow>
                     (case List.find ip_blocked ips of
                        Some ip \<Rightarrow> map_sum id (\<lambda>_. Some ips) (check_ip ip)
                      | None \<Rightarrow> Inr (Some ips)))))"

definition classify_http_status :: "nat \<Rightarrow> resolve_error" where
  "classify_http_status s =
     (if (500 \<le> s \<and> s < 600) \<or> s = 408 \<or> s = 429 then Transient ''LNURL endpoint status''
      else Structural ''LNURL endpoint status'')"

fun take_chunks :: "string \<Rightarrow> string list \<Rightarrow> resolve_error + string" where
  "take_chunks buf [] = Inr buf"
| "take_chunks buf (c # cs) =
     (if max_body_bytes < length buf + length c then Inl (Transient ''LNURL response exceeded the size cap'')
      else take_chunks (buf @ c) cs)"

definition read_body_capped :: "http_response \<Rightarrow> resolve_error + string" where
  "read_body_capped h =
     (if (case h_length h of None \<Rightarrow> False | Some n \<Rightarrow> max_body_bytes < n)
      then Inl (Transient ''LNURL response too large'')
      else (case h_chunks h of
              None \<Rightarrow> Inl (Transient ''reading LNURL body'')
            | Some cs \<Rightarrow> take_chunks [] cs))"

definition redirect_target :: "net \<Rightarrow> url \<Rightarrow> http_response \<Rightarrow> resolve_error + string" where
  "redirect_target N u h =
     (case h_location h of
        None \<Rightarrow> Inl (Structural ''LNURL redirect has no Location header'')
      | Some loc \<Rightarrow> (case n_join N u loc of
          None \<Rightarrow> Inl (Structural ''invalid LNURL redirect target'')
        | Some t \<Rightarrow> Inr t))"

text \<open>
  The redirect loop of \<open>get_json\<close>, after \<open>k\<close> requests and with \<open>left\<close> redirects left. It also returns every
  request it made: the URL and the addresses it was pinned to.
\<close>

fun fetch_loop :: "net \<Rightarrow> bool \<Rightarrow> nat \<Rightarrow> nat \<Rightarrow> string \<Rightarrow>
    (resolve_error + string) \<times> (url \<times> ip_addr list option) list" where
  "fetch_loop N allow k left cur =
     (case validate_url N allow cur of
        Inl e \<Rightarrow> (Inl e, [])
      | Inr u \<Rightarrow>
          (case validated_addrs N allow k u of
             Inl e \<Rightarrow> (Inl e, [])
           | Inr pin \<Rightarrow>
               (case n_get N k u pin of
                  None \<Rightarrow> (Inl (Transient ''LNURL request failed''), [(u, pin)])
                | Some h \<Rightarrow>
                    if 300 \<le> h_status h \<and> h_status h < 400 then
                      (case left of
                         0 \<Rightarrow> (Inl (Structural ''LNURL fetch exceeded redirects''), [(u, pin)])
                       | Suc n \<Rightarrow>
                           (case redirect_target N u h of
                              Inl e \<Rightarrow> (Inl e, [(u, pin)])
                            | Inr t \<Rightarrow> (case fetch_loop N allow (Suc k) n t of (r, log) \<Rightarrow> (r, (u, pin) # log))))
                    else if \<not> (200 \<le> h_status h \<and> h_status h < 300)
                    then (Inl (classify_http_status (h_status h)), [(u, pin)])
                    else (read_body_capped h, [(u, pin)]))))"

declare fetch_loop.simps [simp del]

definition get_json :: "net \<Rightarrow> bool \<Rightarrow> nat \<Rightarrow> (string \<Rightarrow> 'a option) \<Rightarrow> string \<Rightarrow>
    (resolve_error + 'a) \<times> (url \<times> ip_addr list option) list" where
  "get_json N allow k decode raw =
     (case fetch_loop N allow k max_redirects raw of
        (Inl e, log) \<Rightarrow> (Inl e, log)
      | (Inr body, log) \<Rightarrow>
          if n_protocol_error N body then (Inl (Structural ''LNURL endpoint returned a protocol error''), log)
          else (case decode body of
                  None \<Rightarrow> (Inl (Transient ''invalid LNURL JSON''), log)
                | Some x \<Rightarrow> (Inr x, log)))"

record resolved =
  rs_bolt11 :: string
  rs_expiry :: int

definition validate_invoice :: "net \<Rightarrow> string \<Rightarrow> nat \<Rightarrow> string \<Rightarrow> int \<Rightarrow> resolve_error + resolved" where
  "validate_invoice N pr owed_msat metadata now =
     (case n_bolt11 N pr of
        None \<Rightarrow> Inl (Structural ''LNURL callback returned an unparseable bolt11'')
      | Some b \<Rightarrow>
          if b11_msat b \<noteq> Some owed_msat then Inl (Structural ''bolt11 amount is not the owed amount'')
          else (case b11_hash b of
                  None \<Rightarrow> Inl (Structural ''bolt11 carries a direct description'')
                | Some hx \<Rightarrow>
                    if hx \<noteq> n_digest N metadata then Inl (Structural ''bolt11 description_hash mismatch'')
                    else if b11_expiry b < now + min_bolt11_ttl_s then Inl (Transient ''bolt11 expires too soon'')
                    else Inr \<lparr>rs_bolt11 = pr, rs_expiry = b11_expiry b\<rparr>))"

text \<open>The LNURL-pay exchange with the endpoint: metadata, range check, callback, invoice check.\<close>

definition lnurl_exchange :: "net \<Rightarrow> bool \<Rightarrow> string \<Rightarrow> nat \<Rightarrow> int \<Rightarrow>
    (resolve_error + resolved) \<times> (url \<times> ip_addr list option) list" where
  "lnurl_exchange N allow target owed_msat now =
     (case get_json N allow 0 (n_pay_response N) target of
        (Inl e, log) \<Rightarrow> (Inl e, log)
      | (Inr meta, log) \<Rightarrow>
          if lp_tag meta \<noteq> Some ''payRequest'' then (Inl (Structural ''LNURL response tag is not payRequest''), log)
          else if owed_msat < lp_min meta \<or> lp_max meta < owed_msat
          then (Inl (Structural ''owed amount is outside the LNURL range''), log)
          else (case n_url N (lp_callback meta) of
                  None \<Rightarrow> (Inl (Structural ''invalid LNURL callback''), log)
                | Some cb \<Rightarrow>
                    (case get_json N allow (length log) (n_callback_response N) (n_append N cb (nat_str owed_msat)) of
                       (Inl e, log') \<Rightarrow> (Inl e, log @ log')
                     | (Inr pr, log') \<Rightarrow>
                         (validate_invoice N pr owed_msat (lp_metadata meta) now, log @ log'))))"

definition resolve :: "net \<Rightarrow> bool \<Rightarrow> string \<Rightarrow> nat \<Rightarrow> int \<Rightarrow>
    (resolve_error + resolved) \<times> (url \<times> ip_addr list option) list" where
  "resolve N allow dest owed_msat now =
     (case detect_form N dest of
        Inl e \<Rightarrow> (Inl e, [])
      | Inr Bolt11 \<Rightarrow>
          (case n_bolt11 N dest of
             None \<Rightarrow> (Inl (Structural ''malformed bolt11 refund destination''), [])
           | Some b \<Rightarrow> (Inr \<lparr>rs_bolt11 = dest, rs_expiry = b11_expiry b\<rparr>, []))
      | Inr (LnAddress user dm) \<Rightarrow> lnurl_exchange N allow (ln_address_url allow user dm) owed_msat now
      | Inr (Lnurl u) \<Rightarrow> lnurl_exchange N allow u owed_msat now)"

text \<open>\<open>PassThroughResolver\<close>: the raw destination, without an expiry.\<close>

definition pass_through :: "string \<Rightarrow> resolved" where
  "pass_through dest = \<lparr>rs_bolt11 = dest, rs_expiry = 2 ^ 63 - 1\<rparr>"

subsection \<open>The blocked ranges\<close>

lemma and_high:
  fixes b :: "'a::len word"
  shows "b AND NOT (mask k) = push_bit k (drop_bit k b)"
  by (rule bit_word_eqI) (auto simp: bit_simps)

lemma and_high_eq:
  fixes b c :: "'a::len word"
  assumes "drop_bit k (push_bit k c) = c"
  shows "b AND NOT (mask k) = push_bit k c \<longleftrightarrow> unat b div 2 ^ k = unat c"
proof -
  have "drop_bit k (push_bit k (drop_bit k b)) = drop_bit k b"
    by (rule bit_word_eqI) (auto simp: bit_simps dest: bit_imp_le_length)
  then have "b AND NOT (mask k) = push_bit k c \<longleftrightarrow> drop_bit k b = c"
    unfolding and_high using assms by metis
  also have "\<dots> \<longleftrightarrow> unat (drop_bit k b) = unat c" by (metis unsigned_word_eqI)
  also have "unat (drop_bit k b) = drop_bit k (unat b)" by (rule unat_drop_bit_eq)
  also have "drop_bit k (unat b) = unat b div 2 ^ k" by (rule drop_bit_eq_div)
  finally show ?thesis .
qed

lemma and_fe: "(b AND 0xFE = (18 :: 8 word)) \<longleftrightarrow> unat b div 2 = 9"
proof -
  have e: "NOT (mask 1) = (0xFE :: 8 word)" "push_bit 1 9 = (18 :: 8 word)" by code_simp+
  have "drop_bit 1 (push_bit 1 9) = (9 :: 8 word)" by code_simp
  from and_high_eq [OF this, of b, unfolded e] show ?thesis by simp
qed

lemma and_c0: "(b AND 0xC0 = (64 :: 8 word)) \<longleftrightarrow> unat b div 64 = 1"
proof -
  have e: "NOT (mask 6) = (0xC0 :: 8 word)" "push_bit 6 1 = (64 :: 8 word)" by code_simp+
  have "drop_bit 6 (push_bit 6 1) = (1 :: 8 word)" by code_simp
  from and_high_eq [OF this, of b, unfolded e] show ?thesis by simp
qed

lemma byte_eq: "b = (c :: 8 word) \<longleftrightarrow> unat b = unat c"
  by (metis unsigned_word_eqI)

lemma digit_split: "q < k \<Longrightarrow> a * k + q = m \<longleftrightarrow> a = m div k \<and> q = (m :: nat) mod k"
  by auto

lemma blocked_nat:
  fixes a b c :: nat
  assumes "a < 256" "b < 256" "c < 256"
  shows "(a = 10 \<or> (a = 172 \<and> 16 \<le> b \<and> b \<le> 31) \<or> (a = 192 \<and> b = 168)) \<or> a = 127 \<or> (a = 169 \<and> b = 254) \<or>
     ((a = 192 \<and> b = 0 \<and> c = 2) \<or> (a = 198 \<and> b = 51 \<and> c = 100) \<or> (a = 203 \<and> b = 0 \<and> c = 113)) \<or>
     (224 \<le> a \<and> a \<le> 239) \<or> a = 0 \<or> (a = 100 \<and> b div 64 = 1) \<or> (a = 192 \<and> b = 0 \<and> c = 0) \<or>
     (a = 198 \<and> b div 2 = 9) \<or> 240 \<le> a
   \<longleftrightarrow> a = 0 \<or> a = 10 \<or> a * 4 + b div 64 = 401 \<or> a = 127 \<or> a * 256 + b = 43518 \<or> a * 16 + b div 16 = 2753 \<or>
     (a * 256 + b) * 256 + c = 12582912 \<or> (a * 256 + b) * 256 + c = 12582914 \<or> a * 256 + b = 49320 \<or>
     a * 128 + b div 2 = 25353 \<or> (a * 256 + b) * 256 + c = 12989284 \<or> (a * 256 + b) * 256 + c = 13303921 \<or>
     a div 16 = 14 \<or> a div 16 = 15"
proof -
  have q: "b div 64 < 4" "b div 16 < 16" "b div 2 < 128" using assms by simp_all
  have "a * 4 + b div 64 = 401 \<longleftrightarrow> a = 100 \<and> b div 64 = 1" "a * 256 + b = 43518 \<longleftrightarrow> a = 169 \<and> b = 254"
    "a * 16 + b div 16 = 2753 \<longleftrightarrow> a = 172 \<and> b div 16 = 1" "a * 256 + b = 49320 \<longleftrightarrow> a = 192 \<and> b = 168"
    "a * 128 + b div 2 = 25353 \<longleftrightarrow> a = 198 \<and> b div 2 = 9"
    using digit_split [OF q(1), of a] digit_split [OF q(2), of a] digit_split [OF q(3), of a]
      digit_split [OF assms(2), of a] by simp_all
  note e1 = this
  have "(a * 256 + b) * 256 + c = 12582912 \<longleftrightarrow> a = 192 \<and> b = 0 \<and> c = 0"
    "(a * 256 + b) * 256 + c = 12582914 \<longleftrightarrow> a = 192 \<and> b = 0 \<and> c = 2"
    "(a * 256 + b) * 256 + c = 12989284 \<longleftrightarrow> a = 198 \<and> b = 51 \<and> c = 100"
    "(a * 256 + b) * 256 + c = 13303921 \<longleftrightarrow> a = 203 \<and> b = 0 \<and> c = 113"
    unfolding digit_split [OF assms(3)] digit_split [OF assms(2)] by simp_all
  note e2 = this
  have "b div 16 = 1 \<longleftrightarrow> 16 \<le> b \<and> b \<le> 31" "a div 16 = 14 \<longleftrightarrow> 224 \<le> a \<and> a \<le> 239"
    "a div 16 = 15 \<longleftrightarrow> 240 \<le> a" using assms by auto
  note e3 = this
  show ?thesis unfolding e1 e2 e3 by (rule iffI; elim disjE conjE; simp)
qed

text \<open>The special-use blocks, as a base address and a prefix length.\<close>

fun v4_value :: "ipv4 \<Rightarrow> nat" where
  "v4_value (IPv4 a b c d) = ((unat a * 256 + unat b) * 256 + unat c) * 256 + unat d"

definition cidr :: "nat \<Rightarrow> nat \<Rightarrow> nat \<Rightarrow> nat \<Rightarrow> nat \<Rightarrow> nat \<times> nat" where
  "cidr a b c d len = (((a * 256 + b) * 256 + c) * 256 + d, len)"

definition in_cidr :: "nat \<times> nat \<Rightarrow> nat \<Rightarrow> bool" where
  "in_cidr n x = (x div 2 ^ (32 - snd n) = fst n div 2 ^ (32 - snd n))"

definition special_use :: "(nat \<times> nat) list" where
  "special_use =
     [cidr 0 0 0 0 8, cidr 10 0 0 0 8, cidr 100 64 0 0 10, cidr 127 0 0 0 8, cidr 169 254 0 0 16,
      cidr 172 16 0 0 12, cidr 192 0 0 0 24, cidr 192 0 2 0 24, cidr 192 168 0 0 16,
      cidr 198 18 0 0 15, cidr 198 51 100 0 24, cidr 203 0 113 0 24, cidr 224 0 0 0 4, cidr 240 0 0 0 4]"

lemma nat_blocked:
  fixes a b c d :: nat
  assumes "a < 256" "b < 256" "c < 256" "d < 256"
  defines "x \<equiv> ((a * 256 + b) * 256 + c) * 256 + d"
  shows "x div 16777216 = a" "x div 65536 = a * 256 + b" "x div 256 = (a * 256 + b) * 256 + c"
    "x div 268435456 = a div 16" "x div 4194304 = a * 4 + b div 64" "x div 1048576 = a * 16 + b div 16"
    "x div 131072 = a * 128 + b div 2"
  using assms(1-4) unfolding x_def by simp_all

text \<open>
  The guard's octet tests are exactly the special-use registry: an IPv4 address is blocked if and
  only if it lies in one of the fourteen CIDR blocks (this-network, private, shared, loopback,
  link-local, protocol assignments, documentation, benchmarking, multicast, reserved).
\<close>

theorem ipv4_blocked_is_special_use:
  "ipv4_blocked v \<longleftrightarrow> (\<exists>n\<in>set special_use. in_cidr n (v4_value v))"
proof (cases v)
  case (IPv4 a b c d)
  have bound: "unat w < 256" for w :: "8 word" using unsigned_less [of w] by simp
  define x where "x = v4_value v"
  have divs: "x div 16777216 = unat a" "x div 65536 = unat a * 256 + unat b"
    "x div 256 = (unat a * 256 + unat b) * 256 + unat c" "x div 268435456 = unat a div 16"
    "x div 4194304 = unat a * 4 + unat b div 64" "x div 1048576 = unat a * 16 + unat b div 16"
    "x div 131072 = unat a * 128 + unat b div 2"
    unfolding x_def IPv4 v4_value.simps by (rule nat_blocked [OF bound bound bound bound])+
  have masks: "unat (b AND 0xFE) = 18 \<longleftrightarrow> unat b div 2 = 9" "unat (b AND 0xC0) = 64 \<longleftrightarrow> unat b div 64 = 1"
    using and_fe [of b] and_c0 [of b] by (simp_all add: byte_eq)
  have "ipv4_blocked v \<longleftrightarrow> unat a = 0 \<or> unat a = 10 \<or> unat a * 4 + unat b div 64 = 401 \<or> unat a = 127 \<or>
     unat a * 256 + unat b = 43518 \<or> unat a * 16 + unat b div 16 = 2753 \<or>
     (unat a * 256 + unat b) * 256 + unat c = 12582912 \<or> (unat a * 256 + unat b) * 256 + unat c = 12582914 \<or>
     unat a * 256 + unat b = 49320 \<or> unat a * 128 + unat b div 2 = 25353 \<or>
     (unat a * 256 + unat b) * 256 + unat c = 12989284 \<or> (unat a * 256 + unat b) * 256 + unat c = 13303921 \<or>
     unat a div 16 = 14 \<or> unat a div 16 = 15"
    unfolding blocked_nat [OF bound bound bound, of a b c, symmetric] IPv4
    by (simp add: masks byte_eq word_le_nat_alt) (rule iffI; elim disjE conjE; simp)
  also have "\<dots> \<longleftrightarrow> (\<exists>n\<in>set special_use. in_cidr n x)"
    by (simp add: special_use_def cidr_def in_cidr_def divs)
  finally show ?thesis by (simp add: x_def)
qed

lemma blocked_embedding:
  assumes "embedded_ipv4 v6 = Some v4" "ipv4_blocked v4"
  shows "ipv6_blocked v6"
  using assms by (cases v6) (simp del: embedded_ipv4.simps v6_is_loopback.simps v6_is_unspecified.simps
      v6_is_multicast.simps)

lemma v4_of_segs_split: "v4_of_segs (word_cat a b) (word_cat c d) = IPv4 a b c d"
proof -
  have "ucast (drop_bit 8 (word_cat x y :: 16 word)) = x" "ucast (word_cat x y :: 16 word) = y" for x y :: "8 word"
    by (rule bit_word_eqI; simp add: bit_simps bit_word_cat_iff)+
  then show ?thesis by (simp add: v4_of_segs_def)
qed

lemma embeddings_blocked:
  assumes "ipv4_blocked (IPv4 a b c d)"
  shows "ipv6_blocked (IPv6 0 0 0 0 0 0xFFFF (word_cat a b) (word_cat c d))"
    and "ipv6_blocked (IPv6 0 0 0 0 0 0 (word_cat a b) (word_cat c d))"
    and "ipv6_blocked (IPv6 0x64 0xFF9B 0 0 0 0 (word_cat a b) (word_cat c d))"
    and "ipv6_blocked (IPv6 0x2002 (word_cat a b) (word_cat c d) s3 s4 s5 s6 s7)"
    and "ipv6_blocked (IPv6 0x2001 0 t2 t3 t4 t5 (word_cat a b XOR 0xFFFF) (word_cat c d XOR 0xFFFF))"
proof -
  have x: "(w XOR 0xFFFF) XOR 0xFFFF = w" for w :: "16 word" by (simp add: xor.assoc)
  show "ipv6_blocked (IPv6 0 0 0 0 0 0xFFFF (word_cat a b) (word_cat c d))"
    by (rule blocked_embedding [OF _ assms]) (simp add: v4_of_segs_split)
  show "ipv6_blocked (IPv6 0 0 0 0 0 0 (word_cat a b) (word_cat c d))"
  proof (cases "word_cat a b = (0 :: 16 word) \<and> word_cat c d = (0 :: 16 word)")
    case True
    then show ?thesis by simp
  next
    case False
    then show ?thesis by (intro blocked_embedding [OF _ assms]) (auto simp: v4_of_segs_split)
  qed
  show "ipv6_blocked (IPv6 0x64 0xFF9B 0 0 0 0 (word_cat a b) (word_cat c d))"
    by (rule blocked_embedding [OF _ assms]) (simp add: v4_of_segs_split)
  show "ipv6_blocked (IPv6 0x2002 (word_cat a b) (word_cat c d) s3 s4 s5 s6 s7)"
    by (rule blocked_embedding [OF _ assms]) (simp add: v4_of_segs_split)
  show "ipv6_blocked (IPv6 0x2001 0 t2 t3 t4 t5 (word_cat a b XOR 0xFFFF) (word_cat c d XOR 0xFFFF))"
    by (rule blocked_embedding [OF _ assms]) (simp add: x v4_of_segs_split)
qed

text \<open>
  An internal IPv4 address cannot be smuggled through IPv6: whenever an IPv4 address is blocked,
  its mapped, compatible, NAT64, 6to4 and Teredo embeddings are blocked as IPv6 addresses, whatever
  the remaining bits of the address are.
\<close>

theorem ipv6_embeddings_blocked:
  assumes "ipv4_blocked (IPv4 a b c d)"
  shows "ipv6_blocked (IPv6 0 0 0 0 0 0xFFFF (word_cat a b) (word_cat c d)) \<and>
         ipv6_blocked (IPv6 0 0 0 0 0 0 (word_cat a b) (word_cat c d)) \<and>
         ipv6_blocked (IPv6 0x64 0xFF9B 0 0 0 0 (word_cat a b) (word_cat c d)) \<and>
         ipv6_blocked (IPv6 0x2002 (word_cat a b) (word_cat c d) s3 s4 s5 s6 s7) \<and>
         ipv6_blocked (IPv6 0x2001 0 t2 t3 t4 t5 (word_cat a b XOR 0xFFFF) (word_cat c d XOR 0xFFFF))"
  by (intro conjI embeddings_blocked [OF assms])

theorem ipv6_embeddings_blocked_witness:
  "ipv6_blocked (IPv6 0x2002 (word_cat (10 :: 8 word) (0 :: 8 word)) (word_cat (0 :: 8 word) (1 :: 8 word)) 0 0 0 0 1)"
  using ipv6_embeddings_blocked [of 10 0 0 1 0 0 0 0 1] by simp

text \<open>
  The guard's policy on IPv6, stated on the address as a number: six blocks of special addresses, and five transition forms, each of
  which carries an IPv4 address. Other special-use blocks (documentation, discard-only, the local NAT64 prefix) are not refused.
\<close>

fun v6_value :: "ipv6 \<Rightarrow> nat" where
  "v6_value (IPv6 a b c d e f g h) = foldl (\<lambda>x w. x * 65536 + unat w) 0 [a, b, c, d, e, f, g, h]"

definition in_cidr6 :: "nat \<times> nat \<Rightarrow> nat \<Rightarrow> bool" where
  "in_cidr6 n x = (x div 2 ^ (128 - snd n) = fst n div 2 ^ (128 - snd n))"

text \<open>\<open>::/128\<close>, \<open>::1/128\<close>, \<open>ff00::/8\<close>, \<open>fc00::/7\<close>, \<open>fe80::/10\<close>, \<open>fec0::/10\<close>.\<close>

definition special_use6 :: "(nat \<times> nat) list" where
  "special_use6 = [(0, 128), (1, 128), (0xFF00 * 2 ^ 112, 8), (0xFC00 * 2 ^ 112, 7), (0xFE80 * 2 ^ 112, 10), (0xFEC0 * 2 ^ 112, 10)]"

text \<open>
  \<open>::ffff:0:0/96\<close>, \<open>::/96\<close> and \<open>64:ff9b::/96\<close> carry their low 32 bits, \<open>2002::/16\<close> the 32 bits after the prefix,
  \<open>2001::/32\<close> the complement of its low 32 bits.
\<close>

definition carried_ipv4 :: "nat \<Rightarrow> nat list" where
  "carried_ipv4 x =
     (if in_cidr6 (0xFFFF * 2 ^ 32, 96) x \<or> in_cidr6 (0, 96) x \<or> in_cidr6 (0x64FF9B * 2 ^ 96, 96) x then [x mod 2 ^ 32] else []) @
     (if in_cidr6 (0x2002 * 2 ^ 112, 16) x then [x div 2 ^ 80 mod 2 ^ 32] else []) @
     (if in_cidr6 (0x2001 * 2 ^ 112, 32) x then [2 ^ 32 - 1 - x mod 2 ^ 32] else [])"

definition internal_ipv4 :: "nat \<Rightarrow> bool" where
  "internal_ipv4 x \<longleftrightarrow> (\<exists>n\<in>set special_use. in_cidr n x)"

fun internal_addr :: "ip_addr \<Rightarrow> bool" where
  "internal_addr (V4 v) \<longleftrightarrow> internal_ipv4 (v4_value v)"
| "internal_addr (V6 v) \<longleftrightarrow> (\<exists>n\<in>set special_use6. in_cidr6 n (v6_value v)) \<or> (\<exists>x\<in>set (carried_ipv4 (v6_value v)). internal_ipv4 x)"

lemma seg_bound: "unat (w :: 16 word) < 65536"
  using unsigned_less [of w] by simp

lemma seg_eq: "a = (c :: 16 word) \<longleftrightarrow> unat a = unat c"
  by (metis unsigned_word_eqI)

lemma v4_of_segs_value: "v4_value (v4_of_segs hi lo) = unat hi * 65536 + unat lo"
proof -
  have "unat (ucast (drop_bit 8 w) :: 8 word) = unat w div 256" "unat (ucast w :: 8 word) = unat w mod 256" for w :: "16 word"
    using seg_bound [of w] unfolding unsigned_ucast_eq unat_drop_bit_eq
    by (simp_all add: take_bit_eq_mod drop_bit_eq_div)
  then show ?thesis by (simp add: v4_of_segs_def)
qed

lemma seg_flip: "unat (w XOR 0xFFFF) = 65535 - unat (w :: 16 word)"
proof -
  have one: "(0xFFFF :: 16 word) = - 1" by simp
  have "w XOR 0xFFFF = NOT w" unfolding one by (rule bit.xor_one_right)
  also have "NOT w = - 1 - w" by (simp add: not_eq_complement)
  finally have "w XOR 0xFFFF = - 1 - w" .
  moreover have "unat (- 1 - w) = unat (- 1 :: 16 word) - unat w" by (rule unat_sub) simp
  ultimately show ?thesis by (simp add: unsigned_minus_1_eq_mask mask_eq_exp_minus_1)
qed

lemma seg_masks:
  fixes a :: "16 word"
  shows "a AND 0xFF00 = 0xFF00 \<longleftrightarrow> unat a div 256 = 255" "a AND 0xFE00 = 0xFC00 \<longleftrightarrow> unat a div 512 = 126"
    "a AND 0xFFC0 = 0xFE80 \<longleftrightarrow> unat a div 64 = 1018" "a AND 0xFFC0 = 0xFEC0 \<longleftrightarrow> unat a div 64 = 1019"
proof -
  have e: "NOT (mask 8) = (0xFF00 :: 16 word)" "push_bit 8 255 = (0xFF00 :: 16 word)" "drop_bit 8 (push_bit 8 255) = (255 :: 16 word)"
    "NOT (mask 9) = (0xFE00 :: 16 word)" "push_bit 9 126 = (0xFC00 :: 16 word)" "drop_bit 9 (push_bit 9 126) = (126 :: 16 word)"
    "NOT (mask 6) = (0xFFC0 :: 16 word)" "push_bit 6 1018 = (0xFE80 :: 16 word)" "drop_bit 6 (push_bit 6 1018) = (1018 :: 16 word)"
    "push_bit 6 1019 = (0xFEC0 :: 16 word)" "drop_bit 6 (push_bit 6 1019) = (1019 :: 16 word)" by code_simp+
  show "a AND 0xFF00 = 0xFF00 \<longleftrightarrow> unat a div 256 = 255" using and_high_eq [OF e(3), of a, unfolded e(1,2)] by simp
  show "a AND 0xFE00 = 0xFC00 \<longleftrightarrow> unat a div 512 = 126" using and_high_eq [OF e(6), of a, unfolded e(4,5)] by simp
  show "a AND 0xFFC0 = 0xFE80 \<longleftrightarrow> unat a div 64 = 1018" using and_high_eq [OF e(9), of a, unfolded e(7,8)] by simp
  show "a AND 0xFFC0 = 0xFEC0 \<longleftrightarrow> unat a div 64 = 1019" using and_high_eq [OF e(11), of a, unfolded e(7,10)] by simp
qed

lemma segments:
  fixes a b c d e f g h :: nat
  assumes "a < 65536" "b < 65536" "c < 65536" "d < 65536" "e < 65536" "f < 65536" "g < 65536" "h < 65536"
  defines "x \<equiv> ((((((a * 65536 + b) * 65536 + c) * 65536 + d) * 65536 + e) * 65536 + f) * 65536 + g) * 65536 + h"
  shows "x div 2 ^ 120 = a div 256" "x div 2 ^ 121 = a div 512" "x div 2 ^ 118 = a div 64" "x div 2 ^ 112 = a"
    "x div 2 ^ 96 = a * 65536 + b" "x div 2 ^ 80 mod 2 ^ 32 = b * 65536 + c"
    "x div 2 ^ 32 = ((((a * 65536 + b) * 65536 + c) * 65536 + d) * 65536 + e) * 65536 + f" "x mod 2 ^ 32 = g * 65536 + h"
proof -
  show "x div 2 ^ 120 = a div 256" "x div 2 ^ 121 = a div 512" "x div 2 ^ 118 = a div 64" "x div 2 ^ 112 = a"
    "x div 2 ^ 96 = a * 65536 + b"
    "x div 2 ^ 32 = ((((a * 65536 + b) * 65536 + c) * 65536 + d) * 65536 + e) * 65536 + f"
    using assms(1-8) unfolding x_def by simp_all
  have low: "(y * 2 ^ 32 + (u * 65536 + v)) mod 2 ^ 32 = u * 65536 + v" if "u < 65536" "v < 65536" for y u v :: nat
    using that by simp
  have "x div 2 ^ 80 = a * 2 ^ 32 + (b * 65536 + c)" using assms(1-8) unfolding x_def by simp
  with low [OF assms(2,3)] show "x div 2 ^ 80 mod 2 ^ 32 = b * 65536 + c" by simp
  have "x = (((((a * 65536 + b) * 65536 + c) * 65536 + d) * 65536 + e) * 65536 + f) * 2 ^ 32 + (g * 65536 + h)"
    unfolding x_def by simp
  with low [OF assms(7,8)] show "x mod 2 ^ 32 = g * 65536 + h" by presburger
qed

subsection \<open>What the resolver contacts and returns\<close>

lemma ipv4_blocked_internal: "ipv4_blocked v \<longleftrightarrow> internal_ipv4 (v4_value v)"
  unfolding internal_ipv4_def by (rule ipv4_blocked_is_special_use)

text \<open>The prefix tests on the number are the tests on the segments.\<close>

lemma prefix_tests:
  fixes a b c d e f g h :: nat
  assumes "a < 65536" "b < 65536" "c < 65536" "d < 65536" "e < 65536" "f < 65536" "g < 65536" "h < 65536"
  defines "x \<equiv> ((((((a * 65536 + b) * 65536 + c) * 65536 + d) * 65536 + e) * 65536 + f) * 65536 + g) * 65536 + h"
  shows "in_cidr6 (0, 128) x \<longleftrightarrow> a = 0 \<and> b = 0 \<and> c = 0 \<and> d = 0 \<and> e = 0 \<and> f = 0 \<and> g = 0 \<and> h = 0"
    "in_cidr6 (1, 128) x \<longleftrightarrow> a = 0 \<and> b = 0 \<and> c = 0 \<and> d = 0 \<and> e = 0 \<and> f = 0 \<and> g = 0 \<and> h = 1"
    "in_cidr6 (0xFF00 * 2 ^ 112, 8) x \<longleftrightarrow> a div 256 = 255" "in_cidr6 (0xFC00 * 2 ^ 112, 7) x \<longleftrightarrow> a div 512 = 126"
    "in_cidr6 (0xFE80 * 2 ^ 112, 10) x \<longleftrightarrow> a div 64 = 1018" "in_cidr6 (0xFEC0 * 2 ^ 112, 10) x \<longleftrightarrow> a div 64 = 1019"
    "in_cidr6 (0xFFFF * 2 ^ 32, 96) x \<longleftrightarrow> a = 0 \<and> b = 0 \<and> c = 0 \<and> d = 0 \<and> e = 0 \<and> f = 65535"
    "in_cidr6 (0, 96) x \<longleftrightarrow> a = 0 \<and> b = 0 \<and> c = 0 \<and> d = 0 \<and> e = 0 \<and> f = 0"
    "in_cidr6 (0x64FF9B * 2 ^ 96, 96) x \<longleftrightarrow> a = 0x64 \<and> b = 0xFF9B \<and> c = 0 \<and> d = 0 \<and> e = 0 \<and> f = 0"
    "in_cidr6 (0x2002 * 2 ^ 112, 16) x \<longleftrightarrow> a = 0x2002" "in_cidr6 (0x2001 * 2 ^ 112, 32) x \<longleftrightarrow> a = 0x2001 \<and> b = 0"
proof -
  note seg = segments [OF assms(1-8), folded x_def]
  note split = digit_split [OF assms(2)] digit_split [OF assms(3)] digit_split [OF assms(4)] digit_split [OF assms(5)]
    digit_split [OF assms(6)] digit_split [OF assms(7)] digit_split [OF assms(8)]
  show "in_cidr6 (0xFF00 * 2 ^ 112, 8) x \<longleftrightarrow> a div 256 = 255" "in_cidr6 (0xFC00 * 2 ^ 112, 7) x \<longleftrightarrow> a div 512 = 126"
    "in_cidr6 (0xFE80 * 2 ^ 112, 10) x \<longleftrightarrow> a div 64 = 1018" "in_cidr6 (0xFEC0 * 2 ^ 112, 10) x \<longleftrightarrow> a div 64 = 1019"
    "in_cidr6 (0x2002 * 2 ^ 112, 16) x \<longleftrightarrow> a = 0x2002"
    using seg(1-4) by (simp_all add: in_cidr6_def)
  show "in_cidr6 (0x2001 * 2 ^ 112, 32) x \<longleftrightarrow> a = 0x2001 \<and> b = 0"
    using seg(5) by (simp add: in_cidr6_def split)
  show "in_cidr6 (0xFFFF * 2 ^ 32, 96) x \<longleftrightarrow> a = 0 \<and> b = 0 \<and> c = 0 \<and> d = 0 \<and> e = 0 \<and> f = 65535"
    "in_cidr6 (0, 96) x \<longleftrightarrow> a = 0 \<and> b = 0 \<and> c = 0 \<and> d = 0 \<and> e = 0 \<and> f = 0"
    "in_cidr6 (0x64FF9B * 2 ^ 96, 96) x \<longleftrightarrow> a = 0x64 \<and> b = 0xFF9B \<and> c = 0 \<and> d = 0 \<and> e = 0 \<and> f = 0"
  proof -
    have top: "x div 2 ^ 32 = 65535 \<longleftrightarrow> a = 0 \<and> b = 0 \<and> c = 0 \<and> d = 0 \<and> e = 0 \<and> f = 65535"
      "x div 2 ^ 32 = 0 \<longleftrightarrow> a = 0 \<and> b = 0 \<and> c = 0 \<and> d = 0 \<and> e = 0 \<and> f = 0"
      "x div 2 ^ 32 = 122099644659926101980610560 \<longleftrightarrow> a = 0x64 \<and> b = 0xFF9B \<and> c = 0 \<and> d = 0 \<and> e = 0 \<and> f = 0"
      unfolding seg(7) split by simp_all
    show "in_cidr6 (0xFFFF * 2 ^ 32, 96) x \<longleftrightarrow> a = 0 \<and> b = 0 \<and> c = 0 \<and> d = 0 \<and> e = 0 \<and> f = 65535"
      "in_cidr6 (0, 96) x \<longleftrightarrow> a = 0 \<and> b = 0 \<and> c = 0 \<and> d = 0 \<and> e = 0 \<and> f = 0"
      "in_cidr6 (0x64FF9B * 2 ^ 96, 96) x \<longleftrightarrow> a = 0x64 \<and> b = 0xFF9B \<and> c = 0 \<and> d = 0 \<and> e = 0 \<and> f = 0"
      using top by (simp_all add: in_cidr6_def)
  qed
  show "in_cidr6 (0, 128) x \<longleftrightarrow> a = 0 \<and> b = 0 \<and> c = 0 \<and> d = 0 \<and> e = 0 \<and> f = 0 \<and> g = 0 \<and> h = 0"
    "in_cidr6 (1, 128) x \<longleftrightarrow> a = 0 \<and> b = 0 \<and> c = 0 \<and> d = 0 \<and> e = 0 \<and> f = 0 \<and> g = 0 \<and> h = 1"
  proof -
    have all: "x = 0 \<longleftrightarrow> a = 0 \<and> b = 0 \<and> c = 0 \<and> d = 0 \<and> e = 0 \<and> f = 0 \<and> g = 0 \<and> h = 0"
      "x = 1 \<longleftrightarrow> a = 0 \<and> b = 0 \<and> c = 0 \<and> d = 0 \<and> e = 0 \<and> f = 0 \<and> g = 0 \<and> h = 1"
      unfolding x_def split by simp_all
    show "in_cidr6 (0, 128) x \<longleftrightarrow> a = 0 \<and> b = 0 \<and> c = 0 \<and> d = 0 \<and> e = 0 \<and> f = 0 \<and> g = 0 \<and> h = 0"
      "in_cidr6 (1, 128) x \<longleftrightarrow> a = 0 \<and> b = 0 \<and> c = 0 \<and> d = 0 \<and> e = 0 \<and> f = 0 \<and> g = 0 \<and> h = 1"
      using all by (simp_all add: in_cidr6_def)
  qed
qed

lemma ip_blocked_internal: "ip_blocked ip \<longleftrightarrow> internal_addr ip"
proof (cases ip)
  case (V4 v)
  then show ?thesis by (simp add: ipv4_blocked_internal)
next
  case (V6 v)
  obtain a b c d e f g h where v: "v = IPv6 a b c d e f g h" by (cases v)
  define x where "x = v6_value v"
  have x: "x = ((((((unat a * 65536 + unat b) * 65536 + unat c) * 65536 + unat d) * 65536 + unat e) * 65536 + unat f) * 65536 + unat g) * 65536 + unat h"
    by (simp add: v x_def)
  note b8 = seg_bound [of a] seg_bound [of b] seg_bound [of c] seg_bound [of d] seg_bound [of e] seg_bound [of f] seg_bound [of g] seg_bound [of h]
  note tests = prefix_tests [OF b8, folded x] and parts = segments(6,8) [OF b8, folded x]
  have zeros: "0 = unat w \<longleftrightarrow> w = 0" "unat w = 0 \<longleftrightarrow> w = 0" for w :: "16 word" by (auto simp: seg_eq)
  have nums: "unat w = 1 \<longleftrightarrow> w = 1" "unat w = 65535 \<longleftrightarrow> w = 0xFFFF" "unat w = 0x64 \<longleftrightarrow> w = 0x64" "unat w = 0xFF9B \<longleftrightarrow> w = 0xFF9B"
    "unat w = 0x2002 \<longleftrightarrow> w = 0x2002" "unat w = 0x2001 \<longleftrightarrow> w = 0x2001" for w :: "16 word" by (simp_all add: seg_eq)
  have flip: "2 ^ 32 - 1 - (unat g * 65536 + unat h) = (65535 - unat g) * 65536 + (65535 - unat h)" using b8(7,8) by simp
  have special: "(\<exists>n\<in>set special_use6. in_cidr6 n x) \<longleftrightarrow> v6_is_loopback v \<or> v6_is_unspecified v \<or> v6_is_multicast v \<or>
      a AND 0xFE00 = 0xFC00 \<or> a AND 0xFFC0 = 0xFE80 \<or> a AND 0xFFC0 = 0xFEC0"
    unfolding special_use6_def list.set bex_simps tests seg_masks v v6_is_loopback.simps v6_is_unspecified.simps v6_is_multicast.simps zeros nums
    by blast
  have in_optional: "(\<exists>y\<in>set (if c then [z] else []). internal_ipv4 y) \<longleftrightarrow> c \<and> internal_ipv4 z" for c z by simp
  let ?B = "\<lambda>hi lo. ipv4_blocked (v4_of_segs hi lo)"
  have blocked: "internal_ipv4 (unat hi * 65536 + unat lo) \<longleftrightarrow> ?B hi lo" for hi lo
    by (simp add: ipv4_blocked_internal v4_of_segs_value)
  have carried: "(\<exists>y\<in>set (carried_ipv4 x). internal_ipv4 y) \<longleftrightarrow>
      (a = 0 \<and> b = 0 \<and> c = 0 \<and> d = 0 \<and> e = 0 \<and> f = 0xFFFF \<or> a = 0 \<and> b = 0 \<and> c = 0 \<and> d = 0 \<and> e = 0 \<and> f = 0 \<or>
       a = 0x64 \<and> b = 0xFF9B \<and> c = 0 \<and> d = 0 \<and> e = 0 \<and> f = 0) \<and> ?B g h \<or>
      a = 0x2002 \<and> ?B b c \<or> a = 0x2001 \<and> b = 0 \<and> ?B (g XOR 0xFFFF) (h XOR 0xFFFF)"
    unfolding carried_ipv4_def tests parts flip zeros nums seg_flip [symmetric] set_append bex_Un in_optional blocked
    by blast
  have low: "?B 0 0" by (simp add: v4_of_segs_def)
  have "ip_blocked ip \<longleftrightarrow> (\<exists>n\<in>set special_use6. in_cidr6 n x) \<or> (\<exists>y\<in>set (carried_ipv4 x). internal_ipv4 y)"
    unfolding special carried using low by (auto simp: V6 v)
  then show ?thesis by (simp add: V6 x_def)
qed

text \<open>
  A request the guard lets out, the \<open>k\<close>-th: HTTPS, to a domain that is not localhost and pinned to the answer of one lookup,
  none of it internal, or to an address literal that is not internal.
\<close>

definition guarded :: "net \<Rightarrow> nat \<Rightarrow> url \<times> ip_addr list option \<Rightarrow> bool" where
  "guarded N k q \<longleftrightarrow>
     u_scheme (fst q) = ''https'' \<and>
     (case u_host (fst q) of
        Some (HDomain name) \<Rightarrow> lower name \<noteq> ''localhost'' \<and> \<not> ends_with ''.localhost'' (lower name) \<and>
          (\<exists>ips. snd q = Some ips \<and> n_dns N k name = Some ips \<and> ips \<noteq> [] \<and> (\<forall>ip\<in>set ips. \<not> internal_addr ip))
      | Some (HIp ip) \<Rightarrow> snd q = None \<and> \<not> internal_addr ip
      | None \<Rightarrow> False)"

lemma guarded_request:
  assumes "validate_url N False raw = Inr u" "validated_addrs N False k u = Inr pin"
  shows "guarded N k (u, pin)"
proof -
  from assms(1) have s: "u_scheme u = ''https''" by (auto simp: validate_url_def split: option.splits if_splits host.splits)
  show ?thesis
  proof (cases "u_host u")
    case None
    with assms(2) show ?thesis by (simp add: validated_addrs_def)
  next
    case (Some h)
    show ?thesis
    proof (cases h)
      case (HIp ip)
      with Some s assms(2) show ?thesis
        by (auto simp: guarded_def validated_addrs_def check_ip_def ip_blocked_internal split: if_splits)
    next
      case (HDomain name)
      with Some assms(1) have "lower name \<noteq> ''localhost''" "\<not> ends_with ''.localhost'' (lower name)"
        by (auto simp: validate_url_def split: option.splits if_splits host.splits)
      moreover from HDomain Some assms(2) obtain ip ips where d: "n_dns N k name = Some (ip # ips)"
        by (auto simp: validated_addrs_def split: option.splits list.splits)
      moreover from HDomain Some assms(2) d have "List.find ip_blocked (ip # ips) = None" "pin = Some (ip # ips)"
        by (auto simp: validated_addrs_def check_ip_def split: option.splits if_splits dest: find_Some_mem)
      moreover from this(1) have "\<forall>q\<in>set (ip # ips). \<not> ip_blocked q" by (simp only: find_None_all)
      ultimately show ?thesis using HDomain Some s by (simp add: guarded_def ip_blocked_internal)
    qed
  qed
qed

definition all_guarded :: "net \<Rightarrow> nat \<Rightarrow> (url \<times> ip_addr list option) list \<Rightarrow> bool" where
  "all_guarded N k log \<longleftrightarrow> (\<forall>i < length log. guarded N (k + i) (log ! i))"

lemma all_guarded_simps [simp]:
  "all_guarded N k []" "all_guarded N k (q # log) \<longleftrightarrow> guarded N k q \<and> all_guarded N (Suc k) log"
  by (auto simp: all_guarded_def nth_Cons less_Suc_eq_0_disj)

lemma all_guarded_append: "all_guarded N k l1 \<Longrightarrow> all_guarded N (k + length l1) l2 \<Longrightarrow> all_guarded N k (l1 @ l2)"
  by (induction l1 arbitrary: k) simp_all

lemma fetch_loop_guarded:
  "fetch_loop N False k n cur = (r, log) \<Longrightarrow> all_guarded N k log \<and> length log \<le> Suc n"
proof (induction n arbitrary: k cur r log)
  case 0
  then show ?case
    by (subst (asm) fetch_loop.simps) (auto split: sum.splits option.splits if_splits intro: guarded_request)
next
  case (Suc n)
  from Suc.prems show ?case
    by (subst (asm) fetch_loop.simps)
       (auto split: sum.splits option.splits if_splits prod.splits intro: guarded_request dest!: Suc.IH)
qed

lemma get_json_guarded:
  "get_json N False k f raw = (r, log) \<Longrightarrow> all_guarded N k log \<and> length log \<le> 5"
  using fetch_loop_guarded [of N k max_redirects raw]
  by (auto simp: get_json_def max_redirects_def split: prod.splits sum.splits if_splits option.splits)

lemma lnurl_exchange_guarded:
  assumes run: "lnurl_exchange N False t owed now = (r, log)"
  shows "all_guarded N 0 log \<and> length log \<le> 10"
proof -
  obtain r1 l1 where one: "get_json N False 0 (n_pay_response N) t = (r1, l1)" by (metis surj_pair)
  note g1 = get_json_guarded [OF one]
  show ?thesis
  proof (cases "log = l1")
    case True
    with g1 show ?thesis by simp
  next
    case False
    with run one obtain meta where meta: "r1 = Inr meta" by (cases r1) (simp_all add: lnurl_exchange_def)
    with run one False obtain cb where cb: "n_url N (lp_callback meta) = Some cb"
      by (cases "n_url N (lp_callback meta)") (simp_all add: lnurl_exchange_def split: if_splits)
    obtain r2 l2 where two: "get_json N False (length l1) (n_callback_response N) (n_append N cb (nat_str owed)) = (r2, l2)"
      by (metis surj_pair)
    from run one False meta cb two have "log = l1 @ l2"
      by (cases r2) (simp_all add: lnurl_exchange_def split: if_splits)
    with g1 get_json_guarded [OF two] show ?thesis by (simp add: all_guarded_append)
  qed
qed

text \<open>
  C35. The resolver cannot be steered to the inside. In production mode, for any destination and whatever the DNS and the servers
  answer, a different answer each time included, every request it makes is HTTPS, not to localhost, and goes to an
  address literal or is pinned to the addresses of its own lookup, none of which is internal; and it makes at most ten
  requests. Internal are: the fourteen special-use IPv4 blocks (this-network, private, shared, loopback, link-local, protocol
  assignments, documentation, benchmarking, multicast, reserved); the IPv6 unspecified and loopback addresses, multicast,
  unique-local, link-local and site-local; and an IPv6 address that carries an internal IPv4 one in mapped, compatible, NAT64
  \<open>64:ff9b::/96\<close>, 6to4 or Teredo form. The other IPv6 special-use blocks are not refused.
\<close>

theorem resolve_is_guarded:
  assumes "resolve N False dest owed now = (r, log)"
  shows "(\<forall>i < length log. guarded N i (log ! i)) \<and> length log \<le> 10"
proof -
  have "all_guarded N 0 log \<and> length log \<le> 10"
    using assms unfolding resolve_def
    by (simp split: sum.splits dest_form.splits option.splits) (auto dest: lnurl_exchange_guarded)
  then show ?thesis by (simp add: all_guarded_def)
qed

text \<open>A network with one public host that serves a pay endpoint and an exact invoice.\<close>

definition sample_bolt11 :: bolt11 where
  "sample_bolt11 = \<lparr>b11_msat = Some 5000, b11_hash = Some ''meta'', b11_expiry = 10000\<rparr>"

definition sample_net :: net where
  "sample_net = \<lparr>n_bech32 = (\<lambda>_. None), n_utf8 = (\<lambda>_. True),
     n_url = (\<lambda>s. Some \<lparr>u_scheme = ''https'', u_host = Some (HDomain ''b.c''), u_text = s\<rparr>),
     n_join = (\<lambda>_ _. None), n_append = (\<lambda>u s. ''cb''),
     n_bolt11 = (\<lambda>s. if s = ''lnbc'' then Some sample_bolt11 else None), n_digest = id,
     n_dns = (\<lambda>_ _. Some [V4 (IPv4 8 8 8 8)]),
     n_get = (\<lambda>_ _ _. Some \<lparr>h_status = 200, h_location = None, h_length = None, h_chunks = Some []\<rparr>),
     n_protocol_error = (\<lambda>_. False),
     n_pay_response = (\<lambda>_. Some \<lparr>lp_tag = Some ''payRequest'', lp_callback = ''cb'', lp_min = 1,
                               lp_max = 9000, lp_metadata = ''meta''\<rparr>),
     n_callback_response = (\<lambda>_. Some ''lnbc'')\<rparr>"

lemma sample_fetch: "get_json sample_net False k f raw =
    ((case f [] of None \<Rightarrow> Inl (Transient ''invalid LNURL JSON'') | Some x \<Rightarrow> Inr x),
     [(\<lparr>u_scheme = ''https'', u_host = Some (HDomain ''b.c''), u_text = raw\<rparr>, Some [V4 (IPv4 8 8 8 8)])])"
  by (simp add: get_json_def fetch_loop.simps validate_url_def sample_net_def lower_def ascii_lower_def
      Let_def ends_with_def starts_with_def validated_addrs_def read_body_capped_def split: option.splits)

lemma sample_resolve:
  "\<exists>log. resolve sample_net False ''a@b.c'' 5000 0
     = (Inr \<lparr>rs_bolt11 = ''lnbc'', rs_expiry = 10000\<rparr>, log) \<and> length log = 2"
  unfolding resolve_def lnurl_exchange_def sample_fetch
  by (simp add: detect_form_def parse_ln_address_def split_at_sign_def str_trim_def is_space_def
      user_char_def domain_char_def is_alnum_def Let_def)
     (simp add: sample_net_def validate_invoice_def sample_bolt11_def min_bolt11_ttl_s_def)

theorem resolve_is_guarded_witness:
  "\<exists>r log. resolve sample_net False ''a@b.c'' 5000 0 = (r, log) \<and> length log = 2 \<and> (\<forall>i < 2. guarded sample_net i (log ! i))"
  using sample_resolve resolve_is_guarded [of sample_net "''a@b.c''" 5000 0] by metis

text \<open>
  The resolver returns an invoice the refund can be charged against: for every destination that
  is not itself a BOLT11 invoice, a successful resolution is a parsed invoice for exactly the owed
  millisatoshis, bound by its description hash to the endpoint's metadata, with at least ten minutes
  to live.
\<close>

theorem resolve_exact_invoice:
  assumes "resolve N allow dest owed now = (Inr v, log)" and "detect_form N dest \<noteq> Inr Bolt11"
  shows "\<exists>b meta. n_bolt11 N (rs_bolt11 v) = Some b \<and> b11_msat b = Some owed \<and>
           b11_hash b = Some (n_digest N meta) \<and> rs_expiry v = b11_expiry b \<and> now + 600 \<le> rs_expiry v"
proof -
  from assms obtain pr meta where "validate_invoice N pr owed meta now = Inr v"
    unfolding resolve_def lnurl_exchange_def
    by (auto split: sum.splits dest_form.splits option.splits prod.splits if_splits)
  then show ?thesis
    by (auto simp: validate_invoice_def min_bolt11_ttl_s_def split: option.splits if_splits)
qed

theorem resolve_exact_invoice_witness:
  "\<exists>b. n_bolt11 sample_net ''lnbc'' = Some b \<and> b11_msat b = Some 5000"
proof -
  obtain log where run: "resolve sample_net False ''a@b.c'' 5000 0
      = (Inr \<lparr>rs_bolt11 = ''lnbc'', rs_expiry = 10000\<rparr>, log)"
    using sample_resolve by blast
  have "detect_form sample_net ''a@b.c'' \<noteq> Inr Bolt11"
    by (simp add: detect_form_def parse_ln_address_def split_at_sign_def str_trim_def is_space_def
        user_char_def domain_char_def is_alnum_def)
  from resolve_exact_invoice [OF run this] show ?thesis by auto
qed

end
