(* ===== verification/Refund.thy ===== *)
theory Refund
  imports Store Alerts Resolver
begin

text \<open>
  The refund executor, \<open>daemon/src/refund.rs\<close>: the pending rows it reads, the provenance check, the
  payment plan with its resolution generations, the authorising transaction, the pay call, and the
  four commits (sent, parked, pay failure, resolution retry).

  The payment backend is code behind the \<open>PaymentBackend\<close> trait and the resolver code behind
  \<open>RefundResolver\<close>; they are the record \<open>P\<close> of operations on a world \<open>'w\<close>, which also holds the
  backend's own tables. \<open>process\<close> also returns the pay calls it made.
\<close>

definition max_refund_attempts :: int where "max_refund_attempts = 5"
definition resolution_stuck_alert_s :: int where "resolution_stuck_alert_s = 6 * 3600"

subsection \<open>The backend and resolver seam\<close>

record 'w pay_backend =
  pb_status :: "string \<Rightarrow> 'w \<Rightarrow> (store_error + pay_status) \<times> 'w" \<comment> \<open>\<open>payment_status_by_key\<close>\<close>
  pb_quote :: "nat \<Rightarrow> 'w \<Rightarrow> (store_error + nat \<times> string option) \<times> 'w" \<comment> \<open>\<open>refund_quote\<close>\<close>
  pb_resolve :: "string \<Rightarrow> nat \<Rightarrow> int \<Rightarrow> 'w \<Rightarrow> (resolve_error + resolved) option \<times> 'w"
    \<comment> \<open>\<open>None\<close>: the per-row deadline passed\<close>
  pb_prepare :: "string \<Rightarrow> string \<Rightarrow> 'w \<Rightarrow> (store_error + ('w \<Rightarrow> store_error + 'w)) \<times> 'w"
    \<comment> \<open>\<open>prepare_pay\<close>: the closure that writes the pay witness\<close>
  pb_pay :: "string \<Rightarrow> nat \<Rightarrow> nat \<Rightarrow> string \<Rightarrow> string option \<Rightarrow> 'w \<Rightarrow> (store_error + string) \<times> 'w"
    \<comment> \<open>\<open>pay_refund_capped_via\<close>: invoice, amount, cap, key, gateway hint\<close>
  pb_reuse :: bool \<comment> \<open>\<open>failed_refund_can_reuse_invoice\<close>\<close>
  pb_net :: net \<comment> \<open>the parsers \<open>detect_form\<close> and \<open>parse_whole_sat\<close> call\<close>

record 'w env =
  e_store :: store
  e_alerts :: "dispatcher option"
  e_world :: 'w

abbreviation e_db :: "'w env \<Rightarrow> db" where "e_db e \<equiv> st_db (e_store e)"

record refund_row =
  rr_id :: string
  rr_sub :: "string option"
  rr_dest :: "string option"
  rr_amount :: "int option"
  rr_key :: string
  rr_recipient :: "string option"
  rr_bolt11 :: "string option"
  rr_expiry :: "int option"
  rr_gen :: int
  rr_created :: int
  rr_fence :: "int option"

datatype outcome = Sent | Retried | Failed | Noop

datatype plan_outcome = Pay string int nat "string option" | AlreadySent nat | Skip

record pay_call =
  pc_bolt11 :: string
  pc_sat :: nat
  pc_received :: nat
  pc_key :: string

definition external_id_of :: "refund_row \<Rightarrow> string" where
  "external_id_of row = external_id_from (rr_key row) (rr_id row)"

definition refund_outbox_id :: "string \<Rightarrow> string \<Rightarrow> string" where
  "refund_outbox_id key rid = ''outbox:refund:'' @ external_id_from key rid"

definition row_of :: "db \<Rightarrow> refund_attempt \<Rightarrow> refund_row" where
  "row_of d r = \<lparr>rr_id = rf_id r, rr_sub = rf_sub r, rr_dest = rf_dest r, rr_amount = rf_amount r,
     rr_key = rf_key r,
     rr_recipient = (case rf_sub r of None \<Rightarrow> None
        | Some s \<Rightarrow> (case find_sub s d of None \<Rightarrow> None | Some q \<Rightarrow> sub_buyer q)),
     rr_bolt11 = rf_bolt11 r, rr_expiry = rf_expiry r, rr_gen = rf_gen r, rr_created = rf_created r,
     rr_fence = rf_fence r\<rparr>"

definition pending_refunds :: "db \<Rightarrow> refund_row list" where
  "pending_refunds d = map (row_of d)
     (sort_key (\<lambda>r. (rf_created r, rf_id r)) (filter (\<lambda>r. rf_status r = ''PENDING'') (refunds d)))"

subsection \<open>Provenance\<close>

text \<open>SQLite's integer division truncates towards zero.\<close>

definition sql_div :: "int \<Rightarrow> int \<Rightarrow> int" where
  "sql_div a b = sgn a * (\<bar>a\<bar> div b)"

definition invoice_received_sat :: "invoice \<Rightarrow> int option" where
  "invoice_received_sat i = coalesce (map_option (\<lambda>m. sql_div m 1000) (inv_received i)) (inv_amount i)"

definition event_received_sat :: "event \<Rightarrow> int option" where
  "event_received_sat e =
     coalesce (map_option (\<lambda>m. sql_div m 1000) (json_int ''received_msat'' (ev_detail e)))
       (json_int ''amount_sat'' (ev_detail e))"

definition lookup_received_amount :: "string \<Rightarrow> db \<Rightarrow> int option" where
  "lookup_received_amount ext d =
     (case List.find (\<lambda>i. inv_ext i = ext \<and> receipt_settled i) (invoices d) of
        Some i \<Rightarrow> invoice_received_sat i
      | None \<Rightarrow> (case List.find (\<lambda>e. settle_refund_event e \<and> event_ext e = Some ext) (events d) of
          None \<Rightarrow> None
        | Some e \<Rightarrow> event_received_sat e))"

datatype provenance = ProvenanceOk nat | Forbidden string

definition verify_refund_provenance :: "refund_row \<Rightarrow> string \<Rightarrow> db \<Rightarrow> provenance" where
  "verify_refund_provenance row ext d =
     (case lookup_received_amount ext d of
        None \<Rightarrow> Forbidden ''no received-payment provenance''
      | Some a \<Rightarrow>
          if a \<le> 0 then Forbidden ''provenance has a non-positive received amount''
          else (case rr_amount row of
                  None \<Rightarrow> Forbidden ''refund row has no amount''
                | Some b \<Rightarrow> if b = a then ProvenanceOk (nat a) else Forbidden ''refund amount != received''))"

subsection \<open>Transactions\<close>

definition refund_pending :: "string \<Rightarrow> refund_attempt \<Rightarrow> bool" where
  "refund_pending rid r \<longleftrightarrow> rf_id r = rid \<and> rf_status r = ''PENDING''"

definition refund_journal :: "string option \<Rightarrow> string \<Rightarrow> string \<Rightarrow> int \<Rightarrow> db \<Rightarrow> db" where
  "refund_journal sub kind ext now d = insert_event sub kind (JObj [(''external_id'', JStr ext)]) now d"

definition billing_refund_json :: "string option \<Rightarrow> nat \<Rightarrow> string \<Rightarrow> json" where
  "billing_refund_json sub amount status =
     JObj [(''type'', JStr ''billing.refund''), (''subscription_id'', JStr (unwrap_or sub [])),
           (''amount_sat'', JInt (int amount)), (''status'', JStr status)]"

definition enqueue_refund :: "string \<Rightarrow> string option \<Rightarrow> string option \<Rightarrow> json \<Rightarrow> int \<Rightarrow> db \<Rightarrow> db" where
  "enqueue_refund i recipient sub payload now d =
     enqueue_row i recipient sub ''billing.refund'' payload now d"

definition enqueue_failed_refund ::
  "string option \<Rightarrow> string option \<Rightarrow> string \<Rightarrow> json \<Rightarrow> string \<Rightarrow> int \<Rightarrow> db \<Rightarrow> db" where
  "enqueue_failed_refund recipient sub i payload ext now d =
     refund_journal sub ''refund_failed'' ext now (enqueue_refund i recipient sub payload now d)"

definition update_refund :: "string \<Rightarrow> (refund_attempt \<Rightarrow> refund_attempt) \<Rightarrow> db \<Rightarrow> db" where
  "update_refund rid f d = d\<lparr>refunds := update_where (refund_pending rid) f (refunds d)\<rparr>"

definition bump_attempts :: "int \<Rightarrow> refund_attempt \<Rightarrow> refund_attempt" where
  "bump_attempts now r = r\<lparr>rf_attempts := Some (unwrap_or (rf_attempts r) 0 + 1), rf_updated := now\<rparr>"

definition persist_resolution :: "string \<Rightarrow> resolved \<Rightarrow> int \<Rightarrow> int \<Rightarrow> bool tx" where
  "persist_resolution rid v gen now d =
     Inr (0 < count_where (refund_pending rid) (refunds d),
          update_refund rid (\<lambda>r. r\<lparr>rf_bolt11 := Some (rs_bolt11 v), rf_expiry := Some (rs_expiry v),
                                   rf_gen := gen, rf_updated := now\<rparr>) d)"

text \<open>The subscription of a sent refund: REFUND_DUE becomes REFUNDED and frees its reservation.\<close>

definition close_refunded_sub :: "string option \<Rightarrow> int \<Rightarrow> db \<Rightarrow> db" where
  "close_refunded_sub sub now d =
     (case sub of
        None \<Rightarrow> d
      | Some s \<Rightarrow>
          (let P = (\<lambda>q. sub_id q = s \<and> sub_state q = ''REFUND_DUE'');
               d' = d\<lparr>subs := update_where P (\<lambda>q. q\<lparr>sub_state := ''REFUNDED'', sub_next_deadline := None,
                                                   sub_updated := now\<rparr>) (subs d)\<rparr>
           in if 0 < count_where P (subs d) then snd (release_txn s now d') else d'))"

definition commit_sent_txn :: "refund_row \<Rightarrow> string option \<Rightarrow> nat \<Rightarrow> int \<Rightarrow> bool tx" where
  "commit_sent_txn row pid paid now d =
     (if count_where (refund_pending (rr_id row)) (refunds d) = 0 then Inr (False, d)
      else Inr (True,
        refund_journal (rr_sub row) ''refund_sent'' (external_id_of row) now
          (enqueue_refund (''outbox:refund:'' @ external_id_of row) (rr_recipient row) (rr_sub row)
             (billing_refund_json (rr_sub row) paid ''sent'') now
             (close_refunded_sub (rr_sub row) now
                (update_refund (rr_id row)
                   (\<lambda>r. (bump_attempts now r)\<lparr>rf_status := ''SENT'', rf_payment := coalesce pid (rf_payment r)\<rparr>) d)))))"

definition alert_if_any :: "alert_row option \<Rightarrow> int \<Rightarrow> db \<Rightarrow> db" where
  "alert_if_any a now d = (case a of None \<Rightarrow> d | Some r \<Rightarrow> enqueue_alert_row r now d)"

definition commit_park_failed_txn :: "refund_row \<Rightarrow> nat \<Rightarrow> int \<Rightarrow> alert_row option \<Rightarrow> outcome tx" where
  "commit_park_failed_txn row amount now parked d =
     (if count_where (refund_pending (rr_id row)) (refunds d) = 0 then Inr (Noop, d)
      else Inr (Failed,
        alert_if_any parked now
          (enqueue_failed_refund (rr_recipient row) (rr_sub row) (''outbox:refund:'' @ external_id_of row)
             (billing_refund_json (rr_sub row) amount ''failed'') (external_id_of row) now
             (update_refund (rr_id row) (\<lambda>r. (bump_attempts now r)\<lparr>rf_status := ''FAILED''\<rparr>) d))))"

definition refund_attempts_of :: "string \<Rightarrow> db \<Rightarrow> int" where
  "refund_attempts_of rid d =
     (case List.find (\<lambda>r. rf_id r = rid) (refunds d) of None \<Rightarrow> 0 | Some r \<Rightarrow> unwrap_or (rf_attempts r) 0)"

definition commit_pay_failure_txn ::
  "refund_row \<Rightarrow> nat \<Rightarrow> int \<Rightarrow> bool \<Rightarrow> alert_row option \<Rightarrow> outcome tx" where
  "commit_pay_failure_txn row amount now allow_terminal parked d =
     (if count_where (refund_pending (rr_id row)) (refunds d) = 0 then Inr (Noop, d)
      else
        (let d1 = update_refund (rr_id row) (bump_attempts now) d
         in if \<not> allow_terminal \<or> refund_attempts_of (rr_id row) d1 < max_refund_attempts
            then Inr (Retried, refund_journal (rr_sub row) ''refund_retry'' (external_id_of row) now d1)
            else if count_where (refund_pending (rr_id row)) (refunds d1) = 0 then Inr (Noop, d1)
            else Inr (Failed,
              alert_if_any parked now
                (enqueue_failed_refund (rr_recipient row) (rr_sub row) (''outbox:refund:'' @ external_id_of row)
                   (billing_refund_json (rr_sub row) amount ''failed'') (external_id_of row) now
                   (update_refund (rr_id row) (\<lambda>r. r\<lparr>rf_status := ''FAILED'', rf_updated := now\<rparr>) d1)))))"

definition commit_resolution_retry_txn :: "refund_row \<Rightarrow> int \<Rightarrow> outcome tx" where
  "commit_resolution_retry_txn row now d =
     (if count_where (refund_pending (rr_id row)) (refunds d) = 0 then Inr (Noop, d)
      else Inr (Retried, refund_journal (rr_sub row) ''refund_retry'' (external_id_of row) now
                  (update_refund (rr_id row) (\<lambda>r. r\<lparr>rf_updated := now\<rparr>) d)))"

text \<open>
  The authorising transaction: the row must still be PENDING and unfenced; the backend's witness is
  written by \<open>persist\<close>, whose answer is given.
\<close>

definition authorisable :: "string \<Rightarrow> refund_attempt \<Rightarrow> bool" where
  "authorisable rid r \<longleftrightarrow> refund_pending rid r \<and> rf_fence r = None"

definition authorise_txn :: "string \<Rightarrow> int \<Rightarrow> store_error + 'w \<Rightarrow> bool tx" where
  "authorise_txn rid now persisted d =
     (if count_where (authorisable rid) (refunds d) = 0 then Inr (False, d)
      else (case persisted of
              Inl e \<Rightarrow> Inl e
            | Inr _ \<Rightarrow> Inr (True, d\<lparr>refunds := update_where (authorisable rid) (\<lambda>r. r\<lparr>rf_updated := now\<rparr>) (refunds d)\<rparr>)))"

subsection \<open>The environment\<close>

definition run_tx :: "'a tx \<Rightarrow> 'w env \<Rightarrow> (store_error + 'a) \<times> 'w env" where
  "run_tx f e = (case transaction f None None (e_store e) of (r, st) \<Rightarrow> (r, e\<lparr>e_store := st\<rparr>))"

definition on_world :: "('w \<Rightarrow> 'a \<times> 'w) \<Rightarrow> 'w env \<Rightarrow> 'a \<times> 'w env" where
  "on_world f e = (case f (e_world e) of (x, w) \<Rightarrow> (x, e\<lparr>e_world := w\<rparr>))"

text \<open>A transaction whose body also writes the backend's witness into the world when it proceeds.\<close>

definition run_prepared ::
  "('w \<Rightarrow> store_error + 'w) \<Rightarrow> (store_error + 'w \<Rightarrow> 'a tx) \<Rightarrow> ('a \<Rightarrow> bool) \<Rightarrow> 'w env
     \<Rightarrow> (store_error + 'a) \<times> 'w env" where
  "run_prepared persist body proceeds e =
     (let written = persist (e_world e)
      in case run_tx (body written) e of
           (Inl err, e') \<Rightarrow> (Inl err, e')
         | (Inr x, e') \<Rightarrow>
             (Inr x, case written of Inr w \<Rightarrow> if proceeds x then e'\<lparr>e_world := w\<rparr> else e' | Inl _ \<Rightarrow> e'))"

definition parked_alert_row :: "string \<Rightarrow> refund_row \<Rightarrow> 'w env \<Rightarrow> 'w pay_backend \<Rightarrow> alert_row option" where
  "parked_alert_row reason row e P =
     (case e_alerts e of None \<Rightarrow> None
      | Some p \<Rightarrow> terminal_alert_row (n_digest (pb_net P)) RefundParked (rr_id row)
          (''refund '' @ rr_id row @ '' parked FAILED ('' @ reason @ ''); sub '' @ unwrap_or (rr_sub row) ''-'') p)"

definition maybe_alert_stuck :: "'w pay_backend \<Rightarrow> refund_row \<Rightarrow> int \<Rightarrow> 'w env \<Rightarrow> 'w env" where
  "maybe_alert_stuck P row now e =
     (let age = now - rr_created row
      in if age < resolution_stuck_alert_s then e
         else (case e_alerts e of
                 None \<Rightarrow> e
               | Some p \<Rightarrow>
                   (case dispatch (n_digest (pb_net P)) (if st_degraded (e_store e) then Some Degraded else None) now
                           \<lparr>al_kind = RefundStuck, al_subject = rr_id row,
                            al_detail = ''refund '' @ rr_id row @ '' stuck PENDING '' @ int_str age
                              @ ''s without progress; sub '' @ unwrap_or (rr_sub row) ''-''\<rparr> (p, e_db e)
                    of (_, p', d') \<Rightarrow> e\<lparr>e_alerts := Some p', e_store := (e_store e)\<lparr>st_db := d'\<rparr>\<rparr>)))"

subsection \<open>The plan\<close>

definition parse_whole_sat :: "net \<Rightarrow> string \<Rightarrow> string + nat" where
  "parse_whole_sat N b =
     (case n_bolt11 N b of
        None \<Rightarrow> Inl ''bolt11 parse error''
      | Some v \<Rightarrow> (case b11_msat v of
          None \<Rightarrow> Inl ''bolt11 has no amount''
        | Some m \<Rightarrow> if m mod 1000 \<noteq> 0 then Inl ''bolt11 amount is not a whole number of sats''
                    else Inr (m div 1000)))"

definition sat_or :: "net \<Rightarrow> string \<Rightarrow> nat \<Rightarrow> nat" where
  "sat_or N b received = (case parse_whole_sat N b of Inl _ \<Rightarrow> received | Inr s \<Rightarrow> s)"

definition attempt_pay_status :: "'w pay_backend \<Rightarrow> string \<Rightarrow> 'w env \<Rightarrow> (store_error + pay_status) \<times> 'w env" where
  "attempt_pay_status P key e = on_world (pb_status P key) e"

definition quote_net_cap :: "'w pay_backend \<Rightarrow> nat \<Rightarrow> 'w env \<Rightarrow> (resolve_error + nat \<times> string option) \<times> 'w env" where
  "quote_net_cap P received e =
     (case on_world (pb_quote P received) e of
        (Inl _, e') \<Rightarrow> (Inl (Transient ''refund fee quote failed''), e')
      | (Inr (net, hint), e') \<Rightarrow>
          (if net = 0 then Inl (Structural ''received amount below the network fee'') else Inr (net, hint), e'))"

definition resolve_dest :: "'w pay_backend \<Rightarrow> string \<Rightarrow> nat \<Rightarrow> int \<Rightarrow> 'w env \<Rightarrow> (resolve_error + resolved) \<times> 'w env" where
  "resolve_dest P dest owed now e =
     (case on_world (pb_resolve P dest owed now) e of
        (None, e') \<Rightarrow> (Inl (Transient ''refund resolution exceeded the per-row deadline''), e')
      | (Some r, e') \<Rightarrow> (r, e'))"

text \<open>Quote, resolve to the exact net amount, persist under generation \<open>gen\<close>: the tail two arms share.\<close>

definition resolve_and_persist ::
  "'w pay_backend \<Rightarrow> refund_row \<Rightarrow> string \<Rightarrow> nat \<times> string option \<Rightarrow> int \<Rightarrow> int \<Rightarrow> 'w env
     \<Rightarrow> (resolve_error + plan_outcome) \<times> 'w env" where
  "resolve_and_persist P row dest q gen now e =
     (case q of (net, hint) \<Rightarrow>
        (case checked_mul_u64 net 1000 of
           None \<Rightarrow> (Inl (Structural ''refund net amount overflows u64 msats''), e)
         | Some owed \<Rightarrow>
             (case resolve_dest P dest owed now e of
                (Inl err, e1) \<Rightarrow> (Inl err, e1)
              | (Inr v, e1) \<Rightarrow>
                  (case run_tx (persist_resolution (rr_id row) v gen now) e1 of
                     (Inl _, e2) \<Rightarrow> (Inl (Transient ''persisting refund resolution''), e2)
                   | (Inr False, e2) \<Rightarrow> (Inr Skip, e2)
                   | (Inr True, e2) \<Rightarrow> (Inr (Pay (rs_bolt11 v) gen net hint), e2)))))"

definition plan_bolt11 ::
  "'w pay_backend \<Rightarrow> string \<Rightarrow> string \<Rightarrow> nat \<Rightarrow> 'w env \<Rightarrow> (resolve_error + plan_outcome) \<times> 'w env" where
  "plan_bolt11 P ext dest received e =
     (case parse_whole_sat (pb_net P) dest of
        Inl m \<Rightarrow> (Inl (Structural m), e)
      | Inr sat \<Rightarrow>
          (case attempt_pay_status P (gen_key ext 0) e of
             (Inl _, e1) \<Rightarrow> (Inl (Transient ''refund status lookup failed''), e1)
           | (Inr PaySucceeded, e1) \<Rightarrow> (Inr (AlreadySent sat), e1)
           | (Inr PayPending, e1) \<Rightarrow> (Inr (Pay dest 0 sat None), e1)
           | (Inr _, e1) \<Rightarrow>
               (case quote_net_cap P received e1 of
                  (Inl err, e2) \<Rightarrow> (Inl err, e2)
                | (Inr (net, hint), e2) \<Rightarrow>
                    (if net < sat then Inl (Structural ''buyer's fixed bolt11 exceeds the fee-adjusted refund cap'')
                     else Inr (Pay dest 0 sat hint), e2))))"

definition plan_resolved ::
  "'w pay_backend \<Rightarrow> refund_row \<Rightarrow> string \<Rightarrow> string \<Rightarrow> string \<Rightarrow> nat \<Rightarrow> int \<Rightarrow> 'w env
     \<Rightarrow> (resolve_error + plan_outcome) \<times> 'w env" where
  "plan_resolved P row ext dest b received now e =
     (let gen = rr_gen row; sat = sat_or (pb_net P) b received
      in case attempt_pay_status P (gen_key ext gen) e of
           (Inl _, e1) \<Rightarrow> (Inl (Transient ''refund status lookup failed''), e1)
         | (Inr PaySucceeded, e1) \<Rightarrow> (Inr (AlreadySent sat), e1)
         | (Inr PayFailed, e1) \<Rightarrow>
             (case quote_net_cap P received e1 of
                (Inl err, e2) \<Rightarrow> (Inl err, e2)
              | (Inr (net, hint), e2) \<Rightarrow>
                  if unwrap_or (rr_expiry row) 0 \<le> now \<or> net < sat \<or> \<not> pb_reuse P
                  then resolve_and_persist P row dest (net, hint) (gen + 1) now e2
                  else (Inr (Pay b gen sat None), e2))
         | (Inr _, e1) \<Rightarrow> (Inr (Pay b gen sat None), e1))"

definition plan_payment ::
  "'w pay_backend \<Rightarrow> refund_row \<Rightarrow> string \<Rightarrow> string \<Rightarrow> nat \<Rightarrow> int \<Rightarrow> 'w env
     \<Rightarrow> (resolve_error + plan_outcome) \<times> 'w env" where
  "plan_payment P row ext dest received now e =
     (case detect_form (pb_net P) dest of
        Inl err \<Rightarrow> (Inl err, e)
      | Inr Bolt11 \<Rightarrow> plan_bolt11 P ext dest received e
      | Inr _ \<Rightarrow>
          (case rr_bolt11 row of
             None \<Rightarrow>
               (case quote_net_cap P received e of
                  (Inl err, e1) \<Rightarrow> (Inl err, e1)
                | (Inr q, e1) \<Rightarrow> resolve_and_persist P row dest q 1 now e1)
           | Some b \<Rightarrow> plan_resolved P row ext dest b received now e))"

subsection \<open>Driving one row\<close>

definition already_paid :: "'w pay_backend \<Rightarrow> string \<Rightarrow> 'w env \<Rightarrow> bool \<times> 'w env" where
  "already_paid P key e = (case attempt_pay_status P key e of (r, e') \<Rightarrow> (r = Inr PaySucceeded, e'))"

definition status_by_key_after_error :: "'w pay_backend \<Rightarrow> string \<Rightarrow> 'w env \<Rightarrow> pay_status \<times> 'w env" where
  "status_by_key_after_error P key e =
     (case attempt_pay_status P key e of (Inl _, e') \<Rightarrow> (PayUnknown, e') | (Inr s, e') \<Rightarrow> (s, e'))"

definition authorise_send :: "'w pay_backend \<Rightarrow> refund_row \<Rightarrow> string \<Rightarrow> string \<Rightarrow> int \<Rightarrow> 'w env
    \<Rightarrow> (store_error + bool) \<times> 'w env" where
  "authorise_send P row key b now e =
     (case on_world (pb_prepare P key b) e of
        (Inl err, e1) \<Rightarrow> (Inl err, e1)
      | (Inr persist, e1) \<Rightarrow>
          (let written = persist (e_world e1)
           in case run_tx (authorise_txn (rr_id row) now written) e1 of
                (Inr True, e2) \<Rightarrow> (Inr True, (case written of Inr w \<Rightarrow> e2\<lparr>e_world := w\<rparr> | Inl _ \<Rightarrow> e2))
              | (r, e2) \<Rightarrow> (r, e2)))"

definition finish_sent :: "refund_row \<Rightarrow> string option \<Rightarrow> nat \<Rightarrow> int \<Rightarrow> 'w env \<Rightarrow> (store_error + outcome) \<times> 'w env" where
  "finish_sent row pid paid now e =
     (case run_tx (commit_sent_txn row pid paid now) e of
        (Inl err, e') \<Rightarrow> (Inl err, e')
      | (Inr moved, e') \<Rightarrow> (Inr (if moved then Sent else Noop), e'))"

definition commit_park_failed ::
  "'w pay_backend \<Rightarrow> refund_row \<Rightarrow> nat \<Rightarrow> int \<Rightarrow> string \<Rightarrow> 'w env \<Rightarrow> (store_error + outcome) \<times> 'w env" where
  "commit_park_failed P row amount now reason e =
     run_tx (commit_park_failed_txn row amount now (parked_alert_row reason row e P)) e"

definition stuck_if_retried ::
  "'w pay_backend \<Rightarrow> refund_row \<Rightarrow> int \<Rightarrow> (store_error + outcome) \<times> 'w env \<Rightarrow> (store_error + outcome) \<times> 'w env" where
  "stuck_if_retried P row now re =
     (case re of (r, e) \<Rightarrow> (r, if r = Inr Retried then maybe_alert_stuck P row now e else e))"

definition commit_pay_failure ::
  "'w pay_backend \<Rightarrow> refund_row \<Rightarrow> nat \<Rightarrow> int \<Rightarrow> bool \<Rightarrow> 'w env \<Rightarrow> (store_error + outcome) \<times> 'w env" where
  "commit_pay_failure P row amount now allow_terminal e =
     stuck_if_retried P row now
       (run_tx (commit_pay_failure_txn row amount now allow_terminal
                  (parked_alert_row ''exhausted 5 pay attempts'' row e P)) e)"

definition commit_resolution_retry ::
  "'w pay_backend \<Rightarrow> refund_row \<Rightarrow> int \<Rightarrow> 'w env \<Rightarrow> (store_error + outcome) \<times> 'w env" where
  "commit_resolution_retry P row now e =
     stuck_if_retried P row now (run_tx (commit_resolution_retry_txn row now) e)"

text \<open>The pay call and the commit its answer leads to.\<close>

definition pay_and_commit ::
  "'w pay_backend \<Rightarrow> refund_row \<Rightarrow> string \<Rightarrow> string \<Rightarrow> nat \<Rightarrow> nat \<Rightarrow> string option \<Rightarrow> int \<Rightarrow> 'w env
     \<Rightarrow> (store_error + outcome) \<times> 'w env" where
  "pay_and_commit P row key b sat received hint now e =
     (case on_world (pb_pay P b sat received key hint) e of
        (Inr pid, e1) \<Rightarrow> finish_sent row (Some pid) sat now e1
      | (Inl _, e1) \<Rightarrow>
          (case status_by_key_after_error P key e1 of
             (PaySucceeded, e2) \<Rightarrow> finish_sent row None sat now e2
           | (PayFailed, e2) \<Rightarrow> commit_pay_failure P row received now True e2
           | (_, e2) \<Rightarrow> commit_pay_failure P row received now False e2))"

definition execute_plan ::
  "'w pay_backend \<Rightarrow> refund_row \<Rightarrow> string \<Rightarrow> nat \<Rightarrow> int \<Rightarrow> string \<Rightarrow> int \<Rightarrow> nat \<Rightarrow> string option \<Rightarrow> 'w env
     \<Rightarrow> (store_error + outcome) \<times> 'w env \<times> pay_call list" where
  "execute_plan P row ext received now b gen sat hint e =
     (let key = gen_key ext gen
      in case already_paid P key e of
           (True, e1) \<Rightarrow> (case finish_sent row None sat now e1 of (r, e2) \<Rightarrow> (r, e2, []))
         | (False, e1) \<Rightarrow>
             (case authorise_send P row key b now e1 of
                (Inr False, e2) \<Rightarrow> (Inr Noop, e2, [])
              | (Inl _, e2) \<Rightarrow> (case commit_resolution_retry P row now e2 of (r, e3) \<Rightarrow> (r, e3, []))
              | (Inr True, e2) \<Rightarrow>
                  (case pay_and_commit P row key b sat received hint now e2 of
                     (r, e3) \<Rightarrow> (r, e3, [\<lparr>pc_bolt11 = b, pc_sat = sat, pc_received = received, pc_key = key\<rparr>]))))"

definition quiet :: "'a \<times> 'e \<Rightarrow> 'a \<times> 'e \<times> pay_call list" where
  "quiet re = (case re of (r, e) \<Rightarrow> (r, e, []))"

definition process :: "'w pay_backend \<Rightarrow> refund_row \<Rightarrow> int \<Rightarrow> 'w env
    \<Rightarrow> (store_error + outcome) \<times> 'w env \<times> pay_call list" where
  "process P row now e =
     (let ext = external_id_of row in
      case rr_fence row of
        Some _ \<Rightarrow> (Inr Noop, maybe_alert_stuck P row now e, [])
      | None \<Rightarrow>
          (case verify_refund_provenance row ext (e_db e) of
             Forbidden reason \<Rightarrow>
               quiet (commit_park_failed P row (nat (max (unwrap_or (rr_amount row) 0) 0)) now reason e)
           | ProvenanceOk received \<Rightarrow>
               (case map_option str_trim (rr_dest row) of
                  None \<Rightarrow> quiet (commit_park_failed P row received now ''no destination'' e)
                | Some dest \<Rightarrow>
                    if dest = [] then quiet (commit_park_failed P row received now ''no destination'' e)
                    else
                      (case plan_payment P row ext dest received now e of
                         (Inr (Pay b gen sat hint), e1) \<Rightarrow> execute_plan P row ext received now b gen sat hint e1
                       | (Inr (AlreadySent sat), e1) \<Rightarrow> quiet (finish_sent row None sat now e1)
                       | (Inr Skip, e1) \<Rightarrow> (Inr Noop, e1, [])
                       | (Inl (Structural reason), e1) \<Rightarrow> quiet (commit_park_failed P row received now reason e1)
                       | (Inl (Transient _), e1) \<Rightarrow> quiet (commit_resolution_retry P row now e1)))))"

record refund_report =
  rp_sent :: nat
  rp_retried :: nat
  rp_failed :: nat

definition count_outcome :: "outcome \<Rightarrow> refund_report \<Rightarrow> refund_report" where
  "count_outcome o' r =
     (case o' of Sent \<Rightarrow> r\<lparr>rp_sent := rp_sent r + 1\<rparr> | Retried \<Rightarrow> r\<lparr>rp_retried := rp_retried r + 1\<rparr>
      | Failed \<Rightarrow> r\<lparr>rp_failed := rp_failed r + 1\<rparr> | Noop \<Rightarrow> r)"

text \<open>
  \<open>drive\<close> processes the rows read at its start. The tasks run concurrently in the code; this function
  is the schedule that completes them in order, and the first error ends the drive.
\<close>

fun drive_rows :: "'w pay_backend \<Rightarrow> int \<Rightarrow> refund_row list \<Rightarrow> refund_report \<Rightarrow> 'w env
    \<Rightarrow> (store_error + refund_report) \<times> 'w env \<times> pay_call list" where
  "drive_rows P now [] rep e = (Inr rep, e, [])"
| "drive_rows P now (row # rows) rep e =
     (case process P row now e of
        (Inl err, e1, calls) \<Rightarrow> (Inl err, e1, calls)
      | (Inr oc, e1, calls) \<Rightarrow>
          (case drive_rows P now rows (count_outcome oc rep) e1 of
             (r, e2, calls') \<Rightarrow> (r, e2, calls @ calls')))"

definition refund_drive :: "'w pay_backend \<Rightarrow> int \<Rightarrow> 'w env \<Rightarrow> (store_error + refund_report) \<times> 'w env \<times> pay_call list" where
  "refund_drive P now e =
     drive_rows P now (pending_refunds (e_db e)) \<lparr>rp_sent = 0, rp_retried = 0, rp_failed = 0\<rparr> e"

end
