(* ===== verification/Mock_Backend.thy ===== *)
theory Mock_Backend
  imports Refund
begin

text \<open>
  The trait defaults of \<open>PaymentBackend\<close> and the in-memory \<open>MockPayment\<close>, from
  \<open>daemon/src/backends.rs\<close>: create-once invoices, settlement, lookup with expiry, and payments that are
  idempotent on their key. The mock has no fees and no gateway, so the refund calls are the defaults.
\<close>

datatype payment_status = PsOpen | PsPaid | PsExpired

record backend_invoice =
  bi_id :: string
  bi_ext :: string
  bi_backend_id :: string
  bi_hash :: nat
  bi_bolt11 :: string
  bi_amount :: nat
  bi_expires :: int

text \<open>\<open>MockState\<close>; \<open>invoices\<close> is keyed by external id and listed because \<open>lookup\<close> searches its values.\<close>

record mock_state =
  mk_invoices :: "backend_invoice list"
  mk_paid :: "string set"
  mk_settled_at :: "string \<Rightarrow> int option"
  mk_payments :: "string \<Rightarrow> string option"
  mk_seq :: nat
  mk_now :: int
  mk_watched :: "settlement list option" \<comment> \<open>what the watch stream has been sent, once open\<close>

definition mock_new :: mock_state where
  "mock_new = \<lparr>mk_invoices = [], mk_paid = {}, mk_settled_at = (\<lambda>_. None), mk_payments = (\<lambda>_. None),
     mk_seq = 0, mk_now = 0, mk_watched = None\<rparr>"

definition mock_invoice :: "string \<Rightarrow> mock_state \<Rightarrow> backend_invoice option" where
  "mock_invoice ext m = List.find (\<lambda>i. bi_ext i = ext) (mk_invoices m)"

definition mock_create_invoice :: "nat \<Rightarrow> nat \<Rightarrow> string \<Rightarrow> mock_state \<Rightarrow> backend_invoice \<times> mock_state" where
  "mock_create_invoice amount expiry ext m =
     (case mock_invoice ext m of
        Some i \<Rightarrow> (i, m)
      | None \<Rightarrow>
          (let n = mk_seq m;
               i = \<lparr>bi_id = ''mock-inv-'' @ nat_str n, bi_ext = ext, bi_backend_id = ''mock-bk-'' @ nat_str n,
                    bi_hash = n, bi_bolt11 = ''lnbcmock1'' @ ext, bi_amount = amount,
                    bi_expires = mk_now m + int expiry\<rparr>
           in (i, m\<lparr>mk_seq := n + 1, mk_invoices := mk_invoices m @ [i]\<rparr>)))"

text \<open>\<open>settle_mock_invoice\<close>, with \<open>settle\<close>; \<open>saturating_mul\<close> stops at the largest u64.\<close>

definition mock_settle :: "string \<Rightarrow> int \<Rightarrow> mock_state \<Rightarrow> (string + settlement) \<times> mock_state" where
  "mock_settle ext at m =
     (case mock_invoice ext m of
        None \<Rightarrow> (Inl ''mock: no invoice for external_id'', m)
      | Some i \<Rightarrow>
          (let s = \<lparr>st_invoice = bi_id i, st_ext = ext, st_amount = bi_amount i,
                    st_received = min (bi_amount i * 1000) (u64_limit - 1), st_settled = at\<rparr>
           in (Inr s, m\<lparr>mk_paid := insert ext (mk_paid m), mk_settled_at := (mk_settled_at m)(ext \<mapsto> at),
                        mk_watched := map_option (\<lambda>q. q @ [s]) (mk_watched m)\<rparr>)))"

definition mock_settle_recovered :: "string \<Rightarrow> mock_state \<Rightarrow> (string + unit) \<times> mock_state" where
  "mock_settle_recovered ext m =
     (if mock_invoice ext m = None then (Inl ''mock: no invoice for external_id'', m)
      else (Inr (), m\<lparr>mk_paid := insert ext (mk_paid m)\<rparr>))"

definition mock_dev_settle :: "string \<Rightarrow> int \<Rightarrow> mock_state \<Rightarrow> (string + unit) \<times> mock_state" where
  "mock_dev_settle ext at m =
     (case mock_invoice ext m of
        None \<Rightarrow> (Inl ''mock: no OPEN invoice for external_id'', m)
      | Some i \<Rightarrow>
          (if ext \<in> mk_paid m \<or> bi_expires i \<le> mk_now m then (Inl ''mock: no OPEN invoice for external_id'', m)
           else (Inr (), snd (mock_settle ext at m))))"

definition mock_find_id :: "string \<Rightarrow> mock_state \<Rightarrow> backend_invoice option" where
  "mock_find_id i m = List.find (\<lambda>q. bi_id q = i) (mk_invoices m)"

definition mock_lookup_settlement :: "string \<Rightarrow> mock_state \<Rightarrow> payment_status \<times> int option" where
  "mock_lookup_settlement i m =
     (case mock_find_id i m of
        None \<Rightarrow> (PsExpired, None)
      | Some q \<Rightarrow>
          if bi_ext q \<in> mk_paid m then (PsPaid, mk_settled_at m (bi_ext q))
          else if bi_expires q \<le> mk_now m then (PsExpired, None)
          else (PsOpen, None))"

definition mock_lookup :: "string \<Rightarrow> mock_state \<Rightarrow> payment_status" where
  "mock_lookup i m =
     (case mock_find_id i m of
        None \<Rightarrow> PsExpired
      | Some q \<Rightarrow> if bi_ext q \<in> mk_paid m then PsPaid
          else if bi_expires q \<le> mk_now m then PsExpired else PsOpen)"

definition mock_pay :: "string \<Rightarrow> nat \<Rightarrow> string \<Rightarrow> mock_state \<Rightarrow> (store_error + string) \<times> mock_state" where
  "mock_pay dest amount key m =
     (case mk_payments m key of
        Some pid \<Rightarrow> (Inr pid, m)
      | None \<Rightarrow>
          (let pid = ''mock-pay-'' @ nat_str (mk_seq m)
           in (Inr pid, m\<lparr>mk_seq := mk_seq m + 1, mk_payments := (mk_payments m)(key \<mapsto> pid)\<rparr>)))"

definition mock_status_by_key :: "string \<Rightarrow> mock_state \<Rightarrow> (store_error + pay_status) \<times> mock_state" where
  "mock_status_by_key key m = (Inr (if mk_payments m key = None then PayUnknown else PaySucceeded), m)"

subsection \<open>The trait's default refund calls\<close>

definition default_refund_net_sat :: "nat \<Rightarrow> nat" where
  "default_refund_net_sat gross = gross"

definition default_required_outlay_msat :: "nat \<Rightarrow> nat option \<Rightarrow> nat" where
  "default_required_outlay_msat gross pay =
     (case pay of Some p \<Rightarrow> p | None \<Rightarrow> default_refund_net_sat gross) * 1000"

definition default_refund_quote :: "nat \<Rightarrow> 'w \<Rightarrow> (store_error + nat \<times> string option) \<times> 'w" where
  "default_refund_quote gross w = (Inr (default_refund_net_sat gross, None), w)"

definition default_prepare :: "string \<Rightarrow> string \<Rightarrow> 'w \<Rightarrow> (store_error + ('w \<Rightarrow> store_error + 'w)) \<times> 'w" where
  "default_prepare key b w = (Inr Inr, w)"

definition default_pay_refund_via ::
  "(string \<Rightarrow> nat \<Rightarrow> string \<Rightarrow> 'w \<Rightarrow> (store_error + string) \<times> 'w)
     \<Rightarrow> string \<Rightarrow> nat \<Rightarrow> nat \<Rightarrow> string \<Rightarrow> string option \<Rightarrow> 'w \<Rightarrow> (store_error + string) \<times> 'w" where
  "default_pay_refund_via pay b amount gross key hint w = pay b amount key w"

definition mock_resolver :: "string \<Rightarrow> nat \<Rightarrow> int \<Rightarrow> 'w \<Rightarrow> (resolve_error + resolved) option \<times> 'w" where
  "mock_resolver dest owed now w = (Some (Inr (pass_through dest)), w)"

text \<open>\<open>MockPayment\<close> with the pass-through resolver, as the refunder is built by default.\<close>

definition mock_backend :: "net \<Rightarrow> mock_state pay_backend" where
  "mock_backend N = \<lparr>pb_status = mock_status_by_key, pb_quote = default_refund_quote,
     pb_resolve = mock_resolver, pb_prepare = default_prepare,
     pb_pay = default_pay_refund_via mock_pay, pb_reuse = True, pb_net = N\<rparr>"

subsection \<open>What the mock promises\<close>

lemma mock_invoice_ext: "mock_invoice ext m = Some i \<Longrightarrow> i \<in> set (mk_invoices m) \<and> bi_ext i = ext"
  unfolding mock_invoice_def by (rule find_Some_mem)

lemma mock_invoice_created:
  "mock_create_invoice amount expiry ext m = (i, m') \<Longrightarrow> mock_invoice ext m' = Some i"
  by (auto simp: mock_create_invoice_def mock_invoice_def Let_def find_append split: option.splits)

definition ids_below :: "nat \<Rightarrow> backend_invoice list \<Rightarrow> bool" where
  "ids_below n is \<longleftrightarrow> (\<forall>i\<in>set is. \<exists>k<n. bi_id i = ''mock-inv-'' @ nat_str k)"

lemma ids_below_Suc: "ids_below n is \<Longrightarrow> ids_below (Suc n) is"
  by (metis ids_below_def less_SucI)

lemma ids_below_snoc: "ids_below n is \<Longrightarrow> bi_id i = ''mock-inv-'' @ nat_str n \<Longrightarrow> ids_below (Suc n) (is @ [i])"
  using ids_below_Suc [of n "is"] by (auto simp: ids_below_def)

lemma ids_below_fresh: "ids_below n is \<Longrightarrow> ''mock-inv-'' @ nat_str n \<notin> bi_id ` set is"
  by (fastforce simp: ids_below_def)

definition mock_ok :: "mock_state \<Rightarrow> bool" where
  "mock_ok m \<longleftrightarrow> distinct (map bi_ext (mk_invoices m)) \<and> distinct (map bi_id (mk_invoices m)) \<and>
     ids_below (mk_seq m) (mk_invoices m)"

lemma mock_ok_new: "mock_ok mock_new"
  by (simp add: mock_ok_def mock_new_def ids_below_def)

lemma mock_ok_create:
  assumes "mock_ok m" "mock_create_invoice amount expiry ext m = (i, m')"
  shows "mock_ok m'"
proof (cases "mock_invoice ext m")
  case None
  then have new: "ext \<notin> bi_ext ` set (mk_invoices m)"
    by (auto simp: mock_invoice_def find_None_all)
  have fresh: "''mock-inv-'' @ nat_str (mk_seq m) \<notin> bi_id ` set (mk_invoices m)"
    using assms(1) ids_below_fresh unfolding mock_ok_def by blast
  from assms None new fresh show ?thesis
    by (auto simp: mock_create_invoice_def mock_ok_def Let_def ids_below_snoc)
qed (use assms in \<open>simp add: mock_create_invoice_def\<close>)

lemma mock_ok_pay: "mock_ok m \<Longrightarrow> mock_pay dest amount key m = (r, m') \<Longrightarrow> mock_ok m'"
  by (auto simp: mock_pay_def mock_ok_def Let_def ids_below_Suc split: option.splits)

lemma mock_ok_settle: "mock_ok m \<Longrightarrow> mock_settle ext at m = (r, m') \<Longrightarrow> mock_ok m'"
  by (auto simp: mock_settle_def mock_ok_def Let_def split: option.splits)

text \<open>
  An invoice is created once and its settlement is visible until the end: creating an invoice
  twice for one external id returns the same invoice and changes nothing; after it is settled, the
  lookups by its id answer paid with the settlement time, however late they are asked.
\<close>

theorem mock_create_once_settle:
  assumes ok: "mock_ok m" and run: "mock_create_invoice amount expiry ext m = (i, m1)"
  shows "mock_create_invoice amount' expiry' ext m1 = (i, m1) \<and>
    (\<exists>s m2. mock_settle ext at m1 = (Inr s, m2) \<and> st_invoice s = bi_id i \<and> st_amount s = bi_amount i \<and>
       mock_lookup (bi_id i) (m2\<lparr>mk_now := t\<rparr>) = PsPaid \<and>
       mock_lookup_settlement (bi_id i) (m2\<lparr>mk_now := t\<rparr>) = (PsPaid, Some at))"
proof -
  note inv = mock_invoice_created [OF run] and ok1 = mock_ok_create [OF ok run]
  from mock_invoice_ext [OF inv] ok1 have "mock_find_id (bi_id i) m1 = Some i" "bi_ext i = ext"
    by (auto simp: mock_find_id_def mock_ok_def intro: find_key_unique)
  with inv show ?thesis
    by (simp add: mock_create_invoice_def mock_settle_def Let_def mock_lookup_def mock_lookup_settlement_def mock_find_id_def)
qed

theorem mock_create_once_settle_witness:
  "mock_create_invoice 5 60 ''x'' (snd (mock_create_invoice 7 60 ''x'' mock_new)) = mock_create_invoice 7 60 ''x'' mock_new"
proof -
  have "mock_create_invoice 7 60 ''x'' mock_new = (fst (mock_create_invoice 7 60 ''x'' mock_new), snd (mock_create_invoice 7 60 ''x'' mock_new))"
    by simp
  from mock_create_once_settle [OF mock_ok_new this] show ?thesis by simp
qed

end
