(* ===== verification/Teardown.thy ===== *)
theory Teardown
  imports Alerts
begin

text \<open>
  The dead-letter of failed destroy hooks, \<open>daemon/src/teardown.rs\<close>: one row per subscription and
  hook, retried with a capped exponential backoff until the hook succeeds.
\<close>

definition max_teardown_error_chars :: nat where "max_teardown_error_chars = 256"
definition teardown_retry_base_s :: int where "teardown_retry_base_s = 60"

definition row_id :: "string \<Rightarrow> string \<Rightarrow> string" where
  "row_id sub hook = ''td:'' @ sub @ '':'' @ hook"

definition backoff_s :: "int \<Rightarrow> int" where
  "backoff_s attempts = 2 ^ nat (min (max attempts 0) 6) * teardown_retry_base_s"

definition cap_error :: "string \<Rightarrow> string" where
  "cap_error e = cap_chars e max_teardown_error_chars"

definition next_retry_in_s :: "int \<Rightarrow> teardown_failure \<Rightarrow> int" where
  "next_retry_in_s now r = max (td_last r + backoff_s (td_attempts r) - now) 0"

definition teardown_value :: "int \<Rightarrow> teardown_failure \<Rightarrow> json" where
  "teardown_value now r = JObj
     [(''subscription_id'', JStr (td_sub r)), (''hook'', JStr (td_hook r)),
      (''attempts'', JInt (td_attempts r)), (''last_error'', json_of_text (td_error r)),
      (''first_failed_at'', JInt (td_first r)), (''last_attempt_at'', JInt (td_last r)),
      (''owed_for_s'', JInt (now - td_first r)), (''next_retry_in_s'', JInt (next_retry_in_s now r))]"

definition find_teardown :: "string \<Rightarrow> db \<Rightarrow> teardown_failure option" where
  "find_teardown i d = List.find (\<lambda>r. td_id r = i) (teardowns d)"

definition record_failure_txn ::
  "string \<Rightarrow> string \<Rightarrow> json option \<Rightarrow> string \<Rightarrow> int \<Rightarrow> db \<Rightarrow> int \<times> db" where
  "record_failure_txn sub hook handles err now d =
     (let i = row_id sub hook;
          d' = (if \<exists>r\<in>set (teardowns d). td_id r = i
                then d\<lparr>teardowns := update_where (\<lambda>r. td_id r = i)
                       (\<lambda>r. r\<lparr>td_attempts := td_attempts r + 1, td_handles := handles,
                              td_error := Some (cap_error err), td_last := now, td_resolved := None\<rparr>)
                       (teardowns d)\<rparr>
                else d\<lparr>teardowns := teardowns d @
                       [\<lparr>td_id = i, td_sub = sub, td_hook = hook, td_handles = handles, td_attempts = 1,
                         td_error = Some (cap_error err), td_first = now, td_last = now,
                         td_resolved = None\<rparr>]\<rparr>)
      in (case find_teardown i d' of None \<Rightarrow> 0 | Some r \<Rightarrow> td_attempts r, d'))"

definition mark_resolved :: "string \<Rightarrow> string \<Rightarrow> int \<Rightarrow> db \<Rightarrow> db" where
  "mark_resolved sub hook now d =
     d\<lparr>teardowns := update_where (\<lambda>r. td_id r = row_id sub hook \<and> td_resolved r = None)
         (\<lambda>r. r\<lparr>td_resolved := Some now\<rparr>) (teardowns d)\<rparr>"

text \<open>Open rows, newest failure first (ties in the order the table gives them).\<close>

definition open_rows :: "db \<Rightarrow> teardown_failure list" where
  "open_rows d = sort_key (\<lambda>r. - td_last r) (filter (\<lambda>r. td_resolved r = None) (teardowns d))"

definition open_due_rows :: "int \<Rightarrow> db \<Rightarrow> teardown_failure list" where
  "open_due_rows now d = filter (\<lambda>r. td_last r + backoff_s (td_attempts r) \<le> now) (open_rows d)"

definition open_count :: "db \<Rightarrow> nat" where
  "open_count d = count_where (\<lambda>r. td_resolved r = None) (teardowns d)"

definition open_row :: "string \<Rightarrow> string \<Rightarrow> db \<Rightarrow> teardown_failure option" where
  "open_row sub hook d =
     List.find (\<lambda>r. td_id r = row_id sub hook \<and> td_resolved r = None) (teardowns d)"

subsection \<open>Laws\<close>

lemma backoff_bounds: "60 \<le> backoff_s n \<and> backoff_s n \<le> 3840"
proof -
  let ?k = "nat (min (max n 0) 6)"
  have "?k \<le> 6" by simp
  then have "(2::int) ^ ?k \<le> 2 ^ 6" by (intro power_increasing) auto
  moreover have "(1::int) \<le> 2 ^ ?k" by simp
  ultimately show ?thesis by (simp add: backoff_s_def teardown_retry_base_s_def)
qed

lemma backoff_mono: "m \<le> n \<Longrightarrow> backoff_s m \<le> backoff_s n"
proof -
  assume "m \<le> n"
  then have "nat (min (max m 0) 6) \<le> nat (min (max n 0) 6)" by simp
  then have "(2::int) ^ nat (min (max m 0) 6) \<le> 2 ^ nat (min (max n 0) 6)" by (intro power_increasing) auto
  then show ?thesis by (simp add: backoff_s_def teardown_retry_base_s_def)
qed

lemma find_teardown_id: "find_teardown i d = Some r \<Longrightarrow> td_id r = i"
  by (auto simp: find_teardown_def dest: find_Some_mem)

lemma record_failure_find:
  "find_teardown i (snd (record_failure_txn sub hook h e now d)) =
     (if i \<noteq> row_id sub hook then find_teardown i d
      else Some (case find_teardown i d of
          None \<Rightarrow> \<lparr>td_id = i, td_sub = sub, td_hook = hook, td_handles = h, td_attempts = 1,
             td_error = Some (cap_error e), td_first = now, td_last = now, td_resolved = None\<rparr>
        | Some r \<Rightarrow> r\<lparr>td_attempts := td_attempts r + 1, td_handles := h, td_error := Some (cap_error e),
             td_last := now, td_resolved := None\<rparr>))"
proof (cases "\<exists>r\<in>set (teardowns d). td_id r = row_id sub hook")
  case True
  then obtain r where r: "find_teardown (row_id sub hook) d = Some r"
    by (cases "find_teardown (row_id sub hook) d") (auto simp: find_teardown_def find_None_iff)
  show ?thesis
  proof (cases "find_teardown i d")
    case None
    with r True show ?thesis
      by (auto simp: record_failure_txn_def Let_def find_teardown_def find_update_where_same)
  next
    case (Some q)
    with find_teardown_id [OF Some] True show ?thesis
      by (auto simp: record_failure_txn_def Let_def find_teardown_def find_update_where_same)
  qed
next
  case False
  then have "find_teardown (row_id sub hook) d = None" by (auto simp: find_teardown_def find_None_iff)
  with False show ?thesis
    by (auto simp: record_failure_txn_def Let_def find_teardown_def find_append split: option.splits)
qed

lemma record_failure_ok: "db_ok d \<Longrightarrow> db_ok (snd (record_failure_txn sub hook h e now d))"
  by (auto simp: record_failure_txn_def Let_def db_ok_teardowns_update) (auto simp: db_ok_def image_iff)

lemma find_teardown_mem:
  "db_ok d \<Longrightarrow> find_teardown i d = Some r \<longleftrightarrow> r \<in> set (teardowns d) \<and> td_id r = i"
  using find_key_unique [of td_id "teardowns d" r]
  by (auto simp: find_teardown_def db_okD dest: find_Some_mem)

lemma set_open_due:
  "set (open_due_rows now d) = {r \<in> set (teardowns d). td_resolved r = None \<and> td_last r + backoff_s (td_attempts r) \<le> now}"
  by (auto simp: open_due_rows_def open_rows_def)

text \<open>
  A failed teardown is never lost and never hammered: recording a failure leaves exactly one open
  row for the subscription and hook, which counts one more attempt than before and carries the newest
  handles and a bounded error; it is not due again before at least two minutes, and it is due at the
  latest after 64 minutes.
\<close>

theorem teardown_recorded_and_retried:
  assumes ok: "db_ok d" and run: "record_failure_txn sub hook h e now d = (n, d')"
  shows "\<exists>r. {q \<in> set (teardowns d'). td_id q = row_id sub hook} = {r} \<and> td_resolved r = None \<and>
           td_handles r = h \<and> length (the (td_error r)) \<le> 259 \<and>
           n = td_attempts r \<and>
           td_attempts r = (case find_teardown (row_id sub hook) d of None \<Rightarrow> 1 | Some q \<Rightarrow> td_attempts q + 1) \<and>
           (1 \<le> td_attempts r \<longrightarrow> (\<forall>t < now + 120. r \<notin> set (open_due_rows t d'))) \<and>
           (\<forall>t \<ge> now + 3840. r \<in> set (open_due_rows t d'))"
proof -
  from run have d'_def: "d' = snd (record_failure_txn sub hook h e now d)" by simp
  have ok': "db_ok d'" unfolding d'_def by (rule record_failure_ok [OF ok])
  obtain r where r: "find_teardown (row_id sub hook) d' = Some r"
    and f: "td_resolved r = None" "td_handles r = h" "td_error r = Some (cap_error e)" "td_last r = now"
      "td_attempts r = (case find_teardown (row_id sub hook) d of None \<Rightarrow> 1 | Some q \<Rightarrow> td_attempts q + 1)"
    unfolding d'_def record_failure_find by (auto split: option.splits)
  have fst: "n = td_attempts r"
    using r run by (auto simp: record_failure_txn_def Let_def)
  from r have mem: "r \<in> set (teardowns d')" "td_id r = row_id sub hook"
    by (simp_all add: find_teardown_mem [OF ok'])
  have single: "{q \<in> set (teardowns d'). td_id q = row_id sub hook} = {r}"
  proof -
    have "q = r" if "q \<in> set (teardowns d')" "td_id q = row_id sub hook" for q
      using that r find_teardown_mem [OF ok', of "row_id sub hook" q] by (metis option.inject)
    with mem show ?thesis by blast
  qed
  have len: "length (the (td_error r)) \<le> 259"
    using length_cap_chars [of e 256] by (simp add: f cap_error_def max_teardown_error_chars_def)
  have "120 \<le> backoff_s (td_attempts r)" if "1 \<le> td_attempts r"
    using backoff_mono [OF that] by (simp add: backoff_s_def teardown_retry_base_s_def)
  then have early: "1 \<le> td_attempts r \<longrightarrow> (\<forall>t < now + 120. r \<notin> set (open_due_rows t d'))"
    by (auto simp: set_open_due f)
  have late: "\<forall>t \<ge> now + 3840. r \<in> set (open_due_rows t d')"
    using backoff_bounds [of "td_attempts r"] mem f by (auto simp: set_open_due)
  from single f(1,2,5) fst len early late show ?thesis by blast
qed

theorem teardown_recorded_and_retried_witness:
  "\<exists>r. {q \<in> set (teardowns (snd (record_failure_txn ''s1'' ''destroy'' None ''x'' 0 empty_db))).
          td_id q = ''td:s1:destroy''} = {r} \<and> td_resolved r = None"
  using teardown_recorded_and_retried [OF db_ok_empty prod.collapse [symmetric], of "''s1''" "''destroy''" None "''x''" 0]
  by (auto simp: row_id_def)

end
