(* ===== verification/Reconcile.thy ===== *)
theory Reconcile
  imports Mock_Backend Teardown
begin

text \<open>
  The time-driven transitions of a subscription, \<open>daemon/src/reconcile.rs\<close>: the due scan, the five
  transitions as compare-and-swap transactions, the retry of owed teardowns, the liveness heartbeat
  and the downtime credit applied at boot.

  The calls that leave the daemon (the status of an invoice at the backend, a recipe hook, the
  issuing of an invoice) are the record \<open>Q\<close>. Each takes the whole environment and returns it: while
  such a call is awaited the other tasks of the daemon run, so it may change the database in any way.
\<close>

definition renewal_invoice_min_expiry_s :: int where "renewal_invoice_min_expiry_s = 3600"

subsection \<open>The calls that leave the daemon\<close>

record 'w ports =
  po_lookup :: "string \<Rightarrow> string \<Rightarrow> 'w env \<Rightarrow> (store_error + payment_status) \<times> 'w env"
    \<comment> \<open>\<open>lookup_settlement_by_ref(id, external_id)\<close>, the status\<close>
  po_hook :: "string \<Rightarrow> json \<Rightarrow> 'w env \<Rightarrow> (string + json) \<times> 'w env" \<comment> \<open>\<open>run_hook\<close>: its stdout or its error\<close>
  po_issue :: "nat \<Rightarrow> string \<Rightarrow> nat \<Rightarrow> string \<Rightarrow> 'w env
      \<Rightarrow> (store_error + backend_invoice \<times> ('w \<Rightarrow> store_error + 'w)) \<times> 'w env"
    \<comment> \<open>\<open>issue_invoice\<close>: the invoice and the closure that persists its correlation\<close>
  po_digest :: "string \<Rightarrow> string" \<comment> \<open>the hash of an alert subject\<close>
  po_recipe :: string \<comment> \<open>\<open>recipe.service.id\<close>\<close>
  po_price :: nat \<comment> \<open>\<open>recipe.pricing.amount_sat\<close>\<close>

definition owns_row :: "'w ports \<Rightarrow> string option \<Rightarrow> bool" where
  "owns_row Q r \<longleftrightarrow> (case r of None \<Rightarrow> True | Some i \<Rightarrow> i = po_recipe Q)"

definition send_alert :: "'w ports \<Rightarrow> alert_kind \<Rightarrow> string \<Rightarrow> string \<Rightarrow> int \<Rightarrow> 'w env \<Rightarrow> 'w env" where
  "send_alert Q k subject detail now e =
     (case e_alerts e of
        None \<Rightarrow> e
      | Some p \<Rightarrow>
          (case dispatch (po_digest Q) (if st_degraded (e_store e) then Some Degraded else None) now
                  \<lparr>al_kind = k, al_subject = subject, al_detail = detail\<rparr> (p, e_db e)
           of (_, p', d') \<Rightarrow> e\<lparr>e_alerts := Some p', e_store := (e_store e)\<lparr>st_db := d'\<rparr>\<rparr>))"

definition alert_teardown :: "'w ports \<Rightarrow> string \<Rightarrow> string \<Rightarrow> int \<Rightarrow> string \<Rightarrow> int \<Rightarrow> 'w env \<Rightarrow> 'w env" where
  "alert_teardown Q sub hook attempts err now e =
     send_alert Q TeardownFailed sub
       (''provider teardown owed: `'' @ hook @ ''` hook for sub '' @ sub @ '' has failed '' @ int_str attempts
        @ '' time(s); the resource may still be billing. Latest error: '' @ err) now e"

definition alert_paid_destroyed :: "'w ports \<Rightarrow> string \<Rightarrow> string \<Rightarrow> int \<Rightarrow> 'w env \<Rightarrow> 'w env" where
  "alert_paid_destroyed Q sub why now e =
     send_alert Q PaidServiceDestroyed sub
       (''a service was torn down mid-renewal: sub '' @ sub @ '' '' @ em_dash @ '' '' @ why
        @ ''. The subscription stays alive; if the renewal settled, a refund for the un-provided period''
        @ '' follows. Verify no provider resource leaked.'') now e"

subsection \<open>Reads\<close>

record due_sub =
  ds_id :: string
  ds_state :: string
  ds_buyer :: string
  ds_paid :: "int option"
  ds_retention :: int
  ds_deadline :: int
  ds_floor :: "int option"
  ds_recipe :: "string option"

definition due_of :: "int \<Rightarrow> subscription \<Rightarrow> due_sub option" where
  "due_of now s = (case sub_next_deadline s of
     None \<Rightarrow> None
   | Some nd \<Rightarrow> if nd \<le> now
       then Some \<lparr>ds_id = sub_id s, ds_state = sub_state s, ds_buyer = unwrap_or (sub_buyer s) [],
              ds_paid = sub_paid_through s, ds_retention = unwrap_or (sub_retention_s s) 0,
              ds_deadline = nd, ds_floor = sub_floor s, ds_recipe = sub_recipe s\<rparr>
       else None)"

definition due_subscriptions :: "int \<Rightarrow> db \<Rightarrow> due_sub list" where
  "due_subscriptions now d = sort_key ds_deadline (List.map_filter (due_of now) (subs d))"

definition open_order_invoice :: "string \<Rightarrow> db \<Rightarrow> invoice option" where
  "open_order_invoice s d =
     (case rev (sort_key inv_issued
          (filter (\<lambda>i. inv_sub i = Some s \<and> inv_kind i = Some ''order'' \<and> inv_status i = ''OPEN'') (invoices d)))
      of [] \<Rightarrow> None | i # _ \<Rightarrow> Some i)"

definition order_invoice_may_expire :: "'w ports \<Rightarrow> string \<Rightarrow> 'w env \<Rightarrow> bool \<times> 'w env" where
  "order_invoice_may_expire Q s e =
     (case open_order_invoice s (e_db e) of
        None \<Rightarrow> (True, e)
      | Some i \<Rightarrow>
          (case po_lookup Q (inv_id i) (inv_ext i) e of
             (Inr PsPaid, e') \<Rightarrow> (False, e')
           | (Inr _, e') \<Rightarrow> (True, e')
           | (Inl _, e') \<Rightarrow> (False, e')))"

definition open_renewals :: "string \<Rightarrow> db \<Rightarrow> (string \<times> string) list" where
  "open_renewals s d = map (\<lambda>i. (inv_id i, inv_ext i))
     (filter (\<lambda>i. inv_sub i = Some s \<and> inv_kind i = Some ''renewal'' \<and> inv_status i = ''OPEN'') (invoices d))"

fun any_pending :: "'w ports \<Rightarrow> (string \<times> string) list \<Rightarrow> 'w env \<Rightarrow> bool \<times> 'w env" where
  "any_pending Q [] e = (False, e)"
| "any_pending Q ((i, x) # rest) e =
     (case po_lookup Q i x e of
        (Inr PsPaid, e') \<Rightarrow> (True, e')
      | (Inr _, e') \<Rightarrow> any_pending Q rest e'
      | (Inl _, e') \<Rightarrow> (True, e'))"

definition renewal_settlement_pending :: "'w ports \<Rightarrow> string \<Rightarrow> 'w env \<Rightarrow> bool \<times> 'w env" where
  "renewal_settlement_pending Q s e = any_pending Q (open_renewals s (e_db e)) e"

definition subscription_matches :: "string \<Rightarrow> string \<Rightarrow> int \<Rightarrow> db \<Rightarrow> bool" where
  "subscription_matches s state nd d \<longleftrightarrow>
     count_where (\<lambda>r. sub_id r = s \<and> sub_state r = state \<and> sub_next_deadline r = Some nd) (subs d) = 1"

definition subscription_matches_destroy :: "string \<Rightarrow> int \<Rightarrow> db \<Rightarrow> bool" where
  "subscription_matches_destroy s nd d \<longleftrightarrow>
     count_where (\<lambda>r. sub_id r = s \<and> sub_state r \<in> {''SUSPENDED'', ''CANCELLED''} \<and>
                      sub_next_deadline r = Some nd) (subs d) = 1"

definition state_of :: "string \<Rightarrow> db \<Rightarrow> string option" where
  "state_of s d = map_option sub_state (find_sub s d)"

definition sub_recipe_id :: "string \<Rightarrow> db \<Rightarrow> string option" where
  "sub_recipe_id s d = (case find_sub s d of None \<Rightarrow> None | Some r \<Rightarrow> sub_recipe r)"

definition sub_is_terminal_or_absent :: "string \<Rightarrow> db \<Rightarrow> bool" where
  "sub_is_terminal_or_absent s d \<longleftrightarrow> (case state_of s d of None \<Rightarrow> True | Some st \<Rightarrow> st = ''TERMINATED'')"

definition hook_instance :: "string \<Rightarrow> db \<Rightarrow> instance_row option" where
  "hook_instance s d =
     (case find_sub s d of
        None \<Rightarrow> None
      | Some r \<Rightarrow> (case sub_instance r of None \<Rightarrow> None | Some i \<Rightarrow> find_instance i d))"

definition instance_json :: "string \<Rightarrow> instance_row \<Rightarrow> json" where
  "instance_json s i = JObj [(''id'', JStr (ins_id i)), (''subscription_id'', JStr s),
     (''box_id'', json_of_text (ins_box i)), (''kind'', json_of_text (ins_kind i)),
     (''state'', json_of_text (ins_state i)), (''handles'', unwrap_or (ins_handles i) JNull)]"

definition sub_json :: "string \<Rightarrow> string \<Rightarrow> json" where
  "sub_json s buyer = JObj [(''id'', JStr s), (''buyer_pubkey'', JStr buyer)]"

definition lifecycle_hook_input :: "string \<Rightarrow> string \<Rightarrow> db \<Rightarrow> json" where
  "lifecycle_hook_input s buyer d =
     (case hook_instance s d of
        None \<Rightarrow> JObj [(''subscription'', sub_json s buyer)]
      | Some i \<Rightarrow> JObj [(''subscription'', sub_json s buyer), (''instance'', instance_json s i),
                         (''handles'', unwrap_or (ins_handles i) JNull)])"

definition run_lifecycle_hook :: "'w ports \<Rightarrow> string \<Rightarrow> string \<Rightarrow> string \<Rightarrow> 'w env \<Rightarrow> string option \<times> 'w env" where
  "run_lifecycle_hook Q hook s buyer e =
     (case po_hook Q hook (lifecycle_hook_input s buyer (e_db e)) e of
        (Inl err, e') \<Rightarrow> (Some err, e')
      | (Inr _, e') \<Rightarrow> (None, e'))"

definition reconcile_journal :: "string \<Rightarrow> string \<Rightarrow> int \<Rightarrow> db \<Rightarrow> db" where
  "reconcile_journal s kind now d = insert_event (Some s) kind (JObj []) now d"

definition reconcile_enqueue :: "string \<Rightarrow> string \<Rightarrow> string \<Rightarrow> string \<Rightarrow> json \<Rightarrow> int \<Rightarrow> db \<Rightarrow> db" where
  "reconcile_enqueue i recipient s ty payload now d = enqueue_row i (Some recipient) (Some s) ty payload now d"

text \<open>The wire messages; an absent \<open>request_id\<close> is not serialised.\<close>

definition request_member :: "string option \<Rightarrow> (string \<times> json) list" where
  "request_member r = (case r of None \<Rightarrow> [] | Some i \<Rightarrow> [(''request_id'', JStr i)])"

definition billing_notice_json :: "string \<Rightarrow> string option \<Rightarrow> string \<Rightarrow> string \<Rightarrow> json" where
  "billing_notice_json s req state message =
     JObj ([(''type'', JStr ''billing.notice''), (''subscription_id'', JStr s)] @ request_member req @
           [(''state'', JStr state), (''message'', JStr message)])"

definition billing_invoice_json :: "string \<Rightarrow> string option \<Rightarrow> backend_invoice \<Rightarrow> int \<Rightarrow> json" where
  "billing_invoice_json s req i due =
     JObj ([(''type'', JStr ''billing.invoice''), (''subscription_id'', JStr s)] @ request_member req @
           [(''bolt11'', JStr (bi_bolt11 i)), (''amount_sat'', JInt (int (bi_amount i))),
            (''due_at'', JInt due), (''expires_at'', JInt (bi_expires i))])"

subsection \<open>The transactions\<close>

text \<open>\<open>UPDATE subscription SET .. WHERE ..\<close> and whether it touched a row.\<close>

definition cas_sub :: "(subscription \<Rightarrow> bool) \<Rightarrow> (subscription \<Rightarrow> subscription) \<Rightarrow> db \<Rightarrow> bool \<times> db" where
  "cas_sub P f d = (0 < count_where P (subs d), d\<lparr>subs := update_where P f (subs d)\<rparr>)"

definition expire_order_txn :: "string \<Rightarrow> int \<Rightarrow> int \<Rightarrow> bool tx" where
  "expire_order_txn s nd now d =
     (case cas_sub (\<lambda>r. sub_id r = s \<and> sub_state r = ''PENDING'' \<and> sub_next_deadline r = Some nd)
             (\<lambda>r. r\<lparr>sub_state := ''EXPIRED'', sub_next_deadline := None, sub_updated := now\<rparr>) d of
        (False, d') \<Rightarrow> Inr (False, d')
      | (True, d') \<Rightarrow> Inr (True,
          reconcile_journal s ''reconcile_order_expired'' now
            (snd (release_txn s now
               (d'\<lparr>invoices := update_where (\<lambda>i. inv_sub i = Some s \<and> inv_kind i = Some ''order'' \<and> inv_status i = ''OPEN'')
                     (\<lambda>i. i\<lparr>inv_status := ''EXPIRED''\<rparr>) (invoices d')\<rparr>)))))"

record soft_reminder =
  sr_sub :: string
  sr_buyer :: string
  sr_paid :: int
  sr_suspend_at :: int
  sr_cursor :: int
  sr_ext :: string
  sr_invoice :: backend_invoice
  sr_invoice_json :: json
  sr_notice_json :: json

text \<open>\<open>payment_hash\<close> is the hexadecimal text of the backend's hash.\<close>

definition reminder_row :: "soft_reminder \<Rightarrow> int \<Rightarrow> renewal_row" where
  "reminder_row w now =
     (let i = sr_invoice w
      in \<lparr>rn_id = bi_id i, rn_sub = sr_sub w, rn_ext = sr_ext w, rn_backend = bi_backend_id i,
          rn_hash = nat_str (bi_hash i), rn_bolt11 = bi_bolt11 i, rn_amount = as_i64 (bi_amount i),
          rn_expires = bi_expires i, rn_now = now\<rparr>)"

definition soft_reminder_txn :: "soft_reminder \<Rightarrow> int \<Rightarrow> store_error + 'w \<Rightarrow> bool tx" where
  "soft_reminder_txn w now persisted d =
     (case cas_sub (\<lambda>r. sub_id r = sr_sub w \<and> sub_state r = ''ACTIVE'' \<and> sub_next_deadline r = Some (sr_cursor w))
             (\<lambda>r. r\<lparr>sub_next_deadline := Some (sr_suspend_at w), sub_updated := now\<rparr>) d of
        (False, d') \<Rightarrow> Inr (False, d')
      | (True, d') \<Rightarrow>
          (case upsert_renewal_invoice (reminder_row w now) d' of
             Inl err \<Rightarrow> Inl err
           | Inr (_, d1) \<Rightarrow>
               (case persisted of
                  Inl err \<Rightarrow> Inl err
                | Inr _ \<Rightarrow>
                    Inr (True,
                      reconcile_journal (sr_sub w) ''reconcile_soft_renewal'' now
                        (reconcile_enqueue (''outbox:billing-notice:'' @ sr_sub w @ '':'' @ int_str (sr_paid w))
                           (sr_buyer w) (sr_sub w) ''billing.notice'' (sr_notice_json w) now
                          (reconcile_enqueue (''outbox:billing-invoice:'' @ sr_sub w @ '':'' @ int_str (sr_paid w))
                             (sr_buyer w) (sr_sub w) ''billing.invoice'' (sr_invoice_json w) now d1))))))"

definition suspend_txn :: "string \<Rightarrow> string \<Rightarrow> int \<Rightarrow> int \<Rightarrow> int \<Rightarrow> bool tx" where
  "suspend_txn s buyer nd retention_end now d =
     (case cas_sub (\<lambda>r. sub_id r = s \<and> sub_state r = ''ACTIVE'' \<and> sub_next_deadline r = Some nd)
             (\<lambda>r. r\<lparr>sub_state := ''SUSPENDED'', sub_next_deadline := Some retention_end, sub_updated := now\<rparr>) d of
        (False, d') \<Rightarrow> Inr (False, d')
      | (True, d') \<Rightarrow> Inr (True,
          reconcile_journal s ''reconcile_suspend'' now
            (reconcile_enqueue (''outbox:suspend-notice:'' @ s @ '':'' @ int_str nd) buyer s ''billing.notice''
               (billing_notice_json s None ''SUSPENDED'' ''subscription suspended for non-payment; renew to resume'')
               now d')))"

definition terminate_txn :: "string \<Rightarrow> int \<Rightarrow> string option \<Rightarrow> json option \<Rightarrow> int \<Rightarrow> bool tx" where
  "terminate_txn s nd hook_error handles now d =
     (case cas_sub (\<lambda>r. sub_id r = s \<and> sub_state r \<in> {''SUSPENDED'', ''CANCELLED''} \<and> sub_next_deadline r = Some nd)
             (\<lambda>r. r\<lparr>sub_state := ''TERMINATED'', sub_next_deadline := None, sub_updated := now\<rparr>) d of
        (False, d') \<Rightarrow> Inr (False, d')
      | (True, d') \<Rightarrow>
          (let d1 = reconcile_journal s ''reconcile_terminate'' now (snd (release_txn s now d'))
           in Inr (True, case hook_error of None \<Rightarrow> d1
                | Some err \<Rightarrow> snd (record_failure_txn s ''destroy'' handles err now d1))))"

definition expire_renewal_txn :: "string \<Rightarrow> string \<Rightarrow> int \<Rightarrow> bool tx" where
  "expire_renewal_txn i s now d =
     (let P = (\<lambda>v. inv_id v = i \<and> inv_status v = ''OPEN'')
      in if count_where P (invoices d) = 0 then Inr (False, d)
         else Inr (True, reconcile_journal s ''reconcile_renewal_invoice_expired'' now
                (d\<lparr>invoices := update_where P (\<lambda>v. v\<lparr>inv_status := ''EXPIRED''\<rparr>) (invoices d)\<rparr>)))"

text \<open>The heartbeat never moves back.\<close>

definition write_heartbeat_txn :: "int \<Rightarrow> db \<Rightarrow> db" where
  "write_heartbeat_txn now d = d\<lparr>heartbeat := Some (case heartbeat d of None \<Rightarrow> now | Some h \<Rightarrow> max h now)\<rparr>"

subsection \<open>The downtime credit\<close>

text \<open>
  \<open>credited_active\<close> is the new floor and cursor of an ACTIVE row for an outage from \<open>hb\<close> to \<open>now\<close>, or
  none; the SQL conditions of the candidate scan are the first test, the two skips of the loop the others.
\<close>

definition active_candidate :: "int \<Rightarrow> int \<Rightarrow> subscription \<Rightarrow> bool" where
  "active_candidate hb now s \<longleftrightarrow> sub_state s = ''ACTIVE'' \<and>
     sql_le (coalesce (sub_soft_date s) (map_option (\<lambda>p. p - unwrap_or (sub_renew_lead_s s) 0) (sub_paid_through s))) now \<and>
     sql_ge (map_option (\<lambda>p. max p (unwrap_or (sub_floor s) p)) (sub_paid_through s)) hb"

definition credited_active :: "int \<Rightarrow> int \<Rightarrow> subscription \<Rightarrow> (int \<times> int) option" where
  "credited_active hb now s =
     (if \<not> active_candidate hb now s then None
      else (case (sub_paid_through s, sub_next_deadline s) of
        (Some pt, Some nd) \<Rightarrow>
          (let lead = max (unwrap_or (sub_renew_lead_s s) 0) 0;
               raw_soft = unwrap_or (sub_soft_date s) (pt - lead);
               existing = max (unwrap_or (sub_floor s) pt) pt;
               window_start = max raw_soft (existing - lead);
               pre_available = min (max (hb - window_start) 0) lead;
               target = now + (lead - pre_available);
               new_floor = max existing target;
               new_cursor = (if nd < pt then nd else new_floor)
           in if existing = new_floor \<and> new_cursor = nd then None else Some (new_floor, new_cursor))
      | _ \<Rightarrow> None))"

definition suspended_candidate :: "int \<Rightarrow> int \<Rightarrow> subscription \<Rightarrow> bool" where
  "suspended_candidate hb now s \<longleftrightarrow> sub_state s = ''SUSPENDED'' \<and>
     (case (sub_paid_through s, sub_retention_s s, sub_next_deadline s) of
        (Some pt, Some ret, Some _) \<Rightarrow>
          max pt (unwrap_or (sub_floor s) pt) \<le> now \<and> hb < max pt (unwrap_or (sub_floor s) pt) + ret
      | _ \<Rightarrow> False)"

definition credited_suspended :: "int \<Rightarrow> int \<Rightarrow> subscription \<Rightarrow> (int \<times> int) option" where
  "credited_suspended hb now s =
     (if \<not> suspended_candidate hb now s then None
      else (case (sub_paid_through s, sub_retention_s s, sub_next_deadline s) of
        (Some pt, Some ret, Some nd) \<Rightarrow>
          (let e_old = max pt (unwrap_or (sub_floor s) pt);
               b_old = e_old + ret;
               remaining = min (max (b_old - hb) 0) ret;
               target_b = now + remaining;
               new_floor = max (max e_old pt) (target_b - ret);
               new_b = max pt new_floor + ret
           in if new_b \<le> nd then None else Some (new_floor, new_b))
      | _ \<Rightarrow> None))"

text \<open>
  Applies a credit to the row it was computed from: the update is keyed on the id and guarded on the
  state and cursor just read, in the same transaction.
\<close>

definition credit_row ::
  "(subscription \<Rightarrow> (int \<times> int) option) \<Rightarrow> int \<Rightarrow> subscription \<Rightarrow> nat \<times> db \<Rightarrow> nat \<times> db" where
  "credit_row credit now s acc =
     (case credit s of
        None \<Rightarrow> acc
      | Some (floor, cursor) \<Rightarrow>
          (case acc of (n, d) \<Rightarrow>
            (let P = (\<lambda>r. sub_id r = sub_id s \<and> sub_state r = sub_state s \<and> sub_next_deadline r = sub_next_deadline s);
                 d' = d\<lparr>subs := update_where P (\<lambda>r. r\<lparr>sub_floor := Some floor, sub_next_deadline := Some cursor,
                                                   sub_updated := now\<rparr>) (subs d)\<rparr>
             in if count_where P (subs d) = 1 then (n + 1, reconcile_journal (sub_id s) ''downtime_credit'' now d')
                else (n, d'))))"

definition credit_pass :: "(subscription \<Rightarrow> (int \<times> int) option) \<Rightarrow> int \<Rightarrow> nat \<times> db \<Rightarrow> nat \<times> db" where
  "credit_pass credit now acc = fold (credit_row credit now) (subs (snd acc)) acc"

definition apply_restart_downtime_credit :: "int \<Rightarrow> nat tx" where
  "apply_restart_downtime_credit now d =
     (case heartbeat d of
        None \<Rightarrow> Inr (0, write_heartbeat_txn now d)
      | Some hb \<Rightarrow>
          if now \<le> hb then Inr (0, d)
          else (case credit_pass (credited_suspended hb now) now (credit_pass (credited_active hb now) now (0, d)) of
                  (n, d') \<Rightarrow> Inr (n, write_heartbeat_txn now d')))"

subsection \<open>The transitions\<close>

definition fire_pending_expiry :: "'w ports \<Rightarrow> string \<Rightarrow> int \<Rightarrow> int \<Rightarrow> 'w env \<Rightarrow> (store_error + bool) \<times> 'w env" where
  "fire_pending_expiry Q s nd now e =
     (case order_invoice_may_expire Q s e of
        (False, e1) \<Rightarrow> (Inr False, e1)
      | (True, e1) \<Rightarrow> run_tx (expire_order_txn s nd now) e1)"

definition renewal_expiry_s :: "int \<Rightarrow> int \<Rightarrow> int \<Rightarrow> nat" where
  "renewal_expiry_s suspend_at retention now =
     nat (min (max (suspend_at + retention - now) renewal_invoice_min_expiry_s) (int u32_limit - 1))"

definition renew_auto_ext :: "string \<Rightarrow> int \<Rightarrow> string" where
  "renew_auto_ext s paid = ''renew:auto:'' @ s @ '':'' @ int_str paid"

definition fire_soft_reminder ::
  "'w ports \<Rightarrow> due_sub \<Rightarrow> int \<Rightarrow> int \<Rightarrow> int \<Rightarrow> 'w env \<Rightarrow> (store_error + bool) \<times> 'w env" where
  "fire_soft_reminder Q v paid suspend_at now e =
     (if \<not> owns_row Q (ds_recipe v) then (Inr False, e)
      else
        (let ext = renew_auto_ext (ds_id v) paid
         in case po_issue Q (po_price Q) (''lnrent renewal '' @ ds_id v)
                  (renewal_expiry_s suspend_at (ds_retention v) now) ext e of
              (Inl _, e1) \<Rightarrow> (Inr False, e1)
            | (Inr (i, persist), e1) \<Rightarrow>
                (let w = \<lparr>sr_sub = ds_id v, sr_buyer = ds_buyer v, sr_paid = paid, sr_suspend_at = suspend_at,
                          sr_cursor = ds_deadline v, sr_ext = ext, sr_invoice = i,
                          sr_invoice_json = billing_invoice_json (ds_id v) None i paid,
                          sr_notice_json = billing_notice_json (ds_id v) None ''ACTIVE''
                            ''renewal available; pay before paid_through to avoid suspension''\<rparr>;
                     written = persist (e_world e1)
                 in case run_tx (soft_reminder_txn w now written) e1 of
                      (Inr True, e2) \<Rightarrow> (Inr True, case written of Inr u \<Rightarrow> e2\<lparr>e_world := u\<rparr> | Inl _ \<Rightarrow> e2)
                    | (r, e2) \<Rightarrow> (r, e2))))"

definition fire_suspend :: "'w ports \<Rightarrow> due_sub \<Rightarrow> int \<Rightarrow> int \<Rightarrow> 'w env \<Rightarrow> (store_error + bool) \<times> 'w env" where
  "fire_suspend Q v suspend_at now e =
     (let s = ds_id v
      in if \<not> owns_row Q (ds_recipe v) then (Inr False, e)
         else if now < suspend_at then (Inr False, e)
         else if \<not> subscription_matches s ''ACTIVE'' (ds_deadline v) (e_db e) then (Inr False, e)
         else (case renewal_settlement_pending Q s e of
           (True, e1) \<Rightarrow> (Inr False, e1)
         | (False, e1) \<Rightarrow>
             (case run_lifecycle_hook Q ''suspend'' s (ds_buyer v) e1 of (_, e2) \<Rightarrow>
                (case run_tx (suspend_txn s (ds_buyer v) (ds_deadline v) (suspend_at + ds_retention v) now) e2 of
                   (Inr False, e3) \<Rightarrow>
                     (Inr False, if state_of s (e_db e3) = Some ''ACTIVE''
                                 then snd (run_lifecycle_hook Q ''resume'' s (ds_buyer v) e3) else e3)
                 | (r, e3) \<Rightarrow> (r, e3)))))"

definition fire_destroy :: "'w ports \<Rightarrow> due_sub \<Rightarrow> int \<Rightarrow> 'w env \<Rightarrow> (store_error + bool) \<times> 'w env" where
  "fire_destroy Q v now e =
     (let s = ds_id v
      in if \<not> owns_row Q (ds_recipe v) then (Inr False, e)
         else if \<not> subscription_matches_destroy s (ds_deadline v) (e_db e) then (Inr False, e)
         else (case renewal_settlement_pending Q s e of
           (True, e1) \<Rightarrow> (Inr False, e1)
         | (False, e1) \<Rightarrow>
             (case run_lifecycle_hook Q ''destroy'' s (ds_buyer v) e1 of (hook_error, e2) \<Rightarrow>
                (case renewal_settlement_pending Q s e2 of
                   (True, e3) \<Rightarrow>
                     (Inr False, alert_paid_destroyed Q s
                        ''a renewal settlement was pending after the destroy hook ran'' now e3)
                 | (False, e3) \<Rightarrow>
                     (let handles = (if hook_error = None then None
                          else (case hook_instance s (e_db e3) of None \<Rightarrow> None | Some i \<Rightarrow> ins_handles i))
                      in case run_tx (terminate_txn s (ds_deadline v) hook_error handles now) e3 of
                           (Inr True, e4) \<Rightarrow>
                             (Inr True, case hook_error of
                                None \<Rightarrow> e4
                              | Some err \<Rightarrow> alert_teardown Q s ''destroy''
                                  (case open_row s ''destroy'' (e_db e4) of None \<Rightarrow> 1 | Some r \<Rightarrow> td_attempts r) err now e4)
                         | (Inr False, e4) \<Rightarrow>
                             (Inr False, case state_of s (e_db e4) of
                                None \<Rightarrow> e4
                              | Some st \<Rightarrow> if st = ''TERMINATED'' then e4
                                  else alert_paid_destroyed Q s (''a renewal won the destroy race (sub now '' @ st @ '')'') now e4)
                         | (Inl err, e4) \<Rightarrow> (Inl err, e4))))))"

subsection \<open>The passes beside the cursor scan\<close>

definition expirable_renewals :: "int \<Rightarrow> db \<Rightarrow> (string \<times> string \<times> string) list" where
  "expirable_renewals now d = map (\<lambda>i. (inv_id i, unwrap_or (inv_sub i) [], inv_ext i))
     (filter (\<lambda>i. inv_kind i = Some ''renewal'' \<and> inv_status i = ''OPEN'' \<and> sql_le (inv_expires i) now) (invoices d))"

fun expire_each :: "'w ports \<Rightarrow> int \<Rightarrow> (string \<times> string \<times> string) list \<Rightarrow> nat \<Rightarrow> 'w env \<Rightarrow> (store_error + nat) \<times> 'w env" where
  "expire_each Q now [] n e = (Inr n, e)"
| "expire_each Q now ((i, s, x) # rest) n e =
     (case po_lookup Q i x e of
        (Inr PsPaid, e1) \<Rightarrow> expire_each Q now rest n e1
      | (Inl _, e1) \<Rightarrow> expire_each Q now rest n e1
      | (Inr _, e1) \<Rightarrow>
          (case run_tx (expire_renewal_txn i s now) e1 of
             (Inl err, e2) \<Rightarrow> (Inl err, e2)
           | (Inr claimed, e2) \<Rightarrow> expire_each Q now rest (if claimed then n + 1 else n) e2))"

definition expire_open_renewals :: "'w ports \<Rightarrow> int \<Rightarrow> 'w env \<Rightarrow> (store_error + nat) \<times> 'w env" where
  "expire_open_renewals Q now e = expire_each Q now (expirable_renewals now (e_db e)) 0 e"

definition retry_input :: "teardown_failure \<Rightarrow> json" where
  "retry_input r = (let h = unwrap_or (td_handles r) JNull
     in JObj [(''subscription'', JObj [(''id'', JStr (td_sub r))]),
              (''instance'', JObj [(''subscription_id'', JStr (td_sub r)), (''handles'', h)]), (''handles'', h)])"

fun retry_each :: "'w ports \<Rightarrow> int \<Rightarrow> teardown_failure list \<Rightarrow> nat \<Rightarrow> 'w env \<Rightarrow> (store_error + nat) \<times> 'w env" where
  "retry_each Q now [] n e = (Inr n, e)"
| "retry_each Q now (r # rest) n e =
     (if \<not> owns_row Q (sub_recipe_id (td_sub r) (e_db e)) then retry_each Q now rest n e
      else if \<not> sub_is_terminal_or_absent (td_sub r) (e_db e) then retry_each Q now rest n e
      else (case po_hook Q (td_hook r) (retry_input r) e of
        (Inr _, e1) \<Rightarrow>
          (case run_tx (\<lambda>d. Inr ((), mark_resolved (td_sub r) (td_hook r) now d)) e1 of
             (Inl err, e2) \<Rightarrow> (Inl err, e2)
           | (Inr _, e2) \<Rightarrow> retry_each Q now rest (n + 1) e2)
      | (Inl herr, e1) \<Rightarrow>
          (case run_tx (\<lambda>d. Inr (record_failure_txn (td_sub r) (td_hook r) (td_handles r) herr now d)) e1 of
             (Inl err, e2) \<Rightarrow> (Inl err, e2)
           | (Inr attempts, e2) \<Rightarrow>
               retry_each Q now rest n (alert_teardown Q (td_sub r) (td_hook r) attempts herr now e2))))"

definition retry_teardowns :: "'w ports \<Rightarrow> int \<Rightarrow> 'w env \<Rightarrow> (store_error + nat) \<times> 'w env" where
  "retry_teardowns Q now e = retry_each Q now (open_due_rows now (e_db e)) 0 e"

subsection \<open>The tick\<close>

record tick_report =
  tr_expired :: nat
  tr_reminded :: nat
  tr_suspended :: nat
  tr_terminated :: nat
  tr_invoices :: nat
  tr_noops :: nat

datatype transition = Expired | Reminded | Suspended | Terminated | NoTransition

definition effective_suspend_at :: "int \<Rightarrow> int option \<Rightarrow> int" where
  "effective_suspend_at paid floor = max paid (unwrap_or floor paid)"

text \<open>The single transition of a due row, chosen by the state and the cursor it was read with.\<close>

definition fire :: "'w ports \<Rightarrow> int \<Rightarrow> due_sub \<Rightarrow> 'w env \<Rightarrow> transition \<times> (store_error + bool) \<times> 'w env" where
  "fire Q now v e =
     (if ds_state v = ''PENDING'' then (Expired, fire_pending_expiry Q (ds_id v) (ds_deadline v) now e)
      else if ds_state v = ''ACTIVE'' then
        (case ds_paid v of
           None \<Rightarrow> (NoTransition, Inr False, e)
         | Some pt \<Rightarrow>
             (let at = effective_suspend_at pt (ds_floor v)
              in if ds_deadline v < pt then (Reminded, fire_soft_reminder Q v pt at now e)
                 else (Suspended, fire_suspend Q v at now e)))
      else if ds_state v = ''SUSPENDED'' \<or> ds_state v = ''CANCELLED'' then (Terminated, fire_destroy Q v now e)
      else (NoTransition, Inr False, e))"

definition tally :: "transition \<Rightarrow> bool \<Rightarrow> tick_report \<Rightarrow> tick_report" where
  "tally t fired r =
     (if \<not> fired then r\<lparr>tr_noops := tr_noops r + 1\<rparr>
      else (case t of
              Expired \<Rightarrow> r\<lparr>tr_expired := tr_expired r + 1\<rparr>
            | Reminded \<Rightarrow> r\<lparr>tr_reminded := tr_reminded r + 1\<rparr>
            | Suspended \<Rightarrow> r\<lparr>tr_suspended := tr_suspended r + 1\<rparr>
            | Terminated \<Rightarrow> r\<lparr>tr_terminated := tr_terminated r + 1\<rparr>
            | NoTransition \<Rightarrow> r\<lparr>tr_noops := tr_noops r + 1\<rparr>))"

fun fire_all :: "'w ports \<Rightarrow> int \<Rightarrow> due_sub list \<Rightarrow> tick_report \<Rightarrow> 'w env \<Rightarrow> (store_error + tick_report) \<times> 'w env" where
  "fire_all Q now [] rep e = (Inr rep, e)"
| "fire_all Q now (v # rest) rep e =
     (case fire Q now v e of
        (_, Inl err, e1) \<Rightarrow> (Inl err, e1)
      | (t, Inr fired, e1) \<Rightarrow> fire_all Q now rest (tally t fired rep) e1)"

definition empty_report :: tick_report where
  "empty_report = \<lparr>tr_expired = 0, tr_reminded = 0, tr_suspended = 0, tr_terminated = 0, tr_invoices = 0, tr_noops = 0\<rparr>"

text \<open>The housekeeping after the scans is best effort: its errors are logged and dropped.\<close>

definition housekeeping :: "'w ports \<Rightarrow> int \<Rightarrow> int \<Rightarrow> 'w env \<Rightarrow> 'w env" where
  "housekeeping Q clock now e =
     (let e1 = snd (run_tx (\<lambda>d. Inr (prune_idempotency_caches clock now d)) e);
          e2 = snd (run_tx (\<lambda>d. Inr (reap_terminal_rows clock now d)) e1)
      in snd (retry_teardowns Q now e2))"

definition reconcile_tick :: "'w ports \<Rightarrow> int \<Rightarrow> int \<Rightarrow> 'w env \<Rightarrow> (store_error + tick_report) \<times> 'w env" where
  "reconcile_tick Q clock now e =
     (case fire_all Q now (due_subscriptions now (e_db e)) empty_report e of
        (Inl err, e1) \<Rightarrow> (Inl err, e1)
      | (Inr rep, e1) \<Rightarrow>
          (case expire_open_renewals Q now e1 of
             (Inl err, e2) \<Rightarrow> (Inl err, e2)
           | (Inr n, e2) \<Rightarrow>
               (case run_tx (\<lambda>d. Inr ((), write_heartbeat_txn now d)) e2 of
                  (Inl err, e3) \<Rightarrow> (Inl err, e3)
                | (Inr _, e3) \<Rightarrow> (Inr (rep\<lparr>tr_invoices := n\<rparr>), housekeeping Q clock now e3))))"

end
