(* ===== verification/Recipe.thy ===== *)
theory Recipe
  imports Schema
begin

text \<open>
  The recipe manifest and its validation, \<open>daemon/src/recipe.rs\<close>, and the environment and the spawn of one of
  its hooks, \<open>daemon/src/runner.rs\<close>, whose run is the theory \<open>Hook_Run\<close>.

  A path is the list of its components. The file system is the record \<open>F\<close>: which paths are executable
  files and what they canonicalise to. Error texts are those of the code, whose callers read them.
\<close>

subsection \<open>The manifest\<close>

record param_spec =
  pm_key :: string
  pm_label :: string
  pm_type :: string
  pm_required :: bool

record operation =
  op_name :: string
  op_label :: string
  op_kind :: string
  op_hook_file :: string
  op_params :: "param_spec list"

type_synonym path = "string list"

record recipe =
  rc_id :: string
  rc_name :: string
  rc_summary :: string
  rc_version :: string
  rc_category :: "string list"
  rc_amount :: nat
  rc_period :: string
  rc_renew_lead :: string
  rc_retention :: string
  rc_backend :: string
  rc_isolation :: string
  rc_tier :: string
  rc_res :: resources
  rc_env :: "string list"
  rc_os :: "string list"
  rc_params :: "param_spec list"
  rc_operations :: "operation list"
  rc_dir :: path

record fs =
  fs_executable :: "path \<Rightarrow> bool"
  fs_canonical :: "path \<Rightarrow> path option"

definition lifecycle_hooks :: "string list" where
  "lifecycle_hooks = [''provision'', ''suspend'', ''resume'', ''destroy'', ''healthcheck'']"

definition is_known_compute_backend :: "string \<Rightarrow> bool" where
  "is_known_compute_backend b \<longleftrightarrow> b \<in> {''host'', ''incus'', ''libvirt'', ''proxmox''} \<or> starts_with ''cloud-'' b"

definition hook_is_safe :: "operation \<Rightarrow> bool" where
  "hook_is_safe op \<longleftrightarrow> op_hook_file op \<noteq> [] \<and> CHR ''/'' \<notin> set (op_hook_file op) \<and> CHR 0x5C \<notin> set (op_hook_file op) \<and>
     op_hook_file op \<noteq> ''..'' \<and> op_hook_file op \<noteq> ''.''"

definition hook_path :: "recipe \<Rightarrow> string \<Rightarrow> path" where
  "hook_path R name = rc_dir R @ [name]"

definition preflight_hook :: "recipe \<Rightarrow> path" where
  "preflight_hook R = hook_path R ''preflight''"

definition operation_of :: "recipe \<Rightarrow> string \<Rightarrow> operation option" where
  "operation_of R name = List.find (\<lambda>op. op_name op = name) (rc_operations R)"

definition recipe_owns_row :: "recipe \<Rightarrow> string option \<Rightarrow> bool" where
  "recipe_owns_row R r \<longleftrightarrow> (case r of None \<Rightarrow> True | Some i \<Rightarrow> i = rc_id R)"

definition ops_dir :: "recipe \<Rightarrow> path" where
  "ops_dir R = rc_dir R @ [''ops'']"

definition op_hook :: "recipe \<Rightarrow> operation \<Rightarrow> path" where
  "op_hook R op = ops_dir R @ [op_hook_file op]"

subsection \<open>Validation\<close>

text \<open>Each check gives the first defect it finds; \<open>or_else\<close> is the sequence of \<open>bail!\<close>s.\<close>

definition or_else :: "'a option \<Rightarrow> 'a option \<Rightarrow> 'a option" where
  "or_else x y = (case x of None \<Rightarrow> y | Some _ \<Rightarrow> x)"

datatype recipe_error =
    EmptyServiceId
  | HookMissing string
  | UnknownBackend string
  | UnknownIsolation string
  | InvalidTier string
  | NoOs
  | UnsupportedOs string
  | DuplicateOperation string
  | UnknownOperationKind string string
  | UnsafeHook string string
  | OperationHookMissing string
  | HookEscapes string
  | TooManyParams nat
  | TooManyOperations nat
  | TooManyOperationParams string nat
  | TooManyEnv nat
  | BadEnvName string
  | ForbiddenEnv string

definition max_listing_params :: nat where "max_listing_params = 64"
definition max_listing_operations :: nat where "max_listing_operations = 64"
definition max_recipe_env :: nat where "max_recipe_env = 16"
definition max_env_name_len :: nat where "max_env_name_len = 64"

fun missing_hook :: "fs \<Rightarrow> recipe \<Rightarrow> string list \<Rightarrow> recipe_error option" where
  "missing_hook F R [] = None"
| "missing_hook F R (n # ns) = (if fs_executable F (hook_path R n) then missing_hook F R ns else Some (HookMissing n))"

fun bad_os :: "string list \<Rightarrow> recipe_error option" where
  "bad_os [] = None"
| "bad_os (x # xs) = (if x \<in> {''nixos'', ''debian''} then bad_os xs else Some (UnsupportedOs x))"

fun path_prefix :: "path \<Rightarrow> path \<Rightarrow> bool" where
  "path_prefix [] _ = True"
| "path_prefix (x # xs) [] = False"
| "path_prefix (x # xs) (y # ys) = (x = y \<and> path_prefix xs ys)"

definition check_request_hook :: "fs \<Rightarrow> recipe \<Rightarrow> operation \<Rightarrow> recipe_error option" where
  "check_request_hook F R op =
     (if op_kind op \<noteq> ''request'' then None
      else if \<not> fs_executable F (op_hook R op) then Some (OperationHookMissing (op_name op))
      else (case (fs_canonical F (ops_dir R), fs_canonical F (op_hook R op)) of
        (Some co, Some ch) \<Rightarrow> if path_prefix co ch then None else Some (HookEscapes (op_name op))
      | _ \<Rightarrow> None))"

fun bad_operation :: "fs \<Rightarrow> recipe \<Rightarrow> string list \<Rightarrow> operation list \<Rightarrow> recipe_error option" where
  "bad_operation F R seen [] = None"
| "bad_operation F R seen (op # ops) =
     (if op_name op \<in> set seen then Some (DuplicateOperation (op_name op))
      else if op_kind op \<notin> {''request'', ''interactive''} then Some (UnknownOperationKind (op_name op) (op_kind op))
      else if \<not> hook_is_safe op then Some (UnsafeHook (op_name op) (op_hook_file op))
      else or_else (check_request_hook F R op) (bad_operation F R (op_name op # seen) ops))"

fun bad_operation_params :: "operation list \<Rightarrow> recipe_error option" where
  "bad_operation_params [] = None"
| "bad_operation_params (op # ops) =
     (if max_listing_params < length (op_params op) then Some (TooManyOperationParams (op_name op) (length (op_params op)))
      else bad_operation_params ops)"

definition env_char :: "char \<Rightarrow> bool" where
  "env_char c = (let n = of_char c :: nat in (65 \<le> n \<and> n \<le> 90) \<or> (48 \<le> n \<and> n \<le> 57) \<or> c = CHR ''_'')"

fun bad_env :: "string list \<Rightarrow> recipe_error option" where
  "bad_env [] = None"
| "bad_env (x # xs) =
     (if x = [] \<or> max_env_name_len < length x \<or> \<not> list_all env_char x then Some (BadEnvName x)
      else if starts_with ''LNRENT'' x then Some (ForbiddenEnv x)
      else bad_env xs)"

definition validate_recipe :: "fs \<Rightarrow> recipe \<Rightarrow> recipe_error option" where
  "validate_recipe F R =
     (if rc_id R = [] then Some EmptyServiceId
      else or_else (missing_hook F R lifecycle_hooks)
        (if \<not> is_known_compute_backend (rc_backend R) then Some (UnknownBackend (rc_backend R))
         else if rc_isolation R \<notin> {''none'', ''container'', ''vm''} then Some (UnknownIsolation (rc_isolation R))
         else if rc_tier R \<notin> {''0'', ''1'', ''1.5'', ''2''} then Some (InvalidTier (rc_tier R))
         else if rc_os R = [] then Some NoOs
         else or_else (bad_os (rc_os R))
           (or_else (bad_operation F R [] (rc_operations R))
             (if max_listing_params < length (rc_params R) then Some (TooManyParams (length (rc_params R)))
              else if max_listing_operations < length (rc_operations R)
              then Some (TooManyOperations (length (rc_operations R)))
              else or_else (bad_operation_params (rc_operations R))
                (if max_recipe_env < length (rc_env R) then Some (TooManyEnv (length (rc_env R)))
                 else bad_env (rc_env R))))))"

subsection \<open>Running a hook\<close>

definition base_hook_env :: "string list" where
  "base_hook_env = [''PATH'', ''HOME'', ''LANG'', ''LC_ALL'', ''TZ'', ''TMPDIR'']"

definition hook_env_from :: "(string \<Rightarrow> string option) \<Rightarrow> string list \<Rightarrow> (string \<times> string) list" where
  "hook_env_from get names = List.map_filter (\<lambda>n. map_option (Pair n) (get n)) (base_hook_env @ names)"

datatype spawn_try = Spawned | SpawnError "int option"

text \<open>The retry of a transient spawn failure; \<open>tries\<close> gives what the n-th attempt does.\<close>

definition transient_spawn :: "int option \<Rightarrow> bool" where
  "transient_spawn c \<longleftrightarrow> c = Some 26 \<or> c = Some 11"

function spawn_hook :: "(nat \<Rightarrow> spawn_try) \<Rightarrow> nat \<Rightarrow> bool" where
  "spawn_hook tries attempt =
     (case tries attempt of
        Spawned \<Rightarrow> True
      | SpawnError c \<Rightarrow> if attempt < 5 \<and> transient_spawn c then spawn_hook tries (attempt + 1) else False)"
  by auto
termination by (relation "measure (\<lambda>(_, n). 5 - n)") auto

declare spawn_hook.simps [simp del]

subsection \<open>What validation gives\<close>

lemma or_else_None [simp]: "or_else x y = None \<longleftrightarrow> x = None \<and> y = None"
  by (simp add: or_else_def split: option.split)

lemma missing_hook_None: "missing_hook F R ns = None \<longleftrightarrow> (\<forall>n\<in>set ns. fs_executable F (hook_path R n))"
  by (induction ns) auto

lemma bad_env_None:
  "bad_env xs = None \<longleftrightarrow> (\<forall>x\<in>set xs. x \<noteq> [] \<and> length x \<le> max_env_name_len \<and> list_all env_char x \<and> \<not> starts_with ''LNRENT'' x)"
  by (induction xs) auto

lemma bad_operation_None:
  "bad_operation F R seen ops = None \<Longrightarrow>
     distinct (map op_name ops) \<and> set (map op_name ops) \<inter> set seen = {} \<and>
     (\<forall>op\<in>set ops. op_kind op \<in> {''request'', ''interactive''} \<and> hook_is_safe op \<and> check_request_hook F R op = None)"
proof (induction ops arbitrary: seen)
  case (Cons a ops)
  from Cons.prems have rest: "bad_operation F R (op_name a # seen) ops = None" and a: "op_name a \<notin> set seen"
    "op_kind a \<in> {''request'', ''interactive''}" "hook_is_safe a" "check_request_hook F R a = None"
    by (auto split: if_split_asm)
  from Cons.IH [OF rest] a show ?case by (simp add: disjoint_iff) blast
qed simp

lemma bad_operation_params_None:
  "bad_operation_params ops = None \<longleftrightarrow> (\<forall>op\<in>set ops. length (op_params op) \<le> max_listing_params)"
  by (induction ops) auto

lemma validate_recipeD:
  assumes "validate_recipe F R = None"
  shows "rc_id R \<noteq> []" "\<forall>n\<in>set lifecycle_hooks. fs_executable F (hook_path R n)"
    "bad_operation F R [] (rc_operations R) = None" "length (rc_params R) \<le> max_listing_params"
    "length (rc_operations R) \<le> max_listing_operations"
    "\<forall>op\<in>set (rc_operations R). length (op_params op) \<le> max_listing_params" "bad_env (rc_env R) = None"
  using assms
  by (simp_all add: validate_recipe_def missing_hook_None bad_operation_params_None split: if_split_asm)

lemma hook_env_names: "(n, v) \<in> set (hook_env_from get names) \<longleftrightarrow> n \<in> set (base_hook_env @ names) \<and> get n = Some v"
proof -
  have "(n, v) \<in> set (List.map_filter (\<lambda>x. map_option (Pair x) (get x)) xs) \<longleftrightarrow> n \<in> set xs \<and> get n = Some v" for xs
    by (induction xs) (auto simp: List.map_filter_def split: option.split)
  then show ?thesis by (simp add: hook_env_from_def)
qed

lemma base_env_clean: "n \<in> set base_hook_env \<Longrightarrow> \<not> starts_with ''LNRENT'' n"
  by (auto simp: base_hook_env_def starts_with_def)

text \<open>
  C37. A validated recipe is confined: its lifecycle hooks and the hook of every request operation are
  executable files, a request hook that exists lies inside the recipe's own \<open>ops/\<close> once links are
  resolved, an operation is found by its name alone, and whatever the daemon's environment holds,
  no hook is given a variable of the \<open>LNRENT\<close> namespace or one that is neither in the fixed base
  list nor declared.
\<close>

theorem validated_recipe_confined:
  assumes ok: "validate_recipe F R = None"
  shows "(\<forall>n\<in>set lifecycle_hooks. fs_executable F (hook_path R n)) \<and>
    (\<forall>op\<in>set (rc_operations R). operation_of R (op_name op) = Some op \<and> hook_is_safe op \<and>
       (op_kind op = ''request'' \<longrightarrow> fs_executable F (op_hook R op) \<and>
          (\<forall>co ch. fs_canonical F (ops_dir R) = Some co \<longrightarrow> fs_canonical F (op_hook R op) = Some ch \<longrightarrow> path_prefix co ch))) \<and>
    (\<forall>n v. (n, v) \<in> set (hook_env_from get (rc_env R)) \<longrightarrow>
       get n = Some v \<and> n \<in> set base_hook_env \<union> set (rc_env R) \<and> \<not> starts_with ''LNRENT'' n)"
proof (intro conjI)
  note d = validate_recipeD [OF ok]
  note ops = bad_operation_None [OF d(3)]
  show "\<forall>n\<in>set lifecycle_hooks. fs_executable F (hook_path R n)" by (rule d(2))
  show "\<forall>op\<in>set (rc_operations R). operation_of R (op_name op) = Some op \<and> hook_is_safe op \<and>
       (op_kind op = ''request'' \<longrightarrow> fs_executable F (op_hook R op) \<and>
          (\<forall>co ch. fs_canonical F (ops_dir R) = Some co \<longrightarrow> fs_canonical F (op_hook R op) = Some ch \<longrightarrow> path_prefix co ch))"
  proof
    fix op assume op: "op \<in> set (rc_operations R)"
    have "operation_of R (op_name op) = Some op"
      using ops op by (simp add: operation_of_def find_key_unique)
    then show "operation_of R (op_name op) = Some op \<and> hook_is_safe op \<and>
       (op_kind op = ''request'' \<longrightarrow> fs_executable F (op_hook R op) \<and>
          (\<forall>co ch. fs_canonical F (ops_dir R) = Some co \<longrightarrow> fs_canonical F (op_hook R op) = Some ch \<longrightarrow> path_prefix co ch))"
      using ops op by (auto simp: check_request_hook_def split: if_splits option.splits)
  qed
  show "\<forall>n v. (n, v) \<in> set (hook_env_from get (rc_env R)) \<longrightarrow>
       get n = Some v \<and> n \<in> set base_hook_env \<union> set (rc_env R) \<and> \<not> starts_with ''LNRENT'' n"
    using d(7) by (auto simp: hook_env_names bad_env_None dest: base_env_clean)
qed

definition sample_recipe :: recipe where
  "sample_recipe = \<lparr>rc_id = ''vps'', rc_name = ''VPS'', rc_summary = ''A box'', rc_version = ''1'', rc_category = [],
     rc_amount = 7, rc_period = ''30d'', rc_renew_lead = ''3d'', rc_retention = ''7d'', rc_backend = ''host'',
     rc_isolation = ''vm'', rc_tier = ''1'', rc_res = \<lparr>r_cpu = 1, r_mem_mb = 0, r_disk_gb = 0\<rparr>, rc_env = [''DO_TOKEN''],
     rc_os = [''nixos''], rc_params = [],
     rc_operations = [\<lparr>op_name = ''restart'', op_label = ''Restart'', op_kind = ''request'', op_hook_file = ''restart.sh'',
       op_params = []\<rparr>], rc_dir = [''srv'', ''vps'']\<rparr>"

definition sample_fs :: fs where
  "sample_fs = \<lparr>fs_executable = (\<lambda>_. True), fs_canonical = Some\<rparr>"

lemmas recipe_eval = validate_recipe_def or_else_def lifecycle_hooks_def is_known_compute_backend_def hook_is_safe_def
  check_request_hook_def op_hook_def ops_dir_def max_listing_params_def max_listing_operations_def max_recipe_env_def
  max_env_name_len_def env_char_def starts_with_def

lemma sample_recipe_valid: "validate_recipe sample_fs sample_recipe = None"
  by (simp add: recipe_eval sample_recipe_def sample_fs_def)

theorem validated_recipe_confined_witness:
  "validate_recipe sample_fs sample_recipe = None \<and>
   operation_of sample_recipe ''restart'' = Some (hd (rc_operations sample_recipe)) \<and>
   set (hook_env_from (\<lambda>n. if n = ''LNRENT_MNEMONIC'' \<or> n = ''DO_TOKEN'' then Some ''x'' else None) (rc_env sample_recipe))
     = {(''DO_TOKEN'', ''x'')}"
proof (intro conjI)
  show "validate_recipe sample_fs sample_recipe = None" by (rule sample_recipe_valid)
  show "operation_of sample_recipe ''restart'' = Some (hd (rc_operations sample_recipe))"
    using validated_recipe_confined [OF sample_recipe_valid] by (simp add: sample_recipe_def)
  show "set (hook_env_from (\<lambda>n. if n = ''LNRENT_MNEMONIC'' \<or> n = ''DO_TOKEN'' then Some ''x'' else None) (rc_env sample_recipe))
     = {(''DO_TOKEN'', ''x'')}"
    by (simp add: hook_env_from_def base_hook_env_def sample_recipe_def List.map_filter_def)
qed

subsection \<open>Timeouts and spawns\<close>

fun contains_text :: "string \<Rightarrow> string \<Rightarrow> bool" where
  "contains_text p [] = (p = [])"
| "contains_text p (c # cs) = (starts_with p (c # cs) \<or> contains_text p cs)"

lemma contains_text_append: "contains_text p (a @ p @ b)"
proof (induction a)
  case Nil
  have "starts_with p (p @ b)" by simp
  then show ?case by (cases "p @ b") (auto simp: starts_with_iff)
qed simp

lemma contains_text_chars: "contains_text p s \<Longrightarrow> set p \<subseteq> set s"
proof (induction s)
  case (Cons c s)
  then show ?case by (auto simp: starts_with_iff) (metis Un_iff insert_iff list.set(2) set_append)
qed simp

text \<open>\<open>op_dispatch::is_timeout\<close>, which tells a timeout by the text of the error.\<close>

definition is_timeout :: "string \<Rightarrow> bool" where
  "is_timeout m \<longleftrightarrow> contains_text '' timed out after '' m \<and> \<not> contains_text '' failed (exit '' m"

lemma spawn_hook_step:
  "spawn_hook tries n \<longleftrightarrow> tries n = Spawned \<or>
     (n < 5 \<and> (\<exists>c. tries n = SpawnError c \<and> transient_spawn c) \<and> spawn_hook tries (Suc n))"
  by (subst spawn_hook.simps) (auto split: spawn_try.split)

text \<open>
  C40. The retry of a hook's spawn ends: it succeeds exactly when one of the first six attempts does after
  nothing but transient failures (text file busy, resource unavailable), so no recipe and no busy machine
  can keep the runner in the loop, and what any later attempt would do does not matter.
\<close>

theorem spawn_retries:
  "spawn_hook tries 0 =
     list_ex (\<lambda>n. tries n = Spawned \<and>
       list_all (\<lambda>m. case tries m of Spawned \<Rightarrow> False | SpawnError c \<Rightarrow> transient_spawn c) [0..<n]) [0..<6]"
proof -
  let ?T = "\<lambda>m. case tries m of Spawned \<Rightarrow> False | SpawnError c \<Rightarrow> transient_spawn c"
  have t: "(\<exists>c. tries n = SpawnError c \<and> transient_spawn c) = ?T n" for n by (simp split: spawn_try.split)
  have six: "[0..<6] = [0, 1, 2, 3, 4, 5::nat]" by (simp add: upt_rec)
  show ?thesis
    unfolding spawn_hook_step [of tries 0] spawn_hook_step [of tries "Suc 0"] spawn_hook_step [of tries "Suc (Suc 0)"]
      spawn_hook_step [of tries "Suc (Suc (Suc 0))"] spawn_hook_step [of tries "Suc (Suc (Suc (Suc 0)))"]
      spawn_hook_step [of tries "Suc (Suc (Suc (Suc (Suc 0))))"] t six
    by (simp add: upt_rec numeral_eq_Suc) blast
qed

end
