(* ===== verification/Wire_Dm.thy ===== *)
theory Wire_Dm
  imports Schema
begin

text \<open>
  The direct messages of the protocol, \<open>wire/src/dm.rs\<close> and \<open>wire/src/wrap.rs\<close>: the tagged union
  \<open>Msg\<close>, its encoding as a JSON value and the decoder a peer runs on what it received.

  The text of a JSON value and the gift wrap around it are the libraries' part; a sealed wrap is the
  record \<open>W\<close> of what they yield. \<open>u64\<close> and \<open>i64\<close> msg_members are decoded with their range.
\<close>

subsection \<open>Messages\<close>

record wire_error =
  we_code :: string
  we_message :: string
  we_retryable :: bool

record order_request =
  or_id :: string
  or_listing :: string
  or_params :: json
  or_dest :: "string option"

record order_invoice =
  ov_req :: string
  ov_order :: string
  ov_bolt11 :: string
  ov_amount :: nat
  ov_period :: string
  ov_expires :: int

record order_error =
  oe_req :: string
  oe_order :: "string option"
  oe_error :: wire_error

record billing_invoice =
  bv_sub :: string
  bv_req :: "string option"
  bv_bolt11 :: string
  bv_amount :: nat
  bv_due :: int
  bv_expires :: int

record billing_notice =
  bn_sub :: string
  bn_req :: "string option"
  bn_state :: string
  bn_message :: string

record billing_refund =
  br_sub :: string
  br_amount :: nat
  br_status :: string

record renew_request =
  rr_req_id :: string
  rr_req_sub :: string

record op_request =
  oq_id :: string
  oq_sub :: string
  oq_op :: string
  oq_params :: json

datatype op_status = OpOk | OpError

record op_result =
  ot_req :: string
  ot_sub :: string
  ot_op :: string
  ot_status :: op_status
  ot_data :: "json option"
  ot_error :: "wire_error option"

record operator_alert =
  oa_kind :: string
  oa_subject :: string
  oa_detail :: string

datatype msg =
    OrderRequest order_request
  | OrderInvoice order_invoice
  | OrderError order_error
  | ProvisionReady string json
  | DeliveryResendRequest string
  | BillingInvoice billing_invoice
  | BillingNotice billing_notice
  | BillingRefund billing_refund
  | RenewRequest renew_request
  | SubCancel string
  | OpRequest op_request
  | OpResult op_result
  | OperatorAlert operator_alert

fun type_str :: "msg \<Rightarrow> string" where
  "type_str (OrderRequest _) = ''order.request''"
| "type_str (OrderInvoice _) = ''order.invoice''"
| "type_str (OrderError _) = ''order.error''"
| "type_str (ProvisionReady _ _) = ''provision.ready''"
| "type_str (DeliveryResendRequest _) = ''delivery.resend.request''"
| "type_str (BillingInvoice _) = ''billing.invoice''"
| "type_str (BillingNotice _) = ''billing.notice''"
| "type_str (BillingRefund _) = ''billing.refund''"
| "type_str (RenewRequest _) = ''renew.request''"
| "type_str (SubCancel _) = ''sub.cancel''"
| "type_str (OpRequest _) = ''op.request''"
| "type_str (OpResult _) = ''op.result''"
| "type_str (OperatorAlert _) = ''operator.alert''"

subsection \<open>\<open>op.result\<close>\<close>

definition op_ok :: "string \<Rightarrow> string \<Rightarrow> string \<Rightarrow> json \<Rightarrow> op_result" where
  "op_ok req s op data = \<lparr>ot_req = req, ot_sub = s, ot_op = op, ot_status = OpOk, ot_data = Some data, ot_error = None\<rparr>"

definition op_err :: "string \<Rightarrow> string \<Rightarrow> string \<Rightarrow> wire_error \<Rightarrow> op_result" where
  "op_err req s op err = \<lparr>ot_req = req, ot_sub = s, ot_op = op, ot_status = OpError, ot_data = None, ot_error = Some err\<rparr>"

definition is_object :: "json \<Rightarrow> bool" where
  "is_object j \<longleftrightarrow> (case j of JObj _ \<Rightarrow> True | _ \<Rightarrow> False)"

definition op_result_valid :: "op_result \<Rightarrow> bool" where
  "op_result_valid r \<longleftrightarrow>
     (case ot_status r of
        OpOk \<Rightarrow> (case ot_data r of None \<Rightarrow> False | Some j \<Rightarrow> is_object j) \<and> ot_error r = None
      | OpError \<Rightarrow> ot_error r \<noteq> None \<and> ot_data r = None)"

subsection \<open>Encoding\<close>

text \<open>An absent optional member is not serialised.\<close>

definition opt_member :: "string \<Rightarrow> ('a \<Rightarrow> json) \<Rightarrow> 'a option \<Rightarrow> (string \<times> json) list" where
  "opt_member k enc v = (case v of None \<Rightarrow> [] | Some x \<Rightarrow> [(k, enc x)])"

definition wire_error_json :: "wire_error \<Rightarrow> json" where
  "wire_error_json w = JObj [(''code'', JStr (we_code w)), (''message'', JStr (we_message w)),
     (''retryable'', JBool (we_retryable w))]"

definition op_status_json :: "op_status \<Rightarrow> json" where
  "op_status_json s = JStr (case s of OpOk \<Rightarrow> ''ok'' | OpError \<Rightarrow> ''error'')"

fun msg_members :: "msg \<Rightarrow> (string \<times> json) list" where
  "msg_members (OrderRequest m) =
     [(''id'', JStr (or_id m)), (''listing_id'', JStr (or_listing m)), (''params'', or_params m)] @
     opt_member ''refund_dest'' JStr (or_dest m)"
| "msg_members (OrderInvoice m) =
     [(''request_id'', JStr (ov_req m)), (''order_id'', JStr (ov_order m)), (''bolt11'', JStr (ov_bolt11 m)),
      (''amount_sat'', JInt (int (ov_amount m))), (''period'', JStr (ov_period m)), (''expires_at'', JInt (ov_expires m))]"
| "msg_members (OrderError m) =
     [(''request_id'', JStr (oe_req m))] @ opt_member ''order_id'' JStr (oe_order m) @
     [(''error'', wire_error_json (oe_error m))]"
| "msg_members (ProvisionReady s p) = [(''subscription_id'', JStr s), (''payload'', p)]"
| "msg_members (DeliveryResendRequest s) = [(''subscription_id'', JStr s)]"
| "msg_members (BillingInvoice m) =
     [(''subscription_id'', JStr (bv_sub m))] @ opt_member ''request_id'' JStr (bv_req m) @
     [(''bolt11'', JStr (bv_bolt11 m)), (''amount_sat'', JInt (int (bv_amount m))),
      (''due_at'', JInt (bv_due m)), (''expires_at'', JInt (bv_expires m))]"
| "msg_members (BillingNotice m) =
     [(''subscription_id'', JStr (bn_sub m))] @ opt_member ''request_id'' JStr (bn_req m) @
     [(''state'', JStr (bn_state m)), (''message'', JStr (bn_message m))]"
| "msg_members (BillingRefund m) =
     [(''subscription_id'', JStr (br_sub m)), (''amount_sat'', JInt (int (br_amount m))), (''status'', JStr (br_status m))]"
| "msg_members (RenewRequest m) = [(''id'', JStr (rr_req_id m)), (''subscription_id'', JStr (rr_req_sub m))]"
| "msg_members (SubCancel s) = [(''subscription_id'', JStr s)]"
| "msg_members (OpRequest m) =
     [(''id'', JStr (oq_id m)), (''subscription_id'', JStr (oq_sub m)), (''op'', JStr (oq_op m)), (''params'', oq_params m)]"
| "msg_members (OpResult m) =
     [(''request_id'', JStr (ot_req m)), (''subscription_id'', JStr (ot_sub m)), (''op'', JStr (ot_op m)),
      (''status'', op_status_json (ot_status m))] @ opt_member ''data'' id (ot_data m) @
     opt_member ''error'' wire_error_json (ot_error m)"
| "msg_members (OperatorAlert m) =
     [(''kind'', JStr (oa_kind m)), (''subject'', JStr (oa_subject m)), (''detail'', JStr (oa_detail m))]"

definition msg_json :: "msg \<Rightarrow> json" where
  "msg_json m = JObj ((''type'', JStr (type_str m)) # msg_members m)"

text \<open>\<open>serde_json::to_string\<close>: an inconsistent \<open>op.result\<close> is not encoded.\<close>

definition encode_msg :: "msg \<Rightarrow> json option" where
  "encode_msg m = (case m of OpResult r \<Rightarrow> if op_result_valid r then Some (msg_json m) else None | _ \<Rightarrow> Some (msg_json m))"

subsection \<open>Decoding\<close>

definition get_u64 :: "string \<Rightarrow> json \<Rightarrow> nat option" where
  "get_u64 k j = (case json_get k j of Some (JInt i) \<Rightarrow> if 0 \<le> i \<and> i < 2 ^ 64 then Some (nat i) else None | _ \<Rightarrow> None)"

definition get_i64 :: "string \<Rightarrow> json \<Rightarrow> int option" where
  "get_i64 k j = (case json_get k j of Some (JInt i) \<Rightarrow> if - (2 ^ 63) \<le> i \<and> i < 2 ^ 63 then Some i else None | _ \<Rightarrow> None)"

definition get_bool :: "string \<Rightarrow> json \<Rightarrow> bool option" where
  "get_bool k j = (case json_get k j of Some (JBool b) \<Rightarrow> Some b | _ \<Rightarrow> None)"

text \<open>A member of an \<open>Option\<close> type with its default: absent and null are none.\<close>

definition get_opt :: "(json \<Rightarrow> 'a option) \<Rightarrow> string \<Rightarrow> json \<Rightarrow> 'a option option" where
  "get_opt dec k j =
     (case json_get k j of
        None \<Rightarrow> Some None
      | Some JNull \<Rightarrow> Some None
      | Some v \<Rightarrow> map_option Some (dec v))"

fun as_str :: "json \<Rightarrow> string option" where
  "as_str (JStr s) = Some s"
| "as_str _ = None"

definition wire_error_of :: "json \<Rightarrow> wire_error option" where
  "wire_error_of j =
     (case (json_text ''code'' j, json_text ''message'' j, get_bool ''retryable'' j) of
        (Some c, Some m, Some b) \<Rightarrow> Some \<lparr>we_code = c, we_message = m, we_retryable = b\<rparr>
      | _ \<Rightarrow> None)"

definition op_status_of :: "string \<Rightarrow> op_status option" where
  "op_status_of s = (if s = ''ok'' then Some OpOk else if s = ''error'' then Some OpError else None)"

definition order_request_of :: "json \<Rightarrow> order_request option" where
  "order_request_of j =
     (case (json_text ''id'' j, json_text ''listing_id'' j, json_get ''params'' j, get_opt as_str ''refund_dest'' j) of
        (Some i, Some l, Some p, Some d) \<Rightarrow> Some \<lparr>or_id = i, or_listing = l, or_params = p, or_dest = d\<rparr>
      | _ \<Rightarrow> None)"

definition order_invoice_of :: "json \<Rightarrow> order_invoice option" where
  "order_invoice_of j =
     (case (json_text ''request_id'' j, json_text ''order_id'' j, json_text ''bolt11'' j, get_u64 ''amount_sat'' j,
            json_text ''period'' j, get_i64 ''expires_at'' j) of
        (Some r, Some i, Some b, Some a, Some p, Some x) \<Rightarrow>
          Some \<lparr>ov_req = r, ov_order = i, ov_bolt11 = b, ov_amount = a, ov_period = p, ov_expires = x\<rparr>
      | _ \<Rightarrow> None)"

definition order_error_of :: "json \<Rightarrow> order_error option" where
  "order_error_of j =
     (case (json_text ''request_id'' j, get_opt as_str ''order_id'' j, Option.bind (json_get ''error'' j) wire_error_of) of
        (Some r, Some i, Some w) \<Rightarrow> Some \<lparr>oe_req = r, oe_order = i, oe_error = w\<rparr>
      | _ \<Rightarrow> None)"

definition billing_invoice_of :: "json \<Rightarrow> billing_invoice option" where
  "billing_invoice_of j =
     (case (json_text ''subscription_id'' j, get_opt as_str ''request_id'' j, json_text ''bolt11'' j,
            get_u64 ''amount_sat'' j, get_i64 ''due_at'' j, get_i64 ''expires_at'' j) of
        (Some s, Some r, Some b, Some a, Some u, Some x) \<Rightarrow>
          Some \<lparr>bv_sub = s, bv_req = r, bv_bolt11 = b, bv_amount = a, bv_due = u, bv_expires = x\<rparr>
      | _ \<Rightarrow> None)"

definition billing_notice_of :: "json \<Rightarrow> billing_notice option" where
  "billing_notice_of j =
     (case (json_text ''subscription_id'' j, get_opt as_str ''request_id'' j, json_text ''state'' j, json_text ''message'' j) of
        (Some s, Some r, Some st, Some m) \<Rightarrow> Some \<lparr>bn_sub = s, bn_req = r, bn_state = st, bn_message = m\<rparr>
      | _ \<Rightarrow> None)"

definition billing_refund_of :: "json \<Rightarrow> billing_refund option" where
  "billing_refund_of j =
     (case (json_text ''subscription_id'' j, get_u64 ''amount_sat'' j, json_text ''status'' j) of
        (Some s, Some a, Some st) \<Rightarrow> Some \<lparr>br_sub = s, br_amount = a, br_status = st\<rparr>
      | _ \<Rightarrow> None)"

definition op_request_of :: "json \<Rightarrow> op_request option" where
  "op_request_of j =
     (case (json_text ''id'' j, json_text ''subscription_id'' j, json_text ''op'' j, json_get ''params'' j) of
        (Some i, Some s, Some op, Some p) \<Rightarrow> Some \<lparr>oq_id = i, oq_sub = s, oq_op = op, oq_params = p\<rparr>
      | _ \<Rightarrow> None)"

definition op_result_of :: "json \<Rightarrow> op_result option" where
  "op_result_of j =
     (case (json_text ''request_id'' j, json_text ''subscription_id'' j, json_text ''op'' j,
            Option.bind (json_text ''status'' j) op_status_of, get_opt Some ''data'' j, get_opt wire_error_of ''error'' j) of
        (Some r, Some s, Some op, Some st, Some d, Some w) \<Rightarrow>
          (let x = \<lparr>ot_req = r, ot_sub = s, ot_op = op, ot_status = st, ot_data = d, ot_error = w\<rparr>
           in if op_result_valid x then Some x else None)
      | _ \<Rightarrow> None)"

definition operator_alert_of :: "json \<Rightarrow> operator_alert option" where
  "operator_alert_of j =
     (case (json_text ''kind'' j, json_text ''subject'' j, json_text ''detail'' j) of
        (Some k, Some s, Some d) \<Rightarrow> Some \<lparr>oa_kind = k, oa_subject = s, oa_detail = d\<rparr>
      | _ \<Rightarrow> None)"

definition msg_of_json :: "json \<Rightarrow> msg option" where
  "msg_of_json j =
     (case json_text ''type'' j of
        None \<Rightarrow> None
      | Some t \<Rightarrow>
          if t = ''order.request'' then map_option OrderRequest (order_request_of j)
          else if t = ''order.invoice'' then map_option OrderInvoice (order_invoice_of j)
          else if t = ''order.error'' then map_option OrderError (order_error_of j)
          else if t = ''provision.ready'' then
            (case (json_text ''subscription_id'' j, json_get ''payload'' j) of
               (Some s, Some p) \<Rightarrow> Some (ProvisionReady s p) | _ \<Rightarrow> None)
          else if t = ''delivery.resend.request'' then map_option DeliveryResendRequest (json_text ''subscription_id'' j)
          else if t = ''billing.invoice'' then map_option BillingInvoice (billing_invoice_of j)
          else if t = ''billing.notice'' then map_option BillingNotice (billing_notice_of j)
          else if t = ''billing.refund'' then map_option BillingRefund (billing_refund_of j)
          else if t = ''renew.request'' then
            (case (json_text ''id'' j, json_text ''subscription_id'' j) of
               (Some i, Some s) \<Rightarrow> Some (RenewRequest \<lparr>rr_req_id = i, rr_req_sub = s\<rparr>) | _ \<Rightarrow> None)
          else if t = ''sub.cancel'' then map_option SubCancel (json_text ''subscription_id'' j)
          else if t = ''op.request'' then map_option OpRequest (op_request_of j)
          else if t = ''op.result'' then map_option OpResult (op_result_of j)
          else if t = ''operator.alert'' then map_option OperatorAlert (operator_alert_of j)
          else None)"

subsection \<open>Correlation\<close>

definition msg_id :: "msg \<Rightarrow> string option" where
  "msg_id m = (case m of OrderRequest r \<Rightarrow> Some (or_id r) | RenewRequest r \<Rightarrow> Some (rr_req_id r)
     | OpRequest r \<Rightarrow> Some (oq_id r) | _ \<Rightarrow> None)"

definition msg_request_id :: "msg \<Rightarrow> string option" where
  "msg_request_id m = (case m of OrderInvoice r \<Rightarrow> Some (ov_req r) | OrderError r \<Rightarrow> Some (oe_req r)
     | OpResult r \<Rightarrow> Some (ot_req r) | BillingInvoice r \<Rightarrow> bv_req r | BillingNotice r \<Rightarrow> bn_req r | _ \<Rightarrow> None)"

definition dedupe_id :: "string \<Rightarrow> msg \<Rightarrow> string option" where
  "dedupe_id sender m =
     map_option (\<lambda>k. sender @ '':'' @ type_str m @ '':'' @ k)
       (case msg_id m of Some i \<Rightarrow> Some i | None \<Rightarrow> msg_request_id m)"

subsection \<open>The gift wrap\<close>

text \<open>What the libraries tell of a received event: its kind, its check, and the rumor sealed in it.\<close>

record wrap =
  wr_kind :: nat
  wr_verified :: bool
  wr_rumor :: "(string \<times> nat \<times> string) option" \<comment> \<open>the seal's author, the rumor's kind and content\<close>

datatype wire_failure = NotGiftWrap | InvalidEvent | GiftWrapError | NotPrivateDm | ContentTooLarge nat | JsonError

definition max_inbound_content_bytes :: nat where "max_inbound_content_bytes = 64 * 1024"

definition gift_unwrap :: "(string \<Rightarrow> json option) \<Rightarrow> wrap \<Rightarrow> wire_failure + string \<times> msg" where
  "gift_unwrap parse W =
     (if wr_kind W \<noteq> 1059 then Inl NotGiftWrap
      else if \<not> wr_verified W then Inl InvalidEvent
      else (case wr_rumor W of
        None \<Rightarrow> Inl GiftWrapError
      | Some (sender, kind, content) \<Rightarrow>
          if kind \<noteq> 14 then Inl NotPrivateDm
          else if max_inbound_content_bytes < length content then Inl (ContentTooLarge (length content))
          else (case Option.bind (parse content) msg_of_json of
            None \<Rightarrow> Inl JsonError
          | Some m \<Rightarrow> Inr (sender, m))))"

subsection \<open>Decoding what was encoded\<close>

definition u64 :: "nat \<Rightarrow> bool" where "u64 n \<longleftrightarrow> n < 2 ^ 64"
definition i64 :: "int \<Rightarrow> bool" where "i64 i \<longleftrightarrow> - (2 ^ 63) \<le> i \<and> i < 2 ^ 63"

text \<open>The numbers of a message are in the range of their Rust types.\<close>

definition msg_typed :: "msg \<Rightarrow> bool" where
  "msg_typed m \<longleftrightarrow>
     (case m of
        OrderInvoice r \<Rightarrow> u64 (ov_amount r) \<and> i64 (ov_expires r)
      | BillingInvoice r \<Rightarrow> u64 (bv_amount r) \<and> i64 (bv_due r) \<and> i64 (bv_expires r)
      | BillingRefund r \<Rightarrow> u64 (br_amount r)
      | _ \<Rightarrow> True)"

lemma json_getters:
  "json_get k (JObj kvs) = map_of kvs k"
  "json_text k j = Option.bind (json_get k j) as_str"
  by (auto split: option.split json.split)

lemma opt_member_simps [simp]: "opt_member k enc None = []" "opt_member k enc (Some x) = [(k, enc x)]"
  by (simp_all add: opt_member_def)

lemma wire_error_decode [simp]: "wire_error_of (wire_error_json w) = Some w"
  by (simp add: wire_error_of_def wire_error_json_def get_bool_def json_getters)

lemma op_status_decode [simp]: "op_status_of (case s of OpOk \<Rightarrow> ''ok'' | OpError \<Rightarrow> ''error'') = Some s"
  by (cases s) (simp_all add: op_status_of_def)

lemma wire_error_not_null [simp]: "wire_error_json w \<noteq> JNull"
  by (simp add: wire_error_json_def)

lemma get_opt_absent: "json_get k j = None \<Longrightarrow> get_opt dec k j = Some None"
  by (simp add: get_opt_def)

lemma get_opt_present: "json_get k j = Some v \<Longrightarrow> v \<noteq> JNull \<Longrightarrow> get_opt dec k j = map_option Some (dec v)"
  by (simp add: get_opt_def split: json.split)

lemmas msg_decoders = json_getters order_request_of_def order_invoice_of_def order_error_of_def billing_invoice_of_def
  billing_notice_of_def billing_refund_of_def op_request_of_def op_result_of_def operator_alert_of_def
  get_u64_def get_i64_def get_bool_def get_opt_absent get_opt_present op_status_json_def u64_def i64_def

lemma encode_msg_Some: "encode_msg m = Some j \<Longrightarrow> j = msg_json m \<and> (\<forall>r. m = OpResult r \<longrightarrow> op_result_valid r)"
  by (auto simp: encode_msg_def split: msg.splits if_splits)

lemma op_result_roundtrip: "op_result_valid r \<Longrightarrow> op_result_of (msg_json (OpResult r)) = Some r"
proof (cases "ot_status r")
  case OpOk
  assume "op_result_valid r"
  with OpOk obtain kvs where "ot_data r = Some (JObj kvs)" "ot_error r = None"
    by (auto simp: op_result_valid_def is_object_def split: option.splits json.splits)
  with OpOk show ?thesis
    by (cases r) (simp add: op_result_valid_def is_object_def op_status_of_def msg_json_def msg_decoders)
next
  case OpError
  assume "op_result_valid r"
  with OpError obtain w where "ot_data r = None" "ot_error r = Some w" by (auto simp: op_result_valid_def)
  with OpError show ?thesis
    by (cases r) (simp add: op_result_valid_def op_status_of_def msg_json_def msg_decoders)
qed

lemma msg_of_type: "json_get ''type'' (msg_json m) = Some (JStr (type_str m))"
  by (simp add: msg_json_def)

lemma msg_roundtrip_plain:
  assumes "msg_typed m" "\<forall>r. m \<noteq> OpResult r"
  shows "msg_of_json (msg_json m) = Some m"
proof (cases m)
  case (OrderRequest r)
  then show ?thesis by (cases r; cases "or_dest r") (simp_all add: msg_of_json_def msg_json_def msg_decoders)
next
  case (OrderError r)
  then show ?thesis by (cases r; cases "oe_order r") (simp_all add: msg_of_json_def msg_json_def msg_decoders)
next
  case (BillingInvoice r)
  with assms(1) show ?thesis
    by (cases r; cases "bv_req r") (simp_all add: msg_of_json_def msg_json_def msg_decoders msg_typed_def)
next
  case (BillingNotice r)
  then show ?thesis by (cases r; cases "bn_req r") (simp_all add: msg_of_json_def msg_json_def msg_decoders)
next
  case (OrderInvoice r)
  with assms(1) show ?thesis
    by (cases r) (simp_all add: msg_of_json_def msg_json_def msg_decoders msg_typed_def)
next
  case (BillingRefund r)
  with assms(1) show ?thesis
    by (cases r) (simp_all add: msg_of_json_def msg_json_def msg_decoders msg_typed_def)
next
  case (OpResult r)
  with assms(2) show ?thesis by blast
next
  case (OperatorAlert r)
  then show ?thesis by (cases r) (simp_all add: msg_of_json_def msg_json_def msg_decoders)
next
  case (OpRequest r)
  then show ?thesis by (cases r) (simp_all add: msg_of_json_def msg_json_def msg_decoders)
qed (simp_all add: msg_of_json_def msg_json_def msg_decoders)

lemma decode_encoded:
  assumes "msg_typed m" "encode_msg m = Some j"
  shows "msg_of_json j = Some m"
proof (cases "\<exists>r. m = OpResult r")
  case True
  with encode_msg_Some [OF assms(2)] op_result_roundtrip show ?thesis
    by (auto simp: msg_of_json_def msg_of_type simp del: json_get.simps(1))
next
  case False
  with encode_msg_Some [OF assms(2)] msg_roundtrip_plain assms(1) show ?thesis by blast
qed

text \<open>
  C36. What one side sends is what the other receives. A message the encoder accepts, sealed in a wrap that is verified and
  holds at most 64 KiB, is decoded to the same message under the seal's author, for every kind of message, every absent
  and present optional member and every number of the range of its type. A larger content is refused for its size whatever
  the parser would make of it, and a wrap of another kind, unverified or without a private message is refused whatever it holds.
\<close>

theorem wire_message_roundtrip:
  assumes "msg_typed m" "encode_msg m = Some j" "parse text = Some j"
  shows "(length text \<le> 64 * 1024 \<longrightarrow>
      gift_unwrap parse \<lparr>wr_kind = 1059, wr_verified = True, wr_rumor = Some (sender, 14, text)\<rparr> = Inr (sender, m)) \<and>
    (\<forall>reader big. 64 * 1024 < length big \<longrightarrow>
      gift_unwrap reader \<lparr>wr_kind = 1059, wr_verified = True, wr_rumor = Some (sender, 14, big)\<rparr>
        = Inl (ContentTooLarge (length big))) \<and>
    (\<forall>reader W. wr_kind W \<noteq> 1059 \<or> \<not> wr_verified W \<or> (\<forall>a c. wr_rumor W \<noteq> Some (a, 14, c)) \<longrightarrow>
      isl (gift_unwrap reader W))"
  using decode_encoded [OF assms(1,2)] assms(3)
  by (auto simp: gift_unwrap_def max_inbound_content_bytes_def split: option.splits)

theorem wire_message_roundtrip_witness:
  "\<exists>j. encode_msg (OpResult (op_err ''r1'' ''s1'' ''restart'' \<lparr>we_code = ''timeout'', we_message = ''m'', we_retryable = True\<rparr>)) = Some j \<and>
     gift_unwrap (\<lambda>_. Some j) \<lparr>wr_kind = 1059, wr_verified = True, wr_rumor = Some (''b0'', 14, ''{}'')\<rparr>
       = Inr (''b0'', OpResult (op_err ''r1'' ''s1'' ''restart'' \<lparr>we_code = ''timeout'', we_message = ''m'', we_retryable = True\<rparr>))"
proof -
  let ?m = "OpResult (op_err ''r1'' ''s1'' ''restart'' \<lparr>we_code = ''timeout'', we_message = ''m'', we_retryable = True\<rparr>)"
  have e: "encode_msg ?m = Some (msg_json ?m)" by (simp add: encode_msg_def op_err_def op_result_valid_def)
  have "msg_typed ?m" by (simp add: msg_typed_def)
  from wire_message_roundtrip [OF this e, of "\<lambda>_. Some (msg_json ?m)" "''{}''" "''b0''"] e show ?thesis by simp
qed

text \<open>Messages of different kinds or with different ids from one peer never share a dedupe key.\<close>

lemma colon_split: "a @ CHR '':'' # k = b @ CHR '':'' # l \<Longrightarrow> CHR '':'' \<notin> set a \<Longrightarrow> CHR '':'' \<notin> set b \<Longrightarrow> a = b \<and> k = l"
  by (induction a arbitrary: b; case_tac b) auto

lemma dedupe_id_separates:
  assumes "dedupe_id s m = Some k" "dedupe_id s m' = Some k"
  shows "type_str m = type_str m' \<and>
    (case msg_id m of Some i \<Rightarrow> Some i | None \<Rightarrow> msg_request_id m) =
    (case msg_id m' of Some i \<Rightarrow> Some i | None \<Rightarrow> msg_request_id m')"
proof -
  have free: "CHR '':'' \<notin> set (type_str x)" for x by (cases x) simp_all
  from assms obtain a b where "(case msg_id m of Some i \<Rightarrow> Some i | None \<Rightarrow> msg_request_id m) = Some a"
    "(case msg_id m' of Some i \<Rightarrow> Some i | None \<Rightarrow> msg_request_id m') = Some b"
    "type_str m @ '':'' @ a = type_str m' @ '':'' @ b"
    by (auto simp: dedupe_id_def)
  with colon_split [of "type_str m" a "type_str m'" b] free show ?thesis by simp
qed

end
