(* ===== verification/Order_Intake.thy ===== *)
theory Order_Intake
  imports Reconcile Recipe Wire_Dm
begin

text \<open>
  What a buyer's message does, \<open>daemon/src/order_intake.rs\<close>: \<open>order.request\<close>, \<open>renew.request\<close> and
  \<open>sub.cancel\<close> with their gates, their writes and the reply handed to \<open>out.reply\<close>.

  The result of a handler is the reply it sends (none when the message is dropped) or the error it
  returns. The invoice is issued by the port of \<open>Reconcile\<close>, during which the database may change.
  A cached reply is the message as stored; encoding a message and decoding it again is not modelled.
  The text of a destination error is the one of \<open>Resolver\<close>, which leaves out the quoted input.
  The buyer is named by the hexadecimal key \<open>sender\<close>, and \<open>now\<close> is what the clock says while the message is handled.
\<close>

definition invoice_expiry_s :: nat where "invoice_expiry_s = 3600"
definition min_renewal_invoice_expiry_s :: int where "min_renewal_invoice_expiry_s = 60"

definition can_still_reach_active :: "string \<Rightarrow> bool" where
  "can_still_reach_active st \<longleftrightarrow> st \<in> {''PENDING'', ''PROVISIONING'', ''ACTIVE'', ''RESUMING'', ''SUSPENDED''}"

text \<open>The settings of the intake; \<open>ik_size\<close> is the length of a serialised value.\<close>

record intake =
  ik_period :: string
  ik_resources :: resources
  ik_params :: "param_spec list"
  ik_size :: "json \<Rightarrow> nat"
  ik_budget :: budget
  ik_max_holds :: nat
  ik_net :: net

subsection \<open>Messages\<close>

definition order_error_json :: "string \<Rightarrow> wire_error \<Rightarrow> json" where
  "order_error_json req w = msg_json (OrderError \<lparr>oe_req = req, oe_order = None, oe_error = w\<rparr>)"

definition order_invoice_json :: "string \<Rightarrow> string \<Rightarrow> backend_invoice \<Rightarrow> string \<Rightarrow> json" where
  "order_invoice_json req order i period = msg_json (OrderInvoice \<lparr>ov_req = req, ov_order = order,
     ov_bolt11 = bi_bolt11 i, ov_amount = bi_amount i, ov_period = period, ov_expires = bi_expires i\<rparr>)"

definition is_order_invoice :: "json \<Rightarrow> bool" where
  "is_order_invoice j \<longleftrightarrow> json_text ''type'' j = Some ''order.invoice''"

definition params_invalid :: "string \<Rightarrow> wire_error" where
  "params_invalid m = \<lparr>we_code = ''params_invalid'', we_message = m, we_retryable = False\<rparr>"

definition price_changed :: wire_error where
  "price_changed = \<lparr>we_code = ''price_changed'',
     we_message = ''listing price is no longer current; refetch the listing and reorder'', we_retryable = False\<rparr>"

definition refund_dest_invalid :: "string \<Rightarrow> wire_error" where
  "refund_dest_invalid m = \<lparr>we_code = ''refund_dest_invalid'', we_message = m, we_retryable = False\<rparr>"

definition capacity_full :: wire_error where
  "capacity_full = \<lparr>we_code = ''capacity_full'', we_message = ''no capacity available for this order'', we_retryable = True\<rparr>"

definition unavailable :: "string \<Rightarrow> wire_error" where
  "unavailable m = \<lparr>we_code = ''unavailable'', we_message = m, we_retryable = True\<rparr>"

subsection \<open>Validation\<close>

definition tail_char :: "char \<Rightarrow> bool" where
  "tail_char c \<longleftrightarrow> is_alnum c \<or> c = CHR ''_'' \<or> c = CHR ''-''"

definition validate_buyer_request_id_tail :: "string \<Rightarrow> wire_error option" where
  "validate_buyer_request_id_tail i =
     (if i \<noteq> [] \<and> length i \<le> 128 \<and> list_all tail_char i then None
      else Some (params_invalid ''request id must be 1..=128 chars using only [A-Za-z0-9_-]''))"

fun resolve_error_text :: "resolve_error \<Rightarrow> string" where
  "resolve_error_text (Structural m) = m"
| "resolve_error_text (Transient m) = m"

definition validate_new_order_refund_dest :: "net \<Rightarrow> string option \<Rightarrow> wire_error option" where
  "validate_new_order_refund_dest N dest =
     (case map_option str_trim dest of
        None \<Rightarrow> Some (refund_dest_invalid ''refund_dest is required; use a Lightning address or HTTPS LNURL'')
      | Some x \<Rightarrow>
          if x = [] then Some (refund_dest_invalid ''refund_dest is required; use a Lightning address or HTTPS LNURL'')
          else (case detect_form N x of
            Inl err \<Rightarrow> Some (refund_dest_invalid (resolve_error_text err))
          | Inr Bolt11 \<Rightarrow> Some (refund_dest_invalid
              ''refund_dest must be re-resolvable (Lightning address or HTTPS LNURL), not a BOLT11 invoice'')
          | Inr _ \<Rightarrow> (case validate_dest_format N x of
              Inl err \<Rightarrow> Some (refund_dest_invalid (resolve_error_text err)) | Inr _ \<Rightarrow> None)))"

text \<open>\<open>reservation::validate_params\<close>; the result is the text of its error.\<close>

definition max_params_json_bytes :: nat where "max_params_json_bytes = 8 * 1024"
definition max_params_top_level_keys :: nat where "max_params_top_level_keys = 32"

definition param_ok :: "string \<Rightarrow> json \<Rightarrow> bool" where
  "param_ok ty v =
     (if ty = ''string'' then (case v of JStr _ \<Rightarrow> True | _ \<Rightarrow> False)
      else if ty \<in> {''number'', ''int'', ''integer''} then (case v of JInt _ \<Rightarrow> True | _ \<Rightarrow> False)
      else if ty \<in> {''bool'', ''boolean''} then (case v of JBool _ \<Rightarrow> True | _ \<Rightarrow> False)
      else True)"

fun check_params :: "param_spec list \<Rightarrow> (string \<times> json) list \<Rightarrow> string option" where
  "check_params [] kvs = None"
| "check_params (p # ps) kvs =
     (case map_of kvs (pm_key p) of
        None \<Rightarrow> if pm_required p then Some (''missing required param `'' @ pm_key p @ ''`'') else check_params ps kvs
      | Some v \<Rightarrow>
          if param_ok (pm_type p) v then check_params ps kvs
          else Some (''param `'' @ pm_key p @ ''` has the wrong type (expected '' @ pm_type p @ '')''))"

definition validate_params :: "intake \<Rightarrow> (string \<times> json) list \<Rightarrow> string option" where
  "validate_params K kvs =
     (if max_params_top_level_keys < length kvs
      then Some (''params has too many top-level keys ('' @ nat_str (length kvs) @ '', max ''
             @ nat_str max_params_top_level_keys @ '')'')
      else if max_params_json_bytes < ik_size K (JObj kvs)
      then Some (''params too large ('' @ nat_str (ik_size K (JObj kvs)) @ '' bytes serialized, max ''
             @ nat_str max_params_json_bytes @ '')'')
      else check_params (ik_params K) kvs)"

subsection \<open>The cached replies\<close>

definition cached_reply :: "string \<Rightarrow> string \<Rightarrow> db \<Rightarrow> store_error + json option" where
  "cached_reply sender req d =
     (case List.find (\<lambda>r. ir_sender r = sender \<and> ir_request r = req) (inbound_requests d) of
        None \<Rightarrow> Inr None
      | Some r \<Rightarrow> (case ir_response r of None \<Rightarrow> Inl (Bail ''invalid column type'') | Some j \<Rightarrow> Inr (Some j)))"

text \<open>\<open>INSERT INTO inbound_request .. ON CONFLICT DO NOTHING\<close>, and whether it inserted.\<close>

definition cache_row :: "string \<Rightarrow> string \<Rightarrow> string \<Rightarrow> string \<Rightarrow> json \<Rightarrow> int \<Rightarrow> db \<Rightarrow> bool \<times> db" where
  "cache_row sender req kind ty j now d =
     (if \<exists>r\<in>set (inbound_requests d). ir_sender r = sender \<and> ir_request r = req then (False, d)
      else (True, d\<lparr>inbound_requests := inbound_requests d @
             [\<lparr>ir_sender = sender, ir_request = req, ir_kind = kind, ir_msg_type = Some ty,
               ir_response = Some j, ir_created = now\<rparr>]\<rparr>))"

definition cache_response_txn :: "string \<Rightarrow> string \<Rightarrow> string \<Rightarrow> json \<Rightarrow> int \<Rightarrow> json option tx" where
  "cache_response_txn sender req kind j now d =
     (case cache_row sender req kind (unwrap_or (json_text ''type'' j) []) j now d of
        (True, d') \<Rightarrow> Inr (None, d')
      | (False, d') \<Rightarrow> (case cached_reply sender req d' of Inl err \<Rightarrow> Inl err | Inr c \<Rightarrow> Inr (c, d')))"

subsection \<open>The order\<close>

record order_write =
  ow_sender :: string
  ow_request :: string
  ow_order :: string
  ow_recipe :: string
  ow_listing :: string
  ow_params :: json
  ow_dest :: "string option"
  ow_period_s :: int
  ow_lead_s :: int
  ow_retention_s :: int
  ow_ext :: string
  ow_invoice :: backend_invoice
  ow_response :: json
  ow_refusal :: json

datatype order_commit = OrderCommitted | OrderDuplicate json | ListingGone | HoldLost

definition find_listing :: "string \<Rightarrow> db \<Rightarrow> listing_row option" where
  "find_listing l d = List.find (\<lambda>r. li_id r = l) (listings d)"

definition cache_refusal :: "order_write \<Rightarrow> int \<Rightarrow> db \<Rightarrow> db" where
  "cache_refusal w now d = snd (cache_row (ow_sender w) (ow_request w) ''order'' ''order.error'' (ow_refusal w) now d)"

definition order_sub :: "order_write \<Rightarrow> int \<Rightarrow> subscription" where
  "order_sub w now = \<lparr>sub_id = ow_order w, sub_recipe = Some (ow_recipe w), sub_listing = Some (ow_listing w),
     sub_instance = None, sub_buyer = Some (ow_sender w), sub_state = ''PENDING'', sub_params = ow_params w,
     sub_dest = ow_dest w, sub_period_s = Some (ow_period_s w), sub_renew_lead_s = Some (ow_lead_s w),
     sub_retention_s = Some (ow_retention_s w), sub_paid_through = None, sub_soft_date = None,
     sub_next_deadline = Some (bi_expires (ow_invoice w)), sub_floor = None, sub_created = now, sub_updated = now\<rparr>"

definition order_invoice_row :: "order_write \<Rightarrow> int \<Rightarrow> invoice" where
  "order_invoice_row w now =
     (let i = ow_invoice w
      in \<lparr>inv_id = bi_id i, inv_sub = Some (ow_order w), inv_ext = ow_ext w, inv_backend = Some (bi_backend_id i),
          inv_hash = Some (nat_str (bi_hash i)), inv_kind = Some ''order'', inv_bolt11 = Some (bi_bolt11 i),
          inv_amount = Some (as_i64 (bi_amount i)), inv_received = None, inv_status = ''OPEN'',
          inv_expires = Some (bi_expires i), inv_applied = None, inv_issued = Some now, inv_settled = None\<rparr>)"

definition insert_sub :: "subscription \<Rightarrow> db \<Rightarrow> store_error + db" where
  "insert_sub s d =
     (if \<exists>q\<in>set (subs d). sub_id q = sub_id s then Inl (ConstraintViolation ''subscription.id'')
      else Inr (d\<lparr>subs := subs d @ [s]\<rparr>))"

definition insert_invoice :: "invoice \<Rightarrow> db \<Rightarrow> store_error + db" where
  "insert_invoice i d =
     (if \<exists>q\<in>set (invoices d). inv_id q = inv_id i then Inl (ConstraintViolation ''invoice.id'')
      else if \<exists>q\<in>set (invoices d). inv_ext q = inv_ext i then Inl (ConstraintViolation ''invoice.external_id'')
      else Inr (d\<lparr>invoices := invoices d @ [i]\<rparr>))"

text \<open>The rows of a committed order, once both inserts and the backend's own row succeeded.\<close>

definition order_rows :: "order_write \<Rightarrow> int \<Rightarrow> db \<Rightarrow> db" where
  "order_rows w now d =
     insert_event (Some (ow_order w)) ''order_placed'' (JObj [(''external_id'', JStr (ow_ext w))]) now
       ((snd (cache_row (ow_sender w) (ow_request w) ''order'' ''order.invoice'' (ow_response w) now d))
          \<lparr>reservations := update_where (\<lambda>r. rsv_order r = ow_order w)
             (\<lambda>r. r\<lparr>rsv_expires := bi_expires (ow_invoice w)\<rparr>) (reservations d)\<rparr>)"

text \<open>The transaction: a duplicate is answered from the cache; then the listing and the hold are checked again.\<close>

definition admit_order :: "order_write \<Rightarrow> int \<Rightarrow> store_error + 'w \<Rightarrow> bool \<Rightarrow> order_commit tx" where
  "admit_order w now persisted active d =
     (if \<not> active then Inr (ListingGone, cache_refusal w now (snd (release_txn (ow_order w) now d)))
      else if reservation_state (ow_order w) d \<notin> {Some ''HELD'', Some ''CONSUMED''}
      then Inr (HoldLost, cache_refusal w now d)
      else (case insert_sub (order_sub w now) d of
        Inl err \<Rightarrow> Inl err
      | Inr d1 \<Rightarrow>
          (case insert_invoice (order_invoice_row w now) d1 of
             Inl err \<Rightarrow> Inl err
           | Inr d2 \<Rightarrow>
               (case persisted of
                  Inl err \<Rightarrow> Inl err
                | Inr _ \<Rightarrow> Inr (OrderCommitted, order_rows w now d2)))))"

definition order_write_txn :: "order_write \<Rightarrow> int \<Rightarrow> store_error + 'w \<Rightarrow> order_commit tx" where
  "order_write_txn w now persisted d =
     (case cached_reply (ow_sender w) (ow_request w) d of
        Inl err \<Rightarrow> Inl err
      | Inr (Some j) \<Rightarrow> Inr (OrderDuplicate j, d)
      | Inr None \<Rightarrow>
          (case find_listing (ow_listing w) d of
             None \<Rightarrow> admit_order w now persisted False d
           | Some l \<Rightarrow>
               (case li_state l of
                  None \<Rightarrow> Inl (Bail ''invalid column type'')
                | Some st \<Rightarrow> admit_order w now persisted (st = ''ACTIVE'') d)))"

subsection \<open>Handling an order\<close>

type_synonym 'w handled = "(store_error + json option) \<times> 'w env"

definition fail_order ::
  "string \<Rightarrow> string \<Rightarrow> string option \<Rightarrow> wire_error \<Rightarrow> int \<Rightarrow> 'w env \<Rightarrow> 'w handled" where
  "fail_order sender req release error now e =
     (case run_tx (cache_response_txn sender req ''order'' (order_error_json req error) now) e of
        (Inl err, e1) \<Rightarrow> (Inl err, e1)
      | (Inr cached, e1) \<Rightarrow>
          (let reply = unwrap_or cached (order_error_json req error)
           in if is_order_invoice reply then (Inr (Some reply), e1)
              else (case release of
                None \<Rightarrow> (Inr (Some reply), e1)
              | Some order \<Rightarrow>
                  (case run_tx (\<lambda>d. Inr (release_txn order now d)) e1 of
                     (Inl err, e2) \<Rightarrow> (Inl err, e2) | (Inr _, e2) \<Rightarrow> (Inr (Some reply), e2)))))"

definition order_id :: "string \<Rightarrow> string \<Rightarrow> string" where
  "order_id sender req = ''ord:'' @ sender @ '':'' @ req"

definition order_ext :: "string \<Rightarrow> string \<Rightarrow> string" where
  "order_ext sender req = ''order:'' @ sender @ '':'' @ req"

text \<open>The gates before any capacity is held: the refusal they lead to, or the listing to sell.\<close>

definition order_gate :: "'w ports \<Rightarrow> intake \<Rightarrow> order_request \<Rightarrow> db \<Rightarrow> wire_error + listing_row" where
  "order_gate Q K r d =
     (case validate_buyer_request_id_tail (or_id r) of
        Some err \<Rightarrow> Inl err
      | None \<Rightarrow>
          (case validate_new_order_refund_dest (ik_net K) (or_dest r) of
             Some err \<Rightarrow> Inl err
           | None \<Rightarrow>
               (case or_params r of
                  JObj kvs \<Rightarrow>
                    (case validate_params K kvs of
                       Some m \<Rightarrow> Inl (params_invalid m)
                     | None \<Rightarrow>
                         (case find_listing (or_listing r) d of
                            None \<Rightarrow> Inl price_changed
                          | Some l \<Rightarrow>
                              if unwrap_or (li_state l) [] \<noteq> ''ACTIVE''
                              then Inl (unavailable ''this listing is not currently offered'')
                              else if li_recipe l \<noteq> Some (po_recipe Q) \<or> unwrap_or (li_amount l) 0 \<noteq> as_i64 (po_price Q)
                              then Inl price_changed
                              else Inr l))
                | _ \<Rightarrow> Inl (params_invalid ''order params must be a JSON object''))))"

definition order_written ::
  "'w ports \<Rightarrow> intake \<Rightarrow> string \<Rightarrow> order_request \<Rightarrow> listing_row \<Rightarrow> backend_invoice \<Rightarrow> order_write" where
  "order_written Q K sender r l i =
     \<lparr>ow_sender = sender, ow_request = or_id r, ow_order = order_id sender (or_id r), ow_recipe = po_recipe Q,
      ow_listing = or_listing r, ow_params = or_params r, ow_dest = or_dest r,
      ow_period_s = unwrap_or (li_period l) 0, ow_lead_s = unwrap_or (li_lead l) 0,
      ow_retention_s = unwrap_or (li_retention l) 0, ow_ext = order_ext sender (or_id r), ow_invoice = i,
      ow_response = order_invoice_json (or_id r) (order_id sender (or_id r)) i (ik_period K),
      ow_refusal = order_error_json (or_id r) (unavailable ''this listing is not currently offered'')\<rparr>"

text \<open>Issue the invoice, commit the order with it, answer; capacity is already held.\<close>

definition place_order ::
  "'w ports \<Rightarrow> intake \<Rightarrow> string \<Rightarrow> order_request \<Rightarrow> listing_row \<Rightarrow> int \<Rightarrow> 'w env \<Rightarrow> 'w handled" where
  "place_order Q K sender r l now e =
     (let order = order_id sender (or_id r)
      in case po_issue Q (as_u64 (unwrap_or (li_amount l) 0)) (''lnrent order '' @ order) invoice_expiry_s
                (order_ext sender (or_id r)) e of
           (Inl _, e1) \<Rightarrow> fail_order sender (or_id r) (Some order) (unavailable ''payment backend unavailable'') now e1
         | (Inr (i, persist), e1) \<Rightarrow>
             (let w = order_written Q K sender r l i
              in case run_prepared persist (order_write_txn w now) (\<lambda>c. c = OrderCommitted) e1 of
                   (Inl _, e2) \<Rightarrow> fail_order sender (or_id r) (Some order) (unavailable ''temporary storage failure'') now e2
                 | (Inr ListingGone, e2) \<Rightarrow>
                     fail_order sender (or_id r) None (unavailable ''this listing is not currently offered'') now e2
                 | (Inr HoldLost, e2) \<Rightarrow>
                     fail_order sender (or_id r) None (unavailable ''this listing is not currently offered'') now e2
                 | (Inr OrderCommitted, e2) \<Rightarrow> (Inr (Some (ow_response w)), e2)
                 | (Inr (OrderDuplicate j), e2) \<Rightarrow>
                     if is_order_invoice j then (Inr (Some j), e2)
                     else (case run_tx (\<lambda>d. Inr (release_txn order now d)) e2 of
                       (Inl err, e3) \<Rightarrow> (Inl err, e3) | (Inr _, e3) \<Rightarrow> (Inr (Some j), e3))))"

definition handle_order :: "'w ports \<Rightarrow> intake \<Rightarrow> string \<Rightarrow> order_request \<Rightarrow> int \<Rightarrow> 'w env \<Rightarrow> 'w handled" where
  "handle_order Q K sender r now e =
     (case cached_reply sender (or_id r) (e_db e) of
        Inl err \<Rightarrow> (Inl err, e)
      | Inr (Some j) \<Rightarrow> (Inr (Some j), e)
      | Inr None \<Rightarrow>
          (case order_gate Q K r (e_db e) of
             Inl error \<Rightarrow> fail_order sender (or_id r) None error now e
           | Inr l \<Rightarrow>
               (let order = order_id sender (or_id r)
                in case run_tx (reserve (''res:'' @ sender @ '':'' @ or_id r) order
                          \<lparr>rq_res = ik_resources K, rq_ports = 0\<rparr> (ik_budget K) (now + int invoice_expiry_s) now
                          (ik_max_holds K)) e of
                     (Inl err, e1) \<Rightarrow> (Inl err, e1)
                   | (Inr CapacityFull, e1) \<Rightarrow> fail_order sender (or_id r) (Some order) capacity_full now e1
                   | (Inr Reserved, e1) \<Rightarrow> place_order Q K sender r l now e1)))"

subsection \<open>Renewing\<close>

record renewal_write =
  rw_row :: renewal_row
  rw_dedupe :: "(string \<times> string \<times> json) option"

definition renewal_journal :: "renewal_write \<Rightarrow> db \<Rightarrow> db" where
  "renewal_journal w d = insert_event (Some (rn_sub (rw_row w))) ''renew_invoice''
     (JObj [(''external_id'', JStr (rn_ext (rw_row w)))]) (rn_now (rw_row w)) d"

definition renewal_write_txn :: "renewal_write \<Rightarrow> store_error + 'w \<Rightarrow> json option tx" where
  "renewal_write_txn w persisted d =
     (case (case rw_dedupe w of None \<Rightarrow> Inr None | Some (s, r, _) \<Rightarrow> cached_reply s r d) of
        Inl err \<Rightarrow> Inl err
      | Inr (Some j) \<Rightarrow> Inr (Some j, d)
      | Inr None \<Rightarrow>
          (case upsert_renewal_invoice (rw_row w) d of
             Inl err \<Rightarrow> Inl err
           | Inr (_, d1) \<Rightarrow>
               (case persisted of
                  Inl err \<Rightarrow> Inl err
                | Inr _ \<Rightarrow> Inr (None, renewal_journal w
                    (case rw_dedupe w of
                       None \<Rightarrow> d1
                     | Some (s, r, j) \<Rightarrow> snd (cache_row s r ''renew'' ''billing.invoice'' j (rn_now (rw_row w)) d1))))))"

definition issue_renewal ::
  "'w ports \<Rightarrow> string \<Rightarrow> string \<Rightarrow> string option \<Rightarrow> int \<Rightarrow> int \<Rightarrow> nat \<Rightarrow> (string \<times> string) option \<Rightarrow> 'w env
     \<Rightarrow> (store_error + json) \<times> 'w env" where
  "issue_renewal Q s ext req due now expiry dedupe e =
     (case po_issue Q (po_price Q) (''lnrent renewal '' @ s) expiry ext e of
        (Inl err, e1) \<Rightarrow> (Inl (Context ''creating renewal invoice'' err), e1)
      | (Inr (i, persist), e1) \<Rightarrow>
          (let response = billing_invoice_json s req i due;
               w = \<lparr>rw_row = \<lparr>rn_id = bi_id i, rn_sub = s, rn_ext = ext, rn_backend = bi_backend_id i,
                      rn_hash = nat_str (bi_hash i), rn_bolt11 = bi_bolt11 i, rn_amount = as_i64 (bi_amount i),
                      rn_expires = bi_expires i, rn_now = now\<rparr>,
                    rw_dedupe = map_option (\<lambda>(sender, r). (sender, r, response)) dedupe\<rparr>
           in case run_prepared persist (renewal_write_txn w) (\<lambda>c. c = None) e1 of
                (Inl err, e2) \<Rightarrow> (Inl err, e2)
              | (Inr (Some j), e2) \<Rightarrow> (Inr j, e2)
              | (Inr None, e2) \<Rightarrow> (Inr response, e2)))"

definition resuming_retry_notice :: string where
  "resuming_retry_notice = ''a renewal is being applied '' @ em_dash @ '' please retry in a moment''"

definition foreign_recipe_refusal :: string where
  "foreign_recipe_refusal = ''this subscription is not currently served here''"

text \<open>The end of the window in which a renewal is still applied: the credited resumable boundary.\<close>

definition resumable_until :: "subscription \<Rightarrow> int option" where
  "resumable_until q = map_option (\<lambda>pt. max pt (unwrap_or (sub_floor q) pt) + unwrap_or (sub_retention_s q) 0)
     (sub_paid_through q)"

text \<open>The invoice's lifetime, or none when it could only settle too late.\<close>

definition renewal_window :: "subscription \<Rightarrow> int \<Rightarrow> nat option" where
  "renewal_window q now =
     (case resumable_until q of
        None \<Rightarrow> Some invoice_expiry_s
      | Some b \<Rightarrow>
          if b \<le> now then None
          else if b - now < min_renewal_invoice_expiry_s then None
          else Some (nat (min (b - now) (int invoice_expiry_s))))"

definition handle_renew :: "'w ports \<Rightarrow> string \<Rightarrow> renew_request \<Rightarrow> int \<Rightarrow> 'w env \<Rightarrow> 'w handled" where
  "handle_renew Q sender r now e =
     (let req = rr_req_id r; s = rr_req_sub r
      in case cached_reply sender req (e_db e) of
           Inl err \<Rightarrow> (Inl err, e)
         | Inr (Some j) \<Rightarrow> (Inr (Some j), e)
         | Inr None \<Rightarrow>
             if validate_buyer_request_id_tail req \<noteq> None then (Inr None, e)
             else (case find_sub s (e_db e) of
               None \<Rightarrow> (Inr None, e)
             | Some q \<Rightarrow>
                 if unwrap_or (sub_buyer q) [] \<noteq> sender then (Inr None, e)
                 else if \<not> owns_row Q (sub_recipe q)
                 then (Inr (Some (order_error_json req
                        ((unavailable foreign_recipe_refusal)\<lparr>we_retryable := can_still_reach_active (sub_state q)\<rparr>))), e)
                 else if sub_state q = ''RESUMING''
                 then (Inr (Some (billing_notice_json s (Some req) ''RESUMING'' resuming_retry_notice)), e)
                 else if sub_state q \<noteq> ''ACTIVE'' \<and> sub_state q \<noteq> ''SUSPENDED'' then (Inr None, e)
                 else (case renewal_window q now of
                   None \<Rightarrow> (Inr None, e)
                 | Some expiry \<Rightarrow>
                     (case issue_renewal Q s (''renew:req:'' @ sender @ '':'' @ req) (Some req)
                             (unwrap_or (sub_paid_through q) now) now expiry (Some (sender, req)) e of
                        (Inl err, e1) \<Rightarrow> (Inl err, e1) | (Inr j, e1) \<Rightarrow> (Inr (Some j), e1)))))"

subsection \<open>Cancelling\<close>

definition cancel_txn :: "string \<Rightarrow> string \<Rightarrow> json \<Rightarrow> int \<Rightarrow> bool tx" where
  "cancel_txn s buyer notice now d =
     (case find_sub s d of
        None \<Rightarrow> Inr (False, d)
      | Some q \<Rightarrow>
          (case (if sub_state q = ''ACTIVE'' then sub_paid_through q
                 else if sub_state q = ''SUSPENDED'' then sub_next_deadline q else None) of
             None \<Rightarrow> Inr (False, d)
           | Some deadline \<Rightarrow>
               (case cas_sub (\<lambda>r. sub_id r = s \<and> sub_state r \<in> {''ACTIVE'', ''SUSPENDED''})
                       (\<lambda>r. r\<lparr>sub_state := ''CANCELLED'', sub_next_deadline := Some deadline, sub_updated := now\<rparr>) d of
                  (False, d') \<Rightarrow> Inr (False, d')
                | (True, d') \<Rightarrow> Inr (True,
                    insert_event (Some s) ''order_intake_cancel'' (JObj [(''term_deadline'', JInt deadline)]) now
                      (enqueue_row (''outbox:cancel-notice:'' @ s @ '':'' @ int_str deadline) (Some buyer) (Some s)
                         ''billing.notice'' notice now d')))))"

definition handle_cancel :: "string \<Rightarrow> string \<Rightarrow> int \<Rightarrow> 'w env \<Rightarrow> 'w handled" where
  "handle_cancel sender s now e =
     (case find_sub s (e_db e) of
        None \<Rightarrow> (Inr None, e)
      | Some q \<Rightarrow>
          if unwrap_or (sub_buyer q) [] \<noteq> sender then (Inr None, e)
          else if sub_state q = ''RESUMING''
          then (Inr (Some (billing_notice_json s None ''RESUMING'' resuming_retry_notice)), e)
          else if sub_state q \<noteq> ''ACTIVE'' \<and> sub_state q \<noteq> ''SUSPENDED'' then (Inr None, e)
          else (case run_tx (cancel_txn s (unwrap_or (sub_buyer q) [])
                       (billing_notice_json s None ''CANCELLED''
                          ''subscription cancelled; service runs until the paid period ends, then terminates'') now) e of
            (Inl err, e1) \<Rightarrow> (Inl err, e1) | (Inr _, e1) \<Rightarrow> (Inr None, e1)))"

subsection \<open>The handler\<close>

text \<open>Any other message is not the intake's; \<open>delivery.resend.request\<close> is answered by \<open>Provision\<close>.\<close>

definition handle_msg :: "'w ports \<Rightarrow> intake \<Rightarrow> string \<Rightarrow> msg \<Rightarrow> int \<Rightarrow> 'w env \<Rightarrow> 'w handled" where
  "handle_msg Q K sender m now e =
     (case m of
        OrderRequest r \<Rightarrow> handle_order Q K sender r now e
      | RenewRequest r \<Rightarrow> handle_renew Q sender r now e
      | SubCancel s \<Rightarrow> handle_cancel sender s now e
      | _ \<Rightarrow> (Inr None, e))"

lemma billing_notice_wire: "billing_notice_json s req st m =
    msg_json (BillingNotice \<lparr>bn_sub = s, bn_req = req, bn_state = st, bn_message = m\<rparr>)"
  by (simp add: billing_notice_json_def msg_json_def request_member_def opt_member_def split: option.split)

lemma billing_invoice_wire: "billing_invoice_json s req i due =
    msg_json (BillingInvoice \<lparr>bv_sub = s, bv_req = req, bv_bolt11 = bi_bolt11 i, bv_amount = bi_amount i,
      bv_due = due, bv_expires = bi_expires i\<rparr>)"
  by (simp add: billing_invoice_json_def msg_json_def request_member_def opt_member_def split: option.split)

end
