(* ===== verification/Op_Dispatch.thy ===== *)
theory Op_Dispatch
  imports Order_Intake
begin

text \<open>
  Management operations, \<open>daemon/src/op_dispatch.rs\<close>: the durable claim of an \<open>op.request\<close>, the checks, the
  one run of the recipe's hook, the terminal commit, and what a duplicate of the request is answered
  from the in-flight registry or from the row.

  A request in work is a task; tasks interleave at the \<open>await\<close>s of the code, which are the boundaries
  of \<open>advance\<close>. A task's \<open>watch\<close> channel is named by the task's number. What a hook answers and the
  clock are arguments of a step. A \<open>result_json\<close> is kept as the JSON value it is the text of; the text
  of an error has one character per byte.
\<close>

definition max_error_message_chars :: nat where "max_error_message_chars = 256"

definition hook_failed_message :: string where "hook_failed_message = ''operation hook failed''"

definition cap_message :: "string \<Rightarrow> string" where
  "cap_message m = (if length m \<le> max_error_message_chars then m else take max_error_message_chars m @ ellipsis)"

subsection \<open>The errors\<close>

definition unauthorized :: wire_error where
  "unauthorized = \<lparr>we_code = ''unauthorized'', we_message = ''not authorized for this subscription'', we_retryable = False\<rparr>"

definition unavailable_sub :: "string \<Rightarrow> wire_error" where
  "unavailable_sub st = \<lparr>we_code = ''unavailable'', we_message = foreign_recipe_refusal,
     we_retryable = can_still_reach_active st\<rparr>"

definition not_active :: wire_error where
  "not_active = \<lparr>we_code = ''not_active'', we_message = ''subscription is not active'', we_retryable = False\<rparr>"

definition invalid_request_id :: wire_error where
  "invalid_request_id = \<lparr>we_code = ''invalid_request_id'',
     we_message = ''request id must be 1..=128 chars using only [A-Za-z0-9_-]'', we_retryable = False\<rparr>"

definition unknown_op :: wire_error where
  "unknown_op = \<lparr>we_code = ''unknown_op'', we_message = ''unknown management operation'', we_retryable = False\<rparr>"

definition invalid_params :: "string \<Rightarrow> wire_error" where
  "invalid_params m = \<lparr>we_code = ''invalid_params'', we_message = m, we_retryable = False\<rparr>"

definition timeout_err :: wire_error where
  "timeout_err = \<lparr>we_code = ''timeout'', we_message = ''operation hook timed out'', we_retryable = True\<rparr>"

definition hook_failed :: "string \<Rightarrow> wire_error" where
  "hook_failed m = \<lparr>we_code = ''hook_failed'', we_message = m, we_retryable = False\<rparr>"

definition interrupted :: wire_error where
  "interrupted = \<lparr>we_code = ''interrupted'', we_message = ''operation interrupted by daemon restart'', we_retryable = False\<rparr>"

subsection \<open>The durable row\<close>

type_synonym op_key = "string \<times> string" \<comment> \<open>the sender and the request id\<close>

definition op_key_of :: "op_invocation \<Rightarrow> op_key" where
  "op_key_of r = (oi_sender r, oi_request r)"

definition find_op :: "op_key \<Rightarrow> db \<Rightarrow> op_invocation option" where
  "find_op k d = List.find (\<lambda>r. op_key_of r = k) (op_invocations d)"

datatype claim =
    Claimed string
  | ClaimDone "json option" string string
  | ClaimErrored "json option" string string
  | ClaimRunning
  | ClaimUnauthorized
  | ClaimForeign string string
  | ClaimNotActive

definition classify :: "op_invocation \<Rightarrow> claim" where
  "classify r =
     (if oi_state r = ''DONE'' then ClaimDone (oi_result r) (unwrap_or (oi_sub r) []) (unwrap_or (oi_op r) [])
      else if oi_state r = ''ERROR'' then ClaimErrored (oi_error r) (unwrap_or (oi_sub r) []) (unwrap_or (oi_op r) [])
      else ClaimRunning)"

definition lookup_existing :: "op_key \<Rightarrow> db \<Rightarrow> claim option" where
  "lookup_existing k d = map_option classify (find_op k d)"

definition running_row :: "op_key \<Rightarrow> op_request \<Rightarrow> int \<Rightarrow> op_invocation" where
  "running_row k q now = \<lparr>oi_sender = fst k, oi_request = snd k, oi_sub = Some (oq_sub q), oi_op = Some (oq_op q),
     oi_state = ''RUNNING'', oi_result = None, oi_error = None, oi_created = now, oi_finished = None\<rparr>"

definition vanished_claim :: string where "vanished_claim = ''op_invocation conflict vanished on re-read''"

definition claim_txn :: "recipe \<Rightarrow> string \<Rightarrow> op_request \<Rightarrow> int \<Rightarrow> claim tx" where
  "claim_txn R sender q now d =
     (let k = (sender, oq_id q) in
      case lookup_existing k d of
        Some c \<Rightarrow> Inr (c, d)
      | None \<Rightarrow>
          (case find_sub (oq_sub q) d of
             None \<Rightarrow> Inr (ClaimUnauthorized, d)
           | Some s \<Rightarrow>
               if unwrap_or (sub_buyer s) [] \<noteq> sender then Inr (ClaimUnauthorized, d)
               else if \<not> recipe_owns_row R (sub_recipe s)
               then Inr (ClaimForeign (unwrap_or (sub_recipe s) []) (sub_state s), d)
               else if sub_state s \<noteq> ''ACTIVE'' then Inr (ClaimNotActive, d)
               else if \<exists>r\<in>set (op_invocations d). op_key_of r = k
               then (case lookup_existing k d of None \<Rightarrow> Inl (Bail vanished_claim) | Some c \<Rightarrow> Inr (c, d))
               else Inr (Claimed (sub_state s), d\<lparr>op_invocations := op_invocations d @ [running_row k q now]\<rparr>)))"

text \<open>How an invocation ends; an error is stored as its JSON value.\<close>

datatype terminal = TDone json | TError wire_error

fun terminal_row :: "terminal \<Rightarrow> int \<Rightarrow> op_invocation \<Rightarrow> op_invocation" where
  "terminal_row (TDone j) now r = r\<lparr>oi_state := ''DONE'', oi_result := Some j, oi_error := None, oi_finished := Some now\<rparr>"
| "terminal_row (TError w) now r =
     r\<lparr>oi_state := ''ERROR'', oi_result := None, oi_error := Some (wire_error_json w), oi_finished := Some now\<rparr>"

definition left_running :: string where "left_running = ''op_invocation left RUNNING before its commit''"

definition running_op :: "op_key \<Rightarrow> op_invocation \<Rightarrow> bool" where
  "running_op k r \<longleftrightarrow> op_key_of r = k \<and> oi_state r = ''RUNNING''"

definition commit_terminal_txn :: "op_key \<Rightarrow> terminal \<Rightarrow> int \<Rightarrow> unit tx" where
  "commit_terminal_txn k t now d =
     (if count_where (running_op k) (op_invocations d) = 0 then Inl (Bail left_running)
      else Inr ((), d\<lparr>op_invocations := update_where (running_op k) (terminal_row t now) (op_invocations d)\<rparr>))"

definition recover_interrupted_ops :: "int \<Rightarrow> db \<Rightarrow> nat \<times> db" where
  "recover_interrupted_ops now d =
     (let P = (\<lambda>r. oi_state r = ''RUNNING'') in
      (count_where P (op_invocations d),
       d\<lparr>op_invocations := update_where P
           (\<lambda>r. r\<lparr>oi_state := ''ERROR'', oi_error := Some (wire_error_json interrupted), oi_finished := Some now\<rparr>)
           (op_invocations d)\<rparr>))"

subsection \<open>The owner's path\<close>

definition validate_op_params :: "operation \<Rightarrow> json \<Rightarrow> string option" where
  "validate_op_params op j =
     (case j of
        JObj kvs \<Rightarrow> or_else (check_params (op_params op) kvs)
          (map_option (\<lambda>(k, _). ''unknown param `'' @ k @ ''`'')
             (List.find (\<lambda>(k, _). k \<notin> pm_key ` set (op_params op)) kvs))
      | _ \<Rightarrow> Some ''op params must be a JSON object'')"

text \<open>What the claim's owner settles before the hook: the error to store, or the operation to run.\<close>

definition resolve_op :: "recipe \<Rightarrow> op_request \<Rightarrow> wire_error + operation" where
  "resolve_op R q =
     (case operation_of R (oq_op q) of
        None \<Rightarrow> Inl unknown_op
      | Some op \<Rightarrow>
          if op_kind op \<noteq> ''request'' then Inl unknown_op
          else (case validate_op_params op (oq_params q) of
            Some m \<Rightarrow> Inl (invalid_params (cap_message m)) | None \<Rightarrow> Inr op))"

definition load_instance :: "string \<Rightarrow> db \<Rightarrow> json" where
  "load_instance s d =
     (case List.find (\<lambda>i. ins_sub i = Some s) (instances d) of
        None \<Rightarrow> JNull
      | Some i \<Rightarrow> JObj [(''id'', JStr (ins_id i)), (''subscription_id'', JStr s), (''box_id'', json_of_text (ins_box i)),
          (''kind'', json_of_text (ins_kind i)), (''handles'', unwrap_or (ins_handles i) JNull),
          (''state'', json_of_text (ins_state i))])"

definition op_input :: "recipe \<Rightarrow> string \<Rightarrow> op_request \<Rightarrow> string \<Rightarrow> json \<Rightarrow> int \<Rightarrow> json" where
  "op_input R sender q st inst now = JObj
     [(''subscription'', JObj [(''id'', JStr (oq_sub q)), (''buyer_pubkey'', JStr sender), (''state'', JStr st)]),
      (''instance'', inst), (''op'', JStr (oq_op q)), (''params'', oq_params q),
      (''host'', JObj [(''backend'', JStr (rc_backend R)), (''isolation'', JStr (rc_isolation R)), (''tier'', JStr (rc_tier R)),
         (''os'', JArr (map JStr (rc_os R))), (''resources'', resources_json (rc_res R))]),
      (''now'', JInt now)]"

definition hook_terminal :: "string + json \<Rightarrow> terminal" where
  "hook_terminal h =
     (case h of
        Inr j \<Rightarrow> if is_object j then TDone j else TError (hook_failed ''operation hook did not return a JSON object'')
      | Inl m \<Rightarrow> TError (if is_timeout m then timeout_err else hook_failed hook_failed_message))"

subsection \<open>Replies\<close>

definition resend_done :: "string \<Rightarrow> string \<Rightarrow> string \<Rightarrow> json option \<Rightarrow> op_result" where
  "resend_done req s op j =
     op_ok req s op (case j of Some v \<Rightarrow> if is_object v then v else JObj [] | None \<Rightarrow> JObj [])"

definition resend_errored :: "string \<Rightarrow> string \<Rightarrow> string \<Rightarrow> json option \<Rightarrow> op_result" where
  "resend_errored req s op j = op_err req s op (unwrap_or (Option.bind j wire_error_of) interrupted)"

definition reject :: "op_request \<Rightarrow> wire_error \<Rightarrow> op_result" where
  "reject q w = op_err (oq_id q) (oq_sub q) (oq_op q) w"

fun own_reply :: "op_request \<Rightarrow> terminal \<Rightarrow> op_result" where
  "own_reply q (TDone j) = op_ok (oq_id q) (oq_sub q) (oq_op q) j"
| "own_reply q (TError w) = reject q w"

subsection \<open>Tasks and the in-flight registry\<close>

datatype flight_state =
    FlightDone json string string
  | FlightErrored json string string
  | NoTerminal

fun flight_outcome :: "op_request \<Rightarrow> terminal \<Rightarrow> flight_state" where
  "flight_outcome q (TDone j) = FlightDone j (oq_sub q) (oq_op q)"
| "flight_outcome q (TError w) = FlightErrored (wire_error_json w) (oq_sub q) (oq_op q)"

datatype phase =
    Arrived
  | Won string             \<comment> \<open>the claim is committed; carries the subscription's state\<close>
  | Loading string operation \<comment> \<open>registered; the instance is being read\<close>
  | HookRunning
  | Closing terminal       \<comment> \<open>the terminal commit is under way\<close>
  | Closed terminal        \<comment> \<open>committed, not yet published\<close>
  | Duplicate              \<comment> \<open>the claim found a \<open>RUNNING\<close> row\<close>
  | Attached nat           \<comment> \<open>waits for the outcome of that task\<close>
  | Rereading
  | Replying op_result
  | Handled                \<comment> \<open>returned \<open>Ok\<close>\<close>
  | Deferred               \<comment> \<open>returned \<open>Err\<close> or was dropped\<close>
  | ClaimQueued            \<comment> \<open>dropped while its claim was queued at the store\<close>
  | CloseQueued terminal   \<comment> \<open>dropped while its terminal commit was queued\<close>

record task =
  tk_sender :: string
  tk_req :: op_request
  tk_now :: int \<comment> \<open>the clock when the dispatch began\<close>
  tk_phase :: phase

record op_desk =
  dp_db :: db
  dp_tasks :: "task list"
  dp_registry :: "op_key \<Rightarrow> nat option"
  dp_watch :: "nat \<Rightarrow> flight_state option"
  dp_runs :: "(op_key \<times> json) list"    \<comment> \<open>the hooks started, with their input\<close>
  dp_replies :: "(string \<times> op_result) list" \<comment> \<open>handed to \<open>out.reply\<close>\<close>
  dp_pruned :: "op_key list"            \<comment> \<open>rows the retention sweep deleted\<close>

definition task_key :: "task \<Rightarrow> op_key" where
  "task_key t = (tk_sender t, oq_id (tk_req t))"

definition set_phase :: "nat \<Rightarrow> phase \<Rightarrow> op_desk \<Rightarrow> op_desk" where
  "set_phase i p D = D\<lparr>dp_tasks := (dp_tasks D)[i := (dp_tasks D ! i)\<lparr>tk_phase := p\<rparr>]\<rparr>"

definition register :: "nat \<Rightarrow> op_desk \<Rightarrow> op_desk" where
  "register i D = D\<lparr>dp_registry := (dp_registry D)(task_key (dp_tasks D ! i) \<mapsto> i)\<rparr>"

text \<open>\<open>publish\<close>, and the guard's \<open>Drop\<close>, which publishes \<open>NoTerminal\<close>: both remove the entry.\<close>

definition announce :: "nat \<Rightarrow> flight_state \<Rightarrow> op_desk \<Rightarrow> op_desk" where
  "announce i x D = D\<lparr>dp_watch := (dp_watch D)(i \<mapsto> x),
     dp_registry := (dp_registry D)(task_key (dp_tasks D ! i) := None)\<rparr>"

fun holds_guard :: "phase \<Rightarrow> bool" where
  "holds_guard (Loading _ _) = True"
| "holds_guard HookRunning = True"
| "holds_guard (Closing _) = True"
| "holds_guard (Closed _) = True"
| "holds_guard _ = False"

text \<open>A task that returns \<open>Err\<close>, panics or is cancelled; a job it had queued at the store still runs.\<close>

fun queued_job :: "phase \<Rightarrow> phase" where
  "queued_job Arrived = ClaimQueued"
| "queued_job (Closing t) = CloseQueued t"
| "queued_job _ = Deferred"

definition drop_task :: "nat \<Rightarrow> phase \<Rightarrow> op_desk \<Rightarrow> op_desk" where
  "drop_task i p D = set_phase i p (if holds_guard (tk_phase (dp_tasks D ! i)) then announce i NoTerminal D else D)"

fun after_claim :: "op_request \<Rightarrow> claim \<Rightarrow> phase" where
  "after_claim q (Claimed st) = Won st"
| "after_claim q (ClaimDone j s op) = Replying (resend_done (oq_id q) s op j)"
| "after_claim q (ClaimErrored j s op) = Replying (resend_errored (oq_id q) s op j)"
| "after_claim q ClaimRunning = Duplicate"
| "after_claim q ClaimUnauthorized = Replying (reject q unauthorized)"
| "after_claim q (ClaimForeign r st) = Replying (reject q (unavailable_sub st))"
| "after_claim q ClaimNotActive = Replying (reject q not_active)"

fun after_reread :: "op_request \<Rightarrow> claim option \<Rightarrow> phase" where
  "after_reread q (Some (ClaimDone j s op)) = Replying (resend_done (oq_id q) s op j)"
| "after_reread q (Some (ClaimErrored j s op)) = Replying (resend_errored (oq_id q) s op j)"
| "after_reread q _ = Deferred"

fun after_outcome :: "op_request \<Rightarrow> flight_state \<Rightarrow> phase" where
  "after_outcome q (FlightDone j s op) = Replying (resend_done (oq_id q) s op (Some j))"
| "after_outcome q (FlightErrored j s op) = Replying (resend_errored (oq_id q) s op (Some j))"
| "after_outcome q NoTerminal = Deferred"

text \<open>The next stretch of task \<open>i\<close>; \<open>h\<close> is what its hook answers, should it be waiting for it.\<close>

definition advance :: "recipe \<Rightarrow> string + json \<Rightarrow> nat \<Rightarrow> op_desk \<Rightarrow> op_desk" where
  "advance R h i D =
     (let t = dp_tasks D ! i; q = tk_req t; k = task_key t; now = tk_now t in
      case tk_phase t of
        Arrived \<Rightarrow>
          if validate_buyer_request_id_tail (oq_id q) \<noteq> None then set_phase i (Replying (reject q invalid_request_id)) D
          else (case claim_txn R (tk_sender t) q now (dp_db D) of
            Inl _ \<Rightarrow> drop_task i Deferred D
          | Inr (c, d) \<Rightarrow> set_phase i (after_claim q c) (D\<lparr>dp_db := d\<rparr>))
      | Won st \<Rightarrow>
          set_phase i (case resolve_op R q of Inl w \<Rightarrow> Closing (TError w) | Inr op \<Rightarrow> Loading st op) (register i D)
      | Loading st op \<Rightarrow>
          set_phase i HookRunning
            (D\<lparr>dp_runs := dp_runs D @ [(k, op_input R (tk_sender t) q st (load_instance (oq_sub q) (dp_db D)) now)]\<rparr>)
      | HookRunning \<Rightarrow> set_phase i (Closing (hook_terminal h)) D
      | Closing x \<Rightarrow>
          (case commit_terminal_txn k x now (dp_db D) of
             Inl _ \<Rightarrow> drop_task i Deferred D
           | Inr (_, d) \<Rightarrow> set_phase i (Closed x) (D\<lparr>dp_db := d\<rparr>))
      | Closed x \<Rightarrow> set_phase i (Replying (own_reply q x)) (announce i (flight_outcome q x) D)
      | Duplicate \<Rightarrow>
          set_phase i (case dp_registry D k of Some j \<Rightarrow> Attached j | None \<Rightarrow> Rereading) D
      | Attached j \<Rightarrow>
          (case dp_watch D j of None \<Rightarrow> D | Some x \<Rightarrow> set_phase i (after_outcome q x) D)
      | Rereading \<Rightarrow> set_phase i (after_reread q (lookup_existing k (dp_db D))) D
      | Replying r \<Rightarrow> set_phase i Handled (D\<lparr>dp_replies := dp_replies D @ [(tk_sender t, r)]\<rparr>)
      | ClaimQueued \<Rightarrow>
          (case claim_txn R (tk_sender t) q now (dp_db D) of
             Inl _ \<Rightarrow> set_phase i Deferred D | Inr (_, d) \<Rightarrow> set_phase i Deferred (D\<lparr>dp_db := d\<rparr>))
      | CloseQueued x \<Rightarrow>
          (case commit_terminal_txn k x now (dp_db D) of
             Inl _ \<Rightarrow> set_phase i Deferred D | Inr (_, d) \<Rightarrow> set_phase i Deferred (D\<lparr>dp_db := d\<rparr>))
      | Handled \<Rightarrow> D
      | Deferred \<Rightarrow> D)"

text \<open>A crash ends every task; the supervisor recovers before it listens again.\<close>

definition crash_restart :: "int \<Rightarrow> op_desk \<Rightarrow> op_desk" where
  "crash_restart now D = D\<lparr>dp_tasks := map (\<lambda>t. t\<lparr>tk_phase := case tk_phase t of Handled \<Rightarrow> Handled | _ \<Rightarrow> Deferred\<rparr>) (dp_tasks D),
     dp_registry := (\<lambda>_. None), dp_db := snd (recover_interrupted_ops now (dp_db D))\<rparr>"

definition arrive :: "string \<Rightarrow> op_request \<Rightarrow> int \<Rightarrow> op_desk \<Rightarrow> op_desk" where
  "arrive sender q now D = D\<lparr>dp_tasks := dp_tasks D @ [\<lparr>tk_sender = sender, tk_req = q, tk_now = now, tk_phase = Arrived\<rparr>]\<rparr>"

definition prune_ops :: "int \<Rightarrow> int \<Rightarrow> op_desk \<Rightarrow> op_desk" where
  "prune_ops clock now D =
     (let d = snd (prune_idempotency_caches clock now (dp_db D))
      in D\<lparr>dp_db := d, dp_pruned := dp_pruned D @
             map op_key_of (filter (\<lambda>r. r \<notin> set (op_invocations d)) (op_invocations (dp_db D)))\<rparr>)"

definition boot_dispatcher :: "db \<Rightarrow> op_desk" where
  "boot_dispatcher d = \<lparr>dp_db = d, dp_tasks = [], dp_registry = (\<lambda>_. None), dp_watch = (\<lambda>_. None), dp_runs = [],
     dp_replies = [], dp_pruned = []\<rparr>"

text \<open>The other components change the database but not the invocations.\<close>

inductive dispatch_step :: "recipe \<Rightarrow> op_desk \<Rightarrow> op_desk \<Rightarrow> bool" for R where
  arrive: "dispatch_step R D (arrive sender q now D)"
| advance: "i < length (dp_tasks D) \<Longrightarrow> dispatch_step R D (advance R h i D)"
| drop: "i < length (dp_tasks D) \<Longrightarrow> tk_phase (dp_tasks D ! i) \<notin> {Handled, Deferred} \<Longrightarrow>
    p \<in> {Deferred, queued_job (tk_phase (dp_tasks D ! i))} \<Longrightarrow> dispatch_step R D (drop_task i p D)"
| crash: "dispatch_step R D (crash_restart now D)"
| prune: "dispatch_step R D (prune_ops clock now D)"
| other: "op_invocations d = op_invocations (dp_db D) \<Longrightarrow> dispatch_step R D (D\<lparr>dp_db := d\<rparr>)"

inductive dispatch_run :: "recipe \<Rightarrow> op_desk \<Rightarrow> op_desk \<Rightarrow> bool" for R where
  start: "dispatch_run R D D"
| step: "dispatch_run R D D' \<Longrightarrow> dispatch_step R D' D'' \<Longrightarrow> dispatch_run R D D''"


subsection \<open>Frames of the small updates\<close>

lemma set_phase_frame [simp]:
  "dp_db (set_phase i p D) = dp_db D" "dp_registry (set_phase i p D) = dp_registry D"
  "dp_watch (set_phase i p D) = dp_watch D" "dp_runs (set_phase i p D) = dp_runs D"
  "dp_replies (set_phase i p D) = dp_replies D" "dp_pruned (set_phase i p D) = dp_pruned D"
  "length (dp_tasks (set_phase i p D)) = length (dp_tasks D)"
  by (simp_all add: set_phase_def)

lemma keys_set_phase [simp]: "map task_key (dp_tasks (set_phase i p D)) = map task_key (dp_tasks D)"
proof -
  have "map task_key (xs[i := (xs ! i)\<lparr>tk_phase := p\<rparr>]) = map task_key xs" for xs
    by (induction xs arbitrary: i) (auto simp: task_key_def split: nat.split)
  then show ?thesis by (simp add: set_phase_def)
qed

lemma publish_frame [simp]:
  "dp_db (announce i x D) = dp_db D" "dp_tasks (announce i x D) = dp_tasks D" "dp_runs (announce i x D) = dp_runs D"
  "dp_replies (announce i x D) = dp_replies D" "dp_pruned (announce i x D) = dp_pruned D"
  "dp_watch (announce i x D) = (dp_watch D)(i \<mapsto> x)"
  "dp_registry (announce i x D) = (dp_registry D)(task_key (dp_tasks D ! i) := None)"
  by (simp_all add: announce_def)

lemma register_frame [simp]:
  "dp_db (register i D) = dp_db D" "dp_tasks (register i D) = dp_tasks D" "dp_runs (register i D) = dp_runs D"
  "dp_replies (register i D) = dp_replies D" "dp_pruned (register i D) = dp_pruned D"
  "dp_watch (register i D) = dp_watch D"
  "dp_registry (register i D) = (dp_registry D)(task_key (dp_tasks D ! i) \<mapsto> i)"
  by (simp_all add: register_def)

lemma tasks_set_phase: "dp_tasks (set_phase i p D) = (dp_tasks D)[i := (dp_tasks D ! i)\<lparr>tk_phase := p\<rparr>]"
  by (simp add: set_phase_def)

lemma tasks_set_phase_sub: "set (dp_tasks (set_phase i p D)) \<subseteq> insert ((dp_tasks D ! i)\<lparr>tk_phase := p\<rparr>) (set (dp_tasks D))"
  by (simp add: tasks_set_phase set_update_subset_insert)

lemma nth_set_phase: "j < length (dp_tasks D) \<Longrightarrow> dp_tasks (set_phase i p D) ! j =
    (if i = j then (dp_tasks D ! i)\<lparr>tk_phase := p\<rparr> else dp_tasks D ! j)"
  by (simp add: tasks_set_phase nth_list_update)

lemma task_key_phase [simp]: "task_key (t\<lparr>tk_phase := p\<rparr>) = task_key t"
  by (simp add: task_key_def)

subsection \<open>The hook runs at most once\<close>

fun about_to_run :: "phase \<Rightarrow> bool" where
  "about_to_run (Won _) = True"
| "about_to_run (Loading _ _) = True"
| "about_to_run _ = False"

definition pending_runs :: "op_key \<Rightarrow> task list \<Rightarrow> nat" where
  "pending_runs k ts = count_where (\<lambda>t. task_key t = k \<and> about_to_run (tk_phase t)) ts"

definition hook_runs :: "op_key \<Rightarrow> op_desk \<Rightarrow> nat" where
  "hook_runs k D = count_where (\<lambda>r. fst r = k) (dp_runs D)"

definition prunes :: "op_key \<Rightarrow> op_desk \<Rightarrow> nat" where
  "prunes k D = count_where (\<lambda>x. x = k) (dp_pruned D)"

definition has_row :: "op_key \<Rightarrow> op_desk \<Rightarrow> nat" where
  "has_row k D = (if find_op k (dp_db D) = None then 0 else 1)"

definition runs_ok :: "op_desk \<Rightarrow> bool" where
  "runs_ok D \<longleftrightarrow> (\<forall>k. hook_runs k D + pending_runs k (dp_tasks D) \<le> prunes k D + has_row k D)"

lemma count_where_update:
  assumes "i < length xs"
  shows "count_where P (xs[i := y]) + (if P (xs ! i) then 1 else 0) = count_where P xs + (if P y then 1 else 0)"
  using assms
proof (induction xs arbitrary: i)
  case (Cons a xs)
  then show ?case by (cases i) (auto simp: count_where_def split: if_splits)
qed simp

lemma pending_set_phase:
  assumes "i < length (dp_tasks D)"
  shows "pending_runs k (dp_tasks (set_phase i p D)) +
      (if task_key (dp_tasks D ! i) = k \<and> about_to_run (tk_phase (dp_tasks D ! i)) then 1 else 0)
    = pending_runs k (dp_tasks D) + (if task_key (dp_tasks D ! i) = k \<and> about_to_run p then 1 else 0)"
  using count_where_update [OF assms, of "\<lambda>t. task_key t = k \<and> about_to_run (tk_phase t)" "(dp_tasks D ! i)\<lparr>tk_phase := p\<rparr>"]
  by (simp add: pending_runs_def tasks_set_phase)

text \<open>A task that does not come to run a hook leaves the bound alone, as long as no row disappears.\<close>

lemma runs_ok_set_phase:
  assumes "runs_ok D" "i < length (dp_tasks E)" "dp_tasks E = dp_tasks D" "dp_runs E = dp_runs D" "dp_pruned E = dp_pruned D"
    "\<And>k. find_op k (dp_db D) \<noteq> None \<Longrightarrow> find_op k (dp_db E) \<noteq> None"
    "about_to_run p \<Longrightarrow> about_to_run (tk_phase (dp_tasks D ! i))"
  shows "runs_ok (set_phase i p E)"
proof -
  have "hook_runs k (set_phase i p E) + pending_runs k (dp_tasks (set_phase i p E))
      \<le> prunes k (set_phase i p E) + has_row k (set_phase i p E)" for k
  proof -
    have "hook_runs k D + pending_runs k (dp_tasks D) \<le> prunes k D + has_row k D" using assms(1) unfolding runs_ok_def by blast
    moreover have "pending_runs k (dp_tasks (set_phase i p E)) \<le> pending_runs k (dp_tasks D)"
      using pending_set_phase [OF assms(2), of k p] assms(3,7) by (simp split: if_splits)
    moreover have "has_row k D \<le> has_row k E" using assms(6) [of k] by (simp add: has_row_def)
    ultimately show ?thesis using assms(4,5) by (simp add: hook_runs_def prunes_def has_row_def)
  qed
  then show ?thesis unfolding runs_ok_def by blast
qed

lemma find_op_append:
  "find_op k (d\<lparr>op_invocations := op_invocations d @ [r]\<rparr>) =
     (case find_op k d of Some x \<Rightarrow> Some x | None \<Rightarrow> if op_key_of r = k then Some r else None)"
  by (simp add: find_op_def find_append split: option.split)

lemma find_op_update:
  assumes "\<And>r. op_key_of (f r) = op_key_of r"
  shows "find_op k (d\<lparr>op_invocations := update_where P f (op_invocations d)\<rparr>)
    = map_option (\<lambda>r. if P r then f r else r) (find_op k d)"
proof -
  have "List.find (\<lambda>r. op_key_of r = k) (update_where P f xs)
      = map_option (\<lambda>r. if P r then f r else r) (List.find (\<lambda>r. op_key_of r = k) xs)" for xs
    using assms by (induction xs) auto
  then show ?thesis by (simp add: find_op_def)
qed

lemma terminal_row_key [simp]: "op_key_of (terminal_row x now r) = op_key_of r"
  by (cases x) (simp_all add: op_key_of_def)

lemma claim_txnE:
  assumes "claim_txn R sender q now d = Inr (c, d')"
  obtains (same) "d' = d" "\<And>st. c \<noteq> Claimed st"
  | (claimed) s where "c = Claimed (sub_state s)" "find_op (sender, oq_id q) d = None"
      "d' = d\<lparr>op_invocations := op_invocations d @ [running_row (sender, oq_id q) q now]\<rparr>"
      "find_sub (oq_sub q) d = Some s" "unwrap_or (sub_buyer s) [] = sender" "recipe_owns_row R (sub_recipe s)"
      "sub_state s = ''ACTIVE''"
proof (cases "lookup_existing (sender, oq_id q) d")
  case (Some x)
  then have "c \<noteq> Claimed st" for st
    using assms by (auto simp: claim_txn_def lookup_existing_def classify_def split: if_splits)
  then show thesis using Some assms that(1) by (simp add: claim_txn_def)
next
  case None
  then have n: "find_op (sender, oq_id q) d = None" by (simp add: lookup_existing_def)
  show thesis
  proof (cases "find_sub (oq_sub q) d")
    case N: None
    then show thesis using None assms that(1) by (auto simp: claim_txn_def)
  next
    case (Some s)
    consider "unwrap_or (sub_buyer s) [] \<noteq> sender \<or> \<not> recipe_owns_row R (sub_recipe s) \<or> sub_state s \<noteq> ''ACTIVE''"
      | "unwrap_or (sub_buyer s) [] = sender" "recipe_owns_row R (sub_recipe s)" "sub_state s = ''ACTIVE''" by blast
    then show thesis
    proof cases
      case 1
      then have "d' = d \<and> (\<forall>st. c \<noteq> Claimed st)"
        using None Some assms by (auto simp: claim_txn_def Let_def split: if_splits)
      then show thesis using that(1) by blast
    next
      case 2
      then show thesis
        using None Some assms that(2) [OF _ n] n
        by (auto simp: claim_txn_def Let_def find_op_def find_None_all split: if_splits)
    qed
  qed
qed

end
