(* ===== verification/Op_Props.thy ===== *)
theory Op_Props
  imports Op_Dispatch
begin

text \<open>
  What the dispatcher of \<open>Op_Dispatch\<close> guarantees whatever the order in which its tasks, the store and a
  crash interleave: the hook of a request runs at most once, a reply is the stored result, and a
  duplicate is never left waiting.
\<close>

subsection \<open>The hook runs at most once\<close>

lemma find_op_claimed:
  assumes "claim_txn R sender q now d = Inr (c, d')" "find_op k d \<noteq> None"
  shows "find_op k d' \<noteq> None"
  using assms(1)
proof (cases rule: claim_txnE)
  case same
  then show ?thesis using assms(2) by simp
next
  case (claimed s)
  then show ?thesis using assms(2) by (auto simp: find_op_append split: option.split)
qed

lemma find_op_closed:
  assumes "commit_terminal_txn k0 x now d = Inr (u, d')"
  shows "find_op k d' = map_option (\<lambda>r. if running_op k0 r then terminal_row x now r else r) (find_op k d)"
  using assms by (auto simp: commit_terminal_txn_def find_op_update split: if_splits)

lemma after_claim_runs: "about_to_run (after_claim q c) \<Longrightarrow> \<exists>st. c = Claimed st"
  by (cases c) auto

lemma after_reread_runs [simp]: "\<not> about_to_run (after_reread q c)"
  by (cases "(q, c)" rule: after_reread.cases) auto

lemma after_outcome_runs [simp]: "\<not> about_to_run (after_outcome q x)"
  by (cases x) auto

lemma runs_ok_claim:
  assumes "runs_ok D" "i < length (dp_tasks D)" "tk_phase (dp_tasks D ! i) = Arrived"
    and c: "claim_txn R (tk_sender (dp_tasks D ! i)) (tk_req (dp_tasks D ! i)) now (dp_db D) = Inr (c, d)"
  shows "runs_ok (set_phase i (after_claim (tk_req (dp_tasks D ! i)) c) (D\<lparr>dp_db := d\<rparr>))"
proof -
  let ?t = "dp_tasks D ! i" let ?q = "tk_req ?t"
  from c show ?thesis
  proof (cases rule: claim_txnE)
    case same
    then show ?thesis using assms(1,2,3) after_claim_runs [of ?q c] by (auto intro!: runs_ok_set_phase [OF assms(1)])
  next
    case (claimed s)
    have "hook_runs k (set_phase i (Won (sub_state s)) (D\<lparr>dp_db := d\<rparr>))
        + pending_runs k (dp_tasks (set_phase i (Won (sub_state s)) (D\<lparr>dp_db := d\<rparr>)))
        \<le> prunes k (set_phase i (Won (sub_state s)) (D\<lparr>dp_db := d\<rparr>)) + has_row k (set_phase i (Won (sub_state s)) (D\<lparr>dp_db := d\<rparr>))" for k
    proof -
      have a: "hook_runs k D + pending_runs k (dp_tasks D) \<le> prunes k D + has_row k D"
        using assms(1) unfolding runs_ok_def by blast
      have b: "pending_runs k (dp_tasks (set_phase i (Won (sub_state s)) (D\<lparr>dp_db := d\<rparr>)))
          = pending_runs k (dp_tasks D) + (if task_key ?t = k then 1 else 0)"
        using pending_set_phase [of i "D\<lparr>dp_db := d\<rparr>" k "Won (sub_state s)"] assms(2,3) by simp
      have "has_row k (D\<lparr>dp_db := d\<rparr>) = has_row k D + (if task_key ?t = k then 1 else 0)"
        using claimed by (auto simp: has_row_def find_op_append task_key_def op_key_of_def running_row_def split: option.split)
      then show ?thesis using a b by (simp add: hook_runs_def prunes_def has_row_def)
    qed
    then show ?thesis using claimed unfolding runs_ok_def by (simp del: split_paired_All)
  qed
qed

lemma runs_ok_start_hook:
  assumes "runs_ok D" "i < length (dp_tasks D)" "tk_phase (dp_tasks D ! i) = Loading st op"
  shows "runs_ok (set_phase i HookRunning (D\<lparr>dp_runs := dp_runs D @ [(task_key (dp_tasks D ! i), j)]\<rparr>))"
proof -
  let ?E = "D\<lparr>dp_runs := dp_runs D @ [(task_key (dp_tasks D ! i), j)]\<rparr>"
  have "hook_runs k (set_phase i HookRunning ?E) + pending_runs k (dp_tasks (set_phase i HookRunning ?E))
      \<le> prunes k (set_phase i HookRunning ?E) + has_row k (set_phase i HookRunning ?E)" for k
  proof -
    have "hook_runs k D + pending_runs k (dp_tasks D) \<le> prunes k D + has_row k D"
      using assms(1) unfolding runs_ok_def by blast
    moreover have "pending_runs k (dp_tasks (set_phase i HookRunning ?E)) + (if task_key (dp_tasks D ! i) = k then 1 else 0)
        = pending_runs k (dp_tasks D)"
      using pending_set_phase [of i ?E k HookRunning] assms(2,3) by simp
    ultimately show ?thesis by (simp add: hook_runs_def prunes_def has_row_def split: if_splits)
  qed
  then show ?thesis unfolding runs_ok_def by blast
qed

lemma runs_ok_advance:
  assumes ok: "runs_ok D" and i: "i < length (dp_tasks D)"
  shows "runs_ok (advance R h i D)"
proof -
  let ?t = "dp_tasks D ! i"
  have keep: "runs_ok (set_phase i p E)"
    if "dp_tasks E = dp_tasks D" "dp_runs E = dp_runs D" "dp_pruned E = dp_pruned D"
      "\<And>k. find_op k (dp_db D) \<noteq> None \<Longrightarrow> find_op k (dp_db E) \<noteq> None"
      "about_to_run p \<Longrightarrow> about_to_run (tk_phase ?t)" for p E
    using that i by (intro runs_ok_set_phase [OF ok]) auto
  have claimed: "runs_ok (set_phase i Deferred (D\<lparr>dp_db := d\<rparr>))"
    if "claim_txn R s q now (dp_db D) = Inr (c, d)" for s q now c d
    using find_op_claimed [OF that] by (intro keep) auto
  have closed: "runs_ok (set_phase i p (D\<lparr>dp_db := d\<rparr>))"
    if "commit_terminal_txn k x now (dp_db D) = Inr (u, d)" "\<not> about_to_run p" for k x now u d p
    using find_op_closed [OF that(1)] that(2) by (intro keep) auto
  show ?thesis
  proof (cases "tk_phase ?t")
    case Arrived
    then show ?thesis
      using runs_ok_claim [OF ok i Arrived]
      by (auto simp: advance_def Let_def drop_task_def split: sum.splits intro!: keep)
  next
    case (Closing x)
    then show ?thesis
      by (auto simp: advance_def Let_def drop_task_def split: sum.splits intro!: keep closed)
  next
    case ClaimQueued
    then show ?thesis by (auto simp: advance_def Let_def split: sum.splits intro!: keep claimed)
  next
    case (CloseQueued x)
    then show ?thesis by (auto simp: advance_def Let_def split: sum.splits intro!: keep closed)
  next
    case (Loading st op)
    then show ?thesis using runs_ok_start_hook [OF ok i Loading] by (simp add: advance_def Let_def)
  qed (auto simp: advance_def Let_def ok split: sum.splits option.splits intro!: keep)
qed

lemma runs_ok_prune:
  assumes "runs_ok D"
  shows "runs_ok (prune_ops clock now D)"
proof -
  let ?E = "prune_ops clock now D"
  have "hook_runs k ?E + pending_runs k (dp_tasks ?E) \<le> prunes k ?E + has_row k ?E" for k
  proof -
    have a: "hook_runs k D + pending_runs k (dp_tasks D) \<le> prunes k D + has_row k D"
      using assms unfolding runs_ok_def by blast
    have b: "prunes k ?E = prunes k D + count_where (\<lambda>r. op_key_of r = k \<and> r \<notin> set (op_invocations (dp_db ?E))) (op_invocations (dp_db D))"
      by (simp add: prune_ops_def prunes_def Let_def count_where_def filter_map comp_def conj_commute)
    have "has_row k D \<le> has_row k ?E + count_where (\<lambda>r. op_key_of r = k \<and> r \<notin> set (op_invocations (dp_db ?E))) (op_invocations (dp_db D))"
    proof (cases "find_op k (dp_db ?E)")
      case None
      show ?thesis
      proof (cases "find_op k (dp_db D)")
        case (Some r)
        then have r: "r \<in> set (op_invocations (dp_db D))" "op_key_of r = k" by (auto simp: find_op_def dest: find_Some_mem)
        then have "r \<notin> set (op_invocations (dp_db ?E))" using None by (auto simp: find_op_def find_None_all)
        with r have "0 < count_where (\<lambda>r. op_key_of r = k \<and> r \<notin> set (op_invocations (dp_db ?E))) (op_invocations (dp_db D))"
          by (auto simp: count_where_pos_iff)
        then show ?thesis by (simp add: has_row_def)
      qed (simp add: has_row_def)
    qed (simp add: has_row_def)
    then show ?thesis using a b by (simp add: hook_runs_def prune_ops_def Let_def)
  qed
  then show ?thesis unfolding runs_ok_def by blast
qed

lemma recover_find:
  "find_op k (snd (recover_interrupted_ops now d)) = map_option (\<lambda>r. if oi_state r = ''RUNNING''
     then r\<lparr>oi_state := ''ERROR'', oi_error := Some (wire_error_json interrupted), oi_finished := Some now\<rparr> else r) (find_op k d)"
  unfolding recover_interrupted_ops_def Let_def snd_conv by (rule find_op_update) (simp add: op_key_of_def)

lemma runs_ok_step:
  assumes "dispatch_step R D E" "runs_ok D"
  shows "runs_ok E"
  using assms
proof (cases rule: dispatch_step.cases)
  case (arrive sender q now)
  then show ?thesis using assms(2)
    by (simp add: runs_ok_def arrive_def pending_runs_def hook_runs_def prunes_def has_row_def del: split_paired_All)
next
  case (advance i h)
  then show ?thesis using assms(2) by (simp add: runs_ok_advance)
next
  case (drop i p)
  have "\<not> about_to_run p" using drop(4) by (cases "tk_phase (dp_tasks D ! i)") auto
  then show ?thesis unfolding drop(1) drop_task_def using drop(2) by (intro runs_ok_set_phase [OF assms(2)]) auto
next
  case (crash now)
  have "pending_runs k (dp_tasks (crash_restart now D)) = 0" for k
    by (auto simp: pending_runs_def crash_restart_def count_where_0_iff split: phase.splits)
  moreover have "has_row k (crash_restart now D) = has_row k D" for k
    by (simp add: has_row_def crash_restart_def recover_find)
  moreover have "hook_runs k D \<le> prunes k D + has_row k D" for k
    using assms(2) unfolding runs_ok_def by (metis add_leD1)
  ultimately have "runs_ok (crash_restart now D)"
    unfolding runs_ok_def by (simp add: hook_runs_def prunes_def crash_restart_def del: split_paired_All)
  then show ?thesis using crash by simp
next
  case (prune clock now)
  then show ?thesis using assms(2) by (simp add: runs_ok_prune)
next
  case (other d)
  then show ?thesis using assms(2)
    by (simp add: runs_ok_def hook_runs_def prunes_def has_row_def find_op_def del: split_paired_All)
qed

lemma runs_ok_run: "dispatch_run R D E \<Longrightarrow> runs_ok D \<Longrightarrow> runs_ok E"
  by (induction rule: dispatch_run.induct) (auto intro: runs_ok_step)

text \<open>
  C16. Whatever the interleaving of requests, duplicates, cancellations, store failures and crashes, the
  hook of one buyer's request is started at most once for each durable row it ever had: never before
  the row is there, and a second time only after the retention sweep has deleted the finished row.
\<close>

theorem op_hook_at_most_once:
  assumes "dispatch_run R (boot_dispatcher d) D"
  shows "hook_runs k D \<le> prunes k D + has_row k D"
proof -
  have "runs_ok (boot_dispatcher d)"
    by (simp add: runs_ok_def boot_dispatcher_def hook_runs_def pending_runs_def)
  from runs_ok_run [OF assms this] have "hook_runs k D + pending_runs k (dp_tasks D) \<le> prunes k D + has_row k D"
    unfolding runs_ok_def by blast
  then show ?thesis by simp
qed


subsection \<open>A reply is the stored result\<close>

text \<open>The reply a row stands for, and the rejections that leave no row.\<close>

definition row_reply :: "op_invocation \<Rightarrow> op_result" where
  "row_reply r =
     (if oi_state r = ''DONE'' then resend_done (oi_request r) (unwrap_or (oi_sub r) []) (unwrap_or (oi_op r) []) (oi_result r)
      else resend_errored (oi_request r) (unwrap_or (oi_sub r) []) (unwrap_or (oi_op r) []) (oi_error r))"

definition finished_op :: "op_invocation \<Rightarrow> bool" where
  "finished_op r \<longleftrightarrow> oi_state r = ''DONE'' \<or> oi_state r = ''ERROR''"

definition settled :: "db \<Rightarrow> op_key set \<Rightarrow> op_key \<Rightarrow> op_result \<Rightarrow> bool" where
  "settled d P k r \<longleftrightarrow> k \<in> P \<or> (\<exists>x. find_op k d = Some x \<and> finished_op x \<and> r = row_reply x)"

definition rejection :: "op_result \<Rightarrow> bool" where
  "rejection r \<longleftrightarrow> (\<exists>w. ot_error r = Some w \<and> ot_status r = OpError \<and>
     we_code w \<in> {''unauthorized'', ''unavailable'', ''not_active'', ''invalid_request_id''})"

definition owned :: "db \<Rightarrow> op_key set \<Rightarrow> op_key \<Rightarrow> op_request \<Rightarrow> bool" where
  "owned d P k q \<longleftrightarrow> k \<in> P \<or> (\<exists>x. find_op k d = Some x \<and> oi_sub x = Some (oq_sub q) \<and> oi_op x = Some (oq_op q))"

fun terminal_ok :: "terminal \<Rightarrow> bool" where
  "terminal_ok (TDone j) = is_object j"
| "terminal_ok (TError _) = True"

fun task_ok :: "db \<Rightarrow> op_key set \<Rightarrow> op_key list \<Rightarrow> op_key \<Rightarrow> op_request \<Rightarrow> phase \<Rightarrow> bool" where
  "task_ok d P ks k q (Won _) = owned d P k q"
| "task_ok d P ks k q (Loading _ _) = owned d P k q"
| "task_ok d P ks k q HookRunning = owned d P k q"
| "task_ok d P ks k q (Closing x) = (owned d P k q \<and> terminal_ok x)"
| "task_ok d P ks k q (CloseQueued x) = (owned d P k q \<and> terminal_ok x)"
| "task_ok d P ks k q (Closed x) = (settled d P k (own_reply q x) \<and> terminal_ok x)"
| "task_ok d P ks k q (Attached j) = (j < length ks \<and> ks ! j = k)"
| "task_ok d P ks k q (Replying r) = (rejection r \<or> ot_req r = snd k \<and> settled d P k r)"
| "task_ok d P ks k q _ = True"

fun outcome_ok :: "db \<Rightarrow> op_key set \<Rightarrow> op_key \<Rightarrow> flight_state \<Rightarrow> bool" where
  "outcome_ok d P k (FlightDone j s op) = settled d P k (resend_done (snd k) s op (Some j))"
| "outcome_ok d P k (FlightErrored j s op) = settled d P k (resend_errored (snd k) s op (Some j))"
| "outcome_ok d P k NoTerminal = True"

abbreviation pruned :: "op_desk \<Rightarrow> op_key set" where "pruned D \<equiv> set (dp_pruned D)"
definition keys :: "op_desk \<Rightarrow> op_key list" where "keys D = map task_key (dp_tasks D)"

lemma keys_frame [simp]: "keys (set_phase i p D) = keys D" "keys (announce i x D) = keys D" "keys (register i D) = keys D"
  "length (keys D) = length (dp_tasks D)"
  by (simp_all add: keys_def)

lemma keys_nth: "i < length (dp_tasks D) \<Longrightarrow> keys D ! i = task_key (dp_tasks D ! i)"
  by (simp add: keys_def)

lemma keys_cong: "dp_tasks E = dp_tasks D \<Longrightarrow> keys E = keys D"
  by (simp add: keys_def)

definition replies_ok :: "op_desk \<Rightarrow> bool" where
  "replies_ok D \<longleftrightarrow>
     distinct (map op_key_of (op_invocations (dp_db D))) \<and>
     (\<forall>t\<in>set (dp_tasks D). task_ok (dp_db D) (pruned D) (keys D) (task_key t) (tk_req t) (tk_phase t)) \<and>
     (\<forall>j x. dp_watch D j = Some x \<longrightarrow> j < length (keys D) \<and> outcome_ok (dp_db D) (pruned D) (keys D ! j) x) \<and>
     (\<forall>k j. dp_registry D k = Some j \<longrightarrow> j < length (keys D) \<and> keys D ! j = k) \<and>
     (\<forall>(s, r)\<in>set (dp_replies D). rejection r \<or> settled (dp_db D) (pruned D) (s, ot_req r) r)"

text \<open>What every change of the rows respects: a finished row stays as it is, a running one keeps its labels.\<close>

definition evolves :: "db \<Rightarrow> op_key set \<Rightarrow> db \<Rightarrow> op_key set \<Rightarrow> bool" where
  "evolves d P d' P' \<longleftrightarrow> P \<subseteq> P' \<and>
     (\<forall>k x. find_op k d = Some x \<longrightarrow> k \<in> P' \<or>
        (\<exists>y. find_op k d' = Some y \<and> oi_sub y = oi_sub x \<and> oi_op y = oi_op x \<and> (finished_op x \<longrightarrow> y = x)))"

lemma evolves_refl [simp]: "evolves d P d P"
  by (simp add: evolves_def)

lemma settled_evolves: "settled d P k r \<Longrightarrow> evolves d P d' P' \<Longrightarrow> settled d' P' k r"
  unfolding settled_def evolves_def by blast

lemma owned_evolves: "owned d P k q \<Longrightarrow> evolves d P d' P' \<Longrightarrow> owned d' P' k q"
  unfolding owned_def evolves_def by (metis (no_types, lifting) subsetD)

lemma task_ok_evolves: "task_ok d P ks k q p \<Longrightarrow> evolves d P d' P' \<Longrightarrow> task_ok d' P' ks k q p"
  by (cases p) (auto intro: settled_evolves owned_evolves)

lemma outcome_ok_evolves: "outcome_ok d P k x \<Longrightarrow> evolves d P d' P' \<Longrightarrow> outcome_ok d' P' k x"
  by (cases x) (auto intro: settled_evolves)

lemma replies_ok_evolves:
  assumes "replies_ok D" "evolves (dp_db D) (pruned D) (dp_db E) (pruned E)"
    "distinct (map op_key_of (op_invocations (dp_db E)))"
    "dp_tasks E = dp_tasks D" "dp_watch E = dp_watch D" "dp_registry E = dp_registry D" "dp_replies E = dp_replies D"
  shows "replies_ok E"
  using assms keys_cong [OF assms(4)] unfolding replies_ok_def
  by (auto intro: task_ok_evolves outcome_ok_evolves settled_evolves)

text \<open>One task moves on, and perhaps publishes, replies or enters the registry.\<close>

lemma replies_ok_set_phase:
  assumes ok: "replies_ok D" and i: "i < length (dp_tasks D)"
    and p: "task_ok (dp_db D) (pruned D) (keys D) (task_key (dp_tasks D ! i)) (tk_req (dp_tasks D ! i)) p"
  shows "replies_ok (set_phase i p D)"
proof -
  have "\<forall>t\<in>set (dp_tasks (set_phase i p D)). task_ok (dp_db D) (pruned D) (keys D) (task_key t) (tk_req t) (tk_phase t)"
    using ok p tasks_set_phase_sub [of i p D] unfolding replies_ok_def by auto
  then show ?thesis using ok unfolding replies_ok_def by simp
qed

lemma replies_ok_publish:
  assumes "replies_ok D" "i < length (dp_tasks D)" "outcome_ok (dp_db D) (pruned D) (task_key (dp_tasks D ! i)) x"
  shows "replies_ok (announce i x D)"
  using assms keys_nth [OF assms(2)] unfolding replies_ok_def by auto

lemma replies_ok_register:
  assumes "replies_ok D" "i < length (dp_tasks D)"
  shows "replies_ok (register i D)"
  using assms keys_nth [OF assms(2)] unfolding replies_ok_def by auto

lemma replies_ok_drop:
  assumes "replies_ok D" "i < length (dp_tasks D)"
    "task_ok (dp_db D) (pruned D) (keys D) (task_key (dp_tasks D ! i)) (tk_req (dp_tasks D ! i)) p"
  shows "replies_ok (drop_task i p D)"
  using assms by (auto simp: drop_task_def intro!: replies_ok_set_phase replies_ok_publish)

lemma replies_ok_task:
  "replies_ok D \<Longrightarrow> i < length (dp_tasks D) \<Longrightarrow>
    task_ok (dp_db D) (pruned D) (keys D) (task_key (dp_tasks D ! i)) (tk_req (dp_tasks D ! i)) (tk_phase (dp_tasks D ! i))"
  unfolding replies_ok_def using nth_mem by blast

subsection \<open>How the rows change\<close>

lemma lookup_existing_settled:
  assumes "lookup_existing k d = Some c"
  shows "c = ClaimDone j s op \<Longrightarrow> settled d P k (resend_done (snd k) s op j)"
    and "c = ClaimErrored j s op \<Longrightarrow> settled d P k (resend_errored (snd k) s op j)"
proof -
  from assms obtain x where x: "find_op k d = Some x" "classify x = c" by (auto simp: lookup_existing_def)
  then have "oi_request x = snd k" by (auto simp: find_op_def op_key_of_def dest: find_Some_mem)
  with x show "c = ClaimDone j s op \<Longrightarrow> settled d P k (resend_done (snd k) s op j)"
    and "c = ClaimErrored j s op \<Longrightarrow> settled d P k (resend_errored (snd k) s op j)"
    by (auto simp: settled_def finished_op_def classify_def row_reply_def split: if_splits)
qed

lemma claim_evolves:
  assumes "claim_txn R s q now d = Inr (c, d')"
  shows "evolves d P d' P"
  using assms by (cases rule: claim_txnE) (auto simp: evolves_def find_op_append)

lemma claim_distinct:
  assumes "claim_txn R s q now d = Inr (c, d')" "distinct (map op_key_of (op_invocations d))"
  shows "distinct (map op_key_of (op_invocations d'))"
  using assms(1)
proof (cases rule: claim_txnE)
  case (claimed x)
  then show ?thesis using assms(2) by (auto simp: find_op_def find_None_all running_row_def op_key_of_def)
qed (use assms(2) in simp)

lemma rejections [simp]:
  "rejection (reject q unauthorized)" "rejection (reject q not_active)" "rejection (reject q (unavailable_sub st))"
  "rejection (reject q invalid_request_id)"
  by (simp_all add: rejection_def reject_def op_err_def unauthorized_def not_active_def unavailable_sub_def invalid_request_id_def)

lemma claim_outcome:
  assumes "claim_txn R s q now d = Inr (c, d')"
  shows "task_ok d' P ks (s, oq_id q) q (after_claim q c)"
  using assms
proof (cases rule: claim_txnE)
  case (claimed x)
  then show ?thesis by (auto simp: owned_def find_op_append op_key_of_def running_row_def)
next
  case same
  show ?thesis
  proof (cases "lookup_existing (s, oq_id q) d")
    case (Some x)
    then have "c = x" using assms by (simp add: claim_txn_def)
    then show ?thesis using Some same lookup_existing_settled [OF Some]
      by (cases c) (auto simp: resend_done_def resend_errored_def op_ok_def op_err_def)
  next
    case None
    then have "c \<in> {ClaimUnauthorized, ClaimNotActive} \<or> (\<exists>r st. c = ClaimForeign r st)"
      using assms same None by (auto simp: claim_txn_def Let_def split: option.splits if_splits)
    then show ?thesis by auto
  qed
qed

lemma close_distinct:
  assumes "commit_terminal_txn k x now d = Inr (u, d')" "distinct (map op_key_of (op_invocations d))"
  shows "distinct (map op_key_of (op_invocations d'))"
  using assms by (auto simp: commit_terminal_txn_def map_update_where split: if_splits)

lemma close_evolves:
  assumes "commit_terminal_txn k x now d = Inr (u, d')"
  shows "evolves d P d' P"
proof -
  have "oi_sub (terminal_row x now r) = oi_sub r" "oi_op (terminal_row x now r) = oi_op r" for r
    by (cases x; simp)+
  then show ?thesis
    by (auto simp: evolves_def find_op_closed [OF assms] finished_op_def running_op_def)
qed

lemma close_settles:
  assumes c: "commit_terminal_txn k x now d = Inr (u, d')" and dist: "distinct (map op_key_of (op_invocations d))"
    and own: "owned d P k q" and ok: "terminal_ok x" and id: "oq_id q = snd k"
  shows "settled d' P k (own_reply q x)"
proof (cases "k \<in> P")
  case True
  then show ?thesis by (simp add: settled_def)
next
  case False
  with own obtain y where y: "find_op k d = Some y" "oi_sub y = Some (oq_sub q)" "oi_op y = Some (oq_op q)"
    by (auto simp: owned_def)
  from c obtain r where r: "r \<in> set (op_invocations d)" "running_op k r"
    by (auto simp: commit_terminal_txn_def count_where_0_iff split: if_splits)
  then have "find_op k d = Some r" using find_key_unique [of op_key_of "op_invocations d" r] dist
    by (simp add: find_op_def running_op_def)
  with y r have "find_op k d' = Some (terminal_row x now y)" by (simp add: find_op_closed [OF c])
  moreover have "oi_request y = snd k" using y(1) by (auto simp: find_op_def op_key_of_def dest: find_Some_mem)
  ultimately show ?thesis using y ok id
    by (cases x) (auto simp: settled_def finished_op_def row_reply_def resend_done_def resend_errored_def reject_def)
qed


subsection \<open>Every step keeps the replies right\<close>

lemma after_reread_ok:
  assumes "oq_id q = snd k"
  shows "task_ok d P ks k q (after_reread q (lookup_existing k d))"
proof (cases "lookup_existing k d")
  case (Some c)
  then show ?thesis using lookup_existing_settled [OF Some] assms
    by (cases c) (auto simp: resend_done_def resend_errored_def op_ok_def op_err_def)
qed simp

lemma after_outcome_ok:
  assumes "outcome_ok d P k x" "oq_id q = snd k"
  shows "task_ok d P ks k q (after_outcome q x)"
  using assms by (cases x) (auto simp: resend_done_def resend_errored_def op_ok_def op_err_def)

lemma flight_outcome_ok:
  assumes "settled d P k (own_reply q x)" "terminal_ok x" "oq_id q = snd k"
  shows "outcome_ok d P k (flight_outcome q x)"
  using assms by (cases x) (auto simp: resend_done_def resend_errored_def reject_def)

lemma own_reply_req: "ot_req (own_reply q x) = oq_id q"
  by (cases x) (simp_all add: op_ok_def reject_def op_err_def)

lemma hook_terminal_ok: "terminal_ok (hook_terminal h)"
  by (auto simp: hook_terminal_def split: sum.split)

lemma replies_ok_claim:
  assumes ok: "replies_ok D" and i: "i < length (dp_tasks D)"
    and c: "claim_txn R (tk_sender (dp_tasks D ! i)) (tk_req (dp_tasks D ! i)) now (dp_db D) = Inr (c, d)"
    and p: "p = Deferred \<or> p = after_claim (tk_req (dp_tasks D ! i)) c"
  shows "replies_ok (set_phase i p (D\<lparr>dp_db := d\<rparr>))"
proof -
  have dist: "distinct (map op_key_of (op_invocations (dp_db D)))" using ok by (simp add: replies_ok_def)
  have "replies_ok (D\<lparr>dp_db := d\<rparr>)"
    by (rule replies_ok_evolves [OF ok]) (use claim_evolves [OF c] claim_distinct [OF c dist] in simp_all)
  moreover have "task_ok d (pruned D) ks (task_key (dp_tasks D ! i)) (tk_req (dp_tasks D ! i)) p" for ks
    using claim_outcome [OF c] p by (auto simp: task_key_def)
  ultimately show ?thesis using i by (intro replies_ok_set_phase) simp_all
qed

lemma replies_ok_close:
  assumes ok: "replies_ok D" and i: "i < length (dp_tasks D)"
    and x: "tk_phase (dp_tasks D ! i) = Closing x \<or> tk_phase (dp_tasks D ! i) = CloseQueued x"
    and c: "commit_terminal_txn (task_key (dp_tasks D ! i)) x now (dp_db D) = Inr (u, d)"
    and p: "p = Deferred \<or> p = Closed x"
  shows "replies_ok (set_phase i p (D\<lparr>dp_db := d\<rparr>))"
proof -
  let ?t = "dp_tasks D ! i"
  have dist: "distinct (map op_key_of (op_invocations (dp_db D)))" using ok by (simp add: replies_ok_def)
  have own: "owned (dp_db D) (pruned D) (task_key ?t) (tk_req ?t)" "terminal_ok x"
    using replies_ok_task [OF ok i] x by auto
  have "replies_ok (D\<lparr>dp_db := d\<rparr>)"
    by (rule replies_ok_evolves [OF ok]) (use close_evolves [OF c] close_distinct [OF c dist] in simp_all)
  moreover have "settled d (pruned D) (task_key ?t) (own_reply (tk_req ?t) x)"
    by (rule close_settles [OF c dist own]) (simp add: task_key_def)
  then have "task_ok d (pruned D) ks (task_key ?t) (tk_req ?t) p" for ks using p own by auto
  ultimately show ?thesis using i by (intro replies_ok_set_phase) simp_all
qed

lemma replies_ok_reply:
  assumes ok: "replies_ok D" and i: "i < length (dp_tasks D)" and r: "tk_phase (dp_tasks D ! i) = Replying r"
  shows "replies_ok (set_phase i Handled (D\<lparr>dp_replies := dp_replies D @ [(tk_sender (dp_tasks D ! i), r)]\<rparr>))"
proof -
  let ?D = "D\<lparr>dp_replies := dp_replies D @ [(tk_sender (dp_tasks D ! i), r)]\<rparr>"
  have "keys ?D = keys D" by (simp add: keys_def)
  moreover have "rejection r \<or> settled (dp_db D) (pruned D) (tk_sender (dp_tasks D ! i), ot_req r) r"
    using replies_ok_task [OF ok i] r by (auto simp: task_key_def)
  ultimately have "replies_ok ?D" using ok unfolding replies_ok_def by simp
  then show ?thesis using i by (intro replies_ok_set_phase) simp_all
qed

lemma replies_ok_runs [simp]: "replies_ok (D\<lparr>dp_runs := rs\<rparr>) = replies_ok D"
  by (simp add: replies_ok_def keys_def)

lemma replies_ok_advance:
  assumes ok: "replies_ok D" and i: "i < length (dp_tasks D)"
  shows "replies_ok (advance R h i D)"
proof -
  let ?t = "dp_tasks D ! i" let ?q = "tk_req ?t" let ?k = "task_key ?t"
  note t = replies_ok_task [OF ok i]
  have id: "oq_id ?q = snd ?k" by (simp add: task_key_def)
  show ?thesis
  proof (cases "tk_phase ?t")
    case Arrived
    then show ?thesis using replies_ok_claim [OF ok i]
      by (auto simp: advance_def Let_def split: sum.split
          intro!: replies_ok_set_phase [OF ok i] replies_ok_drop [OF ok i])
  next
    case (Won st)
    have "replies_ok (register i D)" by (rule replies_ok_register [OF ok i])
    then show ?thesis using Won t i
      by (auto simp: advance_def Let_def split: sum.split intro!: replies_ok_set_phase)
  next
    case (Loading st op)
    then show ?thesis using t ok i by (auto simp: advance_def Let_def keys_def intro!: replies_ok_set_phase)
  next
    case HookRunning
    then show ?thesis using t by (simp add: advance_def Let_def hook_terminal_ok replies_ok_set_phase [OF ok i])
  next
    case (Closing x)
    then show ?thesis using replies_ok_close [OF ok i]
      by (auto simp: advance_def Let_def split: sum.split intro!: replies_ok_drop [OF ok i])
  next
    case (Closed x)
    have "replies_ok (announce i (flight_outcome ?q x) D)"
      using t Closed id by (intro replies_ok_publish [OF ok i] flight_outcome_ok) auto
    then show ?thesis using Closed t i id
      by (auto simp: advance_def Let_def own_reply_req intro!: replies_ok_set_phase)
  next
    case Duplicate
    have "dp_registry D ?k = Some j \<Longrightarrow> j < length (keys D) \<and> keys D ! j = ?k" for j
      using ok unfolding replies_ok_def by blast
    then show ?thesis using Duplicate
      by (auto simp: advance_def Let_def split: option.split intro!: replies_ok_set_phase [OF ok i])
  next
    case (Attached j)
    show ?thesis
    proof (cases "dp_watch D j")
      case (Some x)
      have "outcome_ok (dp_db D) (pruned D) (keys D ! j) x" using ok Some unfolding replies_ok_def by blast
      moreover have "keys D ! j = ?k" using t Attached by simp
      ultimately show ?thesis using Some Attached id
        by (auto simp: advance_def Let_def intro!: replies_ok_set_phase [OF ok i] after_outcome_ok)
    qed (simp add: Attached advance_def Let_def ok)
  next
    case Rereading
    then show ?thesis using id
      by (auto simp: advance_def Let_def intro!: replies_ok_set_phase [OF ok i] after_reread_ok)
  next
    case (Replying r)
    then show ?thesis using replies_ok_reply [OF ok i] by (simp add: advance_def Let_def)
  next
    case ClaimQueued
    then show ?thesis using replies_ok_claim [OF ok i]
      by (auto simp: advance_def Let_def split: sum.split intro!: replies_ok_set_phase [OF ok i])
  next
    case (CloseQueued x)
    then show ?thesis using replies_ok_close [OF ok i]
      by (auto simp: advance_def Let_def split: sum.split intro!: replies_ok_set_phase [OF ok i])
  qed (simp_all add: advance_def Let_def ok)
qed

lemma recover_evolves: "evolves d P (snd (recover_interrupted_ops now d)) P"
  by (auto simp: evolves_def recover_find finished_op_def)

lemma recover_distinct:
  "distinct (map op_key_of (op_invocations d)) \<Longrightarrow> distinct (map op_key_of (op_invocations (snd (recover_interrupted_ops now d))))"
  by (simp add: recover_interrupted_ops_def Let_def map_update_where op_key_of_def)

lemma find_op_filter:
  assumes "distinct (map op_key_of xs)" "List.find (\<lambda>r. op_key_of r = k) xs = Some x" "Q x"
  shows "List.find (\<lambda>r. op_key_of r = k) (filter Q xs) = Some x"
  using assms by (induction xs) (auto simp: find_None_all split: if_splits dest: find_Some_mem)

lemma prune_evolves:
  assumes "distinct (map op_key_of (op_invocations (dp_db D)))"
  shows "evolves (dp_db D) (pruned D) (dp_db (prune_ops clock now D)) (pruned (prune_ops clock now D))"
proof -
  let ?d = "snd (prune_idempotency_caches clock now (dp_db D))"
  obtain Q where Q: "op_invocations ?d = filter Q (op_invocations (dp_db D))"
    by (auto simp: prune_idempotency_caches_def Let_def delete_where_def)
  have "k \<in> pruned (prune_ops clock now D) \<or> find_op k ?d = Some x" if x: "find_op k (dp_db D) = Some x" for k x
  proof (cases "Q x")
    case True
    then show ?thesis using find_op_filter [OF assms] x by (simp add: find_op_def Q)
  next
    case False
    then show ?thesis using x find_Some_mem [OF x [unfolded find_op_def]]
      by (auto simp: prune_ops_def Let_def Q image_iff)
  qed
  then show ?thesis by (auto simp: evolves_def) (auto simp: prune_ops_def Let_def)
qed


lemma replies_ok_prune:
  assumes ok: "replies_ok D"
  shows "replies_ok (prune_ops clock now D)"
proof -
  have dist: "distinct (map op_key_of (op_invocations (dp_db D)))" using ok by (simp add: replies_ok_def)
  show ?thesis
    by (rule replies_ok_evolves [OF ok prune_evolves [OF dist]])
      (use dist in \<open>simp_all add: prune_ops_def Let_def prune_idempotency_caches_def distinct_map_delete_where\<close>)
qed

lemma task_ok_more: "task_ok d P ks k q p \<Longrightarrow> task_ok d P (ks @ xs) k q p"
  by (cases p) (auto simp: nth_append)

lemma replies_ok_step:
  assumes "dispatch_step R D E" "replies_ok D"
  shows "replies_ok E"
proof -
  have dist: "distinct (map op_key_of (op_invocations (dp_db D)))" using assms(2) by (simp add: replies_ok_def)
  from assms(1) show ?thesis
  proof (cases rule: dispatch_step.cases)
    case (arrive sender q now)
  then have E: "keys E = keys D @ [(sender, oq_id q)]" "dp_db E = dp_db D" "pruned E = pruned D" "dp_replies E = dp_replies D"
    "dp_registry E = dp_registry D" "dp_watch E = dp_watch D"
    "dp_tasks E = dp_tasks D @ [\<lparr>tk_sender = sender, tk_req = q, tk_now = now, tk_phase = Arrived\<rparr>]"
    by (simp_all add: keys_def arrive_def task_key_def)
  have "j < length (keys D) \<Longrightarrow> keys E ! j = keys D ! j \<and> j < length (keys E)" for j using E(1) by (simp add: nth_append)
  moreover have "task_ok d P (keys D) k r p \<Longrightarrow> task_ok d P (keys E) k r p" for d P k r p
    by (simp add: E(1) task_ok_more)
  ultimately show ?thesis using assms(2) unfolding replies_ok_def E(2-6) by (auto simp: E(7) less_SucI)
next
  case (advance i h)
  then show ?thesis using assms(2) by (simp add: replies_ok_advance)
next
  case (drop i p)
  have "task_ok (dp_db D) (pruned D) (keys D) (task_key (dp_tasks D ! i)) (tk_req (dp_tasks D ! i)) p"
    using drop(4) replies_ok_task [OF assms(2) drop(2)] by (cases "tk_phase (dp_tasks D ! i)") auto
  then show ?thesis unfolding drop(1) using drop(2) assms(2) by (intro replies_ok_drop)
next
  case (crash now)
  have "replies_ok (D\<lparr>dp_db := snd (recover_interrupted_ops now (dp_db D))\<rparr>)"
    by (rule replies_ok_evolves [OF assms(2)]) (simp_all add: recover_evolves recover_distinct [OF dist])
  moreover have "keys (D\<lparr>dp_db := snd (recover_interrupted_ops now (dp_db D))\<rparr>) = keys D" by (simp add: keys_def)
  moreover have "keys E = keys D" "dp_db E = snd (recover_interrupted_ops now (dp_db D))" "dp_watch E = dp_watch D"
    "dp_registry E = (\<lambda>_. None)" "dp_replies E = dp_replies D" "dp_pruned E = dp_pruned D"
    by (simp_all add: crash crash_restart_def keys_def task_key_def)
  moreover have "\<forall>t\<in>set (dp_tasks E). tk_phase t = Handled \<or> tk_phase t = Deferred"
    by (auto simp: crash crash_restart_def split: phase.split)
  moreover have "length (dp_tasks E) = length (dp_tasks D)" by (simp add: crash crash_restart_def)
  ultimately show ?thesis unfolding replies_ok_def by fastforce
next
  case (prune clock now)
  then show ?thesis using assms(2) by (simp add: replies_ok_prune)
next
  case (other d)
  then have "evolves (dp_db D) (pruned D) d (pruned D)" by (auto simp: evolves_def find_op_def)
  moreover have "distinct (map op_key_of (op_invocations d))" using assms(2) other by (simp add: replies_ok_def)
  ultimately show ?thesis using other assms(2) by (auto intro: replies_ok_evolves)
  qed
qed


lemma replies_ok_run: "dispatch_run R D E \<Longrightarrow> replies_ok D \<Longrightarrow> replies_ok E"
  by (induction rule: dispatch_run.induct) (auto intro: replies_ok_step)

text \<open>
  C17. Every reply to an \<open>op.request\<close>, to its owner or to a duplicate, is either one of the four
  rejections that leave no row or exactly what the finished row of that sender and request holds, until
  the retention sweep deletes the row; so a request never gets two different answers. A boot that
  follows a crash leaves no row \<open>RUNNING\<close>: what was interrupted is answered \<open>interrupted\<close>.
\<close>

theorem op_replies_are_durable:
  assumes "dispatch_run R (boot_dispatcher d) D"
    and key: "distinct (map op_key_of (op_invocations d))"
    and r: "(s, r) \<in> set (dp_replies D)" "\<not> rejection r" "(s, ot_req r) \<notin> set (dp_pruned D)"
  shows "(\<exists>x. find_op (s, ot_req r) (dp_db D) = Some x \<and> finished_op x \<and> r = row_reply x) \<and>
    (\<forall>r'. (s, r') \<in> set (dp_replies D) \<longrightarrow> \<not> rejection r' \<longrightarrow> ot_req r' = ot_req r \<longrightarrow> r' = r) \<and>
    (\<forall>x. find_op (s, ot_req r) (dp_db (crash_restart now D)) = Some x \<longrightarrow> oi_state x \<noteq> ''RUNNING'')"
proof -
  have "replies_ok (boot_dispatcher d)" using key by (simp add: replies_ok_def boot_dispatcher_def keys_def)
  then have ok: "replies_ok D" by (rule replies_ok_run [OF assms(1)])
  have hit: "\<exists>x. find_op (s, ot_req r) (dp_db D) = Some x \<and> finished_op x \<and> r' = row_reply x"
    if "(s, r') \<in> set (dp_replies D)" "\<not> rejection r'" "ot_req r' = ot_req r" for r'
    using ok that r(3) unfolding replies_ok_def settled_def by fastforce
  then show ?thesis
    using hit [OF r(1,2)] by (fastforce simp: crash_restart_def recover_find finished_op_def)
qed

subsection \<open>A duplicate is never left waiting\<close>

definition in_flight :: "op_desk \<Rightarrow> nat \<Rightarrow> bool" where
  "in_flight D j \<longleftrightarrow> j < length (dp_tasks D) \<and> (dp_watch D j \<noteq> None \<or> holds_guard (tk_phase (dp_tasks D ! j)))"

definition flights_ok :: "op_desk \<Rightarrow> bool" where
  "flights_ok D \<longleftrightarrow> (\<forall>i j. i < length (dp_tasks D) \<longrightarrow> tk_phase (dp_tasks D ! i) = Attached j \<longrightarrow> in_flight D j) \<and>
     (\<forall>k j. dp_registry D k = Some j \<longrightarrow> in_flight D j)"

lemma in_flight_set_phase:
  assumes "in_flight D j" "i < length (dp_tasks D)"
    "holds_guard (tk_phase (dp_tasks D ! i)) \<Longrightarrow> holds_guard p \<or> dp_watch D i \<noteq> None"
  shows "in_flight (set_phase i p D) j"
  using assms by (auto simp: in_flight_def nth_set_phase)

lemma flights_set_phase:
  assumes "flights_ok D" "i < length (dp_tasks D)"
    "holds_guard (tk_phase (dp_tasks D ! i)) \<Longrightarrow> holds_guard p \<or> dp_watch D i \<noteq> None"
    "\<And>j. p = Attached j \<Longrightarrow> in_flight D j"
  shows "flights_ok (set_phase i p D)"
  using assms(1,2,4) in_flight_set_phase [OF _ assms(2,3)]
  unfolding flights_ok_def by (simp add: nth_set_phase) blast

lemma flights_publish: "flights_ok D \<Longrightarrow> flights_ok (announce i x D)"
  by (auto simp: flights_ok_def in_flight_def)

lemma flights_register:
  assumes "flights_ok D" "i < length (dp_tasks D)" "holds_guard p"
  shows "flights_ok (set_phase i p (register i D))"
  using assms in_flight_set_phase [of D _ i p] unfolding flights_ok_def
  by (auto simp: nth_set_phase in_flight_def)

lemma flights_frame [simp]:
  "flights_ok (D\<lparr>dp_db := d\<rparr>) = flights_ok D" "flights_ok (D\<lparr>dp_runs := rs\<rparr>) = flights_ok D"
  "flights_ok (D\<lparr>dp_replies := x\<rparr>) = flights_ok D"
  by (simp_all add: flights_ok_def in_flight_def)

lemma flights_drop:
  assumes "flights_ok D" "i < length (dp_tasks D)" "\<And>j. p \<noteq> Attached j"
  shows "flights_ok (drop_task i p D)"
  using assms by (auto simp: drop_task_def intro!: flights_set_phase flights_publish)

lemma after_attached [simp]: "after_claim q c \<noteq> Attached j" "after_reread q c' \<noteq> Attached j" "after_outcome q x \<noteq> Attached j"
    apply (cases c; simp)
   apply (cases "(q, c')" rule: after_reread.cases; simp)
  apply (cases x; simp)
  done

lemma flights_advance:
  assumes ok: "flights_ok D" and i: "i < length (dp_tasks D)"
  shows "flights_ok (advance R h i D)"
proof (cases "tk_phase (dp_tasks D ! i)")
  case (Won st)
  then show ?thesis by (auto simp: advance_def Let_def split: sum.split intro!: flights_register [OF ok i])
next
  case (Closed x)
  then show ?thesis using i by (auto simp: advance_def Let_def intro!: flights_set_phase flights_publish ok)
next
  case Duplicate
  have "dp_registry D (task_key (dp_tasks D ! i)) = Some j \<Longrightarrow> in_flight D j" for j using ok unfolding flights_ok_def by blast
  then show ?thesis using Duplicate by (auto simp: advance_def Let_def split: option.split intro!: flights_set_phase [OF ok i])
qed (use i in \<open>auto simp: advance_def Let_def ok split: sum.split option.split intro!: flights_set_phase flights_drop\<close>)

lemma flights_step:
  assumes "dispatch_step R D E" "flights_ok D"
  shows "flights_ok E"
  using assms(1)
proof (cases rule: dispatch_step.cases)
  case (arrive sender q now)
  have "in_flight D j \<Longrightarrow> in_flight E j" for j by (auto simp: arrive arrive_def in_flight_def nth_append)
  then show ?thesis using assms(2) unfolding flights_ok_def
    by (auto simp: arrive arrive_def nth_append less_Suc_eq)
next
  case (advance i h)
  then show ?thesis using assms(2) by (simp add: flights_advance)
next
  case (drop i p)
  have "p \<noteq> Attached j" for j using drop(4) by (cases "tk_phase (dp_tasks D ! i)") auto
  then show ?thesis unfolding drop(1) using drop(2) assms(2) by (intro flights_drop)
next
  case (crash now)
  then show ?thesis by (auto simp: flights_ok_def crash_restart_def split: phase.splits)
next
  case (prune clock now)
  then show ?thesis using assms(2) by (simp add: flights_ok_def in_flight_def prune_ops_def Let_def)
next
  case (other d)
  then show ?thesis using assms(2) by simp
qed

lemma flights_run: "dispatch_run R D E \<Longrightarrow> flights_ok D \<Longrightarrow> flights_ok E"
  by (induction rule: dispatch_run.induct) (auto intro: flights_step)

text \<open>An owner left to itself publishes: the commit either succeeds or drops the guard.\<close>

lemma advance_closed:
  "j < length (dp_tasks D) \<Longrightarrow> tk_phase (dp_tasks D ! j) = Closed x \<Longrightarrow> dp_watch (advance R h j D) j \<noteq> None"
  by (simp add: advance_def Let_def)

lemma advance_closing:
  "j < length (dp_tasks D) \<Longrightarrow> tk_phase (dp_tasks D ! j) = Closing x \<Longrightarrow> dp_watch (advance R h j D) j \<noteq> None \<or>
    j < length (dp_tasks (advance R h j D)) \<and> tk_phase (dp_tasks (advance R h j D) ! j) = Closed x"
  by (auto simp: advance_def Let_def drop_task_def nth_set_phase split: sum.split)

lemma advance_hook:
  "j < length (dp_tasks D) \<Longrightarrow> tk_phase (dp_tasks D ! j) = HookRunning \<Longrightarrow>
    j < length (dp_tasks (advance R h j D)) \<and> tk_phase (dp_tasks (advance R h j D) ! j) = Closing (hook_terminal h)"
  by (auto simp: advance_def Let_def nth_set_phase)

lemma advance_loading:
  "j < length (dp_tasks D) \<Longrightarrow> tk_phase (dp_tasks D ! j) = Loading st op \<Longrightarrow>
    j < length (dp_tasks (advance R h j D)) \<and> tk_phase (dp_tasks (advance R h j D) ! j) = HookRunning"
  by (auto simp: advance_def Let_def nth_set_phase)

lemma owner_publishes:
  assumes "j < length (dp_tasks D)" "holds_guard (tk_phase (dp_tasks D ! j))"
  shows "\<exists>n\<le>4. dp_watch ((advance R h j ^^ n) D) j \<noteq> None"
proof -
  let ?f = "advance R h j"
  have c1: "\<exists>n\<le>1. dp_watch ((?f ^^ n) E) j \<noteq> None"
    if "j < length (dp_tasks E)" "tk_phase (dp_tasks E ! j) = Closed x" for E x
    using advance_closed [OF that] by (intro exI [of _ 1]) simp
  have c2: "\<exists>n\<le>2. dp_watch ((?f ^^ n) E) j \<noteq> None"
    if "j < length (dp_tasks E)" "tk_phase (dp_tasks E ! j) = Closing x" for E x
    using advance_closing [OF that, of R h]
  proof
    assume "dp_watch (?f E) j \<noteq> None"
    then show ?thesis by (intro exI [of _ 1]) simp
  next
    assume "j < length (dp_tasks (?f E)) \<and> tk_phase (dp_tasks (?f E) ! j) = Closed x"
    then obtain n where "n \<le> 1" "dp_watch ((?f ^^ n) (?f E)) j \<noteq> None" using c1 by blast
    then show ?thesis by (intro exI [of _ "Suc n"]) (simp add: funpow_swap1)
  qed
  have c3: "\<exists>n\<le>3. dp_watch ((?f ^^ n) E) j \<noteq> None"
    if hr: "j < length (dp_tasks E)" "tk_phase (dp_tasks E ! j) = HookRunning" for E
  proof -
    obtain n where "n \<le> 2" "dp_watch ((?f ^^ n) (?f E)) j \<noteq> None" using c2 advance_hook [OF hr, of R h] by blast
    then show ?thesis by (intro exI [of _ "Suc n"]) (simp add: funpow_swap1)
  qed
  show ?thesis
  proof (cases "tk_phase (dp_tasks D ! j)")
    case (Loading st op)
    obtain n where "n \<le> 3" "dp_watch ((?f ^^ n) (?f D)) j \<noteq> None" using c3 advance_loading [OF assms(1) Loading, of R h] by blast
    then show ?thesis by (intro exI [of _ "Suc n"]) (simp add: funpow_swap1)
  next
    case HookRunning
    from c3 [OF assms(1) this] show ?thesis by (meson le_trans numeral_le_iff semiring_norm)
  next
    case (Closing x)
    from c2 [OF assms(1) this] show ?thesis by (meson le_trans numeral_le_iff semiring_norm)
  next
    case (Closed x)
    from c1 [OF assms(1) this] show ?thesis by (meson le_trans one_le_numeral)
  qed (use assms(2) in simp_all)
qed

text \<open>
  C18. A duplicate that attached to a running invocation is never left waiting. Either an outcome is
  already published and its next step takes it, or the task it waits for is still at work: that task,
  left to itself, publishes within four steps whatever its hook answers, and if it is dropped before,
  its guard publishes.
\<close>

theorem attached_duplicate_is_served:
  assumes "dispatch_run R (boot_dispatcher d) D"
    and i: "i < length (dp_tasks D)" "tk_phase (dp_tasks D ! i) = Attached j"
  shows "case dp_watch D j of
      Some x \<Rightarrow> tk_phase (dp_tasks (advance R h i D) ! i) = after_outcome (tk_req (dp_tasks D ! i)) x
    | None \<Rightarrow> holds_guard (tk_phase (dp_tasks D ! j)) \<and>
        (\<exists>n\<le>4. dp_watch ((advance R h j ^^ n) D) j \<noteq> None) \<and> (\<forall>p. dp_watch (drop_task j p D) j = Some NoTerminal)"
proof -
  have "flights_ok (boot_dispatcher d)" by (simp add: flights_ok_def boot_dispatcher_def)
  then have "flights_ok D" by (rule flights_run [OF assms(1)])
  then have j: "in_flight D j" using i unfolding flights_ok_def by blast
  show ?thesis
  proof (cases "dp_watch D j")
    case (Some x)
    then show ?thesis using i by (simp add: advance_def Let_def nth_set_phase)
  next
    case None
    then show ?thesis using j owner_publishes [of j D R h] by (simp add: in_flight_def drop_task_def)
  qed
qed


subsection \<open>A run\<close>

text \<open>A buyer restarts its box; the same request arrives again while the hook runs.\<close>

definition op_db :: db where
  "op_db = empty_db\<lparr>subs := [\<lparr>sub_id = ''s1'', sub_recipe = None, sub_listing = None, sub_instance = None, sub_buyer = Some ''b'',
     sub_state = ''ACTIVE'', sub_params = JObj [], sub_dest = None, sub_period_s = None, sub_renew_lead_s = None,
     sub_retention_s = None, sub_paid_through = None, sub_soft_date = None, sub_next_deadline = None, sub_floor = None,
     sub_created = 0, sub_updated = 0\<rparr>]\<rparr>"

definition op_req :: op_request where
  "op_req = \<lparr>oq_id = ''r1'', oq_sub = ''s1'', oq_op = ''restart'', oq_params = JObj []\<rparr>"

definition go :: "nat \<Rightarrow> op_desk \<Rightarrow> op_desk" where
  "go i D = advance sample_recipe (Inr (JObj [(''up'', JBool True)])) i D"

definition waiting :: op_desk where
  "waiting = go 1 (go 1 (arrive ''b'' op_req 5 (go 0 (go 0 (go 0 (arrive ''b'' op_req 5 (boot_dispatcher op_db)))))))"

definition answered :: op_desk where
  "answered = go 1 (go 1 (go 0 (go 0 (go 0 (go 0 waiting)))))"

lemma length_advance [simp]: "length (dp_tasks (advance R h i D)) = length (dp_tasks D)"
  by (auto simp: advance_def Let_def drop_task_def split: phase.split sum.split option.split)

lemma go_run: "dispatch_run sample_recipe B D \<Longrightarrow> i < length (dp_tasks D) \<Longrightarrow> dispatch_run sample_recipe B (go i D)"
  unfolding go_def by (blast intro: dispatch_run.step dispatch_step.advance)

lemma arrive_run: "dispatch_run R B D \<Longrightarrow> dispatch_run R B (arrive s q now D)"
  by (blast intro: dispatch_run.step dispatch_step.arrive)

lemma length_go [simp]: "length (dp_tasks (go i D)) = length (dp_tasks D)" "length (dp_tasks (arrive s q now D)) = Suc (length (dp_tasks D))"
  by (simp_all add: go_def arrive_def)

lemma tasks_nil [simp]: "dp_tasks (go i D) = [] \<longleftrightarrow> dp_tasks D = []" "dp_tasks (arrive s q now D) \<noteq> []"
  using length_go(1) [of i D] by (auto simp: arrive_def simp del: length_go)

lemma waiting_run: "dispatch_run sample_recipe (boot_dispatcher op_db) waiting" "length (dp_tasks waiting) = 2"
  unfolding waiting_def by (auto intro!: go_run arrive_run dispatch_run.start simp: boot_dispatcher_def)

lemma answered_run: "dispatch_run sample_recipe (boot_dispatcher op_db) answered"
  unfolding answered_def using waiting_run by (auto intro!: go_run simp flip: length_greater_0_conv)

lemma waiting_state: "tk_phase (dp_tasks waiting ! 1) = Attached 0 \<and> dp_watch waiting 0 = None \<and>
    tk_phase (dp_tasks waiting ! 0) = HookRunning"
  by code_simp

lemma answered_state: "dp_replies answered = (let r = op_ok ''r1'' ''s1'' ''restart'' (JObj [(''up'', JBool True)]) in [(''b'', r), (''b'', r)]) \<and>
   map fst (dp_runs answered) = [(''b'', ''r1'')] \<and> dp_pruned answered = [] \<and> map oi_state (op_invocations (dp_db answered)) = [''DONE'']"
  by code_simp


theorem op_hook_at_most_once_witness:
  "dispatch_run sample_recipe (boot_dispatcher op_db) answered \<and> hook_runs (''b'', ''r1'') answered = 1 \<and>
   hook_runs (''b'', ''r1'') answered \<le> prunes (''b'', ''r1'') answered + has_row (''b'', ''r1'') answered"
proof (intro conjI)
  show "dispatch_run sample_recipe (boot_dispatcher op_db) answered" by (rule answered_run)
  show "hook_runs (''b'', ''r1'') answered = 1" by code_simp
  show "hook_runs (''b'', ''r1'') answered \<le> prunes (''b'', ''r1'') answered + has_row (''b'', ''r1'') answered"
    by (rule op_hook_at_most_once [OF answered_run])
qed

theorem op_replies_are_durable_witness:
  "\<exists>x. find_op (''b'', ''r1'') (dp_db answered) = Some x \<and> finished_op x \<and>
     op_ok ''r1'' ''s1'' ''restart'' (JObj [(''up'', JBool True)]) = row_reply x"
proof -
  let ?r = "op_ok ''r1'' ''s1'' ''restart'' (JObj [(''up'', JBool True)])"
  have r: "(''b'', ?r) \<in> set (dp_replies answered)" using answered_state by (simp add: Let_def)
  have n: "\<not> rejection ?r" by (simp add: rejection_def op_ok_def)
  have p: "(''b'', ot_req ?r) \<notin> set (dp_pruned answered)" using answered_state by simp
  have d: "distinct (map op_key_of (op_invocations op_db))" by (simp add: op_db_def empty_db_def)
  show ?thesis using conjunct1 [OF op_replies_are_durable [OF answered_run d r n p, of 0]] by (simp add: op_ok_def)
qed

theorem attached_duplicate_is_served_witness:
  "tk_phase (dp_tasks waiting ! 1) = Attached 0 \<and> holds_guard (tk_phase (dp_tasks waiting ! 0)) \<and>
   dp_watch (drop_task 0 Deferred waiting) 0 = Some NoTerminal"
  using attached_duplicate_is_served [OF waiting_run(1), of 1 0 "Inr JNull"] waiting_state waiting_run(2)
  by simp

end
