(* ===== verification/Refund_Safety.thy ===== *)
theory Refund_Safety
  imports Refund "HOL-Library.Sublist"
begin

text \<open>
  What the refund executor guarantees on its own tables, for every backend: how a refund row may
  move, that no interleaving of its transactions reopens a closed refund, and that money is only
  ever sent for a payment the ledger received.
\<close>

subsection \<open>How a refund row moves\<close>

definition row_moves :: "refund_attempt \<Rightarrow> refund_attempt \<Rightarrow> bool" where
  "row_moves r r' \<longleftrightarrow>
     r' = r \<or>
     (rf_status r = ''PENDING'' \<and> rf_status r' \<in> {''PENDING'', ''SENT'', ''FAILED''} \<and>
      rf_id r' = rf_id r \<and> rf_key r' = rf_key r \<and> rf_sub r' = rf_sub r \<and> rf_dest r' = rf_dest r \<and>
      rf_amount r' = rf_amount r \<and> rf_fence r' = rf_fence r \<and> rf_created r' = rf_created r \<and>
      unwrap_or (rf_attempts r) 0 \<le> unwrap_or (rf_attempts r') 0)"

lemma row_moves_refl [simp]: "row_moves r r"
  by (simp add: row_moves_def)

lemma row_moves_trans: "row_moves a b \<Longrightarrow> row_moves b c \<Longrightarrow> row_moves a c"
  by (auto simp: row_moves_def)

definition rows_move :: "db \<Rightarrow> db \<Rightarrow> bool" where
  "rows_move d d' \<longleftrightarrow> list_all2 row_moves (refunds d) (refunds d')"

lemma rows_move_refl [simp]: "rows_move d d"
  by (simp add: rows_move_def list_all2_refl)

lemma rows_move_trans: "rows_move a b \<Longrightarrow> rows_move b c \<Longrightarrow> rows_move a c"
  unfolding rows_move_def by (rule list_all2_trans [OF row_moves_trans])

lemma rows_move_same: "refunds d' = refunds d \<Longrightarrow> rows_move d d'"
  by (simp add: rows_move_def list_all2_refl)

lemma rows_move_update:
  assumes "\<And>r. P r \<Longrightarrow> row_moves r (f r)" and "refunds d' = update_where P f (refunds d)"
  shows "rows_move d d'"
  using assms by (simp add: rows_move_def update_where_def list_all2_conv_all_nth)

named_theorems refund_frames "tables the refund writers leave alone"

lemma close_refunded_frame [refund_frames]:
  "refunds (close_refunded_sub s now d) = refunds d"
  "invoices (close_refunded_sub s now d) = invoices d"
  "sweeps (close_refunded_sub s now d) = sweeps d"
  "outbox (close_refunded_sub s now d) = outbox d"
  by (simp_all add: close_refunded_sub_def release_txn_def Let_def reservation_journal_def frame_simps
      split: option.split)

lemma writers_frame [refund_frames]:
  "refunds (refund_journal s k x now d) = refunds d"
  "invoices (refund_journal s k x now d) = invoices d"
  "sweeps (refund_journal s k x now d) = sweeps d"
  "subs (refund_journal s k x now d) = subs d"
  "outbox (refund_journal s k x now d) = outbox d"
  "reservations (refund_journal s k x now d) = reservations d"
  "refunds (enqueue_refund i rc s p now d) = refunds d"
  "invoices (enqueue_refund i rc s p now d) = invoices d"
  "sweeps (enqueue_refund i rc s p now d) = sweeps d"
  "subs (enqueue_refund i rc s p now d) = subs d"
  "reservations (enqueue_refund i rc s p now d) = reservations d"
  "refunds (alert_if_any a now d) = refunds d"
  "invoices (alert_if_any a now d) = invoices d"
  "sweeps (alert_if_any a now d) = sweeps d"
  "subs (alert_if_any a now d) = subs d"
  "reservations (alert_if_any a now d) = reservations d"
  by (simp_all add: refund_journal_def enqueue_refund_def alert_if_any_def enqueue_alert_row_def
      frame_simps split: option.split)

lemma failed_frame [refund_frames]:
  "refunds (enqueue_failed_refund rc s i p x now d) = refunds d"
  "invoices (enqueue_failed_refund rc s i p x now d) = invoices d"
  "sweeps (enqueue_failed_refund rc s i p x now d) = sweeps d"
  "subs (enqueue_failed_refund rc s i p x now d) = subs d"
  "reservations (enqueue_failed_refund rc s i p x now d) = reservations d"
  by (simp_all add: enqueue_failed_refund_def refund_frames)

lemma rows_move_if:
  assumes "refunds d' = refunds d \<or> refunds d' = update_where P f (refunds d)"
    and "\<And>r. P r \<Longrightarrow> row_moves r (f r)"
  shows "rows_move d d'"
  using assms(1)
proof
  assume "refunds d' = update_where P f (refunds d)"
  with assms(2) show ?thesis by (intro rows_move_update)
qed (rule rows_move_same)

lemma persist_resolution_moves:
  assumes "persist_resolution rid v gen now d = Inr (x, d')" shows "rows_move d d'"
proof -
  let ?f = "\<lambda>r. r\<lparr>rf_bolt11 := Some (rs_bolt11 v), rf_expiry := Some (rs_expiry v), rf_gen := gen, rf_updated := now\<rparr>"
  have "refunds d' = update_where (refund_pending rid) ?f (refunds d)"
    using assms by (auto simp: persist_resolution_def update_refund_def)
  then show ?thesis by (rule rows_move_if [OF disjI2]) (simp add: row_moves_def refund_pending_def)
qed

lemma authorise_moves:
  assumes "authorise_txn rid now p d = Inr (x, d')" shows "rows_move d d'"
proof -
  have "refunds d' = refunds d \<or> refunds d' = update_where (authorisable rid) (\<lambda>r. r\<lparr>rf_updated := now\<rparr>) (refunds d)"
    using assms by (auto simp: authorise_txn_def split: if_splits sum.splits)
  then show ?thesis by (rule rows_move_if) (simp add: row_moves_def authorisable_def refund_pending_def)
qed

lemma commit_sent_refunds:
  assumes "commit_sent_txn row pid paid now d = Inr (x, d')"
  shows "refunds d' = refunds d \<or> refunds d' = update_where (refund_pending (rr_id row))
     (\<lambda>r. (bump_attempts now r)\<lparr>rf_status := ''SENT'', rf_payment := coalesce pid (rf_payment r)\<rparr>) (refunds d)"
  using assms by (auto simp: commit_sent_txn_def refund_frames update_refund_def split: if_splits)

lemma commit_sent_moves: "commit_sent_txn row pid paid now d = Inr (x, d') \<Longrightarrow> rows_move d d'"
  by (drule commit_sent_refunds, erule rows_move_if) (simp add: row_moves_def refund_pending_def bump_attempts_def)

lemma commit_park_refunds:
  assumes "commit_park_failed_txn row amount now a d = Inr (x, d')"
  shows "refunds d' = refunds d \<or> refunds d' = update_where (refund_pending (rr_id row))
     (\<lambda>r. (bump_attempts now r)\<lparr>rf_status := ''FAILED''\<rparr>) (refunds d)"
  using assms by (auto simp: commit_park_failed_txn_def refund_frames update_refund_def split: if_splits)

lemma commit_park_moves: "commit_park_failed_txn row amount now a d = Inr (x, d') \<Longrightarrow> rows_move d d'"
  by (drule commit_park_refunds, erule rows_move_if) (simp add: row_moves_def refund_pending_def bump_attempts_def)

lemma bump_moves: "rows_move d (update_refund rid (bump_attempts now) d)"
  by (rule rows_move_if [of _ _ "refund_pending rid" "bump_attempts now"])
     (simp_all add: update_refund_def row_moves_def refund_pending_def bump_attempts_def)

lemma commit_pay_failure_moves:
  assumes "commit_pay_failure_txn row amount now t a d = Inr (x, d')"
  shows "rows_move d d'"
proof -
  let ?d1 = "update_refund (rr_id row) (bump_attempts now) d"
  have "d' = d \<or> refunds d' = refunds ?d1 \<or> refunds d' = update_where (refund_pending (rr_id row))
      (\<lambda>r. r\<lparr>rf_status := ''FAILED'', rf_updated := now\<rparr>) (refunds ?d1)"
    using assms by (auto simp: commit_pay_failure_txn_def Let_def refund_frames update_refund_def split: if_splits)
  then have "d' = d \<or> rows_move ?d1 d'"
    by (elim disj_forward2) (auto elim!: rows_move_if simp: row_moves_def refund_pending_def)
  with bump_moves [of d "rr_id row" now] show ?thesis by (auto intro: rows_move_trans)
qed

lemma commit_retry_moves:
  assumes "commit_resolution_retry_txn row now d = Inr (x, d')" shows "rows_move d d'"
proof -
  have "refunds d' = refunds d \<or> refunds d' = update_where (refund_pending (rr_id row)) (\<lambda>r. r\<lparr>rf_updated := now\<rparr>) (refunds d)"
    using assms by (auto simp: commit_resolution_retry_txn_def refund_frames update_refund_def split: if_splits)
  then show ?thesis by (rule rows_move_if) (simp add: row_moves_def refund_pending_def)
qed

lemmas txn_moves = persist_resolution_moves authorise_moves commit_sent_moves commit_park_moves
  commit_pay_failure_moves commit_retry_moves

text \<open>
  The transactions of the executor as steps, with any row snapshot, however stale, and any arguments:
  every schedule of concurrent \<open>process\<close> tasks is a sequence of these.
\<close>

inductive refund_step :: "db \<Rightarrow> db \<Rightarrow> bool" where
  persist: "persist_resolution rid v gen now d = Inr (x, d') \<Longrightarrow> refund_step d d'"
| authorise: "authorise_txn rid now (p :: store_error + unit) d = Inr (x, d') \<Longrightarrow> refund_step d d'"
| sent: "commit_sent_txn row pid paid now d = Inr (x, d') \<Longrightarrow> refund_step d d'"
| park: "commit_park_failed_txn row amount now a d = Inr (o', d') \<Longrightarrow> refund_step d d'"
| pay_failure: "commit_pay_failure_txn row amount now t a d = Inr (o', d') \<Longrightarrow> refund_step d d'"
| retry: "commit_resolution_retry_txn row now d = Inr (o', d') \<Longrightarrow> refund_step d d'"

inductive_cases refund_stepE: "refund_step d d'"

lemma refund_step_moves: "refund_step d d' \<Longrightarrow> rows_move d d'"
  by (erule refund_stepE) (rule txn_moves, assumption)+

text \<open>
  A closed refund stays closed under every interleaving: through any sequence of the executor's
  transactions, however stale the row each was prepared from, every refund keeps its identity, payment
  key, destination, amount and fence, and one that is SENT or FAILED is not changed at all.
\<close>

theorem closed_refunds_stay_closed:
  assumes "refund_step\<^sup>*\<^sup>* d d'" and "r \<in> set (refunds d)"
  shows "\<exists>r'\<in>set (refunds d'). rf_id r' = rf_id r \<and> rf_key r' = rf_key r \<and> rf_dest r' = rf_dest r \<and>
           rf_amount r' = rf_amount r \<and> rf_fence r' = rf_fence r \<and>
           (rf_status r \<noteq> ''PENDING'' \<longrightarrow> r' = r) \<and>
           (rf_status r' = rf_status r \<or> rf_status r = ''PENDING'' \<and> rf_status r' \<in> {''SENT'', ''FAILED''})"
proof -
  from assms(1) have "rows_move d d'"
    by (induction rule: rtranclp_induct) (auto intro: rows_move_trans refund_step_moves)
  then have l: "length (refunds d) = length (refunds d')" and m: "\<forall>i<length (refunds d). row_moves (refunds d ! i) (refunds d' ! i)"
    by (simp_all add: rows_move_def list_all2_conv_all_nth)
  from assms(2) obtain i where "i < length (refunds d)" "r = refunds d ! i" by (auto simp: in_set_conv_nth)
  with l m obtain r' where "r' \<in> set (refunds d')" "row_moves r r'" by (metis nth_mem)
  then show ?thesis by (intro bexI [of _ r']) (auto simp: row_moves_def)
qed

definition sample_row :: refund_row where
  "sample_row = row_of books_db (sample_refund ''x1'' ''PENDING'' 6)"

theorem closed_refunds_stay_closed_witness:
  "\<exists>r'\<in>set (refunds (snd (projr (commit_park_failed_txn sample_row 6 5 None books_db)))).
     r' = sample_refund ''x1'' ''SENT'' 6"
proof -
  have step: "refund_step\<^sup>*\<^sup>* books_db (snd (projr (commit_park_failed_txn sample_row 6 5 None books_db)))"
    by (rule r_into_rtranclp, rule refund_step.park [of sample_row 6 5 None _ Noop])
       (simp add: commit_park_failed_txn_def refund_pending_def books_db_def sample_refund_def)
  have "sample_refund ''x1'' ''SENT'' 6 \<in> set (refunds books_db)" by (simp add: books_db_def)
  from closed_refunds_stay_closed [OF step this] show ?thesis by (auto simp: sample_refund_def)
qed

subsection \<open>The executor's whole run\<close>

text \<open>The receipt columns and rows, which no refund transaction writes.\<close>

definition same_receipts :: "db \<Rightarrow> db \<Rightarrow> bool" where
  "same_receipts d d' \<longleftrightarrow> invoices d' = invoices d \<and>
     filter settle_refund_event (events d') = filter settle_refund_event (events d)"

lemma same_receipts_refl [simp]: "same_receipts d d"
  by (simp add: same_receipts_def)

lemma same_receipts_trans: "same_receipts a b \<Longrightarrow> same_receipts b c \<Longrightarrow> same_receipts a c"
  by (simp add: same_receipts_def)

lemma same_receipts_insert:
  "k \<notin> set settle_refund_kinds \<Longrightarrow> same_receipts d (insert_event s k j now d)"
  by (simp add: same_receipts_def insert_event_def settle_refund_event_def)

lemma same_receipts_tables [refund_frames]:
  "same_receipts d (d'\<lparr>refunds := rs\<rparr>) = same_receipts d d'"
  "same_receipts d (d'\<lparr>subs := ss\<rparr>) = same_receipts d d'"
  "same_receipts d (d'\<lparr>outbox := bs\<rparr>) = same_receipts d d'"
  "same_receipts d (d'\<lparr>reservations := vs\<rparr>) = same_receipts d d'"
  by (simp_all add: same_receipts_def)

lemma same_receipts_enqueue [refund_frames]: "same_receipts d (enqueue_row i rc s ty p now d') = same_receipts d d'"
  by (simp add: same_receipts_def frame_simps)

lemma same_receipts_journal [refund_frames]:
  assumes "k \<notin> set settle_refund_kinds"
  shows "same_receipts d (insert_event s k j now d') = same_receipts d d'"
  using assms by (simp add: same_receipts_def insert_event_def settle_refund_event_def)

lemma same_receipts_writers [refund_frames]:
  "same_receipts d (refund_journal s ''refund_sent'' x now d') = same_receipts d d'"
  "same_receipts d (refund_journal s ''refund_retry'' x now d') = same_receipts d d'"
  "same_receipts d (enqueue_failed_refund rc s i p x now d') = same_receipts d d'"
  "same_receipts d (enqueue_refund i rc s p now d') = same_receipts d d'"
  "same_receipts d (alert_if_any a now d') = same_receipts d d'"
  "same_receipts d (update_refund rid f d') = same_receipts d d'"
  by (simp_all add: refund_journal_def enqueue_failed_refund_def enqueue_refund_def alert_if_any_def
      enqueue_alert_row_def update_refund_def refund_frames settle_refund_kinds_def split: option.split)

lemma same_receipts_close [refund_frames]: "same_receipts d (close_refunded_sub s now d') = same_receipts d d'"
  by (simp add: close_refunded_sub_def release_txn_def Let_def reservation_journal_def refund_frames
      settle_refund_kinds_def split: option.split)

lemma txn_receipts:
  "persist_resolution rid v gen now d = Inr (x1, d') \<Longrightarrow> same_receipts d d'"
  "authorise_txn rid now p d = Inr (x2, d') \<Longrightarrow> same_receipts d d'"
  "commit_sent_txn row pid paid now d = Inr (x3, d') \<Longrightarrow> same_receipts d d'"
  "commit_park_failed_txn row amount now a d = Inr (x4, d') \<Longrightarrow> same_receipts d d'"
  "commit_pay_failure_txn row amount now t a d = Inr (x5, d') \<Longrightarrow> same_receipts d d'"
  "commit_resolution_retry_txn row now d = Inr (x6, d') \<Longrightarrow> same_receipts d d'"
  by (auto simp: persist_resolution_def authorise_txn_def commit_sent_txn_def commit_park_failed_txn_def
      commit_pay_failure_txn_def commit_resolution_retry_txn_def Let_def refund_frames split: if_splits sum.splits)

lemma find_filter: "(\<And>x. P x \<Longrightarrow> Q x) \<Longrightarrow> List.find P xs = List.find P (filter Q xs)"
  by (induction xs) auto

lemma same_receipts_lookup:
  assumes "same_receipts d d'"
  shows "lookup_received_amount ext d' = lookup_received_amount ext d"
proof -
  have "List.find (\<lambda>e. settle_refund_event e \<and> event_ext e = Some ext) (events d') =
        List.find (\<lambda>e. settle_refund_event e \<and> event_ext e = Some ext) (events d)"
    using assms by (subst (1 2) find_filter [where Q = settle_refund_event]) (simp_all add: same_receipts_def)
  moreover have "invoices d' = invoices d" using assms by (simp add: same_receipts_def)
  ultimately show ?thesis by (simp add: lookup_received_amount_def split: option.split)
qed

definition moves :: "'w env \<Rightarrow> 'w env \<Rightarrow> bool" where
  "moves e e' \<longleftrightarrow> rows_move (e_db e) (e_db e') \<and> same_receipts (e_db e) (e_db e')"

lemma moves_refl [simp]: "moves e e"
  by (simp add: moves_def)

lemma moves_trans: "moves a b \<Longrightarrow> moves b c \<Longrightarrow> moves a c"
  unfolding moves_def by (blast intro: rows_move_trans same_receipts_trans)

lemma on_world_db: "on_world f e = (x, e') \<Longrightarrow> e_store e' = e_store e \<and> e_alerts e' = e_alerts e"
  by (auto simp: on_world_def split: prod.splits)

lemma on_world_moves: "on_world f e = (x, e') \<Longrightarrow> moves e e'"
  by (auto dest: on_world_db simp: moves_def)

lemma run_tx_cases:
  assumes "run_tx f e = (r, e')"
  obtains (ok) x d' where "r = Inr x" "f (e_db e) = Inr (x, d')" "e_db e' = d'" "e_world e' = e_world e"
  | (err) er where "r = Inl er" "e_db e' = e_db e" "e_world e' = e_world e"
  using assms
  by (auto simp: run_tx_def transaction_def transaction_then_def trip_if_fatal_def
      split: if_splits sum.splits prod.splits)

lemma run_tx_moves:
  "run_tx f e = (r, e') \<Longrightarrow> (\<And>d x d'. f d = Inr (x, d') \<Longrightarrow> rows_move d d' \<and> same_receipts d d')
     \<Longrightarrow> moves e e'"
  by (erule run_tx_cases) (auto simp: moves_def)

lemmas txn_effects = conjI [OF txn_moves(1) txn_receipts(1)] conjI [OF txn_moves(2) txn_receipts(2)]
  conjI [OF txn_moves(3) txn_receipts(3)] conjI [OF txn_moves(4) txn_receipts(4)]
  conjI [OF txn_moves(5) txn_receipts(5)] conjI [OF txn_moves(6) txn_receipts(6)]

lemma attempt_status_moves: "attempt_pay_status P k e = (r, e') \<Longrightarrow> moves e e'"
  unfolding attempt_pay_status_def by (rule on_world_moves)

lemma quote_moves: "quote_net_cap P n e = (r, e') \<Longrightarrow> moves e e'"
  by (auto simp: quote_net_cap_def split: prod.splits sum.splits dest: on_world_moves)

lemma resolve_dest_moves: "resolve_dest P dest n now e = (r, e') \<Longrightarrow> moves e e'"
  by (auto simp: resolve_dest_def split: prod.splits option.splits dest: on_world_moves)

lemma resolve_and_persist_moves:
  assumes "resolve_and_persist P row dest q gen now e = (r, e')" shows "moves e e'"
proof -
  obtain net hint where q: "q = (net, hint)" by (cases q)
  show ?thesis
  proof (cases "checked_mul_u64 net 1000")
    case None
    with assms show ?thesis by (simp add: resolve_and_persist_def q)
  next
    case (Some owed)
    obtain v e1 where v: "resolve_dest P dest owed now e = (v, e1)" by (metis surj_pair)
    note m1 = resolve_dest_moves [OF v]
    show ?thesis
    proof (cases v)
      case (Inl er)
      with assms m1 show ?thesis by (simp add: resolve_and_persist_def q Some v)
    next
      case (Inr w)
      obtain x e2 where x: "run_tx (persist_resolution (rr_id row) w gen now) e1 = (x, e2)" by (metis surj_pair)
      have "moves e1 e2" by (rule run_tx_moves [OF x txn_effects(1)])
      with assms m1 show ?thesis
        by (auto simp: resolve_and_persist_def q Some v Inr x split: sum.splits bool.splits intro: moves_trans)
    qed
  qed
qed

lemma plan_bolt11_moves:
  assumes "plan_bolt11 P ext dest received e = (r, e')" shows "moves e e'"
proof (cases "parse_whole_sat (pb_net P) dest")
  case (Inl m)
  with assms show ?thesis by (simp add: plan_bolt11_def)
next
  case (Inr sat)
  obtain s e1 where s: "attempt_pay_status P (gen_key ext 0) e = (s, e1)" by (metis surj_pair)
  obtain q e2 where q: "quote_net_cap P received e1 = (q, e2)" by (metis surj_pair)
  from attempt_status_moves [OF s] quote_moves [OF q] assms show ?thesis
    by (auto simp: plan_bolt11_def Inr s q split: sum.splits pay_status.splits if_splits intro: moves_trans)
qed

lemma plan_resolved_moves:
  assumes "plan_resolved P row ext dest b received now e = (r, e')" shows "moves e e'"
proof -
  obtain s e1 where s: "attempt_pay_status P (gen_key ext (rr_gen row)) e = (s, e1)" by (metis surj_pair)
  obtain q e2 where q: "quote_net_cap P received e1 = (q, e2)" by (metis surj_pair)
  have "e' = e1 \<or> e' = e2 \<or> (\<exists>q gen. resolve_and_persist P row dest q gen now e2 = (r, e'))"
    using assms by (auto simp: plan_resolved_def Let_def s q split: sum.splits pay_status.splits if_splits)
  with attempt_status_moves [OF s] quote_moves [OF q] show ?thesis
    by (auto intro: moves_trans dest: resolve_and_persist_moves)
qed

lemma plan_moves:
  assumes "plan_payment P row ext dest received now e = (r, e')" shows "moves e e'"
proof -
  obtain q e1 where q: "quote_net_cap P received e = (q, e1)" by (metis surj_pair)
  have "e' = e \<or> e' = e1 \<or> plan_bolt11 P ext dest received e = (r, e') \<or>
      (\<exists>q gen. resolve_and_persist P row dest q gen now e1 = (r, e')) \<or>
      (\<exists>b. plan_resolved P row ext dest b received now e = (r, e'))"
    using assms by (auto simp: plan_payment_def q split: sum.splits dest_form.splits option.splits)
  with quote_moves [OF q] show ?thesis
    by (auto intro: moves_trans plan_bolt11_moves dest: resolve_and_persist_moves plan_resolved_moves)
qed

lemma already_paid_moves: "already_paid P k e = (b, e') \<Longrightarrow> moves e e'"
  by (auto simp: already_paid_def split: prod.splits dest: attempt_status_moves)

lemma status_after_moves: "status_by_key_after_error P k e = (s, e') \<Longrightarrow> moves e e'"
  by (auto simp: status_by_key_after_error_def split: prod.splits sum.splits dest: attempt_status_moves)

lemma maybe_alert_stuck_moves [simp]: "moves e (maybe_alert_stuck P row now e)"
  by (auto simp: maybe_alert_stuck_def dispatch_def moves_def rows_move_same refund_frames frame_simps Let_def
      split: option.splits if_splits prod.splits)

lemma finish_sent_moves: "finish_sent row pid paid now e = (r, e') \<Longrightarrow> moves e e'"
  by (auto simp: finish_sent_def split: prod.splits sum.splits dest: run_tx_moves [OF _ txn_effects(3)])

lemma park_moves: "commit_park_failed P row a now m e = (r, e') \<Longrightarrow> moves e e'"
  unfolding commit_park_failed_def by (erule run_tx_moves) (rule txn_effects(4))

lemma stuck_moves: "stuck_if_retried P row now y = (r, e') \<Longrightarrow> moves e (snd y) \<Longrightarrow> moves e e'"
  by (auto simp: stuck_if_retried_def split: if_splits prod.splits intro: moves_trans)

lemma run_tx_moves_snd:
  "(\<And>d x d'. f d = Inr (x, d') \<Longrightarrow> rows_move d d' \<and> same_receipts d d') \<Longrightarrow> moves e (snd (run_tx f e))"
  by (rule run_tx_moves [OF prod.collapse [symmetric]])

lemma pay_failure_moves: "commit_pay_failure P row a now t e = (r, e') \<Longrightarrow> moves e e'"
  unfolding commit_pay_failure_def by (erule stuck_moves) (rule run_tx_moves_snd, rule txn_effects(5))

lemma retry_moves: "commit_resolution_retry P row now e = (r, e') \<Longrightarrow> moves e e'"
  unfolding commit_resolution_retry_def by (erule stuck_moves) (rule run_tx_moves_snd, rule txn_effects(6))

lemma pay_and_commit_moves:
  assumes "pay_and_commit P row key b sat received hint now e = (r, e')" shows "moves e e'"
proof -
  obtain x e1 where x: "on_world (pb_pay P b sat received key hint) e = (x, e1)" by (metis surj_pair)
  obtain s e2 where s: "status_by_key_after_error P key e1 = (s, e2)" by (metis surj_pair)
  have "moves e1 e'"
    using assms status_after_moves [OF s]
    by (auto simp: pay_and_commit_def x s split: sum.splits pay_status.splits
        intro: moves_trans dest: finish_sent_moves pay_failure_moves)
  with on_world_moves [OF x] show ?thesis by (rule moves_trans)
qed

lemma authorise_send_cases:
  assumes "authorise_send P row key b now e = (r, e')"
  shows "moves e e'"
    and "r = Inr True \<Longrightarrow> \<exists>q\<in>set (refunds (e_db e)). authorisable (rr_id row) q"
proof -
  obtain x e1 where x: "on_world (pb_prepare P key b) e = (x, e1)" by (metis surj_pair)
  note m1 = on_world_moves [OF x] and d1 = on_world_db [OF x]
  have "moves e e' \<and> (r = Inr True \<longrightarrow> (\<exists>q\<in>set (refunds (e_db e)). authorisable (rr_id row) q))"
  proof (cases x)
    case (Inl er)
    with assms m1 show ?thesis by (auto simp: authorise_send_def x)
  next
    case (Inr w)
    obtain y e2 where y: "run_tx (authorise_txn (rr_id row) now (w (e_world e1))) e1 = (y, e2)" by (metis surj_pair)
    have m2: "moves e1 e2" by (rule run_tx_moves [OF y txn_effects(2)])
    have res: "r = y \<and> e_db e' = e_db e2"
      using assms by (auto simp: authorise_send_def x Inr y Let_def split: sum.splits bool.splits)
    have "\<exists>q\<in>set (refunds (e_db e)). authorisable (rr_id row) q" if "y = Inr True"
      using y that d1 by (auto elim!: run_tx_cases simp: authorise_txn_def count_where_0_iff split: if_splits)
    with res moves_trans [OF m1 m2] show ?thesis by (simp add: moves_def)
  qed
  then show "moves e e'" and "r = Inr True \<Longrightarrow> \<exists>q\<in>set (refunds (e_db e)). authorisable (rr_id row) q" by blast+
qed

lemma authorisable_back:
  assumes "moves e e'" "q' \<in> set (refunds (e_db e'))" "authorisable rid q'"
  shows "\<exists>q\<in>set (refunds (e_db e)). authorisable rid q"
proof -
  from assms(2) obtain i where i: "i < length (refunds (e_db e'))" "q' = refunds (e_db e') ! i"
    by (auto simp: in_set_conv_nth)
  from assms(1) have l: "length (refunds (e_db e)) = length (refunds (e_db e'))"
    and m: "\<forall>i<length (refunds (e_db e)). row_moves (refunds (e_db e) ! i) (refunds (e_db e') ! i)"
    by (simp_all add: moves_def rows_move_def list_all2_conv_all_nth)
  from i l m have "row_moves (refunds (e_db e) ! i) q'" by simp
  with assms(3) have "authorisable rid (refunds (e_db e) ! i)"
    by (auto simp: row_moves_def authorisable_def refund_pending_def)
  with i l show ?thesis by (metis nth_mem)
qed

lemma execute_plan_effects:
  assumes run: "execute_plan P row ext received now b gen sat hint e = (r, e', calls)"
  shows "moves e e'"
    and "calls = [] \<or> calls = [\<lparr>pc_bolt11 = b, pc_sat = sat, pc_received = received, pc_key = gen_key ext gen\<rparr>] \<and>
           (\<exists>q\<in>set (refunds (e_db e)). authorisable (rr_id row) q)"
proof -
  let ?key = "gen_key ext gen"
  obtain p e1 where p: "already_paid P ?key e = (p, e1)" by (metis surj_pair)
  obtain s e2 where s: "authorise_send P row ?key b now e1 = (s, e2)" by (metis surj_pair)
  note m1 = already_paid_moves [OF p] and m2 = authorise_send_cases(1) [OF s]
  note auth = authorise_send_cases(2) [OF s]
  have tail: "moves e1 e' \<and> (calls = [] \<or> calls = [\<lparr>pc_bolt11 = b, pc_sat = sat, pc_received = received, pc_key = ?key\<rparr>]
      \<and> s = Inr True)"
    using run m2 by (auto simp: execute_plan_def Let_def p s split: bool.splits sum.splits prod.splits
        intro: moves_trans dest: finish_sent_moves retry_moves pay_and_commit_moves)
  then show "moves e e'" using m1 by (blast intro: moves_trans)
  show "calls = [] \<or> calls = [\<lparr>pc_bolt11 = b, pc_sat = sat, pc_received = received, pc_key = ?key\<rparr>] \<and>
      (\<exists>q\<in>set (refunds (e_db e)). authorisable (rr_id row) q)"
    using tail auth authorisable_back [OF m1] by blast
qed

definition call_owed :: "db \<Rightarrow> refund_row \<Rightarrow> pay_call \<Rightarrow> bool" where
  "call_owed d row c \<longleftrightarrow>
     rr_fence row = None \<and> (\<exists>q\<in>set (refunds d). authorisable (rr_id row) q) \<and>
     (\<exists>a. lookup_received_amount (external_id_of row) d = Some a \<and> 0 < a \<and> rr_amount row = Some a \<and>
          pc_received c = nat a) \<and>
     (\<exists>gen. pc_key c = gen_key (external_id_of row) gen)"

lemma verified_owed:
  "verify_refund_provenance row ext d = ProvenanceOk n \<Longrightarrow>
     \<exists>a. lookup_received_amount ext d = Some a \<and> 0 < a \<and> rr_amount row = Some a \<and> n = nat a"
  by (auto simp: verify_refund_provenance_def split: option.splits if_splits)

lemma process_effects:
  assumes run: "process P row now e = (r, e', calls)"
  shows "moves e e' \<and> (calls = [] \<or> (\<exists>c. calls = [c] \<and> call_owed (e_db e) row c))"
proof -
  let ?ext = "external_id_of row"
  note quiet = quiet_def park_moves retry_moves finish_sent_moves
  show ?thesis
  proof (cases "rr_fence row")
    case (Some f)
    with run show ?thesis by (auto simp: process_def)
  next
    case fence: None
    show ?thesis
    proof (cases "verify_refund_provenance row ?ext (e_db e)")
      case (Forbidden m)
      with run fence show ?thesis by (auto simp: process_def quiet_def split: prod.splits dest: park_moves)
    next
      case (ProvenanceOk n)
      show ?thesis
      proof (cases "map_option str_trim (rr_dest row) \<in> {None, Some []}")
        case True
        with run fence ProvenanceOk show ?thesis
          by (auto simp: process_def quiet_def split: prod.splits option.splits if_splits dest: park_moves)
      next
        case False
        then obtain dest where dest: "map_option str_trim (rr_dest row) = Some dest" "dest \<noteq> []"
          by (cases "map_option str_trim (rr_dest row)") auto
        obtain p e1 where p: "plan_payment P row ?ext dest n now e = (p, e1)" by (metis surj_pair)
        note m1 = plan_moves [OF p] and eqs = process_def Let_def fence ProvenanceOk dest p quiet_def
        show ?thesis
        proof (cases p)
          case (Inl er)
          with run m1 show ?thesis
            by (cases er) (auto simp: eqs split: prod.splits intro: moves_trans dest: park_moves retry_moves)
        next
          case (Inr pl)
          show ?thesis
          proof (cases pl)
            case (Pay b gen sat hint)
            with run Inr have "execute_plan P row ?ext n now b gen sat hint e1 = (r, e', calls)"
              by (simp add: eqs)
            note fx = execute_plan_effects [OF this]
            have "call_owed (e_db e) row \<lparr>pc_bolt11 = b, pc_sat = sat, pc_received = n, pc_key = gen_key ?ext gen\<rparr>"
              if "\<exists>q\<in>set (refunds (e_db e1)). authorisable (rr_id row) q"
              using that verified_owed [OF ProvenanceOk] authorisable_back [OF m1]
              by (fastforce simp: call_owed_def fence)
            with fx moves_trans [OF m1 fx(1)] show ?thesis by blast
          next
            case (AlreadySent sat)
            with run m1 Inr show ?thesis
              by (auto simp: eqs split: prod.splits intro: moves_trans dest: finish_sent_moves)
          next
            case Skip
            with run m1 Inr show ?thesis by (simp add: eqs)
          qed
        qed
      qed
    qed
  qed
qed

lemma call_owed_back:
  assumes "moves e e'" "call_owed (e_db e') row c" shows "call_owed (e_db e) row c"
  using assms authorisable_back [OF assms(1)]
  by (auto simp: call_owed_def moves_def same_receipts_lookup)

lemma drive_rows_effects:
  "drive_rows P now rows rep e = (r, e', calls) \<Longrightarrow>
     moves e e' \<and> (\<exists>rs. subseq rs rows \<and> list_all2 (call_owed (e_db e)) rs calls)"
proof (induction rows arbitrary: rep e r e' calls)
  case Nil
  then show ?case by auto
next
  case (Cons row rows)
  obtain x e1 c1 where p: "process P row now e = (x, e1, c1)" by (metis prod_cases3)
  note fx = process_effects [OF p]
  have one: "\<exists>rs. subseq rs [row] \<and> list_all2 (call_owed (e_db e)) rs c1"
    using fx by (auto intro: exI [of _ "[]"] exI [of _ "[row]"])
  show ?case
  proof (cases x)
    case (Inl er)
    with Cons.prems p have "e' = e1" "calls = c1" by simp_all
    with fx one subseq_order.trans [of _ "[row]" "row # rows"] show ?thesis by fastforce
  next
    case (Inr oc)
    obtain y e2 c2 where q: "drive_rows P now rows (count_outcome oc rep) e1 = (y, e2, c2)" by (metis prod_cases3)
    from Cons.prems p Inr q have eqs: "e' = e2" "calls = c1 @ c2" by simp_all
    from Cons.IH [OF q] obtain rs where rs: "moves e1 e2" "subseq rs rows" "list_all2 (call_owed (e_db e1)) rs c2" by blast
    have "list_all2 (call_owed (e_db e)) rs c2"
      using rs(3) by (rule list_all2_mono) (use fx call_owed_back in blast)
    with one rs(2) obtain r1 where "subseq (r1 @ rs) ([row] @ rows)" "list_all2 (call_owed (e_db e)) (r1 @ rs) (c1 @ c2)"
      by (meson list_emb_append_mono list_all2_appendI)
    with eqs moves_trans [OF _ rs(1)] fx show ?thesis by auto
  qed
qed

text \<open>
  C6. One drive of the refunder pays only what is owed, and each owed refund at most once: its pay
  calls are made for a subsequence of the pending rows, one call per row, and each is for a refund
  that is PENDING and unfenced, whose amount is the positive amount the ledger has on record as
  received for its own external id; that amount is the cap handed to the backend and the key is one
  of that refund's generation keys. This holds for every backend and resolver, honest or not.
\<close>

theorem drive_pays_only_owed:
  assumes run: "refund_drive P now e = (res, e', calls)"
  shows "\<exists>rows. subseq rows (pending_refunds (e_db e)) \<and>
    list_all2 (\<lambda>row c.
       rr_fence row = None \<and>
       (\<exists>q\<in>set (refunds (e_db e)). rf_id q = rr_id row \<and> rf_status q = ''PENDING'' \<and> rf_fence q = None) \<and>
       (\<exists>a. lookup_received_amount (external_id_of row) (e_db e) = Some a \<and> 0 < a \<and>
            rr_amount row = Some a \<and> pc_received c = nat a) \<and>
       (\<exists>gen. pc_key c = gen_key (external_id_of row) gen)) rows calls"
proof -
  from run obtain rs where rs: "subseq rs (pending_refunds (e_db e))" "list_all2 (call_owed (e_db e)) rs calls"
    using drive_rows_effects unfolding refund_drive_def by blast
  show ?thesis
    by (rule exI [of _ rs], rule conjI [OF rs(1)], rule list_all2_mono [OF rs(2)])
       (simp add: call_owed_def authorisable_def refund_pending_def conj_ac)
qed

end
