(* ===== verification/Refund_Commits.thy ===== *)
theory Refund_Commits
  imports Refund_Safety
begin

text \<open>
  What each commit of the refund executor leaves behind: the whole effect of a sent refund in one
  transaction, the attempt cap of a failed one, and the schema invariant of all six transactions.
\<close>

subsection \<open>The schema invariant\<close>

lemma db_ok_refund_journal [simp]: "db_ok (refund_journal s k x now d) \<longleftrightarrow> db_ok d"
  by (simp add: refund_journal_def)

lemma db_ok_enqueue_refund: "db_ok d \<Longrightarrow> db_ok (enqueue_refund i rc s p now d)"
  by (simp add: enqueue_refund_def)

lemma db_ok_alert_if_any: "db_ok d \<Longrightarrow> db_ok (alert_if_any a now d)"
  by (simp add: alert_if_any_def enqueue_alert_row_def split: option.split)

lemma db_ok_enqueue_failed: "db_ok d \<Longrightarrow> db_ok (enqueue_failed_refund rc s i p x now d)"
  by (simp add: enqueue_failed_refund_def db_ok_enqueue_refund)

lemma db_ok_update_refund:
  "db_ok d \<Longrightarrow> (\<And>r. rf_id (f r) = rf_id r) \<Longrightarrow> (\<And>r. rf_key (f r) = rf_key r) \<Longrightarrow> db_ok (update_refund i f d)"
  by (simp add: update_refund_def db_ok_refunds_update)

lemma db_ok_release_txn: "db_ok d \<Longrightarrow> db_ok (snd (release_txn s now d))"
  by (simp add: release_txn_def Let_def reservation_journal_def db_ok_reservations_update)

lemma db_ok_close_refunded: "db_ok d \<Longrightarrow> db_ok (close_refunded_sub s now d)"
  by (simp add: close_refunded_sub_def Let_def db_ok_release_txn db_ok_subs_update split: option.split)

lemmas refund_db_ok = db_ok_enqueue_refund db_ok_alert_if_any db_ok_enqueue_failed db_ok_update_refund
  db_ok_close_refunded

lemma bump_attempts_keys [simp]:
  "rf_id (bump_attempts now r) = rf_id r" "rf_key (bump_attempts now r) = rf_key r"
  "rf_status (bump_attempts now r) = rf_status r"
  by (simp_all add: bump_attempts_def)

lemma refund_txns_ok:
  "db_ok d \<Longrightarrow> persist_resolution rid v gen now d = Inr (x1, d') \<Longrightarrow> db_ok d'"
  "db_ok d \<Longrightarrow> authorise_txn rid now p d = Inr (x2, d') \<Longrightarrow> db_ok d'"
  "db_ok d \<Longrightarrow> commit_sent_txn row pid paid now d = Inr (x3, d') \<Longrightarrow> db_ok d'"
  "db_ok d \<Longrightarrow> commit_park_failed_txn row amount now a d = Inr (x4, d') \<Longrightarrow> db_ok d'"
  "db_ok d \<Longrightarrow> commit_pay_failure_txn row amount now t a d = Inr (x5, d') \<Longrightarrow> db_ok d'"
  "db_ok d \<Longrightarrow> commit_resolution_retry_txn row now d = Inr (x6, d') \<Longrightarrow> db_ok d'"
  by (auto simp: persist_resolution_def authorise_txn_def commit_sent_txn_def commit_park_failed_txn_def
      commit_pay_failure_txn_def commit_resolution_retry_txn_def Let_def refund_db_ok db_ok_refunds_update
      split: if_splits sum.splits)

subsection \<open>A sent refund\<close>

lemma enqueue_present: "\<exists>b\<in>set (outbox (enqueue_row i rc s ty p now d)). ob_id b = i"
  by (auto simp: enqueue_row_def)

lemma enqueue_row_keeps:
  "\<exists>b\<in>set (outbox d). ob_id b = x \<Longrightarrow> \<exists>b\<in>set (outbox (enqueue_row i rc s ty p now d)). ob_id b = x"
  by (auto simp: enqueue_row_def)

lemma close_refunded_subs:
  "set (subs (close_refunded_sub (Some s) now d)) =
     (\<lambda>q. if sub_id q = s \<and> sub_state q = ''REFUND_DUE''
          then q\<lparr>sub_state := ''REFUNDED'', sub_next_deadline := None, sub_updated := now\<rparr> else q) ` set (subs d)"
  by (auto simp: close_refunded_sub_def Let_def release_txn_def reservation_journal_def frame_simps
      set_update_where)

lemma release_reservations:
  "reservations (snd (release_txn s now d)) =
     update_where (\<lambda>r. rsv_order r = s \<and> (rsv_state r = ''HELD'' \<or> rsv_state r = ''CONSUMED''))
        (\<lambda>r. r\<lparr>rsv_state := ''RELEASED''\<rparr>) (reservations d)"
  by (simp add: release_txn_def Let_def reservation_journal_def frame_simps)

lemma close_refunded_rsv:
  assumes "q \<in> set (subs d)" "sub_id q = s" "sub_state q = ''REFUND_DUE''"
    and "v \<in> set (reservations (close_refunded_sub (Some s) now d))" "rsv_order v = s"
  shows "rsv_state v \<noteq> ''HELD'' \<and> rsv_state v \<noteq> ''CONSUMED''"
proof -
  have "0 < count_where (\<lambda>q. sub_id q = s \<and> sub_state q = ''REFUND_DUE'') (subs d)"
    using assms(1-3) by (auto simp: count_where_pos_iff)
  then have "reservations (close_refunded_sub (Some s) now d) =
      update_where (\<lambda>r. rsv_order r = s \<and> (rsv_state r = ''HELD'' \<or> rsv_state r = ''CONSUMED''))
        (\<lambda>r. r\<lparr>rsv_state := ''RELEASED''\<rparr>) (reservations d)"
    unfolding close_refunded_sub_def Let_def option.case by (simp only: if_True release_reservations) simp
  with assms(4) have "v \<in> set (update_where (\<lambda>r. rsv_order r = s \<and> (rsv_state r = ''HELD'' \<or> rsv_state r = ''CONSUMED''))
        (\<lambda>r. r\<lparr>rsv_state := ''RELEASED''\<rparr>) (reservations d))"
    by (simp only:)
  then show ?thesis
  proof (cases rule: in_update_whereE)
    case (hit r0)
    then show ?thesis by simp
  next
    case miss
    with assms(5) show ?thesis by simp
  qed
qed

lemma commit_sent_tables:
  assumes "commit_sent_txn row pid paid now d = Inr (True, d')"
  shows "refunds d' = update_where (refund_pending (rr_id row))
           (\<lambda>r. (bump_attempts now r)\<lparr>rf_status := ''SENT'', rf_payment := coalesce pid (rf_payment r)\<rparr>) (refunds d)"
    and "subs d' = subs (close_refunded_sub (rr_sub row) now d)"
    and "reservations d' = reservations (close_refunded_sub (rr_sub row) now d)"
    and "\<exists>b\<in>set (outbox d'). ob_id b = ''outbox:refund:'' @ external_id_of row"
    and "\<exists>e\<in>set (events d'). ev_kind e = ''refund_sent'' \<and> ev_sub e = rr_sub row
           \<and> event_ext e = Some (external_id_of row)"
proof -
  have close: "subs (close_refunded_sub s now (d\<lparr>refunds := rs\<rparr>)) = subs (close_refunded_sub s now d)"
    "reservations (close_refunded_sub s now (d\<lparr>refunds := rs\<rparr>)) = reservations (close_refunded_sub s now d)" for s rs
    by (simp_all add: close_refunded_sub_def Let_def release_txn_def reservation_journal_def frame_simps split: option.split)
  note unfold = commit_sent_txn_def
  show "refunds d' = update_where (refund_pending (rr_id row))
           (\<lambda>r. (bump_attempts now r)\<lparr>rf_status := ''SENT'', rf_payment := coalesce pid (rf_payment r)\<rparr>) (refunds d)"
    using assms by (auto simp: unfold refund_frames update_refund_def split: if_splits)
  show "subs d' = subs (close_refunded_sub (rr_sub row) now d)"
    using assms by (auto simp: unfold refund_frames update_refund_def close split: if_splits)
  show "reservations d' = reservations (close_refunded_sub (rr_sub row) now d)"
    using assms by (auto simp: unfold refund_frames update_refund_def close split: if_splits)
  show "\<exists>b\<in>set (outbox d'). ob_id b = ''outbox:refund:'' @ external_id_of row"
    using assms by (auto simp: unfold refund_frames enqueue_refund_def enqueue_present split: if_splits)
  show "\<exists>e\<in>set (events d'). ev_kind e = ''refund_sent'' \<and> ev_sub e = rr_sub row
           \<and> event_ext e = Some (external_id_of row)"
    using assms by (auto simp: unfold refund_journal_def insert_event_def event_ext_def split: if_splits)
qed

text \<open>
  Recording a sent refund is complete or nothing: if the row was still PENDING, the same commit
  makes it SENT with the payment id, turns its REFUND_DUE subscription into REFUNDED without a
  deadline, frees that order's reservation, queues the buyer's refund message and journals the
  external id; if the row was no longer PENDING, nothing at all is written.
\<close>

theorem sent_commit_complete:
  assumes ok: "db_ok d" and run: "commit_sent_txn row pid paid now d = Inr (moved, d')"
  shows "db_ok d' \<and>
    (moved \<longleftrightarrow> (\<exists>r\<in>set (refunds d). rf_id r = rr_id row \<and> rf_status r = ''PENDING'')) \<and>
    (\<not> moved \<longrightarrow> d' = d) \<and>
    (moved \<longrightarrow>
      (\<forall>r\<in>set (refunds d). rf_id r = rr_id row \<and> rf_status r = ''PENDING'' \<longrightarrow>
         (\<exists>r'\<in>set (refunds d'). rf_id r' = rr_id row \<and> rf_status r' = ''SENT'' \<and>
            rf_payment r' = coalesce pid (rf_payment r))) \<and>
      (\<forall>s q. rr_sub row = Some s \<longrightarrow> q \<in> set (subs d) \<longrightarrow> sub_id q = s \<longrightarrow> sub_state q = ''REFUND_DUE'' \<longrightarrow>
         q\<lparr>sub_state := ''REFUNDED'', sub_next_deadline := None, sub_updated := now\<rparr> \<in> set (subs d') \<and>
         (\<forall>v\<in>set (reservations d'). rsv_order v = s \<longrightarrow> rsv_state v \<notin> {''HELD'', ''CONSUMED''})) \<and>
      (\<exists>b\<in>set (outbox d'). ob_id b = ''outbox:refund:'' @ external_id_of row) \<and>
      (\<exists>e\<in>set (events d'). ev_kind e = ''refund_sent'' \<and> ev_sub e = rr_sub row \<and>
         event_ext e = Some (external_id_of row)))"
proof -
  have ok': "db_ok d'" by (rule refund_txns_ok(3) [OF ok run])
  have moved: "moved \<longleftrightarrow> (\<exists>r\<in>set (refunds d). rf_id r = rr_id row \<and> rf_status r = ''PENDING'')"
    using run by (auto simp: commit_sent_txn_def count_where_0_iff refund_pending_def split: if_splits)
  have none: "\<not> moved \<Longrightarrow> d' = d"
    using run by (auto simp: commit_sent_txn_def split: if_splits)
  show ?thesis
  proof (cases moved)
    case True
    with run have "commit_sent_txn row pid paid now d = Inr (True, d')" by simp
    note tables = commit_sent_tables [OF this]
    have row: "\<exists>r'\<in>set (refunds d'). rf_id r' = rr_id row \<and> rf_status r' = ''SENT'' \<and>
            rf_payment r' = coalesce pid (rf_payment r)"
      if "r \<in> set (refunds d)" "rf_id r = rr_id row \<and> rf_status r = ''PENDING''" for r
      using that unfolding tables(1) by (intro bexI [OF _ update_where_hit]) (simp_all add: refund_pending_def)
    have sub: "q\<lparr>sub_state := ''REFUNDED'', sub_next_deadline := None, sub_updated := now\<rparr> \<in> set (subs d') \<and>
         (\<forall>v\<in>set (reservations d'). rsv_order v = s \<longrightarrow> rsv_state v \<notin> {''HELD'', ''CONSUMED''})"
      if "rr_sub row = Some s" "q \<in> set (subs d)" "sub_id q = s" "sub_state q = ''REFUND_DUE''" for s q
      using that close_refunded_rsv [OF that(2-4)] unfolding tables(2,3) that(1) close_refunded_subs
      by (auto intro!: rev_image_eqI)
    from True ok' moved row sub tables(4,5) show ?thesis by blast
  next
    case False
    with ok' moved none show ?thesis by blast
  qed
qed

subsection \<open>The attempt cap\<close>

lemma refund_id_unique:
  assumes "db_ok d" "r \<in> set (refunds d)" "q \<in> set (refunds d)" "rf_id q = rf_id r"
  shows "q = r"
proof -
  from assms(1-3) obtain e f where "rf_id r = ''ref-'' @ e" "rf_key r = ''refund:'' @ e"
    "rf_id q = ''ref-'' @ f" "rf_key q = ''refund:'' @ f"
    by (meson db_okD(6) refund_keyed_def)
  with assms(4) have "rf_key q = rf_key r" by simp
  with assms(1-3) show ?thesis by (metis db_okD(5) find_key_unique option.inject)
qed

lemma find_refund_id:
  assumes "db_ok d" "r \<in> set (refunds d)"
  shows "List.find (\<lambda>q. rf_id q = rf_id r) (refunds d) = Some r"
proof (cases "List.find (\<lambda>q. rf_id q = rf_id r) (refunds d)")
  case None
  with assms(2) show ?thesis by (auto simp: find_None_all)
next
  case (Some q)
  with assms show ?thesis using find_Some_mem [OF Some] refund_id_unique by blast
qed

lemma attempts_after_bump:
  assumes "db_ok d" "r \<in> set (refunds d)" "refund_pending (rf_id r) r"
  shows "bump_attempts now r \<in> set (refunds (update_refund (rf_id r) (bump_attempts now) d))"
    and "refund_attempts_of (rf_id r) (update_refund (rf_id r) (bump_attempts now) d) = unwrap_or (rf_attempts r) 0 + 1"
proof -
  let ?d = "update_refund (rf_id r) (bump_attempts now) d"
  have ok: "db_ok ?d" using assms(1) by (rule db_ok_update_refund) simp_all
  show mem: "bump_attempts now r \<in> set (refunds ?d)"
    using assms(2,3) by (simp add: update_refund_def update_where_hit)
  from find_refund_id [OF ok mem] show "refund_attempts_of (rf_id r) ?d = unwrap_or (rf_attempts r) 0 + 1"
    by (simp add: refund_attempts_of_def bump_attempts_def)
qed

text \<open>
  A failed payment costs exactly one attempt and only a definite failure ever parks the refund:
  the row's attempts go up by one; it is parked FAILED, with the buyer's message queued, exactly when
  the failure was definite and this was the fifth attempt or a later one, and stays PENDING otherwise,
  so an ambiguous answer never closes a refund however often it repeats.
\<close>

theorem pay_failure_parks_at_cap:
  assumes ok: "db_ok d" and r: "r \<in> set (refunds d)" "rf_status r = ''PENDING''" "rr_id row = rf_id r"
    and run: "commit_pay_failure_txn row amount now definite alert d = Inr (oc, d')"
  shows "\<exists>r'\<in>set (refunds d'). rf_id r' = rf_id r \<and> rf_attempts r' = Some (unwrap_or (rf_attempts r) 0 + 1) \<and>
    (if definite \<and> 5 \<le> unwrap_or (rf_attempts r) 0 + 1
     then oc = Failed \<and> rf_status r' = ''FAILED'' \<and>
          (\<exists>b\<in>set (outbox d'). ob_id b = ''outbox:refund:'' @ external_id_of row)
     else oc = Retried \<and> rf_status r' = ''PENDING'' \<and> outbox d' = outbox d)"
proof -
  let ?d1 = "update_refund (rf_id r) (bump_attempts now) d" and ?r1 = "bump_attempts now r"
  have pend: "refund_pending (rf_id r) r" using r by (simp add: refund_pending_def)
  note bump = attempts_after_bump [OF ok r(1) pend, where now = now]
  have pend1: "refund_pending (rf_id r) ?r1" using pend by (simp add: refund_pending_def)
  have some: "count_where (refund_pending (rf_id r)) (refunds d) \<noteq> 0"
    "count_where (refund_pending (rf_id r)) (refunds ?d1) \<noteq> 0"
    using r(1) pend bump(1) pend1 by (auto simp: count_where_0_iff)
  have attempts: "rf_attempts ?r1 = Some (unwrap_or (rf_attempts r) 0 + 1)" by (simp add: bump_attempts_def)
  show ?thesis
  proof (cases "definite \<and> 5 \<le> unwrap_or (rf_attempts r) 0 + 1")
    case False
    with run some bump(2) have res: "oc = Retried" "refunds d' = refunds ?d1" "outbox d' = outbox d"
      by (auto simp: commit_pay_failure_txn_def r(3) Let_def max_refund_attempts_def refund_frames
          refund_journal_def update_refund_def frame_simps)
    show ?thesis by (rule bexI [of _ ?r1]) (use False res attempts r(2) bump(1) in auto)
  next
    case True
    let ?r2 = "?r1\<lparr>rf_status := ''FAILED'', rf_updated := now\<rparr>"
    from True run some bump(2) have oc: "oc = Failed"
      and d': "refunds d' = update_where (refund_pending (rf_id r)) (\<lambda>r. r\<lparr>rf_status := ''FAILED'', rf_updated := now\<rparr>) (refunds ?d1)"
      by (auto simp: commit_pay_failure_txn_def r(3) Let_def max_refund_attempts_def refund_frames
          update_refund_def)
    from True run some bump(2) have out: "\<exists>b\<in>set (outbox d'). ob_id b = ''outbox:refund:'' @ external_id_of row"
      by (auto simp: commit_pay_failure_txn_def r(3) Let_def max_refund_attempts_def enqueue_failed_refund_def
          refund_frames enqueue_refund_def alert_if_any_def enqueue_alert_row_def enqueue_present enqueue_row_keeps
          split: option.split)
    have "?r2 \<in> set (refunds d')"
      unfolding d'
      by (rule update_where_hit [where f = "\<lambda>r. r\<lparr>rf_status := ''FAILED'', rf_updated := now\<rparr>"
            and P = "refund_pending (rf_id r)", OF bump(1) pend1])
    then show ?thesis by (rule bexI [rotated]) (use True oc out attempts in auto)
  qed
qed

subsection \<open>Witnesses\<close>

text \<open>One refund due to a subscription that waits for it.\<close>

definition due_db :: db where
  "due_db = empty_db\<lparr>subs := [sample_sub ''s1'' ''REFUND_DUE''], refunds := [sample_refund ''x2'' ''PENDING'' 6]\<rparr>"

definition due_row :: refund_row where
  "due_row = row_of due_db (sample_refund ''x2'' ''PENDING'' 6)"

lemma due_ok: "db_ok due_db"
  by (simp add: due_db_def db_ok_def empty_db_def sample_refund_def refund_keyed_def)

lemma due_sel [simp]: "rr_id due_row = ''ref-x2''" "rr_sub due_row = Some ''s1''"
  by (simp_all add: due_row_def row_of_def sample_refund_def)

lemma due_mem: "sample_refund ''x2'' ''PENDING'' 6 \<in> set (refunds due_db)"
  "sample_sub ''s1'' ''REFUND_DUE'' \<in> set (subs due_db)"
  by (simp_all add: due_db_def)

lemma refund_txns_total:
  "\<exists>m d'. commit_sent_txn row pid paid now d = Inr (m, d')"
  "\<exists>oc d'. commit_pay_failure_txn row amount now t a d = Inr (oc, d')"
  by (auto simp: commit_sent_txn_def commit_pay_failure_txn_def Let_def)

theorem sent_commit_complete_witness:
  "\<exists>d'. commit_sent_txn due_row (Some ''p1'') 6 9 due_db = Inr (True, d') \<and>
     (\<exists>r'\<in>set (refunds d'). rf_id r' = ''ref-x2'' \<and> rf_status r' = ''SENT'' \<and> rf_payment r' = Some ''p1'')"
proof -
  obtain m d' where run: "commit_sent_txn due_row (Some ''p1'') 6 9 due_db = Inr (m, d')"
    using refund_txns_total(1) by blast
  note fx = sent_commit_complete [OF due_ok run]
  have m: "m" using fx due_mem(1) by (force simp: sample_refund_def)
  with fx due_mem(1) have "\<exists>r'\<in>set (refunds d'). rf_id r' = ''ref-x2'' \<and> rf_status r' = ''SENT'' \<and> rf_payment r' = Some ''p1''"
    by (auto simp: sample_refund_def)
  with run m show ?thesis by simp
qed

theorem pay_failure_parks_at_cap_witness:
  "\<exists>oc d'. commit_pay_failure_txn due_row 6 9 True None due_db = Inr (oc, d') \<and> oc = Retried"
proof -
  obtain oc d' where run: "commit_pay_failure_txn due_row 6 9 True None due_db = Inr (oc, d')"
    using refund_txns_total(2) by blast
  from pay_failure_parks_at_cap [OF due_ok due_mem(1) _ _ run] have "oc = Retried"
    by (auto simp: sample_refund_def)
  with run show ?thesis by blast
qed

subsection \<open>Transaction bodies and the store\<close>

text \<open>
  The contract between the store actor and the code it runs: a body that succeeds on a well-formed
  database leaves one. The store then keeps the schema invariant whatever BEGIN and COMMIT answer.
\<close>

locale sound_tx =
  fixes body :: "'a tx"
  assumes body_ok: "db_ok d \<Longrightarrow> body d = Inr (x, d') \<Longrightarrow> db_ok d'"
begin

lemma transaction_then_ok:
  assumes "db_ok (st_db st)" "transaction_then body hook be ce st = (r, st', steps)"
  shows "db_ok (st_db st')"
  using assms body_ok
  by (auto simp: transaction_then_def trip_if_fatal_def split: if_splits option.splits sum.splits prod.splits)

lemma transaction_ok:
  assumes "db_ok (st_db st)" "transaction body be ce st = (r, st')"
  shows "db_ok (st_db st')"
  using assms(2) transaction_then_ok [OF assms(1)] by (auto simp: transaction_def split: prod.splits)

lemma run_tx_ok:
  assumes "db_ok (e_db e)" "run_tx body e = (r, e')"
  shows "db_ok (e_db e')"
  using assms(2) transaction_ok [OF assms(1)] by (auto simp: run_tx_def split: prod.splits)

end

interpretation persist_tx: sound_tx "persist_resolution rid v gen now" for rid v gen now
  by unfold_locales (rule refund_txns_ok(1))

interpretation authorise_tx: sound_tx "authorise_txn rid now p" for rid now p
  by unfold_locales (rule refund_txns_ok(2))

interpretation sent_tx: sound_tx "commit_sent_txn row pid paid now" for row pid paid now
  by unfold_locales (rule refund_txns_ok(3))

interpretation park_tx: sound_tx "commit_park_failed_txn row amount now a" for row amount now a
  by unfold_locales (rule refund_txns_ok(4))

interpretation failure_tx: sound_tx "commit_pay_failure_txn row amount now t a" for row amount now t a
  by unfold_locales (rule refund_txns_ok(5))

interpretation retry_tx: sound_tx "commit_resolution_retry_txn row now" for row now
  by unfold_locales (rule refund_txns_ok(6))

end
