(* ===== verification/Sweep.thy ===== *)
theory Sweep
  imports Refund "HOL-Library.AList"
begin

text \<open>
  The operator's payout, \<open>daemon/src/sweep.rs\<close>: the surplus read from the ledger alone, the one
  transaction that gates a sweep on it and writes its intent, the capped pay with the commits its
  answer leads to, and the crash-recovery drive that resolves or parks every pending intent.

  The backend's sweep operations are the record \<open>B\<close>, beside the refund operations it shares. A
  function that pays also returns the pay calls it made.
\<close>

definition sweep_stuck_alert_s :: int where "sweep_stuck_alert_s = 6 * 3600"

record 'w sweep_backend =
  sb_core :: "'w pay_backend" \<comment> \<open>status by key, \<open>prepare_pay\<close> and the parsers\<close>
  sb_outlay :: "nat \<Rightarrow> nat option \<Rightarrow> 'w \<Rightarrow> (store_error + nat) \<times> 'w" \<comment> \<open>\<open>refund_required_outlay_msat\<close>\<close>
  sb_pay :: "string \<Rightarrow> nat \<Rightarrow> nat \<Rightarrow> string \<Rightarrow> 'w \<Rightarrow> (store_error + string) \<times> 'w"
    \<comment> \<open>\<open>pay_capped\<close>: invoice, amount, cap, key\<close>
  sb_outbound :: "string \<Rightarrow> string \<Rightarrow> 'w \<Rightarrow> (store_error + pay_status option) \<times> 'w"
    \<comment> \<open>\<open>outbound_status_by_ref\<close>\<close>
  sb_hash :: "string \<Rightarrow> string option" \<comment> \<open>the payment hash of an invoice that parses\<close>
  sb_expired :: "string \<Rightarrow> int \<Rightarrow> bool" \<comment> \<open>\<open>would_expire\<close>\<close>

subsection \<open>The surplus\<close>

record surplus =
  su_earned :: nat
  su_reserved :: nat
  su_paid_out :: nat

definition surplus_msat :: "surplus \<Rightarrow> nat" where
  "surplus_msat s = saturating_sub (saturating_sub (su_earned s) (su_reserved s)) (su_paid_out s)"

text \<open>The external id of a refund row, and the whole sats it was received with.\<close>

definition refund_ext_sql :: "refund_attempt \<Rightarrow> string" where
  "refund_ext_sql r =
     (if sql_like ''refund:%'' (rf_key r) then drop 7 (rf_key r)
      else if sql_like ''ref-%'' (rf_id r) then drop 4 (rf_id r)
      else rf_id r)"

definition journal_sat :: "string \<Rightarrow> db \<Rightarrow> int option" where
  "journal_sat ext d =
     sql_max (map (\<lambda>e. json_int ''amount_sat'' (ev_detail e))
       (filter (\<lambda>e. settle_refund_event e \<and> event_ext e = Some ext) (events d)))"

definition refund_received_sat :: "db \<Rightarrow> refund_attempt \<Rightarrow> int option" where
  "refund_received_sat d r =
     (let x = refund_ext_sql r
      in coalesce
           (case List.find (\<lambda>i. inv_ext i = x \<and> receipt_settled i) (invoices d) of
              None \<Rightarrow> None | Some i \<Rightarrow> inv_amount i)
           (coalesce (journal_sat x d) (rf_amount r)))"

text \<open>Each refund row either pays out (SENT) or reserves, at the sats received for it.\<close>

definition refund_reserves :: "db \<Rightarrow> (string \<times> nat) list" where
  "refund_reserves d = List.map_filter
     (\<lambda>r. if rf_status r = ''SENT'' then None
          else map_option (Pair (refund_ext_sql r)) (positive_sat (refund_received_sat d r))) (refunds d)"

definition refund_payouts :: "db \<Rightarrow> nat list" where
  "refund_payouts d = List.map_filter
     (\<lambda>r. if rf_status r = ''SENT'' then map_option (\<lambda>s. s * 1000) (positive_sat (refund_received_sat d r))
          else None) (refunds d)"

definition at_risk_states :: "string list" where
  "at_risk_states = [''PENDING'', ''PROVISIONING'', ''RESUMING'', ''REFUND_DUE'']"

definition at_risk :: "db \<Rightarrow> (string \<times> nat) list" where
  "at_risk d = List.map_filter
     (\<lambda>i. case inv_sub i of
            None \<Rightarrow> None
          | Some s \<Rightarrow>
              (case find_sub s d of
                 None \<Rightarrow> None
               | Some q \<Rightarrow>
                   if receipt_settled i \<and> sub_state q \<in> set at_risk_states
                   then map_option (Pair (inv_ext i)) (positive_sat (inv_amount i)) else None)) (invoices d)"

text \<open>The map \<open>reserved\<close>, filled by \<open>insert\<close> in this order: one entry per external id.\<close>

definition reserved_map :: "db \<Rightarrow> (string \<times> nat) list" where
  "reserved_map d = fold (\<lambda>(k, v). AList.update k v) (refund_reserves d @ at_risk d) []"

definition reserved_total :: "db \<Rightarrow> nat" where
  "reserved_total d = sum_list (map (\<lambda>p. snd p * 1000) (reserved_map d))"

definition sweep_payouts :: "string option \<Rightarrow> db \<Rightarrow> nat list" where
  "sweep_payouts exclude d =
     map (\<lambda>w. nat (sw_max_outlay w)) (filter (\<lambda>w. sweep_counts w \<and> Some (sw_id w) \<noteq> exclude) (sweeps d))"

definition read_surplus :: "string option \<Rightarrow> db \<Rightarrow> store_error + surplus" where
  "read_surplus exclude d =
     (case sum_receipts_msat d of
        Inl e \<Rightarrow> Inl e
      | Inr earned \<Rightarrow> Inr \<lparr>su_earned = earned, su_reserved = reserved_total d,
          su_paid_out = fold (\<lambda>v acc. saturating_add_u128 acc v) (refund_payouts d @ sweep_payouts exclude d) 0\<rparr>)"

subsection \<open>Errors and results\<close>

datatype sweep_error =
    SwInvalid string
  | SwUnpriceable string
  | SwBusy string
  | SwInsufficient string
  | SwFeeRose string
  | SwInFlight string
  | SwFenced string
  | SwInternal store_error

fun sweep_code :: "sweep_error \<Rightarrow> string" where
  "sweep_code (SwInvalid _) = ''sweep_invalid''"
| "sweep_code (SwUnpriceable _) = ''sweep_unpriceable''"
| "sweep_code (SwBusy _) = ''sweep_busy''"
| "sweep_code (SwInsufficient _) = ''sweep_insufficient''"
| "sweep_code (SwFeeRose _) = ''sweep_fee_rose''"
| "sweep_code (SwInFlight _) = ''sweep_in_flight''"
| "sweep_code (SwFenced _) = ''sweep_fenced''"
| "sweep_code (SwInternal _) = ''internal''"

text \<open>The text \<open>{e:#}\<close> prints: the contexts joined by colons.\<close>

fun err_text :: "store_error \<Rightarrow> string" where
  "err_text (Bail m) = m"
| "err_text (Context c e) = c @ '': '' @ err_text e"
| "err_text (ConstraintViolation c) = ''UNIQUE constraint failed: '' @ c"
| "err_text (NoHeldReservation i n) = ''reservation for order '' @ i"
| "err_text OutOfRange = ''out of range''"
| "err_text (Sqlite _) = ''database error''"
| "err_text Degraded = ''store is degraded''"

fun sweep_message :: "sweep_error \<Rightarrow> string" where
  "sweep_message (SwInvalid m) = m"
| "sweep_message (SwUnpriceable m) = m"
| "sweep_message (SwBusy m) = m"
| "sweep_message (SwInsufficient m) = m"
| "sweep_message (SwFeeRose m) = m"
| "sweep_message (SwInFlight m) = m"
| "sweep_message (SwFenced m) = m"
| "sweep_message (SwInternal e) = err_text e"

record quote_view =
  qv_amount :: nat
  qv_outlay :: nat
  qv_surplus :: surplus
  qv_allow :: bool

record exec_outcome =
  xo_id :: string
  xo_amount :: nat
  xo_outlay :: nat
  xo_status :: string
  xo_payment :: "string option"
  xo_cached :: bool

datatype sweep_pay = PaidOut "string option" | PayoutFailed string | PayoutPending

datatype gate_decision = GateSent exec_outcome | GateFenced | GateBusy | GateInsufficient surplus | GateProceed

record sweep_call =
  sc_bolt11 :: string
  sc_sat :: nat
  sc_cap :: nat
  sc_key :: string

record pending_sweep =
  ps_id :: string
  ps_bolt11 :: "string option"
  ps_amount :: nat
  ps_outlay :: nat
  ps_created :: int
  ps_fence :: "int option"

subsection \<open>The invoice\<close>

definition parse_sweep_invoice :: "'w sweep_backend \<Rightarrow> string \<Rightarrow> int \<Rightarrow> sweep_error + string \<times> nat" where
  "parse_sweep_invoice B b now =
     (case sb_hash B b of
        None \<Rightarrow> Inl (SwInvalid ''bolt11 parse error'')
      | Some h \<Rightarrow>
          (case parse_whole_sat (pb_net (sb_core B)) b of
             Inl m \<Rightarrow> Inl (SwInvalid m)
           | Inr sat \<Rightarrow>
               if sat = 0 then Inl (SwInvalid ''zero-amount invoice; a sweep needs an amount'')
               else if sb_expired B b (max now 0) then Inl (SwInvalid ''invoice has expired; re-issue a fresh one'')
               else Inr (h, sat)))"

definition payment_hash_of :: "string \<Rightarrow> string" where
  "payment_hash_of i = unwrap_or (strip_prefix ''sweep:'' i) i"

subsection \<open>The transactions\<close>

definition journal_sweep :: "json \<Rightarrow> int \<Rightarrow> db \<Rightarrow> db" where
  "journal_sweep detail now d = insert_event None ''sweep'' detail now d"

definition find_sweep :: "string \<Rightarrow> db \<Rightarrow> sweep_attempt option" where
  "find_sweep i d = List.find (\<lambda>w. sw_id w = i) (sweeps d)"

definition upsert_sweep :: "string \<Rightarrow> string \<Rightarrow> int \<Rightarrow> int \<Rightarrow> int \<Rightarrow> db \<Rightarrow> db" where
  "upsert_sweep i b amount outlay now d =
     d\<lparr>sweeps :=
       (if find_sweep i d = None
        then sweeps d @ [\<lparr>sw_id = i, sw_bolt11 = Some b, sw_amount = Some amount, sw_max_outlay = outlay,
               sw_status = ''PENDING'', sw_attempts = 0, sw_payment = None, sw_error = None, sw_created = now,
               sw_sent = None, sw_fence = None\<rparr>]
        else update_where (\<lambda>w. sw_id w = i)
               (\<lambda>w. w\<lparr>sw_bolt11 := Some b, sw_amount := Some amount, sw_max_outlay := outlay,
                      sw_status := ''PENDING'', sw_attempts := 0, sw_payment := None, sw_error := None,
                      sw_created := now, sw_sent := None\<rparr>) (sweeps d))\<rparr>"

text \<open>The gate of an existing row, the one-in-flight rule, the surplus test, the durable intent.\<close>

definition gate_and_write_txn ::
  "string \<Rightarrow> string \<Rightarrow> string \<Rightarrow> nat \<Rightarrow> nat \<Rightarrow> int \<Rightarrow> store_error + 'w \<Rightarrow> gate_decision tx" where
  "gate_and_write_txn i b hash amount outlay now persisted d =
     (let write =
        (if 0 < count_where (\<lambda>w. sw_status w = ''PENDING'') (sweeps d) then Inr (GateBusy, d)
         else (case read_surplus None d of
           Inl e \<Rightarrow> Inl e
         | Inr s \<Rightarrow>
             if surplus_msat s < outlay then Inr (GateInsufficient s, d)
             else (case persisted of
               Inl e \<Rightarrow> Inl e
             | Inr _ \<Rightarrow> Inr (GateProceed, journal_sweep
                 (JObj [(''payment_hash'', JStr hash), (''phase'', JStr ''intent''),
                        (''amount_sat'', JInt (int amount)), (''max_outlay_msat'', JInt (int outlay))]) now
                 (upsert_sweep i b (int amount) (int outlay) now d)))))
      in if 2 ^ 63 \<le> outlay then Inl (Bail ''outlay exceeds the i64 ledger range'')
         else if 2 ^ 63 \<le> amount then Inl (Bail ''amount exceeds the i64 ledger range'')
         else (case find_sweep i d of
           None \<Rightarrow> write
         | Some w \<Rightarrow>
             if sw_fence w \<noteq> None then Inr (GateFenced, d)
             else if sw_status w = ''SENT'' then
               Inr (GateSent \<lparr>xo_id = i, xo_amount = nat (unwrap_or (sw_amount w) 0), xo_outlay = nat (sw_max_outlay w),
                      xo_status = ''SENT'', xo_payment = sw_payment w, xo_cached = True\<rparr>, d)
             else if sw_status w = ''PENDING'' then Inr (GateBusy, d)
             else write))"

definition sweep_authorise_txn :: "string \<Rightarrow> store_error + 'w \<Rightarrow> bool tx" where
  "sweep_authorise_txn i persisted d =
     (if count_where (\<lambda>w. sw_id w = i \<and> sw_status w = ''PENDING'' \<and> sw_fence w = None) (sweeps d) = 0
      then Inr (False, d)
      else (case persisted of Inl e \<Rightarrow> Inl e | Inr _ \<Rightarrow> Inr (True, d)))"

definition sweep_sent_txn :: "string \<Rightarrow> string \<Rightarrow> string option \<Rightarrow> int \<Rightarrow> bool tx" where
  "sweep_sent_txn i hash pid now d =
     (let P = (\<lambda>w. sw_id w = i \<and> sw_status w \<in> {''PENDING'', ''FAILED''})
      in if count_where P (sweeps d) = 0 then Inr (False, d)
         else Inr (True, journal_sweep (JObj [(''payment_hash'', JStr hash), (''phase'', JStr ''sent'')]) now
           (d\<lparr>sweeps := update_where P (\<lambda>w. w\<lparr>sw_status := ''SENT'', sw_payment := coalesce pid (sw_payment w),
                 sw_attempts := sw_attempts w + 1, sw_sent := Some now, sw_error := None\<rparr>) (sweeps d)\<rparr>)))"

definition sweep_failed_txn :: "string \<Rightarrow> string \<Rightarrow> int \<Rightarrow> string \<Rightarrow> alert_row option \<Rightarrow> bool tx" where
  "sweep_failed_txn i hash now reason alert d =
     (let P = (\<lambda>w. sw_id w = i \<and> sw_status w = ''PENDING'')
      in if count_where P (sweeps d) = 0 then Inr (False, d)
         else Inr (True, alert_if_any alert now
           (journal_sweep (JObj [(''payment_hash'', JStr hash), (''phase'', JStr ''failed''), (''reason'', JStr reason)]) now
             (d\<lparr>sweeps := update_where P (\<lambda>w. w\<lparr>sw_status := ''FAILED'', sw_attempts := sw_attempts w + 1,
                   sw_error := Some reason\<rparr>) (sweeps d)\<rparr>))))"

definition pending_sweeps :: "db \<Rightarrow> pending_sweep list" where
  "pending_sweeps d = map
     (\<lambda>w. \<lparr>ps_id = sw_id w, ps_bolt11 = sw_bolt11 w, ps_amount = nat (unwrap_or (sw_amount w) 0),
           ps_outlay = nat (sw_max_outlay w), ps_created = sw_created w, ps_fence = sw_fence w\<rparr>)
     (sort_key (\<lambda>w. (sw_created w, sw_id w)) (filter (\<lambda>w. sw_status w = ''PENDING'') (sweeps d)))"

subsection \<open>Paying\<close>

definition sweep_alert :: "'w sweep_backend \<Rightarrow> alert_kind \<Rightarrow> string \<Rightarrow> string \<Rightarrow> int \<Rightarrow> 'w env \<Rightarrow> 'w env" where
  "sweep_alert B k subject detail now e =
     (case e_alerts e of
        None \<Rightarrow> e
      | Some p \<Rightarrow>
          (case dispatch (n_digest (pb_net (sb_core B))) (if st_degraded (e_store e) then Some Degraded else None) now
                  \<lparr>al_kind = k, al_subject = subject, al_detail = detail\<rparr> (p, e_db e)
           of (_, p', d') \<Rightarrow> e\<lparr>e_alerts := Some p', e_store := (e_store e)\<lparr>st_db := d'\<rparr>\<rparr>))"

definition sweep_alert_stuck :: "'w sweep_backend \<Rightarrow> pending_sweep \<Rightarrow> int \<Rightarrow> string \<Rightarrow> 'w env \<Rightarrow> 'w env" where
  "sweep_alert_stuck B row now reason e =
     (let age = now - ps_created row
      in if age < sweep_stuck_alert_s then e
         else sweep_alert B SweepStuck (ps_id row)
           (''operator sweep '' @ ps_id row @ '' stuck PENDING '' @ int_str age @ ''s without progress ('' @ reason @ '')'') now e)"

definition sweep_sent :: "string \<Rightarrow> string \<Rightarrow> string option \<Rightarrow> int \<Rightarrow> 'w env \<Rightarrow> (store_error + bool) \<times> 'w env" where
  "sweep_sent i hash pid now e = run_tx (sweep_sent_txn i hash pid now) e"

definition sweep_failed :: "'w sweep_backend \<Rightarrow> string \<Rightarrow> string \<Rightarrow> int \<Rightarrow> string \<Rightarrow> 'w env \<Rightarrow> (store_error + bool) \<times> 'w env" where
  "sweep_failed B i hash now reason e =
     run_tx (sweep_failed_txn i hash now reason
       (case e_alerts e of None \<Rightarrow> None
        | Some p \<Rightarrow> terminal_alert_row (n_digest (pb_net (sb_core B))) SweepFailed i
            (''operator sweep '' @ i @ '' parked FAILED: '' @ reason) p)) e"

text \<open>\<open>status_after_error\<close> and \<open>recovery_status\<close>: a failed lookup is \<open>Unknown\<close>.\<close>

definition sweep_status :: "'w sweep_backend \<Rightarrow> string \<Rightarrow> 'w env \<Rightarrow> pay_status \<times> 'w env" where
  "sweep_status B key e =
     (case attempt_pay_status (sb_core B) key e of (Inl _, e') \<Rightarrow> (PayUnknown, e') | (Inr s, e') \<Rightarrow> (s, e'))"

text \<open>Record an outcome, keeping the first error.\<close>

definition concluded :: "sweep_pay \<Rightarrow> (store_error + bool) \<times> 'w env \<Rightarrow> (store_error + sweep_pay) \<times> 'w env" where
  "concluded r res = (case res of (Inl err, e) \<Rightarrow> (Inl err, e) | (Inr _, e) \<Rightarrow> (Inr r, e))"

definition capped_pay ::
  "'w sweep_backend \<Rightarrow> string \<Rightarrow> string \<Rightarrow> string \<Rightarrow> nat \<Rightarrow> nat \<Rightarrow> int \<Rightarrow> 'w env
     \<Rightarrow> (store_error + sweep_pay) \<times> 'w env" where
  "capped_pay B i b hash amount outlay now e =
     (case on_world (sb_pay B b amount outlay i) e of
        (Inr pid, e1) \<Rightarrow> concluded (PaidOut (Some pid)) (sweep_sent i hash (Some pid) now e1)
      | (Inl err, e1) \<Rightarrow>
          (case sweep_status B i e1 of
             (PaySucceeded, e2) \<Rightarrow> concluded (PaidOut None) (sweep_sent i hash None now e2)
           | (PayFailed, e2) \<Rightarrow>
               (let reason = ''capped sweep pay refused: '' @ err_text err
                in concluded (PayoutFailed reason) (sweep_failed B i hash now reason e2))
           | (_, e2) \<Rightarrow> (Inr PayoutPending, e2)))"

definition quote_outlay :: "'w sweep_backend \<Rightarrow> nat \<Rightarrow> 'w env \<Rightarrow> (sweep_error + nat) \<times> 'w env" where
  "quote_outlay B amount e =
     (case on_world (sb_outlay B amount (Some amount)) e of
        (Inl err, e') \<Rightarrow> (Inl (SwUnpriceable (''gateway could not price the sweep: '' @ err_text err)), e')
      | (Inr v, e') \<Rightarrow> (Inr v, e'))"

definition sweep_quote :: "'w sweep_backend \<Rightarrow> string \<Rightarrow> int \<Rightarrow> 'w env \<Rightarrow> (sweep_error + quote_view) \<times> 'w env" where
  "sweep_quote B b now e =
     (case parse_sweep_invoice B b now of
        Inl err \<Rightarrow> (Inl err, e)
      | Inr (_, amount) \<Rightarrow>
          (case quote_outlay B amount e of
             (Inl err, e1) \<Rightarrow> (Inl err, e1)
           | (Inr outlay, e1) \<Rightarrow>
               (case read_surplus None (e_db e1) of
                  Inl err \<Rightarrow> (Inl (SwInternal err), e1)
                | Inr s \<Rightarrow> (Inr \<lparr>qv_amount = amount, qv_outlay = outlay, qv_surplus = s,
                             qv_allow = (outlay \<le> surplus_msat s)\<rparr>, e1))))"

definition sweep_execute ::
  "'w sweep_backend \<Rightarrow> string \<Rightarrow> int \<Rightarrow> 'w env \<Rightarrow> (sweep_error + exec_outcome) \<times> 'w env \<times> sweep_call list" where
  "sweep_execute B b now e =
     (case parse_sweep_invoice B b now of
        Inl err \<Rightarrow> (Inl err, e, [])
      | Inr (hash, amount) \<Rightarrow>
          (let i = ''sweep:'' @ hash
           in case quote_outlay B amount e of
                (Inl err, e1) \<Rightarrow> (Inl err, e1, [])
              | (Inr outlay, e1) \<Rightarrow>
                  if 2 ^ 63 \<le> amount \<or> 2 ^ 63 \<le> outlay
                  then (Inl (SwInvalid ''invoice amount or outlay exceeds the ledger's representable range''), e1, [])
                  else
                    (case on_world (pb_prepare (sb_core B) i b) e1 of
                       (Inl err, e2) \<Rightarrow>
                           (Inl (SwUnpriceable (''backend could not prepare the sweep: '' @ err_text err)), e2, [])
                     | (Inr persist, e2) \<Rightarrow>
                         (case run_prepared persist (gate_and_write_txn i b hash amount outlay now)
                                 (\<lambda>g. g = GateProceed) e2 of
                            (Inl err, e3) \<Rightarrow> (Inl (SwInternal err), e3, [])
                          | (Inr (GateSent x), e3) \<Rightarrow> (Inr x, e3, [])
                          | (Inr GateFenced, e3) \<Rightarrow> (Inl (SwFenced (''sweep '' @ i @ '' is fenced migration_unverified'')), e3, [])
                          | (Inr GateBusy, e3) \<Rightarrow> (Inl (SwBusy ''another sweep is already in flight; only one at a time''), e3, [])
                          | (Inr (GateInsufficient s), e3) \<Rightarrow>
                              (Inl (SwInsufficient (''ledger surplus '' @ nat_str (surplus_msat s)
                                 @ '' msat is below the required '' @ nat_str outlay @ '' msat outlay'')), e3, [])
                          | (Inr GateProceed, e3) \<Rightarrow>
                              (case capped_pay B i b hash amount outlay now e3 of
                                 (r, e4) \<Rightarrow>
                                   ((case r of
                                       Inl err \<Rightarrow> Inl (SwInternal err)
                                     | Inr (PaidOut pid) \<Rightarrow> Inr \<lparr>xo_id = i, xo_amount = amount, xo_outlay = outlay,
                                         xo_status = ''SENT'', xo_payment = pid, xo_cached = False\<rparr>
                                     | Inr (PayoutFailed reason) \<Rightarrow> Inl (SwFeeRose reason)
                                     | Inr PayoutPending \<Rightarrow> Inl (SwInFlight ''sweep pay is in-flight but unconfirmed'')),
                                    e4, [\<lparr>sc_bolt11 = b, sc_sat = amount, sc_cap = outlay, sc_key = i\<rparr>]))))))"

subsection \<open>Recovery\<close>

definition sweep_authorise :: "'w sweep_backend \<Rightarrow> string \<Rightarrow> string \<Rightarrow> 'w env \<Rightarrow> (store_error + bool) \<times> 'w env" where
  "sweep_authorise B i b e =
     (case on_world (pb_prepare (sb_core B) i b) e of
        (Inl err, e1) \<Rightarrow> (Inl err, e1)
      | (Inr persist, e1) \<Rightarrow> run_prepared persist (sweep_authorise_txn i) (\<lambda>ok. ok) e1)"

text \<open>\<open>Inr None\<close>: the row is parked, still PENDING.\<close>

definition resolve_or_park ::
  "'w sweep_backend \<Rightarrow> pending_sweep \<Rightarrow> string \<Rightarrow> string \<Rightarrow> string \<Rightarrow> string \<Rightarrow> int \<Rightarrow> 'w env
     \<Rightarrow> (store_error + sweep_pay option) \<times> 'w env" where
  "resolve_or_park B row b hash context terminal now e =
     (let park = (\<lambda>verdict e1. (Inr None, sweep_alert_stuck B row now (context @ ''; '' @ verdict) e1))
      in case on_world (sb_outbound B hash b) e of
           (Inr (Some PaySucceeded), e1) \<Rightarrow>
             (case concluded (PaidOut None) (sweep_sent (ps_id row) hash None now e1) of
                (Inl err, e2) \<Rightarrow> (Inl err, e2) | (Inr r, e2) \<Rightarrow> (Inr (Some r), e2))
         | (Inr (Some PayFailed), e1) \<Rightarrow>
             (case concluded (PayoutFailed terminal) (sweep_failed B (ps_id row) hash now terminal e1) of
                (Inl err, e2) \<Rightarrow> (Inl err, e2) | (Inr r, e2) \<Rightarrow> (Inr (Some r), e2))
         | (Inr (Some PayPending), e1) \<Rightarrow> park ''the backend reports its payment still in flight'' e1
         | (Inr _, e1) \<Rightarrow> park ''the backend cannot confirm whether it paid'' e1
         | (Inl _, e1) \<Rightarrow> park ''the backend probe failed, so whether it paid is unknown'' e1)"

text \<open>The arm of \<open>drive\<close> for a key the backend has no row of; the calls are the pays it made.\<close>

definition restart_sweep ::
  "'w sweep_backend \<Rightarrow> pending_sweep \<Rightarrow> string \<Rightarrow> string \<Rightarrow> int \<Rightarrow> 'w env
     \<Rightarrow> (store_error + sweep_pay option) \<times> 'w env \<times> sweep_call list" where
  "restart_sweep B row b hash now e =
     (case parse_sweep_invoice B b now of
        Inl err \<Rightarrow>
          (case resolve_or_park B row b hash
                  (''stored intent is no longer payable during recovery ('' @ sweep_message err @ '')'')
                  (''intent no longer payable during recovery: '' @ sweep_message err) now e of
             (r, e1) \<Rightarrow> (r, e1, []))
      | Inr _ \<Rightarrow>
          (case read_surplus (Some (ps_id row)) (e_db e) of
             Inl err \<Rightarrow> (Inl err, e, [])
           | Inr s \<Rightarrow>
               if ps_outlay row \<le> surplus_msat s then
                 (case sweep_authorise B (ps_id row) b e of
                    (Inl err, e1) \<Rightarrow> (Inl err, e1, [])
                  | (Inr False, e1) \<Rightarrow> (Inr None, e1, [])
                  | (Inr True, e1) \<Rightarrow>
                      (case capped_pay B (ps_id row) b hash (ps_amount row) (ps_outlay row) now e1 of
                         (r, e2) \<Rightarrow> (map_sum id Some r, e2,
                           [\<lparr>sc_bolt11 = b, sc_sat = ps_amount row, sc_cap = ps_outlay row, sc_key = ps_id row\<rparr>])))
               else (case resolve_or_park B row b hash
                       (''surplus '' @ nat_str (surplus_msat s) @ '' msat (excl. this sweep) no longer covers the committed ''
                          @ nat_str (ps_outlay row) @ '' msat cap'')
                       (''superseded_by_liability: surplus '' @ nat_str (surplus_msat s)
                          @ '' msat (excl. this sweep) fell below the committed '' @ nat_str (ps_outlay row) @ '' msat cap'')
                       now e of (r, e1) \<Rightarrow> (r, e1, []))))"

record sweep_report =
  sr_sent :: nat
  sr_failed :: nat
  sr_pending :: nat

definition settle_row ::
  "'w sweep_backend \<Rightarrow> pending_sweep \<Rightarrow> string \<Rightarrow> int \<Rightarrow> 'w env
     \<Rightarrow> (store_error + sweep_pay option) \<times> 'w env \<times> sweep_call list" where
  "settle_row B row b now e =
     (let hash = payment_hash_of (ps_id row)
      in case sweep_status B (ps_id row) e of
           (PaySucceeded, e1) \<Rightarrow>
             (case concluded (PaidOut None) (sweep_sent (ps_id row) hash None now e1) of
                (r, e2) \<Rightarrow> (map_sum id Some r, e2, []))
         | (PayPending, e1) \<Rightarrow>
             (case capped_pay B (ps_id row) b hash (ps_amount row) (ps_outlay row) now e1 of
                (r, e2) \<Rightarrow> (map_sum id Some r, e2,
                  [\<lparr>sc_bolt11 = b, sc_sat = ps_amount row, sc_cap = ps_outlay row, sc_key = ps_id row\<rparr>]))
         | (PayFailed, e1) \<Rightarrow>
             (let reason = ''backend payment key is FAILED before the sweep ledger terminalized''
              in case concluded (PayoutFailed reason) (sweep_failed B (ps_id row) hash now reason e1) of
                   (r, e2) \<Rightarrow> (map_sum id Some r, e2, []))
         | (PayUnknown, e1) \<Rightarrow> restart_sweep B row b hash now e1)"

definition drive_sweep ::
  "'w sweep_backend \<Rightarrow> int \<Rightarrow> pending_sweep \<Rightarrow> sweep_report \<Rightarrow> 'w env
     \<Rightarrow> (store_error + sweep_report) \<times> 'w env \<times> sweep_call list" where
  "drive_sweep B now row rep e =
     (let waiting = rep\<lparr>sr_pending := sr_pending rep + 1\<rparr>
      in if ps_fence row \<noteq> None
         then (Inr waiting, sweep_alert_stuck B row now ''fenced migration_unverified; needs the operator'' e, [])
         else (case ps_bolt11 row of
           None \<Rightarrow> (Inr waiting, sweep_alert_stuck B row now ''no bolt11; needs manual handling'' e, [])
         | Some b \<Rightarrow>
             (case settle_row B row b now e of
                (Inl err, e1, cs) \<Rightarrow> (Inl err, e1, cs)
              | (Inr None, e1, cs) \<Rightarrow> (Inr waiting, e1, cs)
              | (Inr (Some (PaidOut _)), e1, cs) \<Rightarrow> (Inr (rep\<lparr>sr_sent := sr_sent rep + 1\<rparr>), e1, cs)
              | (Inr (Some (PayoutFailed _)), e1, cs) \<Rightarrow> (Inr (rep\<lparr>sr_failed := sr_failed rep + 1\<rparr>), e1, cs)
              | (Inr (Some PayoutPending), e1, cs) \<Rightarrow>
                  (Inr waiting, sweep_alert_stuck B row now ''ambiguous pay not progressing'' e1, cs))))"

fun drive_sweeps ::
  "'w sweep_backend \<Rightarrow> int \<Rightarrow> pending_sweep list \<Rightarrow> sweep_report \<Rightarrow> 'w env
     \<Rightarrow> (store_error + sweep_report) \<times> 'w env \<times> sweep_call list" where
  "drive_sweeps B now [] rep e = (Inr rep, e, [])"
| "drive_sweeps B now (row # rows) rep e =
     (case drive_sweep B now row rep e of
        (Inl err, e1, cs) \<Rightarrow> (Inl err, e1, cs)
      | (Inr rep1, e1, cs) \<Rightarrow> (case drive_sweeps B now rows rep1 e1 of (r, e2, cs') \<Rightarrow> (r, e2, cs @ cs')))"

definition sweep_drive ::
  "'w sweep_backend \<Rightarrow> int \<Rightarrow> 'w env \<Rightarrow> (store_error + sweep_report) \<times> 'w env \<times> sweep_call list" where
  "sweep_drive B now e = drive_sweeps B now (pending_sweeps (e_db e)) \<lparr>sr_sent = 0, sr_failed = 0, sr_pending = 0\<rparr> e"

subsection \<open>The money view\<close>

definition last_sweep :: "db \<Rightarrow> sweep_attempt option" where
  "last_sweep d =
     (case rev (sort_key (\<lambda>w. (unwrap_or (sw_sent w) (sw_created w), sw_id w)) (sweeps d)) of
        [] \<Rightarrow> None | w # _ \<Rightarrow> Some w)"

definition sweep_json :: "sweep_attempt \<Rightarrow> json" where
  "sweep_json w = JObj [(''id'', JStr (sw_id w)), (''status'', JStr (sw_status w)),
     (''amount_sat'', json_of_int (sw_amount w)), (''max_outlay_msat'', JInt (sw_max_outlay w)),
     (''created_at'', JInt (sw_created w)), (''sent_at'', json_of_int (sw_sent w))]"

definition money_sweep_view :: "db \<Rightarrow> store_error + json" where
  "money_sweep_view d =
     (case read_surplus None d of
        Inl e \<Rightarrow> Inl e
      | Inr s \<Rightarrow>
          (let fenced = sort_key sw_id (filter (\<lambda>w. sw_fence w \<noteq> None) (sweeps d))
           in if \<exists>w\<in>set fenced. sw_bolt11 w = None then Inl (Bail ''invalid column type'')
              else Inr (JObj
                [(''earned_msat'', JInt (int (su_earned s))), (''reserved_msat'', JInt (int (su_reserved s))),
                 (''paid_out_msat'', JInt (int (su_paid_out s))), (''surplus_msat'', JInt (int (surplus_msat s))),
                 (''last_sweep'', case last_sweep d of None \<Rightarrow> JNull | Some w \<Rightarrow> sweep_json w),
                 (''migration_fenced_refunds'', JInt (int (count_where (\<lambda>r. rf_fence r \<noteq> None) (refunds d)))),
                 (''migration_fenced_sweeps'', JInt (int (length fenced))),
                 (''migration_fenced_sweep_ids'', JArr (map (\<lambda>w. JObj [(''id'', JStr (sw_id w)),
                    (''status'', JStr (sw_status w)), (''bolt11'', json_of_text (sw_bolt11 w))]) fenced))])))"

end
