(* ===== verification/Preflight.thy ===== *)
theory Preflight
  imports Recipe Schema
begin

text \<open>
  \<open>lnrent preflight\<close>, \<open>daemon/src/preflight.rs\<close>, with the probe types of \<open>daemon/src/backends.rs\<close>: one
  check per external dependency, the class each failure carries, and the report. What the backend, the
  provider's API and a recipe's hook answer to a probe are parameters; a probe that does not answer
  within its bound is \<open>TimedOut\<close>.
\<close>

datatype failure_class = Structural | Reachability

record preflight_check =
  pf_name :: string
  pf_ok :: bool
  pf_detail :: string
  pf_class :: "failure_class option"

definition check_pass :: "string \<Rightarrow> string \<Rightarrow> preflight_check" where
  "check_pass name detail = \<lparr>pf_name = name, pf_ok = True, pf_detail = detail, pf_class = None\<rparr>"

definition check_fail :: "string \<Rightarrow> string \<Rightarrow> failure_class \<Rightarrow> preflight_check" where
  "check_fail name detail cls = \<lparr>pf_name = name, pf_ok = False, pf_detail = detail, pf_class = Some cls\<rparr>"

definition fail_structural :: "string \<Rightarrow> string \<Rightarrow> preflight_check" where
  "fail_structural name detail = check_fail name detail Structural"

definition fail_reachability :: "string \<Rightarrow> string \<Rightarrow> preflight_check" where
  "fail_reachability name detail = check_fail name detail Reachability"

datatype 'a answer = TimedOut | Failed string | Answered 'a

datatype lnv2_probe =
    Lnv2Healthy
  | Lnv2NotApplicable
  | GuardiansUnreachable string
  | ModuleAbsent
  | GatewayAbsent
  | GatewayUnreachable string

datatype phoenixd_probe =
    PhNotApplicable
  | PhReady string string nat nat \<comment> \<open>version, verified version, balance, fee credit\<close>
  | PhUnreachable string
  | PhAuthRejected nat
  | PhBalanceUnavailable string
  | PhVersionMismatch string string

record probes =
  pr_gateway :: "bool answer"
  pr_federation :: "bool answer"
  pr_lnv2 :: "lnv2_probe answer"
  pr_phoenixd :: "phoenixd_probe answer"
  pr_account :: "string \<Rightarrow> string + nat"
  pr_exists :: "path \<Rightarrow> bool"
  pr_hook :: "recipe \<Rightarrow> string + json"

definition readiness_timeout :: string where "readiness_timeout = ''15s''"
definition do_token_env :: string where "do_token_env = ''DO_TOKEN''"

subsection \<open>The readiness probes\<close>

definition gateway_check :: "probes \<Rightarrow> preflight_check" where
  "gateway_check P =
     (let name = ''gateway'' in
      case pr_gateway P of
        Answered True \<Rightarrow> check_pass name ''refund gateway reachable''
      | Answered False \<Rightarrow> fail_reachability name ''no configured gateway is reachable (backend reports not-ready)''
      | Failed e \<Rightarrow> fail_reachability name (''gateway probe failed: '' @ e)
      | TimedOut \<Rightarrow> fail_reachability name (''gateway probe timed out after '' @ readiness_timeout))"

definition federation_check :: "probes \<Rightarrow> preflight_check" where
  "federation_check P =
     (let name = ''federation'' in
      case pr_federation P of
        Answered True \<Rightarrow> check_pass name ''federation guardians reachable''
      | Answered False \<Rightarrow> fail_reachability name ''federation guardians unreachable (backend reports not-ready)''
      | Failed e \<Rightarrow> fail_reachability name (''federation probe failed: '' @ e)
      | TimedOut \<Rightarrow> fail_reachability name (''federation probe timed out after '' @ readiness_timeout))"

definition lnv2_check :: "probes \<Rightarrow> preflight_check" where
  "lnv2_check P =
     (let name = ''lnv2'' in
      case pr_lnv2 P of
        Answered Lnv2Healthy \<Rightarrow> check_pass name ''lnv2 module present and an lnv2 gateway is reachable''
      | Answered Lnv2NotApplicable \<Rightarrow> check_pass name ''skipped (backend has no lnv2 money path)''
      | Answered (GuardiansUnreachable e) \<Rightarrow> fail_reachability name (''federation guardians unreachable: '' @ e)
      | Answered ModuleAbsent \<Rightarrow>
          fail_structural name ''federation has no lnv2 module (join an lnv2-enabled federation)''
      | Answered GatewayAbsent \<Rightarrow>
          fail_reachability name ''lnv2 module present but no lnv2 gateway is attached to the federation''
      | Answered (GatewayUnreachable e) \<Rightarrow> fail_reachability name (''lnv2 gateway attached but unreachable: '' @ e)
      | Failed e \<Rightarrow> fail_reachability name (''lnv2 probe failed: '' @ e)
      | TimedOut \<Rightarrow> fail_reachability name (''lnv2 probe timed out after '' @ readiness_timeout))"

subsection \<open>phoenixd\<close>

text \<open>\<open>safe_phoenixd_version\<close>: three runs of digits, then an optional hexadecimal build.\<close>

definition is_hex :: "char \<Rightarrow> bool" where
  "is_hex c = (let n = of_char c :: nat in is_digit c \<or> (65 \<le> n \<and> n \<le> 70) \<or> (97 \<le> n \<and> n \<le> 102))"

definition is_graphic :: "char \<Rightarrow> bool" where
  "is_graphic c = (let n = of_char c :: nat in 33 \<le> n \<and> n \<le> 126)"

fun split_once :: "char \<Rightarrow> string \<Rightarrow> (string \<times> string) option" where
  "split_once d [] = None"
| "split_once d (c # cs) = (if c = d then Some ([], cs) else map_option (apfst ((#) c)) (split_once d cs))"

fun split_char :: "char \<Rightarrow> string \<Rightarrow> string list" where
  "split_char d [] = [[]]"
| "split_char d (c # cs) =
     (if c = d then [] # split_char d cs
      else (case split_char d cs of [] \<Rightarrow> [[c]] | p # ps \<Rightarrow> (c # p) # ps))"

definition safe_phoenixd_version :: "string \<Rightarrow> string option \<Rightarrow> string option" where
  "safe_phoenixd_version v password =
     (if v = [] \<or> 64 < length v \<or> (case password of None \<Rightarrow> False | Some s \<Rightarrow> s \<noteq> [] \<and> contains_text s v) then None
      else let (release, build) = (case split_once CHR ''-'' v of Some (r, b) \<Rightarrow> (r, Some b) | None \<Rightarrow> (v, None));
               parts = split_char CHR ''.'' release
           in if length parts = 3 \<and> list_all (\<lambda>p. p \<noteq> [] \<and> list_all is_digit p) parts \<and>
                 (case build of None \<Rightarrow> True | Some h \<Rightarrow> 6 \<le> length h \<and> length h \<le> 40 \<and> list_all is_hex h)
              then Some v else None)"

definition redacted_phoenixd_version :: string where
  "redacted_phoenixd_version = ''<redacted untrusted version>''"

definition unprintable_configured_version :: string where
  "unprintable_configured_version = ''<unprintable configured version>''"

definition configured_version :: "string \<Rightarrow> string" where
  "configured_version v =
     (if v \<noteq> [] \<and> length v \<le> 64 \<and> list_all is_graphic v then v else unprintable_configured_version)"

definition shown_version :: "string \<Rightarrow> string" where
  "shown_version v = unwrap_or (safe_phoenixd_version v None) redacted_phoenixd_version"

definition fee_credit_note :: "nat \<Rightarrow> string" where
  "fee_credit_note n =
     (if 0 < n then ''; NOTE fee credit '' @ nat_str n @ '' sat is NOT spendable '' @ em_dash @ '' phoenixd counted it '' @
        ''in receivedSat but balanceSat cannot pay it out, so that much of what was '' @
        ''received cannot fund a refund (not a failure)'' else [])"

fun phoenixd_check_from_probe :: "phoenixd_probe \<Rightarrow> preflight_check option" where
  "phoenixd_check_from_probe PhNotApplicable = None"
| "phoenixd_check_from_probe (PhReady v verified balance credit) = Some (check_pass ''phoenixd''
     (''phoenixd '' @ shown_version v @ '' reachable and the api password was accepted; its trampoline fee '' @
      ''schedule is verified for '' @ configured_version verified @ ''; spendable balance '' @ nat_str balance @ '' sat'' @
      fee_credit_note credit))"
| "phoenixd_check_from_probe (PhAuthRejected status) = Some (fail_structural ''phoenixd''
     (''phoenixd REJECTED the api password (HTTP '' @ nat_str status @ '') '' @ em_dash @ '' set `[phoenixd] api_password` '' @
      ''to that node's `http-password` (phoenixd.conf) and restart the daemon''))"
| "phoenixd_check_from_probe (PhUnreachable e) = Some (fail_reachability ''phoenixd''
     (''phoenixd returned no usable answer to an authenticated getinfo '' @ em_dash @ '' check that the '' @
      ''node is running and that `[phoenixd] url` (including its path) points at it: '' @ e))"
| "phoenixd_check_from_probe (PhBalanceUnavailable e) = Some (fail_reachability ''phoenixd''
     (''phoenixd answered authenticated getinfo, but getbalance failed while reading '' @
      ''feeCreditSat '' @ em_dash @ '' check the node or its fronting proxy and retry: '' @ e))"
| "phoenixd_check_from_probe (PhVersionMismatch running verified) = Some (fail_structural ''phoenixd''
     (''phoenixd '' @ shown_version running @ '' is not the '' @ configured_version verified @
      '' release its trampoline fee schedule was '' @
      ''verified against, so lnrent cannot bound an outbound fee on it and every automated '' @
      ''refund fails closed '' @ em_dash @ '' verify this release's schedule and configure it ([phoenixd] '' @
      ''fee_schedule_version/fee_base_msat/fee_ppm)''))"

definition phoenixd_check :: "probes \<Rightarrow> preflight_check option" where
  "phoenixd_check P =
     (case pr_phoenixd P of
        Answered probe \<Rightarrow> phoenixd_check_from_probe probe
      | Failed e \<Rightarrow> Some (fail_reachability ''phoenixd'' (''phoenixd probe failed: '' @ e))
      | TimedOut \<Rightarrow> Some (fail_reachability ''phoenixd''
          (''phoenixd probe timed out after '' @ readiness_timeout @ '' '' @ em_dash @
           '' a node that is unroutable, firewalled '' @
           ''(packets DROPped) or wedged lands here instead of in a transport error, so check '' @
           ''that `[phoenixd] url` reaches the node, that the node is running and responsive, '' @
           ''and retry'')))"

subsection \<open>The provider token and the recipe\<close>

definition token_required :: "recipe list \<Rightarrow> bool" where
  "token_required Rs = list_ex (\<lambda>R. do_token_env \<in> set (rc_env R)) Rs"

definition usable_token :: "string option \<Rightarrow> string option" where
  "usable_token t = Option.bind t (\<lambda>s. if str_trim s \<noteq> [] then Some s else None)"

definition provider_token_check :: "probes \<Rightarrow> recipe list \<Rightarrow> string option \<Rightarrow> preflight_check" where
  "provider_token_check P Rs token =
     (let name = ''provider_token'' in
      if \<not> token_required Rs
      then check_pass name (''skipped: no loaded recipe declares '' @ do_token_env @ '' (no provider API configured)'')
      else (case usable_token token of
        None \<Rightarrow> fail_structural name (do_token_env @
          '' is not set (or is blank) in the daemon environment, but the loaded recipe declares it '' @ em_dash @
          '' provision hooks will fail'')
      | Some t \<Rightarrow>
          if list_ex (\<lambda>c. \<not> is_graphic c) t
          then fail_structural name (do_token_env @
            '' is set but MALFORMED (contains whitespace, control, or non-ASCII characters) '' @ em_dash @
            '' re-copy the token'')
          else (case pr_account P t of
            Inl e \<Rightarrow> fail_reachability name (''provider API unreachable: '' @ e)
          | Inr status \<Rightarrow>
              if 200 \<le> status \<and> status < 300
              then check_pass name (''token accepted by the provider API (HTTP '' @ nat_str status @
                ''); proves authentication only '' @ em_dash @
                '' provisioning WRITE scopes are first exercised by a real provision'')
              else if status = 401 \<or> status = 403
              then fail_structural name (''token REJECTED by the provider API (HTTP '' @ nat_str status @ '') '' @ em_dash @
                '' invalid, revoked, or under-scoped'')
              else fail_reachability name (''unexpected provider API response (HTTP '' @ nat_str status @ '')''))))"

fun recipe_preflight_loop :: "probes \<Rightarrow> recipe list \<Rightarrow> bool \<Rightarrow> preflight_check" where
  "recipe_preflight_loop P [] hooked =
     (if hooked then check_pass ''recipe_preflight'' ''recipe preflight hook validated provisioning parameters''
      else check_pass ''recipe_preflight'' ''skipped: recipe declares no preflight hook'')"
| "recipe_preflight_loop P (R # Rs) hooked =
     (if \<not> pr_exists P (preflight_hook R) then recipe_preflight_loop P Rs hooked
      else (case pr_hook P R of
        Inl e \<Rightarrow> fail_structural ''recipe_preflight''
          (''recipe `'' @ rc_id R @ ''` preflight hook rejected the provisioning params: '' @ e)
      | Inr _ \<Rightarrow> recipe_preflight_loop P Rs True))"

definition recipe_preflight_check :: "probes \<Rightarrow> recipe list \<Rightarrow> preflight_check option" where
  "recipe_preflight_check P Rs = (if Rs = [] then None else Some (recipe_preflight_loop P Rs False))"

subsection \<open>The report\<close>

definition preflight_checks :: "probes \<Rightarrow> recipe list \<Rightarrow> string option \<Rightarrow> preflight_check list" where
  "preflight_checks P Rs token =
     (case phoenixd_check P of
        Some ph \<Rightarrow>
          [check_pass ''gateway'' ''skipped (phoenixd backend has no refund gateway)'',
           check_pass ''federation'' ''skipped (phoenixd backend has no federation guardians)'',
           check_pass ''lnv2'' ''skipped (phoenixd backend has no lnv2 money path)'', ph]
      | None \<Rightarrow> [gateway_check P, federation_check P, lnv2_check P]) @
     [provider_token_check P Rs token] @
     (case recipe_preflight_check P Rs of None \<Rightarrow> [] | Some c \<Rightarrow> [c])"

definition aggregate_ok :: "preflight_check list \<Rightarrow> bool" where
  "aggregate_ok cs = list_all pf_ok cs"

definition class_json :: "failure_class \<Rightarrow> json" where
  "class_json c = JStr (case c of Structural \<Rightarrow> ''structural'' | Reachability \<Rightarrow> ''reachability'')"

definition check_json :: "preflight_check \<Rightarrow> json" where
  "check_json c = JObj ([(''name'', JStr (pf_name c)), (''ok'', JBool (pf_ok c)), (''detail'', JStr (pf_detail c))] @
     (case pf_class c of None \<Rightarrow> [] | Some k \<Rightarrow> [(''class'', class_json k)]))"

definition preflight_report :: "probes \<Rightarrow> recipe list \<Rightarrow> string option \<Rightarrow> json" where
  "preflight_report P Rs token =
     (let cs = preflight_checks P Rs token
      in JObj [(''ok'', JBool (aggregate_ok cs)), (''checks'', JArr (map check_json cs))])"

text \<open>The text of a readiness error is the text of the check (\<open>PhoenixdReadinessError\<close>).\<close>

definition readiness_error_text :: "phoenixd_probe \<Rightarrow> string option" where
  "readiness_error_text p =
     (case p of
        PhUnreachable _ \<Rightarrow> map_option pf_detail (phoenixd_check_from_probe p)
      | PhAuthRejected _ \<Rightarrow> map_option pf_detail (phoenixd_check_from_probe p)
      | PhVersionMismatch _ _ \<Rightarrow> map_option pf_detail (phoenixd_check_from_probe p)
      | _ \<Rightarrow> None)"


subsection \<open>What a report says\<close>

lemma check_sel [simp]:
  "pf_name (check_pass n t) = n" "pf_ok (check_pass n t)" "pf_class (check_pass n t) = None" "pf_detail (check_pass n t) = t"
  "pf_name (fail_structural n t) = n" "\<not> pf_ok (fail_structural n t)" "pf_class (fail_structural n t) = Some Structural"
  "pf_detail (fail_structural n t) = t" "pf_name (fail_reachability n t) = n" "\<not> pf_ok (fail_reachability n t)"
  "pf_class (fail_reachability n t) = Some Reachability" "pf_detail (fail_reachability n t) = t"
  by (simp_all add: check_pass_def fail_structural_def fail_reachability_def check_fail_def)

lemmas check_defs = gateway_check_def federation_check_def lnv2_check_def provider_token_check_def

lemma recipe_loop_ok:
  "pf_ok (recipe_preflight_loop P Rs h) \<longleftrightarrow> list_all (\<lambda>R. pr_exists P (preflight_hook R) \<longrightarrow> \<not> isl (pr_hook P R)) Rs"
  by (induction P Rs h rule: recipe_preflight_loop.induct) (auto split: sum.splits)

lemma recipe_loop_class:
  "pf_class (recipe_preflight_loop P Rs h) =
     (if pf_ok (recipe_preflight_loop P Rs h) then None else Some Structural)"
  by (induction P Rs h rule: recipe_preflight_loop.induct) (auto split: sum.splits)

text \<open>A configuration the operator has to mend: what makes a check structural.\<close>

definition token_rejected :: "probes \<Rightarrow> recipe list \<Rightarrow> string option \<Rightarrow> bool" where
  "token_rejected P Rs token \<longleftrightarrow> token_required Rs \<and>
     (case usable_token token of None \<Rightarrow> True
      | Some t \<Rightarrow> list_ex (\<lambda>c. \<not> is_graphic c) t \<or> pr_account P t = Inr 401 \<or> pr_account P t = Inr 403)"

definition misconfigured :: "probes \<Rightarrow> recipe list \<Rightarrow> string option \<Rightarrow> bool" where
  "misconfigured P Rs token \<longleftrightarrow>
     (case pr_phoenixd P of
        Answered (PhAuthRejected _) \<Rightarrow> True
      | Answered (PhVersionMismatch _ _) \<Rightarrow> True
      | Answered PhNotApplicable \<Rightarrow> pr_lnv2 P = Answered ModuleAbsent
      | _ \<Rightarrow> False) \<or>
     token_rejected P Rs token \<or>
     list_ex (\<lambda>R. pr_exists P (preflight_hook R) \<and> isl (pr_hook P R)) Rs"

lemma token_class:
  "pf_class (provider_token_check P Rs token) = Some Structural \<longleftrightarrow> token_rejected P Rs token"
  by (auto simp: provider_token_check_def token_rejected_def Let_def split: option.splits sum.splits)

lemma gateway_class: "pf_class (gateway_check P) \<noteq> Some Structural"
  by (simp add: gateway_check_def Let_def split: answer.split bool.split)

lemma federation_class: "pf_class (federation_check P) \<noteq> Some Structural"
  by (simp add: federation_check_def Let_def split: answer.split bool.split)

lemma lnv2_class: "pf_class (lnv2_check P) = Some Structural \<longleftrightarrow> pr_lnv2 P = Answered ModuleAbsent"
  by (simp add: lnv2_check_def Let_def split: answer.split lnv2_probe.split)

lemma probe_check:
  "phoenixd_check_from_probe p = None \<longleftrightarrow> p = PhNotApplicable"
  "phoenixd_check_from_probe p = Some c \<Longrightarrow> pf_class c = None \<longleftrightarrow> pf_ok c"
  "phoenixd_check_from_probe p = Some c \<Longrightarrow> pf_class c = Some Structural \<longleftrightarrow>
     (case p of PhAuthRejected _ \<Rightarrow> True | PhVersionMismatch _ _ \<Rightarrow> True | _ \<Rightarrow> False)"
  by (cases p; simp del: append.simps; erule subst; simp del: append.simps)+

lemma phoenixd_None: "phoenixd_check P = None \<longleftrightarrow> pr_phoenixd P = Answered PhNotApplicable"
  by (cases "pr_phoenixd P") (simp_all add: phoenixd_check_def probe_check(1))

lemma phoenixd_class:
  "phoenixd_check P = Some c \<Longrightarrow> (pf_class c = None \<longleftrightarrow> pf_ok c) \<and> (pf_class c = Some Structural \<longleftrightarrow>
     (case pr_phoenixd P of Answered p \<Rightarrow> (case p of PhAuthRejected _ \<Rightarrow> True | PhVersionMismatch _ _ \<Rightarrow> True | _ \<Rightarrow> False)
      | _ \<Rightarrow> False))"
  unfolding phoenixd_check_def
  by (cases "pr_phoenixd P") (use probe_check(2,3) in \<open>auto simp del: append.simps\<close>)

lemma readiness_class:
  "pf_class (gateway_check P) = None \<longleftrightarrow> pf_ok (gateway_check P)"
  "pf_class (federation_check P) = None \<longleftrightarrow> pf_ok (federation_check P)"
  by (simp_all add: gateway_check_def federation_check_def Let_def split: answer.split bool.split)

lemma lnv2_class_ok: "pf_class (lnv2_check P) = None \<longleftrightarrow> pf_ok (lnv2_check P)"
  by (simp add: lnv2_check_def Let_def split: answer.split lnv2_probe.split)

lemma token_class_ok: "pf_class (provider_token_check P Rs token) = None \<longleftrightarrow> pf_ok (provider_token_check P Rs token)"
  by (auto simp: provider_token_check_def Let_def split: option.splits sum.splits)

lemma class_iff_ok:
  assumes "c \<in> set (preflight_checks P Rs token)"
  shows "pf_class c = None \<longleftrightarrow> pf_ok c"
  using assms phoenixd_class readiness_class lnv2_class_ok token_class_ok recipe_loop_class [of P Rs False]
  by (auto simp: preflight_checks_def recipe_preflight_check_def split: option.splits if_splits)

lemma structural_iff:
  "(\<exists>c\<in>set (preflight_checks P Rs token). pf_class c = Some Structural) \<longleftrightarrow> misconfigured P Rs token"
proof -
  let ?ph = "case phoenixd_check P of
      Some ph \<Rightarrow> pf_class ph = Some Structural
    | None \<Rightarrow> pf_class (lnv2_check P) = Some Structural"
  have r: "(\<exists>c. recipe_preflight_check P Rs = Some c \<and> pf_class c = Some Structural) \<longleftrightarrow>
      list_ex (\<lambda>R. pr_exists P (preflight_hook R) \<and> isl (pr_hook P R)) Rs"
    using recipe_loop_ok [of P Rs False] recipe_loop_class [of P Rs False]
    by (auto simp: recipe_preflight_check_def list_all_iff list_ex_iff split: if_splits)
  have "(\<exists>c\<in>set (preflight_checks P Rs token). pf_class c = Some Structural) \<longleftrightarrow>
      ?ph \<or> pf_class (provider_token_check P Rs token) = Some Structural \<or>
      (\<exists>c. recipe_preflight_check P Rs = Some c \<and> pf_class c = Some Structural)"
    using gateway_class federation_class by (auto simp: preflight_checks_def split: option.splits)
  moreover have "?ph \<longleftrightarrow> (case pr_phoenixd P of
        Answered (PhAuthRejected _) \<Rightarrow> True
      | Answered (PhVersionMismatch _ _) \<Rightarrow> True
      | Answered PhNotApplicable \<Rightarrow> pr_lnv2 P = Answered ModuleAbsent
      | _ \<Rightarrow> False)"
    using phoenixd_None [of P] phoenixd_class [of P] lnv2_class [of P]
    by (auto split: option.splits answer.splits phoenixd_probe.splits)
  ultimately show ?thesis unfolding r token_class misconfigured_def by blast
qed

text \<open>
  A preflight report classifies every failure. A check carries a class exactly when it failed; some check is
  structural, and so blocks publication for good, exactly when the operator's own configuration is at fault
  (a federation without the module, a refused password, an unverified release, a token that is absent,
  malformed or refused, a recipe whose own hook refuses), never because a third party is down; and the
  report of two well-formed tokens the provider answers alike is the same, so it cannot disclose one.
\<close>

theorem preflight_verdicts:
  "(\<forall>c\<in>set (preflight_checks P Rs token). pf_class c = None \<longleftrightarrow> pf_ok c) \<and>
   (list_ex (\<lambda>c. pf_class c = Some Structural) (preflight_checks P Rs token) \<longleftrightarrow> misconfigured P Rs token) \<and>
   (\<forall>a b. usable_token token = Some a \<longrightarrow> usable_token token' = Some b \<longrightarrow> list_all is_graphic a \<longrightarrow>
      list_all is_graphic b \<longrightarrow> pr_account P a = pr_account P b \<longrightarrow>
      preflight_report P Rs token = preflight_report P Rs token')"
proof (intro conjI allI impI ballI)
  show "list_ex (\<lambda>c. pf_class c = Some Structural) (preflight_checks P Rs token) \<longleftrightarrow> misconfigured P Rs token"
    using structural_iff [of P Rs token] by (simp add: list_ex_iff)
next
  fix a b
  assume a: "usable_token token = Some a" "usable_token token' = Some b"
    and g: "list_all is_graphic a" "list_all is_graphic b" and same: "pr_account P a = pr_account P b"
  have clean: "list_ex (\<lambda>c. \<not> is_graphic c) a = False" "list_ex (\<lambda>c. \<not> is_graphic c) b = False"
    using g by (auto simp: list_all_iff list_ex_iff)
  have "provider_token_check P Rs token = provider_token_check P Rs token'"
    unfolding provider_token_check_def a option.case clean same if_False by (rule refl)
  then show "preflight_report P Rs token = preflight_report P Rs token'"
    by (simp add: preflight_report_def preflight_checks_def)
qed (rule class_iff_ok)

definition sample_probes :: probes where
  "sample_probes = \<lparr>pr_gateway = TimedOut, pr_federation = Answered True, pr_lnv2 = Answered ModuleAbsent,
     pr_phoenixd = Answered PhNotApplicable, pr_account = (\<lambda>_. Inr 200), pr_exists = (\<lambda>_. False), pr_hook = (\<lambda>_. Inr JNull)\<rparr>"

theorem preflight_verdicts_witness:
  "usable_token (Some ''tok'') = Some ''tok'' \<and> list_all is_graphic ''tok'' \<and>
   misconfigured sample_probes [] None \<and> \<not> misconfigured (sample_probes\<lparr>pr_lnv2 := Answered GatewayAbsent\<rparr>) [] None \<and>
   preflight_report sample_probes [sample_recipe] (Some ''tok'') = preflight_report sample_probes [sample_recipe] (Some ''key'')"
proof -
  have u: "usable_token (Some ''tok'') = Some ''tok''" "usable_token (Some ''key'') = Some ''key''"
    by (simp_all add: usable_token_def str_trim_def is_space_def)
  have g: "list_all is_graphic ''tok''" "list_all is_graphic ''key''" by (simp_all add: is_graphic_def Let_def)
  have m: "misconfigured sample_probes [] None" "\<not> misconfigured (sample_probes\<lparr>pr_lnv2 := Answered GatewayAbsent\<rparr>) [] None"
    by (simp_all add: misconfigured_def sample_probes_def token_rejected_def token_required_def)
  have "pr_account sample_probes ''tok'' = pr_account sample_probes ''key''" by (simp add: sample_probes_def)
  note preflight_verdicts [of sample_probes "[sample_recipe]" "Some ''tok''" "Some ''key''",
    THEN conjunct2, THEN conjunct2, rule_format, OF u g this]
  with u(1) g(1) m show ?thesis by blast
qed

end
