(* ===== verification/Readiness.thy ===== *)
theory Readiness
  imports Sweep Preflight
begin

text \<open>
  The refund-readiness report, \<open>daemon/src/supervisor.rs\<close> (\<open>RefundReadinessReport\<close> and the functions
  below it) with the liability set of \<open>store.rs\<close> (\<open>load_refund_readiness_liabilities\<close>).

  One report reads the books once and asks the backend a few questions. Its answers are the record
  \<open>readiness_answers\<close>: the two liveness probes, the status of a payment key, and the outlay quoted
  for the refund of one liability (each liability is priced at most once). The log lines and their
  wording are not modelled; the fields they print are the report's.
\<close>

subsection \<open>Liabilities\<close>

record refund_liability =
  ra_status :: string
  ra_key :: string
  ra_dest :: "string option"
  ra_bolt11 :: "string option"
  ra_expiry :: "int option"
  ra_gen :: int
  ra_fenced :: bool

datatype liability_source = RefundAttempt refund_liability | PaidUndelivered | Unreconciled

record liability =
  lb_ext :: string
  lb_gross :: nat
  lb_source :: liability_source

definition refund_liability_of :: "refund_attempt \<Rightarrow> refund_liability" where
  "refund_liability_of r =
     \<lparr>ra_status = rf_status r, ra_key = rf_key r, ra_dest = rf_dest r, ra_bolt11 = rf_bolt11 r,
      ra_expiry = rf_expiry r, ra_gen = rf_gen r, ra_fenced = (rf_fence r \<noteq> None)\<rparr>"

text \<open>The journal of an external id: the largest net amount of its settle-refund events.\<close>

definition journal_received_sat :: "string \<Rightarrow> event list \<Rightarrow> int option" where
  "journal_received_sat x es = sql_max (map event_received_sat (filter (\<lambda>e. settle_refund_event e \<and> event_ext e = Some x) es))"

definition liability_refund_sat :: "db \<Rightarrow> refund_attempt \<Rightarrow> int option" where
  "liability_refund_sat d r =
     (let x = refund_ext_sql r
      in coalesce (case List.find (\<lambda>i. inv_ext i = x \<and> receipt_settled i) (invoices d) of
                     None \<Rightarrow> None | Some i \<Rightarrow> invoice_received_sat i)
                  (journal_received_sat x (events d)))"

definition liability_at :: "string \<Rightarrow> int option \<Rightarrow> liability_source \<Rightarrow> liability option" where
  "liability_at x sat src = map_option (\<lambda>g. \<lparr>lb_ext = x, lb_gross = g, lb_source = src\<rparr>) (positive_sat sat)"

definition refund_liabilities :: "db \<Rightarrow> liability list" where
  "refund_liabilities d = List.map_filter
     (\<lambda>r. liability_at (refund_ext_sql r) (liability_refund_sat d r) (RefundAttempt (refund_liability_of r)))
     (sort_key (\<lambda>r. (rf_created r, rf_id r)) (filter (\<lambda>r. rf_status r \<noteq> ''SENT'') (refunds d)))"

text \<open>\<open>COALESCE(s.state, '')\<close> under the \<open>LEFT JOIN\<close>.\<close>

definition joined_state :: "string option \<Rightarrow> db \<Rightarrow> string" where
  "joined_state s d =
     (case s of None \<Rightarrow> [] | Some i \<Rightarrow> (case find_sub i d of None \<Rightarrow> [] | Some q \<Rightarrow> sub_state q))"

definition undelivered_invoice :: "db \<Rightarrow> invoice \<Rightarrow> bool" where
  "undelivered_invoice d i \<longleftrightarrow> inv_kind i = Some ''order'' \<and> receipt_settled i \<and>
     joined_state (inv_sub i) d \<in> {''PENDING'', ''PROVISIONING'', ''REFUND_DUE''}"

definition undelivered_liabilities :: "db \<Rightarrow> liability list" where
  "undelivered_liabilities d = List.map_filter
     (\<lambda>i. liability_at (inv_ext i) (invoice_received_sat i) PaidUndelivered)
     (sort_key (\<lambda>i. (inv_issued i, inv_id i)) (filter (undelivered_invoice d) (invoices d)))"

definition unapplied_invoice :: "db \<Rightarrow> invoice \<Rightarrow> bool" where
  "unapplied_invoice d i \<longleftrightarrow> inv_settled i \<noteq> None \<and> inv_applied i = None \<and> inv_kind i \<noteq> Some ''renewal'' \<and>
     joined_state (inv_sub i) d \<notin> {''ACTIVE'', ''REFUNDED''}"

definition unapplied_liabilities :: "db \<Rightarrow> liability list" where
  "unapplied_liabilities d = List.map_filter
     (\<lambda>i. liability_at (inv_ext i) (invoice_received_sat i) Unreconciled)
     (sort_key (\<lambda>i. (inv_settled i, inv_id i)) (filter (unapplied_invoice d) (invoices d)))"

definition unreconciled_event :: "db \<Rightarrow> event \<Rightarrow> bool" where
  "unreconciled_event d e \<longleftrightarrow> settle_refund_event e \<and> joined_state (ev_sub e) d \<notin> {''ACTIVE'', ''REFUNDED''}"

definition journal_liabilities :: "db \<Rightarrow> liability list" where
  "journal_liabilities d =
     (let es = filter (unreconciled_event d) (events d)
      in List.map_filter (\<lambda>x. liability_at x (journal_received_sat x es) Unreconciled)
           (sort (remdups (List.map_filter event_ext es))))"

text \<open>\<open>seen.insert\<close> before \<open>out.push\<close>: the first row of an external id wins.\<close>

definition push_new :: "liability \<Rightarrow> liability list \<Rightarrow> liability list" where
  "push_new l out = (if lb_ext l \<in> lb_ext ` set out then out else out @ [l])"

definition load_liabilities :: "db \<Rightarrow> store_error + liability list" where
  "load_liabilities d =
     (if \<exists>e\<in>set (events d). unreconciled_event d e \<and> event_ext e = None then Inl (Bail ''invalid column type'')
      else Inr (fold push_new
        (refund_liabilities d @ filter (\<lambda>l. lb_ext l \<notin> refund_ext_sql ` set (refunds d))
           (undelivered_liabilities d @ unapplied_liabilities d @ journal_liabilities d)) []))"

subsection \<open>The backend's answers\<close>

datatype readiness_error = PlainError string | PhoenixdError phoenixd_probe

datatype backend_kind = Federation | Phoenixd

record readiness_answers =
  an_gateway :: "readiness_error + bool" \<comment> \<open>\<open>refund_gateway_ready\<close>\<close>
  an_root :: "readiness_error + bool" \<comment> \<open>\<open>backend_ready\<close>\<close>
  an_kind :: backend_kind
  an_status :: "string \<Rightarrow> store_error + pay_status"
  an_outlay :: "string \<Rightarrow> nat \<Rightarrow> nat option \<Rightarrow> store_error + nat" \<comment> \<open>\<open>refund_required_outlay_msat\<close> for one liability\<close>

datatype readiness_voice = VoiceFederation | NodeUnavailable string | RefundsBlocked string

definition typed_error :: "readiness_error option \<Rightarrow> phoenixd_probe option" where
  "typed_error e = (case e of Some (PhoenixdError p) \<Rightarrow> Some p | _ \<Rightarrow> None)"

definition is_version_mismatch :: "phoenixd_probe \<Rightarrow> bool" where
  "is_version_mismatch p = (case p of PhVersionMismatch _ _ \<Rightarrow> True | _ \<Rightarrow> False)"

definition voice_from_errors :: "readiness_error option \<Rightarrow> readiness_error option \<Rightarrow> readiness_voice" where
  "voice_from_errors gateway root =
     (case or_else (typed_error root) (typed_error gateway) of
        None \<Rightarrow> VoiceFederation
      | Some p \<Rightarrow>
          (let detail = (case phoenixd_check_from_probe p of None \<Rightarrow> [] | Some c \<Rightarrow> pf_detail c)
           in if is_version_mismatch p then RefundsBlocked detail else NodeUnavailable detail))"

record readiness_probe =
  rp_gateway_ok :: bool
  rp_gateway_error :: "readiness_error option"
  rp_root_ok :: bool
  rp_root_error :: "readiness_error option"
  rp_voice :: readiness_voice
  rp_kind :: backend_kind

definition ok_or_false :: "readiness_error + bool \<Rightarrow> bool" where
  "ok_or_false a = (case a of Inl _ \<Rightarrow> False | Inr b \<Rightarrow> b)"

definition error_of :: "readiness_error + bool \<Rightarrow> readiness_error option" where
  "error_of a = (case a of Inl e \<Rightarrow> Some e | Inr _ \<Rightarrow> None)"

definition query_probe :: "readiness_answers \<Rightarrow> readiness_probe" where
  "query_probe A =
     \<lparr>rp_gateway_ok = ok_or_false (an_gateway A), rp_gateway_error = error_of (an_gateway A),
      rp_root_ok = ok_or_false (an_root A), rp_root_error = error_of (an_root A),
      rp_voice = (if ok_or_false (an_gateway A) \<and> ok_or_false (an_root A) then VoiceFederation
                  else voice_from_errors (error_of (an_gateway A)) (error_of (an_root A))),
      rp_kind = an_kind A\<rparr>"

subsection \<open>The report\<close>

datatype readiness_warning = FederationDown | GatewayUnavailable | InsufficientBalance | Unpriceable | ParkedManual

fun warning_str :: "readiness_warning \<Rightarrow> string" where
  "warning_str FederationDown = ''FederationDown''"
| "warning_str GatewayUnavailable = ''GatewayUnavailable''"
| "warning_str InsufficientBalance = ''InsufficientBalance''"
| "warning_str Unpriceable = ''Unpriceable''"
| "warning_str ParkedManual = ''ParkedManual''"

record readiness =
  rd_count :: nat
  rd_gross :: nat
  rd_required :: nat
  rd_expected :: nat
  rd_gateway_ok :: bool
  rd_root_ok :: bool
  rd_parked :: nat
  rd_fenced :: nat
  rd_unpriceable :: nat
  rd_warning :: "readiness_warning option"
  rd_voice :: readiness_voice
  rd_kind :: backend_kind

definition default_readiness :: readiness where
  "default_readiness = \<lparr>rd_count = 0, rd_gross = 0, rd_required = 0, rd_expected = 0, rd_gateway_ok = True,
     rd_root_ok = True, rd_parked = 0, rd_fenced = 0, rd_unpriceable = 0, rd_warning = None,
     rd_voice = VoiceFederation, rd_kind = Federation\<rparr>"

definition pay_sat :: "net \<Rightarrow> liability \<Rightarrow> refund_liability \<Rightarrow> nat option" where
  "pay_sat N l r =
     (case ra_bolt11 r of
        Some b \<Rightarrow> Some (sat_or N b (lb_gross l))
      | None \<Rightarrow> (case ra_dest r of None \<Rightarrow> None
          | Some t \<Rightarrow> (case parse_whole_sat N t of Inl _ \<Rightarrow> None | Inr s \<Rightarrow> Some s)))"

definition pending_required_msat :: "net \<Rightarrow> readiness_answers \<Rightarrow> liability \<Rightarrow> refund_liability \<Rightarrow> store_error + nat" where
  "pending_required_msat N A l r = an_outlay A (lb_ext l) (lb_gross l) (pay_sat N l r)"

definition require_msat :: "nat \<Rightarrow> readiness \<Rightarrow> readiness" where
  "require_msat m p = p\<lparr>rd_required := saturating_add_u128 (rd_required p) m\<rparr>"

definition committed_in :: "ledger_reads \<Rightarrow> string \<Rightarrow> bool" where
  "committed_in S key = (case snapshot_refund S key of None \<Rightarrow> False | Some c \<Rightarrow> rc_committed c)"

definition tally_liability :: "net \<Rightarrow> readiness_answers \<Rightarrow> ledger_reads \<Rightarrow> liability \<Rightarrow> readiness \<Rightarrow> readiness" where
  "tally_liability N A S l p0 =
     (let p = p0\<lparr>rd_gross := rd_gross p0 + lb_gross l\<rparr>
      in case lb_source l of
           RefundAttempt r \<Rightarrow>
             if ra_fenced r then p\<lparr>rd_fenced := rd_fenced p + 1\<rparr>
             else if ra_status r = ''FAILED'' then p\<lparr>rd_parked := rd_parked p + 1\<rparr>
             else if ra_status r \<noteq> ''PENDING'' then p
             else if committed_in S (ra_key r) then p
             else (case pending_required_msat N A l r of
                     Inr m \<Rightarrow> require_msat m p
                   | Inl _ \<Rightarrow> p\<lparr>rd_unpriceable := rd_unpriceable p + 1\<rparr>)
         | PaidUndelivered \<Rightarrow> require_msat (lb_gross l * 1000) p
         | Unreconciled \<Rightarrow> require_msat (lb_gross l * 1000) p)"

definition warning_of :: "readiness \<Rightarrow> readiness_warning option" where
  "warning_of p =
     (if \<not> rd_root_ok p then Some FederationDown
      else if \<not> rd_gateway_ok p then Some GatewayUnavailable
      else if rd_expected p < rd_required p then Some InsufficientBalance
      else if 0 < rd_unpriceable p then Some Unpriceable
      else if 0 < rd_parked p + rd_fenced p then Some ParkedManual
      else None)"

definition empty_readiness :: "readiness_probe \<Rightarrow> ledger_reads \<Rightarrow> nat \<Rightarrow> readiness" where
  "empty_readiness P S n = \<lparr>rd_count = n, rd_gross = 0, rd_required = 0, rd_expected = expected_of S,
     rd_gateway_ok = rp_gateway_ok P, rd_root_ok = rp_root_ok P, rd_parked = 0, rd_fenced = 0,
     rd_unpriceable = 0, rd_warning = None, rd_voice = rp_voice P, rd_kind = rp_kind P\<rparr>"

definition report_from_liabilities ::
  "net \<Rightarrow> readiness_answers \<Rightarrow> readiness_probe \<Rightarrow> ledger_reads \<Rightarrow> liability list \<Rightarrow> readiness" where
  "report_from_liabilities N A P S ls =
     (let p = fold (tally_liability N A S) ls (empty_readiness P S (length ls))
      in p\<lparr>rd_warning := warning_of p\<rparr>)"

definition report_with_probe :: "net \<Rightarrow> readiness_answers \<Rightarrow> readiness_probe \<Rightarrow> db \<Rightarrow> store_error + readiness" where
  "report_with_probe N A P d =
     (case read_ledger_terms d of
        Inl e \<Rightarrow> Inl e
      | Inr reads \<Rightarrow>
          (case load_liabilities d of
             Inl e \<Rightarrow> Inl e
           | Inr ls \<Rightarrow>
               (case observe (an_status A) (lr_refunds reads) of
                  Inl e \<Rightarrow> Inl e
                | Inr rs \<Rightarrow>
                    (let S = reads\<lparr>lr_refunds := rs\<rparr>
                     in if ls = [] then
                          Inr (default_readiness\<lparr>rd_expected := expected_of S, rd_gateway_ok := rp_gateway_ok P,
                            rd_root_ok := rp_root_ok P,
                            rd_warning := (if rp_root_ok P then None else Some FederationDown),
                            rd_voice := rp_voice P\<rparr>)
                        else Inr (report_from_liabilities N A P S ls)))))"

definition readiness_report :: "net \<Rightarrow> readiness_answers \<Rightarrow> db \<Rightarrow> store_error + readiness" where
  "readiness_report N A d = report_with_probe N A (query_probe A) d"

definition json_nat :: "nat \<Rightarrow> json" where "json_nat n = JInt (int n)"

definition money_value :: "readiness \<Rightarrow> bool \<Rightarrow> bool \<Rightarrow> (string \<times> json) list" where
  "money_value p gateway_ok root_ok =
     [(''expected_msat'', json_nat (rd_expected p)), (''gateway_ok'', JBool gateway_ok),
      (''federation_ok'', JBool root_ok), (''liability_count'', json_nat (rd_count p)),
      (''gross_liability_sat'', json_nat (rd_gross p)), (''required_msat'', json_nat (rd_required p)),
      (''parked_count'', json_nat (rd_parked p)), (''fence_parked_count'', json_nat (rd_fenced p)),
      (''ready'', JBool (rd_warning p = None)),
      (''warning'', json_of_text (map_option warning_str (rd_warning p)))] @
     (if rd_kind p = Phoenixd then [(''readiness_backend'', JStr ''phoenixd'')] else []) @
     (case rd_voice p of
        VoiceFederation \<Rightarrow> []
      | NodeUnavailable t \<Rightarrow> [(''readiness_failure_backend'', JStr ''phoenixd''), (''readiness_failure_detail'', JStr t)]
      | RefundsBlocked t \<Rightarrow> [(''readiness_failure_backend'', JStr ''phoenixd''), (''readiness_failure_detail'', JStr t)])"

subsection \<open>What a report means\<close>

text \<open>
  The outlay a liability adds to \<open>required_msat\<close>, and when it can be met without the operator: it is
  not parked, and a refund that must still be paid has a price.
\<close>

definition owed_msat :: "net \<Rightarrow> readiness_answers \<Rightarrow> ledger_reads \<Rightarrow> liability \<Rightarrow> nat" where
  "owed_msat N A S l =
     (case lb_source l of
        RefundAttempt r \<Rightarrow>
          if ra_fenced r \<or> ra_status r \<noteq> ''PENDING'' \<or> committed_in S (ra_key r) then 0
          else (case pending_required_msat N A l r of Inl _ \<Rightarrow> 0 | Inr m \<Rightarrow> m)
      | _ \<Rightarrow> lb_gross l * 1000)"

definition parked_refund :: "liability \<Rightarrow> bool" where
  "parked_refund l = (case lb_source l of RefundAttempt r \<Rightarrow> ra_fenced r \<or> ra_status r = ''FAILED'' | _ \<Rightarrow> False)"

definition unpriced :: "net \<Rightarrow> readiness_answers \<Rightarrow> ledger_reads \<Rightarrow> liability \<Rightarrow> bool" where
  "unpriced N A S l =
     (case lb_source l of
        RefundAttempt r \<Rightarrow> \<not> ra_fenced r \<and> ra_status r = ''PENDING'' \<and> \<not> committed_in S (ra_key r) \<and>
                           isl (pending_required_msat N A l r)
      | _ \<Rightarrow> False)"

definition u128_max :: nat where "u128_max = u128_limit - 1"

lemma saturating_add_u128_sum:
  "saturating_add_u128 (min a u128_max) b = min (a + b) u128_max"
  by (simp add: saturating_add_u128_def u128_max_def min_def)

lemma tally_fields:
  "rd_expected (tally_liability N A S l p) = rd_expected p" "rd_root_ok (tally_liability N A S l p) = rd_root_ok p"
  "rd_gateway_ok (tally_liability N A S l p) = rd_gateway_ok p"
  "rd_unpriceable (tally_liability N A S l p) = rd_unpriceable p + (if unpriced N A S l then 1 else 0)"
  "rd_parked (tally_liability N A S l p) + rd_fenced (tally_liability N A S l p)
     = rd_parked p + rd_fenced p + (if parked_refund l then 1 else 0)"
  by (auto simp: tally_liability_def require_msat_def unpriced_def parked_refund_def Let_def isl_def
      split: liability_source.splits sum.splits)

lemma tally_required:
  "rd_required p = min n u128_max \<Longrightarrow>
   rd_required (tally_liability N A S l p) = min (n + owed_msat N A S l) u128_max"
  by (cases "lb_source l")
     (auto simp: tally_liability_def require_msat_def owed_msat_def Let_def saturating_add_u128_sum
       split: sum.splits)

lemma fold_tally:
  assumes "rd_required p = min n u128_max"
  shows "rd_expected (fold (tally_liability N A S) ls p) = rd_expected p"
    "rd_root_ok (fold (tally_liability N A S) ls p) = rd_root_ok p"
    "rd_gateway_ok (fold (tally_liability N A S) ls p) = rd_gateway_ok p"
    "rd_unpriceable (fold (tally_liability N A S) ls p) = rd_unpriceable p + count_where (unpriced N A S) ls"
    "rd_parked (fold (tally_liability N A S) ls p) + rd_fenced (fold (tally_liability N A S) ls p)
       = rd_parked p + rd_fenced p + count_where parked_refund ls"
    "rd_required (fold (tally_liability N A S) ls p)
       = min (n + sum_list (map (owed_msat N A S) ls)) u128_max"
  using assms
proof (induction ls arbitrary: p n)
  case (Cons l ls)
  {
    case 1
    from Cons.IH(1) [OF tally_required, OF 1] show ?case by (simp add: tally_fields)
  next
    case 2
    from Cons.IH(2) [OF tally_required, OF 2] show ?case by (simp add: tally_fields)
  next
    case 3
    from Cons.IH(3) [OF tally_required, OF 3] show ?case by (simp add: tally_fields)
  next
    case 4
    from Cons.IH(4) [OF tally_required, OF 4] show ?case by (simp add: tally_fields count_where_def)
  next
    case 5
    from Cons.IH(5) [OF tally_required, OF 5] show ?case by (simp add: tally_fields count_where_def)
  next
    case 6
    from Cons.IH(6) [OF tally_required, OF 6] show ?case by (simp add: add.assoc)
  }
qed (simp_all add: count_where_def)

lemma empty_required: "rd_required (empty_readiness P S n) = min 0 u128_max"
  by (simp add: empty_readiness_def)

lemma report_warning_None:
  "rd_warning (report_from_liabilities N A P S ls) = None \<longleftrightarrow>
     rp_root_ok P \<and> rp_gateway_ok P \<and> (\<forall>l\<in>set ls. \<not> parked_refund l \<and> \<not> unpriced N A S l) \<and>
     min (sum_list (map (owed_msat N A S) ls)) u128_max \<le> expected_of S"
proof -
  note F = fold_tally [OF empty_required, of N A S ls P S "length ls"]
  have z: "0 < count_where Q xs \<longleftrightarrow> (\<exists>x\<in>set xs. Q x)" for Q and xs :: "liability list"
    by (simp add: count_where_def filter_empty_conv)
  show ?thesis
    by (simp add: report_from_liabilities_def Let_def warning_of_def F del: add_gr_0 not_gr_zero)
       (auto simp: empty_readiness_def z not_less)
qed

lemma report_from_expected [simp]: "rd_expected (report_from_liabilities N A P S ls) = expected_of S"
  by (simp add: report_from_liabilities_def Let_def fold_tally(1) [OF empty_required])
     (simp add: empty_readiness_def)

lemma ok_or_false_iff: "ok_or_false a \<longleftrightarrow> a = Inr True"
  by (auto simp: ok_or_false_def split: sum.splits)

definition ledger_snapshot :: "readiness_answers \<Rightarrow> db \<Rightarrow> store_error + ledger_reads" where
  "ledger_snapshot A d =
     (case read_ledger_terms d of
        Inl e \<Rightarrow> Inl e
      | Inr reads \<Rightarrow> map_sum id (\<lambda>rs. reads\<lparr>lr_refunds := rs\<rparr>) (observe (an_status A) (lr_refunds reads)))"

text \<open>
  C5. READY means covered, and nothing else does: a report carries no warning exactly when the
  backend's root answered that it is usable and, with anything owed, its gateway did too, no refund
  is parked or fenced, every refund still to be paid has a price, and the ledger's lower bound on the
  holdings, read in the same observation, is at least the sum of everything still to be paid.
\<close>

theorem ready_iff_covered:
  assumes "readiness_report N A d = Inr p"
  shows "\<exists>ls S. load_liabilities d = Inr ls \<and> ledger_snapshot A d = Inr S \<and>
     expected_msat (an_status A) d = Inr (rd_expected p) \<and> rd_expected p = expected_of S \<and>
     (rd_warning p = None \<longleftrightarrow> an_root A = Inr True \<and>
       (ls \<noteq> [] \<longrightarrow> an_gateway A = Inr True \<and> (\<forall>l\<in>set ls. \<not> parked_refund l \<and> \<not> unpriced N A S l) \<and>
          min (sum_list (map (owed_msat N A S) ls)) u128_max \<le> rd_expected p))"
proof -
  from assms obtain reads ls rs where r: "read_ledger_terms d = Inr reads" "load_liabilities d = Inr ls"
      "observe (an_status A) (lr_refunds reads) = Inr rs"
    and p: "p = (let S = reads\<lparr>lr_refunds := rs\<rparr>; P = query_probe A
        in if ls = [] then default_readiness\<lparr>rd_expected := expected_of S, rd_gateway_ok := rp_gateway_ok P,
             rd_root_ok := rp_root_ok P, rd_warning := (if rp_root_ok P then None else Some FederationDown),
             rd_voice := rp_voice P\<rparr>
           else report_from_liabilities N A P S ls)"
    by (auto simp: readiness_report_def report_with_probe_def Let_def split: sum.splits if_splits)
  let ?S = "reads\<lparr>lr_refunds := rs\<rparr>"
  have e: "rd_expected p = expected_of ?S" "expected_msat (an_status A) d = Inr (expected_of ?S)"
    using r by (simp_all add: p Let_def expected_msat_def)
  have "rd_warning p = None \<longleftrightarrow> an_root A = Inr True \<and>
       (ls \<noteq> [] \<longrightarrow> an_gateway A = Inr True \<and> (\<forall>l\<in>set ls. \<not> parked_refund l \<and> \<not> unpriced N A ?S l) \<and>
          min (sum_list (map (owed_msat N A ?S) ls)) u128_max \<le> expected_of ?S)"
    by (simp add: p Let_def report_warning_None) (simp add: query_probe_def ok_or_false_iff)
  with r e show ?thesis by (auto simp: ledger_snapshot_def)
qed

text \<open>With nothing owed the report falls back to \<open>BackendKind::Federation\<close> whatever the backend is.\<close>

lemma idle_report_kind:
  assumes "readiness_report N A d = Inr p" "load_liabilities d = Inr []"
  shows "rd_kind p = Federation"
  using assms by (auto simp: readiness_report_def report_with_probe_def default_readiness_def Let_def split: sum.splits)

lemma push_new_exts [simp]: "lb_ext ` set (push_new l out) = insert (lb_ext l) (lb_ext ` set out)"
  by (auto simp: push_new_def)

lemma push_new_set: "set out \<subseteq> set (push_new l out)" "set (push_new l out) \<subseteq> insert l (set out)"
  by (auto simp: push_new_def)

lemma push_new_distinct: "distinct (map lb_ext out) \<Longrightarrow> distinct (map lb_ext (push_new l out))"
  by (auto simp: push_new_def)

lemma fold_push_exts: "lb_ext ` set (fold push_new ls out) = lb_ext ` set ls \<union> lb_ext ` set out"
  by (induction ls arbitrary: out) auto

lemma fold_push_keeps: "set out \<subseteq> set (fold push_new ls out)"
proof (induction ls arbitrary: out)
  case (Cons l ls)
  from push_new_set(1) [of out l] Cons [of "push_new l out"] show ?case by auto
qed simp

lemma fold_push_from: "set (fold push_new ls out) \<subseteq> set ls \<union> set out"
proof (induction ls arbitrary: out)
  case (Cons l ls)
  from push_new_set(2) [of l out] Cons [of "push_new l out"] show ?case by auto
qed simp

lemma fold_push_distinct: "distinct (map lb_ext out) \<Longrightarrow> distinct (map lb_ext (fold push_new ls out))"
  by (induction ls arbitrary: out) (auto intro: push_new_distinct)

lemma set_map_filter: "y \<in> set (List.map_filter f xs) \<longleftrightarrow> (\<exists>x\<in>set xs. f x = Some y)"
  by (force simp: List.map_filter_def)

lemma liability_at_Some:
  "liability_at x s src = Some l \<longleftrightarrow> (\<exists>g. positive_sat s = Some g \<and> l = \<lparr>lb_ext = x, lb_gross = g, lb_source = src\<rparr>)"
  by (auto simp: liability_at_def)

lemma set_refund_liabilities:
  "l \<in> set (refund_liabilities d) \<longleftrightarrow>
     (\<exists>r\<in>set (refunds d). rf_status r \<noteq> ''SENT'' \<and>
        liability_at (refund_ext_sql r) (liability_refund_sat d r) (RefundAttempt (refund_liability_of r)) = Some l)"
  by (auto simp: refund_liabilities_def set_map_filter)

text \<open>
  Every debt is counted once: in the liability set no external id appears twice; every refund row
  that was not sent and has received funds behind it is there as a refund, at the net amount of its
  receipt, whatever its status; every settled order whose service was never delivered, and every
  settlement no grant was applied to, is there too unless a refund row already carries its external id.
\<close>

theorem liabilities_each_once:
  assumes "load_liabilities d = Inr ls"
  shows "distinct (map lb_ext ls) \<and>
     (\<forall>r\<in>set (refunds d). rf_status r \<noteq> ''SENT'' \<and> positive_sat (liability_refund_sat d r) \<noteq> None \<longrightarrow>
        (\<exists>l\<in>set ls. lb_ext l = refund_ext_sql r \<and> (\<exists>q\<in>set (refunds d). rf_status q \<noteq> ''SENT'' \<and>
            refund_ext_sql q = refund_ext_sql r \<and> lb_source l = RefundAttempt (refund_liability_of q) \<and>
            Some (lb_gross l) = positive_sat (liability_refund_sat d q)))) \<and>
     (\<forall>i\<in>set (invoices d). (undelivered_invoice d i \<or> unapplied_invoice d i) \<and> positive_sat (invoice_received_sat i) \<noteq> None \<longrightarrow>
        inv_ext i \<in> refund_ext_sql ` set (refunds d) \<or> inv_ext i \<in> lb_ext ` set ls)"
proof -
  let ?A = "refund_liabilities d" and ?rest = "filter (\<lambda>l. lb_ext l \<notin> refund_ext_sql ` set (refunds d))
    (undelivered_liabilities d @ unapplied_liabilities d @ journal_liabilities d)"
  from assms have ls: "ls = fold push_new ?rest (fold push_new ?A [])"
    by (simp add: load_liabilities_def split: if_splits)
  have first: "set (fold push_new ?A []) \<subseteq> set ls" unfolding ls by (rule fold_push_keeps)
  have src: "\<exists>l\<in>set ls. lb_ext l = refund_ext_sql r \<and> (\<exists>q\<in>set (refunds d). rf_status q \<noteq> ''SENT'' \<and>
            refund_ext_sql q = refund_ext_sql r \<and> lb_source l = RefundAttempt (refund_liability_of q) \<and>
            Some (lb_gross l) = positive_sat (liability_refund_sat d q))"
    if r: "r \<in> set (refunds d)" "rf_status r \<noteq> ''SENT''" "positive_sat (liability_refund_sat d r) \<noteq> None" for r
  proof -
    from r have "refund_ext_sql r \<in> lb_ext ` set ?A"
      by (force simp: image_iff set_refund_liabilities liability_at_Some)
    then have "refund_ext_sql r \<in> lb_ext ` set (fold push_new ?A [])" by (simp add: fold_push_exts)
    then obtain l where l: "l \<in> set (fold push_new ?A [])" "lb_ext l = refund_ext_sql r" by auto
    from l(1) fold_push_from [of ?A "[]"] have "l \<in> set ?A" by auto
    then obtain q where "q \<in> set (refunds d)" "rf_status q \<noteq> ''SENT''" "lb_ext l = refund_ext_sql q"
        "lb_source l = RefundAttempt (refund_liability_of q)" "Some (lb_gross l) = positive_sat (liability_refund_sat d q)"
      by (auto simp: set_refund_liabilities liability_at_Some)
    with l first show ?thesis by (intro bexI [of _ l]) auto
  qed
  have cover: "inv_ext i \<in> refund_ext_sql ` set (refunds d) \<or> inv_ext i \<in> lb_ext ` set ls"
    if "i \<in> set (invoices d)" "undelivered_invoice d i \<or> unapplied_invoice d i"
      "positive_sat (invoice_received_sat i) \<noteq> None" for i
  proof -
    from that have "inv_ext i \<in> lb_ext ` set (undelivered_liabilities d @ unapplied_liabilities d)"
      by (force simp: image_iff undelivered_liabilities_def unapplied_liabilities_def set_map_filter liability_at_Some)
    then have "inv_ext i \<in> refund_ext_sql ` set (refunds d) \<or> inv_ext i \<in> lb_ext ` set ?rest" by auto
    then show ?thesis unfolding ls by (auto simp: fold_push_exts)
  qed
  have "distinct (map lb_ext ls)" unfolding ls by (intro fold_push_distinct) simp
  with src cover show ?thesis by blast
qed

text \<open>A host that took two payments and owes one of them back.\<close>

definition owing_db :: db where
  "owing_db = empty_db\<lparr>invoices := [sample_paid ''x1'' 6500, sample_paid ''x2'' 6500],
     refunds := [sample_refund ''x1'' ''PENDING'' 6]\<rparr>"

definition sample_answers :: readiness_answers where
  "sample_answers = \<lparr>an_gateway = Inr True, an_root = Inr True, an_kind = Phoenixd,
     an_status = (\<lambda>_. Inr PayUnknown), an_outlay = (\<lambda>_ _ _. Inr 6100)\<rparr>"

lemma owing_liabilities:
  "load_liabilities owing_db = Inr [\<lparr>lb_ext = ''x1'', lb_gross = 6,
     lb_source = RefundAttempt (refund_liability_of (sample_refund ''x1'' ''PENDING'' 6))\<rparr>]"
  by (simp add: load_liabilities_def refund_liabilities_def undelivered_liabilities_def unapplied_liabilities_def
      journal_liabilities_def owing_db_def books_eval refund_ext_sql_def liability_at_def liability_refund_sat_def
      invoice_received_sat_def sql_div_def undelivered_invoice_def unapplied_invoice_def joined_state_def
      find_sub_def push_new_def)

theorem liabilities_each_once_witness:
  "\<exists>l. load_liabilities owing_db = Inr [l] \<and> lb_ext l = ''x1'' \<and> lb_gross l = 6"
  using liabilities_each_once [OF owing_liabilities] owing_liabilities by auto

lemma owing_terms: "read_ledger_terms owing_db = Inr \<lparr>lr_receipts = 13000,
     lr_refunds = [\<lparr>rc_key = ''refund:x1'', rc_pay_key = ''refund:x1'', rc_amount_msat = 6000, rc_status = ''PENDING'',
        rc_fenced = False, rc_pay = PayUnknown\<rparr>], lr_sweeps = 0\<rparr>"
  by (simp add: read_ledger_terms_def sum_receipts_msat_def sum_sweep_caps_msat_def receipts_decode_def owing_db_def
      receipts_def received_by_ext_def class_a_def class_b_def class_b_exts_def books_eval positive_msat_def
      load_refund_commitments_def gen_key_def external_id_from_def sum_where_def)

definition owing_books :: ledger_reads where
  "owing_books = \<lparr>lr_receipts = 13000, lr_refunds = [\<lparr>rc_key = ''refund:x1'', rc_pay_key = ''refund:x1'',
      rc_amount_msat = 6000, rc_status = ''PENDING'', rc_fenced = False, rc_pay = PayUnknown\<rparr>], lr_sweeps = 0\<rparr>"

lemma owing_snapshot: "ledger_snapshot sample_answers owing_db = Inr owing_books"
  by (simp add: ledger_snapshot_def owing_terms owing_books_def sample_answers_def rc_committed_def committed_def)

theorem ready_iff_covered_witness:
  "\<exists>p. readiness_report sample_net sample_answers owing_db = Inr p \<and> rd_warning p = None \<and> rd_expected p = 13000"
proof -
  have "\<exists>p. readiness_report sample_net sample_answers owing_db = Inr p"
    using owing_snapshot
    by (auto simp: readiness_report_def report_with_probe_def owing_terms owing_liabilities ledger_snapshot_def
        Let_def simp del: observe.simps split: sum.splits)
  then obtain p where p: "readiness_report sample_net sample_answers owing_db = Inr p" ..
  have e: "expected_of owing_books = 13000"
    by (simp add: owing_books_def expected_of_def rc_committed_def committed_def saturating_sub_def)
  have "rd_warning p = None \<and> rd_expected p = 13000"
    using ready_iff_covered [OF p]
    by (simp add: owing_liabilities owing_snapshot e)
       (simp add: sample_answers_def parked_refund_def unpriced_def refund_liability_of_def sample_refund_def
         pending_required_msat_def owed_msat_def owing_books_def committed_in_def snapshot_refund_def rc_committed_def
         committed_def)
  with p show ?thesis by blast
qed

end
