(* ===== verification/Relay_Status.thy ===== *)
theory Relay_Status
  imports Alerts
begin

text \<open>
  The relay pool as the operator sees it, \<open>daemon/src/relay_status.rs\<close>, and the alert that follows
  from it, \<open>refresh_relay_status\<close> of \<open>daemon/src/supervisor.rs\<close>: one alert for each window in which
  every relay has been disconnected for fifteen minutes.
\<close>

definition relay_blackout_alert_s :: int where "relay_blackout_alert_s = 15 * 60"

record relay_row =
  rw_url :: string
  rw_connected :: bool
  rw_status :: string
  rw_last :: "int option"

definition project_relay :: "string \<Rightarrow> string \<Rightarrow> bool \<Rightarrow> nat \<Rightarrow> relay_row" where
  "project_relay url status connected at =
     \<lparr>rw_url = url, rw_connected = connected, rw_status = status,
      rw_last = (if at = 0 then None else Some (as_i64 at))\<rparr>"

definition all_disconnected :: "relay_row list \<Rightarrow> bool" where
  "all_disconnected rows \<longleftrightarrow> rows \<noteq> [] \<and> list_all (\<lambda>r. \<not> rw_connected r) rows"

definition relay_json :: "relay_row \<Rightarrow> json" where
  "relay_json r = JObj [(''url'', JStr (rw_url r)), (''connected'', JBool (rw_connected r)),
     (''status'', JStr (rw_status r)), (''last_connected_at'', json_of_int (rw_last r))]"

record blackout_monitor =
  bm_onset :: "int option"
  bm_fired :: bool

definition new_monitor :: blackout_monitor where
  "new_monitor = \<lparr>bm_onset = None, bm_fired = False\<rparr>"

text \<open>\<open>onset_due\<close>. The saturating subtraction of two clock readings is taken in \<open>int\<close>.\<close>

definition onset_due :: "relay_row list \<Rightarrow> int \<Rightarrow> blackout_monitor \<Rightarrow> bool \<times> blackout_monitor" where
  "onset_due rows now m =
     (if all_disconnected rows
      then (let onset = unwrap_or (bm_onset m) now
            in (\<not> bm_fired m \<and> relay_blackout_alert_s \<le> now - onset, m\<lparr>bm_onset := Some onset\<rparr>))
      else (False, new_monitor))"

definition mark_fired :: "blackout_monitor \<Rightarrow> blackout_monitor" where
  "mark_fired m = (if bm_onset m = None then m else m\<lparr>bm_fired := True\<rparr>)"

definition blackout_detail :: "nat \<Rightarrow> string" where
  "blackout_detail n =
     ''all '' @ nat_str n @ '' configured relay(s) have been disconnected for over 15min. Inbound orders and '' @
     ''outbound refund/billing DMs are not flowing. This alert itself queues until a relay '' @
     ''reconnects '' @ em_dash @ '' check relay reachability (`lnrent relays` reads the pool out-of-band).''"

record relay_watch =
  rv_cell :: "relay_row list"
  rv_monitor :: blackout_monitor
  rv_alerts :: dispatcher
  rv_db :: db

text \<open>One tick. \<open>fault\<close> is the failure of the store when the alert is enqueued, if any.\<close>

definition refresh_relay_status ::
  "(string \<Rightarrow> string) \<Rightarrow> store_error option \<Rightarrow> relay_row list \<Rightarrow> int \<Rightarrow> relay_watch \<Rightarrow> relay_watch" where
  "refresh_relay_status h fault rows now w =
     (case onset_due rows now (rv_monitor w) of
        (False, m) \<Rightarrow> w\<lparr>rv_monitor := m, rv_cell := rows\<rparr>
      | (True, m) \<Rightarrow>
          (case dispatch h fault now \<lparr>al_kind = RelayBlackout,
                  al_subject = ''relay-pool@'' @ int_str (unwrap_or (bm_onset m) now),
                  al_detail = blackout_detail (length rows)\<rparr> (rv_alerts w, rv_db w) of
             (Inr _, p, d) \<Rightarrow> w\<lparr>rv_monitor := mark_fired m, rv_alerts := p, rv_db := d, rv_cell := rows\<rparr>
           | (Inl _, p, d) \<Rightarrow> w\<lparr>rv_monitor := m, rv_alerts := p, rv_db := d, rv_cell := rows\<rparr>))"

end
