(* ===== verification/Wire_Listing.thy ===== *)
theory Wire_Listing
  imports Wire_Dm Recipe
begin

text \<open>
  The published listing, \<open>wire/src/listing.rs\<close>: building the tags and the content of a kind 30402 event
  from a listing and reading a signed event back. Signing and checking an event and the text of a JSON
  value are the libraries' part: an event is the record \<open>listing_event\<close>, and \<open>valid_key\<close> is
  \<open>PublicKey::from_hex(..).is_ok()\<close>. A parameter declaration has the shape of the recipe's.
\<close>

definition listing_kind :: nat where "listing_kind = 30402"
definition schema_version :: nat where "schema_version = 1"

record operation_decl =
  od_name :: string
  od_label :: string
  od_kind :: string
  od_params :: "param_spec list"

record listing =
  ls_d :: string
  ls_operator :: string
  ls_recipe :: string
  ls_recipe_version :: string
  ls_title :: string
  ls_summary :: string
  ls_amount :: nat
  ls_period :: string
  ls_params :: "param_spec list"
  ls_operations :: "operation_decl list"
  ls_tier :: "string option"
  ls_version :: nat

record listing_event =
  le_kind :: nat
  le_pubkey :: string
  le_verified :: bool
  le_tags :: "string list list"
  le_content :: json

datatype listing_error =
    NotListing
  | BadEvent
  | MissingField string
  | TooMany string nat
  | UnsupportedSchemaVersion nat
  | InvalidPriceAmount string
  | InvalidPriceCurrency string
  | InvalidOperator string
  | BadJson

subsection \<open>Bounded arrays\<close>

text \<open>\<open>deserialize_bounded\<close>: an element is read, then the bound is checked, then it is kept.\<close>

fun read_bounded :: "nat \<Rightarrow> (json \<Rightarrow> 'a option) \<Rightarrow> 'a list \<Rightarrow> json list \<Rightarrow> 'a list option" where
  "read_bounded mx dec out [] = Some out"
| "read_bounded mx dec out (j # js) =
     (case dec j of
        None \<Rightarrow> None
      | Some x \<Rightarrow> if mx \<le> length out then None else read_bounded mx dec (out @ [x]) js)"

definition bounded_array :: "nat \<Rightarrow> (json \<Rightarrow> 'a option) \<Rightarrow> string \<Rightarrow> json \<Rightarrow> 'a list option" where
  "bounded_array mx dec k j =
     (case json_get k j of None \<Rightarrow> Some [] | Some (JArr js) \<Rightarrow> read_bounded mx dec [] js | Some _ \<Rightarrow> None)"

subsection \<open>The content\<close>

definition param_json :: "param_spec \<Rightarrow> json" where
  "param_json p = JObj [(''key'', JStr (pm_key p)), (''label'', JStr (pm_label p)), (''type'', JStr (pm_type p)),
     (''required'', JBool (pm_required p))]"

definition param_of :: "json \<Rightarrow> param_spec option" where
  "param_of j =
     (case (json_text ''key'' j, json_text ''label'' j, json_text ''type'' j,
            if json_get ''required'' j = None then Some False else get_bool ''required'' j) of
        (Some k, Some l, Some t, Some r) \<Rightarrow> Some \<lparr>pm_key = k, pm_label = l, pm_type = t, pm_required = r\<rparr>
      | _ \<Rightarrow> None)"

definition operation_json :: "operation_decl \<Rightarrow> json" where
  "operation_json o' = JObj [(''name'', JStr (od_name o')), (''label'', JStr (od_label o')), (''kind'', JStr (od_kind o')),
     (''params'', JArr (map param_json (od_params o')))]"

definition operation_of_json :: "json \<Rightarrow> operation_decl option" where
  "operation_of_json j =
     (case (json_text ''name'' j, json_text ''label'' j, json_text ''kind'' j,
            bounded_array max_listing_params param_of ''params'' j) of
        (Some n, Some l, Some k, Some ps) \<Rightarrow> Some \<lparr>od_name = n, od_label = l, od_kind = k, od_params = ps\<rparr>
      | _ \<Rightarrow> None)"

definition listing_content :: "listing \<Rightarrow> json" where
  "listing_content l = JObj [(''lnrent'', JObj ([(''version'', JInt (int (ls_version l))),
      (''recipe'', JObj [(''id'', JStr (ls_recipe l)), (''version'', JStr (ls_recipe_version l))])] @
      opt_member ''tier'' JStr (ls_tier l) @
      [(''params'', JArr (map param_json (ls_params l))), (''operations'', JArr (map operation_json (ls_operations l)))]))]"

record lnrent_meta =
  me_version :: nat
  me_recipe :: string
  me_recipe_version :: string
  me_tier :: "string option"
  me_params :: "param_spec list"
  me_operations :: "operation_decl list"

definition get_u32 :: "string \<Rightarrow> json \<Rightarrow> nat option" where
  "get_u32 k j = (case json_get k j of Some (JInt i) \<Rightarrow> if 0 \<le> i \<and> i < 2 ^ 32 then Some (nat i) else None | _ \<Rightarrow> None)"

definition meta_of :: "json \<Rightarrow> lnrent_meta option" where
  "meta_of c =
     (case json_get ''lnrent'' c of
        None \<Rightarrow> None
      | Some j \<Rightarrow>
          (case (get_u32 ''version'' j, Option.bind (json_get ''recipe'' j) (json_text ''id''),
                 Option.bind (json_get ''recipe'' j) (json_text ''version''), get_opt as_str ''tier'' j,
                 bounded_array max_listing_params param_of ''params'' j,
                 bounded_array max_listing_operations operation_of_json ''operations'' j) of
             (Some v, Some i, Some rv, Some t, Some ps, Some os) \<Rightarrow>
               Some \<lparr>me_version = v, me_recipe = i, me_recipe_version = rv, me_tier = t, me_params = ps, me_operations = os\<rparr>
           | _ \<Rightarrow> None))"

subsection \<open>Building\<close>

definition listing_coordinate :: "string \<Rightarrow> string \<Rightarrow> string" where
  "listing_coordinate pubkey d = nat_str listing_kind @ '':'' @ pubkey @ '':'' @ d"

definition validate_listing :: "(string \<Rightarrow> bool) \<Rightarrow> listing \<Rightarrow> listing_error option" where
  "validate_listing valid_key l =
     (if ls_version l \<noteq> schema_version then Some (UnsupportedSchemaVersion (ls_version l))
      else if ls_d l = [] then Some (MissingField ''d'')
      else if \<not> valid_key (ls_operator l) then Some (InvalidOperator (ls_operator l))
      else if max_listing_params < length (ls_params l) then Some (TooMany ''params'' max_listing_params)
      else if max_listing_operations < length (ls_operations l) then Some (TooMany ''operations'' max_listing_operations)
      else if list_ex (\<lambda>x. max_listing_params < length (od_params x)) (ls_operations l)
      then Some (TooMany ''operation.params'' max_listing_params)
      else None)"

definition listing_tags :: "listing \<Rightarrow> string list list" where
  "listing_tags l = [[''d'', ls_d l], [''title'', ls_title l], [''summary'', ls_summary l],
     [''price'', nat_str (ls_amount l), ''SAT'', ls_period l], [''operator'', ls_operator l]]"

definition build_listing :: "(string \<Rightarrow> bool) \<Rightarrow> listing \<Rightarrow> listing_error + string list list \<times> json" where
  "build_listing valid_key l =
     (case validate_listing valid_key l of
        Some e \<Rightarrow> Inl e
      | None \<Rightarrow> Inr (listing_tags l, listing_content l))"

subsection \<open>Reading\<close>

record tag_scan =
  ts_d :: "string option"
  ts_title :: "string option"
  ts_summary :: "string option"
  ts_operator :: "string option"
  ts_amount :: "nat option"
  ts_period :: "string option"

definition no_tags :: tag_scan where
  "no_tags = \<lparr>ts_d = None, ts_title = None, ts_summary = None, ts_operator = None, ts_amount = None, ts_period = None\<rparr>"

definition nth_opt :: "'a list \<Rightarrow> nat \<Rightarrow> 'a option" where
  "nth_opt xs n = (if n < length xs then Some (xs ! n) else None)"

definition price_tag :: "string list \<Rightarrow> listing_error + nat \<times> string" where
  "price_tag s =
     (case nth_opt s 1 of
        None \<Rightarrow> Inl (MissingField ''price.amount'')
      | Some amount \<Rightarrow>
          (case nth_opt s 2 of
             None \<Rightarrow> Inl (MissingField ''price.currency'')
           | Some currency \<Rightarrow>
               (case nth_opt s 3 of
                  None \<Rightarrow> Inl (MissingField ''price.frequency'')
                | Some frequency \<Rightarrow>
                    if currency \<noteq> ''SAT'' then Inl (InvalidPriceCurrency currency)
                    else (case parse_u64 amount of
                      None \<Rightarrow> Inl (InvalidPriceAmount amount)
                    | Some a \<Rightarrow> Inr (a, frequency)))))"

definition scan_tag :: "string list \<Rightarrow> tag_scan \<Rightarrow> listing_error + tag_scan" where
  "scan_tag s t =
     (let k = nth_opt s 0
      in if k = Some ''d'' \<and> ts_d t = None then Inr (t\<lparr>ts_d := nth_opt s 1\<rparr>)
         else if k = Some ''title'' \<and> ts_title t = None then Inr (t\<lparr>ts_title := nth_opt s 1\<rparr>)
         else if k = Some ''summary'' \<and> ts_summary t = None then Inr (t\<lparr>ts_summary := nth_opt s 1\<rparr>)
         else if k = Some ''operator'' \<and> ts_operator t = None then Inr (t\<lparr>ts_operator := nth_opt s 1\<rparr>)
         else if k = Some ''price'' \<and> ts_amount t = None
         then map_sum id (\<lambda>(a, p). t\<lparr>ts_amount := Some a, ts_period := Some p\<rparr>) (price_tag s)
         else Inr t)"

fun scan_tags :: "string list list \<Rightarrow> tag_scan \<Rightarrow> listing_error + tag_scan" where
  "scan_tags [] t = Inr t"
| "scan_tags (s # ss) t = (case scan_tag s t of Inl e \<Rightarrow> Inl e | Inr t' \<Rightarrow> scan_tags ss t')"

text \<open>The checks after the scan, in the code's order; the result is the listing and its coordinate.\<close>

definition listing_of_scan :: "(string \<Rightarrow> bool) \<Rightarrow> listing_event \<Rightarrow> tag_scan \<Rightarrow> listing_error + listing \<times> string" where
  "listing_of_scan valid_key e t =
     (case ts_d t of
        None \<Rightarrow> Inl (MissingField ''d'')
      | Some d \<Rightarrow>
          if d = [] then Inl (MissingField ''d'')
          else (case meta_of (le_content e) of
            None \<Rightarrow> Inl BadJson
          | Some m \<Rightarrow>
              if me_version m \<noteq> schema_version then Inl (UnsupportedSchemaVersion (me_version m))
              else (case ts_operator t of
                None \<Rightarrow> Inl (MissingField ''operator'')
              | Some op \<Rightarrow>
                  if \<not> valid_key op then Inl (InvalidOperator op)
                  else (case ts_title t of
                    None \<Rightarrow> Inl (MissingField ''title'')
                  | Some title \<Rightarrow>
                      (case ts_summary t of
                         None \<Rightarrow> Inl (MissingField ''summary'')
                       | Some summary \<Rightarrow>
                           (case ts_amount t of
                              None \<Rightarrow> Inl (MissingField ''price.amount'')
                            | Some amount \<Rightarrow>
                                (case ts_period t of
                                   None \<Rightarrow> Inl (MissingField ''price.frequency'')
                                 | Some period \<Rightarrow>
                                     Inr (\<lparr>ls_d = d, ls_operator = op, ls_recipe = me_recipe m,
                                            ls_recipe_version = me_recipe_version m, ls_title = title,
                                            ls_summary = summary, ls_amount = amount, ls_period = period,
                                            ls_params = me_params m, ls_operations = me_operations m,
                                            ls_tier = me_tier m, ls_version = me_version m\<rparr>,
                                          listing_coordinate (le_pubkey e) d))))))))"

definition parse_listing :: "(string \<Rightarrow> bool) \<Rightarrow> listing_event \<Rightarrow> listing_error + listing \<times> string" where
  "parse_listing valid_key e =
     (if le_kind e \<noteq> listing_kind then Inl NotListing
      else if \<not> le_verified e then Inl BadEvent
      else (case scan_tags (le_tags e) no_tags of
        Inl err \<Rightarrow> Inl err
      | Inr t \<Rightarrow> listing_of_scan valid_key e t))"

subsection \<open>Reading back what was built\<close>

lemma read_bounded_encode:
  assumes "\<And>x. x \<in> set xs \<Longrightarrow> dec (enc x) = Some x" "length out + length xs \<le> mx"
  shows "read_bounded mx dec out (map enc xs) = Some (out @ xs)"
  using assms by (induction xs arbitrary: out) simp_all

lemma read_bounded_length: "read_bounded mx dec out js = Some xs \<Longrightarrow> length out \<le> mx \<Longrightarrow> length xs \<le> mx"
  by (induction js arbitrary: out) (auto split: option.splits if_splits)

lemma read_bounded_elem:
  "read_bounded mx dec out js = Some xs \<Longrightarrow> x \<in> set xs \<Longrightarrow> x \<in> set out \<or> (\<exists>j. dec j = Some x)"
proof (induction js arbitrary: out)
  case (Cons j js)
  from Cons.prems obtain y where y: "dec j = Some y" "read_bounded mx dec (out @ [y]) js = Some xs"
    by (auto split: option.splits if_splits)
  from Cons.IH [OF y(2) Cons.prems(2)] y(1) show ?case by auto
qed simp

lemma bounded_array_length: "bounded_array mx dec k j = Some xs \<Longrightarrow> length xs \<le> mx"
  by (auto simp: bounded_array_def split: option.splits json.splits dest: read_bounded_length)

lemma param_roundtrip [simp]: "param_of (param_json p) = Some p"
  by (cases p) (simp add: param_of_def param_json_def get_bool_def json_getters)

lemma operation_roundtrip: "length (od_params x) \<le> max_listing_params \<Longrightarrow> operation_of_json (operation_json x) = Some x"
  by (cases x) (simp add: operation_of_json_def operation_json_def json_getters bounded_array_def read_bounded_encode)

lemma is_digit_nat_str: "list_all is_digit (nat_str n) \<and> nat_str n \<noteq> [] \<and> hd (nat_str n) \<noteq> CHR ''+''"
proof (induction n rule: nat_str.induct)
  case (1 n)
  have digit: "is_digit (digit_char d) \<and> digit_char d \<noteq> CHR ''+''" if "d < 10" for d
  proof -
    have code: "(of_char (digit_char d) :: nat) = 48 + d" using that by (simp add: digit_char_def)
    have "digit_char d \<noteq> CHR ''+''"
    proof
      assume "digit_char d = CHR ''+''"
      with code show False by simp
    qed
    with code that show ?thesis by (simp add: is_digit_def)
  qed
  show ?case
  proof (cases "n < 10")
    case True
    with digit show ?thesis by (simp add: nat_str.simps [of n])
  next
    case False
    with 1 digit [of "n mod 10"] show ?thesis by (simp add: nat_str.simps [of n] hd_append)
  qed
qed

lemma parse_nat_str:
  assumes "n < 2 ^ 64"
  shows "parse_u64 (nat_str n) = Some n"
proof -
  from is_digit_nat_str [of n] obtain c cs where s: "nat_str n = c # cs" "c \<noteq> CHR ''+''" "list_all is_digit (c # cs)"
    by (cases "nat_str n") auto
  have v: "digits_val (c # cs) = n" using digits_val_nat_str [of n] by (simp add: s(1))
  have t: "(case nat_str n of x # xs \<Rightarrow> if x = CHR ''+'' then xs else nat_str n | [] \<Rightarrow> []) = c # cs"
    by (simp add: s(1) s(2))
  show ?thesis unfolding parse_u64_def Let_def t using v s(3) assms by simp
qed

lemma valid_listing_bounds:
  assumes "validate_listing valid_key l = None"
  shows "ls_version l = schema_version" "ls_d l \<noteq> []" "valid_key (ls_operator l)"
    "length (ls_params l) \<le> max_listing_params" "length (ls_operations l) \<le> max_listing_operations"
    "\<And>x. x \<in> set (ls_operations l) \<Longrightarrow> length (od_params x) \<le> max_listing_params"
  using assms by (force simp: validate_listing_def list_ex_iff split: if_split_asm)+

lemma meta_roundtrip:
  assumes "validate_listing valid_key l = None"
  shows "meta_of (listing_content l) = Some \<lparr>me_version = ls_version l, me_recipe = ls_recipe l,
     me_recipe_version = ls_recipe_version l, me_tier = ls_tier l, me_params = ls_params l, me_operations = ls_operations l\<rparr>"
proof -
  note b = valid_listing_bounds [OF assms]
  have ps: "read_bounded max_listing_params param_of [] (map param_json (ls_params l)) = Some (ls_params l)"
    using b(4) by (simp add: read_bounded_encode)
  have os: "read_bounded max_listing_operations operation_of_json [] (map operation_json (ls_operations l)) = Some (ls_operations l)"
    using b(5,6) by (simp add: read_bounded_encode operation_roundtrip)
  have v: "get_u32 ''version'' (JObj ((''version'', JInt (int (ls_version l))) # r)) = Some (ls_version l)" for r
    by (simp add: get_u32_def json_getters b(1) schema_version_def)
  show ?thesis
    by (cases "ls_tier l")
       (simp_all add: meta_of_def listing_content_def v bounded_array_def ps os json_getters
         get_opt_absent get_opt_present)
qed

text \<open>The event a signed builder becomes: the author is the signer's key, the tags and the content are the builder's.\<close>

definition signed_listing :: "string \<Rightarrow> string list list \<times> json \<Rightarrow> listing_event" where
  "signed_listing pubkey = (\<lambda>(tags, content). \<lparr>le_kind = listing_kind, le_pubkey = pubkey, le_verified = True,
     le_tags = tags, le_content = content\<rparr>)"

lemma scan_listing_tags:
  assumes "ls_amount l < 2 ^ 64"
  shows "scan_tags (listing_tags l) no_tags = Inr \<lparr>ts_d = Some (ls_d l), ts_title = Some (ls_title l),
     ts_summary = Some (ls_summary l), ts_operator = Some (ls_operator l), ts_amount = Some (ls_amount l),
     ts_period = Some (ls_period l)\<rparr>"
  using parse_nat_str [OF assms] by (simp add: listing_tags_def scan_tag_def price_tag_def nth_opt_def no_tags_def)

lemma listing_of_scan_ok:
  assumes "listing_of_scan valid_key e t = Inr (l, c)"
  shows "ls_d l \<noteq> []" "ls_version l = schema_version" "valid_key (ls_operator l)" "c = listing_coordinate (le_pubkey e) (ls_d l)"
    "\<exists>m. meta_of (le_content e) = Some m \<and> ls_params l = me_params m \<and> ls_operations l = me_operations m"
  using assms by (auto simp: listing_of_scan_def split: option.splits if_splits)

lemma operation_of_json_bound: "operation_of_json j = Some x \<Longrightarrow> length (od_params x) \<le> max_listing_params"
  by (auto simp: operation_of_json_def split: option.splits dest: bounded_array_length)

lemma meta_of_bounds:
  assumes "meta_of c = Some m"
  shows "length (me_params m) \<le> max_listing_params" "length (me_operations m) \<le> max_listing_operations"
    "\<And>x. x \<in> set (me_operations m) \<Longrightarrow> length (od_params x) \<le> max_listing_params"
proof -
  from assms obtain j where p: "bounded_array max_listing_params param_of ''params'' j = Some (me_params m)"
    and q: "bounded_array max_listing_operations operation_of_json ''operations'' j = Some (me_operations m)"
    by (auto simp: meta_of_def split: option.splits)
  show "length (me_params m) \<le> max_listing_params" using bounded_array_length [OF p] .
  show "length (me_operations m) \<le> max_listing_operations" using bounded_array_length [OF q] .
  show "length (od_params x) \<le> max_listing_params" if "x \<in> set (me_operations m)" for x
    using q that operation_of_json_bound
    by (auto simp: bounded_array_def split: option.splits json.splits dest: read_bounded_elem)
qed

text \<open>Reading back a listing. Whatever listing the builder accepts, with a price that is a u64, is read
  back from its signed event exactly as it was written, under the coordinate its author and its d tag give;
  and whatever event a reader accepts, whoever built it, gives a listing the builder's own checks accept,
  so a hostile event cannot hand a client an empty d tag, an unknown schema version, a key that is no key
  or an oversized parameter or operation list.\<close>

theorem listing_roundtrip:
  "(\<forall>l b pubkey. build_listing valid_key l = Inr b \<longrightarrow> ls_amount l < 2 ^ 64 \<longrightarrow>
      parse_listing valid_key (signed_listing pubkey b) = Inr (l, listing_coordinate pubkey (ls_d l))) \<and>
   (\<forall>e l c. parse_listing valid_key e = Inr (l, c) \<longrightarrow>
      le_verified e \<and> le_kind e = listing_kind \<and> build_listing valid_key l = Inr (listing_tags l, listing_content l) \<and>
      c = listing_coordinate (le_pubkey e) (ls_d l))"
proof (intro conjI allI impI)
  fix l b pubkey
  assume "build_listing valid_key l = Inr b" and a: "ls_amount l < 2 ^ 64"
  then have v: "validate_listing valid_key l = None" and b: "b = (listing_tags l, listing_content l)"
    by (auto simp: build_listing_def split: option.splits)
  show "parse_listing valid_key (signed_listing pubkey b) = Inr (l, listing_coordinate pubkey (ls_d l))"
    using valid_listing_bounds [OF v]
    by (simp add: parse_listing_def signed_listing_def b scan_listing_tags [OF a] listing_of_scan_def meta_roundtrip [OF v])
next
  fix e l c
  assume "parse_listing valid_key e = Inr (l, c)"
  then obtain t where kv: "le_verified e" "le_kind e = listing_kind" and s: "listing_of_scan valid_key e t = Inr (l, c)"
    by (auto simp: parse_listing_def split: if_splits sum.splits)
  note q = listing_of_scan_ok [OF s]
  from q(5) obtain m where m: "meta_of (le_content e) = Some m" "ls_params l = me_params m" "ls_operations l = me_operations m"
    by blast
  have "list_ex (\<lambda>x. max_listing_params < length (od_params x)) (ls_operations l) = False"
    using meta_of_bounds(3) [OF m(1)] m(3) by (auto simp: list_ex_iff not_less)
  then have "validate_listing valid_key l = None"
    using q(1-3) meta_of_bounds(1,2) [OF m(1)] m(2,3) by (simp add: validate_listing_def)
  then show "build_listing valid_key l = Inr (listing_tags l, listing_content l)" by (simp add: build_listing_def)
  show "le_verified e" "le_kind e = listing_kind" "c = listing_coordinate (le_pubkey e) (ls_d l)"
    using kv q(4) by simp_all
qed

definition sample_listing :: listing where
  "sample_listing = \<lparr>ls_d = ''vps'', ls_operator = ''ab'', ls_recipe = ''shell'', ls_recipe_version = ''1.0'',
     ls_title = ''VPS'', ls_summary = ''one'', ls_amount = 2500, ls_period = ''30d'',
     ls_params = [\<lparr>pm_key = ''ssh_key'', pm_label = ''Key'', pm_type = ''string'', pm_required = True\<rparr>],
     ls_operations = [], ls_tier = None, ls_version = 1\<rparr>"

lemma sample_listing_builds:
  "build_listing (\<lambda>k. k = ''ab'') sample_listing = Inr (listing_tags sample_listing, listing_content sample_listing)"
  by (simp add: build_listing_def validate_listing_def sample_listing_def schema_version_def max_listing_params_def
      max_listing_operations_def)

theorem listing_roundtrip_witness:
  "parse_listing (\<lambda>k. k = ''ab'') (signed_listing ''cd'' (listing_tags sample_listing, listing_content sample_listing)) =
     Inr (sample_listing, listing_coordinate ''cd'' ''vps'')"
  using listing_roundtrip [of "\<lambda>k. k = ''ab''", THEN conjunct1, rule_format, OF sample_listing_builds, of "''cd''"]
  by (simp add: sample_listing_def)

end
