(* ===== verification/Listing.thy ===== *)
theory Listing
  imports Preflight Wire_Listing Store
begin

text \<open>
  The publication gate, \<open>daemon/src/listing.rs\<close>, with \<open>duration_secs\<close> of \<open>daemon/src/supervisor.rs\<close>: the
  durable state of a listing, the republication at boot, \<open>listing publish\<close> with its compare-and-swap and
  \<open>listing withdraw\<close> with its epoch.

  Each operation below is what the code runs while it holds the \<open>TRANSITION\<close> lock; \<open>publish\<close> is two of
  them, the snapshot and the gate, with the unlocked probes in between. The relay is a parameter that may
  change everything else of the daemon while it is awaited; a failure is the text of its error, a time-out
  \<open>TimedOut\<close>.
\<close>

subsection \<open>Durations\<close>

definition default_duration_s :: int where "default_duration_s = 30 * 86400"

definition saturating_mul_i64 :: "int \<Rightarrow> int \<Rightarrow> int" where
  "saturating_mul_i64 a b = max (- (2 ^ 63)) (min (2 ^ 63 - 1) (a * b))"

definition duration_unit :: "string \<Rightarrow> string \<times> int" where
  "duration_unit s =
     (let c = List.last s in
      if c = CHR ''s'' then (butlast s, 1)
      else if c = CHR ''m'' then (butlast s, 60)
      else if c = CHR ''h'' then (butlast s, 3600)
      else if c = CHR ''d'' then (butlast s, 86400)
      else if c = CHR ''w'' then (butlast s, 604800)
      else (s, 1))"

definition duration_secs :: "string \<Rightarrow> int" where
  "duration_secs text =
     (let s = str_trim text in
      if s = [] then default_duration_s
      else (case duration_unit s of (num, factor) \<Rightarrow>
        (case parse_i64 (str_trim num) of
           Some n \<Rightarrow> if 0 < n then saturating_mul_i64 n factor else default_duration_s
         | None \<Rightarrow> default_duration_s)))"

subsection \<open>The row\<close>

record 'w desk =
  dk_store :: store
  dk_epoch :: nat \<comment> \<open>\<open>Store::listing_withdraw_epoch\<close>\<close>
  dk_world :: 'w

abbreviation dk_db :: "'w desk \<Rightarrow> db" where "dk_db k \<equiv> st_db (dk_store k)"

definition dk_tx :: "'a tx \<Rightarrow> 'w desk \<Rightarrow> (store_error + 'a) \<times> 'w desk" where
  "dk_tx f k = (case transaction f None None (dk_store k) of (r, st) \<Rightarrow> (r, k\<lparr>dk_store := st\<rparr>))"

definition d_tag :: "recipe \<Rightarrow> string" where "d_tag R = rc_id R"

definition coordinate :: "recipe \<Rightarrow> string \<Rightarrow> string" where
  "coordinate R operator = listing_coordinate operator (d_tag R)"

definition refreshed_row :: "recipe \<Rightarrow> int \<Rightarrow> listing_row \<Rightarrow> listing_row" where
  "refreshed_row R now l = l\<lparr>li_recipe := Some (rc_id R), li_d := Some (d_tag R), li_amount := Some (as_i64 (rc_amount R)),
     li_period := Some (duration_secs (rc_period R)), li_lead := Some (duration_secs (rc_renew_lead R)),
     li_retention := Some (duration_secs (rc_retention R)), li_updated := Some now\<rparr>"

definition fresh_row :: "recipe \<Rightarrow> string \<Rightarrow> int \<Rightarrow> listing_row" where
  "fresh_row R i now = refreshed_row R now \<lparr>li_id = i, li_recipe = None, li_d = None, li_event = None, li_amount = None,
     li_period = None, li_lead = None, li_retention = None, li_state = Some ''UNPUBLISHED'', li_updated = None\<rparr>"

definition upsert_row_txn :: "recipe \<Rightarrow> string \<Rightarrow> int \<Rightarrow> unit tx" where
  "upsert_row_txn R i now d =
     Inr ((), d\<lparr>listings := if \<exists>l\<in>set (listings d). li_id l = i
                      then update_where (\<lambda>l. li_id l = i) (refreshed_row R now) (listings d)
                      else listings d @ [fresh_row R i now]\<rparr>)"

definition upsert_row :: "recipe \<Rightarrow> string \<Rightarrow> int \<Rightarrow> 'w desk \<Rightarrow> (store_error + unit) \<times> 'w desk" where
  "upsert_row R i now k =
     (case dk_tx (upsert_row_txn R i now) k of
        (Inl e, k') \<Rightarrow> (Inl (Context ''upserting durable listing row'' e), k')
      | (Inr u, k') \<Rightarrow> (Inr u, k'))"

definition listing_state :: "string \<Rightarrow> db \<Rightarrow> string option" where
  "listing_state i d = map_option (\<lambda>l. unwrap_or (li_state l) []) (List.find (\<lambda>l. li_id l = i) (listings d))"

definition is_published :: "string \<Rightarrow> db \<Rightarrow> bool" where
  "is_published i d \<longleftrightarrow> listing_state i d = Some ''ACTIVE''"

definition set_state_txn :: "string \<Rightarrow> string \<Rightarrow> bool \<Rightarrow> int \<Rightarrow> unit tx" where
  "set_state_txn i s clear_event now d =
     (if count_where (\<lambda>l. li_id l = i) (listings d) = 0 then Inl (Bail (''listing row `'' @ i @ ''` does not exist''))
      else Inr ((), d\<lparr>listings := update_where (\<lambda>l. li_id l = i)
             (\<lambda>l. l\<lparr>li_state := Some s, li_updated := Some now, li_event := (if clear_event then None else li_event l)\<rparr>)
             (listings d)\<rparr>))"

definition set_state :: "string \<Rightarrow> string \<Rightarrow> bool \<Rightarrow> int \<Rightarrow> 'w desk \<Rightarrow> (store_error + unit) \<times> 'w desk" where
  "set_state i s clear_event now k =
     (case dk_tx (set_state_txn i s clear_event now) k of
        (Inl e, k') \<Rightarrow> (Inl (Context (''marking the durable listing '' @ s) e), k')
      | (Inr u, k') \<Rightarrow> (Inr u, k'))"

subsection \<open>The relay\<close>

record 'w relay =
  rl_pubkey :: string
  rl_publish :: "recipe \<Rightarrow> string \<Rightarrow> string \<Rightarrow> 'w desk \<Rightarrow> string answer \<times> 'w desk"
  rl_retract :: "string \<Rightarrow> 'w desk \<Rightarrow> unit answer \<times> 'w desk"

definition record_event_txn :: "string \<Rightarrow> string \<Rightarrow> unit tx" where
  "record_event_txn i ev d =
     Inr ((), d\<lparr>listings := update_where (\<lambda>l. li_id l = i) (\<lambda>l. l\<lparr>li_event := Some ev\<rparr>) (listings d)\<rparr>)"

definition publish_event ::
  "'w relay \<Rightarrow> recipe \<Rightarrow> string \<Rightarrow> string \<Rightarrow> 'w desk \<Rightarrow> (string + string \<times> store_error option) \<times> 'w desk" where
  "publish_event L R i operator k =
     (case rl_publish L R (d_tag R) operator k of
        (TimedOut, k1) \<Rightarrow> (Inl ''relay publish timed out after 10s'', k1)
      | (Failed e, k1) \<Rightarrow> (Inl e, k1)
      | (Answered ev, k1) \<Rightarrow>
          (case dk_tx (record_event_txn i ev) k1 of
             (Inr _, k2) \<Rightarrow> (Inr (ev, None), k2)
           | (Inl e, k2) \<Rightarrow> (Inr (ev, Some (Context ''recording the published listing event id'' e)), k2)))"

definition retract_from_relays :: "'w relay \<Rightarrow> recipe \<Rightarrow> 'w desk \<Rightarrow> string option \<times> 'w desk" where
  "retract_from_relays L R k =
     (case rl_retract L (d_tag R) k of
        (Answered _, k') \<Rightarrow> (None, k')
      | (Failed e, k') \<Rightarrow> (Some e, k')
      | (TimedOut, k') \<Rightarrow> (Some ''relay retraction timed out after 10s'', k'))"

subsection \<open>Boot\<close>

definition republish_on_boot :: "'w relay \<Rightarrow> recipe \<Rightarrow> int \<Rightarrow> 'w desk \<Rightarrow> (store_error + unit) \<times> 'w desk" where
  "republish_on_boot L R now k =
     (let i = coordinate R (rl_pubkey L) in
      case upsert_row R i now k of
        (Inl e, k1) \<Rightarrow> (Inl e, k1)
      | (Inr _, k1) \<Rightarrow>
          if unwrap_or (listing_state i (dk_db k1)) [] \<noteq> ''ACTIVE'' then (Inr (), k1)
          else (Inr (), snd (publish_event L R i (rl_pubkey L) k1)))"

subsection \<open>Publish\<close>

record published =
  pb_listing :: string
  pb_event :: "string option"
  pb_relay_error :: "string option"
  pb_persist_error :: "store_error option"
  pb_warnings :: "preflight_check list"

datatype publish_outcome =
    Published published
  | AlreadyPublished published
  | BlockedStructural "preflight_check list" bool
  | BlockedUnverified "preflight_check list" bool
  | Superseded string string

record publish_snapshot =
  sn_state :: string
  sn_epoch :: nat

definition take_snapshot :: "string \<Rightarrow> 'w desk \<Rightarrow> publish_snapshot" where
  "take_snapshot i k = \<lparr>sn_state = unwrap_or (listing_state i (dk_db k)) [], sn_epoch = dk_epoch k\<rparr>"

definition failed_checks :: "bool \<Rightarrow> preflight_check list \<Rightarrow> preflight_check list" where
  "failed_checks reachability cs = filter (\<lambda>c. \<not> pf_ok c \<and> (pf_class c = Some Reachability) = reachability) cs"

definition no_recipe :: store_error where
  "no_recipe = Bail ''no recipe is loaded, so there is nothing to publish''"

text \<open>What a publish does once the gates let it through: refresh the row, set its state, broadcast.\<close>

definition bring_up ::
  "'w relay \<Rightarrow> recipe \<Rightarrow> bool \<Rightarrow> preflight_check list \<Rightarrow> int \<Rightarrow> 'w desk \<Rightarrow> (store_error + publish_outcome) \<times> 'w desk" where
  "bring_up L R was_active unverified now k =
     (let operator = rl_pubkey L; i = coordinate R operator
      in case upsert_row R i now k of
        (Inl e, k1) \<Rightarrow> (Inl e, k1)
      | (Inr _, k1) \<Rightarrow>
          (case (if was_active then (Inr (), k1) else set_state i ''ACTIVE'' True now k1) of
             (Inl e, k2) \<Rightarrow> (Inl e, k2)
           | (Inr _, k2) \<Rightarrow>
               (case publish_event L R i operator k2 of (broadcast, k3) \<Rightarrow>
                  (let out = (case broadcast of
                       Inr (ev, warning) \<Rightarrow> \<lparr>pb_listing = i, pb_event = Some ev, pb_relay_error = None,
                         pb_persist_error = warning, pb_warnings = unverified\<rparr>
                     | Inl e \<Rightarrow> \<lparr>pb_listing = i, pb_event = None, pb_relay_error = Some e,
                         pb_persist_error = None, pb_warnings = unverified\<rparr>)
                   in (Inr (if was_active then AlreadyPublished out else Published out), k3)))))"

definition publish_gated ::
  "'w relay \<Rightarrow> recipe list \<Rightarrow> bool \<Rightarrow> preflight_check list \<Rightarrow> publish_snapshot option \<Rightarrow> int \<Rightarrow> 'w desk
     \<Rightarrow> (store_error + publish_outcome) \<times> 'w desk" where
  "publish_gated L Rs accept_unverified checks observed now k =
     (case Rs of
        [] \<Rightarrow> (Inl no_recipe, k)
      | R # _ \<Rightarrow>
        (let i = coordinate R (rl_pubkey L);
             current = unwrap_or (listing_state i (dk_db k)) [];
             was_active = (current = ''ACTIVE'');
             structural = failed_checks False checks;
             unverified = failed_checks True checks
         in if (case observed of None \<Rightarrow> False | Some s \<Rightarrow> sn_state s \<noteq> current \<or> sn_epoch s \<noteq> dk_epoch k)
            then (Inr (Superseded i current), k)
            else if structural \<noteq> [] then (Inr (BlockedStructural structural was_active), k)
            else if unverified \<noteq> [] \<and> \<not> accept_unverified then (Inr (BlockedUnverified unverified was_active), k)
            else bring_up L R was_active unverified now k))"

subsection \<open>Withdraw\<close>

datatype withdraw_outcome =
    Withdrawn string "string option"
  | AlreadyWithdrawn string "string option"
  | NotPublished string "string option"

definition withdraw :: "'w relay \<Rightarrow> recipe list \<Rightarrow> int \<Rightarrow> 'w desk \<Rightarrow> (store_error + withdraw_outcome) \<times> 'w desk" where
  "withdraw L Rs now k0 =
     (case Rs of
        [] \<Rightarrow> (Inl (Bail ''no recipe is loaded, so there is nothing to withdraw''), k0)
      | R # _ \<Rightarrow>
        (let k = k0\<lparr>dk_epoch := dk_epoch k0 + 1\<rparr>;
             i = coordinate R (rl_pubkey L);
             s = listing_state i (dk_db k)
         in if s = Some ''WITHDRAWN''
            then (case retract_from_relays L R k of (err, k') \<Rightarrow> (Inr (AlreadyWithdrawn i err), k'))
            else if s = Some ''ACTIVE''
            then (case set_state i ''WITHDRAWN'' False now k of
                (Inl e, k1) \<Rightarrow> (Inl e, k1)
              | (Inr _, k1) \<Rightarrow> (case retract_from_relays L R k1 of (err, k') \<Rightarrow> (Inr (Withdrawn i err), k')))
            else (case retract_from_relays L R k of (err, k') \<Rightarrow> (Inr (NotPublished i err), k'))))"


text \<open>\<open>listing publish\<close>: \<open>meanwhile\<close> is what the other tasks do while the probes run without the lock.\<close>

definition publish ::
  "'w relay \<Rightarrow> recipe list \<Rightarrow> bool \<Rightarrow> probes \<Rightarrow> string option \<Rightarrow> ('w desk \<Rightarrow> 'w desk) \<Rightarrow> int \<Rightarrow> 'w desk
     \<Rightarrow> (store_error + publish_outcome) \<times> 'w desk" where
  "publish L Rs accept_unverified P token meanwhile now k =
     (case Rs of
        [] \<Rightarrow> (Inl no_recipe, k)
      | R # _ \<Rightarrow>
        (let observed = take_snapshot (coordinate R (rl_pubkey L)) k
         in publish_gated L Rs accept_unverified (preflight_checks P Rs token) (Some observed) now (meanwhile k)))"

subsection \<open>What each step does to the state of a listing\<close>

lemma dk_tx_cases:
  assumes "dk_tx f k = (r, k')"
  obtains (refused) e where "r = Inl e" "dk_db k' = dk_db k" "dk_epoch k' = dk_epoch k" "dk_world k' = dk_world k"
  | (committed) x d where "r = Inr x" "f (dk_db k) = Inr (x, d)" "dk_db k' = d" "dk_epoch k' = dk_epoch k"
      "dk_world k' = dk_world k"
  using assms
  by (auto simp: dk_tx_def transaction_def transaction_then_def trip_if_fatal_def split: if_splits sum.splits prod.splits)

lemma find_refreshed:
  "List.find (\<lambda>l. li_id l = j) (update_where (\<lambda>l. li_id l = i) f ls) =
     map_option (\<lambda>l. if li_id l = i then f l else l) (List.find (\<lambda>l. li_id l = j) ls)"
  if "\<And>l. li_id (f l) = li_id l"
  using that by (rule find_update_where_same)

lemma refreshed_sel [simp]:
  "li_id (refreshed_row R now l) = li_id l" "li_state (refreshed_row R now l) = li_state l"
  "li_event (refreshed_row R now l) = li_event l" "li_id (fresh_row R i now) = i"
  "li_state (fresh_row R i now) = Some ''UNPUBLISHED''" "li_event (fresh_row R i now) = None"
  by (simp_all add: refreshed_row_def fresh_row_def)

lemma upsert_state:
  assumes "upsert_row_txn R i now d = Inr (u, d')"
  shows "listing_state j d' = (if j = i \<and> listing_state i d = None then Some ''UNPUBLISHED'' else listing_state j d)"
proof (cases "\<exists>l\<in>set (listings d). li_id l = i")
  case True
  then have "listing_state i d \<noteq> None" by (auto simp: listing_state_def find_None_all)
  moreover have "listings d' = update_where (\<lambda>l. li_id l = i) (refreshed_row R now) (listings d)"
    using assms True by (auto simp: upsert_row_txn_def)
  ultimately show ?thesis
    by (auto simp: listing_state_def find_refreshed option.map_comp comp_def intro: option.map_cong0)
next
  case False
  then have "List.find (\<lambda>l. li_id l = i) (listings d) = None" by (simp add: find_None_all)
  moreover have "listings d' = listings d @ [fresh_row R i now]"
    using assms False by (auto simp: upsert_row_txn_def)
  ultimately show ?thesis by (auto simp: listing_state_def find_append split: option.splits)
qed

lemma upsert_row_state:
  assumes "upsert_row R i now k = (r, k')"
  shows "dk_epoch k' = dk_epoch k" "dk_world k' = dk_world k"
    "listing_state j (dk_db k') = listing_state j (dk_db k) \<or>
       j = i \<and> listing_state i (dk_db k) = None \<and> listing_state i (dk_db k') = Some ''UNPUBLISHED''"
proof -
  obtain r0 where t: "dk_tx (upsert_row_txn R i now) k = (r0, k')"
    using assms by (auto simp: upsert_row_def split: prod.splits sum.splits)
  from t show "dk_epoch k' = dk_epoch k" "dk_world k' = dk_world k" by (auto elim: dk_tx_cases)
  from t show "listing_state j (dk_db k') = listing_state j (dk_db k) \<or>
       j = i \<and> listing_state i (dk_db k) = None \<and> listing_state i (dk_db k') = Some ''UNPUBLISHED''"
    by (rule dk_tx_cases) (use upsert_state [of R i now "dk_db k"] in auto)
qed

lemma set_state_cases:
  assumes "set_state i s clear now k = (r, k')"
  obtains (refused) e where "r = Inl e" "dk_db k' = dk_db k" "dk_epoch k' = dk_epoch k"
  | (committed) "r = Inr ()" "dk_epoch k' = dk_epoch k" "listing_state i (dk_db k') = Some s"
      "\<And>j. j \<noteq> i \<Longrightarrow> listing_state j (dk_db k') = listing_state j (dk_db k)"
      "clear \<Longrightarrow> \<exists>l. List.find (\<lambda>l. li_id l = i) (listings (dk_db k')) = Some l \<and> li_event l = None"
proof -
  obtain r0 where t: "dk_tx (set_state_txn i s clear now) k = (r0, k')" and
    r: "r = (case r0 of Inl e \<Rightarrow> Inl (Context (''marking the durable listing '' @ s) e) | Inr u \<Rightarrow> Inr u)"
    using assms by (auto simp: set_state_def split: prod.splits sum.splits)
  from t show ?thesis
  proof (cases rule: dk_tx_cases)
    case (refused e)
    then show ?thesis using r that(1) by simp
  next
    case (committed x d)
    let ?f = "\<lambda>l. l\<lparr>li_state := Some s, li_updated := Some now, li_event := (if clear then None else li_event l)\<rparr>"
    from committed(2) have c: "count_where (\<lambda>l. li_id l = i) (listings (dk_db k)) \<noteq> 0"
      and d: "listings d = update_where (\<lambda>l. li_id l = i) ?f (listings (dk_db k))"
      by (auto simp: set_state_txn_def split: if_splits)
    from c obtain l where l: "List.find (\<lambda>l. li_id l = i) (listings (dk_db k)) = Some l"
      by (cases "List.find (\<lambda>l. li_id l = i) (listings (dk_db k))") (auto simp: find_None_all count_where_0_iff)
    then have "li_id l = i" by (auto dest: find_Some_mem)
    then have f: "List.find (\<lambda>l. li_id l = i) (listings d) = Some (?f l)"
      unfolding d by (subst find_refreshed) (simp_all add: l)
    have o: "listing_state j d = listing_state j (dk_db k)" if j: "j \<noteq> i" for j
    proof -
      have "List.find (\<lambda>l. li_id l = j) (listings d) =
          map_option (\<lambda>l. if li_id l = i then ?f l else l) (List.find (\<lambda>l. li_id l = j) (listings (dk_db k)))"
        unfolding d by (rule find_refreshed) simp
      with j show ?thesis
        by (cases "List.find (\<lambda>l. li_id l = j) (listings (dk_db k))") (auto simp: listing_state_def dest: find_Some_mem)
    qed
    show ?thesis
      by (rule that(2)) (use committed r f o in \<open>auto simp: listing_state_def\<close>)
  qed
qed

text \<open>The relay, and whatever runs while it is awaited, leaves the listings and the withdrawals alone.\<close>

definition relay_keeps :: "'w relay \<Rightarrow> bool" where
  "relay_keeps L \<longleftrightarrow>
     (\<forall>R d operator k. listings (dk_db (snd (rl_publish L R d operator k))) = listings (dk_db k) \<and>
        dk_epoch (snd (rl_publish L R d operator k)) = dk_epoch k) \<and>
     (\<forall>d k. listings (dk_db (snd (rl_retract L d k))) = listings (dk_db k) \<and>
        dk_epoch (snd (rl_retract L d k)) = dk_epoch k)"

lemma relay_keepsD:
  assumes "relay_keeps L"
  shows "rl_publish L R d operator k = (a, k') \<Longrightarrow> listings (dk_db k') = listings (dk_db k) \<and> dk_epoch k' = dk_epoch k"
    "rl_retract L d k = (b, k') \<Longrightarrow> listings (dk_db k') = listings (dk_db k) \<and> dk_epoch k' = dk_epoch k"
  using assms unfolding relay_keeps_def by (metis snd_conv)+

lemma state_cong: "listings d = listings d' \<Longrightarrow> listing_state i d = listing_state i d'"
  by (simp add: listing_state_def)

lemma record_event_state: "record_event_txn i ev d = Inr (u, d') \<Longrightarrow> listing_state j d' = listing_state j d"
  by (cases "List.find (\<lambda>l. li_id l = j) (listings d)")
     (auto simp: record_event_txn_def listing_state_def find_refreshed)

lemma publish_event_state:
  assumes "relay_keeps L" "publish_event L R i operator k = (b, k')"
  shows "listing_state j (dk_db k') = listing_state j (dk_db k)" "dk_epoch k' = dk_epoch k"
    "isl b \<Longrightarrow> listings (dk_db k') = listings (dk_db k)"
proof -
  obtain a k1 where p: "rl_publish L R (d_tag R) operator k = (a, k1)" by (metis surj_pair)
  note q = relay_keepsD(1) [OF assms(1) p]
  have sc: "listing_state j (dk_db k1) = listing_state j (dk_db k)" by (rule state_cong) (use q in simp)
  have tx: "listing_state j (dk_db k2) = listing_state j (dk_db k1) \<and> dk_epoch k2 = dk_epoch k1"
    if "dk_tx (record_event_txn i ev) k1 = (r, k2)" for ev r k2
    using that by (rule dk_tx_cases) (simp_all add: record_event_state [where u = "()"])
  show "listing_state j (dk_db k') = listing_state j (dk_db k)" "dk_epoch k' = dk_epoch k"
    using assms(2) p q sc tx by (auto simp: publish_event_def split: answer.splits prod.splits sum.splits)
  show "isl b \<Longrightarrow> listings (dk_db k') = listings (dk_db k)"
    using assms(2) p q by (auto simp: publish_event_def split: answer.splits prod.splits sum.splits)
qed

lemma retract_state:
  assumes "relay_keeps L" "retract_from_relays L R k = (err, k')"
  shows "listing_state j (dk_db k') = listing_state j (dk_db k)" "dk_epoch k' = dk_epoch k"
proof -
  obtain a k1 where p: "rl_retract L (d_tag R) k = (a, k1)" by (metis surj_pair)
  with assms(2) have "k' = k1" by (auto simp: retract_from_relays_def split: answer.splits)
  then show "listing_state j (dk_db k') = listing_state j (dk_db k)" "dk_epoch k' = dk_epoch k"
    using relay_keepsD(2) [OF assms(1) p] state_cong [of "dk_db k1" "dk_db k" j] by simp_all
qed

lemma boot_state:
  assumes "relay_keeps L"
  shows "dk_epoch (snd (republish_on_boot L R now k)) = dk_epoch k"
    "listing_state j (dk_db (snd (republish_on_boot L R now k))) = listing_state j (dk_db k) \<or>
       listing_state j (dk_db k) = None \<and> listing_state j (dk_db (snd (republish_on_boot L R now k))) = Some ''UNPUBLISHED''"
proof -
  let ?i = "coordinate R (rl_pubkey L)"
  obtain r k1 where u: "upsert_row R ?i now k = (r, k1)" by (metis surj_pair)
  obtain b k2 where p: "publish_event L R ?i (rl_pubkey L) k1 = (b, k2)" by (metis surj_pair)
  note us = upsert_row_state [OF u] and ps = publish_event_state [OF assms p]
  have k: "snd (republish_on_boot L R now k) \<in> {k1, k2}"
    using u p by (auto simp: republish_on_boot_def Let_def split: sum.splits)
  then show "dk_epoch (snd (republish_on_boot L R now k)) = dk_epoch k" using us(1) ps(2) by auto
  from k show "listing_state j (dk_db (snd (republish_on_boot L R now k))) = listing_state j (dk_db k) \<or>
       listing_state j (dk_db k) = None \<and> listing_state j (dk_db (snd (republish_on_boot L R now k))) = Some ''UNPUBLISHED''"
    using us(3) [of j] ps(1) [of j] by (elim insertE emptyE) (auto simp del: surj_pair)
qed

lemma withdraw_state:
  assumes "relay_keeps L" "withdraw L (R # Rs) now k0 = (r, k')"
  shows "dk_epoch k' = dk_epoch k0 + 1"
    "is_published j (dk_db k') \<Longrightarrow> is_published j (dk_db k0)"
    "r = Inr w \<Longrightarrow> \<not> is_published (coordinate R (rl_pubkey L)) (dk_db k')"
proof -
  let ?i = "coordinate R (rl_pubkey L)" and ?k = "k0\<lparr>dk_epoch := dk_epoch k0 + 1\<rparr>"
  obtain sr k1 where s: "set_state ?i ''WITHDRAWN'' False now ?k = (sr, k1)" by (metis surj_pair)
  obtain e2 k2 where r2: "retract_from_relays L R k1 = (e2, k2)" by (metis surj_pair)
  obtain e3 k3 where r3: "retract_from_relays L R ?k = (e3, k3)" by (metis surj_pair)
  note rs2 = retract_state [OF assms(1) r2] and rs3 = retract_state [OF assms(1) r3]
  have "dk_epoch k' = dk_epoch k0 + 1 \<and> (is_published j (dk_db k') \<longrightarrow> is_published j (dk_db k0)) \<and>
      (r = Inr w \<longrightarrow> \<not> is_published ?i (dk_db k'))"
  proof (cases "listing_state ?i (dk_db k0) = Some ''ACTIVE''")
    case False
    then have "k' = k3" using assms(2) r3 by (auto simp: withdraw_def Let_def split: if_splits)
    then show ?thesis using rs3 False by (auto simp: is_published_def)
  next
    case True
    then have r: "k' = (if isl sr then k1 else k2)" "r = Inr w \<Longrightarrow> \<not> isl sr"
      using assms(2) s r2 by (auto simp: withdraw_def Let_def split: sum.splits)
    from s show ?thesis
    proof (cases rule: set_state_cases)
      case (refused e)
      then show ?thesis using r by (auto simp: is_published_def)
    next
      case committed
      have "listing_state j (dk_db k1) = (if j = ?i then Some ''WITHDRAWN'' else listing_state j (dk_db k0))" for j
        using committed(3,4) by simp
      then show ?thesis using r committed rs2 by (auto simp: is_published_def)
    qed
  qed
  then show "dk_epoch k' = dk_epoch k0 + 1" "is_published j (dk_db k') \<Longrightarrow> is_published j (dk_db k0)"
    "r = Inr w \<Longrightarrow> \<not> is_published ?i (dk_db k')" by blast+
qed

lemma stale_publish:
  assumes "sn_epoch s \<noteq> dk_epoch k"
  shows "snd (publish_gated L Rs a checks (Some s) now k) = k"
  using assms by (cases Rs) (auto simp: publish_gated_def Let_def)

lemma bring_up_ok:
  assumes "relay_keeps L" "bring_up L R was unverified now k = (Inr out, k')"
  defines "i \<equiv> coordinate R (rl_pubkey L)"
  assumes was: "was \<longleftrightarrow> is_published i (dk_db k)"
  shows "\<exists>p. out = (if was then AlreadyPublished p else Published p)" "is_published i (dk_db k')"
    "out = Published p \<Longrightarrow> pb_event p = None \<Longrightarrow>
       \<exists>l. List.find (\<lambda>l. li_id l = i) (listings (dk_db k')) = Some l \<and> li_event l = None"
proof -
  obtain r1 k1 where u: "upsert_row R i now k = (r1, k1)" by (metis surj_pair)
  obtain r2 k2 where t: "(if was then (Inr (), k1) else set_state i ''ACTIVE'' True now k1) = (r2, k2)" by (metis surj_pair)
  obtain b k3 where p: "publish_event L R i (rl_pubkey L) k2 = (b, k3)" by (metis surj_pair)
  note run = assms(2) [unfolded bring_up_def Let_def, folded i_def, unfolded u prod.case t p]
  have ok: "\<not> isl r1" "\<not> isl r2" and k3: "k' = k3" and ev: "out = Published q \<Longrightarrow> pb_event q = None \<Longrightarrow> isl b" for q
    using run by (auto split: if_splits sum.splits)
  show "\<exists>p. out = (if was then AlreadyPublished p else Published p)"
    using run by (auto split: sum.splits)
  note ps = publish_event_state [OF assms(1) p] and us = upsert_row_state [OF u]
  have active: "listing_state i (dk_db k2) = Some ''ACTIVE'' \<and>
      (\<not> was \<longrightarrow> (\<exists>l. List.find (\<lambda>l. li_id l = i) (listings (dk_db k2)) = Some l \<and> li_event l = None))"
  proof (cases was)
    case True
    with t us(3) [of i] was show ?thesis by (auto simp: is_published_def)
  next
    case False
    with t have "set_state i ''ACTIVE'' True now k1 = (r2, k2)" by simp
    then show ?thesis by (rule set_state_cases) (use ok in auto)
  qed
  with ps(1) [of i] show "is_published i (dk_db k')" by (simp add: is_published_def k3)
  show "\<exists>l. List.find (\<lambda>l. li_id l = i) (listings (dk_db k')) = Some l \<and> li_event l = None"
    if "out = Published p" "pb_event p = None"
  proof -
    have "\<not> was" using run that(1) by (auto split: sum.splits)
    then show ?thesis using active ps(3) ev [OF that] k3 by simp
  qed
qed

text \<open>
  The publication gate. \<open>listing publish\<close> ends in one of five ways. It reports the listing live only when the row is
  \<open>ACTIVE\<close> afterwards, the operator's own configuration is sound, every unreachable dependency was
  overridden, and the state is still the one it was decided on; when it brings the listing up and the
  relay did not take the event, the row names no event of an earlier publication. Every refusal leaves
  the whole database as it is, so a refusal never withdraws, and says truly whether the listing is live.
\<close>

theorem publish_gate:
  assumes "relay_keeps L" "publish L (R # Rs) a P token meanwhile now k = (Inr out, k')"
  defines "i \<equiv> coordinate R (rl_pubkey L)" and "k1 \<equiv> meanwhile k"
  shows "case out of
      Published p \<Rightarrow> \<not> is_published i (dk_db k1) \<and> is_published i (dk_db k') \<and> \<not> misconfigured P (R # Rs) token \<and>
        (a \<or> aggregate_ok (preflight_checks P (R # Rs) token)) \<and> dk_epoch k1 = dk_epoch k \<and>
        (pb_event p = None \<longrightarrow> (\<exists>l. List.find (\<lambda>l. li_id l = i) (listings (dk_db k')) = Some l \<and> li_event l = None))
    | AlreadyPublished p \<Rightarrow> is_published i (dk_db k1) \<and> is_published i (dk_db k') \<and> \<not> misconfigured P (R # Rs) token \<and>
        (a \<or> aggregate_ok (preflight_checks P (R # Rs) token)) \<and> dk_epoch k1 = dk_epoch k
    | BlockedStructural failed live \<Rightarrow> k' = k1 \<and> misconfigured P (R # Rs) token \<and> live = is_published i (dk_db k1)
    | BlockedUnverified failed live \<Rightarrow> k' = k1 \<and> \<not> a \<and> \<not> misconfigured P (R # Rs) token \<and>
        \<not> aggregate_ok (preflight_checks P (R # Rs) token) \<and> live = is_published i (dk_db k1)
    | Superseded j s \<Rightarrow> k' = k1 \<and> s = unwrap_or (listing_state i (dk_db k1)) [] \<and>
        (dk_epoch k1 \<noteq> dk_epoch k \<or> s \<noteq> unwrap_or (listing_state i (dk_db k)) [])"
proof -
  let ?cs = "preflight_checks P (R # Rs) token" and ?s = "take_snapshot i k"
  from assms(2) have g: "publish_gated L (R # Rs) a ?cs (Some ?s) now k1 = (Inr out, k')"
    by (simp add: publish_def Let_def i_def k1_def)
  have one: "\<not> pf_ok c \<and> (pf_class c = Some Reachability) = False \<longleftrightarrow> pf_class c = Some Structural" if "c \<in> set ?cs" for c
    using class_iff_ok [OF that] by (cases "pf_class c"; cases "the (pf_class c)") auto
  have mis: "failed_checks False ?cs = [] \<longleftrightarrow> \<not> misconfigured P (R # Rs) token"
    unfolding failed_checks_def filter_empty_conv structural_iff [symmetric] using one by blast
  have agg: "failed_checks False ?cs = [] \<Longrightarrow> failed_checks True ?cs = [] \<longleftrightarrow> aggregate_ok ?cs"
    by (auto simp: failed_checks_def filter_empty_conv aggregate_ok_def list_all_iff)
  have live: "unwrap_or (listing_state i d) [] = ''ACTIVE'' \<longleftrightarrow> is_published i d" for d
    by (cases "listing_state i d") (auto simp: is_published_def)
  define stale where "stale \<longleftrightarrow> sn_state ?s \<noteq> unwrap_or (listing_state i (dk_db k1)) [] \<or> sn_epoch ?s \<noteq> dk_epoch k1"
  note g' = g [unfolded publish_gated_def list.case Let_def, folded i_def, unfolded option.case live, folded stale_def]
  show ?thesis
  proof (cases "stale \<or> failed_checks False ?cs \<noteq> [] \<or> failed_checks True ?cs \<noteq> [] \<and> \<not> a")
    case True
    with g' mis agg show ?thesis by (auto simp: stale_def take_snapshot_def split: if_splits)
  next
    case False
    with g' have b: "bring_up L R (is_published i (dk_db k1)) (failed_checks True ?cs) now k1 = (Inr out, k')"
      by (simp split: if_splits)
    note up = bring_up_ok [OF assms(1) b, folded i_def, OF refl]
    from False mis agg have gates: "\<not> misconfigured P (R # Rs) token" "a \<or> aggregate_ok ?cs" "dk_epoch k1 = dk_epoch k"
      by (auto simp: stale_def take_snapshot_def)
    from up(1) obtain p where p: "out = (if is_published i (dk_db k1) then AlreadyPublished p else Published p)" by blast
    show ?thesis
    proof (cases "is_published i (dk_db k1)")
      case True
      then show ?thesis using p up(2) gates by simp
    next
      case fresh: False
      then have "out = Published p" using p by simp
      then show ?thesis using fresh up(2) up(3) gates by simp
    qed
  qed
qed

subsection \<open>Withdrawal wins\<close>

text \<open>
  The transitions of the listing in the order the lock gives them. \<open>B\<close> bounds the epoch of the snapshots the
  publishes of this history were decided on; \<open>other_task\<close> is everything else the daemon does.
\<close>

inductive desk_step :: "'w relay \<Rightarrow> recipe \<Rightarrow> nat \<Rightarrow> 'w desk \<Rightarrow> 'w desk \<Rightarrow> bool" for L R B where
  boot: "desk_step L R B k (snd (republish_on_boot L R now k))"
| withdrawal: "desk_step L R B k (snd (withdraw L (R # Rs) now k))"
| old_publish: "sn_epoch s \<le> B \<Longrightarrow> desk_step L R B k (snd (publish_gated L (R # Rs) a checks (Some s) now k))"
| other_task: "listings (dk_db k') = listings (dk_db k) \<Longrightarrow> dk_epoch k' = dk_epoch k \<Longrightarrow> desk_step L R B k k'"

lemma desk_step_down:
  assumes "relay_keeps L" "desk_step L R B k k'" "B < dk_epoch k" "\<not> is_published i (dk_db k)"
  shows "B < dk_epoch k' \<and> \<not> is_published i (dk_db k')"
  using assms(2)
proof cases
  case (boot now)
  then show ?thesis using boot_state(1) [OF assms(1), of R now k] boot_state(2) [OF assms(1), of i R now k] assms(3,4)
    by (auto simp: is_published_def)
next
  case (withdrawal Rs now)
  obtain r k1 where w: "withdraw L (R # Rs) now k = (r, k1)" by (metis surj_pair)
  from withdraw_state(1) [OF assms(1) w] withdraw_state(2) [OF assms(1) w, of i] w withdrawal assms(3,4)
  show ?thesis by auto
next
  case (old_publish s Rs a checks now)
  with assms(3) stale_publish [of s k L "R # Rs" a checks now] assms(4) show ?thesis by simp
next
  case other_task
  then show ?thesis using assms(3,4) state_cong [of "dk_db k'" "dk_db k" i] by (simp add: is_published_def)
qed

text \<open>
  C39. An operator's withdrawal wins. Once \<open>listing withdraw\<close> has answered, whatever it answered, the listing is not
  live, and it stays down whatever follows: other tasks, further withdrawals, reboots of the relay leg,
  and every publish that was already probing its dependencies when the withdrawal came, however long
  its probes take. Only a publish that starts after the withdrawal can bring the listing back.
\<close>

theorem withdrawal_wins:
  assumes "relay_keeps L" "withdraw L (R # Rs) now k0 = (Inr w, k1)" "(desk_step L R (dk_epoch k0))\<^sup>*\<^sup>* k1 k2"
  shows "\<not> is_published (coordinate R (rl_pubkey L)) (dk_db k2)"
proof -
  let ?i = "coordinate R (rl_pubkey L)"
  from assms(3) have "dk_epoch k0 < dk_epoch k2 \<and> \<not> is_published ?i (dk_db k2)"
  proof induction
    case base
    show ?case using withdraw_state [OF assms(1,2)] by simp
  next
    case (step k k')
    then show ?case using desk_step_down [OF assms(1) step.hyps(2)] by blast
  qed
  then show ?thesis by blast
qed

text \<open>
  The boot is quiet. Booting never changes whether a listing is live: a row that exists keeps its state, a
  fresh row is born unpublished, and unless the row was already \<open>ACTIVE\<close> nothing at all is sent to a relay.
\<close>

theorem boot_is_quiet:
  assumes "relay_keeps L"
  shows "is_published j (dk_db (snd (republish_on_boot L R now k))) = is_published j (dk_db k) \<and>
    (is_published (coordinate R (rl_pubkey L)) (dk_db k) \<or> dk_world (snd (republish_on_boot L R now k)) = dk_world k) \<and>
    (fst (republish_on_boot L R now k) = Inr () \<longrightarrow> listing_state (coordinate R (rl_pubkey L)) (dk_db k) = None \<longrightarrow>
       listing_state (coordinate R (rl_pubkey L)) (dk_db (snd (republish_on_boot L R now k))) = Some ''UNPUBLISHED'')"
proof -
  let ?i = "coordinate R (rl_pubkey L)" and ?k' = "snd (republish_on_boot L R now k)"
  obtain r k1 where u: "upsert_row R ?i now k = (r, k1)" by (metis surj_pair)
  have fresh: "listing_state ?i (dk_db k1) = Some ''UNPUBLISHED''" if "\<not> isl r" "listing_state ?i (dk_db k) = None"
  proof -
    from u that(1) obtain v where "dk_tx (upsert_row_txn R ?i now) k = (Inr v, k1)"
      by (auto simp: upsert_row_def split: prod.splits sum.splits)
    then show ?thesis by (rule dk_tx_cases) (use that(2) upsert_state [of R ?i now "dk_db k"] in auto)
  qed
  have quiet: "republish_on_boot L R now k = (r, k1)" if "\<not> is_published ?i (dk_db k)"
    using that u upsert_row_state(3) [OF u, of ?i]
    by (cases "listing_state ?i (dk_db k1)") (auto simp: republish_on_boot_def is_published_def Let_def split: sum.splits)
  have "is_published j (dk_db ?k') = is_published j (dk_db k)"
    using boot_state(2) [OF assms, of j R now k] by (auto simp: is_published_def)
  moreover have "is_published ?i (dk_db k) \<or> dk_world ?k' = dk_world k"
    using quiet upsert_row_state(2) [OF u] by (cases "is_published ?i (dk_db k)") simp_all
  moreover have "listing_state ?i (dk_db ?k') = Some ''UNPUBLISHED''"
    if "fst (republish_on_boot L R now k) = Inr ()" "listing_state ?i (dk_db k) = None"
    using quiet fresh that by (auto simp: is_published_def)
  ultimately show ?thesis by blast
qed

subsection \<open>A concrete desk\<close>

definition sample_relay :: "nat relay" where
  "sample_relay = \<lparr>rl_pubkey = ''ab'', rl_publish = (\<lambda>_ _ _ k. (Answered ''ev1'', k\<lparr>dk_world := dk_world k + 1\<rparr>)),
     rl_retract = (\<lambda>_ k. (TimedOut, k))\<rparr>"

definition sample_desk :: "string \<Rightarrow> nat desk" where
  "sample_desk s = \<lparr>dk_store = \<lparr>st_db = empty_db\<lparr>listings :=
       [(fresh_row sample_recipe (coordinate sample_recipe ''ab'') 0)\<lparr>li_state := Some s\<rparr>]\<rparr>, st_degraded = False\<rparr>,
     dk_epoch = 0, dk_world = 0\<rparr>"

definition good_probes :: probes where
  "good_probes = sample_probes\<lparr>pr_gateway := Answered True, pr_lnv2 := Answered Lnv2Healthy\<rparr>"

lemma sample_relay_keeps: "relay_keeps sample_relay"
  by (simp add: relay_keeps_def sample_relay_def)

lemmas desk_run = dk_tx_def transaction_def transaction_then_def sample_desk_def empty_db_def sample_relay_def

lemma good_checks: "aggregate_ok (preflight_checks good_probes [sample_recipe] (Some ''tok''))"
  by (simp add: aggregate_ok_def preflight_checks_def phoenixd_check_def good_probes_def sample_probes_def gateway_check_def
      federation_check_def lnv2_check_def provider_token_check_def token_required_def sample_recipe_def do_token_env_def
      usable_token_def str_trim_def is_space_def is_graphic_def recipe_preflight_check_def Let_def del: append.simps)

lemma good_failed: "failed_checks b (preflight_checks good_probes [sample_recipe] (Some ''tok'')) = []"
  using good_checks by (auto simp: failed_checks_def aggregate_ok_def list_all_iff filter_empty_conv)

lemma sample_publish:
  "\<exists>p k'. publish sample_relay [sample_recipe] False good_probes (Some ''tok'') id 5 (sample_desk ''UNPUBLISHED'') = (Inr (Published p), k')"
  by (simp add: publish_def publish_gated_def Let_def take_snapshot_def good_failed listing_state_def bring_up_def upsert_row_def
      upsert_row_txn_def set_state_def set_state_txn_def publish_event_def record_event_txn_def desk_run)

theorem publish_gate_witness:
  "\<exists>p k'. publish sample_relay [sample_recipe] False good_probes (Some ''tok'') id 5 (sample_desk ''UNPUBLISHED'') = (Inr (Published p), k') \<and>
     is_published (coordinate sample_recipe ''ab'') (dk_db k')"
proof -
  from sample_publish obtain p k' where
    p: "publish sample_relay [sample_recipe] False good_probes (Some ''tok'') id 5 (sample_desk ''UNPUBLISHED'') = (Inr (Published p), k')"
    by blast
  have "rl_pubkey sample_relay = ''ab''" by (simp add: sample_relay_def)
  with p publish_gate [OF sample_relay_keeps p] show ?thesis by auto
qed

theorem withdrawal_wins_witness:
  "\<exists>w k1. withdraw sample_relay [sample_recipe] 7 (sample_desk ''ACTIVE'') = (Inr w, k1) \<and>
     \<not> is_published (coordinate sample_recipe ''ab'') (dk_db (snd (publish_gated sample_relay [sample_recipe] True []
        (Some (take_snapshot (coordinate sample_recipe ''ab'') (sample_desk ''ACTIVE''))) 9 k1)))"
proof -
  have pk: "rl_pubkey sample_relay = ''ab''" by (simp add: sample_relay_def)
  obtain w k1 where w: "withdraw sample_relay [sample_recipe] 7 (sample_desk ''ACTIVE'') = (Inr w, k1)"
    by (simp add: withdraw_def Let_def listing_state_def set_state_def set_state_txn_def retract_from_relays_def desk_run)
  let ?k2 = "snd (publish_gated sample_relay [sample_recipe] True []
        (Some (take_snapshot (coordinate sample_recipe ''ab'') (sample_desk ''ACTIVE''))) 9 k1)"
  have "desk_step sample_relay sample_recipe (dk_epoch (sample_desk ''ACTIVE'')) k1 ?k2"
    by (rule old_publish) (simp add: take_snapshot_def)
  then have "(desk_step sample_relay sample_recipe (dk_epoch (sample_desk ''ACTIVE'')))\<^sup>*\<^sup>* k1 ?k2" by blast
  from withdrawal_wins [OF sample_relay_keeps w this] w pk show ?thesis by auto
qed

theorem boot_is_quiet_witness:
  "\<not> is_published (coordinate sample_recipe ''ab'') (dk_db (snd (republish_on_boot sample_relay sample_recipe 3 (sample_desk ''WITHDRAWN''))))"
proof -
  have "\<not> is_published (coordinate sample_recipe ''ab'') (dk_db (sample_desk ''WITHDRAWN''))"
    by (simp add: is_published_def listing_state_def sample_desk_def)
  with boot_is_quiet [OF sample_relay_keeps, of "coordinate sample_recipe ''ab''" sample_recipe 3 "sample_desk ''WITHDRAWN''"]
  show ?thesis by simp
qed

end
