(* ===== verification/Provision.thy ===== *)
theory Provision
  imports Order_Intake
begin

text \<open>
  Provisioning and delivery, \<open>daemon/src/provision.rs\<close>: the driver with its three attempts, the two
  compare-and-swap transactions it can end in, the durable cleanup intents and their recovery, and the
  outbox that delivers the messages.

  The hooks are the port of \<open>Reconcile\<close> and may change the database while they are awaited; the pause
  between attempts is not modelled. A stored message is the JSON value of its payload. The error a lost
  capacity hold is wrapped in (\<open>CapacityHoldLost\<close>) is the reservation's own error, which no other
  statement of that transaction returns.
\<close>

definition cleanup_stuck_alert_s :: int where "cleanup_stuck_alert_s = 3600"
definition provision_attempts :: nat where "provision_attempts = 3"

datatype provisioned = ProvActive | ProvRefundDue | ProvSkipped

subsection \<open>The target\<close>

record prov_target =
  pt_state :: string
  pt_buyer :: string
  pt_recipe :: "string option"
  pt_params :: json
  pt_dest :: "string option"
  pt_period :: int
  pt_lead :: int
  pt_settled :: "int option"
  pt_ext :: "string option"
  pt_amount :: "int option"

definition paid_order_of :: "string \<Rightarrow> invoice \<Rightarrow> bool" where
  "paid_order_of s i \<longleftrightarrow> inv_sub i = Some s \<and> inv_kind i = Some ''order'' \<and> inv_status i = ''PAID''"

text \<open>\<open>ORDER BY settled_at DESC LIMIT 1\<close>; NULL sorts last.\<close>

definition latest_settled :: "invoice list \<Rightarrow> invoice option" where
  "latest_settled is = fold (\<lambda>i b. case b of
       None \<Rightarrow> Some i
     | Some j \<Rightarrow> if inv_settled j < inv_settled i then Some i else b) is None"

definition load_prov_target :: "string \<Rightarrow> db \<Rightarrow> prov_target option" where
  "load_prov_target s d =
     map_option (\<lambda>r.
       let i = latest_settled (filter (paid_order_of s) (invoices d))
       in \<lparr>pt_state = sub_state r, pt_buyer = unwrap_or (sub_buyer r) [], pt_recipe = sub_recipe r,
           pt_params = sub_params r, pt_dest = sub_dest r, pt_period = unwrap_or (sub_period_s r) 0,
           pt_lead = unwrap_or (sub_renew_lead_s r) 0, pt_settled = Option.bind i inv_settled,
           pt_ext = map_option inv_ext i, pt_amount = Option.bind i invoice_received_sat\<rparr>) (find_sub s d)"

subsection \<open>The hook's input and output\<close>

record provisioner =
  pv_recipe :: recipe
  pv_box :: string

definition instance_id :: "string \<Rightarrow> string" where "instance_id s = ''inst:'' @ s"

definition provision_input :: "provisioner \<Rightarrow> string \<Rightarrow> prov_target \<Rightarrow> json" where
  "provision_input V s t =
     (let R = pv_recipe V in JObj
       [(''subscription'', JObj [(''id'', JStr s), (''buyer_pubkey'', JStr (pt_buyer t)),
           (''recipe_id'', json_of_text (pt_recipe t)), (''box_id'', JStr (pv_box V)), (''params'', pt_params t)]),
        (''instance'', JObj [(''id'', JStr (instance_id s)), (''subscription_id'', JStr s), (''box_id'', JStr (pv_box V)),
           (''kind'', JStr (rc_id R))]),
        (''params'', pt_params t),
        (''host'', JObj [(''box_id'', JStr (pv_box V)), (''backend'', JStr (rc_backend R)),
           (''isolation'', JStr (rc_isolation R)), (''tier'', JStr (rc_tier R)), (''os'', JArr (map JStr (rc_os R))),
           (''resources'', resources_json (rc_res R))])])"

fun json_insert :: "string \<Rightarrow> json \<Rightarrow> (string \<times> json) list \<Rightarrow> (string \<times> json) list" where
  "json_insert k v [] = [(k, v)]"
| "json_insert k v (kv # kvs) = (if fst kv = k then (k, v) # kvs else kv # json_insert k v kvs)"

definition destroy_input_with_handles :: "json \<Rightarrow> json \<Rightarrow> json" where
  "destroy_input_with_handles input handles =
     (case input of
        JObj kvs \<Rightarrow>
          (let obj = json_insert ''handles'' handles kvs
           in case map_of obj ''instance'' of
                Some (JObj inst) \<Rightarrow> JObj (json_insert ''instance'' (JObj (json_insert ''handles'' handles inst)) obj)
              | _ \<Rightarrow> JObj obj)
      | _ \<Rightarrow> input)"

definition delivery_payload :: "json \<Rightarrow> json option" where
  "delivery_payload out = (case json_get ''payload'' out of Some p \<Rightarrow> if p = JNull then None else Some p | None \<Rightarrow> None)"

definition payload_error :: string where
  "payload_error = ''provision hook output must include a non-null `payload`''"

text \<open>\<open>run_provision\<close> with \<open>n\<close> attempts left: the output, or the last error and what \<open>destroy\<close> is to be given.\<close>

fun run_provision :: "'w ports \<Rightarrow> json \<Rightarrow> nat \<Rightarrow> string \<Rightarrow> json \<Rightarrow> 'w env \<Rightarrow> (string \<times> json + json) \<times> 'w env" where
  "run_provision Q input 0 err di e = (Inl (err, di), e)"
| "run_provision Q input (Suc n) err di e =
     (case po_hook Q ''provision'' input e of
        (Inl m, e') \<Rightarrow> run_provision Q input n m di e'
      | (Inr out, e') \<Rightarrow>
          (case delivery_payload out of
             Some _ \<Rightarrow> (Inr out, e')
           | None \<Rightarrow> run_provision Q input n payload_error
               (case json_get ''handles'' out of None \<Rightarrow> di | Some h \<Rightarrow> destroy_input_with_handles input h) e'))"

subsection \<open>Cleanup intents\<close>

datatype cleanup_intent = LiveOwner | CleanupPending int "string option" \<comment> \<open>the event's id, the owner's state\<close>

definition live_instance :: "string \<Rightarrow> db \<Rightarrow> bool" where
  "live_instance s d \<longleftrightarrow>
     (case find_sub s d of
        None \<Rightarrow> False
      | Some r \<Rightarrow> (\<exists>i\<in>set (instances d). sub_instance r = Some (ins_id i) \<and> ins_sub i = Some s \<and>
                    ins_state i \<in> {Some ''CREATING'', Some ''RUNNING'', Some ''STOPPED''}))"

definition claim_cleanup_txn :: "string \<Rightarrow> json \<Rightarrow> int \<Rightarrow> db \<Rightarrow> cleanup_intent \<times> db" where
  "claim_cleanup_txn s input now d =
     (if live_instance s d then (LiveOwner, d)
      else (CleanupPending (event_seq d + 1) (state_of s d), insert_event (Some s) ''provision_cleanup_pending'' input now d))"

definition cleanup_done_detail :: "int \<Rightarrow> json" where
  "cleanup_done_detail i = JObj [(''pending_event_id'', JInt i)]"

definition cleanup_done :: "string \<Rightarrow> int \<Rightarrow> db \<Rightarrow> bool" where
  "cleanup_done s i d \<longleftrightarrow> (\<exists>q\<in>set (events d). ev_sub q = Some s \<and> ev_kind q = ''provision_cleanup_done'' \<and>
     ev_detail q = cleanup_done_detail i)"

definition finish_cleanup_txn :: "int \<Rightarrow> string \<Rightarrow> int \<Rightarrow> db \<Rightarrow> db" where
  "finish_cleanup_txn i s now d =
     (if (\<exists>p\<in>set (events d). ev_id p = i \<and> ev_sub p = Some s \<and> ev_kind p = ''provision_cleanup_pending'') \<and>
         \<not> cleanup_done s i d
      then insert_event (Some s) ''provision_cleanup_done'' (cleanup_done_detail i) now d else d)"

definition open_cleanup :: "string \<Rightarrow> db \<Rightarrow> event \<Rightarrow> bool" where
  "open_cleanup recipe d p \<longleftrightarrow> ev_kind p = ''provision_cleanup_pending'' \<and>
     (case ev_sub p of
        None \<Rightarrow> False
      | Some s \<Rightarrow> (\<exists>r\<in>set (subs d). sub_id r = s \<and> sub_recipe r = Some recipe) \<and> \<not> cleanup_done s (ev_id p) d)"

definition open_cleanups_summary :: "string \<Rightarrow> db \<Rightarrow> nat \<times> int option" where
  "open_cleanups_summary recipe d =
     (let rows = filter (open_cleanup recipe d) (events d)
      in (length rows, if rows = [] then None else Some (Min (ev_at ` set rows))))"

record cleanup_row =
  cu_event :: int
  cu_sub :: string
  cu_input :: json

definition pending_cleanups :: "string \<Rightarrow> db \<Rightarrow> cleanup_row list" where
  "pending_cleanups recipe d =
     map (\<lambda>p. \<lparr>cu_event = ev_id p, cu_sub = unwrap_or (ev_sub p) [], cu_input = ev_detail p\<rparr>)
       (sort_key ev_id (filter (open_cleanup recipe d) (events d)))"

subsection \<open>The two transactions\<close>

record active_write =
  aw_sub :: string
  aw_order :: string
  aw_instance :: string
  aw_box :: string
  aw_kind :: string
  aw_handles :: json
  aw_destroy :: json
  aw_outbox :: string
  aw_recipient :: string
  aw_payload :: json
  aw_paid :: int
  aw_soft :: int
  aw_now :: int

datatype active_outcome = Activated | ActiveLost cleanup_intent

definition activated_row :: "active_write \<Rightarrow> subscription \<Rightarrow> subscription" where
  "activated_row w r = r\<lparr>sub_state := ''ACTIVE'', sub_paid_through := Some (aw_paid w), sub_soft_date := Some (aw_soft w),
     sub_next_deadline := Some (aw_soft w), sub_instance := Some (aw_instance w), sub_updated := aw_now w\<rparr>"

definition insert_instance :: "instance_row \<Rightarrow> unit tx" where
  "insert_instance n d =
     (if \<exists>i\<in>set (instances d). ins_id i = ins_id n then Inl (ConstraintViolation ''instance.id'')
      else Inr ((), d\<lparr>instances := instances d @ [n]\<rparr>))"

definition insert_outbox :: "string \<Rightarrow> string \<Rightarrow> string \<Rightarrow> string \<Rightarrow> json \<Rightarrow> int \<Rightarrow> unit tx" where
  "insert_outbox i recipient s ty payload now d =
     (if \<exists>r\<in>set (outbox d). ob_id r = i then Inl (ConstraintViolation ''outbox.id'')
      else Inr ((), enqueue_row i (Some recipient) (Some s) ty payload now d))"

definition active_write_txn :: "active_write \<Rightarrow> active_outcome tx" where
  "active_write_txn w d =
     (let P = (\<lambda>r. sub_id r = aw_sub w \<and> sub_state r = ''PROVISIONING'')
      in if count_where P (subs d) = 0
         then (case claim_cleanup_txn (aw_sub w) (aw_destroy w) (aw_now w) d of (c, d') \<Rightarrow> Inr (ActiveLost c, d'))
         else (case consume_txn (aw_order w) (aw_now w) (d\<lparr>subs := update_where P (activated_row w) (subs d)\<rparr>) of
           Inl e \<Rightarrow> Inl e
         | Inr (_, d1) \<Rightarrow>
             (case insert_instance \<lparr>ins_id = aw_instance w, ins_sub = Some (aw_sub w), ins_box = Some (aw_box w),
                  ins_kind = Some (aw_kind w), ins_handles = Some (aw_handles w), ins_state = Some ''RUNNING'',
                  ins_created = aw_now w, ins_updated = aw_now w\<rparr> d1 of
                Inl e \<Rightarrow> Inl e
              | Inr (_, d2) \<Rightarrow>
                  (case insert_outbox (aw_outbox w) (aw_recipient w) (aw_sub w) ''provision.ready'' (aw_payload w) (aw_now w) d2 of
                     Inl e \<Rightarrow> Inl e
                   | Inr (_, d3) \<Rightarrow>
                       Inr (Activated, insert_event (Some (aw_sub w)) ''provision_active'' (JObj []) (aw_now w) d3)))))"

datatype refund_due_outcome = RefundClaimed int | RefundLost cleanup_intent

record refund_due_write =
  rw_sub :: string
  rw_dest :: "string option"
  rw_amount :: "int option"
  rw_ext :: string
  rw_destroy :: json
  rw_now :: int

definition new_refund_due_write :: "string \<Rightarrow> prov_target \<Rightarrow> json \<Rightarrow> int \<Rightarrow> store_error + refund_due_write" where
  "new_refund_due_write s t input now =
     (case pt_ext t of
        None \<Rightarrow> Inl (Bail (''provision: paid order invoice for `'' @ s @ ''` has no external_id''))
      | Some ext \<Rightarrow> Inr \<lparr>rw_sub = s, rw_dest = pt_dest t, rw_amount = pt_amount t, rw_ext = ext, rw_destroy = input,
                         rw_now = now\<rparr>)"

definition refund_due_txn :: "refund_due_write \<Rightarrow> refund_due_outcome tx" where
  "refund_due_txn w d =
     (let P = (\<lambda>r. sub_id r = rw_sub w \<and> sub_state r = ''PROVISIONING'')
      in if count_where P (subs d) = 0
         then (case claim_cleanup_txn (rw_sub w) (rw_destroy w) (rw_now w) d of (c, d') \<Rightarrow> Inr (RefundLost c, d'))
         else (case insert_refund_attempt_txn (Some (rw_sub w)) (rw_dest w) (rw_ext w) (rw_amount w) (rw_now w)
                 (d\<lparr>subs := update_where P (\<lambda>r. r\<lparr>sub_state := ''REFUND_DUE'', sub_next_deadline := None,
                    sub_updated := rw_now w\<rparr>) (subs d)\<rparr>) of
           Inl e \<Rightarrow> Inl e
         | Inr (_, d1) \<Rightarrow>
             Inr (RefundClaimed (event_seq d1 + 1),
               insert_event (Some (rw_sub w)) ''provision_failed'' (JObj []) (rw_now w)
                 (insert_event (Some (rw_sub w)) ''provision_cleanup_pending'' (rw_destroy w) (rw_now w) d1))))"

subsection \<open>The driver\<close>

definition complete_cleanup :: "'w ports \<Rightarrow> int \<Rightarrow> string \<Rightarrow> json \<Rightarrow> int \<Rightarrow> 'w env \<Rightarrow> (store_error + bool) \<times> 'w env" where
  "complete_cleanup Q i s input now e =
     (case po_hook Q ''destroy'' input e of
        (Inl _, e1) \<Rightarrow> (Inr False, e1)
      | (Inr _, e1) \<Rightarrow>
          (case run_tx (\<lambda>d. Inr ((), finish_cleanup_txn i s now d)) e1 of
             (Inl err, e2) \<Rightarrow> (Inl err, e2)
           | (Inr _, e2) \<Rightarrow> (Inr True, e2)))"

definition finish_lost_hook :: "'w ports \<Rightarrow> string \<Rightarrow> json \<Rightarrow> cleanup_intent \<Rightarrow> int \<Rightarrow> 'w env \<Rightarrow> (store_error + provisioned) \<times> 'w env" where
  "finish_lost_hook Q s input c now e =
     (case c of
        LiveOwner \<Rightarrow> (Inr ProvSkipped, e)
      | CleanupPending i owner \<Rightarrow>
          (case complete_cleanup Q i s input now e of
             (Inl err, e') \<Rightarrow> (Inl err, e')
           | (Inr _, e') \<Rightarrow> (Inr (if owner = Some ''REFUND_DUE'' \<or> owner = None then ProvRefundDue else ProvSkipped), e')))"

definition fail_to_refund_due ::
  "'w ports \<Rightarrow> string \<Rightarrow> prov_target \<Rightarrow> json \<Rightarrow> int \<Rightarrow> 'w env \<Rightarrow> (store_error + provisioned) \<times> 'w env" where
  "fail_to_refund_due Q s t input now e =
     (case new_refund_due_write s t input now of
        Inl err \<Rightarrow> (Inl err, e)
      | Inr w \<Rightarrow>
          (case run_tx (refund_due_txn w) e of
             (Inl err, e1) \<Rightarrow> (Inl err, e1)
           | (Inr (RefundLost c), e1) \<Rightarrow> finish_lost_hook Q s input c now e1
           | (Inr (RefundClaimed i), e1) \<Rightarrow>
               (case complete_cleanup Q i s input now e1 of
                  (Inl err, e2) \<Rightarrow> (Inl err, e2)
                | (Inr _, e2) \<Rightarrow> (Inr ProvRefundDue, e2))))"

definition provision_ready_json :: "string \<Rightarrow> json \<Rightarrow> json" where
  "provision_ready_json s payload = msg_json (ProvisionReady s payload)"

definition active_write_of :: "provisioner \<Rightarrow> string \<Rightarrow> prov_target \<Rightarrow> int \<Rightarrow> json \<Rightarrow> json \<Rightarrow> json \<Rightarrow> int \<Rightarrow> active_write" where
  "active_write_of V s t settled handles payload destroy now =
     (let paid = settled + pt_period t
      in \<lparr>aw_sub = s, aw_order = s, aw_instance = instance_id s, aw_box = pv_box V, aw_kind = rc_id (pv_recipe V),
          aw_handles = (if handles = JNull then JObj [] else handles), aw_destroy = destroy,
          aw_outbox = ''outbox:provision:'' @ s, aw_recipient = pt_buyer t, aw_payload = provision_ready_json s payload,
          aw_paid = paid, aw_soft = paid - pt_lead t, aw_now = now\<rparr>)"

definition provision_drive :: "'w ports \<Rightarrow> provisioner \<Rightarrow> string \<Rightarrow> int \<Rightarrow> 'w env \<Rightarrow> (store_error + provisioned) \<times> 'w env" where
  "provision_drive Q V s now e =
     (case load_prov_target s (e_db e) of
        None \<Rightarrow> (Inr ProvSkipped, e)
      | Some t \<Rightarrow>
          if pt_state t \<noteq> ''PROVISIONING'' then (Inr ProvSkipped, e)
          else if pt_recipe t \<noteq> Some (rc_id (pv_recipe V)) then (Inr ProvSkipped, e)
          else (case pt_settled t of
            None \<Rightarrow> (Inl (Bail (''provision: PROVISIONING sub `'' @ s @ ''` has no settled order invoice'')), e)
          | Some settled \<Rightarrow>
              (let input = provision_input V s t
               in case run_provision Q input provision_attempts [] input e of
                 (Inl (_, di), e1) \<Rightarrow> fail_to_refund_due Q s t di now e1
               | (Inr out, e1) \<Rightarrow>
                   (case delivery_payload out of
                      None \<Rightarrow> (Inl (Bail payload_error), e1)
                    | Some payload \<Rightarrow>
                        (let handles = unwrap_or (json_get ''handles'' out) JNull;
                             di = destroy_input_with_handles input handles
                         in case run_tx (active_write_txn (active_write_of V s t settled handles payload di now)) e1 of
                           (Inl err, e2) \<Rightarrow>
                             (case err of NoHeldReservation _ _ \<Rightarrow> fail_to_refund_due Q s t di now e2 | _ \<Rightarrow> (Inl err, e2))
                         | (Inr Activated, e2) \<Rightarrow> (Inr ProvActive, e2)
                         | (Inr (ActiveLost c), e2) \<Rightarrow> finish_lost_hook Q s di c now e2)))))"

subsection \<open>Recovery\<close>

definition provisioning_ids :: "provisioner \<Rightarrow> db \<Rightarrow> string list" where
  "provisioning_ids V d = map sub_id (filter (\<lambda>r. sub_state r = ''PROVISIONING'' \<and> sub_recipe r = Some (rc_id (pv_recipe V))) (subs d))"

fun provision_each :: "'w ports \<Rightarrow> provisioner \<Rightarrow> int \<Rightarrow> string list \<Rightarrow> nat \<Rightarrow> 'w env \<Rightarrow> nat \<times> 'w env" where
  "provision_each Q V now [] n e = (n, e)"
| "provision_each Q V now (s # ss) n e =
     (case provision_drive Q V s now e of
        (Inr ProvSkipped, e') \<Rightarrow> provision_each Q V now ss n e'
      | (Inr _, e') \<Rightarrow> provision_each Q V now ss (n + 1) e'
      | (Inl _, e') \<Rightarrow> provision_each Q V now ss n e')"

fun complete_each :: "'w ports \<Rightarrow> int \<Rightarrow> cleanup_row list \<Rightarrow> nat \<Rightarrow> 'w env \<Rightarrow> (store_error + nat) \<times> 'w env" where
  "complete_each Q now [] n e = (Inr n, e)"
| "complete_each Q now (row # rows) n e =
     (case complete_cleanup Q (cu_event row) (cu_sub row) (cu_input row) now e of
        (Inl err, e') \<Rightarrow> (Inl err, e')
      | (Inr b, e') \<Rightarrow> complete_each Q now rows (if b then n + 1 else n) e')"

definition alert_cleanup_backlog :: "'w ports \<Rightarrow> nat \<Rightarrow> int \<Rightarrow> int \<Rightarrow> 'w env \<Rightarrow> 'w env" where
  "alert_cleanup_backlog Q n age now e =
     send_alert Q TeardownFailed ''provision-cleanup''
       (nat_str n @ '' provision-failure cleanup(s) still owed (idempotent destroy failing on retry); '' @
        ''oldest has been open '' @ int_str age @ ''s '' @ em_dash @ '' a resource may still be billing. See `lnrent teardowns`.'') now e"

definition recover_failed_cleanups :: "'w ports \<Rightarrow> provisioner \<Rightarrow> int \<Rightarrow> 'w env \<Rightarrow> (store_error + nat) \<times> 'w env" where
  "recover_failed_cleanups Q V now e =
     (case complete_each Q now (pending_cleanups (rc_id (pv_recipe V)) (e_db e)) 0 e of
        (Inl err, e1) \<Rightarrow> (Inl err, e1)
      | (Inr n, e1) \<Rightarrow>
          (Inr n, case open_cleanups_summary (rc_id (pv_recipe V)) (e_db e1) of
             (k, Some oldest) \<Rightarrow>
               if 0 < k \<and> cleanup_stuck_alert_s \<le> now - oldest then alert_cleanup_backlog Q k (now - oldest) now e1 else e1
           | (_, None) \<Rightarrow> e1))"

definition provision_recover :: "'w ports \<Rightarrow> provisioner \<Rightarrow> int \<Rightarrow> 'w env \<Rightarrow> (store_error + nat) \<times> 'w env" where
  "provision_recover Q V now e =
     (case provision_each Q V now (provisioning_ids V (e_db e)) 0 e of
        (n, e1) \<Rightarrow>
          (case recover_failed_cleanups Q V now e1 of
             (Inl err, e2) \<Rightarrow> (Inl err, e2)
           | (Inr m, e2) \<Rightarrow> (Inr (n + m), e2)))"

end
