(* ===== verification/Operator.thy ===== *)
theory Operator
  imports Readiness Relay_Status Listing Provision
begin

text \<open>
  The operator's commands, \<open>daemon/src/ipc.rs\<close>: the requests with their JSON form and the
  classification the shutdown drain branches on, the replies, the reads, the journaled actuators
  (\<open>admin_transition\<close>, \<open>refund_retry\<close>, \<open>migration_clear_fence\<close>, \<open>dev_settle_subscription\<close>), and the
  dispatch that routes a request to them or to the listing and sweep verbs.

  The state is the listing's \<open>desk\<close>: the store, the withdrawal epoch, and the world of the backend
  and the relays.
\<close>

subsection \<open>Requests\<close>

datatype request =
    RqStatus | RqRecipes | RqMoney | RqReconcile | RqPreflight | RqSubs | RqSub string | RqTeardowns
  | RqRelays | RqRefunds | RqRefundRetry string | RqClearFence string string | RqSweepQuote string
  | RqSweep string | RqListingPublish bool | RqListingWithdraw | RqAdminSuspend string
  | RqAdminResume string | RqDevSettle string

fun is_mutating :: "request \<Rightarrow> bool" where
  "is_mutating (RqRefundRetry _) = True"
| "is_mutating (RqClearFence _ _) = True"
| "is_mutating (RqSweep _) = True"
| "is_mutating (RqListingPublish _) = True"
| "is_mutating RqListingWithdraw = True"
| "is_mutating (RqAdminSuspend _) = True"
| "is_mutating (RqAdminResume _) = True"
| "is_mutating (RqDevSettle _) = True"
| "is_mutating _ = False"

text \<open>The serde form: the tag \<open>cmd\<close> in snake case beside the fields of the variant.\<close>

definition cmd :: "string \<Rightarrow> (string \<times> json) list \<Rightarrow> json" where
  "cmd tag fs = JObj ((''cmd'', JStr tag) # fs)"

fun request_json :: "request \<Rightarrow> json" where
  "request_json RqStatus = cmd ''status'' []"
| "request_json RqRecipes = cmd ''recipes'' []"
| "request_json RqMoney = cmd ''money'' []"
| "request_json RqReconcile = cmd ''reconcile'' []"
| "request_json RqPreflight = cmd ''preflight'' []"
| "request_json RqSubs = cmd ''subs'' []"
| "request_json (RqSub i) = cmd ''sub'' [(''id'', JStr i)]"
| "request_json RqTeardowns = cmd ''teardowns'' []"
| "request_json RqRelays = cmd ''relays'' []"
| "request_json RqRefunds = cmd ''refunds'' []"
| "request_json (RqRefundRetry i) = cmd ''refund_retry'' [(''id'', JStr i)]"
| "request_json (RqClearFence i n) = cmd ''migration_clear_fence'' [(''id'', JStr i), (''note'', JStr n)]"
| "request_json (RqSweepQuote b) = cmd ''sweep_quote'' [(''bolt11'', JStr b)]"
| "request_json (RqSweep b) = cmd ''sweep'' [(''bolt11'', JStr b)]"
| "request_json (RqListingPublish a) = cmd ''listing_publish'' [(''accept_unverified'', JBool a)]"
| "request_json RqListingWithdraw = cmd ''listing_withdraw'' []"
| "request_json (RqAdminSuspend i) = cmd ''admin_suspend'' [(''id'', JStr i)]"
| "request_json (RqAdminResume i) = cmd ''admin_resume'' [(''id'', JStr i)]"
| "request_json (RqDevSettle s) = cmd ''dev_settle'' [(''subscription_id'', JStr s)]"

definition json_bool :: "string \<Rightarrow> json \<Rightarrow> bool option" where
  "json_bool k j = (case json_get k j of Some (JBool b) \<Rightarrow> Some b | _ \<Rightarrow> None)"

definition plain_request :: "string \<Rightarrow> request option" where
  "plain_request t = map_of
     [(''status'', RqStatus), (''recipes'', RqRecipes), (''money'', RqMoney), (''reconcile'', RqReconcile),
      (''preflight'', RqPreflight), (''subs'', RqSubs), (''teardowns'', RqTeardowns), (''relays'', RqRelays),
      (''refunds'', RqRefunds), (''listing_withdraw'', RqListingWithdraw)] t"

definition text_request :: "string \<Rightarrow> (string \<times> (string \<Rightarrow> request)) option" where
  "text_request t = map_of
     [(''sub'', ''id'', RqSub), (''refund_retry'', ''id'', RqRefundRetry), (''sweep_quote'', ''bolt11'', RqSweepQuote),
      (''sweep'', ''bolt11'', RqSweep), (''admin_suspend'', ''id'', RqAdminSuspend),
      (''admin_resume'', ''id'', RqAdminResume), (''dev_settle'', ''subscription_id'', RqDevSettle)] t"

definition request_of_json :: "json \<Rightarrow> request option" where
  "request_of_json j =
     (case json_text ''cmd'' j of
        None \<Rightarrow> None
      | Some t \<Rightarrow>
          (case plain_request t of
             Some r \<Rightarrow> Some r
           | None \<Rightarrow>
               (case text_request t of
                  Some (k, mk) \<Rightarrow> map_option mk (json_text k j)
                | None \<Rightarrow>
                    if t = ''migration_clear_fence''
                    then (case (json_text ''id'' j, json_text ''note'' j) of
                            (Some i, Some n) \<Rightarrow> Some (RqClearFence i n) | _ \<Rightarrow> None)
                    else if t = ''listing_publish'' then map_option RqListingPublish (json_bool ''accept_unverified'' j)
                    else None)))"

subsection \<open>Replies\<close>

record ipc_error =
  ie_code :: string
  ie_message :: string
  ie_retryable :: bool

record reply =
  re_ok :: bool
  re_data :: "json option"
  re_error :: "ipc_error option"

definition reply_ok :: "json \<Rightarrow> reply" where
  "reply_ok j = \<lparr>re_ok = True, re_data = Some j, re_error = None\<rparr>"

definition reply_err :: "string \<Rightarrow> string \<Rightarrow> reply" where
  "reply_err code msg = \<lparr>re_ok = False, re_data = None,
     re_error = Some \<lparr>ie_code = code, ie_message = msg, ie_retryable = False\<rparr>\<rparr>"

definition reply_refused :: "json \<Rightarrow> string \<Rightarrow> string \<Rightarrow> bool \<Rightarrow> reply" where
  "reply_refused j code msg retryable = \<lparr>re_ok = False, re_data = Some j,
     re_error = Some \<lparr>ie_code = code, ie_message = msg, ie_retryable = retryable\<rparr>\<rparr>"

text \<open>\<open>e.to_string()\<close> of an \<open>anyhow\<close> error prints its outermost context only.\<close>

definition top_text :: "store_error \<Rightarrow> string" where
  "top_text e = (case e of Context c _ \<Rightarrow> c | _ \<Rightarrow> err_text e)"

definition internal :: "store_error \<Rightarrow> reply" where
  "internal e = reply_err ''internal'' (top_text e)"

definition quoted :: "string \<Rightarrow> string" where "quoted s = ''`'' @ s @ ''`''"

subsection \<open>Actuators\<close>

text \<open>\<open>{:?}\<close> of a vector of texts without characters to escape.\<close>

definition debug_list :: "string list \<Rightarrow> string" where
  "debug_list xs = ''['' @ concat (map (\<lambda>(n, x). (if n = 0 then [] else '', '') @ [CHR 0x22] @ x @ [CHR 0x22]) (enumerate 0 xs)) @ '']''"

definition admin_transition_txn :: "string \<Rightarrow> string list \<Rightarrow> string \<Rightarrow> string \<Rightarrow> int \<Rightarrow> bool tx" where
  "admin_transition_txn i from to kind now d =
     (case cas_sub (\<lambda>r. sub_id r = i \<and> sub_state r \<in> set from) (\<lambda>r. r\<lparr>sub_state := to, sub_updated := now\<rparr>) d of
        (False, _) \<Rightarrow> Inr (False, d)
      | (True, d') \<Rightarrow> Inr (True, insert_event (Some i) kind (JObj [(''to'', JStr to)]) now d'))"

definition admin_transition ::
  "string \<Rightarrow> string list \<Rightarrow> string \<Rightarrow> string \<Rightarrow> int \<Rightarrow> 'w desk \<Rightarrow> reply \<times> 'w desk" where
  "admin_transition i from to kind now k =
     (case dk_tx (admin_transition_txn i from to kind now) k of
        (Inr True, k') \<Rightarrow> (reply_ok (JObj [(''id'', JStr i), (''state'', JStr to)]), k')
      | (Inr False, k') \<Rightarrow> (reply_err ''invalid_state''
           (''subscription '' @ quoted i @ '' not in '' @ debug_list from), k')
      | (Inl e, k') \<Rightarrow> (internal e, k'))"

datatype retry = Requeued | RetryNotParked | RetryFenced

definition refund_retry_txn :: "string \<Rightarrow> int \<Rightarrow> retry tx" where
  "refund_retry_txn i now d =
     (case List.find (\<lambda>r. rf_id r = i) (refunds d) of
        None \<Rightarrow> Inr (RetryNotParked, d)
      | Some r \<Rightarrow>
          if rf_fence r \<noteq> None then Inr (RetryFenced, d)
          else if rf_status r \<noteq> ''FAILED'' then Inr (RetryNotParked, d)
          else Inr (Requeued,
            insert_event (rf_sub r) ''refund_retry_requested'' (JObj [(''refund'', JStr i)]) now
              (d\<lparr>refunds := update_where (\<lambda>q. rf_id q = i \<and> rf_status q = ''FAILED'')
                    (\<lambda>q. q\<lparr>rf_status := ''PENDING'', rf_attempts := Some 0, rf_updated := now\<rparr>) (refunds d),
                 outbox := delete_where (\<lambda>b. ob_id b = refund_outbox_id (rf_key r) i) (outbox d)\<rparr>)))"

definition refund_retry :: "string \<Rightarrow> int \<Rightarrow> 'w desk \<Rightarrow> reply \<times> 'w desk" where
  "refund_retry i now k =
     (case dk_tx (refund_retry_txn i now) k of
        (Inr Requeued, k') \<Rightarrow> (reply_ok (JObj [(''id'', JStr i), (''status'', JStr ''PENDING''), (''requeued'', JBool True)]), k')
      | (Inr RetryNotParked, k') \<Rightarrow> (reply_err ''invalid_state''
           (''refund '' @ quoted i @ '' is not a parked (FAILED) refund '' @ em_dash @ '' nothing to retry''), k')
      | (Inr RetryFenced, k') \<Rightarrow> (reply_err ''invalid_state''
           (''refund '' @ quoted i @ '' is fenced migration_unverified (ADR-0022): its pre-send witness may have been lost with '' @
            ''the legacy index, and a retry could re-resolve and pay a second time. Check the wallet'' @ [CHR 0x27] @
            ''s own outgoing records for this refund, then `lnrent migration clear-fence '' @ i @ '' --note '' @ [CHR 0x22] @
            ''<what you checked>'' @ [CHR 0x22] @ '' --yes` to release it (the only shipped release; a backend audit that '' @
            ''adopts a matching payment is a future bead)''), k')
      | (Inl e, k') \<Rightarrow> (internal e, k'))"

text \<open>The loop over the two tables: the first one with a fenced row of that id is released.\<close>

definition fence_journal :: "string \<Rightarrow> string \<Rightarrow> string \<Rightarrow> int \<Rightarrow> db \<Rightarrow> db" where
  "fence_journal i table note now d =
     insert_event None ''migration_fence_cleared''
       (JObj [(''attempt'', JStr i), (''table'', JStr table), (''note'', JStr note)]) now d"

definition refund_fenced :: "string \<Rightarrow> refund_attempt \<Rightarrow> bool" where
  "refund_fenced i r \<longleftrightarrow> rf_id r = i \<and> rf_fence r \<noteq> None"

definition sweep_fenced :: "string \<Rightarrow> sweep_attempt \<Rightarrow> bool" where
  "sweep_fenced i w \<longleftrightarrow> sw_id w = i \<and> sw_fence w \<noteq> None"

definition clear_sweep_fence :: "string \<Rightarrow> string \<Rightarrow> int \<Rightarrow> (string \<times> string) option tx" where
  "clear_sweep_fence i note now d =
     (let d' = d\<lparr>sweeps := update_where (sweep_fenced i) (\<lambda>w. w\<lparr>sw_fence := None\<rparr>) (sweeps d)\<rparr>
      in if count_where (sweep_fenced i) (sweeps d) = 1
         then (case List.find (\<lambda>w. sw_id w = i) (sweeps d') of
                 None \<Rightarrow> Inl (Bail ''Query returned no rows'')
               | Some w \<Rightarrow> Inr (Some (''sweep_attempt'', sw_status w), fence_journal i ''sweep_attempt'' note now d'))
         else Inr (None, d'))"

definition clear_fence_txn :: "string \<Rightarrow> string \<Rightarrow> int \<Rightarrow> (string \<times> string) option tx" where
  "clear_fence_txn i note now d =
     (let d' = d\<lparr>refunds := update_where (refund_fenced i) (\<lambda>r. r\<lparr>rf_fence := None\<rparr>) (refunds d)\<rparr>
      in if count_where (refund_fenced i) (refunds d) = 1
         then (case List.find (\<lambda>r. rf_id r = i) (refunds d') of
                 None \<Rightarrow> Inl (Bail ''Query returned no rows'')
               | Some r \<Rightarrow> Inr (Some (''refund_attempt'', rf_status r), fence_journal i ''refund_attempt'' note now d'))
         else clear_sweep_fence i note now d')"

definition fence_next :: "string \<Rightarrow> string \<Rightarrow> string \<Rightarrow> string" where
  "fence_next i table status =
     (if status = ''PENDING'' then ''the driver prepares and pays it on its next pass''
      else if table = ''refund_attempt''
      then ''still '' @ status @ '': run `lnrent refund-retry '' @ i @ ''` to re-drive it''
      else ''still '' @ status @ '': resubmit the sweep (`lnrent sweep <bolt11> --yes`) to re-drive it'')"

definition migration_clear_fence :: "string \<Rightarrow> string \<Rightarrow> int \<Rightarrow> 'w desk \<Rightarrow> reply \<times> 'w desk" where
  "migration_clear_fence i note now k =
     (if str_trim note = [] then
        (reply_err ''bad_request'' ''clear-fence requires --note describing what you checked (it is journaled)'', k)
      else (case dk_tx (clear_fence_txn i (str_trim note) now) k of
        (Inr (Some (table, status)), k') \<Rightarrow>
           (reply_ok (JObj [(''id'', JStr i), (''table'', JStr table), (''cleared'', JBool True),
              (''status'', JStr status), (''next'', JStr (fence_next i table status))]), k')
      | (Inr None, k') \<Rightarrow> (reply_err ''not_found''
           (''no fenced refund or sweep attempt '' @ quoted i @ '' (nothing carries migration_unverified_at)''), k')
      | (Inl e, k') \<Rightarrow> (internal e, k')))"

definition newest_open_invoice :: "string \<Rightarrow> db \<Rightarrow> string option" where
  "newest_open_invoice s d =
     (case rev (sort_key (\<lambda>i. (inv_issued i, inv_id i))
             (filter (\<lambda>i. inv_sub i = Some s \<and> inv_status i = ''OPEN'') (invoices d))) of
        [] \<Rightarrow> None | i # _ \<Rightarrow> Some (inv_ext i))"

definition dev_settle_unsupported :: string where
  "dev_settle_unsupported = ''dev settle is only supported on the mock payment backend''"

definition dev_settle_subscription ::
  "bool \<Rightarrow> (string \<Rightarrow> int \<Rightarrow> 'w \<Rightarrow> (string + unit) \<times> 'w) \<Rightarrow> string \<Rightarrow> int \<Rightarrow> 'w desk \<Rightarrow> reply \<times> 'w desk" where
  "dev_settle_subscription dev settle s now k =
     (if \<not> dev then
        (reply_err ''dev_disabled'' ''dev settle requires LNRENT_DEV=1 and is only for the mock payment backend'', k)
      else (case newest_open_invoice s (dk_db k) of
        None \<Rightarrow> (reply_err ''not_found'' (''no OPEN invoice for subscription '' @ quoted s), k)
      | Some x \<Rightarrow>
          (case settle x now (dk_world k) of
             (Inr _, w) \<Rightarrow> (reply_ok (JObj [(''subscription_id'', JStr s), (''external_id'', JStr x),
                              (''settled_at'', JInt now)]), k\<lparr>dk_world := w\<rparr>)
           | (Inl m, w) \<Rightarrow>
               ((if m = dev_settle_unsupported then reply_err ''unsupported'' m
                 else if contains_text ''no OPEN invoice'' m then reply_err ''not_found'' m
                 else reply_err ''internal'' m), k\<lparr>dk_world := w\<rparr>))))"

subsection \<open>Reads\<close>

definition dest_form_label :: "net \<Rightarrow> string option \<Rightarrow> string" where
  "dest_form_label N t =
     (case t of
        None \<Rightarrow> ''none''
      | Some s \<Rightarrow>
          if str_trim s = [] then ''none''
          else (case detect_form N (str_trim s) of
            Inl _ \<Rightarrow> ''unknown''
          | Inr (LnAddress _ _) \<Rightarrow> ''ln_address''
          | Inr (Lnurl _) \<Rightarrow> ''lnurl''
          | Inr Bolt11 \<Rightarrow> ''bolt11''))"

definition refund_view :: "net \<Rightarrow> int \<Rightarrow> refund_attempt \<Rightarrow> json" where
  "refund_view N now r = JObj
     [(''id'', JStr (rf_id r)), (''subscription_id'', json_of_text (rf_sub r)),
      (''dest_form'', JStr (dest_form_label N (rf_dest r))), (''amount_sat'', json_of_int (rf_amount r)),
      (''status'', JStr (rf_status r)), (''attempts'', JInt (unwrap_or (rf_attempts r) 0)),
      (''created_at'', JInt (rf_created r)), (''updated_at'', JInt (rf_updated r)),
      (''age_s'', JInt (now - rf_created r)), (''migration_fenced'', JBool (rf_fence r \<noteq> None)),
      (''migration_unverified_at'', json_of_int (rf_fence r))]"

definition query_refunds :: "net \<Rightarrow> int \<Rightarrow> db \<Rightarrow> json list" where
  "query_refunds N now d = map (refund_view N now)
     (sort_key (\<lambda>r. (- rf_updated r, rf_id r))
       (filter (\<lambda>r. rf_status r \<in> {''PENDING'', ''FAILED''}) (refunds d)))"

definition sub_view :: "subscription \<Rightarrow> json" where
  "sub_view s = JObj
     [(''id'', JStr (sub_id s)), (''recipe_id'', json_of_text (sub_recipe s)), (''state'', JStr (sub_state s)),
      (''paid_through'', json_of_int (sub_paid_through s)), (''soft_date'', json_of_int (sub_soft_date s))]"

definition query_subs :: "db \<Rightarrow> json list" where
  "query_subs d = map sub_view (sort_key sub_created (subs d))"

definition query_sub :: "string \<Rightarrow> db \<Rightarrow> json option" where
  "query_sub i d = map_option (\<lambda>s. JObj
     [(''id'', JStr (sub_id s)), (''recipe_id'', json_of_text (sub_recipe s)),
      (''listing_id'', json_of_text (sub_listing s)), (''state'', JStr (sub_state s)),
      (''paid_through'', json_of_int (sub_paid_through s)), (''soft_date'', json_of_int (sub_soft_date s))])
     (find_sub i d)"

definition first_recipe_id :: "recipe list \<Rightarrow> string" where
  "first_recipe_id Rs = (case Rs of [] \<Rightarrow> [] | R # _ \<Rightarrow> rc_id R)"

definition recipe_view :: "recipe \<Rightarrow> json" where
  "recipe_view R = JObj [(''id'', JStr (rc_id R)), (''name'', JStr (rc_name R)), (''version'', JStr (rc_version R)),
     (''summary'', JStr (rc_summary R))]"

definition teardowns_view :: "recipe list \<Rightarrow> int \<Rightarrow> db \<Rightarrow> json" where
  "teardowns_view Rs now d =
     (case open_cleanups_summary (first_recipe_id Rs) d of
        (n, oldest) \<Rightarrow> JObj
          [(''teardown_failures'', JArr (map (teardown_value now) (open_rows d))),
           (''provision_cleanups_open'', json_nat n), (''provision_cleanups_oldest_at'', json_of_int oldest),
           (''open_total'', json_nat (length (open_rows d) + n))])"

text \<open>The listing of the loaded recipe: by its coordinate, or without an engine the newest row of its tag.\<close>

definition listing_of :: "recipe \<Rightarrow> string option \<Rightarrow> db \<Rightarrow> listing_row option" where
  "listing_of R operator d =
     (case operator of
        Some pk \<Rightarrow> List.find (\<lambda>l. li_id l = coordinate R pk) (listings d)
      | None \<Rightarrow> (case rev (sort_key li_updated (filter (\<lambda>l. li_d l = Some (d_tag R)) (listings d))) of
                   [] \<Rightarrow> None | l # _ \<Rightarrow> Some l))"

definition listing_view :: "recipe list \<Rightarrow> string option \<Rightarrow> db \<Rightarrow> json" where
  "listing_view Rs operator d =
     (case Rs of
        [] \<Rightarrow> JObj [(''published'', JBool False), (''state'', JNull)]
      | R # _ \<Rightarrow>
          (case listing_of R operator d of
             None \<Rightarrow> JObj [(''published'', JBool False), (''state'', JNull)]
           | Some l \<Rightarrow> JObj
               [(''published'', JBool (unwrap_or (li_state l) [] = ''ACTIVE'')),
                (''state'', JStr (unwrap_or (li_state l) [])), (''listing_id'', JStr (li_id l)),
                (''event_id'', json_of_text (li_event l))]))"

definition insert_all :: "(string \<times> json) list \<Rightarrow> (string \<times> json) list \<Rightarrow> (string \<times> json) list" where
  "insert_all new obj = fold (\<lambda>(k, v). json_insert k v) new obj"

definition alert_view_json :: "alert_view \<Rightarrow> json" where
  "alert_view_json v = JObj [(''subject'', JStr (av_subject v)), (''detail'', JStr (av_detail v)), (''at'', JInt (av_at v))]"

text \<open>\<open>add_unbookable_settlement_alerts_view\<close>: \<open>wired\<close> is \<open>reports_unbookable_settlements\<close>.\<close>

definition unbookable_view :: "int \<Rightarrow> bool \<Rightarrow> bool \<Rightarrow> store \<Rightarrow> (string \<times> json) list" where
  "unbookable_view now alerts_enabled wired st =
     [(''unbookable_alerts_wired'', JBool wired), (''alerts_recording_unavailable'', JBool (st_degraded st))] @
     (if \<not> alerts_enabled \<and> wired then [(''recent_unbookable_settlement_alerts_disabled'', JBool True)] else []) @
     (case recent_alerts SettlementUnbookable (now - alert_view_window_s) (st_db st) of
        Inr (n, vs) \<Rightarrow> [(''recent_unbookable_settlement_alerts'', json_nat n),
                       (''recent_unbookable_settlement_alert_details'', JArr (map alert_view_json vs))]
      | Inl _ \<Rightarrow> [(''recent_unbookable_settlement_alerts_unknown'', JBool True)])"

subsection \<open>Replies of the listing verbs\<close>

definition checks_json :: "preflight_check list \<Rightarrow> json" where
  "checks_json cs = JArr (map check_json cs)"

definition name_list :: "preflight_check list \<Rightarrow> string" where
  "name_list cs = (case map pf_name cs of [] \<Rightarrow> [] | n # ns \<Rightarrow> n @ concat (map (\<lambda>m. '', '' @ m) ns))"

definition still_state :: "bool \<Rightarrow> string" where
  "still_state live =
     (if live then ''. The listing is UNCHANGED and still LIVE '' @ em_dash @
        '' it keeps taking orders; run `lnrent listing withdraw` to stop them''
      else ''. The listing is NOT live and takes no orders'')"

definition published_json :: "published \<Rightarrow> (string \<times> json) list" where
  "published_json b =
     [(''listing_id'', JStr (pb_listing b)), (''state'', JStr ''ACTIVE''), (''published'', JBool True),
      (''event_id'', json_of_text (pb_event b)), (''relay_error'', json_of_text (pb_relay_error b)),
      (''persist_error'', json_of_text (map_option err_text (pb_persist_error b))),
      (''warnings'', checks_json (pb_warnings b))]"

fun publish_reply :: "publish_outcome \<Rightarrow> reply" where
  "publish_reply (Published b) = reply_ok (JObj (published_json b))"
| "publish_reply (AlreadyPublished b) = reply_ok (JObj (published_json b @
     [(''note'', JStr ''already published; re-broadcast the 30402'')]))"
| "publish_reply (BlockedStructural cs live) =
     reply_refused (JObj [(''failed'', checks_json cs), (''published'', JBool live)]) ''listing_blocked''
       (''publication refused: '' @ name_list cs @ '' '' @ em_dash @
        '' fix the configuration and publish again (there is no override for a structural failure)'' @ still_state live) False"
| "publish_reply (BlockedUnverified cs live) =
     reply_refused (JObj [(''failed'', checks_json cs), (''published'', JBool live)]) ''listing_unverified''
       (''publication refused: '' @ name_list cs @ '' could not be verified '' @ em_dash @ '' retry once they recover, or '' @
        ''publish anyway with --accept-unverified. If they are STILL down when a buyer orders: a payment-backend outage '' @
        ''refuses the order, but a provider outage lets them pay and be refunded net of fees'' @ still_state live) True"
| "publish_reply (Superseded i s) =
     reply_refused (JObj [(''listing_id'', JStr i), (''state'', JStr s), (''published'', JBool (s = ''ACTIVE''))])
       ''invalid_state'' (''publication abandoned: '' @ quoted i @ '' was superseded while preflight was running (it is '' @ s @
        '' now) '' @ em_dash @ '' most often your own `lnrent listing withdraw`. This command published and broadcast '' @
        ''NOTHING; check `lnrent status` and run `lnrent listing publish` again if that is not what you want'') False"

definition withdrawn_json :: "string \<Rightarrow> string option \<Rightarrow> (string \<times> json) list" where
  "withdrawn_json i err =
     [(''listing_id'', JStr i), (''state'', JStr ''WITHDRAWN''), (''published'', JBool False),
      (''retracted_from_relays'', JBool (err = None)), (''retract_error'', json_of_text err)]"

definition not_published_message :: "string \<Rightarrow> string option \<Rightarrow> string" where
  "not_published_message i err =
     ''listing '' @ quoted i @ '' was never published by this daemon, so there is nothing to withdraw '' @ em_dash @
     (case err of
        None \<Rightarrow> '' the relays were still asked to drop it, in case an earlier data dir published it on this key. '' @
          ''Run `lnrent listing publish` to go live''
      | Some e \<Rightarrow> '' and the relays could NOT be asked to drop it: '' @ e @ ''. If an earlier data dir published a '' @
          ''listing on this key it may still be discoverable; re-run `lnrent listing withdraw` once the relays are reachable'')"

fun withdraw_reply :: "withdraw_outcome \<Rightarrow> reply" where
  "withdraw_reply (Withdrawn i err) = reply_ok (JObj (withdrawn_json i err))"
| "withdraw_reply (AlreadyWithdrawn i err) = reply_ok (JObj (withdrawn_json i err @
     [(''note'', JStr ''already withdrawn; asked the relays to drop the 30402 again'')]))"
| "withdraw_reply (NotPublished i err) =
     reply_refused (JObj [(''listing_id'', JStr i), (''published'', JBool False), (''retract_error'', json_of_text err)])
       ''invalid_state'' (not_published_message i err) (err \<noteq> None)"

end
