(* ===== verification/Double_Pay.thy ===== *)
theory Double_Pay
  imports Refund_Commits Mock_Backend Operator
begin

text \<open>
  No refund is paid twice. The interface \<open>refund_backend\<close> states what the refunder relies on: the true
  status of each idempotency key moves only forward, a definite \<open>Failed\<close> answer is true, and only a
  pay call starts a payment, under its own key. Inside it, the generation gate of \<open>plan_payment\<close> keeps
  every generation below the row's current one unstarted or failed and every later one unstarted.
\<close>

subsection \<open>External ids and generation keys\<close>

text \<open>
  The external ids the daemon mints (\<open>order_intake.rs\<close>): a fixed prefix and colon-free parts. The
  generation keys of two different minted ids never meet.
\<close>

definition colon_free :: "string \<Rightarrow> bool" where
  "colon_free s \<longleftrightarrow> CHR '':'' \<notin> set s"

definition minted :: "string \<Rightarrow> bool" where
  "minted x \<longleftrightarrow>
     (\<exists>h i. colon_free h \<and> colon_free i \<and> x = ''order:'' @ h @ '':'' @ i) \<or>
     (\<exists>h i. colon_free h \<and> colon_free i \<and> x = ''renew:req:'' @ h @ '':'' @ i) \<or>
     (\<exists>h i n. colon_free h \<and> colon_free i \<and> x = ''renew:auto:ord:'' @ h @ '':'' @ i @ '':'' @ int_str n)"

definition colons :: "string \<Rightarrow> nat" where
  "colons s = length (filter (\<lambda>c. c = CHR '':'') s)"

lemma colons_append [simp]: "colons (s @ t) = colons s + colons t"
  by (simp add: colons_def)

lemma colons_Nil [simp]: "colons [] = 0"
  by (simp add: colons_def)

lemma colons_Cons [simp]: "colons (c # s) = (if c = CHR '':'' then Suc (colons s) else colons s)"
  by (simp add: colons_def)

lemma colons_free [simp]: "colon_free s \<Longrightarrow> colons s = 0"
  by (auto simp: colons_def colon_free_def filter_empty_conv)

lemma digit_not_colon: "d < 10 \<Longrightarrow> digit_char d \<noteq> CHR '':''"
proof
  assume "d < 10" and "digit_char d = CHR '':''"
  then have "(of_char (digit_char d) :: nat) = 58" by simp
  with \<open>d < 10\<close> show False by (simp add: digit_char_def)
qed

lemma nat_str_colon_free [simp]: "colon_free (nat_str n)"
proof (induction n rule: nat_str.induct)
  case (1 n)
  show ?case
  proof (cases "n < 10")
    case True
    then show ?thesis using digit_not_colon [of n] by (auto simp: colon_free_def nat_str.simps [of n])
  next
    case False
    with 1 show ?thesis using digit_not_colon [of "n mod 10"] by (auto simp: colon_free_def nat_str.simps [of n])
  qed
qed

lemma int_str_colon_free [simp]: "colon_free (int_str n)"
  using nat_str_colon_free by (auto simp: int_str_def colon_free_def)

lemma minted_shapes:
  assumes "minted x"
  shows "(colons x = 2 \<and> starts_with ''order:'' x) \<or> (colons x = 3 \<and> starts_with ''renew:'' x) \<or>
         (colons x = 5 \<and> starts_with ''renew:'' x)"
  using assms unfolding minted_def starts_with_iff
  by (elim disjE exE conjE) auto

lemma minted_no_suffix: "minted x \<Longrightarrow> \<not> minted (x @ '':g'' @ int_str n)"
proof
  assume x: "minted x" and y: "minted (x @ '':g'' @ int_str n)"
  have c: "colons (x @ '':g'' @ int_str n) = colons x + 1" by simp
  from minted_shapes [OF x] minted_shapes [OF y] c show False
    by (auto simp: starts_with_iff)
qed

lemma suffix_split:
  assumes "x @ '':g'' @ s = y @ '':g'' @ t" "colon_free s" "colon_free t"
  shows "x = y \<and> s = t"
proof -
  have last: "length (takeWhile (\<lambda>c. c \<noteq> CHR '':'') (rev (x @ '':g'' @ s))) = length s + 1"
    if "colon_free s" for x s :: string
    using that by (simp add: takeWhile_append colon_free_def)
  from last [OF assms(2), of x] last [OF assms(3), of y] have "length s = length t"
    unfolding assms(1) by linarith
  with assms(1) show ?thesis by (simp add: append_eq_append_conv)
qed

lemma gen_keys_identify:
  assumes "minted x" "minted y" "gen_key x g = gen_key y h"
  shows "x = y \<and> g = h"
proof -
  consider "g = 0" "h = 0" | "g = 0" "h \<noteq> 0" | "g \<noteq> 0" "h = 0" | "g \<noteq> 0" "h \<noteq> 0" by blast
  then show ?thesis
  proof cases
    case 2
    with assms minted_no_suffix [OF assms(2), of h] show ?thesis by (simp add: gen_key_def)
  next
    case 3
    with assms minted_no_suffix [OF assms(1), of g] show ?thesis by (auto simp: gen_key_def)
  next
    case 4
    with assms have "x @ '':g'' @ int_str g = y @ '':g'' @ int_str h" by (simp add: gen_key_def)
    from suffix_split [OF this] show ?thesis by simp
  qed (use assms in \<open>simp add: gen_key_def\<close>)
qed

text \<open>
  Generation keys identify refunds: the pay keys of two external ids the daemon mints, at any two
  generations, are equal only when the ids and the generations are, so one refund's payment can never
  be taken for another's by a backend that deduplicates on the key.
\<close>

theorem generation_keys_identify:
  assumes "minted x" "minted y" "gen_key x g = gen_key y h"
  shows "x = y \<and> g = h"
  by (rule gen_keys_identify [OF assms])

lemma sample_minted: "minted ''order:ab:g1''" "minted ''order:ab:x''"
  unfolding minted_def
  by (rule disjI1, rule exI [of _ "''ab''"], rule exI [of _ "''g1''"], simp add: colon_free_def)
     (rule disjI1, rule exI [of _ "''ab''"], rule exI [of _ "''x''"], simp add: colon_free_def)

theorem generation_keys_identify_witness:
  "gen_key ''order:ab:g1'' 0 \<noteq> gen_key ''order:ab:x'' 1"
proof
  assume "gen_key ''order:ab:g1'' 0 = gen_key ''order:ab:x'' 1"
  from generation_keys_identify [OF sample_minted this] show False by simp
qed

subsection \<open>The true status of a key\<close>

definition settles_at :: "(string \<Rightarrow> pay_status) \<Rightarrow> (string \<Rightarrow> pay_status) \<Rightarrow> string \<Rightarrow> bool" where
  "settles_at s s' k \<longleftrightarrow> s' k = s k \<or> s k = PayPending \<and> s' k \<in> {PaySucceeded, PayFailed}"

definition settles :: "(string \<Rightarrow> pay_status) \<Rightarrow> (string \<Rightarrow> pay_status) \<Rightarrow> bool" where
  "settles s s' \<longleftrightarrow> (\<forall>x g. settles_at s s' (gen_key x g))"

lemma settles_refl [simp]: "settles s s"
  by (simp add: settles_def settles_at_def)

lemma settles_trans: "settles a b \<Longrightarrow> settles b c \<Longrightarrow> settles a c"
  unfolding settles_def settles_at_def by (metis insertE pay_status.distinct(9,11) singletonD)

lemma settles_atD:
  "settles_at s s' k \<Longrightarrow> s k = PayUnknown \<Longrightarrow> s' k = PayUnknown"
  "settles_at s s' k \<Longrightarrow> s k \<in> {PayUnknown, PayFailed} \<Longrightarrow> s' k \<in> {PayUnknown, PayFailed}"
  "settles_at s s' k \<Longrightarrow> s k = PayFailed \<Longrightarrow> s' k = PayFailed"
  by (auto simp: settles_at_def)

subsection \<open>The invariant of the generation gate\<close>

definition refund_ext_id :: "refund_attempt \<Rightarrow> string" where
  "refund_ext_id r = external_id_from (rf_key r) (rf_id r)"

definition pays_direct :: "net \<Rightarrow> refund_attempt \<Rightarrow> bool" where
  "pays_direct N r \<longleftrightarrow> (\<exists>d. rf_dest r = Some d \<and> detect_form N (str_trim d) = Inr Bolt11)"

definition refund_core :: "refund_attempt \<Rightarrow> string \<times> string \<times> string option \<times> int \<times> string option" where
  "refund_core r = (rf_key r, rf_id r, rf_dest r, rf_gen r, rf_bolt11 r)"

definition same_core :: "db \<Rightarrow> db \<Rightarrow> bool" where
  "same_core d d' \<longleftrightarrow> map refund_core (refunds d') = map refund_core (refunds d)"

definition past_gens_idle :: "(string \<Rightarrow> pay_status) \<Rightarrow> string \<Rightarrow> int \<Rightarrow> bool" where
  "past_gens_idle s x gen \<longleftrightarrow> (\<forall>g. 0 \<le> g \<and> g < gen \<longrightarrow> s (gen_key x g) \<in> {PayUnknown, PayFailed})"

definition later_gens_unstarted :: "(string \<Rightarrow> pay_status) \<Rightarrow> string \<Rightarrow> int \<Rightarrow> bool" where
  "later_gens_unstarted s x gen \<longleftrightarrow> (\<forall>g. gen < g \<longrightarrow> s (gen_key x g) = PayUnknown)"

definition gen_ok :: "net \<Rightarrow> (string \<Rightarrow> pay_status) \<Rightarrow> refund_attempt \<Rightarrow> bool" where
  "gen_ok N s r \<longleftrightarrow>
     minted (refund_ext_id r) \<and> 0 \<le> rf_gen r \<and>
     past_gens_idle s (refund_ext_id r) (rf_gen r) \<and>
     later_gens_unstarted s (refund_ext_id r) (rf_gen r) \<and>
     (rf_bolt11 r = None \<or> pays_direct N r \<longrightarrow> rf_gen r = 0) \<and>
     (rf_bolt11 r = None \<and> \<not> pays_direct N r \<longrightarrow> s (gen_key (refund_ext_id r) 0) = PayUnknown)"

definition gens_ok :: "net \<Rightarrow> (string \<Rightarrow> pay_status) \<Rightarrow> db \<Rightarrow> bool" where
  "gens_ok N s d \<longleftrightarrow> db_ok d \<and> (\<forall>r\<in>set (refunds d). gen_ok N s r) \<and>
     (\<forall>x. minted x \<longrightarrow> (\<forall>r\<in>set (refunds d). refund_ext_id r \<noteq> x) \<longrightarrow>
        (\<forall>g. 0 \<le> g \<longrightarrow> s (gen_key x g) = PayUnknown))"

lemma core_fields:
  assumes "refund_core r' = refund_core r"
  shows "refund_ext_id r' = refund_ext_id r" "pays_direct N r' = pays_direct N r" "rf_gen r' = rf_gen r"
    "rf_bolt11 r' = rf_bolt11 r" "rf_id r' = rf_id r" "rf_key r' = rf_key r" "rf_dest r' = rf_dest r"
  using assms by (simp_all add: refund_core_def refund_ext_id_def pays_direct_def)

lemma same_core_refl [simp]: "same_core d d"
  by (simp add: same_core_def)

lemma same_core_trans: "same_core a b \<Longrightarrow> same_core b c \<Longrightarrow> same_core a c"
  by (simp add: same_core_def)

lemma same_core_mem:
  assumes "same_core d d'" "r \<in> set (refunds d)"
  shows "\<exists>r'\<in>set (refunds d'). refund_core r' = refund_core r"
proof -
  have "refund_core r \<in> refund_core ` set (refunds d)" using assms(2) by simp
  also have "\<dots> = refund_core ` set (refunds d')"
    using assms(1) unfolding same_core_def by (metis list.set_map)
  finally obtain r' where "r' \<in> set (refunds d')" "refund_core r = refund_core r'" by (rule imageE)
  then show ?thesis by (intro bexI [of _ r']) simp_all
qed

lemma same_core_sym: "same_core d d' \<Longrightarrow> same_core d' d"
  by (simp add: same_core_def)

lemma same_core_update:
  assumes "refunds d' = refunds d \<or> refunds d' = update_where P f (refunds d)"
    and "\<And>r. refund_core (f r) = refund_core r"
  shows "same_core d d'"
  using assms by (auto simp: same_core_def map_update_where)

lemma past_gens_keep:
  "past_gens_idle s x n \<Longrightarrow> (\<And>g. g < n \<Longrightarrow> settles_at s s' (gen_key x g)) \<Longrightarrow> past_gens_idle s' x n"
  unfolding past_gens_idle_def by (metis settles_atD(2))

lemma later_gens_keep:
  "later_gens_unstarted s x n \<Longrightarrow> (\<And>g. n < g \<Longrightarrow> settles_at s s' (gen_key x g)) \<Longrightarrow> later_gens_unstarted s' x n"
  unfolding later_gens_unstarted_def by (metis settles_atD(1))

lemma gen_ok_keep:
  assumes "gen_ok N s r" "\<And>g. settles_at s s' (gen_key (refund_ext_id r) g)" shows "gen_ok N s' r"
proof -
  from assms(1) have parts: "past_gens_idle s (refund_ext_id r) (rf_gen r)"
    "later_gens_unstarted s (refund_ext_id r) (rf_gen r)" by (simp_all add: gen_ok_def)
  have "past_gens_idle s' (refund_ext_id r) (rf_gen r)" by (rule past_gens_keep [OF parts(1) assms(2)])
  moreover have "later_gens_unstarted s' (refund_ext_id r) (rf_gen r)" by (rule later_gens_keep [OF parts(2) assms(2)])
  moreover have "s (gen_key (refund_ext_id r) 0) = PayUnknown \<Longrightarrow> s' (gen_key (refund_ext_id r) 0) = PayUnknown"
    by (rule settles_atD(1) [OF assms(2)])
  ultimately show ?thesis using assms(1) unfolding gen_ok_def by blast
qed

lemma gen_ok_settles: "gen_ok N s r \<Longrightarrow> settles s s' \<Longrightarrow> gen_ok N s' r"
  by (erule gen_ok_keep) (simp add: settles_def)

lemma gen_ok_core:
  assumes "refund_core r' = refund_core r" shows "gen_ok N s r' = gen_ok N s r"
  unfolding gen_ok_def core_fields [OF assms] ..

lemma gens_ok_calm:
  assumes inv: "gens_ok N s d" and core: "same_core d d'" and s: "settles s s'" and ok: "db_ok d'"
  shows "gens_ok N s' d'"
proof -
  have "gen_ok N s' r" if "r \<in> set (refunds d')" for r
  proof -
    from same_core_mem [OF same_core_sym [OF core] that] obtain q where "q \<in> set (refunds d)" "refund_core q = refund_core r"
      by blast
    with inv gen_ok_settles [OF _ s] gen_ok_core show ?thesis unfolding gens_ok_def by metis
  qed
  moreover have "s' (gen_key x g) = PayUnknown"
    if "minted x" "\<forall>r\<in>set (refunds d'). refund_ext_id r \<noteq> x" "0 \<le> g" for x g
  proof -
    have "\<forall>r\<in>set (refunds d). refund_ext_id r \<noteq> x"
      using that(2) same_core_mem [OF core] core_fields(1) by metis
    with inv that have "s (gen_key x g) = PayUnknown" unfolding gens_ok_def by blast
    with s settles_atD(1) show ?thesis unfolding settles_def by blast
  qed
  ultimately show ?thesis using ok unfolding gens_ok_def by blast
qed

lemma okD_refunds: "db_ok d \<Longrightarrow> distinct (refunds d)"
  by (simp add: db_ok_def distinct_map)

lemma refund_ext_unique:
  assumes "db_ok d" "r \<in> set (refunds d)" "q \<in> set (refunds d)" "refund_ext_id q = refund_ext_id r"
  shows "q = r"
proof -
  from assms(1-3) obtain e f where "rf_id r = ''ref-'' @ e" "rf_key r = ''refund:'' @ e"
    "rf_id q = ''ref-'' @ f" "rf_key q = ''refund:'' @ f"
    by (meson db_okD(6) refund_keyed_def)
  with assms(4) have "rf_id q = rf_id r" by (simp only: refund_ext_id_def external_id_from_keyed)
  with refund_id_unique [OF assms(1-3)] show ?thesis .
qed

text \<open>A pay call of a row's current generation may start that key and settles every other.\<close>

lemma gens_ok_pay:
  assumes inv: "gens_ok N s d" and q: "q \<in> set (refunds d)"
    and started: "rf_bolt11 q \<noteq> None \<or> pays_direct N q"
    and others: "\<And>k. k \<noteq> gen_key (refund_ext_id q) (rf_gen q) \<Longrightarrow> settles_at s s' k"
  shows "gens_ok N s' d"
proof -
  have mq: "minted (refund_ext_id q)" using inv q unfolding gens_ok_def gen_ok_def by blast
  have keys: "settles_at s s' (gen_key x g)" if "minted x" "x \<noteq> refund_ext_id q \<or> g \<noteq> rf_gen q" for x g
    using others gen_keys_identify [OF that(1) mq] that(2) by blast
  have "gen_ok N s' r" if r: "r \<in> set (refunds d)" for r
  proof -
    have ok: "gen_ok N s r" using inv r unfolding gens_ok_def by blast
    then have m: "minted (refund_ext_id r)" unfolding gen_ok_def by blast
    show ?thesis
    proof (cases "r = q")
      case True
      from ok have idle: "past_gens_idle s (refund_ext_id q) (rf_gen q)"
        and later: "later_gens_unstarted s (refund_ext_id q) (rf_gen q)"
        by (simp_all add: True gen_ok_def)
      have "past_gens_idle s' (refund_ext_id q) (rf_gen q)"
        by (rule past_gens_keep [OF idle]) (rule keys [OF mq], simp)
      moreover have "later_gens_unstarted s' (refund_ext_id q) (rf_gen q)"
        by (rule later_gens_keep [OF later]) (rule keys [OF mq], simp)
      ultimately show ?thesis using ok started unfolding True gen_ok_def by blast
    next
      case False
      then have "refund_ext_id r \<noteq> refund_ext_id q"
        using refund_ext_unique [OF _ q r] inv unfolding gens_ok_def by blast
      then have "settles_at s s' (gen_key (refund_ext_id r) g)" for g using keys [OF m] by blast
      with ok show ?thesis by (rule gen_ok_keep)
    qed
  qed
  moreover have "s' (gen_key x g) = PayUnknown"
    if "minted x" "\<forall>r\<in>set (refunds d). refund_ext_id r \<noteq> x" "0 \<le> g" for x g
  proof -
    have "settles_at s s' (gen_key x g)" using keys that q by blast
    with inv that settles_atD(1) show ?thesis unfolding gens_ok_def by blast
  qed
  ultimately show ?thesis using inv unfolding gens_ok_def by blast
qed

subsection \<open>Transactions that keep the generation columns\<close>

lemma bump_core [simp]: "refund_core (bump_attempts now r) = refund_core r"
  by (simp add: bump_attempts_def refund_core_def)

lemma authorise_core:
  assumes "authorise_txn rid now p d = Inr (x, d')" shows "same_core d d'"
proof -
  have "refunds d' = refunds d \<or> refunds d' = update_where (authorisable rid) (\<lambda>r. r\<lparr>rf_updated := now\<rparr>) (refunds d)"
    using assms by (auto simp: authorise_txn_def split: if_splits sum.splits)
  then show ?thesis by (rule same_core_update) (simp add: refund_core_def)
qed

lemma sent_core: "commit_sent_txn row pid paid now d = Inr (x, d') \<Longrightarrow> same_core d d'"
  by (drule commit_sent_refunds, erule same_core_update) (simp add: refund_core_def bump_attempts_def)

lemma park_core: "commit_park_failed_txn row amount now a d = Inr (x, d') \<Longrightarrow> same_core d d'"
  by (drule commit_park_refunds, erule same_core_update) (simp add: refund_core_def bump_attempts_def)

lemma failure_core:
  assumes "commit_pay_failure_txn row amount now t a d = Inr (x, d')" shows "same_core d d'"
proof -
  let ?d1 = "update_refund (rr_id row) (bump_attempts now) d"
  have bump: "same_core d ?d1" by (rule same_core_update [of _ _ "refund_pending (rr_id row)" "bump_attempts now"]) (simp_all add: update_refund_def)
  have "d' = d \<or> refunds d' = refunds ?d1 \<or> refunds d' = update_where (refund_pending (rr_id row))
      (\<lambda>r. r\<lparr>rf_status := ''FAILED'', rf_updated := now\<rparr>) (refunds ?d1)"
    using assms by (auto simp: commit_pay_failure_txn_def Let_def refund_frames update_refund_def split: if_splits)
  then have "d' = d \<or> same_core ?d1 d'"
    by (elim disj_forward2) (auto elim!: same_core_update simp: refund_core_def)
  with bump show ?thesis by (auto intro: same_core_trans)
qed

lemma retry_core:
  assumes "commit_resolution_retry_txn row now d = Inr (x, d')" shows "same_core d d'"
proof -
  have "refunds d' = refunds d \<or> refunds d' = update_where (refund_pending (rr_id row)) (\<lambda>r. r\<lparr>rf_updated := now\<rparr>) (refunds d)"
    using assms by (auto simp: commit_resolution_retry_txn_def refund_frames update_refund_def split: if_splits)
  then show ?thesis by (rule same_core_update) (simp add: refund_core_def)
qed

definition calm :: "('w \<Rightarrow> string \<Rightarrow> pay_status) \<Rightarrow> 'w env \<Rightarrow> 'w env \<Rightarrow> bool" where
  "calm st e e' \<longleftrightarrow> same_core (e_db e) (e_db e') \<and> settles (st (e_world e)) (st (e_world e')) \<and>
     (db_ok (e_db e) \<longrightarrow> db_ok (e_db e'))"

definition good :: "'w pay_backend \<Rightarrow> ('w \<Rightarrow> string \<Rightarrow> pay_status) \<Rightarrow> 'w env \<Rightarrow> bool" where
  "good P st e \<longleftrightarrow> gens_ok (pb_net P) (st (e_world e)) (e_db e)"

lemma calm_refl [simp]: "calm st e e"
  by (simp add: calm_def)

lemma calm_trans: "calm st a b \<Longrightarrow> calm st b c \<Longrightarrow> calm st a c"
  unfolding calm_def by (blast intro: same_core_trans settles_trans)

lemma good_calm: "good P st e \<Longrightarrow> calm st e e' \<Longrightarrow> good P st e'"
  unfolding good_def calm_def using gens_ok_calm gens_ok_def by metis

lemma run_tx_calm:
  assumes run: "run_tx f e = (r, e')" and core: "\<And>d x d'. f d = Inr (x, d') \<Longrightarrow> same_core d d'" and f: "sound_tx f"
  shows "calm st e e'"
  using sound_tx.run_tx_ok [OF f _ run] run
  by (auto elim!: run_tx_cases simp: calm_def dest: core)

lemma finish_sent_calm: "finish_sent row pid paid now e = (r, e') \<Longrightarrow> calm st e e'"
  by (auto simp: finish_sent_def split: prod.splits sum.splits
      dest: run_tx_calm [OF _ sent_core sent_tx.sound_tx_axioms])

lemma park_calm: "commit_park_failed P row a now m e = (r, e') \<Longrightarrow> calm st e e'"
  unfolding commit_park_failed_def by (erule run_tx_calm [OF _ park_core park_tx.sound_tx_axioms])

lemma stuck_alert_calm [simp]: "calm st e (maybe_alert_stuck P row now e)"
  by (auto simp: maybe_alert_stuck_def dispatch_def calm_def same_core_def frame_simps Let_def
      split: option.splits if_splits prod.splits)

lemma stuck_calm: "stuck_if_retried P row now y = (r, e') \<Longrightarrow> calm st e (snd y) \<Longrightarrow> calm st e e'"
  by (auto simp: stuck_if_retried_def split: if_splits prod.splits intro: calm_trans)

lemma pay_failure_calm: "commit_pay_failure P row a now t e = (r, e') \<Longrightarrow> calm st e e'"
  unfolding commit_pay_failure_def
  by (erule stuck_calm) (rule run_tx_calm [OF prod.collapse [symmetric] failure_core failure_tx.sound_tx_axioms])

lemma retry_calm: "commit_resolution_retry P row now e = (r, e') \<Longrightarrow> calm st e e'"
  unfolding commit_resolution_retry_def
  by (erule stuck_calm) (rule run_tx_calm [OF prod.collapse [symmetric] retry_core retry_tx.sound_tx_axioms])

text \<open>Every run of \<open>process\<close> either only commits, or plans and then commits or pays.\<close>

lemma process_shape:
  assumes run: "process P row now e = (r, e', calls)"
  shows "calm st e e' \<or> (\<exists>n d0 p e1. rr_dest row = Some d0 \<and>
     plan_payment P row (external_id_of row) (str_trim d0) n now e = (p, e1) \<and>
     (calm st e1 e' \<or> (\<exists>b g sat hint r. p = Inr (Pay b g sat hint) \<and>
        execute_plan P row (external_id_of row) n now b g sat hint e1 = (r, e', calls))))"
proof (cases "rr_fence row")
  case (Some f)
  with run show ?thesis by (auto simp: process_def)
next
  case fence: None
  show ?thesis
  proof (cases "verify_refund_provenance row (external_id_of row) (e_db e)")
    case (Forbidden m)
    with run fence show ?thesis by (auto simp: process_def quiet_def split: prod.splits dest: park_calm)
  next
    case (ProvenanceOk n)
    show ?thesis
    proof (cases "rr_dest row")
      case None
      with run fence ProvenanceOk show ?thesis
        by (auto simp: process_def quiet_def split: prod.splits dest: park_calm)
    next
      case (Some d0)
      obtain p e1 where p: "plan_payment P row (external_id_of row) (str_trim d0) n now e = (p, e1)" by (metis surj_pair)
      note eqs = process_def Let_def fence ProvenanceOk Some p quiet_def
      have "calm st e e' \<or> calm st e1 e' \<or> (\<exists>b g sat hint r. p = Inr (Pay b g sat hint) \<and>
        execute_plan P row (external_id_of row) n now b g sat hint e1 = (r, e', calls))"
        using run by (auto simp: eqs split: prod.splits sum.splits plan_outcome.splits resolve_error.splits if_splits
            dest: park_calm retry_calm finish_sent_calm)
      with Some p show ?thesis by blast
    qed
  qed
qed

lemmas commits_calm = finish_sent_calm park_calm pay_failure_calm retry_calm

text \<open>Persisting a later generation keeps the invariant when every earlier one is idle.\<close>

lemma persist_refunds:
  assumes "persist_resolution rid v gen now d = Inr (y, d')"
  shows "refunds d' = update_where (refund_pending rid)
     (\<lambda>r. r\<lparr>rf_bolt11 := Some (rs_bolt11 v), rf_expiry := Some (rs_expiry v), rf_gen := gen, rf_updated := now\<rparr>) (refunds d)"
    and "y \<longleftrightarrow> (\<exists>r\<in>set (refunds d). refund_pending rid r)"
  using assms by (auto simp: persist_resolution_def update_refund_def count_where_pos_iff)

lemma later_gens_mono: "later_gens_unstarted s x n \<Longrightarrow> n \<le> m \<Longrightarrow> later_gens_unstarted s x m"
  by (auto simp: later_gens_unstarted_def)

lemma gens_ok_persist:
  assumes inv: "gens_ok N s d" and q: "q \<in> set (refunds d)" "rf_id q = rid"
    and fresh: "rf_gen q < gen" "past_gens_idle s (refund_ext_id q) gen" and form: "\<not> pays_direct N q"
    and run: "persist_resolution rid v gen now d = Inr (y, d')"
  shows "gens_ok N s d'"
proof -
  let ?f = "\<lambda>r. r\<lparr>rf_bolt11 := Some (rs_bolt11 v), rf_expiry := Some (rs_expiry v), rf_gen := gen, rf_updated := now\<rparr>"
  note tab = persist_refunds(1) [OF run]
  have ok: "db_ok d" and gq: "gen_ok N s q" using inv q(1) by (simp_all add: gens_ok_def)
  have new: "gen_ok N s (?f q)"
    using gq fresh form later_gens_mono [of s "refund_ext_id q" "rf_gen q" gen]
    by (auto simp: gen_ok_def refund_ext_id_def pays_direct_def)
  have only: "r = q" if "r \<in> set (refunds d)" "refund_pending rid r" for r
    using refund_id_unique [OF ok q(1) that(1)] that(2) q(2) by (simp add: refund_pending_def)
  have rows: "gen_ok N s r" if "r \<in> set (refunds d')" for r
    using that unfolding tab
  proof (cases rule: in_update_whereE)
    case (hit r0)
    with only new show ?thesis by blast
  next
    case miss
    with inv show ?thesis by (simp add: gens_ok_def)
  qed
  have exts: "map refund_ext_id (refunds d') = map refund_ext_id (refunds d)"
    unfolding tab by (rule map_update_where) (simp add: refund_ext_id_def)
  then have "refund_ext_id ` set (refunds d') = refund_ext_id ` set (refunds d)" by (metis list.set_map)
  then have "(\<forall>r\<in>set (refunds d'). refund_ext_id r \<noteq> x) \<longleftrightarrow> (\<forall>r\<in>set (refunds d). refund_ext_id r \<noteq> x)" for x
    by (metis (no_types, lifting) image_iff)
  with inv rows refund_txns_ok(1) [OF ok run] show ?thesis unfolding gens_ok_def by blast
qed

lemma persist_hits:
  assumes "db_ok d" "q \<in> set (refunds d)" "rf_id q = rid" "persist_resolution rid v gen now d = Inr (True, d')"
  shows "\<exists>p\<in>set (refunds d'). refund_ext_id p = refund_ext_id q \<and> rf_gen p = gen \<and> rf_bolt11 p \<noteq> None"
proof -
  note tab = persist_refunds [OF assms(4)]
  from tab(2) obtain r where r: "r \<in> set (refunds d)" "refund_pending rid r" by blast
  from refund_id_unique [OF assms(1,2) r(1)] r(2) assms(3) have "r = q" by (simp add: refund_pending_def)
  with r show ?thesis unfolding tab(1)
    by (intro bexI [OF _ update_where_hit [where r = r and P = "refund_pending rid"]]) (simp_all add: refund_ext_id_def)
qed

text \<open>The row a task holds, current in its generation columns.\<close>

definition row_current :: "refund_attempt \<Rightarrow> refund_row \<Rightarrow> bool" where
  "row_current q row \<longleftrightarrow> rf_id q = rr_id row \<and> rf_key q = rr_key row \<and> rf_gen q = rr_gen row \<and>
     rf_dest q = rr_dest row \<and> rf_bolt11 q = rr_bolt11 row"

lemma row_current_row_of [simp]: "row_current q (row_of d q)"
  by (simp add: row_current_def row_of_def)

lemma row_current_ext: "row_current q row \<Longrightarrow> external_id_of row = refund_ext_id q"
  by (simp add: row_current_def external_id_of_def refund_ext_id_def)

lemma calm_row:
  "calm st e e' \<Longrightarrow> q \<in> set (refunds (e_db e)) \<Longrightarrow> \<exists>p\<in>set (refunds (e_db e')). refund_core p = refund_core q"
  unfolding calm_def using same_core_mem by blast

lemma good_row: "good P st e \<Longrightarrow> q \<in> set (refunds (e_db e)) \<Longrightarrow> gen_ok (pb_net P) (st (e_world e)) q"
  by (simp add: good_def gens_ok_def)

subsection \<open>The interface of the payment backend\<close>

text \<open>
  \<open>st w k\<close> is what has really happened to the payment of key \<open>k\<close>, which the backend's answers may
  fail to show (\<open>Unknown\<close> is always allowed). Nothing is assumed of what a pay call, or the witness written
  for it, does under its own key, of amounts, or of what the resolver returns.
\<close>

locale refund_backend =
  fixes P :: "'w pay_backend" and st :: "'w \<Rightarrow> string \<Rightarrow> pay_status"
  assumes status_settles: "pb_status P k w = (r, w') \<Longrightarrow> settles (st w) (st w')"
    and failed_is_definite: "pb_status P k w = (Inr PayFailed, w') \<Longrightarrow> st w' k = PayFailed"
    and quote_settles: "pb_quote P n w = (q, w') \<Longrightarrow> settles (st w) (st w')"
    and resolve_settles: "pb_resolve P dest n t w = (ans, w') \<Longrightarrow> settles (st w) (st w')"
    and prepare_settles: "pb_prepare P k b w = (p, w') \<Longrightarrow> settles (st w) (st w')"
    and witness_own_key: "pb_prepare P k b w = (Inr f, w') \<Longrightarrow> f u = Inr u' \<Longrightarrow> k' \<noteq> k \<Longrightarrow> settles_at (st u) (st u') k'"
    and pay_own_key: "pb_pay P b amount cap k hint w = (x, w') \<Longrightarrow> k' \<noteq> k \<Longrightarrow> settles_at (st w) (st w') k'"
begin

lemma on_world_calm:
  assumes "on_world f e = (x, e')" "\<And>w r w'. f w = (r, w') \<Longrightarrow> settles (st w) (st w')"
  shows "calm st e e'"
  using assms by (auto simp: on_world_def calm_def split: prod.splits)

lemma status_calm:
  assumes "attempt_pay_status P k e = (r, e')"
  shows "calm st e e'" and "r = Inr PayFailed \<Longrightarrow> st (e_world e') k = PayFailed"
proof -
  show "calm st e e'"
    using assms unfolding attempt_pay_status_def by (rule on_world_calm) (rule status_settles)
  show "st (e_world e') k = PayFailed" if "r = Inr PayFailed"
    using assms that by (auto simp: attempt_pay_status_def on_world_def split: prod.splits intro: failed_is_definite)
qed

lemma quote_calm: "quote_net_cap P n e = (r, e') \<Longrightarrow> calm st e e'"
  by (auto simp: quote_net_cap_def split: prod.splits sum.splits dest: on_world_calm [OF _ quote_settles])

lemma resolve_dest_calm: "resolve_dest P dest n now e = (r, e') \<Longrightarrow> calm st e e'"
  by (auto simp: resolve_dest_def split: prod.splits option.splits dest: on_world_calm [OF _ resolve_settles])

lemma already_paid_calm: "already_paid P k e = (b, e') \<Longrightarrow> calm st e e'"
  by (auto simp: already_paid_def split: prod.splits dest: status_calm(1))

lemma after_error_calm: "status_by_key_after_error P k e = (s, e') \<Longrightarrow> calm st e e'"
  by (auto simp: status_by_key_after_error_def split: prod.splits sum.splits dest: status_calm(1))

text \<open>Whatever the backend does to the key of the row's own generation keeps the invariant.\<close>

lemma own_key_good:
  assumes g: "good P st e" and q: "q \<in> set (refunds (e_db e))"
    and started: "rf_bolt11 q \<noteq> None \<or> pays_direct (pb_net P) q"
    and others: "\<And>k. k \<noteq> gen_key (refund_ext_id q) (rf_gen q) \<Longrightarrow> settles_at (st (e_world e)) (st w) k"
  shows "good P st (e\<lparr>e_world := w\<rparr>)"
  using gens_ok_pay [OF g [unfolded good_def] q started, of "st w"] others by (simp add: good_def)

text \<open>
  \<open>authorise_send\<close> is calm up to the witness, which only its last step writes.
\<close>

lemma authorise_steps:
  assumes run: "authorise_send P row key b now e = (r, e')"
  obtains e2 where "calm st e e2" "e' = e2"
  | e2 w where "calm st e e2" "e' = e2\<lparr>e_world := w\<rparr>" "\<And>k. k \<noteq> key \<Longrightarrow> settles_at (st (e_world e2)) (st w) k"
proof -
  obtain x e1 where x: "on_world (pb_prepare P key b) e = (x, e1)" by (metis surj_pair)
  have c1: "calm st e e1" by (rule on_world_calm [OF x]) (rule prepare_settles)
  show thesis
  proof (cases x)
    case (Inl er)
    with run c1 show ?thesis by (intro that(1)) (simp_all add: authorise_send_def x)
  next
    case (Inr f)
    obtain y e2 where y: "run_tx (authorise_txn (rr_id row) now (f (e_world e1))) e1 = (y, e2)" by (metis surj_pair)
    have c2: "calm st e e2"
      by (rule calm_trans [OF c1 run_tx_calm [OF y authorise_core authorise_tx.sound_tx_axioms]])
    have w2: "e_world e2 = e_world e1" using y by (auto elim: run_tx_cases)
    obtain w where prep: "pb_prepare P key b (e_world e) = (Inr f, w)"
      using x Inr by (auto simp: on_world_def split: prod.splits)
    show ?thesis
    proof (cases "y = Inr True \<and> (\<exists>u. f (e_world e1) = Inr u)")
      case True
      then obtain u where u: "y = Inr True" "f (e_world e1) = Inr u" by blast
      have "e' = e2\<lparr>e_world := u\<rparr>" using run y by (simp add: authorise_send_def x Inr Let_def u)
      with c2 show ?thesis by (rule that(2)) (use witness_own_key [OF prep u(2)] w2 in simp)
    next
      case False
      with run have "e' = e2"
        by (auto simp: authorise_send_def x Inr y Let_def split: sum.splits bool.splits)
      with c2 show ?thesis by (rule that(1))
    qed
  qed
qed

lemma authorise_good:
  assumes g: "good P st e" and q: "q \<in> set (refunds (e_db e))"
    and started: "rf_bolt11 q \<noteq> None \<or> pays_direct (pb_net P) q"
    and run: "authorise_send P row (gen_key (refund_ext_id q) (rf_gen q)) b now e = (r, e')"
  shows "good P st e' \<and> (\<exists>p\<in>set (refunds (e_db e')). refund_core p = refund_core q)"
  using run
proof (cases rule: authorise_steps)
  case (1 e2)
  with good_calm [OF g] calm_row [OF _ q] show ?thesis by blast
next
  case (2 e2 w)
  from calm_row [OF 2(1) q] obtain p where p: "p \<in> set (refunds (e_db e2))" "refund_core p = refund_core q" by blast
  note f = core_fields [OF p(2)]
  have "good P st e'" unfolding 2(2)
    by (rule own_key_good [OF good_calm [OF g 2(1)] p(1)]) (use started f 2(3) in auto)
  with p 2(2) show ?thesis by auto
qed

lemma pay_good:
  assumes g: "good P st e" and q: "q \<in> set (refunds (e_db e))"
    and started: "rf_bolt11 q \<noteq> None \<or> pays_direct (pb_net P) q"
    and run: "pay_and_commit P row (gen_key (refund_ext_id q) (rf_gen q)) b sat received hint now e = (r, e')"
  shows "good P st e'"
proof -
  let ?key = "gen_key (refund_ext_id q) (rf_gen q)"
  obtain x e1 where x: "on_world (pb_pay P b sat received ?key hint) e = (x, e1)" by (metis surj_pair)
  obtain w where pay: "pb_pay P b sat received ?key hint (e_world e) = (x, w)" "e1 = e\<lparr>e_world := w\<rparr>"
    using x by (auto simp: on_world_def split: prod.splits)
  have g1: "good P st e1" unfolding pay(2) by (rule own_key_good [OF g q started pay_own_key [OF pay(1)]])
  obtain s e2 where s: "status_by_key_after_error P ?key e1 = (s, e2)" by (metis surj_pair)
  have "calm st e1 e'"
    using run after_error_calm [OF s]
    by (auto simp: pay_and_commit_def x s split: sum.splits pay_status.splits
        intro: calm_trans dest: commits_calm)
  with g1 show ?thesis by (rule good_calm)
qed

lemma resolve_good:
  assumes g: "good P st e" and q: "q \<in> set (refunds (e_db e))" "rf_id q = rr_id row"
    and fresh: "rf_gen q < gen" "past_gens_idle (st (e_world e)) (refund_ext_id q) gen"
    and form: "\<not> pays_direct (pb_net P) q"
    and run: "resolve_and_persist P row dest quote gen now e = (r, e')"
  shows "good P st e'"
    and "r = Inr (Pay b n sat hint) \<Longrightarrow> \<exists>p\<in>set (refunds (e_db e')). refund_ext_id p = refund_ext_id q \<and>
           rf_gen p = n \<and> rf_bolt11 p \<noteq> None"
proof -
  obtain net hnt where quote: "quote = (net, hnt)" by (cases quote)
  have "good P st e' \<and> (r = Inr (Pay b n sat hint) \<longrightarrow> (\<exists>p\<in>set (refunds (e_db e')).
      refund_ext_id p = refund_ext_id q \<and> rf_gen p = n \<and> rf_bolt11 p \<noteq> None))"
  proof (cases "checked_mul_u64 net 1000")
    case None
    with run g show ?thesis by (auto simp: resolve_and_persist_def quote)
  next
    case (Some owed)
    obtain v e1 where v: "resolve_dest P dest owed now e = (v, e1)" by (metis surj_pair)
    note c1 = resolve_dest_calm [OF v] and g1 = good_calm [OF g resolve_dest_calm [OF v]]
    show ?thesis
    proof (cases v)
      case (Inl er)
      with run g1 show ?thesis by (auto simp: resolve_and_persist_def quote Some v)
    next
      case (Inr w)
      obtain x e2 where x: "run_tx (persist_resolution (rr_id row) w gen now) e1 = (x, e2)" by (metis surj_pair)
      have e': "e' = e2" "r = Inr (Pay b n sat hint) \<Longrightarrow> x = Inr True \<and> n = gen"
        using run by (auto simp: resolve_and_persist_def quote Some v Inr x split: sum.splits bool.splits)
      have "good P st e2 \<and> (x = Inr True \<longrightarrow> (\<exists>p\<in>set (refunds (e_db e2)).
          refund_ext_id p = refund_ext_id q \<and> rf_gen p = gen \<and> rf_bolt11 p \<noteq> None))"
        using x
      proof (cases rule: run_tx_cases)
        case (ok y d')
        have idle: "past_gens_idle (st (e_world e1)) (refund_ext_id q) gen"
          by (rule past_gens_keep [OF fresh(2)]) (use c1 in \<open>simp add: calm_def settles_def\<close>)
        have core: "same_core (e_db e) (e_db e1)" using c1 by (simp add: calm_def)
        from same_core_mem [OF core q(1)] obtain q1 where q1: "q1 \<in> set (refunds (e_db e1))" "refund_core q1 = refund_core q"
          by blast
        note f1 = core_fields [OF q1(2)]
        have "gens_ok (pb_net P) (st (e_world e1)) d'"
          by (rule gens_ok_persist [OF g1 [unfolded good_def] q1(1) _ _ _ _ ok(2)])
             (use f1 q(2) fresh(1) idle form in auto)
        moreover have "\<exists>p\<in>set (refunds d'). refund_ext_id p = refund_ext_id q \<and> rf_gen p = gen \<and> rf_bolt11 p \<noteq> None" if "y"
        proof -
          have ok1: "db_ok (e_db e1)" using g1 by (simp add: good_def gens_ok_def)
          have id1: "rf_id q1 = rr_id row" using f1 q(2) by simp
          from ok(2) that have "persist_resolution (rr_id row) w gen now (e_db e1) = Inr (True, d')" by simp
          from persist_hits [OF ok1 q1(1) id1 this] show ?thesis by (simp only: f1)
        qed
        ultimately show ?thesis using ok by (simp add: good_def)
      next
        case (err er)
        with g1 show ?thesis by (simp add: good_def)
      qed
      with e' show ?thesis by blast
    qed
  qed
  then show "good P st e'" and "r = Inr (Pay b n sat hint) \<Longrightarrow> \<exists>p\<in>set (refunds (e_db e')).
      refund_ext_id p = refund_ext_id q \<and> rf_gen p = n \<and> rf_bolt11 p \<noteq> None" by blast+
qed

text \<open>The plan keeps the invariant, and what it orders paid is the row's generation in the database.\<close>

definition ordered :: "string \<Rightarrow> plan_outcome \<Rightarrow> 'w env \<Rightarrow> bool" where
  "ordered x pl e \<longleftrightarrow> (\<forall>b n sat hint. pl = Pay b n sat hint \<longrightarrow>
     (\<exists>p\<in>set (refunds (e_db e)). refund_ext_id p = x \<and> rf_gen p = n \<and>
        (rf_bolt11 p \<noteq> None \<or> pays_direct (pb_net P) p)))"

lemma ordered_calm:
  assumes "calm st e e'" "q \<in> set (refunds (e_db e))" "refund_ext_id q = x" "rf_gen q = n"
    "rf_bolt11 q \<noteq> None \<or> pays_direct (pb_net P) q"
  shows "ordered x (Pay b n sat hint) e'"
proof -
  from calm_row [OF assms(1,2)] obtain p where p: "p \<in> set (refunds (e_db e'))" "refund_core p = refund_core q" by blast
  show ?thesis
    unfolding ordered_def plan_outcome.inject
    by (intro allI impI bexI [OF _ p(1)]) (use assms(3-5) in \<open>simp add: core_fields [OF p(2)]\<close>)
qed

lemma resolve_ordered:
  assumes "good P st e" "q \<in> set (refunds (e_db e))" "rf_id q = rr_id row"
    "rf_gen q < gen" "past_gens_idle (st (e_world e)) (refund_ext_id q) gen"
    "\<not> pays_direct (pb_net P) q" "resolve_and_persist P row dest quote gen now e = (r, e')"
  shows "good P st e' \<and> (\<forall>pl. r = Inr pl \<longrightarrow> ordered (refund_ext_id q) pl e')"
  using resolve_good [OF assms] unfolding ordered_def by blast

lemma plan_bolt11_good:
  assumes g: "good P st e" and q: "q \<in> set (refunds (e_db e))" "pays_direct (pb_net P) q"
    and run: "plan_bolt11 P (refund_ext_id q) dest received e = (r, e')"
  shows "good P st e' \<and> (\<forall>pl. r = Inr pl \<longrightarrow> ordered (refund_ext_id q) pl e')"
proof -
  obtain s e1 where s: "attempt_pay_status P (gen_key (refund_ext_id q) 0) e = (s, e1)" by (metis surj_pair)
  obtain u e2 where u: "quote_net_cap P received e1 = (u, e2)" by (metis surj_pair)
  note c1 = status_calm(1) [OF s] and c2 = calm_trans [OF status_calm(1) [OF s] quote_calm [OF u]]
  have "calm st e e' \<and> (\<forall>pl. r = Inr pl \<longrightarrow> (\<exists>sat. pl = AlreadySent sat) \<or> (\<exists>sat hint. pl = Pay dest 0 sat hint))"
    using run c1 c2
    by (auto simp: plan_bolt11_def s u split: sum.splits pay_status.splits if_splits)
  moreover have "rf_gen q = 0" using good_row [OF g q(1)] q(2) by (simp add: gen_ok_def)
  ultimately show ?thesis
    using good_calm [OF g] ordered_calm [OF _ q(1) refl, of e' 0] q(2) by (auto simp: ordered_def)
qed

lemma plan_resolved_good:
  assumes g: "good P st e" and q: "q \<in> set (refunds (e_db e))" "row_current q row" "rf_bolt11 q = Some b"
    and form: "\<not> pays_direct (pb_net P) q"
    and run: "plan_resolved P row (refund_ext_id q) dest b received now e = (r, e')"
  shows "good P st e' \<and> (\<forall>pl. r = Inr pl \<longrightarrow> ordered (refund_ext_id q) pl e')"
proof -
  let ?x = "refund_ext_id q"
  have gen: "rr_gen row = rf_gen q" using q(2) by (simp add: row_current_def)
  obtain s e1 where s: "attempt_pay_status P (gen_key ?x (rf_gen q)) e = (s, e1)" by (metis surj_pair)
  obtain u e2 where u: "quote_net_cap P received e1 = (u, e2)" by (metis surj_pair)
  note c1 = status_calm(1) [OF s] and cq = quote_calm [OF u]
  note c2 = calm_trans [OF c1 cq]
  consider (calm) "calm st e e'" "\<forall>pl. r = Inr pl \<longrightarrow> (\<exists>sat. pl = AlreadySent sat) \<or> (\<exists>sat. pl = Pay b (rf_gen q) sat None)"
    | (fresh) v where "s = Inr PayFailed" "resolve_and_persist P row dest v (rf_gen q + 1) now e2 = (r, e')"
    using run c1 c2
    by (auto simp: plan_resolved_def gen s u Let_def split: sum.splits pay_status.splits if_splits)
  then show ?thesis
  proof cases
    case calm
    then show ?thesis
      using good_calm [OF g] ordered_calm [OF _ q(1) refl refl] q(3) by (auto simp: ordered_def)
  next
    case fresh
    from calm_row [OF c2 q(1)] obtain p where p: "p \<in> set (refunds (e_db e2))" "refund_core p = refund_core q" by blast
    note f = core_fields [OF p(2)]
    have g2: "good P st e2" by (rule good_calm [OF g c2])
    have "st (e_world e1) (gen_key ?x (rf_gen q)) = PayFailed"
      using status_calm(2) [OF s] fresh(1) by simp
    moreover have "settles (st (e_world e1)) (st (e_world e2))" using cq by (simp add: calm_def)
    ultimately have cur: "st (e_world e2) (gen_key ?x (rf_gen q)) = PayFailed"
      unfolding settles_def using settles_atD(3) by blast
    have "past_gens_idle (st (e_world e2)) ?x (rf_gen q)"
      using good_row [OF g2 p(1)] unfolding gen_ok_def f by blast
    then have idle: "past_gens_idle (st (e_world e2)) ?x (rf_gen q + 1)"
      using cur unfolding past_gens_idle_def
      by (metis insertCI order_le_imp_less_or_eq zless_add1_eq)
    have "rf_id p = rr_id row" using q(2) f(5) by (simp add: row_current_def)
    from resolve_ordered [OF g2 p(1) this _ _ _ fresh(2)] show ?thesis using idle form f by simp
  qed
qed

lemma plan_good:
  assumes g: "good P st e" and q: "q \<in> set (refunds (e_db e))" "row_current q row"
    and dest: "rr_dest row = Some d0"
    and run: "plan_payment P row (refund_ext_id q) (str_trim d0) received now e = (r, e')"
  shows "good P st e' \<and> (\<forall>pl. r = Inr pl \<longrightarrow> ordered (refund_ext_id q) pl e')"
proof (cases "detect_form (pb_net P) (str_trim d0)")
  case (Inl er)
  with run g show ?thesis by (auto simp: plan_payment_def)
next
  case (Inr form)
  have form_iff: "pays_direct (pb_net P) q \<longleftrightarrow> form = Bolt11"
    using q(2) dest Inr by (simp add: row_current_def pays_direct_def)
  show ?thesis
  proof (cases "form = Bolt11")
    case True
    with run Inr have "plan_bolt11 P (refund_ext_id q) (str_trim d0) received e = (r, e')"
      by (simp add: plan_payment_def)
    with plan_bolt11_good [OF g q(1)] form_iff True show ?thesis by blast
  next
    case False
    note nf = False [folded form_iff]
    show ?thesis
    proof (cases "rf_bolt11 q")
      case (Some b)
      with q(2) have "rr_bolt11 row = Some b" by (simp add: row_current_def)
      with run Inr False have "plan_resolved P row (refund_ext_id q) (str_trim d0) b received now e = (r, e')"
        by (cases form) (simp_all add: plan_payment_def)
      with plan_resolved_good [OF g q Some nf] show ?thesis by blast
    next
      case None
      obtain u e1 where u: "quote_net_cap P received e = (u, e1)" by (metis surj_pair)
      note c1 = quote_calm [OF u] and g1 = good_calm [OF g quote_calm [OF u]]
      from calm_row [OF c1 q(1)] obtain p where p: "p \<in> set (refunds (e_db e1))" "refund_core p = refund_core q" by blast
      note f = core_fields [OF p(2)]
      have gp: "rf_gen p = 0" "st (e_world e1) (gen_key (refund_ext_id q) 0) = PayUnknown"
        using good_row [OF g1 p(1)] None nf by (simp_all add: gen_ok_def f)
      have idle: "past_gens_idle (st (e_world e1)) (refund_ext_id q) 1"
        unfolding past_gens_idle_def
      proof (intro allI impI)
        fix n :: int assume "0 \<le> n \<and> n < 1"
        then have "n = 0" by simp
        with gp(2) show "st (e_world e1) (gen_key (refund_ext_id q) n) \<in> {PayUnknown, PayFailed}" by simp
      qed
      have same: "rf_id p = rr_id row" using q(2) f(5) by (simp add: row_current_def)
      have res: "good P st e' \<and> (\<forall>pl. r = Inr pl \<longrightarrow> ordered (refund_ext_id q) pl e')"
        if "resolve_and_persist P row (str_trim d0) v 1 now e1 = (r, e')" for v
        using resolve_ordered [OF g1 p(1) same _ _ _ that] idle nf gp(1) f by simp
      from None q(2) have "rr_bolt11 row = None" by (simp add: row_current_def)
      with run Inr False u have "(case u of Inl er \<Rightarrow> (Inl er, e1)
          | Inr v \<Rightarrow> resolve_and_persist P row (str_trim d0) v 1 now e1) = (r, e')"
        by (cases form) (simp_all add: plan_payment_def)
      with res g1 show ?thesis by (auto split: sum.splits)
    qed
  qed
qed

lemma execute_good:
  assumes g: "good P st e" and p: "p \<in> set (refunds (e_db e))" "refund_ext_id p = x" "rf_gen p = n"
      "rf_bolt11 p \<noteq> None \<or> pays_direct (pb_net P) p"
    and run: "execute_plan P row x received now b n sat hint e = (r, e', calls)"
  shows "good P st e'"
proof -
  let ?key = "gen_key x n"
  obtain a e1 where a: "already_paid P ?key e = (a, e1)" by (metis surj_pair)
  obtain s e2 where s: "authorise_send P row ?key b now e1 = (s, e2)" by (metis surj_pair)
  note c1 = already_paid_calm [OF a] and g1 = good_calm [OF g already_paid_calm [OF a]]
  from calm_row [OF c1 p(1)] obtain p1 where p1: "p1 \<in> set (refunds (e_db e1))" "refund_core p1 = refund_core p" by blast
  note f1 = core_fields [OF p1(2)]
  have "good P st e2 \<and> (\<exists>q\<in>set (refunds (e_db e2)). refund_core q = refund_core p1)"
    by (rule authorise_good [OF g1 p1(1)]) (use p s f1 in auto)
  then obtain q where g2: "good P st e2" and q: "q \<in> set (refunds (e_db e2))" "refund_core q = refund_core p"
    using p1(2) by auto
  note f = core_fields [OF q(2)]
  consider "calm st e1 e'" | "calm st e2 e'" | r' where "pay_and_commit P row ?key b sat received hint now e2 = (r', e')"
    using run by (auto simp: execute_plan_def Let_def a s split: bool.splits sum.splits prod.splits
        dest: commits_calm)
  then show ?thesis
  proof cases
    case 1
    with g1 show ?thesis by (rule good_calm)
  next
    case 2
    with g2 show ?thesis by (rule good_calm)
  next
    case (3 r')
    with p(2,3) f have run': "pay_and_commit P row (gen_key (refund_ext_id q) (rf_gen q)) b sat received hint now e2 = (r', e')"
      by simp
    from p(4) f have "rf_bolt11 q \<noteq> None \<or> pays_direct (pb_net P) q" by simp
    from pay_good [OF g2 q(1) this run'] show ?thesis .
  qed
qed

lemma process_good:
  assumes g: "good P st e" and q: "q \<in> set (refunds (e_db e))" "row_current q row"
    and run: "process P row now e = (r, e', calls)"
  shows "good P st e'"
proof -
  let ?x = "refund_ext_id q"
  note x = row_current_ext [OF q(2)]
  consider (calm) "calm st e e'"
    | (plan) n d0 p e1 where "rr_dest row = Some d0" "plan_payment P row ?x (str_trim d0) n now e = (p, e1)"
        "calm st e1 e' \<or> (\<exists>b g sat hint r. p = Inr (Pay b g sat hint) \<and>
           execute_plan P row ?x n now b g sat hint e1 = (r, e', calls))"
    using process_shape [OF run] x by (metis)
  then show ?thesis
  proof cases
    case calm
    with g show ?thesis by (rule good_calm)
  next
    case plan
    note pl = plan_good [OF g q plan(1,2)]
    from plan(3) show ?thesis
    proof
      assume "calm st e1 e'"
      with pl show ?thesis using good_calm by blast
    next
      assume "\<exists>b g sat hint r. p = Inr (Pay b g sat hint) \<and> execute_plan P row ?x n now b g sat hint e1 = (r, e', calls)"
      then obtain b k sat hint r' where ex: "p = Inr (Pay b k sat hint)"
        "execute_plan P row ?x n now b k sat hint e1 = (r', e', calls)" by blast
      with pl obtain u where "u \<in> set (refunds (e_db e1))" "refund_ext_id u = ?x" "rf_gen u = k"
        "rf_bolt11 u \<noteq> None \<or> pays_direct (pb_net P) u" unfolding ordered_def by blast
      from execute_good [OF _ this ex(2)] pl show ?thesis by blast
    qed
  qed
qed

end


subsection \<open>The operator's commands on a refund\<close>

lemma refund_retry_ok:
  assumes "db_ok d" "refund_retry_txn i now d = Inr (x, d')" shows "db_ok d'"
proof -
  have "db_ok (d\<lparr>refunds := update_where P (\<lambda>q. q\<lparr>rf_status := ''PENDING'', rf_attempts := Some 0, rf_updated := now\<rparr>) (refunds d)\<rparr>)" for P
    by (rule db_ok_refunds_update [OF assms(1)]) simp_all
  moreover have "db_ok e \<Longrightarrow> db_ok (e\<lparr>outbox := delete_where P (outbox e)\<rparr>)" for e P
    by (simp add: db_ok_def distinct_map_delete_where)
  ultimately have "db_ok (d\<lparr>refunds := update_where P (\<lambda>q. q\<lparr>rf_status := ''PENDING'', rf_attempts := Some 0, rf_updated := now\<rparr>) (refunds d),
      outbox := delete_where Q (outbox d)\<rparr>)" for P Q by fastforce
  with assms show ?thesis
    by (auto simp: refund_retry_txn_def split: option.splits if_splits)
qed

lemma refund_retry_core:
  assumes "refund_retry_txn i now d = Inr (x, d')" shows "same_core d d'"
proof -
  have "refunds d' = refunds d \<or> refunds d' = update_where (\<lambda>q. rf_id q = i \<and> rf_status q = ''FAILED'')
      (\<lambda>q. q\<lparr>rf_status := ''PENDING'', rf_attempts := Some 0, rf_updated := now\<rparr>) (refunds d)"
    using assms by (auto simp: refund_retry_txn_def frame_simps split: option.splits if_splits)
  then show ?thesis by (rule same_core_update) (simp add: refund_core_def)
qed

lemma clear_fence_ok:
  assumes "db_ok d" "clear_fence_txn i msg now d = Inr (x, d')" shows "db_ok d'"
proof -
  have "db_ok (d\<lparr>refunds := update_where P (\<lambda>r. r\<lparr>rf_fence := None\<rparr>) (refunds d)\<rparr>)" for P
    by (rule db_ok_refunds_update [OF assms(1)]) simp_all
  note refund = this and sweep = db_ok_sweeps_update [OF this, where f = "\<lambda>w. w\<lparr>sw_fence := None\<rparr>", simplified]
  from assms(2) refund sweep show ?thesis
    by (auto simp: clear_fence_txn_def clear_sweep_fence_def fence_journal_def Let_def split: option.splits if_splits)
qed

lemma clear_fence_core:
  assumes "clear_fence_txn i msg now d = Inr (x, d')" shows "same_core d d'"
proof -
  have "refunds d' = update_where (refund_fenced i) (\<lambda>r. r\<lparr>rf_fence := None\<rparr>) (refunds d)"
    using assms by (auto simp: clear_fence_txn_def clear_sweep_fence_def fence_journal_def frame_simps Let_def
        split: option.splits if_splits)
  then show ?thesis by (intro same_core_update [OF disjI2]) (assumption, simp add: refund_core_def)
qed

interpretation refund_retry_tx: sound_tx "refund_retry_txn i now" for i now
  by unfold_locales (rule refund_retry_ok)

interpretation clear_fence_tx: sound_tx "clear_fence_txn i msg now" for i msg now
  by unfold_locales (rule clear_fence_ok)

lemma refund_retry_calm: "run_tx (refund_retry_txn i now) e = (x, e') \<Longrightarrow> calm st e e'"
  by (erule run_tx_calm [OF _ refund_retry_core refund_retry_tx.sound_tx_axioms])

lemma clear_fence_calm: "run_tx (clear_fence_txn i msg now) e = (x, e') \<Longrightarrow> calm st e e'"
  by (erule run_tx_calm [OF _ clear_fence_core clear_fence_tx.sound_tx_axioms])

subsection \<open>Runs of the daemon around the refunder\<close>

text \<open>
  The refunder processes rows whose generation columns are current, in any order and as often as it
  likes. In between: capture, provisioning and resume owe refunds, through the one insert they share, for
  external ids the daemon minted, within transactions that may change every other table; the operator
  retries failed refunds and clears fences, in transactions that may fail; the legacy import fences a row;
  every other task changes the other tables; and the world settles pending payments or does anything to keys
  that are not refund keys. These are all the production statements that write \<open>refund_attempt\<close>.
\<close>

definition new_refund :: "refund_attempt \<Rightarrow> bool" where
  "new_refund r \<longleftrightarrow> rf_gen r = 0 \<and> rf_bolt11 r = None \<and> minted (refund_ext_id r)"

inductive refund_run :: "'w pay_backend \<Rightarrow> ('w \<Rightarrow> string \<Rightarrow> pay_status) \<Rightarrow> 'w env \<Rightarrow> 'w env \<Rightarrow> bool"
  for P st e where
  run_start: "refund_run P st e e"
| run_process: "refund_run P st e e1 \<Longrightarrow> q \<in> set (refunds (e_db e1)) \<Longrightarrow> row_current q row \<Longrightarrow>
    process P row now e1 = (r, e2, calls) \<Longrightarrow> refund_run P st e e2"
| run_retry: "refund_run P st e e1 \<Longrightarrow> run_tx (refund_retry_txn i now) e1 = (x, e2) \<Longrightarrow> refund_run P st e e2"
| run_release: "refund_run P st e e1 \<Longrightarrow> run_tx (clear_fence_txn i msg now) e1 = (y, e2) \<Longrightarrow> refund_run P st e e2"
| run_owed: "refund_run P st e e1 \<Longrightarrow> minted ext \<Longrightarrow>
    insert_refund_attempt_txn sub dest ext amount now (e_db e1) = Inr (fresh, d) \<Longrightarrow>
    refunds (e_db e2) = refunds d \<Longrightarrow> db_ok (e_db e2) \<Longrightarrow> e_world e2 = e_world e1 \<Longrightarrow> refund_run P st e e2"
| run_fence: "refund_run P st e e1 \<Longrightarrow>
    refunds (e_db e2) = update_where (\<lambda>r. rf_id r = i) (\<lambda>r. r\<lparr>rf_fence := Some now\<rparr>) (refunds (e_db e1)) \<Longrightarrow>
    db_ok (e_db e2) \<Longrightarrow> e_world e2 = e_world e1 \<Longrightarrow> refund_run P st e e2"
| run_other: "refund_run P st e e1 \<Longrightarrow> refunds (e_db e2) = refunds (e_db e1) \<Longrightarrow> db_ok (e_db e2) \<Longrightarrow>
    e_world e2 = e_world e1 \<Longrightarrow> refund_run P st e e2"
| run_world: "refund_run P st e e1 \<Longrightarrow> e_store e2 = e_store e1 \<Longrightarrow>
    settles (st (e_world e1)) (st (e_world e2)) \<Longrightarrow> refund_run P st e e2"

lemma gens_ok_append:
  assumes inv: "gens_ok N s d" and rows: "refunds d' = refunds d @ rs" "\<forall>r\<in>set rs. new_refund r" and ok: "db_ok d'"
  shows "gens_ok N s d'"
proof -
  have "gen_ok N s r" if r: "r \<in> set rs" for r
  proof -
    let ?x = "refund_ext_id r"
    from rows(2) r have new: "rf_gen r = 0" "rf_bolt11 r = None" "minted ?x" by (simp_all add: new_refund_def)
    have "\<forall>q\<in>set (refunds d). refund_ext_id q \<noteq> ?x"
    proof (intro ballI notI)
      fix q assume q: "q \<in> set (refunds d)" "refund_ext_id q = ?x"
      with refund_ext_unique [OF ok, of r q] rows(1) r have "q = r" by simp
      with q r okD_refunds [OF ok] rows(1) show False by auto
    qed
    with inv new(3) have "\<forall>g\<ge>0. s (gen_key ?x g) = PayUnknown" unfolding gens_ok_def by blast
    with new show ?thesis by (simp add: gen_ok_def past_gens_idle_def later_gens_unstarted_def)
  qed
  with inv rows(1) ok show ?thesis by (auto simp: gens_ok_def)
qed

lemma owed_good:
  assumes inv: "gens_ok N s d" and ext: "minted ext" and run: "insert_refund_attempt_txn sub dest ext amount now d = Inr (fresh, d1)"
    and rows: "refunds d' = refunds d1" and ok: "db_ok d'"
  shows "gens_ok N s d'"
proof -
  from inv have "db_ok d" by (simp add: gens_ok_def)
  then show ?thesis
  proof (cases rule: insert_refund_cases [where sub = sub and dest = dest and ext = ext and amount = amount and now = now])
    case old
    with run rows have "refunds d' = refunds d @ []" by simp
    from gens_ok_append [OF inv this _ ok] show ?thesis by simp
  next
    case (new r)
    with run rows have "refunds d' = refunds d @ [r]" by auto
    moreover have "refund_ext_id r = ext" by (simp only: new(2) refund_ext_id_def refund_attempt.simps external_id_from_keyed)
    with ext have "new_refund r" by (simp add: new_refund_def) (simp add: new(2))
    ultimately show ?thesis using gens_ok_append [OF inv _ _ ok] by simp
  qed
qed

context refund_backend
begin

lemma run_good: "refund_run P st e e' \<Longrightarrow> good P st e \<Longrightarrow> good P st e'"
proof (induction rule: refund_run.induct)
  case (run_process e1 q row now r e2 calls)
  then show ?case using process_good by blast
next
  case (run_world e1 e2)
  then show ?case by (intro good_calm [of _ _ e1 e2]) (simp_all add: calm_def)
next
  case (run_retry e1 i now x e2)
  then show ?case using good_calm refund_retry_calm by blast
next
  case (run_release e1 i msg now y e2)
  then show ?case using good_calm clear_fence_calm by blast
next
  case (run_owed e1 ext sub dest amount now fresh d e2)
  from run_owed.IH [OF run_owed.prems] have "gens_ok (pb_net P) (st (e_world e2)) (e_db e1)"
    unfolding good_def run_owed.hyps(6) .
  then show ?case unfolding good_def by (rule owed_good [OF _ run_owed.hyps(2-5)])
next
  case (run_fence e1 e2 i now)
  then have "same_core (e_db e1) (e_db e2)" by (intro same_core_update [OF disjI2]) (assumption, simp add: refund_core_def)
  with run_fence show ?case by (intro good_calm [of _ _ e1 e2]) (simp_all add: calm_def)
next
  case (run_other e1 e2)
  then show ?case by (intro good_calm [of _ _ e1 e2]) (simp_all add: calm_def same_core_def)
qed

lemma outstanding_is_current:
  assumes "good P st e" "r \<in> set (refunds (e_db e))" "0 \<le> g"
    "st (e_world e) (gen_key (refund_ext_id r) g) \<in> {PayPending, PaySucceeded}"
  shows "g = rf_gen r"
proof (rule ccontr)
  assume "g \<noteq> rf_gen r"
  with good_row [OF assms(1,2)] assms(3)
  have "st (e_world e) (gen_key (refund_ext_id r) g) \<in> {PayUnknown, PayFailed}"
    unfolding gen_ok_def past_gens_idle_def later_gens_unstarted_def by (metis insertCI linorder_neqE)
  with assms(4) show False by auto
qed

end

text \<open>
  C1. No refund is ever paid twice. Start with no refunds and no payment started and let the tasks that write the refund
  table run in any order and as often as they like: refunds are owed for external ids the daemon minted, the refunder
  processes rows, the operator retries failed refunds and releases fences, the import fences rows, commits fail, and every
  other task writes the other tables. The backend may answer \<open>Unknown\<close> or fail whenever it likes, as long as it keeps the
  interface \<open>refund_backend\<close>: an answer \<open>Failed\<close> is true, a settled payment stays settled, and only a pay call
  starts a payment, under its own key. Then of all the generation keys of a refund at most one, the row's current
  generation, has a payment in flight or succeeded.
\<close>

theorem refund_never_paid_twice:
  assumes backend: "refund_backend P st"
    and start: "refunds (e_db e) = []" "db_ok (e_db e)" "\<forall>k. st (e_world e) k = PayUnknown"
    and run: "refund_run P st e e'"
    and r: "r \<in> set (refunds (e_db e'))"
    and g: "0 \<le> g" "st (e_world e') (gen_key (refund_ext_id r) g) \<in> {PayPending, PaySucceeded}"
  shows "g = rf_gen r"
proof -
  have "good P st e" using start by (simp add: good_def gens_ok_def)
  from refund_backend.run_good [OF backend run this] show ?thesis
    by (rule refund_backend.outstanding_is_current [OF backend _ r g])
qed

subsection \<open>The mock keeps the interface\<close>

definition mock_truth :: "mock_state \<Rightarrow> string \<Rightarrow> pay_status" where
  "mock_truth m k = (if mk_payments m k = None then PayUnknown else PaySucceeded)"

interpretation mock: refund_backend "mock_backend N" mock_truth for N
  by unfold_locales
     (auto simp: mock_backend_def mock_status_by_key_def default_refund_quote_def mock_resolver_def
        default_prepare_def default_pay_refund_via_def mock_pay_def mock_truth_def settles_at_def Let_def
        split: option.splits)

subsection \<open>A refund paid on the mock\<close>

text \<open>A refund of 6 sat, owed for a settled invoice, on the mock with its fresh state.\<close>

definition paid_refund :: refund_attempt where
  "paid_refund = sample_refund ''order:ab:x'' ''PENDING'' 6"

definition paid_db :: db where
  "paid_db = empty_db\<lparr>invoices := [sample_paid ''order:ab:x'' 6500], refunds := [paid_refund]\<rparr>"

definition paid_env :: "db \<Rightarrow> mock_state env" where
  "paid_env d = \<lparr>e_store = \<lparr>st_db = d, st_degraded = False\<rparr>, e_alerts = None, e_world = mock_new\<rparr>"

abbreviation paid_row :: refund_row where "paid_row \<equiv> row_of paid_db paid_refund"
abbreviation sample_mock :: "mock_state pay_backend" where "sample_mock \<equiv> mock_backend sample_net"

lemma mock_sel [simp]:
  "pb_status (mock_backend N) = mock_status_by_key" "pb_quote (mock_backend N) = default_refund_quote"
  "pb_resolve (mock_backend N) = mock_resolver" "pb_prepare (mock_backend N) = default_prepare"
  "pb_pay (mock_backend N) = default_pay_refund_via mock_pay" "pb_reuse (mock_backend N) = True"
  "pb_net (mock_backend N) = N"
  by (simp_all add: mock_backend_def)

lemma paid_env_db [simp]: "e_db (paid_env d) = d"
  by (simp add: paid_env_def)

lemma paid_provenance: "verify_refund_provenance paid_row ''order:ab:x'' paid_db = ProvenanceOk 6"
  by (simp add: verify_refund_provenance_def lookup_received_amount_def paid_db_def paid_refund_def sample_paid_def
      sample_refund_def sample_defs receipt_settled_def invoice_received_sat_def sql_div_def row_of_def)

lemma paid_fields: "external_id_of paid_row = ''order:ab:x''" "rr_fence paid_row = None"
  "rr_dest paid_row = Some ''a@b.c''" "rr_id paid_row = ''ref-order:ab:x''" "rr_bolt11 paid_row = None"
  by (simp_all add: external_id_of_def row_of_def paid_refund_def sample_refund_def external_id_from_def)

lemma paid_trim: "str_trim ''a@b.c'' = ''a@b.c''"
  by (simp add: str_trim_def is_space_def)

lemma paid_form: "detect_form N ''a@b.c'' = Inr (LnAddress ''a'' ''b.c'')"
  by (simp add: detect_form_def parse_ln_address_def split_at_sign_def str_trim_def is_space_def
      user_char_def domain_char_def is_alnum_def)

lemma paid_pending: "count_where (refund_pending ''ref-order:ab:x'') (refunds paid_db) = 1"
  by (simp add: paid_db_def paid_refund_def sample_refund_def refund_pending_def)

definition planned_db :: db where
  "planned_db = snd (projr (persist_resolution ''ref-order:ab:x'' (pass_through ''a@b.c'') 1 9 paid_db))"

lemma paid_plan: "plan_payment sample_mock paid_row ''order:ab:x'' ''a@b.c'' 6 9 (paid_env paid_db)
    = (Inr (Pay ''a@b.c'' 1 6 None), paid_env planned_db)"
  by (simp add: plan_payment_def paid_form paid_fields quote_net_cap_def on_world_def
      default_refund_quote_def default_refund_net_sat_def resolve_and_persist_def checked_mul_u64_def
      resolve_dest_def mock_resolver_def run_tx_def transaction_def transaction_then_def persist_resolution_def
      paid_env_def paid_pending planned_db_def pass_through_def)

lemma planned_open: "count_where (authorisable ''ref-order:ab:x'') (refunds planned_db) = 1"
  by (simp add: planned_db_def persist_resolution_def update_refund_def paid_db_def paid_refund_def sample_refund_def
     refund_pending_def authorisable_def)

lemma paid_executes: "process sample_mock paid_row 9 (paid_env paid_db)
    = execute_plan sample_mock paid_row ''order:ab:x'' 6 9 ''a@b.c'' 1 6 None (paid_env planned_db)"
  by (simp add: process_def Let_def paid_fields paid_provenance paid_trim paid_plan)

lemma paid_process: "\<exists>r e' c. process sample_mock paid_row 9 (paid_env paid_db) = (r, e', [c]) \<and>
    pc_key c = gen_key ''order:ab:x'' 1 \<and> e_world e' = snd (mock_pay [] 0 (gen_key ''order:ab:x'' 1) mock_new)"
  unfolding paid_executes
  by (simp add: execute_plan_def Let_def already_paid_def attempt_pay_status_def on_world_def
      mock_status_by_key_def mock_new_def paid_fields authorise_send_def default_prepare_def run_tx_def
      transaction_def transaction_then_def authorise_txn_def planned_open pay_and_commit_def
      default_pay_refund_via_def mock_pay_def finish_sent_def paid_env_def commit_sent_txn_def split: if_split)

lemma paid_pending_rows: "pending_refunds paid_db = [paid_row]"
  by (simp add: pending_refunds_def paid_db_def paid_refund_def sample_refund_def)

theorem drive_pays_only_owed_witness:
  "\<exists>res e' c. refund_drive sample_mock 9 (paid_env paid_db) = (res, e', [c]) \<and> pc_received c = 6"
proof -
  obtain r e' c where p: "process sample_mock paid_row 9 (paid_env paid_db) = (r, e', [c])" using paid_process by blast
  obtain res e2 where run: "refund_drive sample_mock 9 (paid_env paid_db) = (res, e2, [c])"
    by (cases r) (simp_all add: refund_drive_def paid_pending_rows p)
  from drive_pays_only_owed [OF run] obtain row where
    "row = paid_row" "\<exists>a. lookup_received_amount (external_id_of row) paid_db = Some a \<and> pc_received c = nat a"
    by (auto simp: paid_pending_rows list_all2_Cons2 elim!: list_emb.cases)
  moreover have "lookup_received_amount ''order:ab:x'' paid_db = Some 6"
    using paid_provenance by (auto simp: verify_refund_provenance_def split: option.splits if_splits)
  ultimately have "pc_received c = 6" by (simp add: paid_fields)
  with run show ?thesis by blast
qed

theorem refund_never_paid_twice_witness:
  "\<exists>(e' :: mock_state env) r. r \<in> set (refunds (e_db e')) \<and> rf_gen r = 1 \<and>
     mock_truth (e_world e') (gen_key ''order:ab:x'' 1) = PaySucceeded"
proof -
  let ?e0 = "paid_env empty_db"
  have db: "db_ok paid_db"
    by (simp add: paid_db_def paid_refund_def sample_refund_def sample_paid_def sample_defs db_ok_def refund_keyed_def)
  have r1: "refund_run sample_mock mock_truth ?e0 (paid_env paid_db)"
    by (rule run_owed [OF run_start sample_minted(2), where fresh = True and d = "empty_db\<lparr>refunds := [paid_refund]\<rparr>"
          and sub = "rf_sub paid_refund" and dest = "rf_dest paid_refund" and amount = "rf_amount paid_refund" and now = "rf_created paid_refund"])
       (use db in \<open>simp_all add: insert_refund_attempt_txn_def paid_env_def paid_db_def empty_db_def paid_refund_def sample_refund_def\<close>)
  obtain r e' c where p: "process sample_mock paid_row 9 (paid_env paid_db) = (r, e', [c])"
    "e_world e' = snd (mock_pay [] 0 (gen_key ''order:ab:x'' 1) mock_new)" using paid_process by blast
  have q: "paid_refund \<in> set (refunds (e_db (paid_env paid_db)))" by (simp add: paid_db_def)
  have r2: "refund_run sample_mock mock_truth ?e0 e'" by (rule run_process [OF r1 q row_current_row_of p(1)])
  from process_effects [OF p(1)] have moved: "rows_move paid_db (e_db e')" by (simp add: moves_def)
  then obtain q' where q': "refunds (e_db e') = [q']" "row_moves paid_refund q'"
    by (auto simp: rows_move_def paid_db_def list_all2_Cons1)
  have x: "refund_ext_id q' = ''order:ab:x''"
    using q'(2) by (auto simp: row_moves_def paid_refund_def sample_refund_def refund_ext_id_def external_id_from_def)
  have out: "mock_truth (e_world e') (gen_key ''order:ab:x'' 1) = PaySucceeded"
    by (simp add: p(2) mock_pay_def mock_new_def mock_truth_def Let_def)
  have "1 = rf_gen q'"
    by (rule refund_never_paid_twice [OF mock.refund_backend_axioms _ _ _ r2, where g = 1])
       (use out x q'(1) in \<open>simp_all add: paid_env_def mock_truth_def mock_new_def empty_db_def db_ok_def\<close>)
  with q'(1) out show ?thesis by (intro exI [of _ e'] exI [of _ q']) simp
qed
end
