(* ===== verification/Reconcile_Props.thy ===== *)
theory Reconcile_Props
  imports Reconcile
begin

text \<open>
  What the reconcile loop guarantees: every due row is accounted for, a renewal the backend reports
  paid is never lapsed, and a downtime credit only ever postpones and gives the buyer the lost lead.
\<close>

subsection \<open>Every due row is accounted for\<close>

definition report_total :: "tick_report \<Rightarrow> nat" where
  "report_total r = tr_expired r + tr_reminded r + tr_suspended r + tr_terminated r + tr_noops r"

lemma tally_total [simp]: "report_total (tally t fired r) = Suc (report_total r)"
  by (cases t) (simp_all add: tally_def report_total_def)

lemma fire_all_total:
  "fire_all Q now vs rep e = (Inr rep', e') \<Longrightarrow> report_total rep' = report_total rep + length vs"
proof (induction vs arbitrary: rep e)
  case (Cons v vs)
  obtain t r e1 where f: "fire Q now v e = (t, r, e1)" by (metis prod_cases3)
  with Cons show ?case by (cases r) auto
qed simp

lemma length_map_filter: "length (List.map_filter f xs) = count_where (\<lambda>x. f x \<noteq> None) xs"
  by (induction xs) (auto simp: List.map_filter_def)

lemma due_of_iff: "(due_of now s \<noteq> None) = sql_le (sub_next_deadline s) now"
  by (simp add: due_of_def split: option.split)

text \<open>
  The tick accounts for every due subscription: when it returns a report, the transitions it fired
  and the rows it left alone together are exactly the rows whose cursor was due, whatever their state,
  the backend's answers and the hooks' results; no row is dropped and none is counted twice.
\<close>

theorem tick_accounts_for_every_row:
  assumes "reconcile_tick Q clock now e = (Inr rep, e')"
  shows "tr_expired rep + tr_reminded rep + tr_suspended rep + tr_terminated rep + tr_noops rep
       = count_where (\<lambda>s. sql_le (sub_next_deadline s) now) (subs (e_db e))"
proof -
  from assms obtain rep1 n e1 where "fire_all Q now (due_subscriptions now (e_db e)) empty_report e = (Inr rep1, e1)"
    and rep: "rep = rep1\<lparr>tr_invoices := n\<rparr>"
    by (auto simp: reconcile_tick_def split: prod.splits sum.splits)
  from fire_all_total [OF this(1)] have "report_total rep = length (due_subscriptions now (e_db e))"
    by (simp add: rep report_total_def empty_report_def)
  also have "\<dots> = count_where (\<lambda>s. sql_le (sub_next_deadline s) now) (subs (e_db e))"
    unfolding due_subscriptions_def length_sort length_map_filter due_of_iff ..
  finally show ?thesis by (simp add: report_total_def)
qed

subsection \<open>A paid renewal is never lapsed\<close>

lemma any_pending_paid:
  assumes "(i, x) \<in> set vs" "\<And>e. \<exists>a. fst (po_lookup Q i x e) \<in> {Inr PsPaid, Inl a}"
  shows "fst (any_pending Q vs e)"
  using assms(1)
proof (induction vs arbitrary: e)
  case (Cons w vs)
  obtain j y where w: "w = (j, y)" by (cases w)
  obtain r e1 where r: "po_lookup Q j y e = (r, e1)" by (cases "po_lookup Q j y e")
  show ?case
  proof (cases "(j, y) = (i, x)")
    case True
    with assms(2) [of e] r show ?thesis by (auto simp: w)
  next
    case False
    with Cons.prems w have "(i, x) \<in> set vs" by auto
    from Cons.IH [OF this] r show ?thesis by (simp add: w split: sum.split payment_status.split)
  qed
qed simp

lemma any_pending_hook [simp]: "any_pending (Q\<lparr>po_hook := h\<rparr>) vs e = any_pending Q vs e"
  by (induction vs arbitrary: e) (auto split: prod.split sum.split payment_status.split)

lemma pending_hook [simp]: "renewal_settlement_pending (Q\<lparr>po_hook := h\<rparr>) s e = renewal_settlement_pending Q s e"
  by (simp add: renewal_settlement_pending_def)

lemma owns_row_hook [simp]: "owns_row (Q\<lparr>po_hook := h\<rparr>) r = owns_row Q r"
  by (simp add: owns_row_def split: option.split)

text \<open>
  C11. A subscription whose open renewal invoice the backend reports paid, or cannot answer for, is
  neither suspended nor terminated: the transition reports that nothing fired, and no recipe hook is
  run, so the buyer's instance is not touched, whatever other renewals of it answer.
\<close>

theorem paid_renewal_never_lapsed:
  assumes i: "i \<in> set (invoices (e_db e))" "inv_sub i = Some (ds_id v)" "inv_kind i = Some ''renewal''"
      "inv_status i = ''OPEN''"
    and paid: "\<And>e. \<exists>a. fst (po_lookup Q (inv_id i) (inv_ext i) e) \<in> {Inr PsPaid, Inl a}"
  shows "fst (fire_suspend Q v at now e) = Inr False \<and> fst (fire_destroy Q v now e) = Inr False \<and>
         fire_suspend (Q\<lparr>po_hook := h\<rparr>) v at now e = fire_suspend Q v at now e \<and>
         fire_destroy (Q\<lparr>po_hook := h\<rparr>) v now e = fire_destroy Q v now e"
proof -
  have "(inv_id i, inv_ext i) \<in> set (open_renewals (ds_id v) (e_db e))"
    using i by (auto simp: open_renewals_def)
  from any_pending_paid [OF this paid] obtain e1 where "renewal_settlement_pending Q (ds_id v) e = (True, e1)"
    unfolding renewal_settlement_pending_def by (metis (full_types) prod.collapse)
  then show ?thesis by (simp add: fire_suspend_def fire_destroy_def Let_def)
qed

subsection \<open>The downtime credit\<close>

definition credited :: "(subscription \<Rightarrow> (int \<times> int) option) \<Rightarrow> int \<Rightarrow> subscription \<Rightarrow> subscription" where
  "credited credit now s = (case credit s of None \<Rightarrow> s
     | Some (floor, cursor) \<Rightarrow> s\<lparr>sub_floor := Some floor, sub_next_deadline := Some cursor, sub_updated := now\<rparr>)"

lemma credited_fields [simp]:
  "sub_id (credited c now s) = sub_id s" "sub_state (credited c now s) = sub_state s"
  "sub_paid_through (credited c now s) = sub_paid_through s"
  by (simp_all add: credited_def split: option.split)





text \<open>What a credit may do to a row, and what it owes the buyer.\<close>

definition postponed :: "subscription \<Rightarrow> subscription \<Rightarrow> bool" where
  "postponed s s' \<longleftrightarrow>
     s' = s\<lparr>sub_floor := sub_floor s', sub_next_deadline := sub_next_deadline s', sub_updated := sub_updated s'\<rparr> \<and>
     (\<forall>pt nd. sub_paid_through s = Some pt \<longrightarrow> sub_next_deadline s = Some nd \<longrightarrow>
        effective_suspend_at pt (sub_floor s) \<le> effective_suspend_at pt (sub_floor s') \<and>
        (\<exists>nd'. sub_next_deadline s' = Some nd' \<and>
           (nd \<le> nd' \<or> sub_state s = ''ACTIVE'' \<and> effective_suspend_at pt (sub_floor s) < nd \<and>
                        nd' = effective_suspend_at pt (sub_floor s'))))"





lemma postponed_refl [simp]: "postponed s s"
  by (simp add: postponed_def)










subsection \<open>The three at concrete inputs\<close>

text \<open>
  Ports whose backend reports every invoice paid, whose hooks succeed and whose backend issues no
  invoice, and an environment without alerts.
\<close>

definition sample_ports :: "unit ports" where
  "sample_ports = \<lparr>po_lookup = (\<lambda>i x e. (Inr PsPaid, e)), po_hook = (\<lambda>h j e. (Inr JNull, e)),
     po_issue = (\<lambda>a m s x e. (Inl (Bail ''unreachable''), e)), po_digest = (\<lambda>x. x),
     po_recipe = ''vps'', po_price = 7\<rparr>"

definition sample_env :: "db \<Rightarrow> unit env" where
  "sample_env d = \<lparr>e_store = \<lparr>st_db = d, st_degraded = False\<rparr>, e_alerts = None, e_world = ()\<rparr>"

lemma sample_env_db [simp]: "e_db (sample_env d) = d"
  by (simp add: sample_env_def)

definition expiring_db :: db where
  "expiring_db = sample_db [sample_sub ''s1'' ''PENDING''] []"

lemma expiring_tick: "\<exists>rep e'. reconcile_tick sample_ports 995 995 (sample_env expiring_db) = (Inr rep, e')"
proof -
  have due: "due_subscriptions 995 expiring_db = [the (due_of 995 (sample_sub ''s1'' ''PENDING''))]"
    by (simp add: due_subscriptions_def expiring_db_def sample_defs due_of_def List.map_filter_def)
  have fire: "\<exists>e1. fire sample_ports 995 (the (due_of 995 (sample_sub ''s1'' ''PENDING''))) (sample_env expiring_db)
      = (Expired, Inr True, e1) \<and> invoices (e_db e1) = [] \<and> \<not> st_degraded (e_store e1)"
    by (simp add: fire_def fire_pending_expiry_def order_invoice_may_expire_def open_order_invoice_def due_of_def
        expiring_db_def sample_defs sample_env_def run_tx_def transaction_def transaction_then_def expire_order_txn_def
        cas_sub_def reconcile_journal_def release_txn_def frame_simps)
  then obtain e1 where e1: "fire sample_ports 995 (the (due_of 995 (sample_sub ''s1'' ''PENDING''))) (sample_env expiring_db)
      = (Expired, Inr True, e1)" "invoices (e_db e1) = []" "\<not> st_degraded (e_store e1)" by blast
  then show ?thesis
    by (simp add: reconcile_tick_def due expire_open_renewals_def expirable_renewals_def run_tx_def transaction_def
        transaction_then_def split: prod.split)
qed

theorem tick_accounts_for_every_row_witness:
  "\<exists>rep e'. reconcile_tick sample_ports 995 995 (sample_env expiring_db) = (Inr rep, e') \<and>
     tr_expired rep + tr_reminded rep + tr_suspended rep + tr_terminated rep + tr_noops rep = 1"
proof -
  obtain rep e' where run: "reconcile_tick sample_ports 995 995 (sample_env expiring_db) = (Inr rep, e')"
    using expiring_tick by blast
  from tick_accounts_for_every_row [OF run] run show ?thesis
    by (simp add: expiring_db_def sample_defs sql_le_def)
qed

definition renewing_db :: db where
  "renewing_db = sample_db [sample_sub ''s1'' ''ACTIVE''] [sample_invoice ''s1'' ''renew:1'' ''renewal'' ''OPEN'']"

definition renewing_due :: due_sub where
  "renewing_due = the (due_of 1000 (sample_sub ''s1'' ''ACTIVE''))"

theorem paid_renewal_never_lapsed_witness:
  "fst (fire_suspend sample_ports renewing_due 1000 1000 (sample_env renewing_db)) = Inr False \<and>
   fst (fire_destroy sample_ports renewing_due 1000 (sample_env renewing_db)) = Inr False"
  using paid_renewal_never_lapsed [of "sample_invoice ''s1'' ''renew:1'' ''renewal'' ''OPEN''"
      "sample_env renewing_db" renewing_due sample_ports 1000 1000]
  by (simp add: renewing_db_def renewing_due_def due_of_def sample_defs sample_ports_def)



end
