(* ===== verification/Resume.thy ===== *)
theory Resume
  imports Reconcile Refund_Commits
begin

text \<open>
  Resuming a suspended subscription after a paid renewal, \<open>daemon/src/resume.rs\<close>. Capture moved the
  row to RESUMING and journalled the timers it overwrote; this driver runs the recipe's \<open>resume\<close> hook
  and either activates the row or, when the hook failed for good, restores the journalled timers and
  writes one refund per renewal captured since.

  \<open>drive\<close>, \<open>recover\<close>, \<open>run_resume\<close>, \<open>mark_active\<close>, \<open>ResumeFailureWrite::write\<close>,
  \<open>pending_renew_resumes\<close> and \<open>validate_renewals\<close> are the functions of those names. The hook is the
  port of \<open>Reconcile\<close>: while it runs the database may change.
\<close>

definition resume_attempts :: nat where "resume_attempts = 3"

datatype resume_outcome = ResumeActive | SuspendedRefundPending | ResumeSkipped

subsection \<open>The journalled baseline\<close>

record resume_baseline =
  bl_ext :: string
  bl_amount :: "int option"
  bl_paid :: "int option"
  bl_floor :: "int option"

text \<open>A member of type \<open>Option<i64>\<close>: absent and null are \<open>None\<close>; another type or range is an error.\<close>

fun opt_i64 :: "json option \<Rightarrow> int option option" where
  "opt_i64 None = Some None"
| "opt_i64 (Some JNull) = Some None"
| "opt_i64 (Some (JInt i)) = (if - (2 ^ 63) \<le> i \<and> i < 2 ^ 63 then Some (Some i) else None)"
| "opt_i64 (Some _) = None"

definition baseline_of_json :: "json \<Rightarrow> store_error + resume_baseline" where
  "baseline_of_json j =
     (case (json_get ''external_id'' j, opt_i64 (json_get ''amount_sat'' j),
            opt_i64 (json_get ''previous_paid_through'' j), opt_i64 (json_get ''previous_suspend_not_before'' j)) of
        (Some (JStr x), Some a, Some p, Some f) \<Rightarrow> Inr \<lparr>bl_ext = x, bl_amount = a, bl_paid = p, bl_floor = f\<rparr>
      | _ \<Rightarrow> Inl (Bail ''renew_resume baseline''))"

definition parse_renew_resume_baseline :: "json \<Rightarrow> store_error + resume_baseline option" where
  "parse_renew_resume_baseline j =
     (case j of
        JObj _ \<Rightarrow>
          (if json_get ''previous_paid_through'' j = None \<or> json_get ''previous_suspend_not_before'' j = None
           then Inr None
           else (case baseline_of_json j of Inl e \<Rightarrow> Inl e | Inr b \<Rightarrow> Inr (Some b)))
      | _ \<Rightarrow> Inr None)"

fun collect_baselines :: "json list \<Rightarrow> store_error + resume_baseline list" where
  "collect_baselines [] = Inr []"
| "collect_baselines (j # js) =
     (case parse_renew_resume_baseline j of
        Inl e \<Rightarrow> Inl e
      | Inr b \<Rightarrow>
          (case collect_baselines js of
             Inl e \<Rightarrow> Inl e
           | Inr bs \<Rightarrow> Inr (case b of None \<Rightarrow> bs | Some x \<Rightarrow> x # bs)))"

definition resume_resolution :: "string \<Rightarrow> event \<Rightarrow> bool" where
  "resume_resolution s ev \<longleftrightarrow> ev_sub ev = Some s \<and> ev_kind ev \<in> {''resume_active'', ''resume_failed''}"

definition last_resolution_id :: "string \<Rightarrow> db \<Rightarrow> int" where
  "last_resolution_id s d = fold max (map ev_id (filter (resume_resolution s) (events d))) 0"

definition pending_renew_resumes :: "string \<Rightarrow> db \<Rightarrow> store_error + resume_baseline list" where
  "pending_renew_resumes s d = collect_baselines (map ev_detail (sort_key ev_id
     (filter (\<lambda>ev. ev_sub ev = Some s \<and> ev_kind ev = ''renew_resume'' \<and> last_resolution_id s d < ev_id ev)
        (events d))))"

definition validate_renewals :: "string \<Rightarrow> resume_baseline list \<Rightarrow> store_error option" where
  "validate_renewals s bs =
     (if bs = [] then Some (Bail (''resume: RESUMING sub `'' @ s @ ''` has no renew_resume journal baseline''))
      else if \<exists>b\<in>set bs. str_trim (bl_ext b) = []
      then Some (Bail (''resume: RESUMING sub `'' @ s @ ''` has an empty renewal external_id''))
      else None)"

subsection \<open>The transactions\<close>

definition mark_active_txn :: "string \<Rightarrow> int \<Rightarrow> resume_outcome tx" where
  "mark_active_txn s now d =
     (case cas_sub (\<lambda>r. sub_id r = s \<and> sub_state r = ''RESUMING'')
             (\<lambda>r. r\<lparr>sub_state := ''ACTIVE'', sub_updated := now\<rparr>) d of
        (False, d') \<Rightarrow> Inr (ResumeSkipped, d')
      | (True, d') \<Rightarrow> Inr (ResumeActive, insert_event (Some s) ''resume_active'' (JObj []) now d'))"

fun refund_renewals ::
  "string \<Rightarrow> string option \<Rightarrow> int \<Rightarrow> resume_baseline list \<Rightarrow> db \<Rightarrow> store_error + db" where
  "refund_renewals s dest now [] d = Inr d"
| "refund_renewals s dest now (b # bs) d =
     (case insert_refund_attempt_txn (Some s) dest (bl_ext b) (bl_amount b) now d of
        Inl e \<Rightarrow> Inl e
      | Inr (_, d') \<Rightarrow> refund_renewals s dest now bs d')"

record resume_target =
  rt_state :: string
  rt_buyer :: string
  rt_recipe :: "string option"
  rt_dest :: "string option"
  rt_lead :: int
  rt_retention :: int
  rt_instance :: "instance_row option"

definition load_target :: "string \<Rightarrow> db \<Rightarrow> resume_target option" where
  "load_target s d =
     (case find_sub s d of
        None \<Rightarrow> None
      | Some r \<Rightarrow> Some \<lparr>rt_state = sub_state r, rt_buyer = unwrap_or (sub_buyer r) [], rt_recipe = sub_recipe r,
          rt_dest = sub_dest r, rt_lead = unwrap_or (sub_renew_lead_s r) 0,
          rt_retention = unwrap_or (sub_retention_s r) 0,
          rt_instance = (case sub_instance r of None \<Rightarrow> None | Some i \<Rightarrow> find_instance i d)\<rparr>)"

definition suspend_again :: "resume_baseline \<Rightarrow> int \<Rightarrow> int \<Rightarrow> int \<Rightarrow> subscription \<Rightarrow> subscription" where
  "suspend_again b lead retention now r =
     r\<lparr>sub_state := ''SUSPENDED'', sub_paid_through := bl_paid b,
       sub_soft_date := map_option (\<lambda>pt. pt - lead) (bl_paid b),
       sub_next_deadline := map_option (\<lambda>pt. max pt (unwrap_or (bl_floor b) pt) + retention) (bl_paid b),
       sub_floor := bl_floor b, sub_updated := now\<rparr>"

definition resume_failed_json :: "resume_baseline list \<Rightarrow> json" where
  "resume_failed_json bs = JObj
     [(''external_ids'', JArr (map (\<lambda>b. JStr (bl_ext b)) bs)),
      (''refund_ids'', JArr (map (\<lambda>b. JStr (''ref-'' @ bl_ext b)) bs))]"

definition resume_failure_txn :: "string \<Rightarrow> resume_target \<Rightarrow> int \<Rightarrow> bool tx" where
  "resume_failure_txn s t now d =
     (case pending_renew_resumes s d of
        Inl e \<Rightarrow> Inl e
      | Inr bs \<Rightarrow>
          (case validate_renewals s bs of
             Some e \<Rightarrow> Inl e
           | None \<Rightarrow>
               (case cas_sub (\<lambda>r. sub_id r = s \<and> sub_state r = ''RESUMING'')
                       (suspend_again (hd bs) (rt_lead t) (rt_retention t) now) d of
                  (False, d') \<Rightarrow> Inr (False, d')
                | (True, d') \<Rightarrow>
                    (case refund_renewals s (rt_dest t) now bs d' of
                       Inl e \<Rightarrow> Inl e
                     | Inr d'' \<Rightarrow> Inr (True,
                         insert_event (Some s) ''resume_failed'' (resume_failed_json bs) now d'')))))"

subsection \<open>The driver\<close>

definition resume_input :: "string \<Rightarrow> string \<Rightarrow> instance_row \<Rightarrow> json" where
  "resume_input s buyer i = JObj [(''subscription'', sub_json s buyer), (''instance'', instance_json s i),
     (''handles'', unwrap_or (ins_handles i) JNull)]"

text \<open>\<open>run_resume\<close> with \<open>n\<close> attempts left.\<close>

fun run_resume :: "'w ports \<Rightarrow> nat \<Rightarrow> json \<Rightarrow> 'w env \<Rightarrow> bool \<times> 'w env" where
  "run_resume Q 0 input e = (False, e)"
| "run_resume Q (Suc n) input e =
     (case po_hook Q ''resume'' input e of
        (Inr _, e') \<Rightarrow> (True, e')
      | (Inl _, e') \<Rightarrow> run_resume Q n input e')"

definition mark_active :: "string \<Rightarrow> int \<Rightarrow> 'w env \<Rightarrow> (store_error + resume_outcome) \<times> 'w env" where
  "mark_active s now e = run_tx (mark_active_txn s now) e"

definition fail_to_suspended_refund ::
  "string \<Rightarrow> resume_target \<Rightarrow> int \<Rightarrow> 'w env \<Rightarrow> (store_error + resume_outcome) \<times> 'w env" where
  "fail_to_suspended_refund s t now e =
     (case run_tx (resume_failure_txn s t now) e of
        (Inl err, e') \<Rightarrow> (Inl err, e')
      | (Inr claimed, e') \<Rightarrow> (Inr (if claimed then SuspendedRefundPending else ResumeSkipped), e'))"

definition resume_drive :: "'w ports \<Rightarrow> string \<Rightarrow> int \<Rightarrow> 'w env \<Rightarrow> (store_error + resume_outcome) \<times> 'w env" where
  "resume_drive Q s now e =
     (case load_target s (e_db e) of
        None \<Rightarrow> (Inr ResumeSkipped, e)
      | Some t \<Rightarrow>
          if rt_state t \<noteq> ''RESUMING'' then (Inr ResumeSkipped, e)
          else if rt_recipe t \<noteq> Some (po_recipe Q) then (Inr ResumeSkipped, e)
          else (case rt_instance t of
            None \<Rightarrow> fail_to_suspended_refund s t now e
          | Some i \<Rightarrow>
              (case run_resume Q resume_attempts (resume_input s (rt_buyer t) i) e of
                 (True, e') \<Rightarrow> mark_active s now e'
               | (False, e') \<Rightarrow> fail_to_suspended_refund s t now e')))"

definition resuming_ids :: "'w ports \<Rightarrow> db \<Rightarrow> string list" where
  "resuming_ids Q d = map sub_id (filter (\<lambda>r. sub_state r = ''RESUMING'' \<and> sub_recipe r = Some (po_recipe Q)) (subs d))"

fun recover_each :: "'w ports \<Rightarrow> int \<Rightarrow> string list \<Rightarrow> nat \<Rightarrow> 'w env \<Rightarrow> nat \<times> 'w env" where
  "recover_each Q now [] n e = (n, e)"
| "recover_each Q now (s # ss) n e =
     (case resume_drive Q s now e of
        (Inr ResumeSkipped, e') \<Rightarrow> recover_each Q now ss n e'
      | (Inr _, e') \<Rightarrow> recover_each Q now ss (n + 1) e'
      | (Inl _, e') \<Rightarrow> recover_each Q now ss n e')"

definition resume_recover :: "'w ports \<Rightarrow> int \<Rightarrow> 'w env \<Rightarrow> nat \<times> 'w env" where
  "resume_recover Q now e = recover_each Q now (resuming_ids Q (e_db e)) 0 e"

end
