(* ===== verification/Resume_Props.thy ===== *)
theory Resume_Props
  imports Resume Reconcile_Props
begin

text \<open>
  What the resume driver guarantees: the journal that capture writes and the driver reads round-trips,
  and a resume that fails for good undoes every renewal paid since the suspension and refunds it.
\<close>

subsection \<open>The journal under a renewal\<close>

lemma sort_events:
  assumes "db_ok d"
  shows "sort_key ev_id (filter P (events d)) = filter P (events d)"
proof -
  have "sorted_wrt (<) (map ev_id (filter P (events d)))"
    using db_okD(10) [OF assms] by (simp add: sorted_wrt_map sorted_wrt_filter)
  then have "sorted (map ev_id (filter P (events d)))" by (rule strict_sorted_imp_sorted)
  then show ?thesis by (rule sort_key_id_if_sorted)
qed

lemma fold_max_bound: "(fold max xs a :: int) \<le> b \<longleftrightarrow> a \<le> b \<and> (\<forall>x\<in>set xs. x \<le> b)"
  by (induction xs arbitrary: a) auto

lemma last_resolution_le: "db_ok d \<Longrightarrow> 0 \<le> event_seq d \<Longrightarrow> last_resolution_id s d \<le> event_seq d"
  by (auto simp: last_resolution_id_def fold_max_bound dest: db_okD(11))

lemma collect_baselines_snoc:
  "collect_baselines js = Inr bs \<Longrightarrow> parse_renew_resume_baseline j = Inr (Some b)
   \<Longrightarrow> collect_baselines (js @ [j]) = Inr (bs @ [b])"
  by (induction js arbitrary: bs) (auto split: sum.splits option.splits)

lemma pending_cong: "events d' = events d \<Longrightarrow> pending_renew_resumes s d' = pending_renew_resumes s d"
  by (simp add: pending_renew_resumes_def last_resolution_id_def)

lemma pending_snoc:
  assumes "db_ok d" "0 \<le> event_seq d" "pending_renew_resumes s d = Inr bs"
    "parse_renew_resume_baseline j = Inr (Some b)"
  shows "pending_renew_resumes s (insert_event (Some s) ''renew_resume'' j now d) = Inr (bs @ [b])"
proof -
  let ?d = "insert_event (Some s) ''renew_resume'' j now d"
  have ok: "db_ok ?d" using assms(1) by simp
  have res: "last_resolution_id s ?d = last_resolution_id s d"
    by (simp add: last_resolution_id_def insert_event_def resume_resolution_def)
  have "last_resolution_id s d < event_seq d + 1" using last_resolution_le [OF assms(1,2), of s] by simp
  then show ?thesis
    using assms(3) collect_baselines_snoc [OF _ assms(4)]
    by (simp add: pending_renew_resumes_def sort_events [OF ok] sort_events [OF assms(1)] res)
       (simp add: insert_event_def)
qed

definition timers_i64 :: "subscription \<Rightarrow> bool" where
  "timers_i64 r \<longleftrightarrow> (\<forall>v\<in>set_option (sub_paid_through r) \<union> set_option (sub_floor r). - (2 ^ 63) \<le> v \<and> v < 2 ^ 63)"

lemma opt_i64_json: "(\<forall>v\<in>set_option x. - (2 ^ 63) \<le> v \<and> v < 2 ^ 63) \<Longrightarrow> opt_i64 (Some (json_of_int x)) = Some x"
  by (cases x) simp_all

lemma parse_capture_baseline:
  assumes "st_received s < u64_limit" "timers_i64 r"
  shows "parse_renew_resume_baseline (renew_resume_json s (sub_paid_through r) (sub_floor r))
    = Inr (Some \<lparr>bl_ext = st_ext s, bl_amount = Some (int (st_received s div 1000)),
        bl_paid = sub_paid_through r, bl_floor = sub_floor r\<rparr>)"
proof -
  have "st_received s div 1000 < 2 ^ 63" using assms(1) by simp
  then have "int (st_received s div 1000) < 2 ^ 63" by (metis of_nat_less_iff of_nat_numeral of_nat_power)
  moreover have "opt_i64 (Some (json_of_int (sub_paid_through r))) = Some (sub_paid_through r)"
    "opt_i64 (Some (json_of_int (sub_floor r))) = Some (sub_floor r)"
    using assms(2) by (auto simp: timers_i64_def intro: opt_i64_json)
  ultimately show ?thesis
    by (simp add: parse_renew_resume_baseline_def baseline_of_json_def renew_resume_json_def)
qed

subsection \<open>Renewals paid while suspended\<close>

lemma capture_resumed:
  assumes "db_ok d" "capture_txn s now d = Inr (Resumed, d')"
  obtains iv r where "find_invoice_ext (st_ext s) d = Some iv" "inv_status iv = ''OPEN''" "inv_sub iv = Some (sub_id r)"
    "find_sub (sub_id r) d = Some r" "sub_state r \<in> {''SUSPENDED'', ''RESUMING''}"
    "d' = journal_renew_resume (sub_id r) s now (sub_paid_through r) (sub_floor r)
            (renewal_granted r s now (invoice_paid iv s d))"
  using assms(1)
proof (cases rule: capture_txn_cases [where s = s and now = now])
  case (paid iv)
  from assms(1) have "db_ok (invoice_paid iv s d)" by simp
  then show ?thesis
  proof (cases rule: apply_paid_cases [where kind = "inv_kind iv" and sub = "inv_sub iv" and exp = "inv_expires iv"
        and s = s and now = now])
    case (renewal r c d1)
    with paid assms(2) show ?thesis by (intro that [of iv r]) (auto split: if_splits)
  qed (use paid assms(2) in auto)
qed (use assms(2) in auto)


text \<open>The settlements \<open>ss\<close>, in this order, each resumed the subscription \<open>sid\<close>.\<close>

inductive resumed_by :: "string \<Rightarrow> db \<Rightarrow> settlement list \<Rightarrow> db \<Rightarrow> bool" for sid d0 where
  no_renewal: "resumed_by sid d0 [] d0"
| renewal: "resumed_by sid d0 ss d \<Longrightarrow> capture_txn s now d = Inr (Resumed, d') \<Longrightarrow> st_received s < u64_limit
    \<Longrightarrow> find_invoice_ext (st_ext s) d = Some iv \<Longrightarrow> inv_sub iv = Some sid
    \<Longrightarrow> find_sub sid d' = Some q \<Longrightarrow> timers_i64 q \<Longrightarrow> resumed_by sid d0 (ss @ [s]) d'"

definition same_contract :: "subscription \<Rightarrow> subscription \<Rightarrow> bool" where
  "same_contract r q \<longleftrightarrow> q = r\<lparr>sub_state := sub_state q, sub_paid_through := sub_paid_through q,
     sub_soft_date := sub_soft_date q, sub_next_deadline := sub_next_deadline q, sub_floor := sub_floor q,
     sub_updated := sub_updated q\<rparr>"

lemma same_contract_fields:
  "same_contract r q \<Longrightarrow> sub_id q = sub_id r \<and> sub_dest q = sub_dest r \<and> sub_renew_lead_s q = sub_renew_lead_s r
     \<and> sub_retention_s q = sub_retention_s r \<and> sub_recipe q = sub_recipe r \<and> sub_instance q = sub_instance r"
  by (cases r; cases q) (simp add: same_contract_def)

lemma same_contract_renewed: "same_contract r q \<Longrightarrow> same_contract r (renewed_row q s now q)"
  by (cases r; cases q) (simp add: same_contract_def renewed_row_def)

lemma resumed_step:
  assumes "db_ok d" "capture_txn s now d = Inr (Resumed, d')" "find_invoice_ext (st_ext s) d = Some iv"
    "inv_sub iv = Some sid" "find_sub sid d = Some q"
  shows "db_ok d'" "refunds d' = refunds d" "find_sub sid d' = Some (renewed_row q s now q)"
    "sub_state q \<in> {''SUSPENDED'', ''RESUMING''}" "inv_status iv = ''OPEN''"
    "d' = insert_event (Some sid) ''renew_resume'' (renew_resume_json s (sub_paid_through q) (sub_floor q)) now
       (renewal_granted q s now (invoice_paid iv s d))"
proof -
  from capture_resumed [OF assms(1,2)] assms(3-5) show eq: "sub_state q \<in> {''SUSPENDED'', ''RESUMING''}"
    "inv_status iv = ''OPEN''"
    "d' = insert_event (Some sid) ''renew_resume'' (renew_resume_json s (sub_paid_through q) (sub_floor q)) now
       (renewal_granted q s now (invoice_paid iv s d))"
    by (metis journal_renew_resume_def option.inject)+
  have "sub_id q = sid" using assms(5) by (auto dest: find_sub_Some)
  then show "db_ok d'" "refunds d' = refunds d" "find_sub sid d' = Some (renewed_row q s now q)"
    using assms(1,5) by (simp_all add: eq(3) frame_simps find_sub_cong [OF insert_event_frame(1)] find_sub_renewal_granted)
qed

definition journalled :: "subscription \<Rightarrow> settlement list \<Rightarrow> subscription \<Rightarrow> resume_baseline list \<Rightarrow> bool" where
  "journalled r ss q bs \<longleftrightarrow>
     map bl_ext bs = map st_ext ss \<and> map bl_amount bs = map (\<lambda>s. Some (int (st_received s div 1000))) ss \<and>
     same_contract r q \<and>
     (if ss = [] then q = r
      else sub_state q = ''RESUMING'' \<and> bl_paid (hd bs) = sub_paid_through r \<and> bl_floor (hd bs) = sub_floor r)"

lemma journalled_snoc:
  assumes "journalled r ss q bs" "sub_state q \<in> {''SUSPENDED'', ''RESUMING''}"
  shows "journalled r (ss @ [s]) (renewed_row q s now q) (bs @ [\<lparr>bl_ext = st_ext s,
     bl_amount = Some (int (st_received s div 1000)), bl_paid = sub_paid_through q, bl_floor = sub_floor q\<rparr>])"
proof -
  have "(bs = []) = (ss = [])" using assms(1) by (auto simp: journalled_def)
  with assms same_contract_renewed [of r q s now] show ?thesis
    by (auto simp: journalled_def split: if_splits)
qed

lemma resumed_by_journal:
  assumes "resumed_by sid d ss d'" "db_ok d" "0 \<le> event_seq d" "find_sub sid d = Some r" "timers_i64 r"
    "pending_renew_resumes sid d = Inr []"
  shows "db_ok d' \<and> 0 \<le> event_seq d' \<and> refunds d' = refunds d \<and>
    (\<exists>q bs. find_sub sid d' = Some q \<and> timers_i64 q \<and> pending_renew_resumes sid d' = Inr bs \<and> journalled r ss q bs)"
  using assms
proof (induction rule: resumed_by.induct)
  case no_renewal
  have "same_contract r r" by (simp add: same_contract_def)
  with no_renewal show ?case by (simp add: journalled_def)
next
  case (renewal ss d1 s now d2 iv q2)
  then obtain q bs where ok: "db_ok d1" "0 \<le> event_seq d1" "refunds d1 = refunds d"
    and q: "find_sub sid d1 = Some q" "timers_i64 q" "pending_renew_resumes sid d1 = Inr bs" "journalled r ss q bs"
    by auto
  note step = resumed_step [OF ok(1) renewal.hyps(2) renewal.hyps(4,5) q(1)]
  let ?d = "renewal_granted q s now (invoice_paid iv s d1)"
  have ev: "events ?d = events d1" "event_seq ?d = event_seq d1" "db_ok ?d"
    using renewal_granted_frame(1) [OF invoice_paid_frame(1) [OF ok(1)]]
    by (simp_all add: renewal_granted_def invoice_paid_def)
  have pend: "pending_renew_resumes sid ?d = Inr bs" using q(3) pending_cong [OF ev(1)] by simp
  have seq: "0 \<le> event_seq ?d" using ok(2) ev(2) by simp
  note new = pending_snoc [OF ev(3) seq pend parse_capture_baseline [OF renewal.hyps(3) q(2)], of now,
      folded step(6)]
  have "event_seq d2 = event_seq d1 + 1" by (simp add: step(6) insert_event_def ev(2))
  with step(1-3) ok(2,3) new journalled_snoc [OF q(4) step(4), of s now] renewal.hyps(6,7) show ?case by auto
qed


subsection \<open>The failed resume\<close>

definition refund_row_of :: "string \<Rightarrow> string option \<Rightarrow> int \<Rightarrow> string \<Rightarrow> int option \<Rightarrow> refund_attempt" where
  "refund_row_of sid dest now x a = \<lparr>rf_id = ''ref-'' @ x, rf_sub = Some sid, rf_dest = dest, rf_amount = a,
     rf_key = ''refund:'' @ x, rf_payment = None, rf_status = ''PENDING'', rf_attempts = Some 0,
     rf_bolt11 = None, rf_expiry = None, rf_gen = 0, rf_created = now, rf_updated = now, rf_fence = None\<rparr>"

lemma map_pairs:
  "map f xs = map f' ys \<Longrightarrow> map g xs = map g' ys \<Longrightarrow> map (\<lambda>x. h (f x) (g x)) xs = map (\<lambda>y. h (f' y) (g' y)) ys"
  by (induction xs arbitrary: ys) auto

lemma refund_renewals_new:
  assumes "db_ok d" "distinct (map bl_ext bs)" "\<And>b q. b \<in> set bs \<Longrightarrow> q \<in> set (refunds d) \<Longrightarrow> rf_key q \<noteq> ''refund:'' @ bl_ext b"
  shows "refund_renewals sid dest now bs d
    = Inr (d\<lparr>refunds := refunds d @ map (\<lambda>b. refund_row_of sid dest now (bl_ext b) (bl_amount b)) bs\<rparr>)"
  using assms
proof (induction bs arbitrary: d)
  case (Cons b bs)
  let ?r = "refund_row_of sid dest now (bl_ext b) (bl_amount b)"
  have fresh: "\<forall>q\<in>set (refunds d). rf_key q \<noteq> ''refund:'' @ bl_ext b" using Cons.prems(3) by simp
  have ins: "insert_refund_attempt_txn (Some sid) dest (bl_ext b) (bl_amount b) now d
      = Inr (True, d\<lparr>refunds := refunds d @ [?r]\<rparr>)"
    using Cons.prems(1)
  proof (cases rule: insert_refund_cases [where sub = "Some sid" and dest = dest and ext = "bl_ext b"
        and amount = "bl_amount b" and now = now])
    case (new r)
    then show ?thesis by (simp add: refund_row_of_def)
  qed (use fresh in blast)
  let ?d = "d\<lparr>refunds := refunds d @ [?r]\<rparr>"
  have "refund_renewals sid dest now bs ?d
    = Inr (?d\<lparr>refunds := refunds ?d @ map (\<lambda>b. refund_row_of sid dest now (bl_ext b) (bl_amount b)) bs\<rparr>)"
  proof (rule Cons.IH)
    show "db_ok ?d"
      using Cons.prems(1) fresh by (intro db_ok_append_refund) (auto simp: refund_row_of_def refund_keyed_def)
    show "distinct (map bl_ext bs)" using Cons.prems(2) by simp
    show "rf_key q \<noteq> ''refund:'' @ bl_ext c" if "c \<in> set bs" "q \<in> set (refunds ?d)" for c q
      using that Cons.prems(2,3) by (auto simp: refund_row_of_def)
  qed
  with ins show ?case by simp
qed simp

lemma fold_max_ge: "a \<le> (fold max xs a :: int)" "x \<in> set xs \<Longrightarrow> x \<le> (fold max xs a :: int)"
  using fold_max_bound [of xs a "fold max xs a"] by auto

lemma pending_after_failure:
  assumes "\<And>ev. ev \<in> set (events d) \<Longrightarrow> ev_id ev \<le> event_seq d"
  shows "pending_renew_resumes sid (insert_event (Some sid) ''resume_failed'' j now d) = Inr []"
proof -
  let ?d = "insert_event (Some sid) ''resume_failed'' j now d"
  have "event_seq d + 1 \<le> last_resolution_id sid ?d"
    by (simp add: last_resolution_id_def insert_event_def resume_resolution_def)
  moreover have "ev_id ev \<le> event_seq d + 1" if "ev \<in> set (events ?d)" for ev
    using that assms by (fastforce simp: insert_event_def)
  ultimately have "filter (\<lambda>ev. ev_sub ev = Some sid \<and> ev_kind ev = ''renew_resume'' \<and>
      last_resolution_id sid ?d < ev_id ev) (events ?d) = []"
    by (auto simp: filter_empty_conv) (meson le_less_trans not_less order_trans)
  then show ?thesis by (simp add: pending_renew_resumes_def)
qed


text \<open>The row a failed resume restores: the contract and the timers of \<open>r\<close>, with the two derived dates.\<close>

definition resuspended :: "subscription \<Rightarrow> int \<Rightarrow> subscription" where
  "resuspended r now = r\<lparr>sub_soft_date := map_option (\<lambda>pt. pt - unwrap_or (sub_renew_lead_s r) 0) (sub_paid_through r),
     sub_next_deadline := map_option (\<lambda>pt. max pt (unwrap_or (sub_floor r) pt) + unwrap_or (sub_retention_s r) 0)
        (sub_paid_through r), sub_updated := now\<rparr>"

lemma cas_sub_hit:
  assumes "db_ok d" "find_sub sid d = Some q" "P q" "\<And>r. P r \<Longrightarrow> sub_id r = sid" "\<And>r. sub_id (f r) = sub_id r"
  shows "fst (cas_sub P f d)" "find_sub sid (snd (cas_sub P f d)) = Some (f q)" "db_ok (snd (cas_sub P f d))"
    "refunds (snd (cas_sub P f d)) = refunds d" "events (snd (cas_sub P f d)) = events d"
proof -
  have "q \<in> set (subs d)" using assms(2) by (auto dest: find_sub_Some)
  then show "fst (cas_sub P f d)" using assms(3) by (auto simp: cas_sub_def count_where_pos_iff)
  show "find_sub sid (snd (cas_sub P f d)) = Some (f q)"
    using assms(2,3,5) by (simp add: cas_sub_def find_sub_def find_update_where_same)
qed (use assms in \<open>simp_all add: cas_sub_def db_ok_subs_update\<close>)

lemma suspend_again_journalled:
  assumes "same_contract r q" "sub_state r = ''SUSPENDED''" "bl_paid b = sub_paid_through r" "bl_floor b = sub_floor r"
  shows "suspend_again b (unwrap_or (sub_renew_lead_s q) 0) (unwrap_or (sub_retention_s q) 0) now q = resuspended r now"
  using assms by (cases r; cases q) (simp add: same_contract_def suspend_again_def resuspended_def)

lemma failed_resume_restores:
  assumes ok: "db_ok d" and q: "find_sub sid d = Some q" "load_target sid d = Some t"
    and pend: "pending_renew_resumes sid d = Inr bs" and j: "journalled r ss q bs" and ne: "ss \<noteq> []"
    and r: "sub_state r = ''SUSPENDED''"
    and named: "\<forall>s\<in>set ss. str_trim (st_ext s) \<noteq> []" and dist: "distinct (map st_ext ss)"
    and fresh: "\<forall>s\<in>set ss. \<forall>f\<in>set (refunds d). rf_key f \<noteq> ''refund:'' @ st_ext s"
  shows "\<exists>d'. resume_failure_txn sid t now d = Inr (True, d') \<and>
    find_sub sid d' = Some (resuspended r now) \<and>
    refunds d' = refunds d @ map (\<lambda>s. refund_row_of sid (sub_dest r) now (st_ext s)
                    (Some (int (st_received s div 1000)))) ss \<and>
    pending_renew_resumes sid d' = Inr []"
proof -
  from j ne have jj: "map bl_ext bs = map st_ext ss" "map bl_amount bs = map (\<lambda>s. Some (int (st_received s div 1000))) ss"
    "same_contract r q" "sub_state q = ''RESUMING''" "bl_paid (hd bs) = sub_paid_through r" "bl_floor (hd bs) = sub_floor r"
    by (simp_all add: journalled_def)
  from jj(1) ne have bs: "bs \<noteq> []" by auto
  have exts: "bl_ext ` set bs = st_ext ` set ss" using jj(1) by (metis list.set_map)
  from q have t: "rt_lead t = unwrap_or (sub_renew_lead_s q) 0" "rt_retention t = unwrap_or (sub_retention_s q) 0"
    "rt_dest t = sub_dest r"
    using same_contract_fields [OF jj(3)] by (auto simp: load_target_def)
  have valid: "validate_renewals sid bs = None"
    using bs named exts by (auto simp: validate_renewals_def) (metis (no_types, lifting) image_iff)
  have sid: "sub_id q = sid" using q(1) by (auto dest: find_sub_Some)
  let ?P = "\<lambda>r. sub_id r = sid \<and> sub_state r = ''RESUMING''" and ?f = "suspend_again (hd bs) (rt_lead t) (rt_retention t) now"
  note hit = cas_sub_hit [OF ok q(1), where P = ?P and f = ?f]
  obtain d1 where cas: "cas_sub ?P ?f d = (True, d1)"
    using hit(1) sid jj(4) by (cases "cas_sub ?P ?f d") (auto simp: suspend_again_def)
  have d1: "find_sub sid d1 = Some (?f q)" "db_ok d1" "refunds d1 = refunds d"
    using hit(2-4) sid jj(4) cas by (auto simp: suspend_again_def)
  have row: "?f q = resuspended r now"
    unfolding t by (rule suspend_again_journalled) (use jj r in auto)
  have "refund_renewals sid (rt_dest t) now bs d1 = Inr (d1\<lparr>refunds := refunds d1 @
      map (\<lambda>b. refund_row_of sid (rt_dest t) now (bl_ext b) (bl_amount b)) bs\<rparr>)"
  proof (rule refund_renewals_new [OF d1(2)])
    show "distinct (map bl_ext bs)" using dist jj(1) by simp
    show "rf_key f \<noteq> ''refund:'' @ bl_ext b" if b: "b \<in> set bs" and f: "f \<in> set (refunds d1)" for b f
    proof -
      from b have "bl_ext b \<in> st_ext ` set ss" unfolding exts [symmetric] by (rule imageI)
      then obtain s where "s \<in> set ss" "bl_ext b = st_ext s" by (rule imageE)
      with fresh f d1(3) show ?thesis by simp
    qed
  qed
  also have "map (\<lambda>b. refund_row_of sid (rt_dest t) now (bl_ext b) (bl_amount b)) bs
      = map (\<lambda>s. refund_row_of sid (sub_dest r) now (st_ext s) (Some (int (st_received s div 1000)))) ss"
    unfolding t by (rule map_pairs [OF jj(1,2)])
  finally have ren: "refund_renewals sid (rt_dest t) now bs d1 = Inr (d1\<lparr>refunds := refunds d1 @
      map (\<lambda>s. refund_row_of sid (sub_dest r) now (st_ext s) (Some (int (st_received s div 1000)))) ss\<rparr>)" .
  let ?d2 = "d1\<lparr>refunds := refunds d1 @
      map (\<lambda>s. refund_row_of sid (sub_dest r) now (st_ext s) (Some (int (st_received s div 1000)))) ss\<rparr>"
  let ?d3 = "insert_event (Some sid) ''resume_failed'' (resume_failed_json bs) now ?d2"
  have "resume_failure_txn sid t now d = Inr (True, ?d3)"
    unfolding resume_failure_txn_def pend valid cas sum.case option.case prod.case bool.case ren by (rule refl)
  moreover have "find_sub sid ?d3 = Some (resuspended r now)"
    using d1(1) unfolding row by (simp add: find_sub_def frame_simps)
  moreover have "refunds ?d3 = refunds d @
      map (\<lambda>s. refund_row_of sid (sub_dest r) now (st_ext s) (Some (int (st_received s div 1000)))) ss"
    using d1(3) by (simp add: frame_simps)
  moreover have "pending_renew_resumes sid ?d3 = Inr []"
  proof (rule pending_after_failure)
    have "events d1 = events d" "event_seq d1 = event_seq d" using cas by (auto simp: cas_sub_def)
    then show "ev_id ev \<le> event_seq ?d2" if "ev \<in> set (events ?d2)" for ev
      using that db_okD(11) [OF ok] by simp
  qed
  ultimately show ?thesis by blast
qed


lemma find_invoice_paid_other:
  "find_invoice_ext x (invoice_paid iv s d) = map_option (\<lambda>q. if inv_id q = inv_id iv \<and> inv_status q = ''OPEN''
     then q\<lparr>inv_status := ''PAID'', inv_settled := Some (st_settled s), inv_applied := Some (st_settled s),
            inv_received := Some (as_i64 (st_received s))\<rparr> else q) (find_invoice_ext x d)"
  by (simp add: invoice_paid_def find_invoice_ext_def find_update_where_same)

text \<open>Each of them found its invoice open and left it paid, so no settlement is counted twice.\<close>

lemma resumed_by_distinct:
  assumes "resumed_by sid d ss d'" "db_ok d" "find_sub sid d = Some r"
  shows "db_ok d' \<and> find_sub sid d' \<noteq> None \<and> distinct (map st_ext ss) \<and>
    (\<forall>s\<in>set ss. \<exists>iv. find_invoice_ext (st_ext s) d' = Some iv \<and> inv_status iv = ''PAID'')"
  using assms
proof (induction rule: resumed_by.induct)
  case (renewal ss d1 s now d2 iv q2)
  then obtain q where ok: "db_ok d1" and q: "find_sub sid d1 = Some q" and dist: "distinct (map st_ext ss)"
    and paid: "\<And>x. x \<in> set ss \<Longrightarrow> \<exists>iv. find_invoice_ext (st_ext x) d1 = Some iv \<and> inv_status iv = ''PAID''"
    by auto
  note step = resumed_step [OF ok renewal.hyps(2) renewal.hyps(4,5) q]
  have inv: "find_invoice_ext x d2 = find_invoice_ext x (invoice_paid iv s d1)" for x
    by (simp add: step(6) find_invoice_ext_def frame_simps)
  have old: "\<exists>iv'. find_invoice_ext (st_ext x) d2 = Some iv' \<and> inv_status iv' = ''PAID''" if x: "x \<in> set ss" for x
  proof -
    from paid [OF x] obtain iv' where "find_invoice_ext (st_ext x) d1 = Some iv'" "inv_status iv' = ''PAID''" by blast
    then show ?thesis by (simp add: inv find_invoice_paid_other)
  qed
  have new: "\<exists>iv'. find_invoice_ext (st_ext s) d2 = Some iv' \<and> inv_status iv' = ''PAID''"
    using find_invoice_paid [OF renewal.hyps(4) step(5), of s] by (simp add: inv)
  have "st_ext s \<notin> st_ext ` set ss"
  proof
    assume "st_ext s \<in> st_ext ` set ss"
    then obtain x where "x \<in> set ss" "st_ext s = st_ext x" by (rule imageE)
    with paid [of x] renewal.hyps(4) step(5) show False by simp
  qed
  with dist old new step(1,3) show ?case by auto
qed simp

lemma run_resume_failing:
  assumes "\<And>j e. \<exists>err. po_hook Q ''resume'' j e = (Inl err, e)"
  shows "run_resume Q n j e = (False, e)"
proof (induction n)
  case (Suc n)
  from assms [of j e] obtain err where "po_hook Q ''resume'' j e = (Inl err, e)" ..
  with Suc show ?case by simp
qed simp

lemma run_tx_commits:
  assumes "\<not> st_degraded (e_store e)" "f (e_db e) = Inr (x, d')"
  shows "run_tx f e = (Inr x, e\<lparr>e_store := (e_store e)\<lparr>st_db := d'\<rparr>\<rparr>)"
  using assms by (simp add: run_tx_def transaction_def transaction_then_def)

text \<open>
  C8. A resume that fails for good undoes the renewal completely: after any number of renewals paid
  while the subscription was suspended, the driver's failure path gives back exactly the suspended
  row as it was, with its paid time, its credited floor and the two dates that follow from them,
  writes exactly one pending refund per renewal for the sats received, and leaves no baseline
  behind, so a later renewal starts afresh.
\<close>

theorem failed_resume_undoes_renewals:
  assumes ok: "db_ok d" "0 \<le> event_seq d" and r: "find_sub sid d = Some r" "sub_state r = ''SUSPENDED''" "timers_i64 r"
    "sub_recipe r = Some (po_recipe Q)"
    and clean: "pending_renew_resumes sid d = Inr []"
    and ren: "resumed_by sid d ss (e_db e)" "ss \<noteq> []"
    and named: "\<forall>s\<in>set ss. str_trim (st_ext s) \<noteq> []"
    and fresh: "\<forall>s\<in>set ss. \<forall>f\<in>set (refunds d). rf_key f \<noteq> ''refund:'' @ st_ext s"
    and fails: "\<And>j e. \<exists>err. po_hook Q ''resume'' j e = (Inl err, e)" and up: "\<not> st_degraded (e_store e)"
  shows "\<exists>e'. resume_drive Q sid now e = (Inr SuspendedRefundPending, e') \<and>
    find_sub sid (e_db e') = Some (resuspended r now) \<and>
    refunds (e_db e') = refunds d @ map (\<lambda>s. refund_row_of sid (sub_dest r) now (st_ext s)
                            (Some (int (st_received s div 1000)))) ss \<and>
    pending_renew_resumes sid (e_db e') = Inr []"
proof -
  from resumed_by_journal [OF ren(1) ok r(1,3) clean] obtain q bs where
    d1: "db_ok (e_db e)" "refunds (e_db e) = refunds d" and q: "find_sub sid (e_db e) = Some q"
    "pending_renew_resumes sid (e_db e) = Inr bs" "journalled r ss q bs" by blast
  have dist: "distinct (map st_ext ss)" using resumed_by_distinct [OF ren(1) ok(1) r(1)] by blast
  from q(3) ren(2) have qr: "sub_state q = ''RESUMING''" "same_contract r q" by (simp_all add: journalled_def)
  obtain t where t: "load_target sid (e_db e) = Some t" "rt_state t = ''RESUMING''" "rt_recipe t = Some (po_recipe Q)"
    using q(1) qr(1) same_contract_fields [OF qr(2)] r(4) by (auto simp: load_target_def)
  have fresh': "\<forall>s\<in>set ss. \<forall>f\<in>set (refunds (e_db e)). rf_key f \<noteq> ''refund:'' @ st_ext s"
    unfolding d1(2) by (rule fresh)
  obtain d2 where d2: "resume_failure_txn sid t now (e_db e) = Inr (True, d2)"
    "find_sub sid d2 = Some (resuspended r now)" "refunds d2 = refunds d @ map (\<lambda>s. refund_row_of sid (sub_dest r) now
       (st_ext s) (Some (int (st_received s div 1000)))) ss" "pending_renew_resumes sid d2 = Inr []"
    using failed_resume_restores [OF d1(1) q(1) t(1) q(2,3) ren(2) r(2) named dist fresh'] d1(2) by auto
  have "fail_to_suspended_refund sid t now e
      = (Inr SuspendedRefundPending, e\<lparr>e_store := (e_store e)\<lparr>st_db := d2\<rparr>\<rparr>)"
    by (simp add: fail_to_suspended_refund_def run_tx_commits [where f = "resume_failure_txn sid t now", OF up d2(1)])
  then have "resume_drive Q sid now e = (Inr SuspendedRefundPending, e\<lparr>e_store := (e_store e)\<lparr>st_db := d2\<rparr>\<rparr>)"
    by (simp add: resume_drive_def t run_resume_failing [OF fails] split: option.split)
  with d2(2-4) show ?thesis by simp
qed


text \<open>A lapsed subscription renewed at 1020, with a hook that always fails.\<close>

definition dead_ports :: "unit ports" where
  "dead_ports = sample_ports\<lparr>po_hook := (\<lambda>h j e. (Inl ''box unreachable'', e))\<rparr>"

theorem failed_resume_undoes_renewals_witness:
  "\<exists>d1 e'. capture_txn (sample_settlement ''x1'' 1020) 5 lapsed_db = Inr (Resumed, d1) \<and>
     resume_drive dead_ports ''s1'' 9 (sample_env d1) = (Inr SuspendedRefundPending, e') \<and>
     find_sub ''s1'' (e_db e') = Some (resuspended (sample_sub ''s1'' ''SUSPENDED'') 9) \<and>
     sub_next_deadline (resuspended (sample_sub ''s1'' ''SUSPENDED'') 9) = Some 1050 \<and>
     map rf_amount (refunds (e_db e')) = [Some 6]"
proof -
  let ?r = "sample_sub ''s1'' ''SUSPENDED''" and ?s = "sample_settlement ''x1'' 1020"
  obtain d1 where run: "capture_txn ?s 5 lapsed_db = Inr (Resumed, d1)" using lapsed_capture by blast
  have r: "find_sub ''s1'' lapsed_db = Some ?r" by (simp add: find_sub_def sample_defs)
  have iv: "find_invoice_ext (st_ext ?s) lapsed_db = Some (sample_invoice ''s1'' ''x1'' ''renewal'' ''OPEN'')"
    by (simp add: find_invoice_ext_def sample_defs sample_settlement_def)
  have sub: "inv_sub (sample_invoice ''s1'' ''x1'' ''renewal'' ''OPEN'') = Some ''s1''" by (simp add: sample_invoice_def)
  have small: "st_received ?s < u64_limit" by (simp add: sample_settlement_def)
  note step = resumed_step [OF lapsed_ok run iv sub r]
  have timers: "timers_i64 (renewed_row ?r ?s 5 ?r)"
    by (simp add: timers_i64_def renewed_row_def renewed_through_def sample_sub_def sample_settlement_def)
  have "resumed_by ''s1'' lapsed_db ([] @ [?s]) d1"
    by (rule renewal [OF no_renewal run small iv sub step(3) timers])
  then have by1: "resumed_by ''s1'' lapsed_db [?s] (e_db (sample_env d1))" by simp
  have "\<exists>e'. resume_drive dead_ports ''s1'' 9 (sample_env d1) = (Inr SuspendedRefundPending, e') \<and>
    find_sub ''s1'' (e_db e') = Some (resuspended ?r 9) \<and>
    refunds (e_db e') = refunds lapsed_db @ map (\<lambda>s. refund_row_of ''s1'' (sub_dest ?r) 9 (st_ext s)
                            (Some (int (st_received s div 1000)))) [?s] \<and>
    pending_renew_resumes ''s1'' (e_db e') = Inr []"
    by (rule failed_resume_undoes_renewals [OF lapsed_ok _ r _ _ _ _ by1])
       (simp_all add: sample_defs timers_i64_def dead_ports_def sample_ports_def pending_renew_resumes_def
          sample_settlement_def str_trim_def is_space_def sample_env_def)
  then show ?thesis using run
    by (fastforce simp: sample_settlement_def refund_row_of_def sample_defs resuspended_def)
qed

end
