(* ===== verification/Sweep_Props.thy ===== *)
theory Sweep_Props
  imports Sweep Refund_Safety
begin

text \<open>
  What a sweep guarantees: the gate never commits more than the surplus and one intent at a time, the
  drive pays only a pending intent at its committed cap, and no cap is released without the backend's
  word that the payment failed.
\<close>

subsection \<open>The terms of the surplus\<close>

text \<open>The columns and rows the surplus reads besides the sweeps.\<close>

definition same_books :: "db \<Rightarrow> db \<Rightarrow> bool" where
  "same_books d d' \<longleftrightarrow> same_receipts d d' \<and> refunds d' = refunds d \<and> subs d' = subs d"

lemma same_books_refl [simp]: "same_books d d"
  by (simp add: same_books_def)

lemma same_books_trans: "same_books a b \<Longrightarrow> same_books b c \<Longrightarrow> same_books a c"
  by (auto simp: same_books_def intro: same_receipts_trans)

lemma filter_weaken: "(\<And>x. P x \<Longrightarrow> Q x) \<Longrightarrow> filter P (filter Q xs) = filter P xs"
  by (induction xs) auto

lemma same_books_journal:
  assumes "same_receipts d d'"
  shows "filter (\<lambda>e. settle_refund_event e \<and> event_ext e = x) (events d')
       = filter (\<lambda>e. settle_refund_event e \<and> event_ext e = x) (events d)"
proof -
  have weak: "filter (\<lambda>e. settle_refund_event e \<and> event_ext e = x) (filter settle_refund_event (events b))
      = filter (\<lambda>e. settle_refund_event e \<and> event_ext e = x) (events b)" for b :: db
    by (rule filter_weaken) simp
  have "filter settle_refund_event (events d') = filter settle_refund_event (events d)"
    using assms by (simp add: same_receipts_def)
  from weak [of d', unfolded this weak] show ?thesis by (rule sym)
qed

lemma same_books_receipts:
  assumes "same_receipts d d'"
  shows "sum_receipts_msat d' = sum_receipts_msat d"
proof -
  have inv: "invoices d' = invoices d" and ev: "filter settle_refund_event (events d') = filter settle_refund_event (events d)"
    using assms by (simp_all add: same_receipts_def)
  have exts: "class_b_exts d' = class_b_exts d" by (simp add: class_b_exts_def ev)
  have jr: "journal_msat x d' = journal_msat x d" for x
    by (simp add: journal_msat_def same_books_journal [OF assms])
  have a: "class_a d' = class_a d" by (simp add: class_a_def inv)
  have b: "class_b d' = class_b d" by (simp add: class_b_def exts jr)
  have dec: "receipts_decode d' = receipts_decode d"
  proof -
    have "(\<forall>e\<in>set (events c). settle_refund_event e \<longrightarrow> event_decodes e)
        = (\<forall>e\<in>set (filter settle_refund_event (events c)). event_decodes e)" for c :: db by auto
    then show ?thesis by (simp only: receipts_decode_def inv ev)
  qed
  show ?thesis by (simp add: sum_receipts_msat_def dec receipts_def received_by_ext_def a b)
qed

lemma same_books_terms:
  assumes "same_books d d'"
  shows "refund_payouts d' = refund_payouts d" "reserved_total d' = reserved_total d"
proof -
  from assms have rec: "same_receipts d d'" and eqs: "refunds d' = refunds d" "subs d' = subs d" "invoices d' = invoices d"
    by (simp_all add: same_books_def same_receipts_def)
  have js: "journal_sat x d' = journal_sat x d" for x by (simp add: journal_sat_def same_books_journal [OF rec])
  have rs: "refund_received_sat d' = refund_received_sat d"
    by (rule ext) (simp add: refund_received_sat_def js eqs(3))
  show "refund_payouts d' = refund_payouts d" unfolding refund_payouts_def rs eqs(1) by (rule refl)
  have "refund_reserves d' = refund_reserves d" unfolding refund_reserves_def rs eqs(1) by (rule refl)
  moreover have "at_risk d' = at_risk d" unfolding at_risk_def find_sub_cong [OF eqs(2)] eqs(3) by (rule refl)
  ultimately show "reserved_total d' = reserved_total d" by (simp add: reserved_total_def reserved_map_def)
qed

lemma paid_out_sum:
  "sum_list vs < u128_limit \<Longrightarrow> fold (\<lambda>v acc. saturating_add_u128 acc v) vs 0 = sum_list vs"
  using fold_saturating [of "\<lambda>v. v" vs 0] by simp

subsection \<open>The gate\<close>

lemma counted_after_update:
  assumes "distinct (map sw_id ws)" "w \<in> set ws" "\<not> sweep_counts w" "sweep_counts (f w)" "\<And>v. sw_id (f v) = sw_id v"
  shows "sum_list (map (\<lambda>v. nat (sw_max_outlay v)) (filter sweep_counts (update_where (\<lambda>v. sw_id v = sw_id w) f ws)))
       = sum_list (map (\<lambda>v. nat (sw_max_outlay v)) (filter sweep_counts ws)) + nat (sw_max_outlay (f w))"
  using assms(1,2)
proof (induction ws)
  case (Cons v ws)
  show ?case
  proof (cases "v = w")
    case True
    with Cons.prems have "\<forall>u\<in>set ws. sw_id u \<noteq> sw_id w" by (auto simp: image_iff)
    then have "update_where (\<lambda>v. sw_id v = sw_id w) f ws = ws"
      by (intro update_where_none) (simp add: count_where_0_iff)
    with True assms(3,4) show ?thesis by simp
  next
    case False
    with Cons.prems have "sw_id v \<noteq> sw_id w" "w \<in> set ws" by (auto simp: image_iff)
    with Cons show ?thesis by simp
  qed
qed simp

definition open_sweeps :: "db \<Rightarrow> sweep_attempt list" where
  "open_sweeps d = filter (\<lambda>w. sw_status w = ''PENDING'') (sweeps d)"


lemma upsert_payouts:
  assumes "db_ok d" "\<And>w. find_sweep i d = Some w \<Longrightarrow> sw_fence w = None \<and> sw_status w \<noteq> ''SENT'' \<and> sw_status w \<noteq> ''PENDING''"
    "0 \<le> outlay"
  shows "sum_list (sweep_payouts None (upsert_sweep i b a outlay now d)) = sum_list (sweep_payouts None d) + nat outlay"
proof (cases "find_sweep i d")
  case None
  then show ?thesis by (simp add: sweep_payouts_def upsert_sweep_def sweep_counts_def)
next
  case (Some w)
  then have w: "w \<in> set (sweeps d)" "sw_id w = i" by (auto simp: find_sweep_def dest: find_Some_mem)
  from assms(2) [OF Some] have free: "\<not> sweep_counts w" by (simp add: sweep_counts_def)
  let ?f = "\<lambda>w. w\<lparr>sw_bolt11 := Some b, sw_amount := Some a, sw_max_outlay := outlay, sw_status := ''PENDING'',
     sw_attempts := 0, sw_payment := None, sw_error := None, sw_created := now, sw_sent := None\<rparr>"
  have "sweep_counts (?f w)" by (simp add: sweep_counts_def)
  from counted_after_update [where f = ?f, OF db_okD(9) [OF assms(1)] w(1) free this] Some w(2)
  show ?thesis by (simp add: sweep_payouts_def upsert_sweep_def)
qed

lemma upsert_open:
  assumes "db_ok d" "open_sweeps d = []"
  shows "\<exists>w. open_sweeps (upsert_sweep i b a outlay now d) = [w] \<and> sw_id w = i \<and> sw_bolt11 w = Some b \<and>
    sw_amount w = Some a \<and> sw_max_outlay w = outlay"
proof (cases "find_sweep i d")
  case None
  with assms(2) show ?thesis by (simp add: upsert_sweep_def open_sweeps_def)
next
  case (Some w)
  then have w: "w \<in> set (sweeps d)" "sw_id w = i" by (auto simp: find_sweep_def dest: find_Some_mem)
  let ?f = "\<lambda>w. w\<lparr>sw_bolt11 := Some b, sw_amount := Some a, sw_max_outlay := outlay, sw_status := ''PENDING'',
     sw_attempts := 0, sw_payment := None, sw_error := None, sw_created := now, sw_sent := None\<rparr>"
  have "filter (\<lambda>w. sw_status w = ''PENDING'') (update_where (\<lambda>w. sw_id w = i) ?f ws) = [?f w]"
    if "distinct (map sw_id ws)" "w \<in> set ws" "filter (\<lambda>w. sw_status w = ''PENDING'') ws = []" for ws
    using that
  proof (induction ws)
    case (Cons v ws)
    show ?case
    proof (cases "v = w")
      case True
      with Cons.prems(1) w(2) have "\<forall>u\<in>set ws. sw_id u \<noteq> i" by (auto simp: image_iff)
      then have "update_where (\<lambda>w. sw_id w = i) ?f ws = ws"
        by (intro update_where_none) (simp add: count_where_0_iff)
      with True Cons.prems(3) w(2) show ?thesis by (simp split: if_splits)
    next
      case False
      with Cons.prems(1,2) w(2) have "sw_id v \<noteq> i" "w \<in> set ws" by (auto simp: image_iff)
      with Cons show ?thesis by (simp split: if_splits)
    qed
  qed simp
  from this [OF db_okD(9) [OF assms(1)] w(1)] assms(2) Some show ?thesis
    by (simp add: upsert_sweep_def open_sweeps_def w(2))
qed

lemma gate_proceeds:
  assumes "gate_and_write_txn i b h amount outlay now p d = Inr (GateProceed, d')"
  obtains s where "outlay < 2 ^ 63" "open_sweeps d = []" "read_surplus None d = Inr s" "outlay \<le> surplus_msat s"
    "\<And>w. find_sweep i d = Some w \<Longrightarrow> sw_fence w = None \<and> sw_status w \<noteq> ''SENT'' \<and> sw_status w \<noteq> ''PENDING''"
    "\<exists>j. d' = journal_sweep j now (upsert_sweep i b (int amount) (int outlay) now d)" "\<exists>u. p = Inr u"
proof -
  let ?j = "JObj [(''payment_hash'', JStr h), (''phase'', JStr ''intent''), (''amount_sat'', JInt (int amount)),
      (''max_outlay_msat'', JInt (int outlay))]"
  from assms have "\<not> 2 ^ 63 \<le> outlay" "\<not> 2 ^ 63 \<le> amount"
    "case find_sweep i d of None \<Rightarrow> True | Some w \<Rightarrow> sw_fence w = None \<and> sw_status w \<noteq> ''SENT'' \<and> sw_status w \<noteq> ''PENDING''"
    "\<not> 0 < count_where (\<lambda>w. sw_status w = ''PENDING'') (sweeps d)"
    "\<exists>s. read_surplus None d = Inr s \<and> outlay \<le> surplus_msat s \<and> (\<exists>u. p = Inr u) \<and>
         d' = journal_sweep ?j now (upsert_sweep i b (int amount) (int outlay) now d)"
    by (auto simp: gate_and_write_txn_def Let_def split: if_splits option.splits sum.splits)
  then obtain s where s: "read_surplus None d = Inr s" "outlay \<le> surplus_msat s" "\<exists>u. p = Inr u"
      "d' = journal_sweep ?j now (upsert_sweep i b (int amount) (int outlay) now d)"
    and free: "case find_sweep i d of None \<Rightarrow> True | Some w \<Rightarrow> sw_fence w = None \<and> sw_status w \<noteq> ''SENT'' \<and> sw_status w \<noteq> ''PENDING''"
    and rest: "outlay < 2 ^ 63" "\<not> 0 < count_where (\<lambda>w. sw_status w = ''PENDING'') (sweeps d)" by auto
  show thesis
  proof (rule that [OF rest(1) _ s(1,2) _ _ s(3)])
    show "open_sweeps d = []" using rest(2) by (simp add: open_sweeps_def count_where_def)
    show "sw_fence w = None \<and> sw_status w \<noteq> ''SENT'' \<and> sw_status w \<noteq> ''PENDING''" if "find_sweep i d = Some w" for w
      using free that by simp
  qed (use s(4) in blast)
qed

text \<open>
  C9. The gate never commits more than the surplus: when a sweep is admitted, the receipts cover the
  money still owed or at risk, everything paid out or committed before, and the sweep's whole cap
  together; the cap is counted from that moment on, so the surplus that remains is exactly the one
  before less the cap, and the admitted intent is the only one in flight.
\<close>

theorem sweep_gate_within_surplus:
  assumes ok: "db_ok d" and gate: "gate_and_write_txn i b h amount outlay now p d = Inr (GateProceed, d')"
    and pos: "0 < outlay" and fits: "receipts d < u128_limit"
  shows "receipts d \<ge> reserved_total d + sum_list (refund_payouts d) + sum_list (sweep_payouts None d) + outlay \<and>
    (\<exists>s s'. read_surplus None d = Inr s \<and> read_surplus None d' = Inr s' \<and> surplus_msat s' + outlay = surplus_msat s) \<and>
    (\<exists>w. open_sweeps d' = [w] \<and> sw_id w = i \<and> sw_bolt11 w = Some b \<and> sw_max_outlay w = int outlay)"
proof -
  obtain s j where g: "open_sweeps d = []" "read_surplus None d = Inr s" "outlay \<le> surplus_msat s"
    and free: "\<And>w. find_sweep i d = Some w \<Longrightarrow> sw_fence w = None \<and> sw_status w \<noteq> ''SENT'' \<and> sw_status w \<noteq> ''PENDING''"
    and d': "d' = journal_sweep j now (upsert_sweep i b (int amount) (int outlay) now d)"
    using gate_proceeds [OF gate] by metis
  let ?P = "sum_list (refund_payouts d) + sum_list (sweep_payouts None d)"
  have rcp: "sum_receipts_msat d = Inr (receipts d)" using g(2)
    by (auto simp: read_surplus_def sum_receipts_msat_def split: if_splits)
  let ?vs = "refund_payouts d @ sweep_payouts None d"
  have po: "su_paid_out s = min ?P (u128_limit - 1)" "su_earned s = receipts d" "su_reserved s = reserved_total d"
    using g(2) fold_saturating [of "\<lambda>v. v" ?vs 0] by (auto simp: read_surplus_def rcp)
  have le: "receipts d \<ge> reserved_total d + su_paid_out s + outlay" "surplus_msat s = receipts d - reserved_total d - su_paid_out s"
    using g(3) pos by (auto simp: surplus_msat_def saturating_sub_def po(2,3))
  then have full: "su_paid_out s = ?P" using po(1) fits pos by (auto simp: min_def split: if_splits)
  have books: "same_books d d'"
    by (simp add: d' journal_sweep_def same_books_def same_receipts_def insert_event_def upsert_sweep_def
        settle_refund_event_def settle_refund_kinds_def)
  have sw: "sweeps d' = sweeps (upsert_sweep i b (int amount) (int outlay) now d)"
    by (simp add: d' journal_sweep_def frame_simps)
  have "sum_list (sweep_payouts None d') = sum_list (sweep_payouts None d) + outlay"
    using upsert_payouts [where outlay = "int outlay" and b = b and a = "int amount" and now = now, OF ok free] by (simp add: sweep_payouts_def sw)
  then have new: "sum_list (refund_payouts d' @ sweep_payouts None d') = ?P + outlay"
    using same_books_terms(1) [OF books] by simp
  have "?P + outlay < u128_limit" using le(1) fits full by linarith
  with new have "fold (\<lambda>v acc. saturating_add_u128 acc v) (refund_payouts d' @ sweep_payouts None d') 0 = ?P + outlay"
    by (simp only: paid_out_sum)
  moreover have "sum_receipts_msat d' = Inr (receipts d)"
    using same_books_receipts [of d d'] books rcp by (simp add: same_books_def)
  ultimately have "read_surplus None d' = Inr \<lparr>su_earned = receipts d, su_reserved = reserved_total d, su_paid_out = ?P + outlay\<rparr>"
    using same_books_terms(2) [OF books] by (simp only: read_surplus_def sum.case)
  moreover have "surplus_msat \<lparr>su_earned = receipts d, su_reserved = reserved_total d, su_paid_out = ?P + outlay\<rparr> + outlay
      = surplus_msat s"
    using le full by (simp add: surplus_msat_def saturating_sub_def po(2,3))
  moreover have "\<exists>w. open_sweeps d' = [w] \<and> sw_id w = i \<and> sw_bolt11 w = Some b \<and> sw_max_outlay w = int outlay"
    using upsert_open [where i = i and b = b and a = "int amount" and outlay = "int outlay" and now = now, OF ok g(1)] by (auto simp: open_sweeps_def sw)
  moreover have "receipts d \<ge> reserved_total d + sum_list (refund_payouts d) + sum_list (sweep_payouts None d) + outlay"
    using le(1) full by linarith
  ultimately show ?thesis using g(2) by blast
qed


subsection \<open>Recovery\<close>

text \<open>
  What a transaction may do to a sweep row: nothing, or an open or failed intent becomes sent; and,
  only where the flag allows it, an open intent becomes failed.
\<close>

definition sweep_kept :: "bool \<Rightarrow> sweep_attempt \<Rightarrow> sweep_attempt \<Rightarrow> bool" where
  "sweep_kept may_fail w w' \<longleftrightarrow> w' = w \<or>
     sw_id w' = sw_id w \<and> sw_bolt11 w' = sw_bolt11 w \<and> sw_amount w' = sw_amount w \<and>
     sw_max_outlay w' = sw_max_outlay w \<and> sw_fence w' = sw_fence w \<and> sw_created w' = sw_created w \<and>
     (sw_status w \<in> {''PENDING'', ''FAILED''} \<and> sw_status w' = ''SENT'' \<or>
      may_fail \<and> sw_status w \<in> {''PENDING'', ''FAILED''} \<and> sw_status w' = ''FAILED'')"

definition sweeps_kept :: "bool \<Rightarrow> db \<Rightarrow> db \<Rightarrow> bool" where
  "sweeps_kept f d d' \<longleftrightarrow> list_all2 (sweep_kept f) (sweeps d) (sweeps d')"

lemma sweep_kept_refl [simp]: "sweep_kept f w w"
  by (simp add: sweep_kept_def)

lemma sweep_kept_trans: "sweep_kept f u v \<Longrightarrow> sweep_kept f v w \<Longrightarrow> sweep_kept f u w"
  by (auto simp: sweep_kept_def)

lemma sweeps_kept_refl [simp]: "sweeps_kept f d d"
  by (simp add: sweeps_kept_def list_all2_refl)

lemma sweeps_kept_trans: "sweeps_kept f a b \<Longrightarrow> sweeps_kept f b c \<Longrightarrow> sweeps_kept f a c"
  unfolding sweeps_kept_def by (rule list_all2_trans [OF sweep_kept_trans])

lemma sweeps_kept_eq: "sweeps d' = sweeps d \<Longrightarrow> sweeps_kept f d d'"
  by (simp add: sweeps_kept_def list_all2_refl)

lemma sweeps_kept_update:
  assumes "\<And>w. P w \<Longrightarrow> sweep_kept f w (g w)" "sweeps d' = update_where P g (sweeps d)"
  shows "sweeps_kept f d d'"
  using assms by (simp add: sweeps_kept_def update_where_def list_all2_conv_all_nth)

lemma alert_if_any_sweeps [simp]: "sweeps (alert_if_any a now d) = sweeps d"
  by (simp add: alert_if_any_def enqueue_alert_row_def frame_simps split: option.split)

lemma sweep_sent_kept:
  assumes "sweep_sent_txn i h pid now d = Inr (x, d')" shows "sweeps_kept f d d'"
proof (cases "d' = d")
  case False
  with assms have "sweeps d' = update_where (\<lambda>w. sw_id w = i \<and> sw_status w \<in> {''PENDING'', ''FAILED''})
      (\<lambda>w. w\<lparr>sw_status := ''SENT'', sw_payment := coalesce pid (sw_payment w), sw_attempts := sw_attempts w + 1,
            sw_sent := Some now, sw_error := None\<rparr>) (sweeps d)"
    by (auto simp: sweep_sent_txn_def Let_def journal_sweep_def frame_simps split: if_splits)
  from sweeps_kept_update [OF _ this] show ?thesis by (simp add: sweep_kept_def)
qed simp

lemma sweep_failed_kept:
  assumes "sweep_failed_txn i h now reason a d = Inr (x, d')" shows "sweeps_kept True d d'"
proof (cases "d' = d")
  case False
  with assms have "sweeps d' = update_where (\<lambda>w. sw_id w = i \<and> sw_status w = ''PENDING'')
      (\<lambda>w. w\<lparr>sw_status := ''FAILED'', sw_attempts := sw_attempts w + 1, sw_error := Some reason\<rparr>) (sweeps d)"
    by (auto simp: sweep_failed_txn_def Let_def journal_sweep_def frame_simps split: if_splits)
  from sweeps_kept_update [OF _ this] show ?thesis by (simp add: sweep_kept_def)
qed simp

lemma sweep_authorise_kept: "sweep_authorise_txn i p d = Inr (x, d') \<Longrightarrow> d' = d"
  by (auto simp: sweep_authorise_txn_def split: if_splits sum.splits)

text \<open>The same for the steps of the driver; \<open>calm_backend\<close> never says that a payment failed.\<close>

definition calm_backend :: "'w sweep_backend \<Rightarrow> bool" where
  "calm_backend B \<longleftrightarrow>
     (\<forall>k w. fst (pb_status (sb_core B) k w) \<noteq> Inr PayFailed) \<and>
     (\<forall>h b w. fst (sb_outbound B h b w) \<noteq> Inr (Some PayFailed))"

definition kept :: "bool \<Rightarrow> 'w env \<Rightarrow> 'w env \<Rightarrow> bool" where
  "kept f e e' \<longleftrightarrow> sweeps_kept f (e_db e) (e_db e')"

lemma kept_refl [simp]: "kept f e e"
  by (simp add: kept_def)

lemma kept_trans: "kept f a b \<Longrightarrow> kept f b c \<Longrightarrow> kept f a c"
  unfolding kept_def by (rule sweeps_kept_trans)

lemma on_world_kept: "on_world g e = (x, e') \<Longrightarrow> kept f e e'"
  by (auto dest: on_world_db simp: kept_def)

lemma run_tx_kept:
  "run_tx t e = (r, e') \<Longrightarrow> (\<And>x d'. t (e_db e) = Inr (x, d') \<Longrightarrow> sweeps_kept f (e_db e) d') \<Longrightarrow> kept f e e'"
  by (erule run_tx_cases) (auto simp: kept_def)

lemma dispatch_sweeps: "dispatch g fault now a (p, d) = (r, p', d') \<Longrightarrow> sweeps d' = sweeps d"
  by (auto simp: dispatch_def frame_simps split: if_splits option.splits)

lemma sweep_alert_kept [simp]: "kept f e (sweep_alert B k s t now e)"
  by (auto simp: sweep_alert_def kept_def dest: dispatch_sweeps intro: sweeps_kept_eq split: option.split prod.split)

lemma stuck_kept [simp]: "kept f e (sweep_alert_stuck B row now reason e)"
  by (simp add: sweep_alert_stuck_def Let_def)

lemma sent_kept: "sweep_sent i h pid now e = (r, e') \<Longrightarrow> kept f e e'"
  unfolding sweep_sent_def by (erule run_tx_kept) (rule sweep_sent_kept)

lemma failed_kept: "sweep_failed B i h now reason e = (r, e') \<Longrightarrow> kept True e e'"
  unfolding sweep_failed_def by (erule run_tx_kept) (rule sweep_failed_kept)

lemma status_kept: "sweep_status B k e = (s, e') \<Longrightarrow> kept f e e'"
  by (auto simp: sweep_status_def attempt_pay_status_def split: prod.splits sum.splits dest: on_world_kept)

lemma calm_status: "calm_backend B \<Longrightarrow> sweep_status B k e = (s, e') \<Longrightarrow> s \<noteq> PayFailed"
  by (auto simp: sweep_status_def attempt_pay_status_def on_world_def calm_backend_def split: prod.splits sum.splits)
     (metis fst_conv)

lemma concluded_kept: "concluded v res = (r, e') \<Longrightarrow> e' = snd res"
  by (auto simp: concluded_def split: prod.splits sum.splits)

lemma capped_pay_kept:
  assumes "capped_pay B i b h a cap now e = (r, e')" "calm_backend B \<or> f"
  shows "kept f e e'"
proof -
  obtain x e1 where pay: "on_world (sb_pay B b a cap i) e = (x, e1)" by (metis surj_pair)
  note k1 = on_world_kept [OF pay, of f]
  show ?thesis
  proof (cases x)
    case (Inr pid)
    obtain r2 e2 where s: "sweep_sent i h (Some pid) now e1 = (r2, e2)" by (metis surj_pair)
    from assms(1) pay Inr s have "e' = e2" by (auto simp: capped_pay_def dest: concluded_kept)
    with k1 sent_kept [OF s] show ?thesis by (metis kept_trans)
  next
    case (Inl err)
    obtain s e2 where st: "sweep_status B i e1 = (s, e2)" by (metis surj_pair)
    note k2 = kept_trans [OF k1 status_kept [OF st]]
    show ?thesis
    proof (cases s)
      case PaySucceeded
      obtain r3 e3 where s3: "sweep_sent i h None now e2 = (r3, e3)" by (metis surj_pair)
      from assms(1) pay Inl st PaySucceeded s3 have "e' = e3" by (auto simp: capped_pay_def dest: concluded_kept)
      with k2 sent_kept [OF s3] show ?thesis by (metis kept_trans)
    next
      case PayFailed
      with assms(2) calm_status [OF _ st] have f: "f" by blast
      obtain r3 e3 where s3: "sweep_failed B i h now (''capped sweep pay refused: '' @ err_text err) e2 = (r3, e3)" by (metis surj_pair)
      from assms(1) pay Inl st PayFailed s3 have "e' = e3" by (auto simp: capped_pay_def Let_def dest: concluded_kept)
      with k2 failed_kept [OF s3] f show ?thesis by (metis (full_types) kept_trans)
    qed (use assms(1) pay Inl st k2 in \<open>auto simp: capped_pay_def\<close>)
  qed
qed


lemma run_prepared_kept:
  assumes "run_prepared persist body g e = (r, e')"
    and "\<And>p x d'. body p (e_db e) = Inr (x, d') \<Longrightarrow> sweeps_kept f (e_db e) d'"
  shows "kept f e e'"
proof -
  obtain r1 e1 where run: "run_tx (body (persist (e_world e))) e = (r1, e1)" by (metis surj_pair)
  from run_tx_kept [OF run] assms(2) have "kept f e e1" by blast
  moreover have "e_db e' = e_db e1" using assms(1) run
    by (auto simp: run_prepared_def Let_def split: sum.splits if_splits)
  ultimately show ?thesis by (simp add: kept_def)
qed

lemma sweep_authorise_env: "sweep_authorise B i b e = (r, e') \<Longrightarrow> kept f e e'"
  by (auto simp: sweep_authorise_def split: prod.splits sum.splits
      dest!: on_world_kept sweep_authorise_kept run_prepared_kept intro: kept_trans elim: kept_trans)

lemma resolve_or_park_kept:
  assumes "resolve_or_park B row b h c t now e = (r, e')" "calm_backend B \<or> f"
  shows "kept f e e'"
proof -
  obtain x e1 where w: "on_world (sb_outbound B h b) e = (x, e1)" by (metis surj_pair)
  note k1 = on_world_kept [OF w, of f]
  obtain r2 e2 where s: "sweep_sent (ps_id row) h None now e1 = (r2, e2)" by (metis surj_pair)
  obtain r3 e3 where fl: "sweep_failed B (ps_id row) h now t e1 = (r3, e3)" by (metis surj_pair)
  have failed: f if "x = Inr (Some PayFailed)"
    using assms(2) w that by (auto simp: calm_backend_def on_world_def split: prod.splits) (metis fst_conv)
  have "e' = e1 \<or> e' = e2 \<or> (x = Inr (Some PayFailed) \<and> e' = e3) \<or> (\<exists>reason. e' = sweep_alert_stuck B row now reason e1)"
    using assms(1) w s fl by (auto simp: resolve_or_park_def Let_def concluded_def
        split: sum.splits option.splits pay_status.splits)
  with k1 kept_trans [OF k1 sent_kept [OF s]] kept_trans [OF k1 stuck_kept] failed failed_kept [OF fl]
  show ?thesis by (metis (full_types) kept_trans)
qed

definition call_of :: "pending_sweep \<Rightarrow> string \<Rightarrow> sweep_call" where
  "call_of row b = \<lparr>sc_bolt11 = b, sc_sat = ps_amount row, sc_cap = ps_outlay row, sc_key = ps_id row\<rparr>"

lemma restart_kept:
  assumes "restart_sweep B row b h now e = (r, e', cs)" "calm_backend B \<or> f"
  shows "kept f e e' \<and> set cs \<subseteq> {call_of row b}"
proof -
  have park: "kept f e e2" if "resolve_or_park B row b h c t now e = (r2, e2)" for c t r2 e2
    using resolve_or_park_kept [OF that assms(2)] .
  obtain a e1 where au: "sweep_authorise B (ps_id row) b e = (a, e1)" by (metis surj_pair)
  obtain v e2 where cp: "capped_pay B (ps_id row) b h (ps_amount row) (ps_outlay row) now e1 = (v, e2)" by (metis surj_pair)
  note k1 = sweep_authorise_env [OF au, of f]
  note k2 = kept_trans [OF k1 capped_pay_kept [OF cp assms(2)]]
  show ?thesis
    using assms(1) k1 k2 unfolding restart_sweep_def
    by (auto simp: au cp call_of_def split: sum.splits prod.splits if_splits bool.splits dest: park)
qed

lemma settle_row_kept:
  assumes "settle_row B row b now e = (r, e', cs)" "calm_backend B \<or> f"
  shows "kept f e e' \<and> set cs \<subseteq> {call_of row b}"
proof -
  let ?h = "payment_hash_of (ps_id row)"
  obtain s e1 where st: "sweep_status B (ps_id row) e = (s, e1)" by (metis surj_pair)
  note k1 = status_kept [OF st, of f]
  show ?thesis
  proof (cases s)
    case PaySucceeded
    obtain r2 e2 where s2: "sweep_sent (ps_id row) ?h None now e1 = (r2, e2)" by (metis surj_pair)
    from assms(1) st PaySucceeded s2 have "e' = e2 \<and> cs = []"
      by (auto simp: settle_row_def Let_def concluded_def split: sum.splits)
    with kept_trans [OF k1 sent_kept [OF s2]] show ?thesis by simp
  next
    case PayPending
    obtain r2 e2 where s2: "capped_pay B (ps_id row) b ?h (ps_amount row) (ps_outlay row) now e1 = (r2, e2)" by (metis surj_pair)
    from assms(1) st PayPending s2 have "e' = e2 \<and> cs = [call_of row b]" by (auto simp: settle_row_def Let_def call_of_def)
    with kept_trans [OF k1 capped_pay_kept [OF s2 assms(2)]] show ?thesis by simp
  next
    case PayFailed
    with assms(2) calm_status [OF _ st] have f: f by blast
    let ?reason = "''backend payment key is FAILED before the sweep ledger terminalized''"
    obtain r2 e2 where s2: "sweep_failed B (ps_id row) ?h now ?reason e1 = (r2, e2)" by (metis surj_pair)
    from assms(1) st PayFailed s2 have "e' = e2 \<and> cs = []"
      by (auto simp: settle_row_def Let_def concluded_def split: sum.splits)
    with k1 failed_kept [OF s2] f show ?thesis by (auto intro: kept_trans)
  next
    case PayUnknown
    with assms(1) st have "restart_sweep B row b ?h now e1 = (r, e', cs)" by (simp add: settle_row_def Let_def)
    from restart_kept [OF this assms(2)] k1 show ?thesis by (blast intro: kept_trans)
  qed
qed

lemma drive_sweep_kept:
  assumes "drive_sweep B now row rep e = (r, e', cs)" "calm_backend B \<or> f"
  shows "kept f e e' \<and> (\<forall>c\<in>set cs. ps_fence row = None \<and> (\<exists>b. ps_bolt11 row = Some b \<and> c = call_of row b))"
proof (cases "ps_fence row = None \<and> ps_bolt11 row \<noteq> None")
  case True
  then obtain b where b: "ps_fence row = None" "ps_bolt11 row = Some b" by auto
  obtain v e1 cs1 where s: "settle_row B row b now e = (v, e1, cs1)" by (metis prod_cases3)
  note k = settle_row_kept [OF s assms(2)]
  have "cs = cs1 \<and> (e' = e1 \<or> (\<exists>reason. e' = sweep_alert_stuck B row now reason e1))"
    using assms(1) b s by (auto simp: drive_sweep_def Let_def split: sum.splits option.splits sweep_pay.splits)
  with k b show ?thesis by (auto intro: kept_trans [OF _ stuck_kept])
next
  case False
  with assms(1) have "cs = [] \<and> (\<exists>reason. e' = sweep_alert_stuck B row now reason e)"
    by (auto simp: drive_sweep_def Let_def split: if_splits option.splits)
  then show ?thesis by auto
qed

lemma drive_sweeps_kept:
  "drive_sweeps B now rows rep e = (r, e', cs) \<Longrightarrow> calm_backend B \<or> f \<Longrightarrow>
     kept f e e' \<and> (\<forall>c\<in>set cs. \<exists>row\<in>set rows. ps_fence row = None \<and> (\<exists>b. ps_bolt11 row = Some b \<and> c = call_of row b))"
proof (induction rows arbitrary: rep e r e' cs)
  case (Cons row rows)
  obtain v e1 cs1 where d: "drive_sweep B now row rep e = (v, e1, cs1)" by (metis prod_cases3)
  note k = drive_sweep_kept [OF d Cons.prems(2)]
  show ?case
  proof (cases v)
    case (Inl err)
    with Cons.prems(1) d have "e' = e1 \<and> cs = cs1" by simp
    with k show ?thesis by auto
  next
    case (Inr rep1)
    obtain r2 e2 cs2 where rest: "drive_sweeps B now rows rep1 e1 = (r2, e2, cs2)" by (metis prod_cases3)
    from Cons.prems(1) d Inr rest have "e' = e2 \<and> cs = cs1 @ cs2" by simp
    with k Cons.IH [OF rest Cons.prems(2)] show ?thesis by (auto intro: kept_trans)
  qed
qed simp

text \<open>
  C10. Recovery is safe for the operator's money: every pay call of a drive is for an intent that was
  pending and unfenced when the drive started, with its own invoice, amount and key and exactly the
  cap the ledger has committed; and a drive never gives a committed cap back on silence: unless the
  backend itself says that a payment failed, every row keeps its cap, and changes at most to sent.
\<close>

theorem sweep_recovery_safe:
  assumes "sweep_drive B now e = (r, e', cs)"
  shows "(\<forall>c\<in>set cs. \<exists>w\<in>set (sweeps (e_db e)). sw_status w = ''PENDING'' \<and> sw_fence w = None \<and>
            sw_id w = sc_key c \<and> sw_bolt11 w = Some (sc_bolt11 c) \<and> sc_cap c = nat (sw_max_outlay w) \<and>
            sc_sat c = nat (unwrap_or (sw_amount w) 0)) \<and>
    (calm_backend B \<longrightarrow> list_all2 (sweep_kept False) (sweeps (e_db e)) (sweeps (e_db e')))"
proof (intro conjI impI ballI)
  fix c assume "c \<in> set cs"
  with drive_sweeps_kept [OF assms [unfolded sweep_drive_def], of True]
  obtain row b where row: "row \<in> set (pending_sweeps (e_db e))" "ps_fence row = None" "ps_bolt11 row = Some b" "c = call_of row b"
    by blast
  then show "\<exists>w\<in>set (sweeps (e_db e)). sw_status w = ''PENDING'' \<and> sw_fence w = None \<and>
      sw_id w = sc_key c \<and> sw_bolt11 w = Some (sc_bolt11 c) \<and> sc_cap c = nat (sw_max_outlay w) \<and>
      sc_sat c = nat (unwrap_or (sw_amount w) 0)"
    by (auto simp: pending_sweeps_def call_of_def)
next
  assume "calm_backend B"
  with drive_sweeps_kept [OF assms [unfolded sweep_drive_def], of False]
  show "list_all2 (sweep_kept False) (sweeps (e_db e)) (sweeps (e_db e'))"
    by (simp add: kept_def sweeps_kept_def)
qed


subsection \<open>A sweep at concrete inputs\<close>

text \<open>A final receipt of 20000 msat, and a sweep of 10 sat that costs 11000 msat.\<close>

definition surplus_db :: db where
  "surplus_db = sample_db [sample_sub ''s1'' ''ACTIVE''] [sample_paid ''x1'' 20000]"

lemma surplus_gate: "\<exists>d'. gate_and_write_txn ''sweep:h'' ''ln'' ''h'' 10 11000 5 (Inr ()) surplus_db = Inr (GateProceed, d')"
  by (simp add: gate_and_write_txn_def surplus_db_def sample_defs sample_paid_def find_sweep_def read_surplus_def
      sum_receipts_msat_def receipts_decode_def receipt_settled_def invoice_msat_def fits_i64_def receipts_def
      received_by_ext_def class_a_def class_b_def class_b_exts_def positive_msat_def positive_sat_def reserved_total_def
      reserved_map_def refund_reserves_def at_risk_def find_sub_def at_risk_states_def refund_payouts_def
      sweep_payouts_def surplus_msat_def saturating_sub_def)

theorem sweep_gate_within_surplus_witness:
  "\<exists>d' w. gate_and_write_txn ''sweep:h'' ''ln'' ''h'' 10 11000 5 (Inr ()) surplus_db = Inr (GateProceed, d') \<and>
     open_sweeps d' = [w] \<and> sw_max_outlay w = 11000"
proof -
  obtain d' where gate: "gate_and_write_txn ''sweep:h'' ''ln'' ''h'' 10 11000 5 (Inr ()) surplus_db = Inr (GateProceed, d')"
    using surplus_gate by blast
  have "receipts surplus_db < u128_limit"
    by (simp add: surplus_db_def sample_defs sample_paid_def receipts_def received_by_ext_def class_a_def class_b_def
        class_b_exts_def positive_msat_def positive_sat_def receipt_settled_def invoice_msat_def)
  moreover have "db_ok surplus_db" by (simp add: surplus_db_def sample_defs sample_paid_def db_ok_def)
  ultimately show ?thesis using sweep_gate_within_surplus [OF _ gate] gate by auto
qed

text \<open>A pending sweep whose payment is in flight, on a backend that now settles it.\<close>

definition settling_backend :: "unit sweep_backend" where
  "settling_backend = \<lparr>
     sb_core = \<lparr>pb_status = (\<lambda>k w. (Inr PayPending, w)), pb_quote = (\<lambda>n w. (Inr (n, None), w)),
        pb_resolve = (\<lambda>x n t w. (None, w)), pb_prepare = (\<lambda>k b w. (Inr Inr, w)),
        pb_pay = (\<lambda>b n m k h w. (Inr ''p1'', w)), pb_reuse = True, pb_net = sample_net\<rparr>,
     sb_outlay = (\<lambda>n m w. (Inr (n * 1000), w)), sb_pay = (\<lambda>b n m k w. (Inr ''p1'', w)),
     sb_outbound = (\<lambda>h b w. (Inr None, w)), sb_hash = (\<lambda>b. Some ''h''), sb_expired = (\<lambda>b t. False)\<rparr>"

definition sweeping_env :: "unit env" where
  "sweeping_env = \<lparr>e_store = \<lparr>st_db = surplus_db\<lparr>sweeps := [(sample_sweep ''sweep:h'' ''PENDING'' 11000)
     \<lparr>sw_bolt11 := Some ''ln'', sw_amount := Some 10, sw_fence := None\<rparr>]\<rparr>, st_degraded = False\<rparr>,
     e_alerts = None, e_world = ()\<rparr>"

theorem sweep_recovery_safe_witness:
  "\<exists>r e' c. sweep_drive settling_backend 9 sweeping_env = (Inr r, e', [c]) \<and> sc_cap c = 11000 \<and>
     list_all2 (sweep_kept False) (sweeps (e_db sweeping_env)) (sweeps (e_db e'))"
proof -
  have "\<exists>r e'. sweep_drive settling_backend 9 sweeping_env
      = (Inr r, e', [\<lparr>sc_bolt11 = ''ln'', sc_sat = 10, sc_cap = 11000, sc_key = ''sweep:h''\<rparr>])"
    by (simp add: sweep_drive_def pending_sweeps_def sweeping_env_def surplus_db_def sample_db_def sample_sweep_def empty_db_def
        drive_sweep_def settle_row_def sweep_status_def attempt_pay_status_def on_world_def settling_backend_def
        capped_pay_def sweep_sent_def run_tx_def transaction_def transaction_then_def sweep_sent_txn_def concluded_def)
  then obtain r e' where run: "sweep_drive settling_backend 9 sweeping_env
      = (Inr r, e', [\<lparr>sc_bolt11 = ''ln'', sc_sat = 10, sc_cap = 11000, sc_key = ''sweep:h''\<rparr>])" by blast
  have "calm_backend settling_backend" by (simp add: calm_backend_def settling_backend_def)
  with sweep_recovery_safe [OF run] run show ?thesis by auto
qed

end
