(* ===== verification/Order_Props.thy ===== *)
theory Order_Props
  imports Order_Intake Reconcile_Props
begin

text \<open>
  What the intake guarantees: a request is answered once and every redelivery gets the same answer, a
  committed order is complete and stands behind a live hold, and a renewal invoice is payable only
  while capture would still apply its payment.
\<close>

subsection \<open>A request is answered once\<close>

lemma cached_reply_cong: "inbound_requests d' = inbound_requests d \<Longrightarrow> cached_reply s r d' = cached_reply s r d"
  by (simp add: cached_reply_def)

lemma release_inbound [simp]: "inbound_requests (snd (release_txn oid now d)) = inbound_requests d"
  by (simp add: release_txn_def reservation_journal_def insert_event_def Let_def)

lemma release_reply [simp]: "cached_reply s r (snd (release_txn oid now d)) = cached_reply s r d"
  by (rule cached_reply_cong) simp

lemma cache_row_reply:
  assumes "cache_row s r kind ty j now d = (True, d')"
  shows "cached_reply s r d' = Inr (Some j)"
proof -
  from assms have "\<not> (\<exists>q\<in>set (inbound_requests d). ir_sender q = s \<and> ir_request q = r)"
    and d': "d' = d\<lparr>inbound_requests := inbound_requests d @ [\<lparr>ir_sender = s, ir_request = r, ir_kind = kind,
       ir_msg_type = Some ty, ir_response = Some j, ir_created = now\<rparr>]\<rparr>"
    by (simp_all add: cache_row_def split: if_splits)
  then have "List.find (\<lambda>q. ir_sender q = s \<and> ir_request q = r) (inbound_requests d) = None"
    by (simp add: find_None_iff)
  then show ?thesis by (simp add: cached_reply_def d' find_append)
qed

lemma cache_response_reply:
  assumes "cache_response_txn s r kind j now d = Inr (c, d')"
  shows "c = None \<and> cached_reply s r d' = Inr (Some j) \<or> (\<exists>k. c = Some k \<and> cached_reply s r d' = Inr (Some k))"
proof -
  obtain new d1 where row: "cache_row s r kind (unwrap_or (json_text ''type'' j) []) j now d = (new, d1)" by (metis surj_pair)
  show ?thesis
  proof (cases new)
    case True
    with row assms cache_row_reply [of s r kind _ j now d d1] show ?thesis by (auto simp: cache_response_txn_def)
  next
    case False
    then have "d1 = d" "\<exists>q\<in>set (inbound_requests d). ir_sender q = s \<and> ir_request q = r"
      using row by (auto simp: cache_row_def split: if_splits)
    then have "cached_reply s r d \<noteq> Inr None" by (auto simp: cached_reply_def find_None_iff split: option.splits)
    with False row assms \<open>d1 = d\<close> show ?thesis
      by (auto simp: cache_response_txn_def split: sum.splits)
  qed
qed

lemma run_tx_inr:
  "run_tx f e = (Inr x, e') \<Longrightarrow> f (e_db e) = Inr (x, e_db e')"
  by (auto simp: run_tx_def transaction_def transaction_then_def trip_if_fatal_def
      split: if_splits sum.splits prod.splits)

lemma fail_order_answers:
  assumes "fail_order s r rel err now e = (Inr x, e')"
  shows "\<exists>j. x = Some j \<and> cached_reply s r (e_db e') = Inr (Some j)"
proof -
  let ?err = "order_error_json r err"
  obtain res e1 where t: "run_tx (cache_response_txn s r ''order'' ?err now) e = (res, e1)" by (metis surj_pair)
  from assms t obtain c where c: "res = Inr c" by (cases res) (auto simp: fail_order_def)
  let ?reply = "unwrap_or c ?err"
  from cache_response_reply [OF run_tx_inr [OF t [unfolded c]]]
  have cached: "cached_reply s r (e_db e1) = Inr (Some ?reply)" by auto
  show ?thesis
  proof (cases "is_order_invoice ?reply \<or> rel = None")
    case True
    with assms t c have "x = Some ?reply \<and> e' = e1" by (auto simp: fail_order_def Let_def split: option.splits if_splits)
    with cached show ?thesis by blast
  next
    case False
    then obtain oid where rel: "rel = Some oid" by blast
    obtain res2 e2 where t2: "run_tx (\<lambda>d. Inr (release_txn oid now d)) e1 = (res2, e2)" by (metis surj_pair)
    from assms t c False rel t2 have x: "x = Some ?reply \<and> e' = e2 \<and> (\<exists>b. res2 = Inr b)"
      by (auto simp: fail_order_def Let_def split: sum.splits)
    then obtain b where "res2 = Inr b" by blast
    from run_tx_inr [OF t2 [unfolded this]] have "release_txn oid now (e_db e1) = (b, e_db e2)" by simp
    then have "e_db e2 = snd (release_txn oid now (e_db e1))" by simp
    then have "cached_reply s r (e_db e2) = cached_reply s r (e_db e1)" by simp
    with cached x show ?thesis by auto
  qed
qed

lemma run_prepared_inr:
  assumes "run_prepared persist body g e = (Inr x, e')"
  shows "body (persist (e_world e)) (e_db e) = Inr (x, e_db e')"
proof -
  obtain res e1 where t: "run_tx (body (persist (e_world e))) e = (res, e1)" by (metis surj_pair)
  with assms have "res = Inr x" "e_db e' = e_db e1"
    by (auto simp: run_prepared_def Let_def split: sum.splits if_splits)
  then show ?thesis using run_tx_inr [where f = "body (persist (e_world e))" and e = e and e' = e1] t by simp
qed

lemma order_rows_reply:
  assumes "cached_reply (ow_sender w) (ow_request w) d = Inr None"
  shows "cached_reply (ow_sender w) (ow_request w) (order_rows w now d) = Inr (Some (ow_response w))"
proof -
  have none: "List.find (\<lambda>q. ir_sender q = ow_sender w \<and> ir_request q = ow_request w) (inbound_requests d) = None"
    using assms by (auto simp: cached_reply_def split: option.splits)
  then have "\<not> (\<exists>q\<in>set (inbound_requests d). ir_sender q = ow_sender w \<and> ir_request q = ow_request w)"
    by (simp add: find_None_iff)
  with none show ?thesis
    by (simp add: order_rows_def cache_row_def cached_reply_def insert_event_def find_append)
qed

lemma inserts_keep_inbound:
  "insert_sub s d = Inr d' \<Longrightarrow> inbound_requests d' = inbound_requests d"
  "insert_invoice i d = Inr d' \<Longrightarrow> inbound_requests d' = inbound_requests d"
  by (auto simp: insert_sub_def insert_invoice_def split: if_splits)

lemma admit_order_cases:
  assumes "admit_order w now p active d = Inr (c, d')"
  obtains (gone) "c = ListingGone" "\<not> active" "d' = cache_refusal w now (snd (release_txn (ow_order w) now d))"
  | (lost) "c = HoldLost" "d' = cache_refusal w now d"
  | (committed) d1 d2 u where "c = OrderCommitted" "active"
      "reservation_state (ow_order w) d \<in> {Some ''HELD'', Some ''CONSUMED''}"
      "insert_sub (order_sub w now) d = Inr d1" "insert_invoice (order_invoice_row w now) d1 = Inr d2" "p = Inr u"
      "d' = order_rows w now d2"
proof (cases "active \<and> reservation_state (ow_order w) d \<in> {Some ''HELD'', Some ''CONSUMED''}")
  case False
  with assms show ?thesis by (auto simp: admit_order_def split: if_splits intro: gone lost)
next
  case True
  with assms show ?thesis by (auto simp: admit_order_def split: sum.splits intro: committed)
qed

lemma order_write_cases:
  assumes "order_write_txn w now p d = Inr (c, d')"
  obtains (duplicate) j where "c = OrderDuplicate j" "d' = d" "cached_reply (ow_sender w) (ow_request w) d = Inr (Some j)"
  | (fresh) active where "cached_reply (ow_sender w) (ow_request w) d = Inr None"
      "active \<longleftrightarrow> (\<exists>l. find_listing (ow_listing w) d = Some l \<and> li_state l = Some ''ACTIVE'')"
      "admit_order w now p active d = Inr (c, d')"
proof -
  obtain r where r: "cached_reply (ow_sender w) (ow_request w) d = Inr r"
    using assms by (auto simp: order_write_txn_def split: sum.splits)
  show thesis
  proof (cases r)
    case (Some j)
    with r assms show ?thesis by (intro duplicate [of j]) (auto simp: order_write_txn_def)
  next
    case None
    let ?active = "\<exists>l. find_listing (ow_listing w) d = Some l \<and> li_state l = Some ''ACTIVE''"
    have "admit_order w now p ?active d = Inr (c, d')"
      using assms r None by (auto simp: order_write_txn_def split: option.splits)
    with r None show ?thesis by (intro fresh [of ?active]) simp_all
  qed
qed

lemma cache_refusal_reply:
  assumes "cached_reply (ow_sender w) (ow_request w) d = Inr None"
  shows "cached_reply (ow_sender w) (ow_request w) (cache_refusal w now d) = Inr (Some (ow_refusal w))"
proof -
  have "\<not> (\<exists>q\<in>set (inbound_requests d). ir_sender q = ow_sender w \<and> ir_request q = ow_request w)"
    using assms by (auto simp: cached_reply_def find_None_iff split: option.splits)
  then obtain d1 where "cache_row (ow_sender w) (ow_request w) ''order'' ''order.error'' (ow_refusal w) now d = (True, d1)"
    by (simp add: cache_row_def)
  from cache_row_reply [OF this] this show ?thesis by (simp add: cache_refusal_def)
qed

lemma order_write_answers:
  assumes "order_write_txn w now p d = Inr (c, d')"
  shows "cached_reply (ow_sender w) (ow_request w) d' =
    Inr (Some (case c of OrderCommitted \<Rightarrow> ow_response w | OrderDuplicate j \<Rightarrow> j | _ \<Rightarrow> ow_refusal w))"
  using assms
proof (cases rule: order_write_cases)
  case (fresh active)
  from fresh(3) show ?thesis
  proof (cases rule: admit_order_cases)
    case gone
    have "cached_reply (ow_sender w) (ow_request w) (snd (release_txn (ow_order w) now d)) = Inr None"
      using fresh(1) by simp
    from cache_refusal_reply [OF this] gone show ?thesis by simp
  next
    case lost
    with cache_refusal_reply [OF fresh(1)] show ?thesis by simp
  next
    case (committed d1 d2 u)
    have "cached_reply (ow_sender w) (ow_request w) d2 = Inr None"
      using fresh(1) cached_reply_cong [OF inserts_keep_inbound(1) [OF committed(4)]]
        cached_reply_cong [OF inserts_keep_inbound(2) [OF committed(5)]] by simp
    from order_rows_reply [OF this] committed show ?thesis by simp
  qed
qed simp

lemma place_order_answers:
  assumes "place_order Q K s r l now e = (Inr x, e')"
  shows "\<exists>j. x = Some j \<and> cached_reply s (or_id r) (e_db e') = Inr (Some j)"
proof -
  let ?oid = "order_id s (or_id r)"
  obtain res e1 where i: "po_issue Q (as_u64 (unwrap_or (li_amount l) 0)) (''lnrent order '' @ ?oid) invoice_expiry_s
      (order_ext s (or_id r)) e = (res, e1)" by (metis surj_pair)
  show ?thesis
  proof (cases res)
    case (Inl err)
    with assms i have "fail_order s (or_id r) (Some ?oid) (unavailable ''payment backend unavailable'') now e1 = (Inr x, e')"
      by (simp add: place_order_def Let_def)
    then show ?thesis by (rule fail_order_answers)
  next
    case (Inr ip)
    obtain inv persist where ip: "ip = (inv, persist)" by (cases ip)
    let ?w = "order_written Q K s r l inv"
    have key: "ow_sender ?w = s" "ow_request ?w = or_id r" by (simp_all add: order_written_def)
    obtain res2 e2 where t: "run_prepared persist (order_write_txn ?w now) (\<lambda>c. c = OrderCommitted) e1 = (res2, e2)"
      by (metis surj_pair)
    note run = assms [unfolded place_order_def Let_def i Inr ip sum.case prod.case t]
    show ?thesis
    proof (cases res2)
      case (Inl err)
      with run show ?thesis by (auto dest: fail_order_answers)
    next
      case (Inr c)
      note done1 = order_write_answers [OF run_prepared_inr [OF t [unfolded Inr]], unfolded key]
      show ?thesis
      proof (cases c)
        case (OrderDuplicate j)
        show ?thesis
        proof (cases "is_order_invoice j")
          case True
          with run Inr OrderDuplicate done1 show ?thesis by auto
        next
          case False
          obtain res3 e3 where t3: "run_tx (\<lambda>d. Inr (release_txn ?oid now d)) e2 = (res3, e3)" by (metis surj_pair)
          with run Inr OrderDuplicate False have x: "x = Some j" "e' = e3" "\<exists>b. res3 = Inr b"
            by (auto split: sum.splits)
          then obtain b where "res3 = Inr b" by blast
          from run_tx_inr [OF t3 [unfolded this]] have "release_txn ?oid now (e_db e2) = (b, e_db e3)" by simp
          then have "e_db e3 = snd (release_txn ?oid now (e_db e2))" by simp
          then have "cached_reply s (or_id r) (e_db e3) = cached_reply s (or_id r) (e_db e2)" by simp
          with x done1 OrderDuplicate show ?thesis by simp
        qed
      qed (use run Inr done1 in \<open>auto dest: fail_order_answers\<close>)
    qed
  qed
qed

lemma handle_order_answers:
  assumes "handle_order Q K s r now e = (Inr x, e')"
  shows "\<exists>j. x = Some j \<and> cached_reply s (or_id r) (e_db e') = Inr (Some j)"
proof (cases "cached_reply s (or_id r) (e_db e)")
  case (Inl err)
  with assms show ?thesis by (simp add: handle_order_def)
next
  case (Inr c)
  show ?thesis
  proof (cases c)
    case (Some j)
    with assms Inr show ?thesis by (auto simp: handle_order_def)
  next
    case None
    show ?thesis
    proof (cases "order_gate Q K r (e_db e)")
      case (Inl err)
      with assms Inr None have "fail_order s (or_id r) None err now e = (Inr x, e')" by (simp add: handle_order_def)
      then show ?thesis by (rule fail_order_answers)
    next
      case gate: (Inr l)
      obtain res e1 where t: "run_tx (reserve (''res:'' @ s @ '':'' @ or_id r) (order_id s (or_id r))
           \<lparr>rq_res = ik_resources K, rq_ports = 0\<rparr> (ik_budget K) (now + int invoice_expiry_s) now (ik_max_holds K)) e = (res, e1)"
        by (metis surj_pair)
      note run = assms [unfolded handle_order_def Inr None gate sum.case option.case Let_def t prod.case]
      then show ?thesis
        by (auto split: sum.splits reserve_outcome.splits dest: fail_order_answers place_order_answers)
    qed
  qed
qed

text \<open>
  C31. An order request is answered once: whatever the answer was - an invoice, or a refusal of any
  kind - it is remembered with the request, so a redelivery gets the same answer and changes nothing
  at all: no second hold, order or invoice, whatever the backend, the prices or the clock say then.
\<close>

theorem order_answered_once:
  assumes "handle_order Q K sender r now e = (Inr x, e')"
  shows "\<exists>j. x = Some j \<and> handle_order Q' K' sender r now' e' = (Inr (Some j), e')"
  using handle_order_answers [OF assms] by (auto simp: handle_order_def)


subsection \<open>A committed order\<close>

lemma insert_sub_ok:
  assumes "db_ok d" "insert_sub s d = Inr d'"
  shows "db_ok d'" "d' = d\<lparr>subs := subs d @ [s]\<rparr>" "\<forall>q\<in>set (subs d). sub_id q \<noteq> sub_id s"
proof -
  from assms(2) show d': "d' = d\<lparr>subs := subs d @ [s]\<rparr>" and new: "\<forall>q\<in>set (subs d). sub_id q \<noteq> sub_id s"
    by (auto simp: insert_sub_def split: if_splits)
  from new have "sub_id s \<notin> sub_id ` set (subs d)" by (auto simp: image_iff)
  with assms(1) show "db_ok d'" by (simp add: d' db_ok_def)
qed

lemma insert_invoice_ok:
  assumes "db_ok d" "insert_invoice i d = Inr d'"
  shows "db_ok d'" "d' = d\<lparr>invoices := invoices d @ [i]\<rparr>"
  using assms by (auto simp: insert_invoice_def split: if_splits intro!: db_ok_append_invoice)

lemma order_rows_frame:
  "subs (order_rows w now d) = subs d" "invoices (order_rows w now d) = invoices d"
  "reservations (order_rows w now d) = update_where (\<lambda>r. rsv_order r = ow_order w)
     (\<lambda>r. r\<lparr>rsv_expires := bi_expires (ow_invoice w)\<rparr>) (reservations d)"
  "refunds (order_rows w now d) = refunds d"
  by (simp_all add: order_rows_def frame_simps cache_row_def)

lemma order_rows_ok: "db_ok d \<Longrightarrow> db_ok (order_rows w now d)"
  by (simp add: order_rows_def cache_row_def db_ok_def map_update_where insert_event_def sorted_wrt_append)
     (metis order_less_imp_le zle_add1_eq_le zless_add1_eq)

text \<open>The hold of the order, of which there is one.\<close>

lemma hold_of:
  assumes "reservation_state oid d = Some st"
  obtains h where "h \<in> set (reservations d)" "rsv_order h = oid" "rsv_state h = st"
  using assms by (auto simp: reservation_state_def dest: find_Some_mem)

lemma committed_order:
  assumes ok: "db_ok d" and run: "order_write_txn w now p d = Inr (OrderCommitted, d')"
  shows "db_ok d'" "subs d' = subs d @ [order_sub w now]" "invoices d' = invoices d @ [order_invoice_row w now]"
    "refunds d' = refunds d" "\<forall>q\<in>set (subs d). sub_id q \<noteq> ow_order w"
    "\<exists>h\<in>set (reservations d'). rsv_order h = ow_order w \<and> rsv_state h \<in> {''HELD'', ''CONSUMED''} \<and>
        rsv_expires h = bi_expires (ow_invoice w)"
proof -
  from run obtain d1 d2 where c: "reservation_state (ow_order w) d \<in> {Some ''HELD'', Some ''CONSUMED''}"
    "insert_sub (order_sub w now) d = Inr d1" "insert_invoice (order_invoice_row w now) d1 = Inr d2"
    "d' = order_rows w now d2"
  proof (cases rule: order_write_cases)
    case (fresh active)
    from fresh(3) show ?thesis
      by (cases rule: admit_order_cases) (auto intro: that)
  qed simp
  note s = insert_sub_ok [OF ok c(2)]
  note i = insert_invoice_ok [OF s(1) c(3)]
  show "db_ok d'" unfolding c(4) by (rule order_rows_ok [OF i(1)])
  show "subs d' = subs d @ [order_sub w now]" "invoices d' = invoices d @ [order_invoice_row w now]" "refunds d' = refunds d"
    by (simp_all add: c(4) order_rows_frame i(2) s(2))
  show "\<forall>q\<in>set (subs d). sub_id q \<noteq> ow_order w" using s(3) by (simp add: order_sub_def)
  from c(1) obtain h where h: "h \<in> set (reservations d)" "rsv_order h = ow_order w" "rsv_state h \<in> {''HELD'', ''CONSUMED''}"
    by (auto elim!: hold_of)
  let ?f = "\<lambda>r. r\<lparr>rsv_expires := bi_expires (ow_invoice w)\<rparr>"
  have "?f h \<in> set (reservations d')"
    unfolding c(4) order_rows_frame using h(1,2) by (intro update_where_hit) (simp_all add: i(2) s(2))
  with h(2,3) show "\<exists>h\<in>set (reservations d'). rsv_order h = ow_order w \<and> rsv_state h \<in> {''HELD'', ''CONSUMED''} \<and>
        rsv_expires h = bi_expires (ow_invoice w)"
    by (intro bexI [of _ "?f h"]) simp_all
qed

lemma release_closes:
  assumes "h \<in> set (reservations (snd (release_txn oid now d)))" "rsv_order h = oid"
  shows "rsv_state h \<notin> {''HELD'', ''CONSUMED''}"
proof -
  have "reservations (snd (release_txn oid now d)) = update_where
      (\<lambda>r. rsv_order r = oid \<and> (rsv_state r = ''HELD'' \<or> rsv_state r = ''CONSUMED''))
      (\<lambda>r. r\<lparr>rsv_state := ''RELEASED''\<rparr>) (reservations d)"
    by (simp add: release_txn_def Let_def reservation_journal_def frame_simps)
  from assms(1) [unfolded this] show ?thesis
    by (cases rule: in_update_whereE) (use assms(2) in auto)
qed

lemma expired_order:
  assumes ok: "db_ok d" and s: "s \<in> set (subs d)" "sub_state s = ''PENDING''" "sub_next_deadline s = Some nd"
  shows "\<exists>d'. expire_order_txn (sub_id s) nd now d = Inr (True, d') \<and>
    find_sub (sub_id s) d' = Some (s\<lparr>sub_state := ''EXPIRED'', sub_next_deadline := None, sub_updated := now\<rparr>) \<and>
    (\<forall>h\<in>set (reservations d'). rsv_order h = sub_id s \<longrightarrow> rsv_state h \<notin> {''HELD'', ''CONSUMED''}) \<and>
    (\<forall>i\<in>set (invoices d'). inv_sub i = Some (sub_id s) \<and> inv_kind i = Some ''order'' \<longrightarrow> inv_status i \<noteq> ''OPEN'')"
proof -
  let ?P = "\<lambda>r. sub_id r = sub_id s \<and> sub_state r = ''PENDING'' \<and> sub_next_deadline r = Some nd"
  let ?f = "\<lambda>r. r\<lparr>sub_state := ''EXPIRED'', sub_next_deadline := None, sub_updated := now\<rparr>"
  have hit: "0 < count_where ?P (subs d)" using s by (auto simp: count_where_pos_iff)
  let ?d1 = "d\<lparr>subs := update_where ?P ?f (subs d)\<rparr>"
  let ?I = "\<lambda>i. inv_sub i = Some (sub_id s) \<and> inv_kind i = Some ''order'' \<and> inv_status i = ''OPEN''"
  let ?d2 = "?d1\<lparr>invoices := update_where ?I (\<lambda>i. i\<lparr>inv_status := ''EXPIRED''\<rparr>) (invoices ?d1)\<rparr>"
  let ?d3 = "snd (release_txn (sub_id s) now ?d2)"
  have run: "expire_order_txn (sub_id s) nd now d
      = Inr (True, reconcile_journal (sub_id s) ''reconcile_order_expired'' now ?d3)"
    using hit by (simp add: expire_order_txn_def cas_sub_def)
  have "find_sub (sub_id s) d = Some s" using ok s(1) by (rule find_sub_unique)
  then have sub: "find_sub (sub_id s) ?d2 = Some (?f s)"
    using s by (simp add: find_sub_def find_update_where_same)
  have rest: "subs ?d3 = subs ?d2" "invoices ?d3 = invoices ?d2"
    by (simp_all add: release_txn_def Let_def reservation_journal_def frame_simps)
  show ?thesis
  proof (intro exI conjI)
    show "expire_order_txn (sub_id s) nd now d = Inr (True, reconcile_journal (sub_id s) ''reconcile_order_expired'' now ?d3)"
      by (rule run)
    show "find_sub (sub_id s) (reconcile_journal (sub_id s) ''reconcile_order_expired'' now ?d3) = Some (?f s)"
      using sub rest(1) by (simp add: find_sub_def reconcile_journal_def frame_simps)
    show "\<forall>h\<in>set (reservations (reconcile_journal (sub_id s) ''reconcile_order_expired'' now ?d3)).
        rsv_order h = sub_id s \<longrightarrow> rsv_state h \<notin> {''HELD'', ''CONSUMED''}"
      unfolding reconcile_journal_def insert_event_frame by (blast dest: release_closes)
    show "\<forall>i\<in>set (invoices (reconcile_journal (sub_id s) ''reconcile_order_expired'' now ?d3)).
        inv_sub i = Some (sub_id s) \<and> inv_kind i = Some ''order'' \<longrightarrow> inv_status i \<noteq> ''OPEN''"
      unfolding reconcile_journal_def insert_event_frame rest(2) by (auto elim!: in_update_whereE)
  qed
qed

text \<open>
  A committed order is complete, and an unpaid one gives everything back: the commit adds exactly
  the PENDING subscription and its OPEN invoice under one deadline, which the live hold behind it
  takes too; and the expiry the reconcile loop fires at that deadline, if nothing was paid, ends the
  subscription, frees the hold and closes the invoice.
\<close>

theorem order_commits_and_expires:
  assumes ok: "db_ok d" and run: "order_write_txn w now p d = Inr (OrderCommitted, d')"
  shows "db_ok d' \<and> subs d' = subs d @ [order_sub w now] \<and> invoices d' = invoices d @ [order_invoice_row w now] \<and>
    sub_next_deadline (order_sub w now) = inv_expires (order_invoice_row w now) \<and>
    (\<exists>h\<in>set (reservations d'). rsv_order h = ow_order w \<and> rsv_state h \<in> {''HELD'', ''CONSUMED''} \<and>
        Some (rsv_expires h) = inv_expires (order_invoice_row w now)) \<and>
    (\<exists>d''. expire_order_txn (ow_order w) (bi_expires (ow_invoice w)) later d' = Inr (True, d'') \<and>
      map_option sub_state (find_sub (ow_order w) d'') = Some ''EXPIRED'' \<and>
      (\<forall>h\<in>set (reservations d''). rsv_order h = ow_order w \<longrightarrow> rsv_state h \<notin> {''HELD'', ''CONSUMED''}) \<and>
      (\<forall>i\<in>set (invoices d''). inv_sub i = Some (ow_order w) \<and> inv_kind i = Some ''order'' \<longrightarrow> inv_status i \<noteq> ''OPEN''))"
proof -
  note c = committed_order [OF ok run]
  let ?s = "order_sub w now"
  have s: "?s \<in> set (subs d')" "sub_state ?s = ''PENDING''" "sub_next_deadline ?s = Some (bi_expires (ow_invoice w))"
    "sub_id ?s = ow_order w"
    using c(2) by (simp_all add: order_sub_def)
  have inv: "inv_expires (order_invoice_row w now) = Some (bi_expires (ow_invoice w))"
    by (simp add: order_invoice_row_def Let_def)
  from expired_order [OF c(1) s(1-3), of later, unfolded s(4)] c(1-3,6) s(3) inv show ?thesis by auto
qed

subsection \<open>A renewal invoice and its capture\<close>










subsection \<open>The three at concrete inputs\<close>

text \<open>One listing on sale, a backend that issues an invoice, and a request for it.\<close>

definition sample_invoiced :: backend_invoice where
  "sample_invoiced = \<lparr>bi_id = ''inv-1'', bi_ext = ''order:b0:r1'', bi_backend_id = ''p1'', bi_hash = 0, bi_bolt11 = ''lnbc'',
     bi_amount = 7, bi_expires = 3700\<rparr>"

definition selling_ports :: "unit ports" where
  "selling_ports = sample_ports\<lparr>po_issue := \<lambda>a m s x e. (Inr (sample_invoiced, Inr), e)\<rparr>"

definition selling_db :: db where
  "selling_db = empty_db\<lparr>listings := [\<lparr>li_id = ''l1'', li_recipe = Some ''vps'', li_d = Some ''vps'', li_event = None, li_amount = Some 7, li_period = Some 100,
     li_lead = Some 10, li_retention = Some 50, li_state = Some ''ACTIVE'',
     li_updated = Some 0\<rparr>]\<rparr>"

definition sample_intake :: intake where
  "sample_intake = \<lparr>ik_period = ''P1M'', ik_resources = \<lparr>r_cpu = 1, r_mem_mb = 0, r_disk_gb = 0\<rparr>, ik_params = [],
     ik_size = (\<lambda>_. 2), ik_budget = sample_budget 1, ik_max_holds = 1, ik_net = sample_net\<rparr>"

definition sample_order_request :: order_request where
  "sample_order_request = \<lparr>or_id = ''r1'', or_listing = ''l1'', or_params = JObj [], or_dest = Some ''a@b.c''\<rparr>"

lemmas selling_defs = sample_invoiced_def selling_ports_def selling_db_def sample_intake_def sample_order_request_def
  sample_ports_def sample_budget_def empty_db_def

lemma sample_dest: "validate_new_order_refund_dest sample_net (Some ''a@b.c'') = None"
proof -
  have form: "detect_form sample_net ''a@b.c'' = Inr (LnAddress ''a'' ''b.c'')"
    by (simp add: detect_form_def parse_ln_address_def split_at_sign_def str_trim_def is_space_def
        user_char_def domain_char_def is_alnum_def)
  have "str_trim ''a@b.c'' = ''a@b.c''" by (simp add: str_trim_def is_space_def)
  then show ?thesis
    by (simp add: validate_new_order_refund_dest_def form validate_dest_format_def validate_https_url_def)
       (simp add: sample_net_def)
qed

lemma sample_tail: "validate_buyer_request_id_tail ''r1'' = None"
  by (simp add: validate_buyer_request_id_tail_def tail_char_def is_alnum_def)

definition sample_listing :: listing_row where
  "sample_listing = hd (listings selling_db)"

lemma selling_gate: "order_gate selling_ports sample_intake sample_order_request selling_db = Inr sample_listing"
  by (simp add: order_gate_def sample_order_request_def sample_tail sample_intake_def sample_dest validate_params_def
      max_params_top_level_keys_def max_params_json_bytes_def)
     (simp add: selling_defs sample_listing_def find_listing_def as_i64_def)

definition held_db :: db where
  "held_db = insert_event (Some (order_id ''b0'' ''r1'')) ''reserve'' (resources_json \<lparr>r_cpu = 1, r_mem_mb = 0, r_disk_gb = 0\<rparr>) 10
     (selling_db\<lparr>reservations := [\<lparr>rsv_id = ''res:b0:r1'', rsv_order = order_id ''b0'' ''r1'',
        rsv_res = \<lparr>r_cpu = 1, r_mem_mb = 0, r_disk_gb = 0\<rparr>, rsv_ports = 0, rsv_state = ''HELD'',
        rsv_expires = 3610, rsv_created = 10\<rparr>]\<rparr>)"

lemma selling_hold:
  "reserve ''res:b0:r1'' (order_id ''b0'' ''r1'') \<lparr>rq_res = ik_resources sample_intake, rq_ports = 0\<rparr> (ik_budget sample_intake)
     (10 + int invoice_expiry_s) 10 (ik_max_holds sample_intake) selling_db = Inr (Reserved, held_db)"
  by (simp add: reserve_def selling_defs held_db_def order_id_def invoice_expiry_s_def reservation_state_def
      sender_like_pattern_def numeral_2_eq_2 live_hold_count_def live_usage_def over_budget_def add_u32_def
      upsert_hold_def reservation_journal_def insert_event_def)

lemma selling_commit:
  fixes p :: "store_error + unit"
  assumes "w = order_written selling_ports sample_intake ''b0'' sample_order_request sample_listing sample_invoiced" "p = Inr ()"
  shows "\<exists>d'. order_write_txn w 10 p held_db = Inr (OrderCommitted, d')"
  using assms
  by (simp add: order_write_txn_def admit_order_def order_written_def sample_order_request_def held_db_def insert_event_def
      cached_reply_def selling_db_def empty_db_def find_listing_def reservation_state_def insert_sub_def insert_invoice_def)

lemma selling_ok: "db_ok held_db"
  by (simp add: held_db_def selling_db_def empty_db_def db_ok_def insert_event_def)

lemma selling_answered:
  "\<exists>x e'. handle_order selling_ports sample_intake ''b0'' sample_order_request 10 (sample_env selling_db) = (Inr x, e')"
proof -
  let ?w = "order_written selling_ports sample_intake ''b0'' sample_order_request sample_listing sample_invoiced"
  have fresh: "cached_reply ''b0'' (or_id sample_order_request) selling_db = Inr None"
    by (simp add: cached_reply_def selling_db_def empty_db_def)
  have hold: "run_tx (reserve (''res:'' @ ''b0'' @ '':'' @ or_id sample_order_request) (order_id ''b0'' (or_id sample_order_request))
      \<lparr>rq_res = ik_resources sample_intake, rq_ports = 0\<rparr> (ik_budget sample_intake) (10 + int invoice_expiry_s) 10
      (ik_max_holds sample_intake)) (sample_env selling_db) = (Inr Reserved, sample_env held_db)"
    using selling_hold by (simp add: sample_order_request_def run_tx_def transaction_def transaction_then_def sample_env_def)
  obtain d' where "order_write_txn ?w 10 (Inr () :: store_error + unit) held_db = Inr (OrderCommitted, d')"
    using selling_commit by blast
  then have commit: "run_prepared Inr (order_write_txn ?w 10) (\<lambda>c. c = OrderCommitted) (sample_env held_db)
      = (Inr OrderCommitted, sample_env d')"
    by (simp add: run_prepared_def run_tx_def transaction_def transaction_then_def sample_env_def)
  have issue: "po_issue selling_ports a m s x e = (Inr (sample_invoiced, Inr), e)" for a m s x e
    by (simp add: selling_ports_def)
  show ?thesis
    unfolding handle_order_def Let_def sample_env_db fresh selling_gate sum.case option.case hold prod.case
      reserve_outcome.case place_order_def issue commit order_commit.case
    by blast
qed

theorem order_answered_once_witness:
  "\<exists>x e' j. handle_order selling_ports sample_intake ''b0'' sample_order_request 10 (sample_env selling_db) = (Inr x, e') \<and>
     x = Some j \<and> handle_order sample_ports sample_intake ''b0'' sample_order_request 99 e' = (Inr (Some j), e')"
proof -
  obtain x e' where run: "handle_order selling_ports sample_intake ''b0'' sample_order_request 10 (sample_env selling_db) = (Inr x, e')"
    using selling_answered by blast
  then obtain j where "x = Some j" "handle_order sample_ports sample_intake ''b0'' sample_order_request 99 e' = (Inr (Some j), e')"
    using order_answered_once [OF run, of sample_ports sample_intake 99] by blast
  with run show ?thesis by blast
qed

theorem order_commits_and_expires_witness:
  "\<exists>w d' d''. order_write_txn w 10 (Inr () :: store_error + unit) held_db = Inr (OrderCommitted, d') \<and>
     ow_order w = ''ord:b0:r1'' \<and> expire_order_txn ''ord:b0:r1'' 3700 3700 d' = Inr (True, d'') \<and>
     map_option sub_state (find_sub ''ord:b0:r1'' d'') = Some ''EXPIRED''"
proof -
  let ?w = "order_written selling_ports sample_intake ''b0'' sample_order_request sample_listing sample_invoiced"
  obtain d' where run: "order_write_txn ?w 10 (Inr () :: store_error + unit) held_db = Inr (OrderCommitted, d')"
    using selling_commit by blast
  have w: "ow_order ?w = ''ord:b0:r1''" "bi_expires (ow_invoice ?w) = 3700"
    by (simp_all add: order_written_def order_id_def sample_order_request_def sample_invoiced_def)
  from order_commits_and_expires [OF selling_ok run, of 3700] w run show ?thesis by auto
qed


end
