(* ===== verification/Provision_Props.thy ===== *)
theory Provision_Props
  imports Provision Refund_Safety Reconcile_Props
begin

text \<open>
  What provisioning guarantees: the two open ends of a drive (\<open>provision_outcomes\<close>), that nothing is
  destroyed unless its destruction was journalled (\<open>destroy_only_when_claimed\<close>), and that a cleanup stays
  owed until it is done (\<open>cleanup_retried_until_done\<close>).
\<close>

lemma run_provision_output:
  "run_provision Q input n err di e = (Inr out, e') \<Longrightarrow> delivery_payload out \<noteq> None"
  by (induction Q input n err di e rule: run_provision.induct) (auto split: prod.splits sum.splits option.splits)


lemma consume_held:
  assumes "consume_txn oid now d = Inr (u, d')"
  shows "count_where (\<lambda>r. rsv_order r = oid \<and> rsv_state r = ''HELD'') (reservations d) = 1"
    "\<forall>r\<in>set (reservations d'). rsv_order r = oid \<longrightarrow> rsv_state r \<noteq> ''HELD''"
    "subs d' = subs d" "instances d' = instances d" "outbox d' = outbox d" "refunds d' = refunds d" "invoices d' = invoices d"
proof -
  let ?P = "\<lambda>r. rsv_order r = oid \<and> rsv_state r = ''HELD''"
  have n: "count_where ?P (reservations d) = 1" using assms by (simp add: consume_txn_def Let_def split: if_splits)
  have d: "d' = reservation_journal oid ''reserve_consume'' (JObj []) now
      (d\<lparr>reservations := update_where ?P (\<lambda>r. r\<lparr>rsv_state := ''CONSUMED''\<rparr>) (reservations d)\<rparr>)"
    using assms n by (simp add: consume_txn_def Let_def)
  show "count_where ?P (reservations d) = 1" by (fact n)
  show "subs d' = subs d" "instances d' = instances d" "outbox d' = outbox d" "refunds d' = refunds d" "invoices d' = invoices d"
    by (simp_all add: d reservation_journal_def frame_simps)
  have "rsv_state r \<noteq> ''HELD''" if "r \<in> set (reservations d')" "rsv_order r = oid" for r
  proof -
    from that(1) have "r \<in> set (update_where ?P (\<lambda>r. r\<lparr>rsv_state := ''CONSUMED''\<rparr>) (reservations d))"
      by (simp add: d reservation_journal_def frame_simps)
    then show ?thesis by (cases rule: in_update_whereE) (use that(2) in simp_all)
  qed
  then show "\<forall>r\<in>set (reservations d'). rsv_order r = oid \<longrightarrow> rsv_state r \<noteq> ''HELD''" by blast
qed

text \<open>What the activating transaction commits, all of it at once.\<close>

definition activation :: "active_write \<Rightarrow> db \<Rightarrow> db \<Rightarrow> bool" where
  "activation w d d' \<longleftrightarrow>
     (\<exists>r\<in>set (subs d). sub_id r = aw_sub w \<and> sub_state r = ''PROVISIONING'' \<and> activated_row w r \<in> set (subs d')) \<and>
     count_where (\<lambda>r. rsv_order r = aw_order w \<and> rsv_state r = ''HELD'') (reservations d) = 1 \<and>
     (\<forall>r\<in>set (reservations d'). rsv_order r = aw_order w \<longrightarrow> rsv_state r \<noteq> ''HELD'') \<and>
     (\<exists>i\<in>set (instances d'). ins_id i = aw_instance w \<and> ins_sub i = Some (aw_sub w) \<and> ins_state i = Some ''RUNNING'' \<and>
        ins_handles i = Some (aw_handles w)) \<and>
     (\<exists>q\<in>set (outbox d'). ob_id q = aw_outbox w \<and> ob_recipient q = Some (aw_recipient w) \<and> ob_payload q = aw_payload w \<and>
        ob_state q = ''PENDING'') \<and>
     refunds d' = refunds d"

lemma activation_commits:
  assumes "active_write_txn w d = Inr (Activated, d')"
  shows "activation w d d'"
  unfolding activation_def
proof (intro conjI)
  let ?P = "\<lambda>r. sub_id r = aw_sub w \<and> sub_state r = ''PROVISIONING''"
  let ?d0 = "d\<lparr>subs := update_where ?P (activated_row w) (subs d)\<rparr>"
  from assms obtain d1 d2 d3 u1 u2 u3 where n: "count_where ?P (subs d) \<noteq> 0"
    and c: "consume_txn (aw_order w) (aw_now w) ?d0 = Inr (u1, d1)"
    and i: "insert_instance \<lparr>ins_id = aw_instance w, ins_sub = Some (aw_sub w), ins_box = Some (aw_box w),
                  ins_kind = Some (aw_kind w), ins_handles = Some (aw_handles w), ins_state = Some ''RUNNING'',
                  ins_created = aw_now w, ins_updated = aw_now w\<rparr> d1 = Inr (u2, d2)"
    and o': "insert_outbox (aw_outbox w) (aw_recipient w) (aw_sub w) ''provision.ready'' (aw_payload w) (aw_now w) d2 = Inr (u3, d3)"
    and d': "d' = insert_event (Some (aw_sub w)) ''provision_active'' (JObj []) (aw_now w) d3"
    by (auto simp: active_write_txn_def Let_def split: if_splits sum.splits prod.splits)
  note ch = consume_held [OF c]
  from i have d2: "d2 = d1\<lparr>instances := instances d2\<rparr>" "set (instances d2) = set (instances d1) \<union>
      {\<lparr>ins_id = aw_instance w, ins_sub = Some (aw_sub w), ins_box = Some (aw_box w),
                  ins_kind = Some (aw_kind w), ins_handles = Some (aw_handles w), ins_state = Some ''RUNNING'',
                  ins_created = aw_now w, ins_updated = aw_now w\<rparr>}"
    by (auto simp: insert_instance_def split: if_splits)
  have d3: "d3 = enqueue_row (aw_outbox w) (Some (aw_recipient w)) (Some (aw_sub w)) ''provision.ready'' (aw_payload w) (aw_now w) d2"
    and fresh: "\<forall>r\<in>set (outbox d2). ob_id r \<noteq> aw_outbox w"
    using o' by (auto simp: insert_outbox_def split: if_splits)
  have fr: "subs d2 = subs d1" "reservations d2 = reservations d1" "refunds d2 = refunds d1" by (subst d2(1); simp)+
  from n obtain r where r: "r \<in> set (subs d)" "?P r" by (auto simp: count_where_0_iff)
  then have "activated_row w r \<in> set (subs ?d0)" using update_where_hit [of r "subs d" ?P "activated_row w"] by simp
  then have "activated_row w r \<in> set (subs d')" using ch(3) fr by (simp add: d' d3 frame_simps)
  with r show "\<exists>r\<in>set (subs d). sub_id r = aw_sub w \<and> sub_state r = ''PROVISIONING'' \<and> activated_row w r \<in> set (subs d')"
    by blast
  show "count_where (\<lambda>r. rsv_order r = aw_order w \<and> rsv_state r = ''HELD'') (reservations d) = 1" using ch(1) by simp
  show "\<forall>r\<in>set (reservations d'). rsv_order r = aw_order w \<longrightarrow> rsv_state r \<noteq> ''HELD''"
    using ch(2) fr by (simp add: d' d3 frame_simps)
  show "refunds d' = refunds d" using ch(6) fr by (simp add: d' d3 frame_simps)
  show "\<exists>i\<in>set (instances d'). ins_id i = aw_instance w \<and> ins_sub i = Some (aw_sub w) \<and> ins_state i = Some ''RUNNING'' \<and>
       ins_handles i = Some (aw_handles w)"
    using d2(2) by (simp add: d' d3 frame_simps)
  show "\<exists>q\<in>set (outbox d'). ob_id q = aw_outbox w \<and> ob_recipient q = Some (aw_recipient w) \<and> ob_payload q = aw_payload w \<and>
       ob_state q = ''PENDING''"
    using fresh by (auto simp: d' d3 frame_simps enqueue_row_def)
qed


text \<open>What a cleanup intent in the journal says: \<open>destroy\<close> is owed with this input.\<close>

definition claimed :: "string \<Rightarrow> json \<Rightarrow> db \<Rightarrow> bool" where
  "claimed s input d \<longleftrightarrow>
     (\<exists>p\<in>set (events d). ev_sub p = Some s \<and> ev_kind p = ''provision_cleanup_pending'' \<and> ev_detail p = input)"

lemma claimed_insert [simp]: "claimed s input (insert_event x k j t d) \<longleftrightarrow>
     (x = Some s \<and> k = ''provision_cleanup_pending'' \<and> j = input) \<or> claimed s input d"
  by (auto simp: claimed_def insert_event_def)

lemma claim_cleanup_cases:
  assumes "claim_cleanup_txn s input now d = (c, d')"
  obtains (live) "c = LiveOwner" "live_instance s d" "d' = d"
  | (owed) i where "c = CleanupPending i (state_of s d)" "\<not> live_instance s d" "claimed s input d'" "subs d' = subs d"
      "instances d' = instances d" "reservations d' = reservations d" "refunds d' = refunds d"
  using assms by (auto simp: claim_cleanup_txn_def frame_simps split: if_splits)

text \<open>The order's money is owed back: the refund row, the state, the open cleanup and the untouched hold.\<close>

definition refund_owed :: "refund_due_write \<Rightarrow> db \<Rightarrow> db \<Rightarrow> bool" where
  "refund_owed w d d' \<longleftrightarrow>
     (\<exists>r\<in>set (subs d'). sub_id r = rw_sub w \<and> sub_state r = ''REFUND_DUE'' \<and> sub_next_deadline r = None) \<and>
     (\<exists>f\<in>set (refunds d'). rf_key f = ''refund:'' @ rw_ext w \<and>
        (f \<in> set (refunds d) \<or> rf_amount f = rw_amount w \<and> rf_dest f = rw_dest w \<and> rf_status f = ''PENDING'')) \<and>
     claimed (rw_sub w) (rw_destroy w) d' \<and> reservations d' = reservations d \<and> instances d' = instances d"

lemma refund_due_cases:
  assumes "refund_due_txn w d = Inr (out, d')"
  obtains (mine) i where "out = RefundClaimed i" "refund_owed w d d'"
      "\<exists>r\<in>set (subs d). sub_id r = rw_sub w \<and> sub_state r = ''PROVISIONING''"
  | (lost) c where "out = RefundLost c" "claim_cleanup_txn (rw_sub w) (rw_destroy w) (rw_now w) d = (c, d')"
proof -
  let ?P = "\<lambda>r. sub_id r = rw_sub w \<and> sub_state r = ''PROVISIONING''"
  let ?f = "\<lambda>r. r\<lparr>sub_state := ''REFUND_DUE'', sub_next_deadline := None, sub_updated := rw_now w\<rparr>"
  show ?thesis
  proof (cases "count_where ?P (subs d) = 0")
    case True
    with assms show ?thesis by (auto simp: refund_due_txn_def Let_def split: prod.splits intro: lost)
  next
    case False
    from assms False obtain b d1 where ins: "insert_refund_attempt_txn (Some (rw_sub w)) (rw_dest w) (rw_ext w)
        (rw_amount w) (rw_now w) (d\<lparr>subs := update_where ?P ?f (subs d)\<rparr>) = Inr (b, d1)"
      and o': "out = RefundClaimed (event_seq d1 + 1)"
      and d': "d' = insert_event (Some (rw_sub w)) ''provision_failed'' (JObj []) (rw_now w)
                 (insert_event (Some (rw_sub w)) ''provision_cleanup_pending'' (rw_destroy w) (rw_now w) d1)"
      by (auto simp: refund_due_txn_def Let_def split: sum.splits prod.splits)
    from ins have d1: "subs d1 = update_where ?P ?f (subs d)" "reservations d1 = reservations d" "instances d1 = instances d"
      and rf: "\<exists>q\<in>set (refunds d1). rf_key q = ''refund:'' @ rw_ext w \<and>
        (q \<in> set (refunds d) \<or> rf_amount q = rw_amount w \<and> rf_dest q = rw_dest w \<and> rf_status q = ''PENDING'')"
      by (auto simp: insert_refund_attempt_txn_def split: if_splits)
    from False obtain r where r: "r \<in> set (subs d)" "?P r" by (auto simp: count_where_0_iff)
    then have "?f r \<in> set (subs d1)" using update_where_hit [of r "subs d" ?P ?f] d1(1) by simp
    then have "\<exists>r\<in>set (subs d1). sub_id r = rw_sub w \<and> sub_state r = ''REFUND_DUE'' \<and> sub_next_deadline r = None"
      by (rule rev_bexI) (use r in simp)
    then have "refund_owed w d d'" using rf d1 by (simp add: refund_owed_def d' frame_simps)
    with o' r show ?thesis by (intro mine) auto
  qed
qed

lemma run_tx_world: "run_tx f e = (r, e') \<Longrightarrow> e_world e' = e_world e"
  by (erule run_tx_cases) simp_all

text \<open>The driver once the hook has delivered.\<close>

definition hook_handles :: "json \<Rightarrow> json" where
  "hook_handles out = unwrap_or (json_get ''handles'' out) JNull"

lemma drive_after_hook:
  assumes "load_prov_target s (e_db e) = Some t" "pt_state t = ''PROVISIONING''" "pt_recipe t = Some (rc_id (pv_recipe V))"
    "pt_settled t = Some settled" "delivery_payload out = Some payload"
    "run_provision Q (provision_input V s t) provision_attempts [] (provision_input V s t) e = (Inr out, e1)"
    "di = destroy_input_with_handles (provision_input V s t) (hook_handles out)"
    "run_tx (active_write_txn (active_write_of V s t settled (hook_handles out) payload di now)) e1 = (r, e2)"
  shows "provision_drive Q V s now e = (case r of
      Inl err \<Rightarrow> (case err of NoHeldReservation _ _ \<Rightarrow> fail_to_refund_due Q s t di now e2 | _ \<Rightarrow> (Inl err, e2))
    | Inr Activated \<Rightarrow> (Inr ProvActive, e2)
    | Inr (ActiveLost c) \<Rightarrow> finish_lost_hook Q s di c now e2)"
proof -
  have "provision_drive Q V s now e =
      (case run_tx (active_write_txn (active_write_of V s t settled (hook_handles out) payload di now)) e1 of
         (Inl err, e2) \<Rightarrow> (case err of NoHeldReservation _ _ \<Rightarrow> fail_to_refund_due Q s t di now e2 | _ \<Rightarrow> (Inl err, e2))
       | (Inr Activated, e2) \<Rightarrow> (Inr ProvActive, e2)
       | (Inr (ActiveLost c), e2) \<Rightarrow> finish_lost_hook Q s di c now e2)"
    unfolding assms(7) hook_handles_def using assms(1-6) by (simp add: provision_drive_def Let_def)
  then show ?thesis unfolding assms(8) by (cases r) (auto split: active_outcome.split)
qed

lemma active_lost:
  "active_write_txn w d = Inr (ActiveLost c, d') \<Longrightarrow> claim_cleanup_txn (aw_sub w) (aw_destroy w) (aw_now w) d = (c, d')"
  by (auto simp: active_write_txn_def Let_def split: if_splits sum.splits prod.splits)

text \<open>A drive that got as far as the hook: its target, what the attempts gave, and what \<open>destroy\<close> is then to be given.\<close>

definition hook_ran :: "'w ports \<Rightarrow> provisioner \<Rightarrow> string \<Rightarrow> 'w env \<Rightarrow> prov_target \<Rightarrow> (string \<times> json + json) \<Rightarrow> 'w env \<Rightarrow> bool" where
  "hook_ran Q V s e t r e1 \<longleftrightarrow> load_prov_target s (e_db e) = Some t \<and> pt_state t = ''PROVISIONING'' \<and>
     pt_recipe t = Some (rc_id (pv_recipe V)) \<and> pt_settled t \<noteq> None \<and>
     run_provision Q (provision_input V s t) provision_attempts [] (provision_input V s t) e = (r, e1)"

definition owed_destroy :: "provisioner \<Rightarrow> string \<Rightarrow> prov_target \<Rightarrow> (string \<times> json + json) \<Rightarrow> json" where
  "owed_destroy V s t r = (case r of Inl (_, di) \<Rightarrow> di
     | Inr out \<Rightarrow> destroy_input_with_handles (provision_input V s t) (hook_handles out))"

lemma drive_cases:
  assumes "provision_drive Q V s now e = (res, e')"
  obtains (idle) "e' = e" "res = Inr ProvSkipped \<or> isl res"
  | (stopped) t r e1 where "hook_ran Q V s e t r e1" "isl res" "e_world e' = e_world e1"
  | (failed) t r e1 e2 where "hook_ran Q V s e t r e1" "e_db e2 = e_db e1" "e_world e2 = e_world e1"
      "fail_to_refund_due Q s t (owed_destroy V s t r) now e2 = (res, e')"
  | (active) t out payload settled e1 where "hook_ran Q V s e t (Inr out) e1" "delivery_payload out = Some payload"
      "pt_settled t = Some settled" "res = Inr ProvActive" "e_world e' = e_world e1"
      "active_write_txn (active_write_of V s t settled (hook_handles out) payload (owed_destroy V s t (Inr out)) now) (e_db e1)
         = Inr (Activated, e_db e')"
  | (lost) t r e1 e2 c where "hook_ran Q V s e t r e1" "e_world e2 = e_world e1"
      "claim_cleanup_txn s (owed_destroy V s t r) now (e_db e1) = (c, e_db e2)"
      "finish_lost_hook Q s (owed_destroy V s t r) c now e2 = (res, e')"
proof (cases "\<exists>t r e1. hook_ran Q V s e t r e1")
  case False
  then have "pt_settled t = None" if "load_prov_target s (e_db e) = Some t" "pt_state t = ''PROVISIONING''"
      "pt_recipe t = Some (rc_id (pv_recipe V))" for t
    using that by (metis hook_ran_def surj_pair)
  then show thesis
    using assms idle by (cases "load_prov_target s (e_db e)") (auto simp: provision_drive_def split: if_splits)
next
  case True
  then obtain t r e1 where h: "hook_ran Q V s e t r e1" by blast
  then obtain settled where settled: "pt_settled t = Some settled" by (auto simp: hook_ran_def)
  from h have t: "load_prov_target s (e_db e) = Some t" "pt_state t = ''PROVISIONING''" "pt_recipe t = Some (rc_id (pv_recipe V))"
    "run_provision Q (provision_input V s t) provision_attempts [] (provision_input V s t) e = (r, e1)"
    by (auto simp: hook_ran_def)
  show thesis
  proof (cases r)
    case (Inl m)
    then show thesis using failed [OF h refl refl] assms t settled
      by (simp add: provision_drive_def owed_destroy_def split: prod.splits)
  next
    case (Inr out)
    then obtain payload where p: "delivery_payload out = Some payload" using run_provision_output t(4) by blast
    let ?di = "owed_destroy V s t r"
    obtain r2 e2 where x: "run_tx (active_write_txn (active_write_of V s t settled (hook_handles out) payload ?di now)) e1 = (r2, e2)"
      by (metis surj_pair)
    have di: "?di = destroy_input_with_handles (provision_input V s t) (hook_handles out)" by (simp add: Inr owed_destroy_def)
    note drive = drive_after_hook [OF t(1-3) settled p t(4) [unfolded Inr] di x, unfolded assms, symmetric]
    have w: "e_world e2 = e_world e1" using run_tx_world [OF x] .
    show thesis
    proof (cases r2)
      case (Inl err)
      then have d: "e_db e2 = e_db e1" using x by (auto elim: run_tx_cases)
      show thesis
      proof (cases "\<exists>o' n. err = NoHeldReservation o' n")
        case True
        then show thesis using failed [OF h d w] drive Inl by auto
      next
        case False
        then show thesis using stopped [OF h] drive Inl w by (auto split: store_error.splits)
      qed
    next
      case a: (Inr a)
      then have tx: "active_write_txn (active_write_of V s t settled (hook_handles out) payload ?di now) (e_db e1) = Inr (a, e_db e2)"
        using x by (auto elim: run_tx_cases)
      show thesis
      proof (cases a)
        case Activated
        then show thesis using active [OF h [unfolded Inr] p settled] drive a w tx Inr by simp
      next
        case (ActiveLost c)
        from active_lost [OF tx [unfolded ActiveLost]]
        have "claim_cleanup_txn s ?di now (e_db e1) = (c, e_db e2)" by (simp add: active_write_of_def Let_def)
        then show thesis using lost [OF h w] drive a ActiveLost by simp
      qed
    qed
  qed
qed

text \<open>
  How a drive comes to report a refund due from the database \<open>d\<close> the hook left: the booking (or the claim of
  the cleanup alone, when another driver had ended the subscription) is committed as \<open>d'\<close>, and only then
  is the cleanup run.
\<close>

definition refund_reported :: "'w ports \<Rightarrow> string \<Rightarrow> prov_target \<Rightarrow> json \<Rightarrow> int \<Rightarrow> db \<Rightarrow> 'w env \<Rightarrow> bool" where
  "refund_reported Q s t di now d e' \<longleftrightarrow> (\<exists>i e2.
     snd (complete_cleanup Q i s di now e2) = e' \<and> claimed s di (e_db e2) \<and>
     ((\<exists>w. new_refund_due_write s t di now = Inr w \<and> refund_due_txn w d = Inr (RefundClaimed i, e_db e2) \<and>
           refund_owed w d (e_db e2)) \<or>
      claim_cleanup_txn s di now d = (CleanupPending i (state_of s d), e_db e2) \<and> \<not> live_instance s d \<and>
        (state_of s d = None \<or> state_of s d = Some ''REFUND_DUE'')))"

lemma lost_outcome:
  assumes "finish_lost_hook Q s di c now e2 = (Inr out, e')" "claim_cleanup_txn s di now d = (c, e_db e2)"
  shows "out \<noteq> ProvActive \<and> (out = ProvRefundDue \<longrightarrow> refund_reported Q s t di now d e')"
  using assms(2)
proof (cases rule: claim_cleanup_cases)
  case live
  then show ?thesis using assms(1) by (auto simp: finish_lost_hook_def)
next
  case (owed i)
  then obtain b where b: "complete_cleanup Q i s di now e2 = (Inr b, e')"
      "out = (if state_of s d = Some ''REFUND_DUE'' \<or> state_of s d = None then ProvRefundDue else ProvSkipped)"
    using assms(1) by (auto simp: finish_lost_hook_def split: prod.splits sum.splits)
  then show ?thesis using owed assms(2) unfolding refund_reported_def
    by (auto split: if_splits intro!: exI [of _ i] exI [of _ e2])
qed

lemma failed_outcome:
  assumes "fail_to_refund_due Q s t di now e1 = (Inr out, e')"
  shows "out \<noteq> ProvActive \<and> (out = ProvRefundDue \<longrightarrow> refund_reported Q s t di now (e_db e1) e')"
proof -
  from assms obtain w r1 e2 where w: "new_refund_due_write s t di now = Inr w" and tx: "run_tx (refund_due_txn w) e1 = (Inr r1, e2)"
    and k: "(case r1 of RefundLost c \<Rightarrow> finish_lost_hook Q s di c now e2
        | RefundClaimed i \<Rightarrow> (case complete_cleanup Q i s di now e2 of
                (Inl err, e2) \<Rightarrow> (Inl err, e2) | (Inr _, e2) \<Rightarrow> (Inr ProvRefundDue, e2))) = (Inr out, e')"
    by (auto simp: fail_to_refund_due_def split: sum.splits prod.splits refund_due_outcome.splits)
  have ws: "rw_sub w = s" "rw_destroy w = di" "rw_now w = now"
    using w by (auto simp: new_refund_due_write_def split: option.splits)
  have d': "refund_due_txn w (e_db e1) = Inr (r1, e_db e2)" using tx by (auto elim: run_tx_cases)
  from d' show ?thesis
  proof (cases rule: refund_due_cases)
    case (mine i)
    then have "claimed s di (e_db e2)" by (simp add: refund_owed_def ws)
    moreover obtain b where "complete_cleanup Q i s di now e2 = (Inr b, e')" "out = ProvRefundDue"
      using k mine(1) by (auto split: prod.splits sum.splits)
    ultimately show ?thesis using mine(1,2) w d' unfolding refund_reported_def
      by (auto intro!: exI [of _ i] exI [of _ e2])
  next
    case (lost c)
    then show ?thesis using k lost_outcome [of Q s di c now e2 out e' "e_db e1" t] by (simp add: ws)
  qed
qed

text \<open>
  C13. Provisioning ends in the open only two ways. When the driver reports the subscription active, the hook delivered a
  payload and one transaction, on the database the hook left, made the row active with its paid time counted from
  the settlement of its order invoice, consumed its one hold, recorded the running instance with the hook's
  handles and queued the delivery for the buyer. When it reports a refund due, the order's money was booked as
  owed in the transaction that took the subscription out of provisioning (or another driver had already ended it
  and no live instance is behind it), and the destruction of what the hook may have made was journalled by that
  same transaction, before it was run.
\<close>

theorem provision_outcomes:
  assumes "provision_drive Q V s now e = (Inr out, e')"
  shows "(out = ProvActive \<longrightarrow> (\<exists>t hook_out payload settled e1.
      hook_ran Q V s e t (Inr hook_out) e1 \<and> delivery_payload hook_out = Some payload \<and> pt_settled t = Some settled \<and>
      activation (active_write_of V s t settled (hook_handles hook_out) payload (owed_destroy V s t (Inr hook_out)) now)
        (e_db e1) (e_db e'))) \<and>
    (out = ProvRefundDue \<longrightarrow> (\<exists>t r e1. hook_ran Q V s e t r e1 \<and>
      refund_reported Q s t (owed_destroy V s t r) now (e_db e1) e'))"
  using assms
proof (cases rule: drive_cases)
  case (failed t r e1 e2)
  from failed_outcome [OF failed(4)] failed(1,2) show ?thesis by auto
next
  case (active t hook_out payload settled e1)
  from active activation_commits [OF active(6)] show ?thesis by blast
next
  case (lost t r e1 e2 c)
  from lost_outcome [OF lost(4,3), of t] lost(1) show ?thesis by blast
qed auto

text \<open>A property of the outside world that the hooks keep when they are called as they should be.\<close>

lemma run_provision_keeps:
  assumes "\<And>input e. good (e_world e) \<Longrightarrow> good (e_world (snd (po_hook Q ''provision'' input e)))" "good (e_world e)"
  shows "good (e_world (snd (run_provision Q input n err di e)))"
  using assms(2)
proof (induction n arbitrary: err di e)
  case (Suc n)
  obtain r e1 where h: "po_hook Q ''provision'' input e = (r, e1)" by (metis surj_pair)
  with assms(1) [OF Suc.prems, of input] have g: "good (e_world e1)" by simp
  show ?case using Suc.IH [OF g] g h by (auto split: sum.split option.split)
qed simp

lemma cleanup_keeps:
  assumes "\<And>input e. good (e_world e) \<Longrightarrow> claimed s input (e_db e) \<Longrightarrow> good (e_world (snd (po_hook Q ''destroy'' input e)))"
    "good (e_world e)" "claimed s input (e_db e)"
  shows "good (e_world (snd (complete_cleanup Q i s input now e)))"
proof -
  obtain r e1 where h: "po_hook Q ''destroy'' input e = (r, e1)" by (metis surj_pair)
  with assms(1) [OF assms(2,3)] have "good (e_world e1)" by simp
  with h show ?thesis by (auto simp: complete_cleanup_def dest!: run_tx_world split: sum.split prod.split)
qed

lemma lost_keeps:
  assumes destroy: "\<And>input e. good (e_world e) \<Longrightarrow> claimed s input (e_db e) \<Longrightarrow> good (e_world (snd (po_hook Q ''destroy'' input e)))"
    and "good (e_world e)" and c: "claim_cleanup_txn s input now d = (c, e_db e)"
  shows "good (e_world (snd (finish_lost_hook Q s input c now e)))"
  using c
proof (cases rule: claim_cleanup_cases)
  case live
  then show ?thesis using assms(2) by (simp add: finish_lost_hook_def)
next
  case (owed i)
  from cleanup_keeps [OF destroy assms(2) owed(3), of i now] owed(1) show ?thesis
    by (auto simp: finish_lost_hook_def split: prod.splits sum.splits)
qed

lemma failed_keeps:
  assumes destroy: "\<And>input e. good (e_world e) \<Longrightarrow> claimed s input (e_db e) \<Longrightarrow> good (e_world (snd (po_hook Q ''destroy'' input e)))"
    and g0: "good (e_world e)"
  shows "good (e_world (snd (fail_to_refund_due Q s t input now e)))"
proof (cases "new_refund_due_write s t input now")
  case (Inl err)
  then show ?thesis using g0 by (simp add: fail_to_refund_due_def)
next
  case (Inr w)
  then have ws: "rw_sub w = s" "rw_destroy w = input" "rw_now w = now"
    by (auto simp: new_refund_due_write_def split: option.splits)
  obtain r e1 where t: "run_tx (refund_due_txn w) e = (r, e1)" by (metis surj_pair)
  then have g: "good (e_world e1)" using g0 run_tx_world by metis
  show ?thesis
  proof (cases r)
    case (Inl err)
    then show ?thesis using Inr t g by (simp add: fail_to_refund_due_def)
  next
    case out: (Inr out)
    with t have x: "refund_due_txn w (e_db e) = Inr (out, e_db e1)" by (auto elim: run_tx_cases)
    from x show ?thesis
    proof (cases rule: refund_due_cases)
      case (mine i)
      then have "claimed s input (e_db e1)" by (simp add: refund_owed_def ws)
      from cleanup_keeps [OF destroy g this, of i now] show ?thesis
        using Inr out t mine(1) by (auto simp: fail_to_refund_due_def split: prod.splits sum.splits)
    next
      case (lost c)
      with lost_keeps [OF destroy g, where input = input and now = now] show ?thesis using Inr out t by (simp add: fail_to_refund_due_def ws)
    qed
  qed
qed

text \<open>
  C14. Nothing is destroyed that is not owed. Whatever the hooks and the other tasks do, the driver calls \<open>destroy\<close>
  for a subscription only with an input that a committed cleanup intent of that subscription already
  journals, so a crash at any point leaves the destruction to recovery. (\<open>good\<close> is any property of the outside
  world that \<open>provision\<close> keeps, and that \<open>destroy\<close> keeps when it is called so.)
\<close>

theorem destroy_only_when_claimed:
  assumes prov: "\<And>input e. good (e_world e) \<Longrightarrow> good (e_world (snd (po_hook Q ''provision'' input e)))"
    and destroy: "\<And>input e. good (e_world e) \<Longrightarrow> claimed s input (e_db e) \<Longrightarrow> good (e_world (snd (po_hook Q ''destroy'' input e)))"
    and start: "good (e_world e)"
  shows "good (e_world (snd (provision_drive Q V s now e)))"
proof -
  obtain res e' where drive: "provision_drive Q V s now e = (res, e')" by (metis surj_pair)
  have ran: "good (e_world e1)" if "hook_ran Q V s e t r e1" for t r e1
    using run_provision_keeps [OF prov start] that by (auto simp: hook_ran_def) (metis snd_conv)
  from drive show ?thesis
  proof (cases rule: drive_cases)
    case (failed t r e1 e2)
    have "good (e_world e2)" using ran [OF failed(1)] failed(3) by simp
    from failed_keeps [where good = good and s = s and Q = Q, OF destroy this, of t "owed_destroy V s t r" now]
    show ?thesis using failed(4) drive by simp
  next
    case (lost t r e1 e2 c)
    have "good (e_world e2)" using ran [OF lost(1)] lost(2) by simp
    from lost_keeps [where good = good and s = s and Q = Q, OF destroy this lost(3)]
    show ?thesis using lost(4) drive by simp
  qed (use start ran drive in auto)
qed

subsection \<open>Cleanups are retried until they are done\<close>

lemma open_cleanup_insert_done:
  "open_cleanup rc (insert_event (Some s) ''provision_cleanup_done'' (cleanup_done_detail i) now d) p \<longleftrightarrow>
     open_cleanup rc d p \<and> \<not> (ev_sub p = Some s \<and> ev_id p = i)"
  by (auto simp: open_cleanup_def cleanup_done_def insert_event_def cleanup_done_detail_def split: option.splits)

lemma finish_cleanup_open:
  assumes "p0 \<in> set (events d)" "open_cleanup rc d p0" "ev_sub p0 = Some s"
  shows "filter (open_cleanup rc (finish_cleanup_txn (ev_id p0) s now d)) (events (finish_cleanup_txn (ev_id p0) s now d)) =
     filter (\<lambda>p. open_cleanup rc d p \<and> \<not> (ev_sub p = Some s \<and> ev_id p = ev_id p0)) (events d)"
proof -
  let ?d' = "insert_event (Some s) ''provision_cleanup_done'' (cleanup_done_detail (ev_id p0)) now d"
  have f: "finish_cleanup_txn (ev_id p0) s now d = ?d'"
    using assms by (auto simp: finish_cleanup_txn_def open_cleanup_def)
  have "events ?d' = events d @ [\<lparr>ev_id = event_seq d + 1, ev_sub = Some s, ev_kind = ''provision_cleanup_done'',
      ev_detail = cleanup_done_detail (ev_id p0), ev_at = now\<rparr>]"
    by (simp add: insert_event_def)
  then show ?thesis unfolding f open_cleanup_insert_done by (simp add: open_cleanup_def)
qed

text \<open>\<open>destroy\<close> answers \<open>r input\<close> and leaves the daemon alone.\<close>

lemma complete_each_open:
  assumes "\<And>input e. po_hook Q ''destroy'' input e = (r input, e)"
    "\<not> st_degraded (e_store e)" "db_ok (e_db e)"
    "\<forall>row\<in>set rows. \<exists>p\<in>set (events (e_db e)). open_cleanup rc (e_db e) p \<and> ev_id p = cu_event row \<and>
        ev_sub p = Some (cu_sub row) \<and> ev_detail p = cu_input row"
    "distinct (map cu_event rows)"
  shows "\<exists>e'. complete_each Q now rows n e = (Inr (n + length (filter (\<lambda>row. \<not> isl (r (cu_input row))) rows)), e') \<and>
     \<not> st_degraded (e_store e') \<and>
     filter (open_cleanup rc (e_db e')) (events (e_db e')) =
       filter (\<lambda>p. open_cleanup rc (e_db e) p \<and> \<not> (\<exists>row\<in>set rows. cu_event row = ev_id p \<and> \<not> isl (r (cu_input row))))
         (events (e_db e))"
  using assms(2-5)
proof (induction rows arbitrary: n e)
  case (Cons row rows)
  obtain p0 where p0: "p0 \<in> set (events (e_db e))" "open_cleanup rc (e_db e) p0" "ev_id p0 = cu_event row"
    "ev_sub p0 = Some (cu_sub row)" "ev_detail p0 = cu_input row"
    using Cons.prems(3) by auto
  have same_id: "p = q" if "p \<in> set (events (e_db e))" "q \<in> set (events (e_db e))" "ev_id p = ev_id q" for p q
  proof -
    have "distinct (map ev_id (events (e_db e)))"
      using db_okD(10) [OF Cons.prems(2)] by (simp add: strict_sorted_iff)
    with that show ?thesis by (simp add: distinct_map inj_on_def)
  qed
  show ?case
  proof (cases "r (cu_input row)")
    case (Inl m)
    then have run: "complete_each Q now (row # rows) n e = complete_each Q now rows n e"
      by (simp add: complete_cleanup_def assms(1))
    from Cons.IH [OF Cons.prems(1,2), of n] Cons.prems(3,4) Inl show ?thesis unfolding run by auto
  next
    case (Inr out)
    let ?d' = "finish_cleanup_txn (cu_event row) (cu_sub row) now (e_db e)"
    let ?e' = "e\<lparr>e_store := (e_store e)\<lparr>st_db := ?d'\<rparr>\<rparr>"
    have tx: "run_tx (\<lambda>d. Inr ((), finish_cleanup_txn (cu_event row) (cu_sub row) now d)) e = (Inr (), ?e')"
      using Cons.prems(1) by (simp add: run_tx_def transaction_def transaction_then_def)
    have run: "complete_each Q now (row # rows) n e = complete_each Q now rows (n + 1) ?e'"
      by (simp add: complete_cleanup_def assms(1) Inr tx)
    note fin = finish_cleanup_open [OF p0(1,2,4), of now, unfolded p0(3)]
    have ok: "db_ok ?d'" using Cons.prems(2) by (simp add: finish_cleanup_txn_def)
    have still: "\<exists>p\<in>set (events ?d'). open_cleanup rc ?d' p \<and> ev_id p = cu_event row' \<and>
        ev_sub p = Some (cu_sub row') \<and> ev_detail p = cu_input row'" if "row' \<in> set rows" for row'
    proof -
      from Cons.prems(3) that obtain p where p: "p \<in> set (events (e_db e))" "open_cleanup rc (e_db e) p"
        "ev_id p = cu_event row'" "ev_sub p = Some (cu_sub row')" "ev_detail p = cu_input row'" by auto
      have "cu_event row' \<noteq> cu_event row" using Cons.prems(4) that by (auto simp: image_iff)
      with p have "p \<in> set (filter (open_cleanup rc ?d') (events ?d'))" unfolding fin by auto
      with p show ?thesis by auto
    qed
    have nd: "\<not> st_degraded (e_store ?e')" using Cons.prems(1) by simp
    from Cons.IH [of ?e' "n + 1"] nd ok still Cons.prems(4) obtain e2 where e2:
      "complete_each Q now rows (n + 1) ?e' = (Inr (n + 1 + length (filter (\<lambda>row. \<not> isl (r (cu_input row))) rows)), e2)"
      "\<not> st_degraded (e_store e2)"
      "filter (open_cleanup rc (e_db e2)) (events (e_db e2)) =
       filter (\<lambda>p. open_cleanup rc ?d' p \<and> \<not> (\<exists>row\<in>set rows. cu_event row = ev_id p \<and> \<not> isl (r (cu_input row)))) (events ?d')"
      by auto
    have "filter (\<lambda>p. open_cleanup rc ?d' p \<and> \<not> (\<exists>row\<in>set rows. cu_event row = ev_id p \<and> \<not> isl (r (cu_input row)))) (events ?d') =
       filter (\<lambda>p. \<not> (\<exists>row\<in>set rows. cu_event row = ev_id p \<and> \<not> isl (r (cu_input row)))) (filter (open_cleanup rc ?d') (events ?d'))"
      by (simp add: conj_commute)
    also have "\<dots> = filter (\<lambda>p. open_cleanup rc (e_db e) p \<and>
        \<not> (\<exists>row'\<in>set (row # rows). cu_event row' = ev_id p \<and> \<not> isl (r (cu_input row')))) (events (e_db e))"
      unfolding fin filter_filter
      by (rule filter_cong [OF refl]) (use same_id [OF _ p0(1)] p0(3,4) Inr in auto)
    finally show ?thesis unfolding run using e2 Inr by simp
  qed
qed simp

lemma dispatch_events: "dispatch g fault now a (p, d) = (r, p', d') \<Longrightarrow> events d' = events d \<and> subs d' = subs d"
  by (auto simp: dispatch_def frame_simps split: if_splits option.splits)

lemma send_alert_events: "events (e_db (send_alert Q k s t now e)) = events (e_db e) \<and> subs (e_db (send_alert Q k s t now e)) = subs (e_db e)"
  by (auto simp: send_alert_def dest: dispatch_events split: option.split prod.split)

lemma backlog_events:
  "events (e_db (alert_cleanup_backlog Q n age now e)) = events (e_db e)"
  "subs (e_db (alert_cleanup_backlog Q n age now e)) = subs (e_db e)"
  unfolding alert_cleanup_backlog_def by (rule send_alert_events [THEN conjunct1], rule send_alert_events [THEN conjunct2])

lemma open_cleanup_cong: "events d = events d' \<Longrightarrow> subs d = subs d' \<Longrightarrow> open_cleanup rc d = open_cleanup rc d'"
  by (rule ext) (simp add: open_cleanup_def cleanup_done_def split: option.split)

abbreviation open_cleanups :: "string \<Rightarrow> db \<Rightarrow> event list" where
  "open_cleanups rc d \<equiv> filter (open_cleanup rc d) (events d)"

lemma open_cleanups_distinct: "db_ok d \<Longrightarrow> distinct (map ev_id (open_cleanups rc d))"
  using db_okD(10) [of d] by (simp add: strict_sorted_iff distinct_map_filter)

lemma pending_cleanups_distinct: "db_ok d \<Longrightarrow> distinct (map cu_event (pending_cleanups rc d))"
  using open_cleanups_distinct [of d rc] by (simp add: pending_cleanups_def comp_def distinct_map)

lemma pending_cleanup_source:
  assumes "row \<in> set (pending_cleanups rc d)"
  shows "\<exists>p\<in>set (events d). open_cleanup rc d p \<and> ev_id p = cu_event row \<and>
           ev_sub p = Some (cu_sub row) \<and> ev_detail p = cu_input row"
  using assms by (fastforce simp: pending_cleanups_def open_cleanup_def split: option.splits)

lemma pending_cleanups_count:
  "length (filter (\<lambda>row. P (cu_input row)) (pending_cleanups rc d)) = length (filter (\<lambda>p. P (ev_detail p)) (open_cleanups rc d))"
  by (simp add: pending_cleanups_def filter_map comp_def filter_sort del: filter_filter)

lemma pending_cleanup_iff:
  assumes "db_ok d" "p \<in> set (events d)" "open_cleanup rc d p"
  shows "(\<exists>row\<in>set (pending_cleanups rc d). cu_event row = ev_id p \<and> P (cu_input row)) \<longleftrightarrow> P (ev_detail p)"
  using open_cleanups_distinct [OF assms(1), of rc] assms(2,3)
  by (auto simp: pending_cleanups_def distinct_map inj_on_def)

lemma recover_failed_cleanups_frame:
  assumes "complete_each Q now (pending_cleanups (rc_id (pv_recipe V)) (e_db e)) 0 e = (Inr n, e1)"
  shows "\<exists>e'. recover_failed_cleanups Q V now e = (Inr n, e') \<and> events (e_db e') = events (e_db e1) \<and> subs (e_db e') = subs (e_db e1)"
  using assms by (auto simp: recover_failed_cleanups_def backlog_events split: prod.split option.split)

text \<open>
  C15. A failed provision's cleanup is retried until it is done. One pass of the recovery runs \<open>destroy\<close> for every
  open cleanup of this recipe, with the input its intent journalled; those whose destruction succeeds are
  closed and counted, and exactly the others stay open for the next pass.
\<close>

theorem cleanup_retried_until_done:
  fixes V :: provisioner
  assumes "\<And>input e. po_hook Q ''destroy'' input e = (r input, e)" "\<not> st_degraded (e_store e)" "db_ok (e_db e)"
  defines "rc \<equiv> rc_id (pv_recipe V)"
  defines "owed \<equiv> filter (open_cleanup rc (e_db e)) (events (e_db e))"
  shows "\<exists>n e'. recover_failed_cleanups Q V now e = (Inr n, e') \<and>
     n = length (filter (\<lambda>p. \<not> isl (r (ev_detail p))) owed) \<and>
     filter (open_cleanup rc (e_db e')) (events (e_db e')) = filter (\<lambda>p. isl (r (ev_detail p))) owed"
proof -
  let ?rows = "pending_cleanups rc (e_db e)"
  obtain e1 where e1: "complete_each Q now ?rows 0 e = (Inr (0 + length (filter (\<lambda>row. \<not> isl (r (cu_input row))) ?rows)), e1)"
    "open_cleanups rc (e_db e1) =
       filter (\<lambda>p. open_cleanup rc (e_db e) p \<and> \<not> (\<exists>row\<in>set ?rows. cu_event row = ev_id p \<and> \<not> isl (r (cu_input row))))
         (events (e_db e))"
    using complete_each_open [OF assms(1-3), where rows = ?rows and rc = rc]
      pending_cleanup_source pending_cleanups_distinct [OF assms(3)] by blast
  have left: "open_cleanups rc (e_db e1) = filter (\<lambda>p. isl (r (ev_detail p))) owed"
    unfolding e1(2) owed_def filter_filter
    by (rule filter_cong [OF refl])
       (use pending_cleanup_iff [OF assms(3), of _ rc "\<lambda>i. \<not> isl (r i)"] in blast)
  from recover_failed_cleanups_frame [OF e1(1) [unfolded rc_def]] obtain e' where e':
    "recover_failed_cleanups Q V now e = (Inr (0 + length (filter (\<lambda>row. \<not> isl (r (cu_input row))) ?rows)), e')"
    "events (e_db e') = events (e_db e1)" "subs (e_db e') = subs (e_db e1)" unfolding rc_def by blast
  have "open_cleanups rc (e_db e') = filter (\<lambda>p. isl (r (ev_detail p))) owed"
    using left open_cleanup_cong [OF e'(2,3)] e'(2) by simp
  with e'(1) show ?thesis using pending_cleanups_count [of "\<lambda>i. \<not> isl (r i)" rc "e_db e"] by (simp add: owed_def)
qed

subsection \<open>A concrete order\<close>

definition sample_output :: json where
  "sample_output = JObj [(''payload'', JStr ''ok''), (''handles'', JObj [(''id'', JStr ''c1'')])]"

definition prov_ports :: "unit ports" where
  "prov_ports = sample_ports\<lparr>po_hook := \<lambda>h i e. (Inr sample_output, e)\<rparr>"

definition prov_db :: db where
  "prov_db = (sample_db [(sample_sub ''o1'' ''PROVISIONING'')\<lparr>sub_recipe := Some (rc_id sample_recipe), sub_instance := None\<rparr>]
     [(sample_invoice ''o1'' ''x1'' ''order'' ''PAID'')\<lparr>inv_settled := Some 500\<rparr>])\<lparr>reservations :=
     [\<lparr>rsv_id = ''res'', rsv_order = ''o1'', rsv_res = \<lparr>r_cpu = 1, r_mem_mb = 1, r_disk_gb = 1\<rparr>, rsv_ports = 0, rsv_state = ''HELD'',
       rsv_expires = 900, rsv_created = 0\<rparr>]\<rparr>"

definition prov_env :: "unit env" where
  "prov_env = \<lparr>e_store = \<lparr>st_db = prov_db, st_degraded = False\<rparr>, e_alerts = None, e_world = ()\<rparr>"

definition sample_provisioner :: provisioner where
  "sample_provisioner = \<lparr>pv_recipe = sample_recipe, pv_box = ''box''\<rparr>"

lemma prov_target: "\<exists>t. load_prov_target ''o1'' prov_db = Some t \<and> pt_state t = ''PROVISIONING'' \<and>
    pt_recipe t = Some (rc_id sample_recipe) \<and> pt_settled t = Some 500 \<and> pt_period t = 100"
  by (simp add: load_prov_target_def prov_db_def find_sub_def sample_defs latest_settled_def paid_order_of_def)

lemma prov_activates: "\<exists>e'. provision_drive prov_ports sample_provisioner ''o1'' 600 prov_env = (Inr ProvActive, e')"
proof -
  from prov_target obtain t where t: "load_prov_target ''o1'' (e_db prov_env) = Some t" "pt_state t = ''PROVISIONING''"
    "pt_recipe t = Some (rc_id (pv_recipe sample_provisioner))" "pt_settled t = Some 500"
    by (auto simp: prov_env_def sample_provisioner_def)
  have run: "run_provision prov_ports i provision_attempts [] i prov_env = (Inr sample_output, prov_env)" for i
    by (simp add: provision_attempts_def numeral_3_eq_3 prov_ports_def delivery_payload_def sample_output_def)
  have p: "delivery_payload sample_output = Some (JStr ''ok'')" by (simp add: delivery_payload_def sample_output_def)
  have "\<exists>e2. run_tx (active_write_txn (active_write_of sample_provisioner ''o1'' t 500 h q d 600)) prov_env = (Inr Activated, e2)" for h q d
    by (simp add: run_tx_def transaction_def transaction_then_def prov_env_def active_write_txn_def active_write_of_def Let_def
        consume_txn_def insert_instance_def insert_outbox_def reservation_journal_def insert_event_def prov_db_def sample_defs)
  then obtain e2 where x: "run_tx (active_write_txn (active_write_of sample_provisioner ''o1'' t 500 (hook_handles sample_output)
      (JStr ''ok'') (destroy_input_with_handles (provision_input sample_provisioner ''o1'' t) (hook_handles sample_output)) 600)) prov_env
      = (Inr Activated, e2)" by blast
  from drive_after_hook [OF t p run refl x] show ?thesis by simp
qed

theorem provision_outcomes_witness:
  "\<exists>e'. provision_drive prov_ports sample_provisioner ''o1'' 600 prov_env = (Inr ProvActive, e') \<and>
     (\<exists>r\<in>set (subs (e_db e')). sub_id r = ''o1'' \<and> sub_state r = ''ACTIVE'' \<and> sub_paid_through r = Some 600)"
proof -
  from prov_activates obtain e' where e': "provision_drive prov_ports sample_provisioner ''o1'' 600 prov_env = (Inr ProvActive, e')" ..
  from prov_target obtain t where t: "load_prov_target ''o1'' (e_db prov_env) = Some t" "pt_settled t = Some 500" "pt_period t = 100"
    by (auto simp: prov_env_def)
  from provision_outcomes [OF e'] obtain t' out payload settled e1 where
      h: "hook_ran prov_ports sample_provisioner ''o1'' prov_env t' (Inr out) e1" "pt_settled t' = Some settled"
    and a: "activation (active_write_of sample_provisioner ''o1'' t' settled (hook_handles out) payload
        (owed_destroy sample_provisioner ''o1'' t' (Inr out)) 600) (e_db e1) (e_db e')" by blast
  have "t' = t" "settled = 500" using h t by (auto simp: hook_ran_def)
  then have "\<exists>r\<in>set (subs (e_db e')). sub_id r = ''o1'' \<and> sub_state r = ''ACTIVE'' \<and> sub_paid_through r = Some 600"
    using a t(3) unfolding activation_def active_write_of_def
    by (auto simp: Let_def activated_row_def intro!: rev_bexI)
  with e' show ?thesis by blast
qed

text \<open>A world that counts the destructions; the property it keeps is that there were none or one was owed.\<close>

definition counting_ports :: "nat ports" where
  "counting_ports = \<lparr>po_lookup = (\<lambda>_ _ e. (Inr PsPaid, e)),
     po_hook = (\<lambda>h i e. (Inl ''down'', e\<lparr>e_world := if h = ''destroy'' \<and> \<not> claimed ''o1'' i (e_db e) then e_world e + 1 else e_world e\<rparr>)),
     po_issue = (\<lambda>_ _ _ _ e. (Inl (Bail ''down''), e)), po_digest = id, po_recipe = rc_id sample_recipe, po_price = 7\<rparr>"

definition counting_env :: "nat env" where
  "counting_env = \<lparr>e_store = \<lparr>st_db = prov_db, st_degraded = False\<rparr>, e_alerts = None, e_world = 0\<rparr>"

theorem destroy_only_when_claimed_witness:
  "e_world (snd (provision_drive counting_ports sample_provisioner ''o1'' 600 counting_env)) = 0"
proof (rule destroy_only_when_claimed [where good = "\<lambda>n. n = 0"])
  show "e_world counting_env = 0" by (simp add: counting_env_def)
qed (simp_all add: counting_ports_def)

definition owed_db :: db where
  "owed_db = insert_event (Some ''o1'') ''provision_cleanup_pending'' (JStr ''c2'') 9
     (insert_event (Some ''o1'') ''provision_cleanup_pending'' (JStr ''c1'') 8 prov_db)"

theorem cleanup_retried_until_done_witness:
  "\<exists>e'. recover_failed_cleanups (prov_ports\<lparr>po_hook := \<lambda>h i e. (if i = JStr ''c1'' then Inr JNull else Inl ''down'', e)\<rparr>)
      sample_provisioner 20 (prov_env\<lparr>e_store := \<lparr>st_db = owed_db, st_degraded = False\<rparr>\<rparr>) = (Inr 1, e') \<and>
     map ev_detail (filter (open_cleanup (rc_id sample_recipe) (e_db e')) (events (e_db e'))) = [JStr ''c2'']"
proof -
  let ?r = "\<lambda>i. if i = JStr ''c1'' then Inr JNull else Inl ''down''" and ?e = "prov_env\<lparr>e_store := \<lparr>st_db = owed_db, st_degraded = False\<rparr>\<rparr>"
  let ?Q = "prov_ports\<lparr>po_hook := \<lambda>h i e. (?r i, e)\<rparr>"
  have ok: "db_ok owed_db" by (simp add: owed_db_def) (simp add: db_ok_def prov_db_def sample_defs)
  have owed: "filter (open_cleanup (rc_id sample_recipe) (e_db ?e)) (events (e_db ?e)) = events owed_db"
    by (simp add: open_cleanup_def cleanup_done_def owed_db_def prov_db_def insert_event_def sample_defs)
  have ev: "map ev_detail (events owed_db) = [JStr ''c1'', JStr ''c2'']"
    by (simp add: owed_db_def prov_db_def insert_event_def sample_defs)
  from cleanup_retried_until_done [of ?Q ?r ?e sample_provisioner 20, unfolded sample_provisioner_def provisioner.simps owed] ok
  obtain n e' where e': "recover_failed_cleanups ?Q sample_provisioner 20 ?e = (Inr n, e')"
    "n = length (filter (\<lambda>p. \<not> isl (?r (ev_detail p))) (events owed_db))"
    "filter (open_cleanup (rc_id sample_recipe) (e_db e')) (events (e_db e')) = filter (\<lambda>p. isl (?r (ev_detail p))) (events owed_db)"
    by (auto simp: sample_provisioner_def prov_env_def)
  have "n = 1" "map ev_detail (filter (\<lambda>p. isl (?r (ev_detail p))) (events owed_db)) = [JStr ''c2'']"
    unfolding e'(2) by (simp_all add: owed_db_def prov_db_def insert_event_def sample_defs)
  with e' show ?thesis by auto
qed

end
