(* ===== verification/Outbox.thy ===== *)
theory Outbox
  imports Provision
begin

text \<open>
  The delivery of queued messages, \<open>OutboxSender\<close> and \<open>DeliveryResendOrderHandler\<close> of
  \<open>daemon/src/provision.rs\<close>: the drain of the pending rows and the resend a buyer asks for.

  Publishing a message to a recipient and the parsing of a hexadecimal key are parameters; the stored payload is
  the JSON value, so reading it back is \<open>msg_of_json\<close>.
\<close>

record 'w courier =
  co_reply :: "string \<Rightarrow> msg \<Rightarrow> 'w env \<Rightarrow> (string + string) \<times> 'w env" \<comment> \<open>\<open>Outbound::reply\<close>\<close>
  co_key :: "string \<Rightarrow> bool" \<comment> \<open>\<open>PublicKey::from_hex(..).is_ok()\<close>\<close>

subsection \<open>The rows\<close>

definition pending_rows :: "db \<Rightarrow> outbox_row list" where
  "pending_rows d = sort_key ob_created (filter (\<lambda>r. ob_state r = ''PENDING'') (outbox d))"

definition recipient_hex :: "outbox_row \<Rightarrow> string" where
  "recipient_hex r = unwrap_or (ob_recipient r) []"

text \<open>\<open>ORDER BY created_at DESC LIMIT 1\<close>.\<close>

definition latest_provision_ready :: "string \<Rightarrow> db \<Rightarrow> outbox_row option" where
  "latest_provision_ready s d =
     fold (\<lambda>r b. case b of None \<Rightarrow> Some r | Some q \<Rightarrow> if ob_created q < ob_created r then Some r else b)
       (filter (\<lambda>r. ob_sub r = Some s \<and> ob_type r = ''provision.ready'' \<and> ob_state r \<in> {''PENDING'', ''SENT''}) (outbox d)) None"

definition update_outbox :: "string \<Rightarrow> string set \<Rightarrow> (outbox_row \<Rightarrow> outbox_row) \<Rightarrow> db \<Rightarrow> db" where
  "update_outbox i states f d = d\<lparr>outbox := update_where (\<lambda>r. ob_id r = i \<and> ob_state r \<in> states) f (outbox d)\<rparr>"

definition sent_row :: "int \<Rightarrow> outbox_row \<Rightarrow> outbox_row" where
  "sent_row now r = r\<lparr>ob_state := ''SENT'', ob_sent := Some now, ob_attempts := ob_attempts r + 1\<rparr>"

definition failed_row :: "outbox_row \<Rightarrow> outbox_row" where
  "failed_row r = r\<lparr>ob_state := ''FAILED'', ob_attempts := ob_attempts r + 1\<rparr>"

definition bumped_row :: "outbox_row \<Rightarrow> outbox_row" where
  "bumped_row r = r\<lparr>ob_attempts := ob_attempts r + 1\<rparr>"

definition mark_sent_txn :: "string \<Rightarrow> int \<Rightarrow> unit tx" where
  "mark_sent_txn i now d = Inr ((), update_outbox i {''PENDING''} (sent_row now) d)"

definition mark_delivered_txn :: "string \<Rightarrow> int \<Rightarrow> unit tx" where
  "mark_delivered_txn i now d = Inr ((), update_outbox i {''PENDING'', ''SENT''} (sent_row now) d)"

definition mark_failed_txn :: "string \<Rightarrow> unit tx" where
  "mark_failed_txn i d = Inr ((), update_outbox i {''PENDING''} failed_row d)"

definition bump_attempt_txn :: "string \<Rightarrow> int tx" where
  "bump_attempt_txn i d =
     (let d' = update_outbox i {''PENDING''} bumped_row d
      in Inr (unwrap_or (map_option ob_attempts (List.find (\<lambda>r. ob_id r = i) (outbox d'))) 0, d'))"

subsection \<open>Drain and resend\<close>

fun drain_rows :: "'w courier \<Rightarrow> int \<Rightarrow> outbox_row list \<Rightarrow> nat \<Rightarrow> 'w env \<Rightarrow> (store_error + nat) \<times> 'w env" where
  "drain_rows C now [] sent e = (Inr sent, e)"
| "drain_rows C now (r # rs) sent e =
     (case (if co_key C (recipient_hex r) then msg_of_json (ob_payload r) else None) of
        None \<Rightarrow>
          (case run_tx (mark_failed_txn (ob_id r)) e of
             (Inl err, e') \<Rightarrow> (Inl err, e')
           | (Inr _, e') \<Rightarrow> drain_rows C now rs sent e')
      | Some m \<Rightarrow>
          (case co_reply C (recipient_hex r) m e of
             (Inr _, e1) \<Rightarrow>
               (case run_tx (mark_sent_txn (ob_id r) now) e1 of
                  (Inl err, e') \<Rightarrow> (Inl err, e')
                | (Inr _, e') \<Rightarrow> drain_rows C now rs (sent + 1) e')
           | (Inl _, e1) \<Rightarrow>
               (case run_tx (bump_attempt_txn (ob_id r)) e1 of
                  (Inl err, e') \<Rightarrow> (Inl err, e')
                | (Inr _, e') \<Rightarrow> drain_rows C now rs sent e')))"

definition drain_once :: "'w courier \<Rightarrow> int \<Rightarrow> 'w env \<Rightarrow> (store_error + nat) \<times> 'w env" where
  "drain_once C now e = drain_rows C now (pending_rows (e_db e)) 0 e"

definition resend_provision_ready :: "'w courier \<Rightarrow> string \<Rightarrow> string \<Rightarrow> int \<Rightarrow> 'w env \<Rightarrow> (store_error + bool) \<times> 'w env" where
  "resend_provision_ready C requester s now e =
     (case latest_provision_ready s (e_db e) of
        None \<Rightarrow> (Inr False, e)
      | Some r \<Rightarrow>
          if recipient_hex r \<noteq> requester then (Inr False, e)
          else if \<not> co_key C (recipient_hex r) then (Inl (Bail ''malformed public key''), e)
          else (case msg_of_json (ob_payload r) of
            None \<Rightarrow> (Inl (Bail ''outbox payload is not a message''), e)
          | Some m \<Rightarrow>
              (case co_reply C (recipient_hex r) m e of
                 (Inl err, e1) \<Rightarrow> (Inl (Bail err), e1)
               | (Inr _, e1) \<Rightarrow>
                   (case run_tx (mark_delivered_txn (ob_id r) now) e1 of
                      (Inl err, e2) \<Rightarrow> (Inl err, e2)
                    | (Inr _, e2) \<Rightarrow> (Inr True, e2)))))"

text \<open>\<open>DeliveryResendOrderHandler\<close>; the reply of a resend is the message it delivers itself.\<close>

definition handle_buyer_msg ::
  "'w courier \<Rightarrow> 'w ports \<Rightarrow> intake \<Rightarrow> string \<Rightarrow> msg \<Rightarrow> int \<Rightarrow> 'w env \<Rightarrow> 'w handled" where
  "handle_buyer_msg C Q K sender m now e =
     (case m of
        DeliveryResendRequest s \<Rightarrow>
          (case resend_provision_ready C sender s now e of
             (Inl err, e') \<Rightarrow> (Inl err, e')
           | (Inr _, e') \<Rightarrow> (Inr None, e'))
      | _ \<Rightarrow> handle_msg Q K sender m now e)"

subsection \<open>What a drain does\<close>

text \<open>What becomes of a pending row when \<open>ans\<close> is what publishing answers.\<close>

definition drained :: "'w courier \<Rightarrow> (string \<Rightarrow> msg \<Rightarrow> string + string) \<Rightarrow> int \<Rightarrow> outbox_row \<Rightarrow> outbox_row" where
  "drained C ans now r =
     (case (if co_key C (recipient_hex r) then msg_of_json (ob_payload r) else None) of
        None \<Rightarrow> failed_row r
      | Some m \<Rightarrow> (case ans (recipient_hex r) m of Inr _ \<Rightarrow> sent_row now r | Inl _ \<Rightarrow> bumped_row r))"

definition delivered :: "'w courier \<Rightarrow> (string \<Rightarrow> msg \<Rightarrow> string + string) \<Rightarrow> outbox_row \<Rightarrow> bool" where
  "delivered C ans r \<longleftrightarrow>
     (case (if co_key C (recipient_hex r) then msg_of_json (ob_payload r) else None) of
        None \<Rightarrow> False
      | Some m \<Rightarrow> \<not> isl (ans (recipient_hex r) m))"

lemma row_sel [simp]:
  "ob_id (sent_row now r) = ob_id r" "ob_id (failed_row r) = ob_id r" "ob_id (bumped_row r) = ob_id r"
  by (simp_all add: sent_row_def failed_row_def bumped_row_def)

lemma drained_id [simp]: "ob_id (drained C ans now r) = ob_id r"
  by (simp add: drained_def split: option.split sum.split)

lemma update_outbox_one:
  assumes "distinct (map ob_id (outbox d))" "x \<in> set (outbox d)" "ob_state x = ''PENDING''"
  shows "outbox (update_outbox (ob_id x) {''PENDING''} f d) = map (\<lambda>r. if r = x then f x else r) (outbox d)"
proof -
  have "r = x" if "r \<in> set (outbox d)" "ob_id r = ob_id x" for r
    using assms that by (simp add: distinct_map inj_on_def)
  then show ?thesis using assms(3) by (auto simp: update_outbox_def update_where_def intro: map_cong)
qed

lemma drain_rows_result:
  assumes quiet: "\<And>k m e. co_reply C k m e = (ans k m, e)"
    and nd: "\<not> st_degraded (e_store e)"
    and dist: "distinct (map ob_id (outbox (e_db e)))" and sub: "set rs \<subseteq> set (outbox (e_db e))"
    and pend: "\<And>r. r \<in> set rs \<Longrightarrow> ob_state r = ''PENDING''" and drs: "distinct (map ob_id rs)"
  shows "\<exists>e'. drain_rows C now rs n e = (Inr (n + length (filter (delivered C ans) rs)), e') \<and>
     outbox (e_db e') = map (\<lambda>r. if r \<in> set rs then drained C ans now r else r) (outbox (e_db e))"
  using nd dist sub pend drs
proof (induction rs arbitrary: n e)
  case (Cons x rs)
  have x: "x \<in> set (outbox (e_db e))" "ob_state x = ''PENDING''" using Cons.prems by simp_all
  define e1 where "e1 = e\<lparr>e_store := (e_store e)\<lparr>st_db := (e_db e)\<lparr>outbox :=
    map (\<lambda>r. if r = x then drained C ans now x else r) (outbox (e_db e))\<rparr>\<rparr>\<rparr>"
  have upd: "update_outbox (ob_id x) {''PENDING''} f (e_db e) =
      (e_db e)\<lparr>outbox := map (\<lambda>r. if r = x then f x else r) (outbox (e_db e))\<rparr>" for f
    using update_outbox_one [OF Cons.prems(2) x, of f] by (simp add: update_outbox_def)
  have run: "drain_rows C now (x # rs) n e = drain_rows C now rs (if delivered C ans x then n + 1 else n) e1"
  proof -
    let ?m = "if co_key C (recipient_hex x) then msg_of_json (ob_payload x) else None"
    have tx: "run_tx (\<lambda>d. Inr (g d, update_outbox (ob_id x) {''PENDING''} f d)) e = (Inr (g (e_db e)), e\<lparr>e_store := (e_store e)
        \<lparr>st_db := (e_db e)\<lparr>outbox := map (\<lambda>r. if r = x then f x else r) (outbox (e_db e))\<rparr>\<rparr>\<rparr>)" for f and g :: "db \<Rightarrow> 'c"
      using Cons.prems(1) by (simp add: run_tx_def transaction_def transaction_then_def upd)
    have txns: "mark_failed_txn i = (\<lambda>d. Inr ((), update_outbox i {''PENDING''} failed_row d))"
      "mark_sent_txn i now = (\<lambda>d. Inr ((), update_outbox i {''PENDING''} (sent_row now) d))"
      "bump_attempt_txn i = (\<lambda>d. Inr (unwrap_or (map_option ob_attempts (List.find (\<lambda>r. ob_id r = i)
          (outbox (update_outbox i {''PENDING''} bumped_row d)))) 0, update_outbox i {''PENDING''} bumped_row d))" for i
      by (auto simp: mark_failed_txn_def mark_sent_txn_def bump_attempt_txn_def Let_def)
    show ?thesis
    proof (cases ?m)
      case None
      then have dr: "drained C ans now x = failed_row x" and dl: "\<not> delivered C ans x" by (simp_all add: drained_def delivered_def)
      show ?thesis unfolding e1_def dr drain_rows.simps None using dl by (simp add: txns tx)
    next
      case (Some m)
      show ?thesis
      proof (cases "ans (recipient_hex x) m")
        case (Inl err)
        with Some have dr: "drained C ans now x = bumped_row x" and dl: "\<not> delivered C ans x" by (simp_all add: drained_def delivered_def)
        show ?thesis unfolding e1_def dr drain_rows.simps Some using dl by (simp add: txns tx quiet Inl)
      next
        case (Inr i)
        with Some have dr: "drained C ans now x = sent_row now x" and dl: "delivered C ans x" by (simp_all add: drained_def delivered_def)
        show ?thesis unfolding e1_def dr drain_rows.simps Some using dl by (simp add: txns tx quiet Inr)
      qed
    qed
  qed
  have ids: "map ob_id (outbox (e_db e1)) = map ob_id (outbox (e_db e))" by (simp add: e1_def comp_def if_distrib cong: if_cong)
  have new: "r \<noteq> x \<and> drained C ans now x \<noteq> r" if "r \<in> set rs" for r
  proof -
    have "ob_id r \<noteq> ob_id x" using Cons.prems(5) that by (auto simp: image_iff)
    then show ?thesis by auto
  qed
  have sub1: "set rs \<subseteq> set (outbox (e_db e1))" using Cons.prems(3) new by (force simp: e1_def)
  have nd1: "\<not> st_degraded (e_store e1)" using Cons.prems(1) by (simp add: e1_def)
  have dist1: "distinct (map ob_id (outbox (e_db e1)))" unfolding ids by (rule Cons.prems(2))
  have pend1: "ob_state r = ''PENDING''" if "r \<in> set rs" for r using Cons.prems(4) that by simp
  have drs1: "distinct (map ob_id rs)" using Cons.prems(5) by simp
  from Cons.IH [OF nd1 dist1 sub1 pend1 drs1, of "if delivered C ans x then n + 1 else n"]
  obtain e' where e': "drain_rows C now rs (if delivered C ans x then n + 1 else n) e1 =
      (Inr ((if delivered C ans x then n + 1 else n) + length (filter (delivered C ans) rs)), e')"
    "outbox (e_db e') = map (\<lambda>r. if r \<in> set rs then drained C ans now r else r) (outbox (e_db e1))"
    by blast
  have "map (\<lambda>r. if r \<in> set rs then drained C ans now r else r) (outbox (e_db e1)) =
      map (\<lambda>r. if r \<in> set (x # rs) then drained C ans now r else r) (outbox (e_db e))"
    using new by (auto simp: e1_def comp_def)
  with e' run show ?case by auto
qed simp

text \<open>
  The outbox delivers or says why not. A drain goes over every pending row once: a row whose recipient is no key or
  whose payload is no message is set aside as FAILED, a row that was published becomes SENT with its time,
  and every other row stays PENDING for the next drain with one more attempt counted; rows that are not
  pending are not touched, and the count it returns is the number it published. A resend publishes nothing
  and writes nothing unless the one who asks is the buyer the delivery was queued for.
\<close>

theorem outbox_drained:
  assumes "\<And>k m e. co_reply C k m e = (ans k m, e)" "\<not> st_degraded (e_store e)" "db_ok (e_db e)"
  shows "(\<exists>e'. drain_once C now e = (Inr (length (filter (delivered C ans) (filter (\<lambda>r. ob_state r = ''PENDING'') (outbox (e_db e))))), e') \<and>
      outbox (e_db e') = map (\<lambda>r. if ob_state r = ''PENDING'' then drained C ans now r else r) (outbox (e_db e))) \<and>
    (\<forall>requester s. (\<forall>r. latest_provision_ready s (e_db e) = Some r \<longrightarrow> recipient_hex r \<noteq> requester) \<longrightarrow>
      resend_provision_ready C requester s now e = (Inr False, e))"
proof
  let ?P = "filter (\<lambda>r. ob_state r = ''PENDING'') (outbox (e_db e))"
  have dist: "distinct (map ob_id (outbox (e_db e)))" using db_okD(7) [OF assms(3)] .
  then have "distinct (map ob_id ?P)" by (rule distinct_map_filter)
  then have "distinct (map ob_id (pending_rows (e_db e)))" by (simp add: pending_rows_def distinct_map)
  moreover have "set (pending_rows (e_db e)) \<subseteq> set (outbox (e_db e))"
    "\<And>r. r \<in> set (pending_rows (e_db e)) \<Longrightarrow> ob_state r = ''PENDING''" by (auto simp: pending_rows_def)
  ultimately obtain e' where e': "drain_rows C now (pending_rows (e_db e)) 0 e =
      (Inr (0 + length (filter (delivered C ans) (pending_rows (e_db e)))), e')"
    "outbox (e_db e') = map (\<lambda>r. if r \<in> set (pending_rows (e_db e)) then drained C ans now r else r) (outbox (e_db e))"
    using drain_rows_result [of C ans e "pending_rows (e_db e)" now 0] assms(1,2) dist by blast
  have "length (filter (delivered C ans) (pending_rows (e_db e))) = length (filter (delivered C ans) ?P)"
    by (simp add: pending_rows_def filter_sort)
  moreover have "outbox (e_db e') = map (\<lambda>r. if ob_state r = ''PENDING'' then drained C ans now r else r) (outbox (e_db e))"
    unfolding e'(2) by (rule map_cong [OF refl]) (auto simp: pending_rows_def)
  ultimately show "\<exists>e'. drain_once C now e = (Inr (length (filter (delivered C ans) ?P)), e') \<and>
      outbox (e_db e') = map (\<lambda>r. if ob_state r = ''PENDING'' then drained C ans now r else r) (outbox (e_db e))"
    using e'(1) by (auto simp: drain_once_def)
  show "\<forall>requester s. (\<forall>r. latest_provision_ready s (e_db e) = Some r \<longrightarrow> recipient_hex r \<noteq> requester) \<longrightarrow>
      resend_provision_ready C requester s now e = (Inr False, e)"
    by (auto simp: resend_provision_ready_def split: option.split)
qed

subsection \<open>A concrete outbox\<close>

definition queued :: "string \<Rightarrow> string \<Rightarrow> json \<Rightarrow> string \<Rightarrow> outbox_row" where
  "queued i recipient payload state = \<lparr>ob_id = i, ob_recipient = Some recipient, ob_sub = Some ''o1'',
     ob_type = ''provision.ready'', ob_payload = payload, ob_state = state, ob_attempts = 0, ob_created = 5, ob_sent = None\<rparr>"

definition outbox_env :: "unit env" where
  "outbox_env = \<lparr>e_store = \<lparr>st_db = empty_db\<lparr>outbox :=
       [queued ''a'' ''b0'' (provision_ready_json ''o1'' (JStr ''ok'')) ''PENDING'', queued ''b'' ''b0'' JNull ''PENDING'',
        queued ''c'' ''b1'' (provision_ready_json ''o1'' (JStr ''ok'')) ''PENDING'', queued ''d'' ''b0'' JNull ''SENT'']\<rparr>,
     st_degraded = False\<rparr>, e_alerts = None, e_world = ()\<rparr>"

definition sample_answer :: "string \<Rightarrow> msg \<Rightarrow> string + string" where
  "sample_answer k m = (if k = ''b0'' then Inr ''ev'' else Inl ''no relay'')"

definition sample_courier :: "unit courier" where
  "sample_courier = \<lparr>co_reply = (\<lambda>k m e. (sample_answer k m, e)), co_key = (\<lambda>_. True)\<rparr>"

theorem outbox_drained_witness:
  "\<exists>e'. drain_once sample_courier 30 outbox_env = (Inr 1, e') \<and>
     map (\<lambda>r. (ob_state r, ob_attempts r)) (outbox (e_db e')) =
       [(''SENT'', 1), (''FAILED'', 1), (''PENDING'', 1), (''SENT'', 0)]"
proof -
  have quiet: "co_reply sample_courier k m e = (sample_answer k m, e)" for k m e by (simp add: sample_courier_def)
  have ok: "db_ok (e_db outbox_env)" by (simp add: db_ok_def outbox_env_def empty_db_def queued_def)
  have nd: "\<not> st_degraded (e_store outbox_env)" by (simp add: outbox_env_def)
  have m: "msg_of_json (provision_ready_json ''o1'' (JStr ''ok'')) = Some (ProvisionReady ''o1'' (JStr ''ok''))"
    "msg_of_json JNull = None"
    by (simp_all add: provision_ready_json_def msg_of_json_def msg_json_def json_getters)
  let ?P = "filter (\<lambda>r. ob_state r = ''PENDING'') (outbox (e_db outbox_env))"
  from outbox_drained [OF quiet nd ok, of 30] obtain e' where e':
    "drain_once sample_courier 30 outbox_env = (Inr (length (filter (delivered sample_courier sample_answer) ?P)), e')"
    "outbox (e_db e') = map (\<lambda>r. if ob_state r = ''PENDING'' then drained sample_courier sample_answer 30 r else r)
       (outbox (e_db outbox_env))" by blast
  have "length (filter (delivered sample_courier sample_answer) ?P) = 1"
    by (simp add: outbox_env_def queued_def delivered_def sample_courier_def recipient_hex_def m sample_answer_def)
  moreover have "map (\<lambda>r. (ob_state r, ob_attempts r)) (outbox (e_db e')) =
       [(''SENT'', 1), (''FAILED'', 1), (''PENDING'', 1), (''SENT'', 0)]"
    unfolding e'(2) by (simp add: outbox_env_def queued_def drained_def sample_courier_def recipient_hex_def m sample_answer_def
        sent_row_def failed_row_def bumped_row_def)
  ultimately show ?thesis using e'(1) by auto
qed

end
