(* ===== verification/Ipc.thy ===== *)
theory Ipc
  imports Operator
begin

text \<open>
  The operator's socket, \<open>daemon/src/ipc.rs\<close>: the dispatch of a request, one connection, the accept
  loop with its shutdown drain, and the publication of the socket file. What the daemon calls (the
  backend, the relays, the probes, JSON parsing) is the record \<open>P\<close>.
\<close>

subsection \<open>Dispatch\<close>

record 'w ipc_ports =
  ip_recipes :: "recipe list"
  ip_relay :: "'w relay option"
  ip_relays :: "relay_row list" \<comment> \<open>the snapshot in \<open>RelayStatusCell\<close>\<close>
  ip_net :: net
  ip_answers :: "'w \<Rightarrow> readiness_answers"
  ip_unbookable :: bool \<comment> \<open>\<open>reports_unbookable_settlements\<close>\<close>
  ip_balance :: "'w \<Rightarrow> (store_error + nat option) \<times> 'w" \<comment> \<open>\<open>available_balance_msat\<close>\<close>
  ip_sweep :: "'w sweep_backend"
  ip_probes :: probes
  ip_token :: "string option"
  ip_settle :: "string \<Rightarrow> int \<Rightarrow> 'w \<Rightarrow> (string + unit) \<times> 'w"
  ip_dev :: bool \<comment> \<open>\<open>LNRENT_DEV=1\<close>\<close>
  ip_alerts :: bool
  ip_meanwhile :: "'w desk \<Rightarrow> 'w desk" \<comment> \<open>what the other tasks do while a publish probes\<close>

definition desk_env :: "'w desk \<Rightarrow> 'w env" where
  "desk_env k = \<lparr>e_store = dk_store k, e_alerts = None, e_world = dk_world k\<rparr>"

definition put_env :: "'w env \<Rightarrow> 'w desk \<Rightarrow> 'w desk" where
  "put_env e k = k\<lparr>dk_store := e_store e, dk_world := e_world e\<rparr>"

definition status_reply :: "'w ipc_ports \<Rightarrow> int \<Rightarrow> 'w desk \<Rightarrow> reply" where
  "status_reply P now k =
     (let d = dk_db k
      in reply_ok (JObj (insert_all (unbookable_view now (ip_alerts P) (ip_unbookable P) (dk_store k))
        [(''daemon'', JStr ''ok''), (''recipes'', json_nat (length (ip_recipes P))),
         (''subscriptions'', json_nat (length (subs d))),
         (''open_teardowns'', json_nat (open_count d + fst (open_cleanups_summary (first_recipe_id (ip_recipes P)) d))),
         (''relays_total'', json_nat (length (ip_relays P))),
         (''relays_connected'', json_nat (count_where rw_connected (ip_relays P))),
         (''listing'', listing_view (ip_recipes P) (map_option rl_pubkey (ip_relay P)) d)])))"

definition json_fields :: "json \<Rightarrow> (string \<times> json) list" where
  "json_fields j = (case j of JObj kvs \<Rightarrow> kvs | _ \<Rightarrow> [])"

definition money_reply :: "'w ipc_ports \<Rightarrow> int \<Rightarrow> 'w desk \<Rightarrow> reply" where
  "money_reply P now k =
     (let A = ip_answers P (dk_world k); probe = query_probe A
      in case report_with_probe (ip_net P) A probe (dk_db k) of
           Inl e \<Rightarrow> internal e
         | Inr report \<Rightarrow>
             (case money_sweep_view (dk_db k) of
                Inl e \<Rightarrow> internal e
              | Inr sweep \<Rightarrow> reply_ok (JObj
                  (insert_all (unbookable_view now (ip_alerts P) (ip_unbookable P) (dk_store k))
                    (insert_all [(''degraded_read_only'', JBool (st_degraded (dk_store k)))]
                      (insert_all (json_fields sweep)
                        (money_value report (rp_gateway_ok probe) (rp_root_ok probe))))))))"

definition reconcile_reply :: "'w ipc_ports \<Rightarrow> 'w desk \<Rightarrow> reply \<times> 'w desk" where
  "reconcile_reply P k =
     (case expected_msat (an_status (ip_answers P (dk_world k))) (dk_db k) of
        Inl e \<Rightarrow> (internal e, k)
      | Inr expected \<Rightarrow>
          (case ip_balance P (dk_world k) of
             (Inr (Some wallet), w) \<Rightarrow>
               (reply_ok (JObj [(''wallet_msat'', json_nat wallet), (''expected_msat'', json_nat expected),
                  (''verdict'', JStr (if expected \<le> wallet then ''OK'' else ''DRIFT''))]), k\<lparr>dk_world := w\<rparr>)
           | (Inr None, w) \<Rightarrow>
               (reply_ok (JObj [(''wallet_msat'', JNull), (''expected_msat'', json_nat expected),
                  (''verdict'', JStr ''UNKNOWN'')]), k\<lparr>dk_world := w\<rparr>)
           | (Inl e, w) \<Rightarrow> (reply_err ''internal'' (''wallet balance query failed: '' @ err_text e), k\<lparr>dk_world := w\<rparr>)))"

definition quote_reply :: "'w ipc_ports \<Rightarrow> string \<Rightarrow> int \<Rightarrow> 'w desk \<Rightarrow> reply \<times> 'w desk" where
  "quote_reply P b now k =
     (case sweep_quote (ip_sweep P) b now (desk_env k) of
        (Inl e, e1) \<Rightarrow> (reply_err (sweep_code e) (sweep_message e), put_env e1 k)
      | (Inr q, e1) \<Rightarrow>
          (reply_ok (JObj [(''amount_sat'', json_nat (qv_amount q)), (''outlay_msat'', json_nat (qv_outlay q)),
             (''earned_msat'', json_nat (su_earned (qv_surplus q))), (''reserved_msat'', json_nat (su_reserved (qv_surplus q))),
             (''paid_out_msat'', json_nat (su_paid_out (qv_surplus q))),
             (''surplus_msat'', json_nat (surplus_msat (qv_surplus q))),
             (''verdict'', JStr (if qv_allow q then ''ALLOW'' else ''REFUSE''))]), put_env e1 k))"

definition sweep_reply :: "'w ipc_ports \<Rightarrow> string \<Rightarrow> int \<Rightarrow> 'w desk \<Rightarrow> reply \<times> 'w desk" where
  "sweep_reply P b now k =
     (case sweep_execute (ip_sweep P) b now (desk_env k) of
        (Inl e, e1, _) \<Rightarrow> (reply_err (sweep_code e) (sweep_message e), put_env e1 k)
      | (Inr x, e1, _) \<Rightarrow>
          (reply_ok (JObj [(''id'', JStr (xo_id x)), (''amount_sat'', json_nat (xo_amount x)),
             (''max_outlay_msat'', json_nat (xo_outlay x)), (''status'', JStr (xo_status x)),
             (''backend_payment_id'', json_of_text (xo_payment x)), (''swept'', JBool True),
             (''cached'', JBool (xo_cached x))]), put_env e1 k))"

definition listing_publish_reply :: "'w ipc_ports \<Rightarrow> bool \<Rightarrow> int \<Rightarrow> 'w desk \<Rightarrow> reply \<times> 'w desk" where
  "listing_publish_reply P accept now k =
     (case ip_relay P of
        None \<Rightarrow> (reply_err ''unsupported'' ''this daemon has no Nostr engine wired, so it cannot publish a listing'', k)
      | Some L \<Rightarrow>
          (case publish L (ip_recipes P) accept (ip_probes P) (ip_token P) (ip_meanwhile P) now k of
             (Inr x, k') \<Rightarrow> (publish_reply x, k')
           | (Inl e, k') \<Rightarrow> (reply_err ''internal'' (err_text e), k')))"

definition listing_withdraw_reply :: "'w ipc_ports \<Rightarrow> int \<Rightarrow> 'w desk \<Rightarrow> reply \<times> 'w desk" where
  "listing_withdraw_reply P now k =
     (case ip_relay P of
        None \<Rightarrow> (reply_err ''unsupported''
                  ''this daemon has no Nostr engine wired, so it has no listing to withdraw'', k)
      | Some L \<Rightarrow>
          (case withdraw L (ip_recipes P) now k of
             (Inr x, k') \<Rightarrow> (withdraw_reply x, k')
           | (Inl e, k') \<Rightarrow> (reply_err ''internal'' (err_text e), k')))"

definition sub_reply :: "string \<Rightarrow> db \<Rightarrow> reply" where
  "sub_reply i d = (case query_sub i d of
     Some v \<Rightarrow> reply_ok v | None \<Rightarrow> reply_err ''not_found'' (''no subscription '' @ quoted i))"

fun ipc_dispatch :: "'w ipc_ports \<Rightarrow> request \<Rightarrow> int \<Rightarrow> 'w desk \<Rightarrow> reply \<times> 'w desk" where
  "ipc_dispatch P RqStatus now k = (status_reply P now k, k)"
| "ipc_dispatch P (RqListingPublish a) now k = listing_publish_reply P a now k"
| "ipc_dispatch P RqListingWithdraw now k = listing_withdraw_reply P now k"
| "ipc_dispatch P RqRelays now k = (reply_ok (JArr (map relay_json (ip_relays P))), k)"
| "ipc_dispatch P RqRecipes now k = (reply_ok (JArr (map recipe_view (ip_recipes P))), k)"
| "ipc_dispatch P RqMoney now k = (money_reply P now k, k)"
| "ipc_dispatch P RqReconcile now k = reconcile_reply P k"
| "ipc_dispatch P RqPreflight now k = (reply_ok (preflight_report (ip_probes P) (ip_recipes P) (ip_token P)), k)"
| "ipc_dispatch P RqSubs now k = (reply_ok (JArr (query_subs (dk_db k))), k)"
| "ipc_dispatch P (RqSub i) now k = (sub_reply i (dk_db k), k)"
| "ipc_dispatch P RqTeardowns now k = (reply_ok (teardowns_view (ip_recipes P) now (dk_db k)), k)"
| "ipc_dispatch P RqRefunds now k = (reply_ok (JArr (query_refunds (ip_net P) now (dk_db k))), k)"
| "ipc_dispatch P (RqRefundRetry i) now k = refund_retry i now k"
| "ipc_dispatch P (RqClearFence i n) now k = migration_clear_fence i n now k"
| "ipc_dispatch P (RqSweepQuote b) now k = quote_reply P b now k"
| "ipc_dispatch P (RqSweep b) now k = sweep_reply P b now k"
| "ipc_dispatch P (RqAdminSuspend i) now k = admin_transition i [''ACTIVE''] ''SUSPENDED'' ''admin_suspend'' now k"
| "ipc_dispatch P (RqAdminResume i) now k = admin_transition i [''SUSPENDED''] ''ACTIVE'' ''admin_resume'' now k"
| "ipc_dispatch P (RqDevSettle s) now k = dev_settle_subscription (ip_dev P) (ip_settle P) s now k"

subsection \<open>One connection\<close>

definition peer_allowed :: "nat \<Rightarrow> nat \<Rightarrow> bool" where
  "peer_allowed peer daemon \<longleftrightarrow> peer = daemon \<or> peer = 0"

definition max_request_bytes :: nat where "max_request_bytes = 2 ^ 18"

text \<open>
  What the bounded read yields; the reader stops at \<open>max_request_bytes\<close> bytes. The reply to a line that serde
  rejects leaves out the parser's own detail.
\<close>

datatype request_read = ReadTimedOut | ReadFailed | ReadLine string

definition shutting_down_reply :: reply where
  "shutting_down_reply = \<lparr>re_ok = False, re_data = None, re_error = Some \<lparr>ie_code = ''shutting_down'',
     ie_message = ''daemon is shutting down; read-only request aborted, retry after restart'', ie_retryable = True\<rparr>\<rparr>"

definition frame_request :: "(string \<Rightarrow> json option) \<Rightarrow> request_read \<Rightarrow> reply option + request" where
  "frame_request parse r =
     (case r of
        ReadTimedOut \<Rightarrow> Inl (Some (reply_err ''bad_request'' ''request read timed out''))
      | ReadFailed \<Rightarrow> Inl None
      | ReadLine l \<Rightarrow>
          (let line = take max_request_bytes l
           in if line = [] \<or> last line \<noteq> CHR 0x0A
              then Inl (Some (reply_err ''bad_request'' ''request too large or unterminated''))
              else (case Option.bind (parse (str_trim line)) request_of_json of
                      None \<Rightarrow> Inl (Some (reply_err ''bad_request'' ''invalid request''))
                    | Some rq \<Rightarrow> Inr rq)))"

text \<open>
  \<open>cancelled\<close> is the world a read-only dispatch left behind when the shutdown token fired before it
  finished; a mutating request ignores the token.
\<close>

definition serve_request ::
  "'w ipc_ports \<Rightarrow> 'w option \<Rightarrow> request \<Rightarrow> int \<Rightarrow> 'w desk \<Rightarrow> reply \<times> 'w desk" where
  "serve_request P cancelled rq now k =
     (if is_mutating rq then ipc_dispatch P rq now k
      else (case cancelled of
              None \<Rightarrow> ipc_dispatch P rq now k
            | Some w \<Rightarrow> (shutting_down_reply, k\<lparr>dk_world := w\<rparr>)))"

definition handle_conn ::
  "'w ipc_ports \<Rightarrow> (string \<Rightarrow> json option) \<Rightarrow> 'w option \<Rightarrow> request_read \<Rightarrow> int \<Rightarrow> 'w desk \<Rightarrow> reply option \<times> 'w desk" where
  "handle_conn P parse cancelled r now k =
     (case frame_request parse r of
        Inl bad \<Rightarrow> (bad, k)
      | Inr rq \<Rightarrow> (case serve_request P cancelled rq now k of (x, k') \<Rightarrow> (Some x, k')))"

subsection \<open>The socket file\<close>

definition max_sun_path_bytes :: nat where "max_sun_path_bytes = 107"
definition name_space :: nat where "name_space = 2 ^ 24"

text \<open>\<open>create_staging_dir\<close>: \<open>n\<close> attempts from the counter \<open>s\<close>; \<open>taken\<close> are the existing names.\<close>

fun staging_from :: "(nat \<Rightarrow> bool) \<Rightarrow> nat \<Rightarrow> nat \<Rightarrow> nat option" where
  "staging_from taken s 0 = None"
| "staging_from taken s (Suc n) =
     (if taken (s mod name_space) then staging_from taken (s + 1) n else Some (s mod name_space))"

definition create_staging_dir :: "(nat \<Rightarrow> bool) \<Rightarrow> nat \<Rightarrow> nat option" where
  "create_staging_dir taken s = staging_from taken s name_space"

record inode =
  in_socket :: bool
  in_mode :: nat
  in_uid :: nat

definition safe_stale_socket :: "nat \<Rightarrow> inode \<Rightarrow> bool" where
  "safe_stale_socket daemon m \<longleftrightarrow> in_socket m \<and> in_mode m mod 512 = 384 \<and> in_uid m = daemon"

text \<open>
  \<open>bind_owner_only\<close> over the entry at the final path. The staged socket is created owner-only in a
  private directory; an unsafe entry is unlinked, then the rename publishes the socket. The result
  lists what a client can find at the path, in order.
\<close>

definition staged_socket :: "nat \<Rightarrow> inode" where
  "staged_socket daemon = \<lparr>in_socket = True, in_mode = 384, in_uid = daemon\<rparr>"

definition bind_owner_only :: "(nat \<Rightarrow> bool) \<Rightarrow> nat \<Rightarrow> nat \<Rightarrow> nat \<Rightarrow> inode option \<Rightarrow> string + inode option list" where
  "bind_owner_only taken seq path_len daemon stale =
     (if max_sun_path_bytes < path_len then Inl ''longer than the 107-byte unix socket limit; use a shorter data dir''
      else if create_staging_dir taken seq = None then Inl ''all private ipc staging names are occupied''
      else Inr (stale # (case stale of
                  None \<Rightarrow> []
                | Some m \<Rightarrow> if safe_stale_socket daemon m then [] else [None]) @ [Some (staged_socket daemon)]))"

subsection \<open>The accept loop\<close>

datatype conn = Reading | Serving request | Replied "reply option"

datatype ipc_phase = Accepting | Draining | Stopped

record 'w server =
  sv_phase :: ipc_phase
  sv_conns :: "conn list"
  sv_desk :: "'w desk"

text \<open>
  A step of \<open>serve_with_shutdown\<close> and the handlers it spawned: a peer is accepted, the read of a
  connection ends, a request is answered (by its dispatch, or by the cancellation of a read-only one
  once the shutdown token fired), the shutdown is observed, and the loop returns when every handler
  has finished.
\<close>

inductive server_step :: "'w ipc_ports \<Rightarrow> (string \<Rightarrow> json option) \<Rightarrow> nat \<Rightarrow> 'w server \<Rightarrow> 'w server \<Rightarrow> bool"
  for P parse daemon where
  accept: "sv_phase s = Accepting \<Longrightarrow> peer_allowed peer daemon \<Longrightarrow>
     server_step P parse daemon s (s\<lparr>sv_conns := sv_conns s @ [Reading]\<rparr>)"
| bad_frame: "i < length (sv_conns s) \<Longrightarrow> sv_conns s ! i = Reading \<Longrightarrow> frame_request parse r = Inl bad \<Longrightarrow>
     server_step P parse daemon s (s\<lparr>sv_conns := (sv_conns s)[i := Replied bad]\<rparr>)"
| request: "i < length (sv_conns s) \<Longrightarrow> sv_conns s ! i = Reading \<Longrightarrow> frame_request parse r = Inr rq \<Longrightarrow>
     server_step P parse daemon s (s\<lparr>sv_conns := (sv_conns s)[i := Serving rq]\<rparr>)"
| answer: "i < length (sv_conns s) \<Longrightarrow> sv_conns s ! i = Serving rq \<Longrightarrow>
     (cancelled \<noteq> None \<longrightarrow> sv_phase s = Draining) \<Longrightarrow> serve_request P cancelled rq now (sv_desk s) = (x, k) \<Longrightarrow>
     server_step P parse daemon s (s\<lparr>sv_conns := (sv_conns s)[i := Replied (Some x)], sv_desk := k\<rparr>)"
| other: "server_step P parse daemon s (s\<lparr>sv_desk := k\<rparr>)" \<comment> \<open>the other tasks of the daemon\<close>
| shutdown: "sv_phase s = Accepting \<Longrightarrow> server_step P parse daemon s (s\<lparr>sv_phase := Draining\<rparr>)"
| stop: "sv_phase s = Draining \<Longrightarrow> \<forall>c\<in>set (sv_conns s). \<exists>x. c = Replied x \<Longrightarrow>
     server_step P parse daemon s (s\<lparr>sv_phase := Stopped\<rparr>)"

definition server_start :: "'w desk \<Rightarrow> 'w server" where
  "server_start k = \<lparr>sv_phase = Accepting, sv_conns = [], sv_desk = k\<rparr>"

inductive server_run :: "'w ipc_ports \<Rightarrow> (string \<Rightarrow> json option) \<Rightarrow> nat \<Rightarrow> 'w desk \<Rightarrow> 'w server list \<Rightarrow> bool"
  for P parse daemon k where
  start: "server_run P parse daemon k [server_start k]"
| step: "server_run P parse daemon k (ss @ [s]) \<Longrightarrow> server_step P parse daemon s s' \<Longrightarrow>
     server_run P parse daemon k (ss @ [s, s'])"

end
