(* ===== verification/Operator_Props.thy ===== *)
theory Operator_Props
  imports Ipc Refund_Commits Sweep_Props Order_Props
begin

text \<open>
  What the operator's commands guarantee: a request survives its JSON form, a request classified
  read-only commits nothing, a retried refund can be reported to its buyer, a fence is lifted from one
  attempt only, an unpublished listing takes no order, the shutdown drain loses no mutating request,
  and the socket is never published looser than owner-only.
\<close>

subsection \<open>Requests\<close>

text \<open>
  What the CLI sends is what the daemon reads: every request, encoded as the tagged JSON object,
  decodes to itself, so no field is lost and no command is taken for another.
\<close>

theorem request_roundtrip: "request_of_json (request_json rq) = Some rq"
  by (cases rq) (simp_all add: request_of_json_def plain_request_def text_request_def cmd_def json_bool_def)

lemma run_world [simp]: "e_store (snd (on_world f e)) = e_store e"
  by (simp add: on_world_def split: prod.split)

lemma on_world_store: "on_world f e = (x, e') \<Longrightarrow> e_store e' = e_store e"
  using run_world [of f e] by simp

lemma sweep_quote_store: "sweep_quote B b now e = (r, e') \<Longrightarrow> e_store e' = e_store e"
  by (auto simp: sweep_quote_def quote_outlay_def dest: on_world_store split: sum.splits prod.splits)

text \<open>
  C20. A read-only request commits nothing: dispatching any request the drain may cancel leaves the
  store and the withdrawal epoch as they were, whatever the backend, the probes and the relays answer;
  so dropping it half way loses no durable write.
\<close>

theorem readonly_commits_nothing:
  assumes "\<not> is_mutating rq" and "ipc_dispatch P rq now k = (x, k')"
  shows "dk_store k' = dk_store k \<and> dk_epoch k' = dk_epoch k"
  using assms
  by (cases rq) (auto simp: reconcile_reply_def quote_reply_def put_env_def desk_env_def
      dest: sweep_quote_store split: sum.splits prod.splits option.splits)

subsection \<open>Retrying a refund\<close>

lemma release_outbox [simp]: "outbox (snd (release_txn s now d)) = outbox d"
  by (simp add: release_txn_def reservation_journal_def frame_simps Let_def)

lemma close_refunded_outbox [simp]: "outbox (close_refunded_sub s now d) = outbox d"
  by (simp add: close_refunded_sub_def Let_def split: option.split)

lemma commit_sent_notice:
  assumes run: "commit_sent_txn row pid paid now d = Inr (moved, d')"
    and r: "r \<in> set (refunds d)" "rf_id r = rr_id row" "rf_status r = ''PENDING''"
    and free: "\<forall>b\<in>set (outbox d). ob_id b \<noteq> ''outbox:refund:'' @ external_id_of row"
  shows "moved" "outbox d' = outbox d @ [\<lparr>ob_id = ''outbox:refund:'' @ external_id_of row, ob_recipient = rr_recipient row,
      ob_sub = rr_sub row, ob_type = ''billing.refund'', ob_payload = billing_refund_json (rr_sub row) paid ''sent'',
      ob_state = ''PENDING'', ob_attempts = 0, ob_created = now, ob_sent = None\<rparr>]"
proof -
  from r have c: "count_where (refund_pending (rr_id row)) (refunds d) \<noteq> 0"
    by (auto simp: count_where_0_iff refund_pending_def)
  with run show "moved" by (simp add: commit_sent_txn_def)
  from c run free show "outbox d' = outbox d @ [\<lparr>ob_id = ''outbox:refund:'' @ external_id_of row, ob_recipient = rr_recipient row,
      ob_sub = rr_sub row, ob_type = ''billing.refund'', ob_payload = billing_refund_json (rr_sub row) paid ''sent'',
      ob_state = ''PENDING'', ob_attempts = 0, ob_created = now, ob_sent = None\<rparr>]"
    by (auto simp: commit_sent_txn_def refund_journal_def frame_simps enqueue_refund_def enqueue_row_def update_refund_def)
qed

text \<open>
  Retrying a parked refund: only a FAILED, unfenced row is requeued; it becomes PENDING with its
  attempts reset and nothing else of it or of any other row changed, and the stale "failed" notice is
  withdrawn, so that when the retry is paid the buyer's "sent" notice is queued instead of being
  swallowed by the old one's id. Any other row, a fenced one in particular, is left exactly as it is.
\<close>

theorem retry_reports_outcome:
  assumes run: "refund_retry_txn i now d = Inr (a, d')"
  shows "(a \<noteq> Requeued \<longrightarrow> d' = d) \<and>
     (a = Requeued \<longleftrightarrow> (\<exists>r. List.find (\<lambda>r. rf_id r = i) (refunds d) = Some r \<and> rf_status r = ''FAILED'' \<and> rf_fence r = None)) \<and>
     (\<forall>r. a = Requeued \<longrightarrow> List.find (\<lambda>r. rf_id r = i) (refunds d) = Some r \<longrightarrow>
        refunds d' = update_where (\<lambda>q. rf_id q = i \<and> rf_status q = ''FAILED'')
          (\<lambda>q. q\<lparr>rf_status := ''PENDING'', rf_attempts := Some 0, rf_updated := now\<rparr>) (refunds d) \<and>
        (\<forall>row pid paid t moved d''. rr_id row = i \<longrightarrow> rr_key row = rf_key r \<longrightarrow>
           commit_sent_txn row pid paid t d' = Inr (moved, d'') \<longrightarrow>
           moved \<and> (\<exists>b\<in>set (outbox d''). ob_id b = refund_outbox_id (rf_key r) i \<and> ob_state b = ''PENDING'' \<and>
              ob_recipient b = rr_recipient row \<and> ob_payload b = billing_refund_json (rr_sub row) paid ''sent'')))"
proof -
  have same: "a \<noteq> Requeued \<Longrightarrow> d' = d"
    using run by (auto simp: refund_retry_txn_def split: option.splits if_splits)
  have iff: "a = Requeued \<longleftrightarrow> (\<exists>r. List.find (\<lambda>r. rf_id r = i) (refunds d) = Some r \<and> rf_status r = ''FAILED'' \<and> rf_fence r = None)"
    using run by (auto simp: refund_retry_txn_def split: option.splits if_splits)
  have upd: "refunds d' = update_where (\<lambda>q. rf_id q = i \<and> rf_status q = ''FAILED'')
          (\<lambda>q. q\<lparr>rf_status := ''PENDING'', rf_attempts := Some 0, rf_updated := now\<rparr>) (refunds d)"
      "outbox d' = delete_where (\<lambda>b. ob_id b = refund_outbox_id (rf_key r) i) (outbox d)"
      "r \<in> set (refunds d)" "rf_id r = i" "rf_status r = ''FAILED''"
    if "a = Requeued" "List.find (\<lambda>r. rf_id r = i) (refunds d) = Some r" for r
    using run that by (auto simp: refund_retry_txn_def frame_simps dest: find_Some_mem split: if_splits)
  have notice: "moved \<and> (\<exists>b\<in>set (outbox d''). ob_id b = refund_outbox_id (rf_key r) i \<and> ob_state b = ''PENDING'' \<and>
              ob_recipient b = rr_recipient row \<and> ob_payload b = billing_refund_json (rr_sub row) paid ''sent'')"
    if a: "a = Requeued" "List.find (\<lambda>r. rf_id r = i) (refunds d) = Some r"
      and row: "rr_id row = i" "rr_key row = rf_key r" "commit_sent_txn row pid paid t d' = Inr (moved, d'')"
    for r row pid paid t moved d''
  proof -
    note u = upd [OF a]
    have x: "''outbox:refund:'' @ external_id_of row = refund_outbox_id (rf_key r) i"
      by (simp add: refund_outbox_id_def external_id_of_def row)
    have "r\<lparr>rf_status := ''PENDING'', rf_attempts := Some 0, rf_updated := now\<rparr> \<in> set (refunds d')"
      unfolding u(1) using u(3-5) by (rule_tac update_where_hit) auto
    then have "moved" "\<exists>b\<in>set (outbox d''). ob_id b = refund_outbox_id (rf_key r) i \<and> ob_state b = ''PENDING'' \<and>
              ob_recipient b = rr_recipient row \<and> ob_payload b = billing_refund_json (rr_sub row) paid ''sent''"
      using commit_sent_notice [OF row(3), of "r\<lparr>rf_status := ''PENDING'', rf_attempts := Some 0, rf_updated := now\<rparr>"]
      unfolding x by (auto simp: u(2,4) row(1) delete_where_def)
    then show ?thesis by simp
  qed
  from same iff upd(1) notice show ?thesis by blast
qed

subsection \<open>Releasing a fence\<close>

lemma refund_ids_distinct:
  assumes "db_ok d" shows "distinct (map rf_id (refunds d))"
proof -
  have "rf_key r = rf_key q" if "r \<in> set (refunds d)" "q \<in> set (refunds d)" "rf_id r = rf_id q" for r q
  proof -
    from db_okD(6) [OF assms that(1)] obtain e where e: "rf_id r = ''ref-'' @ e" "rf_key r = ''refund:'' @ e"
      unfolding refund_keyed_def by blast
    from db_okD(6) [OF assms that(2)] obtain f where f: "rf_id q = ''ref-'' @ f" "rf_key q = ''refund:'' @ f"
      unfolding refund_keyed_def by blast
    from that(3) have "e = f" by (simp add: e(1) f(1))
    then show ?thesis by (simp add: e(2) f(2))
  qed
  with db_okD(5) [OF assms] show ?thesis unfolding distinct_map inj_on_def by blast
qed

lemma count_unique:
  assumes P: "\<And>x. P x \<Longrightarrow> k x = v" and "distinct (map k xs)"
  shows "count_where P xs = (if \<exists>x\<in>set xs. P x then 1 else 0)"
  using assms(2)
proof (induction xs)
  case (Cons x xs)
  have "\<not> P y" if x: "P x" and y: "y \<in> set xs" for y
  proof
    assume "P y"
    with P x have "k y = k x" by auto
    with y Cons.prems show False by (auto simp: image_iff)
  qed
  then have "P x \<Longrightarrow> count_where P xs = 0" by (auto simp: count_where_0_iff)
  with Cons show ?case by (auto simp: count_where_def filter_empty_conv)
qed (simp add: count_where_def)

lemma update_where_same:
  assumes "\<And>x. P x \<Longrightarrow> Q x" "\<And>x. Q x \<Longrightarrow> \<not> P x \<Longrightarrow> f x = x"
  shows "update_where P f xs = update_where Q f xs"
  using assms by (induction xs) (auto simp: update_where_def)

text \<open>
  A fence is lifted from one attempt only and never silently: a release that finds nothing writes
  nothing and there was no fenced attempt of that id; a release that succeeds changes the fence column
  of the one refund, or else of the one sweep, that carries the id, keeps its status and every other
  row, and journals the attempt, its table and the operator's note.
\<close>

theorem fence_released_once:
  assumes ok: "db_ok d" and run: "clear_fence_txn i note now d = Inr (a, d')"
  shows "(a = None \<longrightarrow> d' = d \<and> (\<forall>r\<in>set (refunds d). rf_id r = i \<longrightarrow> rf_fence r = None) \<and>
            (\<forall>w\<in>set (sweeps d). sw_id w = i \<longrightarrow> sw_fence w = None)) \<and>
     (\<forall>table s. a = Some (table, s) \<longrightarrow>
        (\<exists>e. events d' = events d @ [e] \<and> ev_kind e = ''migration_fence_cleared'' \<and> json_text ''attempt'' (ev_detail e) = Some i \<and>
            json_text ''table'' (ev_detail e) = Some table \<and> json_text ''note'' (ev_detail e) = Some note) \<and>
        (table = ''refund_attempt'' \<and> (\<exists>r\<in>set (refunds d). rf_id r = i \<and> rf_fence r \<noteq> None \<and> rf_status r = s) \<and>
           sweeps d' = sweeps d \<and> refunds d' = update_where (\<lambda>r. rf_id r = i) (\<lambda>r. r\<lparr>rf_fence := None\<rparr>) (refunds d) \<or>
         table = ''sweep_attempt'' \<and> (\<exists>w\<in>set (sweeps d). sw_id w = i \<and> sw_fence w \<noteq> None \<and> sw_status w = s) \<and>
           refunds d' = refunds d \<and> sweeps d' = update_where (\<lambda>w. sw_id w = i) (\<lambda>w. w\<lparr>sw_fence := None\<rparr>) (sweeps d)))"
proof -
  have cr: "count_where (refund_fenced i) (refunds d) = (if \<exists>r\<in>set (refunds d). refund_fenced i r then 1 else 0)"
    by (rule count_unique [OF _ refund_ids_distinct [OF ok], where v = i]) (simp add: refund_fenced_def)
  have cs: "count_where (sweep_fenced i) (sweeps d) = (if \<exists>w\<in>set (sweeps d). sweep_fenced i w then 1 else 0)"
    by (rule count_unique [OF _ db_okD(9) [OF ok], where v = i]) (simp add: sweep_fenced_def)
  have er: "update_where (refund_fenced i) (\<lambda>r. r\<lparr>rf_fence := None\<rparr>) (refunds d)
      = update_where (\<lambda>r. rf_id r = i) (\<lambda>r. r\<lparr>rf_fence := None\<rparr>) (refunds d)"
    by (rule update_where_same) (auto simp: refund_fenced_def)
  have es: "update_where (sweep_fenced i) (\<lambda>w. w\<lparr>sw_fence := None\<rparr>) (sweeps d)
      = update_where (\<lambda>w. sw_id w = i) (\<lambda>w. w\<lparr>sw_fence := None\<rparr>) (sweeps d)"
    by (rule update_where_same) (auto simp: sweep_fenced_def)
  consider (refund) r where "r \<in> set (refunds d)" "refund_fenced i r"
    | (sweep) w where "w \<in> set (sweeps d)" "sweep_fenced i w" "\<forall>r\<in>set (refunds d). \<not> refund_fenced i r"
    | (none) "\<forall>r\<in>set (refunds d). \<not> refund_fenced i r" "\<forall>w\<in>set (sweeps d). \<not> sweep_fenced i w"
    by blast
  then show ?thesis
  proof cases
    case refund
    have "List.find (\<lambda>r. rf_id r = i) (refunds d) = Some r"
      using find_key_unique [OF refund_ids_distinct [OF ok] refund(1)] refund(2) by (simp add: refund_fenced_def)
    then have f: "List.find (\<lambda>r. rf_id r = i) (update_where (\<lambda>r. rf_id r = i) (\<lambda>r. r\<lparr>rf_fence := None\<rparr>) (refunds d))
        = Some (r\<lparr>rf_fence := None\<rparr>)"
      using refund(2) by (subst find_update_where_same) (simp_all add: refund_fenced_def)
    have c1: "count_where (refund_fenced i) (refunds d) = 1" using cr refund by auto
    from run have "a = Some (''refund_attempt'', rf_status r)"
        "d' = fence_journal i ''refund_attempt'' note now (d\<lparr>refunds := update_where (\<lambda>r. rf_id r = i) (\<lambda>r. r\<lparr>rf_fence := None\<rparr>) (refunds d)\<rparr>)"
      by (simp_all add: clear_fence_txn_def c1 er f)
    with refund show ?thesis by (auto simp: fence_journal_def insert_event_def refund_fenced_def)
  next
    case sweep
    have "List.find (\<lambda>w. sw_id w = i) (sweeps d) = Some w"
      using find_key_unique [OF db_okD(9) [OF ok] sweep(1)] sweep(2) by (simp add: sweep_fenced_def)
    then have f: "List.find (\<lambda>w. sw_id w = i) (update_where (\<lambda>w. sw_id w = i) (\<lambda>w. w\<lparr>sw_fence := None\<rparr>) (sweeps d))
        = Some (w\<lparr>sw_fence := None\<rparr>)"
      using sweep(2) by (subst find_update_where_same) (simp_all add: sweep_fenced_def)
    have c0: "count_where (refund_fenced i) (refunds d) = 0" using cr sweep(3) by simp
    have c1: "count_where (sweep_fenced i) (sweeps d) = 1" using cs sweep by auto
    from run have "a = Some (''sweep_attempt'', sw_status w)"
        "d' = fence_journal i ''sweep_attempt'' note now (d\<lparr>sweeps := update_where (\<lambda>w. sw_id w = i) (\<lambda>w. w\<lparr>sw_fence := None\<rparr>) (sweeps d)\<rparr>)"
      by (simp_all add: clear_fence_txn_def clear_sweep_fence_def c0 c1 es f update_where_none)
    with sweep show ?thesis by (auto simp: fence_journal_def insert_event_def sweep_fenced_def)
  next
    case none
    then have "count_where (refund_fenced i) (refunds d) = 0" "count_where (sweep_fenced i) (sweeps d) = 0"
      using cr cs by simp_all
    with run have "a = None" "d' = d" by (simp_all add: clear_fence_txn_def clear_sweep_fence_def update_where_none)
    with none show ?thesis by (auto simp: refund_fenced_def sweep_fenced_def)
  qed
qed

subsection \<open>The listing on the status view\<close>

text \<open>
  The status an operator reads is the one that decides orders: when \<open>status\<close> does not say published,
  no order for that listing can commit, and when it says published no order is refused because the
  listing is gone.
\<close>

theorem status_decides_orders:
  assumes "ow_listing w = coordinate R pk" and "order_write_txn w now persisted d = Inr (oc, d')"
  shows "(oc = OrderCommitted \<longrightarrow> json_get ''published'' (listing_view (R # Rs) (Some pk) d) = Some (JBool True)) \<and>
         (oc = ListingGone \<longrightarrow> json_get ''published'' (listing_view (R # Rs) (Some pk) d) = Some (JBool False))"
  using assms
  by (auto simp: order_write_txn_def admit_order_def listing_view_def listing_of_def find_listing_def
      split: sum.splits option.splits if_splits)

subsection \<open>The socket\<close>

lemma staging_None: "staging_from taken s n = None \<longleftrightarrow> (\<forall>k<n. taken ((s + k) mod name_space))"
proof (induction n arbitrary: s)
  case (Suc n)
  have "(\<forall>k<Suc n. taken ((s + k) mod name_space)) \<longleftrightarrow>
        taken (s mod name_space) \<and> (\<forall>k<n. taken ((s + 1 + k) mod name_space))"
    by (auto simp: less_Suc_eq_0_disj)
  with Suc show ?case by auto
qed simp

lemma staging_Some: "staging_from taken s n = Some m \<Longrightarrow> \<not> taken m \<and> m < name_space"
  by (induction n arbitrary: s) (auto simp: name_space_def split: if_splits)

lemma staging_complete: "create_staging_dir taken s = None \<longleftrightarrow> (\<forall>m<name_space. taken m)"
proof -
  have "taken m" if all: "\<forall>k<name_space. taken ((s + k) mod name_space)" and m: "m < name_space" for m
  proof -
    have pos: "0 < name_space" by (simp add: name_space_def)
    let ?k = "(m + (name_space - s mod name_space)) mod name_space"
    have "(s + ?k) mod name_space = (s mod name_space + (m + (name_space - s mod name_space))) mod name_space"
      by (simp add: mod_simps)
    also have "\<dots> = (m + name_space) mod name_space"
      using mod_less_divisor [OF pos, of s] by (simp add: add.commute)
    finally have "(s + ?k) mod name_space = m" using m by simp
    with all pos show ?thesis by (metis mod_less_divisor)
  qed
  then show ?thesis by (auto simp: create_staging_dir_def staging_None name_space_def)
qed

text \<open>
  The socket is never looser than owner-only once the daemon has looked at its path: from then on a
  client finds there either nothing or an owner-only socket of the daemon's own user, at the end the new
  one; a safe leftover of the previous run is replaced with no moment at which the path is missing; and
  binding fails only for a path a client could not use or when every staging name is taken.
\<close>

theorem socket_owner_only:
  "case bind_owner_only taken seq len daemon stale of
     Inr vs \<Rightarrow> last vs = Some (staged_socket daemon) \<and>
       (\<forall>v\<in>set (tl vs). \<forall>m. v = Some m \<longrightarrow> safe_stale_socket daemon m) \<and>
       (\<forall>m. stale = Some m \<longrightarrow> safe_stale_socket daemon m \<longrightarrow> None \<notin> set vs)
   | Inl e \<Rightarrow> max_sun_path_bytes < len \<or> (\<forall>n<name_space. taken n)"
  by (auto simp: bind_owner_only_def staging_complete staged_socket_def safe_stale_socket_def split: option.splits if_splits)

subsection \<open>The shutdown drain\<close>

inductive_cases server_stepE: "server_step P parse daemon s s'"

definition conn_replied :: "conn \<Rightarrow> bool" where
  "conn_replied c \<longleftrightarrow> (\<exists>x. c = Replied x)"

text \<open>A connection only moves forward: its slot stays, and what it moves to is decided by the step.\<close>

lemma server_step_conn:
  assumes "server_step P parse daemon s s'" "i < length (sv_conns s)"
  shows "i < length (sv_conns s') \<and>
    (sv_conns s' ! i = sv_conns s ! i \<or> sv_conns s ! i = Reading \<or>
     (\<exists>rq cancelled now x. sv_conns s ! i = Serving rq \<and> serve_request P cancelled rq now (sv_desk s) = (x, sv_desk s') \<and>
        sv_conns s' ! i = Replied (Some x)))"
  using assms
  by (cases rule: server_step.cases) (auto simp: nth_append nth_list_update split: if_splits)

lemma server_step_stopped:
  assumes "server_step P parse daemon s s'" "sv_phase s = Stopped \<longrightarrow> list_all conn_replied (sv_conns s)"
  shows "sv_phase s' = Stopped \<longrightarrow> list_all conn_replied (sv_conns s')"
  using assms(1)
proof cases
  case stop
  then show ?thesis by (simp add: list_all_iff conn_replied_def)
qed (use assms(2) in \<open>auto simp: conn_replied_def list_all_length nth_list_update\<close>)

lemma server_run_stopped:
  "server_run P parse daemon k ss \<Longrightarrow> sv_phase (last ss) = Stopped \<longrightarrow> list_all conn_replied (sv_conns (last ss))"
proof (induction rule: server_run.induct)
  case (step ss s s')
  with server_step_stopped [OF step(2)] show ?case by simp
qed (simp add: server_start_def)

text \<open>The fate of a mutating request that was read: still served, or answered by its own dispatch.\<close>

definition dispatched :: "'w ipc_ports \<Rightarrow> request \<Rightarrow> 'w server list \<Rightarrow> nat \<Rightarrow> nat \<Rightarrow> bool" where
  "dispatched P rq ss j i \<longleftrightarrow>
     (\<exists>n now x. j \<le> n \<and> Suc n < length ss \<and> ipc_dispatch P rq now (sv_desk (ss ! n)) = (x, sv_desk (ss ! Suc n)) \<and>
        sv_conns (last ss) ! i = Replied (Some x))"

lemma server_run_serving:
  assumes "server_run P parse daemon k ss" "j < length ss" "i < length (sv_conns (ss ! j))"
    "sv_conns (ss ! j) ! i = Serving rq" "is_mutating rq"
  shows "i < length (sv_conns (last ss)) \<and> (sv_conns (last ss) ! i = Serving rq \<or> dispatched P rq ss j i)"
  using assms
proof (induction arbitrary: j rule: server_run.induct)
  case start
  then show ?case by (simp add: server_start_def)
next
  case (step ss s s')
  show ?case
  proof (cases "j = Suc (length ss)")
    case True
    with step.prems show ?thesis by (simp add: nth_append)
  next
    case False
    with step.prems(1) have j: "j < length (ss @ [s])" by simp
    then have nth: "(ss @ [s, s']) ! n = (ss @ [s]) ! n" if "n \<le> length ss" for n
      using that by (auto simp: nth_append nth_Cons split: nat.splits)
    from step.IH [OF j] step.prems nth [of j] j
    have i: "i < length (sv_conns s)" and fate: "sv_conns s ! i = Serving rq \<or> dispatched P rq (ss @ [s]) j i" by simp_all
    from server_step_conn [OF step.hyps(2) i]
    have i': "i < length (sv_conns s')" and move: "sv_conns s' ! i = sv_conns s ! i \<or> sv_conns s ! i = Reading \<or>
       (\<exists>rq cancelled now x. sv_conns s ! i = Serving rq \<and> serve_request P cancelled rq now (sv_desk s) = (x, sv_desk s') \<and>
        sv_conns s' ! i = Replied (Some x))" by blast+
    from fate show ?thesis
    proof
      assume d: "dispatched P rq (ss @ [s]) j i"
      then obtain n now x where n: "j \<le> n" "Suc n < length (ss @ [s])"
          "ipc_dispatch P rq now (sv_desk ((ss @ [s]) ! n)) = (x, sv_desk ((ss @ [s]) ! Suc n))"
          "sv_conns s ! i = Replied (Some x)" by (auto simp: dispatched_def)
      with move have "sv_conns s' ! i = Replied (Some x)" by auto
      with n nth [of n] nth [of "Suc n"] have "dispatched P rq (ss @ [s, s']) j i"
        unfolding dispatched_def by (intro exI [of _ n] exI [of _ now] exI [of _ x]) simp
      with i' show ?thesis by simp
    next
      assume sv: "sv_conns s ! i = Serving rq"
      show ?thesis
      proof (cases "sv_conns s' ! i = Serving rq")
        case False
        with sv move obtain now x where "ipc_dispatch P rq now (sv_desk s) = (x, sv_desk s')" "sv_conns s' ! i = Replied (Some x)"
          using step.prems(4) by (auto simp: serve_request_def)
        then have "dispatched P rq (ss @ [s, s']) j i"
          unfolding dispatched_def using j by (intro exI [of _ "length ss"] exI [of _ now] exI [of _ x]) (simp add: nth_append)
        with i' show ?thesis by simp
      qed (use i' in simp)
    qed
  qed
qed

text \<open>
  C19. A graceful stop loses no mutating request: if the accept loop has returned, every connection was
  answered, and every mutating request that had been read, at whatever moment of the run, was dispatched
  afterwards in a step of its own and its connection carries the reply of exactly that dispatch, never
  the shutting-down refusal.
\<close>

theorem graceful_stop_loses_nothing:
  assumes "server_run P parse daemon k ss" and "sv_phase (last ss) = Stopped"
  shows "(\<forall>c\<in>set (sv_conns (last ss)). \<exists>x. c = Replied x) \<and>
     (\<forall>j<length ss. \<forall>i<length (sv_conns (ss ! j)). \<forall>rq. sv_conns (ss ! j) ! i = Serving rq \<longrightarrow> is_mutating rq \<longrightarrow>
        dispatched P rq ss j i)"
proof -
  from server_run_stopped [OF assms(1)] assms(2) have all: "list_all conn_replied (sv_conns (last ss))" by simp
  have "dispatched P rq ss j i"
    if "j < length ss" "i < length (sv_conns (ss ! j))" "sv_conns (ss ! j) ! i = Serving rq" "is_mutating rq" for j i rq
    using server_run_serving [OF assms(1) that] all by (auto simp: list_all_length conn_replied_def)
  with all show ?thesis by (auto simp: list_all_iff conn_replied_def)
qed

subsection \<open>Witnesses\<close>

definition sample_ipc :: "unit ipc_ports" where
  "sample_ipc = \<lparr>ip_recipes = [sample_recipe], ip_relay = None, ip_relays = [], ip_net = sample_net,
     ip_answers = (\<lambda>_. sample_answers), ip_unbookable = False, ip_balance = (\<lambda>w. (Inr (Some 13000), w)),
     ip_sweep = settling_backend, ip_probes = sample_probes, ip_token = None, ip_settle = (\<lambda>_ _ w. (Inr (), w)),
     ip_dev = False, ip_alerts = True, ip_meanwhile = id\<rparr>"

definition owing_desk :: "db \<Rightarrow> unit desk" where
  "owing_desk d = \<lparr>dk_store = \<lparr>st_db = d, st_degraded = False\<rparr>, dk_epoch = 0, dk_world = ()\<rparr>"

theorem readonly_commits_nothing_witness:
  "\<exists>x k'. ipc_dispatch sample_ipc RqReconcile 5 (owing_desk owing_db) = (x, k') \<and>
     st_db (dk_store k') = owing_db \<and> dk_epoch k' = 0"
proof -
  obtain x k' where r: "ipc_dispatch sample_ipc RqReconcile 5 (owing_desk owing_db) = (x, k')" by fastforce
  from readonly_commits_nothing [OF _ r] r show ?thesis by (simp add: owing_desk_def)
qed

text \<open>A parked refund whose buyer was told it failed.\<close>

definition parked_db :: db where
  "parked_db = empty_db\<lparr>refunds := [sample_refund ''x2'' ''FAILED'' 6],
     outbox := [\<lparr>ob_id = ''outbox:refund:x2'', ob_recipient = Some ''b0'', ob_sub = Some ''s1'', ob_type = ''billing.refund'',
       ob_payload = billing_refund_json (Some ''s1'') 6 ''failed'', ob_state = ''SENT'', ob_attempts = 1, ob_created = 0,
       ob_sent = Some 1\<rparr>]\<rparr>"

lemma parked_found: "List.find (\<lambda>r. rf_id r = ''ref-x2'') (refunds parked_db) = Some (sample_refund ''x2'' ''FAILED'' 6)"
  by (simp add: parked_db_def sample_refund_def)

theorem retry_reports_outcome_witness:
  "\<exists>d' d''. refund_retry_txn ''ref-x2'' 9 parked_db = Inr (Requeued, d') \<and>
     commit_sent_txn (row_of d' (sample_refund ''x2'' ''PENDING'' 6)) (Some ''p1'') 6 10 d' = Inr (True, d'') \<and>
     (\<exists>b\<in>set (outbox d''). ob_id b = ''outbox:refund:x2'' \<and> ob_state b = ''PENDING'')"
proof -
  obtain d' where run: "refund_retry_txn ''ref-x2'' 9 parked_db = Inr (Requeued, d')"
    by (simp add: refund_retry_txn_def parked_found) (simp add: sample_refund_def)
  let ?row = "row_of d' (sample_refund ''x2'' ''PENDING'' 6)"
  have row: "rr_id ?row = ''ref-x2''" "rr_key ?row = rf_key (sample_refund ''x2'' ''FAILED'' 6)"
    by (simp_all add: row_of_def sample_refund_def)
  obtain m d'' where sent: "commit_sent_txn ?row (Some ''p1'') 6 10 d' = Inr (m, d'')" using refund_txns_total(1) by blast
  from retry_reports_outcome [OF run] parked_found row sent
  have "m \<and> (\<exists>b\<in>set (outbox d''). ob_id b = refund_outbox_id (rf_key (sample_refund ''x2'' ''FAILED'' 6)) ''ref-x2'' \<and>
     ob_state b = ''PENDING'')" by blast
  moreover have "refund_outbox_id (rf_key (sample_refund ''x2'' ''FAILED'' 6)) ''ref-x2'' = ''outbox:refund:x2''"
    by (simp add: refund_outbox_id_def external_id_from_def sample_refund_def)
  ultimately show ?thesis using run sent by auto
qed

definition fenced_db :: db where
  "fenced_db = empty_db\<lparr>refunds := [(sample_refund ''x2'' ''PENDING'' 6)\<lparr>rf_fence := Some 1\<rparr>]\<rparr>"

theorem fence_released_once_witness:
  "\<exists>d'. clear_fence_txn ''ref-x2'' ''checked'' 9 fenced_db = Inr (Some (''refund_attempt'', ''PENDING''), d') \<and>
     refunds d' = [sample_refund ''x2'' ''PENDING'' 6] \<and> (\<exists>e\<in>set (events d'). json_text ''note'' (ev_detail e) = Some ''checked'')"
proof -
  have ok: "db_ok fenced_db" by (simp add: fenced_db_def db_ok_def empty_db_def sample_refund_def refund_keyed_def)
  obtain d' where run: "clear_fence_txn ''ref-x2'' ''checked'' 9 fenced_db = Inr (Some (''refund_attempt'', ''PENDING''), d')"
    by (simp add: clear_fence_txn_def fenced_db_def refund_fenced_def sample_refund_def count_where_def)
  from fence_released_once [OF ok run] have "refunds d' = update_where (\<lambda>r. rf_id r = ''ref-x2'') (\<lambda>r. r\<lparr>rf_fence := None\<rparr>) (refunds fenced_db)"
    "\<exists>e. events d' = events fenced_db @ [e] \<and> json_text ''note'' (ev_detail e) = Some ''checked''" by auto
  with run show ?thesis by (auto simp: fenced_db_def sample_refund_def)
qed

text \<open>A retry is read, the shutdown is signalled, the retry is answered, the loop returns.\<close>

definition retry_line :: request_read where "retry_line = ReadLine [CHR 0x0A]"

definition retry_parse :: "string \<Rightarrow> json option" where
  "retry_parse = (\<lambda>_. Some (request_json (RqRefundRetry ''ref-x2'')))"

theorem graceful_stop_loses_nothing_witness:
  "\<exists>ss. server_run sample_ipc retry_parse 1000 (owing_desk parked_db) ss \<and> sv_phase (last ss) = Stopped \<and>
     dispatched sample_ipc (RqRefundRetry ''ref-x2'') ss 2 0"
proof -
  let ?P = sample_ipc and ?rq = "RqRefundRetry ''ref-x2''" and ?k = "owing_desk parked_db"
  obtain x k' where d: "ipc_dispatch ?P ?rq 9 ?k = (x, k')" by fastforce
  let ?s0 = "server_start ?k" and ?s1 = "\<lparr>sv_phase = Accepting, sv_conns = [Reading], sv_desk = ?k\<rparr>"
    and ?s2 = "\<lparr>sv_phase = Accepting, sv_conns = [Serving ?rq], sv_desk = ?k\<rparr>"
    and ?s3 = "\<lparr>sv_phase = Draining, sv_conns = [Serving ?rq], sv_desk = ?k\<rparr>"
    and ?s4 = "\<lparr>sv_phase = Draining, sv_conns = [Replied (Some x)], sv_desk = k'\<rparr>"
    and ?s5 = "\<lparr>sv_phase = Stopped, sv_conns = [Replied (Some x)], sv_desk = k'\<rparr>"
  have f: "frame_request retry_parse retry_line = Inr ?rq"
    by (simp add: frame_request_def retry_line_def retry_parse_def max_request_bytes_def
        request_of_json_def plain_request_def text_request_def cmd_def)
  have st: "server_step ?P retry_parse 1000 ?s0 ?s1" "server_step ?P retry_parse 1000 ?s1 ?s2"
      "server_step ?P retry_parse 1000 ?s2 ?s3" "server_step ?P retry_parse 1000 ?s3 ?s4" "server_step ?P retry_parse 1000 ?s4 ?s5"
    using accept [of ?s0 1000 1000 ?P retry_parse] request [of 0 ?s1 retry_parse retry_line ?rq ?P 1000]
      shutdown [of ?s2 ?P retry_parse 1000] answer [of 0 ?s3 ?rq None ?P 9 x k' retry_parse 1000] stop [of ?s4 ?P retry_parse 1000] f d
    by (simp_all add: server_start_def peer_allowed_def serve_request_def)
  have run: "server_run ?P retry_parse 1000 ?k [?s0, ?s1, ?s2, ?s3, ?s4, ?s5]"
    using server_run.start [of ?P retry_parse 1000 ?k] step [of ?P retry_parse 1000 ?k "[]" ?s0 ?s1]
      step [of ?P retry_parse 1000 ?k "[?s0]" ?s1 ?s2] step [of ?P retry_parse 1000 ?k "[?s0, ?s1]" ?s2 ?s3]
      step [of ?P retry_parse 1000 ?k "[?s0, ?s1, ?s2]" ?s3 ?s4] step [of ?P retry_parse 1000 ?k "[?s0, ?s1, ?s2, ?s3]" ?s4 ?s5] st
    by simp
  from graceful_stop_loses_nothing [OF run] have "dispatched ?P ?rq [?s0, ?s1, ?s2, ?s3, ?s4, ?s5] 2 0"
    by simp
  with run show ?thesis by (intro exI [of _ "[?s0, ?s1, ?s2, ?s3, ?s4, ?s5]"]) simp
qed

end
