(* ===== verification/Lifecycle.thy ===== *)
theory Lifecycle
  imports Operator Resume Order_Props Reconcile_Props Refund_Commits
begin

text \<open>
  The subscription state machine of \<open>SPEC.md\<close> 6.3, and the daemon as a refinement of it.

  The abstract machine knows a subscription as one of ten states, its transitions are those the
  specification lists, and it starts a subscription as PENDING. The concrete side is one step for each
  transaction of the daemon that writes the \<open>subscription\<close> table, with any arguments, in any order;
  \<open>quiet\<close> stands for every other transaction. The abstraction reads the state column of one row.
\<close>

subsection \<open>The specification\<close>

datatype life_state = Pending | Provisioning | Active | Resuming | Suspended_State | Terminated_State | Expired_State
  | Cancelled | Refund_Due | Refunded

fun life_name :: "life_state \<Rightarrow> string" where
  "life_name Pending = ''PENDING''"
| "life_name Provisioning = ''PROVISIONING''"
| "life_name Active = ''ACTIVE''"
| "life_name Resuming = ''RESUMING''"
| "life_name Suspended_State = ''SUSPENDED''"
| "life_name Terminated_State = ''TERMINATED''"
| "life_name Expired_State = ''EXPIRED''"
| "life_name Cancelled = ''CANCELLED''"
| "life_name Refund_Due = ''REFUND_DUE''"
| "life_name Refunded = ''REFUNDED''"

lemma life_name_inj [simp]: "life_name a = life_name b \<longleftrightarrow> a = b"
  by (cases a; cases b) simp_all

text \<open>\<open>None\<close> is a subscription that does not exist: not yet ordered, or reaped.\<close>

inductive life_step :: "life_state option \<Rightarrow> life_state option \<Rightarrow> bool" where
  order: "life_step None (Some Pending)"
| expire: "life_step (Some Pending) (Some Expired_State)"
| capture: "life_step (Some Pending) (Some Provisioning)"
| activate: "life_step (Some Provisioning) (Some Active)"
| fail: "life_step (Some Provisioning) (Some Refund_Due)"
| refund: "life_step (Some Refund_Due) (Some Refunded)"
| lapse: "life_step (Some Active) (Some Suspended_State)"
| late_renewal: "life_step (Some Suspended_State) (Some Resuming)"
| resumed: "life_step (Some Resuming) (Some Active)"
| resume_failed: "life_step (Some Resuming) (Some Suspended_State)"
| retention_over: "life_step (Some Suspended_State) (Some Terminated_State)"
| cancel: "s \<in> {Active, Suspended_State} \<Longrightarrow> life_step (Some s) (Some Cancelled)"
| wind_down: "life_step (Some Cancelled) (Some Terminated_State)"
| reap: "s \<in> {Expired_State, Terminated_State, Refunded} \<Longrightarrow> life_step (Some s) None"

inductive_simps life_step_simps [simp]:
  "life_step None b" "life_step (Some Pending) b" "life_step (Some Provisioning) b" "life_step (Some Active) b"
  "life_step (Some Resuming) b" "life_step (Some Suspended_State) b" "life_step (Some Terminated_State) b"
  "life_step (Some Expired_State) b" "life_step (Some Cancelled) b" "life_step (Some Refund_Due) b"
  "life_step (Some Refunded) b"

text \<open>The operator's \<open>admin_resume\<close> is outside the specification: it skips RESUMING.\<close>

definition operator_step :: "life_state option \<Rightarrow> life_state option \<Rightarrow> bool" where
  "operator_step a b \<longleftrightarrow> a = Some Suspended_State \<and> b = Some Active"

subsection \<open>The daemon\<close>

inductive daemon_step :: "db \<Rightarrow> db \<Rightarrow> bool" where
  order: "order_write_txn w now (p :: store_error + unit) d = Inr (oc, d') \<Longrightarrow> daemon_step d d'"
| capture: "capture_txn s now d = Inr (c, d') \<Longrightarrow> daemon_step d d'"
| activate: "active_write_txn aw d = Inr (ao, d') \<Longrightarrow> daemon_step d d'"
| fail: "refund_due_txn rw d = Inr (ro, d') \<Longrightarrow> daemon_step d d'"
| sent: "commit_sent_txn row pid paid now d = Inr (m, d') \<Longrightarrow> daemon_step d d'"
| expire: "expire_order_txn i nd now d = Inr (m, d') \<Longrightarrow> daemon_step d d'"
| remind: "soft_reminder_txn sr now (q :: store_error + unit) d = Inr (m, d') \<Longrightarrow> daemon_step d d'"
| suspend: "suspend_txn i buyer nd re now d = Inr (m, d') \<Longrightarrow> daemon_step d d'"
| terminate: "terminate_txn i nd he hs now d = Inr (m, d') \<Longrightarrow> daemon_step d d'"
| credit: "apply_restart_downtime_credit now d = Inr (n, d') \<Longrightarrow> daemon_step d d'"
| resume_done: "mark_active_txn i now d = Inr (rs, d') \<Longrightarrow> daemon_step d d'"
| resume_fail: "resume_failure_txn i t now d = Inr (m, d') \<Longrightarrow> daemon_step d d'"
| cancel: "cancel_txn i buyer notice now d = Inr (m, d') \<Longrightarrow> daemon_step d d'"
| reap: "reap_terminal_rows clock now d = (n, d') \<Longrightarrow> daemon_step d d'"
| admin_suspend: "admin_transition_txn i [''ACTIVE''] ''SUSPENDED'' ''admin_suspend'' now d = Inr (m, d') \<Longrightarrow> daemon_step d d'"
| quiet: "subs d' = subs d \<Longrightarrow> daemon_step d d'"

text \<open>The daemon with its operator.\<close>

inductive operated_step :: "db \<Rightarrow> db \<Rightarrow> bool" where
  daemon: "daemon_step d d' \<Longrightarrow> operated_step d d'"
| admin_resume: "admin_transition_txn i [''SUSPENDED''] ''ACTIVE'' ''admin_resume'' now d = Inr (m, d') \<Longrightarrow> operated_step d d'"

subsection \<open>The abstraction\<close>

definition life :: "string \<Rightarrow> db \<Rightarrow> string option" where
  "life i d = map_option sub_state (find_sub i d)"

definition represents :: "life_state option \<Rightarrow> string option \<Rightarrow> bool" where
  "represents a c \<longleftrightarrow> c = map_option life_name a"

subsection \<open>What each transaction does to the states\<close>

definition name_step :: "string \<Rightarrow> string \<Rightarrow> bool" where
  "name_step a b \<longleftrightarrow> a = b \<or> (\<exists>s t. a = life_name s \<and> b = life_name t \<and> life_step (Some s) (Some t))"

lemma name_step_of: "life_step (Some s) (Some t) \<Longrightarrow> name_step (life_name s) (life_name t)"
  by (auto simp: name_step_def)

lemma name_stepI:
  "name_step a a" "name_step ''PENDING'' ''EXPIRED''" "name_step ''PENDING'' ''PROVISIONING''" "name_step ''PROVISIONING'' ''ACTIVE''"
  "name_step ''PROVISIONING'' ''REFUND_DUE''" "name_step ''REFUND_DUE'' ''REFUNDED''" "name_step ''ACTIVE'' ''SUSPENDED''"
  "name_step ''SUSPENDED'' ''RESUMING''" "name_step ''RESUMING'' ''ACTIVE''" "name_step ''RESUMING'' ''SUSPENDED''"
  "name_step ''SUSPENDED'' ''TERMINATED''" "name_step ''CANCELLED'' ''TERMINATED''" "name_step ''ACTIVE'' ''CANCELLED''"
  "name_step ''SUSPENDED'' ''CANCELLED''"
  using name_step_of [OF life_step.expire] name_step_of [OF life_step.capture] name_step_of [OF life_step.activate] name_step_of [OF life_step.fail]
    name_step_of [OF life_step.refund] name_step_of [OF life_step.lapse] name_step_of [OF life_step.late_renewal] name_step_of [OF life_step.resumed]
    name_step_of [OF life_step.resume_failed] name_step_of [OF life_step.retention_over] name_step_of [OF life_step.wind_down]
    name_step_of [OF life_step.cancel, of Active] name_step_of [OF life_step.cancel, of Suspended_State]
  by (simp_all add: name_step_def)

text \<open>Row by row: the same subscriptions in the same order, each at its state or one step further.\<close>

definition states_move :: "db \<Rightarrow> db \<Rightarrow> bool" where
  "states_move d d' \<longleftrightarrow> list_all2 (\<lambda>r q. sub_id r = sub_id q \<and> name_step (sub_state r) (sub_state q)) (subs d) (subs d')"

lemma states_move_same: "subs d' = subs d \<Longrightarrow> states_move d d'"
  by (simp add: states_move_def list_all2_refl name_stepI(1))

lemma moves_update:
  assumes "subs d' = update_where P f (subs d)"
    and "\<And>r. r \<in> set (subs d) \<Longrightarrow> P r \<Longrightarrow> sub_id (f r) = sub_id r \<and> name_step (sub_state r) (sub_state (f r))"
  shows "states_move d d'"
proof -
  have "list_all2 (\<lambda>r q. sub_id r = sub_id q \<and> name_step (sub_state r) (sub_state q)) rs (update_where P f rs)"
    if "\<forall>r\<in>set rs. P r \<longrightarrow> sub_id (f r) = sub_id r \<and> name_step (sub_state r) (sub_state (f r))" for rs
    using that by (induction rs) (auto simp: name_stepI(1))
  with assms show ?thesis by (auto simp: states_move_def)
qed

lemma cas_sub_eq: "cas_sub P f d = (b, d') \<Longrightarrow> subs d' = update_where P f (subs d)"
  by (auto simp: cas_sub_def)

lemma moves_cas:
  assumes "cas_sub P f d = (b, d1)" "subs d' = subs d1"
    and "\<And>r. P r \<Longrightarrow> sub_id (f r) = sub_id r \<and> name_step (sub_state r) (sub_state (f r))"
  shows "states_move d d'"
  using assms by (intro moves_update [of d' P f]) (auto dest: cas_sub_eq)

lemma release_subs [simp]: "subs (snd (release_txn s now d)) = subs d"
  by (simp add: release_txn_def reservation_journal_def Let_def frame_simps)

lemma record_failure_subs [simp]: "subs (snd (record_failure_txn s h j err now d)) = subs d"
  by (simp add: record_failure_txn_def Let_def frame_simps)

lemma expire_order_moves: "expire_order_txn i nd now d = Inr (m, d') \<Longrightarrow> states_move d d'"
  by (auto simp: expire_order_txn_def reconcile_journal_def frame_simps name_stepI elim!: moves_cas split: prod.splits bool.splits)

lemma suspend_moves: "suspend_txn i buyer nd re now d = Inr (m, d') \<Longrightarrow> states_move d d'"
  by (auto simp: suspend_txn_def reconcile_journal_def reconcile_enqueue_def frame_simps name_stepI
      elim!: moves_cas split: prod.splits bool.splits)

lemma terminate_moves: "terminate_txn i nd he hs now d = Inr (m, d') \<Longrightarrow> states_move d d'"
  by (auto simp: terminate_txn_def reconcile_journal_def frame_simps name_stepI Let_def
      elim!: moves_cas split: prod.splits bool.splits option.splits)

lemma mark_active_moves: "mark_active_txn i now d = Inr (m, d') \<Longrightarrow> states_move d d'"
  by (auto simp: mark_active_txn_def frame_simps name_stepI elim!: moves_cas split: prod.splits bool.splits)

lemma cancel_moves: "cancel_txn i buyer notice now d = Inr (m, d') \<Longrightarrow> states_move d d'"
  by (auto simp: cancel_txn_def frame_simps name_stepI states_move_same elim!: moves_cas
      split: prod.splits bool.splits option.splits if_splits)

lemma admin_suspend_moves:
  "admin_transition_txn i [''ACTIVE''] ''SUSPENDED'' k now d = Inr (m, d') \<Longrightarrow> states_move d d'"
  by (auto simp: admin_transition_txn_def frame_simps name_stepI states_move_same elim!: moves_cas split: prod.splits bool.splits)

lemma upsert_renewal_subs: "upsert_renewal_invoice w d = Inr (u, d') \<Longrightarrow> subs d' = subs d"
  by (auto simp: upsert_renewal_invoice_def split: if_splits option.splits)

lemma soft_reminder_moves: "soft_reminder_txn w now p d = Inr (m, d') \<Longrightarrow> states_move d d'"
  by (auto simp: soft_reminder_txn_def reconcile_journal_def reconcile_enqueue_def frame_simps name_stepI
      dest!: upsert_renewal_subs elim!: moves_cas split: prod.splits bool.splits sum.splits)

lemma insert_refund_subs: "insert_refund_attempt_txn s x e a now d = Inr (b, d') \<Longrightarrow> subs d' = subs d"
  by (auto simp: insert_refund_attempt_txn_def split: if_splits)

lemma refund_renewals_subs: "refund_renewals s x now bs d = Inr d' \<Longrightarrow> subs d' = subs d"
  by (induction s x now bs d rule: refund_renewals.induct) (auto dest: insert_refund_subs split: sum.splits)

lemma resume_failure_moves: "resume_failure_txn i t now d = Inr (m, d') \<Longrightarrow> states_move d d'"
  by (auto simp: resume_failure_txn_def frame_simps name_stepI suspend_again_def
      dest!: refund_renewals_subs elim!: moves_cas split: prod.splits bool.splits sum.splits option.splits)

lemma claim_cleanup_subs: "claim_cleanup_txn s j now d = (c, d') \<Longrightarrow> subs d' = subs d"
  by (auto simp: claim_cleanup_txn_def frame_simps split: if_splits)

lemma consume_subs: "consume_txn i now d = Inr (u, d') \<Longrightarrow> subs d' = subs d"
  by (auto simp: consume_txn_def reservation_journal_def frame_simps Let_def split: if_splits)

lemma insert_instance_subs: "insert_instance n d = Inr (u, d') \<Longrightarrow> subs d' = subs d"
  by (auto simp: insert_instance_def split: if_splits)

lemma insert_outbox_subs: "insert_outbox i r s ty p now d = Inr (u, d') \<Longrightarrow> subs d' = subs d"
  by (auto simp: insert_outbox_def frame_simps split: if_splits)

lemma active_write_moves: "active_write_txn w d = Inr (a, d') \<Longrightarrow> states_move d d'"
  by (auto simp: active_write_txn_def frame_simps Let_def name_stepI activated_row_def
      dest!: claim_cleanup_subs consume_subs insert_instance_subs insert_outbox_subs
      intro: states_move_same moves_update split: if_splits prod.splits sum.splits)

lemma refund_due_moves: "refund_due_txn w d = Inr (a, d') \<Longrightarrow> states_move d d'"
  by (auto simp: refund_due_txn_def frame_simps Let_def name_stepI
      dest!: claim_cleanup_subs insert_refund_subs
      intro: states_move_same moves_update split: if_splits prod.splits sum.splits)

lemma close_refunded_moves:
  assumes "subs d' = subs (close_refunded_sub s now d)"
  shows "states_move d d'"
proof (cases s)
  case (Some i)
  then have "subs d' = update_where (\<lambda>q. sub_id q = i \<and> sub_state q = ''REFUND_DUE'')
      (\<lambda>q. q\<lparr>sub_state := ''REFUNDED'', sub_next_deadline := None, sub_updated := now\<rparr>) (subs d)"
    using assms by (simp add: close_refunded_sub_def Let_def)
  then show ?thesis by (rule moves_update) (auto simp: name_stepI)
qed (use assms in \<open>simp add: close_refunded_sub_def states_move_same\<close>)

lemma commit_sent_states_move: "commit_sent_txn row pid paid now d = Inr (m, d') \<Longrightarrow> states_move d d'"
  using commit_sent_tables(2) [of row pid paid now d d']
  by (cases m) (auto simp: commit_sent_txn_def intro: close_refunded_moves states_move_same split: if_splits)

lemma moves_state_kept:
  assumes "list_all2 (\<lambda>r q. sub_id r = sub_id q \<and> sub_state r = sub_state q) (subs d) (subs d')"
  shows "states_move d d'"
  using assms unfolding states_move_def by (rule list_all2_mono) (simp add: name_stepI(1))

definition state_kept :: "db \<Rightarrow> db \<Rightarrow> bool" where
  "state_kept d d' \<longleftrightarrow> map (\<lambda>r. (sub_id r, sub_state r)) (subs d') = map (\<lambda>r. (sub_id r, sub_state r)) (subs d)"

lemma credit_row_kept: "state_kept (snd acc) (snd (credit_row c now s acc))"
  by (auto simp: credit_row_def state_kept_def reconcile_journal_def frame_simps Let_def map_update_where split: option.split prod.split)

lemma fold_credit_kept: "state_kept (snd acc) (snd (fold (credit_row c now) xs acc))"
proof (induction xs arbitrary: acc)
  case (Cons x xs)
  from credit_row_kept [of acc c now x] Cons [of "credit_row c now x acc"] show ?case by (simp add: state_kept_def)
qed (simp add: state_kept_def)

lemma credit_kept:
  assumes "apply_restart_downtime_credit now d = Inr (n, d')"
  shows "state_kept d d'"
proof (cases "heartbeat d")
  case None
  with assms show ?thesis by (auto simp: apply_restart_downtime_credit_def write_heartbeat_txn_def state_kept_def)
next
  case (Some hb)
  let ?a = "credit_pass (credited_active hb now) now (0, d)"
  have "state_kept d (snd (credit_pass (credited_suspended hb now) now ?a))"
    using fold_credit_kept [of "(0, d)" "credited_active hb now" now "subs d"]
      fold_credit_kept [of ?a "credited_suspended hb now" now "subs (snd ?a)"]
    by (simp add: credit_pass_def state_kept_def)
  with assms Some show ?thesis
    by (auto simp: apply_restart_downtime_credit_def write_heartbeat_txn_def state_kept_def split: if_splits prod.splits)
qed

lemma credit_moves: "apply_restart_downtime_credit now d = Inr (n, d') \<Longrightarrow> states_move d d'"
proof (rule moves_state_kept)
  assume "apply_restart_downtime_credit now d = Inr (n, d')"
  then have "map (\<lambda>r. (sub_id r, sub_state r)) (subs d') = map (\<lambda>r. (sub_id r, sub_state r)) (subs d)"
    using credit_kept by (simp add: state_kept_def)
  then show "list_all2 (\<lambda>r q. sub_id r = sub_id q \<and> sub_state r = sub_state q) (subs d) (subs d')"
    by (auto simp: list_all2_conv_all_nth list_eq_iff_nth_eq)
qed


subsection \<open>From rows to subscriptions\<close>

definition allowed :: "string option \<Rightarrow> string option \<Rightarrow> bool" where
  "allowed c c' \<longleftrightarrow> c' = c \<or> (\<exists>a b. represents a c \<and> represents b c' \<and> (life_step a b \<or> operator_step a b))"

lemma allowedI: "life_step a b \<Longrightarrow> c = map_option life_name a \<Longrightarrow> c' = map_option life_name b \<Longrightarrow> allowed c c'"
  by (auto simp: allowed_def represents_def)

lemma allowed_refl [simp]: "allowed c c"
  by (simp add: allowed_def)

lemma name_step_allowed: "name_step a b \<Longrightarrow> allowed (Some a) (Some b)"
  by (auto simp: name_step_def intro: allowedI)

lemma moves_allowed:
  assumes "states_move d d'"
  shows "allowed (life i d) (life i d')"
proof -
  have "allowed (map_option sub_state (List.find (\<lambda>r. sub_id r = i) rs)) (map_option sub_state (List.find (\<lambda>r. sub_id r = i) qs))"
    if "list_all2 (\<lambda>r q. sub_id r = sub_id q \<and> name_step (sub_state r) (sub_state q)) rs qs" for rs qs
    using that by (induction rs qs rule: list_all2_induct) (auto simp: name_step_allowed)
  with assms show ?thesis by (simp add: states_move_def life_def find_sub_def)
qed

lemma life_cong: "subs d' = subs d \<Longrightarrow> life i d' = life i d"
  by (simp add: life_def find_sub_def)

lemma no_life: "(\<And>q. q \<in> set (subs d) \<Longrightarrow> sub_id q \<noteq> i) \<Longrightarrow> life i d = None"
  by (auto simp: life_def find_sub_def find_None_iff)

lemma capture_ids:
  assumes ok: "db_ok d" and run: "capture_txn s now d = Inr (c, d')"
  shows "map sub_id (subs d') = map sub_id (subs d)"
  using ok
proof (cases rule: capture_txn_cases [where s = s and now = now])
  case (paid iv)
  then have ap: "apply_paid (inv_kind iv) (inv_sub iv) (inv_expires iv) s now (invoice_paid iv s d) = Inr (c, d')"
    using run by simp
  from ok have "db_ok (invoice_paid iv s d)" by simp
  then show ?thesis
  proof (cases rule: apply_paid_cases [where kind = "inv_kind iv" and sub = "inv_sub iv"
        and exp = "inv_expires iv" and s = s and now = now])
    case (refund d1)
    with ap show ?thesis by (auto simp: refund_written_def)
  next
    case (order q)
    with ap show ?thesis by (auto simp: capture_journals order_granted_def frame_simps map_update_where)
  next
    case (renewal q c1 d1)
    with ap show ?thesis by (auto simp: capture_journals renewal_granted_def frame_simps map_update_where renewed_row_def Let_def)
  qed
qed (use run in \<open>auto simp: refund_written_def\<close>)

lemma capture_allowed:
  assumes ok: "db_ok d" and run: "capture_txn s now d = Inr (c, d')"
  shows "allowed (life i d) (life i d')"
proof (cases "find_sub i d")
  case None
  then have "i \<notin> set (map sub_id (subs d'))"
    unfolding capture_ids [OF ok run] by (auto simp: find_sub_def find_None_iff)
  then have "life i d' = None" by (intro no_life) auto
  with None show ?thesis by (simp add: life_def)
next
  case (Some r)
  then obtain q where "find_sub i d' = Some q" "sub_state q = sub_state r \<or> sub_state r = ''PENDING'' \<and> sub_state q = ''PROVISIONING'' \<or>
      sub_state r = ''SUSPENDED'' \<and> sub_state q = ''RESUMING''"
    using capture_state_moves [OF ok run] by blast
  with Some have "name_step (sub_state r) (sub_state q)" "life i d = Some (sub_state r)" "life i d' = Some (sub_state q)"
    by (auto simp: name_stepI life_def)
  then show ?thesis by (simp add: name_step_allowed)
qed

lemma order_allowed:
  assumes ok: "db_ok d" and run: "order_write_txn w now p d = Inr (oc, d')"
  shows "allowed (life i d) (life i d')"
proof (cases "oc = OrderCommitted")
  case True
  note c = committed_order [OF ok run [unfolded True]]
  show ?thesis
  proof (cases "i = ow_order w")
    case True
    with c(5) have none: "List.find (\<lambda>r. sub_id r = i) (subs d) = None" by (auto simp: find_None_iff)
    then have "life i d = None" by (simp add: life_def find_sub_def)
    moreover have "life i d' = Some ''PENDING''"
      using True none by (simp add: life_def find_sub_def c(2) find_append order_sub_def)
    ultimately show ?thesis by (intro allowedI [OF life_step.order]) simp_all
  next
    case False
    then have "life i d' = life i d"
      using c(2) by (simp add: life_def find_sub_def find_append order_sub_def split: option.splits)
    then show ?thesis by simp
  qed
next
  case False
  have "subs d' = subs d" if "admit_order w now p active d = Inr (oc, d')" for active
    using that False by (cases rule: admit_order_cases) (auto simp: cache_refusal_def cache_row_def frame_simps split: if_splits)
  note unchanged = this
  from run have "subs d' = subs d"
  proof (cases rule: order_write_cases)
    case (fresh active)
    from fresh(3) show ?thesis by (rule unchanged)
  qed simp
  from life_cong [OF this] show ?thesis by simp
qed

lemma find_in_kept:
  assumes "distinct (map sub_id rs)" "List.find (\<lambda>r. sub_id r = i) rs = Some q"
  shows "List.find (\<lambda>r. sub_id r = i) (delete_where P rs) = (if P q then None else Some q)"
  using assms by (induction rs) (auto simp: delete_where_def find_None_iff image_iff split: if_splits)

lemma find_in_deleted:
  "List.find (\<lambda>r. sub_id r = i) rs = None \<Longrightarrow> List.find (\<lambda>r. sub_id r = i) (delete_where P rs) = None"
  by (auto simp: delete_where_def find_None_iff)

lemma reap_allowed:
  assumes ok: "db_ok d" and run: "reap_terminal_rows clock now d = (n, d')"
  shows "allowed (life i d) (life i d')"
proof -
  obtain cut d4 where s: "subs d' = delete_where (sub_reapable cut d4) (subs d)"
    by (rule reap_tables [OF run]) blast
  show ?thesis
  proof (cases "find_sub i d")
    case None
    then have "life i d' = life i d" by (simp add: life_def find_sub_def s find_in_deleted)
    then show ?thesis by simp
  next
    case (Some q)
    have ds: "distinct (map sub_id (subs d))" using ok by (simp add: db_ok_def)
    have l: "life i d' = (if sub_reapable cut d4 q then None else Some (sub_state q))"
      using find_in_kept [OF ds Some [unfolded find_sub_def]] by (simp add: life_def find_sub_def s)
    have "allowed (Some (sub_state q)) None" if "sub_reapable cut d4 q"
    proof -
      from that have "terminal_state (sub_state q)" by (simp add: sub_reapable_def)
      then have "\<exists>a\<in>{Expired_State, Terminated_State, Refunded}. sub_state q = life_name a" by (auto simp: terminal_state_def)
      then obtain a where "a \<in> {Expired_State, Terminated_State, Refunded}" "sub_state q = life_name a" by blast
      then show ?thesis by (intro allowedI [OF life_step.reap]) auto
    qed
    with l Some show ?thesis by (simp add: life_def)
  qed
qed

subsection \<open>The refinement\<close>

lemma daemon_step_allowed:
  assumes "daemon_step d d'" "db_ok d"
  shows "allowed (life i d) (life i d')"
  using assms(1)
proof cases
  case order
  then show ?thesis by (rule order_allowed [OF assms(2)])
next
  case capture
  then show ?thesis by (rule capture_allowed [OF assms(2)])
next
  case reap
  then show ?thesis by (rule reap_allowed [OF assms(2)])
next
  case activate
  then show ?thesis by (rule active_write_moves [THEN moves_allowed])
next
  case fail
  then show ?thesis by (rule refund_due_moves [THEN moves_allowed])
next
  case sent
  then show ?thesis by (rule commit_sent_states_move [THEN moves_allowed])
next
  case expire
  then show ?thesis by (rule expire_order_moves [THEN moves_allowed])
next
  case remind
  then show ?thesis by (rule soft_reminder_moves [THEN moves_allowed])
next
  case suspend
  then show ?thesis by (rule suspend_moves [THEN moves_allowed])
next
  case terminate
  then show ?thesis by (rule terminate_moves [THEN moves_allowed])
next
  case credit
  then show ?thesis by (rule credit_moves [THEN moves_allowed])
next
  case resume_done
  then show ?thesis by (rule mark_active_moves [THEN moves_allowed])
next
  case resume_fail
  then show ?thesis by (rule resume_failure_moves [THEN moves_allowed])
next
  case cancel
  then show ?thesis by (rule cancel_moves [THEN moves_allowed])
next
  case admin_suspend
  then show ?thesis by (rule admin_suspend_moves [THEN moves_allowed])
next
  case quiet
  from life_cong [OF quiet] show ?thesis by simp
qed

lemma admin_resume_allowed:
  assumes "admin_transition_txn j [''SUSPENDED''] ''ACTIVE'' k now d = Inr (m, d')"
  shows "allowed (life i d) (life i d')"
proof -
  have u: "subs d' = update_where (\<lambda>r. sub_id r = j \<and> sub_state r = ''SUSPENDED'') (\<lambda>r. r\<lparr>sub_state := ''ACTIVE'', sub_updated := now\<rparr>) (subs d)
      \<or> subs d' = subs d"
    using assms by (auto simp: admin_transition_txn_def cas_sub_def frame_simps split: prod.splits bool.splits)
  have "allowed (Some ''SUSPENDED'') (Some ''ACTIVE'')"
    unfolding allowed_def represents_def operator_step_def
    by (rule disjI2, rule exI [of _ "Some Suspended_State"], rule exI [of _ "Some Active"]) simp
  then have "allowed (map_option sub_state (List.find (\<lambda>r. sub_id r = i) rs))
      (map_option sub_state (List.find (\<lambda>r. sub_id r = i) (update_where (\<lambda>r. sub_id r = j \<and> sub_state r = ''SUSPENDED'')
         (\<lambda>r. r\<lparr>sub_state := ''ACTIVE'', sub_updated := now\<rparr>) rs)))" for rs
    by (induction rs) auto
  with u show ?thesis by (auto simp: life_def find_sub_def)
qed

lemma operated_step_allowed: "operated_step d d' \<Longrightarrow> db_ok d \<Longrightarrow> allowed (life i d) (life i d')"
  by (erule operated_step.cases) (blast intro: daemon_step_allowed, blast intro: admin_resume_allowed)

text \<open>
  C3. The daemon refines the state machine of the specification: whatever transaction runs next, with any
  arguments, on a database that satisfies the schema's keys, each subscription stays in its state or takes one of the
  listed transitions. The single exception is the operator's \<open>admin_resume\<close>, which takes a suspended
  subscription to ACTIVE without the RESUMING state the specification puts between them.
\<close>

theorem daemon_refines_spec:
  assumes "operated_step d d'" "db_ok d"
  shows "life i d' = life i d \<or>
         (\<exists>a b. represents a (life i d) \<and> represents b (life i d') \<and> (life_step a b \<or> operator_step a b))"
proof -
  from assms have "allowed (life i d) (life i d')" by (rule operated_step_allowed)
  then show ?thesis by (simp add: allowed_def)
qed

text \<open>The databases of a run: the schema's keys are constraints that SQLite enforces at every commit.\<close>

inductive reached :: "db \<Rightarrow> bool" where
  boot: "reached empty_db"
| step: "reached d \<Longrightarrow> operated_step d d' \<Longrightarrow> db_ok d' \<Longrightarrow> reached d'"

lemma reached_ok: "reached d \<Longrightarrow> db_ok d"
  by (induction rule: reached.induct) simp_all

lemma allowed_named: "allowed c c' \<Longrightarrow> represents a c \<Longrightarrow> \<exists>b. represents b c'"
  by (auto simp: allowed_def)

lemma reached_named: "reached d \<Longrightarrow> \<exists>a. represents a (life i d)"
proof (induction rule: reached.induct)
  case boot
  have "represents None (life i empty_db)" by (simp add: represents_def life_def find_sub_def empty_db_def)
  then show ?case by blast
next
  case (step d d')
  from step.IH obtain a where a: "represents a (life i d)" ..
  have "allowed (life i d) (life i d')" using step.hyps by (intro operated_step_allowed reached_ok)
  from allowed_named [OF this a] show ?case .
qed

text \<open>
  C4. The state column is an enumeration, although the schema stores text: in every database the daemon can
  reach from an empty one, each subscription is in one of the ten states of the specification, so that every
  match on the column (reconcile, capture, sweep, the operator's listings) meets a name it knows.
\<close>

theorem state_column_typed:
  assumes "reached d" "r \<in> set (subs d)"
  shows "\<exists>s. sub_state r = life_name s"
proof -
  have f: "find_sub (sub_id r) d = Some r" using assms by (simp add: find_sub_unique reached_ok)
  from reached_named [OF assms(1), of "sub_id r"] obtain a where "Some (sub_state r) = map_option life_name a"
    by (auto simp: life_def represents_def f)
  then show ?thesis by (cases a) auto
qed

subsection \<open>Runs\<close>

lemma held_reached: "reached held_db"
proof (rule reached.step [OF reached.boot])
  have "subs held_db = subs empty_db" by (simp add: held_db_def selling_db_def frame_simps)
  then show "operated_step empty_db held_db" by (intro operated_step.daemon daemon_step.quiet)
qed (rule selling_ok)

lemma sample_order_step:
  obtains w d' where "operated_step held_db d'" "reached d'" "subs d' = [order_sub w 10]" "sub_id (order_sub w 10) = ''ord:b0:r1''"
proof -
  let ?w = "order_written selling_ports sample_intake ''b0'' sample_order_request sample_listing sample_invoiced"
  obtain d' where run: "order_write_txn ?w 10 (Inr () :: store_error + unit) held_db = Inr (OrderCommitted, d')"
    using selling_commit by blast
  then have step: "operated_step held_db d'" by (intro operated_step.daemon daemon_step.order)
  note c = committed_order [OF selling_ok run]
  have "reached d'" by (rule reached.step [OF held_reached step c(1)])
  moreover have "subs d' = [order_sub ?w 10]" using c(2) by (simp add: held_db_def selling_db_def empty_db_def frame_simps)
  moreover have "sub_id (order_sub ?w 10) = ''ord:b0:r1''"
    by (simp add: order_sub_def order_written_def order_id_def sample_order_request_def)
  ultimately show thesis using step that by blast
qed

theorem daemon_refines_spec_witness:
  "\<exists>d' a b. operated_step held_db d' \<and> life ''ord:b0:r1'' d' = Some ''PENDING'' \<and>
     represents a None \<and> represents b (Some ''PENDING'') \<and> (life_step a b \<or> operator_step a b)"
proof -
  obtain w d' where s: "operated_step held_db d'" "subs d' = [order_sub w 10]" "sub_id (order_sub w 10) = ''ord:b0:r1''"
    by (rule sample_order_step)
  have l: "life ''ord:b0:r1'' held_db = None" "life ''ord:b0:r1'' d' = Some ''PENDING''"
    using s(2,3) by (simp_all add: life_def find_sub_def held_db_def selling_db_def empty_db_def frame_simps order_sub_def)
  from daemon_refines_spec [OF s(1) selling_ok, of "''ord:b0:r1''", unfolded l] show ?thesis
    using s(1) l(2) by (elim disjE exE) (simp, blast)
qed

theorem state_column_typed_witness:
  "\<exists>d r. reached d \<and> r \<in> set (subs d) \<and> sub_id r = ''ord:b0:r1'' \<and> (\<exists>s. sub_state r = life_name s)"
proof -
  obtain w d' where "reached d'" "subs d' = [order_sub w 10]" "sub_id (order_sub w 10) = ''ord:b0:r1''"
    by (rule sample_order_step)
  with state_column_typed [of d' "order_sub w 10"] show ?thesis by fastforce
qed

text \<open>
  \<open>admin_suspend\<close> writes the state only. The row keeps the cursor of its active period, here its soft date 990, and
  the loop reads the cursor of a suspended row as the end of its retention: the instance is destroyed at 990, before
  the paid period ends at 1000 and long before its retention of 50 s is over.
\<close>

definition shelved_db :: db where
  "shelved_db = insert_event (Some ''s1'') ''admin_suspend'' (JObj [(''to'', JStr ''SUSPENDED'')]) 980
     (sample_db [(sample_sub ''s1'' ''SUSPENDED'')\<lparr>sub_updated := 980\<rparr>] [])"

definition shelved_due :: due_sub where
  "shelved_due = \<lparr>ds_id = ''s1'', ds_state = ''SUSPENDED'', ds_buyer = ''b0'', ds_paid = Some 1000, ds_retention = 50,
     ds_deadline = 990, ds_floor = None, ds_recipe = Some ''vps''\<rparr>"

lemma shelved_pending: "renewal_settlement_pending sample_ports ''s1'' (sample_env shelved_db) = (False, sample_env shelved_db)"
  by (simp add: renewal_settlement_pending_def open_renewals_def shelved_db_def sample_defs frame_simps)

lemma shelved_hook: "run_lifecycle_hook sample_ports ''destroy'' ''s1'' b (sample_env shelved_db) = (None, sample_env shelved_db)"
  by (simp add: run_lifecycle_hook_def sample_ports_def)

lemma shelved_terminate: "\<exists>d'. terminate_txn ''s1'' 990 None None 990 shelved_db = Inr (True, d')"
  by (simp add: terminate_txn_def cas_sub_def shelved_db_def sample_defs insert_event_def Let_def)

lemma shelved_fired: "\<exists>e'. fire sample_ports 990 shelved_due (sample_env shelved_db) = (Terminated, Inr True, e')"
proof -
  obtain d' where t: "terminate_txn ''s1'' 990 None None 990 shelved_db = Inr (True, d')" using shelved_terminate by blast
  then have run: "run_tx (terminate_txn ''s1'' 990 None None 990) (sample_env shelved_db) = (Inr True, sample_env d')"
    by (simp add: run_tx_def transaction_def transaction_then_def sample_env_def)
  have own: "owns_row sample_ports (Some ''vps'')" by (simp add: owns_row_def sample_ports_def)
  have m: "subscription_matches_destroy ''s1'' 990 shelved_db"
    by (simp add: subscription_matches_destroy_def shelved_db_def sample_defs insert_event_def)
  show ?thesis
    by (simp add: fire_def fire_destroy_def shelved_due_def own m shelved_pending shelved_hook run)
qed

lemma admin_suspend_destroys_early:
  "admin_transition_txn ''s1'' [''ACTIVE''] ''SUSPENDED'' ''admin_suspend'' 980 (sample_db [sample_sub ''s1'' ''ACTIVE''] [])
     = Inr (True, shelved_db) \<and>
   due_subscriptions 990 shelved_db = [shelved_due] \<and>
   (\<exists>e'. fire sample_ports 990 shelved_due (sample_env shelved_db) = (Terminated, Inr True, e'))"
  using shelved_fired
  by (simp add: admin_transition_txn_def cas_sub_def shelved_db_def shelved_due_def sample_defs due_subscriptions_def due_of_def
      List.map_filter_def insert_event_def)

end
