(* ===== verification/Catch_Up.thy ===== *)
theory Catch_Up
  imports Reconcile Capture
begin

text \<open>
  The settlements the live stream missed (\<open>src/daemon/src/supervisor.rs\<close>, \<open>settlement_catch_up\<close>): the scan of the open
  invoices, the time a recovered payment is stamped with, and the settlement loop itself. The backend's
  answers are parameters; each may be followed by whatever the other tasks did meanwhile.
\<close>

record 'w settlement_source =
  ss_lookup :: "string \<Rightarrow> string \<Rightarrow> 'w env \<Rightarrow> (store_error + payment_status \<times> int option) \<times> 'w env"
    \<comment> \<open>\<open>lookup_settlement_by_ref(id, external_id)\<close>: the status and the time observed live\<close>
  ss_received :: "string \<Rightarrow> 'w env \<Rightarrow> (store_error + nat option) \<times> 'w env" \<comment> \<open>\<open>received_amount_msat\<close>\<close>
  ss_clock :: "'w env \<Rightarrow> int" \<comment> \<open>the clock, read once per paid row\<close>

subsection \<open>The scan\<close>

record catch_up_row =
  cu_id :: string
  cu_ext :: string
  cu_amount :: int
  cu_expires :: "int option"
  cu_kind :: string
  cu_paid :: "int option"
  cu_retention :: "int option"
  cu_floor :: "int option"

text \<open>The columns of the joined subscription; all NULL when the \<open>LEFT JOIN\<close> finds none.\<close>

definition joined_sub :: "(subscription \<Rightarrow> int option) \<Rightarrow> invoice \<Rightarrow> db \<Rightarrow> int option" where
  "joined_sub f i d = (case Option.bind (inv_sub i) (\<lambda>s. find_sub s d) of None \<Rightarrow> None | Some q \<Rightarrow> f q)"

definition catch_up_row_of :: "db \<Rightarrow> invoice \<Rightarrow> catch_up_row" where
  "catch_up_row_of d i =
     \<lparr>cu_id = inv_id i, cu_ext = inv_ext i, cu_amount = unwrap_or (inv_amount i) 0, cu_expires = inv_expires i,
      cu_kind = unwrap_or (inv_kind i) [], cu_paid = joined_sub sub_paid_through i d,
      cu_retention = joined_sub sub_retention_s i d, cu_floor = joined_sub sub_floor i d\<rparr>"

definition catch_up_rows :: "db \<Rightarrow> catch_up_row list" where
  "catch_up_rows d = map (catch_up_row_of d)
     (filter (\<lambda>i. inv_status i = ''OPEN'' \<and> inv_kind i \<in> {Some ''order'', Some ''renewal''}) (invoices d))"

subsection \<open>The time of a recovered payment\<close>

text \<open>\<open>c.saturating_sub(1)\<close> in \<open>int\<close>: no expiry is the least i64.\<close>

definition recovered_settled_at :: "int \<Rightarrow> int option \<Rightarrow> int" where
  "recovered_settled_at now cap =
     (case cap of None \<Rightarrow> now | Some c \<Rightarrow> if c \<le> now then c - 1 else now)"

definition min_opt :: "int option \<Rightarrow> int option \<Rightarrow> int option" where
  "min_opt a b =
     (case (a, b) of (Some x, Some y) \<Rightarrow> Some (min x y) | (x, None) \<Rightarrow> x | (None, y) \<Rightarrow> y)"

definition renewal_boundary :: "catch_up_row \<Rightarrow> int option" where
  "renewal_boundary r =
     (case (cu_paid r, cu_retention r) of
        (Some pt, Some ret) \<Rightarrow> if cu_kind r = ''renewal'' then Some (max pt (unwrap_or (cu_floor r) pt) + ret) else None
      | _ \<Rightarrow> None)"

definition stamped_at :: "catch_up_row \<Rightarrow> int option \<Rightarrow> int \<Rightarrow> int" where
  "stamped_at r observed now =
     (case observed of
        Some real \<Rightarrow> real
      | None \<Rightarrow> recovered_settled_at now (min_opt (cu_expires r) (renewal_boundary r)))"

subsection \<open>The pass\<close>

definition saturating_mul_u64 :: "nat \<Rightarrow> nat \<Rightarrow> nat" where
  "saturating_mul_u64 a b = min (2 ^ 64 - 1) (a * b)"

definition recovered_settlement :: "catch_up_row \<Rightarrow> int option \<Rightarrow> nat \<Rightarrow> int \<Rightarrow> settlement" where
  "recovered_settlement r observed received now =
     \<lparr>st_invoice = cu_id r, st_ext = cu_ext r, st_amount = as_u64 (cu_amount r), st_received = received,
      st_settled = stamped_at r observed now\<rparr>"

definition counts_as_caught :: "capture_outcome \<Rightarrow> bool" where
  "counts_as_caught c \<longleftrightarrow> c \<in> {Captured, Resumed, RefundDue}"

definition catch_up_one :: "'w settlement_source \<Rightarrow> catch_up_row \<Rightarrow> 'w env \<Rightarrow> (store_error + capture_outcome) option \<times> 'w env" where
  "catch_up_one S r e =
     (case ss_lookup S (cu_id r) (cu_ext r) e of
        (Inr (PsPaid, observed), e1) \<Rightarrow>
          (let now = ss_clock S e1 in
           case ss_received S (cu_id r) e1 of
             (Inl _, e2) \<Rightarrow> (None, e2)
           | (Inr m, e2) \<Rightarrow>
               (let received = (case m of Some msat \<Rightarrow> msat | None \<Rightarrow> saturating_mul_u64 (as_u64 (cu_amount r)) 1000)
                in case run_tx (capture_txn (recovered_settlement r observed received now) now) e2 of
                     (x, e3) \<Rightarrow> (Some x, e3)))
      | (_, e1) \<Rightarrow> (None, e1))"

fun catch_up_each :: "'w settlement_source \<Rightarrow> catch_up_row list \<Rightarrow> nat \<Rightarrow> 'w env \<Rightarrow> nat \<times> 'w env" where
  "catch_up_each S [] caught e = (caught, e)"
| "catch_up_each S (r # rs) caught e =
     (case catch_up_one S r e of
        (Some (Inr c), e') \<Rightarrow> catch_up_each S rs (if counts_as_caught c then caught + 1 else caught) e'
      | (_, e') \<Rightarrow> catch_up_each S rs caught e')"

definition settlement_catch_up :: "'w settlement_source \<Rightarrow> 'w env \<Rightarrow> nat \<times> 'w env" where
  "settlement_catch_up S e = catch_up_each S (catch_up_rows (e_db e)) 0 e"

subsection \<open>The recovered payment is granted\<close>

lemma recovered_before: "c = Some b \<Longrightarrow> recovered_settled_at now c < b"
  by (simp add: recovered_settled_at_def)

lemma min_opt_below: "min_opt a b = c \<Longrightarrow> (a = Some x \<longrightarrow> (\<exists>m. c = Some m \<and> m \<le> x)) \<and> (b = Some y \<longrightarrow> (\<exists>m. c = Some m \<and> m \<le> y))"
  by (auto simp: min_opt_def split: option.splits)

lemma stamped_in_window:
  assumes "cu_expires r = Some x \<or> renewal_boundary r = Some x"
  shows "stamped_at r None now < x"
proof -
  obtain m where m: "min_opt (cu_expires r) (renewal_boundary r) = Some m" "m \<le> x"
    using assms min_opt_below [of "cu_expires r" "renewal_boundary r" _ x x] by blast
  with recovered_before [OF m(1), of now] show ?thesis by (simp add: stamped_at_def)
qed

lemma recovered_not_expired:
  "cu_expires r = inv_expires i \<Longrightarrow> \<not> order_expired (inv_expires i) (recovered_settlement r None n now)"
  using stamped_in_window [of r "the (inv_expires i)" now]
  by (auto simp: order_expired_def recovered_settlement_def split: option.splits)

lemma recovered_not_past:
  assumes "cu_kind r = ''renewal''" "cu_paid r = sub_paid_through q" "cu_retention r = sub_retention_s q" "cu_floor r = sub_floor q"
    and "sub_retention_s q \<noteq> None"
  shows "\<not> past_retention q (recovered_settlement r None n now)"
proof (cases "sub_paid_through q")
  case (Some pt)
  with assms obtain ret where "sub_retention_s q = Some ret" by auto
  with assms Some have "renewal_boundary r = Some (max pt (unwrap_or (sub_floor q) pt) + ret)"
    by (simp add: renewal_boundary_def)
  from stamped_in_window [OF disjI2, OF this, of now] Some \<open>sub_retention_s q = Some ret\<close> show ?thesis
    by (simp add: past_retention_def recovered_settlement_def)
qed (simp add: past_retention_def)

lemma joined_sub_of: "inv_sub i = Some (sub_id q) \<Longrightarrow> find_sub (sub_id q) d = Some q \<Longrightarrow> joined_sub f i d = f q"
  by (simp add: joined_sub_def)

lemma row_joins:
  assumes "inv_sub i = Some (sub_id q)" "find_sub (sub_id q) d = Some q"
  shows "cu_paid (catch_up_row_of d i) = sub_paid_through q" "cu_retention (catch_up_row_of d i) = sub_retention_s q"
    "cu_floor (catch_up_row_of d i) = sub_floor q" "cu_expires (catch_up_row_of d i) = inv_expires i"
    "cu_ext (catch_up_row_of d i) = inv_ext i" "cu_kind (catch_up_row_of d i) = unwrap_or (inv_kind i) []"
  using joined_sub_of [OF assms] by (simp_all add: catch_up_row_of_def)

definition awaits_order :: "invoice \<Rightarrow> subscription \<Rightarrow> bool" where
  "awaits_order i q \<longleftrightarrow> inv_kind i = Some ''order'' \<and> sub_state q = ''PENDING''"

definition awaits_renewal :: "invoice \<Rightarrow> subscription \<Rightarrow> bool" where
  "awaits_renewal i q \<longleftrightarrow> inv_kind i = Some ''renewal'' \<and> sub_state q \<in> {''ACTIVE'', ''SUSPENDED'', ''RESUMING''}"

lemma recovered_buys:
  fixes n :: nat and now :: int
  assumes sub: "inv_sub i = Some (sub_id q)" "find_sub (sub_id q) d = Some q"
  defines "s \<equiv> recovered_settlement (catch_up_row_of d i) None n now"
  shows "buys_order s i q \<longleftrightarrow> awaits_order i q"
    and "buys_renewal s i q \<Longrightarrow> awaits_renewal i q"
    and "awaits_renewal i q \<Longrightarrow> sub_retention_s q \<noteq> None \<or> sub_paid_through q = None \<Longrightarrow> buys_renewal s i q"
proof -
  note join = row_joins [OF sub]
  have "\<not> order_expired (inv_expires i) s" unfolding s_def by (rule recovered_not_expired) (simp add: join)
  then show "buys_order s i q \<longleftrightarrow> awaits_order i q" by (auto simp: buys_order_def awaits_order_def order_expired_iff)
  show "buys_renewal s i q \<Longrightarrow> awaits_renewal i q" by (simp add: buys_renewal_def awaits_renewal_def)
  assume w: "awaits_renewal i q" and known: "sub_retention_s q \<noteq> None \<or> sub_paid_through q = None"
  have "\<not> past_retention q s"
  proof (cases "sub_paid_through q = None")
    case True
    then show ?thesis by (simp add: past_retention_def)
  next
    case False
    with known show ?thesis unfolding s_def by (intro recovered_not_past) (use w join in \<open>simp_all add: awaits_renewal_def\<close>)
  qed
  then show "buys_renewal s i q" using w by (auto simp: buys_renewal_def awaits_renewal_def past_retention_iff)
qed

lemma recovered_outcome:
  fixes n :: nat and now :: int
  assumes ok: "db_ok d" and i: "i \<in> set (invoices d)" "inv_status i = ''OPEN''" "inv_sub i = Some (sub_id q)"
    and q: "find_sub (sub_id q) d = Some q"
    and run: "capture_txn (recovered_settlement (catch_up_row_of d i) None n now) now d = Inr (c, d')"
  shows "awaits_order i q \<Longrightarrow> c = Captured \<and> order_bought now d d' q"
    and "awaits_renewal i q \<Longrightarrow> sub_retention_s q \<noteq> None \<or> sub_paid_through q = None \<Longrightarrow>
      c = (if sub_state q = ''ACTIVE'' then Renewed else Resumed) \<and>
      renewal_bought (recovered_settlement (catch_up_row_of d i) None n now) now d d' q"
    and "\<not> awaits_order i q \<Longrightarrow> \<not> awaits_renewal i q \<Longrightarrow>
      c = RefundDue \<and> owed_back (recovered_settlement (catch_up_row_of d i) None n now) d d'"
proof -
  let ?s = "recovered_settlement (catch_up_row_of d i) None n now"
  have ext: "st_ext ?s = inv_ext i" by (simp add: recovered_settlement_def row_joins [OF i(3) q])
  have f: "find_invoice_ext (st_ext ?s) d = Some i" unfolding ext by (rule find_invoice_ext_unique [OF ok i(1)])
  have b: "billed ?s d i q" using f i q by (simp add: billed_def)
  note buys = recovered_buys [OF i(3) q, of n now]
  show "c = Captured \<and> order_bought now d d' q" if "awaits_order i q"
    using capture_granted(1) [OF ok b run] buys(1) that by blast
  show "c = (if sub_state q = ''ACTIVE'' then Renewed else Resumed) \<and> renewal_bought ?s now d d' q"
    if "awaits_renewal i q" "sub_retention_s q \<noteq> None \<or> sub_paid_through q = None"
    using capture_granted(2) [OF ok b run] buys(3) [OF that] by blast
  show "c = RefundDue \<and> owed_back ?s d d'" if none: "\<not> awaits_order i q" "\<not> awaits_renewal i q"
  proof (rule capture_owed [OF ok _ _ run])
    show "\<not> already_applied ?s d" using f i(2) by (simp add: already_applied_def)
    show "\<not> buys_order ?s iv r \<and> \<not> buys_renewal ?s iv r" if "billed ?s d iv r" for iv r
    proof -
      from that b have "iv = i" "r = q" by (auto simp: billed_def)
      with buys(1,2) none show ?thesis by blast
    qed
  qed
qed

text \<open>
  C22. A payment that arrived while the daemon was down counts as made in time, however late the daemon came back. The catch-up
  scan lists every open order or renewal invoice. When the backend reports one paid, with no time of its own, and answers for the
  received amount, and neither the books moved nor the store failed in between, the pass captures it, of the amount answered, stamped
  before the invoice's expiry; and then a pending order is provisioned, and a renewal extends an active, suspended or resuming
  subscription by its period, even when its retention has run out meanwhile. Only a subscription that can no longer take it, such as one cancelled since,
  has it refunded. (A live row with a paid time and no retention time, which no order writes, is left open.)
\<close>

theorem recovered_payment_granted:
  assumes ok: "db_ok d" and i: "i \<in> set (invoices d)" "inv_status i = ''OPEN''" "inv_sub i = Some (sub_id q)"
    and kind: "inv_kind i \<in> {Some ''order'', Some ''renewal''}" and q: "find_sub (sub_id q) d = Some q"
    and lookup: "ss_lookup S (inv_id i) (inv_ext i) e = (Inr (PsPaid, None), e1)"
    and received: "ss_received S (inv_id i) e1 = (Inr m, e2)"
    and books: "e_db e2 = d" "\<not> st_degraded (e_store e2)"
  shows "catch_up_row_of d i \<in> set (catch_up_rows d) \<and>
    (\<exists>c e3 s. catch_up_one S (catch_up_row_of d i) e = (Some (Inr c), e3) \<and> st_ext s = inv_ext i \<and>
       (\<forall>msat. m = Some msat \<longrightarrow> st_received s = msat) \<and> (\<forall>x. inv_expires i = Some x \<longrightarrow> st_settled s < x) \<and>
       (inv_kind i = Some ''order'' \<and> sub_state q = ''PENDING'' \<longrightarrow>
          c = Captured \<and> order_bought (ss_clock S e1) d (e_db e3) q) \<and>
       (inv_kind i = Some ''renewal'' \<and> sub_state q \<in> {''ACTIVE'', ''SUSPENDED'', ''RESUMING''} \<and>
          (sub_retention_s q \<noteq> None \<or> sub_paid_through q = None) \<longrightarrow>
          c = (if sub_state q = ''ACTIVE'' then Renewed else Resumed) \<and> renewal_bought s (ss_clock S e1) d (e_db e3) q) \<and>
       (\<not> (inv_kind i = Some ''order'' \<and> sub_state q = ''PENDING'') \<and>
        \<not> (inv_kind i = Some ''renewal'' \<and> sub_state q \<in> {''ACTIVE'', ''SUSPENDED'', ''RESUMING''}) \<longrightarrow>
          c = RefundDue \<and> owed_back s d (e_db e3)))"
proof
  show "catch_up_row_of d i \<in> set (catch_up_rows d)"
    using i(1,2) kind by (auto simp: catch_up_rows_def)
  let ?r = "catch_up_row_of d i"
  let ?n = "case m of Some msat \<Rightarrow> msat | None \<Rightarrow> saturating_mul_u64 (as_u64 (cu_amount ?r)) 1000"
  let ?now = "ss_clock S e1"
  let ?s = "recovered_settlement ?r None ?n ?now"
  obtain c d' where run: "capture_txn ?s ?now d = Inr (c, d')" using capture_total [OF ok] by metis
  let ?e3 = "e2\<lparr>e_store := (e_store e2)\<lparr>st_db := d'\<rparr>\<rparr>"
  have id: "cu_id ?r = inv_id i" "cu_ext ?r = inv_ext i" by (simp_all add: catch_up_row_of_def)
  have "run_tx (capture_txn ?s ?now) e2 = (Inr c, ?e3)"
    using run books by (simp add: run_tx_def transaction_def transaction_then_def)
  then have "catch_up_one S ?r e = (Some (Inr c), ?e3)"
    by (simp add: catch_up_one_def id lookup received Let_def)
  moreover have "st_ext ?s = inv_ext i" "\<forall>x. inv_expires i = Some x \<longrightarrow> st_settled ?s < x" "\<forall>msat. m = Some msat \<longrightarrow> st_received ?s = msat"
    using row_joins(4,5) [OF i(3) q] stamped_in_window [of ?r] by (auto simp: recovered_settlement_def)
  ultimately show "\<exists>c e3 s. catch_up_one S ?r e = (Some (Inr c), e3) \<and> st_ext s = inv_ext i \<and>
       (\<forall>msat. m = Some msat \<longrightarrow> st_received s = msat) \<and> (\<forall>x. inv_expires i = Some x \<longrightarrow> st_settled s < x) \<and>
       (inv_kind i = Some ''order'' \<and> sub_state q = ''PENDING'' \<longrightarrow> c = Captured \<and> order_bought ?now d (e_db e3) q) \<and>
       (inv_kind i = Some ''renewal'' \<and> sub_state q \<in> {''ACTIVE'', ''SUSPENDED'', ''RESUMING''} \<and>
          (sub_retention_s q \<noteq> None \<or> sub_paid_through q = None) \<longrightarrow>
          c = (if sub_state q = ''ACTIVE'' then Renewed else Resumed) \<and> renewal_bought s ?now d (e_db e3) q) \<and>
       (\<not> (inv_kind i = Some ''order'' \<and> sub_state q = ''PENDING'') \<and>
        \<not> (inv_kind i = Some ''renewal'' \<and> sub_state q \<in> {''ACTIVE'', ''SUSPENDED'', ''RESUMING''}) \<longrightarrow>
          c = RefundDue \<and> owed_back s d (e_db e3))"
    using recovered_outcome [OF ok i q run]
    by (intro exI [of _ c] exI [of _ ?e3] exI [of _ ?s]) (simp add: awaits_order_def awaits_renewal_def)
qed

text \<open>A payment the backend saw live keeps its own time, so a late one is still refunded.\<close>

lemma live_time_kept: "st_settled (recovered_settlement r (Some t) n now) = t"
  by (simp add: recovered_settlement_def stamped_at_def)

subsection \<open>A run\<close>

definition missed_db :: db where
  "missed_db = sample_db [sample_sub ''s1'' ''PENDING''] [sample_invoice ''s1'' ''x1'' ''order'' ''OPEN'']"

definition paid_source :: "unit settlement_source" where
  "paid_source = \<lparr>ss_lookup = (\<lambda>i x e. (Inr (PsPaid, None), e)), ss_received = (\<lambda>i e. (Inr None, e)), ss_clock = (\<lambda>e. 5000)\<rparr>"

definition missed_env :: "unit env" where
  "missed_env = \<lparr>e_store = \<lparr>st_db = missed_db, st_degraded = False\<rparr>, e_alerts = None, e_world = ()\<rparr>"

theorem recovered_payment_granted_witness:
  "\<exists>e3. catch_up_one paid_source (catch_up_row_of missed_db (sample_invoice ''s1'' ''x1'' ''order'' ''OPEN'')) missed_env
      = (Some (Inr Captured), e3) \<and> order_bought 5000 missed_db (e_db e3) (sample_sub ''s1'' ''PENDING'')"
proof -
  let ?i = "sample_invoice ''s1'' ''x1'' ''order'' ''OPEN''"
  let ?q = "sample_sub ''s1'' ''PENDING''"
  have h: "db_ok missed_db" "?i \<in> set (invoices missed_db)" "inv_status ?i = ''OPEN''" "inv_sub ?i = Some (sub_id ?q)"
    "inv_kind ?i \<in> {Some ''order'', Some ''renewal''}" "find_sub (sub_id ?q) missed_db = Some ?q"
    by (simp_all add: missed_db_def sample_defs db_ok_def find_sub_def)
  have s: "ss_lookup paid_source (inv_id ?i) (inv_ext ?i) missed_env = (Inr (PsPaid, None), missed_env)"
    "ss_received paid_source (inv_id ?i) missed_env = (Inr None, missed_env)"
    "e_db missed_env = missed_db" "\<not> st_degraded (e_store missed_env)"
    by (simp_all add: paid_source_def missed_env_def)
  have k: "inv_kind ?i = Some ''order''" "sub_state ?q = ''PENDING''" "ss_clock paid_source missed_env = 5000"
    by (simp_all add: sample_defs paid_source_def)
  from recovered_payment_granted [OF h s, THEN conjunct2] k show ?thesis by (elim exE conjE) auto
qed

end
