(* ===== verification/Supervisor.thy ===== *)
theory Supervisor
  imports Catch_Up Relay_Status Outbox Provision Resume Sweep Op_Dispatch
begin

text \<open>
  The task wiring of \<open>src/daemon/src/supervisor.rs\<close>: the restart loop every long-lived task runs under, with its
  backoff; the capacity budget read at boot; the holdings floor; and the two compositions of the drivers, the
  recovery at boot and the serialised maintenance pass.
\<close>

subsection \<open>Supervised loops\<close>

text \<open>Durations are in milliseconds.\<close>

record backoff =
  bo_base :: nat
  bo_max :: nat

definition restart_backoff :: backoff where
  "restart_backoff = \<lparr>bo_base = 200, bo_max = 15000\<rparr>"

datatype child_exit = ExitClean | ExitError | ExitPanic | ExitCancelled

text \<open>When the shutdown was observed: not during this run, while the child ran (and it then ended within the drain
  window, or not), or in the pause before the restart.\<close>

datatype stop_signal = NoStop | StopRunning bool | StopWaiting

record child_run =
  cr_exit :: child_exit
  cr_elapsed :: nat
  cr_stop :: stop_signal

datatype loop_event = Started | Slept nat | Aborted | DrainRunning | DrainStopped | Returned

definition pause_after :: "backoff \<Rightarrow> nat \<Rightarrow> child_run \<Rightarrow> nat" where
  "pause_after B delay r = (if bo_max B \<le> cr_elapsed r then bo_base B else delay)"

definition next_delay :: "backoff \<Rightarrow> nat \<Rightarrow> nat" where
  "next_delay B d = min (d * 2) (bo_max B)"

text \<open>The runs of the child until the shutdown, which the loop head then sees.\<close>

fun supervise :: "backoff \<Rightarrow> nat \<Rightarrow> child_run list \<Rightarrow> loop_event list" where
  "supervise B delay [] = [Returned]"
| "supervise B delay (r # rs) = Started #
     (case cr_stop r of
        StopRunning finished \<Rightarrow> (if finished then [Returned] else [Aborted, Returned])
      | StopWaiting \<Rightarrow> (if cr_exit r = ExitCancelled then [Returned] else [Slept (pause_after B delay r), Returned])
      | NoStop \<Rightarrow>
          (if cr_exit r = ExitCancelled then [Returned]
           else Slept (pause_after B delay r) # supervise B (next_delay B (pause_after B delay r)) rs))"

text \<open>The inbound loop also drains the accepted messages before it returns for a shutdown.\<close>

fun supervise_inbound :: "backoff \<Rightarrow> nat \<Rightarrow> child_run list \<Rightarrow> loop_event list" where
  "supervise_inbound B delay [] = [DrainStopped, Returned]"
| "supervise_inbound B delay (r # rs) = Started #
     (case cr_stop r of
        StopRunning _ \<Rightarrow> [DrainRunning, Returned]
      | StopWaiting \<Rightarrow>
          (if cr_exit r = ExitCancelled then [Returned] else [Slept (pause_after B delay r), DrainStopped, Returned])
      | NoStop \<Rightarrow>
          (if cr_exit r = ExitCancelled then [Returned]
           else Slept (pause_after B delay r) # supervise_inbound B (next_delay B (pause_after B delay r)) rs))"

definition crashes_quickly :: "backoff \<Rightarrow> child_run \<Rightarrow> bool" where
  "crashes_quickly B r \<longleftrightarrow> cr_stop r = NoStop \<and> cr_exit r \<noteq> ExitCancelled \<and> cr_elapsed r < bo_max B"

lemma supervise_quick:
  assumes "list_all (crashes_quickly B) rs" "bo_base B \<le> bo_max B"
  shows "supervise B (min (bo_base B * 2 ^ k) (bo_max B)) rs =
     concat (map (\<lambda>n. [Started, Slept (min (bo_base B * 2 ^ (k + n)) (bo_max B))]) [0..<length rs]) @ [Returned]"
  using assms
proof (induction rs arbitrary: k)
  case (Cons r rs)
  let ?d = "\<lambda>n. min (bo_base B * 2 ^ n) (bo_max B)"
  from Cons.prems have r: "cr_stop r = NoStop" "cr_exit r \<noteq> ExitCancelled" "pause_after B (?d k) r = ?d k"
    by (auto simp: crashes_quickly_def pause_after_def)
  have step: "next_delay B (?d k) = ?d (Suc k)"
    by (simp add: next_delay_def min_def)
  have "supervise B (?d k) (r # rs) = Started # Slept (?d k) # supervise B (?d (Suc k)) rs"
    using r by (simp add: step del: min_mult_distrib_right)
  also have "supervise B (?d (Suc k)) rs =
      concat (map (\<lambda>n. [Started, Slept (?d (Suc k + n))]) [0..<length rs]) @ [Returned]"
    using Cons.prems by (intro Cons.IH) simp_all
  finally show ?case by (simp add: map_upt_Suc del: upt_Suc)
qed simp

text \<open>
  The restart policy in closed form: a task that keeps crashing (by a panic, an error or an unexpected end) is
  started again every time, after a pause that doubles from the base and stays at the maximum, until the shutdown.
\<close>

theorem restart_pauses_double:
  assumes "list_all (crashes_quickly restart_backoff) rs"
  shows "supervise restart_backoff (bo_base restart_backoff) rs =
     concat (map (\<lambda>n. [Started, Slept (min (200 * 2 ^ n) 15000)]) [0..<length rs]) @ [Returned]"
  using supervise_quick [OF assms, of 0] by (simp add: restart_backoff_def)

theorem restart_pauses_double_witness:
  "supervise restart_backoff (bo_base restart_backoff) (replicate 3 \<lparr>cr_exit = ExitPanic, cr_elapsed = 10, cr_stop = NoStop\<rparr>)
     = [Started, Slept 200, Started, Slept 400, Started, Slept 800, Returned]"
proof -
  have "list_all (crashes_quickly restart_backoff) (replicate 3 \<lparr>cr_exit = ExitPanic, cr_elapsed = 10, cr_stop = NoStop\<rparr>)"
    by (simp add: crashes_quickly_def restart_backoff_def numeral_3_eq_3)
  from restart_pauses_double [OF this] show ?thesis by (simp add: numeral_3_eq_3 del: supervise.simps)
qed

lemma pauses_bounded:
  assumes "bo_base B \<le> bo_max B" "bo_base B \<le> delay" "delay \<le> bo_max B"
  shows "Slept d \<in> set (supervise B delay rs) \<Longrightarrow> bo_base B \<le> d \<and> d \<le> bo_max B"
  using assms
proof (induction B delay rs rule: supervise.induct)
  case (2 B delay r rs)
  have p: "bo_base B \<le> pause_after B delay r" "pause_after B delay r \<le> bo_max B"
    using 2(2-) by (simp_all add: pause_after_def)
  have n: "bo_base B \<le> next_delay B (pause_after B delay r)" "next_delay B (pause_after B delay r) \<le> bo_max B"
    using p 2(2-) by (simp_all add: next_delay_def)
  from 2 p n show ?case by (auto split: stop_signal.splits if_splits)
qed simp

subsection \<open>The relay alert\<close>

fun blackout_ticks :: "blackout_monitor \<Rightarrow> (relay_row list \<times> int) list \<Rightarrow> bool list" where
  "blackout_ticks m [] = []"
| "blackout_ticks m ((rows, now) # rest) =
     (case onset_due rows now m of
        (due, m') \<Rightarrow> due # blackout_ticks (if due then mark_fired m' else m') rest)"

definition dark :: "relay_row list \<times> int \<Rightarrow> bool" where
  "dark t \<longleftrightarrow> all_disconnected (fst t)"

lemma fired_stays_quiet:
  "bm_fired m \<Longrightarrow> list_all dark ts \<Longrightarrow> blackout_ticks m ts = map (\<lambda>_. False) ts"
  by (induction ts arbitrary: m) (auto simp: onset_due_def dark_def Let_def)

lemma blackout_from:
  assumes "list_all dark ts" "sorted (map snd ts)"
  shows "blackout_ticks \<lparr>bm_onset = Some t0, bm_fired = False\<rparr> ts =
    map (\<lambda>n. 900 \<le> snd (ts ! n) - t0 \<and> (\<forall>k<n. snd (ts ! k) - t0 < 900)) [0..<length ts]"
  using assms
proof (induction ts)
  case (Cons t ts)
  obtain rows now where t: "t = (rows, now)" by (cases t)
  show ?case
  proof (cases "900 \<le> now - t0")
    case True
    have quiet: "blackout_ticks \<lparr>bm_onset = Some t0, bm_fired = True\<rparr> ts = map (\<lambda>_. False) [0..<length ts]"
      using Cons.prems by (subst fired_stays_quiet) (auto simp: map_replicate_const)
    have "\<not> (\<forall>k<Suc n. snd ((t # ts) ! k) - t0 < 900)" for n
      using True t by (auto intro!: exI [of _ 0])
    with True Cons.prems quiet t show ?thesis
      by (simp add: onset_due_def dark_def relay_blackout_alert_s_def mark_fired_def map_upt_Suc del: upt_Suc)
  next
    case False
    have "(\<forall>k<Suc n. snd ((t # ts) ! k) - t0 < 900) \<longleftrightarrow> (\<forall>k<n. snd (ts ! k) - t0 < 900)" for n
      using False t by (auto simp: less_Suc_eq_0_disj)
    with False Cons t show ?thesis
      by (simp add: onset_due_def dark_def relay_blackout_alert_s_def map_upt_Suc del: upt_Suc)
  qed
qed simp

text \<open>
  A relay blackout is reported exactly once: over any window in which every relay stays disconnected, the
  monitor asks for an alert at the first tick 15 minutes or more after the window began, and at no other tick,
  as long as each alert it asks for is confirmed.
\<close>

theorem blackout_reported_once:
  assumes "list_all dark (t # ts)" "sorted (map snd (t # ts))"
  shows "blackout_ticks new_monitor (t # ts) =
    map (\<lambda>n. 900 \<le> snd ((t # ts) ! n) - snd t \<and> (\<forall>k<n. snd ((t # ts) ! k) - snd t < 900)) [0..<Suc (length ts)]"
proof -
  have "blackout_ticks new_monitor (t # ts) = blackout_ticks \<lparr>bm_onset = Some (snd t), bm_fired = False\<rparr> (t # ts)"
    using assms(1) by (cases t) (simp add: new_monitor_def onset_due_def dark_def)
  also note blackout_from [OF assms, of "snd t"]
  finally show ?thesis by simp
qed

definition dark_tick :: "int \<Rightarrow> relay_row list \<times> int" where
  "dark_tick now = ([\<lparr>rw_url = ''wss://r'', rw_connected = False, rw_status = ''disconnected'', rw_last = None\<rparr>], now)"

theorem blackout_reported_once_witness:
  "blackout_ticks new_monitor [dark_tick 100, dark_tick 1000, dark_tick 2000] = [False, True, False]"
proof -
  have d: "list_all dark [dark_tick 100, dark_tick 1000, dark_tick 2000]"
    "sorted (map snd [dark_tick 100, dark_tick 1000, dark_tick 2000])"
    by (simp_all add: dark_tick_def dark_def all_disconnected_def)
  have three: "[0..<Suc (length [dark_tick 1000, dark_tick 2000])] = [0, Suc 0, Suc (Suc 0)]" by simp
  from blackout_reported_once [OF d, unfolded three] show ?thesis
    by (simp add: dark_tick_def All_less_Suc del: blackout_ticks.simps)
qed

subsection \<open>The budget at boot\<close>

definition fallback_budget :: budget where
  "fallback_budget = \<lparr>b_cpu = 2, b_mem_mb = 2048, b_disk_gb = 50, b_ports = 16\<rparr>"

definition fallback_box_id :: string where "fallback_box_id = ''box-0''"

text \<open>\<open>Value::as_u64\<close> and then \<open>as u32\<close>, which keeps the low 32 bits.\<close>

definition low_u32 :: "nat \<Rightarrow> nat" where "low_u32 n = n mod 2 ^ 32"

definition parse_budget :: "json \<Rightarrow> budget option" where
  "parse_budget j =
     (case (get_u64 ''cpu'' j, get_u64 ''mem_mb'' j, get_u64 ''disk_gb'' j) of
        (Some c, Some m, Some g) \<Rightarrow> Some \<lparr>b_cpu = low_u32 c, b_mem_mb = low_u32 m, b_disk_gb = low_u32 g,
            b_ports = low_u32 (unwrap_or (get_u64 ''ports'' j) 0)\<rparr>
      | _ \<Rightarrow> None)"

text \<open>The row of the \<open>box\<close> table with the least id, if the read succeeded and found one; \<open>parse\<close> is the JSON parser.\<close>

definition load_budget_and_box :: "(string \<Rightarrow> json option) \<Rightarrow> (string \<times> string option) option \<Rightarrow> budget \<times> string" where
  "load_budget_and_box parse row =
     (case row of
        Some (box, capacity) \<Rightarrow>
          (unwrap_or (Option.bind (Option.bind capacity parse) parse_budget) fallback_budget, box)
      | None \<Rightarrow> (fallback_budget, fallback_box_id))"

text \<open>A declared capacity of 2^32 CPUs becomes a box without any.\<close>

lemma oversized_capacity_wraps:
  "parse_budget (JObj [(''cpu'', JInt (2 ^ 32)), (''mem_mb'', JInt 1), (''disk_gb'', JInt 1)])
     = Some \<lparr>b_cpu = 0, b_mem_mb = 1, b_disk_gb = 1, b_ports = 0\<rparr>"
  by (simp add: parse_budget_def get_u64_def low_u32_def)

subsection \<open>The drivers together\<close>

record 'w daemon =
  da_source :: "'w settlement_source"
  da_ports :: "'w ports"
  da_provisioner :: provisioner
  da_pay :: "'w pay_backend"
  da_sweep :: "'w sweep_backend"
  da_courier :: "'w courier"
  da_clock :: "'w env \<Rightarrow> int"
  da_sync :: "(int \<Rightarrow> 'w env \<Rightarrow> 'w env) option" \<comment> \<open>the clock hook of the mock backend\<close>
  da_pool :: "'w env \<Rightarrow> relay_row list \<times> 'w env" \<comment> \<open>\<open>relay_status_snapshot\<close>\<close>
  da_witness :: "'w env \<Rightarrow> string \<Rightarrow> store_error + pay_status" \<comment> \<open>the pay witnesses the ledger asks for\<close>
  da_floor :: nat

definition minus_sign :: string where "minus_sign = [CHR 0xE2, CHR 0x88, CHR 0x92]"

definition holdings_detail :: "nat \<Rightarrow> nat \<Rightarrow> string" where
  "holdings_detail expected floor =
     ''ledger-expected holdings '' @ nat_str expected @ '' msat are below the configured books floor '' @ nat_str floor @
     '' msat. This is a books figure (net ledger receipts '' @ minus_sign @ '' refunds '' @ minus_sign @ '' sweeps), NOT the wallet '' @
     ''balance '' @ em_dash @ '' directly-seeded ecash is not counted, and no automatic path reads the federation '' @
     ''balance (ADR-0016). Liability-independent: fires even with nothing owed. Use `lnrent '' @
     ''reconcile` to check the books against the live wallet.''"

definition check_holdings_floor :: "'w daemon \<Rightarrow> 'w env \<Rightarrow> 'w env" where
  "check_holdings_floor D e =
     (if da_floor D = 0 then e
      else (case expected_msat (da_witness D e) (e_db e) of
              Inl _ \<Rightarrow> e
            | Inr expected \<Rightarrow>
                if da_floor D \<le> expected then e
                else send_alert (da_ports D) HoldingsLow ''holdings'' (holdings_detail expected (da_floor D)) (da_clock D e) e))"

record 'w house =
  ho_env :: "'w env"
  ho_monitor :: blackout_monitor
  ho_cell :: "relay_row list"

text \<open>\<open>refresh_relay_status\<close> on the shared dispatcher; the daemon always has one.\<close>

definition relay_pass :: "'w daemon \<Rightarrow> 'w house \<Rightarrow> 'w house" where
  "relay_pass D h =
     (case da_pool D (ho_env h) of (rows, e) \<Rightarrow>
        (case e_alerts e of
           None \<Rightarrow> h\<lparr>ho_env := e, ho_cell := rows\<rparr>
         | Some p \<Rightarrow>
             (let w = refresh_relay_status (po_digest (da_ports D)) (if st_degraded (e_store e) then Some Degraded else None)
                        rows (da_clock D e) \<lparr>rv_cell = ho_cell h, rv_monitor = ho_monitor h, rv_alerts = p, rv_db = e_db e\<rparr>
              in h\<lparr>ho_env := e\<lparr>e_alerts := Some (rv_alerts w), e_store := (e_store e)\<lparr>st_db := rv_db w\<rparr>\<rparr>,
                   ho_monitor := rv_monitor w, ho_cell := rv_cell w\<rparr>)))"

text \<open>The money steps every pass runs, each whatever became of the one before it.\<close>

definition drive_all :: "'w daemon \<Rightarrow> 'w env \<Rightarrow> 'w env" where
  "drive_all D e =
     (let e1 = snd (provision_recover (da_ports D) (da_provisioner D) (da_clock D e) e);
          e2 = snd (resume_recover (da_ports D) (da_clock D e1) e1);
          e3 = fst (snd (refund_drive (da_pay D) (da_clock D e2) e2))
      in fst (snd (sweep_drive (da_sweep D) (da_clock D e3) e3)))"

definition sync_clock :: "'w daemon \<Rightarrow> 'w env \<Rightarrow> 'w env" where
  "sync_clock D e = (case da_sync D of None \<Rightarrow> e | Some f \<Rightarrow> f (da_clock D e) e)"

definition maintenance_pass :: "'w daemon \<Rightarrow> bool \<Rightarrow> 'w house \<Rightarrow> 'w house" where
  "maintenance_pass D run_catch_up h =
     (let e0 = sync_clock D (ho_env h);
          e1 = (if run_catch_up then snd (settlement_catch_up (da_source D) e0) else e0);
          h1 = relay_pass D (h\<lparr>ho_env := drive_all D e1\<rparr>);
          e2 = check_holdings_floor D (ho_env h1)
      in h1\<lparr>ho_env := snd (drain_once (da_courier D) (da_clock D e2) e2)\<rparr>)"

text \<open>\<open>boot_recovery\<close>, in its order.\<close>

definition boot_recovery :: "'w daemon \<Rightarrow> 'w env \<Rightarrow> 'w env" where
  "boot_recovery D e =
     (let e1 = snd (run_tx (\<lambda>d. Inr (recover_interrupted_ops (da_clock D e) d)) e);
          e2 = snd (run_tx (apply_restart_downtime_credit (da_clock D e1)) e1);
          e3 = snd (settlement_catch_up (da_source D) e2);
          e4 = drive_all D e3;
          e5 = snd (reconcile_tick (da_ports D) (da_clock D e4) (da_clock D e4) e4)
      in snd (drain_once (da_courier D) (da_clock D e5) e5))"

end
