(* ===== verification/Config.thy ===== *)
theory Config
  imports Preflight Resolver
begin

text \<open>
  The operator's configuration (\<open>src/daemon/src/config.rs\<close>, first half): its four sources with their precedence, the
  environment knobs, and the checks that turn the merged document into the configuration the daemon runs with. The TOML,
  JSON and URL parsers are parameters. Errors carry their code; their texts are left out.
\<close>

subsection \<open>Errors\<close>

datatype config_error = ConfigInvalid | ConfigConflict | IdentityInvalid | SeedMissing | SeedConflict | NotSingleton | InternalError

fun error_code :: "config_error \<Rightarrow> string" where
  "error_code ConfigInvalid = ''config_invalid''"
| "error_code ConfigConflict = ''config_conflict''"
| "error_code IdentityInvalid = ''identity_invalid''"
| "error_code SeedMissing = ''seed_missing''"
| "error_code SeedConflict = ''seed_conflict''"
| "error_code NotSingleton = ''operator_not_singleton''"
| "error_code InternalError = ''internal''"

definition error_retryable :: "config_error \<Rightarrow> bool" where
  "error_retryable e \<longleftrightarrow> e = InternalError"

definition exit_code :: "string \<Rightarrow> nat" where
  "exit_code c =
     (if c \<in> {''config_invalid'', ''config_conflict'', ''identity_invalid'', ''seed_missing'', ''seed_conflict'',
              ''operator_not_singleton''} then 3
      else if c = ''internal'' then 5 else 1)"

text \<open>A caller may retry exactly the failures that do not exit with 3.\<close>

lemma exit_code_of: "exit_code (error_code e) = (if error_retryable e then 5 else 3)"
  by (cases e) (simp_all add: exit_code_def error_retryable_def)

subsection \<open>The documents\<close>

record raw_phoenixd =
  rx_url :: "string option"
  rx_password :: "string option"
  rx_version :: "string option"
  rx_base :: "nat option"
  rx_ppm :: "nat option"
  rx_accept :: "bool option"

record raw_config =
  rc_data_dir :: "string option"
  rc_relays :: "string list option"
  rc_payment :: "string option"
  rc_compute :: "string option"
  rc_invite :: "string option"
  rc_gateway :: "string option"
  rc_fallbacks :: "string list option"
  rc_ph_url :: "string option"
  rc_ph_password :: "string option"
  rc_ph_version :: "string option"
  rc_ph_base :: "nat option"
  rc_ph_ppm :: "nat option"
  rc_ph_accept :: "bool option"
  rc_phoenixd :: "raw_phoenixd option"
  rc_mnemonic :: "string option"
  rc_holdings :: "nat option"

definition empty_phoenixd :: raw_phoenixd where
  "empty_phoenixd = \<lparr>rx_url = None, rx_password = None, rx_version = None, rx_base = None, rx_ppm = None, rx_accept = None\<rparr>"

definition empty_config :: raw_config where
  "empty_config = \<lparr>rc_data_dir = None, rc_relays = None, rc_payment = None, rc_compute = None, rc_invite = None,
     rc_gateway = None, rc_fallbacks = None, rc_ph_url = None, rc_ph_password = None, rc_ph_version = None,
     rc_ph_base = None, rc_ph_ppm = None, rc_ph_accept = None, rc_phoenixd = None, rc_mnemonic = None, rc_holdings = None\<rparr>"

definition non_empty :: "string option \<Rightarrow> string option" where
  "non_empty s = (case s of None \<Rightarrow> None | Some x \<Rightarrow> if str_trim x = [] then None else Some (str_trim x))"

text \<open>\<open>Option::or\<close>; the secrets are overlaid the same way, and the shadowed copy is wiped.\<close>

definition option_or :: "'a option \<Rightarrow> 'a option \<Rightarrow> 'a option" where
  "option_or a b = (case a of None \<Rightarrow> b | Some x \<Rightarrow> Some x)"

type_synonym raw_schedule = "string option \<times> nat option \<times> nat option"

text \<open>The fee schedule is taken whole from the highest source that names any of its fields.\<close>

definition overlay_fee_schedule :: "raw_schedule \<Rightarrow> raw_schedule \<Rightarrow> raw_schedule" where
  "overlay_fee_schedule high low = (if high = (None, None, None) then low else high)"

definition sanitized_relays :: "string list \<Rightarrow> string list option" where
  "sanitized_relays rs =
     (let cleaned = List.map_filter (\<lambda>r. non_empty (Some r)) rs in if cleaned = [] then None else Some cleaned)"

definition fee_fields :: "raw_config \<Rightarrow> raw_schedule" where
  "fee_fields r = (rc_ph_version r, rc_ph_base r, rc_ph_ppm r)"

definition with_fee :: "raw_schedule \<Rightarrow> raw_config \<Rightarrow> raw_config" where
  "with_fee s r = (case s of (v, b, p) \<Rightarrow> r\<lparr>rc_ph_version := v, rc_ph_base := b, rc_ph_ppm := p\<rparr>)"

definition sanitized :: "raw_config \<Rightarrow> raw_config" where
  "sanitized r =
     (let x = unwrap_or (rc_phoenixd r) empty_phoenixd
      in with_fee
           (overlay_fee_schedule (non_empty (rc_ph_version r), rc_ph_base r, rc_ph_ppm r)
              (non_empty (rx_version x), rx_base x, rx_ppm x))
           (r\<lparr>rc_data_dir := non_empty (rc_data_dir r), rc_relays := Option.bind (rc_relays r) sanitized_relays,
             rc_payment := non_empty (rc_payment r), rc_compute := non_empty (rc_compute r),
             rc_invite := non_empty (rc_invite r), rc_gateway := non_empty (rc_gateway r),
             rc_ph_url := option_or (non_empty (rc_ph_url r)) (non_empty (rx_url x)),
             rc_ph_password := option_or (non_empty (rc_ph_password r)) (non_empty (rx_password x)),
             rc_ph_accept := option_or (rc_ph_accept r) (rx_accept x), rc_phoenixd := None,
             rc_mnemonic := (case rc_mnemonic r of None \<Rightarrow> None | Some m \<Rightarrow> if str_trim m = [] then None else Some m)\<rparr>))"

definition overlay :: "raw_config \<Rightarrow> raw_config \<Rightarrow> raw_config" where
  "overlay h l = with_fee (overlay_fee_schedule (fee_fields h) (fee_fields l))
     \<lparr>rc_data_dir = option_or (rc_data_dir h) (rc_data_dir l), rc_relays = option_or (rc_relays h) (rc_relays l),
      rc_payment = option_or (rc_payment h) (rc_payment l), rc_compute = option_or (rc_compute h) (rc_compute l),
      rc_invite = option_or (rc_invite h) (rc_invite l), rc_gateway = option_or (rc_gateway h) (rc_gateway l),
      rc_fallbacks = option_or (rc_fallbacks h) (rc_fallbacks l), rc_ph_url = option_or (rc_ph_url h) (rc_ph_url l),
      rc_ph_password = option_or (rc_ph_password h) (rc_ph_password l), rc_ph_version = None, rc_ph_base = None,
      rc_ph_ppm = None, rc_ph_accept = option_or (rc_ph_accept h) (rc_ph_accept l), rc_phoenixd = None,
      rc_mnemonic = option_or (rc_mnemonic h) (rc_mnemonic l), rc_holdings = option_or (rc_holdings h) (rc_holdings l)\<rparr>"

definition from_sources :: "raw_config \<Rightarrow> raw_config \<Rightarrow> raw_config \<Rightarrow> raw_config \<Rightarrow> raw_config" where
  "from_sources flags en file stdin =
     overlay (overlay (overlay (sanitized flags) (sanitized en)) (sanitized file)) (sanitized stdin)"

subsection \<open>The environment\<close>

definition bool_word :: "string \<Rightarrow> bool option" where
  "bool_word s =
     (if lower s \<in> {''true'', ''1'', ''yes'', ''on''} then Some True
      else if lower s \<in> {''false'', ''0'', ''no'', ''off''} then Some False else None)"

definition parse_min_holdings_env :: "string option \<Rightarrow> config_error + nat option" where
  "parse_min_holdings_env v =
     (case non_empty v of None \<Rightarrow> Inr None
      | Some s \<Rightarrow> (case parse_u64 s of Some n \<Rightarrow> Inr (Some n) | None \<Rightarrow> Inl ConfigInvalid))"

definition parse_accept_env :: "string option \<Rightarrow> config_error + bool option" where
  "parse_accept_env v =
     (case non_empty v of None \<Rightarrow> Inr None
      | Some s \<Rightarrow> (case bool_word s of Some b \<Rightarrow> Inr (Some b) | None \<Rightarrow> Inl ConfigInvalid))"

definition raw_config_from_env :: "(string \<Rightarrow> string option) \<Rightarrow> config_error + raw_config" where
  "raw_config_from_env get =
     (case parse_accept_env (get ''LNRENT_PHOENIXD_ACCEPT_UNSUPPORTED'') of
        Inl e \<Rightarrow> Inl e
      | Inr accept \<Rightarrow>
          (case parse_min_holdings_env (get ''LNRENT_MIN_HOLDINGS_WARN_MSAT'') of
             Inl e \<Rightarrow> Inl e
           | Inr holdings \<Rightarrow> Inr (empty_config
               \<lparr>rc_data_dir := get ''LNRENT_DATA_DIR'',
                rc_relays := map_option (\<lambda>s. filter (\<lambda>x. x \<noteq> []) (map str_trim (split_char CHR '','' s))) (get ''LNRENT_RELAYS''),
                rc_payment := get ''LNRENT_PAYMENT_BACKEND'', rc_compute := get ''LNRENT_COMPUTE_BACKEND'',
                rc_invite := get ''LNRENT_FEDIMINT_INVITE'', rc_ph_url := get ''LNRENT_PHOENIXD_URL'',
                rc_ph_password := get ''LNRENT_PHOENIXD_API_PASSWORD'', rc_ph_accept := accept,
                rc_mnemonic := get ''LNRENT_MNEMONIC'', rc_holdings := holdings\<rparr>)))"

text \<open>\<open>str::parse::<u32>\<close>.\<close>

definition parse_u32 :: "string \<Rightarrow> nat option" where
  "parse_u32 s = (case parse_u64 s of Some n \<Rightarrow> if n < 2 ^ 32 then Some n else None | None \<Rightarrow> None)"

definition u32_env_or_default :: "string option \<Rightarrow> nat \<Rightarrow> nat" where
  "u32_env_or_default v d = (case non_empty v of None \<Rightarrow> d | Some s \<Rightarrow> unwrap_or (parse_u32 s) d)"

definition max_live_holds_per_buyer :: "string option \<Rightarrow> nat" where
  "max_live_holds_per_buyer v = u32_env_or_default v 2"

definition inbound_rate_capacity :: "string option \<Rightarrow> nat" where
  "inbound_rate_capacity v = u32_env_or_default v 10"

definition inbound_rate_refill_per_min :: "string option \<Rightarrow> nat" where
  "inbound_rate_refill_per_min v = u32_env_or_default v 6"

subsection \<open>Documents and sources\<close>

text \<open>\<open>parse_raw_config_doc\<close>: TOML first, then JSON.\<close>

definition parse_raw_config_doc ::
  "(string \<Rightarrow> raw_config option) \<Rightarrow> (string \<Rightarrow> raw_config option) \<Rightarrow> string \<Rightarrow> config_error + raw_config" where
  "parse_raw_config_doc toml json text =
     (if str_trim text = [] then Inr empty_config
      else (case toml text of Some c \<Rightarrow> Inr c
            | None \<Rightarrow> (case json text of Some c \<Rightarrow> Inr c | None \<Rightarrow> Inl ConfigInvalid)))"

definition line_number :: "string \<Rightarrow> nat \<Rightarrow> nat" where
  "line_number text off = length (filter (\<lambda>c. c = CHR 0x0A) (take off text)) + 1"

definition resolve_config_path :: "string option \<Rightarrow> string option \<Rightarrow> string option" where
  "resolve_config_path flag en = option_or (case flag of Some p \<Rightarrow> if p = [] then None else Some p | None \<Rightarrow> None) (non_empty en)"

record sources =
  so_get :: "string \<Rightarrow> string option" \<comment> \<open>the environment\<close>
  so_toml :: "string \<Rightarrow> raw_config option"
  so_json :: "string \<Rightarrow> raw_config option"
  so_file :: "string \<Rightarrow> string option" \<comment> \<open>\<open>fs::read_to_string\<close>\<close>
  so_stdin :: "string option"

definition read_doc :: "sources \<Rightarrow> config_error \<Rightarrow> string option \<Rightarrow> config_error + raw_config" where
  "read_doc S e text = (case text of None \<Rightarrow> Inl e | Some t \<Rightarrow> parse_raw_config_doc (so_toml S) (so_json S) t)"

definition load_raw_config :: "sources \<Rightarrow> raw_config \<Rightarrow> string option \<Rightarrow> bool \<Rightarrow> config_error + raw_config" where
  "load_raw_config S flags path read_stdin =
     (case raw_config_from_env (so_get S) of
        Inl e \<Rightarrow> Inl e
      | Inr en \<Rightarrow>
          (case (case resolve_config_path path (so_get S ''LNRENT_CONFIG'') of
                   Some p \<Rightarrow> read_doc S ConfigInvalid (so_file S p) | None \<Rightarrow> Inr empty_config) of
             Inl e \<Rightarrow> Inl e
           | Inr file \<Rightarrow>
               (case (if read_stdin then read_doc S InternalError (so_stdin S) else Inr empty_config) of
                  Inl e \<Rightarrow> Inl e
                | Inr stdin \<Rightarrow> Inr (from_sources flags en file stdin))))"

subsection \<open>The resolved configuration\<close>

datatype payment_mode = Mock | Fedimint | Phoenixd_Mode

fun mode_str :: "payment_mode \<Rightarrow> string" where
  "mode_str Mock = ''mock''"
| "mode_str Fedimint = ''fedimint''"
| "mode_str Phoenixd_Mode = ''phoenixd''"

definition parse_mode :: "string \<Rightarrow> config_error + payment_mode" where
  "parse_mode s =
     (if s = ''mock'' then Inr Mock else if s = ''fedimint'' then Inr Fedimint
      else if s = ''phoenixd'' then Inr Phoenixd_Mode else Inl ConfigInvalid)"

lemma parse_mode_str [simp]: "parse_mode (mode_str m) = Inr m"
  by (cases m) (simp_all add: parse_mode_def)

text \<open>Alerts default to on for the backends that move money.\<close>

definition alerts_enabled :: "payment_mode \<Rightarrow> string option \<Rightarrow> bool" where
  "alerts_enabled m v = (case non_empty v of None \<Rightarrow> m \<noteq> Mock | Some s \<Rightarrow> unwrap_or (bool_word s) (m \<noteq> Mock))"

definition alert_npub :: "string option \<Rightarrow> string option" where
  "alert_npub v = non_empty v"

record fee_schedule =
  fe_version :: string
  fe_base :: nat
  fe_ppm :: nat

record phoenixd_config =
  px_url :: string
  px_password :: string
  px_fees :: "fee_schedule option"

record operator_config =
  oc_data_dir :: string
  oc_relays :: "string list"
  oc_payment :: payment_mode
  oc_compute :: string
  oc_invite :: "string option"
  oc_phoenixd :: "phoenixd_config option"
  oc_holdings :: nat

text \<open>What \<open>url::Url::parse\<close> yields.\<close>

record base_url =
  bu_scheme :: string
  bu_host :: "host option"
  bu_username :: string
  bu_password :: "string option"
  bu_query :: "string option"
  bu_fragment :: "string option"
  bu_text :: string

definition ip_is_loopback :: "ip_addr \<Rightarrow> bool" where
  "ip_is_loopback a = (case a of V4 x \<Rightarrow> v4_is_loopback x | V6 x \<Rightarrow> v6_is_loopback x)"

definition loopback_host :: "host \<Rightarrow> bool" where
  "loopback_host h =
     (case h of HIp a \<Rightarrow> ip_is_loopback a
      | HDomain n \<Rightarrow> lower n = ''localhost'' \<or> ends_with ''.localhost'' (lower n))"

definition validate_phoenixd_url :: "(string \<Rightarrow> base_url option) \<Rightarrow> string \<Rightarrow> config_error + string" where
  "validate_phoenixd_url url s =
     (case url s of
        None \<Rightarrow> Inl ConfigInvalid
      | Some u \<Rightarrow>
          (case bu_host u of
             None \<Rightarrow> Inl ConfigInvalid
           | Some h \<Rightarrow>
               if bu_username u \<noteq> [] \<or> bu_password u \<noteq> None then Inl ConfigInvalid
               else if bu_query u \<noteq> None \<or> bu_fragment u \<noteq> None then Inl ConfigInvalid
               else if bu_scheme u = ''https'' \<or> bu_scheme u = ''http'' \<and> loopback_host h
               then Inr (if ends_with ''/'' (bu_text u) then bu_text u else bu_text u @ ''/'')
               else Inl ConfigInvalid))"

definition phoenixd_block :: "(raw_phoenixd \<Rightarrow> 'a option) \<Rightarrow> raw_config \<Rightarrow> 'a option" where
  "phoenixd_block f r = Option.bind (rc_phoenixd r) f"

definition opted_in :: "raw_config \<Rightarrow> bool" where
  "opted_in r = unwrap_or (option_or (rc_ph_accept r) (phoenixd_block rx_accept r)) False"

definition supplied_fee_schedule :: "raw_config \<Rightarrow> config_error + fee_schedule option" where
  "supplied_fee_schedule r =
     (case (option_or (non_empty (rc_ph_version r)) (phoenixd_block (\<lambda>x. non_empty (rx_version x)) r),
            option_or (rc_ph_base r) (phoenixd_block rx_base r), option_or (rc_ph_ppm r) (phoenixd_block rx_ppm r)) of
        (None, None, None) \<Rightarrow> Inr None
      | (Some v, Some b, Some p) \<Rightarrow> Inr (Some \<lparr>fe_version = v, fe_base = b, fe_ppm = p\<rparr>)
      | _ \<Rightarrow> Inl ConfigInvalid)"

definition supplied_phoenixd_config :: "(string \<Rightarrow> base_url option) \<Rightarrow> raw_config \<Rightarrow> config_error + phoenixd_config" where
  "supplied_phoenixd_config url r =
     (if \<not> opted_in r then Inl ConfigInvalid
      else (case option_or (non_empty (rc_ph_url r)) (phoenixd_block (\<lambda>x. non_empty (rx_url x)) r) of
              None \<Rightarrow> Inl ConfigInvalid
            | Some u \<Rightarrow>
                (case validate_phoenixd_url url u of
                   Inl e \<Rightarrow> Inl e
                 | Inr u' \<Rightarrow>
                     (case supplied_fee_schedule r of
                        Inl e \<Rightarrow> Inl e
                      | Inr fees \<Rightarrow>
                          (case option_or (non_empty (rc_ph_password r)) (phoenixd_block (\<lambda>x. non_empty (rx_password x)) r) of
                             None \<Rightarrow> Inl ConfigInvalid
                           | Some pw \<Rightarrow> Inr \<lparr>px_url = u', px_password = pw, px_fees = fees\<rparr>)))))"

definition default_relays :: "string list" where
  "default_relays = [''wss://relay.damus.io'', ''wss://nos.lol'', ''wss://relay.primal.net'']"

definition normalize_relays :: "string list \<Rightarrow> string list" where
  "normalize_relays rs = unwrap_or (sanitized_relays rs) default_relays"

definition relays_explicitly_supplied :: "raw_config \<Rightarrow> bool" where
  "relays_explicitly_supplied r \<longleftrightarrow> (\<exists>rs. rc_relays r = Some rs \<and> (\<exists>x\<in>set rs. str_trim x \<noteq> []))"

definition websocket_url :: "string \<Rightarrow> bool" where
  "websocket_url s \<longleftrightarrow> starts_with ''ws://'' s \<or> starts_with ''wss://'' s"

definition supplied_mode :: "raw_config \<Rightarrow> config_error + payment_mode" where
  "supplied_mode r = (case non_empty (rc_payment r) of Some s \<Rightarrow> parse_mode s | None \<Rightarrow> Inr Mock)"

definition resolve_config :: "(string \<Rightarrow> base_url option) \<Rightarrow> raw_config \<Rightarrow> config_error + operator_config" where
  "resolve_config url r =
     (case supplied_mode r of
        Inl e \<Rightarrow> Inl e
      | Inr mode \<Rightarrow>
          (case (if mode = Phoenixd_Mode then map_sum id Some (supplied_phoenixd_config url r) else Inr None) of
             Inl e \<Rightarrow> Inl e
           | Inr phoenixd \<Rightarrow>
               (let relays = (case rc_relays r of Some rs \<Rightarrow> if rs = [] then default_relays else normalize_relays rs
                              | None \<Rightarrow> default_relays)
                in if \<not> list_all websocket_url relays then Inl ConfigInvalid
                   else Inr \<lparr>oc_data_dir = unwrap_or (non_empty (rc_data_dir r)) ''./data'', oc_relays = relays,
                     oc_payment = mode, oc_compute = ''host'',
                     oc_invite = (if mode = Fedimint then non_empty (rc_invite r) else None), oc_phoenixd = phoenixd,
                     oc_holdings = unwrap_or (rc_holdings r) 0\<rparr>)))"

end
