(* ===== verification/Config_Props.thy ===== *)
theory Config_Props
  imports Config
begin

text \<open>What the layering of the configuration sources guarantees.\<close>

subsection \<open>Trimming\<close>

lemma trim_left_idem: "dropWhile P (rev (dropWhile P (rev (dropWhile P xs)))) = rev (dropWhile P (rev (dropWhile P xs)))"
proof (cases "dropWhile P xs")
  case Nil
  then show ?thesis by (simp only: Nil rev.simps dropWhile.simps)
next
  case (Cons y ys)
  then have "\<not> P y" by (simp add: dropWhile_eq_Cons_conv)
  then have "dropWhile P (rev (y # ys)) = dropWhile P (rev ys) @ [y]" by (simp add: dropWhile_append)
  with Cons \<open>\<not> P y\<close> show ?thesis by simp
qed

lemma trim_idem [simp]: "str_trim (str_trim s) = str_trim s"
  by (simp add: str_trim_def trim_left_idem)

lemma non_empty_idem [simp]: "non_empty (non_empty s) = non_empty s"
  by (cases s) (simp_all add: non_empty_def)

subsection \<open>The fee schedule\<close>

text \<open>The two places of one document that can hold a schedule, the flat keys first.\<close>

definition flat_schedule :: "raw_config \<Rightarrow> raw_schedule" where
  "flat_schedule r = (non_empty (rc_ph_version r), rc_ph_base r, rc_ph_ppm r)"

definition block_schedule :: "raw_config \<Rightarrow> raw_schedule" where
  "block_schedule r = (case rc_phoenixd r of None \<Rightarrow> (None, None, None)
     | Some x \<Rightarrow> (non_empty (rx_version x), rx_base x, rx_ppm x))"

definition first_named :: "raw_schedule list \<Rightarrow> raw_schedule option" where
  "first_named ts = List.find (\<lambda>t. t \<noteq> (None, None, None)) ts"

definition whole_schedule :: "raw_schedule \<Rightarrow> config_error + fee_schedule option" where
  "whole_schedule t =
     (case t of (Some v, Some b, Some p) \<Rightarrow> Inr (Some \<lparr>fe_version = v, fe_base = b, fe_ppm = p\<rparr>) | _ \<Rightarrow> Inl ConfigInvalid)"

lemma fee_fields_with_fee [simp]: "fee_fields (with_fee s r) = s"
  by (cases s) (simp add: with_fee_def fee_fields_def)

lemma phoenixd_with_fee [simp]: "rc_phoenixd (with_fee s r) = rc_phoenixd r"
  by (cases s) (simp add: with_fee_def)

lemma fee_fields_sanitized: "fee_fields (sanitized r) = overlay_fee_schedule (flat_schedule r) (block_schedule r)"
proof -
  have "(non_empty (rx_version x), rx_base x, rx_ppm x) = block_schedule r" if "x = unwrap_or (rc_phoenixd r) empty_phoenixd" for x
    using that by (cases "rc_phoenixd r") (simp_all add: block_schedule_def unwrap_or_def empty_phoenixd_def non_empty_def)
  then show ?thesis by (simp only: sanitized_def Let_def fee_fields_with_fee flat_schedule_def)
qed

lemma fee_fields_overlay: "fee_fields (overlay h l) = overlay_fee_schedule (fee_fields h) (fee_fields l)"
  by (simp add: overlay_def)

lemma phoenixd_block_gone: "phoenixd_block f (from_sources a b c d) = None"
  by (simp add: phoenixd_block_def from_sources_def overlay_def)

lemma overlay_fee_assoc:
  "overlay_fee_schedule (overlay_fee_schedule a b) c = overlay_fee_schedule a (overlay_fee_schedule b c)"
  by (simp add: overlay_fee_schedule_def)

lemma first_named_names: "first_named ts \<noteq> Some (None, None, None)"
  unfolding first_named_def by (simp add: find_Some_iff del: find.simps)

lemma overlay_first_named:
  "overlay_fee_schedule t (unwrap_or (first_named ts) (None, None, None)) = unwrap_or (first_named (t # ts)) (None, None, None)"
  by (simp add: overlay_fee_schedule_def first_named_def unwrap_or_def)

lemma overlay_nothing: "overlay_fee_schedule t (unwrap_or (first_named []) (None, None, None)) = t"
  by (simp add: overlay_fee_schedule_def first_named_def unwrap_or_def)

lemma fee_fields_from_sources:
  "fee_fields (from_sources a b c d) = unwrap_or (first_named [flat_schedule a, block_schedule a, flat_schedule b, block_schedule b,
     flat_schedule c, block_schedule c, flat_schedule d, block_schedule d]) (None, None, None)"
proof -
  have "fee_fields (from_sources a b c d) = overlay_fee_schedule (flat_schedule a) (overlay_fee_schedule (block_schedule a)
      (overlay_fee_schedule (flat_schedule b) (overlay_fee_schedule (block_schedule b) (overlay_fee_schedule (flat_schedule c)
      (overlay_fee_schedule (block_schedule c) (overlay_fee_schedule (flat_schedule d) (block_schedule d)))))))"
    by (simp only: from_sources_def fee_fields_overlay fee_fields_sanitized overlay_fee_assoc)
  also have "\<dots> = unwrap_or (first_named [flat_schedule a, block_schedule a, flat_schedule b, block_schedule b,
     flat_schedule c, block_schedule c, flat_schedule d, block_schedule d]) (None, None, None)"
    by (simp only: overlay_first_named [symmetric] overlay_nothing)
  finally show ?thesis .
qed

lemma overlay_trimmed:
  "non_empty (fst a) = fst a \<Longrightarrow> non_empty (fst b) = fst b \<Longrightarrow>
     non_empty (fst (overlay_fee_schedule a b)) = fst (overlay_fee_schedule a b)"
  by (simp add: overlay_fee_schedule_def)

lemma fee_version_trimmed: "non_empty (fst (fee_fields (from_sources a b c d))) = fst (fee_fields (from_sources a b c d))"
proof -
  have flat: "non_empty (fst (flat_schedule r)) = fst (flat_schedule r)" for r
    by (simp add: flat_schedule_def)
  have block: "non_empty (fst (block_schedule r)) = fst (block_schedule r)" for r
    by (cases "rc_phoenixd r") (simp_all add: block_schedule_def non_empty_def [of None])
  show ?thesis
    unfolding from_sources_def fee_fields_overlay fee_fields_sanitized by (intro overlay_trimmed flat block)
qed

text \<open>
  The fee schedule phoenixd's operator pins is never stitched together from two sources. Whatever the flags, the
  environment, the file and standard input hold, the schedule is the one of the first place in that order (the flat keys of a
  source before its phoenixd block) that names any of its three fields: taken as it stands there when it is complete, refused
  when a field is missing there, and absent when no place names one.
\<close>

theorem fee_schedule_from_one_place:
  "supplied_fee_schedule (from_sources flags en file stdin) =
     (case first_named [flat_schedule flags, block_schedule flags, flat_schedule en, block_schedule en,
        flat_schedule file, block_schedule file, flat_schedule stdin, block_schedule stdin] of
        None \<Rightarrow> Inr None
      | Some t \<Rightarrow> whole_schedule t)"
  (is "_ = (case ?t of None \<Rightarrow> _ | Some t \<Rightarrow> _)")
proof -
  let ?r = "from_sources flags en file stdin"
  obtain v b p where f: "fee_fields ?r = (v, b, p)" by (cases "fee_fields ?r") auto
  then have raw: "rc_ph_version ?r = v" "rc_ph_base ?r = b" "rc_ph_ppm ?r = p" by (auto simp: fee_fields_def)
  have trim: "non_empty v = v" using f fst_conv by (metis fee_version_trimmed)
  have or: "option_or x None = x" for x :: "'z option" by (cases x) (simp_all add: option_or_def)
  have "supplied_fee_schedule ?r = (if (v, b, p) = (None, None, None) then Inr None else whole_schedule (v, b, p))"
    by (auto simp: supplied_fee_schedule_def phoenixd_block_gone raw trim or whole_schedule_def split: option.splits)
  moreover have "unwrap_or ?t (None, None, None) = (v, b, p)" using f by (simp only: fee_fields_from_sources)
  moreover have "?t \<noteq> Some (None, None, None)" by (rule first_named_names)
  ultimately show ?thesis by (cases ?t) (auto simp: unwrap_or_def)
qed

end
