(* ===== verification/Data_Dir.thy ===== *)
theory Data_Dir
  imports Config
begin

text \<open>
  The private data directory (\<open>src/daemon/src/config.rs\<close>): the lexical normal form of its path, the scan that
  refuses a path another user could redirect, and the creation of what is missing. The file system is a map from
  absolute normal paths to what \<open>lstat\<close> reports.
\<close>

subsection \<open>Paths\<close>

datatype component = RootDir | CurDir | ParentDir | Normal string

definition component_of :: "string \<Rightarrow> component" where
  "component_of p = (if p = ''.'' then CurDir else if p = ''..'' then ParentDir else Normal p)"

definition components :: "string \<Rightarrow> component list" where
  "components s = (if starts_with ''/'' s then [RootDir] else []) @
     map component_of (filter (\<lambda>p. p \<noteq> []) (split_char CHR ''/'' s))"

definition is_normal :: "component \<Rightarrow> bool" where
  "is_normal c \<longleftrightarrow> (\<exists>p. c = Normal p)"

lemma is_normal_simps [simp]: "is_normal (Normal p)" "\<not> is_normal RootDir" "\<not> is_normal CurDir" "\<not> is_normal ParentDir"
  by (simp_all add: is_normal_def)

lemma is_normal_code [code]: "is_normal c = (case c of Normal _ \<Rightarrow> True | _ \<Rightarrow> False)"
  by (cases c) simp_all

text \<open>One component onto the path built so far.\<close>

fun push_component :: "component \<Rightarrow> component list \<Rightarrow> component list" where
  "push_component RootDir acc = [RootDir]"
| "push_component CurDir acc = acc"
| "push_component (Normal p) acc = acc @ [Normal p]"
| "push_component ParentDir acc =
     (if acc \<noteq> [] \<and> is_normal (last acc) then butlast acc
      else if acc \<noteq> [] \<and> hd acc = RootDir then acc else acc @ [ParentDir])"

definition normalize_components :: "component list \<Rightarrow> component list" where
  "normalize_components cs = fold push_component cs []"

text \<open>A path in normal form: an optional root, then (without a root) climbs, then names.\<close>

definition normal_form :: "component list \<Rightarrow> bool" where
  "normal_form cs \<longleftrightarrow> (\<exists>n ps. cs = RootDir # map Normal ps \<or> cs = replicate n ParentDir @ map Normal ps)"

lemma hd_climbs [simp]: "hd (replicate n x @ [x]) = x"
  by (cases n) simp_all

lemma push_normal_form:
  assumes "normal_form acc"
  shows "normal_form (push_component c acc)"
proof (cases c)
  case RootDir
  then show ?thesis by (auto simp: normal_form_def intro: exI [of _ "[]"])
next
  case (Normal p)
  from assms obtain n ps where "acc = RootDir # map Normal ps \<or> acc = replicate n ParentDir @ map Normal ps"
    by (auto simp: normal_form_def)
  with Normal have "push_component c acc = RootDir # map Normal (ps @ [p]) \<or>
      push_component c acc = replicate n ParentDir @ map Normal (ps @ [p])" by auto
  then show ?thesis unfolding normal_form_def by blast
next
  case ParentDir
  from assms obtain n ps where a: "acc = RootDir # map Normal ps \<or> acc = replicate n ParentDir @ map Normal ps"
    by (auto simp: normal_form_def)
  show ?thesis
  proof (cases ps rule: rev_cases)
    case Nil
    with a ParentDir have "push_component c acc = RootDir # map Normal [] \<or>
        push_component c acc = replicate (Suc n) ParentDir @ map Normal []"
      by (cases n) (auto simp: replicate_append_same [symmetric])
    then show ?thesis unfolding normal_form_def by blast
  next
    case (snoc qs q)
    with a ParentDir have "push_component c acc = RootDir # map Normal qs \<or>
        push_component c acc = replicate n ParentDir @ map Normal qs"
      by (auto simp: butlast_append)
    then show ?thesis unfolding normal_form_def by blast
  qed
qed (use assms in simp)

lemma fold_push_normal_form: "normal_form acc \<Longrightarrow> normal_form (fold push_component cs acc)"
  by (induction cs arbitrary: acc) (simp_all add: push_normal_form)

lemma fold_push_names: "fold push_component (map Normal ps) acc = acc @ map Normal ps"
  by (induction ps arbitrary: acc) simp_all

lemma push_climb: "push_component ParentDir (replicate k ParentDir) = replicate (Suc k) ParentDir"
  by (cases k) (auto simp: replicate_append_same [symmetric])

lemma fold_push_climbs: "fold push_component (replicate n ParentDir) (replicate k ParentDir) = replicate (k + n) ParentDir"
proof (induction n arbitrary: k)
  case (Suc n)
  have "fold push_component (replicate (Suc n) ParentDir) (replicate k ParentDir)
      = fold push_component (replicate n ParentDir) (replicate (Suc k) ParentDir)"
    by (simp only: replicate_Suc fold_simps push_climb)
  also have "\<dots> = replicate (Suc k + n) ParentDir" by (rule Suc.IH)
  finally show ?case by simp
qed simp

lemma normal_form_fixed:
  assumes "normal_form cs"
  shows "normalize_components cs = cs"
proof -
  from assms obtain n ps where "cs = RootDir # map Normal ps \<or> cs = replicate n ParentDir @ map Normal ps"
    by (auto simp: normal_form_def)
  then show ?thesis
  proof
    assume "cs = RootDir # map Normal ps"
    then show ?thesis by (simp add: normalize_components_def fold_push_names)
  next
    assume "cs = replicate n ParentDir @ map Normal ps"
    then show ?thesis using fold_push_climbs [of n 0]
      by (simp add: normalize_components_def fold_push_names)
  qed
qed

lemma normalized_normal_form: "normal_form (normalize_components cs)"
  unfolding normalize_components_def
  by (rule fold_push_normal_form) (simp add: normal_form_def)

lemma normalize_idem: "normalize_components (normalize_components cs) = normalize_components cs"
  by (rule normal_form_fixed) (rule normalized_normal_form)

lemma normalized_absolute:
  assumes "cs = RootDir # rest"
  shows "\<exists>ps. normalize_components cs = RootDir # map Normal ps"
proof -
  have root: "\<exists>ps. fold push_component rs (RootDir # map Normal qs) = RootDir # map Normal ps" for rs qs
  proof (induction rs arbitrary: qs)
    case (Cons r rs)
    have "\<exists>ps. push_component r (RootDir # map Normal qs) = RootDir # map Normal ps"
    proof (cases r)
      case (Normal p)
      then have "push_component r (RootDir # map Normal qs) = RootDir # map Normal (qs @ [p])" by simp
      then show ?thesis ..
    next
      case ParentDir
      then have "push_component r (RootDir # map Normal qs) = RootDir # map Normal (butlast qs)"
        by (cases qs rule: rev_cases) (simp_all add: butlast_append)
      then show ?thesis ..
    next
      case RootDir
      then have "push_component r (RootDir # map Normal qs) = RootDir # map Normal []" by simp
      then show ?thesis ..
    qed auto
    with Cons.IH show ?case by auto
  qed auto
  with assms show ?thesis using root [of rest "[]"] by (simp add: normalize_components_def)
qed

fun component_str :: "component \<Rightarrow> string" where
  "component_str RootDir = []"
| "component_str CurDir = ''.''"
| "component_str ParentDir = ''..''"
| "component_str (Normal p) = p"

fun join_slash :: "string list \<Rightarrow> string" where
  "join_slash [] = []"
| "join_slash [p] = p"
| "join_slash (p # ps) = p @ ''/'' @ join_slash ps"

definition path_str :: "component list \<Rightarrow> string" where
  "path_str cs = (if cs = [] then ''.'' else if cs = [RootDir] then ''/'' else join_slash (map component_str cs))"

definition normalize_path :: "string \<Rightarrow> string" where
  "normalize_path s = path_str (normalize_components (components s))"

definition component_name :: "component \<Rightarrow> string option" where
  "component_name c = (case c of Normal p \<Rightarrow> Some p | _ \<Rightarrow> None)"

text \<open>\<open>absolute_data_dir_for_vetting_from_cwd\<close>, as the names below the root.\<close>

definition absolute_names :: "string \<Rightarrow> string \<Rightarrow> string list" where
  "absolute_names cwd s = List.map_filter component_name
     (normalize_components ((if starts_with ''/'' s then [] else components cwd) @ components s))"

subsection \<open>Who can redirect a directory\<close>

record dir_entry =
  de_symlink :: bool
  de_dir :: bool
  de_mode :: nat
  de_uid :: nat

record dir_world =
  dw_lstat :: "string list \<Rightarrow> dir_entry option" \<comment> \<open>by the names below the root; \<open>None\<close>: not found\<close>
  dw_euid :: nat
  dw_overflow :: nat \<comment> \<open>\<open>/proc/sys/kernel/overflowuid\<close>\<close>
  dw_access :: "string list \<Rightarrow> bool option" \<comment> \<open>\<open>faccessat\<close> with the effective ids; \<open>None\<close>: another error\<close>

definition writable_by_others :: "nat \<Rightarrow> bool" where
  "writable_by_others mode \<longleftrightarrow> odd (mode div 2) \<or> odd (mode div 16)"

definition sticky :: "nat \<Rightarrow> bool" where "sticky mode \<longleftrightarrow> odd (mode div 512)"

datatype dir_hazard = WritableNonStickyAncestor | ForeignOwnerWritableComponent

definition owner_is_safe :: "dir_world \<Rightarrow> nat \<Rightarrow> bool" where
  "owner_is_safe W owner \<longleftrightarrow> owner = dw_euid W \<or> owner = 0 \<or> owner = dw_overflow W"

definition dir_component_hazard :: "dir_world \<Rightarrow> nat \<Rightarrow> nat \<Rightarrow> bool \<Rightarrow> dir_hazard option" where
  "dir_component_hazard W owner mode is_leaf =
     (if \<not> owner_is_safe W owner then Some ForeignOwnerWritableComponent
      else if \<not> writable_by_others mode then None
      else if \<not> is_leaf \<and> \<not> sticky mode then Some WritableNonStickyAncestor
      else None)"

text \<open>\<open>ancestors\<close>, the root first.\<close>

definition ancestors :: "string list \<Rightarrow> string list list" where
  "ancestors ps = map (\<lambda>n. take n ps) [0..<Suc (length ps)]"

definition component_rejected :: "dir_world \<Rightarrow> string list \<Rightarrow> string list \<Rightarrow> bool" where
  "component_rejected W leaf p \<longleftrightarrow>
     (case dw_lstat W p of
        None \<Rightarrow> False
      | Some m \<Rightarrow> de_symlink m \<or> \<not> de_dir m \<or> dir_component_hazard W (de_uid m) (de_mode m) (p = leaf) \<noteq> None)"

definition reject_unsafe_components :: "dir_world \<Rightarrow> string list \<Rightarrow> config_error option" where
  "reject_unsafe_components W ps =
     (if list_ex (component_rejected W ps) (ancestors ps) then Some ConfigInvalid else None)"

definition reject_unsafe_preexisting :: "dir_world \<Rightarrow> string list \<Rightarrow> config_error option" where
  "reject_unsafe_preexisting W ps =
     (case dw_lstat W ps of
        None \<Rightarrow> Some InternalError
      | Some m \<Rightarrow>
          if \<not> de_dir m then Some ConfigInvalid
          else if writable_by_others (de_mode m) \<or> sticky (de_mode m) then Some ConfigInvalid
          else (case dw_access W ps of
                  None \<Rightarrow> Some InternalError
                | Some ok \<Rightarrow> if ok then None else Some ConfigInvalid))"

subsection \<open>Creating what is missing\<close>

text \<open>The missing components, the leaf first.\<close>

definition missing_dirs :: "dir_world \<Rightarrow> string list \<Rightarrow> string list list" where
  "missing_dirs W ps = takeWhile (\<lambda>p. dw_lstat W p = None) (rev (ancestors ps))"

definition owner_only :: nat where "owner_only = 448" \<comment> \<open>0o700\<close>

definition make_dirs :: "string list list \<Rightarrow> dir_world \<Rightarrow> dir_world" where
  "make_dirs ms W = W\<lparr>dw_lstat := \<lambda>p. if p \<in> set ms \<and> dw_lstat W p = None
     then Some \<lparr>de_symlink = False, de_dir = True, de_mode = owner_only, de_uid = dw_euid W\<rparr> else dw_lstat W p\<rparr>"

definition harden_dirs :: "string list list \<Rightarrow> dir_world \<Rightarrow> dir_world" where
  "harden_dirs ms W = W\<lparr>dw_lstat := \<lambda>p. if p \<in> set ms then map_option (\<lambda>m. m\<lparr>de_mode := owner_only\<rparr>) (dw_lstat W p)
     else dw_lstat W p\<rparr>"

text \<open>\<open>race\<close> is what other users do to the file system between the scan and the creation.\<close>

definition create_private_dir_all ::
  "(dir_world \<Rightarrow> dir_world) \<Rightarrow> dir_world \<Rightarrow> string list \<Rightarrow> config_error + dir_world" where
  "create_private_dir_all race W ps =
     (case reject_unsafe_components W ps of
        Some e \<Rightarrow> Inl e
      | None \<Rightarrow>
          if ps = [] then Inl ConfigInvalid
          else
            (let ms = missing_dirs W ps;
                 W1 = race W;
                 W2 = make_dirs ms W1
             in if list_ex (\<lambda>p. \<exists>m. dw_lstat W1 p = Some m \<and> \<not> de_dir m \<and> \<not> de_symlink m) ms then Inl InternalError
                else case reject_unsafe_components W2 ps of
                       Some e \<Rightarrow> Inl e
                     | None \<Rightarrow>
                         (let W3 = harden_dirs ms W2
                          in if ms \<noteq> [] then Inr W3
                             else (case reject_unsafe_preexisting W3 ps of Some e \<Rightarrow> Inl e | None \<Rightarrow> Inr W3))))"

definition private_component :: "dir_world \<Rightarrow> string list \<Rightarrow> string list \<Rightarrow> dir_entry \<Rightarrow> bool" where
  "private_component W leaf p m \<longleftrightarrow>
     \<not> de_symlink m \<and> de_dir m \<and> owner_is_safe W (de_uid m) \<and>
     (writable_by_others (de_mode m) \<longrightarrow> p \<noteq> leaf \<and> sticky (de_mode m))"

lemma owner_only_private [simp]: "\<not> writable_by_others owner_only"
  by (simp add: owner_only_def writable_by_others_def)

lemma accepted_component:
  assumes "reject_unsafe_components W ps = None" "p \<in> set (ancestors ps)" "dw_lstat W p = Some m"
  shows "\<not> de_symlink m \<and> de_dir m \<and> owner_is_safe W (de_uid m) \<and> (writable_by_others (de_mode m) \<longrightarrow> p = ps \<or> sticky (de_mode m))"
proof -
  have "\<not> component_rejected W ps p"
    using assms(1,2) by (auto simp: reject_unsafe_components_def list_ex_iff split: if_splits)
  with assms(3) show ?thesis
    by (auto simp: component_rejected_def dir_component_hazard_def split: if_splits)
qed

lemma leaf_is_ancestor: "ps \<in> set (ancestors ps)"
  by (auto simp: ancestors_def)

lemma leaf_missing: "missing_dirs W ps \<noteq> [] \<longleftrightarrow> dw_lstat W ps = None"
proof -
  have "rev (ancestors ps) = ps # rev (map (\<lambda>n. take n ps) [0..<length ps])"
    by (simp add: ancestors_def)
  then show ?thesis by (simp add: missing_dirs_def)
qed

lemma leaf_first: "dw_lstat W ps = None \<Longrightarrow> ps \<in> set (missing_dirs W ps)"
proof -
  assume "dw_lstat W ps = None"
  moreover have "rev (ancestors ps) = ps # rev (map (\<lambda>n. take n ps) [0..<length ps])"
    by (simp add: ancestors_def)
  ultimately show ?thesis by (simp add: missing_dirs_def)
qed

text \<open>
  C23. When the data directory is accepted, no other user can redirect what the daemon writes below it, also
  when the file system changed while it was created: every component of the path is a real directory (no symbolic link)
  of the daemon's user, of root or of an unmapped user, a component others may write to is sticky and not the
  directory itself, and the directory exists and is writable by its owner only.
\<close>

theorem accepted_dir_is_private:
  assumes run: "create_private_dir_all race W ps = Inr W'" and p: "p \<in> set (ancestors ps)" "dw_lstat W' p = Some m"
  shows "private_component W' ps p m \<and> dw_lstat W' ps \<noteq> None"
proof -
  let ?ms = "missing_dirs W ps"
  let ?W2 = "make_dirs ?ms (race W)"
  have ok: "reject_unsafe_components ?W2 ps = None" "W' = harden_dirs ?ms ?W2"
    and pre: "?ms = [] \<Longrightarrow> reject_unsafe_preexisting W' ps = None"
    using run by (auto simp: create_private_dir_all_def Let_def split: option.splits if_splits)
  obtain m2 where m2: "dw_lstat ?W2 p = Some m2" "m = (if p \<in> set ?ms then m2\<lparr>de_mode := owner_only\<rparr> else m2)"
    using p(2) unfolding ok(2) by (auto simp: harden_dirs_def split: if_splits)
  note a = accepted_component [OF ok(1) p(1) m2(1)]
  have owner: "owner_is_safe W' u = owner_is_safe ?W2 u" for u
    by (simp add: ok(2) owner_is_safe_def harden_dirs_def)
  show ?thesis
  proof (cases "?ms = []")
    case True
    then have "reject_unsafe_preexisting W' ps = None" by (rule pre)
    then obtain l where "dw_lstat W' ps = Some l" "\<not> writable_by_others (de_mode l)"
      by (auto simp: reject_unsafe_preexisting_def split: option.splits if_splits)
    with a m2 True p(2) show ?thesis by (auto simp: private_component_def owner)
  next
    case False
    then have leaf: "ps \<in> set ?ms" using leaf_missing leaf_first by blast
    then have "dw_lstat W' ps \<noteq> None" by (auto simp: ok(2) harden_dirs_def make_dirs_def)
    moreover have "private_component W' ps p m"
      using a m2 leaf by (cases "p \<in> set ?ms") (auto simp: private_component_def owner)
    ultimately show ?thesis by simp
  qed
qed

subsection \<open>A run\<close>

definition sample_dirs :: dir_world where
  "sample_dirs = \<lparr>dw_lstat = (\<lambda>p. if p = [] then Some \<lparr>de_symlink = False, de_dir = True, de_mode = 493, de_uid = 0\<rparr>
        else if p = [''tmp''] then Some \<lparr>de_symlink = False, de_dir = True, de_mode = 1023, de_uid = 0\<rparr> else None),
     dw_euid = 1000, dw_overflow = 65534, dw_access = (\<lambda>p. Some True)\<rparr>"

theorem accepted_dir_is_private_witness:
  "\<exists>W' m. create_private_dir_all id sample_dirs [''tmp'', ''lnrent''] = Inr W' \<and>
     dw_lstat W' [''tmp''] = Some m \<and> private_component W' [''tmp'', ''lnrent''] [''tmp''] m"
proof -
  have anc: "ancestors [''tmp'', ''lnrent''] = [[], [''tmp''], [''tmp'', ''lnrent'']]"
    by (simp add: ancestors_def)
  have "\<exists>W'. create_private_dir_all id sample_dirs [''tmp'', ''lnrent''] = Inr W' \<and>
      dw_lstat W' [''tmp''] = Some \<lparr>de_symlink = False, de_dir = True, de_mode = 1023, de_uid = 0\<rparr>"
    by (simp add: create_private_dir_all_def missing_dirs_def Let_def reject_unsafe_components_def anc component_rejected_def sample_dirs_def
        dir_component_hazard_def owner_is_safe_def writable_by_others_def sticky_def make_dirs_def harden_dirs_def owner_only_def)
  then obtain W' m where run: "create_private_dir_all id sample_dirs [''tmp'', ''lnrent''] = Inr W'" and m: "dw_lstat W' [''tmp''] = Some m"
    by blast
  have "[''tmp''] \<in> set (ancestors [''tmp'', ''lnrent''])" by (simp add: anc)
  from accepted_dir_is_private [OF run this m] run m show ?thesis by blast
qed

text \<open>A directory of another user is refused whatever its mode, here one that nobody may write.\<close>

lemma foreign_read_only_refused:
  "dir_component_hazard sample_dirs 4242 365 is_leaf = Some ForeignOwnerWritableComponent \<and> \<not> writable_by_others 365"
  by (simp add: dir_component_hazard_def owner_is_safe_def sample_dirs_def writable_by_others_def)

text \<open>A shared directory that exists is refused.\<close>

lemma shared_dir_refused: "create_private_dir_all id sample_dirs [''tmp''] = Inl ConfigInvalid"
  by (simp add: create_private_dir_all_def missing_dirs_def Let_def ancestors_def reject_unsafe_components_def component_rejected_def sample_dirs_def
      dir_component_hazard_def owner_is_safe_def writable_by_others_def sticky_def make_dirs_def harden_dirs_def
      reject_unsafe_preexisting_def)

end
