(* ===== verification/Bootstrap.thy ===== *)
theory Bootstrap
  imports Data_Dir
begin

text \<open>
  The headless bootstrap (\<open>src/daemon/src/config.rs\<close>, second half): the operator's seed, the durable federation
  invite and the single \<open>operator\<close> row, with the rules by which a second bootstrap reconciles with the first.
  The derivation of the identity, the JSON of the invite and the state of the directory are parameters.
\<close>

subsection \<open>The data directory\<close>

datatype secret_file = Absent | NotRegular | Regular string

record operator_row =
  op_master :: string
  op_pubkey :: string
  op_payment :: string
  op_compute :: string
  op_relays :: "string list option" \<comment> \<open>\<open>None\<close>: the stored text is no list of strings\<close>

record home =
  hm_rows :: "operator_row list"
  hm_seed :: secret_file
  hm_invite :: secret_file

record bootstrap_ports =
  bp_canonical :: "string \<Rightarrow> string option" \<comment> \<open>the canonical form of a valid BIP39 phrase\<close>
  bp_identity :: "string \<Rightarrow> string option" \<comment> \<open>the account-0 key in hex\<close>
  bp_url :: "string \<Rightarrow> base_url option"
  bp_utf8 :: "string \<Rightarrow> bool"
  bp_parse_invite :: "string \<Rightarrow> string option"
  bp_render_invite :: "string \<Rightarrow> string"
  bp_cwd :: string
  bp_dirs :: dir_world
  bp_race :: "dir_world \<Rightarrow> dir_world"
  bp_chmod :: "secret_file \<Rightarrow> bool"
  bp_install :: "string \<Rightarrow> bool" \<comment> \<open>the atomic write of the bytes succeeds\<close>
  bp_read_ok :: bool \<comment> \<open>the store answers a read\<close>
  bp_write_ok :: bool \<comment> \<open>the transaction commits\<close>

definition dir_error :: "bootstrap_ports \<Rightarrow> string \<Rightarrow> config_error option" where
  "dir_error B s = (case create_private_dir_all (bp_race B) (bp_dirs B) (absolute_names (bp_cwd B) s) of
     Inl e \<Rightarrow> Some e | Inr _ \<Rightarrow> None)"

definition read_secret :: "secret_file \<Rightarrow> config_error + string option" where
  "read_secret f = (case f of Absent \<Rightarrow> Inr None | NotRegular \<Rightarrow> Inl ConfigInvalid | Regular s \<Rightarrow> Inr (Some s))"

definition read_secret_text :: "bootstrap_ports \<Rightarrow> secret_file \<Rightarrow> config_error + string option" where
  "read_secret_text B f =
     (case read_secret f of
        Inr (Some s) \<Rightarrow> if bp_utf8 B s then Inr (Some s) else Inl ConfigInvalid
      | x \<Rightarrow> x)"

definition harden :: "bootstrap_ports \<Rightarrow> secret_file \<Rightarrow> config_error option" where
  "harden B f = (if bp_chmod B f then None else Some InternalError)"

text \<open>\<open>write_secret_file_atomic\<close>: a failed write leaves the file as it was.\<close>

definition install :: "bootstrap_ports \<Rightarrow> string \<Rightarrow> secret_file \<Rightarrow> config_error option \<times> secret_file" where
  "install B bytes f =
     (if \<not> bp_install B bytes then (Some InternalError, f)
      else (harden B (Regular bytes), Regular bytes))"

subsection \<open>The seed\<close>

definition same_mnemonic :: "bootstrap_ports \<Rightarrow> string \<Rightarrow> string \<Rightarrow> bool" where
  "same_mnemonic B a b =
     (case (bp_canonical B (str_trim a), bp_canonical B (str_trim b)) of
        (Some x, Some y) \<Rightarrow> x = y
      | _ \<Rightarrow> str_trim a = str_trim b)"

text \<open>The mnemonic, and whether it is still to be written.\<close>

definition resolve_seed :: "bootstrap_ports \<Rightarrow> secret_file \<Rightarrow> string option \<Rightarrow> config_error + string \<times> bool" where
  "resolve_seed B f supplied =
     (let sup = non_empty supplied
      in case read_secret_text B f of
           Inl e \<Rightarrow> Inl e
         | Inr (Some s) \<Rightarrow>
             (case sup of
                Some x \<Rightarrow> if \<not> same_mnemonic B x (str_trim s) then Inl SeedConflict
                          else (case harden B f of Some e \<Rightarrow> Inl e | None \<Rightarrow> Inr (str_trim s, False))
              | None \<Rightarrow> (case harden B f of Some e \<Rightarrow> Inl e | None \<Rightarrow> Inr (str_trim s, False)))
         | Inr None \<Rightarrow>
             (case sup of
                None \<Rightarrow> Inl SeedMissing
              | Some x \<Rightarrow> Inr (unwrap_or (bp_canonical B (str_trim x)) x, True)))"

definition write_seed :: "bootstrap_ports \<Rightarrow> string \<Rightarrow> secret_file \<Rightarrow> config_error option \<times> secret_file" where
  "write_seed B m f =
     (case read_secret_text B f of
        Inl e \<Rightarrow> (Some e, f)
      | Inr (Some s) \<Rightarrow> if str_trim s = m then (harden B f, f) else (Some SeedConflict, f)
      | Inr None \<Rightarrow> install B (m @ [CHR 0x0A]) f)"

subsection \<open>The federation invite\<close>

definition supplied_invite :: "raw_config \<Rightarrow> string option" where
  "supplied_invite r = non_empty (rc_invite r)"

definition read_invite :: "bootstrap_ports \<Rightarrow> secret_file \<Rightarrow> config_error + string" where
  "read_invite B f =
     (case read_secret f of
        Inl e \<Rightarrow> Inl e
      | Inr None \<Rightarrow> Inl ConfigInvalid
      | Inr (Some s) \<Rightarrow>
          (case harden B f of Some e \<Rightarrow> Inl e
           | None \<Rightarrow> (case bp_parse_invite B s of None \<Rightarrow> Inl ConfigInvalid
                      | Some i \<Rightarrow> (case non_empty (Some i) of None \<Rightarrow> Inl ConfigInvalid | Some x \<Rightarrow> Inr x))))"

definition reconcile_invite :: "bootstrap_ports \<Rightarrow> secret_file \<Rightarrow> string \<Rightarrow> config_error option" where
  "reconcile_invite B f i =
     (case read_secret f of
        Inl e \<Rightarrow> Some e
      | Inr None \<Rightarrow> None
      | Inr (Some s) \<Rightarrow>
          (case bp_parse_invite B s of
             Some j \<Rightarrow> if str_trim j = str_trim i then None else Some ConfigConflict
           | None \<Rightarrow> Some ConfigConflict))"

definition write_invite :: "bootstrap_ports \<Rightarrow> string \<Rightarrow> secret_file \<Rightarrow> config_error option \<times> secret_file" where
  "write_invite B i f =
     (case read_secret f of
        Inl e \<Rightarrow> (Some e, f)
      | Inr (Some s) \<Rightarrow>
          (case bp_parse_invite B s of
             Some j \<Rightarrow> if str_trim j = str_trim i then (harden B f, f) else (Some ConfigConflict, f)
           | None \<Rightarrow> (Some ConfigConflict, f))
      | Inr None \<Rightarrow> install B (bp_render_invite B i @ [CHR 0x0A]) f)"

definition invite_available :: "bootstrap_ports \<Rightarrow> secret_file \<Rightarrow> raw_config \<Rightarrow> config_error option" where
  "invite_available B f r =
     (case supplied_invite r of
        Some i \<Rightarrow> reconcile_invite B f i
      | None \<Rightarrow> (case read_invite B f of Inl e \<Rightarrow> Some e | Inr _ \<Rightarrow> None))"

definition durable_invite ::
  "bootstrap_ports \<Rightarrow> payment_mode \<Rightarrow> raw_config \<Rightarrow> secret_file \<Rightarrow> (config_error + string option) \<times> secret_file" where
  "durable_invite B m r f =
     (if m \<noteq> Fedimint then (Inr None, f)
      else (case supplied_invite r of
              Some i \<Rightarrow> (case write_invite B i f of (Some e, f') \<Rightarrow> (Inl e, f') | (None, f') \<Rightarrow> (Inr (Some i), f'))
            | None \<Rightarrow> (map_sum id Some (read_invite B f), f)))"

subsection \<open>The operator row\<close>

definition stored_backend :: "string \<Rightarrow> home \<Rightarrow> string option" where
  "stored_backend pk h = (case hm_rows h of [] \<Rightarrow> None | q # _ \<Rightarrow> if op_master q = pk then Some (op_payment q) else None)"

datatype row_outcome =
    Persisted "string list" string string
  | IdentityConflict
  | PaymentConflict string
  | RowsNotSingleton nat

definition new_row :: "string \<Rightarrow> operator_config \<Rightarrow> operator_row" where
  "new_row pk c = \<lparr>op_master = pk, op_pubkey = pk, op_payment = mode_str (oc_payment c), op_compute = oc_compute c,
     op_relays = Some (oc_relays c)\<rparr>"

definition reconciled_relays :: "raw_config \<Rightarrow> operator_config \<Rightarrow> operator_row \<Rightarrow> string list" where
  "reconciled_relays r c q =
     (if relays_explicitly_supplied r then oc_relays c
      else (case op_relays q of Some rs \<Rightarrow> normalize_relays rs | None \<Rightarrow> oc_relays c))"

definition reconcile_row ::
  "string \<Rightarrow> operator_config \<Rightarrow> raw_config \<Rightarrow> operator_row \<Rightarrow> row_outcome \<times> operator_row" where
  "reconcile_row pk c r q =
     (if op_master q \<noteq> pk then (IdentityConflict, q)
      else if non_empty (rc_payment r) \<noteq> None \<and> op_payment q \<noteq> mode_str (oc_payment c) then (PaymentConflict (op_payment q), q)
      else (case parse_mode (op_payment q) of
              Inl _ \<Rightarrow> (PaymentConflict (op_payment q), q)
            | Inr _ \<Rightarrow>
                (Persisted (reconciled_relays r c q) (op_compute q) (op_payment q),
                 q\<lparr>op_pubkey := pk, op_relays := Some (reconciled_relays r c q)\<rparr>)))"

definition operator_row_txn ::
  "string \<Rightarrow> operator_config \<Rightarrow> raw_config \<Rightarrow> operator_row list \<Rightarrow> row_outcome \<times> operator_row list" where
  "operator_row_txn pk c r rows =
     (case rows of
        [] \<Rightarrow> (Persisted (oc_relays c) (oc_compute c) (mode_str (oc_payment c)), [new_row pk c])
      | [q] \<Rightarrow> (case reconcile_row pk c r q of (x, q') \<Rightarrow> (x, [q']))
      | _ \<Rightarrow> (RowsNotSingleton (length rows), rows))"

definition persist_operator_row ::
  "bootstrap_ports \<Rightarrow> string \<Rightarrow> operator_config \<Rightarrow> raw_config \<Rightarrow> home
     \<Rightarrow> (config_error + string list \<times> string \<times> payment_mode) \<times> home" where
  "persist_operator_row B pk c r h =
     (if \<not> bp_write_ok B then (Inl InternalError, h)
      else (case operator_row_txn pk c r (hm_rows h) of (x, rows) \<Rightarrow>
        (case x of
           Persisted relays compute payment \<Rightarrow> map_sum id (\<lambda>m. (relays, compute, m)) (parse_mode payment)
         | IdentityConflict \<Rightarrow> Inl SeedConflict
         | PaymentConflict _ \<Rightarrow> Inl ConfigConflict
         | RowsNotSingleton _ \<Rightarrow> Inl NotSingleton, h\<lparr>hm_rows := rows\<rparr>)))"

subsection \<open>Bootstrap\<close>

text \<open>What an omitted backend may inherit is checked before the row is written.\<close>

definition inherited_invalid :: "bootstrap_ports \<Rightarrow> string \<Rightarrow> operator_config \<Rightarrow> raw_config \<Rightarrow> home \<Rightarrow> config_error option" where
  "inherited_invalid B pk c r h =
     (if non_empty (rc_payment r) \<noteq> None then None
      else if \<not> bp_read_ok B then Some InternalError
      else (case (if oc_payment c \<noteq> Fedimint \<and> stored_backend pk h = Some ''fedimint''
                  then invite_available B (hm_invite h) r else None) of
              Some e \<Rightarrow> Some e
            | None \<Rightarrow> (if oc_payment c \<noteq> Phoenixd_Mode \<and> stored_backend pk h = Some ''phoenixd''
                       then (case supplied_phoenixd_config (bp_url B) r of Inl e \<Rightarrow> Some e | Inr _ \<Rightarrow> None) else None)))"

record operator =
  or_pubkey :: string
  or_config :: operator_config

definition finish_seed :: "bootstrap_ports \<Rightarrow> string \<times> bool \<Rightarrow> operator \<Rightarrow> home \<Rightarrow> (config_error + operator) \<times> home" where
  "finish_seed B seed o1 h =
     (if \<not> snd seed then (Inr o1, h)
      else (case write_seed B (fst seed) (hm_seed h) of
              (Some e, f) \<Rightarrow> (Inl e, h\<lparr>hm_seed := f\<rparr>)
            | (None, f) \<Rightarrow> (Inr o1, h\<lparr>hm_seed := f\<rparr>)))"

definition finish_bootstrap ::
  "bootstrap_ports \<Rightarrow> raw_config \<Rightarrow> operator_config \<Rightarrow> string \<times> bool \<Rightarrow> string \<Rightarrow> home \<Rightarrow> (config_error + operator) \<times> home" where
  "finish_bootstrap B r c seed pk h =
     (case persist_operator_row B pk c r h of
        (Inl e, h1) \<Rightarrow> (Inl e, h1)
      | (Inr (relays, compute, m), h1) \<Rightarrow>
          (case durable_invite B m r (hm_invite h1) of
             (Inl e, f) \<Rightarrow> (Inl e, h1\<lparr>hm_invite := f\<rparr>)
           | (Inr invite, f) \<Rightarrow>
               (case (if m = Phoenixd_Mode then map_sum id Some (supplied_phoenixd_config (bp_url B) r) else Inr None) of
                  Inl e \<Rightarrow> (Inl e, h1\<lparr>hm_invite := f\<rparr>)
                | Inr px \<Rightarrow>
                    finish_seed B seed
                      \<lparr>or_pubkey = pk, or_config = c\<lparr>oc_relays := relays, oc_payment := m, oc_compute := compute,
                         oc_invite := invite, oc_phoenixd := px\<rparr>\<rparr> (h1\<lparr>hm_invite := f\<rparr>))))"

definition bootstrap :: "bootstrap_ports \<Rightarrow> raw_config \<Rightarrow> home \<Rightarrow> (config_error + operator) \<times> home" where
  "bootstrap B r h =
     (case resolve_config (bp_url B) (r\<lparr>rc_mnemonic := None\<rparr>) of
        Inl e \<Rightarrow> (Inl e, h)
      | Inr c0 \<Rightarrow>
          (let c = c0\<lparr>oc_data_dir := normalize_path (oc_data_dir c0)\<rparr> in
           case dir_error B (oc_data_dir c) of
             Some e \<Rightarrow> (Inl e, h)
           | None \<Rightarrow>
               (case (if oc_payment c = Fedimint then invite_available B (hm_invite h) r else None) of
                  Some e \<Rightarrow> (Inl e, h)
                | None \<Rightarrow>
                    (case resolve_seed B (hm_seed h) (rc_mnemonic r) of
                       Inl e \<Rightarrow> (Inl e, h)
                     | Inr seed \<Rightarrow>
                         (case bp_identity B (str_trim (fst seed)) of
                            None \<Rightarrow> (Inl IdentityInvalid, h)
                          | Some pk \<Rightarrow>
                              (case inherited_invalid B pk c r h of
                                 Some e \<Rightarrow> (Inl e, h)
                               | None \<Rightarrow> finish_bootstrap B r c seed pk h))))))"

subsection \<open>The state database beside it\<close>

text \<open>The database and its two sidecars must be regular files or absent before SQLite opens them.\<close>

definition preflight_state_db_paths :: "secret_file \<Rightarrow> secret_file \<Rightarrow> secret_file \<Rightarrow> config_error option" where
  "preflight_state_db_paths db wal shm =
     (if NotRegular \<in> {db, wal, shm} then Some ConfigInvalid else None)"

definition bootstrap_headless ::
  "bootstrap_ports \<Rightarrow> secret_file \<times> secret_file \<times> secret_file \<Rightarrow> bool \<Rightarrow> bool \<Rightarrow> raw_config \<Rightarrow> home \<Rightarrow> (config_error + operator) \<times> home" where
  "bootstrap_headless B files opened hardened r h =
     (case dir_error B (normalize_path (unwrap_or (non_empty (rc_data_dir r)) ''./data'')) of
        Some e \<Rightarrow> (Inl e, h)
      | None \<Rightarrow>
          (case files of (db, wal, shm) \<Rightarrow>
             (case preflight_state_db_paths db wal shm of
                Some e \<Rightarrow> (Inl e, h)
              | None \<Rightarrow>
                  if \<not> opened \<or> \<not> hardened then (Inl InternalError, h) else bootstrap B r h)))"

end
