(* ===== verification/Bootstrap_Props.thy ===== *)
theory Bootstrap_Props
  imports Bootstrap
begin

text \<open>What a bootstrap may change: nothing about who the operator is and where the money goes.\<close>

subsection \<open>Files and rows under the steps\<close>

definition same_custody :: "home \<Rightarrow> home \<Rightarrow> bool" where
  "same_custody h h' \<longleftrightarrow>
     (\<forall>q. hm_rows h = [q] \<longrightarrow> (\<exists>q'. hm_rows h' = [q'] \<and> op_master q' = op_master q \<and> op_payment q' = op_payment q)) \<and>
     (hm_seed h \<noteq> Absent \<longrightarrow> hm_seed h' = hm_seed h) \<and>
     (hm_invite h \<noteq> Absent \<longrightarrow> hm_invite h' = hm_invite h)"

lemma same_custody_refl [simp]: "same_custody h h"
  by (simp add: same_custody_def)

lemma same_custody_trans: "same_custody a b \<Longrightarrow> same_custody b c \<Longrightarrow> same_custody a c"
  unfolding same_custody_def by metis

lemma write_seed_keeps: "write_seed B m f = (e, f') \<Longrightarrow> f \<noteq> Absent \<Longrightarrow> f' = f"
  by (cases f) (auto simp: write_seed_def read_secret_text_def read_secret_def split: if_splits sum.splits option.splits)

lemma write_invite_keeps: "write_invite B i f = (e, f') \<Longrightarrow> f \<noteq> Absent \<Longrightarrow> f' = f"
  by (cases f) (auto simp: write_invite_def read_secret_def split: if_splits option.splits)

lemma durable_invite_keeps: "durable_invite B m r f = (x, f') \<Longrightarrow> f \<noteq> Absent \<Longrightarrow> f' = f"
  by (auto simp: durable_invite_def dest: write_invite_keeps split: if_splits option.splits prod.splits)

lemma reconcile_row_keeps: "reconcile_row pk c r q = (x, q') \<Longrightarrow> op_master q' = op_master q \<and> op_payment q' = op_payment q"
  by (auto simp: reconcile_row_def split: if_splits sum.splits)

lemma row_txn_keeps:
  "operator_row_txn pk c r [q] = (x, rows) \<Longrightarrow> \<exists>q'. rows = [q'] \<and> op_master q' = op_master q \<and> op_payment q' = op_payment q"
  by (auto simp: operator_row_txn_def dest: reconcile_row_keeps split: prod.splits)

lemma persist_keeps: "persist_operator_row B pk c r h = (x, h') \<Longrightarrow> same_custody h h' \<and> hm_seed h' = hm_seed h \<and> hm_invite h' = hm_invite h"
  using row_txn_keeps [of pk c r]
  by (fastforce simp: persist_operator_row_def same_custody_def split: if_splits prod.splits)

lemma finish_seed_keeps: "finish_seed B seed o1 h = (x, h') \<Longrightarrow> same_custody h h' \<and> hm_rows h' = hm_rows h \<and> hm_invite h' = hm_invite h"
  by (auto simp: finish_seed_def same_custody_def dest: write_seed_keeps split: if_splits prod.splits option.splits)

lemma with_invite_keeps: "f = hm_invite h \<or> hm_invite h = Absent \<Longrightarrow> same_custody h (h\<lparr>hm_invite := f\<rparr>)"
  by (auto simp: same_custody_def)

text \<open>What a bootstrap that succeeds went through.\<close>

lemma finish_cases:
  assumes "finish_bootstrap B r c seed pk h = (x, h')"
  obtains (row) e where "x = Inl e" "persist_operator_row B pk c r h = (Inl e, h')"
  | (invite) e f h1 p where "x = Inl e" "persist_operator_row B pk c r h = (Inr p, h1)" "h' = h1\<lparr>hm_invite := f\<rparr>"
      "f = hm_invite h1 \<or> hm_invite h1 = Absent"
  | (seed) relays compute m h1 i f px where
      "persist_operator_row B pk c r h = (Inr (relays, compute, m), h1)"
      "durable_invite B m r (hm_invite h1) = (Inr i, f)"
      "(if m = Phoenixd_Mode then map_sum id Some (supplied_phoenixd_config (bp_url B) r) else Inr None) = Inr px"
      "finish_seed B seed \<lparr>or_pubkey = pk, or_config = c\<lparr>oc_relays := relays, oc_payment := m, oc_compute := compute,
         oc_invite := i, oc_phoenixd := px\<rparr>\<rparr> (h1\<lparr>hm_invite := f\<rparr>) = (x, h')"
      "f = hm_invite h1 \<or> hm_invite h1 = Absent"
proof -
  obtain y h1 where p: "persist_operator_row B pk c r h = (y, h1)" by fastforce
  show thesis
  proof (cases y)
    case (Inl e)
    with p assms show ?thesis by (intro row) (auto simp: finish_bootstrap_def)
  next
    case (Inr t)
    obtain relays compute m where t: "t = (relays, compute, m)" by (cases t)
    obtain d f where d: "durable_invite B m r (hm_invite h1) = (d, f)" by fastforce
    have f: "f = hm_invite h1 \<or> hm_invite h1 = Absent" using durable_invite_keeps [OF d] by blast
    show ?thesis
    proof (cases "\<exists>i px. d = Inr i \<and>
        (if m = Phoenixd_Mode then map_sum id Some (supplied_phoenixd_config (bp_url B) r) else Inr None) = Inr px")
      case True
      then obtain i px where "d = Inr i"
        "(if m = Phoenixd_Mode then map_sum id Some (supplied_phoenixd_config (bp_url B) r) else Inr None) = Inr px" by blast
      with p Inr t d f assms show ?thesis by (intro seed) (auto simp: finish_bootstrap_def)
    next
      case False
      with p Inr t d assms have "\<exists>e. x = Inl e \<and> h' = h1\<lparr>hm_invite := f\<rparr>"
        by (auto simp: finish_bootstrap_def split: sum.splits if_splits)
      then obtain e where "x = Inl e" "h' = h1\<lparr>hm_invite := f\<rparr>" by blast
      with invite [of e t h1 f] p Inr f show ?thesis by simp
    qed
  qed
qed

lemma finish_keeps:
  assumes "finish_bootstrap B r c seed pk h = (x, h')"
  shows "same_custody h h'"
  using assms
proof (cases rule: finish_cases)
  case (row e)
  then show ?thesis using persist_keeps by blast
next
  case (invite e f h1 p)
  then show ?thesis using persist_keeps [OF invite(2)] with_invite_keeps [of f h1] same_custody_trans by blast
next
  case (seed relays compute m h1 i f px)
  then show ?thesis
    using persist_keeps [OF seed(1)] with_invite_keeps [of f h1] finish_seed_keeps [OF seed(4)] same_custody_trans by blast
qed

lemma bootstrap_cases:
  assumes "bootstrap B r h = (x, h')"
  obtains (refused) e where "x = Inl e" "h' = h"
  | (finish) c0 seed pk where "resolve_config (bp_url B) (r\<lparr>rc_mnemonic := None\<rparr>) = Inr c0"
      "dir_error B (normalize_path (oc_data_dir c0)) = None"
      "oc_payment c0 = Fedimint \<Longrightarrow> invite_available B (hm_invite h) r = None"
      "resolve_seed B (hm_seed h) (rc_mnemonic r) = Inr seed" "bp_identity B (str_trim (fst seed)) = Some pk"
      "inherited_invalid B pk (c0\<lparr>oc_data_dir := normalize_path (oc_data_dir c0)\<rparr>) r h = None"
      "finish_bootstrap B r (c0\<lparr>oc_data_dir := normalize_path (oc_data_dir c0)\<rparr>) seed pk h = (x, h')"
proof (cases "\<exists>c0 seed pk. resolve_config (bp_url B) (r\<lparr>rc_mnemonic := None\<rparr>) = Inr c0 \<and>
    dir_error B (normalize_path (oc_data_dir c0)) = None \<and>
    (oc_payment c0 = Fedimint \<longrightarrow> invite_available B (hm_invite h) r = None) \<and>
    resolve_seed B (hm_seed h) (rc_mnemonic r) = Inr seed \<and> bp_identity B (str_trim (fst seed)) = Some pk \<and>
    inherited_invalid B pk (c0\<lparr>oc_data_dir := normalize_path (oc_data_dir c0)\<rparr>) r h = None")
  case True
  then obtain c0 seed pk where c: "resolve_config (bp_url B) (r\<lparr>rc_mnemonic := None\<rparr>) = Inr c0"
    "dir_error B (normalize_path (oc_data_dir c0)) = None"
    "oc_payment c0 = Fedimint \<longrightarrow> invite_available B (hm_invite h) r = None"
    "resolve_seed B (hm_seed h) (rc_mnemonic r) = Inr seed" "bp_identity B (str_trim (fst seed)) = Some pk"
    "inherited_invalid B pk (c0\<lparr>oc_data_dir := normalize_path (oc_data_dir c0)\<rparr>) r h = None" by blast
  have n: "(if oc_payment c0 = Fedimint then invite_available B (hm_invite h) r else None) = None" using c(3) by simp
  from assms c(1,2,4-6) n have
    "finish_bootstrap B r (c0\<lparr>oc_data_dir := normalize_path (oc_data_dir c0)\<rparr>) seed pk h = (x, h')"
    by (simp add: bootstrap_def Let_def)
  with c show ?thesis by (intro finish) auto
next
  case False
  with assms have "\<exists>e. x = Inl e \<and> h' = h"
    by (auto simp: bootstrap_def Let_def split: sum.splits option.splits if_splits)
  with refused show ?thesis by blast
qed

lemma persisted_row:
  assumes "persist_operator_row B pk c r h = (Inr (relays, compute, m), h')" "hm_rows h = [q]"
  shows "op_master q = pk \<and> parse_mode (op_payment q) = Inr m"
  using assms
  by (auto simp: persist_operator_row_def operator_row_txn_def reconcile_row_def split: if_splits prod.splits sum.splits row_outcome.splits)

lemma parse_mode_Inr: "parse_mode s = Inr m \<longleftrightarrow> s = mode_str m"
  by (cases m) (auto simp: parse_mode_def)

text \<open>
  C21. A later bootstrap never changes who the operator is or where the money goes, whatever it is given and
  wherever it stops: the operator row keeps its identity and its payment backend, a seed file and a federation invite
  that exist are left byte for byte as they are, and a bootstrap that succeeds runs as the stored identity on the
  stored backend. A conflicting seed, backend or invite can only make it fail.
\<close>

theorem bootstrap_never_repoints:
  assumes run: "bootstrap B r h = (x, h')" and row: "hm_rows h = [q]"
  shows "(\<exists>q'. hm_rows h' = [q'] \<and> op_master q' = op_master q \<and> op_payment q' = op_payment q) \<and>
     (hm_seed h \<noteq> Absent \<longrightarrow> hm_seed h' = hm_seed h) \<and> (hm_invite h \<noteq> Absent \<longrightarrow> hm_invite h' = hm_invite h) \<and>
     (\<forall>o1. x = Inr o1 \<longrightarrow> or_pubkey o1 = op_master q \<and> mode_str (oc_payment (or_config o1)) = op_payment q)"
proof -
  from run have custody: "same_custody h h'"
    by (cases rule: bootstrap_cases) (auto dest: finish_keeps)
  have "or_pubkey o1 = op_master q \<and> mode_str (oc_payment (or_config o1)) = op_payment q" if "x = Inr o1" for o1
    using run
  proof (cases rule: bootstrap_cases)
    case (finish c0 seed pk)
    from finish(7) show ?thesis
    proof (cases rule: finish_cases)
      case (seed relays compute m h1 i f px)
      from persisted_row [OF seed(1) row] have "op_master q = pk" "op_payment q = mode_str m" by (simp_all add: parse_mode_Inr)
      with seed(4) that show ?thesis by (auto simp: finish_seed_def split: if_splits prod.splits option.splits)
    qed (use that in auto)
  qed (use that in simp)
  with custody row show ?thesis by (auto simp: same_custody_def)
qed

subsection \<open>A run\<close>

definition sample_boot :: bootstrap_ports where
  "sample_boot = \<lparr>bp_canonical = Some, bp_identity = (\<lambda>m. if m = ''abandon'' then Some ''aa'' else None), bp_url = (\<lambda>s. None),
     bp_utf8 = (\<lambda>s. True), bp_parse_invite = Some, bp_render_invite = id, bp_cwd = ''/'', bp_dirs = sample_dirs, bp_race = id,
     bp_chmod = (\<lambda>f. True), bp_install = (\<lambda>s. True), bp_read_ok = True, bp_write_ok = True\<rparr>"

definition sample_home :: home where
  "sample_home = \<lparr>hm_rows = [\<lparr>op_master = ''aa'', op_pubkey = ''aa'', op_payment = ''mock'', op_compute = ''host'',
     op_relays = Some [''wss://r'']\<rparr>], hm_seed = Regular ''abandon'', hm_invite = Absent\<rparr>"

definition sample_raw :: "string option \<Rightarrow> raw_config" where
  "sample_raw payment = empty_config\<lparr>rc_data_dir := Some ''/tmp/lnrent'', rc_payment := payment\<rparr>"

lemma sample_dir_accepted: "dir_error sample_boot (normalize_path ''/tmp/lnrent'') = None"
proof -
  have n: "absolute_names ''/'' (normalize_path ''/tmp/lnrent'') = [''tmp'', ''lnrent'']"
    by code_simp
  have anc: "ancestors [''tmp'', ''lnrent''] = [[], [''tmp''], [''tmp'', ''lnrent'']]"
    by (simp add: ancestors_def)
  show ?thesis
    by (simp add: dir_error_def n sample_boot_def create_private_dir_all_def missing_dirs_def Let_def reject_unsafe_components_def
        anc component_rejected_def sample_dirs_def dir_component_hazard_def owner_is_safe_def writable_by_others_def sticky_def
        make_dirs_def harden_dirs_def owner_only_def)
qed

text \<open>A restart that names no backend runs on the stored one; one that names another is refused.\<close>

lemma sample_restart:
  "map_sum id or_pubkey (fst (bootstrap sample_boot (sample_raw None) sample_home)) = Inr ''aa''"
  "bootstrap sample_boot (sample_raw (Some ''phoenixd'')) sample_home = (Inl ConfigInvalid, sample_home)"
  "fst (bootstrap sample_boot ((sample_raw (Some ''fedimint''))\<lparr>rc_invite := Some ''fed11''\<rparr>) sample_home) = Inl ConfigConflict"
proof -
  have t: "str_trim ''/tmp/lnrent'' = ''/tmp/lnrent''" "str_trim ''abandon'' = ''abandon''" "str_trim ''phoenixd'' = ''phoenixd''"
    "str_trim ''fedimint'' = ''fedimint''" "str_trim ''fed11'' = ''fed11''" by code_simp+
  have w: "list_all websocket_url default_relays" by code_simp
  note d = bootstrap_def sample_raw_def empty_config_def resolve_config_def supplied_mode_def non_empty_def t parse_mode_def w
    sample_dir_accepted Let_def unwrap_or_def resolve_seed_def read_secret_text_def read_secret_def harden_def sample_home_def
    inherited_invalid_def stored_backend_def finish_bootstrap_def persist_operator_row_def operator_row_txn_def
    reconcile_row_def durable_invite_def finish_seed_def supplied_phoenixd_config_def opted_in_def option_or_def phoenixd_block_def
    invite_available_def supplied_invite_def reconcile_invite_def
  have b: "bp_utf8 sample_boot = (\<lambda>s. True)" "bp_chmod sample_boot = (\<lambda>f. True)" "bp_write_ok sample_boot" "bp_read_ok sample_boot"
    "bp_identity sample_boot ''abandon'' = Some ''aa''" by (simp_all add: sample_boot_def)
  show "map_sum id or_pubkey (fst (bootstrap sample_boot (sample_raw None) sample_home)) = Inr ''aa''"
    by (simp add: d b)
  show "bootstrap sample_boot (sample_raw (Some ''phoenixd'')) sample_home = (Inl ConfigInvalid, sample_home)"
    by (simp add: d b)
  show "fst (bootstrap sample_boot ((sample_raw (Some ''fedimint''))\<lparr>rc_invite := Some ''fed11''\<rparr>) sample_home) = Inl ConfigConflict"
    by (simp add: d b)
qed

theorem bootstrap_never_repoints_witness:
  "\<exists>o1 h' q'. bootstrap sample_boot (sample_raw None) sample_home = (Inr o1, h') \<and> or_pubkey o1 = ''aa'' \<and>
     mode_str (oc_payment (or_config o1)) = ''mock'' \<and> hm_rows h' = [q'] \<and> op_payment q' = ''mock'' \<and>
     hm_seed h' = Regular ''abandon''"
proof -
  obtain x h' where run: "bootstrap sample_boot (sample_raw None) sample_home = (x, h')" by fastforce
  with sample_restart(1) obtain o1 where "x = Inr o1" by (cases x) auto
  moreover obtain q where "hm_rows sample_home = [q]" "op_master q = ''aa''" "op_payment q = ''mock''"
    "hm_seed sample_home = Regular ''abandon''" by (simp add: sample_home_def)
  ultimately show ?thesis using bootstrap_never_repoints [OF run, of q] run by auto
qed

end
