(* ===== verification/Rate_Limit.thy ===== *)
theory Rate_Limit
  imports Complex_Main Prelude "HOL-Library.AList"
begin

text \<open>
  The inbound rate limiter, \<open>daemon/src/nostr_engine.rs\<close> (\<open>InboundRateLimiter\<close>): one token bucket per
  authenticated sender, in a hash map whose entries also form a doubly linked list by recency, so that
  the least recently seen sender is evicted in constant time.

  The hash map is an association list and an \<open>Instant\<close> a number of nanoseconds. Floating-point
  arithmetic is exact arithmetic followed by the rounding \<open>rnd\<close>, an argument.
\<close>

subsection \<open>The limiter\<close>

record bucket =
  bk_tokens :: rat
  bk_last :: nat
  bk_prev :: "string option"
  bk_next :: "string option"

record limiter =
  rl_capacity :: rat
  rl_refill :: rat
  rl_buckets :: "(string \<times> bucket) list"
  rl_head :: "string option"
  rl_tail :: "string option"

definition inbound_rate_lru_capacity :: nat where "inbound_rate_lru_capacity = 4096"

definition new_limiter :: "(rat \<Rightarrow> rat) \<Rightarrow> nat \<Rightarrow> nat \<Rightarrow> limiter" where
  "new_limiter rnd capacity per_min =
     \<lparr>rl_capacity = of_nat capacity, rl_refill = rnd (of_nat per_min / 60), rl_buckets = [], rl_head = None, rl_tail = None\<rparr>"

text \<open>\<open>get_mut\<close> and a change of what it found.\<close>

definition change_bucket :: "string \<Rightarrow> (bucket \<Rightarrow> bucket) \<Rightarrow> limiter \<Rightarrow> limiter" where
  "change_bucket k f l =
     (case map_of (rl_buckets l) k of None \<Rightarrow> l | Some b \<Rightarrow> l\<lparr>rl_buckets := AList.update k (f b) (rl_buckets l)\<rparr>)"

definition unlink_lru :: "string \<Rightarrow> limiter \<Rightarrow> limiter" where
  "unlink_lru s l =
     (case map_of (rl_buckets l) s of
        None \<Rightarrow> l
      | Some b \<Rightarrow>
          (let l1 = (case bk_prev b of
                       Some p \<Rightarrow> change_bucket p (\<lambda>x. x\<lparr>bk_next := bk_next b\<rparr>) l
                     | None \<Rightarrow> if rl_head l = Some s then l\<lparr>rl_head := bk_next b\<rparr> else l);
               l2 = (case bk_next b of
                       Some n \<Rightarrow> change_bucket n (\<lambda>x. x\<lparr>bk_prev := bk_prev b\<rparr>) l1
                     | None \<Rightarrow> if rl_tail l1 = Some s then l1\<lparr>rl_tail := bk_prev b\<rparr> else l1)
           in change_bucket s (\<lambda>x. x\<lparr>bk_prev := None, bk_next := None\<rparr>) l2))"

definition link_lru_tail :: "string \<Rightarrow> limiter \<Rightarrow> limiter" where
  "link_lru_tail s l =
     (let l1 = (case rl_tail l of
                  Some t \<Rightarrow> change_bucket t (\<lambda>x. x\<lparr>bk_next := Some s\<rparr>) l
                | None \<Rightarrow> l\<lparr>rl_head := Some s\<rparr>)
      in (change_bucket s (\<lambda>x. x\<lparr>bk_prev := rl_tail l, bk_next := None\<rparr>) l1)\<lparr>rl_tail := Some s\<rparr>)"

definition touch_lru :: "string \<Rightarrow> limiter \<Rightarrow> limiter" where
  "touch_lru s l = (if rl_tail l = Some s then l else link_lru_tail s (unlink_lru s l))"

definition remove_bucket :: "string \<Rightarrow> limiter \<Rightarrow> limiter" where
  "remove_bucket s l = l\<lparr>rl_buckets := AList.delete s (rl_buckets l)\<rparr>"

text \<open>The eviction loop of \<open>insert_bucket\<close>; \<open>None\<close> is a loop that does not end.\<close>

partial_function (option) evict_excess :: "limiter \<Rightarrow> limiter option" where
  [code]: "evict_excess l =
     (if inbound_rate_lru_capacity < length (rl_buckets l)
      then (case rl_head l of
              Some h \<Rightarrow> evict_excess (remove_bucket h (unlink_lru h l))
            | None \<Rightarrow> Some l)
      else Some l)"

definition insert_bucket :: "string \<Rightarrow> rat \<Rightarrow> nat \<Rightarrow> limiter \<Rightarrow> limiter option" where
  "insert_bucket s tokens now l =
     evict_excess (link_lru_tail s
       (l\<lparr>rl_buckets := AList.update s \<lparr>bk_tokens = tokens, bk_last = now, bk_prev = None, bk_next = None\<rparr> (rl_buckets l)\<rparr>))"

text \<open>\<open>Duration::as_secs_f64\<close>.\<close>

definition secs_f64 :: "(rat \<Rightarrow> rat) \<Rightarrow> nat \<Rightarrow> rat" where
  "secs_f64 rnd ns = rnd (rnd (of_nat (ns div 10 ^ 9)) + rnd (of_nat (ns mod 10 ^ 9) / 10 ^ 9))"

text \<open>The tokens after the refill; \<open>nat\<close> subtraction is \<open>saturating_duration_since\<close>.\<close>

definition refilled :: "(rat \<Rightarrow> rat) \<Rightarrow> rat \<Rightarrow> rat \<Rightarrow> rat \<Rightarrow> nat \<Rightarrow> nat \<Rightarrow> rat" where
  "refilled rnd capacity refill tokens since now =
     min (rnd (tokens + rnd (secs_f64 rnd (now - since) * refill))) capacity"

definition spend :: "(rat \<Rightarrow> rat) \<Rightarrow> rat \<Rightarrow> bool \<times> rat" where
  "spend rnd tokens = (if 1 \<le> tokens then (True, rnd (tokens - 1)) else (False, tokens))"

definition limiter_check :: "(rat \<Rightarrow> rat) \<Rightarrow> string \<Rightarrow> nat \<Rightarrow> limiter \<Rightarrow> (bool \<times> limiter) option" where
  "limiter_check rnd s now l =
     (if rl_capacity l < 1 then Some (False, l)
      else (case (if map_of (rl_buckets l) s = None then insert_bucket s (rl_capacity l) now l else Some l) of
              None \<Rightarrow> None
            | Some l1 \<Rightarrow>
                (let l2 = touch_lru s l1
                 in case map_of (rl_buckets l2) s of
                      None \<Rightarrow> None \<comment> \<open>the \<open>expect\<close>\<close>
                    | Some b \<Rightarrow>
                        (case spend rnd (refilled rnd (rl_capacity l) (rl_refill l) (bk_tokens b) (bk_last b) now) of
                           (ok, t) \<Rightarrow> Some (ok, change_bucket s (\<lambda>x. x\<lparr>bk_tokens := t, bk_last := now\<rparr>) l2)))))"

subsection \<open>The reference: a list by recency\<close>

text \<open>The least recently seen sender first, each with its tokens and the time of its last check.\<close>

type_synonym recency = "(string \<times> rat \<times> nat) list"

definition lru_check :: "(rat \<Rightarrow> rat) \<Rightarrow> rat \<Rightarrow> rat \<Rightarrow> string \<Rightarrow> nat \<Rightarrow> recency \<Rightarrow> bool \<times> recency" where
  "lru_check rnd capacity refill s now qs =
     (if capacity < 1 then (False, qs)
      else
        (let (tokens, since) = (case map_of qs s of None \<Rightarrow> (capacity, now) | Some x \<Rightarrow> x);
             others = filter (\<lambda>q. fst q \<noteq> s) qs;
             kept = (if map_of qs s = None then drop (Suc (length others) - inbound_rate_lru_capacity) others else others);
             (ok, t) = spend rnd (refilled rnd capacity refill tokens since now)
         in (ok, kept @ [(s, t, now)])))"

subsection \<open>The links are the list\<close>

fun first_key :: "recency \<Rightarrow> string option \<Rightarrow> string option" where
  "first_key [] n = n"
| "first_key ((k, x) # qs) n = Some k"

fun last_key :: "string option \<Rightarrow> recency \<Rightarrow> string option" where
  "last_key p [] = p"
| "last_key p ((k, x) # qs) = last_key (Some k) qs"

fun chain :: "(string \<Rightarrow> bucket option) \<Rightarrow> string option \<Rightarrow> recency \<Rightarrow> string option \<Rightarrow> bool" where
  "chain m p [] n = True"
| "chain m p ((k, t, u) # qs) n \<longleftrightarrow>
     m k = Some \<lparr>bk_tokens = t, bk_last = u, bk_prev = p, bk_next = first_key qs n\<rparr> \<and> chain m (Some k) qs n"

definition represents_lru :: "limiter \<Rightarrow> recency \<Rightarrow> bool" where
  "represents_lru l qs \<longleftrightarrow>
     chain (map_of (rl_buckets l)) None qs None \<and> rl_head l = first_key qs None \<and> rl_tail l = last_key None qs \<and>
     distinct (map fst qs) \<and> distinct (map fst (rl_buckets l)) \<and> fst ` set (rl_buckets l) = fst ` set qs"

lemma first_key_append [simp]: "first_key (qs @ rs) n = first_key qs (first_key rs n)"
  by (cases qs) auto

lemma last_key_append [simp]: "last_key p (qs @ rs) = last_key (last_key p qs) rs"
  by (induction qs arbitrary: p) auto

lemma chain_append: "chain m p (qs @ rs) n \<longleftrightarrow> chain m p qs (first_key rs n) \<and> chain m (last_key p qs) rs n"
  by (induction qs arbitrary: p) auto

lemma chain_other: "k \<notin> fst ` set qs \<Longrightarrow> chain (m(k := b)) p qs n = chain m p qs n"
  by (induction qs arbitrary: p) auto

lemma chain_lookup: "chain m p qs n \<Longrightarrow> (k, t, u) \<in> set qs \<Longrightarrow> \<exists>b. m k = Some b \<and> bk_tokens b = t \<and> bk_last b = u"
  by (induction qs arbitrary: p) auto

lemma last_key_in: "last_key p qs = Some k \<Longrightarrow> k \<in> fst ` set qs \<or> p = Some k"
  by (induction qs arbitrary: p) force+

lemma last_key_snoc: "last_key p qs = (if qs = [] then p else Some (fst (last qs)))"
  by (induction qs arbitrary: p) auto

text \<open>The last entry points elsewhere, the first entry is pointed back elsewhere.\<close>

lemma chain_new_next:
  assumes "chain m p (qs @ [(k, t, u)]) n" "k \<notin> fst ` set qs"
  shows "chain (m(k := Some \<lparr>bk_tokens = t, bk_last = u, bk_prev = last_key p qs, bk_next = n'\<rparr>)) p (qs @ [(k, t, u)]) n'"
  using assms by (simp add: chain_append chain_other)

lemma chain_new_prev:
  assumes "chain m p ((k, t, u) # qs) n" "k \<notin> fst ` set qs"
  shows "chain (m(k := Some \<lparr>bk_tokens = t, bk_last = u, bk_prev = p', bk_next = first_key qs n\<rparr>)) p' ((k, t, u) # qs) n"
  using assms by (simp add: chain_other)

subsection \<open>Steps on the links\<close>

abbreviation look :: "limiter \<Rightarrow> string \<Rightarrow> bucket option" where "look l \<equiv> map_of (rl_buckets l)"

definition linked :: "limiter \<Rightarrow> recency \<Rightarrow> bool" where
  "linked l qs \<longleftrightarrow> chain (look l) None qs None \<and> rl_head l = first_key qs None \<and> rl_tail l = last_key None qs \<and>
     distinct (map fst qs)"

definition same_keys :: "limiter \<Rightarrow> limiter \<Rightarrow> bool" where
  "same_keys l l' \<longleftrightarrow> fst ` set (rl_buckets l') = fst ` set (rl_buckets l) \<and>
     (distinct (map fst (rl_buckets l)) \<longrightarrow> distinct (map fst (rl_buckets l'))) \<and>
     rl_capacity l' = rl_capacity l \<and> rl_refill l' = rl_refill l"

lemma same_keys_refl [simp]: "same_keys l l" by (simp add: same_keys_def)

lemma same_keys_trans: "same_keys a b \<Longrightarrow> same_keys b c \<Longrightarrow> same_keys a c"
  by (simp add: same_keys_def)

lemma same_keys_ends [simp]:
  "same_keys l (l'\<lparr>rl_head := h\<rparr>) = same_keys l l'" "same_keys l (l'\<lparr>rl_tail := h\<rparr>) = same_keys l l'"
  by (simp_all add: same_keys_def)

lemma look_change [simp]: "look (change_bucket k f l) = (look l)(k := map_option f (look l k))"
  by (auto simp: change_bucket_def update_conv' split: option.splits)

lemma change_same_keys [simp]: "same_keys l (change_bucket k f l)"
  by (auto simp: change_bucket_def same_keys_def update_conv' distinct_update dom_update [symmetric] dom_map_of_conv_image_fst [symmetric]
      split: option.splits)

lemma change_ends [simp]:
  "rl_head (change_bucket k f l) = rl_head l" "rl_tail (change_bucket k f l) = rl_tail l"
  by (simp_all add: change_bucket_def split: option.splits)

lemma change_keeps_keys [simp]: "same_keys l l' \<Longrightarrow> same_keys l (change_bucket k f l')"
  by (rule same_keys_trans [OF _ change_same_keys])

lemma unlink_same_keys [simp]: "same_keys l (unlink_lru s l)"
  by (auto simp: unlink_lru_def Let_def split: option.splits)

lemma link_same_keys [simp]: "same_keys l (link_lru_tail s l)"
  by (auto simp: link_lru_tail_def Let_def split: option.splits)

lemma represents_linked:
  "represents_lru l qs \<longleftrightarrow> linked l qs \<and> distinct (map fst (rl_buckets l)) \<and> fst ` set (rl_buckets l) = fst ` set qs"
  by (auto simp: represents_lru_def linked_def)

lemma unlink_linked:
  assumes "linked l (xs @ (s, t, u) # ys)"
  shows "linked (unlink_lru s l) (xs @ ys) \<and>
    look (unlink_lru s l) s = Some \<lparr>bk_tokens = t, bk_last = u, bk_prev = None, bk_next = None\<rparr>"
proof -
  from assms have c: "chain (look l) None xs (Some s)" "chain (look l) (Some s) ys None"
    "look l s = Some \<lparr>bk_tokens = t, bk_last = u, bk_prev = last_key None xs, bk_next = first_key ys None\<rparr>"
    and d: "distinct (map fst xs)" "distinct (map fst ys)" "s \<notin> fst ` set xs" "s \<notin> fst ` set ys" "fst ` set xs \<inter> fst ` set ys = {}"
    and ends: "rl_head l = first_key xs (Some s)" "rl_tail l = last_key (Some s) ys"
    by (auto simp: linked_def chain_append)
  show ?thesis
  proof (cases xs rule: rev_cases)
    case Nil
    then show ?thesis
    proof (cases ys)
      case Nil
      with \<open>xs = []\<close> c d ends show ?thesis by (simp add: unlink_lru_def linked_def)
    next
      case (Cons y zs)
      obtain k v w where y: "y = (k, v, w)" by (cases y)
      from c(2) have b: "look l k = Some \<lparr>bk_tokens = v, bk_last = w, bk_prev = Some s, bk_next = first_key zs None\<rparr>"
        and z: "chain (look l) (Some k) zs None" by (simp_all add: Cons y)
      from d have n: "k \<noteq> s" "k \<notin> fst ` set zs" "s \<notin> fst ` set zs" by (auto simp: Cons y)
      show ?thesis using \<open>xs = []\<close> Cons y b z c(3) n d ends
        by (simp add: unlink_lru_def linked_def chain_other Let_def)
    qed
  next
    case (snoc ws x)
    obtain k v w where x: "x = (k, v, w)" by (cases x)
    from c(1) have b: "look l k = Some \<lparr>bk_tokens = v, bk_last = w, bk_prev = last_key None ws, bk_next = Some s\<rparr>"
      and z: "chain (look l) None ws (Some k)" by (simp_all add: snoc x chain_append)
    from d have n: "k \<noteq> s" "k \<notin> fst ` set ws" "s \<notin> fst ` set ws" "k \<notin> fst ` set ys" by (auto simp: snoc x)
    show ?thesis
    proof (cases ys)
      case Nil
      show ?thesis using snoc x Nil b z c(3) n d ends
        by (simp add: unlink_lru_def linked_def chain_other chain_append Let_def)
    next
      case (Cons y zs)
      obtain k' v' w' where y: "y = (k', v', w')" by (cases y)
      from c(2) have b': "look l k' = Some \<lparr>bk_tokens = v', bk_last = w', bk_prev = Some s, bk_next = first_key zs None\<rparr>"
        and z': "chain (look l) (Some k') zs None" by (simp_all add: Cons y)
      from d n have n': "k' \<noteq> s" "k' \<notin> fst ` set zs" "s \<notin> fst ` set zs" "k' \<noteq> k" "k' \<notin> fst ` set ws" "k \<notin> fst ` set zs"
        by (auto simp: Cons y snoc x)
      show ?thesis using snoc x Cons y b z b' z' c(3) n n' d ends
        by (simp add: unlink_lru_def linked_def chain_other chain_append Let_def)
    qed
  qed
qed

lemma link_linked:
  assumes "linked l qs" "look l s = Some b" "s \<notin> fst ` set qs"
  shows "linked (link_lru_tail s l) (qs @ [(s, bk_tokens b, bk_last b)])"
proof (cases qs rule: rev_cases)
  case Nil
  with assms show ?thesis by (cases b) (simp add: link_lru_tail_def linked_def Let_def)
next
  case (snoc ws x)
  obtain k v w where x: "x = (k, v, w)" by (cases x)
  from assms(1) have c: "look l k = Some \<lparr>bk_tokens = v, bk_last = w, bk_prev = last_key None ws, bk_next = None\<rparr>"
    "chain (look l) None ws (Some k)" by (simp_all add: snoc x chain_append linked_def)
  from assms(1,3) have n: "k \<noteq> s" "k \<notin> fst ` set ws" "s \<notin> fst ` set ws" "distinct (map fst ws)" "rl_tail l = Some k"
    "rl_head l = first_key qs None" by (auto simp: snoc x linked_def)
  show ?thesis using assms(2) c n
    by (cases b) (simp add: snoc x link_lru_tail_def linked_def chain_other chain_append Let_def)
qed

subsection \<open>The limiter implements the list\<close>

lemma represents_same_keys:
  "linked l' qs' \<Longrightarrow> same_keys l l' \<Longrightarrow> represents_lru l qs \<Longrightarrow> fst ` set qs' = fst ` set qs \<Longrightarrow> represents_lru l' qs'"
  by (simp add: represents_linked same_keys_def)

lemma represents_length:
  assumes "represents_lru l qs"
  shows "length (rl_buckets l) = length qs"
proof -
  have "length (rl_buckets l) = card (fst ` set (rl_buckets l))"
    using assms distinct_card [of "map fst (rl_buckets l)"] by (simp add: represents_linked)
  also have "\<dots> = length qs"
    using assms distinct_card [of "map fst qs"] by (simp add: represents_linked linked_def)
  finally show ?thesis .
qed

lemma represents_lookup: "represents_lru l qs \<Longrightarrow> look l s = None \<longleftrightarrow> s \<notin> fst ` set qs"
  by (simp add: represents_linked map_of_eq_None_iff)

lemma touch_linked:
  assumes "represents_lru l (xs @ (s, t, u) # ys)"
  shows "represents_lru (touch_lru s l) (xs @ ys @ [(s, t, u)])"
proof (cases "rl_tail l = Some s")
  case True
  with assms have "ys = []" by (cases ys rule: rev_cases) (auto simp: represents_linked linked_def)
  with True assms show ?thesis by (simp add: touch_lru_def)
next
  case False
  from assms have l: "linked l (xs @ (s, t, u) # ys)" by (simp add: represents_linked)
  then have "s \<notin> fst ` set (xs @ ys)" by (auto simp: linked_def)
  with unlink_linked [OF l] have "linked (link_lru_tail s (unlink_lru s l)) ((xs @ ys) @ [(s, t, u)])"
    using link_linked [of "unlink_lru s l" "xs @ ys" s] by simp
  moreover have "same_keys l (touch_lru s l)"
    using False by (simp add: touch_lru_def same_keys_trans [OF unlink_same_keys link_same_keys])
  moreover have "touch_lru s l = link_lru_tail s (unlink_lru s l)" using False by (simp add: touch_lru_def)
  moreover have "fst ` set (xs @ ys @ [(s, t, u)]) = fst ` set (xs @ (s, t, u) # ys)" by auto
  ultimately show ?thesis
    using represents_same_keys [OF _ _ assms, of "touch_lru s l" "xs @ ys @ [(s, t, u)]"] by simp
qed

lemma stamp_linked:
  assumes "represents_lru l (qs @ [(s, t, u)])"
  shows "represents_lru (change_bucket s (\<lambda>x. x\<lparr>bk_tokens := t', bk_last := u'\<rparr>) l) (qs @ [(s, t', u')])"
proof (rule represents_same_keys [OF _ _ assms])
  show "linked (change_bucket s (\<lambda>x. x\<lparr>bk_tokens := t', bk_last := u'\<rparr>) l) (qs @ [(s, t', u')])"
  proof -
    from assms have "chain (look l) None qs (Some s)" "rl_head l = first_key qs (Some s)" "rl_tail l = Some s"
      "look l s = Some \<lparr>bk_tokens = t, bk_last = u, bk_prev = last_key None qs, bk_next = None\<rparr>"
      "distinct (map fst qs)" "s \<notin> fst ` set qs"
      by (simp_all add: represents_linked linked_def chain_append)
    then show ?thesis by (simp add: linked_def chain_append chain_other)
  qed
qed simp_all

lemma delete_key_set: "fst ` set (AList.delete k xs) = fst ` set xs - {k}"
  by (metis delete_keys set_map set_removeAll)

lemma delete_distinct_keys: "distinct (map fst xs) \<Longrightarrow> distinct (map fst (AList.delete k xs))"
  by (simp add: delete_keys distinct_removeAll)

lemma evict_one:
  assumes "represents_lru l ((k, t, u) # qs)"
  shows "represents_lru (remove_bucket k (unlink_lru k l)) qs"
proof -
  from assms have l: "linked l ([] @ (k, t, u) # qs)" and k: "k \<notin> fst ` set qs" by (auto simp: represents_linked linked_def)
  let ?u = "unlink_lru k l"
  from unlink_linked [OF l] have "linked ?u qs" by simp
  moreover have "look (remove_bucket k ?u) = (look ?u)(k := None)"
    by (simp add: remove_bucket_def delete_conv')
  ultimately have "linked (remove_bucket k ?u) qs"
    using k by (simp add: linked_def chain_other remove_bucket_def)
  moreover have "same_keys l ?u" by simp
  ultimately show ?thesis
    using assms k by (simp add: represents_linked same_keys_def remove_bucket_def delete_key_set delete_distinct_keys)
qed

lemma insert_represents:
  assumes r: "represents_lru l qs" and s: "s \<notin> fst ` set qs" and n: "length qs \<le> inbound_rate_lru_capacity"
  shows "\<exists>l'. insert_bucket s t u l = Some l' \<and> rl_capacity l' = rl_capacity l \<and> rl_refill l' = rl_refill l \<and>
    represents_lru l' (drop (Suc (length qs) - inbound_rate_lru_capacity) qs @ [(s, t, u)])"
proof -
  define b where "b = \<lparr>bk_tokens = t, bk_last = u, bk_prev = None, bk_next = None :: string option\<rparr>"
  define l0 where "l0 = l\<lparr>rl_buckets := AList.update s b (rl_buckets l)\<rparr>"
  have look: "look l0 = (look l)(s := Some b)" by (simp add: l0_def update_conv')
  have "linked l0 qs" using r s look by (simp add: represents_linked linked_def chain_other l0_def)
  then have "linked (link_lru_tail s l0) (qs @ [(s, t, u)])"
    using link_linked [of l0 qs s b] s look by (simp add: b_def)
  moreover have "same_keys l0 (link_lru_tail s l0)" by simp
  moreover have "fst ` set (rl_buckets l0) = insert s (fst ` set qs)" "distinct (map fst (rl_buckets l0))"
    using r by (auto simp: l0_def represents_linked dom_update distinct_update)
  ultimately have rep: "represents_lru (link_lru_tail s l0) (qs @ [(s, t, u)])"
    by (simp add: represents_linked same_keys_def)
  have knobs: "rl_capacity (link_lru_tail s l0) = rl_capacity l" "rl_refill (link_lru_tail s l0) = rl_refill l"
    using link_same_keys [of l0 s] by (simp_all add: same_keys_def l0_def)
  have ins: "insert_bucket s t u l = evict_excess (link_lru_tail s l0)"
    by (simp add: insert_bucket_def l0_def b_def)
  show ?thesis
  proof (cases "length qs = inbound_rate_lru_capacity")
    case False
    with n rep knobs show ?thesis
      by (simp add: ins evict_excess.simps [of "link_lru_tail s l0"] represents_length)
  next
    case True
    then obtain k v w ps where q: "qs = (k, v, w) # ps" by (cases qs) (auto simp: inbound_rate_lru_capacity_def)
    from rep have h: "rl_head (link_lru_tail s l0) = Some k" by (simp add: represents_linked linked_def q)
    have rep': "represents_lru (remove_bucket k (unlink_lru k (link_lru_tail s l0))) (ps @ [(s, t, u)])"
      using rep by (intro evict_one) (simp add: q)
    have "evict_excess (link_lru_tail s l0) = Some (remove_bucket k (unlink_lru k (link_lru_tail s l0)))"
      using rep rep' True h
      by (simp add: evict_excess.simps [of "link_lru_tail s l0"] evict_excess.simps [of "remove_bucket _ _"] represents_length q)
    moreover have "rl_capacity (remove_bucket k (unlink_lru k (link_lru_tail s l0))) = rl_capacity l"
      "rl_refill (remove_bucket k (unlink_lru k (link_lru_tail s l0))) = rl_refill l"
      using unlink_same_keys [of "link_lru_tail s l0" k] knobs by (simp_all add: same_keys_def remove_bucket_def)
    ultimately show ?thesis using rep' True by (simp add: ins q)
  qed
qed

lemma spend_split: "spend rnd t = (fst (spend rnd t), snd (spend rnd t))" by simp

lemma change_knobs [simp]:
  "rl_capacity (change_bucket k f l) = rl_capacity l" "rl_refill (change_bucket k f l) = rl_refill l"
  by (simp_all add: change_bucket_def split: option.splits)

lemma touch_knobs: "rl_capacity (touch_lru s l) = rl_capacity l" "rl_refill (touch_lru s l) = rl_refill l"
  using same_keys_trans [OF unlink_same_keys link_same_keys, of l s s] by (simp_all add: touch_lru_def same_keys_def)

lemma check_refines:
  assumes r: "represents_lru l qs" and n: "length qs \<le> inbound_rate_lru_capacity"
  shows "\<exists>ok l' qs'. limiter_check rnd s now l = Some (ok, l') \<and>
    lru_check rnd (rl_capacity l) (rl_refill l) s now qs = (ok, qs') \<and> represents_lru l' qs' \<and>
    length qs' \<le> inbound_rate_lru_capacity \<and> rl_capacity l' = rl_capacity l \<and> rl_refill l' = rl_refill l"
proof (cases "rl_capacity l < 1")
  case True
  with assms show ?thesis by (auto simp: limiter_check_def lru_check_def)
next
  case False
  define out where "out t u = spend rnd (refilled rnd (rl_capacity l) (rl_refill l) t u now)" for t u
  have step: ?thesis
    if m: "represents_lru l2 (ps @ [(s, t, u)])" "rl_capacity l2 = rl_capacity l" "rl_refill l2 = rl_refill l"
      "length (ps @ [(s, t, u)]) \<le> inbound_rate_lru_capacity"
      and c: "limiter_check rnd s now l = (case look l2 s of None \<Rightarrow> None
        | Some b \<Rightarrow> (case out (bk_tokens b) (bk_last b) of
            (ok, x) \<Rightarrow> Some (ok, change_bucket s (\<lambda>y. y\<lparr>bk_tokens := x, bk_last := now\<rparr>) l2)))"
      and q: "lru_check rnd (rl_capacity l) (rl_refill l) s now qs = (fst (out t u), ps @ [(s, snd (out t u), now)])"
    for l2 ps t u
  proof -
    from m(1) obtain b where b: "look l2 s = Some b" "bk_tokens b = t" "bk_last b = u"
      by (auto simp: represents_linked linked_def chain_append)
    show ?thesis
      using stamp_linked [OF m(1), where t' = "snd (out t u)" and u' = now] m(2-4) b c q by (simp add: prod.case_eq_if)
  qed
  show ?thesis
  proof (cases "s \<in> fst ` set qs")
    case True
    then obtain t u xs ys where q: "qs = xs @ (s, t, u) # ys" by (auto dest: split_list)
    with r have d: "s \<notin> fst ` set xs" "s \<notin> fst ` set ys" "distinct (map fst qs)" by (auto simp: represents_linked linked_def)
    then have keep: "filter (\<lambda>q. fst q \<noteq> s) xs = xs" "filter (\<lambda>q. fst q \<noteq> s) ys = ys"
      by (auto simp: filter_id_conv image_iff)
    have "map_of qs s = Some (t, u)" using d map_of_eq_None_iff [of xs s] by (simp add: q map_add_def)
    moreover obtain b where "look l s = Some b" using True represents_lookup [OF r, of s] by fastforce
    ultimately show ?thesis
      using False keep touch_linked [OF r [unfolded q]] n
      by (intro step [of "touch_lru s l" "xs @ ys" t u])
        (simp_all add: limiter_check_def lru_check_def touch_knobs q out_def Let_def prod.case_eq_if cong: option.case_cong)
  next
    case new: False
    from insert_represents [OF r new n, of "rl_capacity l" now] obtain l' where l':
      "insert_bucket s (rl_capacity l) now l = Some l'" "rl_capacity l' = rl_capacity l" "rl_refill l' = rl_refill l"
      "represents_lru l' (drop (Suc (length qs) - inbound_rate_lru_capacity) qs @ [(s, rl_capacity l, now)])" by blast
    from l'(4) have "touch_lru s l' = l'" by (simp add: touch_lru_def represents_linked linked_def)
    moreover have "filter (\<lambda>q. fst q \<noteq> s) qs = qs" using new by (auto simp: filter_id_conv image_iff)
    moreover have "map_of qs s = None" using new by (simp add: map_of_eq_None_iff)
    moreover have "Suc (length qs - (Suc (length qs) - inbound_rate_lru_capacity)) \<le> inbound_rate_lru_capacity"
      using n by (simp add: inbound_rate_lru_capacity_def)
    ultimately show ?thesis
      using l' False n represents_lookup [OF r, of s] new
      by (intro step [of l' "drop (Suc (length qs) - inbound_rate_lru_capacity) qs" "rl_capacity l" now])
        (simp_all add: limiter_check_def lru_check_def out_def Let_def prod.case_eq_if cong: option.case_cong)
  qed
qed

subsection \<open>What one sender is granted\<close>

text \<open>The checks of a list of arrivals, and the list's.\<close>

fun limiter_run :: "(rat \<Rightarrow> rat) \<Rightarrow> (string \<times> nat) list \<Rightarrow> limiter \<Rightarrow> (bool list \<times> limiter) option" where
  "limiter_run rnd [] l = Some ([], l)"
| "limiter_run rnd ((s, now) # evs) l =
     (case limiter_check rnd s now l of
        None \<Rightarrow> None
      | Some (ok, l1) \<Rightarrow> map_option (\<lambda>(oks, l2). (ok # oks, l2)) (limiter_run rnd evs l1))"

fun lru_run :: "(rat \<Rightarrow> rat) \<Rightarrow> rat \<Rightarrow> rat \<Rightarrow> (string \<times> nat) list \<Rightarrow> recency \<Rightarrow> bool list \<times> recency" where
  "lru_run rnd c r [] qs = ([], qs)"
| "lru_run rnd c r ((s, now) # evs) qs =
     (case lru_check rnd c r s now qs of (ok, qs1) \<Rightarrow> (case lru_run rnd c r evs qs1 of (oks, qs2) \<Rightarrow> (ok # oks, qs2)))"

definition granted :: "string \<Rightarrow> (string \<times> nat) list \<Rightarrow> bool list \<Rightarrow> nat" where
  "granted s evs oks = length (filter (\<lambda>(e, ok). fst e = s \<and> ok) (zip evs oks))"

lemma run_refines:
  assumes "represents_lru l qs" "length qs \<le> inbound_rate_lru_capacity"
  shows "\<exists>oks l' qs'. limiter_run rnd evs l = Some (oks, l') \<and>
    lru_run rnd (rl_capacity l) (rl_refill l) evs qs = (oks, qs') \<and> represents_lru l' qs' \<and>
    length qs' \<le> inbound_rate_lru_capacity"
  using assms
proof (induction evs arbitrary: l qs)
  case (Cons e evs)
  obtain s now where e: "e = (s, now)" by (cases e)
  from check_refines [OF Cons.prems, of rnd s now] obtain ok l1 q1 where st:
    "limiter_check rnd s now l = Some (ok, l1)" "lru_check rnd (rl_capacity l) (rl_refill l) s now qs = (ok, q1)"
    "represents_lru l1 q1" "length q1 \<le> inbound_rate_lru_capacity" "rl_capacity l1 = rl_capacity l" "rl_refill l1 = rl_refill l"
    by blast
  from Cons.IH [OF st(3,4)] st show ?case by (auto simp: e)
qed simp

lemma new_represents: "represents_lru (new_limiter rnd capacity per_min) []"
  by (simp add: new_limiter_def represents_lru_def)

text \<open>
  C24. The constant-time limiter is the plain list by recency. Whatever the rounding, and
  whatever the arrivals from a fresh limiter on, every check of the linked buckets ends and answers what the check of the list
  answers, and the links then are the list: the sender just seen last, a new sender with a full bucket, the least recently seen
  evicted when the 4097th arrives, and never more than 4096.
\<close>

theorem limiter_refines_lru:
  "\<exists>oks l' qs'. limiter_run rnd evs (new_limiter rnd capacity per_min) = Some (oks, l') \<and>
     lru_run rnd (of_nat capacity) (rnd (of_nat per_min / 60)) evs [] = (oks, qs') \<and> represents_lru l' qs' \<and>
     length qs' \<le> inbound_rate_lru_capacity"
  using run_refines [OF new_represents, where rnd = rnd and evs = evs] by (simp add: new_limiter_def)

lemma lru_run_snoc:
  "lru_run rnd c r (evs @ [(s, now)]) qs =
     (case lru_run rnd c r evs qs of (oks, qs1) \<Rightarrow> (case lru_check rnd c r s now qs1 of (ok, qs2) \<Rightarrow> (oks @ [ok], qs2)))"
  by (induction evs arbitrary: qs) (auto split: prod.splits)

lemma lru_run_length: "length (fst (lru_run rnd c r evs qs)) = length evs"
  by (induction evs arbitrary: qs) (auto split: prod.splits, metis fst_conv)

lemma granted_snoc:
  "length oks = length evs \<Longrightarrow> granted s (evs @ [e]) (oks @ [ok]) = granted s evs oks + (if fst e = s \<and> ok then 1 else 0)"
  by (simp add: granted_def)

text \<open>Seconds between two instants, exactly.\<close>

definition secs :: "nat \<Rightarrow> nat \<Rightarrow> rat" where "secs t u = (of_nat u - of_nat t) / 10 ^ 9"

lemma secs_f64_exact: "t \<le> u \<Longrightarrow> secs_f64 (\<lambda>x. x) (u - t) = secs t u"
proof -
  assume "t \<le> u"
  have "(of_nat (u - t) :: rat) = of_nat ((u - t) div 10 ^ 9 * 10 ^ 9 + (u - t) mod 10 ^ 9)" by simp
  also have "\<dots> = of_nat ((u - t) div 10 ^ 9) * 10 ^ 9 + of_nat ((u - t) mod 10 ^ 9)" by (simp only: of_nat_add of_nat_mult of_nat_power of_nat_numeral)
  finally show ?thesis using \<open>t \<le> u\<close> by (simp add: secs_f64_def secs_def of_nat_diff field_simps)
qed

text \<open>What a bucket holds and what its sender was granted, against what it was given since the instant \<open>t0\<close>.\<close>

definition within_budget :: "rat \<Rightarrow> rat \<Rightarrow> nat \<Rightarrow> nat \<Rightarrow> recency \<Rightarrow> (string \<Rightarrow> nat) \<Rightarrow> bool" where
  "within_budget c r t0 now qs g \<longleftrightarrow>
     distinct (map fst qs) \<and> (\<forall>s. s \<notin> fst ` set qs \<longrightarrow> g s = 0) \<and>
     (\<forall>(s, t, u) \<in> set qs. 0 \<le> t \<and> t0 \<le> u \<and> u \<le> now \<and> of_nat (g s) + t \<le> c + r * secs t0 u)"

lemma secs_add: "secs t u + secs u v = secs t v"
  by (simp add: secs_def field_simps)

lemma secs_nonneg: "t \<le> u \<Longrightarrow> 0 \<le> secs t u"
  by (simp add: secs_def)

lemma check_within_budget:
  assumes w: "within_budget c r t0 t1 qs g" and c: "1 \<le> c" "0 \<le> r" and t: "t0 \<le> t1" "t1 \<le> now"
    and k: "lru_check (\<lambda>x. x) c r s now qs = (ok, qs')"
    and n: "card (insert s (fst ` set qs)) \<le> inbound_rate_lru_capacity"
  shows "within_budget c r t0 now qs' (g(s := g s + (if ok then 1 else 0))) \<and> fst ` set qs' = insert s (fst ` set qs)"
proof -
  obtain x u where b: "(case map_of qs s of None \<Rightarrow> (c, now) | Some x \<Rightarrow> x) = (x, u)" by fastforce
  have d: "distinct (map fst qs)" using w by (simp add: within_budget_def)
  have budget: "0 \<le> x \<and> t0 \<le> u \<and> u \<le> now \<and> of_nat (g s) + x \<le> c + r * secs t0 u"
  proof (cases "map_of qs s")
    case None
    then have "g s = 0" using w by (simp add: within_budget_def map_of_eq_None_iff)
    with None b c t show ?thesis by (auto simp: secs_nonneg intro!: mult_nonneg_nonneg)
  next
    case (Some y)
    with b have "(s, x, u) \<in> set qs" by (auto dest: map_of_SomeD)
    with w t show ?thesis by (auto simp: within_budget_def)
  qed
  have kept: "(if map_of qs s = None then drop (Suc (length (filter (\<lambda>q. fst q \<noteq> s) qs)) - inbound_rate_lru_capacity)
      (filter (\<lambda>q. fst q \<noteq> s) qs) else filter (\<lambda>q. fst q \<noteq> s) qs) = filter (\<lambda>q. fst q \<noteq> s) qs"
  proof (cases "map_of qs s")
    case None
    then have new: "s \<notin> fst ` set qs" by (simp add: map_of_eq_None_iff)
    then have "filter (\<lambda>q. fst q \<noteq> s) qs = qs" by (auto simp: filter_id_conv)
    moreover have "card (insert s (fst ` set qs)) = Suc (length qs)"
      using new distinct_card [OF d] by simp
    ultimately show ?thesis using n by simp
  qed simp
  define z where "z = refilled (\<lambda>x. x) c r x u now"
  have z: "z = min (x + r * secs u now) c"
    using budget by (simp add: z_def refilled_def secs_f64_exact mult.commute)
  have q': "qs' = filter (\<lambda>q. fst q \<noteq> s) qs @ [(s, snd (spend (\<lambda>x. x) z), now)]" and ok: "ok = fst (spend (\<lambda>x. x) z)"
    using k c(1) kept by (auto simp: lru_check_def b z_def Let_def prod.case_eq_if)
  have "r * secs t0 u + r * secs u now = r * secs t0 now" by (simp add: secs_add flip: distrib_left)
  with z budget have "of_nat (g s) + z \<le> c + r * secs t0 now" by linarith
  moreover have "0 \<le> z" using z budget c secs_nonneg [of u now] by (simp add: mult_nonneg_nonneg)
  ultimately have mine: "0 \<le> snd (spend (\<lambda>x. x) z) \<and> of_nat (g s + (if ok then 1 else 0)) + snd (spend (\<lambda>x. x) z) \<le> c + r * secs t0 now"
    by (auto simp: ok spend_def)
  have "\<forall>q \<in> set qs'. (case q of (k, y, v) \<Rightarrow> 0 \<le> y \<and> t0 \<le> v \<and> v \<le> now \<and>
      of_nat ((g(s := g s + (if ok then 1 else 0))) k) + y \<le> c + r * secs t0 v)"
    using w mine t by (auto simp: q' within_budget_def)
  moreover have "distinct (map fst qs')" using d by (auto simp: q' distinct_map_filter)
  moreover have dom: "fst ` set qs' = insert s (fst ` set qs)" by (auto simp: q' image_iff)
  moreover have "k \<notin> fst ` set qs' \<longrightarrow> (g(s := g s + (if ok then 1 else 0))) k = 0" for k
    using w dom by (auto simp: within_budget_def)
  ultimately show ?thesis unfolding within_budget_def by blast
qed

lemma run_within_budget:
  assumes "sorted (map snd evs)" "\<forall>e \<in> set evs. t0 \<le> snd e" "card (fst ` set evs) \<le> inbound_rate_lru_capacity" "1 \<le> c" "0 \<le> r"
    and "lru_run (\<lambda>x. x) c r evs [] = (oks, qs)" "evs \<noteq> []"
  shows "within_budget c r t0 (snd (last evs)) qs (\<lambda>s. granted s evs oks) \<and> fst ` set qs = fst ` set evs"
  using assms
proof (induction evs arbitrary: oks qs rule: rev_induct)
  case (snoc e evs)
  obtain s now where e: "e = (s, now)" by (cases e)
  obtain oks1 qs1 where one: "lru_run (\<lambda>x. x) c r evs [] = (oks1, qs1)" by fastforce
  obtain ok qs2 where two: "lru_check (\<lambda>x. x) c r s now qs1 = (ok, qs2)" by fastforce
  from snoc.prems(6) one two have out: "oks = oks1 @ [ok]" "qs = qs2" by (auto simp: e lru_run_snoc)
  have len: "length oks1 = length evs" using lru_run_length [of "\<lambda>x. x" c r evs "[]"] one by simp
  have count: "(\<lambda>k. granted k (evs @ [e]) oks) = (\<lambda>k. granted k evs oks1)(s := granted s evs oks1 + (if ok then 1 else 0))"
    by (auto simp: out e granted_snoc [OF len])
  have before: "within_budget c r t0 (if evs = [] then t0 else snd (last evs)) qs1 (\<lambda>k. granted k evs oks1) \<and>
      fst ` set qs1 = fst ` set evs"
  proof (cases "evs = []")
    case True
    with one show ?thesis by (auto simp: within_budget_def granted_def)
  next
    case False
    have "card (fst ` set evs) \<le> inbound_rate_lru_capacity"
      by (rule le_trans [OF card_mono snoc.prems(3)]) auto
    with False snoc.IH [OF _ _ _ snoc.prems(4,5) one] snoc.prems(1,2) show ?thesis by (simp add: sorted_append)
  qed
  have "(if evs = [] then t0 else snd (last evs)) \<le> now" "t0 \<le> (if evs = [] then t0 else snd (last evs))"
    using snoc.prems(1,2) by (auto simp: sorted_append e)
  with check_within_budget [OF conjunct1 [OF before] snoc.prems(4,5) _ _ two] before snoc.prems(3)
  show ?case by (cases ok) (simp_all add: count out(2), simp_all add: e)
qed simp

text \<open>
  C25. One sender cannot buy more work than its bucket. From a fresh limiter with at most 4096 senders, in exact
  arithmetic, every check is answered, and no sender is granted more wraps than the capacity plus what the refill gives
  in the time between the first arrival and the last, however its arrivals interleave with those of the others.
\<close>

theorem inbound_rate_bounded:
  assumes "sorted (map snd evs)" "evs \<noteq> []" "card (fst ` set evs) \<le> inbound_rate_lru_capacity" "1 \<le> capacity"
  shows "\<exists>oks l'. limiter_run (\<lambda>x. x) evs (new_limiter (\<lambda>x. x) capacity per_min) = Some (oks, l') \<and> length oks = length evs \<and>
    (\<forall>s. of_nat (granted s evs oks) \<le> of_nat capacity + of_nat per_min / 60 * secs (snd (hd evs)) (snd (last evs)))"
proof -
  let ?c = "of_nat capacity :: rat" and ?r = "of_nat per_min / 60 :: rat"
  from run_refines [OF new_represents [of "\<lambda>x. x" capacity per_min], where rnd = "\<lambda>x. x" and evs = evs] obtain oks l' qs where
    run: "limiter_run (\<lambda>x. x) evs (new_limiter (\<lambda>x. x) capacity per_min) = Some (oks, l')"
      "lru_run (\<lambda>x. x) ?c ?r evs [] = (oks, qs)" by (auto simp: new_limiter_def)
  have first: "snd (hd evs) \<le> snd e" if "e \<in> set evs" for e
    using assms(1,2) that by (cases evs) auto
  then have w: "within_budget ?c ?r (snd (hd evs)) (snd (last evs)) qs (\<lambda>s. granted s evs oks)" "fst ` set qs = fst ` set evs"
    using run_within_budget [OF assms(1) _ assms(3) _ _ run(2) assms(2), of "snd (hd evs)"] assms(4) by auto
  have "of_nat (granted s evs oks) \<le> ?c + ?r * secs (snd (hd evs)) (snd (last evs))" for s
  proof (cases "s \<in> fst ` set qs")
    case True
    then obtain t u where "0 \<le> t" "u \<le> snd (last evs)" "of_nat (granted s evs oks) + t \<le> ?c + ?r * secs (snd (hd evs)) u"
      using w(1) by (fastforce simp: within_budget_def)
    moreover have "?r * secs (snd (hd evs)) u \<le> ?r * secs (snd (hd evs)) (snd (last evs))"
      using \<open>u \<le> snd (last evs)\<close> by (intro mult_left_mono) (auto simp: secs_def divide_right_mono)
    ultimately show ?thesis by linarith
  next
    case False
    then have "granted s evs oks = 0" using w(1) by (simp add: within_budget_def)
    moreover have "0 \<le> secs (snd (hd evs)) (snd (last evs))" using first assms(2) by (simp add: secs_nonneg)
    ultimately show ?thesis by simp
  qed
  with run(1) lru_run_length [of "\<lambda>x. x" ?c ?r evs "[]"] run(2) show ?thesis by auto
qed

theorem inbound_rate_bounded_witness:
  "\<exists>oks l'. limiter_run (\<lambda>x. x) [(''a'', 0), (''a'', 1), (''b'', 1), (''a'', 2)] (new_limiter (\<lambda>x. x) 2 6) = Some (oks, l') \<and>
    granted ''a'' [(''a'', 0), (''a'', 1), (''b'', 1), (''a'', 2)] oks \<le> 2"
proof -
  let ?evs = "[(''a'', 0), (''a'', 1), (''b'', 1), (''a'', 2)] :: (string \<times> nat) list"
  have "card (fst ` set ?evs) \<le> inbound_rate_lru_capacity" by (simp add: inbound_rate_lru_capacity_def card_insert_if)
  from inbound_rate_bounded [OF _ _ this, of 2 6] obtain oks l' where
    "limiter_run (\<lambda>x. x) ?evs (new_limiter (\<lambda>x. x) 2 6) = Some (oks, l')"
    "(of_nat (granted ''a'' ?evs oks) :: rat) \<le> 2 + 6 / 60 * secs 0 2" by auto
  moreover have "(2 :: rat) + 6 / 60 * secs 0 2 < of_nat 3" by (simp add: secs_def)
  ultimately have "(of_nat (granted ''a'' ?evs oks) :: rat) < of_nat 3" by linarith
  then have "granted ''a'' ?evs oks < 3" by (simp only: of_nat_less_iff)
  then have "granted ''a'' ?evs oks \<le> 2" by arith
  with \<open>limiter_run (\<lambda>x. x) ?evs (new_limiter (\<lambda>x. x) 2 6) = Some (oks, l')\<close> show ?thesis by blast
qed

end
