(* ===== verification/Inbound.thy ===== *)
theory Inbound
  imports Rate_Limit Wire_Dm
begin

text \<open>
  Inbound gift wraps, \<open>daemon/src/nostr_engine.rs\<close>: the checks of one wrap from its arrival to its \<open>seen_message\<close> row,
  and the tasks of many wraps interleaving at their await points. The relays, the key that opens a wrap, and what a handler
  commits are the outside; a copy of an event carries what the libraries tell of it (\<open>wrap\<close> of \<open>Wire_Dm\<close>).
\<close>

subsection \<open>What the engine remembers\<close>

record seen_row =
  sn_event :: string
  sn_sender :: string
  sn_type :: string
  sn_at :: int

definition seen_message_retention_secs :: int where "seen_message_retention_secs = 90 * 24 * 60 * 60"

text \<open>\<open>mark_seen\<close> at the database's \<open>unixepoch()\<close>, with its pruning.\<close>

definition mark_seen :: "string \<Rightarrow> string \<Rightarrow> string \<Rightarrow> int \<Rightarrow> seen_row list \<Rightarrow> seen_row list" where
  "mark_seen i sender ty now rows =
     (let live = filter (\<lambda>r. \<not> sn_at r < now - seen_message_retention_secs) rows
      in if \<exists>r \<in> set live. sn_event r = i then live
         else live @ [\<lparr>sn_event = i, sn_sender = sender, sn_type = ty, sn_at = now\<rparr>])"

definition is_seen :: "string \<Rightarrow> seen_row list \<Rightarrow> bool" where
  "is_seen i rows \<longleftrightarrow> (\<exists>r \<in> set rows. sn_event r = i)"

definition negative_cache_capacity :: nat where "negative_cache_capacity = 4096"

record negative_cache =
  nc_members :: "string set"
  nc_order :: "string list"

definition empty_cache :: negative_cache where "empty_cache = \<lparr>nc_members = {}, nc_order = []\<rparr>"

definition cache_insert :: "string \<Rightarrow> negative_cache \<Rightarrow> negative_cache" where
  "cache_insert i c =
     (if i \<in> nc_members c then c
      else
        (let order = nc_order c @ [i];
             members = insert i (nc_members c)
         in if negative_cache_capacity < length order
            then (case order of
                    [] \<Rightarrow> \<lparr>nc_members = members, nc_order = order\<rparr>
                  | e # rest \<Rightarrow> \<lparr>nc_members = members - {e}, nc_order = rest\<rparr>)
            else \<lparr>nc_members = members, nc_order = order\<rparr>))"

subsection \<open>One wrap\<close>

record inbound_wrap =
  iw_id :: string
  iw_matches :: bool \<comment> \<open>the inbound filter: kind 1059 and the operator's \<open>p\<close> tag\<close>
  iw_wrap :: wrap

record hub =
  hb_seen :: "seen_row list"
  hb_claims :: "string set"
  hb_negative :: negative_cache
  hb_limiter :: limiter

record engine_ports =
  en_parse :: "string \<Rightarrow> json option"
  en_round :: "rat \<Rightarrow> rat"
  en_operator :: string \<comment> \<open>the operator's public key\<close>
  en_content :: "string \<Rightarrow> (string \<times> nat \<times> string) option" \<comment> \<open>what the event id, a hash, commits to\<close>

datatype wrap_failure =
    NotAWrap
  | BadSignature
  | SeenReadFailed
  | Undecodable wire_failure
  | LimiterPanic
  | HandlerFailed
  | MarkFailed

datatype wrap_phase =
    Arrived
  | Reading \<comment> \<open>claimed, awaiting the durable check\<close>
  | Decoding \<comment> \<open>awaiting \<open>gift_unwrap\<close>\<close>
  | Handling string msg
  | Marking string msg
  | Finished "wrap_failure + bool"

definition verify_inbound_wrap :: "inbound_wrap \<Rightarrow> wrap_failure option" where
  "verify_inbound_wrap w =
     (if wr_kind (iw_wrap w) \<noteq> 1059 then Some NotAWrap
      else if \<not> wr_verified (iw_wrap w) then Some BadSignature
      else None)"

definition release_claim :: "string \<Rightarrow> hub \<Rightarrow> hub" where
  "release_claim i h = h\<lparr>hb_claims := hb_claims h - {i}\<rparr>"

definition note_non_routable :: "string \<Rightarrow> hub \<Rightarrow> hub" where
  "note_non_routable i h = h\<lparr>hb_negative := cache_insert i (hb_negative h)\<rparr>"

definition end_wrap :: "inbound_wrap \<Rightarrow> wrap_failure + bool \<Rightarrow> hub \<Rightarrow> wrap_phase \<times> hub" where
  "end_wrap w x h = (Finished x, release_claim (iw_id w) h)"

text \<open>Up to the first await: the signature, the claim, the negative cache.\<close>

definition begin_wrap :: "inbound_wrap \<Rightarrow> hub \<Rightarrow> wrap_phase \<times> hub" where
  "begin_wrap w h =
     (case verify_inbound_wrap w of
        Some e \<Rightarrow> (Finished (Inl e), h)
      | None \<Rightarrow>
          if iw_id w \<in> hb_claims h then (Finished (Inr False), h)
          else if iw_id w \<in> nc_members (hb_negative h) then (Finished (Inr False), h)
          else (Reading, h\<lparr>hb_claims := insert (iw_id w) (hb_claims h)\<rparr>))"

definition after_read :: "inbound_wrap \<Rightarrow> bool option \<Rightarrow> hub \<Rightarrow> wrap_phase \<times> hub" where
  "after_read w answer h =
     (case answer of
        None \<Rightarrow> end_wrap w (Inl SeenReadFailed) h
      | Some True \<Rightarrow> end_wrap w (Inr False) h
      | Some False \<Rightarrow> (Decoding, h))"

fun is_order_message :: "msg \<Rightarrow> bool" where
  "is_order_message (OrderRequest q) = True"
| "is_order_message (RenewRequest q) = True"
| "is_order_message (SubCancel i) = True"
| "is_order_message (DeliveryResendRequest i) = True"
| "is_order_message m = False"

fun is_buyer_request :: "msg \<Rightarrow> bool" where
  "is_buyer_request (OpRequest q) = True"
| "is_buyer_request m = is_order_message m"

text \<open>\<open>admit_inbound\<close>; \<open>None\<close> is the limiter's panic, which never happens.\<close>

definition admit_inbound :: "engine_ports \<Rightarrow> string \<Rightarrow> nat \<Rightarrow> hub \<Rightarrow> (bool \<times> hub) option" where
  "admit_inbound P sender now h =
     map_option (\<lambda>(ok, l). (ok, h\<lparr>hb_limiter := l\<rparr>)) (limiter_check (en_round P) sender now (hb_limiter h))"

definition after_unwrap :: "engine_ports \<Rightarrow> inbound_wrap \<Rightarrow> nat \<Rightarrow> hub \<Rightarrow> wrap_phase \<times> hub" where
  "after_unwrap P w now h =
     (case gift_unwrap (en_parse P) (iw_wrap w) of
        Inl e \<Rightarrow> end_wrap w (Inl (Undecodable e)) (note_non_routable (iw_id w) h)
      | Inr (sender, m) \<Rightarrow>
          if is_buyer_request m then
            (if sender = en_operator P then (Handling sender m, h)
             else (case admit_inbound P sender now h of
                     None \<Rightarrow> end_wrap w (Inl LimiterPanic) h
                   | Some (False, h') \<Rightarrow> end_wrap w (Inr False) h'
                   | Some (True, h') \<Rightarrow> (Handling sender m, h')))
          else end_wrap w (Inr False) (note_non_routable (iw_id w) h))"

definition after_handler :: "inbound_wrap \<Rightarrow> string \<Rightarrow> msg \<Rightarrow> bool \<Rightarrow> hub \<Rightarrow> wrap_phase \<times> hub" where
  "after_handler w sender m ok h = (if ok then (Marking sender m, h) else end_wrap w (Inl HandlerFailed) h)"

definition after_mark :: "inbound_wrap \<Rightarrow> string \<Rightarrow> msg \<Rightarrow> int option \<Rightarrow> hub \<Rightarrow> wrap_phase \<times> hub" where
  "after_mark w sender m committed_at h =
     (case committed_at of
        None \<Rightarrow> end_wrap w (Inl MarkFailed) h
      | Some now \<Rightarrow> end_wrap w (Inr True) (h\<lparr>hb_seen := mark_seen (iw_id w) sender (type_str m) now (hb_seen h)\<rparr>))"

text \<open>
  \<open>process_inbound\<close>: the steps in a row. \<open>idle\<close> is what the other tasks do at each of its four waits, \<open>handle\<close> what the
  handlers answer.
\<close>

definition process_inbound ::
  "engine_ports \<Rightarrow> (nat \<Rightarrow> hub \<Rightarrow> hub) \<Rightarrow> (hub \<Rightarrow> bool option) \<Rightarrow> (string \<Rightarrow> msg \<Rightarrow> hub \<Rightarrow> bool) \<Rightarrow> nat \<Rightarrow> int option \<Rightarrow> inbound_wrap
     \<Rightarrow> hub \<Rightarrow> (wrap_failure + bool) option \<times> hub" where
  "process_inbound P idle read handle instant committed_at w h =
     (case begin_wrap w h of
        (Finished x, h1) \<Rightarrow> (Some x, h1)
      | (_, h1) \<Rightarrow>
          (case after_read w (read (idle 0 h1)) (idle 0 h1) of
             (Finished x, h2) \<Rightarrow> (Some x, h2)
           | (_, h2) \<Rightarrow>
               (case after_unwrap P w instant (idle 1 h2) of
                  (Finished x, h3) \<Rightarrow> (Some x, h3)
                | (Handling sender m, h3) \<Rightarrow>
                    (case after_handler w sender m (handle sender m h3) (idle 2 h3) of
                       (Finished x, h4) \<Rightarrow> (Some x, h4)
                     | (_, h4) \<Rightarrow>
                         (case after_mark w sender m committed_at (idle 3 h4) of
                            (Finished x, h5) \<Rightarrow> (Some x, h5)
                          | (_, h5) \<Rightarrow> (None, h5)))
                | (_, h3) \<Rightarrow> (None, h3))))"

subsection \<open>Many wraps\<close>

definition max_inbound_concurrency :: nat where "max_inbound_concurrency = 32"

record wrap_task =
  wt_wrap :: inbound_wrap
  wt_phase :: wrap_phase

record engine =
  eg_hub :: hub
  eg_tasks :: "wrap_task list"

definition finished :: "wrap_phase \<Rightarrow> bool" where
  "finished p \<longleftrightarrow> (case p of Finished x \<Rightarrow> True | _ \<Rightarrow> False)"

definition busy :: "engine \<Rightarrow> nat" where
  "busy e = length (filter (\<lambda>t. \<not> finished (wt_phase t)) (eg_tasks e))"

definition set_task :: "nat \<Rightarrow> wrap_phase \<times> hub \<Rightarrow> engine \<Rightarrow> engine" where
  "set_task i ph e = e\<lparr>eg_hub := snd ph, eg_tasks := (eg_tasks e)[i := (eg_tasks e ! i)\<lparr>wt_phase := fst ph\<rparr>]\<rparr>"

definition empty_hub :: "limiter \<Rightarrow> seen_row list \<Rightarrow> hub" where
  "empty_hub l rows = \<lparr>hb_seen = rows, hb_claims = {}, hb_negative = empty_cache, hb_limiter = l\<rparr>"

datatype wrap_event = Routed string | Committed string | Marked string int | Silent

text \<open>
  What can happen next: a wrap that passes the filter gets a permit, a task moves on at its await point with
  whatever answer it gets, a task is dropped (its handler panicked, or the shutdown ran out of time), or the daemon restarts
  with the durable rows alone. A mark may also be committed without its task hearing of it (\<open>late\<close>).
\<close>

inductive inbound_step :: "engine_ports \<Rightarrow> engine \<Rightarrow> wrap_event \<Rightarrow> engine \<Rightarrow> bool" for P where
  arrive: "iw_matches w \<Longrightarrow> (wr_verified (iw_wrap w) \<longrightarrow> wr_rumor (iw_wrap w) = en_content P (iw_id w)) \<Longrightarrow>
    busy e < max_inbound_concurrency \<Longrightarrow>
    inbound_step P e Silent (e\<lparr>eg_tasks := eg_tasks e @ [\<lparr>wt_wrap = w, wt_phase = Arrived\<rparr>]\<rparr>)"
| start: "i < length (eg_tasks e) \<Longrightarrow> wt_phase (eg_tasks e ! i) = Arrived \<Longrightarrow>
    inbound_step P e Silent (set_task i (begin_wrap (wt_wrap (eg_tasks e ! i)) (eg_hub e)) e)"
| read: "i < length (eg_tasks e) \<Longrightarrow> wt_phase (eg_tasks e ! i) = Reading \<Longrightarrow>
    answer = None \<or> answer = Some (is_seen (iw_id (wt_wrap (eg_tasks e ! i))) (hb_seen (eg_hub e))) \<Longrightarrow>
    inbound_step P e Silent (set_task i (after_read (wt_wrap (eg_tasks e ! i)) answer (eg_hub e)) e)"
| decode: "i < length (eg_tasks e) \<Longrightarrow> wt_phase (eg_tasks e ! i) = Decoding \<Longrightarrow>
    after_unwrap P (wt_wrap (eg_tasks e ! i)) now (eg_hub e) = (p, h) \<Longrightarrow>
    inbound_step P e (if finished p then Silent else Routed (iw_id (wt_wrap (eg_tasks e ! i)))) (set_task i (p, h) e)"
| handled: "i < length (eg_tasks e) \<Longrightarrow> wt_phase (eg_tasks e ! i) = Handling sender m \<Longrightarrow>
    inbound_step P e (if ok then Committed (iw_id (wt_wrap (eg_tasks e ! i))) else Silent)
      (set_task i (after_handler (wt_wrap (eg_tasks e ! i)) sender m ok (eg_hub e)) e)"
| marked: "i < length (eg_tasks e) \<Longrightarrow> wt_phase (eg_tasks e ! i) = Marking sender m \<Longrightarrow>
    inbound_step P e (case committed_at of Some now \<Rightarrow> Marked (iw_id (wt_wrap (eg_tasks e ! i))) now | None \<Rightarrow> Silent)
      (set_task i (after_mark (wt_wrap (eg_tasks e ! i)) sender m committed_at (eg_hub e)) e)"
| late: "i < length (eg_tasks e) \<Longrightarrow> wt_phase (eg_tasks e ! i) = Marking sender m \<Longrightarrow>
    inbound_step P e (Marked (iw_id (wt_wrap (eg_tasks e ! i))) now)
      (e\<lparr>eg_hub := (eg_hub e)\<lparr>hb_seen := mark_seen (iw_id (wt_wrap (eg_tasks e ! i))) sender (type_str m) now (hb_seen (eg_hub e))\<rparr>\<rparr>)"
| aborted: "i < length (eg_tasks e) \<Longrightarrow> \<not> finished (wt_phase (eg_tasks e ! i)) \<Longrightarrow>
    inbound_step P e Silent
      (set_task i (Finished (Inr False), if wt_phase (eg_tasks e ! i) = Arrived then eg_hub e
         else release_claim (iw_id (wt_wrap (eg_tasks e ! i))) (eg_hub e)) e)"
| restarted: "inbound_step P e Silent \<lparr>eg_hub = empty_hub (new_limiter rnd capacity per_min) (hb_seen (eg_hub e)), eg_tasks = []\<rparr>"

inductive inbound_run :: "engine_ports \<Rightarrow> engine \<Rightarrow> wrap_event list \<Rightarrow> engine \<Rightarrow> bool" for P where
  run_refl: "inbound_run P e [] e"
| run_step: "inbound_run P e evs e' \<Longrightarrow> inbound_step P e' ev e'' \<Longrightarrow> inbound_run P e (evs @ [ev]) e''"

subsection \<open>The claims are the tasks at work\<close>

fun active :: "wrap_phase \<Rightarrow> bool" where
  "active Arrived = False"
| "active (Finished x) = False"
| "active p = True"

abbreviation id_at :: "engine \<Rightarrow> nat \<Rightarrow> string" where "id_at e i \<equiv> iw_id (wt_wrap (eg_tasks e ! i))"
abbreviation phase_at :: "engine \<Rightarrow> nat \<Rightarrow> wrap_phase" where "phase_at e i \<equiv> wt_phase (eg_tasks e ! i)"
abbreviation live :: "engine \<Rightarrow> nat \<Rightarrow> bool" where "live e i \<equiv> i < length (eg_tasks e)"

definition exclusive :: "engine \<Rightarrow> bool" where
  "exclusive e \<longleftrightarrow>
     (\<forall>k. k \<in> hb_claims (eg_hub e) \<longleftrightarrow> (\<exists>i. live e i \<and> active (phase_at e i) \<and> id_at e i = k)) \<and>
     (\<forall>i j. live e i \<and> live e j \<and> active (phase_at e i) \<and> active (phase_at e j) \<and> id_at e i = id_at e j \<longrightarrow> i = j)"

lemma set_task_simps [simp]:
  "eg_hub (set_task i ph e) = snd ph" "length (eg_tasks (set_task i ph e)) = length (eg_tasks e)"
  "i < length (eg_tasks e) \<Longrightarrow> wt_wrap (eg_tasks (set_task i ph e) ! j) = wt_wrap (eg_tasks e ! j)"
  "i < length (eg_tasks e) \<Longrightarrow> wt_phase (eg_tasks (set_task i ph e) ! j) = (if i = j then fst ph else wt_phase (eg_tasks e ! j))"
  by (auto simp: set_task_def nth_list_update)

text \<open>What a step of one task does to the claims.\<close>

definition claims_follow :: "inbound_wrap \<Rightarrow> wrap_phase \<Rightarrow> hub \<Rightarrow> wrap_phase \<times> hub \<Rightarrow> bool" where
  "claims_follow w p h ph \<longleftrightarrow>
     (case ph of (p', h') \<Rightarrow>
        (if active p' = active p then hb_claims h' = hb_claims h
         else if active p' then iw_id w \<notin> hb_claims h \<and> hb_claims h' = insert (iw_id w) (hb_claims h)
         else hb_claims h' = hb_claims h - {iw_id w}))"

lemma end_follows: "active p \<Longrightarrow> hb_claims h' = hb_claims h \<Longrightarrow> claims_follow w p h (end_wrap w x h')"
  by (simp add: claims_follow_def end_wrap_def release_claim_def)

lemma note_claims [simp]: "hb_claims (note_non_routable i h) = hb_claims h" by (simp add: note_non_routable_def)

lemma begin_follows: "claims_follow w Arrived h (begin_wrap w h)"
  by (auto simp: begin_wrap_def claims_follow_def split: option.splits)

lemma read_follows: "claims_follow w Reading h (after_read w answer h)"
  by (cases answer) (auto simp: after_read_def intro!: end_follows simp: claims_follow_def [of _ _ _ "(_, _)"] split: bool.splits)

lemma unwrap_follows: "claims_follow w Decoding h (after_unwrap P w now h)"
  by (auto simp: after_unwrap_def admit_inbound_def claims_follow_def end_wrap_def release_claim_def
      split: sum.splits option.splits bool.splits)

lemma handler_follows: "claims_follow w (Handling sender m) h (after_handler w sender m ok h)"
  by (simp add: after_handler_def claims_follow_def end_wrap_def release_claim_def)

lemma mark_follows: "claims_follow w (Marking sender m) h (after_mark w sender m t h)"
  by (simp add: after_mark_def claims_follow_def end_wrap_def release_claim_def split: option.splits)

lemma abort_follows:
  "\<not> finished p \<Longrightarrow> claims_follow w p h (Finished x, if p = Arrived then h else release_claim (iw_id w) h)"
  by (cases p) (auto simp: claims_follow_def release_claim_def finished_def)

lemma set_task_exclusive:
  assumes "exclusive e" "live e i" "claims_follow (wt_wrap (eg_tasks e ! i)) (phase_at e i) (eg_hub e) ph"
  shows "exclusive (set_task i ph e)"
proof -
  obtain p' h' where ph: "ph = (p', h')" by (cases ph)
  show ?thesis
    using assms unfolding exclusive_def claims_follow_def ph
    by (auto split: if_splits)
qed

lemma step_exclusive:
  assumes "inbound_step P e ev e'" "exclusive e"
  shows "exclusive e'"
  using assms(1)
proof cases
  case (arrive w)
  with assms(2) show ?thesis by (auto simp: exclusive_def nth_append less_Suc_eq split: if_splits)
next
  case (decode i now p h)
  with assms(2) unwrap_follows show ?thesis by (metis set_task_exclusive)
next
  case (late i sender m now)
  with assms(2) show ?thesis by (simp add: exclusive_def)
next
  case restarted
  then show ?thesis by (simp add: exclusive_def empty_hub_def)
qed (use assms(2) set_task_exclusive begin_follows read_follows handler_follows mark_follows abort_follows in metis)+

subsection \<open>What the engine remembers is true\<close>

definition routable :: "engine_ports \<Rightarrow> string \<Rightarrow> bool" where
  "routable P i \<longleftrightarrow>
     (case gift_unwrap (en_parse P) \<lparr>wr_kind = 1059, wr_verified = True, wr_rumor = en_content P i\<rparr> of
        Inl x \<Rightarrow> False | Inr (sender, m) \<Rightarrow> is_buyer_request m)"

definition genuine :: "engine_ports \<Rightarrow> inbound_wrap \<Rightarrow> bool" where
  "genuine P w \<longleftrightarrow> (wr_verified (iw_wrap w) \<longrightarrow> wr_rumor (iw_wrap w) = en_content P (iw_id w))"

definition remembers :: "engine_ports \<Rightarrow> wrap_event list \<Rightarrow> engine \<Rightarrow> bool" where
  "remembers P evs e \<longleftrightarrow>
     (\<forall>t \<in> set (eg_tasks e). genuine P (wt_wrap t) \<and> (active (wt_phase t) \<longrightarrow> verify_inbound_wrap (wt_wrap t) = None) \<and>
        (\<forall>sender m. wt_phase t = Marking sender m \<longrightarrow> Committed (iw_id (wt_wrap t)) \<in> set evs)) \<and>
     (\<forall>r \<in> set (hb_seen (eg_hub e)). Committed (sn_event r) \<in> set evs) \<and>
     (\<forall>i \<in> nc_members (hb_negative (eg_hub e)). \<not> routable P i)"

lemma cache_insert_members: "nc_members (cache_insert i c) \<subseteq> insert i (nc_members c)"
  by (auto simp: cache_insert_def Let_def split: list.splits)

lemma mark_seen_events: "r \<in> set (mark_seen i sender ty now rows) \<Longrightarrow> sn_event r = i \<or> r \<in> set rows"
  by (auto simp: mark_seen_def Let_def split: if_splits)

lemma unwrap_genuine:
  assumes "genuine P w" "verify_inbound_wrap w = None"
  shows "gift_unwrap (en_parse P) (iw_wrap w) =
    gift_unwrap (en_parse P) \<lparr>wr_kind = 1059, wr_verified = True, wr_rumor = en_content P (iw_id w)\<rparr>"
proof -
  from assms have "iw_wrap w = \<lparr>wr_kind = 1059, wr_verified = True, wr_rumor = en_content P (iw_id w)\<rparr>"
    by (auto simp: genuine_def verify_inbound_wrap_def split: if_splits)
  then show ?thesis by simp
qed

text \<open>What one step of a task may add to the memory.\<close>

definition memory_grows :: "engine_ports \<Rightarrow> inbound_wrap \<Rightarrow> wrap_phase \<Rightarrow> hub \<Rightarrow> wrap_phase \<times> hub \<Rightarrow> bool" where
  "memory_grows P w p h ph \<longleftrightarrow>
     (\<forall>r \<in> set (hb_seen (snd ph)). r \<in> set (hb_seen h) \<or> sn_event r = iw_id w \<and> (\<exists>sender m. p = Marking sender m)) \<and>
     (\<forall>i \<in> nc_members (hb_negative (snd ph)). i \<in> nc_members (hb_negative h) \<or> \<not> routable P i) \<and>
     (active (fst ph) \<longrightarrow> verify_inbound_wrap w = None)"

lemma end_grows: "hb_seen h' = hb_seen h \<Longrightarrow> hb_negative h' = hb_negative h \<Longrightarrow> memory_grows P w p h (end_wrap w x h')"
  by (simp add: memory_grows_def end_wrap_def release_claim_def)

lemma begin_grows: "memory_grows P w p h (begin_wrap w h)"
  by (auto simp: begin_wrap_def memory_grows_def split: option.splits)

lemma read_grows: "verify_inbound_wrap w = None \<Longrightarrow> memory_grows P w p h (after_read w answer h)"
  by (auto simp: after_read_def memory_grows_def end_wrap_def release_claim_def split: option.splits bool.splits)

lemma note_grows:
  "\<not> routable P (iw_id w) \<Longrightarrow> memory_grows P w p h (end_wrap w x (note_non_routable (iw_id w) h))"
  using cache_insert_members [of "iw_id w" "hb_negative h"]
  by (auto simp: memory_grows_def end_wrap_def release_claim_def note_non_routable_def)

lemma unwrap_grows:
  assumes "genuine P w" "verify_inbound_wrap w = None"
  shows "memory_grows P w p h (after_unwrap P w now h)"
proof (cases "gift_unwrap (en_parse P) (iw_wrap w)")
  case (Inl x)
  then have "\<not> routable P (iw_id w)" by (simp add: routable_def unwrap_genuine [OF assms])
  with Inl show ?thesis by (simp add: after_unwrap_def note_grows)
next
  case (Inr y)
  obtain sender m where y: "y = (sender, m)" by (cases y)
  show ?thesis
  proof (cases "is_buyer_request m")
    case True
    with Inr y assms(2) show ?thesis
      by (auto simp: after_unwrap_def admit_inbound_def memory_grows_def end_wrap_def release_claim_def split: option.splits bool.splits)
  next
    case False
    then have "\<not> routable P (iw_id w)" using Inr y by (simp add: routable_def unwrap_genuine [OF assms])
    with Inr y False show ?thesis by (simp add: after_unwrap_def note_grows)
  qed
qed

lemma handler_grows: "verify_inbound_wrap w = None \<Longrightarrow> memory_grows P w p h (after_handler w sender m ok h)"
  by (simp add: after_handler_def memory_grows_def end_wrap_def release_claim_def)

lemma mark_grows: "verify_inbound_wrap w = None \<Longrightarrow> memory_grows P w (Marking sender m) h (after_mark w sender m t h)"
  using mark_seen_events
  by (fastforce simp: after_mark_def memory_grows_def end_wrap_def release_claim_def split: option.splits)

lemma abort_grows: "memory_grows P w p h (Finished x, if p = Arrived then h else release_claim (iw_id w) h)"
  by (simp add: memory_grows_def release_claim_def)

lemma remembers_mono: "remembers P evs e \<Longrightarrow> remembers P (evs @ es) e"
  by (auto simp: remembers_def)

lemma set_task_remembers:
  assumes r: "remembers P evs e" and i: "live e i"
    and g: "memory_grows P (wt_wrap (eg_tasks e ! i)) (phase_at e i) (eg_hub e) ph"
    and m: "\<And>sender m. fst ph = Marking sender m \<Longrightarrow> Committed (id_at e i) \<in> set evs"
  shows "remembers P evs (set_task i ph e)"
proof -
  have t: "eg_tasks e ! i \<in> set (eg_tasks e)" using i by simp
  have tasks: "genuine P (wt_wrap q) \<and> (active (wt_phase q) \<longrightarrow> verify_inbound_wrap (wt_wrap q) = None) \<and>
      (\<forall>sender m. wt_phase q = Marking sender m \<longrightarrow> Committed (iw_id (wt_wrap q)) \<in> set evs)"
    if "q \<in> set (eg_tasks (set_task i ph e))" for q
  proof -
    from that i have "q = (eg_tasks e ! i)\<lparr>wt_phase := fst ph\<rparr> \<or> q \<in> set (eg_tasks e)"
      by (auto simp: set_task_def dest: subsetD [OF set_update_subset_insert])
    with r t g m show ?thesis by (auto simp: remembers_def memory_grows_def)
  qed
  have "Committed (sn_event x) \<in> set evs" if "x \<in> set (hb_seen (snd ph))" for x
    using that g r t by (fastforce simp: memory_grows_def remembers_def)
  with tasks g r show ?thesis by (auto simp: remembers_def memory_grows_def)
qed

lemma task_memory:
  assumes "remembers P evs e" "live e i"
  shows "genuine P (wt_wrap (eg_tasks e ! i))"
    and "active (phase_at e i) \<Longrightarrow> verify_inbound_wrap (wt_wrap (eg_tasks e ! i)) = None"
    and "phase_at e i = Marking sender m \<Longrightarrow> Committed (id_at e i) \<in> set evs"
  using assms nth_mem [OF assms(2)] by (auto simp: remembers_def)

lemma end_not_marking [simp]: "fst (end_wrap w x h) \<noteq> Marking sender m" by (simp add: end_wrap_def)

lemma step_not_marking:
  "fst (begin_wrap w h) \<noteq> Marking sender m" "fst (after_read w a h) \<noteq> Marking sender m"
  "fst (after_unwrap P w now h) \<noteq> Marking sender m" "fst (after_mark w s q t h) \<noteq> Marking sender m"
  by (auto simp: begin_wrap_def after_read_def after_unwrap_def after_mark_def split: option.splits bool.splits sum.splits)

lemma step_remembers:
  assumes "inbound_step P e ev e'" "remembers P evs e"
  shows "remembers P (evs @ [ev]) e'"
proof -
  have old: "remembers P (evs @ [ev]) e" using assms(2) by (rule remembers_mono)
  note task = task_memory [OF old]
  from assms(1) show ?thesis
  proof cases
    case (arrive w)
    with old show ?thesis by (auto simp: remembers_def genuine_def)
  next
    case (start i)
    with old task begin_grows step_not_marking show ?thesis by (metis set_task_remembers)
  next
    case (read i answer)
    with task(2) [of i] have "verify_inbound_wrap (wt_wrap (eg_tasks e ! i)) = None" by simp
    from set_task_remembers [OF old _ read_grows [OF this]] read step_not_marking show ?thesis by metis
  next
    case (decode i now p h)
    with task(1,2) [of i] have "genuine P (wt_wrap (eg_tasks e ! i))" "verify_inbound_wrap (wt_wrap (eg_tasks e ! i)) = None" by auto
    from set_task_remembers [OF old _ unwrap_grows [OF this]] decode step_not_marking show ?thesis by metis
  next
    case (handled i sender m ok)
    with task(2) [of i] have "verify_inbound_wrap (wt_wrap (eg_tasks e ! i)) = None" by simp
    from set_task_remembers [OF old handled(3) handler_grows [OF this, where sender = sender and m = m and ok = ok]] handled show ?thesis
      by (auto simp: after_handler_def split: if_splits)
  next
    case (marked i sender m t)
    with task(2) [of i] have "verify_inbound_wrap (wt_wrap (eg_tasks e ! i)) = None" by simp
    from set_task_remembers [OF old marked(3), of "after_mark (wt_wrap (eg_tasks e ! i)) sender m t (eg_hub e)"] mark_grows [OF this]
      marked(2,4) step_not_marking(4) show ?thesis by metis
  next
    case (late i sender m now)
    with task(3) [of i sender m] have c: "Committed (id_at e i) \<in> set (evs @ [ev])" by simp
    then have "Committed (sn_event r) \<in> set (evs @ [ev])"
      if "r \<in> set (mark_seen (id_at e i) sender (type_str m) now (hb_seen (eg_hub e)))" for r
      using mark_seen_events [OF that] old unfolding remembers_def by metis
    with old late(1,2) show ?thesis by (simp add: remembers_def)
  next
    case (aborted i)
    from set_task_remembers [OF old aborted(3) abort_grows, of "Inr False"] aborted show ?thesis by simp
  next
    case (restarted rnd capacity per_min)
    with old show ?thesis by (simp add: remembers_def empty_hub_def empty_cache_def)
  qed
qed

definition fresh_engine :: "limiter \<Rightarrow> engine" where
  "fresh_engine l = \<lparr>eg_hub = empty_hub l [], eg_tasks = []\<rparr>"

lemma run_invariants: "inbound_run P (fresh_engine l) evs e \<Longrightarrow> exclusive e \<and> remembers P evs e"
proof (induction "fresh_engine l" evs e rule: inbound_run.induct)
  case run_refl
  show ?case by (simp add: fresh_engine_def exclusive_def remembers_def empty_hub_def empty_cache_def)
next
  case (run_step evs e' ev e'')
  then show ?case by (blast intro: step_exclusive step_remembers)
qed

subsection \<open>A marked wrap stays quiet\<close>

text \<open>The row that suppresses the wrap is there, and no task of it is past the durable check.\<close>

definition quiet_wrap :: "seen_row \<Rightarrow> engine \<Rightarrow> bool" where
  "quiet_wrap r e \<longleftrightarrow> r \<in> set (hb_seen (eg_hub e)) \<and>
     (\<forall>i. live e i \<and> id_at e i = sn_event r \<longrightarrow> phase_at e i = Arrived \<or> phase_at e i = Reading \<or> finished (phase_at e i))"

definition keeps_row :: "seen_row \<Rightarrow> wrap_event \<Rightarrow> bool" where
  "keeps_row r ev \<longleftrightarrow> (\<forall>i now. ev = Marked i now \<longrightarrow> now \<le> sn_at r + seen_message_retention_secs)"

lemma mark_keeps: "r \<in> set rows \<Longrightarrow> now \<le> sn_at r + seen_message_retention_secs \<Longrightarrow> r \<in> set (mark_seen i sender ty now rows)"
  by (auto simp: mark_seen_def Let_def)

lemma finished_end [simp]: "finished (fst (end_wrap w x h))" "hb_seen (snd (end_wrap w x h)) = hb_seen h"
  by (simp_all add: end_wrap_def finished_def release_claim_def)

lemma seen_unchanged [simp]:
  "hb_seen (snd (begin_wrap w h)) = hb_seen h" "hb_seen (snd (after_read w a h)) = hb_seen h"
  "hb_seen (snd (after_handler w s q ok h)) = hb_seen h" "hb_seen (release_claim k h) = hb_seen h"
  "hb_seen (note_non_routable k h) = hb_seen h"
  by (auto simp: begin_wrap_def after_read_def after_handler_def release_claim_def note_non_routable_def split: option.splits bool.splits)

lemma seen_unchanged_unwrap [simp]: "hb_seen (snd (after_unwrap P w now h)) = hb_seen h"
  by (auto simp: after_unwrap_def admit_inbound_def split: sum.splits option.splits bool.splits)

lemma set_task_quiet:
  assumes "quiet_wrap r e" "live e i" "r \<in> set (hb_seen (snd ph))"
    and "id_at e i = sn_event r \<Longrightarrow> fst ph = Arrived \<or> fst ph = Reading \<or> finished (fst ph)"
  shows "quiet_wrap r (set_task i ph e)"
  using assms by (auto simp: quiet_wrap_def)

lemma inactive_phase: "\<not> active p \<Longrightarrow> p = Arrived \<or> finished p"
  by (cases p) (simp_all add: finished_def)

lemma begin_phase: "fst (begin_wrap w h) = Reading \<or> finished (fst (begin_wrap w h))"
  by (auto simp: begin_wrap_def finished_def split: option.splits)

lemma step_quiet:
  assumes "inbound_step P e ev e'" "quiet_wrap r e" "keeps_row r ev"
  shows "quiet_wrap r e' \<and> ev \<noteq> Routed (sn_event r) \<and> ev \<noteq> Committed (sn_event r)"
proof -
  have row: "r \<in> set (hb_seen (eg_hub e))" using assms(2) by (simp add: quiet_wrap_def)
  have calm: "phase_at e i = Arrived \<or> phase_at e i = Reading \<or> finished (phase_at e i)" if "live e i" "id_at e i = sn_event r" for i
    using assms(2) that by (simp add: quiet_wrap_def)
  from assms(1) show ?thesis
  proof cases
    case (arrive w)
    with assms(2) show ?thesis by (auto simp: quiet_wrap_def nth_append less_Suc_eq)
  next
    case (start i)
    with set_task_quiet [OF assms(2) start(3), of "begin_wrap (wt_wrap (eg_tasks e ! i)) (eg_hub e)"] row begin_phase
    show ?thesis by simp
  next
    case (read i answer)
    have "finished (fst (after_read (wt_wrap (eg_tasks e ! i)) answer (eg_hub e)))" if "id_at e i = sn_event r"
    proof -
      have "is_seen (id_at e i) (hb_seen (eg_hub e))" using row that by (auto simp: is_seen_def)
      with read(5) show ?thesis by (auto simp: after_read_def)
    qed
    with set_task_quiet [OF assms(2) read(3), of "after_read (wt_wrap (eg_tasks e ! i)) answer (eg_hub e)"] row read(1,2)
    show ?thesis by simp
  next
    case (decode i now p h)
    then have "id_at e i \<noteq> sn_event r" using calm [of i] by (auto simp: finished_def)
    moreover have "hb_seen h = hb_seen (eg_hub e)" using seen_unchanged_unwrap [of P _ now "eg_hub e"] decode(5) by (metis snd_conv)
    ultimately show ?thesis using decode(1,2) set_task_quiet [OF assms(2) decode(3), of "(p, h)"] row by (auto split: if_splits)
  next
    case (handled i sender m ok)
    then have "id_at e i \<noteq> sn_event r" using calm [of i] by (auto simp: finished_def)
    then show ?thesis
      using handled(1,2) row set_task_quiet [OF assms(2) handled(3), of "after_handler (wt_wrap (eg_tasks e ! i)) sender m ok (eg_hub e)"]
      by (auto split: if_splits)
  next
    case (marked i sender m t)
    then have "id_at e i \<noteq> sn_event r" using calm [of i] by (auto simp: finished_def)
    moreover have "r \<in> set (hb_seen (snd (after_mark (wt_wrap (eg_tasks e ! i)) sender m t (eg_hub e))))"
      using row marked(1) assms(3) mark_keeps by (auto simp: after_mark_def keeps_row_def end_wrap_def release_claim_def split: option.splits)
    ultimately show ?thesis using marked(1,2) set_task_quiet [OF assms(2) marked(3)] by (auto split: option.splits)
  next
    case (late i sender m now)
    then show ?thesis using assms(2,3) mark_keeps [OF row] by (auto simp: quiet_wrap_def keeps_row_def)
  next
    case (aborted i)
    then show ?thesis using row set_task_quiet [OF assms(2) aborted(3)] by (auto simp: finished_def)
  next
    case (restarted rnd capacity per_min)
    with row show ?thesis by (simp add: quiet_wrap_def empty_hub_def)
  qed
qed

text \<open>
  A wrap whose handler committed and was recorded is not handled again while its record lives. From any reachable
  state with a \<open>seen_message\<close> row and no task at work on its wrap, through any further deliveries of copies, handler failures,
  dropped tasks and restarts, the wrap reaches no handler as long as no mark is written more than 90 days after that row.
\<close>

theorem marked_wrap_not_rerouted:
  assumes "inbound_run P (fresh_engine l) before e" "r \<in> set (hb_seen (eg_hub e))" "sn_event r \<notin> hb_claims (eg_hub e)"
    and run: "inbound_run P e evs e'" and keeps: "\<forall>ev \<in> set evs. keeps_row r ev"
  shows "Routed (sn_event r) \<notin> set evs \<and> Committed (sn_event r) \<notin> set evs \<and> is_seen (sn_event r) (hb_seen (eg_hub e'))"
proof -
  have "exclusive e" using run_invariants [OF assms(1)] by simp
  then have "\<not> active (phase_at e i)" if "live e i" "id_at e i = sn_event r" for i
    using assms(3) that unfolding exclusive_def by metis
  then have "quiet_wrap r e"
    unfolding quiet_wrap_def using assms(2) inactive_phase by blast
  with run keeps have "quiet_wrap r e' \<and> Routed (sn_event r) \<notin> set evs \<and> Committed (sn_event r) \<notin> set evs"
  proof (induction e evs e' rule: inbound_run.induct)
    case (run_step e evs e' ev e'')
    then show ?case using step_quiet [OF run_step(2), of r] by auto
  qed simp
  then show ?thesis by (auto simp: quiet_wrap_def is_seen_def)
qed

subsection \<open>A buyer's request is never suppressed\<close>

text \<open>One delivery while no other task is at work, to a handler that commits: routed and recorded, or refused without a trace.\<close>

definition deliver_alone :: "engine_ports \<Rightarrow> nat \<Rightarrow> int \<Rightarrow> inbound_wrap \<Rightarrow> hub \<Rightarrow> (wrap_failure + bool) option \<times> hub" where
  "deliver_alone P instant t w h =
     process_inbound P (\<lambda>_ h. h) (\<lambda>h. Some (is_seen (iw_id w) (hb_seen h))) (\<lambda>_ _ _. True) instant (Some t) w h"

lemma mark_is_seen: "is_seen i (mark_seen i sender ty now rows)"
  by (auto simp: mark_seen_def is_seen_def Let_def)

lemma undisturbed_delivery:
  assumes run: "inbound_run P (fresh_engine l) evs e"
    and w: "verify_inbound_wrap w = None" "genuine P w" "gift_unwrap (en_parse P) (iw_wrap w) = Inr (sender, m)" "is_buyer_request m"
    and free: "Committed (iw_id w) \<notin> set evs" "iw_id w \<notin> hb_claims (eg_hub e)"
    and check: "sender \<noteq> en_operator P" "limiter_check (en_round P) sender instant (hb_limiter (eg_hub e)) = Some (ok, l')"
  shows "if ok then \<exists>h'. deliver_alone P instant t w (eg_hub e) = (Some (Inr True), h') \<and> is_seen (iw_id w) (hb_seen h')
    else deliver_alone P instant t w (eg_hub e) = (Some (Inr False), (eg_hub e)\<lparr>hb_limiter := l'\<rparr>)"
proof -
  let ?h = "eg_hub e"
  let ?c = "?h\<lparr>hb_claims := insert (iw_id w) (hb_claims ?h)\<rparr>"
  have r: "remembers P evs e" using run_invariants [OF run] by simp
  have "routable P (iw_id w)" using w(3,4) by (simp add: routable_def unwrap_genuine [OF w(2,1), symmetric])
  with r have "iw_id w \<notin> nc_members (hb_negative ?h)" by (auto simp: remembers_def)
  then have b: "begin_wrap w ?h = (Reading, ?c)" using w(1) free(2) by (simp add: begin_wrap_def)
  have "\<not> is_seen (iw_id w) (hb_seen ?h)" using r free(1) by (auto simp: remembers_def is_seen_def)
  then have n: "after_read w (Some (is_seen (iw_id w) (hb_seen ?c))) ?c = (Decoding, ?c)" by (simp add: after_read_def)
  have u: "after_unwrap P w instant ?c =
      (if ok then (Handling sender m, ?c\<lparr>hb_limiter := l'\<rparr>) else (Finished (Inr False), ?h\<lparr>hb_limiter := l'\<rparr>))"
    using w(3,4) check free(2)
    by (simp add: after_unwrap_def admit_inbound_def end_wrap_def release_claim_def split: bool.splits)
  show ?thesis
    using b n u by (auto simp: deliver_alone_def process_inbound_def after_handler_def after_mark_def end_wrap_def release_claim_def
        mark_is_seen)
qed

lemma limiter_after:
  assumes "\<exists>qs. represents_lru (hb_limiter h) qs \<and> length qs \<le> inbound_rate_lru_capacity"
  shows "\<exists>qs. represents_lru (hb_limiter (snd (begin_wrap w h))) qs \<and> length qs \<le> inbound_rate_lru_capacity"
    "\<exists>qs. represents_lru (hb_limiter (snd (after_read w a h))) qs \<and> length qs \<le> inbound_rate_lru_capacity"
    "\<exists>qs. represents_lru (hb_limiter (snd (after_unwrap P w now h))) qs \<and> length qs \<le> inbound_rate_lru_capacity"
    "\<exists>qs. represents_lru (hb_limiter (snd (after_handler w s q ok h))) qs \<and> length qs \<le> inbound_rate_lru_capacity"
    "\<exists>qs. represents_lru (hb_limiter (snd (after_mark w s q t h))) qs \<and> length qs \<le> inbound_rate_lru_capacity"
proof -
  have check: "\<exists>ok l' qs'. limiter_check rnd s now (hb_limiter h) = Some (ok, l') \<and> represents_lru l' qs' \<and> length qs' \<le> inbound_rate_lru_capacity"
    for rnd s using assms check_refines by metis
  show "\<exists>qs. represents_lru (hb_limiter (snd (after_unwrap P w now h))) qs \<and> length qs \<le> inbound_rate_lru_capacity"
  proof (cases "gift_unwrap (en_parse P) (iw_wrap w)")
    case (Inr y)
    obtain s m where "y = (s, m)" by (cases y)
    with Inr check [of "en_round P" s] assms show ?thesis
      by (auto simp: after_unwrap_def admit_inbound_def end_wrap_def release_claim_def note_non_routable_def split: bool.splits)
  qed (use assms in \<open>simp add: after_unwrap_def end_wrap_def release_claim_def note_non_routable_def\<close>)
qed (use assms in \<open>auto simp: begin_wrap_def after_read_def after_handler_def after_mark_def end_wrap_def release_claim_def
      split: option.splits bool.splits\<close>)

lemma run_limiter:
  "inbound_run P (fresh_engine (new_limiter rnd capacity per_min)) evs e \<Longrightarrow>
    \<exists>qs. represents_lru (hb_limiter (eg_hub e)) qs \<and> length qs \<le> inbound_rate_lru_capacity"
proof (induction "fresh_engine (new_limiter rnd capacity per_min)" evs e rule: inbound_run.induct)
  case run_refl
  show ?case using new_represents [of rnd capacity per_min] by (fastforce simp: fresh_engine_def empty_hub_def)
next
  case (run_step evs e' ev e'')
  from run_step(3) show ?case
  proof cases
    case (decode i now p h)
    with limiter_after(3) [OF run_step(2), of P "wt_wrap (eg_tasks e' ! i)" now] show ?thesis by simp
  next
    case (restarted rnd' capacity' per_min')
    with new_represents [of rnd' capacity' per_min'] show ?thesis by (fastforce simp: empty_hub_def)
  qed (use run_step(2) limiter_after [OF run_step(2)] in \<open>simp_all add: release_claim_def\<close>)
qed

text \<open>
  C26. A buyer's request that no handler has committed is never suppressed, except while another copy of it is in flight. Take
  any reachable state, whatever was delivered before (forged copies under the same id, spoofed replies, failed or dropped handlings,
  restarts), and any task whose wrap is well signed and opens to a buyer's request with no committed handling of its id. Its id
  is in neither memory, and its three gates let it pass. The arrival is dropped exactly when another task is at work on
  a copy of it, and is claimed otherwise; the durable check, when the database answers, lets it through; and once decrypted it is
  handed to its handler if the operator sent it or the limiter grants it. When the limiter refuses it, it is dropped with
  nothing changed but the limiter and its own claim released, so a later copy has the same chance. (A database that does not answer, a failing
  handler and a dropped task end the task too; what they leave is again such a state.)
\<close>

theorem buyer_request_never_suppressed:
  assumes run: "inbound_run P (fresh_engine (new_limiter rnd capacity per_min)) evs e"
    and i: "i < length (eg_tasks e)" and w: "w = wt_wrap (eg_tasks e ! i)"
    and request: "verify_inbound_wrap w = None" "gift_unwrap (en_parse P) (iw_wrap w) = Inr (sender, m)" "is_buyer_request m"
    and new: "Committed (iw_id w) \<notin> set evs"
  shows "iw_id w \<notin> nc_members (hb_negative (eg_hub e)) \<and> \<not> is_seen (iw_id w) (hb_seen (eg_hub e)) \<and>
    begin_wrap w (eg_hub e) =
      (if \<exists>j < length (eg_tasks e). active (wt_phase (eg_tasks e ! j)) \<and> iw_id (wt_wrap (eg_tasks e ! j)) = iw_id w
       then (Finished (Inr False), eg_hub e)
       else (Reading, (eg_hub e)\<lparr>hb_claims := insert (iw_id w) (hb_claims (eg_hub e))\<rparr>)) \<and>
    after_read w (Some (is_seen (iw_id w) (hb_seen (eg_hub e)))) (eg_hub e) = (Decoding, eg_hub e) \<and>
    (\<exists>ok l'. limiter_check (en_round P) sender instant (hb_limiter (eg_hub e)) = Some (ok, l') \<and>
      after_unwrap P w instant (eg_hub e) =
        (if sender = en_operator P then (Handling sender m, eg_hub e)
         else if ok then (Handling sender m, (eg_hub e)\<lparr>hb_limiter := l'\<rparr>)
         else (Finished (Inr False), (eg_hub e)\<lparr>hb_limiter := l', hb_claims := hb_claims (eg_hub e) - {iw_id w}\<rparr>)))"
proof -
  let ?h = "eg_hub e"
  from run_invariants [OF run] have x: "exclusive e" and r: "remembers P evs e" by simp_all
  have g: "genuine P w" unfolding w by (rule task_memory(1) [OF r i])
  have "routable P (iw_id w)" using request(2,3) by (simp add: routable_def unwrap_genuine [OF g request(1), symmetric])
  with r have n: "iw_id w \<notin> nc_members (hb_negative ?h)" by (auto simp: remembers_def)
  have s: "\<not> is_seen (iw_id w) (hb_seen ?h)" using r new by (auto simp: remembers_def is_seen_def)
  have "iw_id w \<in> hb_claims ?h \<longleftrightarrow> (\<exists>j < length (eg_tasks e). active (phase_at e j) \<and> id_at e j = iw_id w)"
    using x by (auto simp: exclusive_def)
  then have b: "begin_wrap w ?h = (if \<exists>j < length (eg_tasks e). active (phase_at e j) \<and> id_at e j = iw_id w
      then (Finished (Inr False), ?h) else (Reading, ?h\<lparr>hb_claims := insert (iw_id w) (hb_claims ?h)\<rparr>))"
    using request(1) n by (auto simp: begin_wrap_def)
  obtain ok l' where l': "limiter_check (en_round P) sender instant (hb_limiter ?h) = Some (ok, l')"
    using run_limiter [OF run] check_refines by metis
  then have "after_unwrap P w instant ?h = (if sender = en_operator P then (Handling sender m, ?h)
      else if ok then (Handling sender m, ?h\<lparr>hb_limiter := l'\<rparr>)
      else (Finished (Inr False), ?h\<lparr>hb_limiter := l', hb_claims := hb_claims ?h - {iw_id w}\<rparr>))"
    using request(2,3) by (simp add: after_unwrap_def admit_inbound_def end_wrap_def release_claim_def split: bool.splits)
  with n s b l' show ?thesis by (simp add: after_read_def)
qed

subsection \<open>A run\<close>

definition cancel_msg :: msg where "cancel_msg = SubCancel ''s1''"

definition sample_engine :: engine_ports where
  "sample_engine = \<lparr>en_parse = (\<lambda>s. Some (msg_json cancel_msg)), en_round = (\<lambda>x. x), en_operator = ''op'',
     en_content = (\<lambda>i. Some (''b'', 14, ''x''))\<rparr>"

definition sample_copy :: inbound_wrap where
  "sample_copy = \<lparr>iw_id = ''w1'', iw_matches = True,
     iw_wrap = \<lparr>wr_kind = 1059, wr_verified = True, wr_rumor = Some (''b'', 14, ''x'')\<rparr>\<rparr>"

lemma sample_unwraps: "gift_unwrap (en_parse sample_engine) (iw_wrap sample_copy) = Inr (''b'', cancel_msg)"
proof -
  have "encode_msg cancel_msg = Some (msg_json cancel_msg)" by (simp add: encode_msg_def cancel_msg_def)
  moreover have "msg_typed cancel_msg" by (simp add: msg_typed_def cancel_msg_def)
  ultimately have "msg_of_json (msg_json cancel_msg) = Some cancel_msg" using decode_encoded by auto
  then show ?thesis by (simp add: gift_unwrap_def sample_engine_def sample_copy_def max_inbound_content_bytes_def)
qed

lemma sample_granted: "\<exists>l'. limiter_check (\<lambda>x. x) ''b'' 0 (new_limiter (\<lambda>x. x) 10 6) = Some (True, l')"
  using check_refines [OF new_represents [of "\<lambda>x. x" 10 6], of "\<lambda>x. x" "''b''" 0]
  by (auto simp: new_limiter_def lru_check_def inbound_rate_lru_capacity_def refilled_def secs_f64_def spend_def)

text \<open>The sample copy is delivered, handled and marked; then a second copy arrives and is read.\<close>

definition sample_hub :: "limiter \<Rightarrow> hub" where
  "sample_hub l = \<lparr>hb_seen = [\<lparr>sn_event = ''w1'', sn_sender = ''b'', sn_type = type_str cancel_msg, sn_at = 100\<rparr>], hb_claims = {},
     hb_negative = empty_cache, hb_limiter = l\<rparr>"

definition at_phase :: "wrap_phase \<Rightarrow> string set \<Rightarrow> seen_row list \<Rightarrow> limiter \<Rightarrow> engine" where
  "at_phase p claims rows l = \<lparr>eg_hub = \<lparr>hb_seen = rows, hb_claims = claims, hb_negative = empty_cache, hb_limiter = l\<rparr>,
     eg_tasks = [\<lparr>wt_wrap = sample_copy, wt_phase = p\<rparr>]\<rparr>"

lemma sample_copy_simps [simp]: "iw_id sample_copy = ''w1''" "verify_inbound_wrap sample_copy = None"
  by (simp_all add: sample_copy_def verify_inbound_wrap_def)

lemma sample_arrival:
  "inbound_run sample_engine (fresh_engine l) [Silent, Silent, Silent] (at_phase Decoding {''w1''} [] l)"
proof -
  let ?step = "inbound_step sample_engine"
  have 1: "?step (fresh_engine l) Silent (at_phase Arrived {} [] l)"
    using inbound_step.arrive [of sample_copy sample_engine "fresh_engine l"]
    by (simp add: fresh_engine_def empty_hub_def at_phase_def sample_copy_def sample_engine_def busy_def max_inbound_concurrency_def)
  have 2: "?step (at_phase Arrived {} [] l) Silent (at_phase Reading {''w1''} [] l)"
    using inbound_step.start [of 0 "at_phase Arrived {} [] l" sample_engine]
    by (simp add: at_phase_def set_task_def begin_wrap_def empty_cache_def)
  have 3: "?step (at_phase Reading {''w1''} [] l) Silent (at_phase Decoding {''w1''} [] l)"
    using inbound_step.read [of 0 "at_phase Reading {''w1''} [] l" "Some False" sample_engine]
    by (simp add: at_phase_def set_task_def after_read_def is_seen_def)
  show ?thesis using run_step [OF run_step [OF run_step [OF run_refl 1] 2] 3] by simp
qed

theorem buyer_request_never_suppressed_witness:
  "begin_wrap sample_copy (eg_hub (at_phase Decoding {''w1''} [] (new_limiter (\<lambda>x. x) 10 6))) =
     (Finished (Inr False), eg_hub (at_phase Decoding {''w1''} [] (new_limiter (\<lambda>x. x) 10 6))) \<and>
   (\<exists>h. after_unwrap sample_engine sample_copy 0 (eg_hub (at_phase Decoding {''w1''} [] (new_limiter (\<lambda>x. x) 10 6))) =
     (Handling ''b'' cancel_msg, h))"
proof -
  let ?l = "new_limiter (\<lambda>x. x) 10 6"
  let ?e = "at_phase Decoding {''w1''} [] ?l"
  obtain l' where l': "limiter_check (\<lambda>x. x) ''b'' 0 ?l = Some (True, l')" using sample_granted by blast
  have task: "0 < length (eg_tasks ?e)" "sample_copy = wt_wrap (eg_tasks ?e ! 0)" by (simp_all add: at_phase_def)
  have "is_buyer_request cancel_msg" by (simp add: cancel_msg_def)
  from buyer_request_never_suppressed [OF sample_arrival task _ sample_unwraps this, of 0] l'
  show ?thesis by (auto simp: at_phase_def sample_engine_def)
qed

lemma sample_delivery:
  assumes l': "limiter_check (\<lambda>x. x) ''b'' 0 l = Some (True, l')"
  shows "inbound_run sample_engine (fresh_engine l) [Silent, Silent, Silent, Routed ''w1'', Committed ''w1'', Marked ''w1'' 100]
    \<lparr>eg_hub = sample_hub l', eg_tasks = [\<lparr>wt_wrap = sample_copy, wt_phase = Finished (Inr True)\<rparr>]\<rparr>"
proof -
  let ?step = "inbound_step sample_engine"
  have 4: "?step (at_phase Decoding {''w1''} [] l) (Routed ''w1'') (at_phase (Handling ''b'' cancel_msg) {''w1''} [] l')"
    using inbound_step.decode [of 0 "at_phase Decoding {''w1''} [] l" sample_engine 0 "Handling ''b'' cancel_msg"
        "eg_hub (at_phase Decoding {''w1''} [] l')"] sample_unwraps l'
    by (simp add: at_phase_def set_task_def after_unwrap_def admit_inbound_def finished_def cancel_msg_def sample_engine_def)
  have 5: "?step (at_phase (Handling ''b'' cancel_msg) {''w1''} [] l') (Committed ''w1'') (at_phase (Marking ''b'' cancel_msg) {''w1''} [] l')"
    using inbound_step.handled [of 0 "at_phase (Handling ''b'' cancel_msg) {''w1''} [] l'" "''b''" cancel_msg sample_engine True]
    by (simp add: at_phase_def set_task_def after_handler_def)
  have 6: "?step (at_phase (Marking ''b'' cancel_msg) {''w1''} [] l') (Marked ''w1'' 100)
      \<lparr>eg_hub = sample_hub l', eg_tasks = [\<lparr>wt_wrap = sample_copy, wt_phase = Finished (Inr True)\<rparr>]\<rparr>"
    using inbound_step.marked [of 0 "at_phase (Marking ''b'' cancel_msg) {''w1''} [] l'" "''b''" cancel_msg sample_engine "Some 100"]
    by (simp add: at_phase_def set_task_def after_mark_def end_wrap_def release_claim_def mark_seen_def sample_hub_def)
  show ?thesis
    using run_step [OF run_step [OF run_step [OF sample_arrival 4] 5] 6] by simp
qed

theorem marked_wrap_not_rerouted_witness:
  "\<exists>e evs e'. inbound_run sample_engine e evs e' \<and> evs = [Silent, Silent] \<and> Routed ''w1'' \<notin> set evs \<and>
     is_seen ''w1'' (hb_seen (eg_hub e'))"
proof -
  obtain l' where l': "limiter_check (\<lambda>x. x) ''b'' 0 (new_limiter (\<lambda>x. x) 10 6) = Some (True, l')" using sample_granted by blast
  let ?e = "\<lparr>eg_hub = sample_hub l', eg_tasks = [\<lparr>wt_wrap = sample_copy, wt_phase = Finished (Inr True)\<rparr>]\<rparr>"
  let ?e1 = "?e\<lparr>eg_tasks := eg_tasks ?e @ [\<lparr>wt_wrap = sample_copy, wt_phase = Arrived\<rparr>]\<rparr>"
  have "inbound_step sample_engine ?e Silent ?e1"
    by (rule inbound_step.arrive) (simp_all add: sample_copy_def sample_engine_def busy_def max_inbound_concurrency_def finished_def)
  moreover have "inbound_step sample_engine ?e1 Silent (set_task 1 (begin_wrap sample_copy (eg_hub ?e1)) ?e1)"
    using inbound_step.start [of 1 ?e1 sample_engine] by simp
  ultimately have run: "inbound_run sample_engine ?e [Silent, Silent] (set_task 1 (begin_wrap sample_copy (eg_hub ?e1)) ?e1)"
    using run_step [OF run_step [OF run_refl]] by fastforce
  have seen: "is_seen ''w1'' (hb_seen (eg_hub (set_task 1 (begin_wrap sample_copy (eg_hub ?e1)) ?e1)))"
    using marked_wrap_not_rerouted [OF sample_delivery [OF l'] _ _ run, of "hd (hb_seen (sample_hub l'))"]
    by (simp add: sample_hub_def keeps_row_def)
  show ?thesis by (intro exI conjI, rule run) (use seen in simp_all)
qed

end
