(* ===== verification/Backfill.thy ===== *)
theory Backfill
  imports Prelude
begin

text \<open>
  The retained set of a relay, \<open>daemon/src/nostr_engine.rs\<close> (\<open>fetch_inbound_backlog_from_relay\<close>): pages walked from the
  newest event to the oldest with a cursor of whole seconds, and the reconciliation by event ids when a single second
  holds more events than one page. What a relay answers is a parameter; the events queued are the result.
\<close>

subsection \<open>One page\<close>

record retained =
  re_id :: string
  re_at :: nat

text \<open>A stream ends, is cut by the shutdown after some events, or does not start; \<open>None\<close> is an invalid event.\<close>

datatype page_answer = Page "retained option list" | Cut "retained option list" | StreamError

record walk =
  wk_until :: "nat option"
  wk_queued :: "retained list" \<comment> \<open>\<open>local_items\<close>; their ids are \<open>seen_ids\<close>\<close>
  wk_observed :: nat

definition absorb_event :: "retained option \<Rightarrow> retained list \<Rightarrow> retained list" where
  "absorb_event x qs = (case x of None \<Rightarrow> qs | Some r \<Rightarrow> if re_id r \<in> re_id ` set qs then qs else qs @ [r])"

definition absorb :: "retained option list \<Rightarrow> retained list \<Rightarrow> retained list" where
  "absorb items qs = fold absorb_event items qs"

definition page_oldest :: "retained option list \<Rightarrow> nat option" where
  "page_oldest items =
     fold (\<lambda>x t. case x of None \<Rightarrow> t | Some r \<Rightarrow> Some (case t of None \<Rightarrow> re_at r | Some u \<Rightarrow> min u (re_at r))) items None"

subsection \<open>The walk\<close>

datatype walk_end = Exhausted | Stalled | Capped | Stopped_Early | Failed_Walk

definition inbound_backfill_max_pages :: nat where "inbound_backfill_max_pages = 256"
definition inbound_backfill_page_limit :: nat where "inbound_backfill_page_limit = 500"
definition inbound_backfill_id_chunk_limit :: nat where "inbound_backfill_id_chunk_limit = 100"

text \<open>\<open>relay\<close> answers a request with a limit and, after the first page, an \<open>until\<close>.\<close>

fun walk_pages :: "(nat \<Rightarrow> nat option \<Rightarrow> page_answer) \<Rightarrow> nat \<Rightarrow> walk \<Rightarrow> walk_end \<times> walk" where
  "walk_pages relay 0 w = (Capped, w)"
| "walk_pages relay (Suc k) w =
     (case relay inbound_backfill_page_limit (wk_until w) of
        StreamError \<Rightarrow> (Failed_Walk, w)
      | Cut items \<Rightarrow> (Stopped_Early, w\<lparr>wk_queued := absorb items (wk_queued w)\<rparr>)
      | Page items \<Rightarrow>
          (let w1 = w\<lparr>wk_queued := absorb items (wk_queued w), wk_observed := max (wk_observed w) (length items)\<rparr>
           in if items = [] then (Exhausted, w1)
              else case page_oldest items of
                     None \<Rightarrow> (Exhausted, w1)
                   | Some oldest \<Rightarrow>
                       if (case wk_until w of Some u \<Rightarrow> oldest < u | None \<Rightarrow> True)
                       then walk_pages relay k (w1\<lparr>wk_until := Some oldest\<rparr>)
                       else if length items < wk_observed w1 then (Exhausted, w1)
                       else (Stalled, w1)))"

definition start_walk :: walk where "start_walk = \<lparr>wk_until = None, wk_queued = [], wk_observed = 0\<rparr>"

text \<open>\<open>chunks\<close> of a slice.\<close>

function chunks_of :: "nat \<Rightarrow> 'a list \<Rightarrow> 'a list list" where
  "chunks_of n xs = (if xs = [] \<or> n = 0 then [] else take n xs # chunks_of n (drop n xs))"
  by pat_completeness auto
termination by (relation "measure (\<lambda>(n, xs). length xs)") auto

declare chunks_of.simps [simp del]

fun fetch_chunks :: "(string list \<Rightarrow> page_answer) \<Rightarrow> string list list \<Rightarrow> retained list \<Rightarrow> retained list" where
  "fetch_chunks exact [] qs = qs"
| "fetch_chunks exact (ids # rest) qs =
     (case exact ids of
        StreamError \<Rightarrow> qs
      | Cut items \<Rightarrow> absorb items qs
      | Page items \<Rightarrow> fetch_chunks exact rest (absorb items qs))"

text \<open>\<open>fetch_inbound_backlog_via_negentropy\<close>; \<open>missing\<close> is the set difference the relay and we agree on, if it can.\<close>

definition reconcile_ids ::
  "(retained list \<Rightarrow> string list option) \<Rightarrow> (string list \<Rightarrow> page_answer) \<Rightarrow> retained list \<Rightarrow> retained list" where
  "reconcile_ids missing exact qs =
     (case missing qs of
        None \<Rightarrow> qs
      | Some ids \<Rightarrow> fetch_chunks exact (chunks_of inbound_backfill_id_chunk_limit ids) qs)"

definition fetch_inbound_backlog ::
  "(nat \<Rightarrow> nat option \<Rightarrow> page_answer) \<Rightarrow> (retained list \<Rightarrow> string list option) \<Rightarrow> (string list \<Rightarrow> page_answer) \<Rightarrow> retained list" where
  "fetch_inbound_backlog relay missing exact =
     (case walk_pages relay inbound_backfill_max_pages start_walk of
        (Stalled, w) \<Rightarrow> reconcile_ids missing exact (wk_queued w)
      | (_, w) \<Rightarrow> wk_queued w)"

subsection \<open>An honest relay\<close>

text \<open>
  It holds the events \<open>R\<close>, newest first. It answers a page with the newest at or below the cursor, but never with more
  than the limit asked or its own limit \<open>c\<close>, and the request of some ids with the events it has of them, clamped to \<open>c\<close>
  as well. It may support negentropy, and then tells which events it has that we lack.
\<close>

definition at_or_below :: "nat option \<Rightarrow> retained list \<Rightarrow> retained list" where
  "at_or_below u R = filter (\<lambda>r. case u of None \<Rightarrow> True | Some t \<Rightarrow> re_at r \<le> t) R"

definition honest_page :: "retained list \<Rightarrow> nat \<Rightarrow> nat \<Rightarrow> nat option \<Rightarrow> page_answer" where
  "honest_page R c limit u = Page (map Some (take (min limit c) (at_or_below u R)))"

definition honest_missing :: "retained list \<Rightarrow> bool \<Rightarrow> retained list \<Rightarrow> string list option" where
  "honest_missing R negentropy qs =
     (if negentropy then Some (map re_id (filter (\<lambda>r. re_id r \<notin> re_id ` set qs) R)) else None)"

definition honest_exact :: "retained list \<Rightarrow> nat \<Rightarrow> string list \<Rightarrow> page_answer" where
  "honest_exact R c ids = Page (map Some (take c (filter (\<lambda>r. re_id r \<in> set ids) R)))"

text \<open>No second holds as many events as a page.\<close>

definition uncrowded :: "retained list \<Rightarrow> nat \<Rightarrow> bool" where
  "uncrowded R m \<longleftrightarrow> (\<forall>t. card {r \<in> set R. re_at r = t} < m)"

definition newest_first :: "retained list \<Rightarrow> bool" where
  "newest_first R \<longleftrightarrow> sorted_wrt (\<lambda>a b. re_at b \<le> re_at a) R \<and> distinct (map re_id R)"

lemma absorb_simps [simp]:
  "absorb [] qs = qs" "absorb (x # xs) qs = absorb xs (absorb_event x qs)"
  by (simp_all add: absorb_def)

text \<open>Events of a set in which an id names one event.\<close>

lemma absorb_set:
  assumes "inj_on re_id (set R)" "set items \<subseteq> set R" "set qs \<subseteq> set R" "distinct (map re_id qs)"
  shows "set (absorb (map Some items) qs) = set qs \<union> set items \<and> distinct (map re_id (absorb (map Some items) qs))"
  using assms(2-4)
proof (induction items arbitrary: qs)
  case (Cons r items)
  have "r \<in> set qs" if "re_id r \<in> re_id ` set qs"
    using that Cons.prems(1,2) assms(1) by (auto simp: inj_on_def)
  with Cons show ?case by (auto simp: absorb_event_def)
qed simp

lemma page_oldest_Min:
  assumes "items \<noteq> []"
  shows "page_oldest (map Some items) = Some (Min (re_at ` set items))"
proof -
  have "fold (\<lambda>x t. case x of None \<Rightarrow> t | Some r \<Rightarrow> Some (case t of None \<Rightarrow> re_at r | Some u \<Rightarrow> min u (re_at r))) (map Some xs) (Some u)
      = Some (fold min (map re_at xs) u)" for xs u
    by (induction xs arbitrary: u) (auto simp: min.commute)
  moreover obtain y ys where "items = y # ys" using assms by (cases items) auto
  ultimately show ?thesis
    using Min.set_eq_fold [of "re_at y" "map re_at ys"] by (simp add: page_oldest_def)
qed

text \<open>What is not on a page is no newer than its oldest event.\<close>

lemma page_cut:
  assumes "newest_first R" "r \<in> set (at_or_below u R)" "r \<notin> set (take c (at_or_below u R))" "q \<in> set (take c (at_or_below u R))"
  shows "re_at r \<le> re_at q"
proof -
  let ?A = "at_or_below u R"
  have "sorted_wrt (\<lambda>a b. re_at b \<le> re_at a) ?A"
    using assms(1) by (simp add: newest_first_def at_or_below_def sorted_wrt_filter)
  then have "\<forall>x \<in> set (take c ?A). \<forall>y \<in> set (drop c ?A). re_at y \<le> re_at x"
    using sorted_wrt_append [of "\<lambda>a b. re_at b \<le> re_at a" "take c ?A" "drop c ?A"] by simp
  moreover have "r \<in> set (drop c ?A)" using assms(2,3) by (metis UnE append_take_drop_id set_append)
  ultimately show ?thesis using assms(4) by blast
qed

text \<open>Everything newer than the cursor is queued, nothing is queued twice.\<close>

definition walked :: "retained list \<Rightarrow> nat \<Rightarrow> walk \<Rightarrow> bool" where
  "walked R c w \<longleftrightarrow> set (wk_queued w) \<subseteq> set R \<and> distinct (map re_id (wk_queued w)) \<and> wk_observed w \<le> c \<and>
     (case wk_until w of None \<Rightarrow> True | Some t \<Rightarrow> t \<in> re_at ` set R \<and> {r \<in> set R. t < re_at r} \<subseteq> set (wk_queued w))"

lemma newest_inj: "newest_first R \<Longrightarrow> inj_on re_id (set R)"
  by (simp add: newest_first_def distinct_map)

lemma oldest_in: "items \<noteq> [] \<Longrightarrow> set items \<subseteq> A \<Longrightarrow> Min (re_at ` set items) \<in> re_at ` A"
  using Min_in [of "re_at ` set items"] by blast

text \<open>One page of an honest relay: it ends the walk with everything queued, or moves the cursor, or stalls.\<close>

lemma page_walked:
  assumes R: "newest_first R" "1 \<le> c" and w: "walked R c w"
    and items: "items = take c (at_or_below (wk_until w) R)"
  defines "w1 \<equiv> w\<lparr>wk_queued := absorb (map Some items) (wk_queued w), wk_observed := max (wk_observed w) (length items)\<rparr>"
  shows "set (wk_queued w1) \<subseteq> set R" "distinct (map re_id (wk_queued w1))"
    and "items = [] \<Longrightarrow> set (wk_queued w1) = set R"
    and "items \<noteq> [] \<Longrightarrow> walked R c (w1\<lparr>wk_until := Some (Min (re_at ` set items))\<rparr>)"
    and "wk_until w = Some t \<Longrightarrow> items \<noteq> [] \<Longrightarrow> t \<le> Min (re_at ` set items) \<Longrightarrow> length items < wk_observed w1 \<Longrightarrow>
      set (wk_queued w1) = set R"
proof -
  let ?A = "at_or_below (wk_until w) R"
  have sub: "set items \<subseteq> set R" by (auto simp: items at_or_below_def dest: in_set_takeD)
  have q: "set (wk_queued w1) = set (wk_queued w) \<union> set items" "distinct (map re_id (wk_queued w1))"
    using absorb_set [OF newest_inj [OF R(1)] sub] w by (auto simp: w1_def walked_def)
  have above: "r \<in> set (wk_queued w)" if "r \<in> set R" "r \<notin> set ?A" for r
    using that w by (auto simp: walked_def at_or_below_def split: option.splits)
  show "set (wk_queued w1) \<subseteq> set R" "distinct (map re_id (wk_queued w1))" using q sub w by (auto simp: walked_def)
  show "set (wk_queued w1) = set R" if "items = []"
  proof -
    from that R(2) have "?A = []" by (simp add: items)
    with above q w sub show ?thesis by (auto simp: walked_def)
  qed
  have below: "re_at r \<le> Min (re_at ` set items)" if "items \<noteq> []" "r \<in> set ?A" "r \<notin> set items" for r
    using that page_cut [OF R(1) that(2), of c] by (auto simp: items)
  show "walked R c (w1\<lparr>wk_until := Some (Min (re_at ` set items))\<rparr>)" if "items \<noteq> []"
  proof -
    have "r \<in> set (wk_queued w1)" if "r \<in> set R" "Min (re_at ` set items) < re_at r" for r
      using that above [of r] below [OF \<open>items \<noteq> []\<close>, of r] q by force
    moreover have "wk_observed w1 \<le> c" using w by (simp add: w1_def walked_def items)
    moreover have "Min (re_at ` set items) \<in> re_at ` set R"
      by (rule oldest_in [OF \<open>items \<noteq> []\<close> sub])
    ultimately show ?thesis using q sub w by (auto simp: walked_def)
  qed
  show "set (wk_queued w1) = set R" if "wk_until w = Some t" "items \<noteq> []" "t \<le> Min (re_at ` set items)" "length items < wk_observed w1"
  proof -
    have "length items < c" using that(4) w by (auto simp: w1_def walked_def items)
    then have "items = ?A" by (simp add: items)
    then show ?thesis using above q sub w by (auto simp: walked_def)
  qed
qed

text \<open>When no second is crowded, a page pinned at the cursor is the whole rest.\<close>

lemma pinned_page_whole:
  assumes R: "newest_first R" "uncrowded R m" and w: "walked R m w"
    and items: "items = take m (at_or_below (wk_until w) R)" "wk_until w = Some t" "items \<noteq> []" "t \<le> Min (re_at ` set items)"
  shows "set (absorb (map Some items) (wk_queued w)) = set R"
proof -
  have sub: "set items \<subseteq> set R" and below: "x \<in> set items \<Longrightarrow> re_at x \<le> t" for x
    by (auto simp: items(1,2) at_or_below_def dest: in_set_takeD)
  have "re_at x = t" if "x \<in> set items" for x
    using below [OF that] items(4) that by (meson List.finite_set Min_le finite_imageI imageI le_antisym order_trans)
  then have "set items \<subseteq> {r \<in> set R. re_at r = t}" using sub by blast
  then have few: "card (set items) \<le> card {r \<in> set R. re_at r = t}" by (intro card_mono) simp_all
  have "distinct items"
    using R(1) by (auto simp: items(1) newest_first_def at_or_below_def distinct_map intro: distinct_take distinct_filter)
  then have "length items = card (set items)" by (simp add: distinct_card)
  moreover have "card {r \<in> set R. re_at r = t} < m" using R(2) by (simp add: uncrowded_def)
  ultimately have "length items < m" using few by linarith
  then have all: "items = at_or_below (wk_until w) R" by (simp add: items(1))
  have "set (absorb (map Some items) (wk_queued w)) = set (wk_queued w) \<union> set items"
    using absorb_set [OF newest_inj [OF R(1)] sub] w by (simp add: walked_def)
  moreover have "x \<in> set (wk_queued w) \<union> set items" if "x \<in> set R" for x
    using that w by (auto simp: all items(2) at_or_below_def walked_def)
  ultimately show ?thesis using sub w by (auto simp: walked_def)
qed

text \<open>Seconds still to be walked bound the pages.\<close>

definition seconds_left :: "retained list \<Rightarrow> walk \<Rightarrow> nat" where
  "seconds_left R w = (case wk_until w of None \<Rightarrow> Suc (card (re_at ` set R)) | Some t \<Rightarrow> card {s \<in> re_at ` set R. s \<le> t})"

lemma walk_complete:
  fixes c :: nat
  defines "m \<equiv> min inbound_backfill_page_limit c"
  assumes "newest_first R" "1 \<le> m" "walked R m w" "walk_pages (honest_page R c) k w = (fin, w')"
  shows "set (wk_queued w') \<subseteq> set R \<and> distinct (map re_id (wk_queued w')) \<and> fin \<in> {Exhausted, Stalled, Capped} \<and>
    (fin = Exhausted \<or> fin = Stalled \<and> uncrowded R m \<longrightarrow> set (wk_queued w') = set R) \<and>
    (seconds_left R w < k \<longrightarrow> fin \<noteq> Capped)"
  using assms(4,5)
proof (induction k arbitrary: w)
  case 0
  then show ?case by (auto simp: walked_def)
next
  case (Suc k)
  let ?items = "take m (at_or_below (wk_until w) R)"
  let ?w1 = "w\<lparr>wk_queued := absorb (map Some ?items) (wk_queued w), wk_observed := max (wk_observed w) (length ?items)\<rparr>"
  note page = page_walked [OF assms(2,3) Suc.prems(1) refl]
  show ?case
  proof (cases "?items = []")
    case True
    with Suc.prems(2) have e: "w' = ?w1" "fin = Exhausted" by (auto simp: honest_page_def m_def)
    show ?thesis unfolding e using page(1,2) page(3) [OF True] by blast
  next
    case False
    let ?old = "Min (re_at ` set ?items)"
    have old: "page_oldest (map Some ?items) = Some ?old" using False by (rule page_oldest_Min)
    have mem: "?old \<in> re_at ` set R"
      by (rule oldest_in [OF False]) (auto simp: at_or_below_def dest!: in_set_takeD)
    show ?thesis
    proof (cases "case wk_until w of Some u \<Rightarrow> ?old < u | None \<Rightarrow> True")
      case True
      let ?w2 = "?w1\<lparr>wk_until := Some ?old\<rparr>"
      from Suc.prems(2) False old True have run: "walk_pages (honest_page R c) k ?w2 = (fin, w')"
        by (simp add: honest_page_def [of R c _ "wk_until w"] m_def [symmetric] Let_def)
      have "seconds_left R ?w2 < seconds_left R w"
      proof (cases "wk_until w")
        case None
        then show ?thesis by (auto simp: seconds_left_def less_Suc_eq_le intro!: card_mono)
      next
        case (Some u)
        with Suc.prems(1) have "u \<in> {s \<in> re_at ` set R. s \<le> u}" by (simp add: walked_def)
        moreover have "u \<notin> {s \<in> re_at ` set R. s \<le> ?old}" "{s \<in> re_at ` set R. s \<le> ?old} \<subseteq> {s \<in> re_at ` set R. s \<le> u}"
          using Some True by auto
        ultimately have "{s \<in> re_at ` set R. s \<le> ?old} \<subset> {s \<in> re_at ` set R. s \<le> u}" by blast
        then have "card {s \<in> re_at ` set R. s \<le> ?old} < card {s \<in> re_at ` set R. s \<le> u}" by (intro psubset_card_mono) simp_all
        with Some show ?thesis by (simp add: seconds_left_def)
      qed
      with Suc.IH [OF page(4) [OF False] run] show ?thesis by auto
    next
      case stall: False
      then obtain t where t: "wk_until w = Some t" "t \<le> ?old" by (auto split: option.splits)
      from Suc.prems(2) False old stall have "w' = ?w1" "fin = (if length ?items < wk_observed ?w1 then Exhausted else Stalled)"
        by (auto simp: honest_page_def [of R c _ "wk_until w"] m_def [symmetric] Let_def split: if_splits)
      with page(1,2) page(5) [OF t(1) False t(2)] pinned_page_whole [OF assms(2) _ Suc.prems(1) refl t(1) False t(2)]
      show ?thesis by auto
    qed
  qed
qed

lemma chunks_concat: "0 < n \<Longrightarrow> concat (chunks_of n xs) = xs"
  by (induction n xs rule: chunks_of.induct) (subst chunks_of.simps, auto)

lemma chunks_short: "ch \<in> set (chunks_of n xs) \<Longrightarrow> length ch \<le> n"
proof (induction n xs rule: chunks_of.induct)
  case (1 n xs)
  then show ?case by (subst (asm) chunks_of.simps) (auto split: if_splits)
qed

lemma exact_unclamped:
  assumes "newest_first R" "length ids \<le> c"
  shows "honest_exact R c ids = Page (map Some (filter (\<lambda>r. re_id r \<in> set ids) R))"
proof -
  let ?xs = "filter (\<lambda>r. re_id r \<in> set ids) R"
  have "distinct (map re_id ?xs)" using assms(1) by (simp add: newest_first_def distinct_map_filter)
  then have "length ?xs = card (set (map re_id ?xs))" by (metis distinct_card length_map)
  also have "\<dots> \<le> card (set ids)" by (rule card_mono) auto
  also have "\<dots> \<le> c" using card_length [of ids] assms(2) by simp
  finally show ?thesis by (simp add: honest_exact_def)
qed

lemma fetch_chunks_complete:
  assumes "newest_first R" "set qs \<subseteq> set R" "distinct (map re_id qs)" "\<forall>ch\<in>set cs. length ch \<le> c"
  shows "set (fetch_chunks (honest_exact R c) cs qs) = set qs \<union> {r \<in> set R. re_id r \<in> set (concat cs)} \<and>
    distinct (map re_id (fetch_chunks (honest_exact R c) cs qs))"
  using assms(2-4)
proof (induction cs arbitrary: qs)
  case (Cons ids cs)
  let ?new = "filter (\<lambda>r. re_id r \<in> set ids) R"
  from absorb_set [OF newest_inj [OF assms(1)] _ Cons.prems(1,2), of ?new]
  have "set (absorb (map Some ?new) qs) = set qs \<union> set ?new" "distinct (map re_id (absorb (map Some ?new) qs))" by auto
  with Cons.IH [of "absorb (map Some ?new) qs"] Cons.prems(1,3) exact_unclamped [OF assms(1), of ids c] show ?case by auto
qed simp

lemma reconcile_complete:
  assumes R: "newest_first R" and qs: "set qs \<subseteq> set R" "distinct (map re_id qs)"
    and c: "negentropy \<and> inbound_backfill_id_chunk_limit \<le> c \<or> set qs = set R"
  shows "set (reconcile_ids (honest_missing R negentropy) (honest_exact R c) qs) = set R \<and>
    distinct (map re_id (reconcile_ids (honest_missing R negentropy) (honest_exact R c) qs))"
proof (cases "negentropy \<and> set qs \<noteq> set R")
  case False
  with c qs show ?thesis
    by (auto simp: reconcile_ids_def honest_missing_def chunks_of.simps)
next
  case True
  let ?ids = "map re_id (filter (\<lambda>r. re_id r \<notin> re_id ` set qs) R)"
  let ?cs = "chunks_of inbound_backfill_id_chunk_limit ?ids"
  have cat: "concat ?cs = ?ids" by (rule chunks_concat) (simp add: inbound_backfill_id_chunk_limit_def)
  have short: "\<forall>ch\<in>set ?cs. length ch \<le> c" using c True chunks_short order_trans by blast
  note all = fetch_chunks_complete [OF R qs short, unfolded cat]
  have rest: "set ?ids = re_id ` {r \<in> set R. re_id r \<notin> re_id ` set qs}" by auto
  have "x \<in> set qs \<or> re_id x \<in> set ?ids" if "x \<in> set R" for x
  proof (cases "re_id x \<in> re_id ` set qs")
    case in_qs: True
    then have "x \<in> set qs" using that newest_inj [OF R] qs(1) by (auto dest: inj_onD)
    then show ?thesis by blast
  next
    case False
    with that show ?thesis unfolding rest by blast
  qed
  with conjunct1 [OF all] qs(1) have "set (fetch_chunks (honest_exact R c) ?cs qs) = set R" by blast
  with all True show ?thesis by (simp add: reconcile_ids_def honest_missing_def)
qed

text \<open>
  C30. The backfill loses no retained message. Against an honest relay that clamps every answer, pages and requests of ids
  alike, to some limit of its own, and whose events spread over fewer than 255 seconds, the walk ends within 256 pages
  and every event the relay retains is queued exactly once, in either of two cases: no single second holds as many events as a
  page (500, or the relay's limit if less); or the relay supports negentropy and its limit is at least the chunk of 100 ids the
  daemon asks for, and then also the events buried under others of their second, which the cursor cannot cross, are found.
\<close>

theorem backfill_complete:
  assumes "newest_first R" "1 \<le> c" "card (re_at ` set R) < 255"
    and "uncrowded R (min 500 c) \<or> negentropy \<and> 100 \<le> c"
  shows "set (fetch_inbound_backlog (honest_page R c) (honest_missing R negentropy) (honest_exact R c)) = set R \<and>
    distinct (map re_id (fetch_inbound_backlog (honest_page R c) (honest_missing R negentropy) (honest_exact R c)))"
proof -
  let ?m = "min inbound_backfill_page_limit c"
  obtain fin w where run: "walk_pages (honest_page R c) inbound_backfill_max_pages start_walk = (fin, w)" by fastforce
  have m: "1 \<le> ?m" using assms(2) by (simp add: inbound_backfill_page_limit_def)
  have "walked R ?m start_walk" by (simp add: walked_def start_walk_def)
  from walk_complete [OF assms(1) m this run] assms(3)
  have w: "set (wk_queued w) \<subseteq> set R" "distinct (map re_id (wk_queued w))"
    "fin = Exhausted \<or> fin = Stalled \<and> uncrowded R ?m \<longrightarrow> set (wk_queued w) = set R" "fin = Exhausted \<or> fin = Stalled"
    by (auto simp: seconds_left_def start_walk_def inbound_backfill_max_pages_def)
  show ?thesis
  proof (cases "fin = Exhausted")
    case True
    with w run show ?thesis by (simp add: fetch_inbound_backlog_def)
  next
    case False
    with w(4) have fin: "fin = Stalled" by simp
    have "negentropy \<and> inbound_backfill_id_chunk_limit \<le> c \<or> set (wk_queued w) = set R"
      using assms(4) w(3) fin by (auto simp: inbound_backfill_id_chunk_limit_def inbound_backfill_page_limit_def)
    from reconcile_complete [OF assms(1) w(1,2) this] show ?thesis
      by (simp add: fetch_inbound_backlog_def run fin)
  qed
qed

text \<open>
  A second that holds more events than a page, from a relay that clamps to 100: a page is pinned there, and an order below it is
  found by its id. The other relay has no negentropy and two events.
\<close>

definition buried :: "retained list" where
  "buried = map (\<lambda>n. \<lparr>re_id = replicate n (CHR ''a''), re_at = 9\<rparr>) [0..<101] @ [\<lparr>re_id = ''order'', re_at = 3\<rparr>]"

definition spread :: "retained list" where
  "spread = [\<lparr>re_id = ''a'', re_at = 9\<rparr>, \<lparr>re_id = ''order'', re_at = 3\<rparr>]"

theorem backfill_complete_witness:
  "set (fetch_inbound_backlog (honest_page buried 100) (honest_missing buried True) (honest_exact buried 100)) = set buried \<and>
   set (fetch_inbound_backlog (honest_page spread 2) (honest_missing spread False) (honest_exact spread 2)) = set spread"
proof (intro conjI)
  have "inj_on (\<lambda>n. replicate n (CHR ''a'')) A" for A :: "nat set" by (rule inj_onI) (metis length_replicate)
  moreover have "''order'' \<noteq> replicate n (CHR ''a'')" for n by (cases n) simp_all
  moreover have "sorted_wrt (\<lambda>a b. re_at b \<le> re_at a) (map (\<lambda>n. \<lparr>re_id = f n, re_at = t\<rparr>) xs)" for f :: "nat \<Rightarrow> string" and t xs
    by (induction xs) simp_all
  ultimately have "newest_first buried"
    by (auto simp: newest_first_def buried_def sorted_wrt_append comp_def distinct_map)
  moreover have "re_at ` set buried \<subseteq> {9, 3}" by (auto simp: buried_def)
  then have "card (re_at ` set buried) < 255" using card_mono [of "{9, 3::nat}" "re_at ` set buried"] by simp
  ultimately show "set (fetch_inbound_backlog (honest_page buried 100) (honest_missing buried True) (honest_exact buried 100)) = set buried"
    using backfill_complete [of buried 100 True] by simp
  have "card {r \<in> set spread. re_at r = t} \<le> card {if t = 9 then \<lparr>re_id = ''a'', re_at = 9\<rparr> else \<lparr>re_id = ''order'', re_at = 3\<rparr>}" for t
    by (rule card_mono) (auto simp: spread_def)
  then have "uncrowded spread 2" by (simp add: uncrowded_def less_Suc_eq_le numeral_2_eq_2)
  moreover have "newest_first spread" "card (re_at ` set spread) < 255" by (simp_all add: newest_first_def spread_def card_insert_if)
  ultimately show "set (fetch_inbound_backlog (honest_page spread 2) (honest_missing spread False) (honest_exact spread 2)) = set spread"
    using backfill_complete [of spread 2 False] by simp
qed

end
