(* ===== verification/Relay_Link.thy ===== *)
theory Relay_Link
  imports Wire_Listing
begin

text \<open>
  The engine's side of a relay, \<open>daemon/src/nostr_engine.rs\<close>: connecting, the acceptance of a publication, the
  listing with its retraction, the retries of a subscription and the recovery of one that a relay closed.
\<close>

subsection \<open>Connecting and publishing\<close>

datatype engine_error = NoRelays | NoUsableRelay | NotBuilt listing_error | SendFailed | NoRelayAccepted

text \<open>\<open>usable\<close> is \<open>add_relay(..).is_ok()\<close>; the result is the relays of the pool.\<close>

definition connect_relays :: "(string \<Rightarrow> bool) \<Rightarrow> string list \<Rightarrow> engine_error + string list" where
  "connect_relays usable relays =
     (if relays = [] then Inl NoRelays
      else if filter usable relays = [] then Inl NoUsableRelay
      else Inr (filter usable relays))"

text \<open>What sending an event yields: the relays that took it and those that did not.\<close>

type_synonym send_output = "(string list \<times> string list) option"

definition require_relay_acceptance :: "send_output \<Rightarrow> engine_error option" where
  "require_relay_acceptance out =
     (case out of None \<Rightarrow> Some SendFailed | Some (ok, failed) \<Rightarrow> if ok = [] then Some NoRelayAccepted else None)"

definition max_deletion_settle_wait_ms :: nat where "max_deletion_settle_wait_ms = 2000"

text \<open>The wait before a relist, in milliseconds; 0 in the state is no deletion yet.\<close>

definition deletion_wait_ms :: "nat \<Rightarrow> nat \<Rightarrow> nat" where
  "deletion_wait_ms deleted_at now =
     (if deleted_at = 0 \<or> deleted_at < now then 0
      else min ((deleted_at + 1 - now) * 1000) max_deletion_settle_wait_ms + 100)"

text \<open>The time it is sent, in milliseconds, and the outcome; \<open>clock\<close> is the wall clock in milliseconds.\<close>

definition publish_listing ::
  "(string \<Rightarrow> bool) \<Rightarrow> (nat \<Rightarrow> send_output) \<Rightarrow> nat \<Rightarrow> nat \<Rightarrow> listing \<Rightarrow> engine_error + nat" where
  "publish_listing valid_key send deleted_at clock l =
     (case build_listing valid_key l of
        Inl e \<Rightarrow> Inl (NotBuilt e)
      | Inr _ \<Rightarrow>
          (let at = clock + deletion_wait_ms deleted_at (clock div 1000)
           in case require_relay_acceptance (send at) of Some e \<Rightarrow> Inl e | None \<Rightarrow> Inr at))"

text \<open>\<open>retract_listing\<close>: the second is remembered before the request is sent.\<close>

definition retract_listing :: "(nat \<Rightarrow> send_output) \<Rightarrow> nat \<Rightarrow> nat \<Rightarrow> engine_error option \<times> nat" where
  "retract_listing send clock deleted_at =
     (require_relay_acceptance (send clock), max deleted_at (clock div 1000))"

text \<open>A relist is never stamped with the second of the deletion, short of a clock that jumped back.\<close>

lemma relist_after_deletion:
  assumes "clock div 1000 \<le> deleted_at" "deleted_at \<le> clock div 1000 + 1" "0 < deleted_at"
    "publish_listing valid_key send deleted_at clock l = Inr at"
  shows "deleted_at < at div 1000"
proof -
  have "at = clock + deletion_wait_ms deleted_at (clock div 1000)"
    using assms(4) by (auto simp: publish_listing_def Let_def split: sum.splits option.splits)
  then have "(deleted_at + 1) * 1000 \<le> at"
    using assms(1-3) by (auto simp: deletion_wait_ms_def max_deletion_settle_wait_ms_def)
  then have "(deleted_at + 1) * 1000 div 1000 \<le> at div 1000" by (rule div_le_mono)
  then show ?thesis by simp
qed

subsection \<open>The listing of a recipe\<close>

definition op_decl :: "operation \<Rightarrow> operation_decl" where
  "op_decl q = \<lparr>od_name = op_name q, od_label = op_label q, od_kind = op_kind q, od_params = op_params q\<rparr>"

definition listing_from_recipe :: "recipe \<Rightarrow> string \<Rightarrow> string \<Rightarrow> listing" where
  "listing_from_recipe R d operator =
     \<lparr>ls_d = d, ls_operator = operator, ls_recipe = rc_id R, ls_recipe_version = rc_version R, ls_title = rc_name R,
      ls_summary = rc_summary R, ls_amount = rc_amount R, ls_period = rc_period R, ls_params = rc_params R,
      ls_operations = map op_decl (rc_operations R), ls_tier = (if rc_isolation R = ''vm'' then Some (rc_tier R) else None),
      ls_version = schema_version\<rparr>"

subsection \<open>Subscribing\<close>

definition inbound_subscribe_attempts :: nat where "inbound_subscribe_attempts = 5"

text \<open>\<open>tries n\<close> is the n-th attempt; the result says whether the last one was accepted and how many there were.\<close>

function subscribe_with_retry :: "(nat \<Rightarrow> send_output) \<Rightarrow> nat \<Rightarrow> engine_error option \<times> nat" where
  "subscribe_with_retry tries attempt =
     (case require_relay_acceptance (tries attempt) of
        None \<Rightarrow> (None, attempt)
      | Some e \<Rightarrow> if attempt < inbound_subscribe_attempts then subscribe_with_retry tries (Suc attempt) else (Some e, attempt))"
  by pat_completeness auto
termination by (relation "measure (\<lambda>(t, n). inbound_subscribe_attempts - n)") (auto simp: inbound_subscribe_attempts_def)

declare subscribe_with_retry.simps [simp del]

subsection \<open>A subscription the relay closed\<close>

record closed_resubscribe =
  cr_attempts :: nat
  cr_pending :: bool
  cr_retry :: bool

definition fresh_resubscribe :: closed_resubscribe where
  "fresh_resubscribe = \<lparr>cr_attempts = 0, cr_pending = False, cr_retry = False\<rparr>"

definition inbound_closed_backoff :: "nat \<Rightarrow> nat" where
  "inbound_closed_backoff attempts = min (max 1 1 * 2 ^ min attempts 16) 60"

definition bump_u32 :: "nat \<Rightarrow> nat" where "bump_u32 n = min (Suc n) (2 ^ 32 - 1)"

definition schedule_closed :: "closed_resubscribe \<Rightarrow> nat option \<times> closed_resubscribe" where
  "schedule_closed s =
     (if cr_pending s then (None, s\<lparr>cr_retry := True\<rparr>)
      else (Some (inbound_closed_backoff (cr_attempts s)),
            \<lparr>cr_attempts = bump_u32 (cr_attempts s), cr_pending = True, cr_retry = False\<rparr>))"

definition finish_closed :: "bool \<Rightarrow> closed_resubscribe \<Rightarrow> nat option \<times> closed_resubscribe" where
  "finish_closed healthy s =
     (if cr_retry s
      then (Some (inbound_closed_backoff (cr_attempts s)),
            \<lparr>cr_attempts = bump_u32 (cr_attempts s), cr_pending = True, cr_retry = False\<rparr>)
      else (None, s\<lparr>cr_pending := False, cr_attempts := if healthy then 0 else cr_attempts s\<rparr>))"

definition reset_closed :: "closed_resubscribe \<Rightarrow> closed_resubscribe" where
  "reset_closed s = s\<lparr>cr_attempts := 0, cr_retry := False\<rparr>"

lemma closed_backoff_bounds: "1 \<le> inbound_closed_backoff n \<and> inbound_closed_backoff n \<le> 60"
  by (simp add: inbound_closed_backoff_def)

text \<open>One relay: the state with the recovery tasks at work. A task loops while \<open>finish_closed\<close> gives it a delay.\<close>

datatype relay_event = ClosedBy | TaskDone bool | ProvedLive

fun closed_event :: "relay_event \<Rightarrow> closed_resubscribe \<times> nat \<Rightarrow> closed_resubscribe \<times> nat" where
  "closed_event ClosedBy (s, n) = (case schedule_closed s of (Some d, s') \<Rightarrow> (s', Suc n) | (None, s') \<Rightarrow> (s', n))"
| "closed_event (TaskDone healthy) (s, n) =
     (if n = 0 then (s, n)
      else case finish_closed healthy s of (Some d, s') \<Rightarrow> (s', n) | (None, s') \<Rightarrow> (s', n - 1))"
| "closed_event ProvedLive (s, n) = (reset_closed s, n)"

lemma one_recovery:
  "(\<forall>s n. fold closed_event evs (fresh_resubscribe, 0) = (s, n) \<longrightarrow> n = (if cr_pending s then 1 else 0))"
proof (induction evs rule: rev_induct)
  case (snoc ev evs)
  obtain s n where b: "fold closed_event evs (fresh_resubscribe, 0) = (s, n)" by fastforce
  with snoc.IH have "n = (if cr_pending s then 1 else 0)" by blast
  then show ?case
    by (cases ev) (auto simp: b schedule_closed_def finish_closed_def reset_closed_def)
qed (simp add: fresh_resubscribe_def)

text \<open>A relay that closed its subscription has a recovery at work, and one that closed it again gets another round.\<close>

lemma closed_is_recovered:
  "fold closed_event (evs @ [ClosedBy]) (fresh_resubscribe, 0) = (s, n) \<Longrightarrow> n = 1 \<and> cr_pending s"
  using one_recovery [of "evs @ [ClosedBy]"]
  by (cases "fold closed_event evs (fresh_resubscribe, 0)") (auto simp: schedule_closed_def split: if_splits)

subsection \<open>The receive loop\<close>

text \<open>What the pool notifies of; \<open>Stop\<close> is the cancellation, which wins over a notification.\<close>

datatype 'e notification =
    OurEvent string 'e
  | OurClosed string
  | OurEose string
  | OtherNotice
  | PoolShutdown
  | StreamClosed
  | Lagged nat
  | Stop

datatype 'e inbound_effect =
    BackfillAll
  | Queue 'e
  | RecoverAfter string nat
  | BackfillThenResubscribe

definition closed_of :: "(string \<rightharpoonup> closed_resubscribe) \<Rightarrow> string \<Rightarrow> closed_resubscribe" where
  "closed_of cm u = (case cm u of Some s \<Rightarrow> s | None \<Rightarrow> fresh_resubscribe)"

definition reset_entry :: "string \<Rightarrow> (string \<rightharpoonup> closed_resubscribe) \<Rightarrow> string \<rightharpoonup> closed_resubscribe" where
  "reset_entry u cm = (case cm u of None \<Rightarrow> cm | Some s \<Rightarrow> cm(u \<mapsto> reset_closed s))"

fun receive_loop :: "(string \<rightharpoonup> closed_resubscribe) \<Rightarrow> 'e notification list \<Rightarrow> 'e inbound_effect list" where
  "receive_loop cm [] = []"
| "receive_loop cm (OurEvent u e # ns) = Queue e # receive_loop (reset_entry u cm) ns"
| "receive_loop cm (OurClosed u # ns) =
     (case schedule_closed (closed_of cm u) of
        (Some d, s) \<Rightarrow> RecoverAfter u d # receive_loop (cm(u \<mapsto> s)) ns
      | (None, s) \<Rightarrow> receive_loop (cm(u \<mapsto> s)) ns)"
| "receive_loop cm (OurEose u # ns) = receive_loop (reset_entry u cm) ns"
| "receive_loop cm (OtherNotice # ns) = receive_loop cm ns"
| "receive_loop cm (Lagged n # ns) = BackfillThenResubscribe # receive_loop cm ns"
| "receive_loop cm (PoolShutdown # ns) = []"
| "receive_loop cm (StreamClosed # ns) = []"
| "receive_loop cm (Stop # ns) = []"

text \<open>\<open>run_inbound\<close> up to the loop; the recovery tasks the loop spawns report through \<open>finish_closed\<close>, not here.\<close>

definition run_inbound :: "bool \<Rightarrow> (nat \<Rightarrow> send_output) \<Rightarrow> bool \<Rightarrow> 'e notification list \<Rightarrow> engine_error option \<times> 'e inbound_effect list" where
  "run_inbound stopping tries stopping_then ns =
     (if stopping then (None, [])
      else (case fst (subscribe_with_retry tries 1) of
              Some e \<Rightarrow> (Some e, [])
            | None \<Rightarrow> if stopping_then then (None, []) else (None, BackfillAll # receive_loop Map.empty ns)))"

text \<open>A lag is always followed by a fetch of the retained set, unless the loop ended before it.\<close>

definition loop_goes_on :: "'e notification \<Rightarrow> bool" where
  "loop_goes_on n \<longleftrightarrow> n \<noteq> Stop \<and> n \<noteq> PoolShutdown \<and> n \<noteq> StreamClosed"

lemma lag_is_recovered: "list_all loop_goes_on ns \<Longrightarrow> Lagged k \<in> set ns \<Longrightarrow> BackfillThenResubscribe \<in> set (receive_loop cm ns)"
proof (induction ns arbitrary: cm)
  case (Cons n ns)
  then show ?case by (cases n) (auto simp: loop_goes_on_def prod.case_eq_if split: option.splits)
qed simp

lemma every_event_queued: "list_all loop_goes_on ns \<Longrightarrow> OurEvent u e \<in> set ns \<Longrightarrow> Queue e \<in> set (receive_loop cm ns)"
proof (induction ns arbitrary: cm)
  case (Cons n ns)
  then show ?case by (cases n) (auto simp: loop_goes_on_def prod.case_eq_if split: option.splits)
qed simp

subsection \<open>The shutdown drain\<close>

datatype inbound_drain_result = Drained | TimedOut_Drain

text \<open>Whether the loop was joined, and the accepted wraps finished, before the deadline.\<close>

definition drain_per_wrap :: "bool \<Rightarrow> inbound_drain_result" where
  "drain_per_wrap wraps_done = (if wraps_done then Drained else TimedOut_Drain)"

definition drain :: "bool \<Rightarrow> bool \<Rightarrow> inbound_drain_result" where
  "drain loop_joined wraps_done = (if loop_joined then drain_per_wrap wraps_done else TimedOut_Drain)"

end
