(* ===== verification/Hook_Run.thy ===== *)
theory Hook_Run
  imports Recipe
begin

text \<open>
  The run of one recipe hook, \<open>daemon/src/runner.rs\<close> (\<open>run_hook\<close>, \<open>HookProcessGroup\<close>, \<open>reap\<close>,
  \<open>kill_hook_process_group\<close>, \<open>read_capped\<close>): the reads under the cap, the bounded wait, and the process group of the hook
  with the guard that kills it. The record \<open>C\<close> is what the operating system lets the daemon observe, and what the processes of the host
  do at each of the daemon's waits; a wait may also be cut short because the caller drops the future. Error texts are the outermost one.
\<close>

subsection \<open>Processes\<close>

record proc =
  pr_pid :: int
  pr_group :: int
  pr_signalable :: bool \<comment> \<open>the daemon's user may send it a signal\<close>

type_synonym proc_table = "proc list"

text \<open>\<open>kill_hook_process_group\<close>: whatever error \<open>killpg\<close> reports is ignored.\<close>

definition kill_hook_process_group :: "int \<Rightarrow> proc_table \<Rightarrow> proc_table" where
  "kill_hook_process_group g h = filter (\<lambda>p. \<not> (pr_group p = g \<and> pr_signalable p)) h"



subsection \<open>The hook's process\<close>



datatype reads_end = ReadsDropped | ReadsSlow | ReadsDecided

datatype exit_wait = WaitDropped | WaitError | NotExited | Exited "int option"

datatype reap_end = ReapDropped | ReapSlow | Reaped

record child =
  cd_tries :: "nat \<Rightarrow> spawn_try"
  cd_leader :: proc
  cd_reads :: reads_end \<comment> \<open>whether the reads are decided within the time limit\<close>
  cd_stdout :: "(string + string) list"
  cd_stderr :: "(string + string) list"
  cd_stderr_first :: bool \<comment> \<open>which pipe fails first when both do\<close>
  cd_exit :: exit_wait
  cd_reap :: reap_end
  cd_busy :: "proc_table \<Rightarrow> proc_table" \<comment> \<open>what happens on the host during the reads\<close>
  cd_exiting :: "proc_table \<Rightarrow> proc_table" \<comment> \<open>during the wait for the exit\<close>
  cd_reaping :: "proc_table \<Rightarrow> proc_table" \<comment> \<open>during the wait of \<open>reap\<close>\<close>


text \<open>\<open>spawn\<close> with \<open>process_group(0)\<close>: the child leads a group of its own.\<close>

definition leader_group :: "child \<Rightarrow> int" where
  "leader_group C = pr_pid (cd_leader C)"







subsection \<open>What a run leaves behind\<close>




definition group_gone :: "child \<Rightarrow> proc_table \<Rightarrow> bool" where
  "group_gone C h \<longleftrightarrow> (\<forall>p\<in>set h. pr_group p = leader_group C \<longrightarrow> \<not> pr_signalable p)"


text \<open>A process outside the group is touched by none of the kills.\<close>

definition outsiders_kept :: "child \<Rightarrow> proc_table \<Rightarrow> proc_table \<Rightarrow> bool" where
  "outsiders_kept C h h' \<longleftrightarrow> (\<forall>p\<in>set h. pr_group p \<noteq> leader_group C \<and> pr_pid p \<noteq> leader_group C \<longrightarrow> p \<in> set h')"

lemma killed_group: "group_gone C (kill_hook_process_group (leader_group C) h)"
  by (simp add: group_gone_def kill_hook_process_group_def)






lemma outsiders_refl [simp]: "outsiders_kept C h h"
  by (simp add: outsiders_kept_def)







end
