(* ===== verification/Phoenixd.thy ===== *)
theory Phoenixd
  imports Config Catch_Up Preflight
begin

text \<open>
  The phoenixd backend, \<open>daemon/src/phoenixd_backend.rs\<close>, its data: the fee schedule and the net payout found by
  binary search, what a node answers (\<open>PhoenixdOps\<close>), the backend's own tables in the store with the statements on
  them, and the readiness seams.

  A node and the clock are code behind \<open>PhoenixdOps\<close> and \<open>Clock\<close>: the record \<open>phx_ops\<close>, on a state \<open>'n\<close> that a call
  may change. What the store answers to a read or a transaction is part of it, so every store failure is covered.
\<close>

subsection \<open>The fee schedule\<close>

definition saturating_mul_u128 :: "nat \<Rightarrow> nat \<Rightarrow> nat" where
  "saturating_mul_u128 a b = min (a * b) (u128_limit - 1)"

definition div_ceil :: "nat \<Rightarrow> nat \<Rightarrow> nat" where
  "div_ceil a b = (a + b - 1) div b"

text \<open>A \<open>u64\<close> times a thousand fits in a \<open>u128\<close>; \<open>sat_to_msat_u64\<close> stops at the largest \<open>u64\<close>.\<close>

definition sat_to_msat :: "nat \<Rightarrow> nat" where
  "sat_to_msat sat = sat * 1000"

definition sat_to_msat_u64 :: "nat \<Rightarrow> nat" where
  "sat_to_msat_u64 sat = saturating_mul_u64 sat 1000"

definition default_fees :: fee_schedule where
  "default_fees = \<lparr>fe_version = ''0.9.0'', fe_base = 4000, fe_ppm = 4000\<rparr>"

definition fee_msat :: "fee_schedule \<Rightarrow> nat \<Rightarrow> nat" where
  "fee_msat F pay = saturating_add_u128 (div_ceil (saturating_mul_u128 pay (fe_ppm F)) 1000000) (fe_base F)"

definition payout_fits :: "fee_schedule \<Rightarrow> nat \<Rightarrow> nat \<Rightarrow> bool" where
  "payout_fits F gross pay \<longleftrightarrow> pay = 0 \<or>
     saturating_add_u128 (sat_to_msat pay) (fee_msat F (sat_to_msat pay)) \<le> sat_to_msat gross"

function net_search :: "(nat \<Rightarrow> bool) \<Rightarrow> nat \<Rightarrow> nat \<Rightarrow> nat" where
  "net_search fits lo hi =
     (if lo < hi
      then let mid = hi - (hi - lo) div 2
           in if fits mid then net_search fits mid hi else net_search fits lo (mid - 1)
      else lo)"
  by pat_completeness auto

termination
  by (relation "measure (\<lambda>(fits, lo, hi). hi - lo)") auto

declare net_search.simps [simp del]

definition net_payout_sat :: "fee_schedule \<Rightarrow> nat \<Rightarrow> nat" where
  "net_payout_sat F gross = net_search (payout_fits F gross) 0 gross"

definition required_outlay_msat :: "fee_schedule \<Rightarrow> nat \<Rightarrow> nat option \<Rightarrow> nat" where
  "required_outlay_msat F gross pay =
     (let sat = (case pay of Some p \<Rightarrow> p | None \<Rightarrow> net_payout_sat F gross)
      in if sat = 0 then 0
         else saturating_add_u128 (sat_to_msat sat) (fee_msat F (sat_to_msat sat)))"

definition matches_running_version :: "fee_schedule \<Rightarrow> string \<Rightarrow> bool" where
  "matches_running_version F running \<longleftrightarrow>
     running = fe_version F \<or> takeWhile (\<lambda>c. c \<noteq> CHR ''-'') running = fe_version F"

definition inv1_overrun_msat :: "nat \<Rightarrow> nat \<Rightarrow> nat option \<Rightarrow> nat option" where
  "inv1_overrun_msat payout fees ceiling =
     (case ceiling of
        None \<Rightarrow> None
      | Some c \<Rightarrow> (let outlay = saturating_add_u128 payout fees in if c < outlay then Some (outlay - c) else None))"

text \<open>The search finds the last number that fits, when what fits is an initial segment.\<close>

definition upper_mid :: "nat \<Rightarrow> nat \<Rightarrow> nat" where
  "upper_mid lo hi = hi - (hi - lo) div 2"

lemma upper_mid_bounds: "lo < hi \<Longrightarrow> lo < upper_mid lo hi \<and> upper_mid lo hi \<le> hi"
  by (simp add: upper_mid_def)

lemma net_search_stop: "\<not> lo < hi \<Longrightarrow> net_search fits lo hi = lo"
  by (simp add: net_search.simps)

lemma net_search_up: "lo < hi \<Longrightarrow> fits (upper_mid lo hi) \<Longrightarrow> net_search fits lo hi = net_search fits (upper_mid lo hi) hi"
  by (subst net_search.simps) (simp add: upper_mid_def Let_def)

lemma net_search_down:
  "lo < hi \<Longrightarrow> \<not> fits (upper_mid lo hi) \<Longrightarrow> net_search fits lo hi = net_search fits lo (upper_mid lo hi - 1)"
  by (subst net_search.simps) (simp add: upper_mid_def Let_def)

lemma net_search_sound:
  "fits lo \<Longrightarrow> lo \<le> hi \<Longrightarrow> fits (net_search fits lo hi) \<and> lo \<le> net_search fits lo hi \<and> net_search fits lo hi \<le> hi"
proof (induction "hi - lo" arbitrary: lo hi rule: less_induct)
  case less
  show ?case
  proof (cases "lo < hi")
    case True
    let ?m = "upper_mid lo hi"
    note m = upper_mid_bounds [OF True]
    show ?thesis
    proof (cases "fits ?m")
      case fit: True
      from less(1) [of hi ?m] fit m show ?thesis unfolding net_search_up [of lo hi fits, OF True fit] by force
    next
      case False
      from less(1) [of "?m - 1" lo] less(2) m show ?thesis unfolding net_search_down [of lo hi fits, OF True False] by force
    qed
  next
    case False
    with less show ?thesis by (simp add: net_search_stop)
  qed
qed

lemma net_search_last:
  assumes down: "\<And>a b. a \<le> b \<Longrightarrow> fits b \<Longrightarrow> fits a"
  shows "lo \<le> p \<Longrightarrow> p \<le> hi \<Longrightarrow> fits p \<Longrightarrow> p \<le> net_search fits lo hi"
proof (induction "hi - lo" arbitrary: lo hi rule: less_induct)
  case less
  show ?case
  proof (cases "lo < hi")
    case True
    let ?m = "upper_mid lo hi"
    note m = upper_mid_bounds [OF True]
    show ?thesis
    proof (cases "fits ?m")
      case fit: True
      show ?thesis
      proof (cases "?m \<le> p")
        case True
        with less(1) [of hi ?m] less(3,4) m show ?thesis
          unfolding net_search_up [of lo hi fits, OF \<open>lo < hi\<close> fit] by linarith
      next
        case False
        with net_search_sound [of fits ?m hi] fit m show ?thesis
          unfolding net_search_up [of lo hi fits, OF \<open>lo < hi\<close> fit] by linarith
      qed
    next
      case False
      with down [of ?m p] less(4) have "p < ?m" by force
      with less(1) [of "?m - 1" lo] less(2,4) m show ?thesis
        unfolding net_search_down [of lo hi fits, OF True False] by linarith
    qed
  next
    case False
    with less show ?thesis by (simp add: net_search_stop)
  qed
qed

lemma fee_msat_mono: "a \<le> b \<Longrightarrow> fee_msat F a \<le> fee_msat F b"
proof -
  assume "a \<le> b"
  then have "saturating_mul_u128 a (fe_ppm F) \<le> saturating_mul_u128 b (fe_ppm F)"
    unfolding saturating_mul_u128_def by (intro min.mono mult_right_mono order_refl zero_le)
  then have "div_ceil (saturating_mul_u128 a (fe_ppm F)) 1000000 \<le> div_ceil (saturating_mul_u128 b (fe_ppm F)) 1000000"
    unfolding div_ceil_def by (intro div_le_mono diff_le_mono add_right_mono)
  then show ?thesis unfolding fee_msat_def saturating_add_u128_def by (intro min.mono add_right_mono order_refl)
qed

lemma payout_fits_down: "a \<le> b \<Longrightarrow> payout_fits F g b \<Longrightarrow> payout_fits F g a"
proof -
  assume ab: "a \<le> b" and b: "payout_fits F g b"
  have "fee_msat F (sat_to_msat a) \<le> fee_msat F (sat_to_msat b)"
    by (rule fee_msat_mono) (use ab in \<open>simp add: sat_to_msat_def\<close>)
  then have "saturating_add_u128 (sat_to_msat a) (fee_msat F (sat_to_msat a))
      \<le> saturating_add_u128 (sat_to_msat b) (fee_msat F (sat_to_msat b))"
    unfolding saturating_add_u128_def
    by (intro min.mono add_mono order_refl) (use ab in \<open>simp add: sat_to_msat_def\<close>)
  with ab b show ?thesis unfolding payout_fits_def by (metis le_zero_eq order_trans)
qed

lemma payout_above_gross:
  assumes "g < u64_limit" "g < p" shows "\<not> payout_fits F g p"
proof -
  have "sat_to_msat g < sat_to_msat p" using assms(2) by (simp add: sat_to_msat_def)
  moreover have "sat_to_msat g < u128_limit - 1" using assms(1) by (simp add: sat_to_msat_def)
  ultimately show ?thesis using assms(2) by (auto simp: payout_fits_def saturating_add_u128_def)
qed

lemma net_payout_fits: "payout_fits F g (net_payout_sat F g)"
  unfolding net_payout_sat_def using net_search_sound [of "payout_fits F g" 0 g] by (simp add: payout_fits_def)

lemma net_payout_last: "g < u64_limit \<Longrightarrow> payout_fits F g p \<Longrightarrow> p \<le> net_payout_sat F g"
  using net_search_last [of "payout_fits F g" 0 p g] payout_fits_down payout_above_gross [of g p F]
  unfolding net_payout_sat_def by (meson le0 linorder_not_less)

text \<open>
  C29. The net payout is the exact optimum: for every fee schedule and every gross amount, paying it with the reserved
  fee stays within what was received, and one satoshi more, or any more, would not.
\<close>

theorem net_payout_is_largest:
  assumes gross: "gross < u64_limit"
  shows "required_outlay_msat F gross None \<le> sat_to_msat gross \<and>
    (\<forall>p. net_payout_sat F gross < p \<longrightarrow> sat_to_msat gross < required_outlay_msat F gross (Some p))"
proof (intro conjI allI impI)
  show "required_outlay_msat F gross None \<le> sat_to_msat gross"
    using net_payout_fits [of F gross] by (auto simp: required_outlay_msat_def Let_def payout_fits_def)
next
  fix p assume "net_payout_sat F gross < p"
  with net_payout_last [OF gross, of F p] show "sat_to_msat gross < required_outlay_msat F gross (Some p)"
    by (auto simp: required_outlay_msat_def payout_fits_def not_le [symmetric])
qed

lemma default_net_120: "net_payout_sat default_fees 125 = 120"
  by (simp add: net_payout_sat_def net_search.simps payout_fits_def default_fees_def fee_msat_def div_ceil_def
      saturating_mul_u128_def saturating_add_u128_def sat_to_msat_def)

theorem net_payout_is_largest_witness:
  "required_outlay_msat default_fees 125 None \<le> 125000 \<and> 125000 < required_outlay_msat default_fees 125 (Some 121)"
  using net_payout_is_largest [of 125 default_fees] by (simp add: default_net_120 sat_to_msat_def)

subsection \<open>What the node answers\<close>

record phx_new_invoice =
  ni_amount :: nat
  ni_hash :: string
  ni_bolt11 :: string

record phx_incoming =
  ic_hash :: string
  ic_bolt11 :: string
  ic_paid :: bool
  ic_expired :: bool
  ic_requested :: nat
  ic_received :: nat
  ic_completed_ms :: "int option"
  ic_expires_ms :: "int option"

record phx_outgoing =
  og_payment :: string
  og_hash :: string
  og_paid :: bool
  og_fees :: nat
  og_completed_ms :: "int option"

record phx_balance =
  pl_balance :: nat
  pl_fee_credit :: nat

record phx_node_info =
  nd_id :: string
  nd_version :: string

datatype pay_attempt = Paid string string | NoReceipt "string option"

record fee_credit_refusal =
  fc_invoice :: string
  fc_received :: nat
  fc_credit :: nat
  fc_balance :: nat

text \<open>
  Errors. \<open>px_refusal\<close> has a constructor per refusal of the backend, with the values its message names;
  \<open>PxContext\<close> is \<open>anyhow\<close>'s \<open>context\<close>, through which a typed error is still found.
\<close>

datatype px_refusal =
    NotAnEntryPoint string
  | CachedInvoiceGone string string
  | CachedAmountDiffers string nat nat
  | HeldAmountDiffers string nat nat
  | CreatedAmountDiffers nat nat
  | UnparseableBolt11
  | CreatedHashDiffers string string
  | CreatedMsatDiffers "nat option" nat
  | CorrelationMissing string
  | RecordGone string string
  | PaidWithoutTime string
  | NoPaidRecord string string
  | SucceededWithoutId string
  | ForeignRecord string string
  | StillInFlight string string
  | CompletedUnpaid string string
  | NeverPrepared string
  | InvalidStatus string string
  | OtherNode string string string
  | UnknownNode string string
  | DestinationExpired string int int
  | AmountDiffers string nat nat
  | Amountless string
  | HashOwned string string
  | OverCap string nat nat nat
  | ReceiptForOther string string string
  | NoReceiptCompleted string "string option"
  | NoReceiptInFlight string "string option"
  | NoReceiptNoRecord string "string option"

datatype px_error =
    PxStore store_error
  | PxHttp string nat string
  | PxOps string
  | PxFeeCredit fee_credit_refusal
  | PxReadiness phoenixd_probe
  | PxRefused px_refusal
  | PxContext string px_error

fun http_error :: "px_error \<Rightarrow> nat option" where
  "http_error (PxHttp _ status _) = Some status"
| "http_error (PxContext _ e) = http_error e"
| "http_error _ = None"

fun fee_refusal :: "px_error \<Rightarrow> fee_credit_refusal option" where
  "fee_refusal (PxFeeCredit r) = Some r"
| "fee_refusal (PxContext _ e) = fee_refusal e"
| "fee_refusal _ = None"

record parsed_dest =
  de_hash :: string
  de_msat :: "nat option"
  de_expires :: int

record 'n phx_ops =
  po_create :: "nat \<Rightarrow> string \<Rightarrow> string \<Rightarrow> nat \<Rightarrow> 'n \<Rightarrow> (px_error + phx_new_invoice) \<times> 'n"
  po_incoming :: "string \<Rightarrow> 'n \<Rightarrow> (px_error + phx_incoming list) \<times> 'n"
  po_pay :: "string \<Rightarrow> 'n \<Rightarrow> (px_error + pay_attempt) \<times> 'n"
  po_outgoing :: "string \<Rightarrow> 'n \<Rightarrow> (px_error + phx_outgoing option) \<times> 'n"
  po_balance :: "'n \<Rightarrow> (px_error + phx_balance) \<times> 'n"
  po_info :: "'n \<Rightarrow> (px_error + phx_node_info) \<times> 'n"
  po_safe_version :: "string \<Rightarrow> string option"
  po_bolt11 :: "string \<Rightarrow> parsed_dest option" \<comment> \<open>the fields \<open>parse_dest\<close> reads of \<open>Bolt11Invoice::from_str\<close>\<close>
  po_clock :: "'n \<Rightarrow> int"
  po_read :: "'n \<Rightarrow> store_error option \<times> 'n" \<comment> \<open>what the store answers to a read\<close>
  po_commit :: "'n \<Rightarrow> store_error option \<times> 'n" \<comment> \<open>and to a transaction, when its statements succeed\<close>
  po_send :: "settlement \<Rightarrow> 'n \<Rightarrow> bool \<times> 'n" \<comment> \<open>the settlement channel; \<open>False\<close>: the receiver is closed\<close>
  po_text :: "px_error \<Rightarrow> string" \<comment> \<open>how \<open>anyhow\<close> prints an error with its contexts\<close>

subsection \<open>The tables and the state\<close>

record phx_invoice =
  pv_ext :: string
  pv_id :: string
  pv_bolt11 :: string
  pv_hash :: string
  pv_amount :: int
  pv_expires :: int

record phx_pay =
  pp_key :: string
  pp_bolt11 :: string
  pp_hash :: string
  pp_node :: "string option"
  pp_payment :: "string option"
  pp_status :: string
  pp_terminal :: "int option"

record phx_tables =
  px_invoices :: "phx_invoice list"
  px_refusals :: "(string \<times> int) list" \<comment> \<open>\<open>phoenixd_unbookable_settlement\<close>\<close>
  px_pays :: "phx_pay list"

record 'n phx =
  px_tab :: phx_tables
  px_sink :: "bool option" \<comment> \<open>the alert sink, if any, and whether it is enabled\<close>
  px_alerts :: "alert list" \<comment> \<open>the alerts handed to it\<close>
  px_node :: 'n

abbreviation pays :: "'n phx \<Rightarrow> phx_pay list" where "pays s \<equiv> px_pays (px_tab s)"

text \<open>A step of an operation: a call of the node, a read, a write, and one after the other.\<close>

type_synonym ('n, 'a) px = "'n phx \<Rightarrow> (px_error + 'a) \<times> 'n phx"

definition px_return :: "'a \<Rightarrow> ('n, 'a) px" where
  "px_return x s = (Inr x, s)"

definition px_fail :: "px_error \<Rightarrow> ('n, 'a) px" where
  "px_fail e s = (Inl e, s)"

definition px_then :: "('n, 'a) px \<Rightarrow> ('a \<Rightarrow> ('n, 'b) px) \<Rightarrow> ('n, 'b) px" where
  "px_then m f s = (case m s of (Inl e, s') \<Rightarrow> (Inl e, s') | (Inr x, s') \<Rightarrow> f x s')"

definition px_call :: "('n \<Rightarrow> (px_error + 'a) \<times> 'n) \<Rightarrow> ('n, 'a) px" where
  "px_call f s = (case f (px_node s) of (r, n) \<Rightarrow> (r, s\<lparr>px_node := n\<rparr>))"

definition px_try :: "('n, 'a) px \<Rightarrow> ('n, px_error + 'a) px" where
  "px_try m s = (case m s of (r, s') \<Rightarrow> (Inr r, s'))"

definition px_context :: "string \<Rightarrow> ('n, 'a) px \<Rightarrow> ('n, 'a) px" where
  "px_context c m s = (case m s of (r, s') \<Rightarrow> (map_sum (PxContext c) id r, s'))"

definition px_refuse :: "px_refusal \<Rightarrow> ('n, 'a) px" where
  "px_refuse r = px_fail (PxRefused r)"

definition px_read :: "'n phx_ops \<Rightarrow> (phx_tables \<Rightarrow> 'a) \<Rightarrow> ('n, 'a) px" where
  "px_read B f s =
     (case po_read B (px_node s) of
        (Some e, n) \<Rightarrow> (Inl (PxStore e), s\<lparr>px_node := n\<rparr>)
      | (None, n) \<Rightarrow> (Inr (f (px_tab s)), s\<lparr>px_node := n\<rparr>))"

type_synonym 'a px_tx = "phx_tables \<Rightarrow> store_error + 'a \<times> phx_tables"

definition px_write :: "'n phx_ops \<Rightarrow> 'a px_tx \<Rightarrow> ('n, 'a) px" where
  "px_write B f s =
     (case po_commit B (px_node s) of
        (fault, n) \<Rightarrow>
          (case f (px_tab s) of
             Inl e \<Rightarrow> (Inl (PxStore e), s\<lparr>px_node := n\<rparr>)
           | Inr (x, t) \<Rightarrow>
               (case fault of
                  Some e \<Rightarrow> (Inl (PxStore e), s\<lparr>px_node := n\<rparr>)
                | None \<Rightarrow> (Inr x, s\<lparr>px_tab := t, px_node := n\<rparr>))))"

definition px_now :: "'n phx_ops \<Rightarrow> 'n phx \<Rightarrow> int" where
  "px_now B s = po_clock B (px_node s)"

subsection \<open>The statements\<close>

text \<open>
  An invoice as the rest of the daemon sees it; \<open>backend_invoice_id\<close> is always the payment hash. The latest row of
  an external id is the last in rowid order.
\<close>

record phx_inv =
  iv_id :: string
  iv_ext :: string
  iv_hash :: string
  iv_bolt11 :: string
  iv_amount :: nat
  iv_expires :: int

definition invoice_of_row :: "phx_invoice \<Rightarrow> phx_inv" where
  "invoice_of_row r = \<lparr>iv_id = pv_id r, iv_ext = pv_ext r, iv_hash = pv_hash r, iv_bolt11 = pv_bolt11 r,
     iv_amount = as_u64 (pv_amount r), iv_expires = pv_expires r\<rparr>"

definition idx_get_invoice :: "string \<Rightarrow> phx_tables \<Rightarrow> phx_inv option" where
  "idx_get_invoice ext t = map_option invoice_of_row (List.find (\<lambda>r. pv_ext r = ext) (rev (px_invoices t)))"

definition idx_get_by_invoice_id :: "string \<Rightarrow> phx_tables \<Rightarrow> phx_invoice option" where
  "idx_get_by_invoice_id i t = List.find (\<lambda>r. pv_id r = i) (px_invoices t)"

definition row_of_invoice :: "phx_inv \<Rightarrow> phx_invoice" where
  "row_of_invoice v = \<lparr>pv_ext = iv_ext v, pv_id = iv_id v, pv_bolt11 = iv_bolt11 v, pv_hash = iv_hash v,
     pv_amount = as_i64 (iv_amount v), pv_expires = iv_expires v\<rparr>"

definition idx_upsert :: "phx_inv \<Rightarrow> unit px_tx" where
  "idx_upsert v t = Inr ((), t\<lparr>px_invoices :=
     (if idx_get_by_invoice_id (iv_id v) t = None then px_invoices t @ [row_of_invoice v]
      else update_where (\<lambda>r. pv_id r = iv_id v) (\<lambda>_. row_of_invoice v) (px_invoices t))\<rparr>)"

definition settlement_poll_grace :: int where "settlement_poll_grace = 25 * 60 * 60"
definition unbookable_settlement_alert_s :: int where "unbookable_settlement_alert_s = 15 * 60"

record refusal_timing =
  rt_first :: int
  rt_retires :: "int option"

definition idx_record_fee_credit_refusal :: "string \<Rightarrow> int \<Rightarrow> refusal_timing px_tx" where
  "idx_record_fee_credit_refusal i now t =
     (let q = (case map_of (px_refusals t) i of Some _ \<Rightarrow> px_refusals t | None \<Rightarrow> px_refusals t @ [(i, now)])
      in case map_of q i of
           None \<Rightarrow> Inl (Context ''reading the first local fee-credit refusal'' (Bail ''Query returned no rows''))
         | Some first \<Rightarrow>
             Inr (\<lparr>rt_first = first,
                   rt_retires = map_option (\<lambda>r. pv_expires r + settlement_poll_grace) (idx_get_by_invoice_id i t)\<rparr>,
                  t\<lparr>px_refusals := q\<rparr>))"

definition idx_pollable_invoices :: "int \<Rightarrow> phx_tables \<Rightarrow> phx_invoice list" where
  "idx_pollable_invoices floor t = filter (\<lambda>r. floor \<le> pv_expires r) (px_invoices t)"

definition status_prepared :: string where "status_prepared = ''PREPARED''"
definition status_succeeded :: string where "status_succeeded = ''SUCCEEDED''"
definition status_failed :: string where "status_failed = ''FAILED''"

definition pay_get :: "string \<Rightarrow> phx_tables \<Rightarrow> phx_pay option" where
  "pay_get key t = List.find (\<lambda>r. pp_key r = key) (px_pays t)"

definition pay_status_by_key :: "string \<Rightarrow> phx_tables \<Rightarrow> string option" where
  "pay_status_by_key key t = map_option pp_status (pay_get key t)"

definition pay_status_by_payment_id :: "string \<Rightarrow> phx_tables \<Rightarrow> string option" where
  "pay_status_by_payment_id pid t = map_option pp_status (List.find (\<lambda>r. pp_payment r = Some pid) (px_pays t))"

definition pay_other_key_for_hash :: "string \<Rightarrow> string \<Rightarrow> phx_tables \<Rightarrow> string option" where
  "pay_other_key_for_hash hash ours t = map_option pp_key
     (List.find (\<lambda>r. pp_hash r = hash \<and> pp_key r \<noteq> ours \<and> pp_status r \<noteq> status_failed) (px_pays t))"

definition not_succeeded :: "string \<Rightarrow> phx_pay \<Rightarrow> bool" where
  "not_succeeded key r \<longleftrightarrow> pp_key r = key \<and> pp_status r \<noteq> status_succeeded"

definition pay_upsert_prepared :: "string \<Rightarrow> string \<Rightarrow> string \<Rightarrow> string \<Rightarrow> unit px_tx" where
  "pay_upsert_prepared key b hash node t =
     (if pay_get key t = None
      then Inr ((), t\<lparr>px_pays := px_pays t @ [\<lparr>pp_key = key, pp_bolt11 = b, pp_hash = hash, pp_node = Some node,
             pp_payment = None, pp_status = status_prepared, pp_terminal = None\<rparr>]\<rparr>)
      else if count_where (not_succeeded key) (px_pays t) \<noteq> 1
      then Inl (Bail (''phoenixd pay key '' @ key @ '' is already SUCCEEDED; refusing to re-prepare it''))
      else Inr ((), t\<lparr>px_pays := update_where (not_succeeded key) (\<lambda>r. r\<lparr>pp_bolt11 := b, pp_hash := hash,
             pp_node := Some node, pp_status := status_prepared, pp_payment := None, pp_terminal := None\<rparr>) (px_pays t)\<rparr>))"

definition pay_mark_succeeded :: "string \<Rightarrow> string \<Rightarrow> string \<Rightarrow> int \<Rightarrow> unit px_tx" where
  "pay_mark_succeeded key hash pid at t =
     (let P = (\<lambda>r. pp_key r = key \<and> pp_hash r = hash)
      in if count_where P (px_pays t) \<noteq> 1
         then Inl (Bail (''phoenixd pay key '' @ key @ '' could not be marked SUCCEEDED for payment hash '' @ hash @
             ''; the persisted recovery witness was not changed''))
         else Inr ((), t\<lparr>px_pays := update_where P (\<lambda>r. r\<lparr>pp_status := status_succeeded, pp_payment := Some pid,
             pp_terminal := Some at\<rparr>) (px_pays t)\<rparr>))"

definition pay_upsert_failed :: "string \<Rightarrow> string \<Rightarrow> string \<Rightarrow> int \<Rightarrow> unit px_tx" where
  "pay_upsert_failed key b hash at t = Inr ((), t\<lparr>px_pays :=
     (if pay_get key t = None
      then px_pays t @ [\<lparr>pp_key = key, pp_bolt11 = b, pp_hash = hash, pp_node = None,
             pp_payment = None, pp_status = status_failed, pp_terminal = Some at\<rparr>]
      else update_where (not_succeeded key) (\<lambda>r. r\<lparr>pp_bolt11 := b, pp_hash := hash, pp_status := status_failed,
             pp_payment := None, pp_terminal := Some at\<rparr>) (px_pays t))\<rparr>)"

definition map_pay_status :: "string option \<Rightarrow> pay_status" where
  "map_pay_status v =
     (case v of
        None \<Rightarrow> PayUnknown
      | Some st \<Rightarrow> if st = status_succeeded then PaySucceeded
          else if st = status_failed then PayFailed
          else if st = status_prepared then PayPending else PayUnknown)"

definition epoch_secs_from_ms :: "int option \<Rightarrow> int option" where
  "epoch_secs_from_ms v = (case v of None \<Rightarrow> None | Some ms \<Rightarrow> if 0 < ms then Some (ms div 1000) else None)"

definition invoice_id_for :: "string \<Rightarrow> string" where
  "invoice_id_for hash = ''phoenixd-'' @ hash"

definition eq_ignore_case :: "string \<Rightarrow> string \<Rightarrow> bool" where
  "eq_ignore_case a b \<longleftrightarrow> map ascii_lower a = map ascii_lower b"

subsection \<open>The readiness seams\<close>

definition classify_node_info_failure :: "'n phx_ops \<Rightarrow> px_error \<Rightarrow> phoenixd_probe" where
  "classify_node_info_failure B e =
     (case http_error e of
        Some status \<Rightarrow> if status = 401 \<or> status = 403 then PhAuthRejected status else PhUnreachable (po_text B e)
      | None \<Rightarrow> PhUnreachable (po_text B e))"

definition operator_version :: "'n phx_ops \<Rightarrow> string \<Rightarrow> string" where
  "operator_version B v = unwrap_or (po_safe_version B v) redacted_phoenixd_version"

definition require_supported_version :: "'n phx_ops \<Rightarrow> fee_schedule \<Rightarrow> ('n, phx_node_info) px" where
  "require_supported_version B F = px_then (px_try (px_call (po_info B))) (\<lambda>r. case r of
       Inl e \<Rightarrow> px_fail (PxReadiness (classify_node_info_failure B e))
     | Inr info \<Rightarrow>
         if matches_running_version F (nd_version info) then px_return info
         else px_fail (PxReadiness (PhVersionMismatch (operator_version B (nd_version info)) (fe_version F))))"

definition phx_backend_ready :: "'n phx_ops \<Rightarrow> fee_schedule \<Rightarrow> ('n, bool) px" where
  "phx_backend_ready B F = px_then (require_supported_version B F) (\<lambda>_. px_return True)"

definition phx_refund_gateway_ready :: "'n phx_ops \<Rightarrow> fee_schedule \<Rightarrow> ('n, bool) px" where
  "phx_refund_gateway_ready B F = px_then (require_supported_version B F) (\<lambda>_. px_return True)"

definition phx_probe :: "'n phx_ops \<Rightarrow> fee_schedule \<Rightarrow> ('n, phoenixd_probe) px" where
  "phx_probe B F = px_then (px_try (px_call (po_info B))) (\<lambda>r. case r of
       Inl e \<Rightarrow> px_return (classify_node_info_failure B e)
     | Inr info \<Rightarrow>
         (let shown = operator_version B (nd_version info)
          in if \<not> matches_running_version F (nd_version info) then px_return (PhVersionMismatch shown (fe_version F))
             else px_then (px_try (px_call (po_balance B))) (\<lambda>b. case b of
                 Inl e \<Rightarrow> px_return (PhBalanceUnavailable (po_text B e))
               | Inr bal \<Rightarrow> px_return (PhReady shown (fe_version F) (pl_balance bal) (pl_fee_credit bal)))))"

definition available_balance_msat :: "'n phx_ops \<Rightarrow> ('n, nat option) px" where
  "available_balance_msat B = px_then (px_call (po_balance B)) (\<lambda>b. px_return (Some (sat_to_msat_u64 (pl_balance b))))"

end
