(* ===== verification/Phoenixd_Receive.thy ===== *)
theory Phoenixd_Receive
  imports Phoenixd Alerts
begin

text \<open>
  The receive side of \<open>daemon/src/phoenixd_backend.rs\<close>: issuing an invoice once per external id, the credit of a paid one
  with the fee-credit refusal and its alert, the lookup of a settlement, and the settlement poll behind \<open>watch\<close>.

  Between two calls of one operation other tasks may add receive rows; an operation reads its row once, so this is
  covered by the state it starts in.
\<close>

definition px_clock :: "'n phx_ops \<Rightarrow> ('n, int) px" where
  "px_clock B s = (Inr (px_now B s), s)"

subsection \<open>Issuing\<close>

definition select_reusable_incoming :: "phx_incoming list \<Rightarrow> phx_incoming option" where
  "select_reusable_incoming rs =
     (case List.find ic_paid rs of Some r \<Rightarrow> Some r | None \<Rightarrow> List.find (\<lambda>r. \<not> ic_expired r) rs)"

definition find_incoming_by_hash :: "phx_incoming list \<Rightarrow> string \<Rightarrow> phx_incoming option" where
  "find_incoming_by_hash rs hash = List.find (\<lambda>r. ic_hash r = hash) rs"

text \<open>The created invoice must agree with its own fields before anyone is billed with it.\<close>

definition create_checked :: "'n phx_ops \<Rightarrow> nat \<Rightarrow> string \<Rightarrow> nat \<Rightarrow> string \<Rightarrow> int \<Rightarrow> ('n, phx_inv) px" where
  "create_checked B amount memo expiry ext expires =
     px_then (px_context ''creating a phoenixd invoice'' (px_call (po_create B amount memo ext expiry))) (\<lambda>c.
       if ni_amount c \<noteq> amount then px_refuse (CreatedAmountDiffers (ni_amount c) amount)
       else (case po_bolt11 B (ni_bolt11 c) of
          None \<Rightarrow> px_fail (PxContext ''parsing the bolt11 phoenixd returned from createinvoice'' (PxRefused UnparseableBolt11))
        | Some d \<Rightarrow>
            if \<not> eq_ignore_case (de_hash d) (ni_hash c) then px_refuse (CreatedHashDiffers (ni_hash c) (de_hash d))
            else if de_msat d \<noteq> Some (saturating_mul_u64 amount 1000) then px_refuse (CreatedMsatDiffers (de_msat d) amount)
            else px_return \<lparr>iv_id = invoice_id_for (ni_hash c), iv_ext = ext, iv_hash = ni_hash c,
                   iv_bolt11 = ni_bolt11 c, iv_amount = ni_amount c, iv_expires = expires\<rparr>))"

definition reuse_or_create ::
  "'n phx_ops \<Rightarrow> phx_incoming list \<Rightarrow> nat \<Rightarrow> string \<Rightarrow> nat \<Rightarrow> string \<Rightarrow> int \<Rightarrow> ('n, phx_inv) px" where
  "reuse_or_create B existing amount memo expiry ext expires =
     (case select_reusable_incoming existing of
        Some r \<Rightarrow>
          if ic_requested r \<noteq> amount then px_refuse (HeldAmountDiffers ext (ic_requested r) amount)
          else px_return \<lparr>iv_id = invoice_id_for (ic_hash r), iv_ext = ext, iv_hash = ic_hash r,
                 iv_bolt11 = ic_bolt11 r, iv_amount = ic_requested r,
                 iv_expires = (case epoch_secs_from_ms (ic_expires_ms r) of
                    Some original \<Rightarrow> if ic_paid r then original else expires | None \<Rightarrow> expires)\<rparr>
      | None \<Rightarrow> create_checked B amount memo expiry ext expires)"

definition resolve_invoice ::
  "'n phx_ops \<Rightarrow> phx_inv option \<Rightarrow> nat \<Rightarrow> string \<Rightarrow> nat \<Rightarrow> string \<Rightarrow> ('n, phx_inv) px" where
  "resolve_invoice B cached amount memo expiry ext =
     px_then (px_context ''checking phoenixd for an existing invoice for this external id''
                (px_call (po_incoming B ext))) (\<lambda>existing.
     px_then (px_clock B) (\<lambda>now.
       let expires = now + int expiry;
           fresh = reuse_or_create B existing amount memo expiry ext expires
       in case cached of
            None \<Rightarrow> fresh
          | Some v \<Rightarrow>
              (case find_incoming_by_hash existing (iv_hash v) of
                 None \<Rightarrow> px_refuse (CachedInvoiceGone ext (iv_hash v))
               | Some r \<Rightarrow>
                   if ic_requested r \<noteq> amount then px_refuse (CachedAmountDiffers ext (ic_requested r) amount)
                   else if ic_paid r then px_return v
                   else if \<not> ic_expired r
                   then (if now < iv_expires v then px_return v else px_return (v\<lparr>iv_expires := expires\<rparr>))
                   else fresh)))"

text \<open>\<open>issue_invoice\<close>: the invoice, and the closure the caller commits beside its own row, under the lease.\<close>

definition phx_issue_invoice ::
  "'n phx_ops \<Rightarrow> nat \<Rightarrow> string \<Rightarrow> nat \<Rightarrow> string \<Rightarrow> ('n, phx_inv \<times> unit px_tx) px" where
  "phx_issue_invoice B amount memo expiry ext =
     px_then (px_read B (idx_get_invoice ext)) (\<lambda>cached.
     px_then (resolve_invoice B cached amount memo expiry ext) (\<lambda>v. px_return (v, idx_upsert v)))"

definition phx_create_invoice :: "nat \<Rightarrow> string \<Rightarrow> nat \<Rightarrow> string \<Rightarrow> ('n, phx_inv) px" where
  "phx_create_invoice amount memo expiry ext = px_refuse (NotAnEntryPoint ext)"

subsection \<open>The credit of a receipt\<close>

datatype credit_backing =
    FullyBacked
  | UnattributedButPayable nat
  | UnbackedAndUnpayable nat nat

definition credit_backing_of :: "nat \<Rightarrow> nat \<Rightarrow> nat \<Rightarrow> credit_backing" where
  "credit_backing_of received credit balance =
     (if credit = 0 then FullyBacked
      else if received \<le> credit \<and> balance < received then UnbackedAndUnpayable credit balance
      else UnattributedButPayable credit)"

definition spendable_credit_msat :: "'n phx_ops \<Rightarrow> string \<Rightarrow> phx_incoming \<Rightarrow> ('n, nat) px" where
  "spendable_credit_msat B i r =
     px_then (px_context (''reading the phoenixd balance to check invoice '' @ i @
                 '''s credit against the wallet's fee credit'') (px_call (po_balance B))) (\<lambda>b.
       case credit_backing_of (ic_received r) (pl_fee_credit b) (pl_balance b) of
         UnbackedAndUnpayable credit balance \<Rightarrow>
           px_fail (PxFeeCredit \<lparr>fc_invoice = i, fc_received = ic_received r, fc_credit = credit, fc_balance = balance\<rparr>)
       | _ \<Rightarrow> px_return (sat_to_msat_u64 (ic_received r)))"

definition fee_credit_detail :: "fee_credit_refusal \<Rightarrow> int \<Rightarrow> int \<Rightarrow> string" where
  "fee_credit_detail r first age =
     ''FEE-CREDIT REFUSAL: phoenixd invoice '' @ fc_invoice r @ '' is PAID and was first refused locally at unix time '' @
     int_str first @ '' ('' @ int_str age @ ''s ago; '' @ nat_str (fc_received r) @
     '' sat received), but lnrent cannot book it: the wallet has '' @ nat_str (fc_credit r) @
     '' sat of non-spendable LSP fee credit and only '' @ nat_str (fc_balance r) @
     '' sat spendable, so no receipt is provably refundable (ADR-0019). WALLET-level: this one alert covers EVERY receipt held back, not just the invoice named. REMEDY: give phoenixd SPENDABLE balance '' @
     em_dash @ '' '' @ nat_str (saturating_sub (fc_received r) (fc_balance r)) @
     '' sat more clears THIS one (the shortfall, not the full amount); more if others are held back. lnrent retries and books them automatically; no money is lost meanwhile, but the orders do not progress until you do. (Exception: an invoice that had already EXPIRED locally before the payment landed is only re-checked for a grace window after its expiry; past that lnrent cannot book it at all and there is no repair command '' @
     em_dash @ '' settle that buyer from phoenixd's own records.)''"

text \<open>
  \<open>alert_fee_credit_refusal\<close>: the first sighting is recorded even when the sink is off; the alert waits a quarter of an
  hour, unless the poll will have let go of the invoice by then, or there is no record to wait on.
\<close>

definition alert_fee_credit_refusal :: "'n phx_ops \<Rightarrow> fee_credit_refusal \<Rightarrow> int \<Rightarrow> 'n phx \<Rightarrow> 'n phx" where
  "alert_fee_credit_refusal B r now s =
     (case px_sink s of
        None \<Rightarrow> s
      | Some enabled \<Rightarrow>
          (case px_write B (idx_record_fee_credit_refusal (fc_invoice r) now) s of
             (timing, s1) \<Rightarrow>
               (let first = (case timing of Inr t \<Rightarrow> rt_first t | Inl _ \<Rightarrow> now);
                    age = now - first;
                    last_look = (case timing of
                        Inr t \<Rightarrow> (case rt_retires t of
                            Some at \<Rightarrow> at < now + unbookable_settlement_alert_s | None \<Rightarrow> True)
                      | Inl _ \<Rightarrow> True)
                in if \<not> enabled \<or> (age < unbookable_settlement_alert_s \<and> \<not> last_look) then s1
                   else s1\<lparr>px_alerts := px_alerts s1 @
                     [\<lparr>al_kind = SettlementUnbookable, al_subject = ''fee_credit'', al_detail = fee_credit_detail r first age\<rparr>]\<rparr>)))"

definition incoming_for_invoice :: "'n phx_ops \<Rightarrow> string \<Rightarrow> ('n, (phx_invoice \<times> phx_incoming list) option) px" where
  "incoming_for_invoice B i =
     px_then (px_read B (idx_get_by_invoice_id i)) (\<lambda>row. case row of
        None \<Rightarrow> px_return None
      | Some r \<Rightarrow> px_then (px_context ''looking up the phoenixd incoming payment for an lnrent invoice''
            (px_call (po_incoming B (pv_ext r)))) (\<lambda>records. px_return (Some (r, records))))"

definition credit_or_alert :: "'n phx_ops \<Rightarrow> string \<Rightarrow> phx_incoming \<Rightarrow> ('n, nat) px" where
  "credit_or_alert B i r s =
     (case spendable_credit_msat B i r s of
        (Inr msat, s') \<Rightarrow> (Inr msat, s')
      | (Inl e, s') \<Rightarrow>
          (Inl e, case fee_refusal e of None \<Rightarrow> s' | Some q \<Rightarrow> alert_fee_credit_refusal B q (px_now B s') s'))"

definition received_amount_msat :: "'n phx_ops \<Rightarrow> string \<Rightarrow> ('n, nat option) px" where
  "received_amount_msat B i =
     px_then (incoming_for_invoice B i) (\<lambda>found. case found of
        None \<Rightarrow> px_refuse (CorrelationMissing i)
      | Some (row, records) \<Rightarrow>
          (case find_incoming_by_hash records (pv_hash row) of
             None \<Rightarrow> px_refuse (NoPaidRecord i (pv_hash row))
           | Some r \<Rightarrow>
               if ic_paid r then px_then (credit_or_alert B i r) (\<lambda>msat. px_return (Some msat))
               else px_refuse (NoPaidRecord i (pv_hash row))))"

definition phx_lookup_settlement :: "'n phx_ops \<Rightarrow> string \<Rightarrow> ('n, payment_status \<times> int option) px" where
  "phx_lookup_settlement B i =
     px_then (incoming_for_invoice B i) (\<lambda>found. case found of
        None \<Rightarrow> px_refuse (CorrelationMissing i)
      | Some (row, records) \<Rightarrow>
          (case find_incoming_by_hash records (pv_hash row) of
             None \<Rightarrow> px_refuse (RecordGone i (pv_hash row))
           | Some r \<Rightarrow>
               if ic_paid r
               then (case epoch_secs_from_ms (ic_completed_ms r) of
                       None \<Rightarrow> px_refuse (PaidWithoutTime i)
                     | Some at \<Rightarrow> px_return (PsPaid, Some at))
               else px_then (px_clock B) (\<lambda>now.
                 px_return (if pv_expires row \<le> now then PsExpired else PsOpen, None))))"

definition phx_lookup :: "'n phx_ops \<Rightarrow> string \<Rightarrow> ('n, payment_status) px" where
  "phx_lookup B i = px_then (phx_lookup_settlement B i) (\<lambda>r. px_return (fst r))"

text \<open>The legacy import's tiebreaker.\<close>

datatype receive_state = Established | TerminalUnpaid | Absent

definition receive_state_of :: "'n phx_ops \<Rightarrow> string \<Rightarrow> string \<Rightarrow> ('n, receive_state) px" where
  "receive_state_of B ext hash =
     px_then (px_context ''asking phoenixd for the incoming records of a legacy invoice''
                (px_call (po_incoming B ext))) (\<lambda>records.
       px_return (case find_incoming_by_hash records hash of
           Some r \<Rightarrow> if ic_paid r \<or> \<not> ic_expired r then Established else TerminalUnpaid
         | None \<Rightarrow> Absent))"

subsection \<open>The settlement poll\<close>

datatype polled = Skipped | Retire | Emit settlement

definition poll_record :: "'n phx_ops \<Rightarrow> phx_invoice \<Rightarrow> phx_incoming \<Rightarrow> 'n phx \<Rightarrow> polled \<times> 'n phx" where
  "poll_record B row r s =
     (if \<not> ic_paid r then (if ic_expired r then Retire else Skipped, s)
      else (case epoch_secs_from_ms (ic_completed_ms r) of
         None \<Rightarrow> (Skipped, s)
       | Some at \<Rightarrow>
           (case credit_or_alert B (pv_id row) r s of
              (Inl _, s') \<Rightarrow> (Skipped, s')
            | (Inr msat, s') \<Rightarrow>
                (Emit \<lparr>st_invoice = pv_id row, st_ext = pv_ext row, st_amount = as_u64 (pv_amount row),
                       st_received = msat, st_settled = at\<rparr>, s'))))"

definition poll_row :: "'n phx_ops \<Rightarrow> phx_invoice \<Rightarrow> 'n phx \<Rightarrow> polled \<times> 'n phx" where
  "poll_row B row s =
     (case px_call (po_incoming B (pv_ext row)) s of
        (Inl _, s1) \<Rightarrow> (Skipped, s1)
      | (Inr records, s1) \<Rightarrow>
          (case find_incoming_by_hash records (pv_hash row) of
             None \<Rightarrow> (Skipped, s1)
           | Some r \<Rightarrow> poll_record B row r s1))"

fun poll_rows :: "'n phx_ops \<Rightarrow> phx_invoice list \<Rightarrow> string set \<Rightarrow> 'n phx \<Rightarrow> bool \<times> string set \<times> settlement list \<times> 'n phx" where
  "poll_rows B [] retired s = (True, retired, [], s)"
| "poll_rows B (row # rows) retired s =
     (if pv_id row \<in> retired then poll_rows B rows retired s
      else (case poll_row B row s of
         (Skipped, s1) \<Rightarrow> poll_rows B rows retired s1
       | (Retire, s1) \<Rightarrow> poll_rows B rows (insert (pv_id row) retired) s1
       | (Emit x, s1) \<Rightarrow>
           (case po_send B x (px_node s1) of
              (False, n) \<Rightarrow> (False, retired, [], s1\<lparr>px_node := n\<rparr>)
            | (True, n) \<Rightarrow>
                (case poll_rows B rows (insert (pv_id row) retired) (s1\<lparr>px_node := n\<rparr>) of
                   (ok, retired', sent, s') \<Rightarrow> (ok, retired', x # sent, s')))))"

definition poll_settlements_once :: "'n phx_ops \<Rightarrow> string set \<Rightarrow> 'n phx \<Rightarrow> bool \<times> string set \<times> settlement list \<times> 'n phx" where
  "poll_settlements_once B retired s =
     (case px_read B (idx_pollable_invoices (px_now B s - settlement_poll_grace)) s of
        (Inl _, s1) \<Rightarrow> (True, retired, [], s1)
      | (Inr rows, s1) \<Rightarrow> poll_rows B rows retired s1)"

text \<open>
  The task of \<open>watch\<close>: poll, then wait for the interval (\<open>True\<close>) or for the receiver to close, once per element. The rest
  of the daemon may act while it waits: \<open>idle\<close>.
\<close>

fun watch_loop :: "'n phx_ops \<Rightarrow> ('n phx \<Rightarrow> 'n phx) \<Rightarrow> bool list \<Rightarrow> string set \<Rightarrow> 'n phx \<Rightarrow> settlement list \<times> 'n phx" where
  "watch_loop B idle [] retired s = ([], s)"
| "watch_loop B idle (elapsed # ws) retired s =
     (case poll_settlements_once B retired s of
        (False, _, sent, s1) \<Rightarrow> (sent, s1)
      | (True, retired1, sent, s1) \<Rightarrow>
          (if elapsed then (case watch_loop B idle ws retired1 (idle s1) of (later, s2) \<Rightarrow> (sent @ later, s2))
           else (sent, s1)))"

subsection \<open>One invoice per external id\<close>

lemma px_then_Inr:
  assumes "px_then m f s = (Inr x, s')"
  obtains y s1 where "m s = (Inr y, s1)" "f y s1 = (Inr x, s')"
  using assms by (auto simp: px_then_def split: prod.splits sum.splits)

lemma px_call_Inr:
  assumes "px_call f s = (Inr x, s')"
  obtains n where "f (px_node s) = (Inr x, n)" "s' = s\<lparr>px_node := n\<rparr>"
  using assms by (auto simp: px_call_def split: prod.splits)

lemma px_context_Inr: "px_context c m s = (Inr x, s') \<Longrightarrow> m s = (Inr x, s')"
  by (cases "fst (m s)") (auto simp: px_context_def split: prod.splits)

lemma px_read_Inr:
  assumes "px_read B f s = (Inr x, s')"
  obtains n where "po_read B (px_node s) = (None, n)" "x = f (px_tab s)" "s' = s\<lparr>px_node := n\<rparr>"
  using assms by (auto simp: px_read_def split: prod.splits option.splits)

lemma px_return_Inr: "px_return x s = (Inr y, s') \<longleftrightarrow> y = x \<and> s' = s"
  by (auto simp: px_return_def)

lemma px_refuse_Inr [simp]: "px_refuse r s \<noteq> (Inr y, s')" "px_fail e s \<noteq> (Inr y, s')"
  by (simp_all add: px_refuse_def px_fail_def)

lemmas px_elims = px_then_Inr px_call_Inr px_read_Inr

lemma px_clock_Inr: "px_clock B s = (Inr now, s') \<longleftrightarrow> now = px_now B s \<and> s' = s"
  by (auto simp: px_clock_def)

lemma select_reusable_sound:
  "select_reusable_incoming rs = Some r \<Longrightarrow> r \<in> set rs \<and> (ic_paid r \<or> \<not> ic_expired r)"
  by (auto simp: select_reusable_incoming_def dest!: find_Some_mem split: option.splits)

lemma select_reusable_none:
  "select_reusable_incoming rs = None \<Longrightarrow> r \<in> set rs \<Longrightarrow> \<not> ic_paid r \<and> ic_expired r"
  by (auto simp: select_reusable_incoming_def find_None_all split: option.splits)

lemma find_incoming_sound: "find_incoming_by_hash rs h = Some r \<Longrightarrow> r \<in> set rs \<and> ic_hash r = h"
  unfolding find_incoming_by_hash_def by (rule find_Some_mem)

text \<open>The invoice is one of the node's that money may still move through, or all of those are dead and it is new.\<close>

definition held_by_node :: "phx_incoming list \<Rightarrow> nat \<Rightarrow> phx_inv \<Rightarrow> bool" where
  "held_by_node rs amount v \<longleftrightarrow>
     (\<exists>r\<in>set rs. ic_hash r = iv_hash v \<and> ic_requested r = amount \<and> (ic_paid r \<or> \<not> ic_expired r))"

definition all_dead :: "phx_incoming list \<Rightarrow> bool" where
  "all_dead rs \<longleftrightarrow> (\<forall>r\<in>set rs. \<not> ic_paid r \<and> ic_expired r)"

definition bills_exactly :: "'n phx_ops \<Rightarrow> nat \<Rightarrow> phx_inv \<Rightarrow> bool" where
  "bills_exactly B amount v \<longleftrightarrow> iv_amount v = amount \<and>
     (\<exists>d. po_bolt11 B (iv_bolt11 v) = Some d \<and> eq_ignore_case (de_hash d) (iv_hash v) \<and>
          de_msat d = Some (saturating_mul_u64 amount 1000))"

lemma create_checked_bills:
  assumes "create_checked B amount memo expiry ext expires s = (Inr v, s')"
  shows "bills_exactly B amount v"
  using assms unfolding create_checked_def
  by (elim px_then_Inr)
     (auto simp: px_return_Inr bills_exactly_def split: if_splits option.splits)

lemma reuse_or_create_safe:
  assumes "reuse_or_create B rs amount memo expiry ext expires s = (Inr v, s')"
  shows "held_by_node rs amount v \<or> all_dead rs \<and> bills_exactly B amount v"
proof (cases "select_reusable_incoming rs")
  case None
  with assms select_reusable_none [OF None] show ?thesis
    by (auto simp: reuse_or_create_def all_dead_def dest: create_checked_bills)
next
  case (Some r)
  with assms select_reusable_sound [OF Some] show ?thesis
    by (auto simp: reuse_or_create_def held_by_node_def px_return_Inr split: if_splits)
qed

text \<open>
  C27. No second invoice is minted while money may move through the first: the invoice handed out is one the node
  itself holds for this external id, at the amount asked and paid or still payable; or else every one it holds is expired
  and unpaid, and the new one's encoded payment hash and amount are exactly those that will be recorded and billed.
\<close>

theorem issue_never_second_invoice:
  assumes "phx_issue_invoice B amount memo expiry ext s = (Inr (v, persist), s')"
  shows "\<exists>n0 rs n1. po_read B (px_node s) = (None, n0) \<and> po_incoming B ext n0 = (Inr rs, n1) \<and>
    (held_by_node rs amount v \<or> all_dead rs \<and> bills_exactly B amount v)"
proof -
  let ?c = "idx_get_invoice ext (px_tab s)"
  from assms obtain n0 where n0: "po_read B (px_node s) = (None, n0)"
    and res: "resolve_invoice B ?c amount memo expiry ext (s\<lparr>px_node := n0\<rparr>) = (Inr v, s')"
    unfolding phx_issue_invoice_def by (auto elim!: px_elims simp: px_return_Inr)
  from res obtain rs n1 where rs: "po_incoming B ext n0 = (Inr rs, n1)"
    and cont: "(let expires = px_now B (s\<lparr>px_node := n1\<rparr>) + int expiry;
           fresh = reuse_or_create B rs amount memo expiry ext expires
       in case ?c of None \<Rightarrow> fresh
          | Some v \<Rightarrow>
              (case find_incoming_by_hash rs (iv_hash v) of
                 None \<Rightarrow> px_refuse (CachedInvoiceGone ext (iv_hash v))
               | Some r \<Rightarrow>
                   if ic_requested r \<noteq> amount then px_refuse (CachedAmountDiffers ext (ic_requested r) amount)
                   else if ic_paid r then px_return v
                   else if \<not> ic_expired r
                   then (if px_now B (s\<lparr>px_node := n1\<rparr>) < iv_expires v then px_return v else px_return (v\<lparr>iv_expires := expires\<rparr>))
                   else fresh)) (s\<lparr>px_node := n1\<rparr>) = (Inr v, s')"
    unfolding resolve_invoice_def by (auto elim!: px_elims dest!: px_context_Inr simp: px_clock_Inr)
  have "held_by_node rs amount v \<or> all_dead rs \<and> bills_exactly B amount v"
  proof (cases ?c)
    case None
    with cont show ?thesis by (auto simp: Let_def dest: reuse_or_create_safe)
  next
    case (Some w)
    then obtain r where r: "find_incoming_by_hash rs (iv_hash w) = Some r" "ic_requested r = amount"
      using cont by (auto simp: Let_def split: option.splits if_splits)
    note f = find_incoming_sound [OF r(1)]
    show ?thesis
    proof (cases "ic_paid r \<or> \<not> ic_expired r")
      case True
      with cont r Some have "iv_hash v = iv_hash w" by (auto simp: Let_def px_return_Inr split: if_splits)
      with True f r(2) show ?thesis unfolding held_by_node_def by metis
    next
      case False
      with cont r Some show ?thesis by (auto simp: Let_def dest: reuse_or_create_safe)
    qed
  qed
  with n0 rs show ?thesis by blast
qed

subsection \<open>What is booked is backed\<close>

text \<open>The wallet's states a poll can pass through: what its own calls, in any order, make of the first.\<close>

inductive node_calls :: "'n phx_ops \<Rightarrow> 'n \<Rightarrow> 'n \<Rightarrow> bool" for B n0 where
  calls_none: "node_calls B n0 n0"
| calls_read: "node_calls B n0 n \<Longrightarrow> po_read B n = (e, n') \<Longrightarrow> node_calls B n0 n'"
| calls_incoming: "node_calls B n0 n \<Longrightarrow> po_incoming B ext n = (x, n') \<Longrightarrow> node_calls B n0 n'"
| calls_balance: "node_calls B n0 n \<Longrightarrow> po_balance B n = (y, n') \<Longrightarrow> node_calls B n0 n'"
| calls_commit: "node_calls B n0 n \<Longrightarrow> po_commit B n = (f, n') \<Longrightarrow> node_calls B n0 n'"
| calls_send: "node_calls B n0 n \<Longrightarrow> po_send B q n = (sent, n') \<Longrightarrow> node_calls B n0 n'"

lemma node_calls_trans: "node_calls B b c \<Longrightarrow> node_calls B a b \<Longrightarrow> node_calls B a c"
  by (induction rule: node_calls.induct) (blast intro: node_calls.intros)+

text \<open>
  What a settlement rests on: an answer of the node for the row's external id that holds a paid record under the row's hash,
  completed at the settlement's time and for its amount, and the next answer of the wallet's balance, which covers the amount unless the fee credit cannot
  account for it.
\<close>

definition receipt_backed :: "'n phx_ops \<Rightarrow> 'n \<Rightarrow> phx_invoice \<Rightarrow> settlement \<Rightarrow> bool" where
  "receipt_backed B n0 row x \<longleftrightarrow>
     (\<exists>n rs n' bal m r. node_calls B n0 n \<and> po_incoming B (pv_ext row) n = (Inr rs, n') \<and> po_balance B n' = (Inr bal, m) \<and>
        r \<in> set rs \<and> ic_hash r = pv_hash row \<and> ic_paid r \<and> epoch_secs_from_ms (ic_completed_ms r) = Some (st_settled x) \<and>
        st_received x = sat_to_msat_u64 (ic_received r) \<and>
        (ic_received r \<le> pl_balance bal \<or> pl_fee_credit bal < ic_received r))"

definition books :: "phx_invoice \<Rightarrow> settlement \<Rightarrow> bool" where
  "books row x \<longleftrightarrow> st_invoice x = pv_id row \<and> st_ext x = pv_ext row \<and> st_amount x = as_u64 (pv_amount row)"

lemma spendable_credit_Inr:
  assumes "spendable_credit_msat B i r s = (Inr msat, s')"
  obtains bal m where "po_balance B (px_node s) = (Inr bal, m)" "msat = sat_to_msat_u64 (ic_received r)"
    "ic_received r \<le> pl_balance bal \<or> pl_fee_credit bal < ic_received r"
proof -
  from assms obtain bal m where b: "po_balance B (px_node s) = (Inr bal, m)" "msat = sat_to_msat_u64 (ic_received r)"
    "pl_fee_credit bal = 0 \<or> pl_fee_credit bal < ic_received r \<or> ic_received r \<le> pl_balance bal"
    unfolding spendable_credit_msat_def
    by (auto elim!: px_elims dest!: px_context_Inr simp: px_return_Inr credit_backing_of_def split: if_splits)
  then show thesis by (cases "ic_received r = 0") (auto intro: that)
qed

lemma credit_or_alert_Inr:
  "credit_or_alert B i r s = (Inr msat, s') \<Longrightarrow> spendable_credit_msat B i r s = (Inr msat, s')"
  by (auto simp: credit_or_alert_def split: prod.splits sum.splits)

text \<open>The wallet's states through a poll.\<close>

lemma spendable_calls:
  assumes "spendable_credit_msat B i r s = (x, s')"
  shows "node_calls B (px_node s) (px_node s')"
proof -
  obtain y n where y: "po_balance B (px_node s) = (y, n)" by (metis surj_pair)
  have "px_node s' = n"
    using assms y
    by (auto simp: spendable_credit_msat_def px_then_def px_context_def px_call_def px_fail_def px_return_def
        split: sum.splits prod.splits credit_backing.splits)
  with calls_balance [OF calls_none y] show ?thesis by simp
qed

lemma px_write_calls: "node_calls B (px_node s) (px_node (snd (px_write B f s)))"
proof -
  obtain e n where e: "po_commit B (px_node s) = (e, n)" by (metis surj_pair)
  then have "px_node (snd (px_write B f s)) = n"
    by (simp add: px_write_def split: sum.splits prod.splits option.splits)
  with calls_commit [OF calls_none e] show ?thesis by simp
qed

lemma alert_calls: "node_calls B (px_node s) (px_node (alert_fee_credit_refusal B q now s))"
proof (cases "px_sink s")
  case None
  then show ?thesis by (simp add: alert_fee_credit_refusal_def calls_none)
next
  case (Some enabled)
  let ?w = "px_write B (idx_record_fee_credit_refusal (fc_invoice q) now) s"
  have "px_node (alert_fee_credit_refusal B q now s) = px_node (snd ?w)"
    by (simp add: alert_fee_credit_refusal_def Some Let_def split: prod.split)
  with px_write_calls show ?thesis by metis
qed

lemma credit_calls:
  assumes "credit_or_alert B i r s = (x, s')" shows "node_calls B (px_node s) (px_node s')"
proof -
  obtain y s1 where y: "spendable_credit_msat B i r s = (y, s1)" by (metis surj_pair)
  from assms y have "s' = s1 \<or> (\<exists>q now. s' = alert_fee_credit_refusal B q now s1)"
    by (auto simp: credit_or_alert_def split: sum.splits option.splits)
  with alert_calls calls_none have "node_calls B (px_node s1) (px_node s')" by metis
  then show ?thesis by (rule node_calls_trans) (rule spendable_calls [OF y])
qed

lemma poll_record_calls: "poll_record B row r s = (p, s') \<Longrightarrow> node_calls B (px_node s) (px_node s')"
  by (auto simp: poll_record_def calls_none dest: credit_calls split: if_splits option.splits prod.splits sum.splits)

lemma poll_row_calls:
  assumes "poll_row B row s = (p, s')" shows "node_calls B (px_node s) (px_node s')"
proof -
  obtain x n where x: "po_incoming B (pv_ext row) (px_node s) = (x, n)" by (metis surj_pair)
  note first = calls_incoming [OF calls_none x]
  from assms x have "px_node s' = n \<or> (\<exists>r. poll_record B row r (s\<lparr>px_node := n\<rparr>) = (p, s'))"
    by (auto simp: poll_row_def px_call_def split: sum.splits option.splits)
  then have "node_calls B n (px_node s')" using poll_record_calls calls_none by fastforce
  then show ?thesis by (rule node_calls_trans) (rule first)
qed

lemma poll_row_emit:
  assumes "poll_row B row s = (Emit x, s')"
  shows "books row x \<and> receipt_backed B (px_node s) row x"
proof -
  from assms obtain rs n r where rs: "po_incoming B (pv_ext row) (px_node s) = (Inr rs, n)"
    and r: "find_incoming_by_hash rs (pv_hash row) = Some r"
    and e: "poll_record B row r (s\<lparr>px_node := n\<rparr>) = (Emit x, s')"
    by (auto simp: poll_row_def px_call_def split: prod.splits sum.splits option.splits)
  from e obtain msat where m: "ic_paid r" "credit_or_alert B (pv_id row) r (s\<lparr>px_node := n\<rparr>) = (Inr msat, s')"
    "books row x" "st_received x = msat" "epoch_secs_from_ms (ic_completed_ms r) = Some (st_settled x)"
    by (auto simp: poll_record_def books_def split: if_splits option.splits prod.splits sum.splits)
  from credit_or_alert_Inr [OF m(2)] obtain bal k where "po_balance B n = (Inr bal, k)"
    "msat = sat_to_msat_u64 (ic_received r)" "ic_received r \<le> pl_balance bal \<or> pl_fee_credit bal < ic_received r"
    by (rule spendable_credit_Inr) simp
  with m rs find_incoming_sound [OF r] have "receipt_backed B (px_node s) row x"
    unfolding receipt_backed_def
    by (intro exI [of _ "px_node s"] exI [of _ rs] exI [of _ n] exI [of _ bal] exI [of _ k] exI [of _ r]) (simp add: calls_none)
  with m(3) show ?thesis by blast
qed

lemma receipt_backed_from:
  assumes "receipt_backed B n row x" "node_calls B n0 n" shows "receipt_backed B n0 row x"
  using assms(1) unfolding receipt_backed_def by (elim ex_forward conjE) (simp add: node_calls_trans [OF _ assms(2)])

definition emission :: "(settlement \<Rightarrow> bool) \<Rightarrow> string set \<Rightarrow> settlement list \<Rightarrow> bool" where
  "emission ok retired sent \<longleftrightarrow> distinct (map st_invoice sent) \<and> (\<forall>x\<in>set sent. st_invoice x \<notin> retired \<and> ok x)"

lemma emission_Nil [simp]: "emission ok R []"
  by (simp add: emission_def)

lemma emission_mono: "emission ok R sent \<Longrightarrow> Q \<subseteq> R \<Longrightarrow> emission ok Q sent"
  by (auto simp: emission_def)

lemma emission_weaken: "emission ok R sent \<Longrightarrow> (\<And>x. ok x \<Longrightarrow> ok' x) \<Longrightarrow> emission ok' R sent"
  by (auto simp: emission_def)

lemma emission_Cons:
  "emission ok (insert i R) sent \<Longrightarrow> st_invoice x = i \<Longrightarrow> ok x \<Longrightarrow> i \<notin> R \<Longrightarrow> emission ok R (x # sent)"
  by (auto simp: emission_def)

lemma emission_append:
  "emission ok R sent \<Longrightarrow> emission ok Q later \<Longrightarrow> R \<union> st_invoice ` set sent \<subseteq> Q \<Longrightarrow> emission ok R (sent @ later)"
  by (auto simp: emission_def image_subset_iff)

definition polled_row :: "'n phx_ops \<Rightarrow> 'n \<Rightarrow> phx_invoice set \<Rightarrow> settlement \<Rightarrow> bool" where
  "polled_row B n0 rows x \<longleftrightarrow> (\<exists>row\<in>rows. books row x \<and> receipt_backed B n0 row x)"

lemma poll_rows_emits:
  "poll_rows B rows retired s = (ok, retired', sent, s') \<Longrightarrow> set rows \<subseteq> T \<Longrightarrow> node_calls B n0 (px_node s) \<Longrightarrow>
     emission (polled_row B n0 T) retired sent \<and> (ok \<longrightarrow> retired \<union> st_invoice ` set sent \<subseteq> retired')"
proof (induction B rows retired s arbitrary: ok retired' sent s' rule: poll_rows.induct)
  case (2 B row rows retired s)
  note fresh = 2(6,7)
  show ?case
  proof (cases "pv_id row \<in> retired")
    case True
    with 2(1) [OF True] 2(5-7) show ?thesis by simp
  next
    case False
    obtain p s1 where p: "poll_row B row s = (p, s1)" by (metis surj_pair)
    have n1: "node_calls B n0 (px_node s1)" by (rule node_calls_trans [OF poll_row_calls [OF p] fresh(2)])
    show ?thesis
    proof (cases p)
      case Skipped
      with 2(2) [OF False p [symmetric]] 2(5,6) p False n1 show ?thesis by simp
    next
      case Retire
      with 2(5) p False have run: "poll_rows B rows (insert (pv_id row) retired) s1 = (ok, retired', sent, s')" by simp
      from 2(3) [OF False p [symmetric] Retire run _ n1] fresh(1) show ?thesis by (auto intro: emission_mono)
    next
      case (Emit x)
      obtain b n where b: "po_send B x (px_node s1) = (b, n)" by (metis surj_pair)
      have n2: "node_calls B n0 n" by (rule calls_send [OF n1 b])
      show ?thesis
      proof (cases b)
        case False
        with 2(5) p Emit b \<open>pv_id row \<notin> retired\<close> show ?thesis by auto
      next
        case True
        obtain ok2 ret2 sent2 s2 where rest:
          "poll_rows B rows (insert (pv_id row) retired) (s1\<lparr>px_node := n\<rparr>) = (ok2, ret2, sent2, s2)" by (metis surj_pair)
        with 2(5) p Emit b True \<open>pv_id row \<notin> retired\<close> have eq: "ok = ok2" "retired' = ret2" "sent = x # sent2" by auto
        from 2(4) [OF \<open>pv_id row \<notin> retired\<close> p [symmetric] Emit b [symmetric] _ rest] True fresh(1) n2
        have ih: "emission (polled_row B n0 T) (insert (pv_id row) retired) sent2"
          "ok2 \<longrightarrow> insert (pv_id row) retired \<union> st_invoice ` set sent2 \<subseteq> ret2" by auto
        from poll_row_emit [OF p [unfolded Emit]] receipt_backed_from [OF _ fresh(2)] fresh(1)
        have x: "st_invoice x = pv_id row" "polled_row B n0 T x" by (auto simp: polled_row_def books_def)
        from emission_Cons [OF ih(1) x \<open>pv_id row \<notin> retired\<close>] ih(2) x(1) show ?thesis unfolding eq by auto
      qed
    qed
  qed
qed simp

abbreviation pollable :: "'n phx_ops \<Rightarrow> 'n phx \<Rightarrow> phx_invoice set" where
  "pollable B s \<equiv> set (idx_pollable_invoices (px_now B s - settlement_poll_grace) (px_tab s))"

lemma poll_once_emits:
  assumes "poll_settlements_once B retired s = (ok, retired', sent, s')"
  shows "emission (polled_row B (px_node s) (pollable B s)) retired sent \<and> (ok \<longrightarrow> retired \<union> st_invoice ` set sent \<subseteq> retired')"
proof (cases "px_read B (idx_pollable_invoices (px_now B s - settlement_poll_grace)) s")
  case (Pair r s1)
  show ?thesis
  proof (cases r)
    case (Inl e)
    with assms Pair show ?thesis by (simp add: poll_settlements_once_def)
  next
    case (Inr rows)
    with Pair have read: "px_read B (idx_pollable_invoices (px_now B s - settlement_poll_grace)) s = (Inr rows, s1)" by simp
    from px_read_Inr [OF this] obtain n where n: "po_read B (px_node s) = (None, n)" "s1 = s\<lparr>px_node := n\<rparr>"
      and rows: "set rows = pollable B s" by auto
    from assms read have "poll_rows B rows retired s1 = (ok, retired', sent, s')" by (simp add: poll_settlements_once_def)
    from poll_rows_emits [OF this, of "pollable B s" "px_node s"] rows calls_read [OF calls_none n(1)] n(2) show ?thesis by simp
  qed
qed

text \<open>The states in which the watch task polls: the first, and after each complete poll and the wait that follows it.\<close>

inductive polled_at :: "'n phx_ops \<Rightarrow> ('n phx \<Rightarrow> 'n phx) \<Rightarrow> 'n phx \<Rightarrow> string set \<Rightarrow> 'n phx \<Rightarrow> bool" for B idle s where
  polled_first: "polled_at B idle s {} s"
| polled_next: "polled_at B idle s retired u \<Longrightarrow> poll_settlements_once B retired u = (True, retired', sent, u') \<Longrightarrow>
    polled_at B idle s retired' (idle u')"

lemma watch_emits:
  "watch_loop B idle ws retired u = (sent, s') \<Longrightarrow> polled_at B idle s retired u \<Longrightarrow>
    emission (\<lambda>x. \<exists>R v. polled_at B idle s R v \<and> polled_row B (px_node v) (pollable B v) x) retired sent"
proof (induction B idle ws retired u arbitrary: sent s' rule: watch_loop.induct)
  case (2 B idle elapsed ws retired u)
  obtain ok ret1 sent1 s1 where once: "poll_settlements_once B retired u = (ok, ret1, sent1, s1)" by (metis surj_pair)
  let ?ok = "\<lambda>x. \<exists>R v. polled_at B idle s R v \<and> polled_row B (px_node v) (pollable B v) x"
  from poll_once_emits [OF once] 2(3) have p: "emission ?ok retired sent1" "ok \<longrightarrow> retired \<union> st_invoice ` set sent1 \<subseteq> ret1"
    by (auto elim!: emission_weaken)
  show ?case
  proof (cases "ok \<and> elapsed")
    case False
    with 2(2) once p show ?thesis by (auto split: bool.splits)
  next
    case True
    then have t: "ok = True" "elapsed" by simp_all
    obtain later s2 where rest: "watch_loop B idle ws ret1 (idle s1) = (later, s2)" by (metis surj_pair)
    with 2(2) once t have sent: "sent = sent1 @ later" by simp
    have "polled_at B idle s ret1 (idle s1)" using polled_next [OF 2(3)] once t(1) by blast
    from 2(1) [OF once [symmetric] _ refl refl t(2) rest this] t(1) have "emission ?ok ret1 later" by simp
    with p t(1) show ?thesis unfolding sent by (blast intro: emission_append)
  qed
qed simp

text \<open>
  C28. The watch task books no receipt the wallet does not back, and hands each settlement over once. For every sequence of
  polls, with anything happening between them, every settlement sent names a row that one of the polls found in the index, with its
  external id and face value, and rests on two consecutive answers of the wallet during that poll: the records of that external id,
  one of which is paid under the row's own payment hash, at the settlement's time and for exactly the received amount booked; and
  the balance, whose spendable part covers that amount unless the fee credit is too small to account for it. No invoice is sent
  twice in the life of the task.
\<close>

theorem watch_books_only_backed_receipts:
  assumes "watch_loop B idle ws {} s = (sent, s')"
  shows "distinct (map st_invoice sent) \<and>
    (\<forall>x\<in>set sent. \<exists>R u. polled_at B idle s R u \<and>
       (\<exists>row\<in>set (idx_pollable_invoices (px_now B u - settlement_poll_grace) (px_tab u)).
          st_invoice x = pv_id row \<and> st_ext x = pv_ext row \<and> st_amount x = as_u64 (pv_amount row) \<and>
          (\<exists>n rs n' bal m r. node_calls B (px_node u) n \<and> po_incoming B (pv_ext row) n = (Inr rs, n') \<and> po_balance B n' = (Inr bal, m) \<and>
             r \<in> set rs \<and> ic_hash r = pv_hash row \<and> ic_paid r \<and> epoch_secs_from_ms (ic_completed_ms r) = Some (st_settled x) \<and>
             st_received x = sat_to_msat_u64 (ic_received r) \<and>
             (ic_received r \<le> pl_balance bal \<or> pl_fee_credit bal < ic_received r))))"
  using watch_emits [OF assms polled_first]
  unfolding emission_def polled_row_def books_def receipt_backed_def by blast

subsection \<open>A node with one paid invoice\<close>

definition paid_record :: phx_incoming where
  "paid_record = \<lparr>ic_hash = ''h'', ic_bolt11 = ''b'', ic_paid = True, ic_expired = False, ic_requested = 7,
     ic_received = 5, ic_completed_ms = Some 9000, ic_expires_ms = Some 99000\<rparr>"

definition paid_node :: "unit phx_ops" where
  "paid_node = \<lparr>po_create = \<lambda>a d e x n. (Inl (PxOps []), n), po_incoming = \<lambda>e n. (Inr [paid_record], n),
     po_pay = \<lambda>b n. (Inl (PxOps []), n), po_outgoing = \<lambda>h n. (Inr None, n),
     po_balance = \<lambda>n. (Inr \<lparr>pl_balance = 10, pl_fee_credit = 3\<rparr>, n), po_info = \<lambda>n. (Inl (PxOps []), n),
     po_safe_version = \<lambda>_. None, po_bolt11 = \<lambda>_. None, po_clock = \<lambda>_. 9, po_read = \<lambda>n. (None, n),
     po_commit = \<lambda>n. (None, n), po_send = \<lambda>x n. (True, n), po_text = \<lambda>_. []\<rparr>"

definition indexed :: "unit phx" where
  "indexed = \<lparr>px_tab = \<lparr>px_invoices = [\<lparr>pv_ext = ''x'', pv_id = ''phoenixd-h'', pv_bolt11 = ''b'', pv_hash = ''h'',
       pv_amount = 7, pv_expires = 99\<rparr>], px_refusals = [], px_pays = []\<rparr>,
     px_sink = None, px_alerts = [], px_node = ()\<rparr>"

lemmas paid_node_defs = paid_node_def paid_record_def indexed_def

lemma paid_node_issue:
  "phx_issue_invoice paid_node 7 [] 60 ''x'' indexed
     = (Inr (invoice_of_row (hd (px_invoices (px_tab indexed))),
             idx_upsert (invoice_of_row (hd (px_invoices (px_tab indexed))))), indexed)"
  by (simp add: phx_issue_invoice_def px_then_def px_read_def idx_get_invoice_def resolve_invoice_def px_context_def
      px_call_def px_clock_def Let_def find_incoming_by_hash_def px_return_def invoice_of_row_def paid_node_defs)

theorem issue_never_second_invoice_witness:
  "\<exists>v persist. phx_issue_invoice paid_node 7 [] 60 ''x'' indexed = (Inr (v, persist), indexed) \<and>
     (\<exists>rs. held_by_node rs 7 v \<or> all_dead rs \<and> bills_exactly paid_node 7 v)"
  using issue_never_second_invoice [OF paid_node_issue] paid_node_issue by blast

lemma paid_node_watch:
  "watch_loop paid_node id [True, False] {} indexed
     = ([\<lparr>st_invoice = ''phoenixd-h'', st_ext = ''x'', st_amount = 7, st_received = 5000, st_settled = 9\<rparr>], indexed)"
  by (simp add: poll_settlements_once_def px_read_def idx_pollable_invoices_def poll_row_def
      px_call_def find_incoming_by_hash_def poll_record_def epoch_secs_from_ms_def credit_or_alert_def
      spendable_credit_msat_def px_then_def px_context_def credit_backing_of_def px_return_def sat_to_msat_u64_def
      saturating_mul_u64_def px_now_def settlement_poll_grace_def paid_node_defs)

theorem watch_books_only_backed_receipts_witness:
  "\<exists>R u. polled_at paid_node id indexed R u \<and>
     (\<exists>row\<in>set (idx_pollable_invoices (px_now paid_node u - settlement_poll_grace) (px_tab u)). ''phoenixd-h'' = pv_id row)"
  using watch_books_only_backed_receipts [OF paid_node_watch] by auto

end
