(* ===== verification/Phoenixd_Pay.thy ===== *)
theory Phoenixd_Pay
  imports Phoenixd_Receive Double_Pay Sweep
begin

text \<open>
  The pay side of \<open>daemon/src/phoenixd_backend.rs\<close>: the witness row a payment is prepared with, the recovery of an attempt
  whose outcome is unknown, the preflight of a new one, and the payment itself; and the backend as the refunder and the
  sweeper see it (\<open>phoenixd_backend\<close>, \<open>phoenixd_sweep\<close>).

  The pay lock makes each of these operations one step on the pay table: \<open>prepare_pay\<close>'s lease is held until its caller's
  transaction ends, and \<open>pay_inner\<close> runs under the same lock.
\<close>

subsection \<open>Preparing\<close>

definition parse_dest :: "'n phx_ops \<Rightarrow> string \<Rightarrow> ('n, parsed_dest) px" where
  "parse_dest B b =
     (case po_bolt11 B b of
        None \<Rightarrow> px_fail (PxContext ''parsing the phoenixd refund destination bolt11'' (PxRefused UnparseableBolt11))
      | Some d \<Rightarrow> px_return d)"

text \<open>\<open>Prepared::persist\<close>; \<open>Prepared::none()\<close> writes nothing.\<close>

definition prepare_new :: "'n phx_ops \<Rightarrow> fee_schedule \<Rightarrow> string \<Rightarrow> string \<Rightarrow> ('n, unit px_tx) px" where
  "prepare_new B F key b =
     px_then (parse_dest B b) (\<lambda>d.
     px_then (px_read B (pay_other_key_for_hash (de_hash d) key)) (\<lambda>other. case other of
         Some _ \<Rightarrow> px_then (px_clock B) (\<lambda>now. px_return (pay_upsert_failed key b (de_hash d) now))
       | None \<Rightarrow> px_then (require_supported_version B F) (\<lambda>node.
             px_return (pay_upsert_prepared key b (de_hash d) (nd_id node)))))"

definition prepare_pay :: "'n phx_ops \<Rightarrow> fee_schedule \<Rightarrow> string \<Rightarrow> string \<Rightarrow> ('n, unit px_tx) px" where
  "prepare_pay B F key b =
     px_then (px_read B (pay_get key)) (\<lambda>row. case row of
         Some r \<Rightarrow> if pp_status r \<noteq> status_failed then px_return (\<lambda>t. Inr ((), t)) else prepare_new B F key b
       | None \<Rightarrow> prepare_new B F key b)"

subsection \<open>Paying\<close>

datatype pay_cap = NoCap | Gross nat | Outlay nat

fun ceiling_msat :: "pay_cap \<Rightarrow> nat option" where
  "ceiling_msat NoCap = None"
| "ceiling_msat (Gross gross) = Some (sat_to_msat gross)"
| "ceiling_msat (Outlay msat) = Some msat"

text \<open>\<open>refuse\<close>: the terminal row of a refusal that never sent anything, and the refusal itself.\<close>

definition refuse_pay :: "'n phx_ops \<Rightarrow> string \<Rightarrow> string \<Rightarrow> string \<Rightarrow> px_refusal \<Rightarrow> ('n, string) px" where
  "refuse_pay B key b hash why =
     px_then (px_clock B) (\<lambda>now.
     px_then (px_write B (pay_upsert_failed key b hash now)) (\<lambda>_. px_refuse why))"

definition mark_succeeded :: "'n phx_ops \<Rightarrow> string \<Rightarrow> string \<Rightarrow> string \<Rightarrow> ('n, unit) px" where
  "mark_succeeded B key hash pid =
     px_then (px_clock B) (\<lambda>now. px_write B (pay_mark_succeeded key hash pid now))"

definition adopt_paid :: "'n phx_ops \<Rightarrow> string \<Rightarrow> phx_outgoing \<Rightarrow> string \<Rightarrow> ('n, string) px" where
  "adopt_paid B key r hash =
     px_then (mark_succeeded B key hash (og_payment r)) (\<lambda>_. px_return (og_payment r))"

text \<open>The audit of the actual fee only logs; its call of the node is the step.\<close>

definition audit_inv1 :: "'n phx_ops \<Rightarrow> string \<Rightarrow> ('n, unit) px" where
  "audit_inv1 B hash = px_then (px_try (px_call (po_outgoing B hash))) (\<lambda>_. px_return ())"

definition after_no_receipt :: "'n phx_ops \<Rightarrow> string \<Rightarrow> string \<Rightarrow> string option \<Rightarrow> ('n, string) px" where
  "after_no_receipt B key hash reason =
     px_then (px_context (''re-reading the phoenixd outgoing record for key '' @ key @ '' after a receipt-less payinvoice'')
                (px_call (po_outgoing B hash))) (\<lambda>found. case found of
         Some r \<Rightarrow>
           if og_paid r then adopt_paid B key r hash
           else if og_completed_ms r \<noteq> None then px_refuse (NoReceiptCompleted key reason)
           else px_refuse (NoReceiptInFlight key reason)
       | None \<Rightarrow> px_refuse (NoReceiptNoRecord key reason))"

definition post_pay :: "'n phx_ops \<Rightarrow> string \<Rightarrow> string \<Rightarrow> string \<Rightarrow> ('n, string) px" where
  "post_pay B b key hash =
     px_then (px_context (''phoenixd payinvoice for key '' @ key @ '' failed; the attempt is ambiguous and stays pending'')
                (px_call (po_pay B b))) (\<lambda>answer. case answer of
         Paid pid h \<Rightarrow>
           if h \<noteq> hash then px_refuse (ReceiptForOther key h hash)
           else px_then (mark_succeeded B key hash pid) (\<lambda>_.
                px_then (audit_inv1 B hash) (\<lambda>_. px_return pid))
       | NoReceipt reason \<Rightarrow> after_no_receipt B key hash reason)"

definition arm_and_post :: "'n phx_ops \<Rightarrow> fee_schedule \<Rightarrow> string \<Rightarrow> string \<Rightarrow> string \<Rightarrow> ('n, string) px" where
  "arm_and_post B F b key hash =
     px_then (require_supported_version B F) (\<lambda>node.
     px_then (px_write B (pay_upsert_prepared key b hash (nd_id node))) (\<lambda>_. post_pay B b key hash))"

definition over_cap :: "fee_schedule \<Rightarrow> nat \<Rightarrow> pay_cap \<Rightarrow> bool" where
  "over_cap F payout cap =
     (case ceiling_msat cap of
        None \<Rightarrow> False
      | Some c \<Rightarrow> c < saturating_add_u128 payout (fee_msat F payout))"

definition start_pay :: "'n phx_ops \<Rightarrow> fee_schedule \<Rightarrow> string \<Rightarrow> nat \<Rightarrow> string \<Rightarrow> pay_cap \<Rightarrow> ('n, string) px" where
  "start_pay B F b amount key cap =
     px_then (parse_dest B b) (\<lambda>d.
     px_then (px_clock B) (\<lambda>now.
       let payout = sat_to_msat amount; hash = de_hash d; refuse = refuse_pay B key b hash
       in if de_expires d \<le> now then refuse (DestinationExpired key (de_expires d) now)
          else case de_msat d of
            None \<Rightarrow> refuse (Amountless key)
          | Some m \<Rightarrow>
              if m \<noteq> payout then refuse (AmountDiffers key m amount)
              else px_then (px_read B (pay_other_key_for_hash hash key)) (\<lambda>other. case other of
                  Some k \<Rightarrow> refuse (HashOwned key k)
                | None \<Rightarrow>
                    if over_cap F payout cap
                    then refuse (OverCap key amount (fee_msat F payout) (unwrap_or (ceiling_msat cap) 0))
                    else arm_and_post B F b key hash)))"

definition require_prepared_node :: "'n phx_ops \<Rightarrow> string \<Rightarrow> phx_pay \<Rightarrow> ('n, unit) px" where
  "require_prepared_node B key r =
     px_then (px_context ''identifying the phoenixd node before retrying a payment its history does not show''
                (px_call (po_info B))) (\<lambda>info. case pp_node r of
         Some prepared \<Rightarrow>
           if prepared = nd_id info then px_return () else px_refuse (OtherNode key prepared (nd_id info))
       | None \<Rightarrow> px_refuse (UnknownNode key (pp_hash r)))"

definition recover_pay ::
  "'n phx_ops \<Rightarrow> fee_schedule \<Rightarrow> string \<Rightarrow> nat \<Rightarrow> string \<Rightarrow> pay_cap \<Rightarrow> phx_pay \<Rightarrow> ('n, string) px" where
  "recover_pay B F b amount key cap r =
     px_then (px_call (po_outgoing B (pp_hash r))) (\<lambda>found. case found of
         Some rec \<Rightarrow>
           if \<not> eq_ignore_case (og_hash rec) (pp_hash r) then px_refuse (ForeignRecord (og_hash rec) (pp_hash r))
           else if og_paid rec then adopt_paid B key rec (pp_hash r)
           else if og_completed_ms rec = None then px_refuse (StillInFlight key (pp_hash r))
           else px_refuse (CompletedUnpaid key (pp_hash r))
       | None \<Rightarrow> px_then (require_prepared_node B key r) (\<lambda>_. start_pay B F b amount key cap))"

definition pay_inner :: "'n phx_ops \<Rightarrow> fee_schedule \<Rightarrow> string \<Rightarrow> nat \<Rightarrow> string \<Rightarrow> pay_cap \<Rightarrow> ('n, string) px" where
  "pay_inner B F b amount key cap =
     px_then (px_read B (pay_get key)) (\<lambda>row. case row of
         None \<Rightarrow> px_refuse (NeverPrepared key)
       | Some r \<Rightarrow>
           if pp_status r = status_succeeded
           then (case pp_payment r of None \<Rightarrow> px_refuse (SucceededWithoutId key) | Some pid \<Rightarrow> px_return pid)
           else if pp_status r = status_prepared then recover_pay B F b amount key cap r
           else if pp_status r = status_failed then start_pay B F b amount key cap
           else px_refuse (InvalidStatus key (pp_status r)))"

subsection \<open>Status\<close>

definition payment_status_by_id :: "'n phx_ops \<Rightarrow> string \<Rightarrow> ('n, pay_status) px" where
  "payment_status_by_id B pid =
     px_then (px_read B (pay_status_by_payment_id pid)) (\<lambda>v. px_return (map_pay_status v))"

definition payment_status_by_key :: "'n phx_ops \<Rightarrow> string \<Rightarrow> ('n, pay_status) px" where
  "payment_status_by_key B key =
     px_then (px_read B (pay_status_by_key key)) (\<lambda>v. px_return (map_pay_status v))"

definition outbound_status_by_ref :: "'n phx_ops \<Rightarrow> string \<Rightarrow> string \<Rightarrow> ('n, pay_status option) px" where
  "outbound_status_by_ref B hash b =
     px_then (px_call (po_outgoing B hash)) (\<lambda>found. case found of
         Some rec \<Rightarrow>
           if \<not> eq_ignore_case (og_hash rec) hash then px_refuse (ForeignRecord (og_hash rec) hash)
           else px_return (if og_paid rec then Some PaySucceeded
                           else if og_completed_ms rec = None then Some PayPending else None)
       | None \<Rightarrow> px_return (Some PayFailed))"

subsection \<open>The backend of the refunder and the sweeper\<close>

fun store_error_of :: "(px_error \<Rightarrow> string) \<Rightarrow> px_error \<Rightarrow> store_error" where
  "store_error_of txt (PxStore e) = e"
| "store_error_of txt (PxContext c e) = Context c (store_error_of txt e)"
| "store_error_of txt e = Bail (txt e)"

definition as_backend :: "'n phx_ops \<Rightarrow> ('n, 'a) px \<Rightarrow> 'n phx \<Rightarrow> (store_error + 'a) \<times> 'n phx" where
  "as_backend B m s = (case m s of (r, s') \<Rightarrow> (map_sum (store_error_of (po_text B)) id r, s'))"

definition prepared_closure :: "unit px_tx \<Rightarrow> 'n phx \<Rightarrow> store_error + 'n phx" where
  "prepared_closure f s = (case f (px_tab s) of Inl e \<Rightarrow> Inl e | Inr (_, t) \<Rightarrow> Inr (s\<lparr>px_tab := t\<rparr>))"

text \<open>
  \<open>refund_quote\<close> and \<open>pay_refund_capped_via\<close> are the trait's defaults on \<open>refund_net_sat\<close> and
  \<open>pay_refund_capped\<close>; the resolver \<open>R\<close> is another component and acts on the world around the tables.
\<close>

definition phoenixd_backend ::
  "'n phx_ops \<Rightarrow> fee_schedule \<Rightarrow> (string \<Rightarrow> nat \<Rightarrow> int \<Rightarrow> 'n \<Rightarrow> (resolve_error + resolved) option \<times> 'n) \<Rightarrow> net
     \<Rightarrow> 'n phx pay_backend" where
  "phoenixd_backend B F R N =
     \<lparr>pb_status = \<lambda>key. as_backend B (payment_status_by_key B key),
      pb_quote = \<lambda>gross s. (Inr (net_payout_sat F gross, None), s),
      pb_resolve = \<lambda>dest owed now s. (case R dest owed now (px_node s) of (x, n) \<Rightarrow> (x, s\<lparr>px_node := n\<rparr>)),
      pb_prepare = \<lambda>key b s. (case as_backend B (prepare_pay B F key b) s of (r, s') \<Rightarrow> (map_sum id prepared_closure r, s')),
      pb_pay = \<lambda>b amount gross key hint. as_backend B (pay_inner B F b amount key (Gross gross)),
      pb_reuse = True, pb_net = N\<rparr>"

definition phoenixd_sweep ::
  "'n phx_ops \<Rightarrow> fee_schedule \<Rightarrow> (string \<Rightarrow> nat \<Rightarrow> int \<Rightarrow> 'n \<Rightarrow> (resolve_error + resolved) option \<times> 'n) \<Rightarrow> net
     \<Rightarrow> (string \<Rightarrow> int \<Rightarrow> bool) \<Rightarrow> 'n phx sweep_backend" where
  "phoenixd_sweep B F R N expired =
     \<lparr>sb_core = phoenixd_backend B F R N,
      sb_outlay = \<lambda>gross pay s. (Inr (required_outlay_msat F gross pay), s),
      sb_pay = \<lambda>b amount cap key. as_backend B (pay_inner B F b amount key (Outlay cap)),
      sb_outbound = \<lambda>hash b. as_backend B (outbound_status_by_ref B hash b),
      sb_hash = \<lambda>b. map_option de_hash (po_bolt11 B b),
      sb_expired = expired\<rparr>"

end
