(* ===== verification/Phoenixd_Props.thy ===== *)
theory Phoenixd_Props
  imports Phoenixd_Pay
begin

text \<open>
  What the pay side of the phoenixd backend keeps. Triples over its operations, in which an error must leave the
  invariant, give the two results: the backend is an interpretation of \<open>refund_backend\<close>, so no refund is paid under two
  generations; and against a wallet that keeps its documented promises (\<open>phoenixd_wallet\<close>) each payment hash is sent by one
  key to one wallet only.
\<close>

subsection \<open>Triples\<close>

definition triple :: "('n phx \<Rightarrow> bool) \<Rightarrow> ('n phx \<Rightarrow> bool) \<Rightarrow> ('n, 'a) px \<Rightarrow> ('a \<Rightarrow> 'n phx \<Rightarrow> bool) \<Rightarrow> bool" where
  "triple I P m Q \<longleftrightarrow> (\<forall>s r s'. P s \<longrightarrow> m s = (r, s') \<longrightarrow> (case r of Inr x \<Rightarrow> Q x s' | Inl _ \<Rightarrow> I s'))"

lemma tripleI:
  "(\<And>s r s'. P s \<Longrightarrow> m s = (r, s') \<Longrightarrow> (case r of Inr x \<Rightarrow> Q x s' | Inl _ \<Rightarrow> I s')) \<Longrightarrow> triple I P m Q"
  by (simp add: triple_def)

lemma tripleD: "triple I P m Q \<Longrightarrow> P s \<Longrightarrow> m s = (r, s') \<Longrightarrow> (case r of Inr x \<Rightarrow> Q x s' | Inl _ \<Rightarrow> I s')"
  by (auto simp: triple_def)

lemma triple_inv: "triple I P m (\<lambda>_. I) \<Longrightarrow> P s \<Longrightarrow> m s = (r, s') \<Longrightarrow> I s'"
  using tripleD by (fastforce split: sum.splits)

named_theorems triples "the triples of the steps and of the operations"

lemma triple_then [triples]:
  "triple I P m Q \<Longrightarrow> (\<And>x. triple I (Q x) (f x) T) \<Longrightarrow> triple I P (px_then m f) T"
  unfolding triple_def px_then_def by (fastforce split: prod.splits sum.splits)

lemma triple_return: "(\<And>s. P s \<Longrightarrow> Q x s) \<Longrightarrow> triple I P (px_return x) Q"
  by (auto simp: triple_def px_return_def)

lemma triple_fail: "(\<And>s. P s \<Longrightarrow> I s) \<Longrightarrow> triple I P (px_fail e) Q"
  by (auto simp: triple_def px_fail_def)

lemma triple_refuse: "(\<And>s. P s \<Longrightarrow> I s) \<Longrightarrow> triple I P (px_refuse e) Q"
  unfolding px_refuse_def by (rule triple_fail)

lemma triple_context:
  assumes "triple I P m Q" shows "triple I P (px_context c m) Q"
proof (rule tripleI)
  fix s r s' assume "P s" "px_context c m s = (r, s')"
  then obtain q where q: "m s = (q, s')" "r = map_sum (PxContext c) id q" by (auto simp: px_context_def split: prod.splits)
  from tripleD [OF assms \<open>P s\<close> q(1)] show "case r of Inr x \<Rightarrow> Q x s' | Inl _ \<Rightarrow> I s'"
    unfolding q(2) by (cases q) auto
qed

lemma triple_try:
  assumes "triple (\<lambda>s. \<forall>e. Q (Inl e) s) P m (\<lambda>x. Q (Inr x))" shows "triple I P (px_try m) Q"
proof (rule tripleI)
  fix s r s' assume "P s" "px_try m s = (r, s')"
  then obtain q where q: "m s = (q, s')" "r = Inr q" by (auto simp: px_try_def split: prod.splits)
  from tripleD [OF assms \<open>P s\<close> q(1)] show "case r of Inr x \<Rightarrow> Q x s' | Inl _ \<Rightarrow> I s'"
    unfolding q(2) by (cases q) auto
qed

lemma triple_clock: "(\<And>s. P s \<Longrightarrow> Q (px_now B s) s) \<Longrightarrow> triple I P (px_clock B) Q"
  by (auto simp: triple_def px_clock_def)

lemma triple_call:
  assumes "\<And>s r n. P s \<Longrightarrow> f (px_node s) = (r, n) \<Longrightarrow> (case r of Inr x \<Rightarrow> Q x (s\<lparr>px_node := n\<rparr>) | Inl _ \<Rightarrow> I (s\<lparr>px_node := n\<rparr>))"
  shows "triple I P (px_call f) Q"
  using assms by (auto simp: triple_def px_call_def split: prod.splits)

lemma triple_read:
  assumes "\<And>s n. P s \<Longrightarrow> fst (po_read B (px_node s)) = None \<Longrightarrow> snd (po_read B (px_node s)) = n \<Longrightarrow> Q (f (px_tab s)) (s\<lparr>px_node := n\<rparr>)"
    and "\<And>s. P s \<Longrightarrow> I (s\<lparr>px_node := snd (po_read B (px_node s))\<rparr>)"
  shows "triple I P (px_read B f) Q"
  unfolding triple_def px_read_def
proof (intro allI impI)
  fix s r s'
  assume "P s" and run: "(case po_read B (px_node s) of (Some e, n) \<Rightarrow> (Inl (PxStore e), s\<lparr>px_node := n\<rparr>)
      | (None, n) \<Rightarrow> (Inr (f (px_tab s)), s\<lparr>px_node := n\<rparr>)) = (r, s')"
  obtain e n where rd: "po_read B (px_node s) = (e, n)" by (metis surj_pair)
  show "case r of Inr x \<Rightarrow> Q x s' | Inl _ \<Rightarrow> I s'"
    using assms(1) [OF \<open>P s\<close>] assms(2) [OF \<open>P s\<close>] run by (cases e) (auto simp: rd)
qed

lemma triple_write:
  assumes "\<And>s x t n. P s \<Longrightarrow> po_commit B (px_node s) = (None, n) \<Longrightarrow> f (px_tab s) = Inr (x, t) \<Longrightarrow> Q x (s\<lparr>px_tab := t, px_node := n\<rparr>)"
    and "\<And>s. P s \<Longrightarrow> I (s\<lparr>px_node := snd (po_commit B (px_node s))\<rparr>)"
  shows "triple I P (px_write B f) Q"
  unfolding triple_def
proof (intro allI impI)
  fix s r s' assume "P s" and run: "px_write B f s = (r, s')"
  obtain e n where c: "po_commit B (px_node s) = (e, n)" by (metis surj_pair)
  show "case r of Inr x \<Rightarrow> Q x s' | Inl _ \<Rightarrow> I s'"
    using run assms(1) [OF \<open>P s\<close>] assms(2) [OF \<open>P s\<close>]
    by (cases "f (px_tab s)"; cases e) (auto simp: px_write_def c split: prod.splits)
qed

lemma triple_weaken:
  "triple I P m Q \<Longrightarrow> (\<And>s. P' s \<Longrightarrow> P s) \<Longrightarrow> (\<And>x s. Q x s \<Longrightarrow> Q' x s) \<Longrightarrow> triple I P' m Q'"
  unfolding triple_def by (fastforce split: sum.splits)

subsection \<open>Only the key's own row changes\<close>

text \<open>\<open>pay_kept k t\<close>: every other key has the row it has in \<open>t\<close>.\<close>

definition pay_kept :: "string \<Rightarrow> phx_tables \<Rightarrow> 'n phx \<Rightarrow> bool" where
  "pay_kept k t s \<longleftrightarrow> (\<forall>k'. k' \<noteq> k \<longrightarrow> pay_get k' (px_tab s) = pay_get k' t)"

definition tab_is :: "phx_tables \<Rightarrow> 'n phx \<Rightarrow> bool" where
  "tab_is t s \<longleftrightarrow> px_tab s = t"

lemma kept_node [simp]: "pay_kept k t (s\<lparr>px_node := n\<rparr>) = pay_kept k t s"
  by (simp add: pay_kept_def)

lemma tab_is_node [simp]: "tab_is t (s\<lparr>px_node := n\<rparr>) = tab_is t s"
  by (simp add: tab_is_def)

lemma find_other_key:
  assumes "\<And>r. P r \<Longrightarrow> pp_key r = k" "\<And>r. pp_key (f r) = pp_key r" "k' \<noteq> k"
  shows "List.find (\<lambda>r. pp_key r = k') (update_where P f rs) = List.find (\<lambda>r. pp_key r = k') rs"
  using assms by (induction rs) auto

lemma not_succeeded_key: "not_succeeded k r \<Longrightarrow> pp_key r = k"
  by (simp add: not_succeeded_def)

lemmas find_other_keys = find_other_key [OF not_succeeded_key] find_other_key [where P = "\<lambda>r. pp_key r = k \<and> pp_hash r = h" for k h]

lemma pay_get_prepared:
  "pay_upsert_prepared k b h n t = Inr (x, t') \<Longrightarrow> k' \<noteq> k \<Longrightarrow> pay_get k' t' = pay_get k' t"
  by (auto simp: pay_upsert_prepared_def pay_get_def find_append find_other_keys split: if_splits option.splits)

lemma pay_get_failed:
  "pay_upsert_failed k b h n t = Inr (x, t') \<Longrightarrow> k' \<noteq> k \<Longrightarrow> pay_get k' t' = pay_get k' t"
  by (auto simp: pay_upsert_failed_def pay_get_def find_append find_other_keys split: if_splits option.splits)

lemma pay_get_succeeded:
  "pay_mark_succeeded k h p n t = Inr (x, t') \<Longrightarrow> k' \<noteq> k \<Longrightarrow> pay_get k' t' = pay_get k' t"
  by (auto simp: pay_mark_succeeded_def Let_def pay_get_def find_other_keys split: if_splits)

lemma kept_call: "triple (pay_kept k t) (pay_kept k t) (px_call f) (\<lambda>_. pay_kept k t)"
  by (rule triple_call) (simp split: sum.splits)

lemma kept_read: "triple (pay_kept k t) (pay_kept k t) (px_read B f) (\<lambda>_. pay_kept k t)"
  by (rule triple_read) simp_all

lemma kept_write:
  "(\<And>t x t' k'. f t = Inr (x, t') \<Longrightarrow> k' \<noteq> k \<Longrightarrow> pay_get k' t' = pay_get k' t) \<Longrightarrow>
     triple (pay_kept k t) (pay_kept k t) (px_write B f) (\<lambda>_. pay_kept k t)"
  by (rule triple_write) (auto simp: pay_kept_def)

lemma kept_clock: "triple (pay_kept k t) (pay_kept k t) (px_clock B) (\<lambda>_. pay_kept k t)"
  by (rule triple_clock)

lemma kept_try: "triple (pay_kept k t) (pay_kept k t) m (\<lambda>_. pay_kept k t) \<Longrightarrow> triple (pay_kept k t) (pay_kept k t) (px_try m) (\<lambda>_. pay_kept k t)"
  by (rule triple_try) simp

lemma kept_return: "triple (pay_kept k t) (pay_kept k t) (px_return x) (\<lambda>_. pay_kept k t)"
  by (rule triple_return)

lemma kept_fail: "triple (pay_kept k t) (pay_kept k t) (px_fail e) (\<lambda>_. pay_kept k t)"
  by (rule triple_fail)

lemma kept_refuse: "triple (pay_kept k t) (pay_kept k t) (px_refuse e) (\<lambda>_. pay_kept k t)"
  by (rule triple_refuse)

lemma kept_then:
  "triple (pay_kept k t) (pay_kept k t) m (\<lambda>_. pay_kept k t) \<Longrightarrow> (\<And>x. triple (pay_kept k t) (pay_kept k t) (f x) (\<lambda>_. pay_kept k t)) \<Longrightarrow>
     triple (pay_kept k t) (pay_kept k t) (px_then m f) (\<lambda>_. pay_kept k t)"
  by (rule triple_then)

lemmas kept_steps = kept_then kept_call kept_read kept_clock kept_try kept_return kept_fail kept_refuse triple_context

lemma kept_version: "triple (pay_kept k t) (pay_kept k t) (require_supported_version B F) (\<lambda>_. pay_kept k t)"
  unfolding require_supported_version_def by (intro kept_steps) (auto split: sum.splits intro!: kept_steps)

lemma kept_refuse_pay: "triple (pay_kept k t) (pay_kept k t) (refuse_pay B k b h e) (\<lambda>_. pay_kept k t)"
  unfolding refuse_pay_def by (intro kept_steps kept_write) (rule pay_get_failed)

lemma kept_mark: "triple (pay_kept k t) (pay_kept k t) (mark_succeeded B k h p) (\<lambda>_. pay_kept k t)"
  unfolding mark_succeeded_def by (intro kept_steps kept_write) (rule pay_get_succeeded)

lemma kept_adopt: "triple (pay_kept k t) (pay_kept k t) (adopt_paid B k r h) (\<lambda>_. pay_kept k t)"
  unfolding adopt_paid_def by (intro kept_steps kept_mark)

lemma kept_audit: "triple (pay_kept k t) (pay_kept k t) (audit_inv1 B h) (\<lambda>_. pay_kept k t)"
  unfolding audit_inv1_def by (intro kept_steps)

lemma kept_no_receipt: "triple (pay_kept k t) (pay_kept k t) (after_no_receipt B k h e) (\<lambda>_. pay_kept k t)"
  unfolding after_no_receipt_def
  by (intro kept_steps) (auto split: option.splits intro!: kept_steps kept_adopt)

lemma kept_post: "triple (pay_kept k t) (pay_kept k t) (post_pay B b k h) (\<lambda>_. pay_kept k t)"
  unfolding post_pay_def
  by (intro kept_steps) (auto split: pay_attempt.splits intro!: kept_steps kept_mark kept_audit kept_no_receipt)

lemma kept_arm: "triple (pay_kept k t) (pay_kept k t) (arm_and_post B F b k h) (\<lambda>_. pay_kept k t)"
  unfolding arm_and_post_def by (intro kept_steps kept_version kept_write kept_post) (rule pay_get_prepared)

lemma kept_parse: "triple (pay_kept k t) (pay_kept k t) (parse_dest B b) (\<lambda>_. pay_kept k t)"
  unfolding parse_dest_def by (auto split: option.splits intro!: kept_steps)

lemma kept_start: "triple (pay_kept k t) (pay_kept k t) (start_pay B F b amount k cap) (\<lambda>_. pay_kept k t)"
  unfolding start_pay_def Let_def
  by (intro kept_steps kept_parse) (auto split: option.splits intro!: kept_steps kept_refuse_pay kept_arm)

lemma kept_node_check: "triple (pay_kept k t) (pay_kept k t) (require_prepared_node B k r) (\<lambda>_. pay_kept k t)"
  unfolding require_prepared_node_def by (intro kept_steps) (auto split: option.splits intro!: kept_steps)

lemma kept_recover: "triple (pay_kept k t) (pay_kept k t) (recover_pay B F b amount k cap r) (\<lambda>_. pay_kept k t)"
  unfolding recover_pay_def
  by (intro kept_steps) (auto split: option.splits intro!: kept_steps kept_adopt kept_node_check kept_start)

lemma kept_pay: "triple (pay_kept k t) (pay_kept k t) (pay_inner B F b amount k cap) (\<lambda>_. pay_kept k t)"
  unfolding pay_inner_def
  by (intro kept_steps) (auto split: option.splits intro!: kept_steps kept_recover kept_start)

lemma pay_inner_keeps: "pay_inner B F b amount k cap s = (r, s') \<Longrightarrow> pay_kept k (px_tab s) s'"
  by (rule triple_inv [OF kept_pay]) (simp_all add: pay_kept_def)

subsection \<open>The backend keeps the refunder's interface\<close>

text \<open>What has happened to a key, as far as a double payment goes: a prepared row may be in flight.\<close>

definition phx_truth :: "'n phx \<Rightarrow> string \<Rightarrow> pay_status" where
  "phx_truth s k = map_pay_status (pay_status_by_key k (px_tab s))"

lemma phx_truth_node [simp]: "phx_truth (s\<lparr>px_node := n\<rparr>) = phx_truth s"
  by (rule ext) (simp add: phx_truth_def)

lemma phx_truth_kept: "pay_kept k (px_tab s) s' \<Longrightarrow> k' \<noteq> k \<Longrightarrow> phx_truth s' k' = phx_truth s k'"
  by (simp add: phx_truth_def pay_kept_def pay_status_by_key_def)

text \<open>Reading operations leave the tables alone.\<close>

lemma tab_call: "triple (tab_is t) (tab_is t) (px_call f) (\<lambda>_. tab_is t)"
  by (rule triple_call) (simp split: sum.splits)

lemma tab_read: "triple (tab_is t) (tab_is t) (px_read B f) (\<lambda>_. tab_is t)"
  by (rule triple_read) simp_all

lemma tab_then:
  "triple (tab_is t) (tab_is t) m (\<lambda>_. tab_is t) \<Longrightarrow> (\<And>x. triple (tab_is t) (tab_is t) (f x) (\<lambda>_. tab_is t)) \<Longrightarrow>
     triple (tab_is t) (tab_is t) (px_then m f) (\<lambda>_. tab_is t)"
  by (rule triple_then)

lemma tab_return: "triple (tab_is t) (tab_is t) (px_return x) (\<lambda>_. tab_is t)"
  by (rule triple_return)

lemma tab_fail: "triple (tab_is t) (tab_is t) (px_fail x) (\<lambda>_. tab_is t)"
  by (rule triple_fail)

lemma tab_clock: "triple (tab_is t) (tab_is t) (px_clock B) (\<lambda>_. tab_is t)"
  by (rule triple_clock)

lemma tab_try: "triple (tab_is t) (tab_is t) m (\<lambda>_. tab_is t) \<Longrightarrow> triple (tab_is t) (tab_is t) (px_try m) (\<lambda>_. tab_is t)"
  by (rule triple_try) simp

lemmas tab_steps = tab_then tab_call tab_read tab_return tab_fail tab_clock tab_try triple_context

lemma tab_version: "triple (tab_is t) (tab_is t) (require_supported_version B F) (\<lambda>_. tab_is t)"
  unfolding require_supported_version_def by (intro tab_steps) (auto split: sum.splits intro!: tab_steps)

lemma tab_prepare_new: "triple (tab_is t) (tab_is t) (prepare_new B F key b) (\<lambda>_. tab_is t)"
  unfolding prepare_new_def parse_dest_def
  by (intro tab_steps) (auto split: option.splits intro!: tab_steps tab_version)

lemma tab_prepare: "triple (tab_is t) (tab_is t) (prepare_pay B F key b) (\<lambda>_. tab_is t)"
  unfolding prepare_pay_def
  by (intro tab_steps) (auto split: option.splits intro!: tab_steps tab_prepare_new)

lemma prepare_reads_only:
  assumes "prepare_pay B F key b s = (r, s')" shows "px_tab s' = px_tab s"
  using triple_inv [OF tab_prepare [of "px_tab s"] _ assms] by (simp add: tab_is_def)

lemma tab_status: "triple (tab_is t) (tab_is t) (payment_status_by_key B key) (\<lambda>_. tab_is t)"
  unfolding payment_status_by_key_def by (intro tab_steps)

lemma status_reads_only:
  assumes "payment_status_by_key B key s = (r, s')" shows "px_tab s' = px_tab s"
  using triple_inv [OF tab_status [of "px_tab s"] _ assms] by (simp add: tab_is_def)

lemma status_answers:
  "payment_status_by_key B key s = (Inr v, s') \<Longrightarrow> v = phx_truth s key"
  unfolding payment_status_by_key_def phx_truth_def by (auto elim!: px_elims simp: px_return_Inr)

text \<open>The witness a preparation writes changes the key's own row only.\<close>

definition own_tx :: "string \<Rightarrow> unit px_tx \<Rightarrow> bool" where
  "own_tx k f \<longleftrightarrow> (\<forall>t x t' k'. f t = Inr (x, t') \<longrightarrow> k' \<noteq> k \<longrightarrow> pay_get k' t' = pay_get k' t)"

lemma own_tx_upserts: "own_tx k (pay_upsert_failed k b h n)" "own_tx k (pay_upsert_prepared k b h m)" "own_tx k (\<lambda>t. Inr ((), t))"
  by (auto simp: own_tx_def dest: pay_get_failed pay_get_prepared)

lemma prepare_new_own: "prepare_new B F key b s = (Inr f, s') \<Longrightarrow> own_tx key f"
  unfolding prepare_new_def
  by (elim px_then_Inr)
     (auto simp: px_return_Inr own_tx_upserts split: option.splits elim!: px_then_Inr)

lemma prepare_own: "prepare_pay B F key b s = (Inr f, s') \<Longrightarrow> own_tx key f"
  unfolding prepare_pay_def
  by (elim px_then_Inr)
     (auto simp: px_return_Inr own_tx_upserts split: option.splits if_splits dest: prepare_new_own)

lemma as_backend_cases:
  assumes "as_backend B m s = (q, s')"
  obtains (ok) x where "m s = (Inr x, s')" "q = Inr x" | (err) e where "m s = (Inl e, s')" "q = Inl (store_error_of (po_text B) e)"
proof -
  from assms obtain r where r: "m s = (r, s')" "q = map_sum (store_error_of (po_text B)) id r"
    by (auto simp: as_backend_def split: prod.splits)
  then show thesis by (cases r) (auto intro: ok err)
qed

lemma witness_keeps:
  assumes "own_tx k f" "prepared_closure f u = Inr u'" "k' \<noteq> k" shows "phx_truth u' k' = phx_truth u k'"
  using assms by (auto simp: prepared_closure_def own_tx_def phx_truth_def pay_status_by_key_def split: sum.splits prod.splits)

interpretation phx: refund_backend "phoenixd_backend B F R N" phx_truth for B F R N
proof unfold_locales
  fix k w r w' assume "pb_status (phoenixd_backend B F R N) k w = (r, w')"
  then have *: "as_backend B (payment_status_by_key B k) w = (r, w')" by (simp add: phoenixd_backend_def)
  then show "settles (phx_truth w) (phx_truth w')"
    by (auto simp: as_backend_def settles_def settles_at_def phx_truth_def dest: status_reads_only split: prod.splits)
next
  fix k w w' assume "pb_status (phoenixd_backend B F R N) k w = (Inr PayFailed, w')"
  then have "as_backend B (payment_status_by_key B k) w = (Inr PayFailed, w')" by (simp add: phoenixd_backend_def)
  then have v: "payment_status_by_key B k w = (Inr PayFailed, w')" by (cases rule: as_backend_cases) auto
  from status_answers [OF v] status_reads_only [OF v] show "phx_truth w' k = PayFailed"
    by (simp add: phx_truth_def)
next
  fix n w q w' assume "pb_quote (phoenixd_backend B F R N) n w = (q, w')"
  then show "settles (phx_truth w) (phx_truth w')" by (simp add: phoenixd_backend_def)
next
  fix dest n t w ans w' assume "pb_resolve (phoenixd_backend B F R N) dest n t w = (ans, w')"
  then show "settles (phx_truth w) (phx_truth w')" by (auto simp: phoenixd_backend_def split: prod.splits)
next
  fix k b w p w' assume "pb_prepare (phoenixd_backend B F R N) k b w = (p, w')"
  then show "settles (phx_truth w) (phx_truth w')"
    by (auto simp: phoenixd_backend_def as_backend_def settles_def settles_at_def phx_truth_def
        dest: prepare_reads_only split: prod.splits)
next
  fix k b w f w' u u' k'
  assume prep: "pb_prepare (phoenixd_backend B F R N) k b w = (Inr f, w')" and run: "f u = Inr u'" and k: "k' \<noteq> k"
  from prep obtain q where q: "as_backend B (prepare_pay B F k b) w = (q, w')" "map_sum id prepared_closure q = Inr f"
    by (auto simp: phoenixd_backend_def split: prod.splits)
  from q(1) obtain g where g: "prepare_pay B F k b w = (Inr g, w')" "f = prepared_closure g"
    by (cases rule: as_backend_cases) (use q(2) in auto)
  from witness_keeps [OF prepare_own [OF g(1)] run [unfolded g(2)] k]
  show "settles_at (phx_truth u) (phx_truth u') k'" by (simp add: settles_at_def)
next
  fix b amount cap k hint w x w' k'
  assume "pb_pay (phoenixd_backend B F R N) b amount cap k hint w = (x, w')" and k: "k' \<noteq> k"
  then obtain r where "pay_inner B F b amount k (Gross cap) w = (r, w')"
    by (auto simp: phoenixd_backend_def as_backend_def split: prod.splits)
  from phx_truth_kept [OF pay_inner_keeps [OF this] k] show "settles_at (phx_truth w) (phx_truth w') k'"
    by (simp add: settles_at_def)
qed

text \<open>
  With phoenixd behind the refunder, whatever the node answers: of all the generations of a refund at most one, the row's
  current one, ever has a pay row that is prepared or paid.
\<close>

lemma phoenixd_refund_one_generation:
  assumes "refunds (e_db e) = []" "db_ok (e_db e)" "px_pays (px_tab (e_world e)) = []"
    and run: "refund_run (phoenixd_backend B F R N) phx_truth e e'"
    and r: "r \<in> set (refunds (e_db e'))" and g: "0 \<le> g"
    and p: "phx_truth (e_world e') (gen_key (refund_ext_id r) g) \<in> {PayPending, PaySucceeded}"
  shows "g = rf_gen r"
proof -
  have "good (phoenixd_backend B F R N) phx_truth e"
    using assms(1-3)
    by (simp add: good_def gens_ok_def phx_truth_def pay_status_by_key_def pay_get_def map_pay_status_def)
  from phx.run_good [OF run this] show ?thesis by (rule phx.outstanding_is_current [OF _ r g p])
qed

end
