(* ===== verification/Phoenixd_Wallet.thy ===== *)
theory Phoenixd_Wallet
  imports Phoenixd_Props
begin

text \<open>
  The pay side against a wallet. \<open>phoenixd_wallet\<close> states what the node documents: a clean 404 proves that this wallet
  never sent the hash, \<open>getinfo\<close> names the wallet, and only \<open>payinvoice\<close> sends, on the hash its invoice encodes. Any answer
  may still be an error, arrive late or be lost. Inside it, every hash money may have moved through is owned by one live row,
  stamped with the wallet it was sent to.
\<close>

definition pay_live :: "phx_pay \<Rightarrow> bool" where
  "pay_live p \<longleftrightarrow> pp_status p \<noteq> status_failed"

subsection \<open>The wallet's promises\<close>

text \<open>
  \<open>moved n i h\<close>: in state \<open>n\<close>, wallet \<open>i\<close> has been sent, or may yet send, the hash \<open>h\<close>; \<open>cur n\<close> is the wallet that answers.
\<close>

definition wallet_calm :: "('n \<Rightarrow> string \<Rightarrow> string \<Rightarrow> bool) \<Rightarrow> ('n \<Rightarrow> string) \<Rightarrow> 'n \<Rightarrow> 'n \<Rightarrow> bool" where
  "wallet_calm moved cur n n' \<longleftrightarrow> cur n' = cur n \<and> (\<forall>i h. moved n' i h \<longrightarrow> moved n i h)"

locale phoenixd_wallet =
  fixes B :: "'n phx_ops" and moved :: "'n \<Rightarrow> string \<Rightarrow> string \<Rightarrow> bool" and cur :: "'n \<Rightarrow> string"
  assumes outgoing_reads: "po_outgoing B h n = (r, n') \<Longrightarrow> wallet_calm moved cur n n'"
    and not_found_proves: "po_outgoing B h n = (Inr None, n') \<Longrightarrow> \<not> moved n' (cur n') h"
    and info_reads: "po_info B n = (q, n') \<Longrightarrow> wallet_calm moved cur n n'"
    and info_names: "po_info B n = (Inr i, n') \<Longrightarrow> nd_id i = cur n'"
    and read_calm: "po_read B n = (e, n') \<Longrightarrow> wallet_calm moved cur n n'"
    and commit_calm: "po_commit B n = (e, n') \<Longrightarrow> wallet_calm moved cur n n'"
    and pay_sends: "po_pay B b n = (a, n') \<Longrightarrow> cur n' = cur n \<and>
      (\<forall>i h. moved n' i h \<longrightarrow> moved n i h \<or> i = cur n \<and> (\<exists>d. po_bolt11 B b = Some d \<and> h = de_hash d))"
begin

definition hash_owned :: "'n phx \<Rightarrow> bool" where
  "hash_owned s \<longleftrightarrow> distinct (map pp_key (pays s)) \<and>
     (\<forall>i h. moved (px_node s) i h \<longrightarrow> (\<exists>p\<in>set (pays s). pay_live p \<and> pp_hash p = h \<and> pp_node p = Some i)) \<and>
     (\<forall>p\<in>set (pays s). \<forall>q\<in>set (pays s). pay_live p \<and> pay_live q \<and> pp_hash p = pp_hash q \<longrightarrow> p = q)"

text \<open>The key's own row backs no money that may have moved, so it may be overwritten.\<close>

definition idle :: "string \<Rightarrow> 'n phx \<Rightarrow> bool" where
  "idle k s \<longleftrightarrow> (\<forall>p\<in>set (pays s). pp_key p = k \<longrightarrow> (\<forall>i. \<not> (pay_live p \<and> moved (px_node s) i (pp_hash p))))"

definition unowned :: "string \<Rightarrow> string \<Rightarrow> 'n phx \<Rightarrow> bool" where
  "unowned k h s \<longleftrightarrow> (\<forall>p\<in>set (pays s). pay_live p \<and> pp_hash p = h \<longrightarrow> pp_key p = k)"

text \<open>The row that \<open>payinvoice\<close> is called under.\<close>

definition armed :: "string \<Rightarrow> string \<Rightarrow> 'n phx \<Rightarrow> bool" where
  "armed k h s \<longleftrightarrow> (\<exists>p\<in>set (pays s). pp_key p = k \<and> pp_hash p = h \<and> pay_live p \<and> pp_node p = Some (cur (px_node s)))"

definition holds :: "string \<Rightarrow> string \<Rightarrow> 'n phx \<Rightarrow> bool" where
  "holds k h s \<longleftrightarrow> (\<forall>p\<in>set (pays s). pp_key p = k \<and> pp_hash p = h \<longrightarrow> pay_live p)"

lemma owned_calm:
  "hash_owned s \<Longrightarrow> wallet_calm moved cur (px_node s) n \<Longrightarrow> hash_owned (s\<lparr>px_node := n\<rparr>)"
  unfolding hash_owned_def wallet_calm_def by simp

lemma idle_calm: "idle k s \<Longrightarrow> wallet_calm moved cur (px_node s) n \<Longrightarrow> idle k (s\<lparr>px_node := n\<rparr>)"
  by (auto simp: idle_def wallet_calm_def)

lemma unowned_calm: "unowned k h (s\<lparr>px_node := n\<rparr>) = unowned k h s"
  by (simp add: unowned_def)

lemma holds_node: "holds k h (s\<lparr>px_node := n\<rparr>) = holds k h s"
  by (simp add: holds_def)

lemma armed_calm: "armed k h s \<Longrightarrow> cur n = cur (px_node s) \<Longrightarrow> armed k h (s\<lparr>px_node := n\<rparr>)"
  by (simp add: armed_def)

lemma armed_holds: "hash_owned s \<Longrightarrow> armed k h s \<Longrightarrow> holds k h s"
  unfolding hash_owned_def armed_def holds_def by (metis (no_types, lifting) distinct_map inj_onD)

lemmas calm_rules = owned_calm idle_calm unowned_calm [THEN iffD2] holds_node [THEN iffD2]

subsection \<open>The statements keep the rows owned\<close>

lemma row_by_key:
  "hash_owned s \<Longrightarrow> p \<in> set (pays s) \<Longrightarrow> q \<in> set (pays s) \<Longrightarrow> pp_key p = pp_key q \<Longrightarrow> p = q"
  unfolding hash_owned_def by (metis distinct_map inj_onD)

lemma ownedI:
  assumes "distinct (map pp_key (px_pays t))"
    and "\<And>i h. moved (px_node s) i h \<Longrightarrow> \<exists>p\<in>set (px_pays t). pay_live p \<and> pp_hash p = h \<and> pp_node p = Some i"
    and "\<And>p q. p \<in> set (px_pays t) \<Longrightarrow> q \<in> set (px_pays t) \<Longrightarrow> pay_live p \<Longrightarrow> pay_live q \<Longrightarrow> pp_hash p = pp_hash q \<Longrightarrow> p = q"
  shows "hash_owned (s\<lparr>px_tab := t\<rparr>)"
  using assms unfolding hash_owned_def by simp

lemma ownedD:
  assumes "hash_owned s"
  shows "distinct (map pp_key (pays s))"
    and "moved (px_node s) i h \<Longrightarrow> \<exists>p\<in>set (pays s). pay_live p \<and> pp_hash p = h \<and> pp_node p = Some i"
    and "p \<in> set (pays s) \<Longrightarrow> q \<in> set (pays s) \<Longrightarrow> pay_live p \<Longrightarrow> pay_live q \<Longrightarrow> pp_hash p = pp_hash q \<Longrightarrow> p = q"
  using assms unfolding hash_owned_def by blast+

lemma pay_get_row: "pay_get k t = Some p \<Longrightarrow> p \<in> set (px_pays t) \<and> pp_key p = k"
  unfolding pay_get_def by (rule find_Some_mem)

lemma pay_get_None: "pay_get k t = None \<longleftrightarrow> (\<forall>p\<in>set (px_pays t). pp_key p \<noteq> k)"
  by (simp add: pay_get_def find_None_all)

lemma failed_owned:
  assumes own: "hash_owned s" and idle: "idle k s" and run: "pay_upsert_failed k b h n (px_tab s) = Inr (x, t)"
  shows "hash_owned (s\<lparr>px_tab := t\<rparr>)"
proof -
  let ?f = "\<lambda>r. r\<lparr>pp_bolt11 := b, pp_hash := h, pp_status := status_failed, pp_payment := None, pp_terminal := Some n\<rparr>"
  have dead: "\<not> pay_live (?f r)" for r by (simp add: pay_live_def)
  show ?thesis
  proof (cases "pay_get k (px_tab s)")
    case None
    with run have t: "t = (px_tab s)\<lparr>px_pays := pays s @ [\<lparr>pp_key = k, pp_bolt11 = b, pp_hash = h, pp_node = None,
        pp_payment = None, pp_status = status_failed, pp_terminal = Some n\<rparr>]\<rparr>"
      by (simp add: pay_upsert_failed_def)
    show ?thesis using own None unfolding hash_owned_def t by (fastforce simp: pay_get_None pay_live_def)
  next
    case (Some p)
    with run have t: "px_pays t = update_where (not_succeeded k) ?f (pays s)" by (auto simp: pay_upsert_failed_def)
    have sub: "q \<in> set (pays s)" if "q \<in> set (px_pays t)" "pay_live q" for q
      using that dead unfolding t by (auto elim!: in_update_whereE)
    have keep: "q \<in> set (px_pays t)" if "q \<in> set (pays s)" "pay_live q" "moved (px_node s) i (pp_hash q)" for q i
    proof -
      from idle that have "pp_key q \<noteq> k" by (auto simp: idle_def)
      with that(1) show ?thesis unfolding t by (intro update_where_miss) (simp_all add: not_succeeded_def)
    qed
    have "distinct (map pp_key (px_pays t))" using own unfolding t hash_owned_def by (simp add: map_update_where)
    moreover have "\<exists>q\<in>set (px_pays t). pay_live q \<and> pp_hash q = g \<and> pp_node q = Some i" if "moved (px_node s) i g" for i g
    proof -
      from own that obtain q where "q \<in> set (pays s)" "pay_live q" "pp_hash q = g" "pp_node q = Some i" unfolding hash_owned_def by blast
      with keep that show ?thesis by blast
    qed
    moreover have "p = q" if "p \<in> set (px_pays t)" "q \<in> set (px_pays t)" "pay_live p" "pay_live q" "pp_hash p = pp_hash q" for p q
      using ownedD(3) [OF own sub [OF that(1,3)] sub [OF that(2,4)]] that(3-5) by blast
    ultimately show ?thesis by (intro ownedI)
  qed
qed

lemma prepared_owned:
  assumes own: "hash_owned s" and idle: "idle k s" and un: "unowned k h s"
    and run: "pay_upsert_prepared k b h (cur (px_node s)) (px_tab s) = Inr (x, t)"
  shows "hash_owned (s\<lparr>px_tab := t\<rparr>)" and "armed k h (s\<lparr>px_tab := t\<rparr>)"
proof -
  let ?f = "\<lambda>r. r\<lparr>pp_bolt11 := b, pp_hash := h, pp_node := Some (cur (px_node s)), pp_status := status_prepared,
      pp_payment := None, pp_terminal := None\<rparr>"
  have up: "pay_live (?f r)" "pp_key (?f r) = pp_key r" "pp_hash (?f r) = h" for r
    by (simp_all add: pay_live_def status_prepared_def status_failed_def)
  obtain u where u: "u \<in> set (px_pays t)" "pp_key u = k" "pp_hash u = h" "pay_live u" "pp_node u = Some (cur (px_node s))"
    and rest: "\<And>q. q \<in> set (px_pays t) \<Longrightarrow> q \<noteq> u \<Longrightarrow> q \<in> set (pays s) \<and> (pay_live q \<longrightarrow> pp_key q \<noteq> k)"
    and stay: "\<And>q. q \<in> set (pays s) \<Longrightarrow> pp_key q \<noteq> k \<Longrightarrow> q \<in> set (px_pays t)"
    and keys: "distinct (map pp_key (px_pays t))"
  proof (cases "pay_get k (px_tab s)")
    case None
    let ?u = "\<lparr>pp_key = k, pp_bolt11 = b, pp_hash = h, pp_node = Some (cur (px_node s)), pp_payment = None,
        pp_status = status_prepared, pp_terminal = None\<rparr>"
    from None run have t: "px_pays t = pays s @ [?u]" by (auto simp: pay_upsert_prepared_def)
    show ?thesis
      by (rule that [of ?u]) (use own None in \<open>auto simp: t pay_get_None hash_owned_def pay_live_def status_prepared_def status_failed_def\<close>)
  next
    case (Some p)
    note p = pay_get_row [OF Some]
    from Some run have one: "count_where (not_succeeded k) (pays s) = 1"
      and t: "px_pays t = update_where (not_succeeded k) ?f (pays s)"
      by (auto simp: pay_upsert_prepared_def split: if_splits)
    from one obtain v where v: "v \<in> set (pays s)" "not_succeeded k v"
      by (metis count_where_pos_iff less_numeral_extra(1))
    then have only: "q = v" if "q \<in> set (pays s)" "pp_key q = k" for q
      using row_by_key [OF own that(1) v(1)] that(2) by (simp add: not_succeeded_def)
    show ?thesis
    proof (rule that [of "?f v"])
      show "?f v \<in> set (px_pays t)" unfolding t by (rule update_where_hit [where f = ?f and P = "not_succeeded k", OF v])
      show "pp_key (?f v) = k" using v(2) by (simp add: not_succeeded_def)
      show "distinct (map pp_key (px_pays t))" using own unfolding t hash_owned_def by (simp add: map_update_where)
    next
      fix q assume q: "q \<in> set (px_pays t)" "q \<noteq> ?f v"
      from q(1) show "q \<in> set (pays s) \<and> (pay_live q \<longrightarrow> pp_key q \<noteq> k)" unfolding t
      proof (cases rule: in_update_whereE)
        case (hit r0)
        with only [of r0] q(2) show ?thesis by (simp add: not_succeeded_def)
      next
        case miss
        with only v(2) show ?thesis by blast
      qed
    next
      fix q assume "q \<in> set (pays s)" "pp_key q \<noteq> k"
      then show "q \<in> set (px_pays t)" unfolding t by (intro update_where_miss) (simp_all add: not_succeeded_def)
    qed (simp_all add: up)
  qed
  have live_other: "pp_hash q \<noteq> h" if "q \<in> set (px_pays t)" "q \<noteq> u" "pay_live q" for q
    using rest [OF that(1,2)] that(3) un unfolding unowned_def by blast
  have "\<exists>q\<in>set (px_pays t). pay_live q \<and> pp_hash q = g \<and> pp_node q = Some i" if m: "moved (px_node s) i g" for i g
  proof -
    from own m obtain q where q: "q \<in> set (pays s)" "pay_live q" "pp_hash q = g" "pp_node q = Some i" unfolding hash_owned_def by blast
    with idle m have "pp_key q \<noteq> k" by (auto simp: idle_def)
    with q stay show ?thesis by blast
  qed
  moreover have "p = q" if pq: "p \<in> set (px_pays t)" "q \<in> set (px_pays t)" "pay_live p" "pay_live q" "pp_hash p = pp_hash q" for p q
  proof (cases "p = u \<or> q = u")
    case True
    with pq live_other u(3) show ?thesis by metis
  next
    case False
    with pq rest own show ?thesis unfolding hash_owned_def by blast
  qed
  ultimately show "hash_owned (s\<lparr>px_tab := t\<rparr>)" using keys by (intro ownedI)
  show "armed k h (s\<lparr>px_tab := t\<rparr>)" using u unfolding armed_def by auto
qed

lemma succeeded_owned:
  assumes own: "hash_owned s" and h: "holds k h s" and run: "pay_mark_succeeded k h pid n (px_tab s) = Inr (x, t)"
  shows "hash_owned (s\<lparr>px_tab := t\<rparr>)"
proof -
  define g where "g r = (if pp_key r = k \<and> pp_hash r = h
      then r\<lparr>pp_status := status_succeeded, pp_payment := Some pid, pp_terminal := Some n\<rparr> else r)" for r :: phx_pay
  from run have t: "px_pays t = map g (pays s)"
    by (auto simp: pay_mark_succeeded_def Let_def update_where_def g_def split: if_splits)
  have g: "pp_key (g r) = pp_key r" "pp_hash (g r) = pp_hash r" "pp_node (g r) = pp_node r" for r by (simp_all add: g_def)
  have lv: "pay_live (g r) = pay_live r" if "r \<in> set (pays s)" for r
    using h that by (auto simp: holds_def pay_live_def status_succeeded_def status_failed_def g_def)
  show ?thesis
  proof (rule ownedI)
    have "map pp_key (px_pays t) = map pp_key (pays s)" unfolding t by (simp add: g)
    then show "distinct (map pp_key (px_pays t))" using ownedD(1) [OF own] by simp
  next
    fix i z assume "moved (px_node s) i z"
    from ownedD(2) [OF own this] obtain q where q: "q \<in> set (pays s)" "pay_live q" "pp_hash q = z" "pp_node q = Some i" by blast
    then show "\<exists>q\<in>set (px_pays t). pay_live q \<and> pp_hash q = z \<and> pp_node q = Some i"
      unfolding t by (intro bexI [of _ "g q"]) (simp_all add: g lv)
  next
    fix p q assume pq: "p \<in> set (px_pays t)" "q \<in> set (px_pays t)" "pay_live p" "pay_live q" "pp_hash p = pp_hash q"
    then obtain p0 q0 where 0: "p0 \<in> set (pays s)" "p = g p0" "q0 \<in> set (pays s)" "q = g q0" unfolding t by auto
    with pq lv g have "pay_live p0" "pay_live q0" "pp_hash p0 = pp_hash q0" by simp_all
    from ownedD(3) [OF own 0(1,3) this] show "p = q" by (simp add: 0)
  qed
qed

subsection \<open>Steps\<close>

text \<open>A predicate that survives every call but \<open>payinvoice\<close>.\<close>

definition stable :: "('n phx \<Rightarrow> bool) \<Rightarrow> bool" where
  "stable P \<longleftrightarrow> (\<forall>s. P s \<longrightarrow> hash_owned s) \<and>
     (\<forall>s n. P s \<longrightarrow> wallet_calm moved cur (px_node s) n \<longrightarrow> P (s\<lparr>px_node := n\<rparr>))"

lemma stable_owned [simp]: "stable P \<Longrightarrow> P s \<Longrightarrow> hash_owned s"
  by (simp add: stable_def)

lemma stable_node: "stable P \<Longrightarrow> P s \<Longrightarrow> wallet_calm moved cur (px_node s) n \<Longrightarrow> P (s\<lparr>px_node := n\<rparr>)"
  by (simp add: stable_def)

lemma stable_call:
  assumes P: "stable P" and f: "\<And>n r n'. f n = (r, n') \<Longrightarrow> wallet_calm moved cur n n'"
    and Q: "\<And>s x n. P s \<Longrightarrow> f (px_node s) = (Inr x, n) \<Longrightarrow> P (s\<lparr>px_node := n\<rparr>) \<Longrightarrow> Q x (s\<lparr>px_node := n\<rparr>)"
  shows "triple hash_owned P (px_call f) Q"
  by (rule triple_call) (auto split: sum.splits intro: stable_node [OF P] f Q stable_owned [OF P])

lemma stable_read:
  assumes P: "stable P" and Q: "\<And>s. P s \<Longrightarrow> Q (f (px_tab s)) s"
  shows "triple hash_owned P (px_read B f) Q"
proof -
  have calm: "P s \<Longrightarrow> P (s\<lparr>px_node := snd (po_read B (px_node s))\<rparr>)" for s
    by (rule stable_node [OF P]) (auto intro: read_calm prod.collapse [symmetric])
  show ?thesis
    by (rule triple_read) (use calm Q stable_owned [OF P] in fastforce)+
qed

lemma stable_write:
  assumes P: "stable P" and Q: "\<And>s x t. P s \<Longrightarrow> f (px_tab s) = Inr (x, t) \<Longrightarrow> Q (s\<lparr>px_tab := t\<rparr>)"
  shows "triple hash_owned P (px_write B f) (\<lambda>_. Q)"
proof (rule triple_write)
  fix s x t n assume s: "P s" "po_commit B (px_node s) = (None, n)" "f (px_tab s) = Inr (x, t)"
  have "P (s\<lparr>px_node := n\<rparr>)" by (rule stable_node [OF P s(1) commit_calm [OF s(2)]])
  from Q [OF this] s(3) have "Q (s\<lparr>px_node := n, px_tab := t\<rparr>)" by simp
  moreover have "s\<lparr>px_node := n, px_tab := t\<rparr> = s\<lparr>px_tab := t, px_node := n\<rparr>" by (cases s) simp
  ultimately show "Q (s\<lparr>px_tab := t, px_node := n\<rparr>)" by simp
next
  fix s assume "P s"
  then show "hash_owned (s\<lparr>px_node := snd (po_commit B (px_node s))\<rparr>)"
    by (intro stable_owned [OF P] stable_node [OF P]) (auto intro: commit_calm prod.collapse [symmetric])
qed

lemma stable_refuse: "stable P \<Longrightarrow> triple hash_owned P (px_refuse e) Q"
  by (rule triple_refuse) simp

lemma stable_fail: "stable P \<Longrightarrow> triple hash_owned P (px_fail e) Q"
  by (rule triple_fail) simp

lemma owned_stable: "stable hash_owned"
  by (simp add: stable_def owned_calm)

lemma cur_stable: "stable P \<Longrightarrow> stable (\<lambda>s. P s \<and> i = cur (px_node s))"
  by (auto simp: stable_def wallet_calm_def)

definition ready :: "string \<Rightarrow> 'n phx \<Rightarrow> bool" where
  "ready k s \<longleftrightarrow> hash_owned s \<and> idle k s"

definition clear :: "string \<Rightarrow> string \<Rightarrow> 'n phx \<Rightarrow> bool" where
  "clear k h s \<longleftrightarrow> ready k s \<and> unowned k h s"

definition sending :: "string \<Rightarrow> string \<Rightarrow> 'n phx \<Rightarrow> bool" where
  "sending k h s \<longleftrightarrow> hash_owned s \<and> armed k h s"

definition holding :: "string \<Rightarrow> string \<Rightarrow> 'n phx \<Rightarrow> bool" where
  "holding k h s \<longleftrightarrow> hash_owned s \<and> holds k h s"

lemma stables: "stable (ready k)" "stable (clear k h)" "stable (sending k h)" "stable (holding k h)"
  by (auto simp: stable_def ready_def clear_def sending_def holding_def unowned_calm holds_node wallet_calm_def
      intro: owned_calm idle_calm armed_calm)

lemma version_triple:
  assumes P: "stable P"
  shows "triple hash_owned P (require_supported_version B F) (\<lambda>info s. P s \<and> nd_id info = cur (px_node s))"
proof -
  let ?Q = "\<lambda>r s. P s \<and> (case r of Inr info \<Rightarrow> nd_id info = cur (px_node s) | Inl e \<Rightarrow> True)"
  have "triple hash_owned P (px_try (px_call (po_info B))) ?Q"
  proof (rule triple_try, rule triple_call)
    fix s r n assume s: "P s" "po_info B (px_node s) = (r, n)"
    have "P (s\<lparr>px_node := n\<rparr>)" by (rule stable_node [OF P s(1) info_reads [OF s(2)]])
    moreover have "nd_id i = cur n" if "r = Inr i" for i using info_names s(2) that by blast
    ultimately show "case r of Inr x \<Rightarrow> ?Q (Inr x) (s\<lparr>px_node := n\<rparr>) | Inl _ \<Rightarrow> \<forall>e. ?Q (Inl e) (s\<lparr>px_node := n\<rparr>)"
      by (cases r) auto
  qed
  then show ?thesis
    unfolding require_supported_version_def
    by (rule triple_then) (auto split: sum.splits intro!: triple_return triple_fail stable_owned [OF P])
qed

lemma refuse_triple: "triple hash_owned (ready k) (refuse_pay B k b h why) (\<lambda>_. hash_owned)"
  unfolding refuse_pay_def
  by (rule triple_then [OF triple_clock], assumption, rule triple_then [OF stable_write [where Q = hash_owned, OF stables(1)]])
     (auto simp: ready_def intro: failed_owned stable_refuse [OF owned_stable])

lemma mark_triple: "triple hash_owned (holding k h) (mark_succeeded B k h pid) (\<lambda>_. hash_owned)"
  unfolding mark_succeeded_def
  by (rule triple_then [OF triple_clock], assumption, rule stable_write [OF stables(4)])
     (auto simp: holding_def intro: succeeded_owned)

lemma adopt_triple: "triple hash_owned (holding k h) (adopt_paid B k r h) (\<lambda>_. hash_owned)"
  unfolding adopt_paid_def by (rule triple_then [OF mark_triple]) (rule triple_return)

lemma sending_holding: "sending k h s \<Longrightarrow> holding k h s"
  by (simp add: sending_def holding_def armed_holds)

lemma no_receipt_triple: "triple hash_owned (sending k h) (after_no_receipt B k h e) (\<lambda>_. hash_owned)"
proof -
  have "triple hash_owned (sending k h) (px_context c (px_call (po_outgoing B h))) (\<lambda>_. holding k h)" for c
    by (intro triple_context stable_call [OF stables(3)]) (auto intro: outgoing_reads sending_holding)
  then show ?thesis
    unfolding after_no_receipt_def
    by (rule triple_then) (auto split: option.splits intro!: adopt_triple stable_refuse [OF stables(4)])
qed

lemma audit_triple: "triple hash_owned hash_owned (audit_inv1 B h) (\<lambda>_. hash_owned)"
proof -
  have "triple hash_owned hash_owned (px_try (px_call (po_outgoing B h))) (\<lambda>_. hash_owned)"
    by (rule triple_try [where Q = "\<lambda>_. hash_owned"], rule triple_call)
       (auto split: sum.splits intro: owned_calm outgoing_reads)
  then show ?thesis unfolding audit_inv1_def by (rule triple_then) (rule triple_return)
qed

subsection \<open>The operations\<close>

lemma post_triple:
  assumes d: "po_bolt11 B b = Some d" "de_hash d = h"
  shows "triple hash_owned (sending k h) (post_pay B b k h) (\<lambda>_. hash_owned)"
proof -
  have "triple hash_owned (sending k h) (px_call (po_pay B b)) (\<lambda>_. sending k h)"
  proof (rule triple_call)
    fix s r n assume s: "sending k h s" and run: "po_pay B b (px_node s) = (r, n)"
    from pay_sends [OF run] d have c: "cur n = cur (px_node s)"
      and m: "\<And>i z. moved n i z \<Longrightarrow> moved (px_node s) i z \<or> i = cur (px_node s) \<and> z = h" by auto
    have arm: "armed k h (s\<lparr>px_node := n\<rparr>)" using s c by (auto simp: sending_def intro: armed_calm)
    from s have own: "hash_owned s" by (simp add: sending_def)
    have "hash_owned (s\<lparr>px_node := n\<rparr>)"
      unfolding hash_owned_def
    proof (intro conjI allI impI)
      fix i z assume "moved (px_node (s\<lparr>px_node := n\<rparr>)) i z"
      then have "moved (px_node s) i z \<or> i = cur (px_node s) \<and> z = h" using m by simp
      then show "\<exists>p\<in>set (pays (s\<lparr>px_node := n\<rparr>)). pay_live p \<and> pp_hash p = z \<and> pp_node p = Some i"
        using ownedD(2) [OF own, of i z] s by (auto simp: sending_def armed_def)
    qed (use own in \<open>simp_all add: hash_owned_def\<close>)
    with arm show "case r of Inr x \<Rightarrow> sending k h (s\<lparr>px_node := n\<rparr>) | Inl _ \<Rightarrow> hash_owned (s\<lparr>px_node := n\<rparr>)"
      by (simp add: sending_def split: sum.splits)
  qed
  then have call: "triple hash_owned (sending k h) (px_context c (px_call (po_pay B b))) (\<lambda>_. sending k h)" for c
    by (rule triple_context)
  have mark: "triple hash_owned (sending k h) (mark_succeeded B k h pid) (\<lambda>_. hash_owned)" for pid
    by (rule triple_weaken [OF mark_triple sending_holding])
  have paid: "triple hash_owned (sending k h) (px_then (mark_succeeded B k h pid)
      (\<lambda>_. px_then (audit_inv1 B h) (\<lambda>_. px_return pid))) (\<lambda>_. hash_owned)" for pid
    by (rule triple_then [OF mark], rule triple_then [OF audit_triple]) (rule triple_return)
  show ?thesis
    unfolding post_pay_def
    by (rule triple_then [OF call])
       (auto split: pay_attempt.splits intro!: paid no_receipt_triple stable_refuse [OF stables(3)])
qed

lemma arm_triple:
  assumes d: "po_bolt11 B b = Some d" "de_hash d = h"
  shows "triple hash_owned (clear k h) (arm_and_post B F b k h) (\<lambda>_. hash_owned)"
proof -
  have arm: "triple hash_owned (\<lambda>s. clear k h s \<and> i = cur (px_node s)) (px_write B (pay_upsert_prepared k b h i)) (\<lambda>_. sending k h)" for i
    by (rule stable_write [OF cur_stable [OF stables(2)]])
       (auto simp: clear_def ready_def sending_def intro: prepared_owned)
  show ?thesis
    unfolding arm_and_post_def
    by (rule triple_then [OF version_triple [OF stables(2)]], rule triple_then [OF arm post_triple [OF d]])
qed

lemma other_key_none: "pay_other_key_for_hash h k t = None \<Longrightarrow> p \<in> set (px_pays t) \<Longrightarrow> pay_live p \<Longrightarrow> pp_hash p = h \<Longrightarrow> pp_key p = k"
  by (auto simp: pay_other_key_for_hash_def find_None_all pay_live_def)

lemma guard_triple:
  "triple hash_owned (ready k) (px_read B (pay_other_key_for_hash h k)) (\<lambda>other s. ready k s \<and> (other = None \<longrightarrow> unowned k h s))"
  by (rule stable_read [OF stables(1)]) (auto simp: unowned_def dest: other_key_none)

lemma start_triple: "triple hash_owned (ready k) (start_pay B F b amount k cap) (\<lambda>_. hash_owned)"
proof (cases "po_bolt11 B b")
  case None
  then show ?thesis
    by (simp add: start_pay_def parse_dest_def px_then_def px_fail_def triple_def ready_def)
next
  case (Some d)
  have parse: "triple hash_owned (ready k) (parse_dest B b) (\<lambda>x s. ready k s \<and> x = d)"
    by (simp add: parse_dest_def Some triple_return)
  have clear: "triple hash_owned (\<lambda>s. ready k s \<and> unowned k (de_hash d) s) (arm_and_post B F b k (de_hash d)) (\<lambda>_. hash_owned)"
    by (rule triple_weaken [OF arm_triple [OF Some refl]]) (auto simp: clear_def)
  have guard: "triple hash_owned (ready k) (px_then (px_read B (pay_other_key_for_hash (de_hash d) k)) (\<lambda>other. case other of
        Some q \<Rightarrow> refuse_pay B k b (de_hash d) (HashOwned k q)
      | None \<Rightarrow> if over_cap F (sat_to_msat amount) cap
          then refuse_pay B k b (de_hash d) (OverCap k amount (fee_msat F (sat_to_msat amount)) (unwrap_or (ceiling_msat cap) 0))
          else arm_and_post B F b k (de_hash d))) (\<lambda>_. hash_owned)"
  proof (rule triple_then [OF guard_triple])
    fix other
    show "triple hash_owned (\<lambda>s. ready k s \<and> (other = None \<longrightarrow> unowned k (de_hash d) s)) (case other of
        Some q \<Rightarrow> refuse_pay B k b (de_hash d) (HashOwned k q)
      | None \<Rightarrow> if over_cap F (sat_to_msat amount) cap
          then refuse_pay B k b (de_hash d) (OverCap k amount (fee_msat F (sat_to_msat amount)) (unwrap_or (ceiling_msat cap) 0))
          else arm_and_post B F b k (de_hash d)) (\<lambda>_. hash_owned)"
      by (cases other) (auto intro: triple_weaken [OF refuse_triple] triple_weaken [OF clear])
  qed
  have body: "triple hash_owned (\<lambda>s. ready k s \<and> x = d) (px_then (px_clock B) (\<lambda>now.
       let payout = sat_to_msat amount; hash = de_hash x; refuse = refuse_pay B k b hash
       in if de_expires x \<le> now then refuse (DestinationExpired k (de_expires x) now)
          else case de_msat x of
            None \<Rightarrow> refuse (Amountless k)
          | Some m \<Rightarrow>
              if m \<noteq> payout then refuse (AmountDiffers k m amount)
              else px_then (px_read B (pay_other_key_for_hash hash k)) (\<lambda>other. case other of
                  Some q \<Rightarrow> refuse (HashOwned k q)
                | None \<Rightarrow>
                    if over_cap F payout cap
                    then refuse (OverCap k amount (fee_msat F payout) (unwrap_or (ceiling_msat cap) 0))
                    else arm_and_post B F b k hash))) (\<lambda>_. hash_owned)" for x
  proof (cases "x = d")
    case True
    show ?thesis
      unfolding Let_def True
    proof (rule triple_then [OF triple_clock [where Q = "\<lambda>_. ready k"]])
      fix now
      show "triple hash_owned (ready k)
        (if de_expires d \<le> now then refuse_pay B k b (de_hash d) (DestinationExpired k (de_expires d) now)
         else case de_msat d of
            None \<Rightarrow> refuse_pay B k b (de_hash d) (Amountless k)
          | Some m \<Rightarrow>
              if m \<noteq> sat_to_msat amount then refuse_pay B k b (de_hash d) (AmountDiffers k m amount)
              else px_then (px_read B (pay_other_key_for_hash (de_hash d) k)) (\<lambda>other. case other of
                  Some q \<Rightarrow> refuse_pay B k b (de_hash d) (HashOwned k q)
                | None \<Rightarrow>
                    if over_cap F (sat_to_msat amount) cap
                    then refuse_pay B k b (de_hash d) (OverCap k amount (fee_msat F (sat_to_msat amount)) (unwrap_or (ceiling_msat cap) 0))
                    else arm_and_post B F b k (de_hash d))) (\<lambda>_. hash_owned)"
        using guard refuse_triple
        by (cases "de_expires d \<le> now"; cases "de_msat d"; cases "de_msat d = Some (sat_to_msat amount)")
           (simp_all split del: if_split)
    qed simp
  next
    case False
    then show ?thesis by (simp add: triple_def)
  qed
  show ?thesis unfolding start_pay_def by (rule triple_then [OF parse body])
qed

lemma recover_triple:
  "triple hash_owned (\<lambda>s. hash_owned s \<and> r \<in> set (pays s) \<and> pp_key r = k \<and> pay_live r) (recover_pay B F b amount k cap r) (\<lambda>_. hash_owned)"
proof -
  let ?P = "\<lambda>s. hash_owned s \<and> r \<in> set (pays s) \<and> pp_key r = k \<and> pay_live r"
  let ?N = "\<lambda>s. ?P s \<and> \<not> moved (px_node s) (cur (px_node s)) (pp_hash r)"
  have st: "stable ?P" "stable ?N" by (auto simp: stable_def owned_calm wallet_calm_def)
  have holds: "holding k (pp_hash r) s" if "?P s" for s
    using that row_by_key [of s] by (auto simp: holding_def holds_def)
  have probe: "triple hash_owned ?P (px_call (po_outgoing B (pp_hash r))) (\<lambda>x s. ?P s \<and> (x = None \<longrightarrow> ?N s))"
    by (rule stable_call [OF st(1)]) (auto intro: outgoing_reads dest: not_found_proves)
  have node: "triple hash_owned ?N (require_prepared_node B k r) (\<lambda>_. ready k)"
  proof -
    have info: "triple hash_owned ?N (px_context c (px_call (po_info B))) (\<lambda>i s. ?N s \<and> nd_id i = cur (px_node s))" for c
      by (intro triple_context stable_call [OF st(2)]) (auto intro: info_reads dest: info_names)
    have idle: "ready k s" if s: "?N s" "pp_node r = Some (cur (px_node s))" for s
      unfolding ready_def idle_def
    proof (intro conjI ballI impI allI notI)
      fix p i assume p: "p \<in> set (pays s)" "pp_key p = k" "pay_live p \<and> moved (px_node s) i (pp_hash p)"
      from s p row_by_key [of s p r] have pr: "p = r" by auto
      with p ownedD(2) [of s i "pp_hash r"] s obtain q where q: "q \<in> set (pays s)" "pay_live q" "pp_hash q = pp_hash r" "pp_node q = Some i"
        by blast
      with ownedD(3) [of s q r] s have "q = r" by blast
      with q(4) s(2) have "i = cur (px_node s)" by simp
      with s(1) p(3) pr show False by blast
    qed (use s in blast)
    show ?thesis
      unfolding require_prepared_node_def
    proof (rule triple_then [OF info])
      fix i
      show "triple hash_owned (\<lambda>s. ?N s \<and> nd_id i = cur (px_node s)) (case pp_node r of
          Some prepared \<Rightarrow> if prepared = nd_id i then px_return () else px_refuse (OtherNode k prepared (nd_id i))
        | None \<Rightarrow> px_refuse (UnknownNode k (pp_hash r))) (\<lambda>_. ready k)"
      proof (cases "pp_node r = Some (nd_id i)")
        case True
        have "triple hash_owned (\<lambda>s. ?N s \<and> nd_id i = cur (px_node s)) (px_return ()) (\<lambda>_. ready k)"
          by (rule triple_return, rule idle) (use True in simp_all)
        with True show ?thesis by simp
      next
        case False
        have "triple hash_owned (\<lambda>s. ?N s \<and> nd_id i = cur (px_node s)) (px_refuse e) (\<lambda>_. ready k)" for e
          by (rule triple_refuse) blast
        with False show ?thesis by (cases "pp_node r") simp_all
      qed
    qed
  qed
  have start: "triple hash_owned ?N (px_then (require_prepared_node B k r) (\<lambda>_. start_pay B F b amount k cap)) (\<lambda>_. hash_owned)"
    by (rule triple_then [OF node start_triple])
  show ?thesis
    unfolding recover_pay_def
    by (rule triple_then [OF probe])
       (auto split: option.splits intro!: triple_weaken [OF start] triple_weaken [OF adopt_triple] triple_refuse holds)
qed

lemma pay_triple: "triple hash_owned hash_owned (pay_inner B F b amount k cap) (\<lambda>_. hash_owned)"
proof -
  let ?Q = "\<lambda>row s. hash_owned s \<and> row = pay_get k (px_tab s)"
  have read: "triple hash_owned hash_owned (px_read B (pay_get k)) ?Q"
    by (rule stable_read [OF owned_stable]) simp
  have failed: "ready k s" if "?Q (Some r) s" "pp_status r = status_failed" for r s
  proof -
    from that pay_get_row [of k "px_tab s" r] have r: "r \<in> set (pays s)" "pp_key r = k" by auto
    have "p = r" if "p \<in> set (pays s)" "pp_key p = k" for p
      using row_by_key [of s p r] \<open>?Q (Some r) s\<close> r that by simp
    with that show ?thesis by (auto simp: ready_def idle_def pay_live_def)
  qed
  have prepared: "hash_owned s \<and> r \<in> set (pays s) \<and> pp_key r = k \<and> pay_live r"
    if "?Q (Some r) s" "pp_status r = status_prepared" for r s
    using that pay_get_row [of k "px_tab s" r] by (auto simp: pay_live_def status_prepared_def status_failed_def)
  have body: "triple hash_owned (?Q row) (case row of
         None \<Rightarrow> px_refuse (NeverPrepared k)
       | Some r \<Rightarrow>
           if pp_status r = status_succeeded
           then (case pp_payment r of None \<Rightarrow> px_refuse (SucceededWithoutId k) | Some pid \<Rightarrow> px_return pid)
           else if pp_status r = status_prepared then recover_pay B F b amount k cap r
           else if pp_status r = status_failed then start_pay B F b amount k cap
           else px_refuse (InvalidStatus k (pp_status r))) (\<lambda>_. hash_owned)" for row
  proof (cases row)
    case (Some r)
    then show ?thesis
      using triple_weaken [OF recover_triple prepared [where r = r]] triple_weaken [OF start_triple failed [where r = r]]
      by (auto split: option.splits intro!: triple_refuse triple_return)
  qed (auto intro: triple_refuse)
  show ?thesis unfolding pay_inner_def by (rule triple_then [OF read body])
qed

text \<open>A preparation whose witness commits.\<close>

definition witnessed :: "unit px_tx \<Rightarrow> 'n phx \<Rightarrow> bool" where
  "witnessed f s \<longleftrightarrow> hash_owned s \<and> (\<forall>t. f (px_tab s) = Inr ((), t) \<longrightarrow> hash_owned (s\<lparr>px_tab := t\<rparr>))"

lemma prepare_new_triple: "triple hash_owned (ready k) (prepare_new B F k b) witnessed"
proof -
  have up: "witnessed (pay_upsert_failed k b h n) s" if "ready k s" for h n s
    using that by (auto simp: witnessed_def ready_def intro: failed_owned)
  have arm: "witnessed (pay_upsert_prepared k b h (nd_id i)) s" if "clear k h s" "nd_id i = cur (px_node s)" for h i s
    using that by (auto simp: witnessed_def clear_def ready_def intro: prepared_owned)
  have version: "triple hash_owned (clear k h) (px_then (require_supported_version B F)
      (\<lambda>node. px_return (pay_upsert_prepared k b h (nd_id node)))) witnessed" for h
    by (rule triple_then [OF version_triple [OF stables(2)]]) (auto intro!: triple_return arm)
  have fail: "triple hash_owned (ready k) (px_then (px_clock B) (\<lambda>now. px_return (pay_upsert_failed k b h now))) witnessed" for h
    by (rule triple_then [OF triple_clock [where Q = "\<lambda>_. ready k"]]) (auto intro!: triple_return up)
  have parse: "triple hash_owned (ready k) (parse_dest B b) (\<lambda>_. ready k)"
    unfolding parse_dest_def by (auto split: option.splits intro!: triple_return stable_fail [OF stables(1)])
  show ?thesis
    unfolding prepare_new_def
    by (rule triple_then [OF parse], rule triple_then [OF guard_triple])
       (auto split: option.splits simp: clear_def [symmetric] intro: triple_weaken [OF fail] triple_weaken [OF version])
qed

lemma prepare_triple: "triple hash_owned hash_owned (prepare_pay B F k b) witnessed"
proof -
  let ?Q = "\<lambda>row s. hash_owned s \<and> row = pay_get k (px_tab s)"
  have read: "triple hash_owned hash_owned (px_read B (pay_get k)) ?Q"
    by (rule stable_read [OF owned_stable]) simp
  have ready: "ready k s" if "?Q row s" "\<forall>r. row = Some r \<longrightarrow> pp_status r = status_failed" for row s
  proof -
    have "pp_status p = status_failed" if "p \<in> set (pays s)" "pp_key p = k" for p
    proof (cases row)
      case None
      with \<open>?Q row s\<close> that show ?thesis by (simp add: pay_get_None eq_commute [of None])
    next
      case (Some r)
      with \<open>?Q row s\<close> pay_get_row [of k "px_tab s" r] row_by_key [of s p r] that
        \<open>\<forall>r. row = Some r \<longrightarrow> pp_status r = status_failed\<close> show ?thesis by auto
    qed
    with that(1) show ?thesis by (auto simp: ready_def idle_def pay_live_def)
  qed
  have body: "triple hash_owned (?Q row) (case row of
         Some r \<Rightarrow> if pp_status r \<noteq> status_failed then px_return (\<lambda>t. Inr ((), t)) else prepare_new B F k b
       | None \<Rightarrow> prepare_new B F k b) witnessed" for row
  proof (cases "\<exists>r. row = Some r \<and> pp_status r \<noteq> status_failed")
    case True
    then show ?thesis by (auto intro!: triple_return simp: witnessed_def)
  next
    case False
    then have "triple hash_owned (?Q row) (prepare_new B F k b) witnessed"
      by (intro triple_weaken [OF prepare_new_triple]) (use ready [where row = row] in auto)
    with False show ?thesis by (auto split: option.splits)
  qed
  show ?thesis unfolding prepare_pay_def by (rule triple_then [OF read body])
qed

end

subsection \<open>Runs\<close>

text \<open>
  The life of the pay table, over restarts: preparations that commit or not, payments, and everything else - the receive
  side, payments that fail at the node, the operator pointing the daemon at another wallet - which neither writes the table
  nor sends.
\<close>

inductive phx_run ::
  "'n phx_ops \<Rightarrow> fee_schedule \<Rightarrow> ('n \<Rightarrow> string \<Rightarrow> string \<Rightarrow> bool) \<Rightarrow> 'n phx \<Rightarrow> 'n phx \<Rightarrow> bool"
  for B F moved s where
  phx_start: "phx_run B F moved s s"
| phx_prepared: "phx_run B F moved s s1 \<Longrightarrow> prepare_pay B F k b s1 = (Inr f, s2) \<Longrightarrow> f (px_tab s2) = Inr ((), t) \<Longrightarrow>
    phx_run B F moved s (s2\<lparr>px_tab := t\<rparr>)"
| phx_unprepared: "phx_run B F moved s s1 \<Longrightarrow> prepare_pay B F k b s1 = (r, s2) \<Longrightarrow> phx_run B F moved s s2"
| phx_paid: "phx_run B F moved s s1 \<Longrightarrow> pay_inner B F b amount k cap s1 = (r, s2) \<Longrightarrow> phx_run B F moved s s2"
| phx_rest: "phx_run B F moved s s1 \<Longrightarrow> pays s2 = pays s1 \<Longrightarrow>
    \<forall>i h. moved (px_node s2) i h \<longrightarrow> moved (px_node s1) i h \<Longrightarrow> phx_run B F moved s s2"

context phoenixd_wallet
begin

lemma run_owned: "phx_run B F moved s s' \<Longrightarrow> hash_owned s \<Longrightarrow> hash_owned s'"
proof (induction rule: phx_run.induct)
  case (phx_prepared s1 k b f s2 t)
  with tripleD [OF prepare_triple _ phx_prepared(2)] show ?case by (simp add: witnessed_def)
next
  case (phx_unprepared s1 k b r s2)
  with tripleD [OF prepare_triple _ phx_unprepared(2)] show ?case by (auto simp: witnessed_def split: sum.splits)
next
  case (phx_paid s1 b amount k cap r s2)
  with triple_inv [OF pay_triple _ phx_paid(2)] show ?case by simp
next
  case (phx_rest s1 s2)
  then show ?case unfolding hash_owned_def by auto
qed

end

text \<open>
  C2. Each payment hash is sent once, for one idempotency key, from one wallet. Start with an empty pay table and a wallet
  that has sent nothing, and let preparations, payments, store failures, lost answers, crashes, restarts and changes of
  wallet happen in any order: whenever money may have moved through a hash, exactly one row that is not a refusal owns
  the hash, and it is stamped with the wallet that moved it.
\<close>

theorem phoenixd_sends_each_hash_once:
  assumes wallet: "phoenixd_wallet B moved cur"
    and start: "pays s = []" "\<forall>i h. \<not> moved (px_node s) i h"
    and run: "phx_run B F moved s s'"
    and money: "moved (px_node s') i h"
  shows "\<exists>p\<in>set (pays s'). pay_live p \<and> pp_hash p = h \<and> pp_node p = Some i \<and>
    (\<forall>q\<in>set (pays s'). pay_live q \<and> pp_hash q = h \<longrightarrow> q = p)"
proof -
  have "phoenixd_wallet.hash_owned moved s" using start by (simp add: phoenixd_wallet.hash_owned_def [OF wallet])
  note own = phoenixd_wallet.run_owned [OF wallet run this]
  from phoenixd_wallet.ownedD(2) [OF wallet own money] obtain p where
    "p \<in> set (pays s')" "pay_live p" "pp_hash p = h" "pp_node p = Some i" by blast
  then show ?thesis using phoenixd_wallet.ownedD(3) [OF wallet own] by (metis (no_types))
qed

subsection \<open>A wallet that pays\<close>

text \<open>The wallet \<open>w\<close> keeps the hashes it has sent; an invoice is its own hash, for one satoshi, and never expires.\<close>

definition paying_wallet :: "string list phx_ops" where
  "paying_wallet = \<lparr>po_create = \<lambda>a d e x n. (Inl (PxOps []), n), po_incoming = \<lambda>e n. (Inr [], n),
     po_pay = \<lambda>b n. (Inr (Paid ''id'' b), b # n),
     po_outgoing = \<lambda>h n. (Inr (if h \<in> set n then Some \<lparr>og_payment = ''id'', og_hash = h, og_paid = True, og_fees = 0,
         og_completed_ms = Some 1\<rparr> else None), n),
     po_balance = \<lambda>n. (Inr \<lparr>pl_balance = 10, pl_fee_credit = 0\<rparr>, n),
     po_info = \<lambda>n. (Inr \<lparr>nd_id = ''w'', nd_version = ''0.9.0''\<rparr>, n),
     po_safe_version = \<lambda>_. None, po_bolt11 = \<lambda>b. Some \<lparr>de_hash = b, de_msat = Some 1000, de_expires = 100\<rparr>,
     po_clock = \<lambda>_. 9, po_read = \<lambda>n. (None, n), po_commit = \<lambda>n. (None, n), po_send = \<lambda>x n. (True, n),
     po_text = \<lambda>_. []\<rparr>"

definition sent_by_w :: "string list \<Rightarrow> string \<Rightarrow> string \<Rightarrow> bool" where
  "sent_by_w n i h \<longleftrightarrow> i = ''w'' \<and> h \<in> set n"

interpretation paying: phoenixd_wallet paying_wallet sent_by_w "\<lambda>_. ''w''"
  by unfold_locales (auto simp: paying_wallet_def wallet_calm_def sent_by_w_def split: if_splits)

definition no_pays :: "string list phx" where
  "no_pays = \<lparr>px_tab = \<lparr>px_invoices = [], px_refusals = [], px_pays = []\<rparr>, px_sink = None, px_alerts = [], px_node = []\<rparr>"

definition pay_row :: "string option \<Rightarrow> string \<Rightarrow> int option \<Rightarrow> phx_pay" where
  "pay_row pid status at = \<lparr>pp_key = ''k'', pp_bolt11 = ''b'', pp_hash = ''b'', pp_node = Some ''w'', pp_payment = pid,
     pp_status = status, pp_terminal = at\<rparr>"

lemma paying_prepare:
  "prepare_pay paying_wallet default_fees ''k'' ''b'' no_pays = (Inr (pay_upsert_prepared ''k'' ''b'' ''b'' ''w''), no_pays)"
  by (simp add: prepare_pay_def prepare_new_def parse_dest_def px_then_def px_read_def px_return_def px_call_def px_try_def
      require_supported_version_def matches_running_version_def default_fees_def pay_get_def pay_other_key_for_hash_def
      paying_wallet_def no_pays_def)

definition one_prepared :: "string list phx" where
  "one_prepared = no_pays\<lparr>px_tab := \<lparr>px_invoices = [], px_refusals = [], px_pays = [pay_row None ''PREPARED'' None]\<rparr>\<rparr>"

lemma paying_commit: "pay_upsert_prepared ''k'' ''b'' ''b'' ''w'' (px_tab no_pays) = Inr ((), px_tab one_prepared)"
  by (simp add: pay_upsert_prepared_def pay_get_def no_pays_def one_prepared_def pay_row_def status_prepared_def)

lemma paying_pay:
  "\<exists>s'. pay_inner paying_wallet default_fees ''b'' 1 ''k'' (Gross 10) one_prepared = (Inr ''id'', s') \<and>
     px_node s' = [''b''] \<and> pays s' = [pay_row (Some ''id'') ''SUCCEEDED'' (Some 9)]"
  by (simp add: Let_def pay_inner_def px_then_def px_read_def pay_get_def recover_pay_def px_call_def require_prepared_node_def
      px_context_def px_return_def start_pay_def parse_dest_def px_clock_def px_now_def pay_other_key_for_hash_def
      over_cap_def fee_msat_def div_ceil_def saturating_mul_u128_def saturating_add_u128_def default_fees_def sat_to_msat_def
      arm_and_post_def require_supported_version_def px_try_def matches_running_version_def px_write_def
      pay_upsert_prepared_def not_succeeded_def post_pay_def mark_succeeded_def pay_mark_succeeded_def audit_inv1_def
      status_prepared_def status_succeeded_def status_failed_def pay_row_def one_prepared_def no_pays_def paying_wallet_def)

theorem phoenixd_sends_each_hash_once_witness:
  "\<exists>s'. phx_run paying_wallet default_fees sent_by_w no_pays s' \<and> sent_by_w (px_node s') ''w'' ''b'' \<and>
     (\<exists>p\<in>set (pays s'). pay_live p \<and> pp_hash p = ''b'' \<and> pp_key p = ''k'')"
proof -
  have "phx_run paying_wallet default_fees sent_by_w no_pays (no_pays\<lparr>px_tab := px_tab one_prepared\<rparr>)"
    by (rule phx_prepared [OF phx_start paying_prepare paying_commit])
  then have r1: "phx_run paying_wallet default_fees sent_by_w no_pays one_prepared" by (simp add: one_prepared_def)
  obtain s' where s': "pay_inner paying_wallet default_fees ''b'' 1 ''k'' (Gross 10) one_prepared = (Inr ''id'', s')"
    "px_node s' = [''b'']" "pays s' = [pay_row (Some ''id'') ''SUCCEEDED'' (Some 9)]" using paying_pay by blast
  have r2: "phx_run paying_wallet default_fees sent_by_w no_pays s'" by (rule phx_paid [OF r1 s'(1)])
  have m: "sent_by_w (px_node s') ''w'' ''b''" by (simp add: s'(2) sent_by_w_def)
  from phoenixd_sends_each_hash_once [OF paying.phoenixd_wallet_axioms _ _ r2 m]
  obtain p where "p \<in> set (pays s')" "pay_live p" "pp_hash p = ''b''" by (auto simp: no_pays_def sent_by_w_def)
  with r2 m s'(3) show ?thesis by (auto simp: pay_row_def)
qed

end
