(* ===== verification/Phoenixd_Http.thy ===== *)
theory Phoenixd_Http
  imports Phoenixd_Wallet
begin

text \<open>
  The only part of \<open>daemon/src/phoenixd_backend.rs\<close> that speaks HTTP to phoenixd, \<open>mod real\<close>: the requests, the decoding of the
  answers by \<open>serde\<close>'s derived rules, the proof a 404 must carry, and what of an error body may be logged. The HTTP client,
  the JSON parser and \<open>Url::join\<close> are the record \<open>http\<close>.

  The last section carries the promises of the wallet over to the promises of the server behind the client.
\<close>

subsection \<open>Requests\<close>

record http_request =
  hr_post :: bool
  hr_url :: string
  hr_query :: "(string \<times> string) list"
  hr_form :: "(string \<times> string) list"
  hr_timeout :: nat

record phx_response =
  hp_status :: nat
  hp_body :: string

record 'n http =
  ht_send :: "http_request \<Rightarrow> 'n \<Rightarrow> (string + phx_response) \<times> 'n" \<comment> \<open>\<open>Inl\<close>: no response\<close>
  ht_join :: "string \<Rightarrow> string option" \<comment> \<open>\<open>Url::join\<close> on the configured base\<close>
  ht_json :: "string \<Rightarrow> json option" \<comment> \<open>\<open>serde_json\<close>'s parser\<close>
  ht_reason :: "nat \<Rightarrow> string" \<comment> \<open>the status line as the client prints it\<close>
  ht_password :: string

definition http_timeout_s :: nat where "http_timeout_s = 30"
definition pay_timeout_s :: nat where "pay_timeout_s = 120"

definition get_request :: "string \<Rightarrow> (string \<times> string) list \<Rightarrow> http_request" where
  "get_request url query = \<lparr>hr_post = False, hr_url = url, hr_query = query, hr_form = [], hr_timeout = http_timeout_s\<rparr>"

definition post_request :: "string \<Rightarrow> (string \<times> string) list \<Rightarrow> nat \<Rightarrow> http_request" where
  "post_request url form timeout = \<lparr>hr_post = True, hr_url = url, hr_query = [], hr_form = form, hr_timeout = timeout\<rparr>"

definition incoming_query :: "string \<Rightarrow> (string \<times> string) list" where
  "incoming_query ext = [(''externalId'', ext), (''all'', ''true'')]"

subsection \<open>Decoding\<close>

text \<open>
  A derived struct reads its fields by name from an object, where a repeated field is an error and others are ignored, or
  by position from an array of at most as many. A field carries whether an object may leave it out and whether an array may.
\<close>

type_synonym field = "string \<times> bool \<times> bool"

definition required :: "string \<Rightarrow> field" where "required k = (k, False, False)"
definition nullable :: "string \<Rightarrow> field" where "nullable k = (k, True, False)" \<comment> \<open>an \<open>Option\<close>\<close>
definition defaulted :: "string \<Rightarrow> field" where "defaulted k = (k, True, True)" \<comment> \<open>an \<open>Option\<close> with \<open>default\<close>\<close>

fun named_fields :: "field list \<Rightarrow> (string \<times> json) list \<Rightarrow> json option list option" where
  "named_fields [] kvs = Some []"
| "named_fields ((k, absent, lax) # fs) kvs =
     (case filter (\<lambda>p. fst p = k) kvs of
        [] \<Rightarrow> if absent then map_option (Cons None) (named_fields fs kvs) else None
      | [(_, v)] \<Rightarrow> map_option (Cons (Some v)) (named_fields fs kvs)
      | _ \<Rightarrow> None)"

fun placed_fields :: "field list \<Rightarrow> json list \<Rightarrow> json option list option" where
  "placed_fields [] [] = Some []"
| "placed_fields [] (_ # _) = None"
| "placed_fields (f # fs) (v # vs) = map_option (Cons (Some v)) (placed_fields fs vs)"
| "placed_fields ((k, absent, lax) # fs) [] = (if lax then map_option (Cons None) (placed_fields fs []) else None)"

fun struct_fields :: "field list \<Rightarrow> json \<Rightarrow> json option list option" where
  "struct_fields fs (JObj kvs) = named_fields fs kvs"
| "struct_fields fs (JArr vs) = placed_fields fs vs"
| "struct_fields fs _ = None"

fun dec_str :: "json option \<Rightarrow> string option" where
  "dec_str (Some (JStr s)) = Some s"
| "dec_str _ = None"

fun dec_bool :: "json option \<Rightarrow> bool option" where
  "dec_bool (Some (JBool b)) = Some b"
| "dec_bool _ = None"

fun dec_u64 :: "json option \<Rightarrow> nat option" where
  "dec_u64 (Some (JInt i)) = (if 0 \<le> i \<and> i < 2 ^ 64 then Some (nat i) else None)"
| "dec_u64 _ = None"

fun dec_opt_i64 :: "json option \<Rightarrow> int option option" where
  "dec_opt_i64 None = Some None"
| "dec_opt_i64 (Some JNull) = Some None"
| "dec_opt_i64 (Some (JInt i)) = (if - (2 ^ 63) \<le> i \<and> i < 2 ^ 63 then Some (Some i) else None)"
| "dec_opt_i64 _ = None"

fun dec_opt_str :: "json option \<Rightarrow> string option option" where
  "dec_opt_str None = Some None"
| "dec_opt_str (Some JNull) = Some None"
| "dec_opt_str (Some (JStr s)) = Some (Some s)"
| "dec_opt_str _ = None"

definition create_invoice_fields :: "field list" where
  "create_invoice_fields = [required ''amountSat'', required ''paymentHash'', required ''serialized'']"

definition decode_create_invoice :: "json \<Rightarrow> phx_new_invoice option" where
  "decode_create_invoice j =
     (case struct_fields create_invoice_fields j of
        Some [a, h, b] \<Rightarrow>
          (case (dec_u64 a, dec_str h, dec_str b) of
             (Some amount, Some hash, Some bolt11) \<Rightarrow> Some \<lparr>ni_amount = amount, ni_hash = hash, ni_bolt11 = bolt11\<rparr>
           | _ \<Rightarrow> None)
      | _ \<Rightarrow> None)"

definition incoming_fields :: "field list" where
  "incoming_fields = [required ''paymentHash'', required ''invoice'', required ''isPaid'', required ''isExpired'',
     required ''requestedSat'', required ''receivedSat'', nullable ''completedAt'', defaulted ''expiresAt'']"

definition decode_incoming :: "json \<Rightarrow> phx_incoming option" where
  "decode_incoming j =
     (case struct_fields incoming_fields j of
        Some [h, b, p, e, q, r, c, x] \<Rightarrow>
          (case (dec_str h, dec_str b, dec_bool p, dec_bool e, dec_u64 q, dec_u64 r, dec_opt_i64 c, dec_opt_i64 x) of
             (Some hash, Some bolt11, Some paid, Some expired, Some requested, Some received, Some completed, Some expires) \<Rightarrow>
               Some \<lparr>ic_hash = hash, ic_bolt11 = bolt11, ic_paid = paid, ic_expired = expired, ic_requested = requested,
                     ic_received = received, ic_completed_ms = completed, ic_expires_ms = expires\<rparr>
           | _ \<Rightarrow> None)
      | _ \<Rightarrow> None)"

fun decode_all :: "(json \<Rightarrow> 'a option) \<Rightarrow> json list \<Rightarrow> 'a list option" where
  "decode_all f [] = Some []"
| "decode_all f (j # js) =
     (case f j of None \<Rightarrow> None | Some x \<Rightarrow> map_option (Cons x) (decode_all f js))"

fun decode_list :: "(json \<Rightarrow> 'a option) \<Rightarrow> json \<Rightarrow> 'a list option" where
  "decode_list f (JArr js) = decode_all f js"
| "decode_list f _ = None"

definition outgoing_fields :: "field list" where
  "outgoing_fields = [required ''paymentId'', required ''paymentHash'', required ''isPaid'', required ''fees'',
     defaulted ''completedAt'']"

definition decode_outgoing :: "json \<Rightarrow> phx_outgoing option" where
  "decode_outgoing j =
     (case struct_fields outgoing_fields j of
        Some [i, h, p, f, c] \<Rightarrow>
          (case (dec_str i, dec_str h, dec_bool p, dec_u64 f, dec_opt_i64 c) of
             (Some pid, Some hash, Some paid, Some fees, Some completed) \<Rightarrow>
               Some \<lparr>og_payment = pid, og_hash = hash, og_paid = paid, og_fees = fees, og_completed_ms = completed\<rparr>
           | _ \<Rightarrow> None)
      | _ \<Rightarrow> None)"

definition pay_invoice_fields :: "field list" where
  "pay_invoice_fields = [defaulted ''paymentId'', defaulted ''paymentHash'', defaulted ''paymentPreimage'', defaulted ''reason'']"

text \<open>A receipt is a payment id and a preimage, with the hash.\<close>

definition decode_pay_invoice :: "json \<Rightarrow> pay_attempt option" where
  "decode_pay_invoice j =
     (case struct_fields pay_invoice_fields j of
        Some [i, h, p, r] \<Rightarrow>
          (case (dec_opt_str i, dec_opt_str h, dec_opt_str p, dec_opt_str r) of
             (Some pid, Some hash, Some preimage, Some reason) \<Rightarrow>
               Some (case (pid, preimage, hash) of
                   (Some i', Some _, Some h') \<Rightarrow> Paid i' h'
                 | _ \<Rightarrow> NoReceipt reason)
           | _ \<Rightarrow> None)
      | _ \<Rightarrow> None)"

definition decode_balance :: "json \<Rightarrow> phx_balance option" where
  "decode_balance j =
     (case struct_fields [required ''balanceSat'', required ''feeCreditSat''] j of
        Some [b, c] \<Rightarrow>
          (case (dec_u64 b, dec_u64 c) of
             (Some balance, Some credit) \<Rightarrow> Some \<lparr>pl_balance = balance, pl_fee_credit = credit\<rparr>
           | _ \<Rightarrow> None)
      | _ \<Rightarrow> None)"

definition decode_node_info :: "json \<Rightarrow> phx_node_info option" where
  "decode_node_info j =
     (case struct_fields [required ''nodeId'', required ''version''] j of
        Some [i, v] \<Rightarrow>
          (case (dec_str i, dec_str v) of
             (Some node, Some version) \<Rightarrow> Some \<lparr>nd_id = node, nd_version = version\<rparr>
           | _ \<Rightarrow> None)
      | _ \<Rightarrow> None)"

subsection \<open>What of an error body may be logged\<close>

definition error_body_log_limit :: nat where "error_body_log_limit = 512"

function replace_text :: "string \<Rightarrow> string \<Rightarrow> string \<Rightarrow> string" where
  "replace_text p r s =
     (if p = [] \<or> s = [] then s
      else if starts_with p s then r @ replace_text p r (drop (length p) s)
      else hd s # replace_text p r (tl s))"
  by pat_completeness auto

termination
  by (relation "measure (\<lambda>(p, r, s). length s)") auto

declare replace_text.simps [simp del]

definition loggable_error_body :: "string \<Rightarrow> string \<Rightarrow> string option" where
  "loggable_error_body body password =
     (let trimmed = str_trim body; lowered = map ascii_lower trimmed
      in if trimmed = [] then None
         else if contains_text ''authorization'' lowered \<or> contains_text ''basic '' lowered then None
         else (let redacted = (if password = [] then trimmed else replace_text password ''<redacted>'' trimmed);
                   snippet = take error_body_log_limit redacted
               in Some (if length snippet < length redacted then snippet @ ellipsis else snippet)))"

subsection \<open>The operations\<close>

definition is_success :: "nat \<Rightarrow> bool" where
  "is_success status \<longleftrightarrow> 200 \<le> status \<and> status < 300"

definition http_json :: "'n http \<Rightarrow> http_request \<Rightarrow> string \<Rightarrow> (json \<Rightarrow> 'a option) \<Rightarrow> 'n \<Rightarrow> (px_error + 'a) \<times> 'n" where
  "http_json H q what dec n =
     (case ht_send H q n of
        (Inl e, n') \<Rightarrow> (Inl (PxContext (''phoenixd '' @ what @ '' request failed'') (PxOps e)), n')
      | (Inr resp, n') \<Rightarrow>
          if \<not> is_success (hp_status resp) then (Inl (PxHttp what (hp_status resp) (ht_reason H (hp_status resp))), n')
          else (case Option.bind (ht_json H (hp_body resp)) dec of
             None \<Rightarrow> (Inl (PxContext (''decoding the phoenixd '' @ what @ '' response'') (PxOps ''decode error'')), n')
           | Some x \<Rightarrow> (Inr x, n')))"

definition at_endpoint :: "'n http \<Rightarrow> string \<Rightarrow> (string \<Rightarrow> 'n \<Rightarrow> (px_error + 'a) \<times> 'n) \<Rightarrow> 'n \<Rightarrow> (px_error + 'a) \<times> 'n" where
  "at_endpoint H path f n =
     (case ht_join H path of
        None \<Rightarrow> (Inl (PxContext (''building the phoenixd '' @ path @ '' url'') (PxOps ''url'')), n)
      | Some url \<Rightarrow> f url n)"

definition real_create_invoice :: "'n http \<Rightarrow> nat \<Rightarrow> string \<Rightarrow> string \<Rightarrow> nat \<Rightarrow> 'n \<Rightarrow> (px_error + phx_new_invoice) \<times> 'n" where
  "real_create_invoice H amount description ext expiry =
     at_endpoint H ''createinvoice'' (\<lambda>url. http_json H
       (post_request url [(''amountSat'', nat_str amount), (''description'', description), (''externalId'', ext),
          (''expirySeconds'', nat_str expiry)] http_timeout_s) ''createinvoice'' decode_create_invoice)"

definition real_incoming :: "'n http \<Rightarrow> string \<Rightarrow> 'n \<Rightarrow> (px_error + phx_incoming list) \<times> 'n" where
  "real_incoming H ext =
     at_endpoint H ''payments/incoming'' (\<lambda>url. http_json H (get_request url (incoming_query ext)) ''payments/incoming''
       (decode_list decode_incoming))"

definition real_pay_invoice :: "'n http \<Rightarrow> string \<Rightarrow> 'n \<Rightarrow> (px_error + pay_attempt) \<times> 'n" where
  "real_pay_invoice H b =
     at_endpoint H ''payinvoice'' (\<lambda>url. http_json H (post_request url [(''invoice'', b)] pay_timeout_s) ''payinvoice''
       decode_pay_invoice)"

definition clean_not_found :: "phx_response \<Rightarrow> bool" where
  "clean_not_found resp \<longleftrightarrow> hp_status resp = 404 \<and> eq_ignore_case (str_trim (hp_body resp)) ''not found''"

definition outgoing_path :: "string \<Rightarrow> string" where
  "outgoing_path hash = ''payments/outgoingbyhash/'' @ hash"

definition real_outgoing :: "'n http \<Rightarrow> string \<Rightarrow> 'n \<Rightarrow> (px_error + phx_outgoing option) \<times> 'n" where
  "real_outgoing H hash =
     at_endpoint H (outgoing_path hash) (\<lambda>url n.
       case ht_send H (get_request url []) n of
         (Inl e, n') \<Rightarrow> (Inl (PxContext ''phoenixd payments/outgoingbyhash request failed'' (PxOps e)), n')
       | (Inr resp, n') \<Rightarrow>
           if hp_status resp = 404
           then (if clean_not_found resp then (Inr None, n')
                 else (Inl (PxOps ''404 with an unrecognised body''), n'))
           else if \<not> is_success (hp_status resp)
           then (Inl (PxOps (''phoenixd payments/outgoingbyhash returned HTTP '' @ ht_reason H (hp_status resp))), n')
           else (case Option.bind (ht_json H (hp_body resp)) decode_outgoing of
               None \<Rightarrow> (Inl (PxContext ''decoding the phoenixd payments/outgoingbyhash response'' (PxOps ''decode error'')), n')
             | Some r \<Rightarrow>
                 if str_trim (og_payment r) = []
                 then (Inl (PxOps ''phoenixd payments/outgoingbyhash returned an empty paymentId''), n')
                 else (Inr (Some r), n')))"

definition real_balance :: "'n http \<Rightarrow> 'n \<Rightarrow> (px_error + phx_balance) \<times> 'n" where
  "real_balance H = at_endpoint H ''getbalance'' (\<lambda>url. http_json H (get_request url []) ''getbalance'' decode_balance)"

definition real_node_info :: "'n http \<Rightarrow> 'n \<Rightarrow> (px_error + phx_node_info) \<times> 'n" where
  "real_node_info H = at_endpoint H ''getinfo'' (\<lambda>url. http_json H (get_request url []) ''getinfo'' decode_node_info)"

text \<open>The operations on the client \<open>H\<close>; the clock, the store, the channel and the invoice parser are those of \<open>E\<close>.\<close>

definition real_ops :: "'n http \<Rightarrow> 'n phx_ops \<Rightarrow> 'n phx_ops" where
  "real_ops H E = E\<lparr>po_create := real_create_invoice H, po_incoming := real_incoming H, po_pay := real_pay_invoice H,
     po_outgoing := real_outgoing H, po_balance := real_balance H, po_info := real_node_info H,
     po_safe_version := \<lambda>v. safe_phoenixd_version v (Some (ht_password H))\<rparr>"

subsection \<open>The server's promises\<close>

text \<open>
  A GET does not send; the text \<open>Not found\<close> with a 404 for a hash proves it was never sent; a decoded \<open>getinfo\<close> names the
  wallet; \<open>payinvoice\<close> sends the hash of the invoice in its form.
\<close>

locale phoenixd_server =
  fixes H :: "'n http" and E :: "'n phx_ops" and moved :: "'n \<Rightarrow> string \<Rightarrow> string \<Rightarrow> bool" and cur :: "'n \<Rightarrow> string"
  assumes get_reads: "\<not> hr_post q \<Longrightarrow> ht_send H q n = (r, n') \<Longrightarrow> wallet_calm moved cur n n'"
    and not_found: "ht_join H (outgoing_path h) = Some url \<Longrightarrow> ht_send H (get_request url []) n = (Inr resp, n') \<Longrightarrow>
      clean_not_found resp \<Longrightarrow> \<not> moved n' (cur n') h"
    and info: "ht_join H ''getinfo'' = Some url \<Longrightarrow> ht_send H (get_request url []) n = (Inr resp, n') \<Longrightarrow>
      is_success (hp_status resp) \<Longrightarrow> Option.bind (ht_json H (hp_body resp)) decode_node_info = Some i \<Longrightarrow> nd_id i = cur n'"
    and pay: "ht_join H ''payinvoice'' = Some url \<Longrightarrow> ht_send H (post_request url [(''invoice'', b)] t) n = (a, n') \<Longrightarrow>
      cur n' = cur n \<and> (\<forall>i h. moved n' i h \<longrightarrow> moved n i h \<or> i = cur n \<and> (\<exists>d. po_bolt11 E b = Some d \<and> h = de_hash d))"
    and store_reads: "po_read E n = (e, n') \<Longrightarrow> wallet_calm moved cur n n'"
    and store_commits: "po_commit E n = (e, n') \<Longrightarrow> wallet_calm moved cur n n'"
begin

lemma wallet_calm_refl: "wallet_calm moved cur n n"
  by (simp add: wallet_calm_def)

lemma json_reads: "\<not> hr_post q \<Longrightarrow> http_json H q what dec n = (r, n') \<Longrightarrow> wallet_calm moved cur n n'"
  by (auto simp: http_json_def split: prod.splits sum.splits if_splits option.splits dest: get_reads)

lemma get_not_post [simp]: "\<not> hr_post (get_request url query)"
  by (simp add: get_request_def)

end

sublocale phoenixd_server \<subseteq> real: phoenixd_wallet "real_ops H E" moved cur
proof unfold_locales
  fix h n r n' assume "po_outgoing (real_ops H E) h n = (r, n')"
  then show "wallet_calm moved cur n n'"
    using wallet_calm_refl
    by (auto simp: real_ops_def real_outgoing_def at_endpoint_def split: prod.splits sum.splits if_splits option.splits
        dest: get_reads [OF get_not_post])
next
  fix h n n' assume "po_outgoing (real_ops H E) h n = (Inr None, n')"
  then show "\<not> moved n' (cur n') h"
    by (auto simp: real_ops_def real_outgoing_def at_endpoint_def split: prod.splits sum.splits if_splits option.splits
        dest: not_found)
next
  fix n q n' assume "po_info (real_ops H E) n = (q, n')"
  then show "wallet_calm moved cur n n'"
    using wallet_calm_refl
    by (auto simp: real_ops_def real_node_info_def at_endpoint_def split: option.splits dest: json_reads [OF get_not_post])
next
  fix n i n' assume "po_info (real_ops H E) n = (Inr i, n')"
  then show "nd_id i = cur n'"
    by (auto simp: real_ops_def real_node_info_def at_endpoint_def http_json_def
        split: prod.splits sum.splits if_splits option.splits dest: info)
next
  fix n e n' assume "po_read (real_ops H E) n = (e, n')"
  then show "wallet_calm moved cur n n'" by (simp add: real_ops_def store_reads)
next
  fix n e n' assume "po_commit (real_ops H E) n = (e, n')"
  then show "wallet_calm moved cur n n'" by (simp add: real_ops_def store_commits)
next
  fix b n a n' assume run: "po_pay (real_ops H E) b n = (a, n')"
  then have "n' = n \<or> (\<exists>url r. ht_join H ''payinvoice'' = Some url \<and>
      ht_send H (post_request url [(''invoice'', b)] pay_timeout_s) n = (r, n'))"
    by (auto simp: real_ops_def real_pay_invoice_def at_endpoint_def http_json_def
        split: prod.splits sum.splits if_splits option.splits)
  then show "cur n' = cur n \<and> (\<forall>i h. moved n' i h \<longrightarrow> moved n i h \<or>
      i = cur n \<and> (\<exists>d. po_bolt11 (real_ops H E) b = Some d \<and> h = de_hash d))"
    by (auto simp: real_ops_def dest: pay)
qed

text \<open>A server in front of \<open>paying_wallet\<close>.\<close>

definition server_json :: "string \<Rightarrow> json option" where
  "server_json body = Some (
     if body = ''info'' then JObj [(''nodeId'', JStr ''w''), (''version'', JStr ''0.9.0'')]
     else JObj [(''paymentId'', JStr ''id''), (''paymentHash'', JStr body), (''paymentPreimage'', JStr ''p''),
                (''isPaid'', JBool True), (''fees'', JInt 0)])"

definition paying_server :: "string list http" where
  "paying_server =
     \<lparr>ht_send = \<lambda>q n.
        (if hr_post q
         then (case hr_form q of
             [(k, b)] \<Rightarrow> if hr_url q = ''payinvoice'' then (Inr \<lparr>hp_status = 200, hp_body = b\<rparr>, b # n) else (Inl [], n)
           | _ \<Rightarrow> (Inl [], n))
         else (case strip_prefix (outgoing_path []) (hr_url q) of
             Some h \<Rightarrow> (Inr (if h \<in> set n then \<lparr>hp_status = 200, hp_body = h\<rparr>
                             else \<lparr>hp_status = 404, hp_body = ''Not found''\<rparr>), n)
           | None \<Rightarrow> (Inr \<lparr>hp_status = 200, hp_body = ''info''\<rparr>, n))),
      ht_join = Some, ht_json = server_json, ht_reason = \<lambda>_. [], ht_password = []\<rparr>"

lemma outgoing_stripped: "strip_prefix (outgoing_path []) (outgoing_path h) = Some h"
  by (simp add: outgoing_path_def strip_prefix_Some)

lemma getinfo_not_outgoing: "strip_prefix (outgoing_path []) ''getinfo'' = None"
  by (simp add: outgoing_path_def)

interpretation server: phoenixd_server paying_server paying_wallet sent_by_w "\<lambda>_. ''w''"
proof unfold_locales
  fix q n r n' assume "\<not> hr_post q" "ht_send paying_server q n = (r, n')"
  then show "wallet_calm sent_by_w (\<lambda>_. ''w'') n n'"
    by (auto simp: paying_server_def wallet_calm_def split: option.splits)
next
  fix h url n resp n'
  assume "ht_join paying_server (outgoing_path h) = Some url" "ht_send paying_server (get_request url []) n = (Inr resp, n')"
    "clean_not_found resp"
  then show "\<not> sent_by_w n' ''w'' h"
    by (auto simp: paying_server_def get_request_def outgoing_stripped clean_not_found_def sent_by_w_def split: if_splits)
next
  fix url n resp n' i
  assume "ht_join paying_server ''getinfo'' = Some url" "ht_send paying_server (get_request url []) n = (Inr resp, n')"
    "is_success (hp_status resp)" "Option.bind (ht_json paying_server (hp_body resp)) decode_node_info = Some i"
  then show "nd_id i = ''w''"
    by (auto simp: paying_server_def get_request_def getinfo_not_outgoing server_json_def decode_node_info_def required_def)
next
  fix url b t n a n'
  assume "ht_join paying_server ''payinvoice'' = Some url" "ht_send paying_server (post_request url [(''invoice'', b)] t) n = (a, n')"
  then show "''w'' = ''w'' \<and> (\<forall>i h. sent_by_w n' i h \<longrightarrow> sent_by_w n i h \<or>
      i = ''w'' \<and> (\<exists>d. po_bolt11 paying_wallet b = Some d \<and> h = de_hash d))"
    by (auto simp: paying_server_def post_request_def sent_by_w_def paying_wallet_def)
qed (auto simp: paying_wallet_def wallet_calm_def)

text \<open>
  Only phoenixd's own answer is read as the proof that nothing was sent: not a 404 of something in front of it, not an error,
  and not a record that does not decode.
\<close>

lemma real_outgoing_none:
  "real_outgoing H h n = (Inr None, n') \<longleftrightarrow>
     (\<exists>url resp. ht_join H (outgoing_path h) = Some url \<and> ht_send H (get_request url []) n = (Inr resp, n') \<and>
        clean_not_found resp)"
  by (auto simp: real_outgoing_def at_endpoint_def clean_not_found_def split: option.splits prod.splits sum.splits if_splits)

lemma proxy_not_found_refused:
  "\<not> eq_ignore_case (str_trim (hp_body resp)) ''not found'' \<Longrightarrow> ht_send H (get_request url []) n = (Inr resp, n1) \<Longrightarrow>
     ht_join H (outgoing_path h) = Some url \<Longrightarrow> real_outgoing H h n \<noteq> (Inr None, n')"
  unfolding real_outgoing_none by (auto simp: clean_not_found_def)

text \<open>The whole money path over HTTP, on this server: one payment and its durable row.\<close>

lemma server_pays_once:
  "phx_run (real_ops paying_server paying_wallet) F sent_by_w no_pays s' \<Longrightarrow> sent_by_w (px_node s') i h \<Longrightarrow>
     \<exists>p\<in>set (pays s'). pay_live p \<and> pp_hash p = h \<and> pp_node p = Some i"
proof -
  assume run: "phx_run (real_ops paying_server paying_wallet) F sent_by_w no_pays s'" and m: "sent_by_w (px_node s') i h"
  have "phoenixd_wallet.hash_owned sent_by_w no_pays"
    by (simp add: server.real.hash_owned_def no_pays_def sent_by_w_def)
  from server.real.run_owned [OF run this] m show ?thesis by (rule server.real.ownedD(2))
qed

end
