(* ===== verification/Spec2Isabelle.thy ===== *)
theory Spec2Isabelle
  imports Op_Props Double_Pay Teardown Reconcile_Props Resume_Props Sweep_Props Order_Props Listing Provision_Props Outbox Operator_Props Lifecycle Supervisor Config_Props Bootstrap_Props Inbound Backfill Relay_Link Hook_Run Phoenixd_Http
begin

text \<open>
  A verification development for \<open>lnrentd\<close>, the daemon that rents a server for sats: a buyer orders a published
  listing over Nostr, pays a Lightning invoice, and the daemon provisions the box, keeps its subscription, tears it down
  when it lapses, and refunds what it cannot serve. File names are relative to \<open>src/\<close>.

  \<^bold>\<open>The program and its parts.\<close> All durable state is one SQLite database with one writer
  (\<open>daemon/src/store.rs\<close>). Everything else reads it, calls a recipe's hook, the payment backend or a relay, and
  commits one transaction. A buyer's message enters through \<open>order_intake.rs\<close>, \<open>provision.rs\<close> (a resend) or
  \<open>op_dispatch.rs\<close>; a settlement enters through \<open>capture.rs\<close>, live or by the catch-up of \<open>supervisor.rs\<close>; the
  clock enters through \<open>reconcile.rs\<close>; the operator enters through \<open>ipc.rs\<close>. Capture and reconcile leave work in the
  tables which the drivers finish: \<open>provision.rs\<close>, \<open>resume.rs\<close>, \<open>refund.rs\<close>, \<open>sweep.rs\<close>, \<open>teardown.rs\<close>,
  \<open>alerts.rs\<close> and the outbox. \<open>supervisor.rs\<close> runs them at boot and in every maintenance pass, on the configuration
  that \<open>config.rs\<close> bootstraps.

  \<^bold>\<open>How the model is built.\<close> A table is the list of its rows in rowid order and a row is a record with the
  columns as fields (\<open>Schema\<close>); NULL is \<open>None\<close>, an \<open>i64\<close> column an \<open>int\<close>, an amount or counter a
  \<open>nat\<close>, with the wrap-around or the saturation written out where the code has one. A transaction is a function
  \<open>db \<Rightarrow> store_error + 'a \<times> db\<close>, named after the code's with the suffix \<open>_txn\<close>; \<open>Inl\<close> rolls back. \<open>Store\<close>
  turns it into a step of the store actor, which commits, rolls back, or latches read-only on a fatal error. A driver
  threads an environment \<open>env\<close> (\<open>Refund\<close>) that holds the store, the alert dispatcher and an unspecified rest
  \<open>'w\<close>, the outside world. Every awaited call of the code is an argument that may change the whole environment, so
  that what other tasks commit while a task waits is covered by the theorems; compare-and-swap conditions are therefore real
  conditions of the model. Every error, early return and panic the code can reach is a value. What the code gets from
  libraries, hooks, the network, or the clock is a parameter of the definitions, collected in records (\<open>ports\<close>,
  \<open>pay_backend\<close>, \<open>ipc_ports\<close>, \<open>bootstrap_ports\<close>, ...).

  \<^bold>\<open>Theories and the code they model.\<close>
  \<^item> \<open>Prelude\<close>, \<open>Schema\<close>: SQL and string vocabulary; the tables with their uniqueness constraints and \<open>db_ok\<close>.
  \<^item> \<open>Reservation\<close> (\<open>reservation.rs\<close>), \<open>Capture\<close> (\<open>capture.rs\<close>), \<open>Ledger\<close> (\<open>ledger.rs\<close>),
    \<open>Store\<close> (\<open>store.rs\<close>), \<open>Alerts\<close>, \<open>Teardown\<close>: the transactions on money and capacity.
  \<^item> \<open>Resolver\<close> (\<open>refund_resolver.rs\<close>), \<open>Refund\<close> with \<open>Refund_Safety\<close>, \<open>Refund_Commits\<close>,
    \<open>Double_Pay\<close> (\<open>refund.rs\<close>), \<open>Mock_Backend\<close> (\<open>backends.rs\<close>), \<open>Sweep\<close>, \<open>Sweep_Props\<close> (\<open>sweep.rs\<close>),
    \<open>Readiness\<close> (\<open>supervisor.rs\<close>, the refund-readiness report): the money that leaves.
  \<^item> \<open>Reconcile\<close>, \<open>Reconcile_Props\<close> (\<open>reconcile.rs\<close>), \<open>Resume\<close>, \<open>Resume_Props\<close> (\<open>resume.rs\<close>),
    \<open>Provision\<close>, \<open>Provision_Props\<close>, \<open>Outbox\<close> (\<open>provision.rs\<close>): the life of a subscription.
  \<^item> \<open>Recipe\<close> (\<open>recipe.rs\<close>), \<open>Hook_Run\<close> (\<open>runner.rs\<close>), \<open>Wire_Dm\<close>, \<open>Wire_Listing\<close> (\<open>wire/src\<close>),
    \<open>Order_Intake\<close>, \<open>Order_Props\<close> (\<open>order_intake.rs\<close>), \<open>Op_Dispatch\<close>, \<open>Op_Props\<close> (\<open>op_dispatch.rs\<close>),
    \<open>Preflight\<close>, \<open>Listing\<close>: what the buyer and the market see.
  \<^item> \<open>Operator\<close>, \<open>Ipc\<close>, \<open>Operator_Props\<close> (\<open>ipc.rs\<close>), \<open>Relay_Status\<close>: what the operator sees and does.
  \<^item> \<open>Catch_Up\<close>, \<open>Supervisor\<close> (\<open>supervisor.rs\<close>), \<open>Config\<close>, \<open>Config_Props\<close>, \<open>Data_Dir\<close>,
    \<open>Bootstrap\<close>, \<open>Bootstrap_Props\<close> (\<open>config.rs\<close>): the process and its configuration.
  \<^item> \<open>Rate_Limit\<close>, \<open>Inbound\<close>, \<open>Backfill\<close>, \<open>Relay_Link\<close> (\<open>nostr_engine.rs\<close>): the per-sender limiter, the
    route of an inbound gift wrap, the fetch of what was missed while disconnected, and the connection itself.
  \<^item> \<open>Phoenixd\<close>, \<open>Phoenixd_Receive\<close>, \<open>Phoenixd_Pay\<close>, \<open>Phoenixd_Http\<close> (\<open>phoenixd_backend.rs\<close>):
    the Lightning backend over a phoenixd node, with its own tables, and the HTTP client under it; \<open>Phoenixd_Props\<close>
    and \<open>Phoenixd_Wallet\<close> hold what it promises the drivers and what it relies on from the node.
  \<^item> \<open>Lifecycle\<close>: the subscription state machine of \<open>SPEC.md\<close> 6.3 and the daemon as a refinement of it.

  \<^bold>\<open>What the lemmas show.\<close> Per component: every transaction keeps \<open>db_ok\<close>; its outcome on each branch; which
  tables it leaves alone (frame lemmas, in the named collections of \<open>Prelude\<close>). Across components: a refund is never
  paid twice, whatever the order of crashes, answers and operator commands (\<open>Double_Pay\<close>); only money the ledger received is refunded; a
  settled payment is granted or refunded, also when it was missed by the live stream; a sweep stays within the surplus; the
  ledger's figure is a lower bound; capacity is never overcommitted short of a 32-bit wrap; a paid renewal is not lapsed; a
  failed resume undoes its renewals; a hook of an operation runs at most once and its reply is durable; a failed or dropped hook leaves nothing of its process group that the daemon may kill; provisioning ends in
  one of two states and what it leaks is destroyed; requests in flight survive a graceful stop; a restart never changes the
  operator's identity or the backend its money goes to; an inbound request of
  a buyer is routed once, is never suppressed by what another sender sent, and is found again after a disconnection; over a
  phoenixd node a payment hash is sent at most once through crashes and retries, an order never gets a second invoice beside
  one that is paid or payable, and a receipt is booked only when spendable money backs it. Every step of the daemon is a step of the specified state machine or
  leaves the state alone (\<open>Lifecycle.daemon_refines_spec\<close>), with the operator's own transitions named apart.

  \<^bold>\<open>Interfaces.\<close> \<open>refund_backend\<close> (\<open>Double_Pay\<close>) is the contract of a payment backend with idempotency keys;
  the theorem that no refund is paid twice is proved inside it, and it is interpreted on the mock of \<open>backends.rs\<close> and on the phoenixd backend.
  \<open>phoenixd_wallet\<close> (\<open>Phoenixd_Wallet\<close>) is the contract of the node under that backend; \<open>phoenixd_server\<close>
  (\<open>Phoenixd_Http\<close>) states the same of the HTTP server that answers the client and gives it by a \<open>sublocale\<close>.
  \<open>sound_tx\<close> (\<open>Refund_Commits\<close>) is the contract of a refund transaction, interpreted by all six of the executor and, in
  \<open>Double_Pay\<close>, by the operator's retry of a refund and release of a fence.

  \<^bold>\<open>Bounds and fuel.\<close> Loops of the code that are bounded by a constant keep it: three attempts of a hook, the redirects
  of a destination lookup, the spawn retries of a hook (\<open>spawn_hook\<close> recurses on the attempts left). The passes over
  tables recurse on the list of rows read. The backfill
  pages at most 256 times back to at most 90 days, and the limiter tracks at most 4096 senders: the constants are the code's.
  Tasks that run for ever (the accept loop of the operator's socket, the operation
  dispatcher, the refund transactions) are step relations, and their theorems are about every finite run; the restart loop is a
  function of the list of runs of its child.

  \<^bold>\<open>Not modelled.\<close> The Lightning backend over the fedimint library (\<open>lnv2_backend.rs\<close>) is behind the backend parameter of
  the drivers, with the trait's documented promises as hypotheses where a theorem needs them. The operator's identity (BIP39,
  NIP-06 and HKDF are library calls), the key handling and encryption of gift wraps, the backup and legacy import, the
  binaries and the wall clock, the texts of wire errors and of logs, the buyer's clients, the tests and the recipe scripts are
  not modelled; neither are the store's schema migrations, its box and setting tables, the building of the supervisor's task
  list, the shutdown of the process itself, or a failing read of the store while a listing is published or withdrawn. A floating-point fee is computed exactly, with the rounding as a parameter. The
  message of a configuration error is kept only as its kind.
\<close>

end
